(* ===== verification/Prelude.thy ===== *)
theory Prelude
  imports Main "HOL-Library.Word" "HOL-Library.Sublist"
begin

text \<open>
  The shared vocabulary of the development: Go error values and their wrap chains, the part
  of \<open>context.Context\<close> the code looks at, byte strings with \<open>strings.TrimSpace\<close> and the
  rune view of a string, UUIDs, the recorded calls of an outside service, and the small list
  lemmas the components share.
\<close>

section \<open>Collections of facts\<close>

named_theorems wire_simps \<open>evaluation of payload composers and event constructors\<close>
named_theorems inv_intros \<open>invariant preservation\<close>
named_theorems frame_simps \<open>what an operation leaves unchanged\<close>

section \<open>Go errors\<close>

text \<open>
  An error value is its chain of links in the order \<open>errors.Is\<close> and \<open>errors.As\<close> visit
  them (the error, then what it wraps, depth first). \<open>Sentinel\<close> is a package-level
  \<open>errors.New\<close> value, named as the code names it; \<open>Classed\<close> is an error whose type has a
  \<open>LastErrorClass() string\<close> method, with the string the method returns; \<open>Text\<close> is any
  other link (a \<open>fmt.Errorf\<close> wrapper, a foreign error). The type \<open>goerr option\<close> is Go's
  \<open>error\<close>: \<open>None\<close> is \<open>nil\<close>.
\<close>

datatype err_link = Sentinel string | Classed string | Text string

type_synonym goerr = "err_link list"

definition errors_is :: "goerr \<Rightarrow> string \<Rightarrow> bool" where
  "errors_is e s \<longleftrightarrow> Sentinel s \<in> set e"

fun errors_as_class :: "goerr \<Rightarrow> string option" where
  "errors_as_class [] = None"
| "errors_as_class (Classed c # _) = Some c"
| "errors_as_class (_ # e) = errors_as_class e"

text \<open>\<open>fmt.Errorf("msg: %w", e)\<close>, and \<open>fmt.Errorf("%w: ...", Err)\<close> for a sentinel.\<close>

definition errorf :: "string \<Rightarrow> goerr \<Rightarrow> goerr" where
  "errorf msg e = Text msg # e"

definition errorf_is :: "string \<Rightarrow> goerr \<Rightarrow> goerr" where
  "errorf_is s e = Text s # Sentinel s # e"

lemma errors_is_simps [simp]:
  "errors_is [] s \<longleftrightarrow> False"
  "errors_is (Sentinel t # e) s \<longleftrightarrow> t = s \<or> errors_is e s"
  "errors_is (Classed t # e) s \<longleftrightarrow> errors_is e s"
  "errors_is (Text t # e) s \<longleftrightarrow> errors_is e s"
  "errors_is (e @ e') s \<longleftrightarrow> errors_is e s \<or> errors_is e' s"
  by (auto simp: errors_is_def)

lemma errors_is_errorf [simp]: "errors_is (errorf msg e) s \<longleftrightarrow> errors_is e s"
  by (simp add: errorf_def)

lemma errors_is_errorf_is [simp]: "errors_is (errorf_is t e) s \<longleftrightarrow> t = s \<or> errors_is e s"
  by (simp add: errorf_is_def)

lemma first_error_None:
  "(case x of None \<Rightarrow> y | Some e \<Rightarrow> Some e) = None \<longleftrightarrow> x = None \<and> y = None"
  by (cases x) simp_all

lemma errors_as_class_errorf [simp]: "errors_as_class (errorf msg e) = errors_as_class e"
  by (simp add: errorf_def)

text \<open>The two sentinels of the standard library's \<open>context\<close> package.\<close>

abbreviation CtxCanceled :: string where
  "CtxCanceled \<equiv> ''context.Canceled''"

abbreviation CtxDeadlineExceeded :: string where
  "CtxDeadlineExceeded \<equiv> ''context.DeadlineExceeded''"

section \<open>Contexts\<close>

text \<open>
  A \<open>context.Context\<close> as the code uses it: its deadline, and what the successive
  \<open>ctx.Err()\<close> calls of one operation answer (the caller may cancel between two of them).
  Values travel in the record's extension.
\<close>

record ctx =
  ctx_deadline :: "int option"
  ctx_err :: "nat \<Rightarrow> goerr option"

text \<open>\<open>context.WithoutCancel\<close>: no deadline, no error, the same values.\<close>

definition without_cancel :: "'z ctx_scheme \<Rightarrow> 'z ctx_scheme" where
  "without_cancel c = c\<lparr>ctx_deadline := None, ctx_err := (\<lambda>_. None)\<rparr>"

definition background :: ctx where
  "background = \<lparr>ctx_deadline = None, ctx_err = (\<lambda>_. None)\<rparr>"

lemma without_cancel_simps [simp]:
  "ctx_deadline (without_cancel c) = None"
  "ctx_err (without_cancel c) n = None"
  "ctx.more (without_cancel c) = ctx.more c"
  "without_cancel (without_cancel c) = without_cancel c"
  by (simp_all add: without_cancel_def)

section \<open>UUIDs\<close>

text \<open>\<open>uuid.UUID\<close> is an array of 16 bytes; \<open>uuid.Nil\<close> is all zero.\<close>

type_synonym uuid = "128 word"

abbreviation uuid_nil :: uuid where
  "uuid_nil \<equiv> 0"

section \<open>Strings as bytes\<close>

text \<open>
  A Go string is a sequence of bytes; a \<open>char\<close> is a byte. \<open>unicode.IsSpace\<close> accepts
  twenty-five code points; these are their UTF-8 encodings.
\<close>

definition space_encodings :: "string list" where
  "space_encodings =
     [[CHR 0x09], [CHR 0x0A], [CHR 0x0B], [CHR 0x0C], [CHR 0x0D], [CHR 0x20],
      [CHR 0xC2, CHR 0x85], [CHR 0xC2, CHR 0xA0], [CHR 0xE1, CHR 0x9A, CHR 0x80]]
     @ map (\<lambda>c. [CHR 0xE2, CHR 0x80, c])
         [CHR 0x80, CHR 0x81, CHR 0x82, CHR 0x83, CHR 0x84, CHR 0x85, CHR 0x86, CHR 0x87,
          CHR 0x88, CHR 0x89, CHR 0x8A, CHR 0xA8, CHR 0xA9, CHR 0xAF]
     @ [[CHR 0xE2, CHR 0x81, CHR 0x9F], [CHR 0xE3, CHR 0x80, CHR 0x80]]"

function trim_by :: "string list \<Rightarrow> string \<Rightarrow> string" where
  "trim_by ps s =
     (case find (\<lambda>p. p \<noteq> [] \<and> prefix p s) ps of
        None \<Rightarrow> s
      | Some p \<Rightarrow> trim_by ps (drop (length p) s))"
  by pat_completeness auto
termination
  by (relation "measure (\<lambda>(ps, s). length s)")
     (auto simp: find_Some_iff prefix_def)

declare trim_by.simps [simp del]

definition trim_space :: "string \<Rightarrow> string" where
  "trim_space s =
     rev (trim_by (map rev space_encodings) (rev (trim_by space_encodings s)))"

text \<open>The test \<open>strings.TrimSpace(s) == ""\<close>.\<close>

definition blank :: "string \<Rightarrow> bool" where
  "blank s \<longleftrightarrow> trim_space s = []"

lemma trim_by_Nil [simp]: "trim_by ps [] = []"
  by (subst trim_by.simps) (auto split: option.split simp: find_Some_iff)

lemma trim_by_stop: "\<forall>p \<in> set ps. p \<noteq> [] \<longrightarrow> \<not> prefix p s \<Longrightarrow> trim_by ps s = s"
  by (subst trim_by.simps) (auto split: option.split simp: find_Some_iff)

lemma blank_Nil [simp]: "blank []"
  by (simp add: blank_def trim_space_def)

lemma not_blank_not_Nil: "\<not> blank s \<Longrightarrow> s \<noteq> []"
  by auto

text \<open>
  \<open>[]rune(s)\<close>: \<open>rune_len\<close> is the length of the well-formed UTF-8 sequence at the front of
  \<open>s\<close>, if there is one. \<open>go_runes\<close> lists the runes of a string, each as the bytes
  \<open>string(r)\<close> gives back: an ill-formed byte is one rune, U+FFFD.
\<close>

definition is_cont :: "nat \<Rightarrow> bool" where
  "is_cont b \<longleftrightarrow> 0x80 \<le> b \<and> b \<le> 0xBF"

fun rune_len_bytes :: "nat list \<Rightarrow> nat option" where
  "rune_len_bytes [] = None"
| "rune_len_bytes (b0 # r) =
     (if b0 < 0x80 then Some 1
      else if 0xC2 \<le> b0 \<and> b0 \<le> 0xDF then
        (case r of b1 # _ \<Rightarrow> if is_cont b1 then Some 2 else None | _ \<Rightarrow> None)
      else if 0xE0 \<le> b0 \<and> b0 \<le> 0xEF then
        (case r of
           b1 # b2 # _ \<Rightarrow>
             if is_cont b1 \<and> is_cont b2 \<and> (b0 = 0xE0 \<longrightarrow> 0xA0 \<le> b1) \<and> (b0 = 0xED \<longrightarrow> b1 \<le> 0x9F)
             then Some 3 else None
         | _ \<Rightarrow> None)
      else if 0xF0 \<le> b0 \<and> b0 \<le> 0xF4 then
        (case r of
           b1 # b2 # b3 # _ \<Rightarrow>
             if is_cont b1 \<and> is_cont b2 \<and> is_cont b3
                \<and> (b0 = 0xF0 \<longrightarrow> 0x90 \<le> b1) \<and> (b0 = 0xF4 \<longrightarrow> b1 \<le> 0x8F)
             then Some 4 else None
         | _ \<Rightarrow> None)
      else None)"

definition rune_len :: "string \<Rightarrow> nat option" where
  "rune_len s = rune_len_bytes (map of_char s)"

function go_runes :: "string \<Rightarrow> string list" where
  "go_runes [] = []"
| "go_runes (c # s) =
     (case rune_len (c # s) of
        None \<Rightarrow> [CHR 0xEF, CHR 0xBF, CHR 0xBD] # go_runes s
      | Some n \<Rightarrow> take n (c # s) # go_runes (drop (n - 1) s))"
  by pat_completeness auto
termination
  by (relation "measure length") auto

lemma length_go_runes_le: "length (go_runes s) \<le> length s"
proof (induction s rule: go_runes.induct)
  case (2 c s)
  then show ?case
    by (force split: option.split)
qed simp

lemma go_runes_ascii: "\<forall>c \<in> set s. of_char c < (0x80 :: nat) \<Longrightarrow> go_runes s = map (\<lambda>c. [c]) s"
  by (induction s) (simp_all add: rune_len_def)

lemma length_go_rune: "r \<in> set (go_runes s) \<Longrightarrow> length r \<le> 4"
proof (induction s rule: go_runes.induct)
  case (2 c s)
  then show ?case
    by (auto split: option.splits if_splits list.splits simp: rune_len_def)
qed simp

section \<open>Machine integers\<close>

text \<open>
  Go's \<open>int64\<close> (and \<open>time.Duration\<close>) as an integer that arithmetic brings back into range:
  \<open>wrap64\<close> is the two's complement value of an exact result.
\<close>

definition int64_min :: int where "int64_min = - (2 ^ 63)"

definition int64_max :: int where "int64_max = 2 ^ 63 - 1"

definition is_int64 :: "int \<Rightarrow> bool" where
  "is_int64 x \<longleftrightarrow> int64_min \<le> x \<and> x \<le> int64_max"

definition wrap64 :: "int \<Rightarrow> int" where
  "wrap64 x = (x + 2 ^ 63) mod 2 ^ 64 - 2 ^ 63"

lemma wrap64_id [simp]: "is_int64 x \<Longrightarrow> wrap64 x = x"
  by (simp add: wrap64_def is_int64_def int64_min_def int64_max_def)

lemma is_int64_wrap64 [simp]: "is_int64 (wrap64 x)"
proof -
  have "0 \<le> (x + 2 ^ 63) mod 2 ^ 64" "(x + 2 ^ 63) mod 2 ^ 64 < (2 ^ 64 :: int)"
    by simp_all
  then show ?thesis
    unfolding wrap64_def is_int64_def int64_min_def int64_max_def by simp
qed

lemma wrap64_high: "int64_max < x \<Longrightarrow> x \<le> int64_max + 2 ^ 64 \<Longrightarrow> wrap64 x = x - 2 ^ 64"
proof -
  assume "int64_max < x" "x \<le> int64_max + 2 ^ 64"
  then have "(x + 2 ^ 63) mod 2 ^ 64 = (x + 2 ^ 63 - 2 ^ 64) mod 2 ^ 64"
    by (metis minus_mod_self2)
  also have "\<dots> = x + 2 ^ 63 - 2 ^ 64"
    using \<open>int64_max < x\<close> \<open>x \<le> int64_max + 2 ^ 64\<close> by (simp add: int64_max_def)
  finally show ?thesis by (simp add: wrap64_def)
qed

section \<open>Wall-clock time\<close>

text \<open>
  A \<open>time.Time\<close> without monotonic reading: seconds since the start of year 1 (an \<open>int64\<close>) and
  nanoseconds. \<open>time.Unix\<close> shifts the Unix seconds by the seconds between year 1 and 1970, in
  \<open>int64\<close>; \<open>Sub\<close> answers the exact difference in nanoseconds, or the smallest or largest
  \<open>Duration\<close> where that does not fit.
\<close>

record gotime =
  gt_sec :: int
  gt_nsec :: int

definition unix_to_internal :: int where
  "unix_to_internal = (1969 * 365 + 1969 div 4 - 1969 div 100 + 1969 div 400) * 86400"

definition time_unix :: "int \<Rightarrow> gotime" where
  "time_unix sec = \<lparr>gt_sec = wrap64 (sec + unix_to_internal), gt_nsec = 0\<rparr>"

definition time_sub :: "gotime \<Rightarrow> gotime \<Rightarrow> int" where
  "time_sub t u =
     (let d = (gt_sec t - gt_sec u) * 10 ^ 9 + (gt_nsec t - gt_nsec u)
      in if d < int64_min then int64_min else if d > int64_max then int64_max else d)"

text \<open>
  A clock between 1970 and the year 2242 (\<open>2 ^ 33\<close> seconds later), and its Unix time in nanoseconds.
\<close>

definition sane_clock :: "gotime \<Rightarrow> bool" where
  "sane_clock t \<longleftrightarrow>
     unix_to_internal \<le> gt_sec t \<and> gt_sec t < unix_to_internal + 2 ^ 33
     \<and> 0 \<le> gt_nsec t \<and> gt_nsec t < 10 ^ 9"

definition unix_nanos :: "gotime \<Rightarrow> int" where
  "unix_nanos t = (gt_sec t - unix_to_internal) * 10 ^ 9 + gt_nsec t"

section \<open>Shared list lemmas\<close>

lemma foldl_cons_snoc: "foldl f a (xs @ [x]) = f (foldl f a xs) x"
  by simp

lemma distinct_map_filter_inj: "distinct (map f xs) \<Longrightarrow> distinct (map f (filter P xs))"
  by (induction xs) auto

lemma filter_neq_id: "x \<notin> set xs \<Longrightarrow> filter (\<lambda>y. y \<noteq> x) xs = xs"
  by (induction xs) auto

end
