(* ===== verification/KeepersLog.thy ===== *)
theory KeepersLog
  imports Prelude
begin

text \<open>
  Audit rows as the components hand them to the Keeper's Log
  (\<^verbatim>\<open>core/pkg/keeperslog\<close>). A payload is a map literal with distinct constant keys,
  kept as an association list in the order the code writes it; \<open>PUuid u\<close> is the string
  \<open>u.String()\<close>. The sink behind the \<open>Append\<close> seam is an outside service: \<open>appender\<close> is its
  answer to the next row, which may depend on every row it was handed before.
\<close>

datatype pval = PUuid uuid | PStr string | PInt int | PBool bool

record log_event =
  ev_type :: string
  ev_payload :: "(string \<times> pval) list"

type_synonym appender = "log_event list \<Rightarrow> log_event \<Rightarrow> goerr option"

definition mk_event :: "string \<Rightarrow> (string \<times> pval) list \<Rightarrow> log_event" where
  "mk_event t p = \<lparr>ev_type = t, ev_payload = p\<rparr>"

lemma mk_event_simps [simp]:
  "ev_type (mk_event t p) = t"
  "ev_payload (mk_event t p) = p"
  "mk_event t p = mk_event t' p' \<longleftrightarrow> t = t' \<and> p = p'"
  by (simp_all add: mk_event_def)

end
