(* ===== verification/Saga.thy ===== *)
theory Saga
  imports KeepersLog
begin

text \<open>
  The spawn saga (\<^verbatim>\<open>core/pkg/spawn/saga\<close>): the persisted row and its states
  (\<^verbatim>\<open>dao.go\<close>), the \<open>SpawnSagaDAO\<close> interface with its in-memory implementation
  (\<^verbatim>\<open>dao_memory.go\<close>), and the \<open>Runner\<close> with its reverse-order rollback
  (\<^verbatim>\<open>saga.go\<close>, \<^verbatim>\<open>compensator.go\<close>). The locale \<open>spawn_saga_dao\<close> is
  the contract of the interface; the runner's lemmas are proved inside it once and reach the
  in-memory store through the interpretation \<open>mem\<close>.
\<close>

section \<open>The saga row\<close>

datatype saga_state = SagaStatePending | SagaStateInFlight | SagaStateCompleted | SagaStateFailed

text \<open>
  Times are nanoseconds; \<open>None\<close> is the zero \<open>time.Time\<close> of \<open>CompletedAt\<close> before the
  terminal state.
\<close>

record saga_row =
  sg_id :: uuid
  sg_manifest_version_id :: uuid
  sg_status :: saga_state
  sg_current_step :: string
  sg_last_error :: string
  sg_created_at :: int
  sg_updated_at :: int
  sg_completed_at :: "int option"
  sg_idempotency_key :: string
  sg_watchkeeper_id :: uuid

record insert_result =
  ir_inserted :: bool
  ir_existing :: saga_row

abbreviation ErrSagaNotFound :: string where
  "ErrSagaNotFound \<equiv> ''ErrSagaNotFound''"

abbreviation ErrEmptyIdempotencyKey :: string where
  "ErrEmptyIdempotencyKey \<equiv> ''ErrEmptyIdempotencyKey''"

abbreviation ErrIdempotencyIndexInconsistent :: string where
  "ErrIdempotencyIndexInconsistent \<equiv> ''ErrIdempotencyIndexInconsistent''"

text \<open>
  The interface: a store of any type \<open>'d\<close>. A failing method returns an error; the store it
  leaves behind is part of the result.
\<close>

record 'd saga_dao =
  dao_insert :: "'d \<Rightarrow> uuid \<Rightarrow> uuid \<Rightarrow> 'd \<times> goerr option"
  dao_insert_if_absent :: "'d \<Rightarrow> uuid \<Rightarrow> uuid \<Rightarrow> uuid \<Rightarrow> string \<Rightarrow> 'd \<times> (goerr + insert_result)"
  dao_get :: "'d \<Rightarrow> uuid \<Rightarrow> goerr + saga_row"
  dao_update_step :: "'d \<Rightarrow> uuid \<Rightarrow> string \<Rightarrow> 'd \<times> goerr option"
  dao_mark_completed :: "'d \<Rightarrow> uuid \<Rightarrow> 'd \<times> goerr option"
  dao_mark_failed :: "'d \<Rightarrow> uuid \<Rightarrow> string \<Rightarrow> 'd \<times> goerr option"

section \<open>The in-memory store\<close>

text \<open>
  The clock is an injected function in the code; here it is the sequence of its answers, with
  the number of readings taken so far.
\<close>

record mem_dao =
  md_rows :: "uuid \<rightharpoonup> saga_row"
  md_idempotency :: "string \<rightharpoonup> uuid"
  md_clock :: "nat \<Rightarrow> int"
  md_ticks :: nat

definition new_mem_dao :: "(nat \<Rightarrow> int) \<Rightarrow> mem_dao" where
  "new_mem_dao now =
     \<lparr>md_rows = Map.empty, md_idempotency = Map.empty, md_clock = now, md_ticks = 0\<rparr>"

definition md_now :: "mem_dao \<Rightarrow> int" where
  "md_now m = md_clock m (md_ticks m)"

definition mem_insert :: "mem_dao \<Rightarrow> uuid \<Rightarrow> uuid \<Rightarrow> mem_dao \<times> goerr option" where
  "mem_insert m i mv =
     (if i = uuid_nil then (m, Some [Text ''saga: insert: empty id''])
      else if mv = uuid_nil then (m, Some [Text ''saga: insert: empty manifest_version_id''])
      else case md_rows m i of
        Some _ \<Rightarrow> (m, Some [Text ''saga: insert: duplicate id''])
      | None \<Rightarrow>
          (let now = md_now m;
               row = \<lparr>sg_id = i, sg_manifest_version_id = mv, sg_status = SagaStatePending,
                      sg_current_step = [], sg_last_error = [], sg_created_at = now,
                      sg_updated_at = now, sg_completed_at = None, sg_idempotency_key = [],
                      sg_watchkeeper_id = uuid_nil\<rparr>
           in (m\<lparr>md_rows := (md_rows m)(i \<mapsto> row), md_ticks := Suc (md_ticks m)\<rparr>, None)))"

definition mem_insert_if_absent ::
    "mem_dao \<Rightarrow> uuid \<Rightarrow> uuid \<Rightarrow> uuid \<Rightarrow> string \<Rightarrow> mem_dao \<times> (goerr + insert_result)" where
  "mem_insert_if_absent m i mv wk key =
     (if blank key then (m, Inl [Sentinel ErrEmptyIdempotencyKey])
      else if i = uuid_nil then (m, Inl [Text ''saga: insert if absent: empty id''])
      else if mv = uuid_nil then (m, Inl [Text ''saga: insert if absent: empty manifest_version_id''])
      else if wk = uuid_nil then (m, Inl [Text ''saga: insert if absent: empty watchkeeper_id''])
      else case md_idempotency m key of
        Some existing_id \<Rightarrow>
          (case md_rows m existing_id of
             None \<Rightarrow> (m, Inl (errorf_is ErrIdempotencyIndexInconsistent []))
           | Some row \<Rightarrow> (m, Inr \<lparr>ir_inserted = False, ir_existing = row\<rparr>))
      | None \<Rightarrow>
          (case md_rows m i of
             Some _ \<Rightarrow> (m, Inl [Text ''saga: insert if absent: duplicate id''])
           | None \<Rightarrow>
               (let now = md_now m;
                    row = \<lparr>sg_id = i, sg_manifest_version_id = mv, sg_status = SagaStatePending,
                           sg_current_step = [], sg_last_error = [], sg_created_at = now,
                           sg_updated_at = now, sg_completed_at = None,
                           sg_idempotency_key = key, sg_watchkeeper_id = wk\<rparr>
                in (m\<lparr>md_rows := (md_rows m)(i \<mapsto> row),
                      md_idempotency := (md_idempotency m)(key \<mapsto> i),
                      md_ticks := Suc (md_ticks m)\<rparr>,
                    Inr \<lparr>ir_inserted = True, ir_existing = row\<rparr>))))"

definition mem_get :: "mem_dao \<Rightarrow> uuid \<Rightarrow> goerr + saga_row" where
  "mem_get m i =
     (case md_rows m i of None \<Rightarrow> Inl [Sentinel ErrSagaNotFound] | Some row \<Rightarrow> Inr row)"

definition mem_update_step :: "mem_dao \<Rightarrow> uuid \<Rightarrow> string \<Rightarrow> mem_dao \<times> goerr option" where
  "mem_update_step m i step =
     (case md_rows m i of
        None \<Rightarrow> (m, Some [Sentinel ErrSagaNotFound])
      | Some row \<Rightarrow>
          (let row' = row\<lparr>sg_status := SagaStateInFlight, sg_current_step := step,
                          sg_updated_at := md_now m\<rparr>
           in (m\<lparr>md_rows := (md_rows m)(i \<mapsto> row'), md_ticks := Suc (md_ticks m)\<rparr>, None)))"

definition mem_mark_completed :: "mem_dao \<Rightarrow> uuid \<Rightarrow> mem_dao \<times> goerr option" where
  "mem_mark_completed m i =
     (case md_rows m i of
        None \<Rightarrow> (m, Some [Sentinel ErrSagaNotFound])
      | Some row \<Rightarrow>
          (let now = md_now m;
               row' = row\<lparr>sg_status := SagaStateCompleted, sg_updated_at := now,
                          sg_completed_at := Some now\<rparr>
           in (m\<lparr>md_rows := (md_rows m)(i \<mapsto> row'), md_ticks := Suc (md_ticks m)\<rparr>, None)))"

definition mem_mark_failed :: "mem_dao \<Rightarrow> uuid \<Rightarrow> string \<Rightarrow> mem_dao \<times> goerr option" where
  "mem_mark_failed m i last_err =
     (case md_rows m i of
        None \<Rightarrow> (m, Some [Sentinel ErrSagaNotFound])
      | Some row \<Rightarrow>
          (let now = md_now m;
               row' = row\<lparr>sg_status := SagaStateFailed, sg_last_error := last_err,
                          sg_updated_at := now, sg_completed_at := Some now\<rparr>
           in (m\<lparr>md_rows := (md_rows m)(i \<mapsto> row'), md_ticks := Suc (md_ticks m)\<rparr>, None)))"

definition mem_ops :: "mem_dao saga_dao" where
  "mem_ops =
     \<lparr>dao_insert = mem_insert, dao_insert_if_absent = mem_insert_if_absent, dao_get = mem_get,
      dao_update_step = mem_update_step, dao_mark_completed = mem_mark_completed,
      dao_mark_failed = mem_mark_failed\<rparr>"

lemma mem_ops_simps [simp]:
  "dao_insert mem_ops = mem_insert"
  "dao_insert_if_absent mem_ops = mem_insert_if_absent"
  "dao_get mem_ops = mem_get"
  "dao_update_step mem_ops = mem_update_step"
  "dao_mark_completed mem_ops = mem_mark_completed"
  "dao_mark_failed mem_ops = mem_mark_failed"
  by (simp_all add: mem_ops_def)


section \<open>Audit rows\<close>

definition step_started_payload :: "uuid \<Rightarrow> string \<Rightarrow> (string \<times> pval) list" where
  "step_started_payload i n = [(''saga_id'', PUuid i), (''step_name'', PStr n)]"

definition step_completed_payload :: "uuid \<Rightarrow> string \<Rightarrow> (string \<times> pval) list" where
  "step_completed_payload i n = [(''saga_id'', PUuid i), (''step_name'', PStr n)]"

definition saga_failed_payload :: "uuid \<Rightarrow> string \<Rightarrow> string \<Rightarrow> (string \<times> pval) list" where
  "saga_failed_payload i n cls =
     [(''saga_id'', PUuid i), (''step_name'', PStr n), (''last_error_class'', PStr cls)]"

definition saga_completed_payload :: "uuid \<Rightarrow> (string \<times> pval) list" where
  "saga_completed_payload i = [(''saga_id'', PUuid i)]"

definition step_compensated_payload :: "uuid \<Rightarrow> string \<Rightarrow> (string \<times> pval) list" where
  "step_compensated_payload i n = [(''saga_id'', PUuid i), (''step_name'', PStr n)]"

definition saga_compensation_failed_payload ::
    "uuid \<Rightarrow> string \<Rightarrow> string \<Rightarrow> (string \<times> pval) list" where
  "saga_compensation_failed_payload i n cls =
     [(''saga_id'', PUuid i), (''step_name'', PStr n), (''last_error_class'', PStr cls)]"

definition saga_compensated_payload :: "uuid \<Rightarrow> (string \<times> pval) list" where
  "saga_compensated_payload i = [(''saga_id'', PUuid i)]"

definition ev_started :: "uuid \<Rightarrow> string \<Rightarrow> log_event" where
  "ev_started i n = mk_event ''saga_step_started'' (step_started_payload i n)"

definition ev_completed :: "uuid \<Rightarrow> string \<Rightarrow> log_event" where
  "ev_completed i n = mk_event ''saga_step_completed'' (step_completed_payload i n)"

definition ev_saga_failed :: "uuid \<Rightarrow> string \<Rightarrow> string \<Rightarrow> log_event" where
  "ev_saga_failed i n cls = mk_event ''saga_failed'' (saga_failed_payload i n cls)"

definition ev_saga_completed :: "uuid \<Rightarrow> log_event" where
  "ev_saga_completed i = mk_event ''saga_completed'' (saga_completed_payload i)"

definition ev_compensated :: "uuid \<Rightarrow> string \<Rightarrow> log_event" where
  "ev_compensated i n = mk_event ''saga_step_compensated'' (step_compensated_payload i n)"

definition ev_compensation_failed :: "uuid \<Rightarrow> string \<Rightarrow> string \<Rightarrow> log_event" where
  "ev_compensation_failed i n cls =
     mk_event ''saga_compensation_failed'' (saga_compensation_failed_payload i n cls)"

definition ev_saga_compensated :: "uuid \<Rightarrow> log_event" where
  "ev_saga_compensated i = mk_event ''saga_compensated'' (saga_compensated_payload i)"

lemmas saga_events_defs [wire_simps] =
  ev_started_def ev_completed_def ev_saga_failed_def ev_saga_completed_def ev_compensated_def
  ev_compensation_failed_def ev_saga_compensated_def step_started_payload_def
  step_completed_payload_def saga_failed_payload_def saga_completed_payload_def
  step_compensated_payload_def saga_compensation_failed_payload_def saga_compensated_payload_def

section \<open>Error classes\<close>

abbreviation LastErrorClassDefault :: string where
  "LastErrorClassDefault \<equiv> ''step_execute_error''"

abbreviation LastErrorClassCompensateDefault :: string where
  "LastErrorClassCompensateDefault \<equiv> ''step_compensate_error''"

abbreviation LastErrorClassCompensateContextCanceled :: string where
  "LastErrorClassCompensateContextCanceled \<equiv> ''compensate_context_cancelled''"

abbreviation LastErrorClassCompensateContextDeadline :: string where
  "LastErrorClassCompensateContextDeadline \<equiv> ''compensate_context_deadline''"

abbreviation LastErrorClassCompensatePanic :: string where
  "LastErrorClassCompensatePanic \<equiv> ''compensate_panic''"

definition resolve_last_error_class_with_default :: "goerr \<Rightarrow> string \<Rightarrow> string" where
  "resolve_last_error_class_with_default e fallback =
     (case errors_as_class e of
        Some class \<Rightarrow> if class \<noteq> [] then class else fallback
      | None \<Rightarrow> fallback)"

definition resolve_last_error_class :: "goerr \<Rightarrow> string" where
  "resolve_last_error_class e = resolve_last_error_class_with_default e LastErrorClassDefault"

definition resolve_compensate_last_error_class :: "goerr option \<Rightarrow> string" where
  "resolve_compensate_last_error_class err =
     (case err of
        None \<Rightarrow> LastErrorClassCompensateDefault
      | Some e \<Rightarrow>
          (let untyped =
             (if errors_is e CtxCanceled then LastErrorClassCompensateContextCanceled
              else if errors_is e CtxDeadlineExceeded then LastErrorClassCompensateContextDeadline
              else LastErrorClassCompensateDefault)
           in case errors_as_class e of
                Some class \<Rightarrow> if class \<noteq> [] then class else untyped
              | None \<Rightarrow> untyped))"

lemma resolve_last_error_class_nonempty: "resolve_last_error_class e \<noteq> []"
  by (simp add: resolve_last_error_class_def resolve_last_error_class_with_default_def
      split: option.split)

lemma resolve_compensate_last_error_class_nonempty: "resolve_compensate_last_error_class e \<noteq> []"
  by (simp add: resolve_compensate_last_error_class_def Let_def split: option.split)

section \<open>Steps and the runner\<close>

text \<open>
  A step acts on a world of any type \<open>'w\<close>; \<open>'c\<close> is the context type it is called with. A
  step that implements \<open>Compensator\<close> has a \<open>step_compensate\<close>, which may return or panic.
\<close>

datatype comp_result = CompReturns "goerr option" | CompPanics

record ('c, 'w) saga_step =
  step_name :: string
  step_execute :: "'c \<Rightarrow> 'w \<Rightarrow> 'w \<times> goerr option"
  step_compensate :: "('c \<Rightarrow> 'w \<Rightarrow> 'w \<times> comp_result) option"

text \<open>
  The runner's view: the store, the audit rows handed to \<open>Append\<close> so far (whose errors the
  runner drops), and the world its steps act on.
\<close>

record ('d, 'w) saga_run =
  run_dao :: 'd
  run_log :: "log_event list"
  run_world :: 'w

definition saga_emit :: "('d, 'w) saga_run \<Rightarrow> log_event \<Rightarrow> ('d, 'w) saga_run" where
  "saga_emit st ev = st\<lparr>run_log := run_log st @ [ev]\<rparr>"

definition safe_compensate ::
    "('c \<Rightarrow> 'w \<Rightarrow> 'w \<times> comp_result) \<Rightarrow> 'c \<Rightarrow> 'w \<Rightarrow> 'w \<times> goerr option" where
  "safe_compensate f c w =
     (case f c w of
        (w', CompReturns err) \<Rightarrow> (w', err)
      | (w', CompPanics) \<Rightarrow> (w', Some [Classed LastErrorClassCompensatePanic]))"

fun compensate_loop ::
    "'z ctx_scheme \<Rightarrow> uuid \<Rightarrow> ('z ctx_scheme, 'w) saga_step list \<Rightarrow> ('d, 'w) saga_run
     \<Rightarrow> ('d, 'w) saga_run" where
  "compensate_loop c i [] st = st"
| "compensate_loop c i (s # ss) st =
     (case step_compensate s of
        None \<Rightarrow> compensate_loop c i ss st
      | Some f \<Rightarrow>
          (case safe_compensate f c (run_world st) of
             (w', Some e) \<Rightarrow>
               compensate_loop c i ss
                 (saga_emit (st\<lparr>run_world := w'\<rparr>)
                    (ev_compensation_failed i (step_name s)
                       (resolve_compensate_last_error_class (Some e))))
           | (w', None) \<Rightarrow>
               compensate_loop c i ss
                 (saga_emit (st\<lparr>run_world := w'\<rparr>) (ev_compensated i (step_name s)))))"

definition saga_compensate ::
    "'z ctx_scheme \<Rightarrow> uuid \<Rightarrow> ('z ctx_scheme, 'w) saga_step list \<Rightarrow> ('d, 'w) saga_run
     \<Rightarrow> ('d, 'w) saga_run" where
  "saga_compensate c i executed st =
     saga_emit (compensate_loop (without_cancel c) i (rev executed) st) (ev_saga_compensated i)"

fun saga_run_steps ::
    "'d saga_dao \<Rightarrow> 'z ctx_scheme \<Rightarrow> uuid \<Rightarrow> ('z ctx_scheme, 'w) saga_step list
     \<Rightarrow> ('z ctx_scheme, 'w) saga_step list \<Rightarrow> ('d, 'w) saga_run
     \<Rightarrow> ('d, 'w) saga_run \<times> goerr option" where
  "saga_run_steps D c i executed [] st =
     (case dao_mark_completed D (run_dao st) i of
        (d', Some e) \<Rightarrow> (st\<lparr>run_dao := d'\<rparr>, Some (errorf ''saga: run: mark completed'' e))
      | (d', None) \<Rightarrow> (saga_emit (st\<lparr>run_dao := d'\<rparr>) (ev_saga_completed i), None))"
| "saga_run_steps D c i executed (s # ss) st =
     (case dao_update_step D (run_dao st) i (step_name s) of
        (d', Some e) \<Rightarrow> (st\<lparr>run_dao := d'\<rparr>, Some (errorf ''saga: run: update step'' e))
      | (d', None) \<Rightarrow>
          (let st1 = saga_emit (st\<lparr>run_dao := d'\<rparr>) (ev_started i (step_name s))
           in case step_execute s c (run_world st1) of
                (w', Some exec_err) \<Rightarrow>
                  (let cls = resolve_last_error_class exec_err;
                       st2 = st1\<lparr>run_world := w'\<rparr>
                   in case dao_mark_failed D (run_dao st2) i cls of
                        (d'', Some e) \<Rightarrow>
                          (st2\<lparr>run_dao := d''\<rparr>,
                           Some (errorf ''saga: run: mark failed after step'' e))
                      | (d'', None) \<Rightarrow>
                          (saga_compensate c i executed
                             (saga_emit (st2\<lparr>run_dao := d''\<rparr>)
                                (ev_saga_failed i (step_name s) cls)),
                           Some (errorf ''saga: run: step'' exec_err)))
              | (w', None) \<Rightarrow>
                  saga_run_steps D c i (executed @ [s]) ss
                    (saga_emit (st1\<lparr>run_world := w'\<rparr>) (ev_completed i (step_name s)))))"

text \<open>\<open>Runner.Run\<close>.\<close>

definition saga_runner_run ::
    "'d saga_dao \<Rightarrow> 'z ctx_scheme \<Rightarrow> uuid \<Rightarrow> ('z ctx_scheme, 'w) saga_step list
     \<Rightarrow> ('d, 'w) saga_run \<Rightarrow> ('d, 'w) saga_run \<times> goerr option" where
  "saga_runner_run D c i steps st =
     (case dao_get D (run_dao st) i of
        Inl e \<Rightarrow>
          (st, Some (if errors_is e ErrSagaNotFound then errorf ''saga: run'' e
                     else errorf ''saga: run: get'' e))
      | Inr _ \<Rightarrow> saga_run_steps D c i [] steps st)"


section \<open>The abstract saga\<close>

text \<open>
  What a run promises, without the store and without the loop: \<open>saga_forward\<close> executes steps
  until one fails, \<open>saga_rollback\<close> undoes a list of steps in the given order, and
  \<open>saga_spec\<close> combines them into the audit trail, the final world and the result.
\<close>

fun saga_forward ::
    "'c \<Rightarrow> ('c, 'w) saga_step list \<Rightarrow> 'w
     \<Rightarrow> ('c, 'w) saga_step list \<times> (('c, 'w) saga_step \<times> goerr) option \<times> 'w" where
  "saga_forward c [] w = ([], None, w)"
| "saga_forward c (s # ss) w =
     (case step_execute s c w of
        (w', Some e) \<Rightarrow> ([], Some (s, e), w')
      | (w', None) \<Rightarrow> (let (ok, f, w'') = saga_forward c ss w' in (s # ok, f, w'')))"

definition ev_rollback :: "uuid \<Rightarrow> string \<Rightarrow> goerr option \<Rightarrow> log_event" where
  "ev_rollback i n r =
     (case r of
        None \<Rightarrow> ev_compensated i n
      | Some e \<Rightarrow> ev_compensation_failed i n (resolve_compensate_last_error_class (Some e)))"

fun saga_rollback ::
    "'c \<Rightarrow> uuid \<Rightarrow> ('c, 'w) saga_step list \<Rightarrow> 'w \<Rightarrow> log_event list \<times> 'w" where
  "saga_rollback c i [] w = ([], w)"
| "saga_rollback c i (s # ss) w =
     (case step_compensate s of
        None \<Rightarrow> saga_rollback c i ss w
      | Some f \<Rightarrow>
          (let (w', r) = safe_compensate f c w; (l, w'') = saga_rollback c i ss w'
           in (ev_rollback i (step_name s) r # l, w'')))"

definition ok_trail :: "uuid \<Rightarrow> ('c, 'w) saga_step list \<Rightarrow> log_event list" where
  "ok_trail i ok = concat (map (\<lambda>s. [ev_started i (step_name s), ev_completed i (step_name s)]) ok)"

definition saga_spec ::
    "'z ctx_scheme \<Rightarrow> uuid \<Rightarrow> ('z ctx_scheme, 'w) saga_step list
     \<Rightarrow> ('z ctx_scheme, 'w) saga_step list \<Rightarrow> 'w \<Rightarrow> log_event list \<times> 'w \<times> goerr option" where
  "saga_spec c i executed steps w =
     (case saga_forward c steps w of
        (ok, None, w') \<Rightarrow> (ok_trail i ok @ [ev_saga_completed i], w', None)
      | (ok, Some (s, e), w') \<Rightarrow>
          (let (l, w'') = saga_rollback (without_cancel c) i (rev (executed @ ok)) w'
           in (ok_trail i ok
                 @ [ev_started i (step_name s),
                    ev_saga_failed i (step_name s) (resolve_last_error_class e)]
                 @ l @ [ev_saga_compensated i],
               w'', Some (errorf ''saga: run: step'' e))))"

definition saga_spec_error ::
    "'z ctx_scheme \<Rightarrow> ('z ctx_scheme, 'w) saga_step list \<Rightarrow> 'w \<Rightarrow> string \<Rightarrow> string" where
  "saga_spec_error c steps w old =
     (case saga_forward c steps w of
        (_, None, _) \<Rightarrow> old
      | (_, Some (s, e), _) \<Rightarrow> resolve_last_error_class e)"

lemma ok_trail_simps [simp]:
  "ok_trail i [] = []"
  "ok_trail i (s # ss) = ev_started i (step_name s) # ev_completed i (step_name s) # ok_trail i ss"
  by (simp_all add: ok_trail_def)

lemma saga_emit_simps [simp]:
  "run_dao (saga_emit st ev) = run_dao st"
  "run_log (saga_emit st ev) = run_log st @ [ev]"
  "run_world (saga_emit st ev) = run_world st"
  by (simp_all add: saga_emit_def)

lemma compensate_loop_eq:
  "compensate_loop c i ss st =
     st\<lparr>run_log := run_log st @ fst (saga_rollback c i ss (run_world st)),
        run_world := snd (saga_rollback c i ss (run_world st))\<rparr>"
  by (induction c i ss st rule: compensate_loop.induct)
     (auto simp: saga_emit_def ev_rollback_def split: option.split prod.split)

lemma saga_compensate_simps [simp]:
  "run_dao (saga_compensate c i ex st) = run_dao st"
  "run_log (saga_compensate c i ex st) =
     run_log st @ fst (saga_rollback (without_cancel c) i (rev ex) (run_world st))
       @ [ev_saga_compensated i]"
  "run_world (saga_compensate c i ex st) =
     snd (saga_rollback (without_cancel c) i (rev ex) (run_world st))"
  by (simp_all add: saga_compensate_def compensate_loop_eq)

lemma saga_forward_all_ok: "saga_forward c ss w = (ok, None, w') \<Longrightarrow> ok = ss"
  by (induction ss arbitrary: w ok w') (auto split: prod.splits option.splits)

lemma saga_forward_prefix: "saga_forward c ss w = (ok, f, w') \<Longrightarrow> prefix ok ss"
  by (induction ss arbitrary: w ok f w') (auto split: prod.splits option.splits)

lemma saga_forward_failed:
  "saga_forward c ss w = (ok, Some (s, e), w') \<Longrightarrow> \<exists>rest. ss = ok @ s # rest"
proof (induction ss arbitrary: w ok w')
  case (Cons x xs)
  then show ?case
    by (force split: prod.splits option.splits)
qed simp

section \<open>The interface's contract\<close>

text \<open>
  The columns a transition never writes, and the contract of \<open>SpawnSagaDAO\<close>: \<open>rows\<close> is what
  the store holds, \<open>inv\<close> its representation invariant.
\<close>

definition same_identity :: "saga_row \<Rightarrow> saga_row \<Rightarrow> bool" where
  "same_identity r r' \<longleftrightarrow>
     sg_id r' = sg_id r \<and> sg_manifest_version_id r' = sg_manifest_version_id r
     \<and> sg_created_at r' = sg_created_at r \<and> sg_idempotency_key r' = sg_idempotency_key r
     \<and> sg_watchkeeper_id r' = sg_watchkeeper_id r"

lemma same_identity_refl [simp]: "same_identity r r"
  by (simp add: same_identity_def)

lemma same_identity_trans: "same_identity r r' \<Longrightarrow> same_identity r' r'' \<Longrightarrow> same_identity r r''"
  by (simp add: same_identity_def)

locale spawn_saga_dao =
  fixes D :: "'d saga_dao"
    and rows :: "'d \<Rightarrow> uuid \<rightharpoonup> saga_row"
    and inv :: "'d \<Rightarrow> bool"
  assumes get_law:
      "inv d \<Longrightarrow> dao_get D d i =
         (case rows d i of None \<Rightarrow> Inl [Sentinel ErrSagaNotFound] | Some r \<Rightarrow> Inr r)"
    and update_law:
      "inv d \<Longrightarrow> rows d i = Some r \<Longrightarrow>
         \<exists>d' r'. dao_update_step D d i n = (d', None) \<and> inv d' \<and> rows d' = (rows d)(i \<mapsto> r')
           \<and> same_identity r r' \<and> sg_status r' = SagaStateInFlight \<and> sg_current_step r' = n
           \<and> sg_last_error r' = sg_last_error r"
    and completed_law:
      "inv d \<Longrightarrow> rows d i = Some r \<Longrightarrow>
         \<exists>d' r'. dao_mark_completed D d i = (d', None) \<and> inv d' \<and> rows d' = (rows d)(i \<mapsto> r')
           \<and> same_identity r r' \<and> sg_status r' = SagaStateCompleted
           \<and> sg_current_step r' = sg_current_step r \<and> sg_last_error r' = sg_last_error r"
    and failed_law:
      "inv d \<Longrightarrow> rows d i = Some r \<Longrightarrow>
         \<exists>d' r'. dao_mark_failed D d i n = (d', None) \<and> inv d' \<and> rows d' = (rows d)(i \<mapsto> r')
           \<and> same_identity r r' \<and> sg_status r' = SagaStateFailed
           \<and> sg_current_step r' = sg_current_step r \<and> sg_last_error r' = n"
    and insert_law:
      "inv d \<Longrightarrow> \<not> blank key \<Longrightarrow> i \<noteq> uuid_nil \<Longrightarrow> mv \<noteq> uuid_nil \<Longrightarrow> wk \<noteq> uuid_nil \<Longrightarrow>
       rows d i = None \<Longrightarrow> (\<forall>j r. rows d j = Some r \<longrightarrow> sg_idempotency_key r \<noteq> key) \<Longrightarrow>
         \<exists>d' r. dao_insert_if_absent D d i mv wk key = (d', Inr \<lparr>ir_inserted = True, ir_existing = r\<rparr>)
           \<and> inv d' \<and> rows d' = (rows d)(i \<mapsto> r) \<and> sg_id r = i \<and> sg_manifest_version_id r = mv
           \<and> sg_watchkeeper_id r = wk \<and> sg_idempotency_key r = key
           \<and> sg_status r = SagaStatePending"
    and replay_law:
      "inv d \<Longrightarrow> \<not> blank key \<Longrightarrow> i \<noteq> uuid_nil \<Longrightarrow> mv \<noteq> uuid_nil \<Longrightarrow> wk \<noteq> uuid_nil \<Longrightarrow>
       rows d j = Some r \<Longrightarrow> sg_idempotency_key r = key \<Longrightarrow>
         dao_insert_if_absent D d i mv wk key = (d, Inr \<lparr>ir_inserted = False, ir_existing = r\<rparr>)"
    and id_law: "inv d \<Longrightarrow> rows d i = Some r \<Longrightarrow> sg_id r = i"
    and insert_error_law:
      "inv d \<Longrightarrow> dao_insert_if_absent D d i mv wk key = (d', Inl e) \<Longrightarrow> d' = d"
    and insert_ok_law:
      "inv d \<Longrightarrow> dao_insert_if_absent D d i mv wk key = (d', Inr res) \<Longrightarrow>
         sg_idempotency_key (ir_existing res) = key
         \<and> (if ir_inserted res
             then rows d i = None \<and> inv d' \<and> rows d' = (rows d)(i \<mapsto> ir_existing res)
               \<and> sg_id (ir_existing res) = i \<and> sg_status (ir_existing res) = SagaStatePending
             else d' = d \<and> rows d (sg_id (ir_existing res)) = Some (ir_existing res))"
begin

text \<open>The runner over any store that keeps the contract refines \<open>saga_spec\<close>.\<close>

lemma run_steps_refines:
  assumes "inv (run_dao st)" "rows (run_dao st) i = Some r"
    and "saga_spec c i executed steps (run_world st) = (trail, w', res)"
  shows "\<exists>st' r'. saga_run_steps D c i executed steps st = (st', res)
    \<and> run_log st' = run_log st @ trail \<and> run_world st' = w'
    \<and> inv (run_dao st') \<and> rows (run_dao st') = (rows (run_dao st))(i \<mapsto> r')
    \<and> same_identity r r'
    \<and> sg_status r' = (if res = None then SagaStateCompleted else SagaStateFailed)
    \<and> sg_last_error r' = saga_spec_error c steps (run_world st) (sg_last_error r)"
  using assms
proof (induction steps arbitrary: executed st r trail)
  case Nil
  obtain d' r' where "dao_mark_completed D (run_dao st) i = (d', None)" "inv d'"
    "rows d' = (rows (run_dao st))(i \<mapsto> r')" "same_identity r r'"
    "sg_status r' = SagaStateCompleted" "sg_last_error r' = sg_last_error r"
    using completed_law Nil.prems(1,2) by blast
  with Nil.prems(3) show ?case
    by (intro exI [of _ "saga_emit (st\<lparr>run_dao := d'\<rparr>) (ev_saga_completed i)"] exI [of _ r'])
       (auto simp: saga_spec_def saga_spec_error_def)
next
  case (Cons s ss)
  obtain d' r1 where upd: "dao_update_step D (run_dao st) i (step_name s) = (d', None)" "inv d'"
    "rows d' = (rows (run_dao st))(i \<mapsto> r1)" "same_identity r r1"
    "sg_last_error r1 = sg_last_error r"
    using update_law Cons.prems(1,2) by blast
  obtain w1 e where ex: "step_execute s c (run_world st) = (w1, e)"
    by (cases "step_execute s c (run_world st)")
  show ?case
  proof (cases e)
    case None
    let ?st = "saga_emit ((saga_emit (st\<lparr>run_dao := d'\<rparr>) (ev_started i (step_name s)))\<lparr>run_world := w1\<rparr>)
                 (ev_completed i (step_name s))"
    obtain tr where spec: "saga_spec c i (executed @ [s]) ss w1 = (tr, w', res)"
      and tr: "trail = ev_started i (step_name s) # ev_completed i (step_name s) # tr"
      using Cons.prems(3) ex None
      by (auto simp: saga_spec_def split: prod.splits option.splits)
    have "inv (run_dao ?st)" "rows (run_dao ?st) i = Some r1"
      using upd by simp_all
    moreover have "saga_spec c i (executed @ [s]) ss (run_world ?st) = (tr, w', res)"
      using spec by simp
    ultimately obtain st' r' where ih: "saga_run_steps D c i (executed @ [s]) ss ?st = (st', res)"
      "run_log st' = run_log ?st @ tr" "run_world st' = w'" "inv (run_dao st')"
      "rows (run_dao st') = (rows (run_dao ?st))(i \<mapsto> r')" "same_identity r1 r'"
      "sg_status r' = (if res = None then SagaStateCompleted else SagaStateFailed)"
      "sg_last_error r' = saga_spec_error c ss (run_world ?st) (sg_last_error r1)"
      using Cons.IH by blast
    have "sg_last_error r' = saga_spec_error c (s # ss) (run_world st) (sg_last_error r)"
      using ih(8) ex None upd(5)
      by (simp add: saga_spec_error_def split: prod.split option.split)
    moreover have "saga_run_steps D c i executed (s # ss) st = (st', res)"
      using upd(1) ex None ih(1) by (simp add: Let_def)
    moreover have "same_identity r r'"
      using upd(4) ih(6) by (rule same_identity_trans)
    ultimately show ?thesis
      using ih tr upd(3) by (intro exI [of _ st'] exI [of _ r']) simp
  next
    case (Some err)
    let ?cls = "resolve_last_error_class err"
    obtain d'' r2 where mk: "dao_mark_failed D d' i ?cls = (d'', None)" "inv d''"
      "rows d'' = (rows d')(i \<mapsto> r2)" "same_identity r1 r2" "sg_status r2 = SagaStateFailed"
      "sg_last_error r2 = ?cls"
      using failed_law [of d' i r1 ?cls] upd by auto
    have "same_identity r r2"
      using upd(4) mk(4) by (rule same_identity_trans)
    with Cons.prems(3) upd ex Some mk show ?thesis
      by (intro exI [of _ "fst (saga_run_steps D c i executed (s # ss) st)"] exI [of _ r2])
         (auto simp: saga_spec_def saga_spec_error_def Let_def split: prod.splits)
  qed
qed

lemma run_refines:
  assumes "inv (run_dao st)" "rows (run_dao st) i = Some r"
    and "saga_spec c i [] steps (run_world st) = (trail, w', res)"
  shows "\<exists>st' r'. saga_runner_run D c i steps st = (st', res)
    \<and> run_log st' = run_log st @ trail \<and> run_world st' = w'
    \<and> inv (run_dao st') \<and> rows (run_dao st') = (rows (run_dao st))(i \<mapsto> r')
    \<and> same_identity r r'
    \<and> sg_status r' = (if res = None then SagaStateCompleted else SagaStateFailed)
    \<and> sg_last_error r' = saga_spec_error c steps (run_world st) (sg_last_error r)"
  using run_steps_refines [OF assms] get_law [OF assms(1), of i] assms(2)
  by (simp add: saga_runner_run_def)

lemma run_missing:
  assumes "inv (run_dao st)" "rows (run_dao st) i = None"
  shows "saga_runner_run D c i steps st = (st, Some (errorf ''saga: run'' [Sentinel ErrSagaNotFound]))"
  using get_law [OF assms(1), of i] assms(2) by (simp add: saga_runner_run_def)

end


section \<open>The in-memory store keeps the contract\<close>

definition mem_inv :: "mem_dao \<Rightarrow> bool" where
  "mem_inv m \<longleftrightarrow>
     (\<forall>i r. md_rows m i = Some r \<longrightarrow>
        sg_id r = i \<and> i \<noteq> uuid_nil \<and> sg_manifest_version_id r \<noteq> uuid_nil
        \<and> (sg_idempotency_key r \<noteq> [] \<longrightarrow>
             md_idempotency m (sg_idempotency_key r) = Some i \<and> sg_watchkeeper_id r \<noteq> uuid_nil)
        \<and> (sg_status r \<in> {SagaStateCompleted, SagaStateFailed} \<longrightarrow> sg_completed_at r \<noteq> None))
     \<and> (\<forall>k i. md_idempotency m k = Some i \<longrightarrow>
          \<not> blank k \<and> (\<exists>r. md_rows m i = Some r \<and> sg_idempotency_key r = k))"

lemma mem_inv_new [inv_intros]: "mem_inv (new_mem_dao now)"
  by (simp add: mem_inv_def new_mem_dao_def)

lemma mem_inv_insert [inv_intros]: "mem_inv m \<Longrightarrow> mem_inv (fst (mem_insert m i mv))"
  by (fastforce simp: mem_inv_def mem_insert_def Let_def split: option.split)

lemma mem_inv_insert_if_absent [inv_intros]:
  "mem_inv m \<Longrightarrow> mem_inv (fst (mem_insert_if_absent m i mv wk key))"
  by (fastforce simp: mem_inv_def mem_insert_if_absent_def Let_def split: option.split)

text \<open>An in-place row update keeps the invariant when the key and the ids stay.\<close>

lemma mem_inv_row_update:
  assumes "mem_inv m" "md_rows m i = Some r" "same_identity r r'"
    and "sg_status r' \<in> {SagaStateCompleted, SagaStateFailed} \<longrightarrow> sg_completed_at r' \<noteq> None"
  shows "mem_inv (m\<lparr>md_rows := (md_rows m)(i \<mapsto> r'), md_ticks := t\<rparr>)"
proof -
  have "sg_id r' = i \<and> i \<noteq> uuid_nil \<and> sg_manifest_version_id r' \<noteq> uuid_nil
      \<and> sg_idempotency_key r' = sg_idempotency_key r
      \<and> (sg_idempotency_key r \<noteq> [] \<longrightarrow>
           md_idempotency m (sg_idempotency_key r) = Some i \<and> sg_watchkeeper_id r' \<noteq> uuid_nil)"
    using assms(1-3) by (auto simp: mem_inv_def same_identity_def)
  moreover have "\<forall>k. md_idempotency m k = Some i \<longrightarrow> sg_idempotency_key r = k"
    using assms(1,2) unfolding mem_inv_def by fastforce
  ultimately show ?thesis
    using assms(1,2,4) unfolding mem_inv_def by simp
qed

lemma mem_inv_update_step [inv_intros]: "mem_inv m \<Longrightarrow> mem_inv (fst (mem_update_step m i n))"
  by (auto simp: mem_update_step_def Let_def same_identity_def
      intro!: mem_inv_row_update split: option.split)

lemma mem_inv_mark_completed [inv_intros]: "mem_inv m \<Longrightarrow> mem_inv (fst (mem_mark_completed m i))"
  by (auto simp: mem_mark_completed_def Let_def same_identity_def
      intro!: mem_inv_row_update split: option.split)

lemma mem_inv_mark_failed [inv_intros]: "mem_inv m \<Longrightarrow> mem_inv (fst (mem_mark_failed m i n))"
  by (auto simp: mem_mark_failed_def Let_def same_identity_def
      intro!: mem_inv_row_update split: option.split)

lemma mem_no_row_no_key:
  "mem_inv m \<Longrightarrow> \<forall>j r. md_rows m j = Some r \<longrightarrow> sg_idempotency_key r \<noteq> k
   \<Longrightarrow> md_idempotency m k = None"
  by (metis mem_inv_def option.exhaust)

lemma mem_row_key:
  "mem_inv m \<Longrightarrow> md_rows m j = Some r \<Longrightarrow> sg_idempotency_key r = k \<Longrightarrow> k \<noteq> []
   \<Longrightarrow> md_idempotency m k = Some j"
  by (auto simp: mem_inv_def)

lemma mem_key_row: "mem_inv m \<Longrightarrow> md_idempotency m k = Some i \<Longrightarrow> \<exists>r. md_rows m i = Some r"
  unfolding mem_inv_def by blast

lemma mem_insert_if_absent_ok:
  assumes "mem_inv d'" "mem_inv d"
    and "dao_insert_if_absent mem_ops d i mv wk key = (d', Inr res)"
  shows "sg_idempotency_key (ir_existing res) = key
    \<and> (if ir_inserted res
        then md_rows d i = None \<and> mem_inv d' \<and> md_rows d' = (md_rows d)(i \<mapsto> ir_existing res)
          \<and> sg_id (ir_existing res) = i \<and> sg_status (ir_existing res) = SagaStatePending
        else d' = d \<and> md_rows d (sg_id (ir_existing res)) = Some (ir_existing res))"
proof (cases "ir_inserted res")
  case True
  then show ?thesis
    using assms by (auto simp: mem_insert_if_absent_def Let_def split: if_splits option.splits)
next
  case False
  then obtain j where "md_idempotency d key = Some j" "md_rows d j = Some (ir_existing res)" "d' = d"
    using assms(3) by (auto simp: mem_insert_if_absent_def Let_def split: if_splits option.splits)
  moreover have "sg_id (ir_existing res) = j" "sg_idempotency_key (ir_existing res) = key"
    using assms(2) calculation unfolding mem_inv_def by fastforce+
  ultimately show ?thesis
    using False by simp
qed

interpretation mem: spawn_saga_dao mem_ops md_rows mem_inv
proof unfold_locales
  fix d i r n
  assume inv: "mem_inv d" and row: "md_rows d i = Some r"
  show "\<exists>d' r'. dao_update_step mem_ops d i n = (d', None) \<and> mem_inv d'
      \<and> md_rows d' = (md_rows d)(i \<mapsto> r') \<and> same_identity r r'
      \<and> sg_status r' = SagaStateInFlight \<and> sg_current_step r' = n
      \<and> sg_last_error r' = sg_last_error r"
    using mem_inv_update_step [OF inv, of i n] row
    by (intro exI [of _ "fst (mem_update_step d i n)"]
          exI [of _ "r\<lparr>sg_status := SagaStateInFlight, sg_current_step := n, sg_updated_at := md_now d\<rparr>"])
       (simp add: mem_update_step_def Let_def same_identity_def)
  show "\<exists>d' r'. dao_mark_completed mem_ops d i = (d', None) \<and> mem_inv d'
      \<and> md_rows d' = (md_rows d)(i \<mapsto> r') \<and> same_identity r r'
      \<and> sg_status r' = SagaStateCompleted \<and> sg_current_step r' = sg_current_step r
      \<and> sg_last_error r' = sg_last_error r"
    using mem_inv_mark_completed [OF inv, of i] row
    by (intro exI [of _ "fst (mem_mark_completed d i)"]
          exI [of _ "r\<lparr>sg_status := SagaStateCompleted, sg_updated_at := md_now d,
                       sg_completed_at := Some (md_now d)\<rparr>"])
       (simp add: mem_mark_completed_def Let_def same_identity_def)
  show "\<exists>d' r'. dao_mark_failed mem_ops d i n = (d', None) \<and> mem_inv d'
      \<and> md_rows d' = (md_rows d)(i \<mapsto> r') \<and> same_identity r r'
      \<and> sg_status r' = SagaStateFailed \<and> sg_current_step r' = sg_current_step r
      \<and> sg_last_error r' = n"
    using mem_inv_mark_failed [OF inv, of i n] row
    by (intro exI [of _ "fst (mem_mark_failed d i n)"]
          exI [of _ "r\<lparr>sg_status := SagaStateFailed, sg_last_error := n, sg_updated_at := md_now d,
                       sg_completed_at := Some (md_now d)\<rparr>"])
       (simp add: mem_mark_failed_def Let_def same_identity_def)
next
  fix d key i mv wk
  assume a: "mem_inv d" "\<not> blank key" "i \<noteq> uuid_nil" "mv \<noteq> uuid_nil" "wk \<noteq> uuid_nil"
    "md_rows d i = None" "\<forall>j r. md_rows d j = Some r \<longrightarrow> sg_idempotency_key r \<noteq> key"
  obtain d' res where ins: "mem_insert_if_absent d i mv wk key = (d', res)"
    by (cases "mem_insert_if_absent d i mv wk key")
  have "mem_inv d'"
    using mem_inv_insert_if_absent [OF a(1), of i mv wk key] ins by simp
  then show "\<exists>d' r. dao_insert_if_absent mem_ops d i mv wk key
        = (d', Inr \<lparr>ir_inserted = True, ir_existing = r\<rparr>)
      \<and> mem_inv d' \<and> md_rows d' = (md_rows d)(i \<mapsto> r) \<and> sg_id r = i
      \<and> sg_manifest_version_id r = mv \<and> sg_watchkeeper_id r = wk \<and> sg_idempotency_key r = key
      \<and> sg_status r = SagaStatePending"
    using ins a mem_no_row_no_key [OF a(1,7)]
    by (auto simp: mem_insert_if_absent_def Let_def)
next
  fix d key i mv wk j r
  assume "mem_inv d" "\<not> blank key" "i \<noteq> uuid_nil" "mv \<noteq> uuid_nil" "wk \<noteq> uuid_nil"
    "md_rows d j = Some r" "sg_idempotency_key r = key"
  then show "dao_insert_if_absent mem_ops d i mv wk key
      = (d, Inr \<lparr>ir_inserted = False, ir_existing = r\<rparr>)"
    using mem_row_key [of d j r key] not_blank_not_Nil [of key]
    by (simp add: mem_insert_if_absent_def)
next
  fix d i mv wk key d' res
  assume a: "mem_inv d" "dao_insert_if_absent mem_ops d i mv wk key = (d', Inr res)"
  have "mem_inv d'"
    using mem_inv_insert_if_absent [OF a(1), of i mv wk key] a(2) by simp
  then show "sg_idempotency_key (ir_existing res) = key
      \<and> (if ir_inserted res
          then md_rows d i = None \<and> mem_inv d' \<and> md_rows d' = (md_rows d)(i \<mapsto> ir_existing res)
            \<and> sg_id (ir_existing res) = i \<and> sg_status (ir_existing res) = SagaStatePending
          else d' = d \<and> md_rows d (sg_id (ir_existing res)) = Some (ir_existing res))"
    using a by (rule mem_insert_if_absent_ok)
qed (auto simp: mem_get_def mem_inv_def mem_insert_if_absent_def Let_def
       split: if_splits option.splits)


text \<open>Every history of calls on the store, each call with any arguments.\<close>

datatype dao_call =
    CallInsert uuid uuid
  | CallInsertIfAbsent uuid uuid uuid string
  | CallUpdateStep uuid string
  | CallMarkCompleted uuid
  | CallMarkFailed uuid string

fun mem_call :: "mem_dao \<Rightarrow> dao_call \<Rightarrow> mem_dao" where
  "mem_call m (CallInsert i mv) = fst (mem_insert m i mv)"
| "mem_call m (CallInsertIfAbsent i mv wk key) = fst (mem_insert_if_absent m i mv wk key)"
| "mem_call m (CallUpdateStep i n) = fst (mem_update_step m i n)"
| "mem_call m (CallMarkCompleted i) = fst (mem_mark_completed m i)"
| "mem_call m (CallMarkFailed i e) = fst (mem_mark_failed m i e)"

definition mem_calls :: "mem_dao \<Rightarrow> dao_call list \<Rightarrow> mem_dao" where
  "mem_calls m cs = foldl mem_call m cs"

lemma mem_inv_call: "mem_inv m \<Longrightarrow> mem_inv (mem_call m c)"
  by (cases c) (simp_all add: inv_intros)

lemma mem_inv_calls: "mem_inv m \<Longrightarrow> mem_inv (mem_calls m cs)"
  by (induction cs arbitrary: m) (simp_all add: mem_calls_def mem_inv_call)

text \<open>No call drops a row or changes the columns that identify it.\<close>

lemma mem_call_keeps_row:
  "md_rows m i = Some r \<Longrightarrow> \<exists>r'. md_rows (mem_call m c) i = Some r' \<and> same_identity r r'"
  by (cases c)
     (auto simp: mem_insert_def mem_insert_if_absent_def mem_update_step_def mem_mark_completed_def
        mem_mark_failed_def Let_def same_identity_def split: option.split)

lemma mem_calls_keep_row:
  "md_rows m i = Some r \<Longrightarrow> \<exists>r'. md_rows (mem_calls m cs) i = Some r' \<and> same_identity r r'"
proof (induction cs arbitrary: m r)
  case (Cons c cs)
  then obtain r1 where "md_rows (mem_call m c) i = Some r1" "same_identity r r1"
    using mem_call_keeps_row by blast
  with Cons.IH [of "mem_call m c" r1] show ?case
    using same_identity_trans by (fastforce simp: mem_calls_def)
qed (simp add: mem_calls_def)

lemma mem_insert_if_absent_no_inconsistency:
  "mem_inv m \<Longrightarrow> snd (mem_insert_if_absent m i mv wk key) = Inl e
   \<Longrightarrow> \<not> errors_is e ErrIdempotencyIndexInconsistent"
  by (auto simp: mem_insert_if_absent_def Let_def split: option.splits if_splits
      dest: mem_key_row)

section \<open>Properties\<close>

text \<open>
  What a failed run leaves on the audit trail: \<open>comp_steps\<close> are the executed steps that have a
  \<open>Compensate\<close>, in the order the rollback visits them.
\<close>

definition comp_steps :: "('c, 'w) saga_step list \<Rightarrow> ('c, 'w) saga_step list" where
  "comp_steps executed = filter (\<lambda>s. step_compensate s \<noteq> None) (rev executed)"

definition ev_step_name :: "log_event \<Rightarrow> pval option" where
  "ev_step_name ev = map_of (ev_payload ev) ''step_name''"

lemma saga_rollback_names:
  "map ev_step_name (fst (saga_rollback c i ss w))
     = map (\<lambda>s. Some (PStr (step_name s))) (filter (\<lambda>s. step_compensate s \<noteq> None) ss)"
  by (induction ss arbitrary: w)
     (auto simp: ev_rollback_def ev_step_name_def wire_simps split: option.split prod.split
       dest!: arg_cong [of _ "(_, _)" fst])

lemma saga_rollback_types:
  "ev \<in> set (fst (saga_rollback c i ss w))
   \<Longrightarrow> ev_type ev \<in> {''saga_step_compensated'', ''saga_compensation_failed''}"
  by (induction c i ss w arbitrary: ev rule: saga_rollback.induct)
     (fastforce simp: ev_rollback_def wire_simps split: option.splits prod.splits)+

text \<open>
  C7: the runner over the in-memory store refines the abstract saga. For a stored row, \<open>Run\<close>
  appends exactly the audit trail of \<open>saga_spec\<close>, leaves its world and result, changes no other
  row, keeps the row's identity columns, and marks it completed iff every step succeeded, failed
  with the failing step's error class otherwise.
\<close>

theorem saga_run_refines_spec:
  assumes "mem_inv (run_dao st)" "md_rows (run_dao st) i = Some r"
    and "saga_spec c i [] steps (run_world st) = (trail, w', res)"
  shows "\<exists>st' r'. saga_runner_run mem_ops c i steps st = (st', res)
    \<and> run_log st' = run_log st @ trail \<and> run_world st' = w' \<and> mem_inv (run_dao st')
    \<and> md_rows (run_dao st') = (md_rows (run_dao st))(i \<mapsto> r') \<and> same_identity r r'
    \<and> sg_status r' = (if res = None then SagaStateCompleted else SagaStateFailed)
    \<and> sg_last_error r' = saga_spec_error c steps (run_world st) (sg_last_error r)"
  using assms by (rule mem.run_refines)

text \<open>
  C16: when a step fails, every earlier step that implements \<open>Compensator\<close> is compensated, once
  each and in reverse execution order, after the \<open>saga_failed\<close> row and before one final
  \<open>saga_compensated\<close> row; the failing step is not compensated, and neither a compensation that
  fails nor one that panics changes what \<open>Run\<close> returns.
\<close>

theorem saga_failure_rolls_back_in_reverse:
  assumes "mem_inv (run_dao st)" "md_rows (run_dao st) i = Some r"
    and "saga_forward c steps (run_world st) = (ok, Some (s, e), w1)"
  shows "\<exists>st' rb. saga_runner_run mem_ops c i steps st = (st', Some (errorf ''saga: run: step'' e))
    \<and> run_log st' = run_log st @ ok_trail i ok
        @ [ev_started i (step_name s), ev_saga_failed i (step_name s) (resolve_last_error_class e)]
        @ rb @ [ev_saga_compensated i]
    \<and> map ev_step_name rb = map (\<lambda>t. Some (PStr (step_name t))) (comp_steps ok)
    \<and> (\<forall>ev \<in> set rb. ev_type ev \<in> {''saga_step_compensated'', ''saga_compensation_failed''})
    \<and> (rb, run_world st') = saga_rollback (without_cancel c) i (rev ok) w1"
proof -
  obtain rb w2 where rb: "saga_rollback (without_cancel c) i (rev ok) w1 = (rb, w2)"
    by fastforce
  have "saga_spec c i [] steps (run_world st) =
      (ok_trail i ok
         @ [ev_started i (step_name s), ev_saga_failed i (step_name s) (resolve_last_error_class e)]
         @ rb @ [ev_saga_compensated i], w2, Some (errorf ''saga: run: step'' e))"
    using assms(3) rb by (simp add: saga_spec_def)
  from mem.run_refines [OF assms(1,2) this] show ?thesis
    using rb saga_rollback_names [of "without_cancel c" i "rev ok" w1]
      saga_rollback_types [of _ "without_cancel c" i "rev ok" w1]
    by (auto simp: comp_steps_def)
qed

text \<open>
  Over any history of calls on a fresh store its two maps stay consistent: every indexed key
  names a row with that key, every keyed row is indexed, terminal rows carry a completion time,
  so \<open>InsertIfAbsent\<close> never reports an inconsistent index.
\<close>

theorem mem_dao_index_consistent:
  "mem_inv (mem_calls (new_mem_dao now) cs)
   \<and> (snd (mem_insert_if_absent (mem_calls (new_mem_dao now) cs) i mv wk key) = Inl e
        \<longrightarrow> \<not> errors_is e ErrIdempotencyIndexInconsistent)"
  using mem_inv_calls [OF mem_inv_new] mem_insert_if_absent_no_inconsistency by blast

text \<open>
  \<open>InsertIfAbsent\<close> is idempotent on its key. Once a call has inserted a row, whatever other
  calls follow, a later call with the same key inserts nothing, leaves the store alone, and
  answers the first row with its original saga, manifest and watchkeeper ids.
\<close>

theorem insert_if_absent_idempotent:
  assumes "mem_inv m"
    and "mem_insert_if_absent m i mv wk key = (m1, Inr \<lparr>ir_inserted = True, ir_existing = r\<rparr>)"
    and "i' \<noteq> uuid_nil" "mv' \<noteq> uuid_nil" "wk' \<noteq> uuid_nil"
  shows "\<exists>r'. mem_insert_if_absent (mem_calls m1 cs) i' mv' wk' key
      = (mem_calls m1 cs, Inr \<lparr>ir_inserted = False, ir_existing = r'\<rparr>)
    \<and> sg_id r' = i \<and> sg_manifest_version_id r' = mv \<and> sg_watchkeeper_id r' = wk"
proof -
  from assms(2) have m1: "md_rows m1 i = Some r" "sg_id r = i" "sg_manifest_version_id r = mv"
      "sg_watchkeeper_id r = wk" "sg_idempotency_key r = key" "\<not> blank key"
    by (auto simp: mem_insert_if_absent_def Let_def split: option.splits if_splits)
  have inv: "mem_inv (mem_calls m1 cs)"
    using mem_inv_calls [of m1 cs] mem_inv_insert_if_absent [OF assms(1), of i mv wk key] assms(2)
    by simp
  from mem_calls_keep_row [OF m1(1), of cs] obtain r' where
    r': "md_rows (mem_calls m1 cs) i = Some r'" "same_identity r r'" by blast
  then have "sg_idempotency_key r' = key"
    using m1 by (simp add: same_identity_def)
  from mem.replay_law [OF inv m1(6) assms(3-5) r'(1) this] show ?thesis
    using r' m1 by (auto simp: same_identity_def)
qed

text \<open>
  The rollback is independent of the caller's cancellation and of its deadline. Two
  contexts with the same values drive the same compensations, whatever their \<open>Err\<close> answers and
  deadlines are; each \<open>Compensate\<close> is called with a context that has neither.
\<close>

theorem rollback_detached_from_caller:
  assumes "ctx.more c = ctx.more c'"
  shows "saga_compensate c i executed st = saga_compensate c' i executed st
    \<and> ctx_deadline (without_cancel c) = None \<and> (\<forall>n. ctx_err (without_cancel c) n = None)"
proof -
  have "without_cancel c = without_cancel c'"
    using assms by (cases c; cases c') (simp add: without_cancel_def)
  then show ?thesis by (simp add: saga_compensate_def)
qed

section \<open>Witnesses\<close>

text \<open>
  A three-step saga over worlds that record calls: the first two steps succeed, the second one's
  compensation panics, the third step fails with a classed error.
\<close>

definition demo_step ::
    "string \<Rightarrow> goerr option \<Rightarrow> comp_result option \<Rightarrow> (ctx, string list) saga_step" where
  "demo_step n res cr =
     \<lparr>step_name = n, step_execute = (\<lambda>_ w. (w @ [n], res)),
      step_compensate = map_option (\<lambda>r _ w. (w @ [''undo'', n], r)) cr\<rparr>"

definition demo_steps :: "(ctx, string list) saga_step list" where
  "demo_steps =
     [demo_step ''create_app'' None (Some (CompReturns None)),
      demo_step ''bot_profile'' None None,
      demo_step ''notebook'' None (Some CompPanics),
      demo_step ''launch'' (Some [Text ''wrap'', Classed ''launch_failed'']) (Some (CompReturns None))]"

definition demo_run :: "(mem_dao, string list) saga_run" where
  "demo_run = \<lparr>run_dao = fst (mem_insert (new_mem_dao int) 7 9), run_log = [], run_world = []\<rparr>"

lemma demo_run_ok:
  "mem_inv (run_dao demo_run)" "md_rows (run_dao demo_run) 7 \<noteq> None" "run_world demo_run = []"
  using mem_inv_insert [OF mem_inv_new, of int 7 9]
  by (simp_all add: demo_run_def mem_insert_def new_mem_dao_def Let_def)

lemma demo_forward:
  "saga_forward background demo_steps [] =
     (take 3 demo_steps,
      Some (demo_steps ! 3, [Text ''wrap'', Classed ''launch_failed'']),
      [''create_app'', ''bot_profile'', ''notebook'', ''launch''])"
  by (simp add: demo_steps_def demo_step_def)

theorem saga_run_refines_spec_witness:
  "\<exists>st'. saga_runner_run mem_ops background 7 [demo_step ''create_app'' None None] demo_run = (st', None)
     \<and> run_log st' = [ev_started 7 ''create_app'', ev_completed 7 ''create_app'', ev_saga_completed 7]"
proof -
  have spec: "saga_spec background 7 [] [demo_step ''create_app'' None None] (run_world demo_run)
      = ([ev_started 7 ''create_app'', ev_completed 7 ''create_app'', ev_saga_completed 7],
         [''create_app''], None)"
    by (simp add: saga_spec_def demo_step_def demo_run_ok(3))
  obtain r where "md_rows (run_dao demo_run) 7 = Some r"
    using demo_run_ok(2) by blast
  from saga_run_refines_spec [OF demo_run_ok(1) this spec] show ?thesis
    by (auto simp: demo_run_def)
qed

theorem saga_failure_rolls_back_in_reverse_witness:
  "\<exists>st' rb. saga_runner_run mem_ops background 7 demo_steps demo_run
      = (st', Some [Text ''saga: run: step'', Text ''wrap'', Classed ''launch_failed''])
    \<and> map ev_step_name rb = [Some (PStr ''notebook''), Some (PStr ''create_app'')]
    \<and> run_world st' = [''create_app'', ''bot_profile'', ''notebook'', ''launch'',
        ''undo'', ''notebook'', ''undo'', ''create_app'']"
proof -
  obtain r where "md_rows (run_dao demo_run) 7 = Some r"
    using demo_run_ok(2) by blast
  from saga_failure_rolls_back_in_reverse [OF demo_run_ok(1) this,
      unfolded demo_run_ok(3), OF demo_forward]
  obtain st' rb where run: "saga_runner_run mem_ops background 7 demo_steps demo_run
      = (st', Some [Text ''saga: run: step'', Text ''wrap'', Classed ''launch_failed''])"
    and rb: "map ev_step_name rb = map (\<lambda>t. Some (PStr (step_name t))) (comp_steps (take 3 demo_steps))"
    and w: "(rb, run_world st') = saga_rollback (without_cancel background) 7 (rev (take 3 demo_steps))
      [''create_app'', ''bot_profile'', ''notebook'', ''launch'']"
    by (auto simp: errorf_def)
  from rb have "map ev_step_name rb = [Some (PStr ''notebook''), Some (PStr ''create_app'')]"
    by (simp add: comp_steps_def demo_steps_def demo_step_def)
  moreover from w have "run_world st' = [''create_app'', ''bot_profile'', ''notebook'', ''launch'',
      ''undo'', ''notebook'', ''undo'', ''create_app'']"
    by (simp add: demo_steps_def demo_step_def safe_compensate_def)
  ultimately show ?thesis
    using run by (intro exI [of _ st'] exI [of _ rb] conjI)
qed

theorem mem_dao_index_consistent_witness:
  "mem_inv (mem_calls (new_mem_dao int) [CallInsertIfAbsent 1 2 3 ''k'', CallUpdateStep 1 ''s''])
   \<and> \<not> errors_is [Text ''saga: insert if absent: duplicate id''] ErrIdempotencyIndexInconsistent"
proof -
  have "snd (mem_insert_if_absent (mem_calls (new_mem_dao int) [CallInsertIfAbsent 1 2 3 ''k'',
      CallUpdateStep 1 ''s'']) 1 2 3 ''other'') = Inl [Text ''saga: insert if absent: duplicate id'']"
    by code_simp
  then show ?thesis
    using mem_dao_index_consistent [of int "[CallInsertIfAbsent 1 2 3 ''k'', CallUpdateStep 1 ''s'']"
        1 2 3 "''other''" "[Text ''saga: insert if absent: duplicate id'']"]
    by blast
qed

theorem insert_if_absent_idempotent_witness:
  "\<exists>m1 r'. mem_insert_if_absent (mem_calls m1 [CallMarkFailed 1 ''boom'']) 4 5 6 ''tok''
      = (mem_calls m1 [CallMarkFailed 1 ''boom''], Inr \<lparr>ir_inserted = False, ir_existing = r'\<rparr>)
    \<and> sg_id r' = 1 \<and> sg_watchkeeper_id r' = 3"
proof -
  have b: "\<not> blank ''tok''" by code_simp
  obtain m1 r where "mem_insert_if_absent (new_mem_dao int) 1 2 3 ''tok''
      = (m1, Inr \<lparr>ir_inserted = True, ir_existing = r\<rparr>)"
    using b by (auto simp: mem_insert_if_absent_def new_mem_dao_def Let_def)
  from insert_if_absent_idempotent [OF mem_inv_new this, of 4 5 6 "[CallMarkFailed 1 ''boom'']"]
  show ?thesis by auto
qed

theorem rollback_detached_from_caller_witness:
  "saga_compensate \<lparr>ctx_deadline = Some 5, ctx_err = (\<lambda>_. Some [Sentinel CtxCanceled])\<rparr> 7
       (take 3 demo_steps) demo_run
     = saga_compensate background 7 (take 3 demo_steps) demo_run"
  using rollback_detached_from_caller
    [of "\<lparr>ctx_deadline = Some 5, ctx_err = (\<lambda>_. Some [Sentinel CtxCanceled])\<rparr>" background]
  by (simp add: background_def)

end
