(* ===== verification/SpawnKickoff.thy ===== *)
theory SpawnKickoff
  imports Saga
begin

text \<open>
  The kickoffers that start a saga when an approval lands
  (\<^verbatim>\<open>core/pkg/spawn/spawnkickoff.go\<close>, \<^verbatim>\<open>retirekickoff.go\<close>): the values they
  seed on the context (\<^verbatim>\<open>saga/spawn_context.go\<close>, \<^verbatim>\<open>saga/retire_result.go\<close>), their
  audit payloads, and \<open>Kickoff\<close> itself with its replay and catch-up branches, over any store that
  keeps the \<open>spawn_saga_dao\<close> contract. The kickoffer's writer and the runner's are the same one,
  as the production wiring has it: \<open>run_log\<close> lists every row handed to it, and its answer to a
  row may depend on all of them.
\<close>

section \<open>Values on the context\<close>

record spawn_claim =
  sc_organization_id :: string
  sc_agent_id :: string
  sc_authority_matrix :: "string \<rightharpoonup> string"

record spawn_context =
  sx_manifest_version_id :: uuid
  sx_agent_id :: uuid
  sx_claim :: spawn_claim
  sx_oauth_code :: string

record spawn_ctx = ctx +
  cv_spawn :: "spawn_context option"

definition with_spawn_context :: "'z spawn_ctx_scheme \<Rightarrow> spawn_context \<Rightarrow> 'z spawn_ctx_scheme" where
  "with_spawn_context parent sc = parent\<lparr>cv_spawn := Some sc\<rparr>"

definition spawn_context_from_context :: "'z spawn_ctx_scheme \<Rightarrow> spawn_context option" where
  "spawn_context_from_context c = cv_spawn c"

text \<open>
  \<open>RetireResult\<close> is shared by pointer: the context holds the address, \<open>rw_results\<close> what it
  points to, \<open>rw_next\<close> the next address \<open>&RetireResult{}\<close> returns.
\<close>

record retire_result =
  rr_archive_uri :: string

record 'w retire_world =
  rw_next :: nat
  rw_results :: "nat \<Rightarrow> retire_result"
  rw_env :: 'w

record retire_ctx = spawn_ctx +
  cv_retire :: "nat option"

definition new_retire_result :: "'w retire_world \<Rightarrow> 'w retire_world \<times> nat" where
  "new_retire_result w =
     (w\<lparr>rw_next := Suc (rw_next w),
        rw_results := (rw_results w)(rw_next w := \<lparr>rr_archive_uri = []\<rparr>)\<rparr>, rw_next w)"

definition with_retire_result :: "'z retire_ctx_scheme \<Rightarrow> nat \<Rightarrow> 'z retire_ctx_scheme" where
  "with_retire_result parent r = parent\<lparr>cv_retire := Some r\<rparr>"

definition retire_result_from_context :: "'z retire_ctx_scheme \<Rightarrow> nat option" where
  "retire_result_from_context c = cv_retire c"

lemma with_spawn_context_simps [simp]:
  "spawn_context_from_context (with_spawn_context c sc) = Some sc"
  "ctx_deadline (with_spawn_context c sc) = ctx_deadline c"
  "ctx_err (with_spawn_context c sc) = ctx_err c"
  by (simp_all add: spawn_context_from_context_def with_spawn_context_def)

section \<open>Audit payloads\<close>

definition approval_token_prefix :: "string \<Rightarrow> string" where
  "approval_token_prefix token =
     (let runes = go_runes token
      in if length runes \<le> 6 then ''tok-'' @ token else ''tok-'' @ concat (take 6 runes))"

fun saga_state_string :: "saga_state \<Rightarrow> string" where
  "saga_state_string SagaStatePending = ''pending''"
| "saga_state_string SagaStateInFlight = ''in_flight''"
| "saga_state_string SagaStateCompleted = ''completed''"
| "saga_state_string SagaStateFailed = ''failed''"

definition manifest_approved_payload :: "uuid \<Rightarrow> string \<Rightarrow> string \<Rightarrow> (string \<times> pval) list" where
  "manifest_approved_payload mv tok agent =
     [(''manifest_version_id'', PUuid mv),
      (''approval_token_prefix'', PStr (approval_token_prefix tok)),
      (''agent_id'', PStr agent)]"

definition manifest_approval_replayed_payload ::
    "uuid \<Rightarrow> uuid \<Rightarrow> uuid \<Rightarrow> string \<Rightarrow> string \<Rightarrow> saga_state \<Rightarrow> (string \<times> pval) list" where
  "manifest_approval_replayed_payload i mv wk tok agent prev =
     [(''saga_id'', PUuid i), (''manifest_version_id'', PUuid mv), (''watchkeeper_id'', PUuid wk),
      (''approval_token_prefix'', PStr (approval_token_prefix tok)),
      (''agent_id'', PStr agent), (''previous_status'', PStr (saga_state_string prev))]"

definition manifest_rejected_after_spawn_failure_payload ::
    "uuid \<Rightarrow> uuid \<Rightarrow> uuid \<Rightarrow> string \<Rightarrow> string \<Rightarrow> (string \<times> pval) list" where
  "manifest_rejected_after_spawn_failure_payload i mv wk tok agent =
     [(''saga_id'', PUuid i), (''manifest_version_id'', PUuid mv), (''watchkeeper_id'', PUuid wk),
      (''approval_token_prefix'', PStr (approval_token_prefix tok)), (''agent_id'', PStr agent)]"

definition retire_approved_payload ::
    "uuid \<Rightarrow> uuid \<Rightarrow> string \<Rightarrow> string \<Rightarrow> (string \<times> pval) list" where
  "retire_approved_payload mv wk tok agent =
     [(''manifest_version_id'', PUuid mv), (''watchkeeper_id'', PUuid wk),
      (''approval_token_prefix'', PStr (approval_token_prefix tok)), (''agent_id'', PStr agent)]"

definition retire_approval_replayed_payload ::
    "uuid \<Rightarrow> uuid \<Rightarrow> uuid \<Rightarrow> string \<Rightarrow> string \<Rightarrow> saga_state \<Rightarrow> (string \<times> pval) list" where
  "retire_approval_replayed_payload i mv wk tok agent prev =
     [(''saga_id'', PUuid i), (''manifest_version_id'', PUuid mv), (''watchkeeper_id'', PUuid wk),
      (''approval_token_prefix'', PStr (approval_token_prefix tok)),
      (''agent_id'', PStr agent), (''previous_status'', PStr (saga_state_string prev))]"

section \<open>The kickoffers\<close>

record ('d, 'c, 'w) kickoffer =
  kk_logger :: appender
  kk_dao :: "'d saga_dao"
  kk_agent_id :: string
  kk_steps :: "('c, 'w) saga_step list"

abbreviation ErrInvalidKickoffArgs :: string where
  "ErrInvalidKickoffArgs \<equiv> ''spawn: invalid kickoff args''"

text \<open>One \<open>Append\<close>: the row joins the history, the writer answers.\<close>

definition kickoff_append ::
    "appender \<Rightarrow> ('d, 'w) saga_run \<Rightarrow> log_event \<Rightarrow> ('d, 'w) saga_run \<times> goerr option" where
  "kickoff_append L st ev = (saga_emit st ev, L (run_log st) ev)"

text \<open>The context value both kickoffers seed, from the stored row and the call's claim.\<close>

definition kickoff_spawn_context :: "saga_row \<Rightarrow> spawn_claim \<Rightarrow> spawn_context" where
  "kickoff_spawn_context ex claim =
     \<lparr>sx_manifest_version_id = sg_manifest_version_id ex,
      sx_agent_id = sg_watchkeeper_id ex, sx_claim = claim, sx_oauth_code = []\<rparr>"

text \<open>
  \<open>SpawnKickoffer.Kickoff\<close> in the two parts a concurrent call can fall between: the checks and
  \<open>InsertIfAbsent\<close> (one atomic call on the store), then everything after it.
\<close>

definition spawn_kickoff_insert ::
    "('d, 'c, 'w) kickoffer \<Rightarrow> uuid \<Rightarrow> uuid \<Rightarrow> uuid \<Rightarrow> string \<Rightarrow> ('d, 'w) saga_run
     \<Rightarrow> ('d, 'w) saga_run \<times> (goerr + insert_result)" where
  "spawn_kickoff_insert k sid mv wk tok st =
     (if sid = uuid_nil then (st, Inl (errorf_is ErrInvalidKickoffArgs []))
      else if mv = uuid_nil then (st, Inl (errorf_is ErrInvalidKickoffArgs []))
      else if wk = uuid_nil then (st, Inl (errorf_is ErrInvalidKickoffArgs []))
      else if blank tok then (st, Inl (errorf_is ErrInvalidKickoffArgs []))
      else case dao_insert_if_absent (kk_dao k) (run_dao st) sid mv wk tok of
        (d', Inl e) \<Rightarrow> (st\<lparr>run_dao := d'\<rparr>, Inl (errorf ''spawn: kickoff: insert saga'' e))
      | (d', Inr res) \<Rightarrow> (st\<lparr>run_dao := d'\<rparr>, Inr res))"

definition spawn_kickoff_rest ::
    "('d, 'z spawn_ctx_scheme, 'w) kickoffer \<Rightarrow> 'z spawn_ctx_scheme \<Rightarrow> spawn_claim \<Rightarrow> string
     \<Rightarrow> insert_result \<Rightarrow> ('d, 'w) saga_run \<Rightarrow> ('d, 'w) saga_run \<times> goerr option" where
  "spawn_kickoff_rest k c claim tok res st =
     (let ex = ir_existing res in
      if \<not> ir_inserted res \<and> sg_status ex \<noteq> SagaStatePending then
        (case kickoff_append (kk_logger k) st
            (mk_event ''manifest_approval_replayed_for_spawn''
               (manifest_approval_replayed_payload (sg_id ex) (sg_manifest_version_id ex)
                  (sg_watchkeeper_id ex) tok (kk_agent_id k) (sg_status ex))) of
           (st1, Some e) \<Rightarrow>
             (st1, Some (errorf ''spawn: kickoff: append manifest_approval_replayed_for_spawn'' e))
         | (st1, None) \<Rightarrow> (st1, None))
      else
        (case kickoff_append (kk_logger k) st
            (mk_event ''manifest_approved_for_spawn''
               (manifest_approved_payload (sg_manifest_version_id ex) tok (kk_agent_id k))) of
           (st1, Some e) \<Rightarrow>
             (st1, Some (errorf ''spawn: kickoff: append manifest_approved_for_spawn'' e))
         | (st1, None) \<Rightarrow>
             (let c' = with_spawn_context c (kickoff_spawn_context ex claim)
              in case saga_runner_run (kk_dao k) c' (sg_id ex) (kk_steps k) st1 of
                   (st2, Some e) \<Rightarrow>
                     (fst (kickoff_append (kk_logger k) st2
                        (mk_event ''manifest_rejected_after_spawn_failure''
                           (manifest_rejected_after_spawn_failure_payload (sg_id ex)
                              (sg_manifest_version_id ex) (sg_watchkeeper_id ex) tok
                              (kk_agent_id k)))),
                      Some (errorf ''spawn: kickoff: run saga'' e))
                 | (st2, None) \<Rightarrow> (st2, None))))"

definition spawn_kickoff ::
    "('d, 'z spawn_ctx_scheme, 'w) kickoffer \<Rightarrow> 'z spawn_ctx_scheme \<Rightarrow> uuid \<Rightarrow> uuid \<Rightarrow> uuid
     \<Rightarrow> spawn_claim \<Rightarrow> string \<Rightarrow> ('d, 'w) saga_run \<Rightarrow> ('d, 'w) saga_run \<times> goerr option" where
  "spawn_kickoff k c sid mv wk claim tok st =
     (case spawn_kickoff_insert k sid mv wk tok st of
        (st1, Inl e) \<Rightarrow> (st1, Some e)
      | (st1, Inr res) \<Rightarrow> spawn_kickoff_rest k c claim tok res st1)"

text \<open>
  \<open>RetireKickoffer.Kickoff\<close>: the same shape, without the rejection row, and with a fresh
  \<open>RetireResult\<close> on the context.
\<close>

definition retire_kickoff ::
    "('d, 'z retire_ctx_scheme, 'w retire_world) kickoffer \<Rightarrow> 'z retire_ctx_scheme
     \<Rightarrow> uuid \<Rightarrow> uuid \<Rightarrow> uuid \<Rightarrow> spawn_claim \<Rightarrow> string
     \<Rightarrow> ('d, 'w retire_world) saga_run \<Rightarrow> ('d, 'w retire_world) saga_run \<times> goerr option" where
  "retire_kickoff k c sid mv wk claim tok st =
     (if sid = uuid_nil then (st, Some (errorf_is ErrInvalidKickoffArgs []))
      else if mv = uuid_nil then (st, Some (errorf_is ErrInvalidKickoffArgs []))
      else if wk = uuid_nil then (st, Some (errorf_is ErrInvalidKickoffArgs []))
      else if blank tok then (st, Some (errorf_is ErrInvalidKickoffArgs []))
      else case dao_insert_if_absent (kk_dao k) (run_dao st) sid mv wk tok of
        (d', Inl e) \<Rightarrow> (st\<lparr>run_dao := d'\<rparr>, Some (errorf ''spawn: retire kickoff: insert saga'' e))
      | (d', Inr res) \<Rightarrow>
          (let st0 = st\<lparr>run_dao := d'\<rparr>; ex = ir_existing res in
           if \<not> ir_inserted res \<and> sg_status ex \<noteq> SagaStatePending then
             (case kickoff_append (kk_logger k) st0
                 (mk_event ''retire_approval_replayed_for_watchkeeper''
                    (retire_approval_replayed_payload (sg_id ex) (sg_manifest_version_id ex)
                       (sg_watchkeeper_id ex) tok (kk_agent_id k) (sg_status ex))) of
                (st1, Some e) \<Rightarrow>
                  (st1, Some (errorf
                     ''spawn: retire kickoff: append retire_approval_replayed_for_watchkeeper'' e))
              | (st1, None) \<Rightarrow> (st1, None))
           else
             (case kickoff_append (kk_logger k) st0
                 (mk_event ''retire_approved_for_watchkeeper''
                    (retire_approved_payload (sg_manifest_version_id ex) (sg_watchkeeper_id ex)
                       tok (kk_agent_id k))) of
                (st1, Some e) \<Rightarrow>
                  (st1, Some (errorf
                     ''spawn: retire kickoff: append retire_approved_for_watchkeeper'' e))
              | (st1, None) \<Rightarrow>
                  (let c1 = with_spawn_context c (kickoff_spawn_context ex claim);
                       (w', r) = new_retire_result (run_world st1)
                   in case saga_runner_run (kk_dao k) (with_retire_result c1 r) (sg_id ex)
                        (kk_steps k) (st1\<lparr>run_world := w'\<rparr>) of
                        (st2, Some e) \<Rightarrow> (st2, Some (errorf ''spawn: retire kickoff: run saga'' e))
                      | (st2, None) \<Rightarrow> (st2, None)))))"

section \<open>The rows a spawn kickoff writes\<close>

definition ev_spawn_approved :: "('d, 'c, 'w) kickoffer \<Rightarrow> string \<Rightarrow> saga_row \<Rightarrow> log_event" where
  "ev_spawn_approved k tok ex =
     mk_event ''manifest_approved_for_spawn''
       (manifest_approved_payload (sg_manifest_version_id ex) tok (kk_agent_id k))"

definition ev_spawn_replayed :: "('d, 'c, 'w) kickoffer \<Rightarrow> string \<Rightarrow> saga_row \<Rightarrow> log_event" where
  "ev_spawn_replayed k tok ex =
     mk_event ''manifest_approval_replayed_for_spawn''
       (manifest_approval_replayed_payload (sg_id ex) (sg_manifest_version_id ex)
          (sg_watchkeeper_id ex) tok (kk_agent_id k) (sg_status ex))"

definition ev_spawn_rejected :: "('d, 'c, 'w) kickoffer \<Rightarrow> string \<Rightarrow> saga_row \<Rightarrow> log_event" where
  "ev_spawn_rejected k tok ex =
     mk_event ''manifest_rejected_after_spawn_failure''
       (manifest_rejected_after_spawn_failure_payload (sg_id ex) (sg_manifest_version_id ex)
          (sg_watchkeeper_id ex) tok (kk_agent_id k))"

lemmas spawn_events_defs [wire_simps] =
  ev_spawn_approved_def ev_spawn_replayed_def ev_spawn_rejected_def manifest_approved_payload_def
  manifest_approval_replayed_payload_def manifest_rejected_after_spawn_failure_payload_def

lemma kickoff_append_simps [simp]:
  "kickoff_append L st ev = (st', r) \<longleftrightarrow> st' = saga_emit st ev \<and> r = L (run_log st) ev"
  "fst (kickoff_append L st ev) = saga_emit st ev"
  "snd (kickoff_append L st ev) = L (run_log st) ev"
  by (auto simp: kickoff_append_def)

text \<open>What a kickoff promises once it may run, and what a replay promises.\<close>

definition kickoff_may_run :: "insert_result \<Rightarrow> bool" where
  "kickoff_may_run res \<longleftrightarrow> ir_inserted res \<or> sg_status (ir_existing res) = SagaStatePending"

definition kickoff_trail ::
    "('d, 'z spawn_ctx_scheme, 'w) kickoffer \<Rightarrow> 'z spawn_ctx_scheme \<Rightarrow> spawn_claim \<Rightarrow> string
     \<Rightarrow> saga_row \<Rightarrow> 'w \<Rightarrow> log_event list \<times> 'w \<times> goerr option" where
  "kickoff_trail k c claim tok ex w =
     (let (trail, w', r) =
        saga_spec (with_spawn_context c (kickoff_spawn_context ex claim)) (sg_id ex) [] (kk_steps k) w
      in (ev_spawn_approved k tok ex # trail
            @ (if r = None then [] else [ev_spawn_rejected k tok ex]),
          w', map_option (errorf ''spawn: kickoff: run saga'') r))"

text \<open>Arguments that pass the checks, and the row they insert.\<close>

definition kickoff_args_ok :: "uuid \<Rightarrow> uuid \<Rightarrow> uuid \<Rightarrow> string \<Rightarrow> bool" where
  "kickoff_args_ok sid mv wk tok \<longleftrightarrow>
     sid \<noteq> uuid_nil \<and> mv \<noteq> uuid_nil \<and> wk \<noteq> uuid_nil \<and> \<not> blank tok"

definition row_of :: "uuid \<Rightarrow> uuid \<Rightarrow> uuid \<Rightarrow> string \<Rightarrow> saga_row \<Rightarrow> bool" where
  "row_of sid mv wk tok r \<longleftrightarrow>
     sg_id r = sid \<and> sg_manifest_version_id r = mv \<and> sg_watchkeeper_id r = wk
     \<and> sg_idempotency_key r = tok"

lemma row_of_same_identity: "row_of sid mv wk tok r \<Longrightarrow> same_identity r r' \<Longrightarrow> row_of sid mv wk tok r'"
  by (simp add: row_of_def same_identity_def)

text \<open>The row of given ids, for stating what depends on the ids only; a sequence of kickoffs.\<close>

definition ids_row :: "uuid \<Rightarrow> uuid \<Rightarrow> uuid \<Rightarrow> string \<Rightarrow> saga_row" where
  "ids_row sid mv wk tok =
     \<lparr>sg_id = sid, sg_manifest_version_id = mv, sg_status = SagaStatePending, sg_current_step = [],
      sg_last_error = [], sg_created_at = 0, sg_updated_at = 0, sg_completed_at = None,
      sg_idempotency_key = tok, sg_watchkeeper_id = wk\<rparr>"

lemma ids_row_simps [simp]:
  "sg_id (ids_row sid mv wk tok) = sid"
  "sg_manifest_version_id (ids_row sid mv wk tok) = mv"
  "sg_watchkeeper_id (ids_row sid mv wk tok) = wk"
  "sg_idempotency_key (ids_row sid mv wk tok) = tok"
  by (simp_all add: ids_row_def)

lemma row_of_trail:
  assumes "row_of sid mv wk tok ex"
  shows "kickoff_trail k c claim tok ex w = kickoff_trail k c claim tok (ids_row sid mv wk tok) w"
    and "ev_spawn_approved k tok ex = ev_spawn_approved k tok (ids_row sid mv wk tok)"
  using assms
  by (simp_all add: kickoff_trail_def kickoff_spawn_context_def spawn_events_defs row_of_def ids_row_def
      cong del: if_weak_cong)

record kick_req =
  kr_saga :: uuid
  kr_mv :: uuid
  kr_wk :: uuid
  kr_claim :: spawn_claim
  kr_tok :: string

definition spawn_kickoffs ::
    "('d, 'z spawn_ctx_scheme, 'w) kickoffer \<Rightarrow> 'z spawn_ctx_scheme \<Rightarrow> kick_req list
     \<Rightarrow> ('d, 'w) saga_run \<Rightarrow> ('d, 'w) saga_run" where
  "spawn_kickoffs k c reqs st =
     foldl (\<lambda>st q. fst (spawn_kickoff k c (kr_saga q) (kr_mv q) (kr_wk q) (kr_claim q) (kr_tok q) st))
       st reqs"

context spawn_saga_dao
begin

lemma rest_runs:
  assumes "kk_dao k = D" "inv (run_dao st)"
    and "rows (run_dao st) (sg_id (ir_existing res)) = Some row0"
    and "kickoff_may_run res"
    and "kk_logger k (run_log st) (ev_spawn_approved k tok (ir_existing res)) = None"
    and "kickoff_trail k c claim tok (ir_existing res) (run_world st) = (trail, w', r)"
  shows "\<exists>st' row. spawn_kickoff_rest k c claim tok res st = (st', r)
    \<and> run_log st' = run_log st @ trail \<and> run_world st' = w' \<and> inv (run_dao st')
    \<and> rows (run_dao st') = (rows (run_dao st))(sg_id (ir_existing res) \<mapsto> row)
    \<and> same_identity row0 row
    \<and> sg_status row = (if r = None then SagaStateCompleted else SagaStateFailed)"
proof -
  let ?ex = "ir_existing res"
  let ?c = "with_spawn_context c (kickoff_spawn_context ?ex claim)"
  let ?st1 = "saga_emit st (ev_spawn_approved k tok ?ex)"
  obtain tr r0 where spec: "saga_spec ?c (sg_id ?ex) [] (kk_steps k) (run_world ?st1) = (tr, w', r0)"
    and trail: "trail = ev_spawn_approved k tok ?ex # tr
        @ (if r0 = None then [] else [ev_spawn_rejected k tok ?ex])"
    and r: "r = map_option (errorf ''spawn: kickoff: run saga'') r0"
    using assms(6) by (auto simp: kickoff_trail_def Let_def split: prod.splits)
  have "inv (run_dao ?st1)" "rows (run_dao ?st1) (sg_id ?ex) = Some row0"
    using assms(2,3) by simp_all
  from run_refines [OF this spec] obtain st2 row where
    run: "saga_runner_run D ?c (sg_id ?ex) (kk_steps k) ?st1 = (st2, r0)"
      "run_log st2 = run_log ?st1 @ tr" "run_world st2 = w'" "inv (run_dao st2)"
      "rows (run_dao st2) = (rows (run_dao ?st1))(sg_id ?ex \<mapsto> row)" "same_identity row0 row"
      "sg_status row = (if r0 = None then SagaStateCompleted else SagaStateFailed)"
    by blast
  have "kk_logger k (run_log st) (mk_event ''manifest_approved_for_spawn''
      (manifest_approved_payload (sg_manifest_version_id ?ex) tok (kk_agent_id k))) = None"
    using assms(5) by (simp add: ev_spawn_approved_def)
  moreover have "\<not> (\<not> ir_inserted res \<and> sg_status ?ex \<noteq> SagaStatePending)"
    using assms(4) by (auto simp: kickoff_may_run_def)
  ultimately have "spawn_kickoff_rest k c claim tok res st =
      (case r0 of Some e \<Rightarrow> (saga_emit st2 (ev_spawn_rejected k tok ?ex), r) | None \<Rightarrow> (st2, r))"
    using run(1) assms(1) r
    by (auto simp: spawn_kickoff_rest_def Let_def kickoff_append_def ev_spawn_approved_def
        ev_spawn_rejected_def split: option.split)
  then show ?thesis
    using run(2-) trail r by (cases r0) auto
qed

lemma rest_replays:
  assumes "\<not> kickoff_may_run res"
  shows "spawn_kickoff_rest k c claim tok res st =
    (saga_emit st (ev_spawn_replayed k tok (ir_existing res)),
     map_option (errorf ''spawn: kickoff: append manifest_approval_replayed_for_spawn'')
       (kk_logger k (run_log st) (ev_spawn_replayed k tok (ir_existing res))))"
  using assms
  by (simp add: spawn_kickoff_rest_def Let_def kickoff_append_def kickoff_may_run_def
      ev_spawn_replayed_def split: option.split)

lemma rest_append_fails:
  assumes "kickoff_may_run res"
    and "kk_logger k (run_log st) (ev_spawn_approved k tok (ir_existing res)) = Some e"
  shows "spawn_kickoff_rest k c claim tok res st =
    (saga_emit st (ev_spawn_approved k tok (ir_existing res)),
     Some (errorf ''spawn: kickoff: append manifest_approved_for_spawn'' e))"
  using assms
  by (auto simp: spawn_kickoff_rest_def Let_def kickoff_append_def kickoff_may_run_def
      ev_spawn_approved_def)

lemma rest_frame:
  assumes "kk_dao k = D" "inv (run_dao st)"
    and "rows (run_dao st) (sg_id (ir_existing res)) = Some (ir_existing res)"
    and "rows (run_dao st) i = Some row" "sg_status row \<noteq> SagaStatePending"
    and "kickoff_may_run res \<Longrightarrow> sg_status (ir_existing res) = SagaStatePending"
  shows "inv (run_dao (fst (spawn_kickoff_rest k c claim tok res st)))
    \<and> rows (run_dao (fst (spawn_kickoff_rest k c claim tok res st))) i = Some row"
proof (cases "kickoff_may_run res")
  case False
  from rest_replays [OF this, of k c claim tok st] show ?thesis
    using assms(2,4) by simp
next
  case True
  show ?thesis
  proof (cases "kk_logger k (run_log st) (ev_spawn_approved k tok (ir_existing res))")
    case (Some e)
    from rest_append_fails [OF True this, of c claim] show ?thesis
      using assms(2,4) by simp
  next
    case None
    obtain trail w' r where tr: "kickoff_trail k c claim tok (ir_existing res) (run_world st) = (trail, w', r)"
      by (cases "kickoff_trail k c claim tok (ir_existing res) (run_world st)") auto
    have "i \<noteq> sg_id (ir_existing res)"
      using assms(3-5) assms(6) [OF True] by auto
    with rest_runs [OF assms(1-3) True None tr] show ?thesis
      using assms(4) by auto
  qed
qed

text \<open>The three ways an insertion can go, for valid arguments.\<close>

lemma insert_fresh:
  assumes "kk_dao k = D" "inv (run_dao st)" "kickoff_args_ok sid mv wk tok"
    and "rows (run_dao st) sid = None"
    and "\<forall>j r. rows (run_dao st) j = Some r \<longrightarrow> sg_idempotency_key r \<noteq> tok"
  shows "\<exists>d' ex. spawn_kickoff_insert k sid mv wk tok st
      = (st\<lparr>run_dao := d'\<rparr>, Inr \<lparr>ir_inserted = True, ir_existing = ex\<rparr>)
    \<and> inv d' \<and> rows d' = (rows (run_dao st))(sid \<mapsto> ex) \<and> row_of sid mv wk tok ex
    \<and> sg_status ex = SagaStatePending"
  using insert_law [of "run_dao st" tok sid mv wk] assms
  by (fastforce simp: spawn_kickoff_insert_def kickoff_args_ok_def row_of_def)

lemma insert_replay:
  assumes "kk_dao k = D" "inv (run_dao st)" "kickoff_args_ok sid mv wk tok"
    and "rows (run_dao st) j = Some ex" "sg_idempotency_key ex = tok"
  shows "spawn_kickoff_insert k sid mv wk tok st = (st, Inr \<lparr>ir_inserted = False, ir_existing = ex\<rparr>)"
  using replay_law [of "run_dao st" tok sid mv wk j ex] assms
  by (simp add: spawn_kickoff_insert_def kickoff_args_ok_def)

lemma insert_result_cases:
  assumes "kk_dao k = D" "inv (run_dao st)"
    and "spawn_kickoff_insert k sid mv wk tok st = (st1, r)"
  obtains (Failed) e where "r = Inl e" "st1 = st"
  | (Done) res where "r = Inr res" "inv (run_dao st1)" "run_log st1 = run_log st"
      "run_world st1 = run_world st"
      "rows (run_dao st1) (sg_id (ir_existing res)) = Some (ir_existing res)"
      "kickoff_may_run res \<Longrightarrow> sg_status (ir_existing res) = SagaStatePending"
      "\<And>i row. rows (run_dao st) i = Some row \<Longrightarrow> rows (run_dao st1) i = Some row"
proof -
  obtain d' ri where ins: "dao_insert_if_absent D (run_dao st) sid mv wk tok = (d', ri)"
    by fastforce
  show thesis
  proof (cases "kickoff_args_ok sid mv wk tok")
    case False
    then show thesis
      using assms(1,3) Failed by (auto simp: spawn_kickoff_insert_def kickoff_args_ok_def split: if_splits)
  next
    case args: True
    show thesis
    proof (cases ri)
      case (Inl e)
      then show thesis
        using assms(1,3) ins args Failed insert_error_law [OF assms(2)]
        by (auto simp: spawn_kickoff_insert_def kickoff_args_ok_def)
    next
      case (Inr res)
      with ins insert_ok_law [OF assms(2)] have law: "if ir_inserted res
          then rows (run_dao st) sid = None \<and> inv d' \<and> rows d' = (rows (run_dao st))(sid \<mapsto> ir_existing res)
            \<and> sg_id (ir_existing res) = sid \<and> sg_status (ir_existing res) = SagaStatePending
          else d' = run_dao st \<and> rows (run_dao st) (sg_id (ir_existing res)) = Some (ir_existing res)"
        by blast
      have st1: "st1 = st\<lparr>run_dao := d'\<rparr>" "r = Inr res"
        using assms(1,3) ins args Inr by (simp_all add: spawn_kickoff_insert_def kickoff_args_ok_def)
      show thesis
        by (rule Done [of res])
          (use law st1 assms(2) in \<open>auto simp: kickoff_may_run_def split: if_splits\<close>)
    qed
  qed
qed

text \<open>A row past \<open>pending\<close> is never touched by a kickoff, whatever its arguments.\<close>

lemma kickoff_frame:
  assumes "kk_dao k = D" "inv (run_dao st)"
    and "rows (run_dao st) i = Some row" "sg_status row \<noteq> SagaStatePending"
    and "spawn_kickoff k c sid mv wk claim tok st = (st', r)"
  shows "inv (run_dao st') \<and> rows (run_dao st') i = Some row"
proof -
  obtain st1 ri where ins: "spawn_kickoff_insert k sid mv wk tok st = (st1, ri)"
    by fastforce
  from assms(1,2) ins show ?thesis
  proof (cases rule: insert_result_cases)
    case (Failed e)
    then show ?thesis
      using assms ins by (simp add: spawn_kickoff_def)
  next
    case (Done res)
    have "(st', r) = spawn_kickoff_rest k c claim tok res st1"
      using assms(5) ins Done(1) by (simp add: spawn_kickoff_def)
    moreover have "rows (run_dao st1) i = Some row"
      using Done(7) assms(3) .
    ultimately show ?thesis
      using rest_frame [OF assms(1) Done(2,5) _ assms(4) Done(6)]
      by (metis fst_conv)
  qed
qed

text \<open>A kickoff for a token whose row is past \<open>pending\<close>, and for a token never seen.\<close>

lemma kickoff_replays:
  assumes "kk_dao k = D" "inv (run_dao st)" "kickoff_args_ok sid mv wk tok"
    and "rows (run_dao st) j = Some ex" "sg_idempotency_key ex = tok"
    and "sg_status ex \<noteq> SagaStatePending"
  shows "spawn_kickoff k c sid mv wk claim tok st =
    (saga_emit st (ev_spawn_replayed k tok ex),
     map_option (errorf ''spawn: kickoff: append manifest_approval_replayed_for_spawn'')
       (kk_logger k (run_log st) (ev_spawn_replayed k tok ex)))"
  using insert_replay [OF assms(1-5)] rest_replays [of "\<lparr>ir_inserted = False, ir_existing = ex\<rparr>"] assms(6)
  by (simp add: spawn_kickoff_def kickoff_may_run_def)

lemma kickoff_fresh:
  assumes "kk_dao k = D" "inv (run_dao st)" "kickoff_args_ok sid mv wk tok"
    and "rows (run_dao st) sid = None"
    and "\<forall>j r. rows (run_dao st) j = Some r \<longrightarrow> sg_idempotency_key r \<noteq> tok"
    and "kk_logger k (run_log st) (ev_spawn_approved k tok (ids_row sid mv wk tok)) = None"
    and "kickoff_trail k c claim tok (ids_row sid mv wk tok) (run_world st) = (trail, w', r)"
  shows "\<exists>st' row. spawn_kickoff k c sid mv wk claim tok st = (st', r)
    \<and> run_log st' = run_log st @ trail \<and> run_world st' = w' \<and> inv (run_dao st')
    \<and> rows (run_dao st') = (rows (run_dao st))(sid \<mapsto> row) \<and> row_of sid mv wk tok row
    \<and> sg_status row = (if r = None then SagaStateCompleted else SagaStateFailed)"
proof -
  from insert_fresh [OF assms(1-5)] obtain d' ex where
    ins: "spawn_kickoff_insert k sid mv wk tok st
      = (st\<lparr>run_dao := d'\<rparr>, Inr \<lparr>ir_inserted = True, ir_existing = ex\<rparr>)"
      "inv d'" "rows d' = (rows (run_dao st))(sid \<mapsto> ex)" "row_of sid mv wk tok ex"
    by blast
  let ?res = "\<lparr>ir_inserted = True, ir_existing = ex\<rparr>" and ?st = "st\<lparr>run_dao := d'\<rparr>"
  note same = row_of_trail [OF ins(4)]
  have 1: "inv (run_dao ?st)" "rows (run_dao ?st) (sg_id (ir_existing ?res)) = Some (ir_existing ?res)"
    "kickoff_may_run ?res"
    using ins by (simp_all add: row_of_def kickoff_may_run_def)
  have 2: "kk_logger k (run_log ?st) (ev_spawn_approved k tok (ir_existing ?res)) = None"
    "kickoff_trail k c claim tok (ir_existing ?res) (run_world ?st) = (trail, w', r)"
    using assms(6,7) by (simp_all add: same)
  from rest_runs [OF assms(1) 1 2] obtain st' row where
    "spawn_kickoff_rest k c claim tok ?res ?st = (st', r)" "run_log st' = run_log st @ trail"
    "run_world st' = w'" "inv (run_dao st')" "same_identity ex row"
    "rows (run_dao st') = (rows d')(sid \<mapsto> row)"
    "sg_status row = (if r = None then SagaStateCompleted else SagaStateFailed)"
    using ins(4) by (auto simp: row_of_def)
  then show ?thesis
    using ins row_of_same_identity [OF ins(4)]
    by (intro exI [of _ st'] exI [of _ row]) (simp add: spawn_kickoff_def)
qed

lemma kickoff_refused:
  assumes "kk_dao k = D" "inv (run_dao st)" "kickoff_args_ok sid mv wk tok"
    and "rows (run_dao st) sid = None"
    and "\<forall>j r. rows (run_dao st) j = Some r \<longrightarrow> sg_idempotency_key r \<noteq> tok"
    and "kk_logger k (run_log st) (ev_spawn_approved k tok (ids_row sid mv wk tok)) = Some e"
  shows "\<exists>st' row. spawn_kickoff k c sid mv wk claim tok st
      = (st', Some (errorf ''spawn: kickoff: append manifest_approved_for_spawn'' e))
    \<and> run_log st' = run_log st @ [ev_spawn_approved k tok (ids_row sid mv wk tok)]
    \<and> run_world st' = run_world st \<and> inv (run_dao st')
    \<and> rows (run_dao st') = (rows (run_dao st))(sid \<mapsto> row) \<and> row_of sid mv wk tok row
    \<and> sg_status row = SagaStatePending"
proof -
  from insert_fresh [OF assms(1-5)] obtain d' ex where
    ins: "spawn_kickoff_insert k sid mv wk tok st
      = (st\<lparr>run_dao := d'\<rparr>, Inr \<lparr>ir_inserted = True, ir_existing = ex\<rparr>)"
      "inv d'" "rows d' = (rows (run_dao st))(sid \<mapsto> ex)" "row_of sid mv wk tok ex"
      "sg_status ex = SagaStatePending"
    by blast
  have "spawn_kickoff k c sid mv wk claim tok st
      = (saga_emit (st\<lparr>run_dao := d'\<rparr>) (ev_spawn_approved k tok (ids_row sid mv wk tok)),
         Some (errorf ''spawn: kickoff: append manifest_approved_for_spawn'' e))"
    using rest_append_fails [of "\<lparr>ir_inserted = True, ir_existing = ex\<rparr>" k "st\<lparr>run_dao := d'\<rparr>" tok e c claim]
      ins assms(6)
    by (simp add: spawn_kickoff_def kickoff_may_run_def row_of_trail [OF ins(4)])
  with ins show ?thesis
    by (intro exI [of _ "fst (spawn_kickoff k c sid mv wk claim tok st)"] exI [of _ ex]) simp
qed

lemma kickoffs_frame:
  assumes "kk_dao k = D" "inv (run_dao st)"
    and "rows (run_dao st) i = Some row" "sg_status row \<noteq> SagaStatePending"
  shows "inv (run_dao (spawn_kickoffs k c reqs st))
    \<and> rows (run_dao (spawn_kickoffs k c reqs st)) i = Some row"
  using assms(2,3)
proof (induction reqs arbitrary: st)
  case (Cons q reqs)
  obtain st' r where "spawn_kickoff k c (kr_saga q) (kr_mv q) (kr_wk q) (kr_claim q) (kr_tok q) st = (st', r)"
    by fastforce
  with Cons kickoff_frame [OF assms(1) Cons.prems assms(4)] show ?case
    by (simp add: spawn_kickoffs_def)
qed (simp add: spawn_kickoffs_def)

end

section \<open>Properties\<close>

text \<open>
  The first kickoff of an approval token. On a store with neither the saga id nor the token,
  \<open>Kickoff\<close> writes the approval row, runs the saga with the manifest, watchkeeper and claim of the
  call on its context, adds one rejection row exactly when the run fails, returns the run's error
  and leaves a row of the call's ids in the matching terminal state.
\<close>

theorem spawn_kickoff_first_run:
  assumes "kk_dao k = mem_ops" "mem_inv (run_dao st)" "kickoff_args_ok sid mv wk tok"
    and "md_rows (run_dao st) sid = None"
    and "\<forall>j r. md_rows (run_dao st) j = Some r \<longrightarrow> sg_idempotency_key r \<noteq> tok"
    and "kk_logger k (run_log st) (ev_spawn_approved k tok (ids_row sid mv wk tok)) = None"
    and "saga_spec (with_spawn_context c (kickoff_spawn_context (ids_row sid mv wk tok) claim)) sid []
           (kk_steps k) (run_world st) = (trail, w', r)"
  shows "\<exists>st' row. spawn_kickoff k c sid mv wk claim tok st
      = (st', map_option (errorf ''spawn: kickoff: run saga'') r)
    \<and> run_log st' = run_log st @ ev_spawn_approved k tok (ids_row sid mv wk tok) # trail
        @ (if r = None then [] else [ev_spawn_rejected k tok (ids_row sid mv wk tok)])
    \<and> run_world st' = w' \<and> mem_inv (run_dao st')
    \<and> md_rows (run_dao st') = (md_rows (run_dao st))(sid \<mapsto> row) \<and> row_of sid mv wk tok row
    \<and> sg_status row = (if r = None then SagaStateCompleted else SagaStateFailed)"
proof -
  have "kickoff_trail k c claim tok (ids_row sid mv wk tok) (run_world st) =
      (ev_spawn_approved k tok (ids_row sid mv wk tok) # trail
         @ (if r = None then [] else [ev_spawn_rejected k tok (ids_row sid mv wk tok)]),
       w', map_option (errorf ''spawn: kickoff: run saga'') r)"
    using assms(7) by (simp add: kickoff_trail_def)
  from mem.kickoff_fresh [OF assms(1-6) this] show ?thesis
    by (simp only: option.map_disc_iff)
qed

text \<open>
  C1: a token's saga runs at most once. After a kickoff that reached a terminal row, and after
  any further kickoffs in between, another kickoff with the same token changes neither the store
  nor the world: it hands over exactly one replay row, which names the first call's saga, manifest
  and watchkeeper whatever ids it was called with.
\<close>

theorem spawn_kickoff_at_most_once:
  assumes "kk_dao k = mem_ops" "mem_inv (run_dao st)" "kickoff_args_ok sid' mv' wk' tok"
    and "md_rows (run_dao st) i = Some row" "row_of i mv wk tok row"
    and "sg_status row \<noteq> SagaStatePending"
  shows "let st1 = spawn_kickoffs k c reqs st;
             st2 = fst (spawn_kickoff k c sid' mv' wk' claim tok st1)
         in run_dao st2 = run_dao st1 \<and> run_world st2 = run_world st1
          \<and> run_log st2 = run_log st1 @ [mk_event ''manifest_approval_replayed_for_spawn''
              (manifest_approval_replayed_payload i mv wk tok (kk_agent_id k) (sg_status row))]"
proof -
  note fr = mem.kickoffs_frame [OF assms(1,2,4,6), of c reqs]
  from fr have inv: "mem_inv (run_dao (spawn_kickoffs k c reqs st))"
    and row: "md_rows (run_dao (spawn_kickoffs k c reqs st)) i = Some row" by blast+
  have key: "sg_idempotency_key row = tok" using assms(5) by (simp add: row_of_def)
  show ?thesis
    using mem.kickoff_replays [OF assms(1) inv assms(3) row key assms(6), of c claim] assms(5)
    by (simp add: Let_def ev_spawn_replayed_def row_of_def)
qed

text \<open>
  A kickoff whose approval row was refused can be resumed. The first call inserts the row and
  returns the writer's error with no step run; a second call with the same token then runs the
  saga under the first call's ids, whatever ids it brings, with the second call's claim.
\<close>

theorem spawn_kickoff_catch_up:
  assumes "kk_dao k = mem_ops" "mem_inv (run_dao st)" "kickoff_args_ok sid mv wk tok"
    and "md_rows (run_dao st) sid = None"
    and "\<forall>j r. md_rows (run_dao st) j = Some r \<longrightarrow> sg_idempotency_key r \<noteq> tok"
    and "kk_logger k (run_log st) (ev_spawn_approved k tok (ids_row sid mv wk tok)) = Some e"
    and "kickoff_args_ok sid' mv' wk' tok"
    and "kk_logger k (run_log st @ [ev_spawn_approved k tok (ids_row sid mv wk tok)])
           (ev_spawn_approved k tok (ids_row sid mv wk tok)) = None"
    and "kickoff_trail k c' claim' tok (ids_row sid mv wk tok) (run_world st) = (trail, w', r)"
  shows "\<exists>st1 st2 row. spawn_kickoff k c sid mv wk claim tok st
      = (st1, Some (errorf ''spawn: kickoff: append manifest_approved_for_spawn'' e))
    \<and> run_world st1 = run_world st
    \<and> spawn_kickoff k c' sid' mv' wk' claim' tok st1 = (st2, r)
    \<and> run_log st2 = run_log st @ ev_spawn_approved k tok (ids_row sid mv wk tok) # trail
    \<and> run_world st2 = w'
    \<and> md_rows (run_dao st2) = (md_rows (run_dao st))(sid \<mapsto> row) \<and> row_of sid mv wk tok row"
proof -
  from mem.kickoff_refused [OF assms(1-6), of c claim] obtain st1 ex where
    first: "spawn_kickoff k c sid mv wk claim tok st
      = (st1, Some (errorf ''spawn: kickoff: append manifest_approved_for_spawn'' e))"
      "run_log st1 = run_log st @ [ev_spawn_approved k tok (ids_row sid mv wk tok)]"
      "run_world st1 = run_world st" "mem_inv (run_dao st1)"
      "md_rows (run_dao st1) = (md_rows (run_dao st))(sid \<mapsto> ex)"
    and row: "row_of sid mv wk tok ex" "sg_status ex = SagaStatePending"
    by blast
  note same = row_of_trail [OF row(1)]
  let ?res = "\<lparr>ir_inserted = False, ir_existing = ex\<rparr>"
  have key: "sg_idempotency_key ex = tok" "sg_id ex = sid" using row(1) by (simp_all add: row_of_def)
  have 1: "md_rows (run_dao st1) sid = Some ex"
    using first(5) by simp
  have second: "spawn_kickoff_insert k sid' mv' wk' tok st1 = (st1, Inr ?res)"
    by (rule mem.insert_replay [OF assms(1) first(4) assms(7) 1 key(1)])
  have 2: "md_rows (run_dao st1) (sg_id (ir_existing ?res)) = Some (ir_existing ?res)"
    "kickoff_may_run ?res"
    "kk_logger k (run_log st1) (ev_spawn_approved k tok (ir_existing ?res)) = None"
    "kickoff_trail k c' claim' tok (ir_existing ?res) (run_world st1) = (trail, w', r)"
    using 1 key row(2) assms(8,9) first(2,3) by (simp_all add: kickoff_may_run_def same)
  from mem.rest_runs [OF assms(1) first(4) 2] obtain st2 row' where
    "spawn_kickoff_rest k c' claim' tok ?res st1 = (st2, r)"
    "run_log st2 = run_log st1 @ trail" "run_world st2 = w'" "same_identity ex row'"
    "md_rows (run_dao st2) = (md_rows (run_dao st1))(sid \<mapsto> row')"
    using key by auto
  then show ?thesis
    using first second row_of_same_identity [OF row(1)]
    by (intro exI [of _ st1] exI [of _ st2] exI [of _ row']) (simp add: spawn_kickoff_def)
qed

text \<open>
  The catch-up branch is not safe against a concurrent duplicate. When a second call with the
  same token runs between the first call's \<open>InsertIfAbsent\<close> and the rest of it, it finds the row
  still \<open>pending\<close> and runs the saga; the first call then runs every step again on the outcome,
  under the same saga id, with two approval rows and both runs' trails.
\<close>

theorem spawn_kickoff_concurrent_duplicate:
  assumes "kk_dao k = mem_ops" "mem_inv (run_dao st)" "kickoff_args_ok sid mv wk tok"
    and "md_rows (run_dao st) sid = None"
    and "\<forall>j r. md_rows (run_dao st) j = Some r \<longrightarrow> sg_idempotency_key r \<noteq> tok"
    and "kickoff_args_ok sid' mv' wk' tok" "\<forall>h ev. kk_logger k h ev = None"
    and "kickoff_trail k c' claim' tok (ids_row sid mv wk tok) (run_world st) = (trail1, w1, r1)"
    and "kickoff_trail k c claim tok (ids_row sid mv wk tok) w1 = (trail2, w2, r2)"
  shows "\<exists>st1 res st2 st3. spawn_kickoff_insert k sid mv wk tok st = (st1, Inr res)
    \<and> spawn_kickoff k c' sid' mv' wk' claim' tok st1 = (st2, r1)
    \<and> spawn_kickoff_rest k c claim tok res st2 = (st3, r2)
    \<and> run_log st3 = run_log st @ trail1 @ trail2 \<and> run_world st3 = w2"
proof -
  from mem.insert_fresh [OF assms(1-5)] obtain d' ex where
    ins: "spawn_kickoff_insert k sid mv wk tok st
      = (st\<lparr>run_dao := d'\<rparr>, Inr \<lparr>ir_inserted = True, ir_existing = ex\<rparr>)"
      "mem_inv d'" "md_rows d' = (md_rows (run_dao st))(sid \<mapsto> ex)" "row_of sid mv wk tok ex"
      "sg_status ex = SagaStatePending"
    by blast
  note same = row_of_trail [OF ins(4)]
  let ?st1 = "st\<lparr>run_dao := d'\<rparr>"
  let ?resA = "\<lparr>ir_inserted = True, ir_existing = ex\<rparr>" and ?resB = "\<lparr>ir_inserted = False, ir_existing = ex\<rparr>"
  have key: "sg_idempotency_key ex = tok" "sg_id ex = sid" using ins(4) by (simp_all add: row_of_def)
  have 1: "mem_inv (run_dao ?st1)" "md_rows (run_dao ?st1) sid = Some ex"
    using ins by simp_all
  have insB: "spawn_kickoff_insert k sid' mv' wk' tok ?st1 = (?st1, Inr ?resB)"
    by (rule mem.insert_replay [OF assms(1) 1(1) assms(6) 1(2) key(1)])
  have 2: "md_rows (run_dao ?st1) (sg_id (ir_existing ?resB)) = Some ex" "kickoff_may_run ?resB"
    "kk_logger k (run_log ?st1) (ev_spawn_approved k tok (ir_existing ?resB)) = None"
    "kickoff_trail k c' claim' tok (ir_existing ?resB) (run_world ?st1) = (trail1, w1, r1)"
    using 1 key ins(5) assms(7,8) by (simp_all add: kickoff_may_run_def same)
  from mem.rest_runs [OF assms(1) 1(1) 2] obtain st2 row where
    B: "spawn_kickoff_rest k c' claim' tok ?resB ?st1 = (st2, r1)"
      "run_log st2 = run_log ?st1 @ trail1" "run_world st2 = w1" "mem_inv (run_dao st2)"
      "md_rows (run_dao st2) (sg_id (ir_existing ?resA)) = Some row"
    using key by auto
  have 3: "kickoff_may_run ?resA"
    "kk_logger k (run_log st2) (ev_spawn_approved k tok (ir_existing ?resA)) = None"
    "kickoff_trail k c claim tok (ir_existing ?resA) (run_world st2) = (trail2, w2, r2)"
    using assms(7,9) B(3) by (simp_all add: kickoff_may_run_def same)
  from mem.rest_runs [OF assms(1) B(4,5) 3] obtain st3 where
    "spawn_kickoff_rest k c claim tok ?resA st2 = (st3, r2)"
    "run_log st3 = run_log st2 @ trail2" "run_world st3 = w2" by auto
  then show ?thesis
    using ins(1) insB B by (intro exI [of _ ?st1] exI [of _ ?resA] exI [of _ st2] exI [of _ st3])
      (simp add: spawn_kickoff_def)
qed

text \<open>
  A retire kickoff. A token whose row is past \<open>pending\<close> hands over one replay row of the stored
  ids and changes neither store nor world; a new token runs the saga with the stored ids on the
  context and an empty \<open>RetireResult\<close> at an address no earlier kickoff was given.
\<close>

theorem retire_kickoff_outcomes:
  assumes "kk_dao k = mem_ops" "mem_inv (run_dao st)" "kickoff_args_ok sid mv wk tok"
    and "\<forall>h ev. kk_logger k h ev = None"
  shows "(md_rows (run_dao st) j = Some ex \<and> sg_idempotency_key ex = tok
        \<and> sg_status ex \<noteq> SagaStatePending \<longrightarrow>
      retire_kickoff k c sid mv wk claim tok st =
        (saga_emit st (mk_event ''retire_approval_replayed_for_watchkeeper''
           (retire_approval_replayed_payload (sg_id ex) (sg_manifest_version_id ex)
              (sg_watchkeeper_id ex) tok (kk_agent_id k) (sg_status ex))), None))
    \<and> (md_rows (run_dao st) sid = None
        \<and> (\<forall>j r. md_rows (run_dao st) j = Some r \<longrightarrow> sg_idempotency_key r \<noteq> tok)
        \<and> new_retire_result (run_world st) = (w0, p)
        \<and> saga_spec (with_retire_result (with_spawn_context c
               (kickoff_spawn_context (ids_row sid mv wk tok) claim)) p) sid [] (kk_steps k) w0
             = (trail, w', r) \<longrightarrow>
      (\<exists>st'. retire_kickoff k c sid mv wk claim tok st
           = (st', map_option (errorf ''spawn: retire kickoff: run saga'') r)
         \<and> run_log st' = run_log st @ mk_event ''retire_approved_for_watchkeeper''
             (retire_approved_payload mv wk tok (kk_agent_id k)) # trail
         \<and> run_world st' = w' \<and> p = rw_next (run_world st) \<and> rw_next w0 = Suc p
         \<and> rr_archive_uri (rw_results w0 p) = []))"
proof (intro conjI impI; elim conjE)
  assume "md_rows (run_dao st) j = Some ex" "sg_idempotency_key ex = tok"
    and "sg_status ex \<noteq> SagaStatePending"
  with mem.replay_law [OF assms(2), of tok sid mv wk j ex] assms show "retire_kickoff k c sid mv wk claim tok st =
        (saga_emit st (mk_event ''retire_approval_replayed_for_watchkeeper''
           (retire_approval_replayed_payload (sg_id ex) (sg_manifest_version_id ex)
              (sg_watchkeeper_id ex) tok (kk_agent_id k) (sg_status ex))), None)"
    by (simp add: retire_kickoff_def kickoff_args_ok_def Let_def kickoff_append_def)
next
  assume new: "md_rows (run_dao st) sid = None"
    "\<forall>j r. md_rows (run_dao st) j = Some r \<longrightarrow> sg_idempotency_key r \<noteq> tok"
    and p: "new_retire_result (run_world st) = (w0, p)"
    and spec: "saga_spec (with_retire_result (with_spawn_context c
               (kickoff_spawn_context (ids_row sid mv wk tok) claim)) p) sid [] (kk_steps k) w0
             = (trail, w', r)"
  let ?c = "with_retire_result (with_spawn_context c (kickoff_spawn_context (ids_row sid mv wk tok) claim)) p"
  let ?ev = "mk_event ''retire_approved_for_watchkeeper'' (retire_approved_payload mv wk tok (kk_agent_id k))"
  from mem.insert_law [OF assms(2) _ _ _ _ new] assms(3) obtain d' ex where
    ins: "mem_insert_if_absent (run_dao st) sid mv wk tok = (d', Inr \<lparr>ir_inserted = True, ir_existing = ex\<rparr>)"
      "mem_inv d'" "md_rows d' = (md_rows (run_dao st))(sid \<mapsto> ex)" "row_of sid mv wk tok ex"
    by (fastforce simp: kickoff_args_ok_def row_of_def)
  let ?st = "(saga_emit (st\<lparr>run_dao := d'\<rparr>) ?ev)\<lparr>run_world := w0\<rparr>"
  have "mem_inv (run_dao ?st)" "md_rows (run_dao ?st) sid = Some ex"
    "saga_spec ?c sid [] (kk_steps k) (run_world ?st) = (trail, w', r)"
    using ins spec by simp_all
  from mem.run_refines [OF this] obtain st' where
    run: "saga_runner_run mem_ops ?c sid (kk_steps k) ?st = (st', r)"
      "run_log st' = run_log ?st @ trail" "run_world st' = w'" by blast
  have "kickoff_spawn_context ex claim = kickoff_spawn_context (ids_row sid mv wk tok) claim"
    using ins(4) by (simp add: kickoff_spawn_context_def row_of_def)
  then have "retire_kickoff k c sid mv wk claim tok st
      = (st', map_option (errorf ''spawn: retire kickoff: run saga'') r)"
    using assms ins run(1) p
    by (simp add: retire_kickoff_def kickoff_args_ok_def row_of_def Let_def kickoff_append_def
        saga_emit_def split: option.split)
  then show "\<exists>st'. retire_kickoff k c sid mv wk claim tok st
           = (st', map_option (errorf ''spawn: retire kickoff: run saga'') r)
         \<and> run_log st' = run_log st @ ?ev # trail
         \<and> run_world st' = w' \<and> p = rw_next (run_world st) \<and> rw_next w0 = Suc p
         \<and> rr_archive_uri (rw_results w0 p) = []"
    using run(2,3) p by (intro exI [of _ st']) (auto simp: new_retire_result_def)
qed

section \<open>Witnesses\<close>

definition demo_claim :: spawn_claim where
  "demo_claim = \<lparr>sc_organization_id = ''org'', sc_agent_id = ''wm'', sc_authority_matrix = Map.empty\<rparr>"

definition demo_ctx :: spawn_ctx where
  "demo_ctx = \<lparr>ctx_deadline = None, ctx_err = (\<lambda>_. None), cv_spawn = None\<rparr>"

definition demo_retire_ctx :: retire_ctx where
  "demo_retire_ctx = \<lparr>ctx_deadline = None, ctx_err = (\<lambda>_. None), cv_spawn = None, cv_retire = None\<rparr>"

text \<open>One step that records the watchkeeper it was asked to provision; a writer down for its first row.\<close>

definition demo_launch :: "(spawn_ctx, uuid list) saga_step" where
  "demo_launch = \<lparr>step_name = ''launch'',
     step_execute = (\<lambda>c w. case spawn_context_from_context c of
        None \<Rightarrow> (w, Some [Text ''missing'']) | Some sc \<Rightarrow> (w @ [sx_agent_id sc], None)),
     step_compensate = None\<rparr>"

definition demo_kick :: "appender \<Rightarrow> (mem_dao, spawn_ctx, uuid list) kickoffer" where
  "demo_kick L = \<lparr>kk_logger = L, kk_dao = mem_ops, kk_agent_id = ''bot'', kk_steps = [demo_launch]\<rparr>"

definition demo_start :: "(mem_dao, 'w list) saga_run" where
  "demo_start = \<lparr>run_dao = new_mem_dao int, run_log = [], run_world = []\<rparr>"

lemma demo_kick_simps [simp]:
  "kk_dao (demo_kick L) = mem_ops" "kk_logger (demo_kick L) = L" "kk_steps (demo_kick L) = [demo_launch]"
  "kk_agent_id (demo_kick L) = ''bot''"
  "mem_inv (run_dao demo_start)" "md_rows (run_dao demo_start) = Map.empty"
  "run_log demo_start = []" "run_world demo_start = []"
  by (simp_all add: demo_kick_def demo_start_def mem_inv_new new_mem_dao_def
      mem_inv_new [unfolded new_mem_dao_def])

lemma demo_args_ok: "kickoff_args_ok 1 2 3 ''tok''" "kickoff_args_ok 4 5 6 ''tok''"
proof -
  have "\<not> blank ''tok''" by code_simp
  then show "kickoff_args_ok 1 2 3 ''tok''" "kickoff_args_ok 4 5 6 ''tok''"
    by (simp_all add: kickoff_args_ok_def)
qed

definition demo_spec :: "log_event list" where
  "demo_spec = [ev_started 1 ''launch'', ev_completed 1 ''launch'', ev_saga_completed 1]"

lemma demo_saga_spec:
  "saga_spec (with_spawn_context demo_ctx (kickoff_spawn_context (ids_row 1 2 3 tok) cl)) 1 [] [demo_launch] w
     = (demo_spec, w @ [3], None)"
  by (simp add: saga_spec_def demo_launch_def kickoff_spawn_context_def demo_spec_def)

lemma demo_trail:
  "kickoff_trail (demo_kick L) demo_ctx cl tok (ids_row 1 2 3 tok) w
     = (ev_spawn_approved (demo_kick L) tok (ids_row 1 2 3 tok) # demo_spec, w @ [3], None)"
  by (simp add: kickoff_trail_def demo_saga_spec)

theorem spawn_kickoff_first_run_witness:
  "\<exists>st'. spawn_kickoff (demo_kick (\<lambda>_ _. None)) demo_ctx 1 2 3 demo_claim ''tok'' demo_start = (st', None)
     \<and> run_world st' = [3] \<and> length (run_log st') = 4"
proof -
  have "saga_spec (with_spawn_context demo_ctx (kickoff_spawn_context (ids_row 1 2 3 ''tok'') demo_claim)) 1 []
      (kk_steps (demo_kick (\<lambda>_ _. None))) (run_world demo_start) = (demo_spec, [3], None)"
    by (simp add: demo_saga_spec)
  from spawn_kickoff_first_run [OF _ _ demo_args_ok(1) _ _ _ this] show ?thesis
    by (auto simp: demo_spec_def)
qed

definition demo_done_row :: saga_row where
  "demo_done_row = (ids_row 1 2 3 ''tok'')\<lparr>sg_status := SagaStateFailed, sg_completed_at := Some 7\<rparr>"

definition demo_done :: "(mem_dao, uuid list) saga_run" where
  "demo_done = \<lparr>run_dao = \<lparr>md_rows = [1 \<mapsto> demo_done_row], md_idempotency = [''tok'' \<mapsto> 1],
       md_clock = int, md_ticks = 0\<rparr>, run_log = [], run_world = []\<rparr>"

lemma demo_done_ok: "mem_inv (run_dao demo_done)" "md_rows (run_dao demo_done) 1 = Some demo_done_row"
  using demo_args_ok(1)
  by (simp_all add: demo_done_def demo_done_row_def mem_inv_def ids_row_def kickoff_args_ok_def)

theorem spawn_kickoff_at_most_once_witness:
  "run_world (fst (spawn_kickoff (demo_kick (\<lambda>_ _. None)) demo_ctx 4 5 6 demo_claim ''tok''
       (spawn_kickoffs (demo_kick (\<lambda>_ _. None)) demo_ctx [] demo_done))) = []"
proof -
  have row: "row_of 1 2 3 ''tok'' demo_done_row" "sg_status demo_done_row \<noteq> SagaStatePending"
    by (simp_all add: demo_done_row_def row_of_def)
  from spawn_kickoff_at_most_once [OF _ demo_done_ok(1) demo_args_ok(2) demo_done_ok(2) row,
      of "demo_kick (\<lambda>_ _. None)" demo_ctx "[]" demo_claim]
  show ?thesis by (simp add: Let_def spawn_kickoffs_def demo_done_def)
qed

theorem spawn_kickoff_catch_up_witness:
  "\<exists>st1 st2. spawn_kickoff (demo_kick (\<lambda>h _. if h = [] then Some [Text ''down''] else None)) demo_ctx 1 2 3
       demo_claim ''tok'' demo_start
       = (st1, Some (errorf ''spawn: kickoff: append manifest_approved_for_spawn'' [Text ''down'']))
     \<and> spawn_kickoff (demo_kick (\<lambda>h _. if h = [] then Some [Text ''down''] else None)) demo_ctx 4 5 6
       demo_claim ''tok'' st1 = (st2, None) \<and> run_world st2 = [3]"
proof -
  let ?L = "\<lambda>h _. if h = [] then Some [Text ''down''] else None"
  have "kickoff_trail (demo_kick ?L) demo_ctx demo_claim ''tok'' (ids_row 1 2 3 ''tok'') (run_world demo_start)
      = (ev_spawn_approved (demo_kick ?L) ''tok'' (ids_row 1 2 3 ''tok'') # demo_spec, [3], None)"
    by (simp add: demo_trail)
  from spawn_kickoff_catch_up [OF _ _ demo_args_ok(1) _ _ _ demo_args_ok(2) _ this,
      of "[Text ''down'']" demo_ctx demo_claim]
  show ?thesis by auto
qed

theorem spawn_kickoff_concurrent_duplicate_witness:
  "\<exists>st1 res st2 st3. spawn_kickoff_insert (demo_kick (\<lambda>_ _. None)) 1 2 3 ''tok'' demo_start = (st1, Inr res)
    \<and> spawn_kickoff (demo_kick (\<lambda>_ _. None)) demo_ctx 4 5 6 demo_claim ''tok'' st1 = (st2, None)
    \<and> spawn_kickoff_rest (demo_kick (\<lambda>_ _. None)) demo_ctx demo_claim ''tok'' res st2 = (st3, None)
    \<and> run_world st3 = [3, 3]"
proof -
  let ?k = "demo_kick (\<lambda>_ _. None)"
  have 1: "kickoff_trail ?k demo_ctx demo_claim ''tok'' (ids_row 1 2 3 ''tok'') (run_world demo_start)
      = (ev_spawn_approved ?k ''tok'' (ids_row 1 2 3 ''tok'') # demo_spec, [3], None)"
    and 2: "kickoff_trail ?k demo_ctx demo_claim ''tok'' (ids_row 1 2 3 ''tok'') [3]
      = (ev_spawn_approved ?k ''tok'' (ids_row 1 2 3 ''tok'') # demo_spec, [3, 3], None)"
    by (simp_all add: demo_trail)
  from spawn_kickoff_concurrent_duplicate [OF _ _ demo_args_ok(1) _ _ demo_args_ok(2) _ 1 2]
  show ?thesis by auto
qed

definition demo_retire :: "(mem_dao, retire_ctx, string retire_world) kickoffer" where
  "demo_retire = \<lparr>kk_logger = (\<lambda>_ _. None), kk_dao = mem_ops, kk_agent_id = ''bot'', kk_steps = []\<rparr>"

definition demo_retire_start :: "(mem_dao, string retire_world) saga_run" where
  "demo_retire_start = \<lparr>run_dao = new_mem_dao int, run_log = [],
     run_world = \<lparr>rw_next = 0, rw_results = (\<lambda>_. \<lparr>rr_archive_uri = ''x''\<rparr>), rw_env = []\<rparr>\<rparr>"

theorem retire_kickoff_outcomes_witness:
  "\<exists>st'. retire_kickoff demo_retire demo_retire_ctx 1 2 3 demo_claim ''tok'' demo_retire_start = (st', None)
     \<and> length (run_log st') = 2"
proof -
  have inv: "mem_inv (run_dao demo_retire_start)" "md_rows (run_dao demo_retire_start) 1 = None"
    "\<forall>j r. md_rows (run_dao demo_retire_start) j = Some r \<longrightarrow> sg_idempotency_key r \<noteq> ''tok''"
    using mem_inv_new [of int] by (simp_all add: demo_retire_start_def new_mem_dao_def)
  obtain w0 p where p: "new_retire_result (run_world demo_retire_start) = (w0, p)"
    by fastforce
  have dao: "kk_dao demo_retire = mem_ops" "\<forall>h ev. kk_logger demo_retire h ev = None"
    by (simp_all add: demo_retire_def)
  have "saga_spec (with_retire_result (with_spawn_context demo_retire_ctx
      (kickoff_spawn_context (ids_row 1 2 3 ''tok'') demo_claim)) p) 1 [] (kk_steps demo_retire) w0
      = ([ev_saga_completed 1], w0, None)"
    by (simp add: saga_spec_def demo_retire_def)
  with retire_kickoff_outcomes [OF dao(1) inv(1) demo_args_ok(1) dao(2), of undefined undefined
      demo_retire_ctx demo_claim w0 p "[ev_saga_completed 1]" w0 None] inv p
  show ?thesis by (auto simp: demo_retire_start_def)
qed

end
