(* ===== verification/PendingApproval.thy ===== *)
theory PendingApproval
  imports SpawnKickoff
begin

text \<open>
  The lead-approval flow of the Slack cards: the \<open>pending_approvals\<close> store
  (\<^verbatim>\<open>core/pkg/spawn/pending_approval.go\<close>, \<^verbatim>\<open>pending_approval_memory.go\<close>), the button
  identifiers (\<^verbatim>\<open>core/pkg/messenger/slack/cards/card.go\<close>) and the dispatcher of button clicks
  (\<^verbatim>\<open>core/pkg/messenger/slack/inbound/approval/dispatcher.go\<close>). The locale
  \<open>pending_approval_dao\<close> is the store's contract; the dispatcher's lemmas are proved in it, and
  reach the in-memory store through the interpretation \<open>pam\<close>.
\<close>

section \<open>The store\<close>

abbreviation PendingApprovalStatePending :: string where
  "PendingApprovalStatePending \<equiv> ''pending''"

abbreviation PendingApprovalStateApproved :: string where
  "PendingApprovalStateApproved \<equiv> ''approved''"

abbreviation PendingApprovalStateRejected :: string where
  "PendingApprovalStateRejected \<equiv> ''rejected''"

abbreviation ErrPendingApprovalNotFound :: string where
  "ErrPendingApprovalNotFound \<equiv> ''spawn: pending approval not found''"

abbreviation ErrPendingApprovalStaleState :: string where
  "ErrPendingApprovalStaleState \<equiv> ''spawn: pending approval state is terminal''"

abbreviation ErrPendingApprovalInvalidDecision :: string where
  "ErrPendingApprovalInvalidDecision \<equiv> ''spawn: invalid pending approval decision''"

record pending_approval =
  pa_token :: string
  pa_tool_name :: string
  pa_params_json :: string
  pa_state :: string
  pa_requested_at :: int
  pa_resolved_at :: "int option"

record 's pa_dao =
  pa_insert :: "'s \<Rightarrow> string \<Rightarrow> string \<Rightarrow> string \<Rightarrow> 's \<times> goerr option"
  pa_get :: "'s \<Rightarrow> string \<Rightarrow> goerr + pending_approval"
  pa_resolve :: "'s \<Rightarrow> string \<Rightarrow> string \<Rightarrow> 's \<times> goerr option"

record mem_pa =
  mp_rows :: "string \<rightharpoonup> pending_approval"
  mp_clock :: "nat \<Rightarrow> int"
  mp_ticks :: nat

definition new_mem_pa :: "(nat \<Rightarrow> int) \<Rightarrow> mem_pa" where
  "new_mem_pa now = \<lparr>mp_rows = Map.empty, mp_clock = now, mp_ticks = 0\<rparr>"

definition mem_pa_insert :: "mem_pa \<Rightarrow> string \<Rightarrow> string \<Rightarrow> string \<Rightarrow> mem_pa \<times> goerr option" where
  "mem_pa_insert m token tool params =
     (if token = [] then (m, Some [Text ''spawn: pending approval insert: empty token''])
      else if tool = [] then (m, Some [Text ''spawn: pending approval insert: empty tool_name''])
      else case mp_rows m token of
        Some _ \<Rightarrow> (m, Some [Text ''spawn: pending approval insert: duplicate token''])
      | None \<Rightarrow>
          (m\<lparr>mp_rows := (mp_rows m)(token \<mapsto>
               \<lparr>pa_token = token, pa_tool_name = tool, pa_params_json = params,
                pa_state = PendingApprovalStatePending, pa_requested_at = mp_clock m (mp_ticks m),
                pa_resolved_at = None\<rparr>),
             mp_ticks := Suc (mp_ticks m)\<rparr>, None))"

definition mem_pa_get :: "mem_pa \<Rightarrow> string \<Rightarrow> goerr + pending_approval" where
  "mem_pa_get m token =
     (case mp_rows m token of
        None \<Rightarrow> Inl [Sentinel ErrPendingApprovalNotFound]
      | Some row \<Rightarrow> Inr row)"

definition mem_pa_resolve :: "mem_pa \<Rightarrow> string \<Rightarrow> string \<Rightarrow> mem_pa \<times> goerr option" where
  "mem_pa_resolve m token decision =
     (if decision \<noteq> PendingApprovalStateApproved \<and> decision \<noteq> PendingApprovalStateRejected
      then (m, Some (errorf_is ErrPendingApprovalInvalidDecision []))
      else case mp_rows m token of
        None \<Rightarrow> (m, Some [Sentinel ErrPendingApprovalNotFound])
      | Some row \<Rightarrow>
          (if pa_state row \<noteq> PendingApprovalStatePending
           then (m, Some (errorf_is ErrPendingApprovalStaleState []))
           else
             (m\<lparr>mp_rows := (mp_rows m)(token \<mapsto>
                  row\<lparr>pa_state := decision, pa_resolved_at := Some (mp_clock m (mp_ticks m))\<rparr>),
                mp_ticks := Suc (mp_ticks m)\<rparr>, None)))"

definition mem_pa_ops :: "mem_pa pa_dao" where
  "mem_pa_ops = \<lparr>pa_insert = mem_pa_insert, pa_get = mem_pa_get, pa_resolve = mem_pa_resolve\<rparr>"

section \<open>Button identifiers\<close>

abbreviation ErrInvalidActionID :: string where
  "ErrInvalidActionID \<equiv> ''cards: invalid action_id''"

abbreviation ErrInvalidButtonValue :: string where
  "ErrInvalidButtonValue \<equiv> ''cards: invalid button value''"

definition encode_action_id :: "string \<Rightarrow> string \<Rightarrow> string" where
  "encode_action_id tool token =
     (if tool = [] \<or> token = [] then [] else ''approval'' @ '':'' @ tool @ '':'' @ token)"

definition is_known_tool :: "string \<Rightarrow> bool" where
  "is_known_tool tool \<longleftrightarrow>
     tool = ''propose_spawn'' \<or> tool = ''adjust_personality'' \<or> tool = ''adjust_language''
     \<or> tool = ''retire_watchkeeper'' \<or> tool = ''promote_to_keep''"

text \<open>\<open>strings.SplitN(s, sep, n)\<close> for a one-byte separator and \<open>n > 0\<close>.\<close>

fun split_n :: "nat \<Rightarrow> char \<Rightarrow> string \<Rightarrow> string list" where
  "split_n 0 sep s = []"
| "split_n (Suc 0) sep s = [s]"
| "split_n (Suc (Suc n)) sep s =
     (if sep \<in> set s
      then takeWhile (\<lambda>c. c \<noteq> sep) s # split_n (Suc n) sep (tl (dropWhile (\<lambda>c. c \<noteq> sep) s))
      else [s])"

definition decode_action_id :: "string \<Rightarrow> goerr + (string \<times> string)" where
  "decode_action_id action_id =
     (case split_n 3 (CHR '':'') action_id of
        [p0, p1, p2] \<Rightarrow>
          (if p0 \<noteq> ''approval'' then Inl (errorf_is ErrInvalidActionID [])
           else if p1 = [] then Inl (errorf_is ErrInvalidActionID [])
           else if p2 = [] then Inl (errorf_is ErrInvalidActionID [])
           else if \<not> is_known_tool p1 then Inl (errorf_is ErrInvalidActionID [])
           else Inr (p1, p2))
      | _ \<Rightarrow> Inl (errorf_is ErrInvalidActionID []))"

definition decision_from_button_value :: "string \<Rightarrow> goerr + string" where
  "decision_from_button_value v =
     (if v = ''approved'' then Inr PendingApprovalStateApproved
      else if v = ''rejected'' then Inr PendingApprovalStateRejected
      else Inl (errorf_is ErrInvalidButtonValue []))"

section \<open>The dispatcher\<close>

text \<open>
  The world \<open>'w\<close> is what the kickoff and the replayer act on. \<open>uuid.New\<close> and \<open>uuid.Parse\<close> are
  the third-party package's; \<open>json_actions\<close> and \<open>json_manifest_version_id\<close> are the two
  \<open>json.Unmarshal\<close> calls with their target shapes; \<open>type_name\<close> is the \<open>%T\<close> of an error value.
  The audit appender is optional and its answers are dropped.
\<close>

record ('s, 'c, 'w) dispatcher =
  dp_dao :: "'s pa_dao"
  dp_replay :: "'c \<Rightarrow> string \<Rightarrow> string \<Rightarrow> string \<Rightarrow> 'w \<Rightarrow> 'w \<times> goerr option"
  dp_kickoff :: "'c \<Rightarrow> uuid \<Rightarrow> uuid \<Rightarrow> uuid \<Rightarrow> spawn_claim \<Rightarrow> string \<Rightarrow> 'w \<Rightarrow> 'w \<times> goerr option"
  dp_audit :: bool
  dp_claim_resolver :: "('c \<Rightarrow> uuid \<Rightarrow> goerr + spawn_claim) option"
  dp_uuid_new :: "nat \<Rightarrow> uuid"
  dp_uuid_parse :: "string \<Rightarrow> goerr + uuid"
  dp_json_actions :: "string \<Rightarrow> goerr + (string \<times> string) list"
  dp_json_manifest_version_id :: "string \<Rightarrow> goerr + string"
  dp_type_name :: "err_link \<Rightarrow> string"

record interaction =
  in_type :: string
  in_raw :: string

record ('s, 'w) dispatch_state =
  di_dao :: 's
  di_log :: "log_event list"
  di_world :: 'w
  di_uuids :: nat

definition classify_error :: "(err_link \<Rightarrow> string) \<Rightarrow> goerr \<Rightarrow> string" where
  "classify_error ty e = (if e = [] then [] else ty (last e))"

definition dispatch_append ::
    "('s, 'c, 'w) dispatcher \<Rightarrow> log_event \<Rightarrow> ('s, 'w) dispatch_state \<Rightarrow> ('s, 'w) dispatch_state" where
  "dispatch_append d ev st = (if dp_audit d then st\<lparr>di_log := di_log st @ [ev]\<rparr> else st)"

definition opt_field :: "string \<Rightarrow> string \<Rightarrow> (string \<times> pval) list" where
  "opt_field k v = (if v \<noteq> [] then [(k, PStr v)] else [])"

definition append_action_received ::
    "('s, 'c, 'w) dispatcher \<Rightarrow> string \<Rightarrow> string \<Rightarrow> string \<Rightarrow> string
     \<Rightarrow> ('s, 'w) dispatch_state \<Rightarrow> ('s, 'w) dispatch_state" where
  "append_action_received d tool token button reason =
     dispatch_append d (mk_event ''approval_card_action_received''
       ([(''interaction_type'', PStr ''block_actions'')] @ opt_field ''tool_name'' tool
        @ opt_field ''approval_token'' token @ opt_field ''decision'' button
        @ opt_field ''reason'' reason))"

definition append_resolved ::
    "('s, 'c, 'w) dispatcher \<Rightarrow> string \<Rightarrow> string \<Rightarrow> string \<Rightarrow> string
     \<Rightarrow> ('s, 'w) dispatch_state \<Rightarrow> ('s, 'w) dispatch_state" where
  "append_resolved d tool token decision reason =
     dispatch_append d (mk_event ''approval_resolved''
       ([(''tool_name'', PStr tool), (''approval_token'', PStr token), (''decision'', PStr decision)]
        @ opt_field ''reason'' reason))"

definition append_resolve_error ::
    "('s, 'c, 'w) dispatcher \<Rightarrow> string \<Rightarrow> string \<Rightarrow> string \<Rightarrow> goerr
     \<Rightarrow> ('s, 'w) dispatch_state \<Rightarrow> ('s, 'w) dispatch_state" where
  "append_resolve_error d tool token decision err =
     append_resolved d tool token decision
       (if errors_is err ErrPendingApprovalNotFound then ''unknown_token''
        else if errors_is err ErrPendingApprovalStaleState then ''stale_state''
        else ''replay_error'')"

definition append_replay_succeeded ::
    "('s, 'c, 'w) dispatcher \<Rightarrow> string \<Rightarrow> string
     \<Rightarrow> ('s, 'w) dispatch_state \<Rightarrow> ('s, 'w) dispatch_state" where
  "append_replay_succeeded d tool token =
     dispatch_append d (mk_event ''approval_replay_succeeded''
       [(''tool_name'', PStr tool), (''approval_token'', PStr token)])"

definition append_replay_failed ::
    "('s, 'c, 'w) dispatcher \<Rightarrow> string \<Rightarrow> string \<Rightarrow> goerr
     \<Rightarrow> ('s, 'w) dispatch_state \<Rightarrow> ('s, 'w) dispatch_state" where
  "append_replay_failed d tool token err =
     dispatch_append d (mk_event ''approval_replay_failed''
       [(''tool_name'', PStr tool), (''approval_token'', PStr token),
        (''error_class'', PStr (classify_error (dp_type_name d) err))])"

definition manifest_version_id_from_params :: "('s, 'c, 'w) dispatcher \<Rightarrow> string \<Rightarrow> goerr + uuid" where
  "manifest_version_id_from_params d params =
     (case dp_json_manifest_version_id d params of
        Inl e \<Rightarrow> Inl (errorf ''approval: decode params_json'' e)
      | Inr mv \<Rightarrow>
          (if mv = [] then Inl [Sentinel ''approval: params_json missing manifest_version_id'']
           else case dp_uuid_parse d mv of
             Inl e \<Rightarrow> Inl (errorf ''approval: parse manifest_version_id'' e)
           | Inr i \<Rightarrow> Inr i))"

definition resolve_spawn_claim :: "('s, 'c, 'w) dispatcher \<Rightarrow> 'c \<Rightarrow> uuid \<Rightarrow> goerr + spawn_claim" where
  "resolve_spawn_claim d c mv =
     (case dp_claim_resolver d of
        None \<Rightarrow> Inr \<lparr>sc_organization_id = [], sc_agent_id = [], sc_authority_matrix = Map.empty\<rparr>
      | Some f \<Rightarrow> f c mv)"

text \<open>The approved branch of a click, after the row is resolved (\<open>DispatchInteraction\<close>, lines 282-332).\<close>

definition dispatch_approved ::
    "('s, 'c, 'w) dispatcher \<Rightarrow> 'c \<Rightarrow> string \<Rightarrow> string
     \<Rightarrow> ('s, 'w) dispatch_state \<Rightarrow> ('s, 'w) dispatch_state \<times> goerr option" where
  "dispatch_approved d c tool token st =
     (case pa_get (dp_dao d) (di_dao st) token of
        Inl e \<Rightarrow> (append_replay_failed d tool token e st,
                  Some (errorf ''approval: dao get after resolve'' e))
      | Inr row \<Rightarrow>
          (if pa_tool_name row = ''propose_spawn'' then
             (case manifest_version_id_from_params d (pa_params_json row) of
                Inl e \<Rightarrow> (append_replay_failed d tool token e st,
                          Some (errorf ''approval: extract manifest_version_id'' e))
              | Inr mv \<Rightarrow>
                  (case resolve_spawn_claim d c mv of
                     Inl e \<Rightarrow> (append_replay_failed d tool token e st,
                               Some (errorf ''approval: resolve spawn claim'' e))
                   | Inr claim \<Rightarrow>
                       (case dp_kickoff d c (dp_uuid_new d (di_uuids st)) mv
                            (dp_uuid_new d (Suc (di_uuids st))) claim token (di_world st) of
                          (w', Some e) \<Rightarrow>
                            (append_replay_failed d tool token e
                               (st\<lparr>di_world := w', di_uuids := di_uuids st + 2\<rparr>),
                             Some (errorf ''approval: spawn kickoff'' e))
                        | (w', None) \<Rightarrow>
                            (append_replay_succeeded d tool token
                               (st\<lparr>di_world := w', di_uuids := di_uuids st + 2\<rparr>), None))))
           else
             (case dp_replay d c tool (pa_params_json row) token (di_world st) of
                (w', Some e) \<Rightarrow> (append_replay_failed d tool token e (st\<lparr>di_world := w'\<rparr>),
                                Some (errorf ''approval: replay'' e))
              | (w', None) \<Rightarrow> (append_replay_succeeded d tool token (st\<lparr>di_world := w'\<rparr>), None))))"

text \<open>
  A click up to \<open>Resolve\<close> and its audit row: either the handler returns, or it goes on to the
  approved branch of a tool and a token.
\<close>

definition dispatch_open ::
    "('s, 'c, 'w) dispatcher \<Rightarrow> interaction \<Rightarrow> ('s, 'w) dispatch_state
     \<Rightarrow> ('s, 'w) dispatch_state \<times> (goerr option + string \<times> string)" where
  "dispatch_open d p st =
     (if in_type p \<noteq> ''block_actions'' then (st, Inl None)
      else case dp_json_actions d (in_raw p) of
        Inl e \<Rightarrow> (append_action_received d [] [] [] ''malformed_action_id'' st,
                  Inl (Some (errorf ''approval: decode block_actions'' e)))
      | Inr [] \<Rightarrow> (append_action_received d [] [] [] ''malformed_action_id'' st,
                   Inl (Some [Text ''approval: block_actions payload missing actions'']))
      | Inr ((action_id, button) # _) \<Rightarrow>
          (case decode_action_id action_id of
             Inl e \<Rightarrow> (append_action_received d [] [] button ''malformed_action_id'' st,
                       Inl (Some (errorf ''approval: decode action_id'' e)))
           | Inr (tool, token) \<Rightarrow>
               (case decision_from_button_value button of
                  Inl e \<Rightarrow>
                    (append_action_received d tool token button
                       (if errors_is e ErrInvalidButtonValue then ''invalid_button_value''
                        else ''malformed_action_id'') st,
                     Inl (Some (errorf ''approval: decode button value'' e)))
                | Inr decision \<Rightarrow>
                    (let st1 = append_action_received d tool token button [] st
                     in case pa_resolve (dp_dao d) (di_dao st1) token decision of
                          (s', Some e) \<Rightarrow>
                            (append_resolve_error d tool token decision e (st1\<lparr>di_dao := s'\<rparr>),
                             Inl (Some (errorf ''approval: dao resolve'' e)))
                        | (s', None) \<Rightarrow>
                            (append_resolved d tool token decision [] (st1\<lparr>di_dao := s'\<rparr>),
                             if decision = PendingApprovalStateRejected then Inl None
                             else Inr (tool, token))))))"

definition dispatch_interaction ::
    "('s, 'c, 'w) dispatcher \<Rightarrow> 'c \<Rightarrow> interaction
     \<Rightarrow> ('s, 'w) dispatch_state \<Rightarrow> ('s, 'w) dispatch_state \<times> goerr option" where
  "dispatch_interaction d c p st =
     (case dispatch_open d p st of
        (st', Inl res) \<Rightarrow> (st', res)
      | (st', Inr (tool, token)) \<Rightarrow> dispatch_approved d c tool token st')"

section \<open>Button identifiers round trip\<close>

lemma takeWhile_colon [simp]: "CHR '':'' \<notin> set s \<Longrightarrow> takeWhile (\<lambda>c. c \<noteq> CHR '':'') (s @ CHR '':'' # r) = s"
  by (induction s) auto

lemma dropWhile_colon [simp]: "CHR '':'' \<notin> set s \<Longrightarrow> dropWhile (\<lambda>c. c \<noteq> CHR '':'') (s @ CHR '':'' # r) = CHR '':'' # r"
  by (induction s) auto

lemma known_tool_no_colon: "is_known_tool tool \<Longrightarrow> CHR '':'' \<notin> set tool \<and> tool \<noteq> []"
  by (auto simp: is_known_tool_def)

lemma split_n_pieces: "split_n 3 sep s = [a, b, r] \<Longrightarrow> s = a @ [sep] @ b @ [sep] @ r"
proof -
  assume "split_n 3 sep s = [a, b, r]"
  then have 1: "split_n (Suc (Suc (Suc 0))) sep s = [a, b, r]" by (simp add: numeral_3_eq_3)
  have cut: "sep \<in> set x \<Longrightarrow> x = takeWhile (\<lambda>c. c \<noteq> sep) x @ sep # tl (dropWhile (\<lambda>c. c \<noteq> sep) x)" for x
    by (induction x) auto
  from 1 have "sep \<in> set s" "a = takeWhile (\<lambda>c. c \<noteq> sep) s"
    "split_n (Suc (Suc 0)) sep (tl (dropWhile (\<lambda>c. c \<noteq> sep) s)) = [b, r]"
    by (auto split: if_splits)
  moreover from this have "tl (dropWhile (\<lambda>c. c \<noteq> sep) s) = b @ sep # r"
    using cut [of "tl (dropWhile (\<lambda>c. c \<noteq> sep) s)"] by (auto split: if_splits)
  ultimately show ?thesis using cut [of s] by simp
qed

section \<open>The store's contract\<close>

definition terminal :: "pending_approval \<Rightarrow> bool" where
  "terminal r \<longleftrightarrow> pa_state r \<noteq> PendingApprovalStatePending"

definition valid_decision :: "string \<Rightarrow> bool" where
  "valid_decision x \<longleftrightarrow> x = PendingApprovalStateApproved \<or> x = PendingApprovalStateRejected"

text \<open>One resolution: only the state and its time change, from \<open>pending\<close> to the decision.\<close>

definition resolved_to :: "string \<Rightarrow> pending_approval \<Rightarrow> pending_approval \<Rightarrow> bool" where
  "resolved_to x r r' \<longleftrightarrow>
     pa_token r' = pa_token r \<and> pa_tool_name r' = pa_tool_name r
     \<and> pa_params_json r' = pa_params_json r \<and> pa_requested_at r' = pa_requested_at r
     \<and> pa_state r' = x \<and> pa_resolved_at r' \<noteq> None"

locale pending_approval_dao =
  fixes P :: "'s pa_dao" and prow :: "'s \<Rightarrow> string \<rightharpoonup> pending_approval"
  assumes get_law:
      "pa_get P s t = (case prow s t of None \<Rightarrow> Inl [Sentinel ErrPendingApprovalNotFound] | Some r \<Rightarrow> Inr r)"
    and resolve_missing_law:
      "valid_decision x \<Longrightarrow> prow s t = None \<Longrightarrow>
         pa_resolve P s t x = (s, Some [Sentinel ErrPendingApprovalNotFound])"
    and resolve_stale_law:
      "valid_decision x \<Longrightarrow> prow s t = Some r \<Longrightarrow> terminal r \<Longrightarrow>
         \<exists>e. pa_resolve P s t x = (s, Some e) \<and> errors_is e ErrPendingApprovalStaleState
           \<and> \<not> errors_is e ErrPendingApprovalNotFound"
    and resolve_law:
      "valid_decision x \<Longrightarrow> prow s t = Some r \<Longrightarrow> \<not> terminal r \<Longrightarrow>
         \<exists>s' r'. pa_resolve P s t x = (s', None) \<and> prow s' = (prow s)(t \<mapsto> r') \<and> resolved_to x r r'"
    and insert_law: "prow s t = Some r \<Longrightarrow> prow (fst (pa_insert P s t' tool params)) t = Some r"
    and resolve_invalid_law:
      "\<not> valid_decision x \<Longrightarrow>
         \<exists>e. pa_resolve P s t x = (s, Some e) \<and> errors_is e ErrPendingApprovalInvalidDecision"

interpretation pam: pending_approval_dao mem_pa_ops mp_rows
proof unfold_locales
  fix x t r and s :: mem_pa
  assume "valid_decision x" "mp_rows s t = Some r" "\<not> terminal r"
  then show "\<exists>s' r'. pa_resolve mem_pa_ops s t x = (s', None) \<and> mp_rows s' = (mp_rows s)(t \<mapsto> r')
      \<and> resolved_to x r r'"
    by (intro exI [of _ "fst (mem_pa_resolve s t x)"]
          exI [of _ "r\<lparr>pa_state := x, pa_resolved_at := Some (mp_clock s (mp_ticks s))\<rparr>"])
       (auto simp: mem_pa_ops_def mem_pa_resolve_def valid_decision_def terminal_def resolved_to_def)
qed (auto simp: mem_pa_ops_def mem_pa_get_def mem_pa_insert_def mem_pa_resolve_def valid_decision_def
    terminal_def split: option.splits)

section \<open>Which token a click is for\<close>

definition click_of :: "('s, 'c, 'w) dispatcher \<Rightarrow> interaction \<Rightarrow> (string \<times> string \<times> string) option" where
  "click_of d p =
     (if in_type p \<noteq> ''block_actions'' then None
      else case dp_json_actions d (in_raw p) of
        Inr ((action_id, button) # _) \<Rightarrow>
          (case decode_action_id action_id of
             Inr (tool, token) \<Rightarrow> Some (tool, token, button)
           | Inl _ \<Rightarrow> None)
      | _ \<Rightarrow> None)"

lemma dispatch_append_simps [simp]:
  "di_dao (dispatch_append d ev st) = di_dao st"
  "di_world (dispatch_append d ev st) = di_world st"
  "di_uuids (dispatch_append d ev st) = di_uuids st"
  "di_log (dispatch_append d ev st) = di_log st @ (if dp_audit d then [ev] else [])"
  by (simp_all add: dispatch_append_def)

lemmas append_rows =
  append_action_received_def append_resolved_def append_resolve_error_def
  append_replay_succeeded_def append_replay_failed_def

text \<open>What the dispatcher does with a click, as a function of the click.\<close>

definition dispatch_click ::
    "('s, 'c, 'w) dispatcher \<Rightarrow> 'c \<Rightarrow> string \<Rightarrow> string \<Rightarrow> string
     \<Rightarrow> ('s, 'w) dispatch_state \<Rightarrow> ('s, 'w) dispatch_state \<times> goerr option" where
  "dispatch_click d c tool token decision st =
     (case pa_resolve (dp_dao d) (di_dao st) token decision of
        (s', Some e) \<Rightarrow>
          (append_resolve_error d tool token decision e
             ((append_action_received d tool token decision [] st)\<lparr>di_dao := s'\<rparr>),
           Some (errorf ''approval: dao resolve'' e))
      | (s', None) \<Rightarrow>
          (let st2 = append_resolved d tool token decision []
                       ((append_action_received d tool token decision [] st)\<lparr>di_dao := s'\<rparr>)
           in if decision = PendingApprovalStateRejected then (st2, None)
              else dispatch_approved d c tool token st2))"

lemma click_ofE:
  assumes "click_of d p = Some (tool, token, button)"
  obtains action_id rest where "in_type p = ''block_actions''"
    "dp_json_actions d (in_raw p) = Inr ((action_id, button) # rest)"
    "decode_action_id action_id = Inr (tool, token)"
  using assms by (auto simp: click_of_def split: if_splits sum.splits list.splits prod.splits)

lemma dispatch_interaction_click:
  assumes "click_of d p = Some (tool, token, button)"
  shows "dispatch_interaction d c p st =
    (if valid_decision button then dispatch_click d c tool token button st
     else (append_action_received d tool token button ''invalid_button_value'' st,
           Some (errorf ''approval: decode button value'' (errorf_is ErrInvalidButtonValue []))))"
proof -
  have "decision_from_button_value button =
      (if valid_decision button then Inr button else Inl (errorf_is ErrInvalidButtonValue []))"
    by (simp add: decision_from_button_value_def valid_decision_def)
  moreover have "dp_dao d = dp_dao d \<Longrightarrow> di_dao (append_action_received d tool token button [] st) = di_dao st"
    by (simp add: append_action_received_def)
  ultimately show ?thesis
    using assms
    by (elim click_ofE)
       (auto simp: dispatch_interaction_def dispatch_open_def dispatch_click_def Let_def split: prod.split option.split)
qed

lemma dispatch_interaction_no_click:
  assumes "click_of d p = None"
  shows "\<exists>e button. dispatch_interaction d c p st = (st, None)
    \<or> dispatch_interaction d c p st =
        (append_action_received d [] [] button ''malformed_action_id'' st, Some e)"
proof (cases "in_type p = ''block_actions''")
  case True
  show ?thesis
  proof (cases "dp_json_actions d (in_raw p)")
    case (Inr as)
    show ?thesis
    proof (cases as)
      case (Cons a rest)
      obtain i b where "a = (i, b)" by fastforce
      moreover have "\<exists>e. decode_action_id i = Inl e"
        using assms True Inr Cons \<open>a = (i, b)\<close>
        by (cases "decode_action_id i") (auto simp: click_of_def)
      ultimately show ?thesis
        using True Inr Cons by (auto simp: dispatch_interaction_def dispatch_open_def)
    qed (use True Inr in \<open>auto simp: dispatch_interaction_def dispatch_open_def\<close>)
  qed (use True in \<open>auto simp: dispatch_interaction_def dispatch_open_def\<close>)
qed (simp add: dispatch_interaction_def dispatch_open_def)

lemma dispatch_interaction_inert:
  assumes "\<And>tool token button. click_of d p = Some (tool, token, button) \<Longrightarrow> \<not> valid_decision button"
  shows "di_dao (fst (dispatch_interaction d c p st)) = di_dao st
    \<and> di_world (fst (dispatch_interaction d c p st)) = di_world st"
proof (cases "click_of d p")
  case None
  from dispatch_interaction_no_click [OF this, of c st] show ?thesis
    by (auto simp: append_action_received_def)
next
  case (Some k)
  obtain tool token button where "k = (tool, token, button)" by (cases k)
  with Some assms dispatch_interaction_click [of d p tool token button c st] show ?thesis
    by (simp add: append_action_received_def)
qed

lemma dispatch_approved_dao [simp]: "di_dao (fst (dispatch_approved d c tool token st)) = di_dao st"
  by (auto simp: dispatch_approved_def append_rows split: sum.splits prod.splits option.splits)

definition dispatch_all ::
    "('s, 'c, 'w) dispatcher \<Rightarrow> 'c \<Rightarrow> interaction list \<Rightarrow> ('s, 'w) dispatch_state \<Rightarrow> ('s, 'w) dispatch_state" where
  "dispatch_all d c ps st = foldl (\<lambda>st p. fst (dispatch_interaction d c p st)) st ps"

context pending_approval_dao
begin

lemma click_stale:
  assumes "dp_dao d = P" "prow (di_dao st) t = Some r" "terminal r" "valid_decision x"
  shows "\<exists>e. dispatch_click d c tool t x st =
      (append_resolved d tool t x ''stale_state'' (append_action_received d tool t x [] st),
       Some (errorf ''approval: dao resolve'' e)) \<and> errors_is e ErrPendingApprovalStaleState"
proof -
  obtain e where "pa_resolve P (di_dao st) t x = (di_dao st, Some e)"
    "errors_is e ErrPendingApprovalStaleState" "\<not> errors_is e ErrPendingApprovalNotFound"
    using resolve_stale_law [OF assms(4,2,3)] by blast
  then show ?thesis
    using assms(1)
    by (intro exI [of _ e]) (auto simp: dispatch_click_def append_rows dispatch_append_def)
qed

lemma click_unknown:
  assumes "dp_dao d = P" "prow (di_dao st) t = None" "valid_decision x"
  shows "dispatch_click d c tool t x st =
      (append_resolved d tool t x ''unknown_token'' (append_action_received d tool t x [] st),
       Some (errorf ''approval: dao resolve'' [Sentinel ErrPendingApprovalNotFound]))"
  using resolve_missing_law [OF assms(3,2)] assms(1)
  by (auto simp: dispatch_click_def append_rows dispatch_append_def)

lemma click_resolves:
  assumes "dp_dao d = P" "prow (di_dao st) t = Some r" "\<not> terminal r" "valid_decision x"
  shows "\<exists>s' r'. prow s' = (prow (di_dao st))(t \<mapsto> r') \<and> resolved_to x r r'
    \<and> dispatch_click d c tool t x st =
        (let st2 = append_resolved d tool t x [] ((append_action_received d tool t x [] st)\<lparr>di_dao := s'\<rparr>)
         in if x = PendingApprovalStateRejected then (st2, None) else dispatch_approved d c tool t st2)"
proof -
  obtain s' r' where "pa_resolve P (di_dao st) t x = (s', None)"
    "prow s' = (prow (di_dao st))(t \<mapsto> r')" "resolved_to x r r'"
    using resolve_law [OF assms(4,2,3)] by blast
  then show ?thesis
    using assms(1) by (intro exI [of _ s'] exI [of _ r']) (simp add: dispatch_click_def)
qed

lemma dispatch_keeps_terminal:
  assumes "dp_dao d = P" "prow (di_dao st) t = Some r" "terminal r"
  shows "prow (di_dao (fst (dispatch_interaction d c p st))) t = Some r"
proof (cases "\<exists>tool t' x. click_of d p = Some (tool, t', x) \<and> valid_decision x")
  case False
  then show ?thesis
    using dispatch_interaction_inert [of d p c st] assms(2) by fastforce
next
  case True
  then obtain tool t' x where click: "click_of d p = Some (tool, t', x)" "valid_decision x" by blast
  have eq: "dispatch_interaction d c p st = dispatch_click d c tool t' x st"
    using dispatch_interaction_click [OF click(1)] click(2) by simp
  consider "prow (di_dao st) t' = None" | r' where "prow (di_dao st) t' = Some r'" "terminal r'"
    | r' where "prow (di_dao st) t' = Some r'" "\<not> terminal r'" by blast
  then show ?thesis
  proof cases
    case 1
    then show ?thesis
      using click_unknown [OF assms(1) 1 click(2), of c tool] eq assms(2) by (simp add: append_rows)
  next
    case 2
    then show ?thesis
      using click_stale [OF assms(1) 2 click(2), of c tool] eq assms(2) by (auto simp: append_rows)
  next
    case 3
    then show ?thesis
      using click_resolves [OF assms(1) 3 click(2), of c tool] eq assms(2,3)
      by (auto simp: append_rows Let_def)
  qed
qed

lemma dispatch_all_keeps_terminal:
  assumes "dp_dao d = P" "prow (di_dao st) t = Some r" "terminal r"
  shows "prow (di_dao (dispatch_all d c ps st)) t = Some r"
  using assms(2)
proof (induction ps arbitrary: st)
  case (Cons p ps)
  then show ?case
    using dispatch_keeps_terminal [OF assms(1) Cons.prems assms(3), of c p]
    by (simp add: dispatch_all_def)
qed (simp add: dispatch_all_def)

lemma stale_token_inert:
  assumes "dp_dao d = P" "prow (di_dao st) t = Some r" "terminal r"
    and "click_of d p = Some (tool, t, x)"
  shows "di_world (fst (dispatch_interaction d c p st)) = di_world st
    \<and> di_dao (fst (dispatch_interaction d c p st)) = di_dao st
    \<and> snd (dispatch_interaction d c p st) \<noteq> None"
proof (cases "valid_decision x")
  case True
  then show ?thesis
    using click_stale [OF assms(1-3) True, of c tool] dispatch_interaction_click [OF assms(4), of c st]
    by (auto simp: append_rows)
next
  case False
  then show ?thesis
    using dispatch_interaction_click [OF assms(4), of c st] by (simp add: append_rows)
qed

lemma dead_token_clicks_inert:
  assumes "dp_dao d = P" "prow (di_dao st) t = Some r" "terminal r"
    and "\<forall>p \<in> set ps. \<exists>tool x. click_of d p = Some (tool, t, x)"
  shows "di_world (dispatch_all d c ps st) = di_world st"
  using assms(2,4)
proof (induction ps arbitrary: st)
  case (Cons p ps)
  then obtain tool x where "click_of d p = Some (tool, t, x)" by auto
  from stale_token_inert [OF assms(1) Cons.prems(1) assms(3) this, of c] Cons show ?case
    by (simp add: dispatch_all_def)
qed (simp add: dispatch_all_def)

end

section \<open>Clicks at the same time\<close>

text \<open>
  The messenger calls the dispatcher from several goroutines. A call is open between \<open>Resolve\<close> and
  the approved branch; the steps of the open calls, new clicks and new requests come in any order.
\<close>

datatype 'c dispatch_action =
    DispatchBegin 'c interaction
  | DispatchFinish nat
  | DispatchInsert string string string

fun dispatch_step ::
    "('s, 'c, 'w) dispatcher \<Rightarrow> ('s, 'w) dispatch_state \<times> ('c \<times> string \<times> string) list
     \<Rightarrow> 'c dispatch_action \<Rightarrow> ('s, 'w) dispatch_state \<times> ('c \<times> string \<times> string) list" where
  "dispatch_step d (st, opn) (DispatchBegin c p) =
     (case dispatch_open d p st of
        (st', Inl res) \<Rightarrow> (st', opn)
      | (st', Inr (tool, token)) \<Rightarrow> (st', opn @ [(c, tool, token)]))"
| "dispatch_step d (st, opn) (DispatchFinish n) =
     (if n < length opn
      then (case opn ! n of (c, tool, token) \<Rightarrow>
              (fst (dispatch_approved d c tool token st), take n opn @ drop (Suc n) opn))
      else (st, opn))"
| "dispatch_step d (st, opn) (DispatchInsert token tool params) =
     (st\<lparr>di_dao := fst (pa_insert (dp_dao d) (di_dao st) token tool params)\<rparr>, opn)"

definition dispatch_steps ::
    "('s, 'c, 'w) dispatcher \<Rightarrow> 'c dispatch_action list \<Rightarrow> ('s, 'w) dispatch_state
     \<Rightarrow> ('s, 'w) dispatch_state \<times> ('c \<times> string \<times> string) list" where
  "dispatch_steps d as st = foldl (dispatch_step d) (st, []) as"

definition open_tokens :: "('c \<times> string \<times> string) list \<Rightarrow> string list" where
  "open_tokens opn = map (\<lambda>(c, tool, token). token) opn"

lemma open_tokens_simps [simp]:
  "open_tokens [] = []" "open_tokens ((c, tool, token) # opn) = token # open_tokens opn"
  "open_tokens (opn @ opn') = open_tokens opn @ open_tokens opn'"
  by (simp_all add: open_tokens_def)

text \<open>A call alone is its two steps one after the other.\<close>

lemma dispatch_interaction_steps:
  "fst (dispatch_steps d [DispatchBegin c p, DispatchFinish 0] st) = fst (dispatch_interaction d c p st)"
  by (auto simp: dispatch_steps_def dispatch_interaction_def split: prod.split sum.split)

text \<open>
  The same dispatcher over a world that also lists the tokens the kickoff and the replayer were
  called with. Leaving the list out gives the run of the dispatcher itself.
\<close>

definition recording :: "('s, 'c, 'w) dispatcher \<Rightarrow> ('s, 'c, 'w \<times> string list) dispatcher" where
  "recording d =
     \<lparr>dp_dao = dp_dao d,
      dp_replay = (\<lambda>c tool params token (w, calls).
        map_prod (\<lambda>w'. (w', calls @ [token])) id (dp_replay d c tool params token w)),
      dp_kickoff = (\<lambda>c saga mv wk claim token (w, calls).
        map_prod (\<lambda>w'. (w', calls @ [token])) id (dp_kickoff d c saga mv wk claim token w)),
      dp_audit = dp_audit d, dp_claim_resolver = dp_claim_resolver d, dp_uuid_new = dp_uuid_new d,
      dp_uuid_parse = dp_uuid_parse d, dp_json_actions = dp_json_actions d,
      dp_json_manifest_version_id = dp_json_manifest_version_id d, dp_type_name = dp_type_name d\<rparr>"

definition with_calls :: "string list \<Rightarrow> ('s, 'w) dispatch_state \<Rightarrow> ('s, 'w \<times> string list) dispatch_state" where
  "with_calls calls st = \<lparr>di_dao = di_dao st, di_log = di_log st, di_world = (di_world st, calls),
     di_uuids = di_uuids st\<rparr>"

lemma recording_simps [simp]:
  "dp_dao (recording d) = dp_dao d" "dp_audit (recording d) = dp_audit d"
  "dp_json_actions (recording d) = dp_json_actions d" "dp_type_name (recording d) = dp_type_name d"
  "dp_uuid_new (recording d) = dp_uuid_new d"
  "dp_replay (recording d) c tool params token (w, calls)
     = map_prod (\<lambda>w'. (w', calls @ [token])) id (dp_replay d c tool params token w)"
  "dp_kickoff (recording d) c saga mv wk claim token (w, calls)
     = map_prod (\<lambda>w'. (w', calls @ [token])) id (dp_kickoff d c saga mv wk claim token w)"
  "dp_json_manifest_version_id (recording d) = dp_json_manifest_version_id d"
  "dp_uuid_parse (recording d) = dp_uuid_parse d" "dp_claim_resolver (recording d) = dp_claim_resolver d"
  by (simp_all add: recording_def)

lemma recording_reads [simp]:
  "manifest_version_id_from_params (recording d) params = manifest_version_id_from_params d params"
  "resolve_spawn_claim (recording d) c mv = resolve_spawn_claim d c mv"
  by (simp_all add: manifest_version_id_from_params_def resolve_spawn_claim_def split: sum.split option.split)

lemma with_calls_simps [simp]:
  "di_dao (with_calls calls st) = di_dao st" "di_world (with_calls calls st) = (di_world st, calls)"
  "di_uuids (with_calls calls st) = di_uuids st"
  "(with_calls calls st)\<lparr>di_dao := s\<rparr> = with_calls calls (st\<lparr>di_dao := s\<rparr>)"
  "dispatch_append (recording d) ev (with_calls calls st) = with_calls calls (dispatch_append d ev st)"
  by (simp_all add: with_calls_def dispatch_append_def)

lemma open_recording:
  "dispatch_open (recording d) p (with_calls calls st) = map_prod (with_calls calls) id (dispatch_open d p st)"
  by (auto simp: dispatch_open_def append_rows Let_def split: sum.split list.split prod.split option.split)

lemma approved_recording:
  "\<exists>calls'. (calls' = calls \<or> calls' = calls @ [token])
     \<and> fst (dispatch_approved (recording d) c tool token (with_calls calls st))
       = with_calls calls' (fst (dispatch_approved d c tool token st))"
proof -
  have w: "(with_calls calls st)\<lparr>di_world := (w, calls')\<rparr> = with_calls calls' (st\<lparr>di_world := w\<rparr>)"
    "(with_calls calls st)\<lparr>di_world := (w, calls'), di_uuids := n\<rparr>
       = with_calls calls' (st\<lparr>di_world := w, di_uuids := n\<rparr>)"
    "(with_calls calls' st')\<lparr>di_uuids := n\<rparr> = with_calls calls' (st'\<lparr>di_uuids := n\<rparr>)" for w calls' n st'
    by (simp_all add: with_calls_def)
  note defs = dispatch_approved_def append_rows w
  show ?thesis
  proof (cases "pa_get (dp_dao d) (di_dao st) token")
    case (Inl e)
    then show ?thesis
      by (intro exI [of _ calls]) (simp add: defs)
  next
    case row: (Inr row)
    show ?thesis
    proof (cases "pa_tool_name row = ''propose_spawn''")
      case False
      obtain w' res where "dp_replay d c tool (pa_params_json row) token (di_world st) = (w', res)"
        by fastforce
      then show ?thesis
        using row False by (intro exI [of _ "calls @ [token]"]) (cases res; simp add: defs)
    next
      case True
      show ?thesis
      proof (cases "manifest_version_id_from_params d (pa_params_json row)")
        case (Inl e)
        then show ?thesis
          using row True by (intro exI [of _ calls]) (simp add: defs)
      next
        case mv: (Inr mv)
        show ?thesis
        proof (cases "resolve_spawn_claim d c mv")
          case (Inl e)
          then show ?thesis
            using row True mv by (intro exI [of _ calls]) (simp add: defs)
        next
          case (Inr claim)
          obtain w' res where "dp_kickoff d c (dp_uuid_new d (di_uuids st)) mv
              (dp_uuid_new d (Suc (di_uuids st))) claim token (di_world st) = (w', res)"
            by fastforce
          then show ?thesis
            using row True mv Inr by (intro exI [of _ "calls @ [token]"]) (cases res; simp add: defs)
        qed
      qed
    qed
  qed
qed

context pending_approval_dao
begin

text \<open>What the steps do to the rows: only \<open>dispatch_open\<close> of a click on a pending row changes one.\<close>

lemma open_cases:
  assumes "dp_dao d = P"
  obtains st' res where "dispatch_open d p st = (st', Inl res)" "di_world st' = di_world st"
      "\<And>t r. prow (di_dao st) t = Some r \<Longrightarrow> terminal r \<Longrightarrow> prow (di_dao st') t = Some r"
  | st' tool t r r' where "dispatch_open d p st = (st', Inr (tool, t))" "di_world st' = di_world st"
      "prow (di_dao st) t = Some r" "\<not> terminal r" "resolved_to PendingApprovalStateApproved r r'"
      "prow (di_dao st') = (prow (di_dao st))(t \<mapsto> r')"
proof (cases "\<exists>tool t x. click_of d p = Some (tool, t, x) \<and> valid_decision x")
  case False
  then have "\<exists>st' res. dispatch_open d p st = (st', Inl res) \<and> di_world st' = di_world st \<and> di_dao st' = di_dao st"
    by (auto simp: dispatch_open_def click_of_def append_rows decision_from_button_value_def valid_decision_def
        split: sum.splits list.splits prod.splits)
  then show thesis
    using that(1) by fastforce
next
  case True
  then obtain tool t x where x: "click_of d p = Some (tool, t, x)" "valid_decision x"
    by blast
  have "decision_from_button_value x = Inr x"
    using x(2) by (auto simp: decision_from_button_value_def valid_decision_def)
  then have eq: "dispatch_open d p st =
    (let st1 = append_action_received d tool t x [] st
     in case pa_resolve P (di_dao st) t x of
       (s', Some e) \<Rightarrow> (append_resolve_error d tool t x e (st1\<lparr>di_dao := s'\<rparr>),
                       Inl (Some (errorf ''approval: dao resolve'' e)))
     | (s', None) \<Rightarrow> (append_resolved d tool t x [] (st1\<lparr>di_dao := s'\<rparr>),
                     if x = PendingApprovalStateRejected then Inl None else Inr (tool, t)))"
    using x(1) assms by (elim click_ofE) (simp add: dispatch_open_def Let_def append_rows)
  consider "prow (di_dao st) t = None" | r where "prow (di_dao st) t = Some r" "terminal r"
    | r where "prow (di_dao st) t = Some r" "\<not> terminal r" by blast
  then show thesis
  proof cases
    case 1
    then show thesis
      using that(1) eq resolve_missing_law [OF x(2) 1] by (simp add: Let_def append_rows)
  next
    case 2
    obtain e where "pa_resolve P (di_dao st) t x = (di_dao st, Some e)"
      using resolve_stale_law [OF x(2) 2] by blast
    then show thesis
      using that(1) eq by (simp add: Let_def append_rows)
  next
    case 3
    obtain s' r' where s': "pa_resolve P (di_dao st) t x = (s', None)" "prow s' = (prow (di_dao st))(t \<mapsto> r')"
      "resolved_to x r r'"
      using resolve_law [OF x(2) 3] by blast
    show thesis
    proof (cases "x = PendingApprovalStateRejected")
      case True
      then show thesis
        using that(1) eq s' 3 by (fastforce simp: Let_def append_rows)
    next
      case False
      then show thesis
        using that(2) eq s' 3 x(2) by (simp add: Let_def append_rows valid_decision_def)
    qed
  qed
qed

text \<open>
  What every order of steps keeps: the tokens called and those of the open calls are distinct, and
  each has an approved row that was pending at the start (\<open>rows0\<close>); a decision is never taken back.
\<close>

definition calls_inv ::
    "(string \<rightharpoonup> pending_approval) \<Rightarrow> string list \<Rightarrow> ('s, 'w) dispatch_state \<Rightarrow> string list \<Rightarrow> bool" where
  "calls_inv rows0 calls st toks \<longleftrightarrow>
     distinct (calls @ toks)
     \<and> (\<forall>t \<in> set (calls @ toks). \<exists>r. prow (di_dao st) t = Some r
          \<and> pa_state r = PendingApprovalStateApproved \<and> (\<forall>r0. rows0 t = Some r0 \<longrightarrow> \<not> terminal r0))
     \<and> (\<forall>t r. rows0 t = Some r \<longrightarrow> terminal r \<longrightarrow> prow (di_dao st) t = Some r)"

lemma approved_terminal: "pa_state r = PendingApprovalStateApproved \<Longrightarrow> terminal r"
  by (simp add: terminal_def)

lemma calls_inv_rows:
  assumes "calls_inv rows0 calls st toks"
    and "\<And>t r. prow (di_dao st) t = Some r \<Longrightarrow> terminal r \<Longrightarrow> prow (di_dao st') t = Some r"
  shows "calls_inv rows0 calls st' toks"
proof -
  have "\<exists>r. prow (di_dao st') t = Some r \<and> pa_state r = PendingApprovalStateApproved
      \<and> (\<forall>r0. rows0 t = Some r0 \<longrightarrow> \<not> terminal r0)" if "t \<in> set (calls @ toks)" for t
    using assms that approved_terminal unfolding calls_inv_def by blast
  moreover have "prow (di_dao st') t = Some r" if "rows0 t = Some r" "terminal r" for t r
    using assms that unfolding calls_inv_def by blast
  ultimately show ?thesis
    using assms(1) unfolding calls_inv_def by blast
qed

lemma calls_inv_open:
  assumes "calls_inv rows0 calls st toks" "prow (di_dao st) t = Some r" "\<not> terminal r"
    and "resolved_to PendingApprovalStateApproved r r'" "prow (di_dao st') = (prow (di_dao st))(t \<mapsto> r')"
  shows "calls_inv rows0 calls st' (toks @ [t])"
proof -
  have "t \<notin> set (calls @ toks)" "\<forall>r0. rows0 t = Some r0 \<longrightarrow> \<not> terminal r0"
    using assms(1-3) approved_terminal unfolding calls_inv_def by fastforce+
  then show ?thesis
    using assms unfolding calls_inv_def by (auto simp: resolved_to_def)
qed

lemma calls_inv_perm:
  "calls_inv rows0 calls st toks \<Longrightarrow> distinct (calls' @ toks') \<Longrightarrow> set (calls' @ toks') \<subseteq> set (calls @ toks)
     \<Longrightarrow> di_dao st' = di_dao st \<Longrightarrow> calls_inv rows0 calls' st' toks'"
  unfolding calls_inv_def by auto

lemma finish_calls:
  assumes "calls_inv rows0 calls st (open_tokens opn)" "n < length opn" "opn ! n = (c, tool, t)"
    and "di_dao st' = di_dao st" "calls' = calls \<or> calls' = calls @ [t]"
  shows "calls_inv rows0 calls' st' (open_tokens (take n opn @ drop (Suc n) opn))"
proof (rule calls_inv_perm [OF assms(1)])
  have "opn = take n opn @ (c, tool, t) # drop (Suc n) opn"
    using id_take_nth_drop [OF assms(2)] assms(3) by simp
  from arg_cong [OF this, of open_tokens]
  have opn: "open_tokens opn = open_tokens (take n opn) @ t # open_tokens (drop (Suc n) opn)"
    by simp
  have dist: "distinct (calls @ open_tokens opn)"
    using assms(1) by (simp add: calls_inv_def)
  show "distinct (calls' @ open_tokens (take n opn @ drop (Suc n) opn))"
    using dist assms(5) unfolding opn by auto
  show "set (calls' @ open_tokens (take n opn @ drop (Suc n) opn)) \<subseteq> set (calls @ open_tokens opn)"
    using assms(5) unfolding opn by auto
qed (use assms(4) in simp)

lemma step_calls:
  assumes "dp_dao d = P" "calls_inv rows0 calls st (open_tokens opn)" "dispatch_step d (st, opn) a = (st', opn')"
  shows "\<exists>calls'. dispatch_step (recording d) (with_calls calls st, opn) a = (with_calls calls' st', opn')
    \<and> calls_inv rows0 calls' st' (open_tokens opn')"
proof (cases a)
  case (DispatchBegin c p)
  show ?thesis
  proof (cases rule: open_cases [OF assms(1), of p st])
    case (1 u res)
    then show ?thesis
      using assms(3) DispatchBegin calls_inv_rows [OF assms(2), of u]
      by (intro exI [of _ calls]) (simp add: open_recording)
  next
    case (2 u tool t r r')
    then show ?thesis
      using assms(3) DispatchBegin calls_inv_open [OF assms(2) 2(3-6)] by (auto simp: open_recording)
  qed
next
  case (DispatchFinish n)
  show ?thesis
  proof (cases "n < length opn")
    case True
    obtain c tool t where nth: "opn ! n = (c, tool, t)"
      by (cases "opn ! n")
    obtain calls' where calls': "calls' = calls \<or> calls' = calls @ [t]"
      "fst (dispatch_approved (recording d) c tool t (with_calls calls st))
         = with_calls calls' (fst (dispatch_approved d c tool t st))"
      using approved_recording [where calls = calls and token = t and d = d and c = c and tool = tool and st = st] by blast
    have eq: "st' = fst (dispatch_approved d c tool t st)" "opn' = take n opn @ drop (Suc n) opn"
      using assms(3) DispatchFinish True nth by auto
    have dao: "di_dao st' = di_dao st"
      by (simp add: eq)
    show ?thesis
      using finish_calls [OF assms(2) True nth dao calls'(1)] DispatchFinish True nth calls'(2) eq
      by (intro exI [of _ calls']) simp
  qed (use assms(2,3) DispatchFinish in auto)
next
  case (DispatchInsert token tool params)
  then have eq: "st' = st\<lparr>di_dao := fst (pa_insert P (di_dao st) token tool params)\<rparr>" "opn' = opn"
    using assms(1,3) by simp_all
  have "calls_inv rows0 calls st' (open_tokens opn)"
    by (rule calls_inv_rows [OF assms(2)]) (simp add: eq(1) insert_law)
  then show ?thesis
    using assms(1) DispatchInsert eq by (intro exI [of _ calls]) simp
qed

lemma steps_calls:
  assumes "dp_dao d = P" "calls_inv rows0 calls st (open_tokens opn)"
    and "foldl (dispatch_step d) (st, opn) as = (st', opn')"
  shows "\<exists>calls'. foldl (dispatch_step (recording d)) (with_calls calls st, opn) as = (with_calls calls' st', opn')
    \<and> calls_inv rows0 calls' st' (open_tokens opn')"
  using assms(2,3)
proof (induction as arbitrary: calls st opn)
  case (Cons a as)
  obtain u opn1 where u: "dispatch_step d (st, opn) a = (u, opn1)"
    by fastforce
  obtain calls1 where "dispatch_step (recording d) (with_calls calls st, opn) a = (with_calls calls1 u, opn1)"
    "calls_inv rows0 calls1 u (open_tokens opn1)"
    using step_calls [OF assms(1) Cons.prems(1) u] by blast
  then show ?case
    using Cons.IH [of calls1 u opn1] Cons.prems(2) u by simp
qed auto

lemma calls_inv_start: "calls_inv (prow (di_dao st)) [] st []"
  by (simp add: calls_inv_def)

end

section \<open>Properties\<close>

text \<open>
  C11: at most one kickoff or replay per approval token. Take any store, any
  order of clicks from any number of goroutines, each open between its \<open>Resolve\<close> and its approved
  branch, and any requests stored in between. No token is handed to the kickoff or the replayer
  twice, none that was handed over is waiting in another open call, and each has a row whose stored
  decision is the approval and which was not decided before; recording the calls changes nothing else.
\<close>

theorem dispatch_at_most_once:
  assumes "dp_dao d = mem_pa_ops" "dispatch_steps d as st = (st', opn)"
  shows "\<exists>calls. dispatch_steps (recording d) as (with_calls [] st) = (with_calls calls st', opn)
    \<and> distinct (calls @ open_tokens opn)
    \<and> (\<forall>t \<in> set calls. \<exists>r. mp_rows (di_dao st') t = Some r \<and> pa_state r = ''approved''
         \<and> (\<forall>r0. mp_rows (di_dao st) t = Some r0 \<longrightarrow> pa_state r0 = ''pending''))"
  using pam.steps_calls [OF assms(1) _ assms(2) [unfolded dispatch_steps_def], of "mp_rows (di_dao st)" "[]"]
    pam.calls_inv_start [of st]
  by (auto simp: dispatch_steps_def pam.calls_inv_def terminal_def)

text \<open>
  Approving a \<open>propose_spawn\<close> row. The row is resolved, the kickoff is called once with two
  fresh ids, the manifest version of the stored parameters, the resolver's claim and the token,
  and the trail is received, resolved, then the kickoff's outcome; a failing kickoff keeps the row
  approved.
\<close>

theorem dispatch_approve_propose_spawn:
  assumes "dp_dao d = mem_pa_ops" "dp_audit d" "mp_rows (di_dao st) t = Some r" "\<not> terminal r"
    and "click_of d p = Some (tool, t, ''approved'')" "pa_tool_name r = ''propose_spawn''"
    and "manifest_version_id_from_params d (pa_params_json r) = Inr mv"
    and "resolve_spawn_claim d c mv = Inr claim"
    and "dp_kickoff d c (dp_uuid_new d (di_uuids st)) mv (dp_uuid_new d (Suc (di_uuids st))) claim t
           (di_world st) = (w', res)"
  shows "\<exists>st' r'. dispatch_interaction d c p st = (st', map_option (errorf ''approval: spawn kickoff'') res)
    \<and> di_world st' = w' \<and> di_uuids st' = di_uuids st + 2
    \<and> mp_rows (di_dao st') = (mp_rows (di_dao st))(t \<mapsto> r') \<and> resolved_to ''approved'' r r'
    \<and> map ev_type (di_log st') = map ev_type (di_log st)
        @ [''approval_card_action_received'', ''approval_resolved'',
           if res = None then ''approval_replay_succeeded'' else ''approval_replay_failed'']"
proof -
  have valid: "valid_decision ''approved''" by (simp add: valid_decision_def)
  from pam.click_resolves [OF assms(1,3,4) valid, of c tool] obtain s' r' where
    s': "mp_rows s' = (mp_rows (di_dao st))(t \<mapsto> r')" "resolved_to ''approved'' r r'"
      "dispatch_click d c tool t ''approved'' st = dispatch_approved d c tool t
         (append_resolved d tool t ''approved'' []
            ((append_action_received d tool t ''approved'' [] st)\<lparr>di_dao := s'\<rparr>))"
    by (auto simp: Let_def)
  have "pa_get mem_pa_ops s' t = Inr r'"
    using pam.get_law [of s' t] s'(1) by simp
  then show ?thesis
    using s' assms dispatch_interaction_click [OF assms(5), of c st] valid
    by (cases res)
       (auto simp: dispatch_approved_def append_rows resolved_to_def)
qed

text \<open>Histories of calls on the store.\<close>

datatype pa_call = PaInsert string string string | PaResolve string string

fun mem_pa_call :: "mem_pa \<Rightarrow> pa_call \<Rightarrow> mem_pa" where
  "mem_pa_call m (PaInsert t tool params) = fst (mem_pa_insert m t tool params)"
| "mem_pa_call m (PaResolve t x) = fst (mem_pa_resolve m t x)"

lemma mem_pa_call_keeps:
  "mp_rows m t = Some r \<Longrightarrow> terminal r \<Longrightarrow> mp_rows (mem_pa_call m k) t = Some r"
  by (cases k) (auto simp: mem_pa_insert_def mem_pa_resolve_def terminal_def split: option.split)

lemma mem_pa_calls_keep:
  "mp_rows m t = Some r \<Longrightarrow> terminal r \<Longrightarrow> mp_rows (foldl mem_pa_call m ks) t = Some r"
  by (induction ks arbitrary: m) (simp_all add: mem_pa_call_keeps)

text \<open>
  A resolution happens at most once. When a \<open>Resolve\<close> of a token succeeds, then over any
  further calls on the store, in any order and from any callers, the row keeps the decision and
  every other \<open>Resolve\<close> of the token fails without a change.
\<close>

theorem pending_resolve_at_most_once:
  assumes "mem_pa_resolve m t x = (m1, None)"
  shows "let m2 = foldl mem_pa_call m1 ks
         in (\<exists>r'. mp_rows m2 t = Some r' \<and> pa_state r' = x \<and> pa_resolved_at r' \<noteq> None)
          \<and> (\<exists>e. mem_pa_resolve m2 t y = (m2, Some e))"
proof -
  from assms obtain r where r: "mp_rows m1 t = Some r" "pa_state r = x" "pa_resolved_at r \<noteq> None"
    "valid_decision x"
    by (auto simp: mem_pa_resolve_def valid_decision_def split: if_splits option.splits)
  then have "terminal r" by (auto simp: terminal_def valid_decision_def)
  from mem_pa_calls_keep [OF r(1) this, of ks] r \<open>terminal r\<close> show ?thesis
    by (auto simp: Let_def mem_pa_resolve_def terminal_def)
qed

text \<open>
  Button identifiers round trip. A known tool and any non-empty token, colons included,
  decode to themselves, and nothing but an encoding of a known tool and a non-empty token decodes.
\<close>

theorem action_id_roundtrip:
  "decode_action_id s = Inr (tool, token)
     \<longleftrightarrow> s = encode_action_id tool token \<and> is_known_tool tool \<and> token \<noteq> []"
proof
  assume "decode_action_id s = Inr (tool, token)"
  then have "split_n 3 (CHR '':'') s = [''approval'', tool, token]" "is_known_tool tool" "token \<noteq> []" "tool \<noteq> []"
    by (auto simp: decode_action_id_def split: list.splits if_splits)
  with split_n_pieces [of "CHR '':''" s] show
    "s = encode_action_id tool token \<and> is_known_tool tool \<and> token \<noteq> []"
    by (simp add: encode_action_id_def)
next
  assume a: "s = encode_action_id tool token \<and> is_known_tool tool \<and> token \<noteq> []"
  then have "split_n 3 (CHR '':'') s = [''approval'', tool, token]"
    using known_tool_no_colon [of tool]
    by (auto simp: encode_action_id_def numeral_3_eq_3)
  with a known_tool_no_colon [of tool] show "decode_action_id s = Inr (tool, token)"
    by (simp add: decode_action_id_def)
qed

section \<open>Witnesses\<close>

text \<open>
  A dispatcher over worlds that list the calls they received; its JSON is the action id itself,
  its parameters any text, its version ids the number 9.
\<close>

definition demo_dispatcher :: "goerr option \<Rightarrow> (mem_pa, unit, string list) dispatcher" where
  "demo_dispatcher res =
     \<lparr>dp_dao = mem_pa_ops,
      dp_replay = (\<lambda>_ tool _ _ w. (w @ [tool], None)),
      dp_kickoff = (\<lambda>_ _ _ _ _ tok w. (w @ [tok], res)),
      dp_audit = True, dp_claim_resolver = None, dp_uuid_new = of_nat,
      dp_uuid_parse = (\<lambda>_. Inr 9), dp_json_actions = (\<lambda>s. Inr [(s, ''approved'')]),
      dp_json_manifest_version_id = (\<lambda>s. Inr s), dp_type_name = (\<lambda>_. ''*errors.errorString'')\<rparr>"

definition demo_pending :: "string \<Rightarrow> pending_approval" where
  "demo_pending st = \<lparr>pa_token = ''a:b'', pa_tool_name = ''propose_spawn'', pa_params_json = ''mv'',
     pa_state = st, pa_requested_at = 0, pa_resolved_at = None\<rparr>"

definition demo_dispatch_state :: "string \<Rightarrow> (mem_pa, string list) dispatch_state" where
  "demo_dispatch_state st = \<lparr>di_dao = \<lparr>mp_rows = [''a:b'' \<mapsto> demo_pending st], mp_clock = int, mp_ticks = 0\<rparr>,
     di_log = [], di_world = [], di_uuids = 0\<rparr>"

definition demo_click :: interaction where
  "demo_click = \<lparr>in_type = ''block_actions'', in_raw = ''approval:propose_spawn:a:b''\<rparr>"

lemma demo_click_of: "click_of (demo_dispatcher res) demo_click = Some (''propose_spawn'', ''a:b'', ''approved'')"
  by (simp add: click_of_def demo_dispatcher_def demo_click_def decode_action_id_def is_known_tool_def
      numeral_3_eq_3)

lemma demo_dispatch_simps:
  "dp_dao (demo_dispatcher res) = mem_pa_ops" "dp_audit (demo_dispatcher res)"
  "mp_rows (di_dao (demo_dispatch_state st)) ''a:b'' = Some (demo_pending st)"
  "terminal (demo_pending st) \<longleftrightarrow> st \<noteq> ''pending''"
  "pa_tool_name (demo_pending st) = ''propose_spawn''"
  by (simp_all add: demo_dispatcher_def demo_dispatch_state_def demo_pending_def terminal_def)

text \<open>Two clicks on one pending row, both open before either goes on; the second finds it decided.\<close>

definition demo_clicks :: "unit dispatch_action list" where
  "demo_clicks = [DispatchBegin () demo_click, DispatchBegin () demo_click, DispatchFinish 0, DispatchFinish 0]"

lemma demo_clicks_run:
  "snd (di_world (fst (dispatch_steps (recording (demo_dispatcher None)) demo_clicks
      (with_calls [] (demo_dispatch_state ''pending''))))) = [''a:b'']"
  by code_simp

theorem dispatch_at_most_once_witness:
  "\<exists>calls st' opn. dispatch_steps (demo_dispatcher None) demo_clicks (demo_dispatch_state ''pending'') = (st', opn)
     \<and> dispatch_steps (recording (demo_dispatcher None)) demo_clicks
         (with_calls [] (demo_dispatch_state ''pending'')) = (with_calls calls st', opn)
     \<and> distinct calls \<and> calls = [''a:b'']"
proof -
  obtain st' opn where run:
    "dispatch_steps (demo_dispatcher None) demo_clicks (demo_dispatch_state ''pending'') = (st', opn)"
    by fastforce
  from dispatch_at_most_once [OF demo_dispatch_simps(1) run] obtain calls where
    "dispatch_steps (recording (demo_dispatcher None)) demo_clicks
       (with_calls [] (demo_dispatch_state ''pending'')) = (with_calls calls st', opn)"
    "distinct (calls @ open_tokens opn)" by blast
  then show ?thesis
    using run demo_clicks_run by auto
qed

theorem dispatch_approve_propose_spawn_witness:
  "\<exists>st'. dispatch_interaction (demo_dispatcher (Some [Text ''down''])) () demo_click (demo_dispatch_state ''pending'')
      = (st', Some (errorf ''approval: spawn kickoff'' [Text ''down'']))
    \<and> di_world st' = [''a:b''] \<and> length (di_log st') = 3"
proof -
  let ?d = "demo_dispatcher (Some [Text ''down''])" and ?st = "demo_dispatch_state ''pending''"
  have 1: "manifest_version_id_from_params ?d (pa_params_json (demo_pending ''pending'')) = Inr 9"
    by (simp add: manifest_version_id_from_params_def demo_dispatcher_def demo_pending_def)
  obtain claim where 2: "resolve_spawn_claim ?d () 9 = Inr claim"
    by (simp add: resolve_spawn_claim_def demo_dispatcher_def)
  have 3: "dp_kickoff ?d () (dp_uuid_new ?d (di_uuids ?st)) 9 (dp_uuid_new ?d (Suc (di_uuids ?st))) claim
      ''a:b'' (di_world ?st) = ([''a:b''], Some [Text ''down''])"
    by (simp add: demo_dispatcher_def demo_dispatch_state_def)
  from dispatch_approve_propose_spawn [OF demo_dispatch_simps(1,2,3) _ demo_click_of demo_dispatch_simps(5) 1 2 3]
  obtain st' where "dispatch_interaction ?d () demo_click ?st
      = (st', Some (errorf ''approval: spawn kickoff'' [Text ''down'']))" "di_world st' = [''a:b'']"
    and log: "map ev_type (di_log st') = map ev_type (di_log ?st)
      @ [''approval_card_action_received'', ''approval_resolved'', ''approval_replay_failed'']"
    by (auto simp: demo_dispatch_simps)
  moreover have "length (di_log st') = 3"
    using arg_cong [OF log, of length] by (simp add: demo_dispatch_state_def)
  ultimately show ?thesis by blast
qed

theorem pending_resolve_at_most_once_witness:
  "\<exists>m1 e. mem_pa_resolve (foldl mem_pa_call m1 [PaInsert ''a:b'' ''x'' [], PaResolve ''a:b'' ''rejected''])
      ''a:b'' ''rejected'' = (foldl mem_pa_call m1 [PaInsert ''a:b'' ''x'' [], PaResolve ''a:b'' ''rejected''], Some e)"
proof -
  have "\<exists>m1. mem_pa_resolve (di_dao (demo_dispatch_state ''pending'')) ''a:b'' ''approved'' = (m1, None)"
    by (simp add: mem_pa_resolve_def demo_dispatch_state_def demo_pending_def)
  then obtain m1 where "mem_pa_resolve (di_dao (demo_dispatch_state ''pending'')) ''a:b'' ''approved'' = (m1, None)" ..
  from pending_resolve_at_most_once [OF this, of "[PaInsert ''a:b'' ''x'' [], PaResolve ''a:b'' ''rejected'']" "''rejected''"]
  show ?thesis by (auto simp: Let_def)
qed

end
