(* ===== verification/Capability.thy ===== *)
theory Capability
  imports KeepersLog
begin

text \<open>
  The capability broker (\<^verbatim>\<open>core/pkg/capability/broker.go\<close>): opaque tokens bound to a scope, an
  optional organization and an expiry. \<open>crypto/rand\<close> and the injected clock are the sequences of
  their answers; the logger receives \<open>log_line\<close>s. Every method is one function on the broker;
  \<open>broker_step\<close> gives the interleavings of concurrent \<open>Issue\<close>, \<open>Revoke\<close>, expiry and \<open>Close\<close>
  calls at the granularity of their critical sections.
\<close>

section \<open>Tokens\<close>

text \<open>\<open>base64.RawURLEncoding.EncodeToString\<close>: three bytes to four digits, no padding.\<close>

definition b64_alphabet :: string where
  "b64_alphabet = ''ABCDEFGHIJKLMNOPQRSTUVWXYZabcdefghijklmnopqrstuvwxyz0123456789-_''"

definition b64_digit :: "nat \<Rightarrow> char" where
  "b64_digit n = b64_alphabet ! n"

abbreviation byte :: "char \<Rightarrow> nat" where
  "byte \<equiv> of_char"

fun b64_encode :: "string \<Rightarrow> string" where
  "b64_encode [] = []"
| "b64_encode [a] = [b64_digit (byte a div 4), b64_digit (byte a mod 4 * 16)]"
| "b64_encode [a, b] =
     [b64_digit (byte a div 4), b64_digit (byte a mod 4 * 16 + byte b div 16),
      b64_digit (byte b mod 16 * 4)]"
| "b64_encode (a # b # c # r) =
     [b64_digit (byte a div 4), b64_digit (byte a mod 4 * 16 + byte b div 16),
      b64_digit (byte b mod 16 * 4 + byte c div 64), b64_digit (byte c mod 64)] @ b64_encode r"

text \<open>\<open>newToken\<close>: \<open>rand\<close> is what the read of 32 bytes answers.\<close>

definition new_token :: "goerr + string \<Rightarrow> goerr + string" where
  "new_token rand = (case rand of Inl e \<Rightarrow> Inl e | Inr buf \<Rightarrow> Inr (b64_encode buf))"

definition token_prefix :: "string \<Rightarrow> string" where
  "token_prefix token = (if length token \<le> 8 then token else take 8 token)"

lemma b64_alphabet_ok: "length b64_alphabet = 64" "distinct b64_alphabet"
  by code_simp+

lemma b64_digit_inj: "m < 64 \<Longrightarrow> n < 64 \<Longrightarrow> b64_digit m = b64_digit n \<longleftrightarrow> m = n"
  using b64_alphabet_ok by (simp add: b64_digit_def nth_eq_iff_index_eq)

lemma byte_less [simp]: "byte c < 256"
  using nat_of_char_less_256 by simp

lemma length_b64_encode: "length (b64_encode s) = (8 * length s + 5) div 6"
  by (induction s rule: b64_encode.induct) auto

text \<open>The digit groups determine their bytes.\<close>

lemma byte_parts:
  fixes x :: nat
  assumes "x < 256"
  shows "x div 4 < 64" "x mod 4 \<le> 3" "x div 16 < 16" "x mod 16 \<le> 15" "x div 64 < 4" "x mod 64 < 64"
  using assms by (auto simp: less_mult_imp_div_less intro: mod_less_eq_dividend)

lemma digit_less:
  fixes p q :: nat
  shows "p \<le> 3 \<Longrightarrow> q < 16 \<Longrightarrow> p * 16 + q < 64" "p \<le> 15 \<Longrightarrow> q < 4 \<Longrightarrow> p * 4 + q < 64"
    "p \<le> 3 \<Longrightarrow> p * 16 < 64" "p \<le> 15 \<Longrightarrow> p * 4 < 64"
  by simp_all

lemma digit_cancel:
  fixes p q p' q' n :: nat
  assumes "p * n + q = p' * n + q'" "q < n" "q' < n"
  shows "p = p' \<and> q = q'"
proof -
  have "q = q'"
    using arg_cong [OF assms(1), of "\<lambda>x. x mod n"] assms(2,3) by simp
  then show ?thesis using assms by simp
qed

lemma b64_bounds [simp]:
  "byte a div 4 < 64" "byte a mod 4 * 16 + byte b div 16 < 64" "byte a mod 4 * 16 < 64"
  "byte b mod 16 * 4 + byte c div 64 < 64" "byte b mod 16 * 4 < 64" "byte c mod 64 < 64"
  by (intro digit_less byte_parts byte_less)+

lemma same_parts: "x div n = y div n \<Longrightarrow> x mod n = y mod n \<Longrightarrow> x = (y :: nat)"
  by (metis div_mult_mod_eq)

lemma b64_group_inj:
  assumes "byte a div 4 = byte a' div 4"
    and "byte a mod 4 * 16 + byte b div 16 = byte a' mod 4 * 16 + byte b' div 16"
    and "byte b mod 16 * 4 + byte c div 64 = byte b' mod 16 * 4 + byte c' div 64"
    and "byte c mod 64 = byte c' mod 64"
  shows "a = a' \<and> b = b' \<and> c = c'"
proof -
  have "byte a mod 4 = byte a' mod 4 \<and> byte b div 16 = byte b' div 16"
    using assms(2) by (rule digit_cancel) (rule byte_parts, rule byte_less)+
  moreover have "byte b mod 16 = byte b' mod 16 \<and> byte c div 64 = byte c' div 64"
    using assms(3) by (rule digit_cancel) (rule byte_parts, rule byte_less)+
  ultimately have "byte a = byte a'" "byte b = byte b'" "byte c = byte c'"
    using assms(1,4) same_parts by blast+
  then show ?thesis by simp
qed

lemma b64_encode_inj: "length s = length t \<Longrightarrow> b64_encode s = b64_encode t \<Longrightarrow> s = t"
proof (induction s arbitrary: t rule: b64_encode.induct)
  case (2 a)
  from 2(1) obtain a' where t: "t = [a']" by (cases t) auto
  with 2 have "byte a div 4 = byte a' div 4" "byte a mod 4 * 16 = byte a' mod 4 * 16"
    by (simp_all add: b64_digit_inj)
  then have "byte a = byte a'" using same_parts [of "byte a" 4 "byte a'"] by simp
  then show ?case using t by simp
next
  case (3 a b)
  from 3(1) obtain a' b' where t: "t = [a', b']" by (cases t rule: b64_encode.cases) auto
  with 3 have "byte a div 4 = byte a' div 4"
    "byte a mod 4 * 16 + byte b div 16 = byte a' mod 4 * 16 + byte b' div 16"
    "byte b mod 16 * 4 = byte b' mod 16 * 4"
    by (simp_all add: b64_digit_inj)
  then show ?case
    using t b64_group_inj [of a a' b b' "CHR 0x00" "CHR 0x00"] by simp
next
  case (4 a b c r)
  from 4(2) obtain a' b' c' r' where t: "t = a' # b' # c' # r'"
    by (cases t rule: b64_encode.cases) auto
  with 4 show ?case
    using b64_group_inj [of a a' b b' c c'] by (simp add: b64_digit_inj)
qed simp

section \<open>The broker\<close>

datatype log_val = LStr string | LTime int

record log_line =
  ll_msg :: string
  ll_kv :: "(string \<times> log_val) list"

text \<open>\<open>entry\<close>: the organization is empty for tokens minted by \<open>Issue\<close>.\<close>

record cap_entry =
  ce_scope :: string
  ce_organization_id :: string
  ce_expiry :: int

text \<open>
  \<open>br_clock n\<close> is the answer of the \<open>n\<close>-th \<open>clock()\<close> call, \<open>br_rand n\<close> of the \<open>n\<close>-th random read;
  the logger is optional.
\<close>

record broker =
  br_clock :: "nat \<Rightarrow> int"
  br_ticks :: nat
  br_rand :: "nat \<Rightarrow> goerr + string"
  br_draws :: nat
  br_logger :: bool
  br_log :: "log_line list"
  br_tokens :: "string \<rightharpoonup> cap_entry"
  br_closed :: bool

abbreviation ErrClosed :: string where "ErrClosed \<equiv> ''capability: broker closed''"
abbreviation ErrInvalidToken :: string where "ErrInvalidToken \<equiv> ''capability: invalid token''"
abbreviation ErrTokenExpired :: string where "ErrTokenExpired \<equiv> ''capability: token expired''"
abbreviation ErrScopeMismatch :: string where "ErrScopeMismatch \<equiv> ''capability: scope mismatch''"
abbreviation ErrInvalidScope :: string where "ErrInvalidScope \<equiv> ''capability: invalid scope''"
abbreviation ErrInvalidTTL :: string where "ErrInvalidTTL \<equiv> ''capability: invalid ttl''"
abbreviation ErrInvalidOrganization :: string where
  "ErrInvalidOrganization \<equiv> ''capability: invalid organization''"
abbreviation ErrOrganizationMismatch :: string where
  "ErrOrganizationMismatch \<equiv> ''capability: organization mismatch''"

definition new_broker :: "(nat \<Rightarrow> int) \<Rightarrow> (nat \<Rightarrow> goerr + string) \<Rightarrow> bool \<Rightarrow> broker" where
  "new_broker clock rand logger =
     \<lparr>br_clock = clock, br_ticks = 0, br_rand = rand, br_draws = 0, br_logger = logger, br_log = [],
      br_tokens = Map.empty, br_closed = False\<rparr>"

definition cap_log :: "string \<Rightarrow> (string \<times> log_val) list \<Rightarrow> broker \<Rightarrow> broker" where
  "cap_log msg kv b =
     (if br_logger b then b\<lparr>br_log := br_log b @ [\<lparr>ll_msg = msg, ll_kv = kv\<rparr>]\<rparr> else b)"

definition read_clock :: "broker \<Rightarrow> int \<times> broker" where
  "read_clock b = (br_clock b (br_ticks b), b\<lparr>br_ticks := Suc (br_ticks b)\<rparr>)"

definition read_rand :: "broker \<Rightarrow> (goerr + string) \<times> broker" where
  "read_rand b = (br_rand b (br_draws b), b\<lparr>br_draws := Suc (br_draws b)\<rparr>)"

text \<open>
  The two minting methods share everything after their argument checks but the organization and
  the log line. \<open>mint_begin\<close> is the part before the lock, \<open>mint_commit\<close> the critical section.
\<close>

definition mint_begin :: "int \<Rightarrow> broker \<Rightarrow> broker \<times> (goerr + string \<times> int)" where
  "mint_begin ttl b =
     (if br_closed b then (b, Inl [Sentinel ErrClosed])
      else case read_rand b of
        (r, b1) \<Rightarrow>
          (case new_token r of
             Inl e \<Rightarrow> (b1, Inl (errorf ''capability: generate token'' e))
           | Inr token \<Rightarrow>
               (case read_clock b1 of (now, b2) \<Rightarrow> (b2, Inr (token, now + ttl)))))"

definition mint_commit :: "string \<Rightarrow> cap_entry \<Rightarrow> broker \<Rightarrow> broker \<times> goerr option" where
  "mint_commit token e b =
     (if br_closed b then (b, Some [Sentinel ErrClosed])
      else (b\<lparr>br_tokens := (br_tokens b)(token \<mapsto> e)\<rparr>, None))"

definition cap_issue :: "string \<Rightarrow> int \<Rightarrow> broker \<Rightarrow> broker \<times> (goerr + string)" where
  "cap_issue scope ttl b =
     (if scope = [] then (b, Inl [Sentinel ErrInvalidScope])
      else if ttl \<le> 0 then (b, Inl [Sentinel ErrInvalidTTL])
      else case mint_begin ttl b of
        (b1, Inl e) \<Rightarrow> (b1, Inl e)
      | (b1, Inr (token, expiry)) \<Rightarrow>
          (case mint_commit token \<lparr>ce_scope = scope, ce_organization_id = [], ce_expiry = expiry\<rparr> b1 of
             (b2, Some e) \<Rightarrow> (b2, Inl e)
           | (b2, None) \<Rightarrow>
               (cap_log ''capability: issued''
                  [(''scope'', LStr scope), (''token_prefix'', LStr (token_prefix token)),
                   (''expiry'', LTime expiry)] b2, Inr token)))"

definition cap_issue_for_org :: "string \<Rightarrow> string \<Rightarrow> int \<Rightarrow> broker \<Rightarrow> broker \<times> (goerr + string)" where
  "cap_issue_for_org scope org ttl b =
     (if scope = [] then (b, Inl [Sentinel ErrInvalidScope])
      else if org = [] then (b, Inl [Sentinel ErrInvalidOrganization])
      else if ttl \<le> 0 then (b, Inl [Sentinel ErrInvalidTTL])
      else case mint_begin ttl b of
        (b1, Inl e) \<Rightarrow> (b1, Inl e)
      | (b1, Inr (token, expiry)) \<Rightarrow>
          (case mint_commit token \<lparr>ce_scope = scope, ce_organization_id = org, ce_expiry = expiry\<rparr> b1 of
             (b2, Some e) \<Rightarrow> (b2, Inl e)
           | (b2, None) \<Rightarrow>
               (cap_log ''capability: issued''
                  [(''scope'', LStr scope), (''organization_id'', LStr org),
                   (''token_prefix'', LStr (token_prefix token)), (''expiry'', LTime expiry)] b2,
                Inr token)))"

text \<open>
  Validation. The expired branch takes the write lock, looks the entry up again and reads the
  clock again before it deletes.
\<close>

definition drop_if_expired :: "string \<Rightarrow> broker \<Rightarrow> broker" where
  "drop_if_expired token b =
     (case br_tokens b token of
        None \<Rightarrow> b
      | Some cur \<Rightarrow>
          (case read_clock b of
             (now, b1) \<Rightarrow>
               if \<not> now < ce_expiry cur
               then b1\<lparr>br_tokens := (br_tokens b1)(token := None)\<rparr> else b1))"

definition cap_validate :: "goerr option \<Rightarrow> string \<Rightarrow> string \<Rightarrow> broker \<Rightarrow> broker \<times> goerr option" where
  "cap_validate ctx_error token scope b =
     (if ctx_error \<noteq> None then (b, ctx_error)
      else if br_closed b then (b, Some [Sentinel ErrClosed])
      else case br_tokens b token of
        None \<Rightarrow> (b, Some [Sentinel ErrInvalidToken])
      | Some e \<Rightarrow>
          (case read_clock b of
             (now, b1) \<Rightarrow>
               (if \<not> now < ce_expiry e then
                  (cap_log ''capability: expired''
                     [(''scope'', LStr (ce_scope e)), (''token_prefix'', LStr (token_prefix token))]
                     (drop_if_expired token b1),
                   Some [Sentinel ErrTokenExpired])
                else if ce_scope e \<noteq> scope then
                  (cap_log ''capability: scope_mismatch''
                     [(''expected_scope'', LStr scope), (''token_prefix'', LStr (token_prefix token))] b1,
                   Some [Sentinel ErrScopeMismatch])
                else
                  (cap_log ''capability: validated''
                     [(''scope'', LStr scope), (''token_prefix'', LStr (token_prefix token))] b1,
                   None))))"

definition cap_validate_for_org ::
    "goerr option \<Rightarrow> string \<Rightarrow> string \<Rightarrow> string \<Rightarrow> broker \<Rightarrow> broker \<times> goerr option" where
  "cap_validate_for_org ctx_error token scope org b =
     (if ctx_error \<noteq> None then (b, ctx_error)
      else if org = [] then (b, Some [Sentinel ErrInvalidOrganization])
      else if br_closed b then (b, Some [Sentinel ErrClosed])
      else case br_tokens b token of
        None \<Rightarrow> (b, Some [Sentinel ErrInvalidToken])
      | Some e \<Rightarrow>
          (case read_clock b of
             (now, b1) \<Rightarrow>
               (if \<not> now < ce_expiry e then
                  (cap_log ''capability: expired''
                     [(''scope'', LStr (ce_scope e)), (''organization_id'', LStr (ce_organization_id e)),
                      (''token_prefix'', LStr (token_prefix token))]
                     (drop_if_expired token b1),
                   Some [Sentinel ErrTokenExpired])
                else if ce_scope e \<noteq> scope then
                  (cap_log ''capability: scope_mismatch''
                     [(''expected_scope'', LStr scope),
                      (''organization_id'', LStr (ce_organization_id e)),
                      (''token_prefix'', LStr (token_prefix token))] b1,
                   Some [Sentinel ErrScopeMismatch])
                else if ce_organization_id e \<noteq> org then
                  (cap_log ''capability: organization_mismatch''
                     [(''scope'', LStr scope), (''expected_organization_id'', LStr org),
                      (''token_prefix'', LStr (token_prefix token))] b1,
                   Some [Sentinel ErrOrganizationMismatch])
                else
                  (cap_log ''capability: validated''
                     [(''scope'', LStr scope), (''organization_id'', LStr org),
                      (''token_prefix'', LStr (token_prefix token))] b1,
                   None))))"

definition cap_revoke :: "string \<Rightarrow> broker \<Rightarrow> broker \<times> goerr option" where
  "cap_revoke token b =
     (if br_closed b then (b, Some [Sentinel ErrClosed])
      else (cap_log ''capability: revoked'' [(''token_prefix'', LStr (token_prefix token))]
              (b\<lparr>br_tokens := (br_tokens b)(token := None)\<rparr>), None))"

text \<open>
  \<open>Close\<close>: \<open>closeOnce\<close> has run exactly when \<open>closed\<close> is set, since its body is the only writer.
\<close>

definition cap_close :: "broker \<Rightarrow> broker \<times> goerr option" where
  "cap_close b =
     (if br_closed b then (b, None)
      else (cap_log ''capability: closed'' [] (b\<lparr>br_closed := True, br_tokens := Map.empty\<rparr>), None))"

text \<open>
  One sweep of the reaper: \<open>order\<close> is the order in which \<open>range\<close> visits the map, which Go leaves
  open; it lists every key once.
\<close>

fun prune_loop :: "int \<Rightarrow> string list \<Rightarrow> broker \<Rightarrow> broker" where
  "prune_loop now [] b = b"
| "prune_loop now (tok # order) b =
     (case br_tokens b tok of
        None \<Rightarrow> prune_loop now order b
      | Some e \<Rightarrow>
          prune_loop now order
            (if \<not> now < ce_expiry e
             then cap_log ''capability: reaper_pruned''
                    [(''scope'', LStr (ce_scope e)), (''token_prefix'', LStr (token_prefix tok))]
                    (b\<lparr>br_tokens := (br_tokens b)(tok := None)\<rparr>)
             else b))"

definition prune_expired :: "string list \<Rightarrow> broker \<Rightarrow> broker" where
  "prune_expired order b = (case read_clock b of (now, b1) \<Rightarrow> prune_loop now order b1)"

section \<open>Histories\<close>

datatype cap_op =
    OpIssue string int
  | OpIssueForOrg string string int
  | OpValidate "goerr option" string string
  | OpValidateForOrg "goerr option" string string string
  | OpRevoke string
  | OpClose
  | OpPrune "string list"

fun cap_step :: "broker \<Rightarrow> cap_op \<Rightarrow> broker" where
  "cap_step b (OpIssue scope ttl) = fst (cap_issue scope ttl b)"
| "cap_step b (OpIssueForOrg scope org ttl) = fst (cap_issue_for_org scope org ttl b)"
| "cap_step b (OpValidate ce token scope) = fst (cap_validate ce token scope b)"
| "cap_step b (OpValidateForOrg ce token scope org) = fst (cap_validate_for_org ce token scope org b)"
| "cap_step b (OpRevoke token) = fst (cap_revoke token b)"
| "cap_step b OpClose = fst (cap_close b)"
| "cap_step b (OpPrune order) = prune_expired order b"

definition cap_run :: "broker \<Rightarrow> cap_op list \<Rightarrow> broker" where
  "cap_run b ops = foldl cap_step b ops"

lemma cap_log_simps [simp]:
  "br_tokens (cap_log m kv b) = br_tokens b" "br_closed (cap_log m kv b) = br_closed b"
  "br_rand (cap_log m kv b) = br_rand b" "br_draws (cap_log m kv b) = br_draws b"
  "br_clock (cap_log m kv b) = br_clock b" "br_ticks (cap_log m kv b) = br_ticks b"
  "br_logger (cap_log m kv b) = br_logger b"
  "br_log (cap_log m kv b) = br_log b @ (if br_logger b then [\<lparr>ll_msg = m, ll_kv = kv\<rparr>] else [])"
  by (simp_all add: cap_log_def)

text \<open>What a step may do to the token map: add one fresh token, or lose tokens.\<close>

definition shrinks :: "broker \<Rightarrow> broker \<Rightarrow> bool" where
  "shrinks b b' \<longleftrightarrow>
     br_tokens b' \<subseteq>\<^sub>m br_tokens b \<and> br_rand b' = br_rand b \<and> br_draws b \<le> br_draws b'
     \<and> (br_closed b \<longrightarrow> br_closed b')"

lemma shrinks_refl [simp]: "shrinks b b"
  by (simp add: shrinks_def)

lemma shrinks_trans: "shrinks a b \<Longrightarrow> shrinks b c \<Longrightarrow> shrinks a c"
  by (auto simp: shrinks_def intro: map_le_trans)

lemma map_le_drop [simp]: "m(x := None) \<subseteq>\<^sub>m m"
  by (simp add: map_le_def)

lemma shrinks_drop_if_expired: "shrinks b (drop_if_expired token b)"
  by (auto simp: drop_if_expired_def read_clock_def shrinks_def split: option.split)

lemma shrinks_prune_loop: "shrinks b (prune_loop now order b)"
proof (induction now order b rule: prune_loop.induct)
  case (2 now tok order b)
  show ?case
  proof (cases "br_tokens b tok")
    case (Some e)
    let ?b = "if \<not> now < ce_expiry e
      then cap_log ''capability: reaper_pruned''
        [(''scope'', LStr (ce_scope e)), (''token_prefix'', LStr (token_prefix tok))]
        (b\<lparr>br_tokens := (br_tokens b)(tok := None)\<rparr>) else b"
    have "shrinks b ?b" by (simp add: shrinks_def)
    then show ?thesis using 2(2) [OF Some] Some by (simp only: prune_loop.simps option.case) (rule shrinks_trans)
  qed (use 2(1) in simp)
qed simp

lemma shrinks_cap_validate: "shrinks b (fst (cap_validate ce token scope b))"
  using shrinks_drop_if_expired [of "b\<lparr>br_ticks := Suc (br_ticks b)\<rparr>" token]
  by (auto simp: cap_validate_def read_clock_def shrinks_def split: option.split)

lemma shrinks_cap_validate_for_org: "shrinks b (fst (cap_validate_for_org ce token scope org b))"
  using shrinks_drop_if_expired [of "b\<lparr>br_ticks := Suc (br_ticks b)\<rparr>" token]
  by (auto simp: cap_validate_for_org_def read_clock_def shrinks_def split: option.split)

lemma shrinks_prune_expired: "shrinks b (prune_expired order b)"
  using shrinks_prune_loop [of "b\<lparr>br_ticks := Suc (br_ticks b)\<rparr>"]
  by (simp add: prune_expired_def read_clock_def shrinks_def)

text \<open>A token another draw of the random source would still yield.\<close>

definition future_token :: "broker \<Rightarrow> string \<Rightarrow> bool" where
  "future_token b token \<longleftrightarrow> (\<exists>n buf. br_draws b \<le> n \<and> br_rand b n = Inr buf \<and> b64_encode buf = token)"

definition rand_ok :: "(nat \<Rightarrow> goerr + string) \<Rightarrow> bool" where
  "rand_ok rand \<longleftrightarrow>
     (\<forall>n buf. rand n = Inr buf \<longrightarrow> length buf = 32)
     \<and> (\<forall>m n buf. rand m = Inr buf \<and> rand n = Inr buf \<longrightarrow> m = n)"

lemma shrinks_future: "shrinks b b' \<Longrightarrow> \<not> future_token b t \<Longrightarrow> \<not> future_token b' t"
  unfolding shrinks_def future_token_def by (metis le_trans)

text \<open>A mint adds the token of its draw with the given entry, or nothing.\<close>

lemma mint_cases:
  assumes "mint_begin ttl b = (b1, r)"
  shows "br_tokens b1 = br_tokens b \<and> br_rand b1 = br_rand b \<and> br_closed b1 = br_closed b
    \<and> br_log b1 = br_log b \<and> br_clock b1 = br_clock b \<and> br_logger b1 = br_logger b
    \<and> (case r of
         Inl _ \<Rightarrow> br_draws b \<le> br_draws b1
       | Inr (token, expiry) \<Rightarrow> \<not> br_closed b \<and> br_draws b1 = Suc (br_draws b)
           \<and> (\<exists>buf. br_rand b (br_draws b) = Inr buf \<and> token = b64_encode buf)
           \<and> expiry = br_clock b (br_ticks b) + ttl \<and> br_ticks b1 = Suc (br_ticks b))"
  using assms
  by (auto simp: mint_begin_def read_rand_def read_clock_def new_token_def
      split: if_splits sum.splits)

definition adds_token :: "broker \<Rightarrow> broker \<Rightarrow> bool" where
  "adds_token b b' \<longleftrightarrow>
     \<not> br_closed b \<and> \<not> br_closed b' \<and> br_rand b' = br_rand b \<and> br_draws b' = Suc (br_draws b)
     \<and> (\<exists>buf e. br_rand b (br_draws b) = Inr buf \<and> br_tokens b' = (br_tokens b)(b64_encode buf \<mapsto> e))"

lemma issue_step: "shrinks b (fst (cap_issue scope ttl b)) \<or> adds_token b (fst (cap_issue scope ttl b))"
proof (cases "mint_begin ttl b")
  case (Pair b1 r)
  show ?thesis
    using mint_cases [OF Pair] Pair
    by (cases r) (auto simp: cap_issue_def mint_commit_def shrinks_def adds_token_def)
qed

lemma issue_for_org_step:
  "shrinks b (fst (cap_issue_for_org scope org ttl b)) \<or> adds_token b (fst (cap_issue_for_org scope org ttl b))"
proof (cases "mint_begin ttl b")
  case (Pair b1 r)
  show ?thesis
    using mint_cases [OF Pair] Pair
    by (cases r) (auto simp: cap_issue_for_org_def mint_commit_def shrinks_def adds_token_def)
qed

lemma shrinks_revoke: "shrinks b (fst (cap_revoke token b))"
  by (simp add: cap_revoke_def shrinks_def)

lemma shrinks_close: "shrinks b (fst (cap_close b))"
  by (simp add: cap_close_def shrinks_def)

lemma cap_step_cases: "shrinks b (cap_step b op) \<or> adds_token b (cap_step b op)"
  by (cases op)
     (use issue_step issue_for_org_step in
       \<open>simp_all add: shrinks_cap_validate shrinks_cap_validate_for_org shrinks_prune_expired
          shrinks_revoke shrinks_close\<close>)

text \<open>What is known of a token that no further draw yields stays known.\<close>

definition token_within :: "cap_entry set \<Rightarrow> string \<Rightarrow> broker \<Rightarrow> bool" where
  "token_within E t b \<longleftrightarrow> (\<forall>e. br_tokens b t = Some e \<longrightarrow> e \<in> E) \<and> \<not> future_token b t"

lemma token_within_step: "token_within E t b \<Longrightarrow> token_within E t (cap_step b op)"
  using cap_step_cases [of b op]
proof
  assume t: "token_within E t b" and s: "shrinks b (cap_step b op)"
  have "br_tokens b t = Some e" if "br_tokens (cap_step b op) t = Some e" for e
    using s that by (auto simp: shrinks_def map_le_def dom_def)
  then show ?thesis
    using t shrinks_future [OF s] by (auto simp: token_within_def)
next
  assume t: "token_within E t b" and "adds_token b (cap_step b op)"
  then obtain buf e where a: "br_rand (cap_step b op) = br_rand b"
    "br_draws (cap_step b op) = Suc (br_draws b)" "br_rand b (br_draws b) = Inr buf"
    "br_tokens (cap_step b op) = (br_tokens b)(b64_encode buf \<mapsto> e)"
    by (auto simp: adds_token_def)
  have "t \<noteq> b64_encode buf"
    using t a(3) by (auto simp: token_within_def future_token_def)
  moreover have "\<not> future_token (cap_step b op) t"
    using t a(1,2) unfolding token_within_def future_token_def by (metis Suc_leD)
  ultimately show ?thesis
    using t a(4) by (simp add: token_within_def)
qed

lemma token_within_run: "token_within E t b \<Longrightarrow> token_within E t (cap_run b ops)"
  by (induction ops arbitrary: b) (simp_all add: cap_run_def token_within_step)

lemma fresh_draw_not_future:
  assumes "rand_ok (br_rand b)" "br_rand b (br_draws b) = Inr buf"
    and "br_rand b1 = br_rand b" "br_draws b1 = Suc (br_draws b)"
  shows "\<not> future_token b1 (b64_encode buf)"
proof
  assume "future_token b1 (b64_encode buf)"
  then obtain n buf' where n: "Suc (br_draws b) \<le> n" "br_rand b n = Inr buf'" "b64_encode buf' = b64_encode buf"
    using assms(3,4) by (auto simp: future_token_def)
  then have "buf' = buf"
    using assms(1,2) b64_encode_inj [of buf' buf] by (auto simp: rand_ok_def)
  then show False
    using assms(1,2) n(1,2) unfolding rand_ok_def by fastforce
qed

text \<open>The outcome of a successful mint.\<close>

lemma issue_for_org_ok:
  assumes "cap_issue_for_org scope org ttl b = (b1, Inr token)"
  obtains buf where "scope \<noteq> []" "org \<noteq> []" "0 < ttl" "\<not> br_closed b1"
    "br_rand b (br_draws b) = Inr buf" "token = b64_encode buf"
    "br_rand b1 = br_rand b" "br_draws b1 = Suc (br_draws b)" "br_clock b1 = br_clock b"
    "br_ticks b1 = Suc (br_ticks b)"
    "br_tokens b1 = (br_tokens b)(token \<mapsto>
       \<lparr>ce_scope = scope, ce_organization_id = org, ce_expiry = br_clock b (br_ticks b) + ttl\<rparr>)"
proof -
  obtain b0 r where mint: "mint_begin ttl b = (b0, r)" by fastforce
  from mint_cases [OF mint] assms mint that show thesis
    by (cases r) (auto simp: cap_issue_for_org_def mint_commit_def split: if_splits)
qed

lemma issue_for_org_within:
  assumes "rand_ok (br_rand b)" "cap_issue_for_org scope org ttl b = (b1, Inr token)"
  shows "token_within {\<lparr>ce_scope = scope, ce_organization_id = org,
    ce_expiry = br_clock b (br_ticks b) + ttl\<rparr>} token b1"
  using assms(2)
proof (rule issue_for_org_ok)
  fix buf
  assume "br_rand b (br_draws b) = Inr buf" "token = b64_encode buf" "br_rand b1 = br_rand b"
    "br_draws b1 = Suc (br_draws b)"
    "br_tokens b1 = (br_tokens b)(token \<mapsto>
       \<lparr>ce_scope = scope, ce_organization_id = org, ce_expiry = br_clock b (br_ticks b) + ttl\<rparr>)"
  with fresh_draw_not_future [OF assms(1)] show ?thesis
    by (simp add: token_within_def)
qed

lemma validate_within:
  assumes "token_within E token b" "snd (cap_validate ce token scope b) = None"
  shows "\<exists>e \<in> E. ce_scope e = scope"
  using assms
  by (auto simp: cap_validate_def token_within_def read_clock_def split: if_splits option.splits)

lemma validate_for_org_within:
  assumes "token_within E token b" "snd (cap_validate_for_org ce token scope org b) = None"
  shows "\<exists>e \<in> E. ce_scope e = scope \<and> ce_organization_id e = org"
  using assms
  by (auto simp: cap_validate_for_org_def token_within_def read_clock_def split: if_splits option.splits)

section \<open>Interleavings with Close\<close>

text \<open>
  \<open>sy_minting\<close> holds the calls of the minting methods that are between their first check and their
  critical section, \<open>sy_phase\<close> how far \<open>Close\<close> is: not called, \<open>closed\<close> stored, map cleared and
  returned.
\<close>

datatype close_phase = Serving | Marked | Cleared

record cap_system =
  sy_broker :: broker
  sy_minting :: "(string \<times> cap_entry) list"
  sy_phase :: close_phase

inductive broker_step :: "cap_system \<Rightarrow> cap_system \<Rightarrow> bool" where
  step_begin:
    "mint_begin ttl (sy_broker s) = (b1, Inr (token, expiry)) \<Longrightarrow>
     broker_step s (s\<lparr>sy_broker := b1,
       sy_minting := (token, \<lparr>ce_scope = scope, ce_organization_id = org, ce_expiry = expiry\<rparr>) # sy_minting s\<rparr>)"
| step_refused:
    "mint_begin ttl (sy_broker s) = (b1, Inl err) \<Longrightarrow> broker_step s (s\<lparr>sy_broker := b1\<rparr>)"
| step_commit:
    "sy_minting s = xs @ (token, e) # ys \<Longrightarrow> mint_commit token e (sy_broker s) = (b1, r) \<Longrightarrow>
     broker_step s (s\<lparr>sy_broker := b1, sy_minting := xs @ ys\<rparr>)"
| step_delete:
    "broker_step s (s\<lparr>sy_broker := (sy_broker s)\<lparr>br_tokens := (br_tokens (sy_broker s))(token := None)\<rparr>\<rparr>)"
| step_prune: "broker_step s (s\<lparr>sy_broker := prune_expired order (sy_broker s)\<rparr>)"
| step_expire: "broker_step s (s\<lparr>sy_broker := drop_if_expired token (sy_broker s)\<rparr>)"
| step_close_mark:
    "sy_phase s = Serving \<Longrightarrow>
     broker_step s (s\<lparr>sy_broker := (sy_broker s)\<lparr>br_closed := True\<rparr>, sy_phase := Marked\<rparr>)"
| step_close_clear:
    "sy_phase s = Marked \<Longrightarrow>
     broker_step s (s\<lparr>sy_broker := (sy_broker s)\<lparr>br_tokens := Map.empty\<rparr>, sy_phase := Cleared\<rparr>)"

inductive broker_reach :: "cap_system \<Rightarrow> cap_system \<Rightarrow> bool" for s0 where
  reach_start: "broker_reach s0 s0"
| reach_step: "broker_reach s0 s \<Longrightarrow> broker_step s s' \<Longrightarrow> broker_reach s0 s'"

definition new_system :: "(nat \<Rightarrow> int) \<Rightarrow> (nat \<Rightarrow> goerr + string) \<Rightarrow> bool \<Rightarrow> cap_system" where
  "new_system clock rand logger =
     \<lparr>sy_broker = new_broker clock rand logger, sy_minting = [], sy_phase = Serving\<rparr>"

definition system_inv :: "cap_system \<Rightarrow> bool" where
  "system_inv s \<longleftrightarrow>
     br_closed (sy_broker s) = (sy_phase s \<noteq> Serving)
     \<and> (sy_phase s = Cleared \<longrightarrow> br_tokens (sy_broker s) = Map.empty)"

lemma prune_loop_closed [simp]: "br_closed (prune_loop now order b) = br_closed b"
  by (induction now order b rule: prune_loop.induct) (simp_all split: option.split)

lemma drop_if_expired_closed [simp]: "br_closed (drop_if_expired token b) = br_closed b"
  by (simp add: drop_if_expired_def read_clock_def split: option.split)

lemma prune_expired_closed [simp]: "br_closed (prune_expired order b) = br_closed b"
  by (simp add: prune_expired_def read_clock_def)

lemma shrinks_empty:
  assumes "shrinks b b'" "br_tokens b = Map.empty"
  shows "br_tokens b' = Map.empty"
proof
  fix x
  show "br_tokens b' x = None"
    using assms by (cases "br_tokens b' x") (auto simp: shrinks_def map_le_def dom_def)
qed

lemma system_inv_step: "broker_step s s' \<Longrightarrow> system_inv s \<Longrightarrow> system_inv s'"
proof (induction rule: broker_step.induct)
  case (step_begin ttl s b1 token expiry scope org)
  from mint_cases [OF this(1)] this(2) show ?case by (simp add: system_inv_def)
next
  case (step_refused ttl s b1 err)
  from mint_cases [OF this(1)] this(2) show ?case by (simp add: system_inv_def)
next
  case (step_commit s xs token e ys b1 r)
  then show ?case by (auto simp: system_inv_def mint_commit_def split: if_splits)
next
  case (step_prune s order)
  then show ?case
    using shrinks_empty [OF shrinks_prune_expired] by (simp add: system_inv_def)
next
  case (step_expire s token)
  then show ?case
    using shrinks_empty [OF shrinks_drop_if_expired] by (simp add: system_inv_def)
qed (auto simp: system_inv_def)

section \<open>Redaction\<close>

text \<open>
  What may be logged: a time, a token prefix of at most eight bytes, or one of the strings \<open>S\<close>
  callers passed as scope or organization.
\<close>

fun kv_safe :: "string set \<Rightarrow> string \<times> log_val \<Rightarrow> bool" where
  "kv_safe S (k, LTime _) \<longleftrightarrow> True"
| "kv_safe S (k, LStr v) \<longleftrightarrow> (if k = ''token_prefix'' then length v \<le> 8 else v \<in> S)"

definition log_safe :: "string set \<Rightarrow> broker \<Rightarrow> bool" where
  "log_safe S b \<longleftrightarrow>
     (\<forall>line \<in> set (br_log b). \<forall>kv \<in> set (ll_kv line). kv_safe S kv)
     \<and> (\<forall>t e. br_tokens b t = Some e \<longrightarrow> ce_scope e \<in> S \<and> ce_organization_id e \<in> S)"

fun op_strings :: "cap_op \<Rightarrow> string set" where
  "op_strings (OpIssue scope ttl) = {scope, []}"
| "op_strings (OpIssueForOrg scope org ttl) = {scope, org}"
| "op_strings (OpValidate ce token scope) = {scope}"
| "op_strings (OpValidateForOrg ce token scope org) = {scope, org}"
| "op_strings _ = {}"

lemma length_token_prefix: "length (token_prefix t) \<le> 8"
  by (simp add: token_prefix_def)

lemma log_safe_cap_log:
  "log_safe S b \<Longrightarrow> \<forall>kv \<in> set kvs. kv_safe S kv \<Longrightarrow> log_safe S (cap_log m kvs b)"
  by (auto simp: log_safe_def)

lemma log_safe_tokens:
  "log_safe S b \<Longrightarrow> br_log b' = br_log b \<Longrightarrow> br_tokens b' \<subseteq>\<^sub>m br_tokens b \<Longrightarrow> log_safe S b'"
  unfolding log_safe_def map_le_def dom_def by (metis (mono_tags, lifting) mem_Collect_eq option.distinct(1))

lemma log_safe_drop: "log_safe S b \<Longrightarrow> log_safe S (drop_if_expired token b)"
  by (auto simp: drop_if_expired_def read_clock_def elim!: log_safe_tokens split: option.split)

lemma log_safe_tick: "log_safe S b \<Longrightarrow> log_safe S (b\<lparr>br_ticks := n\<rparr>)"
  by (simp add: log_safe_def)

lemma log_safe_mint:
  assumes "log_safe S b" "mint_begin ttl b = (b1, r)" "ce_scope e \<in> S" "ce_organization_id e \<in> S"
  shows "log_safe S b1" "log_safe S (b1\<lparr>br_tokens := (br_tokens b1)(t \<mapsto> e)\<rparr>)"
  using mint_cases [OF assms(2)] assms(1,3,4) by (auto simp: log_safe_def)

lemma log_safe_entry:
  "log_safe S b \<Longrightarrow> br_tokens b t = Some e \<Longrightarrow> ce_scope e \<in> S \<and> ce_organization_id e \<in> S"
  by (auto simp: log_safe_def)

lemma log_safe_issue:
  assumes "log_safe S b" "{scope, []} \<subseteq> S"
  shows "log_safe S (fst (cap_issue scope ttl b))"
proof (cases "mint_begin ttl b")
  case (Pair b1 r)
  show ?thesis
    using log_safe_mint [OF assms(1) Pair, of "\<lparr>ce_scope = scope, ce_organization_id = [], ce_expiry = x\<rparr>" for x]
      assms Pair length_token_prefix
    by (cases r) (auto simp: cap_issue_def mint_commit_def intro!: log_safe_cap_log)
qed

lemma log_safe_issue_for_org:
  assumes "log_safe S b" "{scope, org} \<subseteq> S"
  shows "log_safe S (fst (cap_issue_for_org scope org ttl b))"
proof (cases "mint_begin ttl b")
  case (Pair b1 r)
  show ?thesis
    using log_safe_mint [OF assms(1) Pair, of "\<lparr>ce_scope = scope, ce_organization_id = org, ce_expiry = x\<rparr>" for x]
      assms Pair length_token_prefix
    by (cases r) (auto simp: cap_issue_for_org_def mint_commit_def intro!: log_safe_cap_log)
qed

lemma log_safe_validate:
  assumes "log_safe S b" "scope \<in> S"
  shows "log_safe S (fst (cap_validate ce token scope b))"
  using assms log_safe_entry [OF assms(1)] length_token_prefix
  by (auto simp: cap_validate_def read_clock_def
      intro!: log_safe_cap_log log_safe_drop log_safe_tick split: option.split)

lemma log_safe_validate_for_org:
  assumes "log_safe S b" "{scope, org} \<subseteq> S"
  shows "log_safe S (fst (cap_validate_for_org ce token scope org b))"
  using assms log_safe_entry [OF assms(1)] length_token_prefix
  by (auto simp: cap_validate_for_org_def read_clock_def
      intro!: log_safe_cap_log log_safe_drop log_safe_tick split: option.split)

lemma log_safe_prune_loop: "log_safe S b \<Longrightarrow> log_safe S (prune_loop now order b)"
proof (induction now order b rule: prune_loop.induct)
  case (2 now tok order b)
  show ?case
  proof (cases "br_tokens b tok")
    case (Some e)
    have "log_safe S (b\<lparr>br_tokens := (br_tokens b)(tok := None)\<rparr>)"
      using 2(3) by (rule log_safe_tokens) simp_all
    then have "log_safe S (cap_log ''capability: reaper_pruned''
        [(''scope'', LStr (ce_scope e)), (''token_prefix'', LStr (token_prefix tok))]
        (b\<lparr>br_tokens := (br_tokens b)(tok := None)\<rparr>))"
      using log_safe_entry [OF 2(3) Some] length_token_prefix by (intro log_safe_cap_log) auto
    then show ?thesis
      using 2(2) [OF Some] 2(3) Some by auto
  qed (use 2(1,3) in simp)
qed simp

lemma log_safe_step: "log_safe S b \<Longrightarrow> op_strings op \<subseteq> S \<Longrightarrow> log_safe S (cap_step b op)"
proof (cases op)
  case (OpRevoke token)
  assume "log_safe S b"
  then have "log_safe S (b\<lparr>br_tokens := (br_tokens b)(token := None)\<rparr>)"
    by (rule log_safe_tokens) simp_all
  then show ?thesis
    using OpRevoke \<open>log_safe S b\<close> length_token_prefix
    by (auto simp: cap_revoke_def intro!: log_safe_cap_log)
next
  case OpClose
  assume "log_safe S b"
  then show ?thesis
    using OpClose by (auto simp: cap_close_def log_safe_def)
next
  case (OpPrune order)
  assume "log_safe S b"
  then show ?thesis
    using OpPrune by (simp add: prune_expired_def read_clock_def log_safe_prune_loop log_safe_tick)
qed (simp_all add: log_safe_issue log_safe_issue_for_org log_safe_validate log_safe_validate_for_org)

lemma log_safe_run:
  "log_safe S b \<Longrightarrow> (\<Union>op \<in> set ops. op_strings op) \<subseteq> S \<Longrightarrow> log_safe S (cap_run b ops)"
  by (induction ops arbitrary: b) (simp_all add: cap_run_def log_safe_step)

section \<open>Properties\<close>

text \<open>
  C35: tenant isolation. A token minted for an organization never validates for another
  organization or for another scope, over any later history of the broker: other mints, validations,
  revocations, sweeps and \<open>Close\<close>. The random source is assumed not to repeat a draw.
\<close>

theorem tenant_isolation:
  assumes "rand_ok (br_rand b)" "cap_issue_for_org scope org ttl b = (b1, Inr token)"
  shows "(org' \<noteq> org \<longrightarrow> snd (cap_validate_for_org ce token scope' org' (cap_run b1 ops)) \<noteq> None)
    \<and> (scope' \<noteq> scope \<longrightarrow> snd (cap_validate_for_org ce token scope' org' (cap_run b1 ops)) \<noteq> None
        \<and> snd (cap_validate ce token scope' (cap_run b1 ops)) \<noteq> None)"
proof -
  note within = token_within_run [OF issue_for_org_within [OF assms], of ops]
  show ?thesis
    using validate_for_org_within [OF within, of ce scope' org'] validate_within [OF within, of ce scope']
    by auto
qed

text \<open>
  A revoked token is dead. After a successful mint, any history, a \<open>Revoke\<close> and any further
  history, no validation of the token succeeds.
\<close>

theorem revoked_never_validates:
  assumes "rand_ok (br_rand b)" "cap_issue_for_org scope org ttl b = (b1, Inr token)"
    and "cap_revoke token (cap_run b1 ops) = (b2, None)"
  shows "snd (cap_validate ce token s (cap_run b2 ops')) \<noteq> None
    \<and> snd (cap_validate_for_org ce token s g (cap_run b2 ops')) \<noteq> None"
proof -
  have "token_within {} token b2"
    using token_within_run [OF issue_for_org_within [OF assms(1,2)], of ops] assms(3)
    by (auto simp: token_within_def cap_revoke_def future_token_def split: if_splits)
  note within = token_within_run [OF this, of ops']
  show ?thesis
    using validate_within [OF within, of ce s] validate_for_org_within [OF within, of ce s g] by auto
qed

text \<open>
  What \<open>ValidateForOrg\<close> decides, on every branch. The context's error comes first, then the
  empty organization, the closed broker, the unknown token, the expiry with its inclusive boundary,
  the scope and the organization; only an entry found expired on both clock readings is deleted,
  and nothing else in the map changes.
\<close>

theorem validate_for_org_decision:
  "cap_validate_for_org ce token scope org b = (b', r) \<Longrightarrow>
     r = (if ce \<noteq> None then ce
          else if org = [] then Some [Sentinel ErrInvalidOrganization]
          else if br_closed b then Some [Sentinel ErrClosed]
          else case br_tokens b token of
            None \<Rightarrow> Some [Sentinel ErrInvalidToken]
          | Some e \<Rightarrow>
              if ce_expiry e \<le> br_clock b (br_ticks b) then Some [Sentinel ErrTokenExpired]
              else if ce_scope e \<noteq> scope then Some [Sentinel ErrScopeMismatch]
              else if ce_organization_id e \<noteq> org then Some [Sentinel ErrOrganizationMismatch]
              else None)
     \<and> br_tokens b' =
        (if r = Some [Sentinel ErrTokenExpired] \<and> ce = None
            \<and> (\<exists>e. br_tokens b token = Some e \<and> ce_expiry e \<le> br_clock b (Suc (br_ticks b)))
         then (br_tokens b)(token := None) else br_tokens b)"
proof -
  assume run: "cap_validate_for_org ce token scope org b = (b', r)"
  show ?thesis
  proof (cases "ce = None \<and> org \<noteq> [] \<and> \<not> br_closed b")
    case False
    then show ?thesis
      using run by (auto simp: cap_validate_for_org_def)
  next
    case True
    show ?thesis
    proof (cases "br_tokens b token")
      case None
      then show ?thesis using run True by (auto simp: cap_validate_for_org_def)
    next
      case (Some e)
      then show ?thesis
        using run True
        by (auto simp: cap_validate_for_org_def read_clock_def drop_if_expired_def not_less
            simp del: not_None_eq split: if_split_asm)
    qed
  qed
qed

text \<open>
  Mint, then validate. \<open>IssueForOrg\<close> yields a token of 43 bytes, which validates for its scope
  and organization exactly while the clock is below the minting time plus the ttl.
\<close>

theorem issue_validate_roundtrip:
  assumes "rand_ok (br_rand b)" "cap_issue_for_org scope org ttl b = (b1, Inr token)"
  shows "length token = 43
    \<and> (snd (cap_validate_for_org None token scope org b1) = None
       \<longleftrightarrow> br_clock b (Suc (br_ticks b)) < br_clock b (br_ticks b) + ttl)"
  using assms(2)
proof (rule issue_for_org_ok)
  fix buf
  assume "br_rand b (br_draws b) = Inr buf" "token = b64_encode buf" "org \<noteq> []"
    "\<not> br_closed b1" "br_clock b1 = br_clock b" "br_ticks b1 = Suc (br_ticks b)"
    "br_tokens b1 = (br_tokens b)(token \<mapsto>
       \<lparr>ce_scope = scope, ce_organization_id = org, ce_expiry = br_clock b (br_ticks b) + ttl\<rparr>)"
  moreover have "length buf = 32"
    using assms(1) calculation(1) by (simp add: rand_ok_def)
  ultimately show ?thesis
    by (simp add: length_b64_encode cap_validate_for_org_def read_clock_def)
qed

text \<open>
  C12: no token survives \<open>Close\<close>. In every interleaving of minting calls, deletions, sweeps and
  \<open>Close\<close>, once \<open>Close\<close> has returned the map is empty, also when a mint that passed its first
  check before the close commits after it.
\<close>

theorem no_token_survives_close:
  assumes "broker_reach (new_system clock rand logger) s" "sy_phase s = Cleared"
  shows "br_tokens (sy_broker s) = Map.empty \<and> br_closed (sy_broker s)"
proof -
  from assms(1) have "system_inv s"
  proof induction
    case reach_start
    show ?case by (simp add: system_inv_def new_system_def new_broker_def)
  qed (rule system_inv_step)
  then show ?thesis using assms(2) by (simp add: system_inv_def)
qed

text \<open>
  No token is logged beyond its first eight bytes. Over any history of a fresh broker every
  logged string is a token prefix of at most eight bytes under the key \<open>token_prefix\<close>, or a scope or
  organization some caller passed (empty for the organization of a token of \<open>Issue\<close>).
\<close>

theorem log_redaction:
  assumes "line \<in> set (br_log (cap_run (new_broker clock rand logger) ops))"
    and "(k, LStr v) \<in> set (ll_kv line)"
  shows "if k = ''token_prefix'' then length v \<le> 8 else v \<in> (\<Union>op \<in> set ops. op_strings op)"
proof -
  have "log_safe (\<Union>op \<in> set ops. op_strings op) (cap_run (new_broker clock rand logger) ops)"
    by (rule log_safe_run) (auto simp: log_safe_def new_broker_def)
  then have "kv_safe (\<Union>op \<in> set ops. op_strings op) (k, LStr v)"
    using assms unfolding log_safe_def by blast
  then show ?thesis by simp
qed

section \<open>Witnesses\<close>

text \<open>A source that spells its draw number, a clock that advances by one; one minted token.\<close>

definition demo_rand :: "nat \<Rightarrow> goerr + string" where
  "demo_rand n = (if n < 2 then Inr (replicate 31 (CHR ''x'') @ [if n = 0 then CHR ''a'' else CHR ''b''])
     else Inl [Text ''entropy''])"

definition demo_broker :: broker where
  "demo_broker = new_broker int demo_rand True"

lemma demo_rand_ok: "rand_ok (br_rand demo_broker)"
  by (auto simp: rand_ok_def demo_broker_def new_broker_def demo_rand_def split: if_splits)

lemma demo_issue:
  obtains b1 token where "cap_issue_for_org ''tool:share'' ''org-a'' 10 demo_broker = (b1, Inr token)"
    "\<not> br_closed b1"
  by (simp add: cap_issue_for_org_def demo_broker_def new_broker_def mint_begin_def read_rand_def
      demo_rand_def new_token_def read_clock_def mint_commit_def)

theorem tenant_isolation_witness:
  "\<exists>b1 token. cap_issue_for_org ''tool:share'' ''org-a'' 10 demo_broker = (b1, Inr token)
    \<and> snd (cap_validate_for_org None token ''tool:share'' ''org-b'' (cap_run b1 [OpRevoke ''t'', OpClose])) \<noteq> None"
proof -
  obtain b1 token where i: "cap_issue_for_org ''tool:share'' ''org-a'' 10 demo_broker = (b1, Inr token)"
    by (rule demo_issue)
  from tenant_isolation [OF demo_rand_ok this, of "''org-b''" None "''tool:share''" "[OpRevoke ''t'', OpClose]"] i
  show ?thesis by auto
qed

theorem revoked_never_validates_witness:
  "\<exists>token b2. snd (cap_validate None token ''tool:share'' (cap_run b2 [OpIssue ''x'' 5])) \<noteq> None"
proof -
  obtain b1 token where i: "cap_issue_for_org ''tool:share'' ''org-a'' 10 demo_broker = (b1, Inr token)"
    and c: "\<not> br_closed b1" by (rule demo_issue)
  obtain b2 where "cap_revoke token (cap_run b1 []) = (b2, None)"
    using c by (simp add: cap_revoke_def cap_run_def)
  from revoked_never_validates [OF demo_rand_ok i this] show ?thesis by blast
qed

definition demo_held :: broker where
  "demo_held = demo_broker\<lparr>br_tokens := [''tok'' \<mapsto> \<lparr>ce_scope = ''s'', ce_organization_id = ''g'', ce_expiry = 1\<rparr>]\<rparr>"

theorem validate_for_org_decision_witness:
  "\<exists>b'. cap_validate_for_org None ''tok'' ''s'' ''g'' demo_held = (b', None)
    \<and> br_tokens b' = br_tokens demo_held"
proof -
  obtain b' r where run: "cap_validate_for_org None ''tok'' ''s'' ''g'' demo_held = (b', r)"
    by fastforce
  from validate_for_org_decision [OF run] run show ?thesis
    by (simp add: demo_held_def demo_broker_def new_broker_def)
qed

theorem issue_validate_roundtrip_witness:
  "\<exists>b1 token. cap_issue_for_org ''tool:share'' ''org-a'' 10 demo_broker = (b1, Inr token)
    \<and> length token = 43 \<and> snd (cap_validate_for_org None token ''tool:share'' ''org-a'' b1) = None"
proof -
  obtain b1 token where i: "cap_issue_for_org ''tool:share'' ''org-a'' 10 demo_broker = (b1, Inr token)"
    by (rule demo_issue)
  from issue_validate_roundtrip [OF demo_rand_ok this] i show ?thesis
    by (auto simp: demo_broker_def new_broker_def)
qed

text \<open>A mint that begins before \<open>Close\<close> and commits after it.\<close>

theorem no_token_survives_close_witness:
  "\<exists>s. broker_reach (new_system int demo_rand True) s \<and> sy_phase s = Cleared
     \<and> br_tokens (sy_broker s) = Map.empty"
proof -
  let ?s0 = "new_system int demo_rand True"
  obtain b1 token expiry where b: "mint_begin 10 (sy_broker ?s0) = (b1, Inr (token, expiry))"
    by (simp add: new_system_def new_broker_def mint_begin_def read_rand_def demo_rand_def new_token_def
        read_clock_def)
  let ?e = "\<lparr>ce_scope = ''s'', ce_organization_id = ''g'', ce_expiry = expiry\<rparr>"
  let ?s1 = "?s0\<lparr>sy_broker := b1, sy_minting := (token, ?e) # sy_minting ?s0\<rparr>"
  let ?s2 = "?s1\<lparr>sy_broker := (sy_broker ?s1)\<lparr>br_closed := True\<rparr>, sy_phase := Marked\<rparr>"
  let ?s3 = "?s2\<lparr>sy_broker := (sy_broker ?s2)\<lparr>br_tokens := Map.empty\<rparr>, sy_phase := Cleared\<rparr>"
  have "broker_reach ?s0 ?s1"
    by (rule reach_step [OF reach_start step_begin [OF b]])
  then have "broker_reach ?s0 ?s2"
    by (rule reach_step) (rule step_close_mark, simp add: new_system_def)
  then have 3: "broker_reach ?s0 ?s3"
    by (rule reach_step) (rule step_close_clear, simp)
  obtain b4 r where 4: "mint_commit token ?e (sy_broker ?s3) = (b4, r)" by fastforce
  let ?s4 = "?s3\<lparr>sy_broker := b4, sy_minting := [] @ []\<rparr>"
  have "broker_reach ?s0 ?s4"
    by (rule reach_step [OF 3 step_commit [OF _ 4]]) (simp add: new_system_def)
  moreover have "sy_phase ?s4 = Cleared" by simp
  ultimately show ?thesis
    using no_token_survives_close [of int demo_rand True ?s4] by blast
qed

theorem log_redaction_witness:
  "\<exists>line \<in> set (br_log (cap_run demo_broker [OpIssue ''s'' 5])). \<exists>v. (''token_prefix'', LStr v) \<in> set (ll_kv line)
     \<and> length v \<le> 8"
proof -
  obtain line v where "line \<in> set (br_log (cap_run (new_broker int demo_rand True) [OpIssue ''s'' 5]))"
    "(''token_prefix'', LStr v) \<in> set (ll_kv line)"
    by (simp add: cap_run_def cap_issue_def new_broker_def mint_begin_def read_rand_def demo_rand_def
        new_token_def read_clock_def mint_commit_def cap_log_def)
  with log_redaction [OF this] show ?thesis by (auto simp: demo_broker_def)
qed

end
