(* ===== verification/EventBus.thy ===== *)
theory EventBus
  imports Prelude
begin

text \<open>
  The in-process event bus (\<^verbatim>\<open>core/pkg/eventbus/bus.go\<close>) as a transition system. A state holds the
  topics with their bounded channels, the subscriber lists, the worker of each topic, the \<open>Publish\<close>
  calls in flight and how far \<open>Close\<close> is; \<open>bus_step\<close> performs one critical section, channel
  operation or handler call of one goroutine, and answers \<open>None\<close> where that goroutine blocks. A send
  on a closed channel, or a second close of one, sets \<open>bs_panic\<close>.
\<close>

section \<open>State\<close>

text \<open>
  \<open>bs_publish_wg\<close> and \<open>bs_wg\<close> are the two wait groups. An envelope is the \<open>Publish\<close> call it came from and its event; handlers are known by the id
  \<open>Subscribe\<close> gave them. \<open>tp_lock\<close> is \<open>ts.mu\<close> held by a \<open>Subscribe\<close> that has not appended yet.
  \<open>tp_accepted\<close>, \<open>tp_rounds\<close> and \<open>tp_calls\<close> are histories: the envelopes the channel took, every
  dispatch begun with its snapshot of subscriber ids, and the handler calls made.
\<close>

datatype 'e worker =
    WIdle
  | WTaken "nat \<times> 'e"
  | WDispatch "nat \<times> 'e" "nat list"
  | WExited

record 'e topic_state =
  tp_queue :: "(nat \<times> 'e) list"
  tp_ch_closed :: bool
  tp_lock :: bool
  tp_subs :: "nat list"
  tp_worker :: "'e worker"
  tp_accepted :: "(nat \<times> 'e) list"
  tp_rounds :: "((nat \<times> 'e) \<times> nat list) list"
  tp_calls :: "(nat \<times> (nat \<times> 'e)) list"

datatype 'e publish_pc =
    PubEntered string 'e
  | PubSending string 'e
  | PubBlocked string 'e

datatype close_pc =
    CloseNot
  | CloseSnapped "string list"
  | CloseWoken "string list"
  | CloseClosing "string list"
  | CloseWaiting
  | CloseReturned

datatype publish_result = PubOk | PubErrClosed | PubErrCtx goerr

record 'e bus =
  bs_buffer :: nat
  bs_closed :: bool
  bs_done :: bool
  bs_topics :: "string \<rightharpoonup> 'e topic_state"
  bs_pubs :: "nat \<rightharpoonup> 'e publish_pc"
  bs_next_sub :: nat
  bs_close :: close_pc
  bs_publish_wg :: nat
  bs_wg :: nat
  bs_results :: "nat \<rightharpoonup> publish_result"
  bs_panic :: bool

definition new_topic :: "'e topic_state" where
  "new_topic = \<lparr>tp_queue = [], tp_ch_closed = False, tp_lock = False, tp_subs = [], tp_worker = WIdle,
     tp_accepted = [], tp_rounds = [], tp_calls = []\<rparr>"

definition new_bus :: "nat \<Rightarrow> 'e bus" where
  "new_bus buffer = \<lparr>bs_buffer = buffer, bs_closed = False, bs_done = False, bs_topics = Map.empty,
     bs_pubs = Map.empty, bs_next_sub = 0, bs_close = CloseNot, bs_publish_wg = 0,
     bs_wg = 0, bs_results = Map.empty,
     bs_panic = False\<rparr>"

definition set_topic :: "string \<Rightarrow> 'e topic_state \<Rightarrow> 'e bus \<Rightarrow> 'e bus" where
  "set_topic t ts b = b\<lparr>bs_topics := (bs_topics b)(t \<mapsto> ts)\<rparr>"

definition pub_return :: "nat \<Rightarrow> publish_result \<Rightarrow> 'e bus \<Rightarrow> 'e bus" where
  "pub_return p r b =
     b\<lparr>bs_pubs := (bs_pubs b)(p := None), bs_publish_wg := bs_publish_wg b - 1,
       bs_results := (bs_results b)(p \<mapsto> r)\<rparr>"

text \<open>A new topic and its worker.\<close>

definition install_topic :: "string \<Rightarrow> 'e topic_state \<Rightarrow> 'e bus \<Rightarrow> 'e bus" where
  "install_topic t ts b = (set_topic t ts b)\<lparr>bs_wg := Suc (bs_wg b)\<rparr>"

section \<open>Operations\<close>

text \<open>\<open>getOrCreateTopic\<close>, under \<open>b.mu\<close>: the bus with the topic in it, or \<open>None\<close> once closed.\<close>

definition get_or_create_topic :: "string \<Rightarrow> 'e bus \<Rightarrow> 'e bus option" where
  "get_or_create_topic t b =
     (case bs_topics b t of
        Some _ \<Rightarrow> Some b
      | None \<Rightarrow> (if bs_closed b then None else Some (install_topic t new_topic b)))"

text \<open>
  \<open>Subscribe\<close>: under \<open>b.mu\<close> the closed check, the topic and \<open>ts.mu\<close>; then the id and the append under
  \<open>ts.mu\<close> alone.
\<close>

definition subscribe_begin :: "string \<Rightarrow> 'e bus \<Rightarrow> 'e bus option" where
  "subscribe_begin t b =
     (if t = [] \<or> bs_closed b then Some b
      else case bs_topics b t of
        None \<Rightarrow> Some (install_topic t (new_topic\<lparr>tp_lock := True\<rparr>) b)
      | Some ts \<Rightarrow> (if tp_lock ts then None else Some (set_topic t (ts\<lparr>tp_lock := True\<rparr>) b)))"

definition subscribe_commit :: "string \<Rightarrow> 'e bus \<Rightarrow> 'e bus option" where
  "subscribe_commit t b =
     (case bs_topics b t of
        None \<Rightarrow> None
      | Some ts \<Rightarrow>
          (if \<not> tp_lock ts then None
           else Some (set_topic t (ts\<lparr>tp_lock := False, tp_subs := tp_subs ts @ [Suc (bs_next_sub b)]\<rparr>)
                        (b\<lparr>bs_next_sub := Suc (bs_next_sub b)\<rparr>))))"

definition unsubscribe :: "string \<Rightarrow> nat \<Rightarrow> 'e bus \<Rightarrow> 'e bus option" where
  "unsubscribe t i b =
     (case bs_topics b t of
        None \<Rightarrow> None
      | Some ts \<Rightarrow>
          (if tp_lock ts then None
           else Some (set_topic t (ts\<lparr>tp_subs := filter (\<lambda>j. j \<noteq> i) (tp_subs ts)\<rparr>) b)))"

text \<open>
  \<open>Publish\<close>: the checks and the registration under \<open>b.mu\<close>, the topic, the non-blocking send, and
  the three arms of the blocking select.
\<close>

definition publish_enter :: "nat \<Rightarrow> string \<Rightarrow> 'e \<Rightarrow> 'e bus \<Rightarrow> 'e bus option" where
  "publish_enter p t e b =
     (if t = [] \<or> bs_pubs b p \<noteq> None \<or> bs_results b p \<noteq> None then None
      else if bs_closed b then Some (b\<lparr>bs_results := (bs_results b)(p \<mapsto> PubErrClosed)\<rparr>)
      else Some (b\<lparr>bs_pubs := (bs_pubs b)(p \<mapsto> PubEntered t e),
                   bs_publish_wg := Suc (bs_publish_wg b)\<rparr>))"

definition publish_topic :: "nat \<Rightarrow> 'e bus \<Rightarrow> 'e bus option" where
  "publish_topic p b =
     (case bs_pubs b p of
        Some (PubEntered t e) \<Rightarrow>
          (case get_or_create_topic t b of
             None \<Rightarrow> Some (pub_return p PubErrClosed b)
           | Some b' \<Rightarrow> Some (b'\<lparr>bs_pubs := (bs_pubs b')(p \<mapsto> PubSending t e)\<rparr>))
      | _ \<Rightarrow> None)"

definition channel_send :: "nat \<Rightarrow> string \<Rightarrow> 'e \<Rightarrow> 'e topic_state \<Rightarrow> 'e bus \<Rightarrow> 'e bus" where
  "channel_send p t e ts b =
     (if tp_ch_closed ts then b\<lparr>bs_panic := True\<rparr>
      else pub_return p PubOk
             (set_topic t (ts\<lparr>tp_queue := tp_queue ts @ [(p, e)],
                              tp_accepted := tp_accepted ts @ [(p, e)]\<rparr>) b))"

definition channel_ready :: "'e topic_state \<Rightarrow> 'e bus \<Rightarrow> bool" where
  "channel_ready ts b \<longleftrightarrow> tp_ch_closed ts \<or> length (tp_queue ts) < bs_buffer b"

definition publish_try :: "nat \<Rightarrow> 'e bus \<Rightarrow> 'e bus option" where
  "publish_try p b =
     (case bs_pubs b p of
        Some (PubSending t e) \<Rightarrow>
          (case bs_topics b t of
             None \<Rightarrow> None
           | Some ts \<Rightarrow>
               (if channel_ready ts b then Some (channel_send p t e ts b)
                else Some (b\<lparr>bs_pubs := (bs_pubs b)(p \<mapsto> PubBlocked t e)\<rparr>)))
      | _ \<Rightarrow> None)"

definition publish_send :: "nat \<Rightarrow> 'e bus \<Rightarrow> 'e bus option" where
  "publish_send p b =
     (case bs_pubs b p of
        Some (PubBlocked t e) \<Rightarrow>
          (case bs_topics b t of
             None \<Rightarrow> None
           | Some ts \<Rightarrow> (if channel_ready ts b then Some (channel_send p t e ts b) else None))
      | _ \<Rightarrow> None)"

definition publish_cancel :: "nat \<Rightarrow> goerr \<Rightarrow> 'e bus \<Rightarrow> 'e bus option" where
  "publish_cancel p ctx_error b =
     (case bs_pubs b p of
        Some (PubBlocked t e) \<Rightarrow> Some (pub_return p (PubErrCtx (errorf ''eventbus: publish'' ctx_error)) b)
      | _ \<Rightarrow> None)"

definition publish_wake :: "nat \<Rightarrow> 'e bus \<Rightarrow> 'e bus option" where
  "publish_wake p b =
     (case bs_pubs b p of
        Some (PubBlocked t e) \<Rightarrow> (if bs_done b then Some (pub_return p PubErrClosed b) else None)
      | _ \<Rightarrow> None)"

text \<open>\<open>runTopic\<close>: receive, snapshot the subscribers, call the handlers in order, exit.\<close>

definition worker_receive :: "string \<Rightarrow> 'e bus \<Rightarrow> 'e bus option" where
  "worker_receive t b =
     (case bs_topics b t of
        None \<Rightarrow> None
      | Some ts \<Rightarrow>
          (case (tp_worker ts, tp_queue ts) of
             (WIdle, env # q) \<Rightarrow> Some (set_topic t (ts\<lparr>tp_worker := WTaken env, tp_queue := q\<rparr>) b)
           | (WIdle, []) \<Rightarrow>
               (if tp_ch_closed ts then Some ((set_topic t (ts\<lparr>tp_worker := WExited\<rparr>) b)\<lparr>bs_wg := bs_wg b - 1\<rparr>) else None)
           | _ \<Rightarrow> None))"

definition worker_snapshot :: "string \<Rightarrow> 'e bus \<Rightarrow> 'e bus option" where
  "worker_snapshot t b =
     (case bs_topics b t of
        None \<Rightarrow> None
      | Some ts \<Rightarrow>
          (case tp_worker ts of
             WTaken env \<Rightarrow>
               (if tp_lock ts then None
                else Some (set_topic t (ts\<lparr>tp_worker := WDispatch env (tp_subs ts),
                                           tp_rounds := tp_rounds ts @ [(env, tp_subs ts)]\<rparr>) b))
           | _ \<Rightarrow> None))"

definition worker_call :: "string \<Rightarrow> 'e bus \<Rightarrow> 'e bus option" where
  "worker_call t b =
     (case bs_topics b t of
        None \<Rightarrow> None
      | Some ts \<Rightarrow>
          (case tp_worker ts of
             WDispatch env (i # rest) \<Rightarrow>
               Some (set_topic t (ts\<lparr>tp_worker := WDispatch env rest, tp_calls := tp_calls ts @ [(i, env)]\<rparr>) b)
           | WDispatch env [] \<Rightarrow> Some (set_topic t (ts\<lparr>tp_worker := WIdle\<rparr>) b)
           | _ \<Rightarrow> None))"

text \<open>
  \<open>Close\<close>, step by step; \<open>channels\<close> is the order in which \<open>range b.topics\<close> visits the map.
\<close>

definition close_snapshot :: "string list \<Rightarrow> 'e bus \<Rightarrow> 'e bus option" where
  "close_snapshot channels b =
     (if bs_close b = CloseNot \<and> distinct channels \<and> set channels = dom (bs_topics b)
      then Some (b\<lparr>bs_closed := True, bs_close := CloseSnapped channels\<rparr>) else None)"

definition close_wake :: "'e bus \<Rightarrow> 'e bus option" where
  "close_wake b =
     (case bs_close b of
        CloseSnapped cs \<Rightarrow> Some (b\<lparr>bs_done := True, bs_close := CloseWoken cs\<rparr>)
      | _ \<Rightarrow> None)"

definition close_wait_publishes :: "'e bus \<Rightarrow> 'e bus option" where
  "close_wait_publishes b =
     (case bs_close b of
        CloseWoken cs \<Rightarrow>
          (if bs_publish_wg b = 0 then Some (b\<lparr>bs_close := CloseClosing cs\<rparr>) else None)
      | _ \<Rightarrow> None)"

definition close_channel :: "'e bus \<Rightarrow> 'e bus option" where
  "close_channel b =
     (case bs_close b of
        CloseClosing (c # cs) \<Rightarrow>
          (case bs_topics b c of
             None \<Rightarrow> None
           | Some ts \<Rightarrow>
               (if tp_ch_closed ts then Some (b\<lparr>bs_panic := True\<rparr>)
                else Some ((set_topic c (ts\<lparr>tp_ch_closed := True\<rparr>) b)\<lparr>bs_close := CloseClosing cs\<rparr>)))
      | CloseClosing [] \<Rightarrow> Some (b\<lparr>bs_close := CloseWaiting\<rparr>)
      | _ \<Rightarrow> None)"

definition close_wait_workers :: "'e bus \<Rightarrow> 'e bus option" where
  "close_wait_workers b =
     (if bs_close b = CloseWaiting \<and> bs_wg b = 0
      then Some (b\<lparr>bs_close := CloseReturned\<rparr>) else None)"

datatype 'e bus_action =
    ASubscribeBegin string | ASubscribeCommit string | AUnsubscribe string nat
  | APublishEnter nat string 'e | APublishTopic nat | APublishTry nat | APublishSend nat
  | APublishCancel nat goerr | APublishWake nat
  | AWorkerReceive string | AWorkerSnapshot string | AWorkerCall string
  | ACloseSnapshot "string list" | ACloseWake | ACloseWaitPublishes | ACloseChannel | ACloseWaitWorkers

fun bus_step :: "'e bus_action \<Rightarrow> 'e bus \<Rightarrow> 'e bus option" where
  "bus_step (ASubscribeBegin t) b = subscribe_begin t b"
| "bus_step (ASubscribeCommit t) b = subscribe_commit t b"
| "bus_step (AUnsubscribe t i) b = unsubscribe t i b"
| "bus_step (APublishEnter p t e) b = publish_enter p t e b"
| "bus_step (APublishTopic p) b = publish_topic p b"
| "bus_step (APublishTry p) b = publish_try p b"
| "bus_step (APublishSend p) b = publish_send p b"
| "bus_step (APublishCancel p ce) b = publish_cancel p ce b"
| "bus_step (APublishWake p) b = publish_wake p b"
| "bus_step (AWorkerReceive t) b = worker_receive t b"
| "bus_step (AWorkerSnapshot t) b = worker_snapshot t b"
| "bus_step (AWorkerCall t) b = worker_call t b"
| "bus_step (ACloseSnapshot cs) b = close_snapshot cs b"
| "bus_step ACloseWake b = close_wake b"
| "bus_step ACloseWaitPublishes b = close_wait_publishes b"
| "bus_step ACloseChannel b = close_channel b"
| "bus_step ACloseWaitWorkers b = close_wait_workers b"

fun bus_run :: "'e bus_action list \<Rightarrow> 'e bus \<Rightarrow> 'e bus option" where
  "bus_run [] b = Some b"
| "bus_run (a # as) b = (case bus_step a b of None \<Rightarrow> None | Some b' \<Rightarrow> bus_run as b')"

section \<open>Invariant\<close>

definition calls_of :: "((nat \<times> 'e) \<times> nat list) list \<Rightarrow> (nat \<times> (nat \<times> 'e)) list" where
  "calls_of rs = concat (map (\<lambda>(env, ids). map (\<lambda>i. (i, env)) ids) rs)"

text \<open>
  The channel is a FIFO between the accepted and the dispatched envelopes; every dispatch calls its
  whole snapshot in order, the current one a prefix of it.
\<close>

definition worker_ok :: "'e topic_state \<Rightarrow> bool" where
  "worker_ok ts \<longleftrightarrow>
     (case tp_worker ts of
        WTaken env \<Rightarrow> tp_accepted ts = map fst (tp_rounds ts) @ env # tp_queue ts
          \<and> tp_calls ts = calls_of (tp_rounds ts)
      | WDispatch env rest \<Rightarrow> tp_accepted ts = map fst (tp_rounds ts) @ tp_queue ts
          \<and> (\<exists>rs called. tp_rounds ts = rs @ [(env, called @ rest)]
               \<and> tp_calls ts = calls_of rs @ map (\<lambda>i. (i, env)) called)
      | WIdle \<Rightarrow> tp_accepted ts = map fst (tp_rounds ts) @ tp_queue ts
          \<and> tp_calls ts = calls_of (tp_rounds ts)
      | WExited \<Rightarrow> tp_accepted ts = map fst (tp_rounds ts) \<and> tp_queue ts = []
          \<and> tp_calls ts = calls_of (tp_rounds ts) \<and> tp_ch_closed ts)"

definition topic_ok :: "nat \<Rightarrow> nat \<Rightarrow> 'e topic_state \<Rightarrow> bool" where
  "topic_ok buffer next_sub ts \<longleftrightarrow>
     worker_ok ts \<and> length (tp_queue ts) \<le> buffer
     \<and> sorted_wrt (<) (tp_subs ts) \<and> (\<forall>i \<in> set (tp_subs ts). i \<le> next_sub)
     \<and> (\<forall>(env, ids) \<in> set (tp_rounds ts). sorted_wrt (<) ids)"

definition live_workers :: "'e bus \<Rightarrow> string set" where
  "live_workers b = {t. \<exists>ts. bs_topics b t = Some ts \<and> tp_worker ts \<noteq> WExited}"

fun publish_waits :: "string set \<Rightarrow> 'e publish_pc \<Rightarrow> bool" where
  "publish_waits T (PubEntered t e) \<longleftrightarrow> True"
| "publish_waits T (PubSending t e) \<longleftrightarrow> t \<in> T"
| "publish_waits T (PubBlocked t e) \<longleftrightarrow> t \<in> T"

definition close_ok :: "'e bus \<Rightarrow> bool" where
  "close_ok b \<longleftrightarrow>
     bs_closed b = (bs_close b \<noteq> CloseNot)
     \<and> (case bs_close b of
          CloseNot \<Rightarrow> \<forall>t ts. bs_topics b t = Some ts \<longrightarrow> \<not> tp_ch_closed ts
        | CloseSnapped cs \<Rightarrow> distinct cs \<and> set cs = dom (bs_topics b)
            \<and> (\<forall>t ts. bs_topics b t = Some ts \<longrightarrow> \<not> tp_ch_closed ts)
        | CloseWoken cs \<Rightarrow> distinct cs \<and> set cs = dom (bs_topics b)
            \<and> (\<forall>t ts. bs_topics b t = Some ts \<longrightarrow> \<not> tp_ch_closed ts)
        | CloseClosing cs \<Rightarrow> distinct cs \<and> set cs \<subseteq> dom (bs_topics b) \<and> bs_publish_wg b = 0
            \<and> (\<forall>t ts. bs_topics b t = Some ts \<longrightarrow> tp_ch_closed ts = (t \<notin> set cs))
        | CloseWaiting \<Rightarrow> bs_publish_wg b = 0 \<and> (\<forall>t ts. bs_topics b t = Some ts \<longrightarrow> tp_ch_closed ts)
        | CloseReturned \<Rightarrow> bs_publish_wg b = 0 \<and> bs_wg b = 0
            \<and> (\<forall>t ts. bs_topics b t = Some ts \<longrightarrow> tp_ch_closed ts))"

definition bus_inv :: "'e bus \<Rightarrow> bool" where
  "bus_inv b \<longleftrightarrow>
     \<not> bs_panic b \<and> close_ok b
     \<and> (\<forall>t ts. bs_topics b t = Some ts \<longrightarrow> topic_ok (bs_buffer b) (bs_next_sub b) ts)
     \<and> (\<forall>p pc. bs_pubs b p = Some pc \<longrightarrow> publish_waits (dom (bs_topics b)) pc)
     \<and> finite (dom (bs_pubs b)) \<and> bs_publish_wg b = card (dom (bs_pubs b))
     \<and> finite (live_workers b) \<and> bs_wg b = card (live_workers b)"

lemma bus_inv_new: "bus_inv (new_bus buffer)"
  by (simp add: bus_inv_def new_bus_def close_ok_def live_workers_def)

lemma calls_of_simps [simp]:
  "calls_of [] = []" "calls_of (rs @ [(env, ids)]) = calls_of rs @ map (\<lambda>i. (i, env)) ids"
  by (simp_all add: calls_of_def)

lemma topic_ok_new [simp]: "topic_ok buffer n (new_topic\<lparr>tp_lock := l\<rparr>)" "topic_ok buffer n new_topic"
  by (simp_all add: topic_ok_def worker_ok_def new_topic_def)

lemma set_topic_simps [simp]:
  "bs_topics (set_topic t ts b) = (bs_topics b)(t \<mapsto> ts)" "bs_panic (set_topic t ts b) = bs_panic b"
  "bs_pubs (set_topic t ts b) = bs_pubs b" "bs_close (set_topic t ts b) = bs_close b"
  "bs_closed (set_topic t ts b) = bs_closed b" "bs_buffer (set_topic t ts b) = bs_buffer b"
  "bs_next_sub (set_topic t ts b) = bs_next_sub b" "bs_results (set_topic t ts b) = bs_results b"
  "bs_publish_wg (set_topic t ts b) = bs_publish_wg b" "bs_wg (set_topic t ts b) = bs_wg b"
  by (simp_all add: set_topic_def)

lemma publish_waits_insert: "publish_waits T pc \<Longrightarrow> publish_waits (insert t T) pc"
  by (cases pc) auto

lemma live_set_topic:
  "bs_topics b t = Some ts \<Longrightarrow> (tp_worker ts' = WExited \<longleftrightarrow> tp_worker ts = WExited) \<Longrightarrow>
     live_workers (set_topic t ts' b) = live_workers b"
  by (auto simp: live_workers_def)

lemma close_ok_frame [simp]:
  "close_ok (b\<lparr>bs_pubs := x\<rparr>) = close_ok b" "close_ok (b\<lparr>bs_results := y\<rparr>) = close_ok b"
  "close_ok (b\<lparr>bs_next_sub := n\<rparr>) = close_ok b"
  by (simp_all add: close_ok_def split: close_pc.split)

lemma live_workers_frame [simp]:
  "live_workers (b\<lparr>bs_pubs := x\<rparr>) = live_workers b" "live_workers (b\<lparr>bs_results := y\<rparr>) = live_workers b"
  "live_workers (b\<lparr>bs_next_sub := n\<rparr>) = live_workers b"
  "live_workers (b\<lparr>bs_publish_wg := n\<rparr>) = live_workers b"
  "live_workers (b\<lparr>bs_close := c\<rparr>) = live_workers b" "live_workers (b\<lparr>bs_closed := d\<rparr>) = live_workers b"
  "live_workers (b\<lparr>bs_done := d\<rparr>) = live_workers b" "live_workers (b\<lparr>bs_wg := n\<rparr>) = live_workers b"
  by (simp_all add: live_workers_def)

text \<open>Replacing a topic's state by one with the same channel end and worker life.\<close>

lemma bus_inv_set_topic:
  assumes "bus_inv b" "bs_topics b t = Some ts" "tp_ch_closed ts' = tp_ch_closed ts"
    and "tp_worker ts' = WExited \<longleftrightarrow> tp_worker ts = WExited"
    and "topic_ok (bs_buffer b) (bs_next_sub b) ts'"
  shows "bus_inv (set_topic t ts' b)"
proof -
  have "dom ((bs_topics b)(t \<mapsto> ts')) = dom (bs_topics b)"
    using assms(2) by auto
  moreover have "close_ok (set_topic t ts' b)"
    using assms(1-3) calculation unfolding bus_inv_def close_ok_def
    by (cases "bs_close b") auto
  ultimately show ?thesis
    using assms live_set_topic [OF assms(2,4)] unfolding bus_inv_def by (simp add: assms(2))
qed

lemma bus_inv_install_topic:
  assumes "bus_inv b" "bs_topics b t = None" "\<not> bs_closed b"
  shows "bus_inv (install_topic t (new_topic\<lparr>tp_lock := l\<rparr>) b)" "bus_inv (install_topic t new_topic b)"
proof -
  have close: "bs_close b = CloseNot"
    using assms(1,3) by (auto simp: bus_inv_def close_ok_def)
  have live: "live_workers (install_topic t ts b) = insert t (live_workers b)" if "tp_worker ts = WIdle" for ts
    using that by (auto simp: live_workers_def install_topic_def)
  have fresh: "t \<notin> live_workers b"
    using assms(2) by (simp add: live_workers_def)
  have "bus_inv (install_topic t ts b)"
    if "tp_worker ts = WIdle" "\<not> tp_ch_closed ts" "topic_ok (bs_buffer b) (bs_next_sub b) ts" for ts
    using assms close fresh live [OF that(1)] that
    by (auto simp: bus_inv_def close_ok_def install_topic_def intro: publish_waits_insert)
  then show "bus_inv (install_topic t (new_topic\<lparr>tp_lock := l\<rparr>) b)" "bus_inv (install_topic t new_topic b)"
    by (simp_all add: new_topic_def [THEN arg_cong, of tp_worker] new_topic_def [THEN arg_cong, of tp_ch_closed])
qed

lemma bus_inv_topic: "bus_inv b \<Longrightarrow> bs_topics b t = Some ts \<Longrightarrow> topic_ok (bs_buffer b) (bs_next_sub b) ts"
  by (simp add: bus_inv_def)

text \<open>A topic whose queue, worker and histories stay, with another lock.\<close>

lemma worker_ok_frame [simp]:
  "worker_ok (ts\<lparr>tp_lock := l\<rparr>) = worker_ok ts" "worker_ok (ts\<lparr>tp_subs := xs\<rparr>) = worker_ok ts"
  by (simp_all add: worker_ok_def split: worker.split)

lemma topic_ok_lock [simp]: "topic_ok n m (ts\<lparr>tp_lock := l\<rparr>) = topic_ok n m ts"
  by (simp add: topic_ok_def)

lemma topic_ok_subs:
  "topic_ok n m ts \<Longrightarrow> sorted_wrt (<) xs \<Longrightarrow> \<forall>i \<in> set xs. i \<le> m' \<Longrightarrow> topic_ok n m' (ts\<lparr>tp_lock := l, tp_subs := xs\<rparr>)"
  by (simp add: topic_ok_def)

lemma topic_ok_more_subs: "topic_ok n m ts \<Longrightarrow> topic_ok n (Suc m) ts"
  by (auto simp: topic_ok_def)

lemma inv_subscribe_begin: "subscribe_begin t b = Some b' \<Longrightarrow> bus_inv b \<Longrightarrow> bus_inv b'"
  using bus_inv_topic [of b t]
  by (auto simp: subscribe_begin_def bus_inv_install_topic
      intro!: bus_inv_set_topic split: if_splits option.splits)

lemma inv_subscribe_commit:
  assumes "subscribe_commit t b = Some b'" "bus_inv b"
  shows "bus_inv b'"
proof -
  from assms(1) obtain ts where ts: "bs_topics b t = Some ts"
    "b' = set_topic t (ts\<lparr>tp_lock := False, tp_subs := tp_subs ts @ [Suc (bs_next_sub b)]\<rparr>)
       (b\<lparr>bs_next_sub := Suc (bs_next_sub b)\<rparr>)"
    by (auto simp: subscribe_commit_def split: option.splits if_splits)
  let ?b = "b\<lparr>bs_next_sub := Suc (bs_next_sub b)\<rparr>"
  have "bus_inv ?b"
    using assms(2) by (simp add: bus_inv_def topic_ok_more_subs)
  moreover have "topic_ok (bs_buffer b) (bs_next_sub b) ts"
    using assms(2) ts(1) by (rule bus_inv_topic)
  then have "topic_ok (bs_buffer ?b) (bs_next_sub ?b)
      (ts\<lparr>tp_lock := False, tp_subs := tp_subs ts @ [Suc (bs_next_sub b)]\<rparr>)"
    by (intro topic_ok_subs) (auto simp: topic_ok_def sorted_wrt_append)
  ultimately have "bus_inv (set_topic t (ts\<lparr>tp_lock := False, tp_subs := tp_subs ts @ [Suc (bs_next_sub b)]\<rparr>) ?b)"
    using ts(1) by (intro bus_inv_set_topic) auto
  then show ?thesis
    using ts(2) by simp
qed

lemma inv_unsubscribe:
  assumes "unsubscribe t i b = Some b'" "bus_inv b"
  shows "bus_inv b'"
proof -
  from assms(1) obtain ts where ts: "bs_topics b t = Some ts"
    "b' = set_topic t (ts\<lparr>tp_subs := filter (\<lambda>j. j \<noteq> i) (tp_subs ts)\<rparr>) b"
    by (auto simp: unsubscribe_def split: option.splits if_splits)
  have "topic_ok (bs_buffer b) (bs_next_sub b) (ts\<lparr>tp_subs := filter (\<lambda>j. j \<noteq> i) (tp_subs ts)\<rparr>)"
    using bus_inv_topic [OF assms(2) ts(1)] by (simp add: topic_ok_def sorted_wrt_filter)
  with ts assms(2) show ?thesis by (auto intro!: bus_inv_set_topic)
qed

text \<open>The \<open>Publish\<close> calls in flight.\<close>

lemma bus_inv_pub_return:
  assumes "bus_inv b" "bs_pubs b p = Some pc"
  shows "bus_inv (pub_return p r b)"
proof -
  have p: "p \<in> dom (bs_pubs b)" using assms(2) by auto
  have "bs_publish_wg b \<noteq> 0"
    using assms p by (auto simp: bus_inv_def)
  moreover have "close_ok b" using assms(1) by (simp add: bus_inv_def)
  ultimately have "close_ok (pub_return p r b)"
    by (cases "bs_close b") (simp_all add: close_ok_def pub_return_def)
  then show ?thesis
    using assms(1) p by (simp add: bus_inv_def pub_return_def live_workers_def)
qed

lemma bus_inv_pub_move:
  assumes "bus_inv b" "bs_pubs b p = Some pc" "publish_waits (dom (bs_topics b)) pc'"
  shows "bus_inv (b\<lparr>bs_pubs := (bs_pubs b)(p \<mapsto> pc')\<rparr>)"
proof -
  have "p \<in> dom (bs_pubs b)" using assms(2) by auto
  then have "dom ((bs_pubs b)(p \<mapsto> pc')) = dom (bs_pubs b)" by auto
  then show ?thesis
    using assms by (simp add: bus_inv_def)
qed

lemma no_publish_after_closing:
  assumes "bus_inv b" "bs_pubs b p = Some pc" "bs_topics b t = Some ts"
  shows "\<not> tp_ch_closed ts"
proof -
  have "p \<in> dom (bs_pubs b)" using assms(2) by auto
  then have "bs_publish_wg b \<noteq> 0"
    using assms(1) by (auto simp: bus_inv_def)
  then show ?thesis
    using assms(1,3) by (auto simp: bus_inv_def close_ok_def split: close_pc.splits)
qed

lemma inv_publish_enter:
  assumes "publish_enter p t e b = Some b'" "bus_inv b"
  shows "bus_inv b'"
proof (cases "bs_closed b")
  case True
  then show ?thesis
    using assms by (auto simp: publish_enter_def bus_inv_def split: if_splits)
next
  case False
  then have p: "p \<notin> dom (bs_pubs b)" and close: "bs_close b = CloseNot"
    and b': "b' = b\<lparr>bs_pubs := (bs_pubs b)(p \<mapsto> PubEntered t e), bs_publish_wg := Suc (bs_publish_wg b)\<rparr>"
    using assms by (auto simp: publish_enter_def bus_inv_def close_ok_def split: if_splits)
  have "close_ok b'"
    using assms(2) close by (simp add: b' bus_inv_def close_ok_def)
  then show ?thesis
    using assms(2) p by (simp add: b' bus_inv_def)
qed

lemma inv_publish_topic:
  assumes "publish_topic p b = Some b'" "bus_inv b"
  shows "bus_inv b'"
proof -
  from assms(1) obtain t e where pc: "bs_pubs b p = Some (PubEntered t e)"
    by (auto simp: publish_topic_def split: option.splits publish_pc.splits)
  show ?thesis
  proof (cases "get_or_create_topic t b")
    case None
    then show ?thesis
      using assms pc bus_inv_pub_return by (auto simp: publish_topic_def)
  next
    case (Some b0)
    then have "bus_inv b0 \<and> bs_pubs b0 = bs_pubs b \<and> t \<in> dom (bs_topics b0)"
      using assms(2) bus_inv_install_topic(2) [OF assms(2)]
      by (auto simp: get_or_create_topic_def install_topic_def split: option.splits if_splits)
    then show ?thesis
      using assms(1) pc Some bus_inv_pub_move [of b0 p "PubEntered t e" "PubSending t e"]
      by (auto simp: publish_topic_def)
  qed
qed

lemma inv_channel_send:
  assumes "bus_inv b" "bs_pubs b p = Some pc" "bs_topics b t = Some ts" "channel_ready ts b"
  shows "bus_inv (channel_send p t e ts b)"
proof -
  have open_ch: "\<not> tp_ch_closed ts"
    using no_publish_after_closing [OF assms(1-3)] .
  let ?ts = "ts\<lparr>tp_queue := tp_queue ts @ [(p, e)], tp_accepted := tp_accepted ts @ [(p, e)]\<rparr>"
  have "topic_ok (bs_buffer b) (bs_next_sub b) ?ts"
    using bus_inv_topic [OF assms(1,3)] assms(4) open_ch
    by (auto simp: topic_ok_def worker_ok_def channel_ready_def split: worker.splits)
  then have "bus_inv (set_topic t ?ts b)"
    using assms(1,3) by (intro bus_inv_set_topic) auto
  then show ?thesis
    using open_ch assms(2) bus_inv_pub_return [of "set_topic t ?ts b" p pc PubOk] by (simp add: channel_send_def)
qed

lemma inv_publish_try:
  assumes "publish_try p b = Some b'" "bus_inv b"
  shows "bus_inv b'"
proof -
  from assms(1) obtain t e ts where pc: "bs_pubs b p = Some (PubSending t e)" "bs_topics b t = Some ts"
    and b': "b' = (if channel_ready ts b then channel_send p t e ts b
       else b\<lparr>bs_pubs := (bs_pubs b)(p \<mapsto> PubBlocked t e)\<rparr>)"
    by (auto simp: publish_try_def split: option.splits publish_pc.splits if_splits)
  show ?thesis
    using inv_channel_send [OF assms(2) pc] bus_inv_pub_move [OF assms(2) pc(1), of "PubBlocked t e"] pc(2)
    by (auto simp: b')
qed

lemma inv_publish_rest:
  "publish_send p b = Some b' \<Longrightarrow> bus_inv b \<Longrightarrow> bus_inv b'"
  "publish_cancel p ce b = Some b' \<Longrightarrow> bus_inv b \<Longrightarrow> bus_inv b'"
  "publish_wake p b = Some b' \<Longrightarrow> bus_inv b \<Longrightarrow> bus_inv b'"
  by (auto simp: publish_send_def publish_cancel_def publish_wake_def
      intro: inv_channel_send bus_inv_pub_return split: option.splits publish_pc.splits if_splits)

text \<open>The workers.\<close>

lemma inv_worker_receive:
  assumes "worker_receive t b = Some b'" "bus_inv b"
  shows "bus_inv b'"
proof -
  from assms(1) obtain ts where ts: "bs_topics b t = Some ts" "tp_worker ts = WIdle"
    by (auto simp: worker_receive_def split: option.splits worker.splits)
  note ok = bus_inv_topic [OF assms(2) ts(1)]
  show ?thesis
  proof (cases "tp_queue ts")
    case (Cons env q)
    have "topic_ok (bs_buffer b) (bs_next_sub b) (ts\<lparr>tp_worker := WTaken env, tp_queue := q\<rparr>)"
      using ok ts(2) Cons by (simp add: topic_ok_def worker_ok_def)
    then show ?thesis
      using assms ts Cons by (auto simp: worker_receive_def intro!: bus_inv_set_topic)
  next
    case Nil
    let ?ts = "ts\<lparr>tp_worker := WExited\<rparr>"
    have closed: "tp_ch_closed ts" and b': "b' = (set_topic t ?ts b)\<lparr>bs_wg := bs_wg b - 1\<rparr>"
      using assms(1) ts Nil by (auto simp: worker_receive_def split: if_splits)
    have topic: "topic_ok (bs_buffer b) (bs_next_sub b) ?ts"
      using ok ts(2) Nil closed by (simp add: topic_ok_def worker_ok_def)
    have live: "live_workers b' = live_workers b - {t}" "t \<in> live_workers b"
      using ts by (auto simp: live_workers_def b')
    have dom: "insert t (dom (bs_topics b)) = dom (bs_topics b)"
      using ts(1) by auto
    have "bs_wg b \<noteq> 0"
      using assms(2) live(2) by (auto simp: bus_inv_def)
    then have "close_ok b'"
      using assms(2) ts(1) closed dom
      by (cases "bs_close b") (auto simp: bus_inv_def close_ok_def b')
    then show ?thesis
      using assms(2) topic live dom by (simp add: bus_inv_def b')
  qed
qed

lemma inv_worker_snapshot:
  assumes "worker_snapshot t b = Some b'" "bus_inv b"
  shows "bus_inv b'"
proof -
  from assms(1) obtain ts env where ts: "bs_topics b t = Some ts" "tp_worker ts = WTaken env"
    and b': "b' = set_topic t (ts\<lparr>tp_worker := WDispatch env (tp_subs ts),
       tp_rounds := tp_rounds ts @ [(env, tp_subs ts)]\<rparr>) b"
    by (auto simp: worker_snapshot_def split: option.splits worker.splits if_splits)
  have "topic_ok (bs_buffer b) (bs_next_sub b) (ts\<lparr>tp_worker := WDispatch env (tp_subs ts),
       tp_rounds := tp_rounds ts @ [(env, tp_subs ts)]\<rparr>)"
    using bus_inv_topic [OF assms(2) ts(1)] ts(2) by (auto simp: topic_ok_def worker_ok_def)
  then show ?thesis
    using assms(2) ts by (auto simp: b' intro!: bus_inv_set_topic)
qed

lemma inv_worker_call:
  assumes "worker_call t b = Some b'" "bus_inv b"
  shows "bus_inv b'"
proof -
  from assms(1) obtain ts env ids where ts: "bs_topics b t = Some ts" "tp_worker ts = WDispatch env ids"
    by (auto simp: worker_call_def split: option.splits worker.splits)
  note ok = bus_inv_topic [OF assms(2) ts(1)]
  show ?thesis
  proof (cases ids)
    case Nil
    have "topic_ok (bs_buffer b) (bs_next_sub b) (ts\<lparr>tp_worker := WIdle\<rparr>)"
      using ok ts(2) Nil by (auto simp: topic_ok_def worker_ok_def)
    then show ?thesis
      using assms ts Nil by (auto simp: worker_call_def intro!: bus_inv_set_topic)
  next
    case (Cons i rest)
    from ok ts(2) Cons obtain rs called where "tp_rounds ts = rs @ [(env, called @ i # rest)]"
      "tp_calls ts = calls_of rs @ map (\<lambda>i. (i, env)) called"
      by (auto simp: topic_ok_def worker_ok_def)
    then have "\<exists>rs' called'. tp_rounds ts = rs' @ [(env, called' @ rest)]
        \<and> tp_calls ts @ [(i, env)] = calls_of rs' @ map (\<lambda>i. (i, env)) called'"
      by (intro exI [of _ rs] exI [of _ "called @ [i]"]) simp
    then have "topic_ok (bs_buffer b) (bs_next_sub b)
        (ts\<lparr>tp_worker := WDispatch env rest, tp_calls := tp_calls ts @ [(i, env)]\<rparr>)"
      using ok ts(2) Cons by (simp add: topic_ok_def worker_ok_def)
    then show ?thesis
      using assms ts Cons by (auto simp: worker_call_def intro!: bus_inv_set_topic)
  qed
qed

text \<open>\<open>Close\<close>.\<close>

lemma topic_ok_close_channel: "topic_ok n m ts \<Longrightarrow> topic_ok n m (ts\<lparr>tp_ch_closed := True\<rparr>)"
  by (auto simp: topic_ok_def worker_ok_def split: worker.splits)

lemma inv_close:
  "close_snapshot cs b = Some b' \<Longrightarrow> bus_inv b \<Longrightarrow> bus_inv b'"
  "close_wake b = Some b' \<Longrightarrow> bus_inv b \<Longrightarrow> bus_inv b'"
  "close_wait_publishes b = Some b' \<Longrightarrow> bus_inv b \<Longrightarrow> bus_inv b'"
  "close_wait_workers b = Some b' \<Longrightarrow> bus_inv b \<Longrightarrow> bus_inv b'"
  by (auto simp: close_snapshot_def close_wake_def close_wait_publishes_def close_wait_workers_def
      bus_inv_def close_ok_def split: if_splits close_pc.splits)

lemma inv_close_channel:
  assumes "close_channel b = Some b'" "bus_inv b"
  shows "bus_inv b'"
proof -
  from assms(1) obtain cs where cs: "bs_close b = CloseClosing cs"
    by (auto simp: close_channel_def split: close_pc.splits)
  show ?thesis
  proof (cases cs)
    case Nil
    then show ?thesis
      using assms cs by (auto simp: close_channel_def bus_inv_def close_ok_def)
  next
    case (Cons c rest)
    then obtain ts where ts: "bs_topics b c = Some ts" "\<not> tp_ch_closed ts" "c \<notin> set rest"
      using assms(2) cs by (fastforce simp: bus_inv_def close_ok_def)
    let ?ts = "ts\<lparr>tp_ch_closed := True\<rparr>"
    have b': "b' = (set_topic c ?ts b)\<lparr>bs_close := CloseClosing rest\<rparr>"
      using assms(1) cs Cons ts by (simp add: close_channel_def)
    have dom: "insert c (dom (bs_topics b)) = dom (bs_topics b)"
      using ts(1) by auto
    have "topic_ok (bs_buffer b) (bs_next_sub b) ?ts"
      using bus_inv_topic [OF assms(2) ts(1)] by (rule topic_ok_close_channel)
    moreover have "close_ok b'"
      using assms(2) cs Cons ts dom by (auto simp: bus_inv_def close_ok_def b')
    moreover have "live_workers b' = live_workers b"
      using live_set_topic [OF ts(1), of ?ts] by (simp add: b')
    ultimately show ?thesis
      using assms(2) dom by (simp add: bus_inv_def b')
  qed
qed

lemmas bus_inv_steps =
  inv_subscribe_begin inv_subscribe_commit inv_unsubscribe inv_publish_enter inv_publish_topic
  inv_publish_try inv_publish_rest inv_worker_receive inv_worker_snapshot inv_worker_call inv_close
  inv_close_channel

lemma bus_inv_step: "bus_step a b = Some b' \<Longrightarrow> bus_inv b \<Longrightarrow> bus_inv b'"
  by (cases a) (auto intro: bus_inv_steps)

lemma bus_inv_run: "bus_run as b = Some b' \<Longrightarrow> bus_inv b \<Longrightarrow> bus_inv b'"
  by (induction as arbitrary: b) (auto split: option.splits intro: bus_inv_step)

lemma bus_buffer_step: "bus_step a b = Some b' \<Longrightarrow> bs_buffer b' = bs_buffer b"
  by (cases a)
     (auto simp: subscribe_begin_def subscribe_commit_def unsubscribe_def publish_enter_def
        publish_topic_def get_or_create_topic_def install_topic_def publish_try_def publish_send_def
        publish_cancel_def publish_wake_def channel_send_def pub_return_def worker_receive_def
        worker_snapshot_def worker_call_def close_snapshot_def close_wake_def
        close_wait_publishes_def close_channel_def close_wait_workers_def
        split: option.splits if_splits publish_pc.splits worker.splits list.splits close_pc.splits)

lemma bus_buffer_run: "bus_run as b = Some b' \<Longrightarrow> bs_buffer b' = bs_buffer b"
  by (induction as arbitrary: b) (auto split: option.splits dest: bus_buffer_step)

section \<open>What a publish result says\<close>

text \<open>The publish calls a topic's channel took; they are taken once, and answered \<open>nil\<close>.\<close>

definition takes :: "'e bus \<Rightarrow> string \<Rightarrow> nat list" where
  "takes b t = (case bs_topics b t of None \<Rightarrow> [] | Some ts \<Rightarrow> map fst (tp_accepted ts))"

definition results_ok :: "'e bus \<Rightarrow> bool" where
  "results_ok b \<longleftrightarrow>
     (\<forall>p. bs_results b p = Some PubOk \<longleftrightarrow> (\<exists>t. p \<in> set (takes b t)))
     \<and> (\<forall>p. bs_results b p \<noteq> None \<longrightarrow> bs_pubs b p = None)
     \<and> (\<forall>t. distinct (takes b t)) \<and> (\<forall>t t' p. p \<in> set (takes b t) \<and> p \<in> set (takes b t') \<longrightarrow> t = t')"

lemma results_ok_new: "results_ok (new_bus n)"
  by (simp add: results_ok_def new_bus_def takes_def)

text \<open>Steps that neither answer a publish nor take an envelope, and the two that do.\<close>

lemma results_ok_frame:
  assumes "results_ok b" "takes b' = takes b" "bs_results b' = bs_results b"
    and "\<And>p. bs_results b p \<noteq> None \<Longrightarrow> bs_pubs b' p = None"
  shows "results_ok b'"
  using assms unfolding results_ok_def by simp

lemma results_okD:
  assumes "results_ok b"
  shows "bs_results b p = Some PubOk \<longleftrightarrow> (\<exists>t. p \<in> set (takes b t))"
    and "bs_pubs b p \<noteq> None \<Longrightarrow> bs_results b p = None"
    and "bs_results b p = None \<Longrightarrow> p \<notin> set (takes b t)"
proof -
  show 1: "bs_results b p = Some PubOk \<longleftrightarrow> (\<exists>t. p \<in> set (takes b t))"
    using assms by (simp add: results_ok_def)
  show "bs_pubs b p \<noteq> None \<Longrightarrow> bs_results b p = None"
    using assms by (cases "bs_results b p") (auto simp: results_ok_def)
  show "bs_results b p = None \<Longrightarrow> p \<notin> set (takes b t)"
    using 1 by auto
qed

lemma results_ok_return:
  assumes "results_ok b" "bs_results b p = None" "r \<noteq> PubOk"
    and "takes b' = takes b" "bs_results b' = (bs_results b)(p \<mapsto> r)" "bs_pubs b' = (bs_pubs b)(p := None)"
  shows "results_ok b'"
  using assms(1,3) results_okD(3) [OF assms(1,2)]
  unfolding results_ok_def assms(4-6) by simp

lemma results_ok_send:
  assumes "results_ok b" "bs_pubs b p \<noteq> None" "bs_topics b t = Some ts" "\<not> tp_ch_closed ts"
  shows "results_ok (channel_send p t e ts b)"
proof -
  let ?b = "channel_send p t e ts b"
  note new = results_okD(3) [OF assms(1) results_okD(2) [OF assms(1,2)]]
  have takes: "takes ?b = (takes b)(t := takes b t @ [p])"
    using assms(3,4) by (auto simp: takes_def channel_send_def pub_return_def fun_eq_iff)
  have rest: "bs_results ?b = (bs_results b)(p \<mapsto> PubOk)" "bs_pubs ?b = (bs_pubs b)(p := None)"
    using assms(4) by (simp_all add: channel_send_def pub_return_def)
  show ?thesis
    using assms(1) new unfolding results_ok_def takes rest by auto metis+
qed

lemma takes_set_topic [simp]:
  "bs_topics b t = Some ts \<Longrightarrow> tp_accepted ts' = tp_accepted ts \<Longrightarrow> takes (set_topic t ts' b) = takes b"
  by (auto simp: takes_def fun_eq_iff)

lemma takes_install [simp]:
  "bs_topics b t = None \<Longrightarrow> tp_accepted ts = [] \<Longrightarrow> takes (install_topic t ts b) = takes b"
  by (auto simp: takes_def fun_eq_iff install_topic_def)

lemma takes_more [simp]:
  "takes (b\<lparr>bs_pubs := x\<rparr>) = takes b" "takes (b\<lparr>bs_results := y\<rparr>) = takes b"
  "takes (b\<lparr>bs_publish_wg := n\<rparr>) = takes b" "takes (b\<lparr>bs_wg := n\<rparr>) = takes b"
  "takes (b\<lparr>bs_next_sub := n\<rparr>) = takes b" "takes (b\<lparr>bs_close := c\<rparr>) = takes b"
  "takes (b\<lparr>bs_closed := d\<rparr>) = takes b" "takes (b\<lparr>bs_done := d\<rparr>) = takes b"
  "takes (b\<lparr>bs_panic := d\<rparr>) = takes b" "takes (pub_return p r b) = takes b"
  by (simp_all add: takes_def fun_eq_iff pub_return_def)

lemma install_topic_simps [simp]:
  "bs_results (install_topic t ts b) = bs_results b" "bs_pubs (install_topic t ts b) = bs_pubs b"
  by (simp_all add: install_topic_def)

lemma tp_accepted_new [simp]: "tp_accepted (new_topic\<lparr>tp_lock := l\<rparr>) = []" "tp_accepted new_topic = []"
  by (simp_all add: new_topic_def)

text \<open>The ways a publish step ends.\<close>

lemma results_move:
  assumes "results_ok b" "bs_pubs b p = Some pc" "takes b' = takes b" "bs_results b' = bs_results b"
    and "bs_pubs b' = (bs_pubs b)(p \<mapsto> pc')"
  shows "results_ok b'"
  using assms(1) results_okD(2) [OF assms(1), of p] assms(2)
  unfolding results_ok_def assms(3-5) by auto

lemma results_return:
  assumes "results_ok b" "bs_pubs b p = Some pc" "r \<noteq> PubOk"
  shows "results_ok (pub_return p r b)"
  using assms results_okD(2) [OF assms(1), of p]
  by (intro results_ok_return [OF assms(1), of p r]) (auto simp: pub_return_def)

lemma results_send:
  assumes "results_ok b" "bus_inv b" "bs_pubs b p = Some pc" "bs_topics b t = Some ts"
  shows "results_ok (channel_send p t e ts b)"
  using results_ok_send [OF assms(1) _ assms(4)] no_publish_after_closing [OF assms(2-4)] assms(3) by simp

lemma results_publish_enter:
  assumes "publish_enter p t e b = Some b'" "results_ok b"
  shows "results_ok b'"
proof (cases "bs_closed b")
  case True
  have "bs_results b p = None" "bs_pubs b p = None" "b' = b\<lparr>bs_results := (bs_results b)(p \<mapsto> PubErrClosed)\<rparr>"
    using assms(1) True by (auto simp: publish_enter_def split: if_splits)
  then show ?thesis
    by (intro results_ok_return [OF assms(2), of p PubErrClosed]) (auto simp: fun_eq_iff)
next
  case False
  have p: "bs_results b p = None" and b': "takes b' = takes b" "bs_results b' = bs_results b"
    "bs_pubs b' = (bs_pubs b)(p \<mapsto> PubEntered t e)"
    using assms(1) False by (auto simp: publish_enter_def split: if_splits)
  show ?thesis
    using assms(2) p unfolding results_ok_def b' by auto
qed

lemma results_publish_topic:
  assumes "publish_topic p b = Some b'" "results_ok b"
  shows "results_ok b'"
proof -
  from assms(1) obtain t e where pc: "bs_pubs b p = Some (PubEntered t e)"
    by (auto simp: publish_topic_def split: option.splits publish_pc.splits)
  show ?thesis
  proof (cases "get_or_create_topic t b")
    case None
    then show ?thesis
      using assms pc by (auto simp: publish_topic_def intro: results_return)
  next
    case (Some b0)
    have "takes b0 = takes b" "bs_results b0 = bs_results b" "bs_pubs b0 = bs_pubs b"
      using Some by (auto simp: get_or_create_topic_def split: option.splits if_splits)
    then show ?thesis
      using assms(1) pc Some
      by (intro results_move [OF assms(2) pc, of _ "PubSending t e"]) (auto simp: publish_topic_def)
  qed
qed

lemma results_publish_try:
  assumes "publish_try p b = Some b'" "results_ok b" "bus_inv b"
  shows "results_ok b'"
proof -
  from assms(1) obtain t e ts where pc: "bs_pubs b p = Some (PubSending t e)" "bs_topics b t = Some ts"
    and b': "b' = (if channel_ready ts b then channel_send p t e ts b
       else b\<lparr>bs_pubs := (bs_pubs b)(p \<mapsto> PubBlocked t e)\<rparr>)"
    by (auto simp: publish_try_def split: option.splits publish_pc.splits if_splits)
  show ?thesis
    using results_send [OF assms(2,3) pc] results_move [OF assms(2) pc(1), of _ "PubBlocked t e"]
    by (auto simp: b')
qed

lemma results_publish_rest:
  "publish_send p b = Some b' \<Longrightarrow> results_ok b \<Longrightarrow> bus_inv b \<Longrightarrow> results_ok b'"
  "publish_cancel p ce b = Some b' \<Longrightarrow> results_ok b \<Longrightarrow> results_ok b'"
  "publish_wake p b = Some b' \<Longrightarrow> results_ok b \<Longrightarrow> results_ok b'"
  by (auto simp: publish_send_def publish_cancel_def publish_wake_def
      intro: results_send results_return split: option.splits publish_pc.splits if_splits)

fun publishes :: "'e bus_action \<Rightarrow> bool" where
  "publishes (APublishEnter p t e) = True"
| "publishes (APublishTopic p) = True"
| "publishes (APublishTry p) = True"
| "publishes (APublishSend p) = True"
| "publishes (APublishCancel p ce) = True"
| "publishes (APublishWake p) = True"
| "publishes _ = False"

lemma takes_frame:
  "subscribe_begin t b = Some b' \<Longrightarrow> takes b' = takes b \<and> bs_results b' = bs_results b \<and> bs_pubs b' = bs_pubs b"
  "subscribe_commit t b = Some b' \<Longrightarrow> takes b' = takes b \<and> bs_results b' = bs_results b \<and> bs_pubs b' = bs_pubs b"
  "unsubscribe t i b = Some b' \<Longrightarrow> takes b' = takes b \<and> bs_results b' = bs_results b \<and> bs_pubs b' = bs_pubs b"
  "worker_receive t b = Some b' \<Longrightarrow> takes b' = takes b \<and> bs_results b' = bs_results b \<and> bs_pubs b' = bs_pubs b"
  "worker_snapshot t b = Some b' \<Longrightarrow> takes b' = takes b \<and> bs_results b' = bs_results b \<and> bs_pubs b' = bs_pubs b"
  "worker_call t b = Some b' \<Longrightarrow> takes b' = takes b \<and> bs_results b' = bs_results b \<and> bs_pubs b' = bs_pubs b"
  "close_channel b = Some b' \<Longrightarrow> takes b' = takes b \<and> bs_results b' = bs_results b \<and> bs_pubs b' = bs_pubs b"
  by (auto simp: subscribe_begin_def subscribe_commit_def unsubscribe_def worker_receive_def
      worker_snapshot_def worker_call_def close_channel_def
      split: option.splits if_splits worker.splits list.splits close_pc.splits)

lemma takes_frame_close:
  "close_snapshot cs b = Some b' \<Longrightarrow> takes b' = takes b \<and> bs_results b' = bs_results b \<and> bs_pubs b' = bs_pubs b"
  "close_wake b = Some b' \<Longrightarrow> takes b' = takes b \<and> bs_results b' = bs_results b \<and> bs_pubs b' = bs_pubs b"
  "close_wait_publishes b = Some b' \<Longrightarrow> takes b' = takes b \<and> bs_results b' = bs_results b \<and> bs_pubs b' = bs_pubs b"
  "close_wait_workers b = Some b' \<Longrightarrow> takes b' = takes b \<and> bs_results b' = bs_results b \<and> bs_pubs b' = bs_pubs b"
  by (auto simp: close_snapshot_def close_wake_def close_wait_publishes_def close_wait_workers_def
      split: if_splits close_pc.splits)

lemma results_other:
  assumes "bus_step a b = Some b'" "\<not> publishes a" "results_ok b"
  shows "results_ok b'"
proof -
  have "takes b' = takes b \<and> bs_results b' = bs_results b \<and> bs_pubs b' = bs_pubs b"
    using assms(1,2) by (cases a) (simp_all add: takes_frame takes_frame_close)
  then show ?thesis
    using assms(3) by (auto simp: results_ok_def)
qed

lemma results_step:
  assumes "bus_step a b = Some b'" "results_ok b" "bus_inv b"
  shows "results_ok b'"
proof (cases "publishes a")
  case True
  then show ?thesis
    using assms
    by (cases a)
       (auto intro: results_publish_enter results_publish_topic results_publish_try results_publish_rest)
qed (use assms results_other in blast)

lemma results_run:
  "bus_run as b = Some b' \<Longrightarrow> results_ok b \<Longrightarrow> bus_inv b \<Longrightarrow> results_ok b'"
  by (induction as arbitrary: b) (auto split: option.splits intro: bus_inv_step results_step)

section \<open>Properties\<close>

text \<open>
  C8: the bus never sends on a closed channel and never closes one twice. No interleaving of
  subscriptions, publishes, cancellations, workers and \<open>Close\<close> reaches such a panic.
\<close>

theorem bus_never_panics:
  assumes "bus_run as (new_bus n) = Some b"
  shows "\<not> bs_panic b"
  using bus_inv_run [OF assms bus_inv_new] by (simp add: bus_inv_def)

text \<open>
  C15: \<open>Close\<close> drains. When it has returned, no publish is in flight, every worker has exited, and
  on every topic every envelope the queue ever took was dispatched, in the order it was taken, to
  the whole snapshot of subscribers of its dispatch.
\<close>

theorem close_drains:
  assumes "bus_run as (new_bus n) = Some b" "bs_close b = CloseReturned" "bs_topics b t = Some ts"
  shows "bs_pubs b = Map.empty \<and> tp_worker ts = WExited \<and> tp_queue ts = [] \<and> tp_ch_closed ts
    \<and> map fst (tp_rounds ts) = tp_accepted ts \<and> tp_calls ts = calls_of (tp_rounds ts)"
proof -
  have inv: "bus_inv b"
    using bus_inv_run [OF assms(1) bus_inv_new] .
  then have closed: "bs_publish_wg b = 0" "bs_wg b = 0" "tp_ch_closed ts"
    using assms(2,3) by (auto simp: bus_inv_def close_ok_def)
  with inv have "bs_pubs b = Map.empty" "live_workers b = {}"
    by (auto simp: bus_inv_def)
  then have exited: "tp_worker ts = WExited"
    using assms(3) by (auto simp: live_workers_def)
  have "worker_ok ts"
    using bus_inv_topic [OF inv assms(3)] by (simp add: topic_ok_def)
  then show ?thesis
    using exited closed(3) \<open>bs_pubs b = Map.empty\<close> by (auto simp: worker_ok_def)
qed

text \<open>
  C34: ordering and backpressure. In every reachable state and on every topic the dispatched
  envelopes are a prefix of the accepted ones, the queue holds at most the buffer size, the handler
  calls made are a prefix of the calls of the dispatches begun, and each dispatch calls its
  subscribers in registration order.
\<close>

theorem topic_fifo:
  assumes "bus_run as (new_bus n) = Some b" "bs_topics b t = Some ts"
  shows "(\<exists>later. tp_accepted ts = map fst (tp_rounds ts) @ later) \<and> length (tp_queue ts) \<le> n
    \<and> (\<exists>rest. calls_of (tp_rounds ts) = tp_calls ts @ rest)
    \<and> (\<forall>(env, ids) \<in> set (tp_rounds ts). sorted_wrt (<) ids)"
proof -
  have "topic_ok n (bs_next_sub b) ts"
    using bus_inv_topic [OF bus_inv_run [OF assms(1) bus_inv_new] assms(2)] bus_buffer_run [OF assms(1)]
    by (simp add: new_bus_def)
  then show ?thesis
    by (cases "tp_worker ts") (auto simp: topic_ok_def worker_ok_def)
qed

text \<open>
  What \<open>Publish\<close> answers. A call is answered \<open>nil\<close> exactly when a queue took its event, it is
  taken at most once, and on one topic only; every other answer means that it was not taken.
\<close>

theorem publish_ok_iff_accepted:
  assumes "bus_run as (new_bus n) = Some b"
  shows "(bs_results b p = Some PubOk \<longleftrightarrow> (\<exists>t ts. bs_topics b t = Some ts \<and> p \<in> fst ` set (tp_accepted ts)))
    \<and> (bs_topics b t = Some ts \<longrightarrow> distinct (map fst (tp_accepted ts)))"
proof -
  have ok: "results_ok b"
    using results_run [OF assms results_ok_new bus_inv_new] .
  have "distinct (takes b t)"
    using ok by (simp add: results_ok_def)
  moreover have "p \<in> set (takes b t) \<longleftrightarrow> (\<exists>ts. bs_topics b t = Some ts \<and> p \<in> fst ` set (tp_accepted ts))" for t
    by (cases "bs_topics b t") (simp_all add: takes_def)
  ultimately show ?thesis
    using results_okD(1) [OF ok, of p] by (auto simp: takes_def)
qed

text \<open>
  \<open>Subscribe\<close> is not serialised against \<open>Close\<close>. Between its release of \<open>b.mu\<close> and its append, a
  whole \<open>Close\<close> can run: the subscription then succeeds on a topic whose channel is closed and whose
  worker has exited.
\<close>

theorem subscribe_overtaken_by_close:
  assumes "t \<noteq> []" "0 < n"
  shows "\<exists>b b' ts. bus_run [ASubscribeBegin t, ACloseSnapshot [t], ACloseWake, ACloseWaitPublishes,
      ACloseChannel, ACloseChannel, AWorkerReceive t, ACloseWaitWorkers] (new_bus n) = Some b
    \<and> bs_close b = CloseReturned \<and> bus_step (ASubscribeCommit t) b = Some b'
    \<and> bs_topics b' t = Some ts \<and> tp_worker ts = WExited \<and> tp_subs ts = [1]"
  using assms
  by (simp add: subscribe_begin_def new_bus_def install_topic_def set_topic_def close_snapshot_def
      close_wake_def close_wait_publishes_def close_channel_def worker_receive_def
      close_wait_workers_def subscribe_commit_def new_topic_def dom_def)

section \<open>Witnesses\<close>

text \<open>Two subscribers, two publishes on a buffer of one with the second one blocking, then \<open>Close\<close>.\<close>

definition demo_actions :: "string bus_action list" where
  "demo_actions =
     [ASubscribeBegin ''t'', ASubscribeCommit ''t'', ASubscribeBegin ''t'', ASubscribeCommit ''t'',
      APublishEnter 1 ''t'' ''a'', APublishTopic 1, APublishTry 1,
      APublishEnter 2 ''t'' ''b'', APublishTopic 2, APublishTry 2, AWorkerReceive ''t'', APublishSend 2,
      ACloseSnapshot [''t''], ACloseWake, ACloseWaitPublishes, ACloseChannel, ACloseChannel,
      AWorkerSnapshot ''t'', AWorkerCall ''t'', AWorkerCall ''t'', AWorkerCall ''t'',
      AWorkerReceive ''t'', AWorkerSnapshot ''t'', AWorkerCall ''t'', AWorkerCall ''t'', AWorkerCall ''t'',
      AWorkerReceive ''t'', ACloseWaitWorkers]"

lemma demo_bus_run:
  obtains b ts where "bus_run demo_actions (new_bus 1) = Some b" "bs_close b = CloseReturned"
    "bs_topics b ''t'' = Some ts" "tp_accepted ts = [(1, ''a''), (2, ''b'')]"
    "tp_calls ts = [(1, 1, ''a''), (2, 1, ''a''), (1, 2, ''b''), (2, 2, ''b'')]"
    "bs_results b 2 = Some PubOk"
  by (simp add: demo_actions_def subscribe_begin_def new_bus_def install_topic_def set_topic_def
      subscribe_commit_def publish_enter_def publish_topic_def get_or_create_topic_def publish_try_def
      publish_send_def channel_ready_def channel_send_def pub_return_def close_snapshot_def
      close_wake_def close_wait_publishes_def close_channel_def worker_receive_def
      worker_snapshot_def worker_call_def close_wait_workers_def new_topic_def dom_def)

theorem bus_never_panics_witness:
  "\<exists>b. bus_run demo_actions (new_bus 1) = Some b \<and> \<not> bs_panic b"
proof (rule demo_bus_run)
  fix b assume "bus_run demo_actions (new_bus 1) = Some b"
  with bus_never_panics [OF this] show ?thesis by blast
qed

theorem close_drains_witness:
  "\<exists>b ts. bus_run demo_actions (new_bus 1) = Some b \<and> bs_topics b ''t'' = Some ts
     \<and> map fst (tp_rounds ts) = [(1, ''a''), (2, ''b'')]"
proof (rule demo_bus_run)
  fix b ts
  assume "bus_run demo_actions (new_bus 1) = Some b" "bs_close b = CloseReturned" "bs_topics b ''t'' = Some ts"
    and "tp_accepted ts = [(1, ''a''), (2, ''b'')]"
  with close_drains [OF this(1-3)] show ?thesis by auto
qed

theorem topic_fifo_witness:
  "\<exists>b ts. bus_run demo_actions (new_bus 1) = Some b \<and> bs_topics b ''t'' = Some ts
     \<and> length (tp_queue ts) \<le> 1"
proof (rule demo_bus_run)
  fix b ts
  assume "bus_run demo_actions (new_bus 1) = Some b" "bs_topics b ''t'' = Some ts"
  with topic_fifo [OF this] show ?thesis by blast
qed

theorem publish_ok_iff_accepted_witness:
  "\<exists>b. bus_run demo_actions (new_bus 1) = Some b
     \<and> (\<exists>t ts. bs_topics b t = Some ts \<and> 2 \<in> fst ` set (tp_accepted ts))"
proof (rule demo_bus_run)
  fix b
  assume "bus_run demo_actions (new_bus 1) = Some b" "bs_results b 2 = Some PubOk"
  with publish_ok_iff_accepted [OF this(1), of 2] show ?thesis by blast
qed

theorem subscribe_overtaken_by_close_witness:
  "\<exists>b. bus_run [ASubscribeBegin ''t'', ACloseSnapshot [''t''], ACloseWake, ACloseWaitPublishes,
      ACloseChannel, ACloseChannel, AWorkerReceive ''t'', ACloseWaitWorkers] (new_bus 64 :: unit bus) = Some b
    \<and> bs_close b = CloseReturned"
  using subscribe_overtaken_by_close [of "''t''" 64] by auto

end
