(* ===== verification/EventBusShutdown.thy ===== *)
theory EventBusShutdown
  imports EventBus
begin

text \<open>
  That \<open>Close\<close> of the event bus comes to an end (\<^verbatim>\<open>core/pkg/eventbus/bus.go\<close>). Once it has begun, the
  goroutines inside the bus have only so much left to do: \<open>close_work\<close> counts it, from the steps of
  \<open>Close\<close> itself over the publishes in flight to the deliveries still queued, and every step of
  theirs takes at least one unit. Until \<open>Close\<close> has returned one of them can always take a step.
  A handler call is one step, so handlers are taken to return.
\<close>

section \<open>A run to try it on\<close>

text \<open>One publish blocked on a full queue when \<open>Close\<close> begins.\<close>

definition demo_before_close :: "string bus_action list" where
  "demo_before_close =
     [ASubscribeBegin ''t'', ASubscribeCommit ''t'',
      APublishEnter 1 ''t'' ''a'', APublishTopic 1, APublishTry 1,
      APublishEnter 2 ''t'' ''b'', APublishTopic 2, APublishTry 2, ACloseSnapshot [''t'']]"

lemma demo_before_close_run:
  obtains b where "bus_run demo_before_close (new_bus 1) = Some b" "bs_closed b"
    "bs_close b = CloseSnapped [''t'']" "bs_pubs b 2 = Some (PubBlocked ''t'' ''b'')"
  by (simp add: demo_before_close_def subscribe_begin_def new_bus_def install_topic_def set_topic_def
      subscribe_commit_def publish_enter_def publish_topic_def get_or_create_topic_def publish_try_def
      channel_ready_def channel_send_def pub_return_def close_snapshot_def new_topic_def dom_def)

section \<open>The steps that drive the shutdown\<close>

text \<open>
  Everything but the arrival of new callers: a \<open>Subscribe\<close>, a \<open>Publish\<close>, an unsubscribe, a \<open>Close\<close>.
\<close>

fun drives :: "'e bus_action \<Rightarrow> bool" where
  "drives (ASubscribeBegin t) = False"
| "drives (AUnsubscribe t i) = False"
| "drives (APublishEnter p t e) = False"
| "drives (ACloseSnapshot cs) = False"
| "drives _ = True"

text \<open>One delivery of a topic: receive, snapshot, a call for every subscriber, back to idle.\<close>

definition delivery_work :: "'e topic_state \<Rightarrow> nat" where
  "delivery_work ts = 3 + length (tp_subs ts) + (if tp_lock ts then 1 else 0)"

definition worker_work :: "'e topic_state \<Rightarrow> nat" where
  "worker_work ts =
     (case tp_worker ts of
        WIdle \<Rightarrow> 1
      | WTaken env \<Rightarrow> delivery_work ts
      | WDispatch env rest \<Rightarrow> 2 + length rest
      | WExited \<Rightarrow> 0)"

definition topic_work :: "'e topic_state \<Rightarrow> nat" where
  "topic_work ts =
     worker_work ts + length (tp_queue ts) * delivery_work ts + (if tp_lock ts then 1 else 0)"

definition topic_delivery :: "'e bus \<Rightarrow> string \<Rightarrow> nat" where
  "topic_delivery b t = (case bs_topics b t of None \<Rightarrow> 0 | Some ts \<Rightarrow> delivery_work ts)"

fun publish_work :: "'e bus \<Rightarrow> 'e publish_pc \<Rightarrow> nat" where
  "publish_work b (PubEntered t e) = 3 + topic_delivery b t"
| "publish_work b (PubSending t e) = 2 + topic_delivery b t"
| "publish_work b (PubBlocked t e) = 1 + topic_delivery b t"

fun close_steps :: "close_pc \<Rightarrow> nat" where
  "close_steps CloseNot = 0"
| "close_steps (CloseSnapped cs) = 4 + length cs"
| "close_steps (CloseWoken cs) = 3 + length cs"
| "close_steps (CloseClosing cs) = 2 + length cs"
| "close_steps CloseWaiting = 1"
| "close_steps CloseReturned = 0"

definition topics_work :: "'e bus \<Rightarrow> nat" where
  "topics_work b = (\<Sum>t \<in> dom (bs_topics b). topic_work (the (bs_topics b t)))"

definition publishes_work :: "'e bus \<Rightarrow> nat" where
  "publishes_work b = (\<Sum>p \<in> dom (bs_pubs b). publish_work b (the (bs_pubs b p)))"

definition close_work :: "'e bus \<Rightarrow> nat" where
  "close_work b = close_steps (bs_close b) + topics_work b + publishes_work b"

text \<open>What the argument needs of a state beside \<open>bus_inv\<close>.\<close>

definition shutdown_inv :: "'e bus \<Rightarrow> bool" where
  "shutdown_inv b \<longleftrightarrow>
     bus_inv b \<and> finite (dom (bs_topics b))
     \<and> (case bs_close b of CloseNot \<Rightarrow> True | CloseSnapped cs \<Rightarrow> True | _ \<Rightarrow> bs_done b)"

section \<open>How a step changes the work\<close>

lemma topics_work_update:
  assumes "finite (dom (bs_topics b))" "bs_topics b t = Some ts" "bs_topics b' = (bs_topics b)(t \<mapsto> ts')"
  shows "topics_work b' + topic_work ts = topics_work b + topic_work ts'"
proof -
  have dom: "dom (bs_topics b') = dom (bs_topics b)" "t \<in> dom (bs_topics b)"
    using assms(2,3) by auto
  let ?rest = "\<lambda>b. \<Sum>x \<in> dom (bs_topics b) - {t}. topic_work (the (bs_topics b x))"
  have "?rest b' = ?rest b"
    unfolding dom(1) by (rule sum.cong) (auto simp: assms(3))
  moreover have "topics_work b' = topic_work ts' + ?rest b'"
    using sum.remove [of "dom (bs_topics b')" t "\<lambda>x. topic_work (the (bs_topics b' x))"] assms(1,3) dom
    by (simp add: topics_work_def)
  moreover have "topics_work b = topic_work ts + ?rest b"
    using sum.remove [of "dom (bs_topics b)" t "\<lambda>x. topic_work (the (bs_topics b x))"] assms(1,2) dom(2)
    by (simp add: topics_work_def)
  ultimately show ?thesis
    by simp
qed

lemma publish_work_cong: "topic_delivery b' = topic_delivery b \<Longrightarrow> publish_work b' pc = publish_work b pc"
  by (cases pc) simp_all

lemma publishes_work_cong:
  "topic_delivery b' = topic_delivery b \<Longrightarrow> bs_pubs b' = bs_pubs b \<Longrightarrow> publishes_work b' = publishes_work b"
  using publish_work_cong [of b' b] by (simp add: publishes_work_def)

lemma publishes_work_return:
  assumes "finite (dom (bs_pubs b))" "bs_pubs b p = Some pc" "topic_delivery b' = topic_delivery b"
    "bs_pubs b' = (bs_pubs b)(p := None)"
  shows "publishes_work b' + publish_work b pc = publishes_work b"
proof -
  have dom: "p \<in> dom (bs_pubs b)" "dom (bs_pubs b') = dom (bs_pubs b) - {p}"
    using assms(2,4) by auto
  have "publishes_work b' = (\<Sum>x \<in> dom (bs_pubs b) - {p}. publish_work b (the (bs_pubs b x)))"
    unfolding publishes_work_def dom(2) by (rule sum.cong) (auto simp: assms(4) publish_work_cong [OF assms(3)])
  moreover have "publishes_work b = publish_work b pc + (\<Sum>x \<in> dom (bs_pubs b) - {p}. publish_work b (the (bs_pubs b x)))"
    using sum.remove [of "dom (bs_pubs b)" p "\<lambda>x. publish_work b (the (bs_pubs b x))"] assms(1,2) dom(1)
    by (simp add: publishes_work_def)
  ultimately show ?thesis
    by simp
qed

lemma publishes_work_move:
  assumes "finite (dom (bs_pubs b))" "bs_pubs b p = Some pc" "topic_delivery b' = topic_delivery b"
    "bs_pubs b' = (bs_pubs b)(p \<mapsto> pc')"
  shows "publishes_work b' + publish_work b pc = publishes_work b + publish_work b pc'"
proof -
  let ?b = "b\<lparr>bs_pubs := (bs_pubs b)(p := None)\<rparr>"
  have d: "topic_delivery ?b = topic_delivery b"
    by (simp add: topic_delivery_def fun_eq_iff)
  have "publishes_work ?b + publish_work b pc = publishes_work b"
    by (rule publishes_work_return [OF assms(1,2) d]) simp
  moreover have "publishes_work ?b + publish_work b' pc' = publishes_work b'"
    by (rule publishes_work_return [of b' p]) (use assms(1,3,4) d in simp_all)
  ultimately show ?thesis
    using publish_work_cong [OF assms(3)] by simp
qed

lemma topic_delivery_same:
  assumes "bs_topics b t = Some ts" "bs_topics b' = (bs_topics b)(t \<mapsto> ts')" "delivery_work ts' = delivery_work ts"
  shows "topic_delivery b' = topic_delivery b"
  using assms by (auto simp: topic_delivery_def fun_eq_iff)

text \<open>A step on a topic that leaves its subscribers alone.\<close>

lemma work_topic_step:
  assumes "shutdown_inv b" "bs_topics b t = Some ts" "bs_topics b' = (bs_topics b)(t \<mapsto> ts')"
    "delivery_work ts' = delivery_work ts" "bs_pubs b' = bs_pubs b"
    "topic_work ts' + close_steps (bs_close b') < topic_work ts + close_steps (bs_close b)"
  shows "close_work b' < close_work b"
  using topics_work_update [OF _ assms(2,3)] publishes_work_cong [OF topic_delivery_same [OF assms(2-4)] assms(5)] assms(1,6)
  by (simp add: close_work_def shutdown_inv_def)

lemma delivery_work_simps [simp]:
  "delivery_work (ts\<lparr>tp_worker := x\<rparr>) = delivery_work ts"
  "delivery_work (ts\<lparr>tp_queue := y\<rparr>) = delivery_work ts"
  "delivery_work (ts\<lparr>tp_accepted := z\<rparr>) = delivery_work ts"
  "delivery_work (ts\<lparr>tp_rounds := r\<rparr>) = delivery_work ts"
  "delivery_work (ts\<lparr>tp_calls := c\<rparr>) = delivery_work ts"
  "delivery_work (ts\<lparr>tp_ch_closed := d\<rparr>) = delivery_work ts"
  by (simp_all add: delivery_work_def)

lemma work_worker_receive:
  assumes "worker_receive t b = Some b'" "shutdown_inv b"
  shows "close_work b' < close_work b"
proof -
  obtain ts where ts: "bs_topics b t = Some ts" "tp_worker ts = WIdle"
    using assms(1) by (auto simp: worker_receive_def split: option.splits worker.splits)
  show ?thesis
  proof (cases "tp_queue ts")
    case Nil
    then show ?thesis
      using assms ts
      by (intro work_topic_step [OF assms(2) ts(1), of _ "ts\<lparr>tp_worker := WExited\<rparr>"])
         (auto simp: worker_receive_def topic_work_def worker_work_def split: if_splits)
  next
    case (Cons env q)
    then show ?thesis
      using assms ts
      by (intro work_topic_step [OF assms(2) ts(1), of _ "ts\<lparr>tp_worker := WTaken env, tp_queue := q\<rparr>"])
         (auto simp: worker_receive_def topic_work_def worker_work_def)
  qed
qed

lemma work_worker_snapshot:
  assumes "worker_snapshot t b = Some b'" "shutdown_inv b"
  shows "close_work b' < close_work b"
proof -
  from assms(1) obtain ts env where ts: "bs_topics b t = Some ts" "tp_worker ts = WTaken env" "\<not> tp_lock ts"
    and b': "b' = set_topic t (ts\<lparr>tp_worker := WDispatch env (tp_subs ts),
       tp_rounds := tp_rounds ts @ [(env, tp_subs ts)]\<rparr>) b"
    by (auto simp: worker_snapshot_def split: option.splits worker.splits if_splits)
  show ?thesis
    using ts by (intro work_topic_step [OF assms(2) ts(1)]) (auto simp: b' topic_work_def worker_work_def delivery_work_def)
qed

lemma work_worker_call:
  assumes "worker_call t b = Some b'" "shutdown_inv b"
  shows "close_work b' < close_work b"
proof -
  from assms(1) obtain ts env ids where ts: "bs_topics b t = Some ts" "tp_worker ts = WDispatch env ids"
    by (auto simp: worker_call_def split: option.splits worker.splits)
  show ?thesis
  proof (cases ids)
    case Nil
    then have "b' = set_topic t (ts\<lparr>tp_worker := WIdle\<rparr>) b"
      using assms(1) ts by (simp add: worker_call_def)
    then show ?thesis
      using ts Nil
      by (intro work_topic_step [OF assms(2) ts(1), of _ "ts\<lparr>tp_worker := WIdle\<rparr>"])
         (auto simp: topic_work_def worker_work_def)
  next
    case (Cons i rest)
    then have "b' = set_topic t (ts\<lparr>tp_worker := WDispatch env rest, tp_calls := tp_calls ts @ [(i, env)]\<rparr>) b"
      using assms(1) ts by (simp add: worker_call_def)
    then show ?thesis
      using ts Cons
      by (intro work_topic_step [OF assms(2) ts(1), of _ "ts\<lparr>tp_worker := WDispatch env rest, tp_calls := tp_calls ts @ [(i, env)]\<rparr>"])
         (auto simp: topic_work_def worker_work_def)
  qed
qed

lemma work_subscribe_commit:
  assumes "subscribe_commit t b = Some b'" "shutdown_inv b"
  shows "close_work b' < close_work b"
proof -
  from assms(1) obtain ts where ts: "bs_topics b t = Some ts" "tp_lock ts"
    "b' = set_topic t (ts\<lparr>tp_lock := False, tp_subs := tp_subs ts @ [Suc (bs_next_sub b)]\<rparr>)
       (b\<lparr>bs_next_sub := Suc (bs_next_sub b)\<rparr>)"
    by (auto simp: subscribe_commit_def split: option.splits if_splits)
  show ?thesis
    using ts(2,3)
    by (intro work_topic_step [OF assms(2) ts(1), of _ "ts\<lparr>tp_lock := False, tp_subs := tp_subs ts @ [Suc (bs_next_sub b)]\<rparr>"])
       (auto simp: topic_work_def worker_work_def delivery_work_def split: worker.split)
qed

lemma work_close_channel:
  assumes "close_channel b = Some b'" "shutdown_inv b"
  shows "close_work b' < close_work b"
proof -
  have inv: "bus_inv b"
    using assms(2) by (simp add: shutdown_inv_def)
  from assms(1) obtain cs where cs: "bs_close b = CloseClosing cs"
    by (auto simp: close_channel_def split: close_pc.splits)
  show ?thesis
  proof (cases cs)
    case Nil
    then have "b' = b\<lparr>bs_close := CloseWaiting\<rparr>"
      using assms(1) cs by (simp add: close_channel_def)
    then show ?thesis
      using cs Nil publishes_work_cong [of b' b] by (simp add: close_work_def topics_work_def topic_delivery_def fun_eq_iff)
  next
    case (Cons c rest)
    then obtain ts where ts: "bs_topics b c = Some ts" "\<not> tp_ch_closed ts"
      using inv cs by (fastforce simp: bus_inv_def close_ok_def)
    then have "b' = (set_topic c (ts\<lparr>tp_ch_closed := True\<rparr>) b)\<lparr>bs_close := CloseClosing rest\<rparr>"
      using assms(1) cs Cons by (simp add: close_channel_def)
    then show ?thesis
      using ts cs Cons
      by (intro work_topic_step [OF assms(2) ts(1), of _ "ts\<lparr>tp_ch_closed := True\<rparr>"])
         (auto simp: topic_work_def worker_work_def split: worker.split)
  qed
qed

lemma shutdown_finite: "shutdown_inv b \<Longrightarrow> finite (dom (bs_pubs b))" "shutdown_inv b \<Longrightarrow> finite (dom (bs_topics b))"
  by (simp_all add: shutdown_inv_def bus_inv_def)

lemma topic_delivery_cong: "bs_topics b' = bs_topics b \<Longrightarrow> topic_delivery b' = topic_delivery b"
  by (simp add: topic_delivery_def fun_eq_iff)

lemma topics_work_cong: "bs_topics b' = bs_topics b \<Longrightarrow> topics_work b' = topics_work b"
  by (simp add: topics_work_def)

text \<open>A publish that returns, or goes on to its next program point.\<close>

lemma work_pub_return:
  assumes "shutdown_inv b" "bs_pubs b p = Some pc"
  shows "close_work (pub_return p r b) < close_work b"
proof -
  have "0 < publish_work b pc"
    by (cases pc) simp_all
  moreover have "publishes_work (pub_return p r b) + publish_work b pc = publishes_work b"
    by (rule publishes_work_return [OF shutdown_finite(1) [OF assms(1)] assms(2)
          topic_delivery_cong [of "pub_return p r b" b]])
       (simp_all add: pub_return_def)
  ultimately show ?thesis
    by (simp add: close_work_def topics_work_def pub_return_def)
qed

lemma work_pub_move:
  assumes "shutdown_inv b" "bs_pubs b p = Some pc" "publish_work b pc' < publish_work b pc"
  shows "close_work (b\<lparr>bs_pubs := (bs_pubs b)(p \<mapsto> pc')\<rparr>) < close_work b"
proof -
  have "publishes_work (b\<lparr>bs_pubs := (bs_pubs b)(p \<mapsto> pc')\<rparr>) + publish_work b pc = publishes_work b + publish_work b pc'"
    by (rule publishes_work_move [OF shutdown_finite(1) [OF assms(1)] assms(2)
          topic_delivery_cong [of "b\<lparr>bs_pubs := (bs_pubs b)(p \<mapsto> pc')\<rparr>" b]])
       simp_all
  then show ?thesis
    using assms(3) by (simp add: close_work_def topics_work_def)
qed

lemma work_channel_send:
  assumes "shutdown_inv b" "bs_pubs b p = Some pc" "bs_topics b t = Some ts"
    and "1 + delivery_work ts \<le> publish_work b pc"
  shows "close_work (channel_send p t e ts b) < close_work b"
proof -
  have open_ch: "\<not> tp_ch_closed ts"
    using no_publish_after_closing [of b p pc t ts] assms(1-3) by (simp add: shutdown_inv_def)
  let ?ts = "ts\<lparr>tp_queue := tp_queue ts @ [(p, e)], tp_accepted := tp_accepted ts @ [(p, e)]\<rparr>"
  let ?b = "pub_return p PubOk (set_topic t ?ts b)"
  have "bs_topics ?b = (bs_topics b)(t \<mapsto> ?ts)" "bs_pubs ?b = (bs_pubs b)(p := None)" "bs_close ?b = bs_close b"
    by (simp_all add: pub_return_def)
  note f = this
  have "topics_work ?b + topic_work ts = topics_work b + topic_work ?ts"
    by (rule topics_work_update [OF shutdown_finite(2) [OF assms(1)] assms(3) f(1)])
  moreover have "publishes_work ?b + publish_work b pc = publishes_work b"
    by (rule publishes_work_return [OF shutdown_finite(1) [OF assms(1)] assms(2) _ f(2)])
       (rule topic_delivery_same [OF assms(3) f(1)], simp)
  moreover have "topic_work ?ts = topic_work ts + delivery_work ts"
    by (simp add: topic_work_def worker_work_def delivery_work_def split: worker.split)
  ultimately show ?thesis
    using assms(4) open_ch f(3) by (simp add: close_work_def channel_send_def)
qed

lemma work_publish_topic:
  assumes "publish_topic p b = Some b'" "shutdown_inv b" "bs_closed b"
  shows "close_work b' < close_work b"
proof -
  from assms(1) obtain t e where pc: "bs_pubs b p = Some (PubEntered t e)"
    by (auto simp: publish_topic_def split: option.splits publish_pc.splits)
  then show ?thesis
    using assms work_pub_return [OF assms(2) pc] work_pub_move [OF assms(2) pc, of "PubSending t e"]
    by (auto simp: publish_topic_def get_or_create_topic_def split: option.splits)
qed

lemma work_publish_try:
  assumes "publish_try p b = Some b'" "shutdown_inv b"
  shows "close_work b' < close_work b"
proof -
  from assms(1) obtain t e ts where pc: "bs_pubs b p = Some (PubSending t e)" "bs_topics b t = Some ts"
    and b': "b' = (if channel_ready ts b then channel_send p t e ts b
       else b\<lparr>bs_pubs := (bs_pubs b)(p \<mapsto> PubBlocked t e)\<rparr>)"
    by (auto simp: publish_try_def split: option.splits publish_pc.splits if_splits)
  show ?thesis
    using work_channel_send [OF assms(2) pc] work_pub_move [OF assms(2) pc(1), of "PubBlocked t e"] pc(2)
    by (simp add: b' topic_delivery_def)
qed

lemma work_publish_rest:
  "publish_send p b = Some b' \<Longrightarrow> shutdown_inv b \<Longrightarrow> close_work b' < close_work b"
  "publish_cancel p ce b = Some b' \<Longrightarrow> shutdown_inv b \<Longrightarrow> close_work b' < close_work b"
  "publish_wake p b = Some b' \<Longrightarrow> shutdown_inv b \<Longrightarrow> close_work b' < close_work b"
  by (auto simp: publish_send_def publish_cancel_def publish_wake_def topic_delivery_def
      intro: work_channel_send work_pub_return split: option.splits publish_pc.splits if_splits)

lemma work_close_steps:
  "close_wake b = Some b' \<Longrightarrow> close_work b' < close_work b"
  "close_wait_publishes b = Some b' \<Longrightarrow> close_work b' < close_work b"
  "close_wait_workers b = Some b' \<Longrightarrow> close_work b' < close_work b"
  using publishes_work_cong [of b' b] topics_work_cong [of b' b] topic_delivery_cong [of b' b]
  by (auto simp: close_wake_def close_wait_publishes_def close_wait_workers_def close_work_def
      split: close_pc.splits if_splits)

text \<open>A driving step takes work away.\<close>

lemma drives_work:
  assumes "bus_step a b = Some b'" "drives a" "shutdown_inv b" "bs_closed b"
  shows "close_work b' < close_work b"
  using assms
  by (cases a)
     (auto intro: work_worker_receive work_worker_snapshot work_worker_call work_subscribe_commit
        work_close_channel work_publish_topic work_publish_try work_publish_rest work_close_steps)

text \<open>The arrival of a caller adds none once the bus is closed.\<close>

lemma delivery_work_filter: "delivery_work (ts\<lparr>tp_subs := filter P (tp_subs ts)\<rparr>) \<le> delivery_work ts"
  by (simp add: delivery_work_def)

lemma work_unsubscribe:
  assumes "unsubscribe t i b = Some b'" "shutdown_inv b"
  shows "close_work b' \<le> close_work b"
proof -
  from assms(1) obtain ts where ts: "bs_topics b t = Some ts"
    "b' = set_topic t (ts\<lparr>tp_subs := filter (\<lambda>j. j \<noteq> i) (tp_subs ts)\<rparr>) b"
    by (auto simp: unsubscribe_def split: option.splits if_splits)
  let ?ts = "ts\<lparr>tp_subs := filter (\<lambda>j. j \<noteq> i) (tp_subs ts)\<rparr>"
  have d: "delivery_work ?ts \<le> delivery_work ts"
    by (rule delivery_work_filter)
  then have "topic_work ?ts \<le> topic_work ts"
    by (auto simp: topic_work_def worker_work_def intro!: add_mono mult_le_mono split: worker.split)
  then have "topics_work b' \<le> topics_work b"
    using topics_work_update [OF shutdown_finite(2) [OF assms(2)] ts(1), of b' ?ts] ts(2) by simp
  moreover have "topic_delivery b' s \<le> topic_delivery b s" for s
    using d ts by (simp add: topic_delivery_def)
  then have "publish_work b' pc \<le> publish_work b pc" for pc
    by (cases pc) simp_all
  then have "publishes_work b' \<le> publishes_work b"
    unfolding publishes_work_def by (simp add: ts(2) sum_mono)
  ultimately show ?thesis
    by (simp add: close_work_def ts(2))
qed

lemma close_work_cong:
  assumes "bs_topics b' = bs_topics b" "bs_pubs b' = bs_pubs b" "bs_close b' = bs_close b"
  shows "close_work b' = close_work b"
  using topics_work_cong [OF assms(1)] publishes_work_cong [OF topic_delivery_cong [OF assms(1)] assms(2)] assms(3)
  by (simp add: close_work_def)

lemma arrival_work:
  assumes "bus_step a b = Some b'" "\<not> drives a" "shutdown_inv b" "bs_closed b"
  shows "close_work b' \<le> close_work b"
proof (cases a)
  case (ASubscribeBegin t)
  then have "b' = b"
    using assms(1,4) by (simp add: subscribe_begin_def)
  then show ?thesis by simp
next
  case (AUnsubscribe t i)
  then show ?thesis
    using assms(1,3) work_unsubscribe by simp
next
  case (APublishEnter p t e)
  then have "close_work b' = close_work b"
    using assms(1,4) by (intro close_work_cong) (auto simp: publish_enter_def split: if_splits)
  then show ?thesis by simp
next
  case (ACloseSnapshot cs)
  then show ?thesis
    using assms(1,3,4) by (auto simp: close_snapshot_def shutdown_inv_def bus_inv_def close_ok_def split: if_splits)
qed (use assms(2) in simp_all)

section \<open>The steps before and after \<open>Close\<close> begins\<close>

text \<open>Only \<open>Close\<close> moves the close fields; the topics stay finitely many.\<close>

definition close_frame :: "'e bus \<Rightarrow> 'e bus \<Rightarrow> bool" where
  "close_frame b b' \<longleftrightarrow>
     bs_closed b' = bs_closed b \<and> bs_done b' = bs_done b \<and> bs_close b' = bs_close b
     \<and> (\<exists>T. finite T \<and> dom (bs_topics b') = dom (bs_topics b) \<union> T)"

lemma close_frame_same:
  "bs_closed b' = bs_closed b \<Longrightarrow> bs_done b' = bs_done b \<Longrightarrow> bs_close b' = bs_close b \<Longrightarrow>
     bs_topics b' = bs_topics b \<Longrightarrow> close_frame b b'"
  unfolding close_frame_def by (simp add: exI [of _ "{}"])

lemma close_frame_topic:
  "bs_closed b' = bs_closed b \<Longrightarrow> bs_done b' = bs_done b \<Longrightarrow> bs_close b' = bs_close b \<Longrightarrow>
     bs_topics b' = (bs_topics b)(t \<mapsto> ts) \<Longrightarrow> close_frame b b'"
  unfolding close_frame_def by (auto intro!: exI [of _ "{t}"])

lemma set_topic_done [simp]: "bs_done (set_topic t ts b) = bs_done b"
  by (simp add: set_topic_def)

lemma frame_install: "close_frame b (install_topic t ts b)"
  by (rule close_frame_topic [of _ _ t ts]) (simp_all add: install_topic_def)

lemma frame_set_topic: "close_frame b (set_topic t ts b)"
  by (rule close_frame_topic [of _ _ t ts]) simp_all

lemma frame_pub_return: "close_frame b (pub_return p r b)"
  by (rule close_frame_same) (simp_all add: pub_return_def)

lemma frame_trans: "close_frame b b' \<Longrightarrow> close_frame b' b'' \<Longrightarrow> close_frame b b''"
  unfolding close_frame_def by (elim conjE exE, rename_tac S T) (simp add: Un_assoc exI [of _ "S \<union> T" for S T])

lemma frame_send: "close_frame b (channel_send p t e ts b)"
  unfolding channel_send_def
  using frame_trans [OF frame_set_topic frame_pub_return] by (auto intro: close_frame_same)

lemma frame_subscribe_begin: "subscribe_begin t b = Some b' \<Longrightarrow> close_frame b b'"
  by (auto simp: subscribe_begin_def intro: frame_install frame_set_topic close_frame_same split: if_splits option.splits)

lemma frame_subscribe_commit: "subscribe_commit t b = Some b' \<Longrightarrow> close_frame b b'"
  by (auto simp: subscribe_commit_def intro!: close_frame_topic split: if_splits option.splits)

lemma frame_unsubscribe: "unsubscribe t i b = Some b' \<Longrightarrow> close_frame b b'"
  by (auto simp: unsubscribe_def intro: frame_set_topic split: if_splits option.splits)

lemma frame_publish_enter: "publish_enter p t e b = Some b' \<Longrightarrow> close_frame b b'"
  by (rule close_frame_same) (auto simp: publish_enter_def split: if_splits)

lemma frame_publish_topic:
  assumes "publish_topic p b = Some b'"
  shows "close_frame b b'"
proof -
  from assms obtain t e where pc: "bs_pubs b p = Some (PubEntered t e)"
    by (auto simp: publish_topic_def split: option.splits publish_pc.splits)
  show ?thesis
  proof (cases "get_or_create_topic t b")
    case None
    then show ?thesis
      using assms pc frame_pub_return by (auto simp: publish_topic_def)
  next
    case (Some b0)
    then have "close_frame b b0"
      using frame_install by (auto simp: get_or_create_topic_def intro: close_frame_same split: option.splits if_splits)
    moreover have "close_frame b0 b'"
      using assms pc Some by (auto simp: publish_topic_def intro!: close_frame_same)
    ultimately show ?thesis
      by (rule frame_trans)
  qed
qed

lemma frame_publish_rest:
  "publish_try p b = Some b' \<Longrightarrow> close_frame b b'"
  "publish_send p b = Some b' \<Longrightarrow> close_frame b b'"
  "publish_cancel p ce b = Some b' \<Longrightarrow> close_frame b b'"
  "publish_wake p b = Some b' \<Longrightarrow> close_frame b b'"
  by (auto simp: publish_try_def publish_send_def publish_cancel_def publish_wake_def
      intro: frame_send frame_pub_return close_frame_same split: option.splits publish_pc.splits if_splits)

lemma frame_worker_receive: "worker_receive t b = Some b' \<Longrightarrow> close_frame b b'"
  by (auto simp: worker_receive_def intro!: close_frame_topic
      split: option.splits worker.splits list.splits if_splits)

lemma frame_worker:
  "worker_snapshot t b = Some b' \<Longrightarrow> close_frame b b'"
  "worker_call t b = Some b' \<Longrightarrow> close_frame b b'"
  by (auto simp: worker_snapshot_def worker_call_def intro: frame_set_topic
      split: option.splits worker.splits list.splits if_splits)

fun closes :: "'e bus_action \<Rightarrow> bool" where
  "closes (ACloseSnapshot cs) = True"
| "closes ACloseWake = True"
| "closes ACloseWaitPublishes = True"
| "closes ACloseChannel = True"
| "closes ACloseWaitWorkers = True"
| "closes _ = False"

lemma step_close_frame: "bus_step a b = Some b' \<Longrightarrow> \<not> closes a \<Longrightarrow> close_frame b b'"
  by (cases a)
     (simp_all add: frame_subscribe_begin frame_subscribe_commit frame_unsubscribe frame_publish_enter
        frame_publish_topic frame_publish_rest frame_worker_receive frame_worker)

definition close_pre :: "'e bus \<Rightarrow> bool" where
  "close_pre b \<longleftrightarrow> finite (dom (bs_topics b))
     \<and> (case bs_close b of CloseNot \<Rightarrow> True | CloseSnapped cs \<Rightarrow> True | _ \<Rightarrow> bs_done b)"

lemma close_pre_closes:
  "close_snapshot cs b = Some b' \<Longrightarrow> close_pre b \<Longrightarrow> close_pre b' \<and> bs_closed b'"
  "close_wake b = Some b' \<Longrightarrow> close_pre b \<Longrightarrow> close_pre b' \<and> bs_closed b' = bs_closed b"
  "close_wait_publishes b = Some b' \<Longrightarrow> close_pre b \<Longrightarrow> close_pre b' \<and> bs_closed b' = bs_closed b"
  "close_channel b = Some b' \<Longrightarrow> close_pre b \<Longrightarrow> close_pre b' \<and> bs_closed b' = bs_closed b"
  "close_wait_workers b = Some b' \<Longrightarrow> close_pre b \<Longrightarrow> close_pre b' \<and> bs_closed b' = bs_closed b"
  by (auto simp: close_pre_def close_snapshot_def close_wake_def close_wait_publishes_def close_channel_def
      close_wait_workers_def split: if_splits close_pc.splits list.splits option.splits)

lemma close_pre_step:
  assumes "bus_step a b = Some b'" "close_pre b"
  shows "close_pre b' \<and> (bs_closed b \<longrightarrow> bs_closed b')"
proof (cases "closes a")
  case True
  then show ?thesis
    using assms by (cases a) (auto dest: close_pre_closes)
next
  case False
  then show ?thesis
    using step_close_frame [OF assms(1)] assms(2)
    by (cases "bs_close b") (auto simp: close_frame_def close_pre_def)
qed

lemma shutdown_inv_alt: "shutdown_inv b \<longleftrightarrow> bus_inv b \<and> close_pre b"
  by (simp add: shutdown_inv_def close_pre_def)

lemma shutdown_inv_step:
  "bus_step a b = Some b' \<Longrightarrow> shutdown_inv b \<Longrightarrow> shutdown_inv b' \<and> (bs_closed b \<longrightarrow> bs_closed b')"
  using close_pre_step [of a b b'] bus_inv_step [of a b b'] by (simp add: shutdown_inv_alt)

lemma shutdown_inv_run:
  "bus_run as b = Some b' \<Longrightarrow> shutdown_inv b \<Longrightarrow> shutdown_inv b'"
  by (induction as arbitrary: b) (auto split: option.splits dest: shutdown_inv_step)

lemma shutdown_inv_new: "shutdown_inv (new_bus n)"
  using bus_inv_new by (simp add: shutdown_inv_def new_bus_def)

section \<open>A step of the bus's own goroutines is enabled\<close>

text \<open>
  The steps for which a goroutine of the bus needs nobody else: all driving ones but the send of a
  blocked publish, which waits for room in the queue, and its cancellation, which waits for the caller.
\<close>

fun own_step :: "'e bus_action \<Rightarrow> bool" where
  "own_step (APublishSend p) = False"
| "own_step (APublishCancel p ce) = False"
| "own_step a = drives a"

lemma own_step_drives: "own_step a \<Longrightarrow> drives a"
  by (cases a) simp_all

lemma closed_begun: "shutdown_inv b \<Longrightarrow> bs_closed b \<Longrightarrow> bs_close b \<noteq> CloseNot"
  by (simp add: shutdown_inv_def bus_inv_def close_ok_def)

lemma worker_enabled:
  assumes "bs_topics b t = Some ts" "tp_worker ts \<noteq> WExited" "tp_ch_closed ts"
  shows "\<exists>a. own_step a \<and> bus_step a b \<noteq> None"
proof (cases "tp_worker ts")
  case WIdle
  then have "worker_receive t b \<noteq> None"
    using assms by (simp add: worker_receive_def split: list.split)
  then show ?thesis
    by (intro exI [of _ "AWorkerReceive t"]) auto
next
  case (WTaken env)
  show ?thesis
  proof (cases "tp_lock ts")
    case True
    then have "subscribe_commit t b \<noteq> None"
      using assms(1) by (simp add: subscribe_commit_def)
    then show ?thesis
      by (intro exI [of _ "ASubscribeCommit t"]) auto
  next
    case False
    then have "worker_snapshot t b \<noteq> None"
      using assms(1) WTaken by (simp add: worker_snapshot_def)
    then show ?thesis
      by (intro exI [of _ "AWorkerSnapshot t"]) auto
  qed
next
  case (WDispatch env ids)
  then have "worker_call t b \<noteq> None"
    using assms(1) by (cases ids) (simp_all add: worker_call_def)
  then show ?thesis
    by (intro exI [of _ "AWorkerCall t"]) auto
qed (use assms(2) in simp)

lemma publish_enabled:
  assumes "bus_inv b" "bs_pubs b p = Some pc" "bs_done b"
  shows "\<exists>a. own_step a \<and> bus_step a b \<noteq> None"
proof (cases pc)
  case (PubEntered t e)
  then have "publish_topic p b \<noteq> None"
    using assms(2) by (simp add: publish_topic_def split: option.split)
  then show ?thesis
    by (intro exI [of _ "APublishTopic p"]) auto
next
  case (PubSending t e)
  then have "t \<in> dom (bs_topics b)"
    using assms(1,2) by (fastforce simp: bus_inv_def)
  then have "publish_try p b \<noteq> None"
    using assms(2) PubSending by (auto simp: publish_try_def)
  then show ?thesis
    by (intro exI [of _ "APublishTry p"]) auto
next
  case (PubBlocked t e)
  then have "publish_wake p b \<noteq> None"
    using assms(2,3) by (simp add: publish_wake_def)
  then show ?thesis
    by (intro exI [of _ "APublishWake p"]) auto
qed

lemma own_enabled:
  assumes "shutdown_inv b" "bs_close b \<noteq> CloseNot" "bs_close b \<noteq> CloseReturned"
  shows "\<exists>a. own_step a \<and> bus_step a b \<noteq> None"
proof -
  have inv: "bus_inv b"
    using assms(1) by (simp add: shutdown_inv_def)
  have step: "bus_step a b \<noteq> None \<Longrightarrow> own_step a \<Longrightarrow> ?thesis" for a
    by auto
  show ?thesis
  proof (cases "bs_close b")
    case (CloseSnapped cs)
    then show ?thesis
      by (intro step [of ACloseWake]) (simp_all add: close_wake_def)
  next
    case (CloseWoken cs)
    show ?thesis
    proof (cases "bs_publish_wg b = 0")
      case True
      then show ?thesis
        using CloseWoken by (intro step [of ACloseWaitPublishes]) (simp_all add: close_wait_publishes_def)
    next
      case False
      then have "dom (bs_pubs b) \<noteq> {}"
        using inv by (metis bus_inv_def card.empty)
      then obtain p pc where "bs_pubs b p = Some pc"
        by blast
      then show ?thesis
        using publish_enabled [OF inv] assms(1) CloseWoken by (simp add: shutdown_inv_def)
    qed
  next
    case (CloseClosing cs)
    then show ?thesis
      using inv
      by (intro step [of ACloseChannel])
         (auto simp: close_channel_def bus_inv_def close_ok_def split: list.split option.split)
  next
    case CloseWaiting
    show ?thesis
    proof (cases "bs_wg b = 0")
      case True
      then show ?thesis
        using CloseWaiting by (intro step [of ACloseWaitWorkers]) (simp_all add: close_wait_workers_def)
    next
      case False
      then have "live_workers b \<noteq> {}"
        using inv by (metis bus_inv_def card.empty)
      then obtain t where "t \<in> live_workers b"
        by blast
      then obtain ts where "bs_topics b t = Some ts" "tp_worker ts \<noteq> WExited"
        by (auto simp: live_workers_def)
      then show ?thesis
        using inv CloseWaiting by (intro worker_enabled) (auto simp: bus_inv_def close_ok_def)
    qed
  qed (use assms in simp_all)
qed

text \<open>Arrivals do not get in the way: after \<open>Close\<close> has begun they leave every such step enabled.\<close>

lemma arrival_keeps_enabled:
  assumes "bus_step a b = Some b'" "\<not> drives a" "shutdown_inv b" "bs_closed b"
    and "own_step c" "bus_step c b \<noteq> None"
  shows "bus_step c b' \<noteq> None"
proof (cases a)
  case (ASubscribeBegin t)
  then show ?thesis
    using assms by (simp add: subscribe_begin_def)
next
  case (APublishEnter p t e)
  then have "b' = b\<lparr>bs_results := (bs_results b)(p \<mapsto> PubErrClosed)\<rparr>"
    using assms(1,4) by (simp add: publish_enter_def split: if_splits)
  then show ?thesis
    using assms(5,6)
    by (cases c)
       (auto simp: subscribe_commit_def publish_topic_def publish_try_def publish_wake_def worker_receive_def
          worker_snapshot_def worker_call_def close_wake_def close_wait_publishes_def close_channel_def
          close_wait_workers_def get_or_create_topic_def
          split: option.splits publish_pc.splits worker.splits list.splits close_pc.splits if_splits)
next
  case (AUnsubscribe t i)
  then obtain ts where "bs_topics b t = Some ts"
    "b' = set_topic t (ts\<lparr>tp_subs := filter (\<lambda>j. j \<noteq> i) (tp_subs ts)\<rparr>) b"
    using assms(1) by (auto simp: unsubscribe_def split: option.splits if_splits)
  then show ?thesis
    using assms(5,6)
    by (cases c)
       (auto simp: subscribe_commit_def publish_topic_def publish_try_def publish_wake_def worker_receive_def
          worker_snapshot_def worker_call_def close_wake_def close_wait_publishes_def close_channel_def
          close_wait_workers_def get_or_create_topic_def
          split: option.splits publish_pc.splits worker.splits list.splits close_pc.splits if_splits)
next
  case (ACloseSnapshot cs)
  then show ?thesis
    using assms(1) closed_begun [OF assms(3,4)] by (simp add: close_snapshot_def split: if_splits)
qed (use assms(2) in simp_all)

text \<open>So a step that is not taken while callers only arrive stays enabled.\<close>

lemma arrivals_keep_enabled:
  assumes "\<forall>i. bus_step (act i) (r i) = Some (r (Suc i))" "\<forall>i. shutdown_inv (r i) \<and> bs_closed (r i)"
    and "\<forall>j\<ge>i. \<not> drives (act j)" "own_step c" "bus_step c (r i) \<noteq> None"
  shows "bus_step c (r (i + k)) \<noteq> None"
proof (induction k)
  case (Suc k)
  then show ?case
    using arrival_keeps_enabled [of "act (i + k)" "r (i + k)" "r (Suc (i + k))" c] assms(1-4) by simp
qed (use assms(5) in simp)

section \<open>Properties\<close>

lemma work_run:
  "bus_run as b = Some b' \<Longrightarrow> shutdown_inv b \<Longrightarrow> bs_closed b \<Longrightarrow>
     bs_closed b' \<and> length (filter drives as) + close_work b' \<le> close_work b"
proof (induction as arbitrary: b)
  case (Cons a as)
  then obtain b1 where b1: "bus_step a b = Some b1" "bus_run as b1 = Some b'"
    by (auto split: option.splits)
  note inv = shutdown_inv_step [OF b1(1) Cons.prems(2)]
  have "close_work b1 + (if drives a then 1 else 0) \<le> close_work b"
    using drives_work [OF b1(1) _ Cons.prems(2,3)] arrival_work [OF b1(1) _ Cons.prems(2,3)]
    by (simp add: Suc_le_eq)
  moreover have "bs_closed b' \<and> length (filter drives as) + close_work b' \<le> close_work b1"
    using inv Cons.prems(3) by (intro Cons.IH [OF b1(2)]) simp_all
  ultimately show ?case
    by (simp split: if_splits)
qed simp

text \<open>
  C38: Once \<open>Close\<close> has begun, the goroutines of the bus take at most
  \<open>close_work\<close> more steps, whoever else calls in between, and as long as \<open>Close\<close> has not returned
  one of them can take its next one. No publish, cancellation or subscription deadlocks it.
\<close>

theorem close_terminates:
  assumes "bus_run as (new_bus n) = Some b" "bs_closed b" "bus_run as' b = Some b'"
  shows "length (filter drives as') \<le> close_work b
    \<and> (bs_close b' \<noteq> CloseReturned \<longrightarrow> (\<exists>a b''. drives a \<and> bus_step a b' = Some b''))"
proof -
  have inv: "shutdown_inv b"
    using shutdown_inv_run [OF assms(1) shutdown_inv_new] .
  have run: "bs_closed b' \<and> length (filter drives as') + close_work b' \<le> close_work b"
    using work_run [OF assms(3) inv assms(2)] .
  have "\<exists>a b''. drives a \<and> bus_step a b' = Some b''" if r: "bs_close b' \<noteq> CloseReturned"
  proof -
    have "shutdown_inv b'"
      using shutdown_inv_run [OF assms(3) inv] .
    then obtain a where "own_step a" "bus_step a b' \<noteq> None"
      using own_enabled [of b'] closed_begun [of b'] run r by blast
    then show ?thesis
      using own_step_drives by blast
  qed
  then show ?thesis
    using run by simp
qed

lemma infinite_run_prefix:
  assumes "\<forall>i. bus_step (act i) (r i) = Some (r (Suc i))"
  shows "bus_run (map act [i..<i + k]) (r i) = Some (r (i + k))"
proof (induction k arbitrary: i)
  case (Suc k)
  have "map act [i..<i + Suc k] = act i # map act [Suc i..<Suc i + k]"
    by (simp add: upt_conv_Cons del: upt_Suc)
  then show ?case
    using Suc.IH [of "Suc i"] assms by simp
qed simp

lemma drives_unbounded:
  assumes "\<forall>i. \<exists>j\<ge>i. drives (act j)"
  shows "\<exists>k. m \<le> length (filter drives (map act [0..<k]))"
proof (induction m)
  case (Suc m)
  then obtain k where k: "m \<le> length (filter drives (map act [0..<k]))"
    by blast
  obtain j where j: "k \<le> j" "drives (act j)"
    using assms by blast
  have "[0..<Suc j] = [0..<k] @ [k..<j] @ [j]"
    using j(1) upt_add_eq_append [of 0 k "j - k"] by simp
  then have "Suc m \<le> length (filter drives (map act [0..<Suc j]))"
    using k j(2) by simp
  then show ?case
    by blast
qed auto

lemma infinite_run_states:
  assumes "bus_run as (new_bus n) = Some (r 0)" "bs_closed (r 0)"
    and "\<forall>i. bus_step (act i) (r i) = Some (r (Suc i))"
  shows "shutdown_inv (r i) \<and> bs_closed (r i)"
    and "length (filter drives (map act [0..<i])) \<le> close_work (r 0)"
  using infinite_run_prefix [OF assms(3), of 0 i] shutdown_inv_run [OF assms(1) shutdown_inv_new]
    shutdown_inv_run [of "map act [0..<i]" "r 0" "r i"] work_run [of "map act [0..<i]" "r 0" "r i"] assms(2)
  by simp_all

text \<open>
  C39: Liveness of \<open>Close\<close>, under weak fairness alone: take any infinite run from a
  state in which it has begun, other callers arriving for ever, in which no goroutine of the bus that
  stays able to take a step of its own is passed over for ever (each such step is, again and again,
  either taken or not enabled). Then \<open>Close\<close> returns. That such a step is enabled until it has, and
  that arrivals leave it enabled, is proved, not assumed.
\<close>

theorem close_returns:
  assumes "bus_run as (new_bus n) = Some (r 0)" "bs_closed (r 0)"
    and "\<forall>i. bus_step (act i) (r i) = Some (r (Suc i))"
    and "\<forall>a i. own_step a \<longrightarrow> (\<exists>j\<ge>i. bus_step a (r j) = None \<or> act j = a)"
  shows "\<exists>i. bs_close (r i) = CloseReturned"
proof (rule ccontr)
  assume never: "\<not> ?thesis"
  note states = infinite_run_states [OF assms(1-3)]
  have "\<exists>i. \<forall>j\<ge>i. \<not> drives (act j)"
    using drives_unbounded [of act "Suc (close_work (r 0))"] states(2) by (meson Suc_n_not_le_n le_trans)
  then obtain i where quiet: "\<forall>j\<ge>i. \<not> drives (act j)"
    by blast
  have "\<exists>c. own_step c \<and> bus_step c (r i) \<noteq> None"
    using own_enabled [of "r i"] closed_begun [of "r i"] states(1) never by blast
  then obtain c where c: "own_step c" "bus_step c (r i) \<noteq> None"
    by blast
  obtain j where j: "i \<le> j" "bus_step c (r j) = None \<or> act j = c"
    using assms(4) c(1) by blast
  have "bus_step c (r j) \<noteq> None"
    using arrivals_keep_enabled [of act r i c "j - i"] assms(3) states(1) quiet c j(1) by simp
  with j quiet own_step_drives [OF c(1)] show False
    by blast
qed

section \<open>Witnesses\<close>

theorem close_terminates_witness:
  "\<exists>b b'. bus_run demo_before_close (new_bus 1) = Some b \<and> bs_closed b
     \<and> bus_run [ACloseWake, APublishWake 2] b = Some b' \<and> bs_close b' \<noteq> CloseReturned
     \<and> (\<exists>a b''. drives a \<and> bus_step a b' = Some b'')"
proof (rule demo_before_close_run)
  fix b :: "string bus"
  assume b: "bus_run demo_before_close (new_bus 1) = Some b" "bs_closed b"
    "bs_close b = CloseSnapped [''t'']" "bs_pubs b 2 = Some (PubBlocked ''t'' ''b'')"
  then obtain b' where "bus_run [ACloseWake, APublishWake 2] b = Some b'" "bs_close b' \<noteq> CloseReturned"
    by (simp add: close_wake_def publish_wake_def pub_return_def)
  with close_terminates [OF b(1,2) this(1)] b(1,2) show ?thesis
    by blast
qed

definition demo_closing :: "nat \<Rightarrow> unit bus_action" where
  "demo_closing i =
     (if i = 0 then ACloseWake else if i = 1 then ACloseWaitPublishes else if i = 2 then ACloseChannel
      else if i = 3 then ACloseWaitWorkers else ASubscribeBegin [])"

definition demo_closing_state :: "nat \<Rightarrow> unit bus" where
  "demo_closing_state i =
     (new_bus 1)\<lparr>bs_closed := True, bs_done := 0 < i,
       bs_close := (if i = 0 then CloseSnapped [] else if i = 1 then CloseWoken []
         else if i = 2 then CloseClosing [] else if i = 3 then CloseWaiting else CloseReturned)\<rparr>"

theorem close_returns_witness: "\<exists>i. bs_close (demo_closing_state i) = CloseReturned"
proof (rule close_returns [where as = "[ACloseSnapshot []]" and n = 1 and act = demo_closing])
  show "bus_run [ACloseSnapshot []] (new_bus 1) = Some (demo_closing_state 0)"
    by (simp add: close_snapshot_def demo_closing_state_def new_bus_def)
  show "bs_closed (demo_closing_state 0)"
    by (simp add: demo_closing_state_def)
  show "\<forall>i. bus_step (demo_closing i) (demo_closing_state i) = Some (demo_closing_state (Suc i))"
    by (simp add: demo_closing_def demo_closing_state_def new_bus_def close_wake_def
        close_wait_publishes_def close_channel_def close_wait_workers_def subscribe_begin_def)
  have "bus_step a (demo_closing_state (i + 4)) = None" if "own_step a" for a i
    using that
    by (cases a)
       (simp_all add: demo_closing_state_def new_bus_def subscribe_commit_def publish_topic_def publish_try_def
          publish_wake_def worker_receive_def worker_snapshot_def worker_call_def close_wake_def
          close_wait_publishes_def close_channel_def close_wait_workers_def)
  then show "\<forall>a i. own_step a \<longrightarrow> (\<exists>j\<ge>i. bus_step a (demo_closing_state j) = None \<or> demo_closing j = a)"
    by (meson le_add1)
qed

end
