(* ===== verification/Outbox.thy ===== *)
theory Outbox
  imports Prelude
begin

text \<open>
  The outbox consumer (\<^verbatim>\<open>core/pkg/outbox/consumer.go\<close>): the deduplication cache, the retry
  delays, publishing one event with its retries, the handling of an event, the receive loop and the
  \<open>Start\<close>/\<open>Stop\<close> state machine. The bus, the context, the sleeper, the stream and the jitter are the
  environment: functions of what they were asked before.
\<close>

section \<open>Deduplication\<close>

record lru_dedup =
  ld_size :: nat
  ld_order :: "string list"
  ld_set :: "string set"

definition new_lru_dedup :: "nat \<Rightarrow> lru_dedup" where
  "new_lru_dedup capacity = \<lparr>ld_size = capacity, ld_order = [], ld_set = {}\<rparr>"

definition ld_seen :: "lru_dedup \<Rightarrow> string \<Rightarrow> bool" where
  "ld_seen l i = (if i = [] then False else i \<in> ld_set l)"

definition ld_record :: "lru_dedup \<Rightarrow> string \<Rightarrow> lru_dedup" where
  "ld_record l i =
     (if i = [] then l
      else if i \<in> ld_set l then l
      else
        (let l1 = (if length (ld_order l) = ld_size l
                   then l\<lparr>ld_order := drop 1 (ld_order l), ld_set := ld_set l - {hd (ld_order l)}\<rparr>
                   else l)
         in l1\<lparr>ld_order := ld_order l1 @ [i], ld_set := insert i (ld_set l1)\<rparr>))"

section \<open>Retry delays\<close>

text \<open>\<open>backoffFor\<close> up to the jitter; durations are \<open>int64\<close>, the doubling wraps.\<close>

fun backoff_loop :: "nat \<Rightarrow> int \<Rightarrow> int \<Rightarrow> int" where
  "backoff_loop 0 base max_delay = base"
| "backoff_loop (Suc n) base max_delay =
     (let next = wrap64 (base * 2)
      in if next < base \<or> next > max_delay then max_delay else backoff_loop n next max_delay)"

definition backoff_base :: "int \<Rightarrow> int \<Rightarrow> int \<Rightarrow> int" where
  "backoff_base attempt initial max_delay =
     (let base = backoff_loop (nat (if attempt < 0 then 0 else attempt)) initial max_delay
      in if base > max_delay then max_delay else base)"

section \<open>The consumer\<close>

record event =
  ev_id :: string
  ev_event_type :: string
  ev_data :: string

abbreviation ErrPublishExhausted :: string where
  "ErrPublishExhausted \<equiv> ''outbox: publish retries exhausted''"

abbreviation ErrStreamClosed :: string where
  "ErrStreamClosed \<equiv> ''keepclient: stream closed''"

record consumer_config =
  cc_max_publish_retries :: nat
  cc_retry_initial_delay :: int
  cc_retry_max_delay :: int

text \<open>
  \<open>ce_publish\<close> answers an attempt given all earlier attempts; \<open>ce_ctx_err n\<close> is the answer of the
  \<open>n\<close>-th \<open>ctx.Err()\<close>; \<open>ce_sleep\<close> answers a sleep given the earlier ones; \<open>ce_jitter n base\<close> is the
  delay the \<open>n\<close>-th draw makes of a base delay.
\<close>

record consumer_env =
  ce_publish :: "event list \<Rightarrow> event \<Rightarrow> goerr option"
  ce_ctx_err :: "nat \<Rightarrow> goerr option"
  ce_sleep :: "int list \<Rightarrow> int \<Rightarrow> goerr option"
  ce_jitter :: "nat \<Rightarrow> int \<Rightarrow> int"

record consumer =
  co_dedup :: "lru_dedup option"
  co_attempts :: "event list"
  co_bases :: "int list"
  co_sleeps :: "int list"
  co_ctx_reads :: nat
  co_log :: "(string \<times> string) list"
  co_stop_err :: "goerr option"

definition co_emit :: "string \<Rightarrow> string \<Rightarrow> consumer \<Rightarrow> consumer" where
  "co_emit msg i c = c\<lparr>co_log := co_log c @ [(msg, i)]\<rparr>"

definition co_read_ctx :: "consumer_env \<Rightarrow> consumer \<Rightarrow> consumer \<times> goerr option" where
  "co_read_ctx E c = (c\<lparr>co_ctx_reads := Suc (co_ctx_reads c)\<rparr>, ce_ctx_err E (co_ctx_reads c))"

text \<open>The wait before attempt \<open>attempt > 0\<close>.\<close>

definition co_backoff :: "consumer_env \<Rightarrow> consumer_config \<Rightarrow> nat \<Rightarrow> consumer \<Rightarrow> consumer \<times> goerr option" where
  "co_backoff E cfg attempt c =
     (let base = backoff_base (int attempt - 1) (cc_retry_initial_delay cfg) (cc_retry_max_delay cfg);
          delay = ce_jitter E (length (co_bases c)) base
      in (c\<lparr>co_bases := co_bases c @ [base], co_sleeps := co_sleeps c @ [delay]\<rparr>,
          ce_sleep E (co_sleeps c) delay))"

text \<open>\<open>publishWithRetry\<close>: \<open>left\<close> attempts of the budget remain, \<open>attempt\<close> were made.\<close>

fun publish_attempts ::
    "consumer_env \<Rightarrow> consumer_config \<Rightarrow> event \<Rightarrow> nat \<Rightarrow> nat \<Rightarrow> goerr \<Rightarrow> consumer
     \<Rightarrow> consumer \<times> goerr option" where
  "publish_attempts E cfg ev 0 attempt last_err c =
     (c, Some (errorf_is ErrPublishExhausted last_err))"
| "publish_attempts E cfg ev (Suc left) attempt last_err c =
     (case co_read_ctx E c of
        (c1, Some e) \<Rightarrow> (c1, Some e)
      | (c1, None) \<Rightarrow>
          (case (if attempt > 0 then co_backoff E cfg attempt c1 else (c1, None)) of
             (c2, Some e) \<Rightarrow> (c2, Some e)
           | (c2, None) \<Rightarrow>
               (let c3 = c2\<lparr>co_attempts := co_attempts c2 @ [ev]\<rparr>
                in case ce_publish E (co_attempts c2) ev of
                     None \<Rightarrow> (c3, None)
                   | Some err \<Rightarrow>
                       (let (c4, ctx_error) =
                          (if errors_is err CtxCanceled then co_read_ctx E c3 else (c3, None))
                        in if ctx_error \<noteq> None then co_read_ctx E c4
                           else publish_attempts E cfg ev left (Suc attempt) err
                                  (co_emit ''outbox: publish attempt failed'' (ev_id ev) c4)))))"

definition publish_with_retry ::
    "consumer_env \<Rightarrow> consumer_config \<Rightarrow> event \<Rightarrow> consumer \<Rightarrow> consumer \<times> goerr option" where
  "publish_with_retry E cfg ev c = publish_attempts E cfg ev (cc_max_publish_retries cfg) 0 [] c"

definition handle_event :: "consumer_env \<Rightarrow> consumer_config \<Rightarrow> event \<Rightarrow> consumer \<Rightarrow> consumer" where
  "handle_event E cfg ev c =
     (if ev_event_type ev = [] then co_emit ''outbox: malformed event (empty event_type)'' (ev_id ev) c
      else if (case co_dedup c of None \<Rightarrow> False | Some l \<Rightarrow> ld_seen l (ev_id ev)) then c
      else case publish_with_retry E cfg ev c of
        (c1, Some err) \<Rightarrow>
          (if errors_is err CtxCanceled \<or> errors_is err CtxDeadlineExceeded then c1
           else co_emit ''outbox: publish exhausted'' (ev_id ev) c1)
      | (c1, None) \<Rightarrow>
          c1\<lparr>co_dedup := map_option (\<lambda>l. ld_record l (ev_id ev)) (co_dedup c1)\<rparr>)"

text \<open>
  The receive loop over the successive answers of \<open>stream.Next\<close>: it returns on the first error, and
  is still waiting when the answers given end.
\<close>

fun consume_loop ::
    "consumer_env \<Rightarrow> consumer_config \<Rightarrow> (goerr + event) list \<Rightarrow> consumer \<Rightarrow> consumer \<times> bool" where
  "consume_loop E cfg [] c = (c, False)"
| "consume_loop E cfg (Inr ev # nexts) c = consume_loop E cfg nexts (handle_event E cfg ev c)"
| "consume_loop E cfg (Inl e # nexts) c =
     (if errors_is e CtxCanceled \<or> errors_is e CtxDeadlineExceeded then (c, True)
      else if errors_is e ErrStreamClosed then (c, True)
      else ((co_emit ''outbox: stream error'' [] c)\<lparr>co_stop_err := Some (errorf ''outbox: stream'' e)\<rparr>, True))"

definition consumer_run ::
    "consumer_env \<Rightarrow> consumer_config \<Rightarrow> goerr + (goerr + event) list \<Rightarrow> consumer \<Rightarrow> consumer \<times> bool" where
  "consumer_run E cfg subscribed c =
     (case subscribed of
        Inl e \<Rightarrow>
          ((co_emit ''outbox: subscribe failed'' [] c)\<lparr>co_stop_err := Some (errorf ''outbox: subscribe'' e)\<rparr>,
           True)
      | Inr nexts \<Rightarrow> consume_loop E cfg nexts c)"

section \<open>Start and Stop\<close>

datatype consumer_state = StateNotStarted | StateStarted | StateStopped

abbreviation ErrAlreadyStarted :: string where "ErrAlreadyStarted \<equiv> ''outbox: already started''"
abbreviation ErrAlreadyStopped :: string where "ErrAlreadyStopped \<equiv> ''outbox: already stopped''"
abbreviation ErrNotStarted :: string where "ErrNotStarted \<equiv> ''outbox: not started''"

text \<open>\<open>lc_runs\<close> counts the goroutines launched, \<open>lc_cancelled\<close> whether the loop's context is.\<close>

record consumer_life =
  lc_state :: consumer_state
  lc_runs :: nat
  lc_cancelled :: bool

definition new_life :: consumer_life where
  "new_life = \<lparr>lc_state = StateNotStarted, lc_runs = 0, lc_cancelled = False\<rparr>"

definition consumer_start :: "consumer_life \<Rightarrow> consumer_life \<times> goerr option" where
  "consumer_start s =
     (case lc_state s of
        StateStarted \<Rightarrow> (s, Some [Sentinel ErrAlreadyStarted])
      | StateStopped \<Rightarrow> (s, Some [Sentinel ErrAlreadyStopped])
      | StateNotStarted \<Rightarrow> (s\<lparr>lc_state := StateStarted, lc_runs := Suc (lc_runs s)\<rparr>, None))"

text \<open>\<open>Stop\<close> up to its wait: the answer is the loop's \<open>stopErr\<close>.\<close>

definition consumer_stop :: "goerr option \<Rightarrow> consumer_life \<Rightarrow> consumer_life \<times> goerr option" where
  "consumer_stop stop_err s =
     (if lc_state s = StateNotStarted then (s, Some [Sentinel ErrNotStarted])
      else (s\<lparr>lc_state := StateStopped, lc_cancelled := True\<rparr>, stop_err))"

section \<open>The cache\<close>

definition ld_inv :: "lru_dedup \<Rightarrow> bool" where
  "ld_inv l \<longleftrightarrow>
     distinct (ld_order l) \<and> set (ld_order l) = ld_set l \<and> length (ld_order l) \<le> ld_size l
     \<and> [] \<notin> ld_set l \<and> 0 < ld_size l"

lemma ld_inv_new: "0 < n \<Longrightarrow> ld_inv (new_lru_dedup n)"
  by (simp add: ld_inv_def new_lru_dedup_def)

lemma ld_size_record [simp]: "ld_size (ld_record l i) = ld_size l"
  by (simp add: ld_record_def Let_def)

lemma ld_order_record:
  assumes "ld_inv l" "i \<noteq> []" "i \<notin> ld_set l"
  shows "ld_order (ld_record l i) =
      (if length (ld_order l) = ld_size l then tl (ld_order l) else ld_order l) @ [i]"
  using assms by (simp add: ld_record_def Let_def drop_Suc)

lemma ld_record_old: "i = [] \<or> i \<in> ld_set l \<Longrightarrow> ld_record l i = l"
  by (auto simp: ld_record_def)

lemma ld_inv_record: "ld_inv l \<Longrightarrow> ld_inv (ld_record l i)"
proof -
  assume inv: "ld_inv l"
  show ?thesis
  proof (cases "i = [] \<or> i \<in> ld_set l")
    case True
    then show ?thesis using inv ld_record_old by simp
  next
    case new: False
    show ?thesis
    proof (cases "length (ld_order l) = ld_size l")
      case True
      then obtain x xs where "ld_order l = x # xs"
        using inv by (cases "ld_order l") (auto simp: ld_inv_def)
      then show ?thesis using new True inv by (auto simp: ld_inv_def ld_record_def Let_def)
    next
      case False
      then have "ld_record l i = l\<lparr>ld_order := ld_order l @ [i], ld_set := insert i (ld_set l)\<rparr>"
        using new by (simp add: ld_record_def)
      then show ?thesis using new False inv by (auto simp: ld_inv_def)
    qed
  qed
qed

text \<open>\<open>i\<close> is held with at most \<open>k\<close> entries recorded after it.\<close>

definition held :: "nat \<Rightarrow> string \<Rightarrow> lru_dedup \<Rightarrow> bool" where
  "held k i l \<longleftrightarrow> (\<exists>xs ys. ld_order l = xs @ i # ys \<and> length ys \<le> k)"

lemma held_recorded: "ld_inv l \<Longrightarrow> i \<noteq> [] \<Longrightarrow> \<not> ld_seen l i \<Longrightarrow> held 0 i (ld_record l i)"
  by (simp add: held_def ld_seen_def ld_order_record)

lemma held_seen:
  assumes "ld_inv l" "held k i l"
  shows "ld_seen l i"
proof -
  have "i \<in> set (ld_order l)" using assms(2) by (auto simp: held_def)
  then have "i \<in> ld_set l" using assms(1) by (simp add: ld_inv_def)
  moreover have "i \<noteq> []" using calculation assms(1) by (auto simp: ld_inv_def)
  ultimately show ?thesis by (simp add: ld_seen_def)
qed

lemma held_mono: "held k i l \<Longrightarrow> k \<le> k' \<Longrightarrow> held k' i l"
  by (fastforce simp: held_def)

lemma held_record:
  assumes "ld_inv l" "held k i l" "Suc k < ld_size l"
  shows "held (Suc k) i (ld_record l j)"
proof (cases "j = [] \<or> j \<in> ld_set l")
  case True
  then have "ld_record l j = l" by (rule ld_record_old)
  then show ?thesis using held_mono [OF assms(2)] by simp
next
  case False
  obtain xs ys where l: "ld_order l = xs @ i # ys" "length ys \<le> k"
    using assms(2) by (auto simp: held_def)
  have order: "ld_order (ld_record l j) =
      (if length (ld_order l) = ld_size l then tl (ld_order l) else ld_order l) @ [j]"
    using ld_order_record [OF assms(1)] False by simp
  show ?thesis
  proof (cases "length (ld_order l) = ld_size l")
    case True
    then have "xs \<noteq> []" using l assms(3) by auto
    then have "ld_order (ld_record l j) = tl xs @ i # (ys @ [j])"
      using order True l(1) by simp
    then show ?thesis
      using l(2) unfolding held_def by (intro exI [of _ "tl xs"] exI [of _ "ys @ [j]"]) simp
  next
    case False
    then have "ld_order (ld_record l j) = xs @ i # (ys @ [j])"
      using order l(1) by simp
    then show ?thesis
      using l(2) unfolding held_def by (intro exI [of _ xs] exI [of _ "ys @ [j]"]) simp
  qed
qed

lemma held_records:
  "ld_inv l \<Longrightarrow> held k i l \<Longrightarrow> k + length js < ld_size l \<Longrightarrow> held (k + length js) i (foldl ld_record l js)"
proof (induction js arbitrary: l k)
  case (Cons j js)
  have "held (Suc k) i (ld_record l j)"
    using held_record [OF Cons.prems(1,2)] Cons.prems(3) by simp
  from Cons.IH [OF ld_inv_record [OF Cons.prems(1)] this] Cons.prems(3) show ?case by simp
qed simp

lemma ld_inv_records: "ld_inv l \<Longrightarrow> ld_inv (foldl ld_record l js)"
  by (induction js arbitrary: l) (simp_all add: ld_inv_record)

section \<open>The delays\<close>

lemma backoff_loop_exact:
  assumes "0 < base" "is_int64 base" "0 < m" "is_int64 m"
  shows "min (backoff_loop n base m) m = min (base * 2 ^ n) m"
  using assms(1,2)
proof (induction n arbitrary: base)
  case (Suc n)
  show ?case
  proof (cases "base * 2 \<le> int64_max")
    case True
    then have "is_int64 (base * 2)"
      using Suc.prems(1) by (simp add: is_int64_def int64_min_def)
    then have step: "backoff_loop (Suc n) base m = (if base * 2 > m then m else backoff_loop n (base * 2) m)"
      using Suc.prems(1) by simp
    have le: "base * 2 \<le> base * 2 ^ Suc n"
      using Suc.prems(1) by simp
    show ?thesis
    proof (cases "base * 2 > m")
      case True
      then show ?thesis using step le by simp
    next
      case False
      then show ?thesis
        using step Suc.IH [of "base * 2"] Suc.prems(1) \<open>is_int64 (base * 2)\<close> by (simp add: mult.assoc)
    qed
  next
    case False
    then have "wrap64 (base * 2) = base * 2 - 2 ^ 64"
      using Suc.prems(2) by (intro wrap64_high) (auto simp: is_int64_def int64_max_def)
    moreover have "base * 2 - 2 ^ 64 < base"
      using Suc.prems(2) by (simp add: is_int64_def int64_max_def)
    moreover have "m < base * 2 ^ Suc n"
    proof -
      have "m < base * 2" using False assms(4) by (simp add: is_int64_def)
      also have "base * 2 \<le> base * 2 ^ Suc n" using Suc.prems(1) by simp
      finally show ?thesis .
    qed
    ultimately show ?thesis by simp
  qed
qed simp

lemma backoff_base_exact:
  assumes "0 < initial" "is_int64 initial" "0 < m" "is_int64 m"
  shows "backoff_base attempt initial m = min (initial * 2 ^ nat attempt) m"
  using backoff_loop_exact [OF assms, of "nat attempt"]
  by (auto simp: backoff_base_def Let_def min_def split: if_splits)

section \<open>One event\<close>

lemma co_emit_simps [simp]:
  "co_dedup (co_emit m i c) = co_dedup c" "co_attempts (co_emit m i c) = co_attempts c"
  "co_bases (co_emit m i c) = co_bases c" "co_sleeps (co_emit m i c) = co_sleeps c"
  "co_ctx_reads (co_emit m i c) = co_ctx_reads c" "co_log (co_emit m i c) = co_log c @ [(m, i)]"
  by (simp_all add: co_emit_def)

lemma co_read_ctx_frame:
  "co_read_ctx E c = (c', r) \<Longrightarrow> co_dedup c' = co_dedup c \<and> co_attempts c' = co_attempts c
    \<and> co_bases c' = co_bases c \<and> co_log c' = co_log c"
  by (auto simp: co_read_ctx_def)

lemma co_backoff_frame:
  "co_backoff E cfg attempt c = (c', r) \<Longrightarrow> co_dedup c' = co_dedup c \<and> co_attempts c' = co_attempts c
    \<and> co_log c' = co_log c
    \<and> co_bases c' = co_bases c @ [backoff_base (int attempt - 1) (cc_retry_initial_delay cfg) (cc_retry_max_delay cfg)]"
  by (auto simp: co_backoff_def Let_def)

text \<open>
  What \<open>publish_attempts\<close> does to the record of attempts and delays: \<open>n\<close> further attempts of the same
  event, never more than the budget left, with the delays of the attempts in between.
\<close>

definition delay_of :: "consumer_config \<Rightarrow> nat \<Rightarrow> int" where
  "delay_of cfg k = backoff_base (int k) (cc_retry_initial_delay cfg) (cc_retry_max_delay cfg)"

definition retry_trace :: "consumer_config \<Rightarrow> event \<Rightarrow> nat \<Rightarrow> nat \<Rightarrow> consumer \<Rightarrow> consumer \<Rightarrow> bool" where
  "retry_trace cfg ev left attempt c c' \<longleftrightarrow>
     co_dedup c' = co_dedup c
     \<and> (\<exists>n m. n \<le> left \<and> co_attempts c' = co_attempts c @ replicate n ev
          \<and> m \<le> left \<and> (attempt = 0 \<longrightarrow> m < left \<or> m = 0)
          \<and> co_bases c' = co_bases c @ map (delay_of cfg) [attempt - 1 ..< attempt - 1 + m])"

lemma retry_trace_refl: "co_dedup c' = co_dedup c \<Longrightarrow> co_attempts c' = co_attempts c \<Longrightarrow>
    co_bases c' = co_bases c \<Longrightarrow> retry_trace cfg ev left attempt c c'"
  unfolding retry_trace_def by (intro conjI exI [of _ 0]) simp_all

text \<open>One turn of the loop: it stops before the attempt, or makes it and returns or goes on.\<close>

lemma publish_attempts_Suc:
  assumes "publish_attempts E cfg ev (Suc left) attempt last_err c = (c', r)"
  shows "\<exists>c2 bs. co_dedup c2 = co_dedup c \<and> co_attempts c2 = co_attempts c \<and> co_bases c2 = co_bases c @ bs
    \<and> (bs = [] \<or> attempt > 0 \<and> bs = [delay_of cfg (attempt - 1)])
    \<and> (c' = c2 \<or> (attempt > 0 \<longrightarrow> bs \<noteq> [])
        \<and> (\<exists>c3. co_dedup c3 = co_dedup c \<and> co_attempts c3 = co_attempts c @ [ev] \<and> co_bases c3 = co_bases c2
             \<and> (c' = c3 \<or> (\<exists>err. publish_attempts E cfg ev left (Suc attempt) err c3 = (c', r)))))"
proof -
  obtain c1 r1 where read: "co_read_ctx E c = (c1, r1)" by fastforce
  note f1 = co_read_ctx_frame [OF read]
  show ?thesis
  proof (cases r1)
    case (Some e)
    then show ?thesis
      using assms read f1 by (intro exI [of _ c1] exI [of _ "[]"]) simp
  next
    case None
    obtain c2 r2 where waited: "(if attempt > 0 then co_backoff E cfg attempt c1 else (c1, None)) = (c2, r2)"
      by fastforce
    define bs where "bs = (if attempt > 0 then [delay_of cfg (attempt - 1)] else [])"
    have f2: "co_dedup c2 = co_dedup c" "co_attempts c2 = co_attempts c" "co_bases c2 = co_bases c @ bs"
      using waited co_backoff_frame [of E cfg attempt c1 c2 r2] f1
      by (auto simp: bs_def delay_of_def of_nat_diff split: if_splits)
    show ?thesis
    proof (cases r2)
      case (Some e)
      then have "c' = c2"
        using assms read None waited by simp
      then show ?thesis
        using f2 by (intro exI [of _ c2] exI [of _ bs]) (simp add: bs_def)
    next
      case None2: None
      let ?c3 = "c2\<lparr>co_attempts := co_attempts c2 @ [ev]\<rparr>"
      have "\<exists>c3. co_dedup c3 = co_dedup c \<and> co_attempts c3 = co_attempts c @ [ev] \<and> co_bases c3 = co_bases c2
          \<and> (c' = c3 \<or> (\<exists>err. publish_attempts E cfg ev left (Suc attempt) err c3 = (c', r)))"
      proof (cases "ce_publish E (co_attempts c2) ev")
        case None
        then have "c' = ?c3"
          using assms read \<open>r1 = None\<close> waited None2 by (simp add: Let_def)
        then show ?thesis
          using f2 by (intro exI [of _ ?c3]) simp
      next
        case (Some err)
        obtain c4 ce where rd: "(if errors_is err CtxCanceled then co_read_ctx E ?c3 else (?c3, None)) = (c4, ce)"
          by fastforce
        have f4: "co_dedup c4 = co_dedup c" "co_attempts c4 = co_attempts c @ [ev]" "co_bases c4 = co_bases c2"
          using rd f2 co_read_ctx_frame [of E ?c3 c4 ce] by (auto split: if_splits)
        obtain c5 r5 where rd5: "co_read_ctx E c4 = (c5, r5)" by fastforce
        have run: "(c', r) = (if ce \<noteq> None then (c5, r5) else publish_attempts E cfg ev left (Suc attempt) err
            (co_emit ''outbox: publish attempt failed'' (ev_id ev) c4))"
          using assms read \<open>r1 = None\<close> waited None2 Some rd rd5
          by (cases "ce = None") (simp_all add: Let_def)
        show ?thesis
        proof (cases "ce = None")
          case True
          then show ?thesis
            using run f4
            by (intro exI [of _ "co_emit ''outbox: publish attempt failed'' (ev_id ev) c4"]) auto
        next
          case False
          then show ?thesis
            using run f4 co_read_ctx_frame [OF rd5] by (intro exI [of _ c5]) simp
        qed
      qed
      then show ?thesis
        using f2 by (intro exI [of _ c2] exI [of _ bs]) (simp add: bs_def)
    qed
  qed
qed

lemma upt_shift_Cons: "map f [a ..< a + Suc m] = f a # map f [Suc a ..< Suc a + m]"
  by (simp add: upt_rec)

lemma publish_attempts_trace:
  "publish_attempts E cfg ev left attempt last_err c = (c', r) \<Longrightarrow> retry_trace cfg ev left attempt c c'"
proof (induction left arbitrary: attempt last_err c)
  case 0
  then show ?case by (simp add: retry_trace_refl)
next
  case (Suc left)
  from publish_attempts_Suc [OF Suc.prems] obtain c2 bs where
    c2: "co_dedup c2 = co_dedup c" "co_attempts c2 = co_attempts c" "co_bases c2 = co_bases c @ bs"
    and bs: "bs = [] \<or> attempt > 0 \<and> bs = [delay_of cfg (attempt - 1)]"
    and next_step: "c' = c2 \<or> (attempt > 0 \<longrightarrow> bs \<noteq> [])
        \<and> (\<exists>c3. co_dedup c3 = co_dedup c \<and> co_attempts c3 = co_attempts c @ [ev] \<and> co_bases c3 = co_bases c2
             \<and> (c' = c3 \<or> (\<exists>err. publish_attempts E cfg ev left (Suc attempt) err c3 = (c', r))))"
    by blast
  define m0 where "m0 = length bs"
  have m0: "m0 \<le> 1" "attempt = 0 \<longrightarrow> m0 = 0"
    using bs by (auto simp: m0_def)
  have "[delay_of cfg a] = map (delay_of cfg) [a ..< a + 1]" for a
    by simp
  then have m0': "bs = map (delay_of cfg) [attempt - 1 ..< attempt - 1 + m0]"
    using bs by (elim disjE conjE) (simp_all only: m0_def list.size One_nat_def, simp_all)
  note m0 = m0 m0'
  show ?case
    using next_step
  proof
    assume "c' = c2"
    then show ?thesis
      using c2 m0 unfolding retry_trace_def
      by (intro conjI exI [of _ 0] exI [of _ m0]) simp_all
  next
    assume "(attempt > 0 \<longrightarrow> bs \<noteq> [])
        \<and> (\<exists>c3. co_dedup c3 = co_dedup c \<and> co_attempts c3 = co_attempts c @ [ev] \<and> co_bases c3 = co_bases c2
             \<and> (c' = c3 \<or> (\<exists>err. publish_attempts E cfg ev left (Suc attempt) err c3 = (c', r))))"
    then have full: "attempt > 0 \<longrightarrow> m0 = 1"
      and "\<exists>c3. co_dedup c3 = co_dedup c \<and> co_attempts c3 = co_attempts c @ [ev] \<and> co_bases c3 = co_bases c2
             \<and> (c' = c3 \<or> (\<exists>err. publish_attempts E cfg ev left (Suc attempt) err c3 = (c', r)))"
      using bs by (auto simp: m0_def)
    then obtain c3 where c3: "co_dedup c3 = co_dedup c" "co_attempts c3 = co_attempts c @ [ev]" "co_bases c3 = co_bases c @ bs"
      and last: "c' = c3 \<or> (\<exists>err. publish_attempts E cfg ev left (Suc attempt) err c3 = (c', r))"
      unfolding c2 by blast
    from last have "retry_trace cfg ev left (Suc attempt) c3 c'"
    proof
      assume "c' = c3"
      then show ?thesis by (simp add: retry_trace_refl)
    next
      assume "\<exists>err. publish_attempts E cfg ev left (Suc attempt) err c3 = (c', r)"
      then show ?thesis using Suc.IH by blast
    qed
    then obtain n m where n: "n \<le> left" "co_attempts c' = co_attempts c3 @ replicate n ev" "m \<le> left"
      "co_bases c' = co_bases c3 @ map (delay_of cfg) [attempt ..< attempt + m]" "co_dedup c' = co_dedup c3"
      unfolding retry_trace_def by auto
    have "co_bases c' = co_bases c @ map (delay_of cfg) [attempt - 1 ..< attempt - 1 + (m0 + m)]"
    proof (cases "attempt = 0")
      case True
      then show ?thesis using n(4) c3(3) m0(2,3) by simp
    next
      case False
      then show ?thesis
        using n(4) c3(3) m0(3) full upt_shift_Cons [of "delay_of cfg" "attempt - 1" m]
        by (simp add: upt_rec [of "attempt - Suc 0" attempt])
    qed
    then show ?thesis
      using n c3 m0(1,2) unfolding retry_trace_def
      by (intro conjI exI [of _ "Suc n"] exI [of _ "m0 + m"]) auto
  qed
qed

section \<open>Handling an event\<close>

lemma publish_with_retry_trace:
  "publish_with_retry E cfg ev c = (c', r) \<Longrightarrow> retry_trace cfg ev (cc_max_publish_retries cfg) 0 c c'"
  unfolding publish_with_retry_def by (rule publish_attempts_trace)

lemma handle_event_dedup:
  "co_dedup (handle_event E cfg ev c) = co_dedup c
   \<or> co_dedup (handle_event E cfg ev c) = map_option (\<lambda>l. ld_record l (ev_id ev)) (co_dedup c)"
proof -
  obtain c1 r where p: "publish_with_retry E cfg ev c = (c1, r)" by fastforce
  have "co_dedup c1 = co_dedup c"
    using publish_with_retry_trace [OF p] by (simp add: retry_trace_def)
  then show ?thesis
    using p by (cases r) (simp_all add: handle_event_def)
qed

text \<open>The ids recorded while a list of events is handled: at most one per event.\<close>

lemma handle_events_dedup:
  assumes "co_dedup c = Some l"
  shows "\<exists>js. length js \<le> length evs
    \<and> co_dedup (foldl (\<lambda>c ev. handle_event E cfg ev c) c evs) = Some (foldl ld_record l js)"
  using assms
proof (induction evs arbitrary: c l)
  case Nil
  then show ?case by (intro exI [of _ "[]"]) simp
next
  case (Cons ev evs)
  from handle_event_dedup [of E cfg ev c] Cons.prems
  consider "co_dedup (handle_event E cfg ev c) = Some l"
    | "co_dedup (handle_event E cfg ev c) = Some (ld_record l (ev_id ev))" by auto
  then show ?case
  proof cases
    case 1
    from Cons.IH [OF 1] show ?thesis by (auto intro: le_SucI)
  next
    case 2
    from Cons.IH [OF 2] obtain js where "length js \<le> length evs"
      "co_dedup (foldl (\<lambda>c ev. handle_event E cfg ev c) (handle_event E cfg ev c) evs)
         = Some (foldl ld_record (ld_record l (ev_id ev)) js)" by blast
    then show ?thesis by (intro exI [of _ "ev_id ev # js"]) simp
  qed
qed

section \<open>Properties\<close>

text \<open>
  C31: no duplicate within the window. Once an event's id has been recorded by a successful publish,
  then through any further events fewer than the cache size, whatever the bus answers, a redelivery
  of the id makes no publish attempt.
\<close>

theorem no_duplicate_within_window:
  assumes "co_dedup c = Some l" "ld_inv l" "ev_id ev \<noteq> []" "\<not> ld_seen l (ev_id ev)"
    and "co_dedup (handle_event E cfg ev c) = Some (ld_record l (ev_id ev))"
    and "length evs < ld_size l" "ev_id ev' = ev_id ev" "ev_event_type ev' \<noteq> []"
    and "c2 = foldl (\<lambda>c ev. handle_event E cfg ev c) (handle_event E cfg ev c) evs"
  shows "handle_event E cfg ev' c2 = c2"
proof -
  obtain js where js: "length js \<le> length evs"
    "co_dedup c2 = Some (foldl ld_record (ld_record l (ev_id ev)) js)"
    using handle_events_dedup [OF assms(5), of evs E cfg] assms(9) by auto
  have inv: "ld_inv (ld_record l (ev_id ev))" by (rule ld_inv_record [OF assms(2)])
  have "held (0 + length js) (ev_id ev) (foldl ld_record (ld_record l (ev_id ev)) js)"
    using held_records [OF inv held_recorded [OF assms(2-4)], of js] js(1) assms(6) by simp
  then have "ld_seen (foldl ld_record (ld_record l (ev_id ev)) js) (ev_id ev)"
    using held_seen [OF ld_inv_records [OF inv]] by blast
  then show ?thesis
    using js(2) assms(7,8) by (simp add: handle_event_def)
qed

text \<open>
  Bounded retries. Handling one event makes at most the configured number of attempts, all of
  that event, and waits between them with base delays of \<open>initial * 2 ^ k\<close> capped at the maximum,
  exact although the code doubles in wrapping \<open>int64\<close> arithmetic.
\<close>

theorem handle_event_bounded_retries:
  assumes "0 < cc_retry_initial_delay cfg" "is_int64 (cc_retry_initial_delay cfg)"
    and "0 < cc_retry_max_delay cfg" "is_int64 (cc_retry_max_delay cfg)"
  shows "\<exists>n m. n \<le> cc_max_publish_retries cfg \<and> (m < cc_max_publish_retries cfg \<or> m = 0)
    \<and> co_attempts (handle_event E cfg ev c) = co_attempts c @ replicate n ev
    \<and> co_bases (handle_event E cfg ev c) = co_bases c @
        map (\<lambda>k. min (cc_retry_initial_delay cfg * 2 ^ k) (cc_retry_max_delay cfg)) [0 ..< m]"
proof -
  obtain c1 r where p: "publish_with_retry E cfg ev c = (c1, r)" by fastforce
  have delay: "delay_of cfg = (\<lambda>k. min (cc_retry_initial_delay cfg * 2 ^ k) (cc_retry_max_delay cfg))"
    using backoff_base_exact [OF assms] by (simp add: delay_of_def fun_eq_iff)
  have same: "co_attempts (handle_event E cfg ev c) = co_attempts c \<and> co_bases (handle_event E cfg ev c) = co_bases c
      \<or> co_attempts (handle_event E cfg ev c) = co_attempts c1 \<and> co_bases (handle_event E cfg ev c) = co_bases c1"
    using p by (cases r) (simp_all add: handle_event_def)
  obtain n m where nm: "n \<le> cc_max_publish_retries cfg" "m < cc_max_publish_retries cfg \<or> m = 0"
    "co_attempts c1 = co_attempts c @ replicate n ev" "co_bases c1 = co_bases c @ map (delay_of cfg) [0 ..< m]"
    using publish_with_retry_trace [OF p] by (auto simp: retry_trace_def)
  from same show ?thesis
  proof
    assume "co_attempts (handle_event E cfg ev c) = co_attempts c \<and> co_bases (handle_event E cfg ev c) = co_bases c"
    then show ?thesis by (intro exI [of _ 0]) simp
  next
    assume "co_attempts (handle_event E cfg ev c) = co_attempts c1 \<and> co_bases (handle_event E cfg ev c) = co_bases c1"
    then show ?thesis using nm by (intro exI [of _ n] exI [of _ m]) (simp add: delay)
  qed
qed

text \<open>A bus that answers every attempt with the same error, under a live context.\<close>

lemma publish_attempts_always_failing:
  assumes "\<forall>h e. ce_publish E h e = Some err" "\<forall>n. ce_ctx_err E n = None" "\<forall>h d. ce_sleep E h d = None"
  shows "\<exists>c'. publish_attempts E cfg ev left attempt last_err c
      = (c', Some (errorf_is ErrPublishExhausted (if left = 0 then last_err else err)))
    \<and> co_log c' = co_log c @ replicate left (''outbox: publish attempt failed'', ev_id ev)
    \<and> co_dedup c' = co_dedup c"
proof (induction left arbitrary: attempt last_err c)
  case (Suc left)
  obtain c1 where read: "co_read_ctx E c = (c1, None)" "co_log c1 = co_log c" "co_dedup c1 = co_dedup c"
    using assms(2) by (simp add: co_read_ctx_def)
  obtain c2 r2 where wait: "(if attempt > 0 then co_backoff E cfg attempt c1 else (c1, None)) = (c2, r2)"
    by fastforce
  have waited: "(if attempt > 0 then co_backoff E cfg attempt c1 else (c1, None)) = (c2, None)"
    "co_log c2 = co_log c" "co_dedup c2 = co_dedup c"
    using wait assms(3) read(2,3) by (auto simp: co_backoff_def Let_def split: if_splits)
  let ?c3 = "c2\<lparr>co_attempts := co_attempts c2 @ [ev]\<rparr>"
  obtain c4 r4 where rd0: "(if errors_is err CtxCanceled then co_read_ctx E ?c3 else (?c3, None)) = (c4, r4)"
    by fastforce
  have rd: "(if errors_is err CtxCanceled then co_read_ctx E ?c3 else (?c3, None)) = (c4, None)"
    "co_log c4 = co_log c" "co_dedup c4 = co_dedup c"
    using rd0 assms(2) waited(2,3) by (auto simp: co_read_ctx_def split: if_splits)
  obtain c' where "publish_attempts E cfg ev left (Suc attempt) err
        (co_emit ''outbox: publish attempt failed'' (ev_id ev) c4)
      = (c', Some (errorf_is ErrPublishExhausted (if left = 0 then err else err)))"
    "co_log c' = co_log c @ (''outbox: publish attempt failed'', ev_id ev)
        # replicate left (''outbox: publish attempt failed'', ev_id ev)"
    "co_dedup c' = co_dedup c"
    using Suc.IH [of "Suc attempt" err "co_emit ''outbox: publish attempt failed'' (ev_id ev) c4"] rd(2,3)
    by auto
  then show ?case
    using read(1) waited(1) rd(1) assms(1) by (intro exI [of _ c']) (simp add: Let_def)
qed simp

text \<open>
  An event dropped on publish timeouts leaves no \<open>publish exhausted\<close> entry. When every attempt
  fails under a live context, the log gets one line per attempt, and the final line exactly when the
  error is neither a cancellation nor a deadline: an attempt that runs into the consumer's own
  per-attempt timeout is taken for a cancelled caller. The event is not recorded in either case.
\<close>

theorem exhausted_log_missing_on_timeout:
  assumes "\<forall>h e. ce_publish E h e = Some err" "\<forall>n. ce_ctx_err E n = None" "\<forall>h d. ce_sleep E h d = None"
    and "0 < cc_max_publish_retries cfg" "ev_event_type ev \<noteq> []" "co_dedup c = None"
  shows "co_log (handle_event E cfg ev c) =
      co_log c @ replicate (cc_max_publish_retries cfg) (''outbox: publish attempt failed'', ev_id ev)
      @ (if errors_is err CtxCanceled \<or> errors_is err CtxDeadlineExceeded then []
         else [(''outbox: publish exhausted'', ev_id ev)])"
proof -
  obtain c' where "publish_with_retry E cfg ev c = (c', Some (errorf_is ErrPublishExhausted err))"
    "co_log c' = co_log c @ replicate (cc_max_publish_retries cfg) (''outbox: publish attempt failed'', ev_id ev)"
    using publish_attempts_always_failing [OF assms(1-3), of cfg ev "cc_max_publish_retries cfg" 0 "[]" c] assms(4)
    by (auto simp: publish_with_retry_def)
  then show ?thesis
    using assms(5,6) by (simp add: handle_event_def)
qed

section \<open>Witnesses\<close>

definition demo_event :: event where
  "demo_event = \<lparr>ev_id = ''e1'', ev_event_type = ''t'', ev_data = []\<rparr>"

definition demo_env :: "goerr option \<Rightarrow> consumer_env" where
  "demo_env r = \<lparr>ce_publish = (\<lambda>_ _. r), ce_ctx_err = (\<lambda>_. None), ce_sleep = (\<lambda>_ _. None),
     ce_jitter = (\<lambda>_ d. d)\<rparr>"

definition demo_config :: consumer_config where
  "demo_config = \<lparr>cc_max_publish_retries = 3, cc_retry_initial_delay = 25000000,
     cc_retry_max_delay = 1000000000\<rparr>"

definition demo_consumer :: "lru_dedup option \<Rightarrow> consumer" where
  "demo_consumer l = \<lparr>co_dedup = l, co_attempts = [], co_bases = [], co_sleeps = [], co_ctx_reads = 0,
     co_log = [], co_stop_err = None\<rparr>"

theorem no_duplicate_within_window_witness:
  "\<exists>c2. handle_event (demo_env None) demo_config demo_event c2 = c2 \<and> co_attempts c2 = [demo_event]"
proof -
  let ?c = "demo_consumer (Some (new_lru_dedup 2))"
  let ?h = "handle_event (demo_env None) demo_config demo_event ?c"
  have h: "co_dedup ?h = Some (ld_record (new_lru_dedup 2) (ev_id demo_event))" "co_attempts ?h = [demo_event]"
    by (simp_all add: handle_event_def publish_with_retry_def demo_env_def demo_config_def demo_event_def
        demo_consumer_def new_lru_dedup_def ld_seen_def co_read_ctx_def numeral_3_eq_3)
  have c: "co_dedup ?c = Some (new_lru_dedup 2)" "ld_inv (new_lru_dedup 2)" "ev_id demo_event \<noteq> []"
    "\<not> ld_seen (new_lru_dedup 2) (ev_id demo_event)" "length [] < ld_size (new_lru_dedup 2)"
    "ev_event_type demo_event \<noteq> []"
    by (simp_all add: demo_consumer_def ld_inv_new demo_event_def new_lru_dedup_def ld_seen_def
        ld_inv_new [unfolded new_lru_dedup_def])
  from no_duplicate_within_window [OF c(1-4) h(1) c(5) refl c(6) refl] h(2) show ?thesis by auto
qed

theorem handle_event_bounded_retries_witness:
  "\<exists>n \<le> 3. co_attempts (handle_event (demo_env (Some [Text ''bus''])) demo_config demo_event (demo_consumer None))
     = replicate n demo_event"
  using handle_event_bounded_retries [of demo_config "demo_env (Some [Text ''bus''])" demo_event "demo_consumer None"]
  by (auto simp: demo_config_def is_int64_def int64_min_def int64_max_def demo_consumer_def)

theorem exhausted_log_missing_on_timeout_witness:
  "co_log (handle_event (demo_env (Some [Text ''eventbus: publish'', Sentinel CtxDeadlineExceeded])) demo_config
      demo_event (demo_consumer None)) = replicate 3 (''outbox: publish attempt failed'', ''e1'')"
  using exhausted_log_missing_on_timeout
    [of "demo_env (Some [Text ''eventbus: publish'', Sentinel CtxDeadlineExceeded])"
      "[Text ''eventbus: publish'', Sentinel CtxDeadlineExceeded]" demo_config demo_event "demo_consumer None"]
  by (simp add: demo_env_def demo_config_def demo_event_def demo_consumer_def)

end
