(* ===== verification/Signatures.thy ===== *)
theory Signatures
  imports Prelude
begin

text \<open>
  Verification of signed requests: the approval webhook
  (\<^verbatim>\<open>core/pkg/approval/webhook.go\<close>, \<open>verifyWebhookSignature\<close>) and the inbound Slack events
  (\<^verbatim>\<open>core/pkg/messenger/slack/inbound/verify.go\<close>, \<open>verifySignature\<close>), with the parts of
  \<open>strconv\<close>, \<open>time\<close> and \<open>encoding/hex\<close> they use. HMAC-SHA256 is an argument, a function from
  a key and a message to a digest.
\<close>

section \<open>Decimal headers\<close>

text \<open>\<open>strconv.ParseInt(s, 10, 64)\<close>; \<open>None\<close> is any of its errors.\<close>

definition is_digit :: "char \<Rightarrow> bool" where
  "is_digit c \<longleftrightarrow> 48 \<le> (of_char c :: nat) \<and> of_char c \<le> (57 :: nat)"

definition digits_value :: "string \<Rightarrow> int" where
  "digits_value ds = foldl (\<lambda>a c. a * 10 + (of_char c - 48)) 0 ds"

definition parse_unsigned :: "string \<Rightarrow> int option" where
  "parse_unsigned ds =
     (if ds = [] \<or> \<not> list_all is_digit ds then None else Some (digits_value ds))"

definition parse_int64 :: "string \<Rightarrow> int option" where
  "parse_int64 s =
     (let neg = (s \<noteq> [] \<and> hd s = CHR ''-'');
          ds = (if s \<noteq> [] \<and> (hd s = CHR ''-'' \<or> hd s = CHR ''+'') then tl s else s)
      in case parse_unsigned ds of
           None \<Rightarrow> None
         | Some un \<Rightarrow>
             if neg then (if un > 2 ^ 63 then None else Some (- un))
             else (if un \<ge> 2 ^ 63 then None else Some un))"

section \<open>Hexadecimal digests\<close>

text \<open>\<open>hex.EncodeToString\<close>.\<close>

definition hex_digit :: "nat \<Rightarrow> char" where
  "hex_digit n = ''0123456789abcdef'' ! n"

definition hex_encode :: "string \<Rightarrow> string" where
  "hex_encode s = concat (map (\<lambda>c. [hex_digit (of_char c div 16), hex_digit (of_char c mod 16)]) s)"

section \<open>The approval webhook\<close>

abbreviation ErrWebhookMissingHeader :: string where
  "ErrWebhookMissingHeader \<equiv> ''approval: webhook missing signing header''"

abbreviation ErrWebhookStaleTimestamp :: string where
  "ErrWebhookStaleTimestamp \<equiv> ''approval: webhook stale or unparseable timestamp''"

abbreviation ErrWebhookBadSignature :: string where
  "ErrWebhookBadSignature \<equiv> ''approval: webhook bad signature''"

definition webhook_signature_prefix :: string where
  "webhook_signature_prefix = ''sha256=''"

text \<open>Five minutes, in nanoseconds.\<close>

definition default_webhook_timestamp_window :: int where
  "default_webhook_timestamp_window = 5 * 60 * 10 ^ 9"

definition compute_webhook_signature ::
  "(string \<Rightarrow> string \<Rightarrow> string) \<Rightarrow> string \<Rightarrow> string \<Rightarrow> string \<Rightarrow> string" where
  "compute_webhook_signature hmac secret ts body =
     webhook_signature_prefix @ hex_encode (hmac secret (ts @ '':'' @ body))"

definition sign_webhook ::
  "(string \<Rightarrow> string \<Rightarrow> string) \<Rightarrow> string \<Rightarrow> string \<Rightarrow> string \<Rightarrow> string" where
  "sign_webhook hmac secret ts body = compute_webhook_signature hmac secret ts body"

text \<open>\<open>delta := now().Sub(time.Unix(ts, 0)); if delta < 0 { delta = -delta }\<close>, an \<open>int64\<close>.\<close>

definition abs_drift :: "gotime \<Rightarrow> int \<Rightarrow> int" where
  "abs_drift now ts =
     (let delta = time_sub now (time_unix ts)
      in if delta < 0 then wrap64 (- delta) else delta)"

definition verify_webhook_signature ::
  "(string \<Rightarrow> string \<Rightarrow> string) \<Rightarrow> string \<Rightarrow> string \<Rightarrow> string \<Rightarrow> string \<Rightarrow> int \<Rightarrow> gotime
   \<Rightarrow> goerr option" where
  "verify_webhook_signature hmac secret sig_header ts_header body window now =
     (if sig_header = [] \<or> ts_header = [] then Some [Sentinel ErrWebhookMissingHeader]
      else
        case parse_int64 ts_header of
          None \<Rightarrow> Some [Sentinel ErrWebhookStaleTimestamp]
        | Some ts_unix \<Rightarrow>
            (let window' = (if window \<le> 0 then default_webhook_timestamp_window else window)
             in if abs_drift now ts_unix > window' then Some [Sentinel ErrWebhookStaleTimestamp]
                else if \<not> prefix webhook_signature_prefix sig_header
                then Some [Sentinel ErrWebhookBadSignature]
                else if compute_webhook_signature hmac secret ts_header body \<noteq> sig_header
                then Some [Sentinel ErrWebhookBadSignature]
                else None))"

section \<open>Inbound Slack requests\<close>

abbreviation ErrMissingHeader :: string where
  "ErrMissingHeader \<equiv> ''inbound: missing slack signing header''"

abbreviation ErrStaleTimestamp :: string where
  "ErrStaleTimestamp \<equiv> ''inbound: stale or unparseable timestamp''"

abbreviation ErrBadSignature :: string where
  "ErrBadSignature \<equiv> ''inbound: bad slack signature''"

definition signature_version_prefix :: string where
  "signature_version_prefix = ''v0=''"

definition default_timestamp_window :: int where
  "default_timestamp_window = 5 * 60 * 10 ^ 9"

definition compute_signature ::
  "(string \<Rightarrow> string \<Rightarrow> string) \<Rightarrow> string \<Rightarrow> string \<Rightarrow> string \<Rightarrow> string" where
  "compute_signature hmac secret ts body =
     signature_version_prefix
       @ hex_encode (hmac secret (take 2 signature_version_prefix @ '':'' @ ts @ '':'' @ body))"

definition sign_slack ::
  "(string \<Rightarrow> string \<Rightarrow> string) \<Rightarrow> string \<Rightarrow> string \<Rightarrow> string \<Rightarrow> string" where
  "sign_slack hmac secret ts body = compute_signature hmac secret ts body"

definition verify_signature ::
  "(string \<Rightarrow> string \<Rightarrow> string) \<Rightarrow> string \<Rightarrow> string \<Rightarrow> string \<Rightarrow> string \<Rightarrow> int \<Rightarrow> gotime
   \<Rightarrow> goerr option" where
  "verify_signature hmac secret sig_header ts_header body window now =
     (if sig_header = [] \<or> ts_header = [] then Some [Sentinel ErrMissingHeader]
      else
        case parse_int64 ts_header of
          None \<Rightarrow> Some [Sentinel ErrStaleTimestamp]
        | Some ts_unix \<Rightarrow>
            (let window' = (if window \<le> 0 then default_timestamp_window else window)
             in if abs_drift now ts_unix > window' then Some [Sentinel ErrStaleTimestamp]
                else if \<not> prefix signature_version_prefix sig_header
                then Some [Sentinel ErrBadSignature]
                else if compute_signature hmac secret ts_header body \<noteq> sig_header
                then Some [Sentinel ErrBadSignature]
                else None))"

section \<open>The parts\<close>

lemma digits_value_nonneg: "list_all is_digit ds \<Longrightarrow> 0 \<le> digits_value ds"
proof -
  have "0 \<le> a \<Longrightarrow> list_all is_digit ds \<Longrightarrow>
          0 \<le> foldl (\<lambda>a c. a * 10 + (of_char c - 48)) (a :: int) ds" for a
  proof (induction ds arbitrary: a)
    case (Cons c ds)
    have "48 \<le> (of_char c :: int)"
      using Cons.prems(2) by (simp add: is_digit_def of_nat_of_char [symmetric, where 'a = int])
    with Cons show ?case by simp
  qed simp
  then show "list_all is_digit ds \<Longrightarrow> 0 \<le> digits_value ds"
    by (simp add: digits_value_def)
qed

lemma parse_int64_is_int64: "parse_int64 s = Some n \<Longrightarrow> is_int64 n"
  by (auto simp: parse_int64_def parse_unsigned_def Let_def is_int64_def int64_min_def int64_max_def
           dest: digits_value_nonneg split: if_splits option.splits)

text \<open>A header that parses has no colon: a signed message splits in one way only.\<close>

lemma digit_not_colon: "list_all is_digit ds \<Longrightarrow> CHR '':'' \<notin> set ds"
  by (auto simp: list_all_iff is_digit_def)

lemma parse_int64_no_colon: "parse_int64 s = Some n \<Longrightarrow> CHR '':'' \<notin> set s"
  by (cases s)
     (auto simp: parse_int64_def parse_unsigned_def Let_def is_digit_def dest!: digit_not_colon
           split: if_splits option.splits)

lemma split_at_first:
  "c \<notin> set xs \<Longrightarrow> c \<notin> set ys \<Longrightarrow> xs @ c # us = ys @ c # vs \<longleftrightarrow> xs = ys \<and> us = vs"
proof (induction xs arbitrary: ys)
  case Nil
  then show ?case by (cases ys) auto
next
  case (Cons x xs)
  then show ?case by (cases ys) auto
qed

lemma hex_digit_inj: "m < 16 \<Longrightarrow> n < 16 \<Longrightarrow> hex_digit m = hex_digit n \<longleftrightarrow> m = n"
proof -
  have "distinct ''0123456789abcdef''" by simp
  moreover assume "m < 16" "n < 16"
  ultimately show ?thesis
    unfolding hex_digit_def by (subst nth_eq_iff_index_eq) simp_all
qed

lemma hex_encode_Cons:
  "hex_encode (c # s) = hex_digit (of_char c div 16) # hex_digit (of_char c mod 16) # hex_encode s"
  by (simp add: hex_encode_def)

lemma hex_encode_inj: "hex_encode s = hex_encode t \<longleftrightarrow> s = t"
proof (induction s arbitrary: t)
  case Nil
  show ?case by (cases t) (simp_all add: hex_encode_def)
next
  case (Cons c s)
  show ?case
  proof (cases t)
    case Nil
    then show ?thesis by (simp add: hex_encode_def)
  next
    case (Cons d t')
    have b: "of_char c < (256 :: nat)" "of_char d < (256 :: nat)"
      using nat_of_char_less_256 by simp_all
    then have "of_char c div 16 < (16 :: nat)" "of_char d div 16 < (16 :: nat)"
      by (simp_all add: less_mult_imp_div_less)
    moreover have "of_char c = (of_char d :: nat)"
      if "of_char c div 16 = (of_char d div 16 :: nat)" "of_char c mod 16 = (of_char d mod 16 :: nat)"
      using that by (metis div_mult_mod_eq)
    ultimately show ?thesis
      using Cons.IH [of t'] by (auto simp: Cons hex_encode_Cons hex_digit_inj)
  qed
qed

section \<open>Freshness\<close>

text \<open>
  What the window is for, and the timestamps so far ahead that the difference underflows: the
  smallest \<open>Duration\<close> is its own negation.
\<close>

definition within_window :: "gotime \<Rightarrow> int \<Rightarrow> int \<Rightarrow> bool" where
  "within_window now n w \<longleftrightarrow> \<bar>unix_nanos now - n * 10 ^ 9\<bar> \<le> w"

definition underflows :: "gotime \<Rightarrow> int \<Rightarrow> bool" where
  "underflows now n \<longleftrightarrow> unix_nanos now - n * 10 ^ 9 \<le> int64_min \<and> n \<le> int64_max - unix_to_internal"

lemma abs_drift_le:
  assumes clock: "sane_clock now" and ts: "is_int64 n" and w: "0 \<le> w" "w < int64_max"
  shows "abs_drift now n \<le> w \<longleftrightarrow> within_window now n w \<or> underflows now n"
proof (cases "n \<le> int64_max - unix_to_internal")
  case True
  have u: "unix_to_internal = 62135596800" by (simp add: unix_to_internal_def)
  have "is_int64 (n + unix_to_internal)"
    using ts True u by (simp add: is_int64_def int64_min_def)
  then have d: "(gt_sec now - gt_sec (time_unix n)) * 10 ^ 9 + (gt_nsec now - gt_nsec (time_unix n))
                = unix_nanos now - n * 10 ^ 9"
    by (simp add: time_unix_def unix_nanos_def algebra_simps)
  have wm: "wrap64 9223372036854775808 = - 9223372036854775808"
    by (simp add: wrap64_def)
  have wi: "wrap64 (- x) = - x" if "int64_min < x" "x \<le> int64_max" for x
    using that by (intro wrap64_id) (simp add: is_int64_def int64_min_def int64_max_def)
  show ?thesis
    using w True unfolding abs_drift_def time_sub_def d Let_def within_window_def underflows_def
    by (cases "unix_nanos now - n * 10 ^ 9" "int64_min" rule: linorder_cases)
       (auto simp: wm wi int64_min_def int64_max_def)
next
  case False
  have u: "unix_to_internal = 62135596800" by (simp add: unix_to_internal_def)
  have "wrap64 (n + unix_to_internal) = n + unix_to_internal - 2 ^ 64"
    using False ts u by (intro wrap64_high) (simp_all add: is_int64_def int64_max_def)
  then have g: "gt_sec (time_unix n) = n + unix_to_internal - 2 ^ 64" "gt_nsec (time_unix n) = 0"
    by (simp_all add: time_unix_def)
  have "gt_sec now - gt_sec (time_unix n) > 2 ^ 62"
    using clock ts u unfolding g by (simp add: sane_clock_def is_int64_def int64_max_def)
  then have "int64_max < (gt_sec now - gt_sec (time_unix n)) * 10 ^ 9 + (gt_nsec now - gt_nsec (time_unix n))"
    using clock by (simp add: g int64_max_def sane_clock_def)
  then have "abs_drift now n = int64_max"
    by (simp add: abs_drift_def time_sub_def Let_def int64_min_def int64_max_def)
  moreover have "\<not> within_window now n w"
    using False clock w u
    by (simp add: within_window_def unix_nanos_def sane_clock_def int64_max_def)
  ultimately show ?thesis
    using w False by (simp add: underflows_def)
qed

text \<open>The window a call works with.\<close>

definition effective_window :: "int \<Rightarrow> int" where
  "effective_window w = (if w \<le> 0 then 5 * 60 * 10 ^ 9 else w)"

definition fresh :: "gotime \<Rightarrow> int \<Rightarrow> int \<Rightarrow> bool" where
  "fresh now n window \<longleftrightarrow> within_window now n (effective_window window) \<or> underflows now n"

lemma fresh_iff:
  assumes "sane_clock now" "parse_int64 ts = Some n" "window < int64_max"
  shows "abs_drift now n \<le> effective_window window \<longleftrightarrow> fresh now n window"
  unfolding fresh_def using assms
  by (intro abs_drift_le parse_int64_is_int64) (auto simp: effective_window_def int64_max_def)

lemma parse_int64_Nil [simp]: "parse_int64 [] = None"
  by (simp add: parse_int64_def parse_unsigned_def)

lemma prefix_compute [simp]:
  "prefix webhook_signature_prefix (compute_webhook_signature hmac secret ts body)"
  "prefix signature_version_prefix (compute_signature hmac secret ts body)"
  "compute_webhook_signature hmac secret ts body \<noteq> []"
  "compute_signature hmac secret ts body \<noteq> []"
  by (simp_all add: compute_webhook_signature_def webhook_signature_prefix_def
      compute_signature_def signature_version_prefix_def)

lemma effective_window_eqs:
  "(if w \<le> 0 then default_webhook_timestamp_window else w) = effective_window w"
  "(if w \<le> 0 then default_timestamp_window else w) = effective_window w"
  by (simp_all add: effective_window_def default_webhook_timestamp_window_def
      default_timestamp_window_def)

lemma verify_webhook_signature_iff:
  assumes "sane_clock now" "window < int64_max"
  shows "verify_webhook_signature hmac secret sig ts body window now = None
         \<longleftrightarrow> (\<exists>n. parse_int64 ts = Some n \<and> fresh now n window) \<and> sig = sign_webhook hmac secret ts body"
proof (cases "parse_int64 ts")
  case (Some n)
  have "abs_drift now n > effective_window window \<longleftrightarrow> \<not> fresh now n window"
    using fresh_iff [OF assms(1) Some assms(2)] by linarith
  moreover have "ts \<noteq> []" using Some by auto
  ultimately show ?thesis
    by (auto simp: Some verify_webhook_signature_def effective_window_eqs Let_def sign_webhook_def
        simp del: not_less)
qed (simp add: verify_webhook_signature_def)

lemma verify_signature_iff:
  assumes "sane_clock now" "window < int64_max"
  shows "verify_signature hmac secret sig ts body window now = None
         \<longleftrightarrow> (\<exists>n. parse_int64 ts = Some n \<and> fresh now n window) \<and> sig = sign_slack hmac secret ts body"
proof (cases "parse_int64 ts")
  case (Some n)
  have "abs_drift now n > effective_window window \<longleftrightarrow> \<not> fresh now n window"
    using fresh_iff [OF assms(1) Some assms(2)] by linarith
  moreover have "ts \<noteq> []" using Some by auto
  ultimately show ?thesis
    by (auto simp: Some verify_signature_def effective_window_eqs Let_def sign_slack_def
        simp del: not_less)
qed (simp add: verify_signature_def)

section \<open>Claims\<close>

text \<open>
  C28: Both verifiers accept a request exactly when its timestamp header is a decimal \<open>int64\<close>, the
  signature header is the one the signer computes for this timestamp and body, and the timestamp is
  within the window of the clock (five minutes when the window is not positive) or so far ahead that
  the difference underflows a \<open>Duration\<close>. The clock reads between 1970 and 2242.
\<close>

theorem signature_accepted_iff:
  assumes "sane_clock now" "window < int64_max"
  shows "(verify_webhook_signature hmac secret sig ts body window now = None
           \<longleftrightarrow> (\<exists>n. parse_int64 ts = Some n
                   \<and> (within_window now n (effective_window window) \<or> underflows now n))
               \<and> sig = sign_webhook hmac secret ts body)
         \<and> (verify_signature hmac secret sig ts body window now = None
           \<longleftrightarrow> (\<exists>n. parse_int64 ts = Some n
                   \<and> (within_window now n (effective_window window) \<or> underflows now n))
               \<and> sig = sign_slack hmac secret ts body)"
  using verify_webhook_signature_iff [OF assms, of hmac secret sig ts body]
    verify_signature_iff [OF assms, of hmac secret sig ts body]
  by (simp_all add: fresh_def)

definition demo_now :: gotime where
  "demo_now = \<lparr>gt_sec = unix_to_internal + 1000, gt_nsec = 0\<rparr>"

lemma demo_now_sane: "sane_clock demo_now"
  by (simp add: demo_now_def sane_clock_def)

lemma demo_ts: "parse_int64 ''900'' = Some 900"
  by (simp add: parse_int64_def parse_unsigned_def is_digit_def digits_value_def)

lemma signature_accepted_iff_witness:
  "verify_webhook_signature (\<lambda>k m. k @ m) ''key'' (sign_webhook (\<lambda>k m. k @ m) ''key'' ''900'' ''{}'')
     ''900'' ''{}'' 0 demo_now = None
   \<and> verify_signature (\<lambda>k m. k @ m) ''key'' (sign_slack (\<lambda>k m. k @ m) ''key'' ''900'' ''{}'')
     ''900'' ''{}'' 0 demo_now = None"
proof
  have w: "(0 :: int) < int64_max" by (simp add: int64_max_def)
  have f: "\<exists>n. parse_int64 ''900'' = Some n \<and>
              (within_window demo_now n (effective_window 0) \<or> underflows demo_now n)"
    by (simp add: demo_ts within_window_def effective_window_def unix_nanos_def demo_now_def)
  show "verify_webhook_signature (\<lambda>k m. k @ m) ''key'' (sign_webhook (\<lambda>k m. k @ m) ''key'' ''900'' ''{}'')
     ''900'' ''{}'' 0 demo_now = None"
    using f signature_accepted_iff [OF demo_now_sane w] by blast
  show "verify_signature (\<lambda>k m. k @ m) ''key'' (sign_slack (\<lambda>k m. k @ m) ''key'' ''900'' ''{}'')
     ''900'' ''{}'' 0 demo_now = None"
    using f signature_accepted_iff [OF demo_now_sane w] by blast
qed

text \<open>
  The staleness check does not bound the future. A request signed for a timestamp at least
  \<open>2 ^ 35\<close> seconds (some 1089 years) after 1970, and below the last one \<open>time.Unix\<close> represents, is
  accepted by both verifiers at every instant of the clock's range and under every window: it can be
  replayed for ever, although its distance from the clock is far outside the window.
\<close>

theorem far_future_never_stale:
  assumes "parse_int64 ts = Some n" "2 ^ 35 \<le> n" "n \<le> int64_max - unix_to_internal"
  shows "\<forall>now window. sane_clock now \<and> window < int64_max \<longrightarrow>
           verify_webhook_signature hmac secret (sign_webhook hmac secret ts body) ts body window now = None
           \<and> verify_signature hmac secret (sign_slack hmac secret ts body) ts body window now = None
           \<and> \<not> within_window now n (effective_window window)"
proof (intro allI impI)
  fix now window assume a: "sane_clock now \<and> window < int64_max"
  have "unix_nanos now \<le> 2 ^ 33 * 10 ^ 9"
    using a by (simp add: sane_clock_def unix_nanos_def)
  then have d: "unix_nanos now - n * 10 ^ 9 \<le> - (3 * 2 ^ 33 * 10 ^ 9)"
    using assms(2) by simp
  then have "fresh now n window"
    using assms(3) by (simp add: fresh_def underflows_def int64_min_def)
  moreover have "\<not> within_window now n (effective_window window)"
    using a d by (auto simp: within_window_def effective_window_def int64_max_def)
  ultimately show "verify_webhook_signature hmac secret (sign_webhook hmac secret ts body) ts body window now = None
      \<and> verify_signature hmac secret (sign_slack hmac secret ts body) ts body window now = None
      \<and> \<not> within_window now n (effective_window window)"
    using a assms(1) by (simp add: verify_webhook_signature_iff verify_signature_iff)
qed

lemma far_future_never_stale_witness:
  "verify_webhook_signature (\<lambda>k m. k @ m) ''key''
     (sign_webhook (\<lambda>k m. k @ m) ''key'' ''99999999999'' ''{}'') ''99999999999'' ''{}'' 0 demo_now = None"
proof -
  have p: "parse_int64 ''99999999999'' = Some 99999999999"
    by (simp add: parse_int64_def parse_unsigned_def is_digit_def digits_value_def)
  have "(2 :: int) ^ 35 \<le> 99999999999" "(99999999999 :: int) \<le> int64_max - unix_to_internal"
    by (simp_all add: int64_max_def unix_to_internal_def)
  moreover have "(0 :: int) < int64_max" by (simp add: int64_max_def)
  ultimately show ?thesis
    using far_future_never_stale [OF p] demo_now_sane by blast
qed

text \<open>
  A signature header is bound to its timestamp and body: when a verifier accepts the same header
  under the same key for two requests whose timestamp or body differ, the two signed messages differ
  and collide under the HMAC. No re-splitting of timestamp and body gives a second request.
\<close>

theorem reused_signature_is_collision:
  assumes "(ts, body) \<noteq> (ts', body')" "sane_clock now" "sane_clock now'"
    and "window < int64_max" "window' < int64_max"
    and "verify_webhook_signature hmac secret sig ts body window now = None
           \<and> verify_webhook_signature hmac secret sig ts' body' window' now' = None
         \<or> verify_signature hmac secret sig ts body window now = None
           \<and> verify_signature hmac secret sig ts' body' window' now' = None"
  shows "\<exists>m m'. m \<noteq> m' \<and> hmac secret m = hmac secret m'"
proof -
  obtain n n' where p: "parse_int64 ts = Some n" "parse_int64 ts' = Some n'"
    and s: "sign_webhook hmac secret ts body = sign_webhook hmac secret ts' body'
            \<or> sign_slack hmac secret ts body = sign_slack hmac secret ts' body'"
    using assms by (auto simp: verify_webhook_signature_iff verify_signature_iff)
  have "ts @ CHR '':'' # body \<noteq> ts' @ CHR '':'' # body'"
    using assms(1) p by (simp add: split_at_first parse_int64_no_colon)
  moreover have "hmac secret (ts @ CHR '':'' # body) = hmac secret (ts' @ CHR '':'' # body')
      \<or> hmac secret (''v0:'' @ ts @ CHR '':'' # body) = hmac secret (''v0:'' @ ts' @ CHR '':'' # body')"
    using s by (simp add: sign_webhook_def compute_webhook_signature_def sign_slack_def
        compute_signature_def signature_version_prefix_def hex_encode_inj)
  ultimately show ?thesis
    by (metis same_append_eq)
qed

lemma reused_signature_is_collision_witness:
  "\<exists>m m'. m \<noteq> m' \<and> take 1 m = (take 1 m' :: string)"
proof -
  let ?h = "\<lambda>k m. take 1 m :: string"
  have w: "(0 :: int) < int64_max" by (simp add: int64_max_def)
  have f: "fresh demo_now 900 0"
    by (simp add: fresh_def within_window_def effective_window_def unix_nanos_def demo_now_def)
  have 1: "verify_webhook_signature ?h ''key'' (sign_webhook ?h ''key'' ''900'' ''{}'') ''900'' b 0 demo_now = None" for b
    by (simp add: verify_webhook_signature_iff demo_now_sane w demo_ts f)
       (simp add: sign_webhook_def compute_webhook_signature_def)
  show ?thesis
    using reused_signature_is_collision [of "''900''" "''{}''" "''900''" "''[]''" demo_now demo_now 0 0
        ?h "''key''" "sign_webhook ?h ''key'' ''900'' ''{}''"] demo_now_sane w 1
    by blast
qed

end
