(* ===== verification/ToolProposal.thy ===== *)
theory ToolProposal
  imports Prelude
begin

text \<open>
  Tool proposals (\<^verbatim>\<open>core/pkg/approval\<close>): the target-source and approval-mode enums
  (\<^verbatim>\<open>target_source.go\<close>, \<^verbatim>\<open>approval_mode.go\<close>), the proposal and its validation
  (\<^verbatim>\<open>proposal.go\<close>), the authoring orchestrator \<open>Proposer.Submit\<close> (\<^verbatim>\<open>proposer.go\<close>), and the
  in-memory proposal store with its decision claims (\<^verbatim>\<open>proposalstore.go\<close>). Values have no
  aliasing, so the defensive copies of slices are the values themselves.
\<close>

section \<open>Enumerations\<close>

abbreviation ErrInvalidTargetSource :: string where
  "ErrInvalidTargetSource \<equiv> ''approval: invalid target source''"

definition target_source_validate :: "string \<Rightarrow> goerr option" where
  "target_source_validate t =
     (if t = ''platform'' \<or> t = ''private'' then None else Some (errorf_is ErrInvalidTargetSource []))"

abbreviation ErrInvalidMode :: string where
  "ErrInvalidMode \<equiv> ''approval: invalid approval mode''"

abbreviation ErrModeMismatchHosted :: string where
  "ErrModeMismatchHosted \<equiv> ''approval: slack-native (or both) required when any source is hosted''"

abbreviation ModeGitPR :: string where "ModeGitPR \<equiv> ''git-pr''"

abbreviation ModeSlackNative :: string where "ModeSlackNative \<equiv> ''slack-native''"

abbreviation ModeBoth :: string where "ModeBoth \<equiv> ''both''"

definition mode_validate :: "string \<Rightarrow> goerr option" where
  "mode_validate m =
     (if m = ModeGitPR \<or> m = ModeSlackNative \<or> m = ModeBoth then None
      else Some (errorf_is ErrInvalidMode []))"

definition includes_slack_native :: "string \<Rightarrow> bool" where
  "includes_slack_native m \<longleftrightarrow> m = ModeSlackNative \<or> m = ModeBoth"

definition includes_git_pr :: "string \<Rightarrow> bool" where
  "includes_git_pr m \<longleftrightarrow> m = ModeGitPR \<or> m = ModeBoth"

text \<open>The name and the kind of a \<open>toolregistry.SourceConfig\<close>, all the validator reads.\<close>

record mode_source =
  ms_name :: string
  ms_kind :: string

fun hosted_mismatch :: "mode_source list \<Rightarrow> goerr option" where
  "hosted_mismatch [] = None"
| "hosted_mismatch (src # srcs) =
     (if ms_kind src = ''hosted'' then Some (errorf_is ErrModeMismatchHosted [])
      else hosted_mismatch srcs)"

definition validate_mode_for_sources :: "string \<Rightarrow> mode_source list \<Rightarrow> goerr option" where
  "validate_mode_for_sources mode sources =
     (case mode_validate mode of
        Some e \<Rightarrow> Some e
      | None \<Rightarrow> if includes_slack_native mode then None else hosted_mismatch sources)"

section \<open>Proposals\<close>

abbreviation MaxToolNameLength :: nat where "MaxToolNameLength \<equiv> 64"

abbreviation MaxPurposeLength :: nat where "MaxPurposeLength \<equiv> 1024"

abbreviation MaxPlainLanguageDescriptionLength :: nat where
  "MaxPlainLanguageDescriptionLength \<equiv> 4096"

abbreviation MaxCodeDraftLength :: nat where "MaxCodeDraftLength \<equiv> 65536"

abbreviation MaxCapabilityCount :: nat where "MaxCapabilityCount \<equiv> 32"

abbreviation MaxCapabilityIDLength :: nat where "MaxCapabilityIDLength \<equiv> 128"

abbreviation MaxProposerIDLength :: nat where "MaxProposerIDLength \<equiv> 128"

abbreviation ErrProposalFieldTooLong :: string where
  "ErrProposalFieldTooLong \<equiv> ''approval: proposal field exceeds maximum length''"

abbreviation ErrMissingProposalName :: string where
  "ErrMissingProposalName \<equiv> ''approval: proposal name required''"

abbreviation ErrInvalidProposalName :: string where
  "ErrInvalidProposalName \<equiv> ''approval: invalid proposal name (lower_snake_case required)''"

abbreviation ErrMissingProposalPurpose :: string where
  "ErrMissingProposalPurpose \<equiv> ''approval: proposal purpose required''"

abbreviation ErrMissingPlainLanguageDescription :: string where
  "ErrMissingPlainLanguageDescription \<equiv> ''approval: plain_language_description required''"

abbreviation ErrMissingCodeDraft :: string where
  "ErrMissingCodeDraft \<equiv> ''approval: code_draft required''"

abbreviation ErrMissingProposalCapabilities :: string where
  "ErrMissingProposalCapabilities \<equiv> ''approval: capabilities required''"

abbreviation ErrInvalidProposalCapability :: string where
  "ErrInvalidProposalCapability \<equiv> ''approval: invalid proposal capability''"

abbreviation ErrDuplicateProposalCapability :: string where
  "ErrDuplicateProposalCapability \<equiv> ''approval: duplicate proposal capability''"

record proposal_input =
  pi_name :: string
  pi_purpose :: string
  pi_plain_language_description :: string
  pi_code_draft :: string
  pi_capabilities :: "string list"
  pi_target_source :: string

record proposal =
  pr_id :: uuid
  pr_proposer_id :: string
  pr_input :: proposal_input
  pr_proposed_at :: gotime
  pr_correlation_id :: string

text \<open>\<open>^[a-z][a-z0-9_]*$\<close> over the bytes of the name: no byte of a longer rune is in a class.\<close>

definition lower_letter :: "char \<Rightarrow> bool" where
  "lower_letter c \<longleftrightarrow> 97 \<le> (of_char c :: nat) \<and> of_char c \<le> (122 :: nat)"

definition snake_char :: "char \<Rightarrow> bool" where
  "snake_char c \<longleftrightarrow>
     lower_letter c \<or> (48 \<le> (of_char c :: nat) \<and> of_char c \<le> (57 :: nat)) \<or> c = CHR ''_''"

definition tool_name_regex :: "string \<Rightarrow> bool" where
  "tool_name_regex s \<longleftrightarrow> s \<noteq> [] \<and> lower_letter (hd s) \<and> list_all snake_char (tl s)"

definition validate_proposal_name :: "string \<Rightarrow> goerr option" where
  "validate_proposal_name name =
     (if blank name then Some [Sentinel ErrMissingProposalName]
      else if length name > MaxToolNameLength then Some (errorf_is ErrProposalFieldTooLong [])
      else if \<not> tool_name_regex name then Some (errorf_is ErrInvalidProposalName [])
      else None)"

definition validate_bounded_text :: "string \<Rightarrow> nat \<Rightarrow> string \<Rightarrow> goerr option" where
  "validate_bounded_text v max_len missing =
     (if blank v then Some [Sentinel missing]
      else if length v > max_len then Some (errorf_is ErrProposalFieldTooLong [])
      else None)"

fun validate_capability_entries :: "string set \<Rightarrow> string list \<Rightarrow> goerr option" where
  "validate_capability_entries seen [] = None"
| "validate_capability_entries seen (c # caps) =
     (if blank c then Some (errorf_is ErrInvalidProposalCapability [])
      else if length c > MaxCapabilityIDLength then Some (errorf_is ErrProposalFieldTooLong [])
      else if c \<in> seen then Some (errorf_is ErrDuplicateProposalCapability [])
      else validate_capability_entries (insert c seen) caps)"

definition validate_capabilities :: "string list \<Rightarrow> goerr option" where
  "validate_capabilities caps =
     (if caps = [] then Some [Sentinel ErrMissingProposalCapabilities]
      else if length caps > MaxCapabilityCount then Some (errorf_is ErrProposalFieldTooLong [])
      else validate_capability_entries {} caps)"

definition proposal_input_validate :: "proposal_input \<Rightarrow> goerr option" where
  "proposal_input_validate p =
     (case validate_proposal_name (pi_name p) of
        Some e \<Rightarrow> Some e
      | None \<Rightarrow>
     (case validate_bounded_text (pi_purpose p) MaxPurposeLength ErrMissingProposalPurpose of
        Some e \<Rightarrow> Some e
      | None \<Rightarrow>
     (case validate_bounded_text (pi_plain_language_description p)
             MaxPlainLanguageDescriptionLength ErrMissingPlainLanguageDescription of
        Some e \<Rightarrow> Some e
      | None \<Rightarrow>
     (case validate_bounded_text (pi_code_draft p) MaxCodeDraftLength ErrMissingCodeDraft of
        Some e \<Rightarrow> Some e
      | None \<Rightarrow>
     (case validate_capabilities (pi_capabilities p) of
        Some e \<Rightarrow> Some e
      | None \<Rightarrow> target_source_validate (pi_target_source p))))))"

section \<open>The proposal store\<close>

abbreviation ErrProposalNotFound :: string where
  "ErrProposalNotFound \<equiv> ''approval: proposal not found''"

abbreviation ErrInvalidDecisionKind :: string where
  "ErrInvalidDecisionKind \<equiv> ''approval: invalid decision kind''"

abbreviation ErrDecisionConflict :: string where
  "ErrDecisionConflict \<equiv> ''approval: proposal already decided with a different kind''"

abbreviation DecisionApproved :: string where "DecisionApproved \<equiv> ''approved''"

abbreviation DecisionRejected :: string where "DecisionRejected \<equiv> ''rejected''"

definition decision_kind_validate :: "string \<Rightarrow> goerr option" where
  "decision_kind_validate k =
     (if k = DecisionApproved \<or> k = DecisionRejected then None
      else Some (errorf_is ErrInvalidDecisionKind []))"

record proposal_store =
  ps_items :: "uuid \<rightharpoonup> proposal"
  ps_decisions :: "uuid \<rightharpoonup> string"

definition new_proposal_store :: proposal_store where
  "new_proposal_store = \<lparr>ps_items = Map.empty, ps_decisions = Map.empty\<rparr>"

text \<open>The first argument of the context-aware operations is what \<open>ctx.Err()\<close> answers.\<close>

definition mark_decided ::
  "goerr option \<Rightarrow> uuid \<Rightarrow> string \<Rightarrow> proposal_store \<Rightarrow> proposal_store \<times> (goerr + bool)" where
  "mark_decided cerr i kind s =
     (case cerr of
        Some e \<Rightarrow> (s, Inl e)
      | None \<Rightarrow>
          if i = uuid_nil then (s, Inl [Text ''approval: MarkDecided: zero proposal id''])
          else
            case decision_kind_validate kind of
              Some e \<Rightarrow> (s, Inl e)
            | None \<Rightarrow>
                (case ps_decisions s i of
                   Some prior \<Rightarrow>
                     if prior = kind then (s, Inr False)
                     else (s, Inl (errorf_is ErrDecisionConflict []))
                 | None \<Rightarrow> (s\<lparr>ps_decisions := (ps_decisions s)(i \<mapsto> kind)\<rparr>, Inr True)))"

definition unmark_decided ::
  "goerr option \<Rightarrow> uuid \<Rightarrow> string \<Rightarrow> proposal_store \<Rightarrow> proposal_store \<times> goerr option" where
  "unmark_decided cerr i kind s =
     (case cerr of
        Some e \<Rightarrow> (s, Some e)
      | None \<Rightarrow>
          if i = uuid_nil then (s, Some [Text ''approval: UnmarkDecided: zero proposal id''])
          else if ps_decisions s i = Some kind
          then (s\<lparr>ps_decisions := (ps_decisions s)(i := None)\<rparr>, None)
          else (s, None))"

definition record_proposal :: "proposal \<Rightarrow> proposal_store \<Rightarrow> proposal_store" where
  "record_proposal p s =
     (if pr_id p = uuid_nil then s else s\<lparr>ps_items := (ps_items s)(pr_id p \<mapsto> p)\<rparr>)"

definition lookup_proposal :: "goerr option \<Rightarrow> uuid \<Rightarrow> proposal_store \<Rightarrow> goerr + proposal" where
  "lookup_proposal cerr i s =
     (case cerr of
        Some e \<Rightarrow> Inl e
      | None \<Rightarrow>
          (case ps_items s i of
             None \<Rightarrow> Inl (errorf_is ErrProposalNotFound [])
           | Some p \<Rightarrow> Inr p))"

text \<open>
  The seams \<open>ProposalLookup\<close>, \<open>ProposalRecorder\<close> and \<open>DecisionRecorder\<close> the handlers go through.
\<close>

record 's approval_store =
  as_lookup :: "goerr option \<Rightarrow> uuid \<Rightarrow> 's \<Rightarrow> goerr + proposal"
  as_record :: "proposal \<Rightarrow> 's \<Rightarrow> 's"
  as_mark :: "goerr option \<Rightarrow> uuid \<Rightarrow> string \<Rightarrow> 's \<Rightarrow> 's \<times> (goerr + bool)"
  as_unmark :: "goerr option \<Rightarrow> uuid \<Rightarrow> string \<Rightarrow> 's \<Rightarrow> 's \<times> goerr option"

definition mem_approval_store :: "proposal_store approval_store" where
  "mem_approval_store =
     \<lparr>as_lookup = lookup_proposal, as_record = record_proposal,
      as_mark = mark_decided, as_unmark = unmark_decided\<rparr>"

section \<open>Events\<close>

text \<open>
  The payloads of the \<open>approval.*\<close> topics (\<^verbatim>\<open>events.go\<close>); the constructor is the topic.
\<close>

record tool_proposed =
  tp_proposal_id :: uuid
  tp_tool_name :: string
  tp_proposer_id :: string
  tp_target_source :: string
  tp_capability_ids :: "string list"
  tp_proposed_at :: gotime
  tp_correlation_id :: string

record tool_approved =
  ta_proposal_id :: uuid
  ta_tool_name :: string
  ta_approver_id :: string
  ta_route :: string
  ta_target_source :: string
  ta_source_name :: string
  ta_pr_url :: string
  ta_merged_sha :: string
  ta_approved_at :: gotime
  ta_correlation_id :: string

record tool_rejected =
  tr_proposal_id :: uuid
  tr_tool_name :: string
  tr_rejecter_id :: string
  tr_route :: string
  tr_rejected_at :: gotime
  tr_correlation_id :: string

record dry_run_requested =
  dr_proposal_id :: uuid
  dr_tool_name :: string
  dr_requester_id :: string
  dr_lead_dm_channel :: string
  dr_requested_at :: gotime
  dr_correlation_id :: string

record question_asked =
  qa_proposal_id :: uuid
  qa_tool_name :: string
  qa_asker_id :: string
  qa_asked_at :: gotime
  qa_correlation_id :: string

datatype tool_event =
    ToolProposed tool_proposed
  | ToolApproved tool_approved
  | ToolRejected tool_rejected
  | DryRunRequested dry_run_requested
  | QuestionAsked question_asked

abbreviation RouteGitPR :: string where "RouteGitPR \<equiv> ''git-pr''"

abbreviation RouteSlackNative :: string where "RouteSlackNative \<equiv> ''slack-native''"

definition new_tool_proposed_event :: "proposal \<Rightarrow> tool_proposed" where
  "new_tool_proposed_event p =
     \<lparr>tp_proposal_id = pr_id p, tp_tool_name = pi_name (pr_input p),
      tp_proposer_id = pr_proposer_id p, tp_target_source = pi_target_source (pr_input p),
      tp_capability_ids = pi_capabilities (pr_input p), tp_proposed_at = pr_proposed_at p,
      tp_correlation_id = pr_correlation_id p\<rparr>"

text \<open>
  What the handlers of this package act on: the store, the events the publisher has accepted, the
  lines given to the logger, the sources a sync was asked for, and the dry runs requested.
\<close>

datatype tool_log_val = LUuid uuid | LStr string

record 's approval_world =
  aw_store :: 's
  aw_events :: "tool_event list"
  aw_log :: "(string \<times> (string \<times> tool_log_val) list) list"
  aw_syncs :: "string list"
  aw_dry_runs :: "(uuid \<times> string) list"

definition aw_write :: "bool \<Rightarrow> string \<Rightarrow> (string \<times> tool_log_val) list \<Rightarrow> 's approval_world \<Rightarrow> 's approval_world" where
  "aw_write logger msg kv w =
     (if logger then w\<lparr>aw_log := aw_log w @ [(''approval: '' @ msg, kv)]\<rparr> else w)"

definition aw_publish ::
  "(tool_event \<Rightarrow> goerr option) \<Rightarrow> tool_event \<Rightarrow> 's approval_world \<Rightarrow> 's approval_world \<times> goerr option" where
  "aw_publish publish ev w =
     (case publish ev of
        Some e \<Rightarrow> (w, Some e)
      | None \<Rightarrow> (w\<lparr>aw_events := aw_events w @ [ev]\<rparr>, None))"

section \<open>The proposer\<close>

abbreviation ErrIdentityResolution :: string where
  "ErrIdentityResolution \<equiv> ''approval: identity resolution failed''"

abbreviation ErrEmptyResolvedIdentity :: string where
  "ErrEmptyResolvedIdentity \<equiv> ''approval: identity resolver returned empty value''"

abbreviation ErrInvalidProposerID :: string where
  "ErrInvalidProposerID \<equiv> ''approval: identity resolver returned invalid proposer id''"

abbreviation ErrPublishToolProposed :: string where
  "ErrPublishToolProposed \<equiv> ''approval: publish tool_proposed failed''"

text \<open>
  The dependencies as one call sees them: each is asked at most once. \<open>se_uuid_string\<close> is
  \<open>uuid.UUID.String\<close> and \<open>se_err_type\<close> the \<open>%T\<close> of an error.
\<close>

record submit_env =
  se_ctx :: ctx
  se_identity :: "goerr + string"
  se_now :: gotime
  se_new_uuid :: "goerr + uuid"
  se_publish :: "tool_event \<Rightarrow> goerr option"
  se_uuid_string :: "uuid \<Rightarrow> string"
  se_err_type :: "goerr \<Rightarrow> string"
  se_logger :: bool

definition submitted_proposal :: "submit_env \<Rightarrow> uuid \<Rightarrow> string \<Rightarrow> proposal_input \<Rightarrow> proposal" where
  "submitted_proposal env i proposer_id input =
     \<lparr>pr_id = i, pr_proposer_id = proposer_id, pr_input = input, pr_proposed_at = se_now env,
      pr_correlation_id = se_uuid_string env i\<rparr>"

definition submit ::
  "submit_env \<Rightarrow> proposal_input \<Rightarrow> 's approval_world \<Rightarrow> 's approval_world \<times> (goerr + proposal)" where
  "submit env input w =
     (case proposal_input_validate input of
        Some e \<Rightarrow> (w, Inl e)
      | None \<Rightarrow>
     (case ctx_err (se_ctx env) 0 of
        Some e \<Rightarrow> (w, Inl e)
      | None \<Rightarrow>
     (case se_identity env of
        Inl e \<Rightarrow> (w, Inl (errorf_is ErrIdentityResolution e))
      | Inr proposer_id \<Rightarrow>
          if proposer_id = [] then (w, Inl [Sentinel ErrEmptyResolvedIdentity])
          else if length proposer_id > MaxProposerIDLength
          then (w, Inl (errorf_is ErrInvalidProposerID []))
          else
     (case se_new_uuid env of
        Inl e \<Rightarrow> (w, Inl (errorf ''approval: id generator'' e))
      | Inr i \<Rightarrow>
          let prop = submitted_proposal env i proposer_id input;
              ev = new_tool_proposed_event prop
          in
     (case ctx_err (se_ctx env) 1 of
        Some e \<Rightarrow> (w, Inl e)
      | None \<Rightarrow>
     (case aw_publish (se_publish env) (ToolProposed ev) w of
        (w', Some e) \<Rightarrow>
          (aw_write (se_logger env) ''publish tool_proposed failed''
             [(''proposal_id'', LUuid (pr_id prop)), (''tool_name'', LStr (pi_name (pr_input prop))),
              (''proposer_id'', LStr (pr_proposer_id prop)), (''err_type'', LStr (se_err_type env e))]
             w',
           Inl (errorf_is ErrPublishToolProposed e))
      | (w', None) \<Rightarrow> (w', Inr prop)))))))"

section \<open>What a valid input is\<close>

definition bounded_text :: "string \<Rightarrow> nat \<Rightarrow> bool" where
  "bounded_text v n \<longleftrightarrow> \<not> blank v \<and> length v \<le> n"

definition valid_capability :: "string \<Rightarrow> bool" where
  "valid_capability c \<longleftrightarrow> \<not> blank c \<and> length c \<le> MaxCapabilityIDLength"

definition valid_proposal_input :: "proposal_input \<Rightarrow> bool" where
  "valid_proposal_input p \<longleftrightarrow>
     bounded_text (pi_name p) MaxToolNameLength \<and> tool_name_regex (pi_name p)
     \<and> bounded_text (pi_purpose p) MaxPurposeLength
     \<and> bounded_text (pi_plain_language_description p) MaxPlainLanguageDescriptionLength
     \<and> bounded_text (pi_code_draft p) MaxCodeDraftLength
     \<and> pi_capabilities p \<noteq> [] \<and> length (pi_capabilities p) \<le> MaxCapabilityCount
     \<and> distinct (pi_capabilities p) \<and> list_all valid_capability (pi_capabilities p)
     \<and> pi_target_source p \<in> {''platform'', ''private''}"

lemma validate_capability_entries_ok:
  "validate_capability_entries seen caps = None
   \<longleftrightarrow> list_all valid_capability caps \<and> distinct caps \<and> set caps \<inter> seen = {}"
  by (induction caps arbitrary: seen) (auto simp: valid_capability_def)

lemma validate_bounded_text_ok:
  "validate_bounded_text v n m = None \<longleftrightarrow> bounded_text v n"
  by (auto simp: validate_bounded_text_def bounded_text_def)

lemma validate_proposal_name_ok:
  "validate_proposal_name v = None \<longleftrightarrow> bounded_text v MaxToolNameLength \<and> tool_name_regex v"
  by (auto simp: validate_proposal_name_def bounded_text_def)

lemma validate_capabilities_ok:
  "validate_capabilities caps = None
   \<longleftrightarrow> caps \<noteq> [] \<and> length caps \<le> MaxCapabilityCount \<and> distinct caps \<and> list_all valid_capability caps"
  by (auto simp: validate_capabilities_def validate_capability_entries_ok)

lemma proposal_input_validate_ok: "proposal_input_validate p = None \<longleftrightarrow> valid_proposal_input p"
  by (auto simp: proposal_input_validate_def valid_proposal_input_def first_error_None
      validate_proposal_name_ok validate_bounded_text_ok validate_capabilities_ok
      target_source_validate_def)

section \<open>Claims\<close>

text \<open>
  \<open>Submit\<close> returns a proposal exactly when the input is valid, both looks at the context find it
  live, the resolver answers an identity of 1 to 128 bytes, the generator an id, and the publisher
  accepts the event; then it has published that one \<open>tool_proposed\<close> event, which carries the
  proposal's metadata, and nothing else happened. In every other case it has published nothing.
\<close>

theorem submit_ok_iff:
  "(submit env input w = (w', Inr p) \<longleftrightarrow>
     valid_proposal_input input
     \<and> ctx_err (se_ctx env) 0 = None \<and> ctx_err (se_ctx env) 1 = None
     \<and> (\<exists>pid i. se_identity env = Inr pid \<and> 0 < length pid \<and> length pid \<le> MaxProposerIDLength
          \<and> se_new_uuid env = Inr i \<and> p = submitted_proposal env i pid input)
     \<and> se_publish env (ToolProposed (new_tool_proposed_event p)) = None
     \<and> w' = w\<lparr>aw_events := aw_events w @ [ToolProposed (new_tool_proposed_event p)]\<rparr>)
   \<and> (case submit env input w of
        (w'', Inr _) \<Rightarrow> aw_log w'' = aw_log w
      | (w'', Inl _) \<Rightarrow> aw_events w'' = aw_events w \<and> aw_store w'' = aw_store w)"
    (is "?ok \<and> ?fail")
proof
  show ?ok
    unfolding submit_def proposal_input_validate_ok [symmetric]
    by (auto simp: aw_publish_def Let_def split: option.splits sum.splits)
  show ?fail
    unfolding submit_def
    by (auto simp: aw_publish_def aw_write_def Let_def split: option.splits sum.splits)
qed

end
