(* ===== verification/ToolDecision.thy ===== *)
theory ToolDecision
  imports Signatures ToolProposal "HOL-Library.Multiset"
begin

text \<open>
  Deciding a tool proposal (\<^verbatim>\<open>core/pkg/approval\<close>): the git-pr webhook (\<^verbatim>\<open>webhook.go\<close>) and the
  slack-native buttons (\<^verbatim>\<open>callbacks.go\<close>). Both claim the decision in the proposal store, act,
  and give the claim back when they could not publish. The two halves of such a handler around the
  claim, and the rollback, are definitions of their own: the handlers compose them, and the step
  relation interleaves them for any number of deliveries and clicks.
\<close>

section \<open>Claim, act, roll back\<close>

text \<open>What a handler answers: an HTTP status, or the error of a Go call.\<close>

datatype decision_result = Status nat | Returned "goerr option"

text \<open>
  \<open>fl_claim\<close> answers \<open>None\<close> when the handler is to go on; \<open>fl_effects\<close> fails with the line to log and
  the answer to give after the rollback.
\<close>

record 's flow =
  fl_id :: uuid
  fl_kind :: string
  fl_logger :: bool
  fl_ctx :: ctx
  fl_claim :: "'s approval_world \<Rightarrow> 's approval_world \<times> decision_result option"
  fl_effects :: "'s approval_world \<Rightarrow> 's approval_world \<times> ((string \<times> decision_result) + decision_result)"

definition log_id :: "uuid \<Rightarrow> (string \<times> tool_log_val) list" where
  "log_id i = [(''proposal_id'', LUuid i)]"

definition flow_rollback ::
  "'s approval_store \<Rightarrow> 's flow \<Rightarrow> string \<times> decision_result \<Rightarrow> 's approval_world
   \<Rightarrow> 's approval_world \<times> decision_result" where
  "flow_rollback ops f failure w =
     (let (s', _) = as_unmark ops (ctx_err (without_cancel (fl_ctx f)) 0) (fl_id f) (fl_kind f) (aw_store w)
      in (aw_write (fl_logger f) (fst failure) (log_id (fl_id f)) (w\<lparr>aw_store := s'\<rparr>), snd failure))"

definition run_flow ::
  "'s approval_store \<Rightarrow> 's flow \<Rightarrow> 's approval_world \<Rightarrow> 's approval_world \<times> decision_result" where
  "run_flow ops f w =
     (case fl_claim f w of
        (w1, Some r) \<Rightarrow> (w1, r)
      | (w1, None) \<Rightarrow>
          (case fl_effects f w1 of
             (w2, Inr r) \<Rightarrow> (w2, r)
           | (w2, Inl failure) \<Rightarrow> flow_rollback ops f failure w2))"

section \<open>The webhook\<close>

datatype webhook_option = WithWebhookTimestampWindow int | WithWebhookMaxBodyBytes int

record webhook_config =
  wc_ts_window :: int
  wc_max_body_bytes :: int

definition default_webhook_config :: webhook_config where
  "default_webhook_config =
     \<lparr>wc_ts_window = default_webhook_timestamp_window, wc_max_body_bytes = 2 ^ 20\<rparr>"

fun apply_webhook_option :: "webhook_option \<Rightarrow> webhook_config \<Rightarrow> webhook_config" where
  "apply_webhook_option (WithWebhookTimestampWindow d) c = (if d > 0 then c\<lparr>wc_ts_window := d\<rparr> else c)"
| "apply_webhook_option (WithWebhookMaxBodyBytes n) c = (if n > 0 then c\<lparr>wc_max_body_bytes := n\<rparr> else c)"

definition new_webhook_config :: "webhook_option list \<Rightarrow> webhook_config" where
  "new_webhook_config opts = fold apply_webhook_option opts default_webhook_config"

record webhook_payload =
  wp_proposal_id :: string
  wp_action :: string
  wp_pr_url :: string
  wp_merged_sha :: string
  wp_approver :: string
  wp_timestamp :: int

text \<open>
  The receiver with the code it relies on as functions: HMAC-SHA256, the strict JSON decoding of a
  body into a payload, and \<open>uuid.Parse\<close> and \<open>String\<close>.
\<close>

record webhook =
  wh_cfg :: webhook_config
  wh_logger :: bool
  wh_hmac :: "string \<Rightarrow> string \<Rightarrow> string"
  wh_json_decode :: "string \<Rightarrow> goerr + webhook_payload"
  wh_uuid_parse :: "string \<Rightarrow> goerr + uuid"
  wh_uuid_string :: "uuid \<Rightarrow> string"

text \<open>
  One delivery: the request, and what the dependencies answer it. The body is the bytes it yields
  and the error it ends with, if any; each dependency but the clock is asked at most once.
\<close>

record webhook_request =
  wr_ctx :: ctx
  wr_body :: "string \<times> goerr option"
  wr_header :: "string \<Rightarrow> string"
  wr_secret :: "goerr + string"
  wr_source :: "string \<Rightarrow> goerr + string"
  wr_sync :: "string \<Rightarrow> goerr option"
  wr_publish :: "tool_event \<Rightarrow> goerr option"
  wr_now :: "nat \<Rightarrow> gotime"
  wr_new_uuid :: "goerr + uuid"

abbreviation headerWebhookSignature :: string where
  "headerWebhookSignature \<equiv> ''X-Watchkeeper-Signature-256''"

abbreviation headerWebhookTimestamp :: string where
  "headerWebhookTimestamp \<equiv> ''X-Watchkeeper-Request-Timestamp''"

abbreviation MaxBytesError :: string where
  "MaxBytesError \<equiv> ''http: request body too large''"

abbreviation ErrWebhookMalformedPayload :: string where
  "ErrWebhookMalformedPayload \<equiv> ''approval: webhook malformed payload''"

definition wh_log_err ::
  "webhook \<Rightarrow> string \<Rightarrow> (string \<times> tool_log_val) list \<Rightarrow> 's approval_world \<Rightarrow> 's approval_world" where
  "wh_log_err wh msg kv w = aw_write (wh_logger wh) msg kv w"

text \<open>The steps of \<open>ServeHTTP\<close> up to the decision: \<open>Inl\<close> is the status already written.\<close>

definition read_body ::
  "webhook \<Rightarrow> webhook_request \<Rightarrow> 's approval_world \<Rightarrow> 's approval_world \<times> (nat + string)" where
  "read_body wh r w =
     (if int (length (fst (wr_body r))) > wc_max_body_bytes (wh_cfg wh)
      then (wh_log_err wh ''webhook oversize body'' [] w, Inl 413)
      else
        case snd (wr_body r) of
          Some e \<Rightarrow>
            if errors_is e MaxBytesError
            then (wh_log_err wh ''webhook oversize body'' [] w, Inl 413)
            else (wh_log_err wh ''webhook read body failed'' [] w, Inl 400)
        | None \<Rightarrow> (w, Inr (fst (wr_body r))))"

definition resolve_secret ::
  "webhook \<Rightarrow> webhook_request \<Rightarrow> 's approval_world \<Rightarrow> 's approval_world \<times> (nat + string)" where
  "resolve_secret wh r w =
     (case wr_secret r of
        Inl e \<Rightarrow> (wh_log_err wh ''webhook secret resolution failed'' [] w, Inl 500)
      | Inr secret \<Rightarrow>
          if secret = [] then (wh_log_err wh ''webhook secret resolver returned empty value'' [] w, Inl 500)
          else (w, Inr secret))"

definition authenticate ::
  "webhook \<Rightarrow> webhook_request \<Rightarrow> string \<Rightarrow> 's approval_world \<Rightarrow> 's approval_world \<times> (nat + unit)" where
  "authenticate wh r body w =
     (let sig = wr_header r headerWebhookSignature;
          ts_header = wr_header r headerWebhookTimestamp
      in if sig = [] \<or> ts_header = []
         then (wh_log_err wh ''webhook missing header'' [] w, Inl 401)
         else
           case resolve_secret wh r w of
             (w', Inl status) \<Rightarrow> (w', Inl status)
           | (w', Inr secret) \<Rightarrow>
               (case verify_webhook_signature (wh_hmac wh) secret sig ts_header body
                       (wc_ts_window (wh_cfg wh)) (wr_now r 0) of
                  Some e \<Rightarrow>
                    if errors_is e ErrWebhookStaleTimestamp
                    then (wh_log_err wh ''webhook stale timestamp'' [] w', Inl 401)
                    else if errors_is e ErrWebhookBadSignature
                    then (wh_log_err wh ''webhook bad signature'' [] w', Inl 401)
                    else (wh_log_err wh ''webhook signature verification failed'' [] w', Inl 401)
                | None \<Rightarrow> (w', Inr ())))"

definition validate_webhook_payload :: "webhook_payload \<Rightarrow> goerr option" where
  "validate_webhook_payload p =
     (if blank (wp_proposal_id p) then Some (errorf_is ErrWebhookMalformedPayload [])
      else if wp_action p \<noteq> ''approved'' \<and> wp_action p \<noteq> ''rejected''
      then Some (errorf_is ErrWebhookMalformedPayload [])
      else if wp_timestamp p \<le> 0 then Some (errorf_is ErrWebhookMalformedPayload [])
      else None)"

definition decode_payload ::
  "webhook \<Rightarrow> string \<Rightarrow> 's approval_world \<Rightarrow> 's approval_world \<times> (nat + webhook_payload \<times> uuid)" where
  "decode_payload wh body w =
     (case wh_json_decode wh body of
        Inl e \<Rightarrow> (wh_log_err wh ''webhook malformed payload'' [] w, Inl 400)
      | Inr payload \<Rightarrow>
     (case validate_webhook_payload payload of
        Some e \<Rightarrow> (wh_log_err wh ''webhook payload validation failed'' [] w, Inl 400)
      | None \<Rightarrow>
     (case wh_uuid_parse wh (wp_proposal_id payload) of
        Inl e \<Rightarrow> (wh_log_err wh ''webhook proposal_id not a UUID'' [] w, Inl 400)
      | Inr i \<Rightarrow>
          if i = uuid_nil
          then (wh_log_err wh ''webhook proposal_id is nil uuid''
                  [(''proposal_id'', LStr (wp_proposal_id payload))] w, Inl 400)
          else (w, Inr (payload, i)))))"

definition fetch_proposal ::
  "'s approval_store \<Rightarrow> webhook \<Rightarrow> webhook_request \<Rightarrow> uuid \<Rightarrow> 's approval_world
   \<Rightarrow> 's approval_world \<times> (nat + proposal)" where
  "fetch_proposal ops wh r i w =
     (case as_lookup ops (ctx_err (wr_ctx r) 0) i (aw_store w) of
        Inl e \<Rightarrow>
          if errors_is e ErrProposalNotFound
          then (wh_log_err wh ''webhook proposal not found'' (log_id i) w, Inl 404)
          else if errors_is e CtxCanceled \<or> errors_is e CtxDeadlineExceeded
          then (wh_log_err wh ''webhook lookup ctx-cancelled'' (log_id i) w, Inl 408)
          else (wh_log_err wh ''webhook lookup failed'' (log_id i) w, Inl 500)
      | Inr p \<Rightarrow> (w, Inr p))"

definition webhook_new_correlation_id ::
  "webhook \<Rightarrow> webhook_request \<Rightarrow> proposal \<Rightarrow> goerr + string" where
  "webhook_new_correlation_id wh r p =
     (if pr_correlation_id p \<noteq> [] then Inr (pr_correlation_id p)
      else
        case wr_new_uuid r of
          Inl e \<Rightarrow> Inl (errorf ''approval: webhook id generator'' e)
        | Inr i \<Rightarrow> Inr (wh_uuid_string wh i))"

text \<open>
  \<open>handleApproved\<close> and \<open>handleRejected\<close>. The claim is the same code in both, up to the kind and its
  name in a log line.
\<close>

definition webhook_claim ::
  "'s approval_store \<Rightarrow> webhook \<Rightarrow> webhook_request \<Rightarrow> string \<Rightarrow> proposal \<Rightarrow> 's approval_world
   \<Rightarrow> 's approval_world \<times> decision_result option" where
  "webhook_claim ops wh r kind p w =
     (case ctx_err (wr_ctx r) 1 of
        Some e \<Rightarrow> (wh_log_err wh ''webhook ctx-cancelled pre-claim'' (log_id (pr_id p)) w, Some (Status 408))
      | None \<Rightarrow>
          (case as_mark ops (ctx_err (without_cancel (wr_ctx r)) 0) (pr_id p) kind (aw_store w) of
             (s', Inl e) \<Rightarrow>
               if errors_is e ErrDecisionConflict
               then (wh_log_err wh ''webhook decision conflict'' (log_id (pr_id p)) (w\<lparr>aw_store := s'\<rparr>),
                     Some (Status 409))
               else (wh_log_err wh ''webhook mark decided failed'' (log_id (pr_id p)) (w\<lparr>aw_store := s'\<rparr>),
                     Some (Status 500))
           | (s', Inr first_time) \<Rightarrow>
               if \<not> first_time
               then (wh_log_err wh (''webhook duplicate '' @ kind @ '' replay'') (log_id (pr_id p))
                       (w\<lparr>aw_store := s'\<rparr>),
                     Some (Status 200))
               else (w\<lparr>aw_store := s'\<rparr>, None)))"

definition webhook_approved_event ::
  "webhook_request \<Rightarrow> webhook_payload \<Rightarrow> proposal \<Rightarrow> string \<Rightarrow> string \<Rightarrow> tool_approved" where
  "webhook_approved_event r payload p source corr =
     \<lparr>ta_proposal_id = pr_id p, ta_tool_name = pi_name (pr_input p),
      ta_approver_id = wp_approver payload, ta_route = RouteGitPR,
      ta_target_source = pi_target_source (pr_input p), ta_source_name = source,
      ta_pr_url = wp_pr_url payload, ta_merged_sha = wp_merged_sha payload,
      ta_approved_at = wr_now r 1, ta_correlation_id = corr\<rparr>"

definition approved_effects ::
  "webhook \<Rightarrow> webhook_request \<Rightarrow> webhook_payload \<Rightarrow> proposal \<Rightarrow> 's approval_world
   \<Rightarrow> 's approval_world \<times> ((string \<times> decision_result) + decision_result)" where
  "approved_effects wh r payload p w =
     (case (case wr_source r (pi_target_source (pr_input p)) of Inl e \<Rightarrow> [] | Inr source \<Rightarrow> source) of
        [] \<Rightarrow> (w, Inl (''webhook source mapping failed'', Status 422))
      | source \<Rightarrow>
          (let sync_err = wr_sync r source;
               w1 = w\<lparr>aw_syncs := aw_syncs w @ [source]\<rparr>;
               w2 = (if sync_err \<noteq> None
                     then wh_log_err wh ''webhook tool source sync failed'' (log_id (pr_id p)) w1 else w1)
           in case webhook_new_correlation_id wh r p of
                Inl e \<Rightarrow> (w2, Inl (''webhook id generator failed'', Status 500))
              | Inr corr \<Rightarrow>
                  (case aw_publish (wr_publish r)
                          (ToolApproved (webhook_approved_event r payload p source corr)) w2 of
                     (w3, Some e) \<Rightarrow> (w3, Inl (''webhook publish tool_approved failed'', Status 500))
                   | (w3, None) \<Rightarrow> (w3, Inr (Status (if sync_err \<noteq> None then 202 else 200))))))"

definition webhook_rejected_event ::
  "webhook_request \<Rightarrow> webhook_payload \<Rightarrow> proposal \<Rightarrow> string \<Rightarrow> tool_rejected" where
  "webhook_rejected_event r payload p corr =
     \<lparr>tr_proposal_id = pr_id p, tr_tool_name = pi_name (pr_input p),
      tr_rejecter_id = wp_approver payload, tr_route = RouteGitPR,
      tr_rejected_at = wr_now r 1, tr_correlation_id = corr\<rparr>"

definition rejected_effects ::
  "webhook \<Rightarrow> webhook_request \<Rightarrow> webhook_payload \<Rightarrow> proposal \<Rightarrow> 's approval_world
   \<Rightarrow> 's approval_world \<times> ((string \<times> decision_result) + decision_result)" where
  "rejected_effects wh r payload p w =
     (case webhook_new_correlation_id wh r p of
        Inl e \<Rightarrow> (w, Inl (''webhook id generator failed'', Status 500))
      | Inr corr \<Rightarrow>
          (case aw_publish (wr_publish r) (ToolRejected (webhook_rejected_event r payload p corr)) w of
             (w1, Some e) \<Rightarrow> (w1, Inl (''webhook publish tool_rejected failed'', Status 500))
           | (w1, None) \<Rightarrow> (w1, Inr (Status 200))))"

definition webhook_flow ::
  "'s approval_store \<Rightarrow> webhook \<Rightarrow> webhook_request \<Rightarrow> string
   \<Rightarrow> ('s approval_world \<Rightarrow> 's approval_world \<times> ((string \<times> decision_result) + decision_result))
   \<Rightarrow> proposal \<Rightarrow> 's flow" where
  "webhook_flow ops wh r kind effects p =
     \<lparr>fl_id = pr_id p, fl_kind = kind, fl_logger = wh_logger wh, fl_ctx = wr_ctx r,
      fl_claim = webhook_claim ops wh r kind p, fl_effects = effects\<rparr>"

definition approved_flow ::
  "'s approval_store \<Rightarrow> webhook \<Rightarrow> webhook_request \<Rightarrow> webhook_payload \<Rightarrow> proposal \<Rightarrow> 's flow" where
  "approved_flow ops wh r payload p =
     webhook_flow ops wh r DecisionApproved (approved_effects wh r payload p) p"

definition rejected_flow ::
  "'s approval_store \<Rightarrow> webhook \<Rightarrow> webhook_request \<Rightarrow> webhook_payload \<Rightarrow> proposal \<Rightarrow> 's flow" where
  "rejected_flow ops wh r payload p =
     webhook_flow ops wh r DecisionRejected (rejected_effects wh r payload p) p"

definition handle_approved ::
  "'s approval_store \<Rightarrow> webhook \<Rightarrow> webhook_request \<Rightarrow> webhook_payload \<Rightarrow> proposal \<Rightarrow> 's approval_world
   \<Rightarrow> 's approval_world \<times> decision_result" where
  "handle_approved ops wh r payload p = run_flow ops (approved_flow ops wh r payload p)"

definition handle_rejected ::
  "'s approval_store \<Rightarrow> webhook \<Rightarrow> webhook_request \<Rightarrow> webhook_payload \<Rightarrow> proposal \<Rightarrow> 's approval_world
   \<Rightarrow> 's approval_world \<times> decision_result" where
  "handle_rejected ops wh r payload p = run_flow ops (rejected_flow ops wh r payload p)"

definition serve_http ::
  "'s approval_store \<Rightarrow> webhook \<Rightarrow> webhook_request \<Rightarrow> 's approval_world
   \<Rightarrow> 's approval_world \<times> decision_result" where
  "serve_http ops wh r w =
     (case read_body wh r w of
        (w1, Inl status) \<Rightarrow> (w1, Status status)
      | (w1, Inr body) \<Rightarrow>
     (case authenticate wh r body w1 of
        (w2, Inl status) \<Rightarrow> (w2, Status status)
      | (w2, Inr _) \<Rightarrow>
     (case decode_payload wh body w2 of
        (w3, Inl status) \<Rightarrow> (w3, Status status)
      | (w3, Inr (payload, i)) \<Rightarrow>
     (case fetch_proposal ops wh r i w3 of
        (w4, Inl status) \<Rightarrow> (w4, Status status)
      | (w4, Inr p) \<Rightarrow>
          if wp_action payload = ''approved'' then handle_approved ops wh r payload p w4
          else if wp_action payload = ''rejected'' then handle_rejected ops wh r payload p w4
          else (w4, Status 400)))))"

section \<open>The card buttons\<close>

abbreviation ErrToolInvalidActionID :: string where
  "ErrToolInvalidActionID \<equiv> ''approval: invalid action_id''"

abbreviation ErrToolInvalidButtonValue :: string where
  "ErrToolInvalidButtonValue \<equiv> ''approval: invalid button value''"

abbreviation ErrCardMissingLeadDM :: string where
  "ErrCardMissingLeadDM \<equiv> ''approval: callback missing lead DM channel''"

abbreviation ErrPublishToolApproved :: string where
  "ErrPublishToolApproved \<equiv> ''approval: publish tool_approved failed''"

abbreviation ErrPublishToolRejected :: string where
  "ErrPublishToolRejected \<equiv> ''approval: publish tool_rejected failed''"

abbreviation ErrPublishDryRunRequested :: string where
  "ErrPublishDryRunRequested \<equiv> ''approval: publish tool_dry_run_requested failed''"

abbreviation ErrPublishQuestionAsked :: string where
  "ErrPublishQuestionAsked \<equiv> ''approval: publish tool_question_asked failed''"

definition button_action_validate :: "string \<Rightarrow> goerr option" where
  "button_action_validate b =
     (if b = ''approve'' \<or> b = ''reject'' \<or> b = ''test_in_my_dm'' \<or> b = ''ask_questions''
      then None else Some (errorf_is ErrToolInvalidButtonValue []))"

definition approval_action_id_prefix :: string where
  "approval_action_id_prefix = ''tool_approval''"

definition encode_approval_action_id :: "(uuid \<Rightarrow> string) \<Rightarrow> uuid \<Rightarrow> string" where
  "encode_approval_action_id uuid_string i =
     (if i = uuid_nil then [] else approval_action_id_prefix @ '':'' @ uuid_string i)"

text \<open>\<open>strings.SplitN(s, ":", 2)\<close> gives one part when there is no colon.\<close>

definition decode_approval_action_id :: "(string \<Rightarrow> goerr + uuid) \<Rightarrow> string \<Rightarrow> goerr + uuid" where
  "decode_approval_action_id uuid_parse s =
     (let part0 = takeWhile (\<lambda>c. c \<noteq> CHR '':'') s;
          rest = dropWhile (\<lambda>c. c \<noteq> CHR '':'') s
      in if rest = [] then Inl (errorf_is ErrToolInvalidActionID [])
         else if part0 \<noteq> approval_action_id_prefix then Inl (errorf_is ErrToolInvalidActionID [])
         else if tl rest = [] then Inl (errorf_is ErrToolInvalidActionID [])
         else
           case uuid_parse (tl rest) of
             Inl e \<Rightarrow> Inl (errorf_is ErrToolInvalidActionID e)
           | Inr i \<Rightarrow>
               if i = uuid_nil then Inl (errorf_is ErrToolInvalidActionID []) else Inr i)"

record click =
  ck_action_id :: string
  ck_button :: string
  ck_lead_id :: string
  ck_lead_dm_channel :: string

definition click_validate :: "click \<Rightarrow> goerr option" where
  "click_validate c =
     (if ck_action_id c = [] then Some (errorf_is ErrToolInvalidActionID [])
      else if ck_lead_id c = [] then Some (errorf_is ErrToolInvalidButtonValue [])
      else
        case button_action_validate (ck_button c) of
          Some e \<Rightarrow> Some e
        | None \<Rightarrow>
            if ck_button c = ''test_in_my_dm'' \<and> ck_lead_dm_channel c = []
            then Some [Sentinel ErrCardMissingLeadDM] else None)"

text \<open>The dependencies as one click sees them.\<close>

record click_env =
  ce_ctx :: ctx
  ce_publish :: "tool_event \<Rightarrow> goerr option"
  ce_now :: gotime
  ce_new_uuid :: "goerr + uuid"
  ce_uuid_parse :: "string \<Rightarrow> goerr + uuid"
  ce_uuid_string :: "uuid \<Rightarrow> string"
  ce_dry_run :: "(uuid \<Rightarrow> string \<Rightarrow> goerr option) option"
  ce_logger :: bool

definition click_new_correlation_id :: "click_env \<Rightarrow> proposal \<Rightarrow> goerr + string" where
  "click_new_correlation_id env p =
     (if pr_correlation_id p \<noteq> [] then Inr (pr_correlation_id p)
      else
        case ce_new_uuid env of
          Inl e \<Rightarrow> Inl (errorf ''approval: callback id generator'' e)
        | Inr i \<Rightarrow> Inr (ce_uuid_string env i))"

definition click_claim ::
  "'s approval_store \<Rightarrow> click_env \<Rightarrow> string \<Rightarrow> string \<Rightarrow> proposal \<Rightarrow> 's approval_world
   \<Rightarrow> 's approval_world \<times> decision_result option" where
  "click_claim ops env kind duplicate p w =
     (case ctx_err (ce_ctx env) 2 of
        Some e \<Rightarrow> (w, Some (Returned (Some e)))
      | None \<Rightarrow>
          (case as_mark ops (ctx_err (without_cancel (ce_ctx env)) 0) (pr_id p) kind (aw_store w) of
             (s', Inl e) \<Rightarrow>
               (aw_write (ce_logger env) ''mark decided failed'' (log_id (pr_id p)) (w\<lparr>aw_store := s'\<rparr>),
                Some (Returned (Some e)))
           | (s', Inr first_time) \<Rightarrow>
               if \<not> first_time
               then (aw_write (ce_logger env) duplicate (log_id (pr_id p)) (w\<lparr>aw_store := s'\<rparr>),
                     Some (Returned None))
               else (w\<lparr>aw_store := s'\<rparr>, None)))"

definition click_approved_event :: "click_env \<Rightarrow> click \<Rightarrow> proposal \<Rightarrow> string \<Rightarrow> tool_approved" where
  "click_approved_event env c p corr =
     \<lparr>ta_proposal_id = pr_id p, ta_tool_name = pi_name (pr_input p),
      ta_approver_id = ck_lead_id c, ta_route = RouteSlackNative,
      ta_target_source = pi_target_source (pr_input p), ta_source_name = [],
      ta_pr_url = [], ta_merged_sha = [], ta_approved_at = ce_now env, ta_correlation_id = corr\<rparr>"

definition click_approved_effects ::
  "click_env \<Rightarrow> click \<Rightarrow> string \<Rightarrow> proposal \<Rightarrow> 's approval_world
   \<Rightarrow> 's approval_world \<times> ((string \<times> decision_result) + decision_result)" where
  "click_approved_effects env c corr p w =
     (case aw_publish (ce_publish env) (ToolApproved (click_approved_event env c p corr)) w of
        (w1, Some e) \<Rightarrow>
          (w1, Inl (''publish tool_approved failed'', Returned (Some (errorf_is ErrPublishToolApproved e))))
      | (w1, None) \<Rightarrow> (w1, Inr (Returned None)))"

definition click_rejected_event :: "click_env \<Rightarrow> click \<Rightarrow> proposal \<Rightarrow> string \<Rightarrow> tool_rejected" where
  "click_rejected_event env c p corr =
     \<lparr>tr_proposal_id = pr_id p, tr_tool_name = pi_name (pr_input p),
      tr_rejecter_id = ck_lead_id c, tr_route = RouteSlackNative,
      tr_rejected_at = ce_now env, tr_correlation_id = corr\<rparr>"

definition click_rejected_effects ::
  "click_env \<Rightarrow> click \<Rightarrow> string \<Rightarrow> proposal \<Rightarrow> 's approval_world
   \<Rightarrow> 's approval_world \<times> ((string \<times> decision_result) + decision_result)" where
  "click_rejected_effects env c corr p w =
     (case aw_publish (ce_publish env) (ToolRejected (click_rejected_event env c p corr)) w of
        (w1, Some e) \<Rightarrow>
          (w1, Inl (''publish tool_rejected failed'', Returned (Some (errorf_is ErrPublishToolRejected e))))
      | (w1, None) \<Rightarrow> (w1, Inr (Returned None)))"

definition click_flow ::
  "'s approval_store \<Rightarrow> click_env \<Rightarrow> string \<Rightarrow> string
   \<Rightarrow> ('s approval_world \<Rightarrow> 's approval_world \<times> ((string \<times> decision_result) + decision_result))
   \<Rightarrow> proposal \<Rightarrow> 's flow" where
  "click_flow ops env kind duplicate effects p =
     \<lparr>fl_id = pr_id p, fl_kind = kind, fl_logger = ce_logger env, fl_ctx = ce_ctx env,
      fl_claim = click_claim ops env kind duplicate p, fl_effects = effects\<rparr>"

definition click_approved_flow ::
  "'s approval_store \<Rightarrow> click_env \<Rightarrow> click \<Rightarrow> string \<Rightarrow> proposal \<Rightarrow> 's flow" where
  "click_approved_flow ops env c corr p =
     click_flow ops env DecisionApproved ''duplicate approve click'' (click_approved_effects env c corr p) p"

definition click_rejected_flow ::
  "'s approval_store \<Rightarrow> click_env \<Rightarrow> click \<Rightarrow> string \<Rightarrow> proposal \<Rightarrow> 's flow" where
  "click_rejected_flow ops env c corr p =
     click_flow ops env DecisionRejected ''duplicate reject click'' (click_rejected_effects env c corr p) p"

definition publish_approved ::
  "'s approval_store \<Rightarrow> click_env \<Rightarrow> click \<Rightarrow> string \<Rightarrow> proposal \<Rightarrow> 's approval_world
   \<Rightarrow> 's approval_world \<times> decision_result" where
  "publish_approved ops env c corr p = run_flow ops (click_approved_flow ops env c corr p)"

definition publish_rejected ::
  "'s approval_store \<Rightarrow> click_env \<Rightarrow> click \<Rightarrow> string \<Rightarrow> proposal \<Rightarrow> 's approval_world
   \<Rightarrow> 's approval_world \<times> decision_result" where
  "publish_rejected ops env c corr p = run_flow ops (click_rejected_flow ops env c corr p)"

definition publish_dry_run ::
  "click_env \<Rightarrow> click \<Rightarrow> string \<Rightarrow> proposal \<Rightarrow> 's approval_world \<Rightarrow> 's approval_world \<times> decision_result" where
  "publish_dry_run env c corr p w =
     (let ev = \<lparr>dr_proposal_id = pr_id p, dr_tool_name = pi_name (pr_input p),
                dr_requester_id = ck_lead_id c, dr_lead_dm_channel = ck_lead_dm_channel c,
                dr_requested_at = ce_now env, dr_correlation_id = corr\<rparr>
      in case ctx_err (ce_ctx env) 2 of
           Some e \<Rightarrow> (w, Returned (Some e))
         | None \<Rightarrow>
             (case aw_publish (ce_publish env) (DryRunRequested ev) w of
                (w1, Some e) \<Rightarrow>
                  (aw_write (ce_logger env) ''publish tool_dry_run_requested failed'' (log_id (pr_id p)) w1,
                   Returned (Some (errorf_is ErrPublishDryRunRequested e)))
              | (w1, None) \<Rightarrow>
                  (case ce_dry_run env of
                     None \<Rightarrow> (w1, Returned None)
                   | Some request_dry_run \<Rightarrow>
                       (let w2 = w1\<lparr>aw_dry_runs := aw_dry_runs w1 @ [(pr_id p, ck_lead_dm_channel c)]\<rparr>
                        in case request_dry_run (pr_id p) (ck_lead_dm_channel c) of
                             Some e \<Rightarrow>
                               (aw_write (ce_logger env) ''dry-run requester failed'' (log_id (pr_id p)) w2,
                                Returned (Some (errorf ''approval: dry-run requester'' e)))
                           | None \<Rightarrow> (w2, Returned None)))))"

definition publish_question ::
  "click_env \<Rightarrow> click \<Rightarrow> string \<Rightarrow> proposal \<Rightarrow> 's approval_world \<Rightarrow> 's approval_world \<times> decision_result" where
  "publish_question env c corr p w =
     (let ev = \<lparr>qa_proposal_id = pr_id p, qa_tool_name = pi_name (pr_input p),
                qa_asker_id = ck_lead_id c, qa_asked_at = ce_now env, qa_correlation_id = corr\<rparr>
      in case ctx_err (ce_ctx env) 2 of
           Some e \<Rightarrow> (w, Returned (Some e))
         | None \<Rightarrow>
             (case aw_publish (ce_publish env) (QuestionAsked ev) w of
                (w1, Some e) \<Rightarrow>
                  (aw_write (ce_logger env) ''publish tool_question_asked failed'' (log_id (pr_id p)) w1,
                   Returned (Some (errorf_is ErrPublishQuestionAsked e)))
              | (w1, None) \<Rightarrow> (w1, Returned None)))"

definition dispatch ::
  "'s approval_store \<Rightarrow> click_env \<Rightarrow> click \<Rightarrow> 's approval_world \<Rightarrow> 's approval_world \<times> decision_result" where
  "dispatch ops env c w =
     (case click_validate c of
        Some e \<Rightarrow> (w, Returned (Some e))
      | None \<Rightarrow>
     (case ctx_err (ce_ctx env) 0 of
        Some e \<Rightarrow> (w, Returned (Some e))
      | None \<Rightarrow>
     (case decode_approval_action_id (ce_uuid_parse env) (ck_action_id c) of
        Inl e \<Rightarrow> (w, Returned (Some e))
      | Inr i \<Rightarrow>
     (case as_lookup ops (ctx_err (ce_ctx env) 1) i (aw_store w) of
        Inl e \<Rightarrow> (w, Returned (Some e))
      | Inr p \<Rightarrow>
     (case click_new_correlation_id env p of
        Inl e \<Rightarrow> (w, Returned (Some e))
      | Inr corr \<Rightarrow>
          if ck_button c = ''approve'' then publish_approved ops env c corr p w
          else if ck_button c = ''reject'' then publish_rejected ops env c corr p w
          else if ck_button c = ''test_in_my_dm'' then publish_dry_run env c corr p w
          else if ck_button c = ''ask_questions'' then publish_question env c corr p w
          else (w, Returned (Some (errorf_is ErrToolInvalidButtonValue []))))))))"

section \<open>Interleaving\<close>

text \<open>
  A handler at rest between two of its atomic parts. Any number of deliveries and clicks run at
  once; the claim and the rollback are critical sections of the store, the publication is one call.
\<close>

datatype flow_phase = PClaim | PEffects | PRollback "string \<times> decision_result" | PDone decision_result

definition flow_advance ::
  "'s approval_store \<Rightarrow> 's flow \<Rightarrow> flow_phase \<Rightarrow> 's approval_world \<Rightarrow> 's approval_world \<times> flow_phase" where
  "flow_advance ops f ph w =
     (case ph of
        PClaim \<Rightarrow>
          (case fl_claim f w of
             (w', Some r) \<Rightarrow> (w', PDone r)
           | (w', None) \<Rightarrow> (w', PEffects))
      | PEffects \<Rightarrow>
          (case fl_effects f w of
             (w', Inr r) \<Rightarrow> (w', PDone r)
           | (w', Inl failure) \<Rightarrow> (w', PRollback failure))
      | PRollback failure \<Rightarrow>
          (case flow_rollback ops f failure w of (w', r) \<Rightarrow> (w', PDone r))
      | PDone r \<Rightarrow> (w, PDone r))"

inductive decision_flow :: "'s approval_store \<Rightarrow> 's flow \<Rightarrow> bool" for ops where
  webhook_approved: "decision_flow ops (approved_flow ops wh r payload p)"
| webhook_rejected: "decision_flow ops (rejected_flow ops wh r payload p)"
| click_approved: "decision_flow ops (click_approved_flow ops env c corr p)"
| click_rejected: "decision_flow ops (click_rejected_flow ops env c corr p)"

fun decision_of :: "tool_event \<Rightarrow> (uuid \<times> string) option" where
  "decision_of (ToolApproved a) = Some (ta_proposal_id a, DecisionApproved)"
| "decision_of (ToolRejected a) = Some (tr_proposal_id a, DecisionRejected)"
| "decision_of _ = None"

type_synonym 's decision_state = "'s approval_world \<times> ('s flow \<times> flow_phase) multiset"

inductive decision_step ::
  "'s approval_store \<Rightarrow> 's decision_state \<Rightarrow> 's decision_state \<Rightarrow> bool" for ops where
  arrive: "decision_flow ops f \<Longrightarrow> decision_step ops (w, T) (w, add_mset (f, PClaim) T)"
| advance: "flow_advance ops f ph w = (w', ph')
    \<Longrightarrow> decision_step ops (w, add_mset (f, ph) T) (w', add_mset (f, ph') T)"
| propose: "decision_step ops (w, T) (w\<lparr>aw_store := as_record ops p (aw_store w)\<rparr>, T)"
| publish_other: "decision_of ev = None
    \<Longrightarrow> decision_step ops (w, T) (w\<lparr>aw_events := aw_events w @ [ev]\<rparr>, T)"

inductive decision_reachable ::
  "'s approval_store \<Rightarrow> 's approval_world \<Rightarrow> 's decision_state \<Rightarrow> bool" for ops w0 where
  start: "decision_reachable ops w0 (w0, {#})"
| step: "decision_reachable ops w0 s \<Longrightarrow> decision_step ops s s' \<Longrightarrow> decision_reachable ops w0 s'"

definition decisions_published :: "'s approval_world \<Rightarrow> uuid \<Rightarrow> string list" where
  "decisions_published w i = map snd (filter (\<lambda>d. fst d = i) (List.map_filter decision_of (aw_events w)))"

fun holding :: "flow_phase \<Rightarrow> bool" where
  "holding PClaim = False"
| "holding PEffects = True"
| "holding (PRollback _) = True"
| "holding (PDone _) = False"

text \<open>The kinds claimed for a proposal: by handlers between claim and answer, and by published events.\<close>

definition claims_held :: "('s flow \<times> flow_phase) multiset \<Rightarrow> uuid \<Rightarrow> string multiset" where
  "claims_held T i =
     image_mset (\<lambda>x. fl_kind (fst x)) (filter_mset (\<lambda>x. fl_id (fst x) = i \<and> holding (snd x)) T)"

definition claim_tokens :: "'s decision_state \<Rightarrow> uuid \<Rightarrow> string multiset" where
  "claim_tokens s i = claims_held (snd s) i + mset (decisions_published (fst s) i)"

definition token_of :: "string option \<Rightarrow> string multiset" where
  "token_of d = (case d of None \<Rightarrow> {#} | Some k \<Rightarrow> {#k#})"

lemma token_of_simps [simp]: "token_of None = {#}" "token_of (Some k) = {#k#}"
  by (simp_all add: token_of_def)

lemma add_token: "add_mset k M = token_of d \<Longrightarrow> d = Some k \<and> M = {#}"
  by (cases d) auto

lemma claims_held_simps [simp]:
  "claims_held {#} i = {#}"
  "claims_held (add_mset (f, ph) T) i =
     (if fl_id f = i \<and> holding ph then add_mset (fl_kind f) (claims_held T i) else claims_held T i)"
  by (simp_all add: claims_held_def)

lemma claims_held_none: "\<forall>x \<in># T. \<not> holding (snd x) \<Longrightarrow> claims_held T i = {#}"
  by (induction T) (auto simp: claims_held_def)

lemma decisions_published_append:
  "aw_events w' = aw_events w @ [ev] \<Longrightarrow> decisions_published w' i =
     decisions_published w i @ (case decision_of ev of Some (j, k) \<Rightarrow> if j = i then [k] else [] | None \<Rightarrow> [])"
  by (auto simp: decisions_published_def map_filter_def split: option.split)

lemma decisions_published_cong:
  "aw_events w' = aw_events w \<Longrightarrow> decisions_published w' i = decisions_published w i"
  by (simp add: decisions_published_def)

section \<open>The claim protocol\<close>

definition decision_kind :: "string \<Rightarrow> bool" where
  "decision_kind k \<longleftrightarrow> k = DecisionApproved \<or> k = DecisionRejected"

lemma aw_write_frame [simp]:
  "aw_store (aw_write l m kv w) = aw_store w"
  "aw_events (aw_write l m kv w) = aw_events w"
  by (simp_all add: aw_write_def)

lemma wh_log_err_frame [simp]:
  "aw_store (wh_log_err wh m kv w) = aw_store w"
  "aw_events (wh_log_err wh m kv w) = aw_events w"
  by (simp_all add: wh_log_err_def)

text \<open>What the claim and the effects of a flow do to the decisions and the events.\<close>

fun succeeded :: "decision_result \<Rightarrow> bool" where
  "succeeded (Status n) \<longleftrightarrow> n = 200 \<or> n = 202"
| "succeeded (Returned e) \<longleftrightarrow> e = None"

definition claims_ok ::
  "('s \<Rightarrow> uuid \<Rightarrow> string option) \<Rightarrow> uuid \<Rightarrow> string
   \<Rightarrow> ('s approval_world \<Rightarrow> 's approval_world \<times> decision_result option) \<Rightarrow> bool" where
  "claims_ok decided i k claim \<longleftrightarrow>
     (\<forall>w. case claim w of
            (w', Some r) \<Rightarrow>
              aw_store w' = aw_store w \<and> aw_events w' = aw_events w
              \<and> (succeeded r \<longrightarrow> decided (aw_store w) i = Some k)
          | (w', None) \<Rightarrow>
              i \<noteq> uuid_nil \<and> decided (aw_store w) i = None
              \<and> decided (aw_store w') = (decided (aw_store w))(i \<mapsto> k)
              \<and> aw_events w' = aw_events w)"

definition effects_ok ::
  "uuid \<Rightarrow> string
   \<Rightarrow> ('s approval_world \<Rightarrow> 's approval_world \<times> ((string \<times> decision_result) + decision_result)) \<Rightarrow> bool" where
  "effects_ok i k effects \<longleftrightarrow>
     (\<forall>w. case effects w of
            (w', Inr r) \<Rightarrow>
              succeeded r \<and> aw_store w' = aw_store w
              \<and> (\<exists>ev. decision_of ev = Some (i, k) \<and> aw_events w' = aw_events w @ [ev])
          | (w', Inl failure) \<Rightarrow>
              \<not> succeeded (snd failure) \<and> aw_store w' = aw_store w \<and> aw_events w' = aw_events w)"

definition flow_ok :: "('s \<Rightarrow> uuid \<Rightarrow> string option) \<Rightarrow> 's flow \<Rightarrow> bool" where
  "flow_ok decided f \<longleftrightarrow>
     claims_ok decided (fl_id f) (fl_kind f) (fl_claim f) \<and> effects_ok (fl_id f) (fl_kind f) (fl_effects f)"

lemma aw_publish_simps:
  "aw_publish pub ev w = (w', None) \<Longrightarrow> aw_store w' = aw_store w \<and> aw_events w' = aw_events w @ [ev]"
  "aw_publish pub ev w = (w', Some e) \<Longrightarrow> w' = w"
  by (auto simp: aw_publish_def split: option.splits)

lemma approved_effects_ok: "effects_ok (pr_id p) DecisionApproved (approved_effects wh r payload p)"
  unfolding effects_ok_def
proof
  fix w :: "'s approval_world"
  show "case approved_effects wh r payload p w of
      (w', Inr r) \<Rightarrow> succeeded r \<and> aw_store w' = aw_store w
        \<and> (\<exists>ev. decision_of ev = Some (pr_id p, DecisionApproved) \<and> aw_events w' = aw_events w @ [ev])
    | (w', Inl failure) \<Rightarrow>
        \<not> succeeded (snd failure) \<and> aw_store w' = aw_store w \<and> aw_events w' = aw_events w"
    unfolding approved_effects_def Let_def aw_publish_def
    by (simp add: webhook_approved_event_def split: list.split sum.split option.split)
qed

lemma rejected_effects_ok: "effects_ok (pr_id p) DecisionRejected (rejected_effects wh r payload p)"
  by (simp add: effects_ok_def rejected_effects_def aw_publish_def webhook_rejected_event_def
      split: sum.split option.split)

lemma click_approved_effects_ok:
  "effects_ok (pr_id p) DecisionApproved (click_approved_effects env c corr p)"
  by (simp add: effects_ok_def click_approved_effects_def aw_publish_def click_approved_event_def
      split: option.split)

lemma click_rejected_effects_ok:
  "effects_ok (pr_id p) DecisionRejected (click_rejected_effects env c corr p)"
  by (simp add: effects_ok_def click_rejected_effects_def aw_publish_def click_rejected_event_def
      split: option.split)

text \<open>
  What a decision recorder promises (the contract stated on \<open>DecisionRecorder\<close>): the first claim
  wins, the same claim again is recognised, the other kind is refused, and a claim can be given back.
\<close>

locale decision_recorder =
  fixes ops :: "'s approval_store"
    and decided :: "'s \<Rightarrow> uuid \<Rightarrow> string option"
  assumes mark_first_law:
      "i \<noteq> uuid_nil \<Longrightarrow> decision_kind k \<Longrightarrow> decided s i = None \<Longrightarrow>
         \<exists>s'. as_mark ops None i k s = (s', Inr True) \<and> decided s' = (decided s)(i \<mapsto> k)"
    and mark_replay_law:
      "i \<noteq> uuid_nil \<Longrightarrow> decision_kind k \<Longrightarrow> decided s i = Some k \<Longrightarrow>
         as_mark ops None i k s = (s, Inr False)"
    and mark_conflict_law:
      "i \<noteq> uuid_nil \<Longrightarrow> decision_kind k \<Longrightarrow> decided s i = Some k' \<Longrightarrow> k' \<noteq> k \<Longrightarrow>
         \<exists>e. as_mark ops None i k s = (s, Inl e) \<and> errors_is e ErrDecisionConflict"
    and mark_zero_law:
      "\<exists>e. as_mark ops None uuid_nil k s = (s, Inl e) \<and> \<not> errors_is e ErrDecisionConflict"
    and unmark_own_law:
      "i \<noteq> uuid_nil \<Longrightarrow> decided s i = Some k \<Longrightarrow>
         \<exists>s'. as_unmark ops None i k s = (s', None) \<and> decided s' = (decided s)(i := None)"
    and record_law: "decided (as_record ops p s) = decided s"
begin

lemma mark_cases:
  assumes "decision_kind k" "as_mark ops None i k s = (s', r)"
  obtains "r = Inr True" "i \<noteq> uuid_nil" "decided s i = None" "decided s' = (decided s)(i \<mapsto> k)"
  | "r = Inr False" "s' = s" "i \<noteq> uuid_nil" "decided s i = Some k"
  | e where "r = Inl e" "s' = s" "i \<noteq> uuid_nil" "\<exists>k'. decided s i = Some k' \<and> k' \<noteq> k"
      "errors_is e ErrDecisionConflict"
  | e where "r = Inl e" "s' = s" "i = uuid_nil" "\<not> errors_is e ErrDecisionConflict"
proof (cases "i = uuid_nil")
  case True
  then show ?thesis using that(4) mark_zero_law [of k s] assms by auto
next
  case False
  show ?thesis
  proof (cases "decided s i")
    case None
    then show ?thesis using that(1) mark_first_law [OF False assms(1) None] False assms(2) by auto
  next
    case (Some k')
    then show ?thesis
      using that(2,3) mark_replay_law [OF False assms(1), of s] False assms(2)
        mark_conflict_law [OF False assms(1), of s k']
      by (cases "k' = k") auto
  qed
qed

lemma webhook_claim_ok:
  assumes "decision_kind k"
  shows "claims_ok decided (pr_id p) k (webhook_claim ops wh r k p)"
  unfolding claims_ok_def
proof
  fix w :: "'s approval_world"
  obtain s' x where m: "as_mark ops None (pr_id p) k (aw_store w) = (s', x)" by fastforce
  show "case webhook_claim ops wh r k p w of
      (w', Some res) \<Rightarrow> aw_store w' = aw_store w \<and> aw_events w' = aw_events w
        \<and> (succeeded res \<longrightarrow> decided (aw_store w) (pr_id p) = Some k)
    | (w', None) \<Rightarrow> pr_id p \<noteq> uuid_nil \<and> decided (aw_store w) (pr_id p) = None
        \<and> decided (aw_store w') = (decided (aw_store w))(pr_id p \<mapsto> k) \<and> aw_events w' = aw_events w"
    by (simp add: webhook_claim_def m split: option.split)
       (rule mark_cases [OF assms m]; simp)
qed

lemma click_claim_ok:
  assumes "decision_kind k"
  shows "claims_ok decided (pr_id p) k (click_claim ops env k dup p)"
  unfolding claims_ok_def
proof
  fix w :: "'s approval_world"
  obtain s' x where m: "as_mark ops None (pr_id p) k (aw_store w) = (s', x)" by fastforce
  show "case click_claim ops env k dup p w of
      (w', Some res) \<Rightarrow> aw_store w' = aw_store w \<and> aw_events w' = aw_events w
        \<and> (succeeded res \<longrightarrow> decided (aw_store w) (pr_id p) = Some k)
    | (w', None) \<Rightarrow> pr_id p \<noteq> uuid_nil \<and> decided (aw_store w) (pr_id p) = None
        \<and> decided (aw_store w') = (decided (aw_store w))(pr_id p \<mapsto> k) \<and> aw_events w' = aw_events w"
    by (simp add: click_claim_def m split: option.split)
       (rule mark_cases [OF assms m]; simp)
qed

lemma decision_flow_ok: "decision_flow ops f \<Longrightarrow> flow_ok decided f"
  by (induction rule: decision_flow.induct)
     (simp_all add: flow_ok_def approved_flow_def rejected_flow_def webhook_flow_def
        click_approved_flow_def click_rejected_flow_def click_flow_def
        webhook_claim_ok click_claim_ok decision_kind_def
        approved_effects_ok rejected_effects_ok click_approved_effects_ok click_rejected_effects_ok)

text \<open>
  The invariant: a proposal's tokens, the claims its running handlers hold together with its published
  decisions, are exactly the decision the store has recorded for it.
\<close>

definition claim_inv :: "'s decision_state \<Rightarrow> bool" where
  "claim_inv s \<longleftrightarrow>
     (\<forall>i. claim_tokens s i = token_of (decided (aw_store (fst s)) i))
     \<and> (\<forall>x \<in># snd s. flow_ok decided (fst x) \<and> (holding (snd x) \<longrightarrow> fl_id (fst x) \<noteq> uuid_nil))"

lemma claim_inv_holding:
  assumes "claim_inv (w, add_mset (f, ph) T)" "holding ph"
  shows "add_mset (fl_kind f) (claims_held T (fl_id f) + mset (decisions_published w (fl_id f)))
           = token_of (decided (aw_store w) (fl_id f))"
    and "fl_id f \<noteq> i \<Longrightarrow>
           claims_held T i + mset (decisions_published w i) = token_of (decided (aw_store w) i)"
    and "flow_ok decided f" "fl_id f \<noteq> uuid_nil"
    and "\<forall>x\<in>#T. flow_ok decided (fst x) \<and> (holding (snd x) \<longrightarrow> fl_id (fst x) \<noteq> uuid_nil)"
  using assms
  by (auto simp: claim_inv_def claim_tokens_def split: if_splits dest: spec [of _ i] spec [of _ "fl_id f"])

lemma claim_inv_advance:
  assumes inv: "claim_inv (w, add_mset (f, ph) T)" and adv: "flow_advance ops f ph w = (w', ph')"
  shows "claim_inv (w', add_mset (f, ph') T)"
proof (cases ph)
  case PClaim
  obtain w1 res where c: "fl_claim f w = (w1, res)" by fastforce
  have "flow_ok decided f" using inv by (simp add: claim_inv_def)
  then show ?thesis
    using inv adv unfolding PClaim
    by (cases res)
       (auto simp: c flow_ok_def claims_ok_def flow_advance_def claim_inv_def claim_tokens_def
          dest!: spec [of _ w] cong: decisions_published_cong)
next
  case PEffects
  obtain w1 res where c: "fl_effects f w = (w1, res)" by fastforce
  have h: "holding ph" by (simp add: PEffects)
  note inv = claim_inv_holding [OF inv h]
  have e: "case res of
      Inr r \<Rightarrow> aw_store w1 = aw_store w
        \<and> (\<exists>ev. decision_of ev = Some (fl_id f, fl_kind f) \<and> aw_events w1 = aw_events w @ [ev])
    | Inl failure \<Rightarrow> aw_store w1 = aw_store w \<and> aw_events w1 = aw_events w"
    using inv(3) unfolding flow_ok_def effects_ok_def
    by (auto simp: c dest!: spec [of _ w] split: sum.splits)
  show ?thesis
    using adv e unfolding PEffects
    by (cases res)
       (auto simp: c flow_advance_def claim_inv_def claim_tokens_def inv
          decisions_published_append cong: decisions_published_cong)
next
  case (PRollback failure)
  then have h: "holding ph" by simp
  note inv = claim_inv_holding [OF inv h]
  have d: "decided (aw_store w) (fl_id f) = Some (fl_kind f)"
    and none: "claims_held T (fl_id f) = {#}" "decisions_published w (fl_id f) = []"
    using add_token [OF inv(1)] by auto
  obtain s' where u: "as_unmark ops None (fl_id f) (fl_kind f) (aw_store w) = (s', None)"
    and s': "decided s' = (decided (aw_store w))(fl_id f := None)"
    using unmark_own_law [OF inv(4) d] by blast
  show ?thesis
    using adv none
    by (auto simp: PRollback u s' flow_rollback_def flow_advance_def claim_inv_def claim_tokens_def
        inv cong: decisions_published_cong)
next
  case (PDone r)
  then show ?thesis using assms by (simp add: flow_advance_def)
qed

lemma claim_inv_step: "decision_step ops s s' \<Longrightarrow> claim_inv s \<Longrightarrow> claim_inv s'"
proof (induction rule: decision_step.induct)
  case (advance f ph w w' ph' T)
  then show ?case using claim_inv_advance by blast
qed (auto simp: claim_inv_def claim_tokens_def decision_flow_ok record_law decisions_published_append
       cong: decisions_published_cong)

lemma claim_inv_reachable:
  assumes "decided (aw_store w0) = Map.empty" "aw_events w0 = []"
  shows "decision_reachable ops w0 s \<Longrightarrow> claim_inv s"
proof (induction rule: decision_reachable.induct)
  case start
  then show ?case
    using assms by (simp add: claim_inv_def claim_tokens_def decisions_published_def map_filter_def)
next
  case (step s s')
  then show ?case by (blast intro: claim_inv_step)
qed

text \<open>A handler that runs alone has published and recorded its decision, or changed neither.\<close>

lemma run_flow_atomic:
  assumes ok: "flow_ok decided f" and run: "run_flow ops f w = (w', res)"
  shows "decided (aw_store w') = decided (aw_store w) \<and> aw_events w' = aw_events w
         \<and> (succeeded res \<longrightarrow> decided (aw_store w) (fl_id f) = Some (fl_kind f))
         \<or> succeeded res \<and> decided (aw_store w) (fl_id f) = None
           \<and> decided (aw_store w') = (decided (aw_store w))(fl_id f \<mapsto> fl_kind f)
           \<and> (\<exists>ev. decision_of ev = Some (fl_id f, fl_kind f) \<and> aw_events w' = aw_events w @ [ev])"
proof -
  obtain w1 cr where c: "fl_claim f w = (w1, cr)" by fastforce
  obtain w2 er where e: "fl_effects f w1 = (w2, er)" by fastforce
  show ?thesis
  proof (cases cr)
    case (Some r)
    then show ?thesis
      using ok run c by (auto simp: flow_ok_def claims_ok_def run_flow_def dest!: spec [of _ w])
  next
    case None
    then have cl: "fl_id f \<noteq> uuid_nil" "decided (aw_store w) (fl_id f) = None"
      "decided (aw_store w1) = (decided (aw_store w))(fl_id f \<mapsto> fl_kind f)"
      "aw_events w1 = aw_events w"
      using ok c by (auto simp: flow_ok_def claims_ok_def dest!: spec [of _ w])
    show ?thesis
    proof (cases er)
      case (Inr r)
      then show ?thesis
        using ok run c e cl None
        by (auto simp: flow_ok_def effects_ok_def run_flow_def dest!: spec [of _ w1])
    next
      case (Inl failure)
      then have st: "aw_store w2 = aw_store w1" "aw_events w2 = aw_events w1"
        "\<not> succeeded (snd failure)"
        using ok e by (auto simp: flow_ok_def effects_ok_def dest!: spec [of _ w1])
      obtain s' where "as_unmark ops None (fl_id f) (fl_kind f) (aw_store w2) = (s', None)"
        "decided s' = decided (aw_store w)"
        using unmark_own_law [OF cl(1), of "aw_store w1" "fl_kind f"] cl(2,3) st(1)
        by (auto simp: fun_upd_idem)
      then show ?thesis
        using run c e None Inl st cl(2,4) by (auto simp: run_flow_def flow_rollback_def)
    qed
  qed
qed

end

interpretation mdr: decision_recorder mem_approval_store ps_decisions
  by unfold_locales
     (auto simp: mem_approval_store_def mark_decided_def unmark_decided_def record_proposal_def
       decision_kind_def decision_kind_validate_def)

section \<open>What leaves the handlers\<close>

text \<open>
  A proposal and a world without the texts that must stay inside: purpose, description and code.
\<close>

definition redact :: "proposal \<Rightarrow> proposal" where
  "redact p =
     p\<lparr>pr_input := (pr_input p)\<lparr>pi_purpose := [], pi_plain_language_description := [], pi_code_draft := []\<rparr>\<rparr>"

definition redact_store :: "proposal_store \<Rightarrow> proposal_store" where
  "redact_store s = s\<lparr>ps_items := map_option redact \<circ> ps_items s\<rparr>"

definition redact_world :: "proposal_store approval_world \<Rightarrow> proposal_store approval_world" where
  "redact_world w = w\<lparr>aw_store := redact_store (aw_store w)\<rparr>"

lemma redact_simps [simp]:
  "pr_id (redact p) = pr_id p"
  "pr_correlation_id (redact p) = pr_correlation_id p"
  "pi_name (pr_input (redact p)) = pi_name (pr_input p)"
  "pi_target_source (pr_input (redact p)) = pi_target_source (pr_input p)"
  by (simp_all add: redact_def)

lemma redact_world_simps [simp]:
  "aw_store (redact_world w) = redact_store (aw_store w)"
  "aw_write l m kv (redact_world w) = redact_world (aw_write l m kv w)"
  "wh_log_err wh m kv (redact_world w) = redact_world (wh_log_err wh m kv w)"
  "(redact_world w)\<lparr>aw_store := redact_store s\<rparr> = redact_world (w\<lparr>aw_store := s\<rparr>)"
  "(redact_world w)\<lparr>aw_syncs := x\<rparr> = redact_world (w\<lparr>aw_syncs := x\<rparr>)"
  "(redact_world w)\<lparr>aw_events := y\<rparr> = redact_world (w\<lparr>aw_events := y\<rparr>)"
  "(redact_world w)\<lparr>aw_dry_runs := z\<rparr> = redact_world (w\<lparr>aw_dry_runs := z\<rparr>)"
  "aw_syncs (redact_world w) = aw_syncs w"
  "aw_events (redact_world w) = aw_events w"
  "aw_log (redact_world w) = aw_log w"
  "aw_dry_runs (redact_world w) = aw_dry_runs w"
  by (simp_all add: redact_world_def aw_write_def wh_log_err_def)

lemma redact_mark [simp]:
  "mark_decided c i k (redact_store s) = map_prod redact_store id (mark_decided c i k s)"
  by (simp add: mark_decided_def redact_store_def split: option.split)

lemma redact_unmark [simp]:
  "unmark_decided c i k (redact_store s) = map_prod redact_store id (unmark_decided c i k s)"
  by (simp add: unmark_decided_def redact_store_def split: option.split)

lemma redact_lookup [simp]:
  "lookup_proposal c i (redact_store s) = map_sum id redact (lookup_proposal c i s)"
  by (simp add: lookup_proposal_def redact_store_def split: option.split)

lemma redact_publish [simp]:
  "aw_publish pub ev (redact_world w) = map_prod redact_world id (aw_publish pub ev w)"
  by (simp add: aw_publish_def split: option.split)

text \<open>A flow of the redacted proposal in the redacted world does the same.\<close>

definition redacts :: "proposal_store flow \<Rightarrow> proposal_store flow \<Rightarrow> bool" where
  "redacts f g \<longleftrightarrow>
     fl_id g = fl_id f \<and> fl_kind g = fl_kind f \<and> fl_logger g = fl_logger f \<and> fl_ctx g = fl_ctx f
     \<and> (\<forall>w. fl_claim g (redact_world w) = map_prod redact_world id (fl_claim f w))
     \<and> (\<forall>w. fl_effects g (redact_world w) = map_prod redact_world id (fl_effects f w))"

lemma run_flow_redacts:
  "redacts f g \<Longrightarrow>
     run_flow mem_approval_store g (redact_world w)
     = map_prod redact_world id (run_flow mem_approval_store f w)"
  by (simp add: redacts_def run_flow_def flow_rollback_def mem_approval_store_def
      split: prod.split option.split sum.split)

lemma redact_webhook_claim:
  "webhook_claim mem_approval_store wh r k (redact p) (redact_world w)
   = map_prod redact_world id (webhook_claim mem_approval_store wh r k p w)"
  by (simp add: webhook_claim_def mem_approval_store_def split: option.split prod.split sum.split)

lemma redact_click_claim:
  "click_claim mem_approval_store env k dup (redact p) (redact_world w)
   = map_prod redact_world id (click_claim mem_approval_store env k dup p w)"
  by (simp add: click_claim_def mem_approval_store_def split: option.split prod.split sum.split)

lemma redact_events [simp]:
  "webhook_new_correlation_id wh r (redact p) = webhook_new_correlation_id wh r p"
  "webhook_approved_event r payload (redact p) source corr = webhook_approved_event r payload p source corr"
  "webhook_rejected_event r payload (redact p) corr = webhook_rejected_event r payload p corr"
  "click_approved_event env c (redact p) corr = click_approved_event env c p corr"
  "click_rejected_event env c (redact p) corr = click_rejected_event env c p corr"
  "click_new_correlation_id env (redact p) = click_new_correlation_id env p"
  by (simp_all add: webhook_new_correlation_id_def webhook_approved_event_def
      webhook_rejected_event_def click_approved_event_def click_rejected_event_def
      click_new_correlation_id_def)

lemma redact_approved_effects:
  "approved_effects wh r payload (redact p) (redact_world w)
   = map_prod redact_world id (approved_effects wh r payload p w)"
proof (cases "case wr_source r (pi_target_source (pr_input p)) of Inl e \<Rightarrow> [] | Inr source \<Rightarrow> source")
  case (Cons x xs)
  then show ?thesis
    by (cases "wr_sync r (x # xs)"; cases "webhook_new_correlation_id wh r p")
       (simp_all add: approved_effects_def Let_def split: prod.split option.split)
qed (simp add: approved_effects_def)

lemma redacts_flows:
  "redacts (approved_flow mem_approval_store wh r payload p)
     (approved_flow mem_approval_store wh r payload (redact p))"
  "redacts (rejected_flow mem_approval_store wh r payload p)
     (rejected_flow mem_approval_store wh r payload (redact p))"
  "redacts (click_approved_flow mem_approval_store env c corr p)
     (click_approved_flow mem_approval_store env c corr (redact p))"
  "redacts (click_rejected_flow mem_approval_store env c corr p)
     (click_rejected_flow mem_approval_store env c corr (redact p))"
  by (simp_all add: redacts_def approved_flow_def rejected_flow_def webhook_flow_def
      click_approved_flow_def click_rejected_flow_def click_flow_def
      redact_webhook_claim redact_click_claim redact_approved_effects rejected_effects_def
      click_approved_effects_def click_rejected_effects_def
      split: prod.split option.split sum.split)

lemma redact_handle:
  "handle_approved mem_approval_store wh r payload (redact p) (redact_world w)
   = map_prod redact_world id (handle_approved mem_approval_store wh r payload p w)"
  "handle_rejected mem_approval_store wh r payload (redact p) (redact_world w)
   = map_prod redact_world id (handle_rejected mem_approval_store wh r payload p w)"
  "publish_approved mem_approval_store env c corr (redact p) (redact_world w)
   = map_prod redact_world id (publish_approved mem_approval_store env c corr p w)"
  "publish_rejected mem_approval_store env c corr (redact p) (redact_world w)
   = map_prod redact_world id (publish_rejected mem_approval_store env c corr p w)"
  by (simp_all add: handle_approved_def handle_rejected_def publish_approved_def publish_rejected_def
      run_flow_redacts redacts_flows)

lemma redact_dry_run:
  "publish_dry_run env c corr (redact p) (redact_world w)
   = map_prod redact_world id (publish_dry_run env c corr p w)"
  "publish_question env c corr (redact p) (redact_world w)
   = map_prod redact_world id (publish_question env c corr p w)"
  by (simp_all add: publish_dry_run_def publish_question_def Let_def split: prod.split option.split)

lemma redact_front:
  "read_body wh r (redact_world w) = map_prod redact_world id (read_body wh r w)"
  "authenticate wh r body (redact_world w) = map_prod redact_world id (authenticate wh r body w)"
  "decode_payload wh body (redact_world w) = map_prod redact_world id (decode_payload wh body w)"
  by (simp_all add: read_body_def authenticate_def resolve_secret_def decode_payload_def Let_def
      split: option.split sum.split prod.split)

lemma mem_lookup: "as_lookup mem_approval_store = lookup_proposal"
  by (simp add: mem_approval_store_def)

lemma redact_fetch:
  "fetch_proposal mem_approval_store wh r i (redact_world w)
   = map_prod redact_world (map_sum id redact) (fetch_proposal mem_approval_store wh r i w)"
  by (simp add: fetch_proposal_def mem_approval_store_def split: sum.split)

section \<open>The stages before the decision\<close>

text \<open>A stage that goes on has changed nothing; a stage that answers has at most written a log line.\<close>

definition inert :: "'s approval_world \<Rightarrow> 's approval_world \<Rightarrow> bool" where
  "inert w w' \<longleftrightarrow>
     aw_store w' = aw_store w \<and> aw_events w' = aw_events w \<and> aw_syncs w' = aw_syncs w"

lemma inert_log [simp]: "inert w (wh_log_err wh m kv w)" "inert w w"
  by (simp_all add: inert_def wh_log_err_def aw_write_def)

lemma read_body_stage:
  "case read_body wh r w of
     (w', Inl _) \<Rightarrow> inert w w'
   | (w', Inr body) \<Rightarrow>
       w' = w \<and> body = fst (wr_body r) \<and> int (length body) \<le> wc_max_body_bytes (wh_cfg wh)"
  by (simp add: read_body_def split: option.split)

lemma authenticate_stage:
  "case authenticate wh r body w of
     (w', Inl _) \<Rightarrow> inert w w'
   | (w', Inr _) \<Rightarrow>
       w' = w \<and> (\<exists>secret. wr_secret r = Inr secret \<and> secret \<noteq> []
         \<and> verify_webhook_signature (wh_hmac wh) secret (wr_header r headerWebhookSignature)
              (wr_header r headerWebhookTimestamp) body (wc_ts_window (wh_cfg wh)) (wr_now r 0) = None)"
  by (simp add: authenticate_def resolve_secret_def Let_def split: option.split sum.split)

lemma decode_payload_stage:
  "case decode_payload wh body w of
     (w', Inl _) \<Rightarrow> inert w w'
   | (w', Inr (payload, i)) \<Rightarrow>
       w' = w \<and> wh_json_decode wh body = Inr payload \<and> wp_timestamp payload > 0
       \<and> wh_uuid_parse wh (wp_proposal_id payload) = Inr i \<and> i \<noteq> uuid_nil"
  by (auto simp: decode_payload_def validate_webhook_payload_def split: option.split sum.split if_splits)

lemma fetch_proposal_stage:
  "case fetch_proposal ops wh r i w of
     (w', Inl _) \<Rightarrow> inert w w'
   | (w', Inr p) \<Rightarrow> w' = w \<and> as_lookup ops (ctx_err (wr_ctx r) 0) i (aw_store w) = Inr p"
  by (simp add: fetch_proposal_def split: sum.split)

section \<open>A concrete proposal\<close>

definition demo_proposal :: proposal where
  "demo_proposal =
     \<lparr>pr_id = 7, pr_proposer_id = ''agent'',
      pr_input = \<lparr>pi_name = ''tool'', pi_purpose = ''p'', pi_plain_language_description = ''d'',
        pi_code_draft = ''c'', pi_capabilities = [''x''], pi_target_source = ''private''\<rparr>,
      pr_proposed_at = demo_now, pr_correlation_id = ''corr''\<rparr>"

definition demo_world :: "(uuid \<rightharpoonup> string) \<Rightarrow> tool_event list \<Rightarrow> proposal_store approval_world" where
  "demo_world ds evs =
     \<lparr>aw_store = \<lparr>ps_items = [7 \<mapsto> demo_proposal], ps_decisions = ds\<rparr>, aw_events = evs, aw_log = [],
      aw_syncs = [], aw_dry_runs = []\<rparr>"

definition demo_click_env :: click_env where
  "demo_click_env =
     \<lparr>ce_ctx = background, ce_publish = (\<lambda>_. None), ce_now = demo_now, ce_new_uuid = Inr 9,
      ce_uuid_parse = (\<lambda>_. Inr 7), ce_uuid_string = (\<lambda>_. ''u''), ce_dry_run = None, ce_logger = False\<rparr>"

definition demo_lead :: "string \<Rightarrow> click" where
  "demo_lead button =
     \<lparr>ck_action_id = ''tool_approval:7'', ck_button = button, ck_lead_id = ''lead'', ck_lead_dm_channel = ''dm''\<rparr>"

definition demo_approve :: "proposal_store flow" where
  "demo_approve = click_approved_flow mem_approval_store demo_click_env (demo_lead ''approve'') ''corr'' demo_proposal"

definition demo_reject :: "proposal_store flow" where
  "demo_reject = click_rejected_flow mem_approval_store demo_click_env (demo_lead ''reject'') ''corr'' demo_proposal"

definition demo_tool_event :: tool_event where
  "demo_tool_event = ToolApproved (click_approved_event demo_click_env (demo_lead ''approve'') demo_proposal ''corr'')"

lemmas demo_defs = demo_world_def demo_click_env_def demo_approve_def demo_reject_def
  click_approved_flow_def click_rejected_flow_def click_flow_def background_def
  mem_approval_store_def mark_decided_def decision_kind_validate_def

lemma demo_id [simp]: "pr_id demo_proposal = 7" "fl_id demo_approve = 7" "fl_kind demo_approve = DecisionApproved"
  by (simp_all add: demo_defs demo_proposal_def)

lemma demo_advance:
  "flow_advance mem_approval_store demo_approve PClaim (demo_world Map.empty [])
     = (demo_world [7 \<mapsto> DecisionApproved] [], PEffects)"
  "flow_advance mem_approval_store demo_approve PEffects (demo_world [7 \<mapsto> DecisionApproved] [])
     = (demo_world [7 \<mapsto> DecisionApproved] [demo_tool_event], PDone (Returned None))"
  "flow_advance mem_approval_store demo_reject PClaim (demo_world [7 \<mapsto> DecisionApproved] [demo_tool_event])
     = (demo_world [7 \<mapsto> DecisionApproved] [demo_tool_event],
        PDone (Returned (Some (errorf_is ErrDecisionConflict []))))"
proof -
  show "flow_advance mem_approval_store demo_approve PClaim (demo_world Map.empty [])
     = (demo_world [7 \<mapsto> DecisionApproved] [], PEffects)"
    by (simp add: flow_advance_def click_claim_def demo_defs)
  show "flow_advance mem_approval_store demo_approve PEffects (demo_world [7 \<mapsto> DecisionApproved] [])
     = (demo_world [7 \<mapsto> DecisionApproved] [demo_tool_event], PDone (Returned None))"
    by (simp add: flow_advance_def click_approved_effects_def aw_publish_def demo_tool_event_def demo_defs)
  show "flow_advance mem_approval_store demo_reject PClaim (demo_world [7 \<mapsto> DecisionApproved] [demo_tool_event])
     = (demo_world [7 \<mapsto> DecisionApproved] [demo_tool_event],
        PDone (Returned (Some (errorf_is ErrDecisionConflict []))))"
    by (simp add: flow_advance_def click_claim_def aw_write_def demo_defs)
qed

lemma demo_flows: "decision_flow mem_approval_store demo_approve" "decision_flow mem_approval_store demo_reject"
  by (simp_all add: demo_approve_def demo_reject_def decision_flow.intros)

lemma demo_decision_reachable:
  "decision_reachable mem_approval_store (demo_world Map.empty [])
     (demo_world [7 \<mapsto> DecisionApproved] [demo_tool_event],
      {#(demo_reject, PDone (Returned (Some (errorf_is ErrDecisionConflict [])))),
        (demo_approve, PDone (Returned None))#})"
  by (rule decision_reachable.start
        [THEN decision_reachable.step, OF decision_step.arrive, OF demo_flows(1),
         THEN decision_reachable.step, OF decision_step.advance, OF demo_advance(1),
         THEN decision_reachable.step, OF decision_step.advance, OF demo_advance(2),
         THEN decision_reachable.step, OF decision_step.arrive, OF demo_flows(2),
         THEN decision_reachable.step, OF decision_step.advance, OF demo_advance(3)])

section \<open>Claims\<close>

text \<open>
  C4: However deliveries, clicks and new proposals interleave, starting from a store without
  decisions, at most one decision is ever published for a proposal, it is the one the store records,
  and once no handler is between its claim and its answer every recorded decision has been published.
\<close>

theorem decision_published_at_most_once:
  assumes "decision_reachable mem_approval_store w0 (w, T)"
    and "ps_decisions (aw_store w0) = Map.empty" "aw_events w0 = []"
  shows "length (decisions_published w i) \<le> 1
         \<and> set (decisions_published w i) \<subseteq> set_option (ps_decisions (aw_store w) i)
         \<and> ((\<forall>x \<in># T. \<not> holding (snd x)) \<longrightarrow>
              set (decisions_published w i) = set_option (ps_decisions (aw_store w) i))"
proof (intro conjI impI)
  have t: "claims_held T i + mset (decisions_published w i) = token_of (ps_decisions (aw_store w) i)"
    using mdr.claim_inv_reachable [OF assms(2,3,1)] by (simp add: mdr.claim_inv_def claim_tokens_def)
  have s: "set_mset (token_of d) = set_option d" for d
    by (cases d) simp_all
  show "length (decisions_published w i) \<le> 1"
    using arg_cong [OF t, of size] by (cases "ps_decisions (aw_store w) i") auto
  show "set (decisions_published w i) \<subseteq> set_option (ps_decisions (aw_store w) i)"
    using arg_cong [OF t, of set_mset] by (auto simp: s)
  show "set (decisions_published w i) = set_option (ps_decisions (aw_store w) i)"
    if "\<forall>x \<in># T. \<not> holding (snd x)"
    using arg_cong [OF t, of set_mset] by (simp add: s claims_held_none [OF that])
qed

lemma decision_published_at_most_once_witness:
  "set (decisions_published (demo_world [7 \<mapsto> DecisionApproved] [demo_tool_event]) 7) = {DecisionApproved}
   \<and> length (decisions_published (demo_world [7 \<mapsto> DecisionApproved] [demo_tool_event]) 7) \<le> 1"
  using decision_published_at_most_once [OF demo_decision_reachable, where i = 7]
  by (simp add: demo_world_def)

text \<open>
  C32: A handler (webhook or button) that runs on its own answers truthfully and loses no decision.
  When it answers success (200, 202 or no error) its decision is the recorded one; when it answers
  anything else, or when a decision was already recorded, the recorded decisions and the published
  events are what they were before, so that a retry finds the state the first try found; and when the
  other decision is recorded it does not answer success.
\<close>

theorem decision_answer_truthful:
  assumes "decision_flow mem_approval_store f" "run_flow mem_approval_store f w = (w', res)"
  shows "(succeeded res \<longrightarrow> ps_decisions (aw_store w') (fl_id f) = Some (fl_kind f))
         \<and> (\<not> succeeded res \<or> ps_decisions (aw_store w) (fl_id f) \<noteq> None \<longrightarrow>
              ps_decisions (aw_store w') = ps_decisions (aw_store w) \<and> aw_events w' = aw_events w)
         \<and> (ps_decisions (aw_store w) (fl_id f) \<notin> {None, Some (fl_kind f)} \<longrightarrow> \<not> succeeded res)"
  using mdr.run_flow_atomic [OF mdr.decision_flow_ok [OF assms(1)] assms(2)] by auto

lemma decision_answer_truthful_witness:
  "ps_decisions (aw_store (fst (run_flow mem_approval_store demo_approve (demo_world Map.empty [])))) 7
     = Some DecisionApproved
   \<and> succeeded (snd (run_flow mem_approval_store demo_approve (demo_world Map.empty [])))"
proof -
  have "run_flow mem_approval_store demo_approve (demo_world Map.empty [])
        = (demo_world [7 \<mapsto> DecisionApproved] [demo_tool_event], Returned None)"
    by (simp add: run_flow_def click_claim_def click_approved_effects_def aw_publish_def
        demo_tool_event_def demo_defs)
  then show ?thesis
    using decision_answer_truthful [OF demo_flows(1)] by (metis demo_id(2,3) fst_conv snd_conv succeeded.simps(2))
qed

text \<open>
  C33: The webhook acts only on authenticated requests. If a delivery changed the store, published an
  event or asked for a sync, its body was within the size cap, the signature over timestamp and body
  verified under a non-empty secret, the body decoded to a valid payload with a proposal id other
  than the nil UUID, the proposal was found, and what happened is the handling of that payload's
  action.
\<close>

theorem webhook_acts_only_authenticated:
  assumes "serve_http ops wh r w = (w', res)"
    and "aw_store w' \<noteq> aw_store w \<or> aw_events w' \<noteq> aw_events w \<or> aw_syncs w' \<noteq> aw_syncs w"
  shows "\<exists>secret payload i p.
      int (length (fst (wr_body r))) \<le> wc_max_body_bytes (wh_cfg wh)
      \<and> wr_secret r = Inr secret \<and> secret \<noteq> []
      \<and> verify_webhook_signature (wh_hmac wh) secret (wr_header r headerWebhookSignature)
           (wr_header r headerWebhookTimestamp) (fst (wr_body r)) (wc_ts_window (wh_cfg wh)) (wr_now r 0)
         = None
      \<and> wh_json_decode wh (fst (wr_body r)) = Inr payload \<and> wp_timestamp payload > 0
      \<and> wh_uuid_parse wh (wp_proposal_id payload) = Inr i \<and> i \<noteq> uuid_nil
      \<and> as_lookup ops (ctx_err (wr_ctx r) 0) i (aw_store w) = Inr p
      \<and> (wp_action payload = ''approved'' \<and> handle_approved ops wh r payload p w = (w', res)
         \<or> wp_action payload = ''rejected'' \<and> handle_rejected ops wh r payload p w = (w', res))"
proof -
  note stages = read_body_stage [where wh = wh and r = r and w = w]
    authenticate_stage [where wh = wh and r = r and body = "fst (wr_body r)" and w = w]
    decode_payload_stage [where wh = wh and body = "fst (wr_body r)" and w = w]
  have n: "\<not> inert w w'" using assms(2) by (auto simp: inert_def)
  obtain body where b: "read_body wh r w = (w, Inr body)" "body = fst (wr_body r)"
      "int (length body) \<le> wc_max_body_bytes (wh_cfg wh)"
    using stages(1) assms(1) n by (auto simp: serve_http_def split: prod.splits sum.splits)
  obtain u where a: "authenticate wh r body w = (w, Inr u)"
    using stages(2) assms(1) n b by (auto simp: serve_http_def split: prod.splits sum.splits)
  obtain payload i where d: "decode_payload wh body w = (w, Inr (payload, i))"
    using stages(3) assms(1) n b(1,2) a by (auto simp: serve_http_def split: prod.splits sum.splits)
  obtain p where f: "fetch_proposal ops wh r i w = (w, Inr p)"
    using fetch_proposal_stage [where ops = ops and wh = wh and r = r and i = i and w = w] assms(1) n b(1) a d by (auto simp: serve_http_def split: prod.splits sum.splits)
  have "wp_action payload = ''approved'' \<and> handle_approved ops wh r payload p w = (w', res)
        \<or> wp_action payload = ''rejected'' \<and> handle_rejected ops wh r payload p w = (w', res)"
    using assms(1) n by (auto simp: serve_http_def b(1) a d f split: if_splits)
  then show ?thesis
    using stages(2,3) fetch_proposal_stage [where ops = ops and wh = wh and r = r and i = i and w = w] b(3) a d f unfolding b(2) by auto
qed

definition demo_payload :: webhook_payload where
  "demo_payload =
     \<lparr>wp_proposal_id = ''7'', wp_action = ''rejected'', wp_pr_url = [], wp_merged_sha = [],
      wp_approver = ''lead'', wp_timestamp = 900\<rparr>"

definition demo_webhook :: webhook where
  "demo_webhook =
     \<lparr>wh_cfg = default_webhook_config, wh_logger = False, wh_hmac = (\<lambda>k m. k @ m),
      wh_json_decode = (\<lambda>_. Inr demo_payload), wh_uuid_parse = (\<lambda>_. Inr 7), wh_uuid_string = (\<lambda>_. ''u'')\<rparr>"

definition demo_request :: webhook_request where
  "demo_request =
     \<lparr>wr_ctx = background, wr_body = (''{}'', None),
      wr_header = (\<lambda>h. if h = headerWebhookTimestamp then ''900''
                       else sign_webhook (\<lambda>k m. k @ m) ''key'' ''900'' ''{}''),
      wr_secret = Inr ''key'', wr_source = (\<lambda>_. Inr ''src''), wr_sync = (\<lambda>_. None),
      wr_publish = (\<lambda>_. None), wr_now = (\<lambda>_. demo_now), wr_new_uuid = Inr 9\<rparr>"

lemma demo_signature:
  "verify_webhook_signature (\<lambda>k m. k @ m) ''key'' (sign_webhook (\<lambda>k m. k @ m) ''key'' ''900'' ''{}'')
     ''900'' ''{}'' default_webhook_timestamp_window demo_now = None"
proof -
  have "fresh demo_now 900 default_webhook_timestamp_window"
    by (simp add: fresh_def within_window_def effective_window_def unix_nanos_def demo_now_def
        default_webhook_timestamp_window_def)
  then show ?thesis
    by (subst verify_webhook_signature_iff)
       (simp_all add: demo_now_sane demo_ts default_webhook_timestamp_window_def int64_max_def)
qed

lemma webhook_acts_only_authenticated_witness:
  "handle_rejected mem_approval_store demo_webhook demo_request demo_payload demo_proposal
     (demo_world Map.empty [])
   = serve_http mem_approval_store demo_webhook demo_request (demo_world Map.empty [])"
proof -
  let ?w = "demo_world Map.empty []"
  obtain w' res where s: "serve_http mem_approval_store demo_webhook demo_request ?w = (w', res)"
    by fastforce
  have "blank ''7'' = False" by code_simp
  then have "aw_events w' \<noteq> aw_events ?w"
    using s demo_signature
    by (auto simp: serve_http_def read_body_def authenticate_def resolve_secret_def decode_payload_def
        validate_webhook_payload_def fetch_proposal_def handle_rejected_def rejected_flow_def
        run_flow_def webhook_flow_def webhook_claim_def rejected_effects_def aw_publish_def
        webhook_new_correlation_id_def demo_webhook_def demo_request_def demo_defs lookup_proposal_def
        default_webhook_config_def sign_webhook_def demo_proposal_def demo_payload_def)
  moreover have "wh_json_decode demo_webhook b = Inr demo_payload" "wh_uuid_parse demo_webhook i = Inr 7"
    "ctx_err (wr_ctx demo_request) n = None" "wp_action demo_payload = ''rejected''" for b i n
    by (simp_all add: demo_webhook_def demo_request_def background_def demo_payload_def)
  moreover have "as_lookup mem_approval_store None 7 (aw_store ?w) = Inr demo_proposal"
    by (simp add: mem_lookup lookup_proposal_def demo_world_def)
  ultimately show ?thesis
    using webhook_acts_only_authenticated [OF s] by (auto simp: s)
qed

text \<open>
  Nothing of a proposal's purpose, description or code leaves the handlers: on a store whose
  proposals have these texts blanked, a delivery and a click publish the same events, write the same
  log lines, ask for the same syncs and dry runs, and answer the same.
\<close>

theorem handlers_do_not_leak:
  "serve_http mem_approval_store wh r (redact_world w)
     = map_prod redact_world id (serve_http mem_approval_store wh r w)
   \<and> dispatch mem_approval_store env c (redact_world w)
     = map_prod redact_world id (dispatch mem_approval_store env c w)"
proof
  show "serve_http mem_approval_store wh r (redact_world w)
     = map_prod redact_world id (serve_http mem_approval_store wh r w)"
    by (simp add: serve_http_def redact_front redact_fetch redact_handle split: prod.split sum.split)
  show "dispatch mem_approval_store env c (redact_world w)
     = map_prod redact_world id (dispatch mem_approval_store env c w)"
    by (simp add: dispatch_def redact_handle redact_dry_run mem_lookup split: option.split sum.split)
qed

end
