(* ===== verification/FilePath.thy ===== *)
theory FilePath
  imports Prelude
begin

text \<open>
  Go's \<open>path/filepath\<close> on Unix, as far as the program uses it: \<open>Clean\<close>, \<open>Join\<close>, \<open>Rel\<close> and
  \<open>IsAbs\<close>. A path is taken apart into the words between its slashes; \<open>Clean\<close> runs over them with
  a stack, and \<open>Rel\<close> strips the words its two arguments share. The lemmas say what a cleaned path
  looks like (no empty word, no dot, dot-dot only in front of a relative path), that cleaning is
  idempotent, and when \<open>Rel\<close> answers a path that stays below its base.
\<close>

section \<open>Words of a path\<close>

definition sep :: char where "sep = CHR ''/''"

definition dotdot :: string where "dotdot = ''..''"


fun split_slash :: "string \<Rightarrow> string list" where
  "split_slash [] = [[]]"
| "split_slash (c # s) =
     (if c = sep then [] # split_slash s
      else case split_slash s of w # ws \<Rightarrow> (c # w) # ws | [] \<Rightarrow> [[c]])"

fun join_slash :: "string list \<Rightarrow> string" where
  "join_slash [] = []"
| "join_slash [w] = w"
| "join_slash (w # ws) = w @ sep # join_slash ws"

definition word_ok :: "string \<Rightarrow> bool" where
  "word_ok w \<longleftrightarrow> w \<noteq> [] \<and> sep \<notin> set w"

lemma word_ok_dotdot [simp]: "word_ok dotdot" "dotdot \<noteq> []" "dotdot \<noteq> ''.''" "sep \<notin> set dotdot"
  by (simp_all add: word_ok_def dotdot_def sep_def)

lemma split_slash_not_Nil [simp]: "split_slash s \<noteq> []"
  by (cases s) (auto split: list.splits)

lemma split_slash_append: "split_slash (s @ sep # t) = split_slash s @ split_slash t"
  by (induction s) (auto split: list.splits simp: append_eq_Cons_conv)

lemma split_slash_word: "sep \<notin> set w \<Longrightarrow> split_slash w = [w]"
  by (induction w) auto

lemma join_slash_Cons: "ws \<noteq> [] \<Longrightarrow> join_slash (w # ws) = w @ sep # join_slash ws"
  by (cases ws) simp_all

lemma split_join_slash: "ws \<noteq> [] \<Longrightarrow> \<forall>w \<in> set ws. sep \<notin> set w \<Longrightarrow> split_slash (join_slash ws) = ws"
  by (induction ws rule: join_slash.induct) (simp_all add: split_slash_word split_slash_append)

lemma split_slash_no_sep: "w \<in> set (split_slash s) \<Longrightarrow> sep \<notin> set w"
proof (induction s arbitrary: w)
  case (Cons c s)
  then show ?case
    by (cases "split_slash s") (auto split: if_splits)
qed simp

lemma join_slash_append:
  "us \<noteq> [] \<Longrightarrow> vs \<noteq> [] \<Longrightarrow> join_slash (us @ vs) = join_slash us @ sep # join_slash vs"
  by (induction us rule: join_slash.induct) (simp_all add: join_slash_Cons)

lemma join_slash_eq_Nil: "\<forall>w \<in> set ws. word_ok w \<Longrightarrow> join_slash ws = [] \<longleftrightarrow> ws = []"
  by (induction ws rule: join_slash.induct) (simp_all add: word_ok_def)

lemma hd_join_slash: "ws \<noteq> [] \<Longrightarrow> word_ok (hd ws) \<Longrightarrow> join_slash ws \<noteq> [] \<and> hd (join_slash ws) \<noteq> sep"
  by (cases ws rule: join_slash.cases) (auto simp: word_ok_def hd_append dest: hd_in_set)

section \<open>Clean\<close>

text \<open>The words kept so far are a stack, the last one on top.\<close>

fun clean_words :: "bool \<Rightarrow> string list \<Rightarrow> string list \<Rightarrow> string list" where
  "clean_words rooted st [] = rev st"
| "clean_words rooted st (w # ws) =
     (if w = [] \<or> w = ''.'' then clean_words rooted st ws
      else if w = dotdot then
        (case st of
           [] \<Rightarrow> clean_words rooted (if rooted then [] else [dotdot]) ws
         | x # st' \<Rightarrow> clean_words rooted (if x = dotdot then dotdot # st else st') ws)
      else clean_words rooted (w # st) ws)"

definition is_rooted :: "string \<Rightarrow> bool" where
  "is_rooted p \<longleftrightarrow> p \<noteq> [] \<and> hd p = sep"

definition path_string :: "bool \<Rightarrow> string list \<Rightarrow> string" where
  "path_string rooted ws =
     (if rooted then sep # join_slash ws else if ws = [] then ''.'' else join_slash ws)"

definition path_clean :: "string \<Rightarrow> string" where
  "path_clean p =
     (if p = [] then ''.'' else path_string (is_rooted p) (clean_words (is_rooted p) [] (split_slash p)))"

definition path_join :: "string list \<Rightarrow> string" where
  "path_join es =
     (case dropWhile (\<lambda>e. e = []) es of [] \<Rightarrow> [] | es' \<Rightarrow> path_clean (join_slash es'))"

text \<open>
  The words of a cleaned path: no empty word, no dot, and dot-dot only at the front of a path that
  is not rooted.
\<close>

definition dots_first :: "bool \<Rightarrow> string list \<Rightarrow> bool" where
  "dots_first up ws \<longleftrightarrow> dotdot \<notin> set (if up then dropWhile (\<lambda>w. w = dotdot) ws else ws)"

definition clean_form :: "bool \<Rightarrow> string list \<Rightarrow> bool" where
  "clean_form rooted ws \<longleftrightarrow>
     (\<forall>w \<in> set ws. word_ok w \<and> w \<noteq> ''.'') \<and> dots_first (\<not> rooted) ws"

lemma dots_first_Nil [simp]: "dots_first up []"
  by (simp add: dots_first_def)

lemma last_dropWhile_ne: "dropWhile P us \<noteq> [] \<Longrightarrow> last (dropWhile P us) = last us"
  by (induction us) (auto split: if_splits)

lemma dropWhile_snoc_in:
  "x \<in> set (dropWhile P (us @ [w])) \<longleftrightarrow> x \<in> set (dropWhile P us) \<or> (x = w \<and> \<not> ((\<forall>u \<in> set us. P u) \<and> P w))"
  by (induction us) auto

lemma dots_first_snoc: "dots_first up us \<Longrightarrow> w \<noteq> dotdot \<Longrightarrow> dots_first up (us @ [w])"
  by (cases up) (auto simp: dots_first_def dropWhile_snoc_in)

lemma dots_first_butlast: "dots_first up (us @ [w]) \<Longrightarrow> dots_first up us"
  by (cases up) (simp_all add: dots_first_def dropWhile_snoc_in)

lemma dots_first_last:
  assumes "dots_first True us" "us = [] \<or> last us = dotdot"
  shows "\<forall>w \<in> set us. w = dotdot"
proof (rule ccontr)
  assume "\<not> ?thesis"
  then have ne: "dropWhile (\<lambda>w. w = dotdot) us \<noteq> []"
    by (auto simp: dropWhile_eq_Nil_conv)
  then have "last (dropWhile (\<lambda>w. w = dotdot) us) = last us"
    by (rule last_dropWhile_ne)
  with assms ne show False
    by (metis dots_first_def dropWhile.simps(1) last_in_set)
qed

lemma dots_first_dots: "\<forall>w \<in> set us. w = dotdot \<Longrightarrow> dots_first True us"
  by (simp add: dots_first_def dropWhile_eq_Nil_conv [THEN iffD2])

lemma clean_words_form:
  assumes "clean_form rooted (rev st)" "\<forall>w \<in> set ws. sep \<notin> set w"
  shows "clean_form rooted (clean_words rooted st ws)"
  using assms
proof (induction rooted st ws rule: clean_words.induct)
  case (2 rooted st w ws)
  show ?case
  proof (cases "w = [] \<or> w = ''.''")
    case False
    show ?thesis
    proof (cases "w = dotdot")
      case dots: True
      show ?thesis
      proof (cases st)
        case Nil
        have "clean_form rooted (rev (if rooted then [] else [dotdot]))"
          by (simp add: clean_form_def dots_first_dots)
        then show ?thesis
          using 2 False dots Nil by simp
      next
        case (Cons x st')
        have "clean_form rooted (rev (if x = dotdot then dotdot # st else st'))"
        proof (cases "x = dotdot")
          case True
          have df: "dots_first (\<not> rooted) (rev st)"
            using "2.prems"(1) by (simp add: clean_form_def)
          have in_st: "dotdot \<in> set (rev st)"
            using Cons True by simp
          have nr: "\<not> rooted"
            using df in_st by (cases rooted) (simp_all add: dots_first_def)
          have up: "\<not> rooted" "dots_first True (rev st)"
            using df nr by simp_all
          then have "\<forall>w \<in> set (rev st). w = dotdot"
            using dots_first_last [of "rev st"] True Cons by simp
          then have "dots_first True (rev st @ [dotdot])"
            by (intro dots_first_dots) auto
          then show ?thesis
            using True nr "2.prems"(1) by (simp add: clean_form_def)
        next
          case False
          then show ?thesis
            using "2.prems"(1) Cons by (auto simp: clean_form_def intro: dots_first_butlast)
        qed
        then show ?thesis
          using 2 False dots Cons by (cases "x = dotdot") simp_all
      qed
    next
      case no: False
      have "clean_form rooted (rev (w # st))"
        using "2.prems" False no by (auto simp: clean_form_def word_ok_def intro: dots_first_snoc)
      then show ?thesis
        using 2 False no by simp
    qed
  qed (use 2 in simp)
qed simp

text \<open>Words in this form are left as they are.\<close>

lemma clean_words_id:
  assumes "clean_form rooted (rev st @ ws)"
  shows "clean_words rooted st ws = rev st @ ws"
  using assms
proof (induction rooted st ws rule: clean_words.induct)
  case (2 rooted st w ws)
  have w: "w \<noteq> []" "w \<noteq> ''.''"
    using 2(5) by (auto simp: clean_form_def word_ok_def)
  show ?case
  proof (cases "w = dotdot")
    case True
    have nr: "\<not> rooted"
      using 2(5) True by (auto simp: clean_form_def dots_first_def)
    have "dots_first True (rev st @ [dotdot])"
      using 2(5) nr True
      by (auto simp: clean_form_def dots_first_def dropWhile_append split: if_splits)
    then have "\<forall>x \<in> set (rev st @ [dotdot]). x = dotdot"
      by (rule dots_first_last) simp
    then show ?thesis
      using 2 True nr by (cases st) auto
  next
    case False
    then show ?thesis
      using 2 w by simp
  qed
qed simp

text \<open>The words of a path read back, and what \<open>path_clean\<close> does to a path in clean form.\<close>

definition path_words :: "string \<Rightarrow> string list" where
  "path_words p = clean_words (is_rooted p) [] (split_slash p)"

lemma path_words_form: "clean_form (is_rooted p) (path_words p)"
  unfolding path_words_def
  by (rule clean_words_form) (auto simp: clean_form_def split_slash_no_sep)

lemma path_clean_words: "path_clean p = path_string (is_rooted p) (path_words p)"
  by (simp add: path_clean_def path_words_def path_string_def is_rooted_def)

lemma is_rooted_path_string:
  assumes "clean_form r ws"
  shows "is_rooted (path_string r ws) = r"
proof (cases "r \<or> ws = []")
  case False
  then show ?thesis
    using assms hd_join_slash [of ws] by (auto simp: path_string_def is_rooted_def clean_form_def)
qed (auto simp: path_string_def is_rooted_def sep_def)

lemma path_words_string:
  assumes "clean_form r ws"
  shows "path_words (path_string r ws) = ws"
proof -
  have id: "clean_words r [] ws = ws"
    using clean_words_id [of r "[]" ws] assms by simp
  have sp: "ws \<noteq> [] \<Longrightarrow> split_slash (join_slash ws) = ws"
    using assms by (intro split_join_slash) (auto simp: clean_form_def word_ok_def)
  have "split_slash (path_string r ws) =
      (if r then [] # (if ws = [] then [[]] else ws) else if ws = [] then [''.''] else ws)"
    using sp by (simp add: path_string_def sep_def)
  then show ?thesis
    using id is_rooted_path_string [OF assms] by (cases r) (simp_all add: path_words_def)
qed

lemma is_rooted_clean [simp]: "is_rooted (path_clean p) = is_rooted p"
  by (simp add: path_clean_words is_rooted_path_string path_words_form)

lemma path_words_clean [simp]: "path_words (path_clean p) = path_words p"
  by (simp add: path_clean_words path_words_string path_words_form)

lemma path_clean_idem [simp]: "path_clean (path_clean p) = path_clean p"
  by (simp add: path_clean_words [of "path_clean p"]) (simp add: path_clean_words)

section \<open>Rel\<close>

text \<open>
  \<open>filepath.Rel(base, targ)\<close> walks the two cleaned paths while their words agree. An error is
  \<open>None\<close>. A base of one dot has no words to walk.
\<close>

definition rel_words :: "string \<Rightarrow> string list" where
  "rel_words p =
     (let q = (if is_rooted p then tl p else p) in if q = [] then [] else split_slash q)"

fun drop_common :: "string list \<Rightarrow> string list \<Rightarrow> string list \<times> string list" where
  "drop_common (b # bs) (t # ts) = (if b = t then drop_common bs ts else (b # bs, t # ts))"
| "drop_common bs ts = (bs, ts)"

definition path_rel :: "string \<Rightarrow> string \<Rightarrow> string option" where
  "path_rel basepath targpath =
     (let base = path_clean basepath; targ = path_clean targpath in
      if targ = base then Some ''.''
      else
        let base = (if base = ''.'' then [] else base) in
        if is_rooted base \<noteq> is_rooted targ then None
        else case drop_common (rel_words base) (rel_words targ) of
          ([], ts) \<Rightarrow> Some (join_slash ts)
        | (b # bs, ts) \<Rightarrow>
            if ts \<noteq> [] \<and> b = dotdot then None
            else Some (join_slash (replicate (Suc (length bs)) dotdot @ ts)))"

text \<open>\<open>rel == ".." || strings.HasPrefix(rel, "../")\<close>, the test for a path that climbs.\<close>

definition climbs :: "string \<Rightarrow> bool" where
  "climbs rel \<longleftrightarrow> rel = dotdot \<or> prefix (dotdot @ [sep]) rel"

lemma drop_common_Nil: "drop_common bs ts = ([], us) \<Longrightarrow> ts = bs @ us"
  by (induction bs ts rule: drop_common.induct) (auto split: if_splits)

lemma climbs_join_slash: "climbs (join_slash (dotdot # ws))"
  by (cases "ws = []") (simp_all add: climbs_def join_slash_Cons)

lemma rel_words_clean:
  "path_clean p \<noteq> ''.'' \<Longrightarrow> rel_words (path_clean p) = path_words p"
proof -
  assume ne: "path_clean p \<noteq> ''.''"
  have f: "clean_form (is_rooted p) (path_words p)"
    by (rule path_words_form)
  then have sp: "path_words p \<noteq> [] \<Longrightarrow> split_slash (join_slash (path_words p)) = path_words p"
    by (intro split_join_slash) (auto simp: clean_form_def word_ok_def)
  have nil: "join_slash (path_words p) = [] \<longleftrightarrow> path_words p = []"
    using f by (intro join_slash_eq_Nil) (simp add: clean_form_def)
  have tl: "(if is_rooted p then tl (path_clean p) else path_clean p) = join_slash (path_words p)"
    using ne by (auto simp: path_clean_words path_string_def split: if_splits)
  show ?thesis
    using sp nil by (simp add: rel_words_def tl Let_def)
qed

text \<open>
  Where \<open>Rel\<close> answers a path that is neither a dot nor climbs, the cleaned target lies strictly
  below the cleaned base: its words are the base's words and then at least one more, and the answer
  spells those.
\<close>

lemma path_clean_dot_words: "path_clean p = ''.'' \<Longrightarrow> path_words p = [] \<and> \<not> is_rooted p"
proof -
  assume d: "path_clean p = ''.''"
  have "path_words (path_clean p) = path_words p" "is_rooted (path_clean p) = is_rooted p"
    by simp_all
  moreover have "path_words ''.'' = []" "\<not> is_rooted ''.''"
    by (simp_all add: path_words_def is_rooted_def sep_def)
  ultimately show ?thesis
    using d by simp
qed

lemma path_rel_below:
  assumes "path_rel b t = Some rel" "rel \<noteq> ''.''" "\<not> climbs rel"
  shows "\<exists>us. us \<noteq> [] \<and> path_words t = path_words b @ us \<and> is_rooted t = is_rooted b \<and> rel = join_slash us"
proof -
  let ?b = "if path_clean b = ''.'' then [] else path_clean b"
  have ne: "path_clean t \<noteq> path_clean b"
    using assms(1,2) by (auto simp: path_rel_def)
  have roots: "is_rooted ?b = is_rooted b"
    using path_clean_dot_words [of b] by (auto simp: is_rooted_def [of "[]"])
  have rt: "is_rooted t = is_rooted b"
    using assms(1) ne roots by (auto simp: path_rel_def Let_def split: if_splits)
  have wb: "rel_words ?b = path_words b"
    using path_clean_dot_words [of b] by (auto simp: rel_words_clean) (simp add: rel_words_def is_rooted_def)
  obtain bs ts where d: "drop_common (path_words b) (rel_words (path_clean t)) = (bs, ts)"
    by (cases "drop_common (path_words b) (rel_words (path_clean t))")
  have res: "(case (bs, ts) of ([], ts) \<Rightarrow> Some (join_slash ts)
        | (b # bs, ts) \<Rightarrow>
            if ts \<noteq> [] \<and> b = dotdot then None
            else Some (join_slash (replicate (Suc (length bs)) dotdot @ ts))) = Some rel"
    using assms(1) ne roots rt wb d by (simp add: path_rel_def Let_def)
  have "bs = []"
    using res assms(3) climbs_join_slash by (cases bs) (auto split: if_splits)
  then have eq: "rel_words (path_clean t) = path_words b @ ts" and rel: "rel = join_slash ts"
    using drop_common_Nil d res by simp_all
  show ?thesis
  proof (cases "path_clean t = ''.''")
    case True
    then have "rel_words (path_clean t) = [''.'']"
      by (simp add: rel_words_def is_rooted_def sep_def)
    then have "path_words b = [] \<or> path_words b = [''.'']"
      using eq by (cases "path_words b") auto
    moreover have "''.'' \<notin> set (path_words b)"
      using path_words_form [of b] by (auto simp: clean_form_def)
    ultimately have "path_words b = []"
      by auto
    with eq \<open>rel_words (path_clean t) = [''.'']\<close> have "ts = [''.'']"
      by simp
    then show ?thesis
      using rel assms(2) by simp
  next
    case False
    then have w: "path_words t = path_words b @ ts"
      using eq by (simp add: rel_words_clean)
    have "ts \<noteq> []"
    proof
      assume "ts = []"
      then have "path_clean t = path_clean b"
        using w rt by (simp add: path_clean_words)
      with ne show False ..
    qed
    then show ?thesis
      using w rt rel by blast
  qed
qed

end
