(* ===== verification/ToolManifest.thy ===== *)
theory ToolManifest
  imports FilePath
begin

text \<open>
  Tool manifests and source configurations (\<open>core/pkg/toolregistry\<close>: \<open>manifest.go\<close>,
  \<open>config.go\<close>, \<open>yaml.go\<close>): the closed sets of modes, kinds and policies with their validation,
  the strict decoder, the loader that stamps a manifest with its source, and the validation of an
  operator's source list. What \<open>encoding/json\<close> and \<open>yaml.v3\<close> make of the bytes is a parameter;
  everything the package does with the answer is here.
\<close>

section \<open>Errors with their dynamic types\<close>

text \<open>
  This package reports the dynamic type of errors, so its error values keep it: \<open>EVal ty l\<close> is an
  error of type \<open>ty\<close> that wraps nothing, \<open>EWrap ty msg e\<close> one with a method \<open>Unwrap() error\<close>,
  \<open>EWraps ty es\<close> one with \<open>Unwrap() []error\<close>. \<open>fmt.Errorf\<close> makes the second for one \<open>%w\<close>
  (\<open>msg\<close> is what its format says beside the wrapped error) and the third for two or more;
  \<open>err_links\<close> is the chain \<open>errors.Is\<close> searches.
\<close>

datatype err_tree = EVal string err_link | EWrap string string err_tree | EWraps string "err_tree list"

fun err_links :: "err_tree \<Rightarrow> goerr" where
  "err_links (EVal ty l) = [l]"
| "err_links (EWrap ty msg e) = Text msg # err_links e"
| "err_links (EWraps ty es) = Text ty # concat (map err_links es)"

definition tree_is :: "err_tree \<Rightarrow> string \<Rightarrow> bool" where
  "tree_is e s \<longleftrightarrow> errors_is (err_links e) s"

definition sentinel :: "string \<Rightarrow> err_tree" where
  "sentinel s = EVal ''*errors.errorString'' (Sentinel s)"

definition errors_new :: "string \<Rightarrow> err_tree" where
  "errors_new msg = EVal ''*errors.errorString'' (Text msg)"

definition wrap1 :: "string \<Rightarrow> err_tree \<Rightarrow> err_tree" where
  "wrap1 msg e = EWrap ''*fmt.wrapError'' msg e"

definition wraps :: "err_tree list \<Rightarrow> err_tree" where
  "wraps es = EWraps ''*fmt.wrapErrors'' es"

lemma tree_is_simps [simp]:
  "tree_is (EVal ty l) s \<longleftrightarrow> l = Sentinel s"
  "tree_is (EWrap ty msg e) s \<longleftrightarrow> tree_is e s"
  "tree_is (EWraps ty es) s \<longleftrightarrow> (\<exists>e \<in> set es. tree_is e s)"
  "tree_is (sentinel t) s \<longleftrightarrow> t = s"
  "\<not> tree_is (errors_new msg) s"
  "tree_is (wrap1 msg e) s \<longleftrightarrow> tree_is e s"
  "tree_is (wraps es) s \<longleftrightarrow> (\<exists>e \<in> set es. tree_is e s)"
  by (auto simp: tree_is_def sentinel_def errors_new_def wrap1_def wraps_def errors_is_def)

text \<open>\<open>leafErrType\<close> follows \<open>errors.Unwrap\<close>, which only looks for \<open>Unwrap() error\<close>.\<close>

fun leaf_err_type :: "err_tree \<Rightarrow> string" where
  "leaf_err_type (EVal ty l) = ty"
| "leaf_err_type (EWrap ty msg e) = leaf_err_type e"
| "leaf_err_type (EWraps ty es) = ty"

section \<open>Manifests\<close>

abbreviation ErrManifestParse :: string where
  "ErrManifestParse \<equiv> ''ErrManifestParse''"
abbreviation ErrManifestUnknownField :: string where
  "ErrManifestUnknownField \<equiv> ''ErrManifestUnknownField''"
abbreviation ErrManifestMissingRequired :: string where
  "ErrManifestMissingRequired \<equiv> ''ErrManifestMissingRequired''"
abbreviation ErrManifestSourceCollision :: string where
  "ErrManifestSourceCollision \<equiv> ''ErrManifestSourceCollision''"
abbreviation ErrInvalidDryRunMode :: string where
  "ErrInvalidDryRunMode \<equiv> ''ErrInvalidDryRunMode''"
abbreviation ErrInvalidSourceName :: string where
  "ErrInvalidSourceName \<equiv> ''ErrInvalidSourceName''"

definition dry_run_modes :: "string list" where
  "dry_run_modes = [''ghost'', ''scoped'', ''none'']"

definition dry_run_mode_validate :: "string \<Rightarrow> err_tree option" where
  "dry_run_mode_validate m =
     (if m \<in> set dry_run_modes then None else Some (wrap1 m (sentinel ErrInvalidDryRunMode)))"

record manifest =
  mf_name :: string
  mf_version :: string
  mf_capabilities :: "string list"
  mf_schema :: string
  mf_source :: string
  mf_signature :: string
  mf_dry_run_mode :: string

text \<open>\<open>fmt.Errorf("%w: name", ErrManifestMissingRequired)\<close> and its siblings; the field is the text.\<close>

definition missing_field :: "string \<Rightarrow> err_tree" where
  "missing_field f = wrap1 f (sentinel ErrManifestMissingRequired)"

definition schema_missing :: "string \<Rightarrow> bool" where
  "schema_missing s \<longleftrightarrow> trim_space s = [] \<or> trim_space s = ''null''"

definition manifest_validate :: "manifest \<Rightarrow> err_tree option" where
  "manifest_validate m =
     (if blank (mf_name m) then Some (missing_field ''name'')
      else if blank (mf_version m) then Some (missing_field ''version'')
      else if mf_capabilities m = [] then Some (missing_field ''capabilities'')
      else if \<exists>c \<in> set (mf_capabilities m). blank c then Some (missing_field ''capabilities'')
      else if schema_missing (mf_schema m) then Some (missing_field ''schema'')
      else if blank (mf_dry_run_mode m) then Some (missing_field ''dry_run_mode'')
      else dry_run_mode_validate (mf_dry_run_mode m))"

text \<open>
  What the strict JSON decoder answers for a file's bytes: the manifest of the first document or
  an error; whether that error's text contains \<open>unknown field\<close>; and what decoding a second
  document answers (\<open>None\<close> where it succeeds).
\<close>

record json_decoder =
  jd_first :: "string \<Rightarrow> err_tree + manifest"
  jd_unknown_field :: "err_tree \<Rightarrow> bool"
  jd_second :: "string \<Rightarrow> err_tree option"

abbreviation IOEOF :: string where
  "IOEOF \<equiv> ''io.EOF''"

definition decode_manifest :: "json_decoder \<Rightarrow> string \<Rightarrow> err_tree + manifest" where
  "decode_manifest J raw =
     (if raw = [] then Inl (wrap1 ''empty input'' (sentinel ErrManifestParse))
      else case jd_first J raw of
        Inl err \<Rightarrow>
          if jd_unknown_field J err
          then Inl (wraps [sentinel ErrManifestUnknownField, sentinel ErrManifestParse, err])
          else Inl (wraps [sentinel ErrManifestParse, err])
      | Inr m \<Rightarrow>
          (case jd_second J raw of
             None \<Rightarrow> Inl (wrap1 ''trailing document'' (sentinel ErrManifestParse))
           | Some err \<Rightarrow>
               if \<not> tree_is err IOEOF then Inl (wraps [sentinel ErrManifestParse, err])
               else case manifest_validate m of
                 Some e \<Rightarrow> Inl e
               | None \<Rightarrow> Inr m))"

text \<open>The loader reads the manifest of one tool directory and stamps it with its source's name.\<close>

definition load_manifest ::
  "json_decoder \<Rightarrow> (string \<Rightarrow> err_tree + string) \<Rightarrow> string \<Rightarrow> string \<Rightarrow> err_tree + manifest" where
  "load_manifest J read_file dir source_name =
     (if blank source_name then Inl (sentinel ErrInvalidSourceName)
      else case read_file (path_join [dir, ''manifest.json'']) of
        Inl err \<Rightarrow> Inl (wraps [sentinel ErrManifestParse, err])
      | Inr raw \<Rightarrow>
          (case decode_manifest J raw of
             Inl err \<Rightarrow> Inl err
           | Inr m \<Rightarrow>
               if mf_source m = [] then Inr (m\<lparr>mf_source := source_name\<rparr>)
               else if mf_source m \<noteq> source_name
                 then Inl (wrap1 (mf_source m) (sentinel ErrManifestSourceCollision))
               else Inr m))"

section \<open>Source configurations\<close>

abbreviation ErrMissingSourceURL :: string where
  "ErrMissingSourceURL \<equiv> ''ErrMissingSourceURL''"
abbreviation ErrSourceURLNotAllowed :: string where
  "ErrSourceURLNotAllowed \<equiv> ''ErrSourceURLNotAllowed''"
abbreviation ErrAuthSecretNotAllowed :: string where
  "ErrAuthSecretNotAllowed \<equiv> ''ErrAuthSecretNotAllowed''"
abbreviation ErrInvalidSourceKind :: string where
  "ErrInvalidSourceKind \<equiv> ''ErrInvalidSourceKind''"
abbreviation ErrInvalidCronSpec :: string where
  "ErrInvalidCronSpec \<equiv> ''ErrInvalidCronSpec''"
abbreviation ErrInvalidPullPolicy :: string where
  "ErrInvalidPullPolicy \<equiv> ''ErrInvalidPullPolicy''"
abbreviation ErrDuplicateSourceName :: string where
  "ErrDuplicateSourceName \<equiv> ''ErrDuplicateSourceName''"

abbreviation SourceKindGit :: string where "SourceKindGit \<equiv> ''git''"
abbreviation SourceKindLocal :: string where "SourceKindLocal \<equiv> ''local''"
abbreviation SourceKindHosted :: string where "SourceKindHosted \<equiv> ''hosted''"

record source_config =
  sc_name :: string
  sc_kind :: string
  sc_url :: string
  sc_branch :: string
  sc_pull_policy :: string
  sc_cron_spec :: string
  sc_auth_secret :: string
  sc_bootstrap_on_boot :: bool

text \<open>The regular expression \<open>^[a-zA-Z0-9_-]+$\<close>.\<close>

definition source_name_char :: "char \<Rightarrow> bool" where
  "source_name_char c \<longleftrightarrow>
     (let n = of_char c :: nat
      in (97 \<le> n \<and> n \<le> 122) \<or> (65 \<le> n \<and> n \<le> 90) \<or> (48 \<le> n \<and> n \<le> 57) \<or> n = 95 \<or> n = 45)"

definition valid_source_name :: "string \<Rightarrow> bool" where
  "valid_source_name s \<longleftrightarrow> s \<noteq> [] \<and> list_all source_name_char s"

definition source_kind_error :: "source_config \<Rightarrow> err_tree option" where
  "source_kind_error sc =
     (if sc_kind sc = SourceKindGit then
        (if blank (sc_url sc) then Some (wrap1 (sc_name sc) (sentinel ErrMissingSourceURL)) else None)
      else if sc_kind sc = SourceKindLocal \<or> sc_kind sc = SourceKindHosted then
        (if \<not> blank (sc_url sc) then Some (wrap1 (sc_name sc) (sentinel ErrSourceURLNotAllowed))
         else if \<not> blank (sc_auth_secret sc) then Some (wrap1 (sc_name sc) (sentinel ErrAuthSecretNotAllowed))
         else None)
      else Some (wrap1 (sc_name sc) (sentinel ErrInvalidSourceKind)))"

definition pull_policy_error :: "source_config \<Rightarrow> err_tree option" where
  "pull_policy_error sc =
     (if sc_pull_policy sc = ''on-boot'' \<or> sc_pull_policy sc = ''on-demand'' then None
      else if sc_pull_policy sc = ''cron'' then
        (if blank (sc_cron_spec sc) then Some (wrap1 (sc_name sc) (sentinel ErrInvalidCronSpec)) else None)
      else Some (wrap1 (sc_name sc) (sentinel ErrInvalidPullPolicy)))"

definition source_validate :: "source_config \<Rightarrow> err_tree option" where
  "source_validate sc =
     (if blank (sc_name sc) then Some (sentinel ErrInvalidSourceName)
      else if \<not> valid_source_name (sc_name sc) then Some (wrap1 (sc_name sc) (sentinel ErrInvalidSourceName))
      else case source_kind_error sc of
        Some e \<Rightarrow> Some e
      | None \<Rightarrow> pull_policy_error sc)"

definition effective_branch :: "source_config \<Rightarrow> string" where
  "effective_branch sc = (if blank (sc_branch sc) then ''main'' else sc_branch sc)"

fun validate_sources_from :: "string set \<Rightarrow> source_config list \<Rightarrow> err_tree option" where
  "validate_sources_from seen [] = None"
| "validate_sources_from seen (s # ss) =
     (case source_validate s of
        Some e \<Rightarrow> Some (wrap1 ''toolregistry: sources'' e)
      | None \<Rightarrow>
          if sc_name s \<in> seen then Some (wrap1 (sc_name s) (sentinel ErrDuplicateSourceName))
          else validate_sources_from (insert (sc_name s) seen) ss)"

definition validate_sources :: "source_config list \<Rightarrow> err_tree option" where
  "validate_sources ss = validate_sources_from {} ss"

text \<open>
  The \<open>tool_sources\<close> document (\<open>yaml.go\<close>). The YAML decoder answers for a file's bytes the
  sources of the first document or an error, and the outcome of decoding a second document.
\<close>

record yaml_decoder =
  yd_first :: "string \<Rightarrow> err_tree + source_config list"
  yd_second :: "string \<Rightarrow> err_tree option"

definition decode_sources_yaml :: "yaml_decoder \<Rightarrow> string \<Rightarrow> err_tree + source_config list" where
  "decode_sources_yaml Y raw =
     (if blank raw then Inr []
      else case yd_first Y raw of
        Inl err \<Rightarrow> if tree_is err IOEOF then Inr [] else Inl (wrap1 ''toolregistry: decode tool_sources yaml'' err)
      | Inr ss \<Rightarrow>
          (case yd_second Y raw of
             None \<Rightarrow> Inl (errors_new ''toolregistry: decode tool_sources yaml: extra document'')
           | Some err \<Rightarrow>
               if \<not> tree_is err IOEOF then Inl (wrap1 ''toolregistry: decode tool_sources yaml'' err)
               else case validate_sources ss of
                 Some e \<Rightarrow> Inl e
               | None \<Rightarrow> Inr ss))"

definition load_sources_yaml ::
  "yaml_decoder \<Rightarrow> (string \<Rightarrow> err_tree + string) option \<Rightarrow> string \<Rightarrow> err_tree + source_config list" where
  "load_sources_yaml Y read_file path =
     (case read_file of
        None \<Rightarrow> Inl (errors_new ''toolregistry: load tool_sources yaml: fs must not be nil'')
      | Some rf \<Rightarrow>
          if blank path then Inr []
          else case rf path of
            Inl err \<Rightarrow> Inl (wrap1 ''toolregistry: load tool_sources yaml'' err)
          | Inr raw \<Rightarrow> decode_sources_yaml Y raw)"

section \<open>What the loader lets through\<close>

text \<open>A manifest in hand: validated, with the mode in the closed set, stamped with a source.\<close>

definition manifest_ok :: "string \<Rightarrow> manifest \<Rightarrow> bool" where
  "manifest_ok src m \<longleftrightarrow>
     \<not> blank (mf_name m) \<and> \<not> blank (mf_version m)
     \<and> mf_capabilities m \<noteq> [] \<and> list_all (\<lambda>c. \<not> blank c) (mf_capabilities m)
     \<and> \<not> schema_missing (mf_schema m) \<and> mf_dry_run_mode m \<in> set dry_run_modes
     \<and> mf_source m = src \<and> \<not> blank src"

lemma not_blank_modes: "m \<in> set dry_run_modes \<Longrightarrow> \<not> blank m"
proof -
  have "\<not> blank ''ghost''" "\<not> blank ''scoped''" "\<not> blank ''none''"
    by code_simp+
  then show "m \<in> set dry_run_modes \<Longrightarrow> \<not> blank m"
    by (auto simp: dry_run_modes_def)
qed

lemma manifest_validate_None:
  "manifest_validate m = None \<longleftrightarrow>
     \<not> blank (mf_name m) \<and> \<not> blank (mf_version m)
     \<and> mf_capabilities m \<noteq> [] \<and> list_all (\<lambda>c. \<not> blank c) (mf_capabilities m)
     \<and> \<not> schema_missing (mf_schema m) \<and> mf_dry_run_mode m \<in> set dry_run_modes"
  by (auto simp: manifest_validate_def dry_run_mode_validate_def list_all_iff not_blank_modes)

lemma decode_manifest_Inr:
  "decode_manifest J raw = Inr m \<Longrightarrow> jd_first J raw = Inr m \<and> manifest_validate m = None"
  by (auto simp: decode_manifest_def split: if_splits sum.splits option.splits)

lemma load_manifest_ok: "load_manifest J rf dir src = Inr m \<Longrightarrow> manifest_ok src m"
  by (auto simp: load_manifest_def manifest_ok_def manifest_validate_None dest!: decode_manifest_Inr
        split: if_splits sum.splits)

lemma manifest_validate_error:
  "manifest_validate m = Some e \<Longrightarrow>
     tree_is e ErrManifestMissingRequired \<or> tree_is e ErrInvalidDryRunMode"
  by (auto simp: manifest_validate_def dry_run_mode_validate_def missing_field_def split: if_splits)

lemma validate_sources_from_None:
  "validate_sources_from seen ss = None \<longleftrightarrow>
     list_all (\<lambda>s. source_validate s = None) ss \<and> distinct (map sc_name ss)
     \<and> set (map sc_name ss) \<inter> seen = {}"
  by (induction seen ss rule: validate_sources_from.induct) (auto split: option.splits)

lemma validate_sources_None:
  "validate_sources ss = None \<longleftrightarrow>
     list_all (\<lambda>s. source_validate s = None) ss \<and> distinct (map sc_name ss)"
  by (simp add: validate_sources_def validate_sources_from_None)

lemma source_validate_name:
  "source_validate s = None \<Longrightarrow> valid_source_name (sc_name s) \<and> \<not> blank (sc_name s)"
  by (auto simp: source_validate_def split: if_splits option.splits)

text \<open>A valid source name is one word of a path, and neither dot nor dot-dot.\<close>

lemma valid_source_name_word:
  "valid_source_name s \<Longrightarrow> word_ok s \<and> s \<noteq> ''.'' \<and> s \<noteq> dotdot"
  by (auto simp: valid_source_name_def word_ok_def dotdot_def list_all_iff source_name_char_def sep_def)

end
