(* ===== verification/EffectiveToolset.thy ===== *)
theory EffectiveToolset
  imports ToolManifest "HOL-Library.List_Lexorder" "HOL-Library.Char_ord"
begin

text \<open>
  The effective toolset (\<open>core/pkg/toolregistry\<close>: \<open>scanner.go\<close>, \<open>effective.go\<close>): the scan of
  one source's directory, the precedence flattening over all configured sources with its list of
  shadowed tools, and the immutable snapshot with its name index. The file system's two calls, the
  JSON decoder and the answers of \<open>ctx.Err()\<close> are parameters; strings are ordered bytewise, as Go
  orders them. The result is compared with a reference definition: among all contributions in
  source order, the first of each name.
\<close>

section \<open>Environment and diagnostics\<close>

record dir_entry =
  de_name :: string
  de_is_dir :: bool

record scan_env =
  ve_json :: json_decoder
  ve_read_file :: "string \<Rightarrow> err_tree + string"
  ve_read_dir :: "string \<Rightarrow> err_tree + dir_entry list"
  ve_ctx_err :: "nat \<Rightarrow> err_tree option"
  ve_logger :: bool

text \<open>The three diagnostics, with the values they carry.\<close>

datatype scan_log =
  ManifestScanFailed (sl_source: string) (sl_tool_dir: string) (sl_err_type: string)
| IntraSourceDuplicate (sl_source: string) (sl_manifest: string) (sl_winner_dir: string) (sl_loser_dir: string)
| SourceScanFailed (sl_source: string) (sl_err_type: string)

record scan_st =
  vs_reads :: nat
  vs_log :: "scan_log list"

definition scan_read_ctx :: "scan_env \<Rightarrow> scan_st \<Rightarrow> err_tree option \<times> scan_st" where
  "scan_read_ctx E s = (ve_ctx_err E (vs_reads s), s\<lparr>vs_reads := Suc (vs_reads s)\<rparr>)"

definition scan_log_add :: "scan_env \<Rightarrow> scan_log \<Rightarrow> scan_st \<Rightarrow> scan_st" where
  "scan_log_add E l s = (if ve_logger E then s\<lparr>vs_log := vs_log s @ [l]\<rparr> else s)"

section \<open>Scanning one source\<close>

abbreviation ErrScanReadDir :: string where
  "ErrScanReadDir \<equiv> ''ErrScanReadDir''"
abbreviation FsErrNotExist :: string where
  "FsErrNotExist \<equiv> ''fs.ErrNotExist''"

text \<open>
  The loop over the sorted entries: \<open>seen\<close> maps a manifest name to the directory that brought it
  first, \<open>ms\<close> collects the manifests.
\<close>

fun scan_entries ::
  "scan_env \<Rightarrow> string \<Rightarrow> string \<Rightarrow> (string \<rightharpoonup> string) \<Rightarrow> manifest list \<Rightarrow> dir_entry list
     \<Rightarrow> scan_st \<Rightarrow> (err_tree + manifest list) \<times> scan_st" where
  "scan_entries E dir src seen ms [] s = (Inr ms, s)"
| "scan_entries E dir src seen ms (e # es) s =
     (case scan_read_ctx E s of
        (Some err, s1) \<Rightarrow> (Inl err, s1)
      | (None, s1) \<Rightarrow>
          if \<not> de_is_dir e then scan_entries E dir src seen ms es s1
          else case load_manifest (ve_json E) (ve_read_file E) (path_join [dir, de_name e]) src of
            Inl err \<Rightarrow>
              scan_entries E dir src seen ms es
                (scan_log_add E (ManifestScanFailed src (de_name e) (leaf_err_type err)) s1)
          | Inr m \<Rightarrow>
              (case seen (mf_name m) of
                 Some first_dir \<Rightarrow>
                   scan_entries E dir src seen ms es
                     (scan_log_add E (IntraSourceDuplicate src (mf_name m) first_dir (de_name e)) s1)
               | None \<Rightarrow>
                   scan_entries E dir src (seen(mf_name m \<mapsto> de_name e)) (ms @ [m]) es s1))"

definition scan_source_dir ::
  "scan_env \<Rightarrow> string \<Rightarrow> string \<Rightarrow> scan_st \<Rightarrow> (err_tree + manifest list) \<times> scan_st" where
  "scan_source_dir E data_dir src s =
     (let dir = path_join [data_dir, ''tools'', src] in
      case ve_read_dir E dir of
        Inl err \<Rightarrow>
          if tree_is err FsErrNotExist then (Inr [], s)
          else (Inl (wraps [sentinel ErrScanReadDir, err]), s)
      | Inr entries \<Rightarrow>
          (case scan_entries E dir src Map.empty [] (sort_key de_name entries) s of
             (Inl err, s1) \<Rightarrow> (Inl err, s1)
           | (Inr ms, s1) \<Rightarrow> (Inr (sort_key mf_name ms), s1)))"

section \<open>Precedence flattening\<close>

record effective_tool =
  et_source :: string
  et_manifest :: manifest

record shadowed_tool =
  sh_tool_name :: string
  sh_winner_source :: string
  sh_winner_version :: string
  sh_shadowed_source :: string
  sh_shadowed_version :: string

abbreviation et_name :: "effective_tool \<Rightarrow> string" where
  "et_name t \<equiv> mf_name (et_manifest t)"

definition shadow_of :: "effective_tool \<Rightarrow> string \<Rightarrow> manifest \<Rightarrow> shadowed_tool" where
  "shadow_of winner src m =
     \<lparr>sh_tool_name = mf_name m, sh_winner_source = et_source winner,
      sh_winner_version = mf_version (et_manifest winner),
      sh_shadowed_source = src, sh_shadowed_version = mf_version m\<rparr>"

text \<open>The accumulators of the loop: the index of every winner, the winners, the shadowed tools.\<close>

record merge_st =
  mg_winner_idx :: "string \<rightharpoonup> nat"
  mg_merged :: "effective_tool list"
  mg_shadows :: "shadowed_tool list"

definition merge_manifest :: "string \<Rightarrow> merge_st \<Rightarrow> manifest \<Rightarrow> merge_st" where
  "merge_manifest src g m =
     (case mg_winner_idx g (mf_name m) of
        Some idx \<Rightarrow> g\<lparr>mg_shadows := mg_shadows g @ [shadow_of (mg_merged g ! idx) src m]\<rparr>
      | None \<Rightarrow>
          (let merged = mg_merged g @ [\<lparr>et_source = src, et_manifest = m\<rparr>]
           in g\<lparr>mg_merged := merged,
                mg_winner_idx := (mg_winner_idx g)(mf_name m \<mapsto> length merged - 1)\<rparr>))"

definition merge_init :: merge_st where
  "merge_init = \<lparr>mg_winner_idx = Map.empty, mg_merged = [], mg_shadows = []\<rparr>"

fun build_sources ::
  "scan_env \<Rightarrow> string \<Rightarrow> source_config list \<Rightarrow> merge_st \<Rightarrow> scan_st \<Rightarrow> (err_tree + merge_st) \<times> scan_st"
where
  "build_sources E data_dir [] g s = (Inr g, s)"
| "build_sources E data_dir (src # srcs) g s =
     (case scan_read_ctx E s of
        (Some err, s1) \<Rightarrow> (Inl err, s1)
      | (None, s1) \<Rightarrow>
          (case scan_source_dir E data_dir (sc_name src) s1 of
             (Inl err, s2) \<Rightarrow>
               if tree_is err CtxCanceled \<or> tree_is err CtxDeadlineExceeded then (Inl err, s2)
               else build_sources E data_dir srcs g
                      (scan_log_add E (SourceScanFailed (sc_name src) (leaf_err_type err)) s2)
           | (Inr ms, s2) \<Rightarrow>
               build_sources E data_dir srcs (foldl (merge_manifest (sc_name src)) g ms) s2))"

section \<open>The snapshot\<close>

record effective_toolset =
  ts_revision :: int
  ts_built_at :: gotime
  ts_tools :: "effective_tool list"
  ts_by_name :: "string \<rightharpoonup> nat"

definition index_by_name :: "effective_tool list \<Rightarrow> string \<rightharpoonup> nat" where
  "index_by_name ts = foldl (\<lambda>m (i, t). m(et_name t \<mapsto> i)) Map.empty (enumerate 0 ts)"

definition new_effective_toolset :: "int \<Rightarrow> gotime \<Rightarrow> effective_tool list \<Rightarrow> effective_toolset" where
  "new_effective_toolset revision built_at tools =
     (let sorted = sort_key et_name tools
      in \<lparr>ts_revision = revision, ts_built_at = built_at, ts_tools = sorted, ts_by_name = index_by_name sorted\<rparr>)"

text \<open>The accessors answer for a nil receiver too.\<close>

definition toolset_lookup :: "effective_toolset option \<Rightarrow> string \<Rightarrow> effective_tool option" where
  "toolset_lookup s name =
     (case s of
        None \<Rightarrow> None
      | Some ts \<Rightarrow> (case ts_by_name ts name of None \<Rightarrow> None | Some idx \<Rightarrow> Some (ts_tools ts ! idx)))"

definition toolset_names :: "effective_toolset option \<Rightarrow> string list" where
  "toolset_names s = (case s of None \<Rightarrow> [] | Some ts \<Rightarrow> map et_name (ts_tools ts))"

definition toolset_len :: "effective_toolset option \<Rightarrow> nat" where
  "toolset_len s = (case s of None \<Rightarrow> 0 | Some ts \<Rightarrow> length (ts_tools ts))"

definition build_effective ::
  "scan_env \<Rightarrow> string \<Rightarrow> source_config list \<Rightarrow> gotime \<Rightarrow> scan_st
     \<Rightarrow> (err_tree + effective_toolset \<times> shadowed_tool list) \<times> scan_st" where
  "build_effective E data_dir sources built_at s =
     (case build_sources E data_dir sources merge_init s of
        (Inl err, s1) \<Rightarrow> (Inl err, s1)
      | (Inr g, s1) \<Rightarrow> (Inr (new_effective_toolset 0 built_at (mg_merged g), mg_shadows g), s1))"

section \<open>The reference\<close>

text \<open>
  \<open>contributions\<close> only gathers: every manifest of every readable source, in order, with its source.
  The reference picks from that list: \<open>winner\<close> is the first contribution of a name, \<open>firsts\<close> the
  contributions whose name no earlier one has, \<open>shadows_of\<close> the others, each naming its winner.
\<close>

fun contributions ::
  "scan_env \<Rightarrow> string \<Rightarrow> source_config list \<Rightarrow> effective_tool list \<Rightarrow> scan_st
     \<Rightarrow> (err_tree + effective_tool list) \<times> scan_st"
where
  "contributions E data_dir [] cs s = (Inr cs, s)"
| "contributions E data_dir (src # srcs) cs s =
     (case scan_read_ctx E s of
        (Some err, s1) \<Rightarrow> (Inl err, s1)
      | (None, s1) \<Rightarrow>
          (case scan_source_dir E data_dir (sc_name src) s1 of
             (Inl err, s2) \<Rightarrow>
               if tree_is err CtxCanceled \<or> tree_is err CtxDeadlineExceeded then (Inl err, s2)
               else contributions E data_dir srcs cs
                      (scan_log_add E (SourceScanFailed (sc_name src) (leaf_err_type err)) s2)
           | (Inr ms, s2) \<Rightarrow>
               contributions E data_dir srcs
                 (cs @ map (\<lambda>m. \<lparr>et_source = sc_name src, et_manifest = m\<rparr>) ms) s2))"

definition winner :: "effective_tool list \<Rightarrow> string \<Rightarrow> effective_tool option" where
  "winner cs n = find (\<lambda>t. et_name t = n) cs"

definition fresh_at :: "effective_tool list \<Rightarrow> nat \<Rightarrow> bool" where
  "fresh_at cs i \<longleftrightarrow> et_name (cs ! i) \<notin> et_name ` set (take i cs)"

definition firsts :: "effective_tool list \<Rightarrow> effective_tool list" where
  "firsts cs = map (nth cs) (filter (fresh_at cs) [0..<length cs])"

definition shadows_of :: "effective_tool list \<Rightarrow> shadowed_tool list" where
  "shadows_of cs =
     map (\<lambda>i. shadow_of (the (winner cs (et_name (cs ! i)))) (et_source (cs ! i)) (et_manifest (cs ! i)))
       (filter (\<lambda>i. \<not> fresh_at cs i) [0..<length cs])"

lemma fresh_at_snoc:
  "i < length cs \<Longrightarrow> fresh_at (cs @ [t]) i = fresh_at cs i"
  "fresh_at (cs @ [t]) (length cs) \<longleftrightarrow> et_name t \<notin> et_name ` set cs"
  by (simp_all add: fresh_at_def nth_append)

lemma firsts_snoc:
  "firsts (cs @ [t]) = firsts cs @ (if et_name t \<in> et_name ` set cs then [] else [t])"
proof -
  have "map (nth (cs @ [t])) (filter (fresh_at (cs @ [t])) [0..<length cs]) = firsts cs"
    by (auto simp: firsts_def fresh_at_snoc nth_append intro!: map_cong filter_cong)
  then show ?thesis
    by (simp add: firsts_def [of "cs @ [t]"] fresh_at_snoc)
qed

lemma winner_snoc:
  "winner (cs @ [t]) n = (case winner cs n of Some w \<Rightarrow> Some w | None \<Rightarrow> if et_name t = n then Some t else None)"
  by (induction cs) (auto simp: winner_def)

lemma winner_None: "winner cs n = None \<longleftrightarrow> n \<notin> et_name ` set cs"
  by (auto simp: winner_def find_None_iff)

lemma winner_Some: "winner cs n = Some w \<Longrightarrow> w \<in> set cs \<and> et_name w = n"
  by (auto simp: winner_def find_Some_iff)

lemma shadows_of_snoc:
  "shadows_of (cs @ [t]) =
     shadows_of cs @ (case winner cs (et_name t) of
        None \<Rightarrow> [] | Some w \<Rightarrow> [shadow_of w (et_source t) (et_manifest t)])"
proof -
  have old: "i < length cs \<Longrightarrow> \<exists>w. winner cs (et_name (cs ! i)) = Some w" for i
    using winner_None [of cs "et_name (cs ! i)"] by (cases "winner cs (et_name (cs ! i))") auto
  let ?f = "\<lambda>cs i. shadow_of (the (winner cs (et_name (cs ! i)))) (et_source (cs ! i)) (et_manifest (cs ! i))"
  have "map (?f (cs @ [t])) (filter (\<lambda>i. \<not> fresh_at (cs @ [t]) i) [0..<length cs]) = shadows_of cs"
    unfolding shadows_of_def
    by (intro map_cong filter_cong) (auto simp: fresh_at_snoc nth_append winner_snoc dest!: old)
  then show ?thesis
    by (auto simp: shadows_of_def [of "cs @ [t]"] fresh_at_snoc winner_snoc winner_None [symmetric]
        split: option.split)
qed

lemma length_firsts_shadows: "length (firsts cs) + length (shadows_of cs) = length cs"
  using sum_length_filter_compl [of "fresh_at cs" "[0..<length cs]"]
  by (simp add: firsts_def shadows_of_def)

lemma firsts_Nil [simp]: "firsts [] = []" "shadows_of [] = []" "winner [] n = None"
  by (simp_all add: firsts_def shadows_of_def winner_def)

lemma firsts_props:
  "distinct (map et_name (firsts cs))" "set (firsts cs) \<subseteq> set cs"
  "et_name ` set (firsts cs) = et_name ` set cs"
  by (induction cs rule: rev_induct) (auto simp: firsts_snoc)

lemma winner_firsts: "winner cs n = winner (firsts cs) n"
proof (induction cs rule: rev_induct)
  case (snoc t cs)
  show ?case
  proof (cases "winner cs n")
    case None
    then show ?thesis
      using snoc winner_None [of cs n] by (auto simp: firsts_snoc winner_snoc)
  next
    case (Some w)
    then show ?thesis
      using snoc by (simp add: firsts_snoc winner_snoc)
  qed
qed simp

section \<open>The loop against the reference\<close>

definition merge_inv :: "effective_tool list \<Rightarrow> merge_st \<Rightarrow> bool" where
  "merge_inv cs g \<longleftrightarrow>
     mg_merged g = firsts cs \<and> mg_shadows g = shadows_of cs
     \<and> (\<forall>n i. mg_winner_idx g n = Some i \<longleftrightarrow> i < length (firsts cs) \<and> et_name (firsts cs ! i) = n)"

lemma merge_inv_init: "merge_inv [] merge_init"
  by (simp add: merge_inv_def merge_init_def)

lemma winner_nth:
  "distinct (map et_name ts) \<Longrightarrow> i < length ts \<Longrightarrow> winner ts (et_name (ts ! i)) = Some (ts ! i)"
  by (auto simp: winner_def find_Some_iff distinct_conv_nth intro!: exI [of _ i])

lemma merge_manifest_inv:
  assumes "merge_inv cs g"
  shows "merge_inv (cs @ [\<lparr>et_source = src, et_manifest = m\<rparr>]) (merge_manifest src g m)"
proof (cases "mg_winner_idx g (mf_name m)")
  case None
  have idx: "mg_winner_idx g n = Some i \<longleftrightarrow> i < length (firsts cs) \<and> et_name (firsts cs ! i) = n" for n i
    using assms by (simp add: merge_inv_def)
  have old: "mf_name m \<notin> et_name ` set (firsts cs)"
    using idx [of "mf_name m"] None by (force simp: in_set_conv_nth)
  from old have new: "mf_name m \<notin> et_name ` set cs" "winner cs (mf_name m) = None"
    by (simp_all add: firsts_props winner_None)
  let ?t = "\<lparr>et_source = src, et_manifest = m\<rparr>"
  have "((mg_winner_idx g)(mf_name m \<mapsto> length (firsts cs))) n = Some i \<longleftrightarrow>
      i < length (firsts cs @ [?t]) \<and> et_name ((firsts cs @ [?t]) ! i) = n" for n i
  proof (cases "i < length (firsts cs)")
    case True
    then have "et_name (firsts cs ! i) \<noteq> mf_name m"
      using old by (metis image_eqI nth_mem)
    then show ?thesis
      using True idx [of n i] by (auto simp: nth_append)
  next
    case False
    then show ?thesis
      using idx [of n i] by (auto simp: nth_append less_Suc_eq)
  qed
  then show ?thesis
    using assms None new by (simp add: merge_inv_def merge_manifest_def firsts_snoc shadows_of_snoc)
next
  case (Some idx)
  then have i: "idx < length (firsts cs)" "et_name (firsts cs ! idx) = mf_name m"
    using assms by (auto simp: merge_inv_def)
  then have "winner cs (mf_name m) = Some (firsts cs ! idx)"
    using winner_nth [OF firsts_props(1) i(1)] winner_firsts by simp
  moreover from this have "mf_name m \<in> et_name ` set cs"
    using winner_None [of cs "mf_name m"] by auto
  moreover have "merge_manifest src g m =
      g\<lparr>mg_shadows := mg_shadows g @ [shadow_of (mg_merged g ! idx) src m]\<rparr>"
    using Some by (simp add: merge_manifest_def)
  ultimately show ?thesis
    using assms by (simp add: merge_inv_def firsts_snoc shadows_of_snoc)
qed

lemma merge_manifests_inv:
  "merge_inv cs g \<Longrightarrow>
     merge_inv (cs @ map (\<lambda>m. \<lparr>et_source = src, et_manifest = m\<rparr>) ms) (foldl (merge_manifest src) g ms)"
proof (induction ms arbitrary: cs g)
  case (Cons m ms)
  then show ?case
    using Cons.IH [OF merge_manifest_inv [OF Cons.prems, of src m]] by simp
qed simp

definition build_agrees ::
  "(err_tree + merge_st) \<times> scan_st \<Rightarrow> (err_tree + effective_tool list) \<times> scan_st \<Rightarrow> bool" where
  "build_agrees r r' \<longleftrightarrow>
     snd r' = snd r
     \<and> (case fst r of Inl err \<Rightarrow> fst r' = Inl err | Inr g \<Rightarrow> (\<exists>cs. fst r' = Inr cs \<and> merge_inv cs g))"

lemma build_agrees_simps [simp]:
  "build_agrees (Inl err, s1) r' \<longleftrightarrow> r' = (Inl err, s1)"
  "build_agrees (Inr g, s1) r' \<longleftrightarrow> (\<exists>cs. r' = (Inr cs, s1) \<and> merge_inv cs g)"
  by (cases r'; auto simp: build_agrees_def)+

lemma build_sources_contributions:
  "merge_inv cs g \<Longrightarrow> build_agrees (build_sources E d srcs g s) (contributions E d srcs cs s)"
proof (induction srcs arbitrary: cs g s)
  case (Cons src srcs)
  then show ?case
    by (auto split: prod.split option.split sum.split intro: merge_manifests_inv)
qed auto

section \<open>The snapshot's index\<close>

lemma index_by_name_snoc:
  "index_by_name (ts @ [t]) = (index_by_name ts)(et_name t \<mapsto> length ts)"
  by (simp add: index_by_name_def enumerate_append_eq)

lemma index_by_name_Some:
  assumes "distinct (map et_name ts)"
  shows "index_by_name ts n = Some i \<longleftrightarrow> i < length ts \<and> et_name (ts ! i) = n"
  using assms
proof (induction ts rule: rev_induct)
  case (snoc t ts)
  then have ih: "index_by_name ts n = Some i \<longleftrightarrow> i < length ts \<and> et_name (ts ! i) = n"
    and new: "et_name t \<notin> et_name ` set ts"
    by simp_all
  show ?case
  proof (cases "i < length ts")
    case True
    then have "et_name (ts ! i) \<noteq> et_name t"
      using new by (metis image_eqI nth_mem)
    then show ?thesis
      using True ih by (auto simp: index_by_name_snoc nth_append)
  next
    case False
    then show ?thesis
      using ih by (auto simp: index_by_name_snoc nth_append less_Suc_eq)
  qed
qed (simp add: index_by_name_def)

lemma winner_distinct:
  assumes "distinct (map et_name ts)"
  shows "winner ts n = Some t \<longleftrightarrow> t \<in> set ts \<and> et_name t = n"
proof
  assume "t \<in> set ts \<and> et_name t = n"
  then obtain i where "i < length ts" "ts ! i = t" "et_name t = n"
    by (auto simp: in_set_conv_nth)
  then show "winner ts n = Some t"
    using winner_nth [OF assms, of i] by simp
qed (use winner_Some in blast)

lemma winner_cong:
  assumes "distinct (map et_name ts)" "distinct (map et_name us)" "set ts = set us"
  shows "winner ts n = winner us n"
proof -
  have "winner ts n = Some t \<longleftrightarrow> winner us n = Some t" for t
    using assms by (simp add: winner_distinct)
  then show ?thesis
    by (metis option.exhaust)
qed

lemma lookup_index:
  assumes "distinct (map et_name (ts_tools ts))" "ts_by_name ts = index_by_name (ts_tools ts)"
  shows "toolset_lookup (Some ts) n = winner (ts_tools ts) n"
proof (cases "ts_by_name ts n")
  case None
  have "n \<notin> et_name ` set (ts_tools ts)"
    using None index_by_name_Some [OF assms(1), of n] assms(2)
    by (force simp: in_set_conv_nth)
  then show ?thesis
    using None by (simp add: toolset_lookup_def winner_None [symmetric])
next
  case (Some i)
  then have "i < length (ts_tools ts) \<and> et_name (ts_tools ts ! i) = n"
    using index_by_name_Some [OF assms(1)] assms(2) by simp
  then show ?thesis
    using Some winner_nth [OF assms(1), of i] by (auto simp: toolset_lookup_def)
qed

text \<open>The laws a snapshot obeys, whatever built it.\<close>

definition toolset_ok :: "effective_toolset \<Rightarrow> bool" where
  "toolset_ok ts \<longleftrightarrow>
     sorted (map et_name (ts_tools ts)) \<and> distinct (map et_name (ts_tools ts))
     \<and> ts_by_name ts = index_by_name (ts_tools ts)"

lemma new_effective_toolset_ok:
  "distinct (map et_name tools) \<Longrightarrow> toolset_ok (new_effective_toolset r b tools)"
  by (simp add: toolset_ok_def new_effective_toolset_def Let_def distinct_map)

lemma lookup_new_effective_toolset:
  assumes "distinct (map et_name tools)"
  shows "toolset_lookup (Some (new_effective_toolset r b tools)) n = winner tools n"
proof -
  let ?ts = "new_effective_toolset r b tools"
  have ok: "toolset_ok ?ts"
    using assms by (rule new_effective_toolset_ok)
  then have "toolset_lookup (Some ?ts) n = winner (ts_tools ?ts) n"
    by (intro lookup_index) (auto simp: toolset_ok_def)
  moreover have "winner (ts_tools ?ts) n = winner tools n"
    using ok assms by (intro winner_cong) (simp_all add: toolset_ok_def new_effective_toolset_def Let_def)
  ultimately show ?thesis
    by simp
qed

section \<open>What a build guarantees\<close>

text \<open>A tool of a snapshot: a well-formed manifest, stamped with the configured source it names.\<close>

definition tool_ok :: "string set \<Rightarrow> effective_tool \<Rightarrow> bool" where
  "tool_ok srcs t \<longleftrightarrow> et_source t \<in> srcs \<and> manifest_ok (et_source t) (et_manifest t)"

definition snapshot_typed :: "string set \<Rightarrow> effective_toolset \<Rightarrow> bool" where
  "snapshot_typed srcs ts \<longleftrightarrow> toolset_ok ts \<and> list_all (tool_ok srcs) (ts_tools ts)"

lemma scan_entries_ok:
  "scan_entries E d src seen ms es s = (Inr ms', s1) \<Longrightarrow> list_all (manifest_ok src) ms
     \<Longrightarrow> list_all (manifest_ok src) ms'"
proof (induction es arbitrary: seen ms s)
  case (Cons e es)
  then show ?case
    by (auto split: prod.splits option.splits if_splits sum.splits dest: load_manifest_ok)
qed simp

lemma scan_source_dir_ok:
  "scan_source_dir E d src s = (Inr ms, s1) \<Longrightarrow> list_all (manifest_ok src) ms"
  by (auto simp: scan_source_dir_def Let_def list_all_iff split: sum.splits if_splits prod.splits
        dest!: scan_entries_ok)

lemma contributions_ok:
  "contributions E d srcs cs s = (Inr cs', s1) \<Longrightarrow> list_all (tool_ok S) cs
     \<Longrightarrow> set (map sc_name srcs) \<subseteq> S \<Longrightarrow> list_all (tool_ok S) cs'"
proof (induction srcs arbitrary: cs s)
  case (Cons src srcs)
  have step: "scan_source_dir E d (sc_name src) s2 = (Inr ms, s3) \<Longrightarrow>
      list_all (tool_ok S) (cs @ map (\<lambda>m. \<lparr>et_source = sc_name src, et_manifest = m\<rparr>) ms)" for s2 ms s3
    using Cons.prems scan_source_dir_ok [of E d "sc_name src"] by (auto simp: list_all_iff tool_ok_def)
  from Cons show ?case
    by (auto split: prod.splits option.splits sum.splits if_splits dest: step)
qed simp

lemma build_effective_contributions:
  assumes "build_effective E d srcs b s = (Inr (ts, shadows), s1)"
  obtains cs where "contributions E d srcs [] s = (Inr cs, s1)"
    "ts = new_effective_toolset 0 b (firsts cs)" "shadows = shadows_of cs"
proof -
  obtain g where g: "build_sources E d srcs merge_init s = (Inr g, s1)"
    and res: "ts = new_effective_toolset 0 b (mg_merged g)" "shadows = mg_shadows g"
    using assms by (auto simp: build_effective_def split: prod.splits sum.splits)
  then obtain cs where "contributions E d srcs [] s = (Inr cs, s1)" "merge_inv cs g"
    using build_sources_contributions [OF merge_inv_init, of E d srcs s] by auto
  with res that show ?thesis
    by (simp add: merge_inv_def)
qed

lemma build_effective_typed:
  assumes "build_effective E d srcs b s = (Inr (ts, shadows), s1)"
  shows "snapshot_typed (set (map sc_name srcs)) ts"
proof -
  obtain cs where cs: "contributions E d srcs [] s = (Inr cs, s1)"
    and ts: "ts = new_effective_toolset 0 b (firsts cs)"
    using assms by (rule build_effective_contributions)
  have "list_all (tool_ok (set (map sc_name srcs))) (firsts cs)"
    using contributions_ok [OF cs, of "set (map sc_name srcs)"] firsts_props(2) [of cs]
    by (auto simp: list_all_iff)
  then show ?thesis
    using new_effective_toolset_ok [OF firsts_props(1)] ts
    by (simp add: snapshot_typed_def new_effective_toolset_def Let_def list_all_iff)
qed

text \<open>
  C36: Precedence flattening is the reference: the build fails exactly as
  gathering the contributions fails; otherwise the snapshot answers every name with the first
  contribution of that name in source order, lists the names sorted and without repetition, and
  the shadowed tools are the remaining contributions, in the order they were met, each naming the
  tool that won. No contribution is lost.
\<close>

theorem build_effective_reference:
  "case build_effective E data_dir sources built_at s of
     (Inl err, s1) \<Rightarrow> contributions E data_dir sources [] s = (Inl err, s1)
   | (Inr (ts, shadows), s1) \<Rightarrow>
       \<exists>cs. contributions E data_dir sources [] s = (Inr cs, s1)
         \<and> (\<forall>n. toolset_lookup (Some ts) n = winner cs n)
         \<and> toolset_names (Some ts) = sorted_list_of_set (et_name ` set cs)
         \<and> shadows = shadows_of cs
         \<and> toolset_len (Some ts) + length shadows = length cs"
proof (cases "build_sources E data_dir sources merge_init s")
  case (Pair r s1)
  have agree: "build_agrees (r, s1) (contributions E data_dir sources [] s)"
    using build_sources_contributions [OF merge_inv_init, of E data_dir sources s] Pair by simp
  show ?thesis
  proof (cases r)
    case (Inl err)
    then show ?thesis
      using Pair agree by (simp add: build_effective_def)
  next
    case (Inr g)
    then obtain cs where cs: "contributions E data_dir sources [] s = (Inr cs, s1)" "merge_inv cs g"
      using agree by auto
    let ?ts = "new_effective_toolset 0 built_at (firsts cs)"
    have "toolset_names (Some ?ts) = sorted_list_of_set (et_name ` set cs)"
    proof (rule sorted_distinct_set_unique)
      show "sorted (toolset_names (Some ?ts))" "distinct (toolset_names (Some ?ts))"
        using new_effective_toolset_ok [OF firsts_props(1)]
        by (simp_all add: toolset_ok_def toolset_names_def)
      show "set (toolset_names (Some ?ts)) = set (sorted_list_of_set (et_name ` set cs))"
        by (simp add: toolset_names_def new_effective_toolset_def Let_def firsts_props)
    qed simp_all
    moreover have "toolset_len (Some ?ts) + length (shadows_of cs) = length cs"
      using length_firsts_shadows
      by (simp add: toolset_len_def new_effective_toolset_def Let_def)
    ultimately show ?thesis
      using cs Inr Pair lookup_new_effective_toolset [OF firsts_props(1)] winner_firsts
      by (simp add: build_effective_def merge_inv_def)
  qed
qed

section \<open>Isolation of a corrupt source\<close>

lemma scan_read_ctx_None:
  "\<forall>n. ve_ctx_err E n = None \<Longrightarrow> scan_read_ctx E s = (None, s\<lparr>vs_reads := Suc (vs_reads s)\<rparr>)"
  by (simp add: scan_read_ctx_def)

lemma scan_entries_stateless:
  "\<forall>n. ve_ctx_err E n = None \<Longrightarrow>
     fst (scan_entries E d src seen ms es s) = fst (scan_entries E d src seen ms es s')"
proof (induction es arbitrary: seen ms s s')
  case (Cons e es)
  note ih = Cons.IH [OF Cons.prems]
  from Cons.prems show ?case
    by (auto simp: scan_read_ctx_None split: sum.split option.split intro: ih)
qed simp

lemma scan_source_dir_stateless:
  assumes "\<forall>n. ve_ctx_err E n = None"
  shows "fst (scan_source_dir E d src s) = fst (scan_source_dir E d src s')"
  using scan_entries_stateless [OF assms, of "path_join [d, ''tools'', src]" src Map.empty "[]" _ s s']
  by (auto simp: scan_source_dir_def Let_def split: sum.split prod.split)
    (metis fst_conv sum.inject sum.distinct)+

lemma build_sources_stateless:
  assumes "\<forall>n. ve_ctx_err E n = None"
  shows "fst (build_sources E d srcs g s) = fst (build_sources E d srcs g s')"
proof (induction srcs arbitrary: g s s')
  case (Cons src srcs)
  let ?s = "s\<lparr>vs_reads := Suc (vs_reads s)\<rparr>" and ?s' = "s'\<lparr>vs_reads := Suc (vs_reads s')\<rparr>"
  obtain r t t' where rt: "scan_source_dir E d (sc_name src) ?s = (r, t)"
      "scan_source_dir E d (sc_name src) ?s' = (r, t')"
    using scan_source_dir_stateless [OF assms, of d "sc_name src" ?s ?s'] by (metis prod.collapse)
  show ?case
    using rt Cons.IH by (auto simp: scan_read_ctx_None [OF assms] split: sum.split)
qed simp

text \<open>A source whose directory cannot be read, for a reason other than a cancelled context.\<close>

definition unreadable :: "scan_env \<Rightarrow> string \<Rightarrow> source_config \<Rightarrow> bool" where
  "unreadable E data_dir src \<longleftrightarrow>
     (case ve_read_dir E (path_join [data_dir, ''tools'', sc_name src]) of
        Inl err \<Rightarrow> \<not> tree_is err CtxCanceled \<and> \<not> tree_is err CtxDeadlineExceeded
      | Inr _ \<Rightarrow> False)"

lemma build_sources_unreadable:
  assumes "\<forall>n. ve_ctx_err E n = None" "unreadable E d bad"
  shows "fst (build_sources E d (bad # vs) g s) = fst (build_sources E d vs g s')"
proof -
  obtain err where err: "ve_read_dir E (path_join [d, ''tools'', sc_name bad]) = Inl err"
      "\<not> tree_is err CtxCanceled" "\<not> tree_is err CtxDeadlineExceeded"
    using assms(2) by (auto simp: unreadable_def split: sum.splits)
  note st = build_sources_stateless [OF assms(1), of d vs g _ s']
  show ?thesis
    using err by (auto simp: scan_read_ctx_None [OF assms(1)] scan_source_dir_def Let_def intro: st)
qed

lemma build_sources_drop:
  assumes "\<forall>n. ve_ctx_err E n = None" "unreadable E d bad"
  shows "fst (build_sources E d (us @ bad # vs) g s) = fst (build_sources E d (us @ vs) g s)"
proof (induction us arbitrary: g s)
  case Nil
  then show ?case
    using build_sources_unreadable [OF assms] by simp
next
  case (Cons u us)
  then show ?case
    by (auto simp: scan_read_ctx_None [OF assms(1)] split: sum.split prod.split)
qed

text \<open>
  One corrupt source does not brick the toolset: while the context is
  live, a source whose directory cannot be read changes nothing of what the build returns; snapshot,
  shadowed tools and error are those of a configuration without it.
\<close>

theorem corrupt_source_isolated:
  assumes "\<forall>n. ve_ctx_err E n = None" "unreadable E data_dir bad"
  shows "fst (build_effective E data_dir (us @ bad # vs) built_at s)
       = fst (build_effective E data_dir (us @ vs) built_at s)"
  using build_sources_drop [OF assms, of us vs merge_init s]
  by (auto simp: build_effective_def split: prod.split sum.split)

section \<open>Witnesses\<close>

text \<open>
  Two readable sources that both ship a tool \<open>t\<close>, and a third whose directory cannot be opened.
  The demo decoder reads a file as the version of a manifest named after the file's first letter.
\<close>

definition demo_manifest :: "string \<Rightarrow> string \<Rightarrow> manifest" where
  "demo_manifest n v = \<lparr>mf_name = n, mf_version = v, mf_capabilities = [''read''], mf_schema = ''{}'',
     mf_source = [], mf_signature = [], mf_dry_run_mode = ''ghost''\<rparr>"

definition demo_json :: json_decoder where
  "demo_json = \<lparr>jd_first = (\<lambda>raw. Inr (demo_manifest (take 1 raw) raw)),
     jd_unknown_field = (\<lambda>_. False), jd_second = (\<lambda>_. Some (sentinel IOEOF))\<rparr>"

definition demo_scan_env :: scan_env where
  "demo_scan_env =
     \<lparr>ve_json = demo_json,
      ve_read_file = (\<lambda>p.
        if p = ''/d/tools/a/x/manifest.json'' then Inr ''t1''
        else if p = ''/d/tools/b/y/manifest.json'' then Inr ''t2''
        else if p = ''/d/tools/b/z/manifest.json'' then Inr ''u3''
        else Inl (sentinel FsErrNotExist)),
      ve_read_dir = (\<lambda>p.
        if p = ''/d/tools/a'' then Inr [\<lparr>de_name = ''x'', de_is_dir = True\<rparr>]
        else if p = ''/d/tools/b'' then Inr [\<lparr>de_name = ''z'', de_is_dir = True\<rparr>, \<lparr>de_name = ''y'', de_is_dir = True\<rparr>]
        else Inl (errors_new ''permission denied'')),
      ve_ctx_err = (\<lambda>_. None), ve_logger = True\<rparr>"

definition demo_source :: "string \<Rightarrow> source_config" where
  "demo_source n = \<lparr>sc_name = n, sc_kind = SourceKindLocal, sc_url = [], sc_branch = [],
     sc_pull_policy = ''on-boot'', sc_cron_spec = [], sc_auth_secret = [], sc_bootstrap_on_boot = False\<rparr>"

definition demo_scan_st :: scan_st where
  "demo_scan_st = \<lparr>vs_reads = 0, vs_log = []\<rparr>"

text \<open>What a caller sees of a build: the tools with their sources and versions, and the shadows.\<close>

definition build_view ::
  "err_tree + effective_toolset \<times> shadowed_tool list \<Rightarrow> (string \<times> string \<times> string) list \<times> shadowed_tool list" where
  "build_view r =
     (case r of
        Inl _ \<Rightarrow> ([], [])
      | Inr (ts, sh) \<Rightarrow> (map (\<lambda>t. (et_name t, et_source t, mf_version (et_manifest t))) (ts_tools ts), sh))"

lemma demo_unreadable: "unreadable demo_scan_env ''/d'' (demo_source ''c'')"
  by code_simp

lemma demo_build:
  "build_view (fst (build_effective demo_scan_env ''/d'' [demo_source ''a'', demo_source ''b'']
     (time_unix 7) demo_scan_st)) =
     ([(''t'', ''a'', ''t1''), (''u'', ''b'', ''u3'')],
      [\<lparr>sh_tool_name = ''t'', sh_winner_source = ''a'', sh_winner_version = ''t1'',
        sh_shadowed_source = ''b'', sh_shadowed_version = ''t2''\<rparr>])"
  by code_simp

theorem corrupt_source_isolated_witness:
  "build_view (fst (build_effective demo_scan_env ''/d''
     ([demo_source ''a''] @ demo_source ''c'' # [demo_source ''b'']) (time_unix 7) demo_scan_st)) =
     ([(''t'', ''a'', ''t1''), (''u'', ''b'', ''u3'')],
      [\<lparr>sh_tool_name = ''t'', sh_winner_source = ''a'', sh_winner_version = ''t1'',
        sh_shadowed_source = ''b'', sh_shadowed_version = ''t2''\<rparr>])"
  using corrupt_source_isolated [OF _ demo_unreadable, of "[demo_source ''a'']" "[demo_source ''b'']"
      "time_unix 7" demo_scan_st] demo_build
  by (simp add: demo_scan_env_def)

end
