(* ===== verification/ToolRegistry.thy ===== *)
theory ToolRegistry
  imports EffectiveToolset "HOL-Library.Multiset"
begin

text \<open>
  The tool registry (\<open>core/pkg/toolregistry/registry.go\<close>): the atomically swapped current snapshot
  with its reference counts, the retiring list with its grace period, and the publish phase of
  \<open>Recompute\<close>. The operations are the atomic actions of the code: the load and the increment of
  \<open>Acquire\<close>, the compare-and-swap and the decrement of its release callback, the critical section
  of \<open>Recompute\<close> under \<open>recomputeMu\<close>, the entry into the publish phase under \<open>publishMu\<close>, and the
  single publish calls. \<open>reg_step\<close> interleaves them freely, for any number of goroutines.
\<close>

section \<open>State\<close>

record registry_entry =
  re_snapshot :: effective_toolset
  re_refcount :: "32 word"
  re_retired_at :: "gotime option"

text \<open>
  A holder is one call of \<open>Acquire\<close>: it has loaded the current entry (\<open>HLoaded\<close>), counted itself and
  returned (\<open>HHeld\<close>), won the compare-and-swap of its release (\<open>HReleasing\<close>), and uncounted
  itself (\<open>HDone\<close>).
\<close>

datatype holder_phase = HLoaded | HHeld | HReleasing | HDone

record holder =
  hn_entry :: nat
  hn_phase :: holder_phase

text \<open>The two events, with the values they carry; a correlation id is the number it spells.\<close>

datatype reg_event =
  ToolShadowed (ev_tool: shadowed_tool) (ev_revision: int) (ev_built_at: gotime) (ev_correlation: int)
| EffectiveToolsetUpdated (ev_revision: int) (ev_built_at: gotime) (ev_tool_count: nat)
    (ev_source_count: nat) (ev_correlation: int)

text \<open>A \<open>Recompute\<close> call between its swap and its return: what is left to publish.\<close>

record publish_job =
  pj_revision :: int
  pj_snapshot :: effective_toolset
  pj_shadows :: "shadowed_tool list"
  pj_first_err :: "err_tree option"

datatype reg_log =
  RegScan scan_log
| RegRetired (rl_revision: int) (rl_retired_at: "gotime option") (rl_refcount: "32 word")
| RegShadowsDropped (rl_revision: int) (rl_shadow_count: nat)
| RegShadowDetected (rl_revision: int) (rl_shadow: shadowed_tool)
| RegPublishShadowFailed (rl_revision: int) (rl_tool: string) (rl_source: string) (rl_err_type: string)
| RegPublishUpdatedFailed (rl_revision: int) (rl_err_type: string)

record reg_config =
  rc_data_dir :: string
  rc_sources :: "source_config list"
  rc_grace_period :: int
  rc_publisher :: bool
  rc_logger :: bool

text \<open>
  The entries ever created stay addressable (a holder keeps its entry alive); \<open>rg_current\<close> and
  \<open>rg_retiring\<close> are the registry's references to them. \<open>rg_waiting\<close> are the calls that have left
  \<open>recomputeMu\<close> and not yet taken \<open>publishMu\<close>, \<open>rg_publishing\<close> the one that holds it, \<open>rg_bus\<close>
  every publish call made, in order, and \<open>rg_returns\<close> what the finished calls answered.
\<close>

record registry =
  rg_entries :: "registry_entry list"
  rg_current :: nat
  rg_rev_counter :: int
  rg_retiring :: "nat list"
  rg_holders :: "holder list"
  rg_waiting :: "publish_job list"
  rg_publishing :: "publish_job option"
  rg_bus :: "reg_event list"
  rg_returns :: "(effective_toolset option \<times> err_tree option) list"
  rg_log :: "reg_log list"

definition reg_log_add :: "reg_config \<Rightarrow> reg_log list \<Rightarrow> registry \<Rightarrow> registry" where
  "reg_log_add cfg ls r = (if rc_logger cfg then r\<lparr>rg_log := rg_log r @ ls\<rparr> else r)"

section \<open>Construction and reads\<close>

abbreviation ErrInvalidDataDir :: string where
  "ErrInvalidDataDir \<equiv> ''ErrInvalidDataDir''"
abbreviation ErrInvalidGracePeriod :: string where
  "ErrInvalidGracePeriod \<equiv> ''ErrInvalidGracePeriod''"
abbreviation ErrPublishAfterSwap :: string where
  "ErrPublishAfterSwap \<equiv> ''ErrPublishAfterSwap''"
abbreviation ErrPublishToolShadowed :: string where
  "ErrPublishToolShadowed \<equiv> ''ErrPublishToolShadowed''"

definition new_registry :: "reg_config \<Rightarrow> gotime \<Rightarrow> err_tree + registry" where
  "new_registry cfg now =
     (if blank (rc_data_dir cfg) then Inl (sentinel ErrInvalidDataDir)
      else if rc_grace_period cfg < 0 then Inl (wrap1 '''' (sentinel ErrInvalidGracePeriod))
      else case validate_sources (rc_sources cfg) of
        Some e \<Rightarrow> Inl e
      | None \<Rightarrow>
          Inr \<lparr>rg_entries = [\<lparr>re_snapshot = new_effective_toolset 0 now [], re_refcount = 0,
                                re_retired_at = None\<rparr>],
               rg_current = 0, rg_rev_counter = 0, rg_retiring = [], rg_holders = [],
               rg_waiting = [], rg_publishing = None, rg_bus = [], rg_returns = [], rg_log = []\<rparr>)"

definition registry_snapshot :: "registry \<Rightarrow> effective_toolset" where
  "registry_snapshot r = re_snapshot (rg_entries r ! rg_current r)"

definition retiring_refcounts :: "registry \<Rightarrow> int \<rightharpoonup> 32 word" where
  "retiring_refcounts r =
     foldl (\<lambda>m i. m(ts_revision (re_snapshot (rg_entries r ! i)) \<mapsto> re_refcount (rg_entries r ! i)))
       Map.empty (rg_retiring r)"

section \<open>Acquire and release\<close>

definition add_refcount :: "nat \<Rightarrow> 32 word \<Rightarrow> registry \<Rightarrow> registry" where
  "add_refcount i d r =
     (let e = rg_entries r ! i
      in r\<lparr>rg_entries := (rg_entries r)[i := e\<lparr>re_refcount := re_refcount e + d\<rparr>]\<rparr>)"

definition set_phase :: "nat \<Rightarrow> holder_phase \<Rightarrow> registry \<Rightarrow> registry" where
  "set_phase h p r = r\<lparr>rg_holders := (rg_holders r)[h := (rg_holders r ! h)\<lparr>hn_phase := p\<rparr>]\<rparr>"

text \<open>\<open>entry := r.current.Load()\<close>\<close>

definition acquire_load :: "registry \<Rightarrow> registry" where
  "acquire_load r = r\<lparr>rg_holders := rg_holders r @ [\<lparr>hn_entry = rg_current r, hn_phase = HLoaded\<rparr>]\<rparr>"

text \<open>\<open>entry.refcount.Add(1)\<close>; the call returns the entry's snapshot.\<close>

definition acquire_add :: "nat \<Rightarrow> registry \<Rightarrow> registry" where
  "acquire_add h r = set_phase h HHeld (add_refcount (hn_entry (rg_holders r ! h)) 1 r)"

definition acquired_snapshot :: "nat \<Rightarrow> registry \<Rightarrow> effective_toolset" where
  "acquired_snapshot h r = re_snapshot (rg_entries r ! hn_entry (rg_holders r ! h))"

text \<open>\<open>released.CompareAndSwap(false, true)\<close>: only the first call of the callback goes on.\<close>

definition release_cas :: "nat \<Rightarrow> registry \<Rightarrow> registry" where
  "release_cas h r = (if hn_phase (rg_holders r ! h) = HHeld then set_phase h HReleasing r else r)"

definition release_sub :: "nat \<Rightarrow> registry \<Rightarrow> registry" where
  "release_sub h r = set_phase h HDone (add_refcount (hn_entry (rg_holders r ! h)) (- 1) r)"

section \<open>Recompute: the critical section\<close>

definition past_grace :: "reg_config \<Rightarrow> gotime \<Rightarrow> registry_entry \<Rightarrow> bool" where
  "past_grace cfg now e =
     (case re_retired_at e of Some t \<Rightarrow> rc_grace_period cfg \<le> time_sub now t | None \<Rightarrow> False)"

definition sweep_retiring :: "reg_config \<Rightarrow> gotime \<Rightarrow> registry \<Rightarrow> registry" where
  "sweep_retiring cfg now r =
     (let entry = (\<lambda>i. rg_entries r ! i);
          gone = filter (\<lambda>i. past_grace cfg now (entry i)) (rg_retiring r)
      in reg_log_add cfg
           (map (\<lambda>i. RegRetired (ts_revision (re_snapshot (entry i))) (re_retired_at (entry i))
                        (re_refcount (entry i))) gone)
           (r\<lparr>rg_retiring := filter (\<lambda>i. \<not> past_grace cfg now (entry i)) (rg_retiring r)\<rparr>))"

definition retire_entry :: "reg_config \<Rightarrow> nat \<Rightarrow> gotime \<Rightarrow> registry \<Rightarrow> registry" where
  "retire_entry cfg old now r =
     sweep_retiring cfg now
       (r\<lparr>rg_entries := (rg_entries r)[old := (rg_entries r ! old)\<lparr>re_retired_at := Some now\<rparr>],
          rg_retiring := rg_retiring r @ [old]\<rparr>)"

definition log_shadows_dropped :: "reg_config \<Rightarrow> int \<Rightarrow> shadowed_tool list \<Rightarrow> registry \<Rightarrow> registry" where
  "log_shadows_dropped cfg revision shadows =
     reg_log_add cfg (RegShadowsDropped revision (length shadows) # map (RegShadowDetected revision) shadows)"

text \<open>
  What \<open>Recompute\<close> does with a successful build: it allocates the next revision, swaps, retires, and
  either returns (no publisher) or goes on to the publish phase.
\<close>

definition recompute_swap ::
  "reg_config \<Rightarrow> effective_toolset \<Rightarrow> shadowed_tool list \<Rightarrow> gotime \<Rightarrow> registry \<Rightarrow> registry" where
  "recompute_swap cfg snap shadows now r =
     retire_entry cfg (rg_current r) now
       (r\<lparr>rg_rev_counter := ts_revision snap,
          rg_entries := rg_entries r @ [\<lparr>re_snapshot = snap, re_refcount = 0, re_retired_at = None\<rparr>],
          rg_current := length (rg_entries r)\<rparr>)"

definition recompute_leave ::
  "reg_config \<Rightarrow> effective_toolset \<Rightarrow> shadowed_tool list \<Rightarrow> registry \<Rightarrow> registry" where
  "recompute_leave cfg snap shadows r =
     (if rc_publisher cfg then
        r\<lparr>rg_waiting := rg_waiting r @ [\<lparr>pj_revision = ts_revision snap, pj_snapshot = snap,
                                      pj_shadows = shadows, pj_first_err = None\<rparr>]\<rparr>
      else
        (if shadows = [] then r else log_shadows_dropped cfg (ts_revision snap) shadows r)
          \<lparr>rg_returns := rg_returns r @ [(Some snap, None)]\<rparr>)"

text \<open>\<open>Recompute\<close> up to the release of \<open>recomputeMu\<close>; a failed build leaves the registry alone.\<close>

definition recompute :: "reg_config \<Rightarrow> scan_env \<Rightarrow> gotime \<Rightarrow> registry \<Rightarrow> registry" where
  "recompute cfg E now r =
     (case build_effective E (rc_data_dir cfg) (rc_sources cfg) now \<lparr>vs_reads = 0, vs_log = []\<rparr> of
        (Inl err, s) \<Rightarrow>
          reg_log_add cfg (map RegScan (vs_log s)) (r\<lparr>rg_returns := rg_returns r @ [(None, Some err)]\<rparr>)
      | (Inr (snap0, shadows), s) \<Rightarrow>
          let snap = snap0\<lparr>ts_revision := wrap64 (rg_rev_counter r + 1)\<rparr>
          in recompute_leave cfg snap shadows
               (recompute_swap cfg snap shadows now (reg_log_add cfg (map RegScan (vs_log s)) r)))"

section \<open>Recompute: the publish phase\<close>

definition correlation_of :: "gotime \<Rightarrow> int" where
  "correlation_of built_at = wrap64 (unix_nanos built_at)"

definition shadow_event :: "publish_job \<Rightarrow> shadowed_tool \<Rightarrow> reg_event" where
  "shadow_event j sh =
     ToolShadowed sh (pj_revision j) (ts_built_at (pj_snapshot j)) (correlation_of (ts_built_at (pj_snapshot j)))"

definition updated_event :: "reg_config \<Rightarrow> publish_job \<Rightarrow> reg_event" where
  "updated_event cfg j =
     EffectiveToolsetUpdated (pj_revision j) (ts_built_at (pj_snapshot j))
       (toolset_len (Some (pj_snapshot j))) (length (rc_sources cfg))
       (correlation_of (ts_built_at (pj_snapshot j)))"

text \<open>Some waiting call takes \<open>publishMu\<close>: a \<open>sync.Mutex\<close> does not say which.\<close>

definition publish_begin :: "nat \<Rightarrow> registry \<Rightarrow> registry" where
  "publish_begin i r =
     r\<lparr>rg_publishing := Some (rg_waiting r ! i),
       rg_waiting := take i (rg_waiting r) @ drop (Suc i) (rg_waiting r)\<rparr>"

text \<open>One round of the loop over the shadowed tools; \<open>ans\<close> is the publisher's answer.\<close>

definition publish_shadow :: "reg_config \<Rightarrow> publish_job \<Rightarrow> err_tree option \<Rightarrow> registry \<Rightarrow> registry" where
  "publish_shadow cfg j ans r =
     (case pj_shadows j of
        [] \<Rightarrow> r
      | sh # rest \<Rightarrow>
          (let r1 = r\<lparr>rg_bus := rg_bus r @ [shadow_event j sh]\<rparr>;
               j1 = j\<lparr>pj_shadows := rest\<rparr>
           in case ans of
                None \<Rightarrow> r1\<lparr>rg_publishing := Some j1\<rparr>
              | Some err \<Rightarrow>
                  (reg_log_add cfg [RegPublishShadowFailed (pj_revision j) (sh_tool_name sh)
                      (sh_shadowed_source sh) (leaf_err_type err)] r1)
                    \<lparr>rg_publishing := Some (if pj_first_err j = None then j1\<lparr>pj_first_err := Some err\<rparr> else j1)\<rparr>))"

text \<open>The last publish call of a \<open>Recompute\<close>, and its return.\<close>

definition publish_updated :: "reg_config \<Rightarrow> publish_job \<Rightarrow> err_tree option \<Rightarrow> registry \<Rightarrow> registry" where
  "publish_updated cfg j ans r =
     (let r1 = r\<lparr>rg_bus := rg_bus r @ [updated_event cfg j], rg_publishing := None\<rparr>
      in case ans of
           Some err \<Rightarrow>
             (reg_log_add cfg [RegPublishUpdatedFailed (pj_revision j) (leaf_err_type err)] r1)
               \<lparr>rg_returns := rg_returns r @
                  [(Some (pj_snapshot j), Some (wraps [sentinel ErrPublishAfterSwap, err]))]\<rparr>
         | None \<Rightarrow>
             r1\<lparr>rg_returns := rg_returns r @
                  [(Some (pj_snapshot j),
                    map_option (\<lambda>e. wraps [sentinel ErrPublishToolShadowed, e]) (pj_first_err j))]\<rparr>)"

section \<open>The registry as a transition system\<close>

inductive reg_step :: "reg_config \<Rightarrow> registry \<Rightarrow> registry \<Rightarrow> bool" for cfg where
  RLoad: "reg_step cfg r (acquire_load r)"
| RAdd: "h < length (rg_holders r) \<Longrightarrow> hn_phase (rg_holders r ! h) = HLoaded \<Longrightarrow> reg_step cfg r (acquire_add h r)"
| RCas: "h < length (rg_holders r) \<Longrightarrow> hn_phase (rg_holders r ! h) \<noteq> HLoaded \<Longrightarrow> reg_step cfg r (release_cas h r)"
| RSub: "h < length (rg_holders r) \<Longrightarrow> hn_phase (rg_holders r ! h) = HReleasing \<Longrightarrow> reg_step cfg r (release_sub h r)"
| RRecompute: "reg_step cfg r (recompute cfg E now r)"
| RBegin: "rg_publishing r = None \<Longrightarrow> i < length (rg_waiting r) \<Longrightarrow> reg_step cfg r (publish_begin i r)"
| RShadow: "rg_publishing r = Some j \<Longrightarrow> pj_shadows j \<noteq> [] \<Longrightarrow> reg_step cfg r (publish_shadow cfg j ans r)"
| RUpdated: "rg_publishing r = Some j \<Longrightarrow> pj_shadows j = [] \<Longrightarrow> reg_step cfg r (publish_updated cfg j ans r)"

inductive reg_reachable :: "reg_config \<Rightarrow> registry \<Rightarrow> bool" for cfg where
  reg_init: "new_registry cfg now = Inr r \<Longrightarrow> reg_reachable cfg r"
| reg_next: "reg_reachable cfg r \<Longrightarrow> reg_step cfg r r' \<Longrightarrow> reg_reachable cfg r'"

inductive_cases reg_stepE: "reg_step cfg r r'"

section \<open>Frame facts\<close>

lemma reg_log_add_simps [simp]:
  "rg_entries (reg_log_add cfg ls r) = rg_entries r"
  "rg_current (reg_log_add cfg ls r) = rg_current r"
  "rg_rev_counter (reg_log_add cfg ls r) = rg_rev_counter r"
  "rg_retiring (reg_log_add cfg ls r) = rg_retiring r"
  "rg_holders (reg_log_add cfg ls r) = rg_holders r"
  "rg_waiting (reg_log_add cfg ls r) = rg_waiting r"
  "rg_publishing (reg_log_add cfg ls r) = rg_publishing r"
  "rg_bus (reg_log_add cfg ls r) = rg_bus r"
  "rg_returns (reg_log_add cfg ls r) = rg_returns r"
  by (simp_all add: reg_log_add_def)

lemma log_shadows_dropped_simps [simp]:
  "rg_entries (log_shadows_dropped cfg v sh r) = rg_entries r"
  "rg_current (log_shadows_dropped cfg v sh r) = rg_current r"
  "rg_rev_counter (log_shadows_dropped cfg v sh r) = rg_rev_counter r"
  "rg_retiring (log_shadows_dropped cfg v sh r) = rg_retiring r"
  "rg_holders (log_shadows_dropped cfg v sh r) = rg_holders r"
  "rg_waiting (log_shadows_dropped cfg v sh r) = rg_waiting r"
  "rg_publishing (log_shadows_dropped cfg v sh r) = rg_publishing r"
  "rg_bus (log_shadows_dropped cfg v sh r) = rg_bus r"
  by (simp_all add: log_shadows_dropped_def)

lemma retire_entry_simps [simp]:
  "rg_entries (retire_entry cfg old now r) =
     (rg_entries r)[old := (rg_entries r ! old)\<lparr>re_retired_at := Some now\<rparr>]"
  "rg_current (retire_entry cfg old now r) = rg_current r"
  "rg_rev_counter (retire_entry cfg old now r) = rg_rev_counter r"
  "rg_holders (retire_entry cfg old now r) = rg_holders r"
  "rg_waiting (retire_entry cfg old now r) = rg_waiting r"
  "rg_publishing (retire_entry cfg old now r) = rg_publishing r"
  "rg_bus (retire_entry cfg old now r) = rg_bus r"
  "rg_returns (retire_entry cfg old now r) = rg_returns r"
  by (simp_all add: retire_entry_def sweep_retiring_def Let_def)

lemma retire_entry_retiring:
  "\<exists>P. rg_retiring (retire_entry cfg old now r) = filter P (rg_retiring r @ [old])"
  by (auto simp: retire_entry_def sweep_retiring_def Let_def simp del: filter_append)

text \<open>The part of the state the publish phase and the log never touch.\<close>

definition core_of :: "registry \<Rightarrow> registry_entry list \<times> nat \<times> int \<times> nat list \<times> holder list" where
  "core_of r = (rg_entries r, rg_current r, rg_rev_counter r, rg_retiring r, rg_holders r)"

lemma core_publish [simp]:
  "core_of (publish_begin i r) = core_of r"
  "core_of (publish_shadow cfg j ans r) = core_of r"
  "core_of (publish_updated cfg j ans r) = core_of r"
  by (auto simp: core_of_def publish_begin_def publish_shadow_def publish_updated_def Let_def
      split: list.split option.split)

section \<open>The invariant of the entries\<close>

definition counted :: "holder \<Rightarrow> bool" where
  "counted h \<longleftrightarrow> hn_phase h = HHeld \<or> hn_phase h = HReleasing"

definition holding :: "registry \<Rightarrow> nat \<Rightarrow> nat" where
  "holding r i = length (filter (\<lambda>h. hn_entry h = i \<and> counted h) (rg_holders r))"

definition source_names :: "reg_config \<Rightarrow> string set" where
  "source_names cfg = set (map sc_name (rc_sources cfg))"

definition entries_inv :: "reg_config \<Rightarrow> registry \<Rightarrow> bool" where
  "entries_inv cfg r \<longleftrightarrow>
     Suc (rg_current r) = length (rg_entries r)
     \<and> rg_rev_counter r = wrap64 (int (rg_current r))
     \<and> (\<forall>i < length (rg_entries r).
          ts_revision (re_snapshot (rg_entries r ! i)) = wrap64 (int i)
          \<and> snapshot_typed (source_names cfg) (re_snapshot (rg_entries r ! i)))"

definition holders_inv :: "registry \<Rightarrow> bool" where
  "holders_inv r \<longleftrightarrow>
     list_all (\<lambda>h. hn_entry h < length (rg_entries r)) (rg_holders r)
     \<and> (\<forall>i < length (rg_entries r). re_refcount (rg_entries r ! i) = of_nat (holding r i))"

definition retiring_inv :: "registry \<Rightarrow> bool" where
  "retiring_inv r \<longleftrightarrow>
     sorted_wrt (<) (rg_retiring r)
     \<and> list_all (\<lambda>i. i < rg_current r \<and> re_retired_at (rg_entries r ! i) \<noteq> None) (rg_retiring r)
     \<and> (\<forall>i < length (rg_entries r). re_retired_at (rg_entries r ! i) = None \<longleftrightarrow> i = rg_current r)"

definition reg_inv :: "reg_config \<Rightarrow> registry \<Rightarrow> bool" where
  "reg_inv cfg r \<longleftrightarrow> entries_inv cfg r \<and> holders_inv r \<and> retiring_inv r"

lemma reg_inv_core: "core_of r = core_of r' \<Longrightarrow> reg_inv cfg r = reg_inv cfg r'"
  by (simp add: core_of_def reg_inv_def entries_inv_def holders_inv_def retiring_inv_def holding_def)

lemma wrap64_Suc: "wrap64 (wrap64 x + 1) = wrap64 (x + 1)"
  by (simp add: wrap64_def mod_simps algebra_simps)

lemma snapshot_typed_revision [simp]:
  "snapshot_typed S (ts\<lparr>ts_revision := v\<rparr>) = snapshot_typed S ts"
  by (simp add: snapshot_typed_def toolset_ok_def)

lemma reg_inv_init: "new_registry cfg now = Inr r \<Longrightarrow> reg_inv cfg r"
  by (auto simp: new_registry_def reg_inv_def entries_inv_def holders_inv_def retiring_inv_def holding_def
      snapshot_typed_def new_effective_toolset_def toolset_ok_def index_by_name_def wrap64_def
      split: if_splits option.splits)

subsection \<open>Acquire and release\<close>

lemma filter_update_count:
  "h < length hs \<Longrightarrow>
     int (length (filter P (hs[h := x]))) =
       int (length (filter P hs)) + (if P x then 1 else 0) - (if P (hs ! h) then 1 else 0)"
proof -
  assume h: "h < length hs"
  have "length (filter P hs) = length (filter P (take h hs @ hs ! h # drop (Suc h) hs))"
    using h by (simp flip: id_take_nth_drop)
  then show ?thesis
    by (simp add: upd_conv_take_nth_drop [OF h])
qed

lemma held_set_phase:
  assumes "h < length (rg_holders r)"
  shows "int (holding (set_phase h p r) i) =
     int (holding r i)
       + (if hn_entry (rg_holders r ! h) = i \<and> (p = HHeld \<or> p = HReleasing) then 1 else 0)
       - (if hn_entry (rg_holders r ! h) = i \<and> counted (rg_holders r ! h) then 1 else 0)"
  using filter_update_count [OF assms, of "\<lambda>h. hn_entry h = i \<and> counted h"]
  by (simp add: holding_def set_phase_def counted_def)

lemma set_phase_simps [simp]:
  "rg_entries (set_phase h p r) = rg_entries r"
  "rg_current (set_phase h p r) = rg_current r"
  "rg_rev_counter (set_phase h p r) = rg_rev_counter r"
  "rg_retiring (set_phase h p r) = rg_retiring r"
  by (simp_all add: set_phase_def)

lemma add_refcount_simps [simp]:
  "rg_current (add_refcount i d r) = rg_current r"
  "rg_rev_counter (add_refcount i d r) = rg_rev_counter r"
  "rg_retiring (add_refcount i d r) = rg_retiring r"
  "rg_holders (add_refcount i d r) = rg_holders r"
  "length (rg_entries (add_refcount i d r)) = length (rg_entries r)"
  "holding (add_refcount i d r) = holding r"
  by (simp_all add: add_refcount_def Let_def holding_def fun_eq_iff)

lemma add_refcount_entry:
  "k < length (rg_entries r) \<Longrightarrow>
     re_snapshot (rg_entries (add_refcount i d r) ! k) = re_snapshot (rg_entries r ! k)
     \<and> re_retired_at (rg_entries (add_refcount i d r) ! k) = re_retired_at (rg_entries r ! k)
     \<and> re_refcount (rg_entries (add_refcount i d r) ! k) =
         re_refcount (rg_entries r ! k) + (if k = i then d else 0)"
  by (simp add: add_refcount_def Let_def nth_list_update)

text \<open>
  A change of phase that moves the holder in or out of the count, with the matching change of its
  entry's reference count, keeps the invariant.
\<close>

lemma count_step:
  assumes inv: "reg_inv cfg r" and h: "h < length (rg_holders r)"
    and d: "(p = HHeld \<or> p = HReleasing) \<and> \<not> counted (rg_holders r ! h) \<and> d = 1
      \<or> \<not> (p = HHeld \<or> p = HReleasing) \<and> counted (rg_holders r ! h) \<and> d = - 1"
  shows "reg_inv cfg (set_phase h p (add_refcount (hn_entry (rg_holders r ! h)) d r))"
proof -
  let ?i = "hn_entry (rg_holders r ! h)"
  let ?r = "add_refcount ?i d r"
  let ?r' = "set_phase h p ?r"
  have "hn_entry x < length (rg_entries r)" if "x \<in> set (rg_holders r)" for x
    using inv that by (auto simp: reg_inv_def holders_inv_def list_all_iff)
  then have valid: "list_all (\<lambda>x. hn_entry x < length (rg_entries ?r')) (rg_holders ?r')"
    using h by (auto simp: list_all_iff set_phase_def dest!: set_update_subset_insert [THEN subsetD])
  have count: "re_refcount (rg_entries ?r' ! k) = of_nat (holding ?r' k)" if k: "k < length (rg_entries r)" for k
  proof -
    have old: "re_refcount (rg_entries r ! k) = of_nat (holding r k)"
      using inv k by (simp add: reg_inv_def holders_inv_def)
    have "int (holding ?r' k) = int (holding r k) + (if k = ?i then (if d = 1 then 1 else - 1) else 0)"
      using held_set_phase [of h ?r p k] h d by auto
    then have "(of_int (int (holding ?r' k)) :: 32 word) = of_int (int (holding r k)) + (if k = ?i then d else 0)"
      using d by auto
    then show ?thesis
      using old k add_refcount_entry [of k r ?i d] by simp
  qed
  show ?thesis
    using inv valid count add_refcount_entry [of _ r ?i d]
    by (auto simp: reg_inv_def entries_inv_def holders_inv_def retiring_inv_def list_all_iff)
qed

lemma acquire_load_inv: "reg_inv cfg r \<Longrightarrow> reg_inv cfg (acquire_load r)"
  by (simp add: reg_inv_def entries_inv_def holders_inv_def retiring_inv_def acquire_load_def
      holding_def counted_def)

lemma acquire_add_inv:
  "reg_inv cfg r \<Longrightarrow> h < length (rg_holders r) \<Longrightarrow> hn_phase (rg_holders r ! h) = HLoaded
     \<Longrightarrow> reg_inv cfg (acquire_add h r)"
  unfolding acquire_add_def by (rule count_step) (auto simp: counted_def)

lemma release_sub_inv:
  "reg_inv cfg r \<Longrightarrow> h < length (rg_holders r) \<Longrightarrow> hn_phase (rg_holders r ! h) = HReleasing
     \<Longrightarrow> reg_inv cfg (release_sub h r)"
  unfolding release_sub_def by (rule count_step) (auto simp: counted_def)

lemma release_cas_inv:
  assumes "reg_inv cfg r" "h < length (rg_holders r)"
  shows "reg_inv cfg (release_cas h r)"
proof (cases "hn_phase (rg_holders r ! h) = HHeld")
  case True
  have same: "holding (set_phase h HReleasing r) i = holding r i" for i
    using held_set_phase [OF assms(2), of HReleasing i] True by (auto simp: counted_def split: if_splits)
  have "list_all (\<lambda>x. hn_entry x < length (rg_entries r)) (rg_holders (set_phase h HReleasing r))"
    using assms by (auto simp: reg_inv_def holders_inv_def list_all_iff set_phase_def
        dest!: set_update_subset_insert [THEN subsetD])
  then show ?thesis
    using assms True same
    by (simp add: release_cas_def reg_inv_def entries_inv_def holders_inv_def retiring_inv_def)
qed (simp add: release_cas_def assms)

subsection \<open>Recompute\<close>

lemma recompute_error:
  assumes "build_effective E (rc_data_dir cfg) (rc_sources cfg) now \<lparr>vs_reads = 0, vs_log = []\<rparr> = (Inl err, s)"
  shows "core_of (recompute cfg E now r) = core_of r
    \<and> rg_waiting (recompute cfg E now r) = rg_waiting r
    \<and> rg_publishing (recompute cfg E now r) = rg_publishing r
    \<and> rg_bus (recompute cfg E now r) = rg_bus r
    \<and> rg_returns (recompute cfg E now r) = rg_returns r @ [(None, Some err)]"
  by (simp add: recompute_def assms core_of_def)

text \<open>A successful one, field by field.\<close>

lemma recompute_leave_simps [simp]:
  "core_of (recompute_leave cfg snap shadows r) = core_of r"
  "rg_publishing (recompute_leave cfg snap shadows r) = rg_publishing r"
  "rg_bus (recompute_leave cfg snap shadows r) = rg_bus r"
  "rg_waiting (recompute_leave cfg snap shadows r) = rg_waiting r @
     (if rc_publisher cfg
      then [\<lparr>pj_revision = ts_revision snap, pj_snapshot = snap, pj_shadows = shadows, pj_first_err = None\<rparr>]
      else [])"
  "rg_returns (recompute_leave cfg snap shadows r) =
     rg_returns r @ (if rc_publisher cfg then [] else [(Some snap, None)])"
  by (simp_all add: recompute_leave_def core_of_def)

lemma recompute_swap_simps [simp]:
  "rg_rev_counter (recompute_swap cfg snap sh now r) = ts_revision snap"
  "rg_entries (recompute_swap cfg snap sh now r) =
     (let es = rg_entries r @ [\<lparr>re_snapshot = snap, re_refcount = 0, re_retired_at = None\<rparr>]
      in es[rg_current r := (es ! rg_current r)\<lparr>re_retired_at := Some now\<rparr>])"
  "rg_current (recompute_swap cfg snap sh now r) = length (rg_entries r)"
  "rg_holders (recompute_swap cfg snap sh now r) = rg_holders r"
  "rg_publishing (recompute_swap cfg snap sh now r) = rg_publishing r"
  "rg_bus (recompute_swap cfg snap sh now r) = rg_bus r"
  "rg_waiting (recompute_swap cfg snap sh now r) = rg_waiting r"
  "rg_returns (recompute_swap cfg snap sh now r) = rg_returns r"
  by (simp_all add: recompute_swap_def Let_def)

lemma recompute_swap_retiring:
  "\<exists>P. rg_retiring (recompute_swap cfg snap sh now r) = filter P (rg_retiring r @ [rg_current r])"
  using retire_entry_retiring [of cfg "rg_current r" now
      "r\<lparr>rg_rev_counter := ts_revision snap,
         rg_entries := rg_entries r @ [\<lparr>re_snapshot = snap, re_refcount = 0, re_retired_at = None\<rparr>],
         rg_current := length (rg_entries r)\<rparr>"]
  by (simp add: recompute_swap_def del: filter_append)

lemma sorted_wrt_less_snoc: "sorted_wrt (<) xs \<Longrightarrow> \<forall>x \<in> set xs. x < (y :: nat) \<Longrightarrow> sorted_wrt (<) (xs @ [y])"
  by (simp add: sorted_wrt_append)

lemma recompute_swap_inv:
  assumes inv: "reg_inv cfg r" and rev: "ts_revision snap = wrap64 (rg_rev_counter r + 1)"
    and typed: "snapshot_typed (source_names cfg) snap"
  shows "reg_inv cfg (recompute_swap cfg snap sh now r)" (is "reg_inv cfg ?r")
proof -
  have cur: "Suc (rg_current r) = length (rg_entries r)" "rg_current r < length (rg_entries r)"
    using inv by (simp_all add: reg_inv_def entries_inv_def)
  have "ts_revision snap = wrap64 (int (rg_current r) + 1)"
    using inv rev by (simp add: reg_inv_def entries_inv_def wrap64_Suc)
  then have v: "ts_revision snap = wrap64 (int (length (rg_entries r)))"
    using cur(1) [symmetric] by (simp add: add.commute)
  have "entries_inv cfg ?r"
    using inv typed v cur(2)
    by (auto simp: reg_inv_def entries_inv_def Let_def nth_append nth_list_update less_Suc_eq)
  moreover have "holders_inv ?r"
  proof -
    have "holding ?r (length (rg_entries r)) = 0"
      using inv by (auto simp: holding_def reg_inv_def holders_inv_def list_all_iff filter_empty_conv)
    moreover have "holding ?r = holding r"
      by (simp add: holding_def fun_eq_iff)
    ultimately show ?thesis
      using inv cur(2)
      by (auto simp: reg_inv_def holders_inv_def Let_def nth_append nth_list_update less_Suc_eq list_all_iff)
  qed
  moreover have "retiring_inv ?r"
  proof -
    obtain P where P: "rg_retiring ?r = filter P (rg_retiring r @ [rg_current r])"
      using recompute_swap_retiring by blast
    have "sorted_wrt (<) (rg_retiring r @ [rg_current r])"
      using inv by (intro sorted_wrt_less_snoc) (auto simp: reg_inv_def retiring_inv_def list_all_iff)
    then have "sorted_wrt (<) (rg_retiring ?r)"
      using P by (simp add: sorted_wrt_filter del: filter_append)
    moreover have sub: "set (rg_retiring ?r) \<subseteq> insert (rg_current r) (set (rg_retiring r))"
      using P by auto
    moreover have "i < length (rg_entries r)" if "i \<in> set (rg_retiring ?r)" for i
    proof -
      have "i = rg_current r \<or> i \<in> set (rg_retiring r)"
        using sub that by blast
      moreover have "i \<in> set (rg_retiring r) \<Longrightarrow> i < rg_current r"
        using inv by (simp add: reg_inv_def retiring_inv_def list_all_iff)
      ultimately show ?thesis
        using cur by auto
    qed
    ultimately show ?thesis
      using inv cur
      by (auto simp: reg_inv_def retiring_inv_def Let_def nth_append nth_list_update less_Suc_eq
          list_all_iff subset_iff)
  qed
  ultimately show ?thesis
    by (simp add: reg_inv_def)
qed

lemma recompute_inv:
  assumes inv: "reg_inv cfg r"
  shows "reg_inv cfg (recompute cfg E now r)"
proof (cases "build_effective E (rc_data_dir cfg) (rc_sources cfg) now \<lparr>vs_reads = 0, vs_log = []\<rparr>")
  case (Pair res s)
  show ?thesis
  proof (cases res)
    case (Inl err)
    then show ?thesis
      using recompute_error [of E cfg now err s r] Pair inv reg_inv_core by metis
  next
    case (Inr ss)
    obtain snap0 shadows where ss: "ss = (snap0, shadows)" by (cases ss)
    let ?snap = "snap0\<lparr>ts_revision := wrap64 (rg_rev_counter r + 1)\<rparr>"
    let ?r1 = "reg_log_add cfg (map RegScan (vs_log s)) r"
    have "reg_inv cfg ?r1"
      using inv reg_inv_core [of ?r1 r] by (simp add: core_of_def)
    moreover have "snapshot_typed (source_names cfg) ?snap"
      using build_effective_typed [OF Pair [unfolded Inr ss]] by (simp add: source_names_def)
    ultimately have "reg_inv cfg (recompute_swap cfg ?snap shadows now ?r1)"
      by (intro recompute_swap_inv) simp_all
    then show ?thesis
      using Pair Inr ss reg_inv_core
        [of "recompute_leave cfg ?snap shadows (recompute_swap cfg ?snap shadows now ?r1)"]
      by (simp add: recompute_def Let_def)
  qed
qed

lemma reg_step_inv: "reg_step cfg r r' \<Longrightarrow> reg_inv cfg r \<Longrightarrow> reg_inv cfg r'"
proof (induction rule: reg_step.induct)
  case (RBegin r i)
  then show ?case using reg_inv_core [of "publish_begin i r" r] by simp
next
  case (RShadow r j ans)
  then show ?case using reg_inv_core [of "publish_shadow cfg j ans r" r] by simp
next
  case (RUpdated r j ans)
  then show ?case using reg_inv_core [of "publish_updated cfg j ans r" r] by simp
qed (auto intro: acquire_load_inv acquire_add_inv release_cas_inv release_sub_inv recompute_inv)

lemma reg_reachable_inv: "reg_reachable cfg r \<Longrightarrow> reg_inv cfg r"
  by (induction rule: reg_reachable.induct) (auto intro: reg_inv_init reg_step_inv)

section \<open>Entries are only added\<close>

text \<open>What an earlier state says of an entry's snapshot or of a holder stays true.\<close>

definition extends :: "registry \<Rightarrow> registry \<Rightarrow> bool" where
  "extends r r' \<longleftrightarrow>
     length (rg_entries r) \<le> length (rg_entries r') \<and> length (rg_holders r) \<le> length (rg_holders r')
     \<and> (\<forall>i < length (rg_entries r). re_snapshot (rg_entries r' ! i) = re_snapshot (rg_entries r ! i))
     \<and> (\<forall>h < length (rg_holders r). hn_entry (rg_holders r' ! h) = hn_entry (rg_holders r ! h))"

lemma extends_refl: "extends r r"
  by (simp add: extends_def)

lemma extends_trans: "extends r r' \<Longrightarrow> extends r' r'' \<Longrightarrow> extends r r''"
  by (auto simp: extends_def)

lemma extends_core: "core_of r = core_of r' \<Longrightarrow> extends x r = extends x r'"
  by (simp add: extends_def core_of_def)

lemma extends_count:
  "h < length (rg_holders r) \<Longrightarrow> extends r (set_phase h p (add_refcount i d r))"
  by (auto simp: extends_def set_phase_def nth_list_update dest: add_refcount_entry)

lemma extends_recompute: "extends r (recompute cfg E now r)"
proof (cases "build_effective E (rc_data_dir cfg) (rc_sources cfg) now \<lparr>vs_reads = 0, vs_log = []\<rparr>")
  case (Pair res s)
  show ?thesis
  proof (cases res)
    case (Inl err)
    then show ?thesis
      using recompute_error [of E cfg now err s r] Pair extends_core extends_refl by metis
  next
    case (Inr ss)
    obtain snap0 shadows where ss: "ss = (snap0, shadows)" by (cases ss)
    let ?snap = "snap0\<lparr>ts_revision := wrap64 (rg_rev_counter r + 1)\<rparr>"
    let ?r2 = "recompute_swap cfg ?snap shadows now (reg_log_add cfg (map RegScan (vs_log s)) r)"
    have "extends r ?r2"
      by (auto simp: extends_def Let_def nth_append nth_list_update)
    then show ?thesis
      using Pair Inr ss extends_core [of "recompute_leave cfg ?snap shadows ?r2" ?r2]
      by (simp add: recompute_def Let_def)
  qed
qed

lemma reg_step_extends: "reg_step cfg r r' \<Longrightarrow> extends r r'"
proof (induction rule: reg_step.induct)
  case (RLoad r)
  show ?case
    by (simp add: extends_def acquire_load_def nth_append)
next
  case (RAdd h r)
  then show ?case
    by (simp add: acquire_add_def extends_count)
next
  case (RCas h r)
  then show ?case
    by (auto simp: release_cas_def extends_def set_phase_def nth_list_update)
next
  case (RSub h r)
  then show ?case
    by (simp add: release_sub_def extends_count)
next
  case (RBegin r i)
  then show ?case using extends_core [of "publish_begin i r" r] extends_refl by simp
next
  case (RShadow r j ans)
  then show ?case using extends_core [of "publish_shadow cfg j ans r" r] extends_refl by simp
next
  case (RUpdated r j ans)
  then show ?case using extends_core [of "publish_updated cfg j ans r" r] extends_refl by simp
qed (rule extends_recompute)

lemma reg_steps_extends: "(reg_step cfg)\<^sup>*\<^sup>* r r' \<Longrightarrow> extends r r'"
  by (induction rule: rtranclp_induct) (auto intro: extends_refl extends_trans reg_step_extends)

section \<open>The registry's guarantees\<close>

text \<open>
  C40: Whatever the interleaving, every snapshot a caller can observe, the
  current one and the one any \<open>Acquire\<close> returned, is well typed: its names are sorted and distinct,
  its index finds exactly its tools, and every tool is a validated manifest stamped with the
  configured source that supplied it.
\<close>

theorem registry_well_typed:
  assumes "reg_reachable cfg r" "h < length (rg_holders r)"
    and "ts = registry_snapshot r \<or> ts = acquired_snapshot h r"
  shows "sorted (toolset_names (Some ts)) \<and> distinct (toolset_names (Some ts))
    \<and> (\<forall>n t. toolset_lookup (Some ts) n = Some t \<longleftrightarrow> t \<in> set (ts_tools ts) \<and> et_name t = n)
    \<and> (\<forall>t \<in> set (ts_tools ts).
          et_source t \<in> source_names cfg \<and> manifest_ok (et_source t) (et_manifest t))"
proof -
  have inv: "reg_inv cfg r"
    using assms(1) by (rule reg_reachable_inv)
  then have "rg_current r < length (rg_entries r)" "hn_entry (rg_holders r ! h) < length (rg_entries r)"
    using assms(2) by (auto simp: reg_inv_def entries_inv_def holders_inv_def list_all_length)
  then have "snapshot_typed (source_names cfg) ts"
    using inv assms(3)
    by (auto simp: reg_inv_def entries_inv_def registry_snapshot_def acquired_snapshot_def)
  then show ?thesis
    using lookup_index [of ts] winner_distinct [of "ts_tools ts"]
    by (auto simp: snapshot_typed_def toolset_ok_def toolset_names_def tool_ok_def list_all_iff)
qed

text \<open>
  The reference count of every entry, current, retiring or
  forgotten, is exactly the number of \<open>Acquire\<close> calls that hold it, as long as fewer than
  \<open>2 ^ 31\<close> ever did: it is never negative, whatever the interleaving and however often a release
  callback is called.
\<close>

theorem refcount_counts_holders:
  assumes "reg_reachable cfg r" "i < length (rg_entries r)" "length (rg_holders r) < 2 ^ 31"
  shows "sint (re_refcount (rg_entries r ! i)) =
    int (length (filter (\<lambda>h. hn_entry h = i \<and> counted h) (rg_holders r)))"
proof -
  have "re_refcount (rg_entries r ! i) = word_of_int (int (holding r i))"
    using reg_reachable_inv [OF assms(1)] assms(2) by (simp add: reg_inv_def holders_inv_def)
  moreover have "holding r i < 2 ^ 31"
    unfolding holding_def using assms(3) length_filter_le le_less_trans by blast
  ultimately show ?thesis
    using sint_sbintrunc' [of "int (holding r i)", where 'a = 32]
    by (simp add: signed_take_bit_int_eq_self holding_def)
qed

text \<open>
  An in-flight call completes on the snapshot it acquired: no later
  step of any goroutine, however many recomputes and sweeps it takes, changes what the holder sees,
  and the revisions it compares are those of the entries: contiguous from zero, never reused, the
  newest being current (while fewer than \<open>2 ^ 63\<close> recomputes have happened).
\<close>

theorem acquired_snapshot_stable:
  assumes "reg_reachable cfg r" "h < length (rg_holders r)" "(reg_step cfg)\<^sup>*\<^sup>* r r'"
    and "length (rg_entries r') < 2 ^ 63"
  shows "acquired_snapshot h r' = acquired_snapshot h r
    \<and> map (\<lambda>e. ts_revision (re_snapshot e)) (rg_entries r') = map int [0..<length (rg_entries r')]
    \<and> ts_revision (acquired_snapshot h r) \<le> ts_revision (registry_snapshot r')"
proof -
  have inv: "reg_inv cfg r"
    using assms(1) by (rule reg_reachable_inv)
  have inv': "reg_inv cfg r'"
    using assms(3) by (induction rule: rtranclp_induct) (auto intro: reg_step_inv inv)
  have e: "hn_entry (rg_holders r ! h) < length (rg_entries r)"
    using inv assms(2) by (auto simp: reg_inv_def holders_inv_def list_all_length)
  have ext: "extends r r'"
    using assms(3) by (rule reg_steps_extends)
  have same: "acquired_snapshot h r' = acquired_snapshot h r"
    using ext e assms(2) by (simp add: extends_def acquired_snapshot_def)
  have rev: "ts_revision (re_snapshot (rg_entries r' ! i)) = int i" if "i < length (rg_entries r')" for i
  proof -
    have "is_int64 (int i)"
      using that assms(4) by (simp add: is_int64_def int64_min_def int64_max_def)
    then show ?thesis
      using inv' that by (simp add: reg_inv_def entries_inv_def)
  qed
  have "map (\<lambda>e. ts_revision (re_snapshot e)) (rg_entries r') = map int [0..<length (rg_entries r')]"
    by (rule nth_equalityI) (simp_all add: rev)
  moreover have "ts_revision (acquired_snapshot h r) \<le> ts_revision (registry_snapshot r')"
  proof -
    have cur: "Suc (rg_current r') = length (rg_entries r')"
      using inv' by (simp add: reg_inv_def entries_inv_def)
    have "hn_entry (rg_holders r ! h) < length (rg_entries r')"
      using ext e by (simp add: extends_def)
    moreover have "hn_entry (rg_holders r' ! h) = hn_entry (rg_holders r ! h)"
      using ext assms(2) by (simp add: extends_def)
    ultimately have "ts_revision (acquired_snapshot h r') = int (hn_entry (rg_holders r ! h))"
      by (simp add: acquired_snapshot_def rev)
    then show ?thesis
      using same cur rev [of "rg_current r'"] \<open>hn_entry (rg_holders r ! h) < length (rg_entries r')\<close>
      by (simp add: registry_snapshot_def)
  qed
  ultimately show ?thesis
    using same by simp
qed

section \<open>The publish phase\<close>

text \<open>All a call publishes: its shadowed tools in order, then the new revision.\<close>

definition publish_block :: "reg_config \<Rightarrow> publish_job \<Rightarrow> shadowed_tool list \<Rightarrow> reg_event list" where
  "publish_block cfg j shs = map (shadow_event j) shs @ [updated_event cfg j]"

definition running_jobs :: "registry \<Rightarrow> publish_job list" where
  "running_jobs r = (case rg_publishing r of None \<Rightarrow> [] | Some j \<Rightarrow> [j])"

definition committed :: "registry \<Rightarrow> effective_toolset list" where
  "committed r = map re_snapshot (tl (rg_entries r))"

definition reg_bus_inv :: "reg_config \<Rightarrow> registry \<Rightarrow> bool" where
  "reg_bus_inv cfg r \<longleftrightarrow>
     (\<exists>finished sent.
       rg_bus r = concat (map (case_prod (publish_block cfg)) finished)
         @ concat (map (\<lambda>j. map (shadow_event j) sent) (running_jobs r))
       \<and> (rc_publisher cfg \<longrightarrow>
            mset (map (pj_snapshot \<circ> fst) finished) + mset (map pj_snapshot (running_jobs r @ rg_waiting r))
            = mset (committed r))
       \<and> list_all (\<lambda>j. pj_revision j = ts_revision (pj_snapshot j))
           (map fst finished @ running_jobs r @ rg_waiting r))"

text \<open>Steps outside the publish phase.\<close>

lemma reg_bus_inv_frame:
  assumes "reg_bus_inv cfg r" "committed r' = committed r" "rg_bus r' = rg_bus r"
    "rg_publishing r' = rg_publishing r" "rg_waiting r' = rg_waiting r"
  shows "reg_bus_inv cfg r'"
  using assms by (simp add: reg_bus_inv_def running_jobs_def)

lemma committed_map: "map re_snapshot (rg_entries r') = map re_snapshot (rg_entries r) \<Longrightarrow> committed r' = committed r"
  by (simp add: committed_def map_tl)

lemma committed_count: "committed (set_phase h p (add_refcount i d r)) = committed r"
  by (rule committed_map, rule nth_equalityI) (auto dest: add_refcount_entry [of _ r i d])

lemma frame_count:
  "reg_bus_inv cfg r \<Longrightarrow> reg_bus_inv cfg (set_phase h p (add_refcount i d r))"
  by (erule reg_bus_inv_frame) (simp_all add: committed_count, simp_all add: set_phase_def add_refcount_def Let_def)

lemma reg_bus_inv_recompute:
  assumes inv: "reg_bus_inv cfg r" and rinv: "reg_inv cfg r"
  shows "reg_bus_inv cfg (recompute cfg E now r)"
proof (cases "build_effective E (rc_data_dir cfg) (rc_sources cfg) now \<lparr>vs_reads = 0, vs_log = []\<rparr>")
  case (Pair res s)
  show ?thesis
  proof (cases res)
    case (Inl err)
    then show ?thesis
      using recompute_error [of E cfg now err s r] Pair inv
      by (intro reg_bus_inv_frame [OF inv]) (auto simp: core_of_def committed_def)
  next
    case (Inr ss)
    obtain snap0 shadows where ss: "ss = (snap0, shadows)" by (cases ss)
    let ?snap = "snap0\<lparr>ts_revision := wrap64 (rg_rev_counter r + 1)\<rparr>"
    let ?r1 = "reg_log_add cfg (map RegScan (vs_log s)) r"
    let ?r2 = "recompute_swap cfg ?snap shadows now ?r1"
    have ne: "rg_entries r \<noteq> []" "rg_current r < length (rg_entries r)"
      using rinv by (auto simp: reg_inv_def entries_inv_def)
    have "map re_snapshot (rg_entries ?r2) = map re_snapshot (rg_entries r) @ [?snap]"
      using ne(2) by (intro nth_equalityI) (auto simp: Let_def nth_append nth_list_update less_Suc_eq)
    then have com: "committed ?r2 = committed r @ [?snap]"
      using ne(1) unfolding committed_def by (metis map_tl tl_append2 map_is_Nil_conv)
    have eq: "recompute cfg E now r = recompute_leave cfg ?snap shadows ?r2"
      using Pair Inr ss by (simp add: recompute_def Let_def)
    have "committed (recompute_leave cfg ?snap shadows ?r2) = committed ?r2"
      and "rg_entries (recompute_leave cfg ?snap shadows ?r2) = rg_entries ?r2"
      using recompute_leave_simps(1) [of cfg ?snap shadows ?r2] by (simp_all add: core_of_def committed_def)
    then show ?thesis
      using inv com unfolding eq reg_bus_inv_def running_jobs_def
      by (auto simp: ac_simps)
  qed
qed

text \<open>Steps of the publish phase.\<close>

lemma reg_bus_inv_begin:
  assumes "reg_bus_inv cfg r" "rg_publishing r = None" "i < length (rg_waiting r)"
  shows "reg_bus_inv cfg (publish_begin i r)"
proof -
  have w: "rg_waiting r = take i (rg_waiting r) @ rg_waiting r ! i # drop (Suc i) (rg_waiting r)"
    using assms(3) by (rule id_take_nth_drop)
  obtain finished where f: "rg_bus r = concat (map (case_prod (publish_block cfg)) finished)"
      "rc_publisher cfg \<longrightarrow>
         mset (map (pj_snapshot \<circ> fst) finished) + mset (map pj_snapshot (rg_waiting r)) = mset (committed r)"
      "list_all (\<lambda>j. pj_revision j = ts_revision (pj_snapshot j)) (map fst finished @ rg_waiting r)"
    using assms(1,2) by (auto simp: reg_bus_inv_def running_jobs_def)
  have "mset (map pj_snapshot (rg_waiting r)) =
      mset (map pj_snapshot (rg_waiting r ! i # take i (rg_waiting r) @ drop (Suc i) (rg_waiting r)))"
    by (subst w) simp
  moreover have "list_all (\<lambda>j. pj_revision j = ts_revision (pj_snapshot j))
      (map fst finished @ rg_waiting r ! i # take i (rg_waiting r) @ drop (Suc i) (rg_waiting r))"
    using f(3) by (subst (asm) w) auto
  ultimately show ?thesis
    using f(1,2) unfolding reg_bus_inv_def
    by (intro exI [of _ finished] exI [of _ "[]"])
       (simp add: publish_begin_def running_jobs_def committed_def)
qed

lemma publish_shadow_fields:
  assumes "pj_shadows j = sh # rest"
  obtains err where
    "rg_publishing (publish_shadow cfg j ans r) = Some (j\<lparr>pj_shadows := rest, pj_first_err := err\<rparr>)"
    "rg_bus (publish_shadow cfg j ans r) = rg_bus r @ [shadow_event j sh]"
    "rg_waiting (publish_shadow cfg j ans r) = rg_waiting r"
    "rg_returns (publish_shadow cfg j ans r) = rg_returns r"
    "err = (case pj_first_err j of None \<Rightarrow> ans | Some e \<Rightarrow> Some e)"
proof (rule that)
  show "rg_publishing (publish_shadow cfg j ans r) =
      Some (j\<lparr>pj_shadows := rest, pj_first_err := (case pj_first_err j of None \<Rightarrow> ans | Some e \<Rightarrow> Some e)\<rparr>)"
    using assms by (cases j) (auto simp: publish_shadow_def Let_def split: option.split)
qed (use assms in \<open>auto simp: publish_shadow_def Let_def split: option.split\<close>)

lemma shadow_event_update [simp]:
  "shadow_event (j\<lparr>pj_shadows := rest, pj_first_err := err\<rparr>) = shadow_event j"
  "updated_event cfg (j\<lparr>pj_shadows := rest, pj_first_err := err\<rparr>) = updated_event cfg j"
  by (simp_all add: shadow_event_def updated_event_def fun_eq_iff)

lemma committed_core: "core_of r = core_of r' \<Longrightarrow> committed r = committed r'"
  by (simp add: core_of_def committed_def)

lemma reg_bus_inv_shadow:
  assumes "reg_bus_inv cfg r" "rg_publishing r = Some j" "pj_shadows j \<noteq> []"
  shows "reg_bus_inv cfg (publish_shadow cfg j ans r)"
proof -
  obtain sh rest where sh: "pj_shadows j = sh # rest"
    using assms(3) by (cases "pj_shadows j") auto
  obtain err where p: "rg_publishing (publish_shadow cfg j ans r) = Some (j\<lparr>pj_shadows := rest, pj_first_err := err\<rparr>)"
    "rg_bus (publish_shadow cfg j ans r) = rg_bus r @ [shadow_event j sh]"
    "rg_waiting (publish_shadow cfg j ans r) = rg_waiting r"
    using sh by (rule publish_shadow_fields)
  obtain finished sent where f:
      "rg_bus r = concat (map (case_prod (publish_block cfg)) finished) @ map (shadow_event j) sent"
      "rc_publisher cfg \<longrightarrow>
         mset (map (pj_snapshot \<circ> fst) finished) + mset (map pj_snapshot (j # rg_waiting r)) = mset (committed r)"
      "list_all (\<lambda>j. pj_revision j = ts_revision (pj_snapshot j)) (map fst finished @ j # rg_waiting r)"
    using assms(1,2) by (auto simp: reg_bus_inv_def running_jobs_def)
  then show ?thesis
    unfolding reg_bus_inv_def
    by (intro exI [of _ finished] exI [of _ "sent @ [sh]"])
       (simp add: p running_jobs_def committed_core [OF core_publish(2)])
qed

lemma publish_updated_fields [simp]:
  "rg_publishing (publish_updated cfg j ans r) = None"
  "rg_bus (publish_updated cfg j ans r) = rg_bus r @ [updated_event cfg j]"
  "rg_waiting (publish_updated cfg j ans r) = rg_waiting r"
  by (auto simp: publish_updated_def Let_def split: option.split)

lemma reg_bus_inv_updated:
  assumes "reg_bus_inv cfg r" "rg_publishing r = Some j"
  shows "reg_bus_inv cfg (publish_updated cfg j ans r)"
proof -
  obtain finished sent where f:
      "rg_bus r = concat (map (case_prod (publish_block cfg)) finished) @ map (shadow_event j) sent"
      "rc_publisher cfg \<longrightarrow>
         mset (map (pj_snapshot \<circ> fst) finished) + mset (map pj_snapshot (j # rg_waiting r)) = mset (committed r)"
      "list_all (\<lambda>j. pj_revision j = ts_revision (pj_snapshot j)) (map fst finished @ j # rg_waiting r)"
    using assms by (auto simp: reg_bus_inv_def running_jobs_def)
  then show ?thesis
    unfolding reg_bus_inv_def
    by (intro exI [of _ "finished @ [(j, sent)]"] exI [of _ "[]"])
       (simp add: running_jobs_def committed_core [OF core_publish(3)] publish_block_def)
qed

lemma reg_step_bus_inv: "reg_step cfg r r' \<Longrightarrow> reg_inv cfg r \<Longrightarrow> reg_bus_inv cfg r \<Longrightarrow> reg_bus_inv cfg r'"
proof (induction rule: reg_step.induct)
  case (RLoad r)
  then show ?case
    by (intro reg_bus_inv_frame [OF RLoad(2)]) (simp_all add: acquire_load_def committed_def)
next
  case (RCas h r)
  show ?case
    by (rule reg_bus_inv_frame [OF RCas(4)]) (simp_all add: release_cas_def committed_def set_phase_def)
next
  case (RAdd h r)
  then show ?case
    by (simp add: acquire_add_def frame_count)
next
  case (RSub h r)
  then show ?case
    by (simp add: release_sub_def frame_count)
qed (auto intro: reg_bus_inv_recompute reg_bus_inv_begin reg_bus_inv_shadow reg_bus_inv_updated)

lemma reg_bus_inv_init: "new_registry cfg now = Inr r \<Longrightarrow> reg_bus_inv cfg r"
  unfolding reg_bus_inv_def
  by (intro exI [of _ "[]"])
     (auto simp: new_registry_def running_jobs_def committed_def split: if_splits option.splits)

lemma reg_reachable_bus_inv: "reg_reachable cfg r \<Longrightarrow> reg_bus_inv cfg r"
  by (induction rule: reg_reachable.induct) (auto intro: reg_bus_inv_init reg_step_bus_inv reg_reachable_inv)

text \<open>
  What \<open>publishMu\<close> buys: between two publish phases the bus has seen whole
  blocks, each the shadowed tools of one revision followed by its update, never interleaved, and
  every committed snapshot is in exactly one place: announced by exactly one block, or waiting for
  the mutex. No revision is announced twice and none is lost.
\<close>

theorem publish_blocks:
  assumes "reg_reachable cfg r" "rg_publishing r = None" "rc_publisher cfg"
  shows "\<exists>finished.
      rg_bus r = concat (map (\<lambda>(j, shs). map (shadow_event j) shs @ [updated_event cfg j]) finished)
      \<and> mset (map (\<lambda>(j, shs). pj_snapshot j) finished) + mset (map pj_snapshot (rg_waiting r))
        = mset (map re_snapshot (tl (rg_entries r)))
      \<and> (\<forall>(j, shs) \<in> set finished. pj_revision j = ts_revision (pj_snapshot j))"
proof -
  obtain finished where "rg_bus r = concat (map (case_prod (publish_block cfg)) finished)"
      "mset (map (pj_snapshot \<circ> fst) finished) + mset (map pj_snapshot (rg_waiting r)) = mset (committed r)"
      "list_all (\<lambda>j. pj_revision j = ts_revision (pj_snapshot j)) (map fst finished)"
    using reg_reachable_bus_inv [OF assms(1)] assms(2,3) by (auto simp: reg_bus_inv_def running_jobs_def)
  moreover have "(\<lambda>(j, shs). pj_snapshot j) = (pj_snapshot \<circ> fst :: publish_job \<times> shadowed_tool list \<Rightarrow> _)"
    by (simp add: fun_eq_iff case_prod_beta)
  moreover have "case_prod (publish_block cfg) = (\<lambda>(j, shs). map (shadow_event j) shs @ [updated_event cfg j])"
    by (simp add: fun_eq_iff publish_block_def)
  ultimately show ?thesis
    by (intro exI [of _ finished]) (auto simp: committed_def list_all_iff)
qed

section \<open>One call's publish phase\<close>

text \<open>
  The publish phase of one call, which the mutex keeps apart from the others: one publish call per
  answer, the shadowed tools first.
\<close>

fun run_publish :: "reg_config \<Rightarrow> publish_job \<Rightarrow> err_tree option list \<Rightarrow> registry \<Rightarrow> registry" where
  "run_publish cfg j [] r = r"
| "run_publish cfg j (ans # rest) r =
     (if pj_shadows j = [] then publish_updated cfg j ans r
      else let r1 = publish_shadow cfg j ans r
           in run_publish cfg (case rg_publishing r1 of Some j1 \<Rightarrow> j1 | None \<Rightarrow> j) rest r1)"

definition first_error :: "err_tree option list \<Rightarrow> err_tree option" where
  "first_error answers = (case find (\<lambda>a. a \<noteq> None) answers of Some a \<Rightarrow> a | None \<Rightarrow> None)"

lemma first_error_simps [simp]:
  "first_error [] = None"
  "first_error (None # as) = first_error as"
  "first_error (Some e # as) = Some e"
  by (simp_all add: first_error_def)

lemma run_publish_steps:
  "rg_publishing r = Some j \<Longrightarrow> length answers = Suc (length (pj_shadows j))
     \<Longrightarrow> (reg_step cfg)\<^sup>*\<^sup>* r (run_publish cfg j answers r)"
proof (induction answers arbitrary: j r)
  case (Cons ans rest)
  show ?case
  proof (cases "pj_shadows j")
    case Nil
    then show ?thesis
      using RUpdated [OF Cons.prems(1) Nil] by (simp add: r_into_rtranclp)
  next
    case (Cons sh shs)
    obtain err where p: "rg_publishing (publish_shadow cfg j ans r) = Some (j\<lparr>pj_shadows := shs, pj_first_err := err\<rparr>)"
      using Cons by (rule publish_shadow_fields)
    have "reg_step cfg r (publish_shadow cfg j ans r)"
      using RShadow Cons.prems(1) Cons by (simp add: RShadow)
    moreover have "(reg_step cfg)\<^sup>*\<^sup>* (publish_shadow cfg j ans r)
        (run_publish cfg (j\<lparr>pj_shadows := shs, pj_first_err := err\<rparr>) rest (publish_shadow cfg j ans r))"
      using Cons.IH [OF p] Cons.prems(2) Cons by simp
    ultimately show ?thesis
      using p Cons by (simp add: Let_def converse_rtranclp_into_rtranclp)
  qed
qed simp

definition publish_return :: "publish_job \<Rightarrow> err_tree option list \<Rightarrow> err_tree option" where
  "publish_return j answers =
     (case last answers of
        Some err \<Rightarrow> Some (wraps [sentinel ErrPublishAfterSwap, err])
      | None \<Rightarrow>
          map_option (\<lambda>e. wraps [sentinel ErrPublishToolShadowed, e])
            (case pj_first_err j of Some e \<Rightarrow> Some e | None \<Rightarrow> first_error (butlast answers)))"

lemma run_publish_result:
  "rg_publishing r = Some j \<Longrightarrow> length answers = Suc (length (pj_shadows j))
     \<Longrightarrow> rg_bus (run_publish cfg j answers r) = rg_bus r @ publish_block cfg j (pj_shadows j)
       \<and> rg_publishing (run_publish cfg j answers r) = None
       \<and> rg_waiting (run_publish cfg j answers r) = rg_waiting r
       \<and> core_of (run_publish cfg j answers r) = core_of r
       \<and> rg_returns (run_publish cfg j answers r) =
           rg_returns r @ [(Some (pj_snapshot j), publish_return j answers)]"
proof (induction answers arbitrary: j r)
  case (Cons ans rest)
  show ?case
  proof (cases "pj_shadows j")
    case Nil
    then show ?thesis
      using Cons.prems
      by (auto simp: publish_block_def publish_return_def publish_updated_def Let_def core_of_def split: option.split)
  next
    case (Cons sh shs)
    obtain err where p: "rg_publishing (publish_shadow cfg j ans r) = Some (j\<lparr>pj_shadows := shs, pj_first_err := err\<rparr>)"
      "rg_bus (publish_shadow cfg j ans r) = rg_bus r @ [shadow_event j sh]"
      "rg_waiting (publish_shadow cfg j ans r) = rg_waiting r"
      "rg_returns (publish_shadow cfg j ans r) = rg_returns r"
      "err = (case pj_first_err j of None \<Rightarrow> ans | Some e \<Rightarrow> Some e)"
      using Cons by (rule publish_shadow_fields)
    let ?j = "j\<lparr>pj_shadows := shs, pj_first_err := err\<rparr>"
    have "length rest = Suc (length (pj_shadows ?j))"
      using Cons.prems(2) Cons by simp
    note ih = Cons.IH [OF p(1) this]
    have "rest \<noteq> []"
      using Cons.prems(2) Cons by auto
    then have ret: "publish_return ?j rest = publish_return j (ans # rest)"
      using p(5) by (auto simp: publish_return_def split: option.split)
    have blk: "publish_block cfg ?j shs = map (shadow_event j) shs @ [updated_event cfg j]"
      by (simp add: publish_block_def)
    show ?thesis
      using ih p Cons ret blk by (simp add: Let_def publish_block_def)
  qed
qed simp

text \<open>
  A committed recompute attempts every event, whatever fails: its
  block goes out whole and the swap stays. The returned error tells a lost update
  (\<open>ErrPublishAfterSwap\<close>) from lost shadow notices only (\<open>ErrPublishToolShadowed\<close>, carrying the first
  failure), and there is none exactly when every publish succeeded.
\<close>

theorem recompute_publish_outcome:
  assumes "rg_publishing r = Some j" "pj_first_err j = None"
    and "length answers = Suc (length (pj_shadows j))"
  shows "let r' = run_publish cfg j answers r in
    rg_bus r' = rg_bus r @ map (shadow_event j) (pj_shadows j) @ [updated_event cfg j]
    \<and> core_of r' = core_of r
    \<and> rg_returns r' = rg_returns r @ [(Some (pj_snapshot j),
        case last answers of
          Some err \<Rightarrow> Some (wraps [sentinel ErrPublishAfterSwap, err])
        | None \<Rightarrow> map_option (\<lambda>e. wraps [sentinel ErrPublishToolShadowed, e]) (first_error (butlast answers)))]
    \<and> (snd (last (rg_returns r')) = None \<longleftrightarrow> set answers = {None})"
proof -
  obtain bs b where ans: "answers = bs @ [b]"
    using assms(3) by (cases answers rule: rev_cases) auto
  have "first_error bs = None \<longleftrightarrow> set bs \<subseteq> {None}"
    by (induction bs) (auto simp: first_error_def split: option.splits)
  then show ?thesis
    using run_publish_result [OF assms(1,3), of cfg] assms(2) ans
    by (auto simp: Let_def publish_return_def publish_block_def split: option.split)
qed

text \<open>
  \<open>publishMu\<close> does not keep the order of publication consistent with the
  order of revisions: it is taken after \<open>recomputeMu\<close> is released, so of two committed revisions
  that wait for it either can go first, and the newer one's events can be on the bus entirely before
  the older one's.
\<close>

theorem publish_order_unfixed:
  assumes "rg_publishing r = None" "i < k" "k < length (rg_waiting r)"
  shows "\<exists>r'. (reg_step cfg)\<^sup>*\<^sup>* r r' \<and> rg_publishing r' = None \<and> core_of r' = core_of r
    \<and> rg_bus r' = rg_bus r
        @ publish_block cfg (rg_waiting r ! k) (pj_shadows (rg_waiting r ! k))
        @ publish_block cfg (rg_waiting r ! i) (pj_shadows (rg_waiting r ! i))"
proof -
  let ?ans = "\<lambda>j. replicate (Suc (length (pj_shadows j))) None"
  have whole: "\<exists>r'. (reg_step cfg)\<^sup>*\<^sup>* s r' \<and> rg_publishing r' = None \<and> core_of r' = core_of s
      \<and> rg_waiting r' = take m (rg_waiting s) @ drop (Suc m) (rg_waiting s)
      \<and> rg_bus r' = rg_bus s @ publish_block cfg (rg_waiting s ! m) (pj_shadows (rg_waiting s ! m))"
    if "rg_publishing s = None" "m < length (rg_waiting s)" for s m
  proof -
    let ?j = "rg_waiting s ! m" and ?b = "publish_begin m s"
    have b: "rg_publishing ?b = Some ?j" "rg_bus ?b = rg_bus s"
        "rg_waiting ?b = take m (rg_waiting s) @ drop (Suc m) (rg_waiting s)"
      by (simp_all add: publish_begin_def)
    have "(reg_step cfg)\<^sup>*\<^sup>* s (run_publish cfg ?j (?ans ?j) ?b)"
      using RBegin [OF that, of cfg] run_publish_steps [OF b(1), of "?ans ?j" cfg]
      by (auto intro: converse_rtranclp_into_rtranclp)
    then show ?thesis
      using run_publish_result [OF b(1), of "?ans ?j" cfg] b by auto
  qed
  obtain s where s: "(reg_step cfg)\<^sup>*\<^sup>* r s" "rg_publishing s = None" "core_of s = core_of r"
      "rg_waiting s = take k (rg_waiting r) @ drop (Suc k) (rg_waiting r)"
      "rg_bus s = rg_bus r @ publish_block cfg (rg_waiting r ! k) (pj_shadows (rg_waiting r ! k))"
    using whole [OF assms(1,3)] by blast
  have i: "i < length (rg_waiting s)" "rg_waiting s ! i = rg_waiting r ! i"
    using assms s(4) by (auto simp: nth_append)
  obtain r' where "(reg_step cfg)\<^sup>*\<^sup>* s r'" "rg_publishing r' = None" "core_of r' = core_of s"
      "rg_bus r' = rg_bus s @ publish_block cfg (rg_waiting s ! i) (pj_shadows (rg_waiting s ! i))"
    using whole [OF s(2) i(1)] by blast
  with s i show ?thesis
    by (intro exI [of _ r']) auto
qed

section \<open>Witnesses\<close>

text \<open>
  Two sources that ship the same tool; one caller acquires the initial snapshot, two recomputes
  follow, both calls wait for \<open>publishMu\<close>.
\<close>

definition demo_reg_cfg :: reg_config where
  "demo_reg_cfg = \<lparr>rc_data_dir = ''/d'', rc_sources = [demo_source ''a'', demo_source ''b''],
     rc_grace_period = 10, rc_publisher = True, rc_logger = False\<rparr>"

definition demo_reg0 :: registry where
  "demo_reg0 = projr (new_registry demo_reg_cfg (time_unix 0))"

definition demo_reg1 :: registry where "demo_reg1 = acquire_add 0 (acquire_load demo_reg0)"

definition demo_reg2 :: registry where
  "demo_reg2 = recompute demo_reg_cfg demo_scan_env (time_unix 9)
                 (recompute demo_reg_cfg demo_scan_env (time_unix 7) demo_reg1)"

lemma recompute_frame [simp]:
  "rg_publishing (recompute cfg E now r) = rg_publishing r"
  "rg_holders (recompute cfg E now r) = rg_holders r"
  "rg_bus (recompute cfg E now r) = rg_bus r"
  using recompute_leave_simps(1) [of cfg]
  by (auto simp: recompute_def Let_def core_of_def split: prod.split sum.split)

lemma demo_reg0_ok: "new_registry demo_reg_cfg (time_unix 0) = Inr demo_reg0"
proof -
  have "\<not> isl (new_registry demo_reg_cfg (time_unix 0))"
    by code_simp
  then show ?thesis
    by (simp add: demo_reg0_def)
qed

lemma new_registry_fields:
  "new_registry cfg now = Inr r \<Longrightarrow> rg_publishing r = None \<and> rg_holders r = [] \<and> rg_bus r = []"
  by (auto simp: new_registry_def split: if_splits option.splits)

lemma demo_reg0_fields: "rg_publishing demo_reg0 = None" "rg_holders demo_reg0 = []" "rg_bus demo_reg0 = []"
  using new_registry_fields [OF demo_reg0_ok] by simp_all

lemma demo_reg1_steps: "(reg_step demo_reg_cfg)\<^sup>*\<^sup>* demo_reg0 demo_reg1"
proof -
  have "reg_step demo_reg_cfg demo_reg0 (acquire_load demo_reg0)"
    by (rule RLoad)
  moreover have "reg_step demo_reg_cfg (acquire_load demo_reg0) demo_reg1"
    unfolding demo_reg1_def by (rule RAdd) (simp_all add: acquire_load_def demo_reg0_fields)
  ultimately show ?thesis
    by auto
qed

lemma demo_reg2_steps: "(reg_step demo_reg_cfg)\<^sup>*\<^sup>* demo_reg1 demo_reg2"
  unfolding demo_reg2_def by (auto intro: RRecompute converse_rtranclp_into_rtranclp)

lemma reg_reachable_steps: "(reg_step cfg)\<^sup>*\<^sup>* r r' \<Longrightarrow> reg_reachable cfg r \<Longrightarrow> reg_reachable cfg r'"
  by (induction rule: rtranclp_induct) (auto intro: reg_next)

lemma demo_reachable: "reg_reachable demo_reg_cfg demo_reg1" "reg_reachable demo_reg_cfg demo_reg2"
  using demo_reg1_steps demo_reg2_steps reg_reachable_steps reg_init [OF demo_reg0_ok] by blast+

lemma demo_reg1_fields: "rg_publishing demo_reg1 = None" "length (rg_holders demo_reg1) = 1" "rg_bus demo_reg1 = []"
  by (simp_all add: demo_reg1_def acquire_add_def set_phase_def add_refcount_def Let_def acquire_load_def
      demo_reg0_fields)

lemma demo_reg2_fields: "rg_publishing demo_reg2 = None" "length (rg_holders demo_reg2) = 1" "rg_bus demo_reg2 = []"
  by (simp_all add: demo_reg2_def demo_reg1_fields)

lemma demo_reg2_waiting: "map pj_revision (rg_waiting demo_reg2) = [1, 2]"
  by code_simp

theorem registry_well_typed_witness:
  "toolset_names (Some (registry_snapshot demo_reg2)) = [''t'', ''u'']
   \<and> distinct (toolset_names (Some (registry_snapshot demo_reg2)))"
proof -
  have "toolset_names (Some (registry_snapshot demo_reg2)) = [''t'', ''u'']"
    by code_simp
  then show ?thesis
    using registry_well_typed [OF demo_reachable(2), of 0 "registry_snapshot demo_reg2"] demo_reg2_fields(2)
    by simp
qed

theorem refcount_counts_holders_witness:
  "sint (re_refcount (rg_entries demo_reg2 ! 0)) = 1 \<and> length (rg_entries demo_reg2) = 3"
proof -
  have c: "length (filter (\<lambda>h. hn_entry h = 0 \<and> counted h) (rg_holders demo_reg2)) = 1"
      "length (rg_entries demo_reg2) = 3"
    by code_simp+
  then show ?thesis
    using refcount_counts_holders [OF demo_reachable(2), of 0] demo_reg2_fields(2) by simp
qed

theorem acquired_snapshot_stable_witness:
  "acquired_snapshot 0 demo_reg2 = acquired_snapshot 0 demo_reg1
   \<and> map (\<lambda>e. ts_revision (re_snapshot e)) (rg_entries demo_reg2) = [0, 1, 2]"
proof -
  have "length (rg_entries demo_reg2) = 3"
    by code_simp
  then show ?thesis
    using acquired_snapshot_stable [OF demo_reachable(1) _ demo_reg2_steps, of 0] demo_reg1_fields(2)
    by (simp add: upt_rec)
qed

theorem publish_blocks_witness:
  "\<exists>finished. [] = concat (map (\<lambda>(j, shs). map (shadow_event j) shs @ [updated_event demo_reg_cfg j]) finished)
   \<and> mset (map (\<lambda>(j, shs). pj_snapshot j) finished) + mset (map pj_snapshot (rg_waiting demo_reg2))
     = mset (map re_snapshot (tl (rg_entries demo_reg2)))"
  using publish_blocks [OF demo_reachable(2) demo_reg2_fields(1)] demo_reg2_fields(3)
  by (auto simp: demo_reg_cfg_def)

lemma concat_map_ev: "map ev_revision (publish_block cfg j shs) = replicate (Suc (length shs)) (pj_revision j)"
  by (simp add: publish_block_def shadow_event_def updated_event_def comp_def map_replicate_const replicate_append_same)

theorem publish_order_unfixed_witness:
  "\<exists>r. reg_reachable demo_reg_cfg r \<and> map ev_revision (rg_bus r) = [2, 2, 1, 1]"
proof -
  have shs: "map (\<lambda>j. length (pj_shadows j)) (rg_waiting demo_reg2) = [1, 1]"
    by code_simp
  then obtain j1 j2 where w: "rg_waiting demo_reg2 = [j1, j2]"
    by auto
  then have j: "pj_revision j1 = 1" "pj_revision j2 = 2" "length (pj_shadows j1) = 1" "length (pj_shadows j2) = 1"
    using demo_reg2_waiting shs by auto
  obtain r where "(reg_step demo_reg_cfg)\<^sup>*\<^sup>* demo_reg2 r"
      "rg_bus r = publish_block demo_reg_cfg j2 (pj_shadows j2) @ publish_block demo_reg_cfg j1 (pj_shadows j1)"
    using publish_order_unfixed [OF demo_reg2_fields(1), of 0 1 demo_reg_cfg] w demo_reg2_fields(3) by auto
  then show ?thesis
    using reg_reachable_steps demo_reachable(2)
    by (intro exI [of _ r]) (auto simp: concat_map_ev j)
qed

text \<open>The first shadow notice and the update fail; the second notice still goes out.\<close>

definition demo_job :: publish_job where
  "demo_job = \<lparr>pj_revision = 1, pj_snapshot = registry_snapshot demo_reg2,
     pj_shadows = [shadow_of \<lparr>et_source = ''a'', et_manifest = demo_manifest ''t'' ''1''\<rparr> ''b'' (demo_manifest ''t'' ''2''),
                   shadow_of \<lparr>et_source = ''a'', et_manifest = demo_manifest ''u'' ''1''\<rparr> ''b'' (demo_manifest ''u'' ''2'')],
     pj_first_err = None\<rparr>"

theorem recompute_publish_outcome_witness:
  "let r' = run_publish demo_reg_cfg demo_job [Some (errors_new ''full''), None, None]
              (demo_reg2\<lparr>rg_publishing := Some demo_job\<rparr>)
   in rg_returns r' = rg_returns demo_reg2 @
        [(Some (pj_snapshot demo_job), Some (wraps [sentinel ErrPublishToolShadowed, errors_new ''full'']))]
      \<and> length (rg_bus r') = 3"
  using recompute_publish_outcome [of "demo_reg2\<lparr>rg_publishing := Some demo_job\<rparr>" demo_job
      "[Some (errors_new ''full''), None, None]" demo_reg_cfg] demo_reg2_fields(3)
  by (simp add: Let_def demo_job_def)

end
