(* ===== verification/ToolSync.thy ===== *)
theory ToolSync
  imports ToolRegistry
begin

text \<open>
  The sync scheduler (\<open>core/pkg/toolregistry/scheduler.go\<close>): \<open>SyncOnce\<close> with its path check, the
  per-call credential, the existence check of local and hosted sources, clone or pull of git
  sources, the signature check, and the event each outcome publishes. The disk is a parameter
  type that the file system's and git's operations read and change; credentials, verifier, clock
  and publisher are parameters. The per-source mutex makes one \<open>SyncOnce\<close> the unit of the model.
\<close>

section \<open>Environment and world\<close>

record clone_opts =
  co_url :: string
  co_branch :: string
  co_dir :: string
  co_auth :: string

record pull_opts =
  po_dir :: string
  po_auth :: string

datatype sync_event =
  SourceSynced (se_source: string) (se_at: gotime) (se_local_path: string) (se_correlation: int)
| SourceFailed (se_source: string) (se_at: gotime) (se_error_type: string) (se_phase: string)
    (se_correlation: int)

text \<open>What the scheduler asks of the outside, in order.\<close>

datatype sync_op =
  OpStat string | OpMkdirAll string | OpClone clone_opts | OpPull pull_opts | OpVerify string string

fun op_path :: "sync_op \<Rightarrow> string" where
  "op_path (OpStat p) = p"
| "op_path (OpMkdirAll p) = p"
| "op_path (OpClone c) = co_dir c"
| "op_path (OpPull p) = po_dir p"
| "op_path (OpVerify n p) = p"

datatype sync_log =
  LogPublishSyncedFailed string string
| LogPublishFailedFailed string string
| LogSyncFailed string string string

record 'd sync_env =
  sy_data_dir :: string
  sy_sources :: "source_config list"
  sy_stat :: "string \<Rightarrow> 'd \<Rightarrow> err_tree option"
  sy_mkdir_all :: "string \<Rightarrow> 'd \<Rightarrow> err_tree option \<times> 'd"
  sy_clone :: "clone_opts \<Rightarrow> 'd \<Rightarrow> err_tree option \<times> 'd"
  sy_pull :: "pull_opts \<Rightarrow> 'd \<Rightarrow> err_tree option \<times> 'd"
  sy_verify :: "string \<Rightarrow> string \<Rightarrow> 'd \<Rightarrow> err_tree option"
  sy_resolver :: "(string \<Rightarrow> string \<Rightarrow> err_tree + string) option"
  sy_now :: "nat \<Rightarrow> gotime"
  sy_publish :: "sync_event list \<Rightarrow> sync_event \<Rightarrow> err_tree option"
  sy_logger :: bool

record 'd sync_world =
  sw_disk :: 'd
  sw_clock_reads :: nat
  sw_events :: "sync_event list"
  sw_ops :: "sync_op list"
  sw_log :: "sync_log list"

abbreviation ErrUnknownSource :: string where "ErrUnknownSource \<equiv> ''ErrUnknownSource''"
abbreviation ErrUnsafeLocalPath :: string where "ErrUnsafeLocalPath \<equiv> ''ErrUnsafeLocalPath''"
abbreviation ErrAuthResolution :: string where "ErrAuthResolution \<equiv> ''ErrAuthResolution''"
abbreviation ErrEmptyResolvedAuth :: string where "ErrEmptyResolvedAuth \<equiv> ''ErrEmptyResolvedAuth''"
abbreviation ErrLocalSourceMissing :: string where "ErrLocalSourceMissing \<equiv> ''ErrLocalSourceMissing''"
abbreviation ErrFSStat :: string where "ErrFSStat \<equiv> ''ErrFSStat''"
abbreviation ErrFSMkdir :: string where "ErrFSMkdir \<equiv> ''ErrFSMkdir''"
abbreviation ErrSyncPull :: string where "ErrSyncPull \<equiv> ''ErrSyncPull''"
abbreviation ErrSyncClone :: string where "ErrSyncClone \<equiv> ''ErrSyncClone''"
abbreviation ErrSignatureVerification :: string where
  "ErrSignatureVerification \<equiv> ''ErrSignatureVerification''"

section \<open>Helpers of the scheduler\<close>

text \<open>\<open>New\<close> rejects a blank data directory and an invalid source list, then indexes the sources.\<close>

definition new_scheduler :: "'d sync_env \<Rightarrow> err_tree option" where
  "new_scheduler E =
     (if blank (sy_data_dir E) then Some (sentinel ErrInvalidDataDir) else validate_sources (sy_sources E))"

definition by_source :: "'d sync_env \<Rightarrow> string \<rightharpoonup> source_config" where
  "by_source E = foldl (\<lambda>m s. m(sc_name s \<mapsto> s)) Map.empty (sy_sources E)"

definition sync_clock :: "'d sync_env \<Rightarrow> 'd sync_world \<Rightarrow> gotime \<times> 'd sync_world" where
  "sync_clock E w = (sy_now E (sw_clock_reads w), w\<lparr>sw_clock_reads := Suc (sw_clock_reads w)\<rparr>)"

definition sync_log_add :: "'d sync_env \<Rightarrow> sync_log \<Rightarrow> 'd sync_world \<Rightarrow> 'd sync_world" where
  "sync_log_add E l w = (if sy_logger E then w\<lparr>sw_log := sw_log w @ [l]\<rparr> else w)"

definition sync_publish :: "'d sync_env \<Rightarrow> sync_event \<Rightarrow> 'd sync_world \<Rightarrow> err_tree option \<times> 'd sync_world" where
  "sync_publish E ev w = (sy_publish E (sw_events w) ev, w\<lparr>sw_events := sw_events w @ [ev]\<rparr>)"

definition record_op :: "sync_op \<Rightarrow> 'd sync_world \<Rightarrow> 'd sync_world" where
  "record_op p w = w\<lparr>sw_ops := sw_ops w @ [p]\<rparr>"

definition tools_dir :: "string \<Rightarrow> string" where
  "tools_dir data_dir = path_clean (path_join [data_dir, ''tools''])"

definition safe_local_path :: "string \<Rightarrow> string \<Rightarrow> err_tree + string" where
  "safe_local_path data_dir source_name =
     (let parent = tools_dir data_dir;
          cand = path_clean (path_join [parent, source_name])
      in case path_rel parent cand of
           None \<Rightarrow> Inl (wrap1 source_name (sentinel ErrUnsafeLocalPath))
         | Some rel \<Rightarrow>
             if rel = ''.'' \<or> climbs rel \<or> is_rooted rel
             then Inl (wrap1 source_name (sentinel ErrUnsafeLocalPath))
             else Inr cand)"

definition resolve_auth :: "'d sync_env \<Rightarrow> source_config \<Rightarrow> err_tree + string" where
  "resolve_auth E src =
     (if sc_auth_secret src = [] then Inr []
      else case sy_resolver E of
        None \<Rightarrow> Inl (errors_new ''no resolver configured for source'')
      | Some res \<Rightarrow>
          (case res (sc_name src) (sc_auth_secret src) of
             Inl err \<Rightarrow> Inl err
           | Inr auth \<Rightarrow>
               if auth = [] then Inl (wrap1 (sc_name src) (sentinel ErrEmptyResolvedAuth)) else Inr auth))"

definition sync_verify_signature ::
  "'d sync_env \<Rightarrow> source_config \<Rightarrow> string \<Rightarrow> 'd sync_world \<Rightarrow> err_tree option \<times> 'd sync_world" where
  "sync_verify_signature E src dir w =
     (map_option (\<lambda>err. wraps [sentinel ErrSignatureVerification, err]) (sy_verify E (sc_name src) dir (sw_disk w)),
      record_op (OpVerify (sc_name src) dir) w)"

definition emit_success ::
  "'d sync_env \<Rightarrow> string \<Rightarrow> string \<Rightarrow> int \<Rightarrow> 'd sync_world \<Rightarrow> err_tree option \<times> 'd sync_world" where
  "emit_success E source_name local_path correlation w =
     (let (now, w1) = sync_clock E w in
      case sync_publish E (SourceSynced source_name now local_path correlation) w1 of
        (Some err, w2) \<Rightarrow>
          (Some (wrap1 ''toolregistry: publish synced'' err),
           sync_log_add E (LogPublishSyncedFailed source_name (leaf_err_type err)) w2)
      | (None, w2) \<Rightarrow> (None, w2))"

definition emit_failure ::
  "'d sync_env \<Rightarrow> string \<Rightarrow> string \<Rightarrow> err_tree \<Rightarrow> int \<Rightarrow> 'd sync_world \<Rightarrow> 'd sync_world" where
  "emit_failure E source_name phase sync_err correlation w =
     (let (now, w1) = sync_clock E w;
          (perr, w2) = sync_publish E (SourceFailed source_name now (leaf_err_type sync_err) phase correlation) w1;
          w3 = (case perr of
                  Some err \<Rightarrow> sync_log_add E (LogPublishFailedFailed source_name (leaf_err_type err)) w2
                | None \<Rightarrow> w2)
      in sync_log_add E (LogSyncFailed source_name phase (leaf_err_type sync_err)) w3)"

section \<open>SyncOnce\<close>

text \<open>The two last steps of every kind of source: verify, then announce.\<close>

definition verify_and_announce ::
  "'d sync_env \<Rightarrow> source_config \<Rightarrow> string \<Rightarrow> string \<Rightarrow> int \<Rightarrow> 'd sync_world
     \<Rightarrow> err_tree option \<times> 'd sync_world" where
  "verify_and_announce E src source_name local_path correlation w =
     (case sync_verify_signature E src local_path w of
        (Some err, w1) \<Rightarrow> (Some err, emit_failure E source_name ''signature'' err correlation w1)
      | (None, w1) \<Rightarrow> emit_success E source_name local_path correlation w1)"

definition sync_local ::
  "'d sync_env \<Rightarrow> source_config \<Rightarrow> string \<Rightarrow> string \<Rightarrow> int \<Rightarrow> 'd sync_world
     \<Rightarrow> err_tree option \<times> 'd sync_world" where
  "sync_local E src source_name local_path correlation w =
     (let w1 = record_op (OpStat local_path) w in
      case sy_stat E local_path (sw_disk w) of
        Some err \<Rightarrow>
          if tree_is err FsErrNotExist then
            (let wrapped = wraps [sentinel ErrLocalSourceMissing, err]
             in (Some wrapped, emit_failure E source_name ''stat'' wrapped correlation w1))
          else (Some (wraps [sentinel ErrFSStat, err]), emit_failure E source_name ''stat'' err correlation w1)
      | None \<Rightarrow> verify_and_announce E src source_name local_path correlation w1)"

definition sync_git ::
  "'d sync_env \<Rightarrow> source_config \<Rightarrow> string \<Rightarrow> string \<Rightarrow> string \<Rightarrow> int \<Rightarrow> 'd sync_world
     \<Rightarrow> err_tree option \<times> 'd sync_world" where
  "sync_git E src source_name local_path auth correlation w =
     (case sy_mkdir_all E local_path (sw_disk w) of
        (Some err, disk) \<Rightarrow>
          (Some (wraps [sentinel ErrFSMkdir, err]),
           emit_failure E source_name ''mkdir'' err correlation
             (record_op (OpMkdirAll local_path) (w\<lparr>sw_disk := disk\<rparr>)))
      | (None, disk) \<Rightarrow>
          (let dot_git = path_join [local_path, ''.git''];
               w1 = record_op (OpStat dot_git) (record_op (OpMkdirAll local_path) (w\<lparr>sw_disk := disk\<rparr>))
           in case sy_stat E dot_git (sw_disk w1) of
                None \<Rightarrow>
                  (let opts = \<lparr>po_dir = local_path, po_auth = auth\<rparr>;
                       (perr, disk2) = sy_pull E opts (sw_disk w1);
                       w2 = record_op (OpPull opts) (w1\<lparr>sw_disk := disk2\<rparr>)
                   in case perr of
                        Some err \<Rightarrow>
                          (Some (wraps [sentinel ErrSyncPull, err]),
                           emit_failure E source_name ''pull'' err correlation w2)
                      | None \<Rightarrow> verify_and_announce E src source_name local_path correlation w2)
              | Some stat_err \<Rightarrow>
                  if tree_is stat_err FsErrNotExist then
                    (let opts = \<lparr>co_url = sc_url src, co_branch = effective_branch src,
                                 co_dir = local_path, co_auth = auth\<rparr>;
                         (cerr, disk2) = sy_clone E opts (sw_disk w1);
                         w2 = record_op (OpClone opts) (w1\<lparr>sw_disk := disk2\<rparr>)
                     in case cerr of
                          Some err \<Rightarrow>
                            (Some (wraps [sentinel ErrSyncClone, err]),
                             emit_failure E source_name ''clone'' err correlation w2)
                        | None \<Rightarrow> verify_and_announce E src source_name local_path correlation w2)
                  else
                    (Some (wraps [sentinel ErrFSStat, stat_err]),
                     emit_failure E source_name ''stat'' stat_err correlation w1)))"

definition sync_once :: "'d sync_env \<Rightarrow> string \<Rightarrow> 'd sync_world \<Rightarrow> err_tree option \<times> 'd sync_world" where
  "sync_once E source_name w =
     (case by_source E source_name of
        None \<Rightarrow> (Some (wrap1 source_name (sentinel ErrUnknownSource)), w)
      | Some src \<Rightarrow>
          (let (now, w1) = sync_clock E w;
               correlation = wrap64 (unix_nanos now)
           in case safe_local_path (sy_data_dir E) source_name of
                Inl err \<Rightarrow> (Some err, emit_failure E source_name ''path'' err correlation w1)
              | Inr local_path \<Rightarrow>
                  (case resolve_auth E src of
                     Inl err \<Rightarrow>
                       (Some (wraps [sentinel ErrAuthResolution, err]),
                        emit_failure E source_name ''auth'' err correlation w1)
                   | Inr auth \<Rightarrow>
                       if sc_kind src = SourceKindLocal \<or> sc_kind src = SourceKindHosted
                       then sync_local E src source_name local_path correlation w1
                       else sync_git E src source_name local_path auth correlation w1)))"

section \<open>Paths below the tools directory\<close>

definition below :: "string \<Rightarrow> string \<Rightarrow> bool" where
  "below dir p \<longleftrightarrow> (\<exists>us. us \<noteq> [] \<and> path_words p = path_words dir @ us \<and> is_rooted p = is_rooted dir)"

lemma safe_local_path_below: "safe_local_path d n = Inr p \<Longrightarrow> below (tools_dir d) p \<and> path_clean p = p"
  by (auto simp: safe_local_path_def below_def Let_def split: option.splits if_splits dest: path_rel_below)

lemma clean_words_append:
  "clean_words r st (us @ vs) = clean_words r (rev (clean_words r st us)) vs"
  by (induction r st us rule: clean_words.induct) (auto split: list.split)

lemma is_rooted_append: "p \<noteq> [] \<Longrightarrow> is_rooted (p @ q) = is_rooted p"
  by (cases p) (simp_all add: is_rooted_def)

text \<open>Joining one ordinary word to a path appends it to the path's words.\<close>

lemma path_words_join_word:
  assumes "p \<noteq> []" "word_ok n" "n \<noteq> ''.''" "n \<noteq> dotdot"
  shows "path_words (path_join [p, n]) = path_words p @ [n]" "is_rooted (path_join [p, n]) = is_rooted p"
proof -
  have j: "path_join [p, n] = path_clean (p @ sep # n)"
    using assms(1) by (simp add: path_join_def)
  have sp: "split_slash (p @ sep # n) = split_slash p @ [n]"
    using assms(2) by (simp add: split_slash_append split_slash_word word_ok_def)
  have n: "n \<noteq> []"
    using assms(2) by (simp add: word_ok_def)
  have "path_words (p @ sep # n) = path_words p @ [n]"
    using assms(3,4) n
    by (simp add: path_words_def is_rooted_append [OF assms(1)] sp clean_words_append)
  then show "path_words (path_join [p, n]) = path_words p @ [n]"
    by (simp add: j)
  show "is_rooted (path_join [p, n]) = is_rooted p"
    using assms(1) by (simp add: j is_rooted_append)
qed

lemma path_clean_not_Nil: "path_clean p \<noteq> []"
  using path_words_form [of p] join_slash_eq_Nil [of "path_words p"]
  by (auto simp: path_clean_words path_string_def clean_form_def)

lemma dot_git_word: "word_ok ''.git''" "''.git'' \<noteq> ''.''" "''.git'' \<noteq> dotdot"
  by (simp_all add: word_ok_def sep_def dotdot_def)

lemma below_dot_git:
  assumes "safe_local_path d n = Inr p"
  shows "below (tools_dir d) (path_join [p, ''.git''])"
proof -
  have "p \<noteq> []"
    using safe_local_path_below [OF assms] path_clean_not_Nil by metis
  then show ?thesis
    using safe_local_path_below [OF assms] path_words_join_word [OF _ dot_git_word] by (auto simp: below_def)
qed

text \<open>A validated name is never refused: its directory is the tools directory's child of that name.\<close>

lemma tools_dir_words: "\<exists>ws. path_words (tools_dir d) = ws @ [''tools'']"
proof -
  have t: "word_ok ''tools''" "''tools'' \<noteq> ''.''" "''tools'' \<noteq> dotdot"
    by (simp_all add: word_ok_def sep_def dotdot_def)
  show ?thesis
  proof (cases "d = []")
    case True
    have "path_words ''tools'' = [''tools'']"
      by code_simp
    then show ?thesis
      using True by (simp add: tools_dir_def path_join_def)
  next
    case False
    then show ?thesis
      using path_words_join_word [OF _ t] by (simp add: tools_dir_def)
  qed
qed

lemma safe_local_path_valid:
  assumes "valid_source_name n"
  shows "\<exists>p. safe_local_path d n = Inr p \<and> path_words p = path_words (tools_dir d) @ [n]
    \<and> is_rooted p = is_rooted (tools_dir d)"
proof -
  let ?t = "tools_dir d"
  let ?c = "path_clean (path_join [?t, n])"
  have w: "word_ok n" "n \<noteq> ''.''" "n \<noteq> dotdot"
    using valid_source_name_word [OF assms] by auto
  have t: "path_clean ?t = ?t" "?t \<noteq> []"
    by (simp_all add: tools_dir_def path_clean_not_Nil)
  have c: "path_words ?c = path_words ?t @ [n]" "is_rooted ?c = is_rooted ?t"
    using path_words_join_word [OF t(2) w] by simp_all
  have ne: "?c \<noteq> ?t"
    using c(1) by (metis append_self_conv list.distinct(1))
  have dots: "?t \<noteq> ''.''" "?c \<noteq> ''.''"
    using tools_dir_words [of d] c(1) path_clean_dot_words [of ?t] path_clean_dot_words [of ?c] t(1)
    by (metis snoc_eq_iff_butlast path_clean_idem)+
  have common: "drop_common ws (ws @ us) = ([], us)" for ws us
    by (induction ws) (cases us; simp)+
  have "rel_words ?t = path_words ?t" "rel_words ?c = path_words ?c"
    using rel_words_clean [of ?t] rel_words_clean [of "path_join [?t, n]"] dots t(1) by simp_all
  then have "path_rel ?t ?c = Some n"
    using ne dots t(1) c common by (simp add: path_rel_def Let_def)
  moreover have "\<not> climbs n" "\<not> is_rooted n"
    using w by (cases n; auto simp: climbs_def word_ok_def is_rooted_def prefix_def)+
  ultimately show ?thesis
    using w c by (simp add: safe_local_path_def Let_def)
qed

section \<open>Outcomes of SyncOnce\<close>

definition phase_sentinels :: "string \<Rightarrow> string list" where
  "phase_sentinels phase =
     (if phase = ''path'' then [ErrUnsafeLocalPath]
      else if phase = ''auth'' then [ErrAuthResolution]
      else if phase = ''stat'' then [ErrLocalSourceMissing, ErrFSStat]
      else if phase = ''mkdir'' then [ErrFSMkdir]
      else if phase = ''pull'' then [ErrSyncPull]
      else if phase = ''clone'' then [ErrSyncClone]
      else if phase = ''signature'' then [ErrSignatureVerification]
      else [])"

lemma record_op_simps [simp]:
  "sw_disk (record_op p w) = sw_disk w"
  "sw_clock_reads (record_op p w) = sw_clock_reads w"
  "sw_events (record_op p w) = sw_events w"
  "sw_ops (record_op p w) = sw_ops w @ [p]"
  by (simp_all add: record_op_def)

lemma sync_log_add_simps [simp]:
  "sw_disk (sync_log_add E l w) = sw_disk w"
  "sw_events (sync_log_add E l w) = sw_events w"
  "sw_ops (sync_log_add E l w) = sw_ops w"
  by (simp_all add: sync_log_add_def)

lemma emit_failure_simps [simp]:
  "sw_disk (emit_failure E n ph e c w) = sw_disk w"
  "sw_ops (emit_failure E n ph e c w) = sw_ops w"
  "sw_events (emit_failure E n ph e c w) =
     sw_events w @ [SourceFailed n (sy_now E (sw_clock_reads w)) (leaf_err_type e) ph c]"
  by (auto simp: emit_failure_def sync_clock_def sync_publish_def Let_def split: option.split)

lemma emit_success_simps [simp]:
  "sw_disk (snd (emit_success E n p c w)) = sw_disk w"
  "sw_ops (snd (emit_success E n p c w)) = sw_ops w"
  "sw_events (snd (emit_success E n p c w)) =
     sw_events w @ [SourceSynced n (sy_now E (sw_clock_reads w)) p c]"
  "fst (emit_success E n p c w) = None \<longleftrightarrow>
     sy_publish E (sw_events w) (SourceSynced n (sy_now E (sw_clock_reads w)) p c) = None"
  by (auto simp: emit_success_def sync_clock_def sync_publish_def Let_def split: option.split)

text \<open>
  What the outcome of a known source's sync looks like from outside: one event; if it says the
  source was synced, the tree on disk is the one the verifier accepted, and the caller sees nil
  exactly when the publisher took the event; if it says the sync failed, the caller's error carries
  the sentinel of the phase the event names.
\<close>

definition sync_outcome ::
  "'d sync_env \<Rightarrow> string \<Rightarrow> 'd sync_world \<Rightarrow> err_tree option \<times> 'd sync_world \<Rightarrow> bool" where
  "sync_outcome E name w r \<longleftrightarrow>
     (\<exists>ev. sw_events (snd r) = sw_events w @ [ev]
       \<and> (case ev of
            SourceSynced n t p c \<Rightarrow>
              n = name \<and> safe_local_path (sy_data_dir E) name = Inr p
              \<and> sy_verify E name p (sw_disk (snd r)) = None
              \<and> (fst r = None \<longleftrightarrow> sy_publish E (sw_events w) ev = None)
          | SourceFailed n t ty ph c \<Rightarrow>
              n = name \<and> (\<exists>e. fst r = Some e \<and> list_ex (tree_is e) (phase_sentinels ph))))"

lemma outcome_failure:
  assumes "sw_events w1 = sw_events w" "list_ex (tree_is e') (phase_sentinels ph)"
  shows "sync_outcome E name w (Some e', emit_failure E name ph e c w1)"
  using assms by (simp add: sync_outcome_def)

lemma outcome_verify:
  assumes "sw_events w1 = sw_events w" "safe_local_path (sy_data_dir E) name = Inr p" "sc_name src = name"
  shows "sync_outcome E name w (verify_and_announce E src name p c w1)"
  using assms
  by (auto simp: verify_and_announce_def sync_verify_signature_def sync_outcome_def phase_sentinels_def
      split: option.split prod.split)

lemma by_source_name: "by_source E n = Some src \<Longrightarrow> sc_name src = n \<and> src \<in> set (sy_sources E)"
proof -
  have "foldl (\<lambda>m s. m(sc_name s \<mapsto> s)) Map.empty ss n = Some src \<Longrightarrow> sc_name src = n \<and> src \<in> set ss" for ss
    by (induction ss rule: rev_induct) (auto split: if_splits)
  then show "by_source E n = Some src \<Longrightarrow> ?thesis"
    unfolding by_source_def by blast
qed

lemma outcome_local:
  assumes "sw_events w1 = sw_events w" "safe_local_path (sy_data_dir E) name = Inr p" "sc_name src = name"
  shows "sync_outcome E name w (sync_local E src name p c w1)"
  using assms
  by (auto simp: sync_local_def Let_def phase_sentinels_def intro!: outcome_verify outcome_failure
      split: option.split)

lemma outcome_git:
  assumes "sw_events w1 = sw_events w" "safe_local_path (sy_data_dir E) name = Inr p" "sc_name src = name"
  shows "sync_outcome E name w (sync_git E src name p auth c w1)"
  using assms
  by (auto simp: sync_git_def Let_def phase_sentinels_def intro!: outcome_verify outcome_failure
      split: option.split prod.split)

lemma safe_local_path_Inl: "safe_local_path d n = Inl e \<Longrightarrow> tree_is e ErrUnsafeLocalPath"
  by (auto simp: safe_local_path_def Let_def split: option.splits if_splits)

text \<open>
  Every sync of a configured source publishes exactly one event. A
  \<open>SourceSynced\<close> names the source's directory, and the tree on disk is then one the verifier has
  accepted; the caller gets nil exactly when the publisher took that event. A \<open>SourceFailed\<close>
  comes with an error that carries the sentinel of the phase it names. An unknown source changes
  nothing.
\<close>

theorem sync_once_outcome:
  "case by_source E name of
     None \<Rightarrow> sync_once E name w = (Some (wrap1 name (sentinel ErrUnknownSource)), w)
   | Some src \<Rightarrow>
       (\<exists>ev. sw_events (snd (sync_once E name w)) = sw_events w @ [ev]
         \<and> (case ev of
              SourceSynced n t p c \<Rightarrow>
                n = name \<and> safe_local_path (sy_data_dir E) name = Inr p
                \<and> sy_verify E name p (sw_disk (snd (sync_once E name w))) = None
                \<and> (fst (sync_once E name w) = None \<longleftrightarrow> sy_publish E (sw_events w) ev = None)
            | SourceFailed n t ty ph c \<Rightarrow>
                n = name \<and> (\<exists>e. fst (sync_once E name w) = Some e
                  \<and> list_ex (tree_is e) (phase_sentinels ph))))"
proof (cases "by_source E name")
  case None
  then show ?thesis
    by (simp add: sync_once_def)
next
  case (Some src)
  have name: "sc_name src = name"
    using by_source_name [OF Some] by simp
  have "sync_outcome E name w (sync_once E name w)"
  proof (cases "safe_local_path (sy_data_dir E) name")
    case (Inl err)
    then show ?thesis
      using Some safe_local_path_Inl [OF Inl]
      by (auto simp: sync_once_def sync_clock_def phase_sentinels_def intro!: outcome_failure)
  next
    case (Inr p)
    let ?c = "wrap64 (unix_nanos (sy_now E (sw_clock_reads w)))"
    let ?w1 = "w\<lparr>sw_clock_reads := Suc (sw_clock_reads w)\<rparr>"
    have "sync_outcome E name w (sync_local E src name p ?c ?w1)"
      using Inr name by (intro outcome_local) simp_all
    moreover have "sync_outcome E name w (sync_git E src name p auth ?c ?w1)" for auth
      using Inr name by (intro outcome_git) simp_all
    ultimately show ?thesis
      using Some Inr
      by (cases "resolve_auth E src")
         (simp_all add: sync_once_def sync_clock_def Let_def phase_sentinels_def outcome_failure)
  qed
  then show ?thesis
    using Some by (simp add: sync_outcome_def)
qed

section \<open>Containment\<close>

lemma verify_and_announce_ops [simp]:
  "sw_ops (snd (verify_and_announce E src name p c w)) = sw_ops w @ [OpVerify (sc_name src) p]"
  "sw_disk (snd (verify_and_announce E src name p c w)) = sw_disk w"
  by (auto simp: verify_and_announce_def sync_verify_signature_def split: option.split prod.split)

text \<open>
  Whatever the source is called, even with a name the validation would have
  refused, every path a sync stats, creates, clones into, pulls in or verifies lies strictly below
  the tools directory of the configured data directory.
\<close>

theorem sync_contained:
  "\<exists>ops. sw_ops (snd (sync_once E name w)) = sw_ops w @ ops
     \<and> list_all (\<lambda>p. below (tools_dir (sy_data_dir E)) (op_path p)) ops"
proof (cases "by_source E name")
  case None
  then show ?thesis
    by (simp add: sync_once_def)
next
  case (Some src)
  show ?thesis
  proof (cases "safe_local_path (sy_data_dir E) name")
    case (Inl err)
    then show ?thesis
      using Some by (simp add: sync_once_def sync_clock_def)
  next
    case (Inr p)
    have b: "below (tools_dir (sy_data_dir E)) p" "below (tools_dir (sy_data_dir E)) (path_join [p, ''.git''])"
      using safe_local_path_below [OF Inr] below_dot_git [OF Inr] by simp_all
    let ?c = "wrap64 (unix_nanos (sy_now E (sw_clock_reads w)))"
    let ?w1 = "w\<lparr>sw_clock_reads := Suc (sw_clock_reads w)\<rparr>"
    have L: "\<exists>ops. sw_ops (snd (sync_local E src name p ?c ?w1)) = sw_ops w @ ops
        \<and> list_all (\<lambda>p. below (tools_dir (sy_data_dir E)) (op_path p)) ops"
      using b by (auto simp: sync_local_def Let_def split: option.split)
    have G: "\<exists>ops. sw_ops (snd (sync_git E src name p auth ?c ?w1)) = sw_ops w @ ops
        \<and> list_all (\<lambda>p. below (tools_dir (sy_data_dir E)) (op_path p)) ops" for auth
      using b by (auto simp: sync_git_def Let_def split: option.split prod.split)
    show ?thesis
      using L G Some Inr by (cases "resolve_auth E src") (simp_all add: sync_once_def sync_clock_def Let_def)
  qed
qed

section \<open>What the failure events say\<close>

text \<open>
  \<open>leafErrType\<close> does not reach the leaf of an error wrapped together
  with a sentinel: whatever error the verifier returned, the \<open>SourceFailed\<close> event of the signature
  phase reports the type \<open>*fmt.wrapErrors\<close>, the internal wrapper the helper is written to see
  through.
\<close>

theorem signature_error_type:
  assumes "sw_events (snd (sync_once E name w)) = sw_events w @ [SourceFailed n t ty ''signature'' c]"
  shows "ty = ''*fmt.wrapErrors''"
proof -
  have V: "sw_events (snd (verify_and_announce E src nm p c' w1)) = sw_events w @ [SourceFailed n t ty ''signature'' c]
      \<Longrightarrow> sw_events w1 = sw_events w \<Longrightarrow> ty = ''*fmt.wrapErrors''" for src nm p c' w1
    by (auto simp: verify_and_announce_def sync_verify_signature_def wraps_def split: option.splits prod.splits)
  have "sw_events (snd (sync_local E src nm p c' w1)) = sw_events w @ [SourceFailed n t ty ''signature'' c]
      \<Longrightarrow> sw_events w1 = sw_events w \<Longrightarrow> ty = ''*fmt.wrapErrors''" for src nm p c' w1
    by (auto simp: sync_local_def Let_def split: option.splits if_splits dest!: V)
  moreover have "sw_events (snd (sync_git E src nm p a c' w1)) = sw_events w @ [SourceFailed n t ty ''signature'' c]
      \<Longrightarrow> sw_events w1 = sw_events w \<Longrightarrow> ty = ''*fmt.wrapErrors''" for src nm p a c' w1
    by (auto simp: sync_git_def Let_def split: option.splits if_splits prod.splits dest!: V)
  ultimately show ?thesis
    using assms
    by (auto simp: sync_once_def sync_clock_def Let_def split: option.splits sum.splits if_splits)
qed

section \<open>A refused source\<close>

text \<open>
  The verifier runs on the live directory, after clone or pull, and
  nothing undoes them: the disk a sync leaves is the one it would leave if every signature were
  accepted. So the snapshot of the next recompute, whichever source triggers it, does not depend on
  the verifier at all, and tools of a source whose signature was refused are served like any other.
\<close>

theorem verifier_cannot_withhold:
  "recompute cfg (scan_of (sw_disk (snd (sync_once E name w)))) now r
   = recompute cfg (scan_of (sw_disk (snd (sync_once (E\<lparr>sy_verify := \<lambda>_ _ _. None\<rparr>) name w)))) now r"
proof -
  let ?E = "E\<lparr>sy_verify := \<lambda>_ _ _. None\<rparr>"
  have "sw_disk (snd (sync_local E src n p c w1)) = sw_disk (snd (sync_local ?E src n p c w1))" for src n p c w1
    by (auto simp: sync_local_def Let_def split: option.split)
  moreover have "sw_disk (snd (sync_git E src n p a c w1)) = sw_disk (snd (sync_git ?E src n p a c w1))"
    for src n p a c w1
    by (auto simp: sync_git_def Let_def split: option.split prod.split)
  ultimately have "sw_disk (snd (sync_once E name w)) = sw_disk (snd (sync_once ?E name w))"
    by (auto simp: sync_once_def by_source_def sync_clock_def resolve_auth_def Let_def
        split: option.split sum.split)
  then show ?thesis
    by simp
qed

section \<open>Witnesses\<close>

text \<open>A git source not cloned yet, whose clone succeeds and whose signature is refused.\<close>

definition demo_sync_env :: "bool sync_env" where
  "demo_sync_env =
     \<lparr>sy_data_dir = ''/d'',
      sy_sources = [(demo_source ''a'')\<lparr>sc_kind := SourceKindGit, sc_url := ''u''\<rparr>],
      sy_stat = (\<lambda>p d. if d then None else Some (sentinel FsErrNotExist)),
      sy_mkdir_all = (\<lambda>p d. (None, d)),
      sy_clone = (\<lambda>c d. (None, True)),
      sy_pull = (\<lambda>c d. (None, d)),
      sy_verify = (\<lambda>n p d. Some (EVal ''*cosign.BadSignature'' (Text ''bad signature''))),
      sy_resolver = None, sy_now = (\<lambda>n. time_unix (int n)),
      sy_publish = (\<lambda>_ _. None), sy_logger = True\<rparr>"

definition demo_sync_world :: "bool sync_world" where
  "demo_sync_world = \<lparr>sw_disk = False, sw_clock_reads = 0, sw_events = [], sw_ops = [], sw_log = []\<rparr>"

theorem signature_error_type_witness:
  "map se_phase (sw_events (snd (sync_once demo_sync_env ''a'' demo_sync_world))) = [''signature'']
   \<and> map se_error_type (sw_events (snd (sync_once demo_sync_env ''a'' demo_sync_world))) = [''*fmt.wrapErrors'']"
proof -
  let ?evs = "sw_events (snd (sync_once demo_sync_env ''a'' demo_sync_world))"
  have ph: "map se_phase ?evs = [''signature'']" "list_all (\<lambda>e. case e of SourceFailed _ _ _ _ _ \<Rightarrow> True | _ \<Rightarrow> False) ?evs"
    by code_simp+
  then obtain ev where ev: "?evs = [ev]" "se_phase ev = ''signature''"
      "case ev of SourceFailed _ _ _ _ _ \<Rightarrow> True | _ \<Rightarrow> False"
    by auto
  then obtain n t ty c where evs: "?evs = [SourceFailed n t ty ''signature'' c]"
    by (cases ev) auto
  then have "ty = ''*fmt.wrapErrors''"
    by (intro signature_error_type [of demo_sync_env "''a''" demo_sync_world n t ty c])
       (simp add: demo_sync_world_def)
  then show ?thesis
    using evs by simp
qed

text \<open>The toolset a recompute builds afterwards has the refused source's tool.\<close>

definition demo_scan_of :: "bool \<Rightarrow> scan_env" where
  "demo_scan_of cloned =
     demo_scan_env\<lparr>ve_read_dir := (\<lambda>p. if cloned then ve_read_dir demo_scan_env p else Inl (sentinel FsErrNotExist))\<rparr>"

lemma refused_source_served:
  "map se_phase (sw_events (snd (sync_once demo_sync_env ''a'' demo_sync_world))) = [''signature'']"
  "toolset_names (Some (registry_snapshot (recompute demo_reg_cfg
     (demo_scan_of (sw_disk (snd (sync_once demo_sync_env ''a'' demo_sync_world)))) (time_unix 7) demo_reg0)))
   = [''t'', ''u'']"
  "toolset_names (Some (registry_snapshot (recompute demo_reg_cfg
     (demo_scan_of (sw_disk demo_sync_world)) (time_unix 7) demo_reg0))) = []"
  by code_simp+

end
