(* ===== verification/DryRun.thy ===== *)
theory DryRun
  imports ToolProposal ToolManifest "HOL-Library.AList"
begin

text \<open>
  The dry-run executor (\<open>core/pkg/approval/dryrun.go\<close>, with the event constructor of
  \<open>events.go\<close>): broker invocations and the request with their bounds, the per-deployment scope, the
  rewrite that contains a broker call, and \<open>Execute\<close> in its three modes. A Go map of arguments is an
  association list with distinct keys (its order stands for the iteration order, which nothing
  depends on). The scope resolver, the forwarder, the publisher, the clock and the answers of
  \<open>ctx.Err()\<close> are parameters; the world keeps what was asked of them, in order.
\<close>

section \<open>Sentinels and bounds\<close>

abbreviation ErrInvalidDryRunRequest :: string where
  "ErrInvalidDryRunRequest \<equiv> ''approval: invalid dry-run request''"
abbreviation ErrInvalidBrokerKind :: string where
  "ErrInvalidBrokerKind \<equiv> ''approval: invalid broker kind''"
abbreviation ErrInvalidBrokerInvocation :: string where
  "ErrInvalidBrokerInvocation \<equiv> ''approval: invalid broker invocation''"
abbreviation ErrInvalidBrokerArgs :: string where
  "ErrInvalidBrokerArgs \<equiv> ''approval: invalid broker invocation args''"
abbreviation ErrInvocationsExceedLimit :: string where
  "ErrInvocationsExceedLimit \<equiv> ''approval: dry-run invocations exceed per-request limit''"
abbreviation ErrPreApprovalWarning :: string where
  "ErrPreApprovalWarning \<equiv> ''approval: pre-approval warning''"
abbreviation ErrScopeResolution :: string where
  "ErrScopeResolution \<equiv> ''approval: scope resolution failed''"
abbreviation ErrEmptyResolvedScope :: string where
  "ErrEmptyResolvedScope \<equiv> ''approval: scope resolver returned empty value''"
abbreviation ErrInvalidDryRunScope :: string where
  "ErrInvalidDryRunScope \<equiv> ''approval: invalid scope''"
abbreviation ErrBrokerForward :: string where
  "ErrBrokerForward \<equiv> ''approval: broker forward failed''"
abbreviation ErrPublishDryRunExecuted :: string where
  "ErrPublishDryRunExecuted \<equiv> ''approval: publish tool_dry_run_executed failed''"
abbreviation ErrInvalidDisposition :: string where
  "ErrInvalidDisposition \<equiv> ''approval: invalid disposition''"

abbreviation MaxBrokerOpLength :: nat where "MaxBrokerOpLength \<equiv> 64"
abbreviation MaxBrokerArgCount :: nat where "MaxBrokerArgCount \<equiv> 16"
abbreviation MaxBrokerArgKeyLength :: nat where "MaxBrokerArgKeyLength \<equiv> 64"
abbreviation MaxBrokerArgValueLength :: nat where "MaxBrokerArgValueLength \<equiv> 1024"
abbreviation MaxInvocationsPerRequest :: nat where "MaxInvocationsPerRequest \<equiv> 32"

abbreviation BrokerSlack :: string where "BrokerSlack \<equiv> ''slack''"
abbreviation BrokerJira :: string where "BrokerJira \<equiv> ''jira''"
abbreviation DryRunModeGhost :: string where "DryRunModeGhost \<equiv> ''ghost''"
abbreviation DryRunModeScoped :: string where "DryRunModeScoped \<equiv> ''scoped''"
abbreviation DryRunModeNone :: string where "DryRunModeNone \<equiv> ''none''"
abbreviation DispositionGhosted :: string where "DispositionGhosted \<equiv> ''ghosted''"
abbreviation DispositionScoped :: string where "DispositionScoped \<equiv> ''scoped''"

section \<open>Invocations, scopes and requests\<close>

definition broker_kind_validate :: "string \<Rightarrow> goerr option" where
  "broker_kind_validate k =
     (if k = BrokerSlack \<or> k = BrokerJira then None else Some (errorf_is ErrInvalidBrokerKind []))"

record broker_invocation =
  bi_kind :: string
  bi_op :: string
  bi_args :: "(string \<times> string) list"

definition broker_arg_error :: "string \<times> string \<Rightarrow> goerr option" where
  "broker_arg_error kv =
     (if length (fst kv) > MaxBrokerArgKeyLength \<or> length (snd kv) > MaxBrokerArgValueLength
      then Some (errorf_is ErrInvalidBrokerArgs []) else None)"

fun broker_args_error :: "(string \<times> string) list \<Rightarrow> goerr option" where
  "broker_args_error [] = None"
| "broker_args_error (kv # kvs) =
     (case broker_arg_error kv of Some e \<Rightarrow> Some e | None \<Rightarrow> broker_args_error kvs)"

definition broker_invocation_validate :: "broker_invocation \<Rightarrow> goerr option" where
  "broker_invocation_validate b =
     (case broker_kind_validate (bi_kind b) of
        Some e \<Rightarrow> Some e
      | None \<Rightarrow>
          if blank (bi_op b) then Some (errorf_is ErrInvalidBrokerInvocation [])
          else if length (bi_op b) > MaxBrokerOpLength then Some (errorf_is ErrInvalidBrokerInvocation [])
          else if length (bi_args b) > MaxBrokerArgCount then Some (errorf_is ErrInvalidBrokerArgs [])
          else broker_args_error (bi_args b))"

record dry_scope =
  ds_lead_dm_channel :: string
  ds_jira_sandbox_project :: string

definition scope_validate :: "dry_scope \<Rightarrow> goerr option" where
  "scope_validate s =
     (if blank (ds_lead_dm_channel s) then Some (errorf_is ErrInvalidDryRunScope [])
      else if blank (ds_jira_sandbox_project s) then Some (errorf_is ErrInvalidDryRunScope [])
      else None)"

definition zero_scope :: dry_scope where
  "zero_scope = \<lparr>ds_lead_dm_channel = [], ds_jira_sandbox_project = []\<rparr>"

definition disposition_validate :: "string \<Rightarrow> goerr option" where
  "disposition_validate d =
     (if d = DispositionGhosted \<or> d = DispositionScoped then None
      else Some (errorf_is ErrInvalidDisposition []))"

record dry_outcome =
  oc_original :: broker_invocation
  oc_effective :: broker_invocation
  oc_disposition :: string
  oc_forward_err_msg :: string

record dry_trace =
  tc_proposal_id :: uuid
  tc_tool_name :: string
  tc_mode :: string
  tc_outcomes :: "dry_outcome list"
  tc_executed_at :: gotime
  tc_correlation_id :: string

record dry_request =
  rq_proposal_id :: uuid
  rq_tool_name :: string
  rq_mode :: string
  rq_invocations :: "broker_invocation list"

fun invocations_error :: "broker_invocation list \<Rightarrow> goerr option" where
  "invocations_error [] = None"
| "invocations_error (b # bs) =
     (case broker_invocation_validate b of
        Some e \<Rightarrow> Some (errorf ''invocations'' e)
      | None \<Rightarrow> invocations_error bs)"

definition request_validate :: "dry_request \<Rightarrow> goerr option" where
  "request_validate r =
     (if rq_proposal_id r = uuid_nil then Some (errorf_is ErrInvalidDryRunRequest [])
      else if blank (rq_tool_name r) then Some (errorf_is ErrInvalidDryRunRequest [])
      else if length (rq_tool_name r) > MaxToolNameLength then Some (errorf_is ErrInvalidDryRunRequest [])
      else case dry_run_mode_validate (rq_mode r) of
        Some e \<Rightarrow> Some (err_links e)
      | None \<Rightarrow>
          if length (rq_invocations r) > MaxInvocationsPerRequest
          then Some (errorf_is ErrInvocationsExceedLimit [])
          else invocations_error (rq_invocations r))"

section \<open>The rewrite\<close>

definition rewrite_for_scope :: "broker_invocation \<Rightarrow> dry_scope \<Rightarrow> goerr + broker_invocation" where
  "rewrite_for_scope call scope =
     (let args = (if bi_kind call = BrokerSlack
                  then AList.update ''channel'' (ds_lead_dm_channel scope) (bi_args call)
                  else if bi_kind call = BrokerJira
                  then AList.update ''project'' (ds_jira_sandbox_project scope) (bi_args call)
                  else bi_args call)
      in if length args > MaxBrokerArgCount then Inl (errorf_is ErrInvalidBrokerArgs [])
         else Inr \<lparr>bi_kind = bi_kind call, bi_op = bi_op call, bi_args = args\<rparr>)"

section \<open>The event\<close>

record dry_run_executed =
  dx_proposal_id :: uuid
  dx_tool_name :: string
  dx_mode :: string
  dx_broker_kind_counts :: "string \<rightharpoonup> nat"
  dx_invocation_count :: nat
  dx_executed_at :: gotime
  dx_correlation_id :: string

definition kind_counts :: "dry_outcome list \<Rightarrow> string \<rightharpoonup> nat" where
  "kind_counts os =
     foldl (\<lambda>m oc. let k = bi_kind (oc_original oc)
                   in m(k \<mapsto> Suc (case m k of Some n \<Rightarrow> n | None \<Rightarrow> 0))) Map.empty os"

definition new_dry_run_executed_event ::
  "dry_request \<Rightarrow> dry_outcome list \<Rightarrow> gotime \<Rightarrow> string \<Rightarrow> dry_run_executed" where
  "new_dry_run_executed_event req os executed_at corr =
     \<lparr>dx_proposal_id = rq_proposal_id req, dx_tool_name = rq_tool_name req, dx_mode = rq_mode req,
      dx_broker_kind_counts = kind_counts os, dx_invocation_count = length os,
      dx_executed_at = executed_at, dx_correlation_id = corr\<rparr>"

section \<open>The executor\<close>

text \<open>
  What one \<open>Execute\<close> asks of the outside, in order: a forward with whether it succeeded, the clock,
  a publish with whether it was accepted.
\<close>

datatype exec_op =
  ScopeLookup uuid
| Forwarded broker_invocation bool
| ClockRead
| Published dry_run_executed bool

record exec_world =
  xw_ctx_reads :: nat
  xw_ops :: "exec_op list"
  xw_log :: "(string \<times> uuid \<times> nat option) list"

record exec_env =
  xe_ctx_err :: "nat \<Rightarrow> goerr option"
  xe_scope_resolver :: "uuid \<Rightarrow> goerr + dry_scope"
  xe_forwarder :: "(exec_op list \<Rightarrow> broker_invocation \<Rightarrow> goerr option) option"
  xe_publish :: "dry_run_executed \<Rightarrow> goerr option"
  xe_now :: gotime
  xe_uuid_string :: "uuid \<Rightarrow> string"
  xe_error_text :: "goerr \<Rightarrow> string"
  xe_logger :: bool

definition exec_op_add :: "exec_op \<Rightarrow> exec_world \<Rightarrow> exec_world" where
  "exec_op_add p w = w\<lparr>xw_ops := xw_ops w @ [p]\<rparr>"

definition exec_ctx :: "exec_env \<Rightarrow> exec_world \<Rightarrow> goerr option \<times> exec_world" where
  "exec_ctx E w = (xe_ctx_err E (xw_ctx_reads w), w\<lparr>xw_ctx_reads := Suc (xw_ctx_reads w)\<rparr>)"

definition exec_log :: "exec_env \<Rightarrow> string \<Rightarrow> uuid \<Rightarrow> nat option \<Rightarrow> exec_world \<Rightarrow> exec_world" where
  "exec_log E msg i idx w = (if xe_logger E then w\<lparr>xw_log := xw_log w @ [(''approval: '' @ msg, i, idx)]\<rparr> else w)"

text \<open>\<open>Trace{}\<close> is \<open>None\<close>.\<close>

type_synonym exec_result = "dry_trace option \<times> goerr option"

definition make_trace :: "exec_env \<Rightarrow> dry_request \<Rightarrow> dry_outcome list \<Rightarrow> dry_trace" where
  "make_trace E req os =
     \<lparr>tc_proposal_id = rq_proposal_id req, tc_tool_name = rq_tool_name req, tc_mode = rq_mode req,
      tc_outcomes = os, tc_executed_at = xe_now E,
      tc_correlation_id = xe_uuid_string E (rq_proposal_id req)\<rparr>"

definition exec_publish ::
  "exec_env \<Rightarrow> dry_request \<Rightarrow> dry_outcome list \<Rightarrow> exec_world \<Rightarrow> goerr option \<times> exec_world" where
  "exec_publish E req os w =
     (let ev = new_dry_run_executed_event req os (xe_now E) (xe_uuid_string E (rq_proposal_id req));
          w1 = exec_op_add ClockRead w
      in case xe_publish E ev of
           Some e \<Rightarrow> (Some e, exec_op_add (Published ev False) w1)
         | None \<Rightarrow> (None, exec_op_add (Published ev True) w1))"

definition publish_trace ::
  "exec_env \<Rightarrow> dry_request \<Rightarrow> dry_outcome list \<Rightarrow> exec_world \<Rightarrow> exec_result \<times> exec_world" where
  "publish_trace E req os w =
     (case exec_publish E req os w of
        (Some e, w1) \<Rightarrow>
          ((None, Some (errorf_is ErrPublishDryRunExecuted e)),
           exec_log E ''publish tool_dry_run_executed failed'' (rq_proposal_id req) None w1)
      | (None, w1) \<Rightarrow> ((Some (make_trace E req os), None), w1))"

text \<open>\<open>errors.Join\<close> of the cause and the publish failure: both chains, one after the other.\<close>

definition publish_partial ::
  "exec_env \<Rightarrow> dry_request \<Rightarrow> dry_outcome list \<Rightarrow> goerr \<Rightarrow> exec_world \<Rightarrow> exec_result \<times> exec_world" where
  "publish_partial E req os cause w =
     (case exec_publish E req os w of
        (Some e, w1) \<Rightarrow>
          ((Some (make_trace E req os), Some (Text ''errors.Join'' # cause @ errorf_is ErrPublishDryRunExecuted e)),
           exec_log E ''publish tool_dry_run_executed (partial) failed'' (rq_proposal_id req) None w1)
      | (None, w1) \<Rightarrow> ((Some (make_trace E req os), Some cause), w1))"

definition execute_ghost :: "exec_env \<Rightarrow> dry_request \<Rightarrow> exec_world \<Rightarrow> exec_result \<times> exec_world" where
  "execute_ghost E req w =
     (let os = map (\<lambda>call. \<lparr>oc_original = call, oc_effective = call, oc_disposition = DispositionGhosted,
                           oc_forward_err_msg = []\<rparr>) (rq_invocations req)
      in case exec_ctx E w of
           (Some e, w1) \<Rightarrow> ((None, Some e), w1)
         | (None, w1) \<Rightarrow> publish_trace E req os w1)"

definition scoped_outcome :: "broker_invocation \<Rightarrow> broker_invocation \<Rightarrow> string \<Rightarrow> dry_outcome" where
  "scoped_outcome original effective msg =
     \<lparr>oc_original = original, oc_effective = effective, oc_disposition = DispositionScoped,
      oc_forward_err_msg = msg\<rparr>"

text \<open>The loop of \<open>executeScoped\<close> at index \<open>i\<close>, with the outcomes so far and \<open>sideEffectsFired\<close>.\<close>

fun scoped_loop ::
  "exec_env \<Rightarrow> dry_request \<Rightarrow> dry_scope \<Rightarrow> nat \<Rightarrow> dry_outcome list \<Rightarrow> bool \<Rightarrow> broker_invocation list
     \<Rightarrow> exec_world \<Rightarrow> exec_result \<times> exec_world"
where
  "scoped_loop E req scope i os fired [] w =
     (if fired then publish_trace E req os w
      else case exec_ctx E w of
        (Some e, w1) \<Rightarrow> ((None, Some e), w1)
      | (None, w1) \<Rightarrow> publish_trace E req os w1)"
| "scoped_loop E req scope i os fired (call # calls) w =
     (case exec_ctx E w of
        (Some e, w1) \<Rightarrow> if fired then publish_partial E req os e w1 else ((None, Some e), w1)
      | (None, w1) \<Rightarrow>
          (case rewrite_for_scope call scope of
             Inl e \<Rightarrow>
               if fired then publish_partial E req os e w1 else ((None, Some (errorf ''invocations'' e)), w1)
           | Inr effective \<Rightarrow>
               (case xe_forwarder E of
                  None \<Rightarrow> scoped_loop E req scope (Suc i) (os @ [scoped_outcome call effective []]) fired calls w1
                | Some forward \<Rightarrow>
                    (case forward (xw_ops w1) effective of
                       Some e \<Rightarrow>
                         let w2 = exec_log E ''broker forward failed'' (rq_proposal_id req) (Some i)
                                    (exec_op_add (Forwarded effective False) w1);
                             os' = os @ [scoped_outcome call effective (xe_error_text E e)];
                             wrapped = errorf_is ErrBrokerForward e
                         in if fired then publish_partial E req os' wrapped w2
                            else ((Some (make_trace E req os'), Some wrapped), exec_op_add ClockRead w2)
                     | None \<Rightarrow>
                         scoped_loop E req scope (Suc i) (os @ [scoped_outcome call effective []]) True calls
                           (exec_op_add (Forwarded effective True) w1)))))"

definition execute_scoped :: "exec_env \<Rightarrow> dry_request \<Rightarrow> exec_world \<Rightarrow> exec_result \<times> exec_world" where
  "execute_scoped E req w =
     (let w1 = exec_op_add (ScopeLookup (rq_proposal_id req)) w in
      case xe_scope_resolver E (rq_proposal_id req) of
        Inl e \<Rightarrow> ((None, Some (errorf_is ErrScopeResolution e)), w1)
      | Inr scope \<Rightarrow>
          if scope = zero_scope then ((None, Some [Sentinel ErrEmptyResolvedScope]), w1)
          else case scope_validate scope of
            Some e \<Rightarrow> ((None, Some e), w1)
          | None \<Rightarrow> scoped_loop E req scope 0 [] False (rq_invocations req) w1)"

definition execute :: "exec_env \<Rightarrow> dry_request \<Rightarrow> exec_world \<Rightarrow> exec_result \<times> exec_world" where
  "execute E req w =
     (case request_validate req of
        Some e \<Rightarrow> ((None, Some e), w)
      | None \<Rightarrow>
          (case exec_ctx E w of
             (Some e, w1) \<Rightarrow> ((None, Some e), w1)
           | (None, w1) \<Rightarrow>
               if rq_mode req = DryRunModeNone then ((None, Some (errorf_is ErrPreApprovalWarning [])), w1)
               else if rq_mode req = DryRunModeGhost then execute_ghost E req w1
               else if rq_mode req = DryRunModeScoped then execute_scoped E req w1
               else ((None, Some (errorf_is ErrInvalidDryRunMode [])), w1)))"

section \<open>What the rewrite guarantees\<close>

definition contained :: "dry_scope \<Rightarrow> broker_invocation \<Rightarrow> broker_invocation \<Rightarrow> bool" where
  "contained scope original call \<longleftrightarrow>
     bi_kind call = bi_kind original \<and> bi_op call = bi_op original
     \<and> length (bi_args call) \<le> MaxBrokerArgCount
     \<and> map_of (bi_args call) =
         (if bi_kind original = BrokerSlack
          then (map_of (bi_args original))(''channel'' \<mapsto> ds_lead_dm_channel scope)
          else if bi_kind original = BrokerJira
          then (map_of (bi_args original))(''project'' \<mapsto> ds_jira_sandbox_project scope)
          else map_of (bi_args original))"

lemma rewrite_contained: "rewrite_for_scope call scope = Inr effective \<Longrightarrow> contained scope call effective"
  by (auto simp: rewrite_for_scope_def contained_def Let_def update_conv' split: if_splits)

lemma kind_counts_snoc:
  "kind_counts (os @ [oc]) =
     (kind_counts os)(bi_kind (oc_original oc) \<mapsto>
        Suc (case kind_counts os (bi_kind (oc_original oc)) of Some n \<Rightarrow> n | None \<Rightarrow> 0))"
  by (simp add: kind_counts_def Let_def)

lemma kind_counts_count:
  "kind_counts os k =
     (let n = count_list (map (\<lambda>oc. bi_kind (oc_original oc)) os) k in if n = 0 then None else Some n)"
proof (induction os rule: rev_induct)
  case (snoc oc os)
  then show ?case
    by (cases "k = bi_kind (oc_original oc)") (auto simp: kind_counts_snoc Let_def split: if_splits)
qed (simp add: kind_counts_def)

lemma exec_world_simps [simp]:
  "xw_ops (exec_op_add p w) = xw_ops w @ [p]"
  "xw_ops (exec_log E msg i idx w) = xw_ops w"
  "xw_ops (snd (exec_ctx E w)) = xw_ops w"
  "exec_ctx E w = (r, w1) \<Longrightarrow> xw_ops w1 = xw_ops w"
  by (auto simp: exec_op_add_def exec_log_def exec_ctx_def)

definition exec_ok :: "exec_result \<times> exec_world \<Rightarrow> bool" where
  "exec_ok r \<longleftrightarrow> snd (fst r) = None"

lemma exec_ok_simps [simp]: "exec_ok ((t, e), w) \<longleftrightarrow> e = None"
  by (simp add: exec_ok_def)

lemma publish_ops:
  "\<exists>ok. xw_ops (snd (publish_trace E req os w)) = xw_ops w @
       [ClockRead, Published (new_dry_run_executed_event req os (xe_now E) (xe_uuid_string E (rq_proposal_id req))) ok]
     \<and> (exec_ok (publish_trace E req os w) \<longleftrightarrow> ok)"
  "\<exists>ok. xw_ops (snd (publish_partial E req os cause w)) = xw_ops w @
       [ClockRead, Published (new_dry_run_executed_event req os (xe_now E) (xe_uuid_string E (rq_proposal_id req))) ok]
     \<and> \<not> exec_ok (publish_partial E req os cause w)"
  by (auto simp: publish_trace_def publish_partial_def exec_publish_def Let_def split: option.split)

section \<open>The shape of a scoped run\<close>

text \<open>
  The forwards of a loop with a forwarder: they carry the rewritten calls in order, only the last
  can have failed, and once one has succeeded the run ends with the clock and the event, which
  counts the outcomes of before and every forward.
\<close>

definition forwards :: "(broker_invocation \<times> bool) list \<Rightarrow> exec_op list" where
  "forwards fw = map (\<lambda>(c, ok). Forwarded c ok) fw"

definition event_for :: "exec_env \<Rightarrow> dry_request \<Rightarrow> dry_outcome list \<Rightarrow> (broker_invocation \<times> bool) list \<Rightarrow> dry_run_executed \<Rightarrow> bool" where
  "event_for E req os fw ev \<longleftrightarrow>
     dx_proposal_id ev = rq_proposal_id req \<and> dx_mode ev = rq_mode req
     \<and> dx_invocation_count ev = length os + length fw
     \<and> (\<forall>k. (case dx_broker_kind_counts ev k of Some n \<Rightarrow> n | None \<Rightarrow> 0) =
            count_list (map (\<lambda>oc. bi_kind (oc_original oc)) os @ map (bi_kind \<circ> fst) fw) k)"

definition loop_shape ::
  "exec_env \<Rightarrow> dry_request \<Rightarrow> dry_scope \<Rightarrow> dry_outcome list \<Rightarrow> bool \<Rightarrow> broker_invocation list
     \<Rightarrow> exec_world \<Rightarrow> exec_result \<times> exec_world \<Rightarrow> bool"
where
  "loop_shape E req scope os fired calls w r \<longleftrightarrow>
     (\<exists>fw tail. xw_ops (snd r) = xw_ops w @ forwards fw @ tail
        \<and> list_all2 (contained scope) (take (length fw) calls) (map fst fw)
        \<and> list_all snd (butlast fw)
        \<and> (if fired \<or> list_ex snd fw
           then \<exists>ev ok. tail = [ClockRead, Published ev ok] \<and> event_for E req os fw ev
                  \<and> (exec_ok r \<longleftrightarrow> ok \<and> list_all snd fw \<and> length fw = length calls)
           else set tail \<subseteq> {ClockRead} \<union> range (\<lambda>(ev, ok). Published ev ok)))"

lemma event_for_new:
  "event_for E req os [] (new_dry_run_executed_event req os now corr)"
  "event_for E req os [(effective, ok)] (new_dry_run_executed_event req (os @ [scoped_outcome call effective msg]) now corr)"
  if "bi_kind effective = bi_kind call"
  using that by (simp_all add: event_for_def new_dry_run_executed_event_def kind_counts_count Let_def scoped_outcome_def)

lemma loop_shape_stop:
  assumes "fired"
  shows "loop_shape E req scope os fired (call # calls) w (publish_partial E req os cause w)"
proof -
  obtain ok where "xw_ops (snd (publish_partial E req os cause w)) = xw_ops w @
       [ClockRead, Published (new_dry_run_executed_event req os (xe_now E) (xe_uuid_string E (rq_proposal_id req))) ok]"
      "\<not> exec_ok (publish_partial E req os cause w)"
    using publish_ops(2) by blast
  then show ?thesis
    unfolding loop_shape_def
    using event_for_new(1) [OF refl] assms by (intro exI [of _ "[]"] exI [of _ "[ClockRead, Published
         (new_dry_run_executed_event req os (xe_now E) (xe_uuid_string E (rq_proposal_id req))) ok]"])
       (auto simp: forwards_def)
qed

lemma loop_shape_quit:
  "\<not> fired \<Longrightarrow> xw_ops w1 = xw_ops w \<Longrightarrow> loop_shape E req scope os fired calls w (res, w1)"
  by (auto simp: loop_shape_def forwards_def intro!: exI [of _ "[]"])

lemma loop_shape_ops: "xw_ops w1 = xw_ops w \<Longrightarrow> loop_shape E req scope os fired calls w1 r = loop_shape E req scope os fired calls w r"
  by (simp add: loop_shape_def)

lemma loop_shape_fail:
  assumes "contained scope call effective" "xw_ops w2 = xw_ops w @ [Forwarded effective False]"
  shows "fired \<Longrightarrow> loop_shape E req scope os fired (call # calls) w
      (publish_partial E req (os @ [scoped_outcome call effective msg]) cause w2)"
    "\<not> fired \<Longrightarrow> loop_shape E req scope os fired (call # calls) w ((tr, Some cause), exec_op_add ClockRead w2)"
proof -
  assume f: "fired"
  have k: "bi_kind effective = bi_kind call"
    using assms(1) by (simp add: contained_def)
  obtain ok where "xw_ops (snd (publish_partial E req (os @ [scoped_outcome call effective msg]) cause w2)) =
      xw_ops w @ forwards [(effective, False)] @
        [ClockRead, Published (new_dry_run_executed_event req (os @ [scoped_outcome call effective msg]) (xe_now E)
           (xe_uuid_string E (rq_proposal_id req))) ok]"
      "\<not> exec_ok (publish_partial E req (os @ [scoped_outcome call effective msg]) cause w2)"
    using publish_ops(2) [of E req "os @ [scoped_outcome call effective msg]" cause w2] assms(2)
    by (auto simp: forwards_def)
  then show "loop_shape E req scope os fired (call # calls) w
      (publish_partial E req (os @ [scoped_outcome call effective msg]) cause w2)"
    unfolding loop_shape_def
    using f assms(1) event_for_new(2) [OF k, of E req os False msg]
    by (intro exI [of _ "[(effective, False)]"]) auto
next
  assume "\<not> fired"
  then show "loop_shape E req scope os fired (call # calls) w ((tr, Some cause), exec_op_add ClockRead w2)"
    unfolding loop_shape_def
    using assms by (intro exI [of _ "[(effective, False)]"] exI [of _ "[ClockRead]"]) (auto simp: forwards_def)
qed

lemma event_for_Cons:
  assumes "event_for E req (os @ [scoped_outcome call effective msg]) fw ev" "bi_kind effective = bi_kind call"
  shows "event_for E req os ((effective, ok) # fw) ev"
  using assms by (auto simp: event_for_def scoped_outcome_def)

lemma loop_shape_next:
  assumes "contained scope call effective" "xw_ops w2 = xw_ops w @ [Forwarded effective True]"
    and "loop_shape E req scope (os @ [scoped_outcome call effective []]) True calls w2 r"
  shows "loop_shape E req scope os fired (call # calls) w r"
proof -
  obtain fw ev ok where r: "xw_ops (snd r) = xw_ops w2 @ forwards fw @ [ClockRead, Published ev ok]"
      "list_all2 (contained scope) (take (length fw) calls) (map fst fw)" "list_all snd (butlast fw)"
      "event_for E req (os @ [scoped_outcome call effective []]) fw ev"
      "exec_ok r \<longleftrightarrow> ok \<and> list_all snd fw \<and> length fw = length calls"
    using assms(3) by (auto simp: loop_shape_def)
  have "event_for E req os ((effective, True) # fw) ev"
    using r(4) assms(1) by (intro event_for_Cons) (auto simp: contained_def)
  then show ?thesis
    unfolding loop_shape_def
    using r assms(1,2)
    by (intro exI [of _ "(effective, True) # fw"] exI [of _ "[ClockRead, Published ev ok]"])
       (auto simp: forwards_def)
qed

lemma scoped_loop_shape:
  assumes "xe_forwarder E = Some forward"
  shows "loop_shape E req scope os fired calls w (scoped_loop E req scope i os fired calls w)"
proof (induction calls arbitrary: i os fired w)
  case Nil
  show ?case
  proof (cases "fired")
    case True
    then show ?thesis
      using publish_ops(1) [of E req os w] event_for_new(1) [OF refl]
      by (auto simp: loop_shape_def forwards_def intro!: exI [of _ "[]"])
  next
    case False
    obtain c w1 where c: "exec_ctx E w = (c, w1)"
      by (cases "exec_ctx E w")
    show ?thesis
    proof (cases c)
      case (Some e)
      then show ?thesis
        using c False by (simp add: loop_shape_quit)
    next
      case None
      then show ?thesis
        using c False publish_ops(1) [of E req os w1]
        by (auto simp: loop_shape_def forwards_def intro!: exI [of _ "[]"])
    qed
  qed
next
  case (Cons call calls)
  obtain c w1 where c: "exec_ctx E w = (c, w1)"
    by (cases "exec_ctx E w")
  then have w1: "xw_ops w1 = xw_ops w"
    by simp
  note stop = loop_shape_stop [of fired E req scope os call calls w1, unfolded loop_shape_ops [OF w1]]
  show ?case
  proof (cases c)
    case (Some e)
    then show ?thesis
      using c w1 stop loop_shape_quit by (cases fired) simp_all
  next
    case live: None
    show ?thesis
    proof (cases "rewrite_for_scope call scope")
      case (Inl e)
      then show ?thesis
        using c w1 live stop loop_shape_quit by (cases fired) simp_all
    next
      case (Inr effective)
      have k: "contained scope call effective"
        using Inr by (rule rewrite_contained)
      show ?thesis
      proof (cases "forward (xw_ops w1) effective")
        case None
        have "loop_shape E req scope os fired (call # calls) w
            (scoped_loop E req scope (Suc i) (os @ [scoped_outcome call effective []]) True calls
               (exec_op_add (Forwarded effective True) w1))"
          by (rule loop_shape_next [OF k _ Cons.IH]) (simp add: w1)
        then show ?thesis
          using c live Inr None assms by simp
      next
        case (Some e)
        then show ?thesis
          using c live Inr assms w1 loop_shape_fail [OF k] by (cases fired) (simp_all add: Let_def)
      qed
    qed
  qed
qed

section \<open>The executor's guarantees\<close>

definition new_ops :: "exec_env \<Rightarrow> dry_request \<Rightarrow> exec_world \<Rightarrow> exec_op list" where
  "new_ops E req w = drop (length (xw_ops w)) (xw_ops (snd (execute E req w)))"

text \<open>Runs that forward nothing.\<close>

definition quiet :: "exec_world \<Rightarrow> exec_result \<times> exec_world \<Rightarrow> bool" where
  "quiet w r \<longleftrightarrow> (\<exists>tail. xw_ops (snd r) = xw_ops w @ tail \<and> (\<forall>c k. Forwarded c k \<notin> set tail))"

lemma quiet_same: "xw_ops (snd r) = xw_ops w \<Longrightarrow> quiet w r"
  by (simp add: quiet_def)

lemma quiet_ops: "xw_ops w1 = xw_ops w \<Longrightarrow> quiet w1 r \<Longrightarrow> quiet w r"
  by (simp add: quiet_def)

lemma quiet_publish: "quiet w (publish_trace E req os w)" "quiet w (publish_partial E req os cause w)"
  using publish_ops(1) [of E req os w] publish_ops(2) [of E req os cause w] by (fastforce simp: quiet_def)+

lemma scoped_loop_no_forwarder:
  "xe_forwarder E = None \<Longrightarrow> quiet w (scoped_loop E req scope i os fired calls w)"
proof (induction calls arbitrary: i os w)
  case Nil
  obtain c w1 where "exec_ctx E w = (c, w1)"
    by (cases "exec_ctx E w")
  then show ?case
    using quiet_publish(1) [of w E req os] quiet_ops [of w1 w] quiet_publish(1) [of w1 E req os]
    by (auto intro: quiet_same split: option.split)
next
  case (Cons call calls)
  obtain c w1 where "exec_ctx E w = (c, w1)"
    by (cases "exec_ctx E w")
  then show ?case
    using Cons quiet_ops [of w1 w] quiet_publish(2) [of w1 E req os]
    by (auto intro: quiet_same split: option.split sum.split)
qed

lemma execute_ghost_ops: "quiet w (execute_ghost E req w)"
proof -
  obtain c w1 where "exec_ctx E w = (c, w1)"
    by (cases "exec_ctx E w")
  then show ?thesis
    using quiet_ops [of w1 w] quiet_publish(1) [of w1 E req]
    by (auto simp: execute_ghost_def Let_def intro: quiet_same split: option.split)
qed

text \<open>Where a forward comes from: the loop of a validated scoped request with a valid scope.\<close>

lemma forward_in_loop:
  assumes "Forwarded call k \<in> set (new_ops E req w)"
  obtains scope w1 forward where
    "request_validate req = None" "rq_mode req = DryRunModeScoped"
    "xe_scope_resolver E (rq_proposal_id req) = Inr scope" "scope_validate scope = None"
    "xw_ops w1 = xw_ops w @ [ScopeLookup (rq_proposal_id req)]" "xe_forwarder E = Some forward"
    "execute E req w = scoped_loop E req scope 0 [] False (rq_invocations req) w1"
proof -
  have valid: "request_validate req = None"
    using assms by (cases "request_validate req") (auto simp: new_ops_def execute_def)
  obtain c w1 where c: "exec_ctx E w = (c, w1)"
    by (cases "exec_ctx E w")
  have w1: "xw_ops w1 = xw_ops w"
    using c by simp
  have live: "c = None"
    using assms c valid w1 by (cases c) (auto simp: new_ops_def execute_def)
  have ghost: "rq_mode req \<noteq> DryRunModeGhost"
    using assms c valid live w1 execute_ghost_ops [of w1 E req] by (auto simp: new_ops_def execute_def quiet_def)
  have mode: "rq_mode req = DryRunModeScoped"
    using assms c valid live w1 ghost by (auto simp: new_ops_def execute_def split: if_splits)
  let ?w2 = "exec_op_add (ScopeLookup (rq_proposal_id req)) w1"
  have ex: "execute E req w = execute_scoped E req w1"
    using valid c live mode by (simp add: execute_def)
  obtain scope where scope: "xe_scope_resolver E (rq_proposal_id req) = Inr scope"
      "scope \<noteq> zero_scope" "scope_validate scope = None"
    using assms w1 unfolding new_ops_def ex
    by (cases "xe_scope_resolver E (rq_proposal_id req)")
       (auto simp: execute_scoped_def Let_def split: if_splits option.splits)
  then have loop: "execute E req w = scoped_loop E req scope 0 [] False (rq_invocations req) ?w2"
    by (simp add: ex execute_scoped_def Let_def)
  obtain forward where "xe_forwarder E = Some forward"
  proof (cases "xe_forwarder E")
    case None
    then show ?thesis
      using assms w1 scoped_loop_no_forwarder [OF None, of ?w2 req scope 0 "[]" False "rq_invocations req"]
      by (auto simp: new_ops_def loop quiet_def)
  qed
  then show ?thesis
    using valid mode scope loop w1 that [of scope ?w2] by simp
qed

text \<open>
  C37: A dry run reaches no broker except in the scoped mode, and then only the
  contained surface: every call handed to the forwarder is one of the request's calls, with its
  channel forced to the lead's direct message channel (Slack) or its project to the sandbox project
  (Jira) of a validated scope resolved for this proposal, all its other arguments as they were, and
  never more arguments than the bound.
\<close>

theorem dry_run_contained:
  assumes "Forwarded call k \<in> set (drop (length (xw_ops w)) (xw_ops (snd (execute E req w))))"
  shows "rq_mode req = DryRunModeScoped
    \<and> (\<exists>scope original. xe_scope_resolver E (rq_proposal_id req) = Inr scope
        \<and> \<not> blank (ds_lead_dm_channel scope) \<and> \<not> blank (ds_jira_sandbox_project scope)
        \<and> original \<in> set (rq_invocations req)
        \<and> bi_kind call = bi_kind original \<and> bi_op call = bi_op original
        \<and> length (bi_args call) \<le> MaxBrokerArgCount
        \<and> map_of (bi_args call) =
            (if bi_kind original = BrokerSlack
             then (map_of (bi_args original))(''channel'' \<mapsto> ds_lead_dm_channel scope)
             else (map_of (bi_args original))(''project'' \<mapsto> ds_jira_sandbox_project scope)))"
proof -
  have "Forwarded call k \<in> set (new_ops E req w)"
    using assms by (simp add: new_ops_def)
  then obtain scope w1 forward where f:
    "request_validate req = None" "rq_mode req = DryRunModeScoped"
    "xe_scope_resolver E (rq_proposal_id req) = Inr scope" "scope_validate scope = None"
    "xw_ops w1 = xw_ops w @ [ScopeLookup (rq_proposal_id req)]" "xe_forwarder E = Some forward"
    "execute E req w = scoped_loop E req scope 0 [] False (rq_invocations req) w1"
    by (rule forward_in_loop)
  have "loop_shape E req scope [] False (rq_invocations req) w1 (execute E req w)"
    unfolding f(7) by (rule scoped_loop_shape [OF f(6)])
  then obtain fw tail where ops: "xw_ops (snd (execute E req w)) = xw_ops w1 @ forwards fw @ tail"
      "list_all2 (contained scope) (take (length fw) (rq_invocations req)) (map fst fw)"
      "if list_ex snd fw
       then \<exists>ev ok. tail = [ClockRead, Published ev ok] \<and> event_for E req [] fw ev
              \<and> (exec_ok (execute E req w) \<longleftrightarrow> ok \<and> list_all snd fw \<and> length fw = length (rq_invocations req))
       else set tail \<subseteq> {ClockRead} \<union> range (\<lambda>(ev, ok). Published ev ok)"
    unfolding loop_shape_def by auto
  have "Forwarded call k \<notin> set tail"
    using ops(3) by (cases "list_ex snd fw") auto
  with ops have "Forwarded call k \<in> set (forwards fw)"
    using assms f(5) by auto
  then have "call \<in> set (map fst fw)"
    by (force simp: forwards_def)
  then obtain i where "i < length (map fst fw)" "map fst fw ! i = call"
    by (auto simp: in_set_conv_nth)
  then have cont: "contained scope (take (length fw) (rq_invocations req) ! i) call"
      and i: "i < length (take (length fw) (rq_invocations req))"
    using ops(2) by (auto simp: list_all2_conv_all_nth)
  have orig: "take (length fw) (rq_invocations req) ! i \<in> set (rq_invocations req)"
    using i by (meson in_set_takeD nth_mem)
  have bad: "invocations_error bs = None \<Longrightarrow> b \<in> set bs \<Longrightarrow> bi_kind b = BrokerSlack \<or> bi_kind b = BrokerJira" for b bs
    by (induction bs) (auto simp: broker_invocation_validate_def broker_kind_validate_def split: option.splits if_splits)
  have "invocations_error (rq_invocations req) = None"
    using f(1) by (auto simp: request_validate_def split: if_splits option.splits)
  then show ?thesis
    using f(2-4) cont orig bad [OF _ orig]
    by (intro conjI exI [of _ scope] exI [of _ "take (length fw) (rq_invocations req) ! i"])
       (auto simp: contained_def scope_validate_def split: if_splits)
qed

text \<open>
  Once a forward has succeeded the record of it cannot be skipped, whatever
  fails or is cancelled afterwards: the run ends by reading the clock and offering exactly one event,
  which counts every forward that was made, by kind, the failed last one included. \<open>Execute\<close> returns
  nil exactly when every call was forwarded and the event was accepted. The timestamp is read after
  the forwards, at the end of the run.
\<close>

theorem dry_run_audited:
  assumes "Forwarded call True \<in> set (drop (length (xw_ops w)) (xw_ops (snd (execute E req w))))"
  shows "\<exists>fw ev ok.
      xw_ops (snd (execute E req w)) =
        xw_ops w @ ScopeLookup (rq_proposal_id req) # map (\<lambda>(c, k). Forwarded c k) fw @ [ClockRead, Published ev ok]
      \<and> list_all snd (butlast fw)
      \<and> dx_proposal_id ev = rq_proposal_id req \<and> dx_invocation_count ev = length fw
      \<and> (\<forall>k. (case dx_broker_kind_counts ev k of Some n \<Rightarrow> n | None \<Rightarrow> 0)
             = count_list (map (bi_kind \<circ> fst) fw) k)
      \<and> (snd (fst (execute E req w)) = None
          \<longleftrightarrow> ok \<and> list_all snd fw \<and> length fw = length (rq_invocations req))"
proof -
  have "Forwarded call True \<in> set (new_ops E req w)"
    using assms by (simp add: new_ops_def)
  then obtain scope w1 forward where f:
    "xw_ops w1 = xw_ops w @ [ScopeLookup (rq_proposal_id req)]" "xe_forwarder E = Some forward"
    "execute E req w = scoped_loop E req scope 0 [] False (rq_invocations req) w1"
    by (rule forward_in_loop)
  have "loop_shape E req scope [] False (rq_invocations req) w1 (execute E req w)"
    unfolding f(3) by (rule scoped_loop_shape [OF f(2)])
  then obtain fw tail where ops: "xw_ops (snd (execute E req w)) = xw_ops w1 @ forwards fw @ tail"
      "list_all snd (butlast fw)"
      "if list_ex snd fw
       then \<exists>ev ok. tail = [ClockRead, Published ev ok] \<and> event_for E req [] fw ev
              \<and> (exec_ok (execute E req w) \<longleftrightarrow> ok \<and> list_all snd fw \<and> length fw = length (rq_invocations req))
       else set tail \<subseteq> {ClockRead} \<union> range (\<lambda>(ev, ok). Published ev ok)"
    unfolding loop_shape_def by auto
  have "(call, True) \<in> set fw"
    using assms ops(1,3) f(1) by (auto simp: forwards_def split: if_splits)
  then have "list_ex snd fw"
    by (force simp: list_ex_iff)
  then obtain ev ok where ev: "tail = [ClockRead, Published ev ok]" "event_for E req [] fw ev"
      "exec_ok (execute E req w) \<longleftrightarrow> ok \<and> list_all snd fw \<and> length fw = length (rq_invocations req)"
    using ops(3) by auto
  then show ?thesis
    using ev ops(1,2) f(1)
    by (intro exI [of _ fw] exI [of _ ev] exI [of _ ok]) (auto simp: event_for_def forwards_def exec_ok_def)
qed

section \<open>Witnesses\<close>

text \<open>A Slack and a Jira call under the scoped mode; the second forward fails.\<close>

definition demo_slack :: broker_invocation where
  "demo_slack = \<lparr>bi_kind = BrokerSlack, bi_op = ''send'', bi_args = [(''channel'', ''general''), (''text'', ''hi'')]\<rparr>"

definition demo_jira :: broker_invocation where
  "demo_jira = \<lparr>bi_kind = BrokerJira, bi_op = ''create'', bi_args = [(''summary'', ''s'')]\<rparr>"

definition demo_dry_request :: dry_request where
  "demo_dry_request = \<lparr>rq_proposal_id = 7, rq_tool_name = ''t'', rq_mode = DryRunModeScoped,
     rq_invocations = [demo_slack, demo_jira]\<rparr>"

definition demo_exec_env :: exec_env where
  "demo_exec_env = \<lparr>xe_ctx_err = (\<lambda>_. None),
     xe_scope_resolver = (\<lambda>_. Inr \<lparr>ds_lead_dm_channel = ''D1'', ds_jira_sandbox_project = ''SBX''\<rparr>),
     xe_forwarder = Some (\<lambda>_ c. if bi_kind c = BrokerJira then Some [Text ''down''] else None),
     xe_publish = (\<lambda>_. None), xe_now = time_unix 3, xe_uuid_string = (\<lambda>_. ''u''),
     xe_error_text = (\<lambda>_. ''down''), xe_logger = False\<rparr>"

definition demo_exec_world :: exec_world where
  "demo_exec_world = \<lparr>xw_ctx_reads = 0, xw_ops = [], xw_log = []\<rparr>"

text \<open>The forwards of a run, and what its event counts.\<close>

definition op_view :: "exec_op \<Rightarrow> (broker_invocation \<times> bool) list + nat \<times> bool" where
  "op_view p = (case p of Forwarded c k \<Rightarrow> Inl [(c, k)] | Published ev ok \<Rightarrow> Inr (dx_invocation_count ev, ok) | _ \<Rightarrow> Inl [])"

definition demo_slack_scoped :: broker_invocation where
  "demo_slack_scoped = demo_slack\<lparr>bi_args := [(''channel'', ''D1''), (''text'', ''hi'')]\<rparr>"

definition demo_jira_scoped :: broker_invocation where
  "demo_jira_scoped = demo_jira\<lparr>bi_args := [(''summary'', ''s''), (''project'', ''SBX'')]\<rparr>"

lemma demo_dry_ops:
  "map op_view (xw_ops (snd (execute demo_exec_env demo_dry_request demo_exec_world))) =
     [Inl [], Inl [(demo_slack_scoped, True)], Inl [(demo_jira_scoped, False)], Inl [], Inr (2, True)]"
  by code_simp

lemma demo_dry_forwarded:
  "Forwarded demo_slack_scoped True \<in>
     set (drop (length (xw_ops demo_exec_world)) (xw_ops (snd (execute demo_exec_env demo_dry_request demo_exec_world))))"
proof -
  have "Inl [(demo_slack_scoped, True)] \<in>
      op_view ` set (xw_ops (snd (execute demo_exec_env demo_dry_request demo_exec_world)))"
    using arg_cong [OF demo_dry_ops, of set] by simp
  then obtain p where "p \<in> set (xw_ops (snd (execute demo_exec_env demo_dry_request demo_exec_world)))"
      "op_view p = Inl [(demo_slack_scoped, True)]"
    by fastforce
  moreover have "op_view p = Inl [(c, k)] \<Longrightarrow> p = Forwarded c k" for c k
    by (cases p) (auto simp: op_view_def)
  ultimately show ?thesis
    by (simp add: demo_exec_world_def)
qed

theorem dry_run_contained_witness:
  "rq_mode demo_dry_request = DryRunModeScoped
   \<and> (\<exists>original \<in> set (rq_invocations demo_dry_request).
        map_of (bi_args demo_slack_scoped) = (map_of (bi_args original))(''channel'' \<mapsto> ''D1''))"
  using dry_run_contained [OF demo_dry_forwarded]
  by (auto simp: demo_exec_env_def demo_slack_scoped_def demo_slack_def demo_dry_request_def demo_jira_def
      split: if_splits)

theorem dry_run_audited_witness:
  "\<exists>fw ev ok.
     xw_ops (snd (execute demo_exec_env demo_dry_request demo_exec_world)) =
       ScopeLookup 7 # map (\<lambda>(c, k). Forwarded c k) fw @ [ClockRead, Published ev ok]
     \<and> dx_invocation_count ev = length fw \<and> dx_proposal_id ev = 7"
  using dry_run_audited [OF demo_dry_forwarded]
  by (auto simp: demo_exec_world_def demo_dry_request_def)

end
