(* ===== verification/SpawnSteps.thy ===== *)
theory SpawnSteps
  imports SpawnKickoff
begin

text \<open>
  The bodies of the saga steps (\<^verbatim>\<open>core/pkg/spawn\<close>: \<^verbatim>\<open>createapp_step.go\<close>,
  \<^verbatim>\<open>oauthinstall_step.go\<close>, \<^verbatim>\<open>botprofile_step.go\<close>, \<^verbatim>\<open>notebookprovision_step.go\<close>,
  \<^verbatim>\<open>runtimelaunch_step.go\<close>, \<^verbatim>\<open>notebookarchive_step.go\<close>, \<^verbatim>\<open>markretired_step.go\<close>) and the
  credential store two of them share (\<^verbatim>\<open>watchkeeper_creds.go\<close>, \<^verbatim>\<open>watchkeeper_creds_memory.go\<close>).
  A step is a value of the runner's step type over a world that holds the store, the platform behind
  the seams, and the seam calls made so far. The seams are parameters; the in-process callbacks they
  are handed (the credential and token sinks) are the code's and are modelled.
\<close>

section \<open>The credential store\<close>

record create_app_credentials =
  cc_app_id :: string
  cc_client_id :: string
  cc_client_secret :: string
  cc_verification_token :: string
  cc_signing_secret :: string

abbreviation ErrCredsAlreadyStored :: string where
  "ErrCredsAlreadyStored \<equiv> ''spawn: watchkeeper slack app creds already stored''"

abbreviation ErrCredsNotFound :: string where
  "ErrCredsNotFound \<equiv> ''spawn: watchkeeper slack app creds not found''"

text \<open>The interface. An expiry of \<open>None\<close> is the zero \<open>time.Time\<close>.\<close>

record 'd creds_dao =
  cd_put :: "'d \<Rightarrow> uuid \<Rightarrow> create_app_credentials \<Rightarrow> 'd \<times> goerr option"
  cd_get :: "'d \<Rightarrow> uuid \<Rightarrow> goerr + create_app_credentials"
  cd_put_install_tokens ::
    "'d \<Rightarrow> uuid \<Rightarrow> string \<Rightarrow> string \<Rightarrow> string \<Rightarrow> gotime option \<Rightarrow> 'd \<times> goerr option"
  cd_wipe_install_tokens :: "'d \<Rightarrow> uuid \<Rightarrow> 'd \<times> goerr option"

record memory_install_tokens =
  mt_bot_ct :: string
  mt_user_ct :: string
  mt_refresh_ct :: string
  mt_expires_at :: "gotime option"
  mt_installed_at :: gotime

record mem_creds =
  mc_rows :: "uuid \<rightharpoonup> create_app_credentials"
  mc_tokens :: "uuid \<rightharpoonup> memory_install_tokens"
  mc_clock :: "nat \<Rightarrow> gotime"
  mc_ticks :: nat

definition new_mem_creds :: "(nat \<Rightarrow> gotime) \<Rightarrow> mem_creds" where
  "new_mem_creds now = \<lparr>mc_rows = Map.empty, mc_tokens = Map.empty, mc_clock = now, mc_ticks = 0\<rparr>"

definition mem_creds_put :: "mem_creds \<Rightarrow> uuid \<Rightarrow> create_app_credentials \<Rightarrow> mem_creds \<times> goerr option" where
  "mem_creds_put m i creds =
     (case mc_rows m i of
        Some _ \<Rightarrow> (m, Some [Sentinel ErrCredsAlreadyStored])
      | None \<Rightarrow> (m\<lparr>mc_rows := (mc_rows m)(i \<mapsto> creds)\<rparr>, None))"

definition mem_creds_get :: "mem_creds \<Rightarrow> uuid \<Rightarrow> goerr + create_app_credentials" where
  "mem_creds_get m i =
     (case mc_rows m i of None \<Rightarrow> Inl [Sentinel ErrCredsNotFound] | Some creds \<Rightarrow> Inr creds)"

definition mem_creds_put_install_tokens ::
  "mem_creds \<Rightarrow> uuid \<Rightarrow> string \<Rightarrow> string \<Rightarrow> string \<Rightarrow> gotime option \<Rightarrow> mem_creds \<times> goerr option" where
  "mem_creds_put_install_tokens m i bot_ct user_ct refresh_ct expires_at =
     (case mc_rows m i of
        None \<Rightarrow> (m, Some [Sentinel ErrCredsNotFound])
      | Some _ \<Rightarrow>
          (m\<lparr>mc_tokens := (mc_tokens m)(i \<mapsto>
               \<lparr>mt_bot_ct = bot_ct, mt_user_ct = user_ct, mt_refresh_ct = refresh_ct,
                mt_expires_at = expires_at, mt_installed_at = mc_clock m (mc_ticks m)\<rparr>),
             mc_ticks := Suc (mc_ticks m)\<rparr>, None))"

definition mem_creds_get_install_tokens :: "mem_creds \<Rightarrow> uuid \<Rightarrow> memory_install_tokens option" where
  "mem_creds_get_install_tokens m i = mc_tokens m i"

definition mem_creds_wipe_install_tokens :: "mem_creds \<Rightarrow> uuid \<Rightarrow> mem_creds \<times> goerr option" where
  "mem_creds_wipe_install_tokens m i = (m\<lparr>mc_tokens := (mc_tokens m)(i := None)\<rparr>, None)"

definition mem_creds_ops :: "mem_creds creds_dao" where
  "mem_creds_ops =
     \<lparr>cd_put = mem_creds_put, cd_get = mem_creds_get,
      cd_put_install_tokens = mem_creds_put_install_tokens,
      cd_wipe_install_tokens = mem_creds_wipe_install_tokens\<rparr>"

lemma mem_creds_ops_simps [simp]:
  "cd_put mem_creds_ops = mem_creds_put"
  "cd_get mem_creds_ops = mem_creds_get"
  "cd_put_install_tokens mem_creds_ops = mem_creds_put_install_tokens"
  "cd_wipe_install_tokens mem_creds_ops = mem_creds_wipe_install_tokens"
  by (simp_all add: mem_creds_ops_def)

section \<open>The world of a step\<close>

text \<open>The calls on the seams, with what identifies them.\<close>

datatype seam_call =
    CallCreateApp string
  | CallTeardownApp uuid string
  | CallInstallApp string
  | CallRevoke uuid string
  | CallSetBotProfile uuid
  | CallProvisionNotebook uuid
  | CallArchiveAndFlag uuid
  | CallLaunchRuntime uuid uuid
  | CallTeardownRuntime uuid uuid
  | CallArchiveNotebook uuid
  | CallMarkRetired uuid string

record ('d, 'w) step_world =
  st_creds :: 'd
  st_env :: 'w
  st_ctx_reads :: nat
  st_clock_reads :: nat
  st_calls :: "seam_call list"

definition step_call :: "seam_call \<Rightarrow> ('d, 'w) step_world \<Rightarrow> ('d, 'w) step_world" where
  "step_call a w = w\<lparr>st_calls := st_calls w @ [a]\<rparr>"

text \<open>One reading of \<open>ctx.Err()\<close>.\<close>

definition step_ctx_err ::
  "'z ctx_scheme \<Rightarrow> ('d, 'w) step_world \<Rightarrow> goerr option \<times> ('d, 'w) step_world" where
  "step_ctx_err c w = (ctx_err c (st_ctx_reads w), w\<lparr>st_ctx_reads := Suc (st_ctx_reads w)\<rparr>)"

abbreviation ErrMissingSpawnContext :: string where
  "ErrMissingSpawnContext \<equiv> ''spawn: create_app step: missing SpawnContext''"

abbreviation ErrMissingManifestVersion :: string where
  "ErrMissingManifestVersion \<equiv> ''spawn: create_app step: missing manifest_version_id''"

abbreviation ErrMissingAgentID :: string where
  "ErrMissingAgentID \<equiv> ''spawn: create_app step: missing agent_id''"

text \<open>
  The checks every body opens with: the spawn context is there, and the ids the step uses are not
  zero. \<open>msg\<close> is the prefix the step wraps its errors with.
\<close>

definition require_agent :: "string \<Rightarrow> 'z spawn_ctx_scheme \<Rightarrow> goerr + spawn_context" where
  "require_agent msg c =
     (case spawn_context_from_context c of
        None \<Rightarrow> Inl (errorf msg [Sentinel ErrMissingSpawnContext])
      | Some sc \<Rightarrow>
          if sx_agent_id sc = uuid_nil then Inl (errorf msg [Sentinel ErrMissingAgentID]) else Inr sc)"

definition require_manifest_agent :: "string \<Rightarrow> 'z spawn_ctx_scheme \<Rightarrow> goerr + spawn_context" where
  "require_manifest_agent msg c =
     (case spawn_context_from_context c of
        None \<Rightarrow> Inl (errorf msg [Sentinel ErrMissingSpawnContext])
      | Some sc \<Rightarrow>
          if sx_manifest_version_id sc = uuid_nil then Inl (errorf msg [Sentinel ErrMissingManifestVersion])
          else if sx_agent_id sc = uuid_nil then Inl (errorf msg [Sentinel ErrMissingAgentID])
          else Inr sc)"

text \<open>
  A seam that is handed a callback either answers without calling it, or calls it once and answers
  with a function of what the callback returned.
\<close>

datatype 'a sink_call = SinkSkipped "goerr option" | SinkCalled 'a "goerr option \<Rightarrow> goerr option"

section \<open>\<open>create_app\<close>\<close>

record create_app_request =
  cr_agent_id :: string
  cr_app_name :: string
  cr_app_description :: string
  cr_scopes :: "string list"
  cr_approval_token :: string

text \<open>
  \<open>ca_installer\<close> is the RPC with the step's sink installed, for an RPC that can install one;
  \<open>ca_rpc\<close> the plain one. The teardown seam may work on the store.
\<close>

record ('c, 'd, 'w) create_app_deps =
  ca_rpc :: "'c \<Rightarrow> create_app_request \<Rightarrow> spawn_claim \<Rightarrow> 'w \<Rightarrow> goerr option \<times> 'w"
  ca_installer ::
    "('c \<Rightarrow> create_app_request \<Rightarrow> spawn_claim \<Rightarrow> 'w \<Rightarrow> create_app_credentials sink_call \<times> 'w) option"
  ca_creds_dao :: "'d creds_dao"
  ca_teardown :: "'c \<Rightarrow> uuid \<Rightarrow> string \<Rightarrow> 'd \<Rightarrow> 'w \<Rightarrow> goerr option \<times> 'd \<times> 'w"
  ca_app_name :: string
  ca_app_description :: string
  ca_scopes :: "string list"
  ca_approval_token :: string

definition create_app_msg :: string where "create_app_msg = ''spawn: create_app step''"

definition teardown_app ::
  "('c, 'd, 'w) create_app_deps \<Rightarrow> 'c \<Rightarrow> uuid \<Rightarrow> string \<Rightarrow> ('d, 'w) step_world
     \<Rightarrow> goerr option \<times> ('d, 'w) step_world" where
  "teardown_app D c i app w =
     (case ca_teardown D c i app (st_creds w) (st_env w) of
        (r, d, e) \<Rightarrow> (r, step_call (CallTeardownApp i app) (w\<lparr>st_creds := d, st_env := e\<rparr>)))"

definition create_app_sink ::
  "('c, 'd, 'w) create_app_deps \<Rightarrow> uuid \<Rightarrow> create_app_credentials \<Rightarrow> ('d, 'w) step_world
     \<Rightarrow> goerr option \<times> ('d, 'w) step_world" where
  "create_app_sink D i creds w =
     (case cd_put (ca_creds_dao D) (st_creds w) i creds of (d, r) \<Rightarrow> (r, w\<lparr>st_creds := d\<rparr>))"

definition create_app_request_of :: "('c, 'd, 'w) create_app_deps \<Rightarrow> spawn_context \<Rightarrow> create_app_request" where
  "create_app_request_of D sc =
     \<lparr>cr_agent_id = sc_agent_id (sx_claim sc), cr_app_name = ca_app_name D,
      cr_app_description = ca_app_description D, cr_scopes = ca_scopes D,
      cr_approval_token = ca_approval_token D\<rparr>"

text \<open>After the RPC: the partial-success cleanup, under a context that cannot be cancelled.\<close>

definition create_app_finish ::
  "('z spawn_ctx_scheme, 'd, 'w) create_app_deps \<Rightarrow> 'z spawn_ctx_scheme \<Rightarrow> spawn_context
     \<Rightarrow> create_app_credentials sink_call \<Rightarrow> ('d, 'w) step_world \<Rightarrow> ('d, 'w) step_world \<times> goerr option" where
  "create_app_finish D c sc call w =
     (case call of
        SinkSkipped r \<Rightarrow> (w, map_option (errorf create_app_msg) r)
      | SinkCalled creds answer \<Rightarrow>
          (case create_app_sink D (sx_agent_id sc) creds w of
             (sink_err, w1) \<Rightarrow>
               (case answer sink_err of
                  None \<Rightarrow> (w1, None)
                | Some err \<Rightarrow>
                    (snd (teardown_app D (without_cancel c) (sx_agent_id sc) (cc_app_id creds) w1),
                     Some (errorf create_app_msg (case sink_err of Some e \<Rightarrow> e | None \<Rightarrow> err))))))"

definition create_app_execute ::
  "('z spawn_ctx_scheme, 'd, 'w) create_app_deps \<Rightarrow> 'z spawn_ctx_scheme \<Rightarrow> ('d, 'w) step_world
     \<Rightarrow> ('d, 'w) step_world \<times> goerr option" where
  "create_app_execute D c w =
     (case step_ctx_err c w of
        (Some e, w1) \<Rightarrow> (w1, Some (errorf create_app_msg e))
      | (None, w1) \<Rightarrow>
          (case require_manifest_agent create_app_msg c of
             Inl e \<Rightarrow> (w1, Some e)
           | Inr sc \<Rightarrow>
               (let req = create_app_request_of D sc;
                    w2 = step_call (CallCreateApp (ca_app_name D)) w1
                in case ca_installer D of
                     Some rpc \<Rightarrow>
                       (case rpc c req (sx_claim sc) (st_env w2) of
                          (call, env) \<Rightarrow> create_app_finish D c sc call (w2\<lparr>st_env := env\<rparr>))
                   | None \<Rightarrow>
                       (case ca_rpc D c req (sx_claim sc) (st_env w2) of
                          (r, env) \<Rightarrow> create_app_finish D c sc (SinkSkipped r) (w2\<lparr>st_env := env\<rparr>)))))"

definition compensate_msg :: "string \<Rightarrow> string" where
  "compensate_msg name = ''spawn: '' @ name @ '' step compensate''"

definition create_app_compensate ::
  "('z spawn_ctx_scheme, 'd, 'w) create_app_deps \<Rightarrow> 'z spawn_ctx_scheme \<Rightarrow> ('d, 'w) step_world
     \<Rightarrow> ('d, 'w) step_world \<times> goerr option" where
  "create_app_compensate D c w =
     (case require_agent (compensate_msg ''create_app'') c of
        Inl e \<Rightarrow> (w, Some e)
      | Inr sc \<Rightarrow>
          (case teardown_app D c (sx_agent_id sc) [] w of
             (r, w1) \<Rightarrow> (w1, map_option (errorf (compensate_msg ''create_app'')) r)))"

definition create_app_step ::
  "('z spawn_ctx_scheme, 'd, 'w) create_app_deps \<Rightarrow> ('z spawn_ctx_scheme, ('d, 'w) step_world) saga_step" where
  "create_app_step D =
     \<lparr>step_name = ''create_app'', step_execute = create_app_execute D,
      step_compensate = Some (\<lambda>c w. case create_app_compensate D c w of (w', r) \<Rightarrow> (w', CompReturns r))\<rparr>"

section \<open>\<open>oauth_install\<close>\<close>

record install_params =
  ip_code :: string
  ip_client_id :: string
  ip_client_secret :: string
  ip_redirect_uri :: string

record install_tokens =
  it_app_id :: string
  it_team_id :: string
  it_enterprise_id :: string
  it_access_token :: string
  it_refresh_token :: string
  it_expires_in :: int
  it_user_access_token :: string
  it_user_scope :: string
  it_is_enterprise_install :: bool

abbreviation ErrMissingOAuthCode :: string where
  "ErrMissingOAuthCode \<equiv> ''spawn: oauth_install step: missing OAuth code''"

text \<open>
  The installer is handed what the resolver answers (always these parameters, never an error) and
  the token sink. Encryption draws its nonce from the environment.
\<close>

record ('c, 'd, 'w) oauth_deps =
  oi_installer ::
    "'c \<Rightarrow> string \<Rightarrow> string \<Rightarrow> install_params \<Rightarrow> 'w \<Rightarrow> install_tokens sink_call \<times> 'w"
  oi_creds_dao :: "'d creds_dao"
  oi_encrypt :: "'c \<Rightarrow> string \<Rightarrow> 'w \<Rightarrow> (goerr + string) \<times> 'w"
  oi_revoker :: "'c \<Rightarrow> uuid \<Rightarrow> string \<Rightarrow> 'd \<Rightarrow> 'w \<Rightarrow> goerr option \<times> 'd \<times> 'w"
  oi_workspace_id :: string
  oi_redirect_uri :: string
  oi_now :: "nat \<Rightarrow> gotime"

definition oauth_msg :: string where "oauth_msg = ''spawn: oauth_install step''"

definition time_add :: "gotime \<Rightarrow> int \<Rightarrow> gotime" where
  "time_add t d =
     (let n = gt_nsec t + d
      in \<lparr>gt_sec = wrap64 (gt_sec t + n div 10 ^ 9), gt_nsec = n mod 10 ^ 9\<rparr>)"

definition encrypt_if_non_empty ::
  "('c, 'd, 'w) oauth_deps \<Rightarrow> 'c \<Rightarrow> string \<Rightarrow> ('d, 'w) step_world \<Rightarrow> (goerr + string) \<times> ('d, 'w) step_world" where
  "encrypt_if_non_empty D c plaintext w =
     (if plaintext = [] then (Inr [], w)
      else case oi_encrypt D c plaintext (st_env w) of (r, env) \<Rightarrow> (r, w\<lparr>st_env := env\<rparr>))"

definition expiry_from_expires_in ::
  "('c, 'd, 'w) oauth_deps \<Rightarrow> int \<Rightarrow> ('d, 'w) step_world \<Rightarrow> gotime option \<times> ('d, 'w) step_world" where
  "expiry_from_expires_in D expires_in w =
     (if expires_in \<le> 0 then (None, w)
      else (Some (time_add (oi_now D (st_clock_reads w)) (wrap64 (expires_in * 10 ^ 9))),
            w\<lparr>st_clock_reads := Suc (st_clock_reads w)\<rparr>))"

definition oauth_sink ::
  "('c, 'd, 'w) oauth_deps \<Rightarrow> 'c \<Rightarrow> uuid \<Rightarrow> install_tokens \<Rightarrow> ('d, 'w) step_world
     \<Rightarrow> goerr option \<times> ('d, 'w) step_world" where
  "oauth_sink D c i tokens w =
     (case encrypt_if_non_empty D c (it_access_token tokens) w of
        (Inl e, w1) \<Rightarrow> (Some e, w1)
      | (Inr bot_ct, w1) \<Rightarrow>
          (case encrypt_if_non_empty D c (it_user_access_token tokens) w1 of
             (Inl e, w2) \<Rightarrow> (Some e, w2)
           | (Inr user_ct, w2) \<Rightarrow>
               (case encrypt_if_non_empty D c (it_refresh_token tokens) w2 of
                  (Inl e, w3) \<Rightarrow> (Some e, w3)
                | (Inr refresh_ct, w3) \<Rightarrow>
                    (case expiry_from_expires_in D (it_expires_in tokens) w3 of
                       (expires_at, w4) \<Rightarrow>
                         (case cd_put_install_tokens (oi_creds_dao D) (st_creds w4) i bot_ct user_ct
                             refresh_ct expires_at of
                            (d, r) \<Rightarrow> (r, w4\<lparr>st_creds := d\<rparr>))))))"

definition oauth_revoke ::
  "('c, 'd, 'w) oauth_deps \<Rightarrow> 'c \<Rightarrow> uuid \<Rightarrow> string \<Rightarrow> ('d, 'w) step_world
     \<Rightarrow> goerr option \<times> ('d, 'w) step_world" where
  "oauth_revoke D c i token w =
     (case oi_revoker D c i token (st_creds w) (st_env w) of
        (r, d, e) \<Rightarrow> (r, step_call (CallRevoke i token) (w\<lparr>st_creds := d, st_env := e\<rparr>)))"

definition oauth_finish ::
  "('z spawn_ctx_scheme, 'd, 'w) oauth_deps \<Rightarrow> 'z spawn_ctx_scheme \<Rightarrow> spawn_context
     \<Rightarrow> install_tokens sink_call \<Rightarrow> ('d, 'w) step_world \<Rightarrow> ('d, 'w) step_world \<times> goerr option" where
  "oauth_finish D c sc call w =
     (case call of
        SinkSkipped r \<Rightarrow> (w, map_option (errorf oauth_msg) r)
      | SinkCalled tokens answer \<Rightarrow>
          (case oauth_sink D c (sx_agent_id sc) tokens w of
             (sink_err, w1) \<Rightarrow>
               (case answer sink_err of
                  None \<Rightarrow> (w1, None)
                | Some err \<Rightarrow>
                    (snd (oauth_revoke D (without_cancel c) (sx_agent_id sc) (it_access_token tokens) w1),
                     Some (errorf oauth_msg (case sink_err of Some e \<Rightarrow> e | None \<Rightarrow> err))))))"

definition oauth_install_params :: "('c, 'd, 'w) oauth_deps \<Rightarrow> spawn_context \<Rightarrow> create_app_credentials \<Rightarrow> install_params" where
  "oauth_install_params D sc creds =
     \<lparr>ip_code = sx_oauth_code sc, ip_client_id = cc_client_id creds,
      ip_client_secret = cc_client_secret creds, ip_redirect_uri = oi_redirect_uri D\<rparr>"

definition oauth_execute ::
  "('z spawn_ctx_scheme, 'd, 'w) oauth_deps \<Rightarrow> 'z spawn_ctx_scheme \<Rightarrow> ('d, 'w) step_world
     \<Rightarrow> ('d, 'w) step_world \<times> goerr option" where
  "oauth_execute D c w =
     (case step_ctx_err c w of
        (Some e, w1) \<Rightarrow> (w1, Some (errorf oauth_msg e))
      | (None, w1) \<Rightarrow>
          (case require_agent oauth_msg c of
             Inl e \<Rightarrow> (w1, Some e)
           | Inr sc \<Rightarrow>
               if sx_oauth_code sc = [] then (w1, Some (errorf oauth_msg [Sentinel ErrMissingOAuthCode]))
               else (case cd_get (oi_creds_dao D) (st_creds w1) (sx_agent_id sc) of
                  Inl e \<Rightarrow> (w1, Some (errorf oauth_msg e))
                | Inr creds \<Rightarrow>
                    (let w2 = step_call (CallInstallApp (cc_app_id creds)) w1
                     in case oi_installer D c (cc_app_id creds) (oi_workspace_id D)
                            (oauth_install_params D sc creds) (st_env w2) of
                          (call, env) \<Rightarrow> oauth_finish D c sc call (w2\<lparr>st_env := env\<rparr>)))))"

text \<open>The wipe follows the revoke whatever it answers; a revoke error takes precedence.\<close>

definition oauth_compensate ::
  "('z spawn_ctx_scheme, 'd, 'w) oauth_deps \<Rightarrow> 'z spawn_ctx_scheme \<Rightarrow> ('d, 'w) step_world
     \<Rightarrow> ('d, 'w) step_world \<times> goerr option" where
  "oauth_compensate D c w =
     (case require_agent (compensate_msg ''oauth_install'') c of
        Inl e \<Rightarrow> (w, Some e)
      | Inr sc \<Rightarrow>
          (case oauth_revoke D c (sx_agent_id sc) [] w of
             (revoke_err, w1) \<Rightarrow>
               (case cd_wipe_install_tokens (oi_creds_dao D) (st_creds w1) (sx_agent_id sc) of
                  (d, wipe_err) \<Rightarrow>
                    (w1\<lparr>st_creds := d\<rparr>,
                     map_option (errorf (compensate_msg ''oauth_install''))
                       (case revoke_err of Some e \<Rightarrow> Some e | None \<Rightarrow> wipe_err)))))"

definition oauth_step ::
  "('z spawn_ctx_scheme, 'd, 'w) oauth_deps \<Rightarrow> ('z spawn_ctx_scheme, ('d, 'w) step_world) saga_step" where
  "oauth_step D =
     \<lparr>step_name = ''oauth_install'', step_execute = oauth_execute D,
      step_compensate = Some (\<lambda>c w. case oauth_compensate D c w of (w', r) \<Rightarrow> (w', CompReturns r))\<rparr>"

section \<open>\<open>bot_profile\<close>\<close>

record bot_profile =
  bp_display_name :: string
  bp_status_text :: string
  bp_avatar_png :: string
  bp_metadata :: "string \<rightharpoonup> string"

record ('c, 'w) bot_profile_deps =
  bd_setter :: "'c \<Rightarrow> uuid \<Rightarrow> bot_profile \<Rightarrow> 'w \<Rightarrow> goerr option \<times> 'w"
  bd_profile :: bot_profile

text \<open>A call on a seam that answers an error or nil and leaves the store alone.\<close>

definition seam_run ::
  "seam_call \<Rightarrow> ('w \<Rightarrow> 'r \<times> 'w) \<Rightarrow> ('d, 'w) step_world \<Rightarrow> 'r \<times> ('d, 'w) step_world" where
  "seam_run a f w = (case f (st_env w) of (r, env) \<Rightarrow> (r, step_call a (w\<lparr>st_env := env\<rparr>)))"

definition bot_profile_execute ::
  "('z spawn_ctx_scheme, 'w) bot_profile_deps \<Rightarrow> 'z spawn_ctx_scheme \<Rightarrow> ('d, 'w) step_world
     \<Rightarrow> ('d, 'w) step_world \<times> goerr option" where
  "bot_profile_execute D c w =
     (case step_ctx_err c w of
        (Some e, w1) \<Rightarrow> (w1, Some (errorf ''spawn: bot_profile step'' e))
      | (None, w1) \<Rightarrow>
          (case require_agent ''spawn: bot_profile step'' c of
             Inl e \<Rightarrow> (w1, Some e)
           | Inr sc \<Rightarrow>
               (case seam_run (CallSetBotProfile (sx_agent_id sc))
                   (bd_setter D c (sx_agent_id sc) (bd_profile D)) w1 of
                  (r, w2) \<Rightarrow> (w2, map_option (errorf ''spawn: bot_profile step'') r))))"

definition bot_profile_compensate :: "'c \<Rightarrow> ('d, 'w) step_world \<Rightarrow> ('d, 'w) step_world \<times> goerr option" where
  "bot_profile_compensate c w = (w, None)"

definition bot_profile_step ::
  "('z spawn_ctx_scheme, 'w) bot_profile_deps \<Rightarrow> ('z spawn_ctx_scheme, ('d, 'w) step_world) saga_step" where
  "bot_profile_step D =
     \<lparr>step_name = ''bot_profile'', step_execute = bot_profile_execute D,
      step_compensate = Some (\<lambda>c w. case bot_profile_compensate c w of (w', r) \<Rightarrow> (w', CompReturns r))\<rparr>"

section \<open>\<open>notebook_provision\<close>\<close>

record notebook_profile =
  np_personality :: string
  np_language :: string

text \<open>\<open>url.Parse\<close> is a parameter: it fails (\<open>None\<close>) or yields the scheme, which may be empty.\<close>

record ('c, 'w) notebook_deps =
  nd_provisioner :: "'c \<Rightarrow> uuid \<Rightarrow> notebook_profile \<Rightarrow> 'w \<Rightarrow> goerr option \<times> 'w"
  nd_archiver :: "'c \<Rightarrow> uuid \<Rightarrow> 'w \<Rightarrow> (goerr + string) \<times> 'w"
  nd_profile :: notebook_profile
  nd_url_scheme :: "string \<Rightarrow> string option"

abbreviation ErrEmptyArchiveURI :: string where
  "ErrEmptyArchiveURI \<equiv> ''archiver returned empty uri on success''"

abbreviation ErrInvalidArchiveURI :: string where
  "ErrInvalidArchiveURI \<equiv> ''archiver returned malformed uri on success''"

definition archive_uri_error :: "(string \<Rightarrow> string option) \<Rightarrow> string \<Rightarrow> goerr option" where
  "archive_uri_error url_scheme uri =
     (if uri = [] then Some [Sentinel ErrEmptyArchiveURI]
      else case url_scheme uri of
        None \<Rightarrow> Some [Sentinel ErrInvalidArchiveURI]
      | Some scheme \<Rightarrow> if scheme = [] then Some [Sentinel ErrInvalidArchiveURI] else None)"

definition notebook_provision_execute ::
  "('z spawn_ctx_scheme, 'w) notebook_deps \<Rightarrow> 'z spawn_ctx_scheme \<Rightarrow> ('d, 'w) step_world
     \<Rightarrow> ('d, 'w) step_world \<times> goerr option" where
  "notebook_provision_execute D c w =
     (case step_ctx_err c w of
        (Some e, w1) \<Rightarrow> (w1, Some (errorf ''spawn: notebook_provision step'' e))
      | (None, w1) \<Rightarrow>
          (case require_agent ''spawn: notebook_provision step'' c of
             Inl e \<Rightarrow> (w1, Some e)
           | Inr sc \<Rightarrow>
               (case seam_run (CallProvisionNotebook (sx_agent_id sc))
                   (nd_provisioner D c (sx_agent_id sc) (nd_profile D)) w1 of
                  (r, w2) \<Rightarrow> (w2, map_option (errorf ''spawn: notebook_provision step'') r))))"

definition notebook_provision_compensate ::
  "('z spawn_ctx_scheme, 'w) notebook_deps \<Rightarrow> 'z spawn_ctx_scheme \<Rightarrow> ('d, 'w) step_world
     \<Rightarrow> ('d, 'w) step_world \<times> goerr option" where
  "notebook_provision_compensate D c w =
     (let msg = compensate_msg ''notebook_provision'' in
      case require_agent msg c of
        Inl e \<Rightarrow> (w, Some e)
      | Inr sc \<Rightarrow>
          (case seam_run (CallArchiveAndFlag (sx_agent_id sc)) (nd_archiver D c (sx_agent_id sc)) w of
             (Inl e, w1) \<Rightarrow> (w1, Some (errorf msg e))
           | (Inr uri, w1) \<Rightarrow> (w1, map_option (errorf msg) (archive_uri_error (nd_url_scheme D) uri))))"

definition notebook_provision_step ::
  "('z spawn_ctx_scheme, 'w) notebook_deps \<Rightarrow> ('z spawn_ctx_scheme, ('d, 'w) step_world) saga_step" where
  "notebook_provision_step D =
     \<lparr>step_name = ''notebook_provision'', step_execute = notebook_provision_execute D,
      step_compensate =
        Some (\<lambda>c w. case notebook_provision_compensate D c w of (w', r) \<Rightarrow> (w', CompReturns r))\<rparr>"

section \<open>\<open>runtime_launch\<close>\<close>

record runtime_launch_profile =
  rl_personality :: string
  rl_language :: string
  rl_intro_text :: string

record ('c, 'w) runtime_deps =
  rd_launcher :: "'c \<Rightarrow> uuid \<Rightarrow> uuid \<Rightarrow> runtime_launch_profile \<Rightarrow> 'w \<Rightarrow> goerr option \<times> 'w"
  rd_teardown :: "'c \<Rightarrow> uuid \<Rightarrow> uuid \<Rightarrow> 'w \<Rightarrow> goerr option \<times> 'w"
  rd_profile :: runtime_launch_profile

definition runtime_launch_execute ::
  "('z spawn_ctx_scheme, 'w) runtime_deps \<Rightarrow> 'z spawn_ctx_scheme \<Rightarrow> ('d, 'w) step_world
     \<Rightarrow> ('d, 'w) step_world \<times> goerr option" where
  "runtime_launch_execute D c w =
     (case step_ctx_err c w of
        (Some e, w1) \<Rightarrow> (w1, Some (errorf ''spawn: runtime_launch step'' e))
      | (None, w1) \<Rightarrow>
          (case require_manifest_agent ''spawn: runtime_launch step'' c of
             Inl e \<Rightarrow> (w1, Some e)
           | Inr sc \<Rightarrow>
               (case seam_run (CallLaunchRuntime (sx_agent_id sc) (sx_manifest_version_id sc))
                   (rd_launcher D c (sx_agent_id sc) (sx_manifest_version_id sc) (rd_profile D)) w1 of
                  (r, w2) \<Rightarrow> (w2, map_option (errorf ''spawn: runtime_launch step'') r))))"

definition runtime_launch_compensate ::
  "('z spawn_ctx_scheme, 'w) runtime_deps \<Rightarrow> 'z spawn_ctx_scheme \<Rightarrow> ('d, 'w) step_world
     \<Rightarrow> ('d, 'w) step_world \<times> goerr option" where
  "runtime_launch_compensate D c w =
     (let msg = compensate_msg ''runtime_launch'' in
      case require_manifest_agent msg c of
        Inl e \<Rightarrow> (w, Some e)
      | Inr sc \<Rightarrow>
          (case seam_run (CallTeardownRuntime (sx_agent_id sc) (sx_manifest_version_id sc))
              (rd_teardown D c (sx_agent_id sc) (sx_manifest_version_id sc)) w of
             (r, w1) \<Rightarrow> (w1, map_option (errorf msg) r)))"

definition runtime_launch_step ::
  "('z spawn_ctx_scheme, 'w) runtime_deps \<Rightarrow> ('z spawn_ctx_scheme, ('d, 'w) step_world) saga_step" where
  "runtime_launch_step D =
     \<lparr>step_name = ''runtime_launch'', step_execute = runtime_launch_execute D,
      step_compensate =
        Some (\<lambda>c w. case runtime_launch_compensate D c w of (w', r) \<Rightarrow> (w', CompReturns r))\<rparr>"

section \<open>The retire steps\<close>

text \<open>
  They share the \<open>RetireResult\<close> the kickoffer allocated, through its address on the context, and
  implement no compensation.
\<close>

abbreviation ErrMissingRetireResult :: string where
  "ErrMissingRetireResult \<equiv> ''missing RetireResult on context''"

abbreviation ErrMissingArchiveURI :: string where
  "ErrMissingArchiveURI \<equiv> ''missing ArchiveURI on RetireResult''"

definition on_env ::
  "('w \<Rightarrow> 'r \<times> 'w) \<Rightarrow> 'w retire_world \<Rightarrow> 'r \<times> 'w retire_world" where
  "on_env f w = (case f (rw_env w) of (r, e) \<Rightarrow> (r, w\<lparr>rw_env := e\<rparr>))"

record ('c, 'w) notebook_archive_deps =
  na_archiver :: "'c \<Rightarrow> uuid \<Rightarrow> 'w \<Rightarrow> (goerr + string) \<times> 'w"
  na_url_scheme :: "string \<Rightarrow> string option"

definition notebook_archive_execute ::
  "('z retire_ctx_scheme, 'w) notebook_archive_deps \<Rightarrow> 'z retire_ctx_scheme
     \<Rightarrow> ('d, 'w) step_world retire_world \<Rightarrow> ('d, 'w) step_world retire_world \<times> goerr option" where
  "notebook_archive_execute D c w =
     (let msg = ''spawn: notebook_archive step'' in
      case on_env (step_ctx_err c) w of
        (Some e, w1) \<Rightarrow> (w1, Some (errorf msg e))
      | (None, w1) \<Rightarrow>
          (case require_agent msg c of
             Inl e \<Rightarrow> (w1, Some e)
           | Inr sc \<Rightarrow>
               (case retire_result_from_context c of
                  None \<Rightarrow> (w1, Some (errorf msg [Sentinel ErrMissingRetireResult]))
                | Some result \<Rightarrow>
                    (case on_env (seam_run (CallArchiveNotebook (sx_agent_id sc))
                        (na_archiver D c (sx_agent_id sc))) w1 of
                       (Inl e, w2) \<Rightarrow> (w2, Some (errorf msg e))
                     | (Inr uri, w2) \<Rightarrow>
                         (case archive_uri_error (na_url_scheme D) uri of
                            Some e \<Rightarrow> (w2, Some (errorf msg e))
                          | None \<Rightarrow>
                              (w2\<lparr>rw_results := (rw_results w2)(result := \<lparr>rr_archive_uri = uri\<rparr>)\<rparr>,
                               None))))))"

definition notebook_archive_step ::
  "('z retire_ctx_scheme, 'w) notebook_archive_deps
     \<Rightarrow> ('z retire_ctx_scheme, ('d, 'w) step_world retire_world) saga_step" where
  "notebook_archive_step D =
     \<lparr>step_name = ''notebook_archive'', step_execute = notebook_archive_execute D, step_compensate = None\<rparr>"

record ('c, 'w) mark_retired_deps =
  mr_retirer :: "'c \<Rightarrow> uuid \<Rightarrow> string \<Rightarrow> 'w \<Rightarrow> goerr option \<times> 'w"

definition mark_retired_execute ::
  "('z retire_ctx_scheme, 'w) mark_retired_deps \<Rightarrow> 'z retire_ctx_scheme
     \<Rightarrow> ('d, 'w) step_world retire_world \<Rightarrow> ('d, 'w) step_world retire_world \<times> goerr option" where
  "mark_retired_execute D c w =
     (let msg = ''spawn: mark_retired step'' in
      case on_env (step_ctx_err c) w of
        (Some e, w1) \<Rightarrow> (w1, Some (errorf msg e))
      | (None, w1) \<Rightarrow>
          (case require_agent msg c of
             Inl e \<Rightarrow> (w1, Some e)
           | Inr sc \<Rightarrow>
               (case retire_result_from_context c of
                  None \<Rightarrow> (w1, Some (errorf msg [Sentinel ErrMissingRetireResult]))
                | Some result \<Rightarrow>
                    (let uri = rr_archive_uri (rw_results w1 result) in
                     if uri = [] then (w1, Some (errorf msg [Sentinel ErrMissingArchiveURI]))
                     else (case on_env (seam_run (CallMarkRetired (sx_agent_id sc) uri)
                         (mr_retirer D c (sx_agent_id sc) uri)) w1 of
                        (r, w2) \<Rightarrow> (w2, map_option (errorf msg) r))))))"

definition mark_retired_step ::
  "('z retire_ctx_scheme, 'w) mark_retired_deps
     \<Rightarrow> ('z retire_ctx_scheme, ('d, 'w) step_world retire_world) saga_step" where
  "mark_retired_step D =
     \<lparr>step_name = ''mark_retired'', step_execute = mark_retired_execute D, step_compensate = None\<rparr>"

section \<open>The contract of the credential store\<close>

text \<open>\<open>rows\<close> and \<open>tokens\<close> are what the store holds; a failing operation leaves both alone.\<close>

locale slack_app_creds =
  fixes D :: "'d creds_dao"
    and rows :: "'d \<Rightarrow> uuid \<rightharpoonup> create_app_credentials"
    and tokens :: "'d \<Rightarrow> uuid \<rightharpoonup> memory_install_tokens"
  assumes put_law:
      "cd_put D d i creds = (d', r) \<Longrightarrow>
         tokens d' = tokens d
         \<and> (case rows d i of
              Some _ \<Rightarrow> r = Some [Sentinel ErrCredsAlreadyStored] \<and> rows d' = rows d
            | None \<Rightarrow> r = None \<and> rows d' = (rows d)(i \<mapsto> creds))"
    and creds_get_law:
      "cd_get D d i =
         (case rows d i of None \<Rightarrow> Inl [Sentinel ErrCredsNotFound] | Some creds \<Rightarrow> Inr creds)"
    and put_tokens_law:
      "cd_put_install_tokens D d i b u f x = (d', r) \<Longrightarrow>
         rows d' = rows d
         \<and> (if rows d i = None then r = Some [Sentinel ErrCredsNotFound] \<and> tokens d' = tokens d
             else r = None \<and> (\<exists>t. tokens d' = (tokens d)(i \<mapsto> t)
               \<and> mt_bot_ct t = b \<and> mt_user_ct t = u \<and> mt_refresh_ct t = f \<and> mt_expires_at t = x))"
    and wipe_law:
      "cd_wipe_install_tokens D d i = (d', r) \<Longrightarrow>
         r = None \<and> rows d' = rows d \<and> tokens d' = (tokens d)(i := None)"
begin

text \<open>The rollback of an install clears its tokens, whatever the platform answers.\<close>

lemma oauth_compensate_wipes:
  assumes "oi_creds_dao U = D" "require_agent (compensate_msg ''oauth_install'') c = Inr sc"
  shows "tokens (st_creds (fst (oauth_compensate U c w))) (sx_agent_id sc) = None"
  unfolding oauth_compensate_def assms
  using wipe_law by (simp add: case_prod_beta) (metis fun_upd_same prod.collapse)

text \<open>What the token sink leaves in the store when it succeeds.\<close>

lemma oauth_sink_stores:
  assumes "oi_creds_dao U = D" "oauth_sink U c i t w = (None, w')"
  shows "rows (st_creds w') = rows (st_creds w) \<and> rows (st_creds w) i \<noteq> None
    \<and> (\<exists>m. tokens (st_creds w') = (tokens (st_creds w))(i \<mapsto> m)
        \<and> (it_refresh_token t = [] \<longrightarrow> mt_refresh_ct m = [])
        \<and> (it_user_access_token t = [] \<longrightarrow> mt_user_ct m = [])
        \<and> (it_expires_in t \<le> 0 \<longrightarrow> mt_expires_at m = None))"
  using assms(2) unfolding oauth_sink_def assms(1)
  by (auto simp: encrypt_if_non_empty_def expiry_from_expires_in_def
      split: prod.splits sum.splits if_splits dest!: put_tokens_law)

end

interpretation mcr: slack_app_creds mem_creds_ops mc_rows mc_tokens
  by unfold_locales
     (auto simp: mem_creds_put_def mem_creds_get_def mem_creds_put_install_tokens_def
        mem_creds_wipe_install_tokens_def split: option.splits)

section \<open>The spawn saga's rollback\<close>

definition spawn_saga_steps ::
  "('z spawn_ctx_scheme, 'd, 'w) create_app_deps \<Rightarrow> ('z spawn_ctx_scheme, 'd, 'w) oauth_deps
     \<Rightarrow> ('z spawn_ctx_scheme, 'w) bot_profile_deps \<Rightarrow> ('z spawn_ctx_scheme, 'w) notebook_deps
     \<Rightarrow> ('z spawn_ctx_scheme, 'w) runtime_deps
     \<Rightarrow> ('z spawn_ctx_scheme, ('d, 'w) step_world) saga_step list" where
  "spawn_saga_steps A U B N R =
     [create_app_step A, oauth_step U, bot_profile_step B, notebook_provision_step N, runtime_launch_step R]"

text \<open>The calls that undo a step, by its name.\<close>

definition undo_calls :: "spawn_context \<Rightarrow> string \<Rightarrow> seam_call list" where
  "undo_calls sc name =
     (if name = ''create_app'' then [CallTeardownApp (sx_agent_id sc) []]
      else if name = ''oauth_install'' then [CallRevoke (sx_agent_id sc) []]
      else if name = ''notebook_provision'' then [CallArchiveAndFlag (sx_agent_id sc)]
      else if name = ''runtime_launch'' then [CallTeardownRuntime (sx_agent_id sc) (sx_manifest_version_id sc)]
      else [])"

definition spawn_ids_ok :: "'z spawn_ctx_scheme \<Rightarrow> spawn_context \<Rightarrow> bool" where
  "spawn_ids_ok c sc \<longleftrightarrow>
     spawn_context_from_context c = Some sc \<and> sx_manifest_version_id sc \<noteq> uuid_nil \<and> sx_agent_id sc \<noteq> uuid_nil"

lemma spawn_ids_okD:
  "spawn_ids_ok c sc \<Longrightarrow> require_agent msg c = Inr sc"
  "spawn_ids_ok c sc \<Longrightarrow> require_manifest_agent msg c = Inr sc"
  by (simp_all add: spawn_ids_ok_def require_agent_def require_manifest_agent_def)

lemma spawn_ids_ok_without_cancel [simp]: "spawn_ids_ok (without_cancel c) sc = spawn_ids_ok c sc"
  by (simp add: spawn_ids_ok_def spawn_context_from_context_def without_cancel_def)

lemma step_call_simps [simp]:
  "st_calls (step_call a w) = st_calls w @ [a]"
  "st_creds (step_call a w) = st_creds w"
  "st_env (step_call a w) = st_env w"
  by (simp_all add: step_call_def)

lemma teardown_calls [simp]:
  "st_calls (snd (teardown_app D c i app w)) = st_calls w @ [CallTeardownApp i app]"
  by (simp add: teardown_app_def split: prod.split)

lemma revoke_calls [simp]:
  "st_calls (snd (oauth_revoke D c i token w)) = st_calls w @ [CallRevoke i token]"
  by (simp add: oauth_revoke_def split: prod.split)

lemma seam_run_calls [simp]: "st_calls (snd (seam_run a f w)) = st_calls w @ [a]"
  "st_creds (snd (seam_run a f w)) = st_creds w"
  by (simp_all add: seam_run_def split: prod.split)

lemma compensate_calls:
  assumes "spawn_ids_ok c sc"
  shows "st_calls (fst (create_app_compensate A c w)) = st_calls w @ undo_calls sc ''create_app''"
    "st_calls (fst (oauth_compensate U c w)) = st_calls w @ undo_calls sc ''oauth_install''"
    "st_calls (fst (bot_profile_compensate c w)) = st_calls w @ undo_calls sc ''bot_profile''"
    "st_calls (fst (notebook_provision_compensate N c w)) = st_calls w @ undo_calls sc ''notebook_provision''"
    "st_calls (fst (runtime_launch_compensate R c w)) = st_calls w @ undo_calls sc ''runtime_launch''"
proof -
  note ids = spawn_ids_okD [OF assms]
  show "st_calls (fst (create_app_compensate A c w)) = st_calls w @ undo_calls sc ''create_app''"
    using teardown_calls [of A c "sx_agent_id sc" "[]" w]
    by (simp add: create_app_compensate_def ids undo_calls_def case_prod_beta)
  show "st_calls (fst (oauth_compensate U c w)) = st_calls w @ undo_calls sc ''oauth_install''"
    using revoke_calls [of U c "sx_agent_id sc" "[]" w]
    by (simp add: oauth_compensate_def ids undo_calls_def case_prod_beta)
  show "st_calls (fst (bot_profile_compensate c w)) = st_calls w @ undo_calls sc ''bot_profile''"
    by (simp add: bot_profile_compensate_def undo_calls_def)
  show "st_calls (fst (notebook_provision_compensate N c w)) = st_calls w @ undo_calls sc ''notebook_provision''"
    using seam_run_calls(1) [of "CallArchiveAndFlag (sx_agent_id sc)" "nd_archiver N c (sx_agent_id sc)" w]
    by (simp add: notebook_provision_compensate_def ids undo_calls_def case_prod_beta Let_def split: sum.split)
  show "st_calls (fst (runtime_launch_compensate R c w)) = st_calls w @ undo_calls sc ''runtime_launch''"
    using seam_run_calls(1) [of "CallTeardownRuntime (sx_agent_id sc) (sx_manifest_version_id sc)"
        "rd_teardown R c (sx_agent_id sc) (sx_manifest_version_id sc)" w]
    by (simp add: runtime_launch_compensate_def ids undo_calls_def case_prod_beta)
qed

text \<open>What one rollback step does to a world, and then a whole rollback.\<close>

lemma safe_compensate_returns [simp]:
  "safe_compensate (\<lambda>c w. case g c w of (w', r) \<Rightarrow> (w', CompReturns r)) c w = g c w"
  by (simp add: safe_compensate_def split: prod.split)

lemma step_rollback_calls:
  assumes "spawn_ids_ok c sc" "s \<in> set (spawn_saga_steps A U B N R)"
  shows "\<exists>f. step_compensate s = Some f
    \<and> st_calls (fst (safe_compensate f c w)) = st_calls w @ undo_calls sc (step_name s)"
  using assms(2) compensate_calls [OF assms(1)]
  by (auto simp: spawn_saga_steps_def create_app_step_def oauth_step_def bot_profile_step_def
      notebook_provision_step_def runtime_launch_step_def)

lemma rollback_calls:
  assumes "spawn_ids_ok c sc" "set ss \<subseteq> set (spawn_saga_steps A U B N R)"
  shows "st_calls (snd (saga_rollback c i ss w))
    = st_calls w @ concat (map (\<lambda>s. undo_calls sc (step_name s)) ss)"
  using assms(2)
proof (induction ss arbitrary: w)
  case (Cons s ss)
  obtain f where f: "step_compensate s = Some f"
    "st_calls (fst (safe_compensate f c w)) = st_calls w @ undo_calls sc (step_name s)"
    using step_rollback_calls [OF assms(1), of s A U B N R w] Cons.prems by auto
  obtain w' r where w': "safe_compensate f c w = (w', r)"
    by fastforce
  show ?case
    using Cons.IH [of w'] Cons.prems f w' by (simp add: split_beta)
qed simp

text \<open>The install tokens of the saga's watchkeeper over a rollback.\<close>

definition teardown_adds_no_token :: "('c, mem_creds, 'w) create_app_deps \<Rightarrow> bool" where
  "teardown_adds_no_token A \<longleftrightarrow>
     (\<forall>c i app d env. mc_tokens (fst (snd (ca_teardown A c i app d env))) \<subseteq>\<^sub>m mc_tokens d)"

lemma token_gone_mono: "m' \<subseteq>\<^sub>m m \<Longrightarrow> m i = None \<Longrightarrow> m' i = None"
  by (metis domIff map_le_implies_dom_le subsetD)

lemma step_rollback_tokens:
  assumes "spawn_ids_ok c sc" "s \<in> set (spawn_saga_steps A U B N R)"
    and "oi_creds_dao U = mem_creds_ops" "teardown_adds_no_token A" "step_compensate s = Some f"
    and "step_name s = ''oauth_install'' \<or> mc_tokens (st_creds w) (sx_agent_id sc) = None"
  shows "mc_tokens (st_creds (fst (safe_compensate f c w))) (sx_agent_id sc) = None"
proof -
  note ids = spawn_ids_okD [OF assms(1)]
  have app: "mc_tokens (st_creds (fst (create_app_compensate A c w))) \<subseteq>\<^sub>m mc_tokens (st_creds w)"
    using assms(4) by (simp add: create_app_compensate_def ids teardown_app_def teardown_adds_no_token_def case_prod_beta)
  have rest: "st_creds (fst (bot_profile_compensate c w)) = st_creds w"
    "st_creds (fst (notebook_provision_compensate N c w)) = st_creds w"
    "st_creds (fst (runtime_launch_compensate R c w)) = st_creds w"
    by (simp_all add: bot_profile_compensate_def notebook_provision_compensate_def
        runtime_launch_compensate_def ids case_prod_beta Let_def split: sum.split)
  show ?thesis
    using assms(2,5,6) rest mcr.oauth_compensate_wipes [OF assms(3) ids(1), of w] token_gone_mono [OF app]
    by (auto simp: spawn_saga_steps_def create_app_step_def oauth_step_def bot_profile_step_def
        notebook_provision_step_def runtime_launch_step_def)
qed

lemma rollback_tokens:
  assumes "spawn_ids_ok c sc" "set ss \<subseteq> set (spawn_saga_steps A U B N R)"
    and "oi_creds_dao U = mem_creds_ops" "teardown_adds_no_token A"
    and "''oauth_install'' \<in> step_name ` set ss \<or> mc_tokens (st_creds w) (sx_agent_id sc) = None"
  shows "mc_tokens (st_creds (snd (saga_rollback c i ss w))) (sx_agent_id sc) = None"
  using assms(2,5)
proof (induction ss arbitrary: w)
  case (Cons s ss)
  have s: "s \<in> set (spawn_saga_steps A U B N R)"
    using Cons.prems(1) by simp
  obtain f where f: "step_compensate s = Some f"
    using step_rollback_calls [OF assms(1) s] by blast
  obtain w' r where w': "safe_compensate f c w = (w', r)"
    by fastforce
  have "''oauth_install'' \<in> step_name ` set ss \<or> mc_tokens (st_creds w') (sx_agent_id sc) = None"
    using step_rollback_tokens [OF assms(1) s assms(3,4) f, of w] w' Cons.prems(2) by auto
  then show ?case
    using Cons.IH [of w'] Cons.prems(1) f w' by (simp add: split_beta)
qed simp

text \<open>
  A failed spawn is undone. When a step of the spawn saga fails, the runner answers its error,
  and the rollback makes exactly the undoing calls of the steps that had succeeded, last step first,
  whatever those calls answer. If the install was among them, the store holds no token of the
  watchkeeper afterwards.
\<close>

theorem failed_spawn_rolls_back:
  assumes "mem_inv (run_dao st)" "md_rows (run_dao st) i = Some row" "spawn_ids_ok c sc"
    and "saga_forward c (spawn_saga_steps A U B N R) (run_world st) = (ok, Some (s, e), w1)"
    and "oi_creds_dao U = mem_creds_ops" "teardown_adds_no_token A"
  shows "\<exists>st'. saga_runner_run mem_ops c i (spawn_saga_steps A U B N R) st
        = (st', Some (errorf ''saga: run: step'' e))
    \<and> st_calls (run_world st') = st_calls w1 @ concat (map (\<lambda>s. undo_calls sc (step_name s)) (rev ok))
    \<and> (''oauth_install'' \<in> step_name ` set ok \<longrightarrow>
         mc_tokens (st_creds (run_world st')) (sx_agent_id sc) = None)"
proof -
  let ?roll = "saga_rollback (without_cancel c) i (rev ok) w1"
  have ok: "set (rev ok) \<subseteq> set (spawn_saga_steps A U B N R)"
    using saga_forward_prefix [OF assms(4)] set_mono_prefix by fastforce
  obtain trail where "saga_spec c i [] (spawn_saga_steps A U B N R) (run_world st)
      = (trail, snd ?roll, Some (errorf ''saga: run: step'' e))"
    using assms(4) by (simp add: saga_spec_def split_beta)
  from mem.run_refines [OF assms(1,2) this] obtain st' where
    "saga_runner_run mem_ops c i (spawn_saga_steps A U B N R) st
       = (st', Some (errorf ''saga: run: step'' e))" "run_world st' = snd ?roll"
    by blast
  moreover have "spawn_ids_ok (without_cancel c) sc"
    using assms(3) by simp
  note rollback_calls [OF this ok, of i w1] rollback_tokens [OF this ok assms(5,6), of w1 i]
  ultimately show ?thesis
    by auto
qed

section \<open>A kickoff seeds no OAuth code\<close>

lemma oauth_needs_code:
  assumes "spawn_ids_ok c sc" "sx_oauth_code sc = []" "ctx_err c = (\<lambda>_. None)"
  shows "oauth_execute U c w
    = (w\<lparr>st_ctx_reads := Suc (st_ctx_reads w)\<rparr>, Some (errorf oauth_msg [Sentinel ErrMissingOAuthCode]))"
  using assms(2,3) by (simp add: oauth_execute_def step_ctx_err_def spawn_ids_okD [OF assms(1)])

lemma saga_forward_append:
  "saga_forward c (xs @ ys) w =
     (case saga_forward c xs w of
        (ok, Some f, w') \<Rightarrow> (ok, Some f, w')
      | (ok, None, w') \<Rightarrow> (case saga_forward c ys w' of (ok', f, w'') \<Rightarrow> (xs @ ok', f, w'')))"
  by (induction xs arbitrary: w) (auto split: prod.splits option.splits dest: saga_forward_all_ok)

text \<open>
  No kickoff gets past the install. \<open>Kickoff\<close> is the only place that seeds the context of a
  spawn saga, and it leaves the OAuth code empty. So on every step list with the install step, when
  the steps before it succeed, the saga stops at the install without calling the installer, with
  \<open>ErrMissingOAuthCode\<close>; the steps before it are rolled back, and none after it runs.
\<close>

theorem kickoff_stops_at_install:
  assumes "kk_dao k = mem_ops" "mem_inv (run_dao st)" "kickoff_args_ok sid mv wk tok"
    and "md_rows (run_dao st) sid = None"
    and "\<forall>j r. md_rows (run_dao st) j = Some r \<longrightarrow> sg_idempotency_key r \<noteq> tok"
    and "kk_logger k (run_log st) (ev_spawn_approved k tok (ids_row sid mv wk tok)) = None"
    and "kk_steps k = pre @ oauth_step U # post" "ctx_err c = (\<lambda>_. None)"
    and "c' = with_spawn_context c (kickoff_spawn_context (ids_row sid mv wk tok) claim)"
    and "saga_forward c' pre (run_world st) = (pre, None, w1)"
  shows "\<exists>st' e row. spawn_kickoff k c sid mv wk claim tok st = (st', Some e)
    \<and> errors_is e ErrMissingOAuthCode
    \<and> run_world st' = snd (saga_rollback (without_cancel c') sid (rev pre)
                             (w1\<lparr>st_ctx_reads := Suc (st_ctx_reads w1)\<rparr>))
    \<and> md_rows (run_dao st') sid = Some row \<and> sg_status row = SagaStateFailed"
proof -
  let ?w2 = "w1\<lparr>st_ctx_reads := Suc (st_ctx_reads w1)\<rparr>"
    and ?e = "errorf oauth_msg [Sentinel ErrMissingOAuthCode]"
  let ?w' = "snd (saga_rollback (without_cancel c') sid (rev pre) ?w2)"
    and ?r = "Some (errorf ''spawn: kickoff: run saga'' (errorf ''saga: run: step'' ?e))"
  have ids: "spawn_ids_ok c' (kickoff_spawn_context (ids_row sid mv wk tok) claim)"
    "sx_oauth_code (kickoff_spawn_context (ids_row sid mv wk tok) claim) = []" "ctx_err c' = (\<lambda>_. None)"
    using assms(3,8) by (simp_all add: assms(9) spawn_ids_ok_def kickoff_spawn_context_def kickoff_args_ok_def)
  have "step_execute (oauth_step U) c' w1 = (?w2, Some ?e)"
    using oauth_needs_code [OF ids] by (simp add: oauth_step_def)
  then have "saga_forward c' (pre @ oauth_step U # post) (run_world st) = (pre, Some (oauth_step U, ?e), ?w2)"
    using assms(10) by (simp add: saga_forward_append)
  then obtain trail where "saga_spec c' sid [] (kk_steps k) (run_world st)
      = (trail, ?w', Some (errorf ''saga: run: step'' ?e))"
    by (simp add: saga_spec_def assms(7) split_beta)
  then obtain trail where "kickoff_trail k c claim tok (ids_row sid mv wk tok) (run_world st) = (trail, ?w', ?r)"
    by (simp add: kickoff_trail_def assms(9))
  from mem.kickoff_fresh [OF assms(1-6) this] obtain st' row where
    "spawn_kickoff k c sid mv wk claim tok st = (st', ?r)" "run_world st' = ?w'"
    "md_rows (run_dao st') = (md_rows (run_dao st))(sid \<mapsto> row)" "sg_status row = SagaStateFailed"
    by auto
  then show ?thesis
    by (intro exI [of _ st'] exI conjI) (assumption | simp)+
qed

section \<open>The retire saga archives first\<close>

definition retire_saga_steps ::
  "('z retire_ctx_scheme, 'w) notebook_archive_deps \<Rightarrow> ('z retire_ctx_scheme, 'w) mark_retired_deps
     \<Rightarrow> ('z retire_ctx_scheme, ('d, 'w) step_world retire_world) saga_step list" where
  "retire_saga_steps A M = [notebook_archive_step A, mark_retired_step M]"

text \<open>The calls of one run, and whether it succeeds.\<close>

definition retire_outcome ::
  "('c, 'w) notebook_archive_deps \<Rightarrow> (goerr + string) \<Rightarrow> uuid \<Rightarrow> bool \<Rightarrow> seam_call list \<Rightarrow> bool" where
  "retire_outcome A archived wk success calls \<longleftrightarrow>
     (case archived of
        Inl e \<Rightarrow> \<not> success \<and> (calls = [] \<or> calls = [CallArchiveNotebook wk])
      | Inr uri \<Rightarrow>
          if archive_uri_error (na_url_scheme A) uri \<noteq> None
          then \<not> success \<and> (calls = [] \<or> calls = [CallArchiveNotebook wk])
          else (success \<longrightarrow> calls = [CallArchiveNotebook wk, CallMarkRetired wk uri])
            \<and> (calls = [] \<or> calls = [CallArchiveNotebook wk]
                \<or> calls = [CallArchiveNotebook wk, CallMarkRetired wk uri]))"

lemma archive_uri_nonempty: "archive_uri_error f uri = None \<Longrightarrow> uri \<noteq> []"
  by (auto simp: archive_uri_error_def)

lemma notebook_archive_outcome:
  assumes "require_agent ''spawn: notebook_archive step'' c = Inr sc" "retire_result_from_context c = Some p"
    and "notebook_archive_execute A c w = (w', r)"
    and "archived = fst (na_archiver A c (sx_agent_id sc) (st_env (rw_env w)))"
  shows "(r \<noteq> None \<and> (st_calls (rw_env w') = st_calls (rw_env w)
            \<or> st_calls (rw_env w') = st_calls (rw_env w) @ [CallArchiveNotebook (sx_agent_id sc)]))
    \<or> (r = None \<and> st_calls (rw_env w') = st_calls (rw_env w) @ [CallArchiveNotebook (sx_agent_id sc)]
        \<and> (\<exists>uri. archived = Inr uri \<and> archive_uri_error (na_url_scheme A) uri = None
             \<and> rr_archive_uri (rw_results w' p) = uri))"
  using assms(3)
  by (auto simp: notebook_archive_execute_def assms(1,2,4) on_env_def step_ctx_err_def seam_run_def Let_def
      split: prod.splits option.splits sum.splits)

lemma mark_retired_outcome:
  assumes "require_agent ''spawn: mark_retired step'' c = Inr sc" "retire_result_from_context c = Some p"
    and "mark_retired_execute M c w = (w', r)" "rr_archive_uri (rw_results w p) = uri" "uri \<noteq> []"
  shows "(r \<noteq> None \<and> st_calls (rw_env w') = st_calls (rw_env w))
    \<or> st_calls (rw_env w') = st_calls (rw_env w) @ [CallMarkRetired (sx_agent_id sc) uri]"
  using assms(3-5)
  by (auto simp: mark_retired_execute_def assms(1,2) on_env_def step_ctx_err_def seam_run_def Let_def
      split: prod.splits option.splits)

lemma retire_forward:
  assumes "spawn_context_from_context c = Some sc" "sx_agent_id sc \<noteq> uuid_nil"
    and "retire_result_from_context c = Some p"
    and "saga_forward c (retire_saga_steps A M) w = (ok, f, w')"
  shows "\<exists>calls. st_calls (rw_env w') = st_calls (rw_env w) @ calls
    \<and> retire_outcome A (fst (na_archiver A c (sx_agent_id sc) (st_env (rw_env w)))) (sx_agent_id sc) (f = None) calls"
proof -
  let ?ar = "fst (na_archiver A c (sx_agent_id sc) (st_env (rw_env w)))"
  have ctx: "require_agent msg c = Inr sc" for msg
    using assms(1,2) by (simp add: require_agent_def)
  obtain w1 r1 where 1: "notebook_archive_execute A c w = (w1, r1)"
    by fastforce
  obtain w2 r2 where 2: "mark_retired_execute M c w1 = (w2, r2)"
    by fastforce
  have f: "f = None \<longleftrightarrow> r1 = None \<and> r2 = None" "w' = (if r1 = None then w2 else w1)"
    using assms(4) 1 2
    by (auto simp: retire_saga_steps_def notebook_archive_step_def mark_retired_step_def split: option.splits)
  note arch = notebook_archive_outcome [OF ctx assms(3) 1 refl]
  show ?thesis
  proof (cases r1)
    case None
    with arch obtain uri where uri: "?ar = Inr uri" "archive_uri_error (na_url_scheme A) uri = None"
      "rr_archive_uri (rw_results w1 p) = uri"
      "st_calls (rw_env w1) = st_calls (rw_env w) @ [CallArchiveNotebook (sx_agent_id sc)]"
      by auto
    from mark_retired_outcome [OF ctx assms(3) 2 uri(3) archive_uri_nonempty [OF uri(2)]] show ?thesis
      using uri f None by (auto simp: retire_outcome_def)
  next
    case (Some e)
    with arch f show ?thesis
      by (auto simp: retire_outcome_def split: sum.split)
  qed
qed

text \<open>
  A watchkeeper is archived before it is retired. On a fresh retire kickoff the retirer is
  called at most once, only after the archiver has answered a well-formed URI for the same
  watchkeeper in the same run, and with that URI; the kickoff succeeds only if that call was made.
\<close>

theorem retire_archives_first:
  assumes "kk_dao k = mem_ops" "mem_inv (run_dao st)" "kickoff_args_ok sid mv wk tok"
    and "\<forall>h ev. kk_logger k h ev = None" "md_rows (run_dao st) sid = None"
    and "\<forall>j r. md_rows (run_dao st) j = Some r \<longrightarrow> sg_idempotency_key r \<noteq> tok"
    and "kk_steps k = retire_saga_steps A M"
    and "c' = with_retire_result (with_spawn_context c
               (kickoff_spawn_context (ids_row sid mv wk tok) claim)) (rw_next (run_world st))"
  shows "\<exists>st' r calls. retire_kickoff k c sid mv wk claim tok st = (st', r)
    \<and> st_calls (rw_env (run_world st')) = st_calls (rw_env (run_world st)) @ calls
    \<and> retire_outcome A (fst (na_archiver A c' wk (st_env (rw_env (run_world st))))) wk (r = None) calls"
proof -
  obtain w0 p where p: "new_retire_result (run_world st) = (w0, p)"
    by fastforce
  then have w0: "p = rw_next (run_world st)" "rw_env w0 = rw_env (run_world st)"
    by (auto simp: new_retire_result_def)
  obtain ok f w1 where fwd: "saga_forward c' (retire_saga_steps A M) w0 = (ok, f, w1)"
    by (metis prod_cases3)
  have ctx: "spawn_context_from_context c' = Some (kickoff_spawn_context (ids_row sid mv wk tok) claim)"
    "retire_result_from_context c' = Some p"
    by (simp_all add: assms(8) with_retire_result_def spawn_context_from_context_def
        with_spawn_context_def retire_result_from_context_def w0)
  have wk: "sx_agent_id (kickoff_spawn_context (ids_row sid mv wk tok) claim) = wk" "wk \<noteq> uuid_nil"
    using assms(3) by (simp_all add: kickoff_spawn_context_def kickoff_args_ok_def)
  obtain calls where calls: "st_calls (rw_env w1) = st_calls (rw_env w0) @ calls"
    "retire_outcome A (fst (na_archiver A c' wk (st_env (rw_env w0)))) wk (f = None) calls"
    using retire_forward [OF ctx(1) _ ctx(2) fwd] wk by auto
  have "set (rev ok) \<subseteq> set (retire_saga_steps A M)"
    using saga_forward_prefix [OF fwd] set_mono_prefix by fastforce
  then have nocomp: "\<forall>s \<in> set (rev ok). step_compensate s = None"
    by (auto simp: retire_saga_steps_def notebook_archive_step_def mark_retired_step_def)
  have "snd (saga_rollback d i ss w) = w" if "\<forall>s \<in> set ss. step_compensate s = None" for d i ss w
    using that by (induction ss) auto
  note roll = this [OF nocomp]
  obtain trail r where spec: "saga_spec c' sid [] (kk_steps k) w0 = (trail, w1, r)" "r = None \<longleftrightarrow> f = None"
    using fwd roll by (cases f) (auto simp: saga_spec_def assms(7) split_beta)
  note run = retire_kickoff_outcomes [OF assms(1-4), of sid undefined c claim w0 p trail w1 r]
  have "\<exists>st'. retire_kickoff k c sid mv wk claim tok st
      = (st', map_option (errorf ''spawn: retire kickoff: run saga'') r) \<and> run_world st' = w1"
    using run assms(5,6) p spec(1) unfolding assms(8) w0(1) [symmetric] by blast
  then show ?thesis
    using calls w0 spec(2) by auto
qed

section \<open>A step that fails after the platform acted\<close>

text \<open>
  A failed step leaves no platform artefact behind uncared for. The runner does not compensate
  the step that failed; when \<open>create_app\<close> or \<open>oauth_install\<close> fails after its sink was called, the
  step's own last call undoes the app or the installation it was just told about, by its id or token.
\<close>

theorem partial_success_cleaned_up:
  assumes "spawn_ids_ok c sc" "ctx_err c (st_ctx_reads w) = None"
  shows "(ca_installer A = Some rpc \<and> rpc c (create_app_request_of A sc) (sx_claim sc) (st_env w)
           = (SinkCalled creds k, env) \<and> create_app_execute A c w = (w', Some e) \<longrightarrow>
         st_calls w' = st_calls w @ [CallCreateApp (ca_app_name A),
           CallTeardownApp (sx_agent_id sc) (cc_app_id creds)])
    \<and> (cd_get (oi_creds_dao U) (st_creds w) (sx_agent_id sc) = Inr app
        \<and> oi_installer U c (cc_app_id app) (oi_workspace_id U) (oauth_install_params U sc app) (st_env w)
           = (SinkCalled t k', env') \<and> oauth_execute U c w = (w'', Some e') \<and> sx_oauth_code sc \<noteq> [] \<longrightarrow>
         st_calls w'' = st_calls w @ [CallInstallApp (cc_app_id app),
           CallRevoke (sx_agent_id sc) (it_access_token t)])"
proof (intro conjI impI; elim conjE)
  assume rpc: "ca_installer A = Some rpc"
    "rpc c (create_app_request_of A sc) (sx_claim sc) (st_env w) = (SinkCalled creds k, env)"
    and ex: "create_app_execute A c w = (w', Some e)"
  have sink: "st_calls (snd (create_app_sink A i cr v)) = st_calls v" for i cr v
    by (simp add: create_app_sink_def split: prod.split)
  show "st_calls w' = st_calls w @ [CallCreateApp (ca_app_name A),
      CallTeardownApp (sx_agent_id sc) (cc_app_id creds)]"
    using ex
    by (auto simp: create_app_execute_def step_ctx_err_def assms(2) spawn_ids_okD [OF assms(1)] Let_def
        rpc create_app_finish_def sink case_prod_beta split: option.splits)
next
  assume app: "cd_get (oi_creds_dao U) (st_creds w) (sx_agent_id sc) = Inr app" "sx_oauth_code sc \<noteq> []"
    "oi_installer U c (cc_app_id app) (oi_workspace_id U) (oauth_install_params U sc app) (st_env w)
       = (SinkCalled t k', env')"
    and ex: "oauth_execute U c w = (w'', Some e')"
  have sink: "st_calls (snd (oauth_sink U c i tk v)) = st_calls v" for i tk v
    by (simp add: oauth_sink_def encrypt_if_non_empty_def expiry_from_expires_in_def
        split: prod.split sum.split)
  show "st_calls w'' = st_calls w @ [CallInstallApp (cc_app_id app),
      CallRevoke (sx_agent_id sc) (it_access_token t)]"
    using ex
    by (auto simp: oauth_execute_def step_ctx_err_def assms(2) spawn_ids_okD [OF assms(1)] Let_def
        app oauth_finish_def sink case_prod_beta split: option.splits)
qed

text \<open>
  The stored tokens are another matter: where the installer answers an error although the sink had
  succeeded, the failed step revokes the token and leaves its ciphertexts in the store.
\<close>

lemma failed_install_keeps_tokens:
  assumes "oi_creds_dao U = mem_creds_ops" "oauth_sink U c (sx_agent_id sc) t w = (None, w1)"
    and "k None = Some err" "\<forall>c i x d env. fst (snd (oi_revoker U c i x d env)) = d"
  shows "\<exists>w' e. oauth_finish U c sc (SinkCalled t k) w = (w', Some e)
    \<and> mc_tokens (st_creds w') (sx_agent_id sc) \<noteq> None"
proof -
  obtain m where "mc_tokens (st_creds w1) = (mc_tokens (st_creds w))(sx_agent_id sc \<mapsto> m)"
    using mcr.oauth_sink_stores [OF assms(1,2)] by blast
  then show ?thesis
    using assms(2-4) by (simp add: oauth_finish_def oauth_revoke_def case_prod_beta)
qed

section \<open>Witnesses\<close>

definition demo_creds :: create_app_credentials where
  "demo_creds = \<lparr>cc_app_id = ''A1'', cc_client_id = ''id'', cc_client_secret = ''s'',
     cc_verification_token = [], cc_signing_secret = []\<rparr>"

definition demo_tokens :: install_tokens where
  "demo_tokens = \<lparr>it_app_id = ''A1'', it_team_id = ''T'', it_enterprise_id = [], it_access_token = ''xoxb'',
     it_refresh_token = [], it_expires_in = 0, it_user_access_token = [], it_user_scope = [],
     it_is_enterprise_install = False\<rparr>"

definition demo_app_deps :: "(spawn_ctx, mem_creds, unit) create_app_deps" where
  "demo_app_deps =
     \<lparr>ca_rpc = (\<lambda>_ _ _ w. (None, w)), ca_installer = Some (\<lambda>_ _ _ w. (SinkCalled demo_creds id, w)),
      ca_creds_dao = mem_creds_ops, ca_teardown = (\<lambda>_ _ _ d w. (None, d, w)), ca_app_name = ''bot'',
      ca_app_description = [], ca_scopes = [], ca_approval_token = ''tok''\<rparr>"

definition demo_oauth_deps :: "(spawn_ctx, mem_creds, unit) oauth_deps" where
  "demo_oauth_deps =
     \<lparr>oi_installer = (\<lambda>_ _ _ _ w. (SinkCalled demo_tokens id, w)), oi_creds_dao = mem_creds_ops,
      oi_encrypt = (\<lambda>_ s w. (Inr (''ct:'' @ s), w)), oi_revoker = (\<lambda>_ _ _ d w. (None, d, w)),
      oi_workspace_id = ''W'', oi_redirect_uri = [], oi_now = (\<lambda>_. \<lparr>gt_sec = 0, gt_nsec = 0\<rparr>)\<rparr>"

text \<open>A profile setter that is down.\<close>

definition demo_profile_deps :: "(spawn_ctx, unit) bot_profile_deps" where
  "demo_profile_deps =
     \<lparr>bd_setter = (\<lambda>_ _ _ w. (Some [Text ''down''], w)),
      bd_profile = \<lparr>bp_display_name = ''Bot'', bp_status_text = [], bp_avatar_png = [], bp_metadata = Map.empty\<rparr>\<rparr>"

definition demo_notebook_deps :: "(spawn_ctx, unit) notebook_deps" where
  "demo_notebook_deps =
     \<lparr>nd_provisioner = (\<lambda>_ _ _ w. (None, w)), nd_archiver = (\<lambda>_ _ w. (Inr ''s3://a'', w)),
      nd_profile = \<lparr>np_personality = [], np_language = []\<rparr>, nd_url_scheme = (\<lambda>_. Some ''s3'')\<rparr>"

definition demo_runtime_deps :: "(spawn_ctx, unit) runtime_deps" where
  "demo_runtime_deps =
     \<lparr>rd_launcher = (\<lambda>_ _ _ _ w. (None, w)), rd_teardown = (\<lambda>_ _ _ w. (None, w)),
      rd_profile = \<lparr>rl_personality = [], rl_language = [], rl_intro_text = []\<rparr>\<rparr>"

definition demo_spawn_context :: spawn_context where
  "demo_spawn_context = \<lparr>sx_manifest_version_id = 2, sx_agent_id = 3, sx_claim = demo_claim, sx_oauth_code = ''code''\<rparr>"

definition demo_spawn_ctx :: spawn_ctx where
  "demo_spawn_ctx = with_spawn_context demo_ctx demo_spawn_context"

definition demo_step_world :: "(mem_creds, unit) step_world" where
  "demo_step_world = \<lparr>st_creds = new_mem_creds (\<lambda>_. \<lparr>gt_sec = 0, gt_nsec = 0\<rparr>), st_env = (),
     st_ctx_reads = 0, st_clock_reads = 0, st_calls = []\<rparr>"

definition demo_spawn_start :: "(mem_dao, (mem_creds, unit) step_world) saga_run" where
  "demo_spawn_start = \<lparr>run_dao = fst (mem_insert_if_absent (new_mem_dao int) 1 2 3 ''tok''),
     run_log = [], run_world = demo_step_world\<rparr>"

lemma demo_spawn_ids: "spawn_ids_ok demo_spawn_ctx demo_spawn_context"
  by (simp add: spawn_ids_ok_def demo_spawn_ctx_def demo_spawn_context_def)

lemma demo_ctx_live [simp]: "ctx_err demo_spawn_ctx n = None" "ctx_err demo_ctx n = None"
  by (simp_all add: demo_spawn_ctx_def demo_ctx_def)

lemmas demo_step_defs =
  create_app_step_def oauth_step_def bot_profile_step_def create_app_execute_def oauth_execute_def
  bot_profile_execute_def step_ctx_err_def create_app_finish_def oauth_finish_def create_app_sink_def
  oauth_sink_def encrypt_if_non_empty_def expiry_from_expires_in_def seam_run_def step_call_def
  demo_app_deps_def demo_oauth_deps_def demo_profile_deps_def demo_creds_def demo_tokens_def
  demo_step_world_def demo_spawn_context_def mem_creds_put_def mem_creds_get_def
  mem_creds_put_install_tokens_def new_mem_creds_def

lemma demo_spawn_forward:
  obtains s e w1 where
    "saga_forward demo_spawn_ctx (spawn_saga_steps demo_app_deps demo_oauth_deps demo_profile_deps
        demo_notebook_deps demo_runtime_deps) demo_step_world
       = ([create_app_step demo_app_deps, oauth_step demo_oauth_deps], Some (s, e), w1)"
    "st_calls w1 = [CallCreateApp ''bot'', CallInstallApp ''A1'', CallSetBotProfile 3]"
  by (simp add: spawn_saga_steps_def demo_step_defs spawn_ids_okD [OF demo_spawn_ids])

theorem failed_spawn_rolls_back_witness:
  "\<exists>st' e. saga_runner_run mem_ops demo_spawn_ctx 1 (spawn_saga_steps demo_app_deps demo_oauth_deps
      demo_profile_deps demo_notebook_deps demo_runtime_deps) demo_spawn_start = (st', Some e)
    \<and> st_calls (run_world st') = [CallCreateApp ''bot'', CallInstallApp ''A1'', CallSetBotProfile 3,
        CallRevoke 3 [], CallTeardownApp 3 []]
    \<and> mc_tokens (st_creds (run_world st')) 3 = None"
proof (rule demo_spawn_forward)
  fix s e w1
  assume fwd: "saga_forward demo_spawn_ctx (spawn_saga_steps demo_app_deps demo_oauth_deps demo_profile_deps
        demo_notebook_deps demo_runtime_deps) demo_step_world
       = ([create_app_step demo_app_deps, oauth_step demo_oauth_deps], Some (s, e), w1)"
    and w1: "st_calls w1 = [CallCreateApp ''bot'', CallInstallApp ''A1'', CallSetBotProfile 3]"
  have blank: "\<not> blank ''tok''" by code_simp
  have inv: "mem_inv (run_dao demo_spawn_start)"
    by (simp add: demo_spawn_start_def mem_inv_insert_if_absent mem_inv_new)
  obtain row where row: "md_rows (run_dao demo_spawn_start) 1 = Some row"
    using blank by (simp add: demo_spawn_start_def mem_insert_if_absent_def new_mem_dao_def Let_def)
  have deps: "oi_creds_dao demo_oauth_deps = mem_creds_ops" "teardown_adds_no_token demo_app_deps"
    by (simp_all add: demo_oauth_deps_def demo_app_deps_def teardown_adds_no_token_def)
  have "run_world demo_spawn_start = demo_step_world"
    by (simp add: demo_spawn_start_def)
  with failed_spawn_rolls_back [OF inv row demo_spawn_ids _ deps] fwd show ?thesis
    by (fastforce simp: w1 undo_calls_def create_app_step_def oauth_step_def demo_spawn_context_def)
qed

definition demo_install_kick :: "(mem_dao, spawn_ctx, (mem_creds, unit) step_world) kickoffer" where
  "demo_install_kick = \<lparr>kk_logger = (\<lambda>_ _. None), kk_dao = mem_ops, kk_agent_id = ''bot'',
     kk_steps = [create_app_step demo_app_deps] @ oauth_step demo_oauth_deps # []\<rparr>"

definition demo_install_start :: "(mem_dao, (mem_creds, unit) step_world) saga_run" where
  "demo_install_start = \<lparr>run_dao = new_mem_dao int, run_log = [], run_world = demo_step_world\<rparr>"

text \<open>The app is created, and then the saga stops at the install step.\<close>

theorem kickoff_stops_at_install_witness:
  "\<exists>st' e. spawn_kickoff demo_install_kick demo_ctx 1 2 3 demo_claim ''tok'' demo_install_start = (st', Some e)
     \<and> errors_is e ErrMissingOAuthCode"
proof -
  let ?c = "with_spawn_context demo_ctx (kickoff_spawn_context (ids_row 1 2 3 ''tok'') demo_claim)"
  have ids: "spawn_ids_ok ?c (kickoff_spawn_context (ids_row 1 2 3 ''tok'') demo_claim)"
    by (simp add: spawn_ids_ok_def kickoff_spawn_context_def)
  have "\<exists>w1. saga_forward ?c [create_app_step demo_app_deps] demo_step_world
      = ([create_app_step demo_app_deps], None, w1)"
    by (simp add: demo_step_defs spawn_ids_okD [OF ids])
  then obtain w1 where fwd: "saga_forward ?c [create_app_step demo_app_deps] (run_world demo_install_start)
      = ([create_app_step demo_app_deps], None, w1)"
    by (auto simp: demo_install_start_def)
  have start: "mem_inv (run_dao demo_install_start)" "md_rows (run_dao demo_install_start) 1 = None"
    "\<forall>j r. md_rows (run_dao demo_install_start) j = Some r \<longrightarrow> sg_idempotency_key r \<noteq> ''tok''"
    using mem_inv_new [of int] by (simp_all add: demo_install_start_def new_mem_dao_def)
  have kick: "kk_dao demo_install_kick = mem_ops"
    "kk_logger demo_install_kick h e = None"
    "kk_steps demo_install_kick = [create_app_step demo_app_deps] @ oauth_step demo_oauth_deps # []" for h e
    by (simp_all add: demo_install_kick_def)
  from kickoff_stops_at_install [OF kick(1) start(1) demo_args_ok(1) start(2,3) kick(2,3) _ refl fwd]
  show ?thesis
    by (auto simp: demo_ctx_def)
qed

text \<open>A notebook store that answers a well-formed address, and a row writer that accepts.\<close>

definition demo_archive_deps :: "(retire_ctx, unit) notebook_archive_deps" where
  "demo_archive_deps = \<lparr>na_archiver = (\<lambda>_ _ w. (Inr ''s3://a'', w)), na_url_scheme = (\<lambda>_. Some ''s3'')\<rparr>"

definition demo_mark_deps :: "(retire_ctx, unit) mark_retired_deps" where
  "demo_mark_deps = \<lparr>mr_retirer = (\<lambda>_ _ _ w. (None, w))\<rparr>"

definition demo_retire_run :: "(mem_dao, retire_ctx, (mem_creds, unit) step_world retire_world) kickoffer" where
  "demo_retire_run = \<lparr>kk_logger = (\<lambda>_ _. None), kk_dao = mem_ops, kk_agent_id = ''bot'',
     kk_steps = retire_saga_steps demo_archive_deps demo_mark_deps\<rparr>"

definition demo_retire_run_start :: "(mem_dao, (mem_creds, unit) step_world retire_world) saga_run" where
  "demo_retire_run_start = \<lparr>run_dao = new_mem_dao int, run_log = [],
     run_world = \<lparr>rw_next = 0, rw_results = (\<lambda>_. \<lparr>rr_archive_uri = []\<rparr>), rw_env = demo_step_world\<rparr>\<rparr>"

theorem retire_archives_first_witness:
  "\<exists>st' r calls. retire_kickoff demo_retire_run demo_retire_ctx 1 2 3 demo_claim ''tok'' demo_retire_run_start
      = (st', r)
    \<and> st_calls (rw_env (run_world st')) = calls \<and> retire_outcome demo_archive_deps (Inr ''s3://a'') 3 (r = None) calls"
proof -
  have start: "mem_inv (run_dao demo_retire_run_start)" "md_rows (run_dao demo_retire_run_start) 1 = None"
    "\<forall>j r. md_rows (run_dao demo_retire_run_start) j = Some r \<longrightarrow> sg_idempotency_key r \<noteq> ''tok''"
    using mem_inv_new [of int] by (simp_all add: demo_retire_run_start_def new_mem_dao_def)
  have kick: "kk_dao demo_retire_run = mem_ops" "\<forall>h ev. kk_logger demo_retire_run h ev = None"
    "kk_steps demo_retire_run = retire_saga_steps demo_archive_deps demo_mark_deps"
    by (simp_all add: demo_retire_run_def)
  from retire_archives_first [OF kick(1) start(1) demo_args_ok(1) kick(2) start(2,3) kick(3) refl,
      of demo_retire_ctx demo_claim]
  show ?thesis
    by (simp add: demo_archive_deps_def demo_retire_run_start_def demo_step_world_def)
qed

text \<open>The store already holds credentials for the watchkeeper, so the sink of \<open>create_app\<close> fails.\<close>

definition demo_full_world :: "(mem_creds, unit) step_world" where
  "demo_full_world = demo_step_world\<lparr>st_creds := fst (mem_creds_put (st_creds demo_step_world) 3 demo_creds)\<rparr>"

theorem partial_success_cleaned_up_witness:
  "\<exists>w' e. create_app_execute demo_app_deps demo_spawn_ctx demo_full_world = (w', Some e)
     \<and> st_calls w' = [CallCreateApp ''bot'', CallTeardownApp 3 ''A1'']"
proof -
  have "\<exists>w' e. create_app_execute demo_app_deps demo_spawn_ctx demo_full_world = (w', Some e)"
    by (simp add: demo_full_world_def demo_step_defs spawn_ids_okD [OF demo_spawn_ids]
        case_prod_beta)
  then obtain w' e where ex: "create_app_execute demo_app_deps demo_spawn_ctx demo_full_world = (w', Some e)"
    by blast
  have "ca_installer demo_app_deps = Some (\<lambda>_ _ _ w. (SinkCalled demo_creds id, w))"
    by (simp add: demo_app_deps_def)
  then show ?thesis
    using partial_success_cleaned_up [OF demo_spawn_ids, of demo_full_world demo_app_deps
        "\<lambda>_ _ _ w. (SinkCalled demo_creds id, w)" demo_creds id "()" w' e] ex
    by (simp add: demo_full_world_def demo_step_world_def demo_app_deps_def
        demo_creds_def demo_spawn_context_def)
qed

end
