(* ===== verification/KeepAuth.thy ===== *)
theory KeepAuth
  imports Prelude
begin

text \<open>
  Who may talk to the Keep server (\<^verbatim>\<open>core/internal/keep/auth/auth.go\<close>,
  \<^verbatim>\<open>server/middleware.go\<close>, and the role map of \<^verbatim>\<open>db/scope.go\<close>). HMAC-SHA256, base64 and the
  two JSON decodings are arguments; an error text is dropped, its sentinels are kept.
\<close>

section \<open>Claims and scopes\<close>

record keep_claim =
  kc_subject :: string
  kc_scope :: string
  kc_organization_id :: string
  kc_issuer :: string
  kc_expires_at :: gotime
  kc_issued_at :: gotime

abbreviation ErrMalformed :: string where "ErrMalformed \<equiv> ''malformed token''"
abbreviation ErrBadTokenSignature :: string where "ErrBadTokenSignature \<equiv> ''bad signature''"
abbreviation ErrBadIssuer :: string where "ErrBadIssuer \<equiv> ''bad issuer''"
abbreviation ErrExpiredToken :: string where "ErrExpiredToken \<equiv> ''expired token''"
abbreviation ErrBadScope :: string where "ErrBadScope \<equiv> ''bad scope''"
abbreviation ErrMissingToken :: string where "ErrMissingToken \<equiv> ''missing token''"

text \<open>\<open>strings.CutPrefix\<close>.\<close>

definition cut_prefix :: "string \<Rightarrow> string \<Rightarrow> string option" where
  "cut_prefix s p = (if prefix p s then Some (drop (length p) s) else None)"

definition valid_scope :: "string \<Rightarrow> bool" where
  "valid_scope s \<longleftrightarrow>
     s = ''org''
     \<or> (case cut_prefix s ''user:'' of Some rest \<Rightarrow> rest \<noteq> [] | None \<Rightarrow> False)
     \<or> (case cut_prefix s ''agent:'' of Some rest \<Rightarrow> rest \<noteq> [] | None \<Rightarrow> False)"

datatype db_role = RoleOrg | RoleUser | RoleAgent

text \<open>The comparison of the code is on the slice \<open>scope[:len("user:")]\<close>, of a longer string.\<close>

definition role_for_scope :: "string \<Rightarrow> goerr + db_role" where
  "role_for_scope s =
     (if s = ''org'' then Inr RoleOrg
      else if length s > 5 \<and> take 5 s = ''user:'' then Inr RoleUser
      else if length s > 6 \<and> take 6 s = ''agent:'' then Inr RoleAgent
      else Inl (errorf_is ErrBadScope []))"

lemma cut_prefix_take: "cut_prefix s p = Some rest \<longleftrightarrow> s = p @ rest"
  by (auto simp: cut_prefix_def prefix_def)

lemma take_longer: "length s > length p \<and> take (length p) s = p \<longleftrightarrow> (\<exists>rest. s = p @ rest \<and> rest \<noteq> [])"
  by (metis append_Nil2 append_eq_conv_conj append_take_drop_id drop_eq_Nil2 length_append
      length_greater_0_conv less_add_same_cancel1 linorder_not_less)

section \<open>Tokens\<close>

fun split_char :: "char \<Rightarrow> string \<Rightarrow> string list" where
  "split_char sep [] = [[]]"
| "split_char sep (c # s) =
     (case split_char sep s of
        w # ws \<Rightarrow> if c = sep then [] # w # ws else (c # w) # ws
      | [] \<Rightarrow> [])"

record jwt_payload =
  jp_subject :: string
  jp_scope :: string
  jp_organization_id :: string
  jp_issuer :: string
  jp_expires_at :: int
  jp_issued_at :: int

text \<open>The JSON decodings answer \<open>None\<close> on an error; the header is its \<open>alg\<close> and \<open>typ\<close>.\<close>

record hmac_verifier =
  hv_key :: string
  hv_issuer :: string
  hv_now :: gotime
  hv_hmac :: "string \<Rightarrow> string \<Rightarrow> string"
  hv_base64 :: "string \<Rightarrow> string option"
  hv_header_json :: "string \<Rightarrow> (string \<times> string) option"
  hv_payload_json :: "string \<Rightarrow> jwt_payload option"

definition min_signing_key_bytes :: nat where "min_signing_key_bytes = 32"

definition new_hmac_verifier :: "hmac_verifier \<Rightarrow> goerr + hmac_verifier" where
  "new_hmac_verifier v =
     (if length (hv_key v) < min_signing_key_bytes then Inl [Text ''auth: signing key must be >= 32 bytes'']
      else if hv_issuer v = [] then Inl [Text ''auth: issuer must not be empty'']
      else Inr v)"

definition time_before :: "gotime \<Rightarrow> gotime \<Rightarrow> bool" where
  "time_before t u \<longleftrightarrow> gt_sec t < gt_sec u \<or> gt_sec t = gt_sec u \<and> gt_nsec t < gt_nsec u"

definition malformed :: "string \<Rightarrow> goerr" where
  "malformed msg = [Text msg, Sentinel ErrMalformed]"

definition verify_payload :: "hmac_verifier \<Rightarrow> jwt_payload \<Rightarrow> goerr + keep_claim" where
  "verify_payload v p =
     (if jp_issuer p \<noteq> hv_issuer v then Inl (errorf_is ErrBadIssuer [])
      else if jp_expires_at p = 0 then Inl (malformed ''missing exp'')
      else if \<not> time_before (hv_now v) (time_unix (jp_expires_at p)) then Inl [Sentinel ErrExpiredToken]
      else if \<not> valid_scope (jp_scope p) then Inl (errorf_is ErrBadScope [])
      else Inr \<lparr>kc_subject = jp_subject p, kc_scope = jp_scope p,
             kc_organization_id = jp_organization_id p, kc_issuer = jp_issuer p,
             kc_expires_at = time_unix (jp_expires_at p), kc_issued_at = time_unix (jp_issued_at p)\<rparr>)"

definition verify_segments :: "hmac_verifier \<Rightarrow> string \<Rightarrow> string \<Rightarrow> string \<Rightarrow> goerr + keep_claim" where
  "verify_segments v h p s =
     (case hv_base64 v h of
        None \<Rightarrow> Inl (malformed ''header base64'')
      | Some header_json \<Rightarrow>
          (case hv_header_json v header_json of
             None \<Rightarrow> Inl (malformed ''header json'')
           | Some (alg, typ) \<Rightarrow>
               if alg \<noteq> ''HS256'' \<or> typ \<noteq> ''JWT'' then Inl (malformed ''header alg'')
               else (case hv_base64 v p of
                  None \<Rightarrow> Inl (malformed ''payload base64'')
                | Some payload_json \<Rightarrow>
                    (case hv_base64 v s of
                       None \<Rightarrow> Inl (malformed ''signature base64'')
                     | Some sig \<Rightarrow>
                         if hv_hmac v (hv_key v) (h @ ''.'' @ p) \<noteq> sig then Inl [Sentinel ErrBadTokenSignature]
                         else (case hv_payload_json v payload_json of
                            None \<Rightarrow> Inl (malformed ''payload json'')
                          | Some payload \<Rightarrow> verify_payload v payload)))))"

definition verify_token :: "hmac_verifier \<Rightarrow> string \<Rightarrow> goerr + keep_claim" where
  "verify_token v token =
     (case split_char (CHR ''.'') token of
        [h, p, s] \<Rightarrow> if token = [] then Inl (malformed ''want three segments'') else verify_segments v h p s
      | _ \<Rightarrow> Inl (malformed ''want three segments''))"

section \<open>The middleware\<close>

text \<open>
  A response: an error envelope with its status, code and reason, a JSON body, or a status alone.
\<close>

datatype 'r http_response =
    RespError nat string string
  | RespJSON nat 'r
  | RespNoContent

definition ascii_lower :: "char \<Rightarrow> char" where
  "ascii_lower c = (if 65 \<le> (of_char c :: nat) \<and> of_char c \<le> (90 :: nat) then char_of (of_char c + 32 :: nat) else c)"

text \<open>
  \<open>strings.EqualFold\<close> with \<open>"Bearer "\<close>: none of its letters has a case variant outside ASCII.
\<close>

definition bearer_token :: "string \<Rightarrow> string option" where
  "bearer_token header =
     (if header = [] then None
      else if length header < 7 \<or> map ascii_lower (take 7 header) \<noteq> ''bearer '' then None
      else (let tok = trim_space (drop 7 header) in if tok = [] then None else Some tok))"

definition reason_for :: "goerr \<Rightarrow> string" where
  "reason_for e =
     (if errors_is e ErrMissingToken then ''missing_token''
      else if errors_is e ErrBadTokenSignature then ''bad_signature''
      else if errors_is e ErrExpiredToken then ''expired''
      else if errors_is e ErrBadScope then ''bad_scope''
      else if errors_is e ErrBadIssuer then ''bad_issuer''
      else ''bad_token'')"

definition write_auth_error :: "string \<Rightarrow> 'r http_response" where
  "write_auth_error reason = RespError 401 ''unauthorized'' reason"

text \<open>
  \<open>next\<close> is the handler behind the middleware, a function of the claim it finds in its context and
  of the state it works on.
\<close>

definition auth_middleware ::
  "hmac_verifier \<Rightarrow> string \<Rightarrow> (keep_claim \<Rightarrow> 's \<Rightarrow> 'r http_response \<times> 's) \<Rightarrow> 's \<Rightarrow> 'r http_response \<times> 's" where
  "auth_middleware v header next st =
     (case bearer_token header of
        None \<Rightarrow> (write_auth_error ''missing_token'', st)
      | Some token \<Rightarrow>
          (case verify_token v token of
             Inl e \<Rightarrow> (write_auth_error (reason_for e), st)
           | Inr claim \<Rightarrow> next claim st))"

section \<open>What an accepted token shows\<close>

lemma split_char_nonempty [simp]: "split_char sep s \<noteq> []"
  by (induction s) (auto split: list.split)

lemma split_char_join: "split_char sep s = w # ws \<Longrightarrow> s = w @ concat (map (\<lambda>x. sep # x) ws)"
  by (induction s arbitrary: w ws) (auto split: list.splits if_splits)

lemma split_char_parts: "w \<in> set (split_char sep s) \<Longrightarrow> sep \<notin> set w"
proof (induction s arbitrary: w)
  case (Cons c s)
  then show ?case
    by (cases "split_char sep s") (auto split: if_splits)
qed simp

lemma split_char_intro: "\<forall>x \<in> set (w # ws). sep \<notin> set x
    \<Longrightarrow> split_char sep (w @ concat (map (\<lambda>x. sep # x) ws)) = w # ws"
proof (induction ws arbitrary: w)
  case Nil
  then show ?case by (induction w) auto
next
  case (Cons x ws)
  then show ?case by (induction w) auto
qed

lemma split_char_three:
  "split_char sep t = [h, p, s] \<longleftrightarrow>
     t = h @ [sep] @ p @ [sep] @ s \<and> sep \<notin> set h \<and> sep \<notin> set p \<and> sep \<notin> set s"
  using split_char_join [of sep t h "[p, s]"] split_char_parts [of _ sep t]
    split_char_intro [of h "[p, s]" sep] by (auto 0 4)

lemma role_for_scope_valid: "(\<exists>r. role_for_scope s = Inr r) \<longleftrightarrow> valid_scope s"
proof -
  have "valid_scope s \<longleftrightarrow> s = ''org''
      \<or> (\<exists>rest. s = ''user:'' @ rest \<and> rest \<noteq> []) \<or> (\<exists>rest. s = ''agent:'' @ rest \<and> rest \<noteq> [])"
    by (auto simp: valid_scope_def cut_prefix_def prefix_def split: option.splits)
  then show ?thesis
    using take_longer [of "''user:''" s] take_longer [of "''agent:''" s]
    by (simp add: role_for_scope_def numeral_eq_Suc)
qed

lemma verify_payload_ok:
  "verify_payload v p = Inr c \<longleftrightarrow>
     jp_issuer p = hv_issuer v \<and> jp_expires_at p \<noteq> 0
     \<and> time_before (hv_now v) (time_unix (jp_expires_at p)) \<and> valid_scope (jp_scope p)
     \<and> c = \<lparr>kc_subject = jp_subject p, kc_scope = jp_scope p,
             kc_organization_id = jp_organization_id p, kc_issuer = jp_issuer p,
             kc_expires_at = time_unix (jp_expires_at p), kc_issued_at = time_unix (jp_issued_at p)\<rparr>"
  by (auto simp: verify_payload_def)

lemma verify_segments_ok:
  "verify_segments v h p s = Inr c \<longleftrightarrow>
     (\<exists>hj pj payload. hv_base64 v h = Some hj \<and> hv_header_json v hj = Some (''HS256'', ''JWT'')
        \<and> hv_base64 v p = Some pj \<and> hv_base64 v s = Some (hv_hmac v (hv_key v) (h @ ''.'' @ p))
        \<and> hv_payload_json v pj = Some payload \<and> verify_payload v payload = Inr c)"
  by (auto simp: verify_segments_def split: option.splits if_splits)

text \<open>What a token must be to speak for a claim.\<close>

definition signed_grant :: "hmac_verifier \<Rightarrow> string \<Rightarrow> keep_claim \<Rightarrow> bool" where
  "signed_grant v token c \<longleftrightarrow>
     (\<exists>h p s hj pj payload.
        token = h @ ''.'' @ p @ ''.'' @ s \<and> CHR ''.'' \<notin> set h \<and> CHR ''.'' \<notin> set p \<and> CHR ''.'' \<notin> set s
        \<and> hv_base64 v s = Some (hv_hmac v (hv_key v) (h @ ''.'' @ p))
        \<and> hv_base64 v h = Some hj \<and> hv_header_json v hj = Some (''HS256'', ''JWT'')
        \<and> hv_base64 v p = Some pj \<and> hv_payload_json v pj = Some payload
        \<and> jp_issuer payload = hv_issuer v \<and> jp_expires_at payload \<noteq> 0
        \<and> time_before (hv_now v) (kc_expires_at c) \<and> (\<exists>r. role_for_scope (kc_scope c) = Inr r)
        \<and> c = \<lparr>kc_subject = jp_subject payload, kc_scope = jp_scope payload,
               kc_organization_id = jp_organization_id payload, kc_issuer = jp_issuer payload,
               kc_expires_at = time_unix (jp_expires_at payload),
               kc_issued_at = time_unix (jp_issued_at payload)\<rparr>)"

lemma verify_token_ok: "verify_token v token = Inr c \<longleftrightarrow> signed_grant v token c"
proof
  assume "verify_token v token = Inr c"
  then obtain h p s where "split_char (CHR ''.'') token = [h, p, s]" "verify_segments v h p s = Inr c"
    by (auto simp: verify_token_def split: list.splits if_splits)
  then show "signed_grant v token c"
    unfolding signed_grant_def verify_segments_ok verify_payload_ok split_char_three role_for_scope_valid
    by (auto 0 4)
next
  assume "signed_grant v token c"
  then obtain h p s where seg: "split_char (CHR ''.'') token = [h, p, s]" "verify_segments v h p s = Inr c"
    unfolding signed_grant_def verify_segments_ok verify_payload_ok split_char_three role_for_scope_valid
    by (auto 0 4)
  then show "verify_token v token = Inr c"
    by (auto simp: verify_token_def)
qed

text \<open>
  C10: no handler runs for a request that was not authenticated. Behind the middleware a handler is
  reached exactly when the header carries a bearer token of three segments whose third decodes to
  the HMAC of the first two under the server's key, whose payload names the configured issuer, has
  not expired and has a scope the database has a role for; it is handed the claim of that payload.
  Any other request is answered 401 and changes nothing.
\<close>

theorem middleware_admits_only_signed:
  "(bearer_token header = Some token \<and> signed_grant v token c \<longrightarrow>
      auth_middleware v header next st = next c st)
   \<and> ((\<nexists>token c. bearer_token header = Some token \<and> signed_grant v token c) \<longrightarrow>
      (\<exists>reason. auth_middleware v header next st = (RespError 401 ''unauthorized'' reason, st)))"
proof -
  have "verify_token v t = Inl e \<Longrightarrow> \<not> signed_grant v t c" for t e c
    by (simp flip: verify_token_ok)
  then show ?thesis
    by (auto simp: auth_middleware_def write_auth_error_def simp flip: verify_token_ok
        split: option.split sum.split)
qed

section \<open>Witnesses\<close>

definition demo_payload_jwt :: jwt_payload where
  "demo_payload_jwt = \<lparr>jp_subject = ''w'', jp_scope = ''org'', jp_organization_id = ''o'',
     jp_issuer = ''core'', jp_expires_at = 100, jp_issued_at = 1\<rparr>"

definition demo_verifier :: hmac_verifier where
  "demo_verifier = \<lparr>hv_key = ''k'', hv_issuer = ''core'', hv_now = time_unix 50,
     hv_hmac = (\<lambda>k m. k @ m), hv_base64 = (\<lambda>s. Some (if s = ''s'' then ''kh.p'' else s)),
     hv_header_json = (\<lambda>_. Some (''HS256'', ''JWT'')), hv_payload_json = (\<lambda>_. Some demo_payload_jwt)\<rparr>"

definition demo_claim_keep :: keep_claim where
  "demo_claim_keep = \<lparr>kc_subject = ''w'', kc_scope = ''org'', kc_organization_id = ''o'', kc_issuer = ''core'',
     kc_expires_at = time_unix 100, kc_issued_at = time_unix 1\<rparr>"

theorem middleware_admits_only_signed_witness:
  "auth_middleware demo_verifier ''Bearer h.p.s'' (\<lambda>c n. (RespNoContent, Suc n)) 0
     = ((RespNoContent :: nat http_response), 1 :: nat)
   \<and> auth_middleware demo_verifier ''Bearer h.q.s'' (\<lambda>c n. (RespNoContent, Suc n)) 0
     = (RespError 401 ''unauthorized'' ''bad_signature'', 0)"
proof -
  have bearer: "bearer_token ''Bearer h.p.s'' = Some ''h.p.s''" "bearer_token ''Bearer h.q.s'' = Some ''h.q.s''"
    by code_simp+
  have "time_before (time_unix 50) (time_unix 100)"
    by (simp add: time_before_def time_unix_def unix_to_internal_def wrap64_def)
  then have "signed_grant demo_verifier ''h.p.s'' demo_claim_keep"
    by (simp add: demo_verifier_def demo_payload_jwt_def demo_claim_keep_def valid_scope_def time_unix_def
        verify_segments_def verify_payload_def verify_token_def flip: verify_token_ok)
  moreover have no: "verify_token demo_verifier ''h.q.s'' = Inl [Sentinel ErrBadTokenSignature]"
    by (simp add: demo_verifier_def verify_segments_def verify_token_def)
  then have "\<nexists>token c. bearer_token ''Bearer h.q.s'' = Some token \<and> signed_grant demo_verifier token c"
    by (simp add: bearer flip: verify_token_ok)
  ultimately show ?thesis
    using middleware_admits_only_signed [of "''Bearer h.p.s''" "''h.p.s''" demo_verifier demo_claim_keep
        "\<lambda>c n. (RespNoContent, Suc n)" 0]
      middleware_admits_only_signed [of "''Bearer h.q.s''" undefined demo_verifier undefined
        "\<lambda>c n. (RespNoContent, Suc n)" 0] bearer no
    by (auto simp: auth_middleware_def reason_for_def write_auth_error_def)
qed

end
