(* ===== verification/KeepDB.thy ===== *)
theory KeepDB
  imports KeepAuth Complex_Main
begin

text \<open>
  The database behind the Keep server: the tables of \<^verbatim>\<open>deploy/migrations\<close>, the session that
  \<open>WithScope\<close> (\<^verbatim>\<open>core/internal/keep/db/scope.go\<close>) opens for a claim, and the SQL statements of
  the handlers as operations on the tables, with the row security policies, checks, keys and
  foreign keys the statements run under.
\<close>

section \<open>Rows\<close>

record human_row =
  hu_id :: uuid
  hu_organization_id :: uuid
  hu_display_name :: string
  hu_email :: "string option"
  hu_slack_user_id :: "string option"
  hu_created_at :: int

record manifest_row =
  mf_id :: uuid
  mf_organization_id :: uuid

record version_row =
  mv_id :: uuid
  mv_manifest_id :: uuid
  mv_version_no :: int
  mv_system_prompt :: string
  mv_tools :: string
  mv_authority_matrix :: string
  mv_knowledge_sources :: string
  mv_personality :: "string option"
  mv_language :: "string option"
  mv_model :: "string option"
  mv_autonomy :: "string option"
  mv_notebook_top_k :: "int option"
  mv_notebook_threshold :: "real option"
  mv_created_at :: int

record watchkeeper_row =
  wk_id :: uuid
  wk_manifest_id :: uuid
  wk_lead_human_id :: uuid
  wk_active_version_id :: "uuid option"
  wk_status :: string
  wk_spawned_at :: "int option"
  wk_retired_at :: "int option"
  wk_archive_uri :: "string option"
  wk_created_at :: int

record log_row =
  kl_id :: uuid
  kl_event_type :: string
  kl_correlation_id :: "uuid option"
  kl_actor_watchkeeper_id :: "uuid option"
  kl_actor_human_id :: "uuid option"
  kl_payload :: string
  kl_created_at :: int

record chunk_row =
  ch_id :: uuid
  ch_scope :: string
  ch_subject :: "string option"
  ch_content :: string
  ch_embedding :: "real list"
  ch_created_at :: int

text \<open>The tables, each in the order of insertion, and the number of writes so far.\<close>

record keep_db =
  kd_organizations :: "uuid list"
  kd_humans :: "human_row list"
  kd_manifests :: "manifest_row list"
  kd_versions :: "version_row list"
  kd_watchkeepers :: "watchkeeper_row list"
  kd_log :: "log_row list"
  kd_chunks :: "chunk_row list"
  kd_writes :: nat

section \<open>The server's surroundings\<close>

text \<open>
  What Postgres and its driver do with a value: the text of a UUID, \<open>gen_random_uuid()\<close> and
  \<open>now()\<close> at the n-th write, the cast to \<open>jsonb\<close>, the rounding to \<open>real\<close>, and the nearest chunks of
  an embedding (through an approximate index). What Go's library does with a header and a URI: its
  media type, its scheme.
\<close>

record keep_cfg =
  dc_uuid :: "string \<Rightarrow> uuid option"
  dc_uuid_text :: "uuid \<Rightarrow> string"
  dc_gen :: "nat \<Rightarrow> uuid"
  dc_now :: "nat \<Rightarrow> int"
  dc_jsonb :: "string \<Rightarrow> string option"
  dc_float4 :: "real \<Rightarrow> real option"
  dc_nearest :: "chunk_row list \<Rightarrow> real list \<Rightarrow> nat \<Rightarrow> (chunk_row \<times> real option) list"
  dc_media_type :: "string \<Rightarrow> string option"
  dc_url_scheme :: "string \<Rightarrow> string option"

datatype db_error =
    NoRows
  | PgError string string
  | DbError goerr

record db_session =
  ss_role :: db_role
  ss_scope :: string
  ss_org :: string

section \<open>Patterns\<close>

definition is_hex :: "char \<Rightarrow> bool" where
  "is_hex c \<longleftrightarrow> c \<in> set ''0123456789abcdefABCDEF''"

definition is_lower :: "char \<Rightarrow> bool" where
  "is_lower c \<longleftrightarrow> c \<in> set ''abcdefghijklmnopqrstuvwxyz''"

definition is_upper :: "char \<Rightarrow> bool" where
  "is_upper c \<longleftrightarrow> c \<in> set ''ABCDEFGHIJKLMNOPQRSTUVWXYZ''"

text \<open>\<open>^[0-9a-fA-F]{8}-[0-9a-fA-F]{4}-[0-9a-fA-F]{4}-[0-9a-fA-F]{4}-[0-9a-fA-F]{12}$\<close>.\<close>

definition uuid_pattern :: "string \<Rightarrow> bool" where
  "uuid_pattern s \<longleftrightarrow>
     (let ws = split_char (CHR ''-'') s
      in map length ws = [8, 4, 4, 4, 12] \<and> list_all (list_all is_hex) ws)"

text \<open>\<open>^[a-z]{2,3}(-[A-Z]{2})?$\<close>.\<close>

definition language_pattern :: "string \<Rightarrow> bool" where
  "language_pattern s \<longleftrightarrow>
     (case split_char (CHR ''-'') s of
        [l] \<Rightarrow> length l \<in> {2, 3} \<and> list_all is_lower l
      | [l, r] \<Rightarrow> length l \<in> {2, 3} \<and> list_all is_lower l \<and> length r = 2 \<and> list_all is_upper r
      | _ \<Rightarrow> False)"

definition rune_count :: "string \<Rightarrow> nat" where
  "rune_count s = length (go_runes s)"

section \<open>Sessions and transactions\<close>

text \<open>\<open>nullif(current_setting('watchkeeper.org', true), '')::uuid\<close>.\<close>

definition session_org :: "keep_cfg \<Rightarrow> db_session \<Rightarrow> db_error + uuid option" where
  "session_org cfg s =
     (if ss_org s = [] then Inr None
      else case dc_uuid cfg (ss_org s) of
        None \<Rightarrow> Inl (PgError ''22P02'' [])
      | Some u \<Rightarrow> Inr (Some u))"

definition uuid_param :: "keep_cfg \<Rightarrow> string \<Rightarrow> db_error + uuid" where
  "uuid_param cfg s = (case dc_uuid cfg s of None \<Rightarrow> Inl (PgError ''22P02'' []) | Some u \<Rightarrow> Inr u)"

definition uuid_param_opt :: "keep_cfg \<Rightarrow> string option \<Rightarrow> db_error + uuid option" where
  "uuid_param_opt cfg s =
     (case s of None \<Rightarrow> Inr None | Some t \<Rightarrow> (case uuid_param cfg t of Inl e \<Rightarrow> Inl e | Inr u \<Rightarrow> Inr (Some u)))"

text \<open>
  \<open>faults n\<close> is the error the n-th round trip of a transaction fails with, for whatever reason: the
  beginning, the three settings, the commit, and from 5 on the statements of the closure. Nothing is
  written unless the commit succeeds.
\<close>

type_synonym faults = "nat \<Rightarrow> db_error option"

type_synonym 'a db_stmt = "db_session \<Rightarrow> keep_db \<Rightarrow> (db_error + 'a) \<times> keep_db"

definition stmt_at :: "faults \<Rightarrow> nat \<Rightarrow> 'a db_stmt \<Rightarrow> 'a db_stmt" where
  "stmt_at faults n st s db = (case faults (5 + n) of Some e \<Rightarrow> (Inl e, db) | None \<Rightarrow> st s db)"

definition with_scope :: "faults \<Rightarrow> keep_claim \<Rightarrow> 'a db_stmt \<Rightarrow> keep_db \<Rightarrow> (db_error + 'a) \<times> keep_db" where
  "with_scope faults claim fn db =
     (case role_for_scope (kc_scope claim) of
        Inl e \<Rightarrow> (Inl (DbError e), db)
      | Inr role \<Rightarrow>
          (case List.find (\<lambda>n. faults n \<noteq> None) [0, 1, 2, 3] of
             Some n \<Rightarrow> (Inl (the (faults n)), db)
           | None \<Rightarrow>
               (case fn \<lparr>ss_role = role, ss_scope = kc_scope claim, ss_org = kc_organization_id claim\<rparr> db of
                  (Inl e, _) \<Rightarrow> (Inl e, db)
                | (Inr a, db') \<Rightarrow> (case faults 4 of Some e \<Rightarrow> (Inl e, db) | None \<Rightarrow> (Inr a, db')))))"

lemma with_scope_outcome:
  assumes "with_scope faults c fn db = (r, db')"
  obtains e where "r = Inl e" "db' = db"
  | a role where "r = Inr a"
      "fn \<lparr>ss_role = role, ss_scope = kc_scope c, ss_org = kc_organization_id c\<rparr> db = (Inr a, db')"
  using assms by (auto simp: with_scope_def split: sum.splits option.splits prod.splits)

lemma with_scope_clean:
  assumes "valid_scope (kc_scope c)" "\<forall>n. faults n = None"
  obtains role where "with_scope faults c fn db
    = (let s = \<lparr>ss_role = role, ss_scope = kc_scope c, ss_org = kc_organization_id c\<rparr>
       in case fn s db of (Inl e, _) \<Rightarrow> (Inl e, db) | (Inr a, db') \<Rightarrow> (Inr a, db'))"
proof -
  obtain role where "role_for_scope (kc_scope c) = Inr role"
    using assms(1) by (auto simp flip: role_for_scope_valid)
  then show thesis
    using assms(2) by (intro that [of role]) (auto simp: with_scope_def Let_def split: sum.splits prod.splits)
qed

lemma stmt_at_ok: "stmt_at faults n st s db = (Inr a, db') \<Longrightarrow> st s db = (Inr a, db')"
  by (simp add: stmt_at_def split: option.splits)

lemma stmt_at_clean [simp]: "\<forall>n. faults n = None \<Longrightarrow> stmt_at faults n st = st"
  by (simp add: stmt_at_def fun_eq_iff)

section \<open>Row security\<close>

text \<open>
  \<open>FORCE ROW LEVEL SECURITY\<close> is on for the manifests, their versions and the knowledge chunks; the
  three roles have the same policies. The other tables have none.
\<close>

definition manifest_visible :: "uuid option \<Rightarrow> manifest_row \<Rightarrow> bool" where
  "manifest_visible org m \<longleftrightarrow> org = Some (mf_organization_id m)"

definition version_visible :: "uuid option \<Rightarrow> keep_db \<Rightarrow> version_row \<Rightarrow> bool" where
  "version_visible org db v \<longleftrightarrow>
     list_ex (\<lambda>m. mf_id m = mv_manifest_id v \<and> manifest_visible org m) (kd_manifests db)"

definition chunk_visible :: "db_session \<Rightarrow> chunk_row \<Rightarrow> bool" where
  "chunk_visible s c \<longleftrightarrow> ch_scope c = ''org'' \<or> ch_scope c = ss_scope s"

section \<open>Statements that write\<close>

text \<open>\<open>NULLIF($2, '')\<close>.\<close>

definition null_if_empty :: "string \<Rightarrow> string option" where
  "null_if_empty s = (if s = [] then None else Some s)"

definition insert_chunk ::
  "keep_cfg \<Rightarrow> string \<Rightarrow> string \<Rightarrow> string \<Rightarrow> real list \<Rightarrow> string db_stmt" where
  "insert_chunk cfg scope subject content vec s db =
     (let i = dc_gen cfg (kd_writes db) in
      if scope \<noteq> ss_scope s then (Inl (PgError ''42501'' []), db)
      else if length vec \<noteq> 1536 then (Inl (PgError ''22000'' []), db)
      else if i \<in> ch_id ` set (kd_chunks db) then (Inl (PgError ''23505'' ''knowledge_chunk_pkey''), db)
      else (Inr (dc_uuid_text cfg i),
            db\<lparr>kd_chunks := kd_chunks db @ [\<lparr>ch_id = i, ch_scope = scope, ch_subject = null_if_empty subject,
                  ch_content = content, ch_embedding = vec, ch_created_at = dc_now cfg (kd_writes db)\<rparr>],
               kd_writes := Suc (kd_writes db)\<rparr>))"

definition insert_log ::
  "keep_cfg \<Rightarrow> string \<Rightarrow> string option \<Rightarrow> string option \<Rightarrow> string option \<Rightarrow> string \<Rightarrow> string db_stmt" where
  "insert_log cfg event correlation watchkeeper human payload s db =
     (let i = dc_gen cfg (kd_writes db) in
      case (uuid_param_opt cfg correlation, uuid_param_opt cfg watchkeeper, uuid_param_opt cfg human,
            dc_jsonb cfg payload) of
        (Inr corr, Inr wk, Inr hu, Some p) \<Rightarrow>
          if i \<in> kl_id ` set (kd_log db) then (Inl (PgError ''23505'' ''keepers_log_pkey''), db)
          else if wk \<noteq> None \<and> the wk \<notin> wk_id ` set (kd_watchkeepers db)
          then (Inl (PgError ''23503'' ''keepers_log_actor_watchkeeper_id_fkey''), db)
          else if hu \<noteq> None \<and> the hu \<notin> hu_id ` set (kd_humans db)
          then (Inl (PgError ''23503'' ''keepers_log_actor_human_id_fkey''), db)
          else (Inr (dc_uuid_text cfg i),
                db\<lparr>kd_log := kd_log db @ [\<lparr>kl_id = i, kl_event_type = event, kl_correlation_id = corr,
                      kl_actor_watchkeeper_id = wk, kl_actor_human_id = hu, kl_payload = p,
                      kl_created_at = dc_now cfg (kd_writes db)\<rparr>],
                   kd_writes := Suc (kd_writes db)\<rparr>)
      | _ \<Rightarrow> (Inl (PgError ''22P02'' []), db))"

text \<open>The CHECK constraints of \<open>manifest_version\<close>.\<close>

definition version_checks :: "version_row \<Rightarrow> bool" where
  "version_checks v \<longleftrightarrow>
     mv_version_no v \<ge> 1
     \<and> (case mv_language v of None \<Rightarrow> True | Some l \<Rightarrow> language_pattern l)
     \<and> (case mv_personality v of None \<Rightarrow> True | Some p \<Rightarrow> rune_count p \<le> 1024)
     \<and> (case mv_model v of None \<Rightarrow> True | Some m \<Rightarrow> rune_count m \<le> 100)
     \<and> (case mv_autonomy v of None \<Rightarrow> True | Some a \<Rightarrow> a = ''supervised'' \<or> a = ''autonomous'')
     \<and> (case mv_notebook_top_k v of None \<Rightarrow> True | Some k \<Rightarrow> 0 < k \<and> k \<le> 100)
     \<and> (case mv_notebook_threshold v of None \<Rightarrow> True | Some t \<Rightarrow> 0 \<le> t \<and> t \<le> 1)"

text \<open>The values of an insertion as the statement hands them over.\<close>

record version_values =
  vv_version_no :: int
  vv_system_prompt :: string
  vv_tools :: "string option"
  vv_authority_matrix :: "string option"
  vv_knowledge_sources :: "string option"
  vv_personality :: "string option"
  vv_language :: "string option"
  vv_model :: "string option"
  vv_autonomy :: "string option"
  vv_notebook_top_k :: "int option"
  vv_notebook_threshold :: "real option"

definition is_int4 :: "int \<Rightarrow> bool" where
  "is_int4 n \<longleftrightarrow> - (2 ^ 31) \<le> n \<and> n < 2 ^ 31"

definition jsonb_or_default :: "keep_cfg \<Rightarrow> string \<Rightarrow> string option \<Rightarrow> string option" where
  "jsonb_or_default cfg def m = (case m of None \<Rightarrow> Some def | Some t \<Rightarrow> dc_jsonb cfg t)"

definition float4_opt :: "keep_cfg \<Rightarrow> real option \<Rightarrow> real option option" where
  "float4_opt cfg x = (case x of None \<Rightarrow> Some None | Some r \<Rightarrow> map_option Some (dc_float4 cfg r))"

definition version_of_values ::
  "keep_cfg \<Rightarrow> uuid \<Rightarrow> int \<Rightarrow> uuid \<Rightarrow> version_values \<Rightarrow> version_row option" where
  "version_of_values cfg i now manifest vals =
     (case (jsonb_or_default cfg ''[]'' (vv_tools vals), jsonb_or_default cfg ''{}'' (vv_authority_matrix vals),
            jsonb_or_default cfg ''[]'' (vv_knowledge_sources vals), float4_opt cfg (vv_notebook_threshold vals)) of
        (Some tools, Some authority, Some sources, Some threshold) \<Rightarrow>
          if \<not> is_int4 (vv_version_no vals)
             \<or> (vv_notebook_top_k vals \<noteq> None \<and> \<not> is_int4 (the (vv_notebook_top_k vals))) then None
          else Some \<lparr>mv_id = i, mv_manifest_id = manifest, mv_version_no = vv_version_no vals,
                 mv_system_prompt = vv_system_prompt vals, mv_tools = tools,
                 mv_authority_matrix = authority, mv_knowledge_sources = sources,
                 mv_personality = vv_personality vals, mv_language = vv_language vals,
                 mv_model = vv_model vals, mv_autonomy = vv_autonomy vals,
                 mv_notebook_top_k = vv_notebook_top_k vals, mv_notebook_threshold = threshold,
                 mv_created_at = now\<rparr>
      | _ \<Rightarrow> None)"

definition insert_version ::
  "keep_cfg \<Rightarrow> string \<Rightarrow> version_values \<Rightarrow> string \<Rightarrow> string db_stmt" where
  "insert_version cfg manifest_text vals org_text s db =
     (case (uuid_param cfg manifest_text, uuid_param cfg org_text, session_org cfg s) of
        (Inr manifest, Inr org, Inr gorg) \<Rightarrow>
          (let i = dc_gen cfg (kd_writes db) in
           if \<not> list_ex (\<lambda>m. mf_id m = manifest \<and> mf_organization_id m = org \<and> manifest_visible gorg m)
                  (kd_manifests db) then (Inl NoRows, db)
           else case version_of_values cfg i (dc_now cfg (kd_writes db)) manifest vals of
               None \<Rightarrow> (Inl (PgError ''22000'' []), db)
             | Some row \<Rightarrow>
                 if \<not> version_checks row then (Inl (PgError ''23514'' []), db)
                 else if \<not> version_visible gorg db row then (Inl (PgError ''42501'' []), db)
                 else if i \<in> mv_id ` set (kd_versions db)
                 then (Inl (PgError ''23505'' ''manifest_version_pkey''), db)
                 else if list_ex (\<lambda>v. mv_manifest_id v = manifest \<and> mv_version_no v = vv_version_no vals)
                           (kd_versions db)
                 then (Inl (PgError ''23505'' ''manifest_version_manifest_id_version_no_key''), db)
                 else (Inr (dc_uuid_text cfg i),
                       db\<lparr>kd_versions := kd_versions db @ [row], kd_writes := Suc (kd_writes db)\<rparr>))
      | _ \<Rightarrow> (Inl (PgError ''22P02'' []), db))"

definition insert_watchkeeper ::
  "keep_cfg \<Rightarrow> string \<Rightarrow> string \<Rightarrow> string option \<Rightarrow> string \<Rightarrow> string db_stmt" where
  "insert_watchkeeper cfg manifest_text lead_text version_text org_text s db =
     (case (uuid_param cfg manifest_text, uuid_param cfg lead_text, uuid_param_opt cfg version_text,
            uuid_param cfg org_text) of
        (Inr manifest, Inr lead, Inr version, Inr org) \<Rightarrow>
          (let i = dc_gen cfg (kd_writes db) in
           if \<not> list_ex (\<lambda>h. hu_id h = lead \<and> hu_organization_id h = org) (kd_humans db) then (Inl NoRows, db)
           else if i \<in> wk_id ` set (kd_watchkeepers db) then (Inl (PgError ''23505'' ''watchkeeper_pkey''), db)
           else if manifest \<notin> mf_id ` set (kd_manifests db)
           then (Inl (PgError ''23503'' ''watchkeeper_manifest_id_fkey''), db)
           else if version \<noteq> None \<and> the version \<notin> mv_id ` set (kd_versions db)
           then (Inl (PgError ''23503'' ''watchkeeper_active_manifest_version_id_fkey''), db)
           else (Inr (dc_uuid_text cfg i),
                 db\<lparr>kd_watchkeepers := kd_watchkeepers db @
                      [\<lparr>wk_id = i, wk_manifest_id = manifest, wk_lead_human_id = lead,
                        wk_active_version_id = version, wk_status = ''pending'', wk_spawned_at = None,
                        wk_retired_at = None, wk_archive_uri = None,
                        wk_created_at = dc_now cfg (kd_writes db)\<rparr>],
                    kd_writes := Suc (kd_writes db)\<rparr>))
      | _ \<Rightarrow> (Inl (PgError ''22P02'' []), db))"

text \<open>\<open>SELECT w.status ... JOIN watchkeeper.human ... FOR UPDATE OF w\<close>.\<close>

definition select_status_for_update :: "keep_cfg \<Rightarrow> string \<Rightarrow> string \<Rightarrow> string db_stmt" where
  "select_status_for_update cfg id_text org_text s db =
     (case (uuid_param cfg id_text, uuid_param cfg org_text) of
        (Inr i, Inr org) \<Rightarrow>
          (case List.find (\<lambda>w. wk_id w = i
               \<and> list_ex (\<lambda>h. hu_id h = wk_lead_human_id w \<and> hu_organization_id h = org) (kd_humans db))
             (kd_watchkeepers db) of
             None \<Rightarrow> (Inl NoRows, db)
           | Some w \<Rightarrow> (Inr (wk_status w), db))
      | _ \<Rightarrow> (Inl (PgError ''22P02'' []), db))"

text \<open>\<open>UPDATE ... WHERE id = $1\<close>, with the new values as a function of the row.\<close>

definition update_watchkeeper ::
  "keep_cfg \<Rightarrow> string \<Rightarrow> (int \<Rightarrow> watchkeeper_row \<Rightarrow> watchkeeper_row) \<Rightarrow> unit db_stmt" where
  "update_watchkeeper cfg id_text f s db =
     (case uuid_param cfg id_text of
        Inl e \<Rightarrow> (Inl e, db)
      | Inr i \<Rightarrow>
          (Inr (), db\<lparr>kd_watchkeepers :=
                        map (\<lambda>w. if wk_id w = i then f (dc_now cfg (kd_writes db)) w else w) (kd_watchkeepers db),
                      kd_writes := Suc (kd_writes db)\<rparr>))"

text \<open>The number of rows affected.\<close>

definition update_lead :: "keep_cfg \<Rightarrow> string \<Rightarrow> string \<Rightarrow> string \<Rightarrow> nat db_stmt" where
  "update_lead cfg id_text lead_text org_text s db =
     (case (uuid_param cfg id_text, uuid_param cfg lead_text, uuid_param cfg org_text) of
        (Inr i, Inr lead, Inr org) \<Rightarrow>
          (let hit = (\<lambda>w. wk_id w = i
               \<and> list_ex (\<lambda>h. hu_id h = wk_lead_human_id w \<and> hu_organization_id h = org) (kd_humans db));
               n = length (filter hit (kd_watchkeepers db))
           in if n = 0 then (Inr 0, db)
              else if lead \<notin> hu_id ` set (kd_humans db)
              then (Inl (PgError ''23503'' ''watchkeeper_lead_human_id_fkey''), db)
              else (Inr n, db\<lparr>kd_watchkeepers :=
                      map (\<lambda>w. if hit w then w\<lparr>wk_lead_human_id := lead\<rparr> else w) (kd_watchkeepers db),
                    kd_writes := Suc (kd_writes db)\<rparr>))
      | _ \<Rightarrow> (Inl (PgError ''22P02'' []), db))"

definition insert_human ::
  "keep_cfg \<Rightarrow> string \<Rightarrow> string \<Rightarrow> string option \<Rightarrow> string option \<Rightarrow> string db_stmt" where
  "insert_human cfg org_text name email slack s db =
     (case uuid_param cfg org_text of
        Inl e \<Rightarrow> (Inl e, db)
      | Inr org \<Rightarrow>
          (let i = dc_gen cfg (kd_writes db) in
           if i \<in> hu_id ` set (kd_humans db) then (Inl (PgError ''23505'' ''human_pkey''), db)
           else if slack \<noteq> None \<and> slack \<in> hu_slack_user_id ` set (kd_humans db)
           then (Inl (PgError ''23505'' ''human_slack_user_id_key''), db)
           else if org \<notin> set (kd_organizations db)
           then (Inl (PgError ''23503'' ''human_organization_id_fkey''), db)
           else (Inr (dc_uuid_text cfg i),
                 db\<lparr>kd_humans := kd_humans db @ [\<lparr>hu_id = i, hu_organization_id = org, hu_display_name = name,
                       hu_email = email, hu_slack_user_id = slack, hu_created_at = dc_now cfg (kd_writes db)\<rparr>],
                    kd_writes := Suc (kd_writes db)\<rparr>)))"

section \<open>Statements that read\<close>

text \<open>\<open>ORDER BY version_no DESC LIMIT 1\<close>, under the policy.\<close>

definition newer :: "version_row option \<Rightarrow> version_row \<Rightarrow> version_row option" where
  "newer best v =
     (case best of None \<Rightarrow> Some v | Some b \<Rightarrow> if mv_version_no v > mv_version_no b then Some v else Some b)"

definition select_latest_version :: "keep_cfg \<Rightarrow> string \<Rightarrow> version_row db_stmt" where
  "select_latest_version cfg manifest_text s db =
     (case (uuid_param cfg manifest_text, session_org cfg s) of
        (Inr manifest, Inr gorg) \<Rightarrow>
          (case foldl newer None
               (filter (\<lambda>v. mv_manifest_id v = manifest \<and> version_visible gorg db v) (kd_versions db)) of
             None \<Rightarrow> (Inl NoRows, db)
           | Some v \<Rightarrow> (Inr v, db))
      | _ \<Rightarrow> (Inl (PgError ''22P02'' []), db))"

definition select_nearest ::
  "keep_cfg \<Rightarrow> real list \<Rightarrow> nat \<Rightarrow> (chunk_row \<times> real option) list db_stmt" where
  "select_nearest cfg vec k s db = (Inr (dc_nearest cfg (filter (chunk_visible s) (kd_chunks db)) vec k), db)"

text \<open>\<open>ORDER BY created_at DESC LIMIT $1\<close>; rows of the same instant come newest insertion first.\<close>

definition newest_first :: "('a \<Rightarrow> int) \<Rightarrow> nat \<Rightarrow> 'a list \<Rightarrow> 'a list" where
  "newest_first key n rows = take n (rev (sort_key key rows))"

definition select_log :: "nat \<Rightarrow> log_row list db_stmt" where
  "select_log n s db = (Inr (newest_first kl_created_at n (kd_log db)), db)"

definition select_watchkeeper :: "keep_cfg \<Rightarrow> string \<Rightarrow> watchkeeper_row db_stmt" where
  "select_watchkeeper cfg id_text s db =
     (case uuid_param cfg id_text of
        Inl e \<Rightarrow> (Inl e, db)
      | Inr i \<Rightarrow> (case List.find (\<lambda>w. wk_id w = i) (kd_watchkeepers db) of
                    None \<Rightarrow> (Inl NoRows, db) | Some w \<Rightarrow> (Inr w, db)))"

definition select_watchkeepers :: "string \<Rightarrow> nat \<Rightarrow> watchkeeper_row list db_stmt" where
  "select_watchkeepers status n s db =
     (Inr (newest_first wk_created_at n
        (if status = [] then kd_watchkeepers db else filter (\<lambda>w. wk_status w = status) (kd_watchkeepers db))), db)"

definition select_human_by_slack :: "string \<Rightarrow> human_row db_stmt" where
  "select_human_by_slack slack s db =
     (case List.find (\<lambda>h. hu_slack_user_id h = Some slack) (kd_humans db) of
        None \<Rightarrow> (Inl NoRows, db)
      | Some h \<Rightarrow> (Inr h, db))"

end
