(* ===== verification/KeepServer.thy ===== *)
theory KeepServer
  imports KeepDB Signatures
begin

text \<open>
  The handlers of the Keep server (\<^verbatim>\<open>core/internal/keep/server\<close>: \<^verbatim>\<open>handlers_write.go\<close>,
  \<^verbatim>\<open>handlers_human.go\<close>, \<^verbatim>\<open>handlers_read.go\<close>) on the tables of \<open>KeepDB\<close>: for each the parsing of
  its request, its guards in the order of the code, its transaction, and the answer for every outcome.
\<close>

section \<open>Requests\<close>

text \<open>
  What the JSON decoder, which rejects unknown fields, makes of a body of at most one MiB. An empty
  body leaves the request at its zero values.
\<close>

datatype 'b decoded = DecodeOk 'b | DecodeEOF | DecodeTooLarge | DecodeInvalid

record 'b keep_request =
  rq_claim :: "keep_claim option"
  rq_content_type :: string
  rq_body :: "'b decoded"
  rq_path :: string
  rq_query :: "string \<Rightarrow> string"
  rq_faults :: faults

definition write_error :: "nat \<Rightarrow> string \<Rightarrow> 'r http_response" where
  "write_error status code = RespError status code []"

definition is_json_content_type :: "keep_cfg \<Rightarrow> string \<Rightarrow> bool" where
  "is_json_content_type cfg ct \<longleftrightarrow> ct \<noteq> [] \<and> dc_media_type cfg ct = Some ''application/json''"

text \<open>The envelope every body goes through: 415, 413, 400, or the decoded value.\<close>

definition decode_body :: "keep_cfg \<Rightarrow> 'b \<Rightarrow> 'b keep_request \<Rightarrow> 'r http_response + 'b" where
  "decode_body cfg zero rq =
     (if \<not> is_json_content_type cfg (rq_content_type rq)
      then Inl (RespError 415 ''unsupported_media_type'' ''expected_application_json'')
      else case rq_body rq of
          DecodeTooLarge \<Rightarrow> Inl (RespError 413 ''request_too_large'' ''body_too_large'')
        | DecodeInvalid \<Rightarrow> Inl (write_error 400 ''invalid_body'')
        | DecodeEOF \<Rightarrow> Inr zero
        | DecodeOk b \<Rightarrow> Inr b)"

text \<open>A handler's answer and the tables it leaves.\<close>

type_synonym ('b, 'r) handler = "keep_cfg \<Rightarrow> 'b keep_request \<Rightarrow> keep_db \<Rightarrow> 'r http_response \<times> keep_db"

section \<open>\<open>POST /v1/knowledge-chunks\<close>\<close>

record store_request =
  sr_subject :: string
  sr_content :: string
  sr_embedding :: "real list"

definition knowledge_chunk_embedding_dim :: nat where "knowledge_chunk_embedding_dim = 1536"

definition parse_store_request :: "keep_cfg \<Rightarrow> store_request keep_request \<Rightarrow> 'r http_response + store_request" where
  "parse_store_request cfg rq =
     (case decode_body cfg \<lparr>sr_subject = [], sr_content = [], sr_embedding = []\<rparr> rq of
        Inl r \<Rightarrow> Inl r
      | Inr body \<Rightarrow>
          if sr_content body = [] then Inl (write_error 400 ''missing_content'')
          else if sr_embedding body = [] then Inl (write_error 400 ''missing_embedding'')
          else if length (sr_embedding body) \<noteq> knowledge_chunk_embedding_dim
          then Inl (write_error 400 ''invalid_embedding'')
          else Inr body)"

definition handle_store :: "(store_request, string) handler" where
  "handle_store cfg rq db =
     (case rq_claim rq of
        None \<Rightarrow> (write_error 401 ''unauthorized'', db)
      | Some claim \<Rightarrow>
          (case parse_store_request cfg rq of
             Inl r \<Rightarrow> (r, db)
           | Inr body \<Rightarrow>
               (case with_scope (rq_faults rq) claim (stmt_at (rq_faults rq) 0
                       (insert_chunk cfg (kc_scope claim) (sr_subject body) (sr_content body) (sr_embedding body))) db of
                  (Inl e, db') \<Rightarrow> (write_error 500 ''store_failed'', db')
                | (Inr i, db') \<Rightarrow> (RespJSON 201 i, db'))))"

section \<open>\<open>POST /v1/keepers-log\<close>\<close>

record log_append_request =
  la_event_type :: string
  la_correlation_id :: string
  la_payload :: string

definition parse_log_append_request ::
  "keep_cfg \<Rightarrow> log_append_request keep_request \<Rightarrow> 'r http_response + log_append_request" where
  "parse_log_append_request cfg rq =
     (case decode_body cfg \<lparr>la_event_type = [], la_correlation_id = [], la_payload = []\<rparr> rq of
        Inl r \<Rightarrow> Inl r
      | Inr body \<Rightarrow>
          if la_event_type body = [] then Inl (write_error 400 ''missing_event_type'') else Inr body)"

text \<open>The watchkeeper and human columns for a scope, or \<open>None\<close> where its id is no UUID.\<close>

definition actor_from_scope :: "string \<Rightarrow> (string option \<times> string option) option" where
  "actor_from_scope scope =
     (case cut_prefix scope ''agent:'' of
        Some rest \<Rightarrow> if uuid_pattern rest then Some (Some rest, None) else None
      | None \<Rightarrow>
          (case cut_prefix scope ''user:'' of
             Some rest \<Rightarrow> if uuid_pattern rest then Some (None, Some rest) else None
           | None \<Rightarrow> Some (None, None)))"

definition handle_log_append :: "(log_append_request, string) handler" where
  "handle_log_append cfg rq db =
     (case rq_claim rq of
        None \<Rightarrow> (write_error 401 ''unauthorized'', db)
      | Some claim \<Rightarrow>
          (case parse_log_append_request cfg rq of
             Inl r \<Rightarrow> (r, db)
           | Inr body \<Rightarrow>
               (case actor_from_scope (kc_scope claim) of
                  None \<Rightarrow> (write_error 400 ''invalid_scope_uuid'', db)
                | Some (watchkeeper, human) \<Rightarrow>
                    if la_correlation_id body \<noteq> [] \<and> \<not> uuid_pattern (la_correlation_id body)
                    then (write_error 400 ''invalid_correlation_id'', db)
                    else
                      (let correlation = null_if_empty (la_correlation_id body);
                           payload = (if la_payload body = [] then ''{}'' else la_payload body)
                       in case with_scope (rq_faults rq) claim (stmt_at (rq_faults rq) 0
                              (insert_log cfg (la_event_type body) correlation watchkeeper human payload)) db of
                            (Inl e, db') \<Rightarrow> (write_error 500 ''log_append_failed'', db')
                          | (Inr i, db') \<Rightarrow> (RespJSON 201 i, db')))))"

section \<open>\<open>PUT /v1/manifests/{manifest_id}/versions\<close>\<close>

record put_version_request =
  pv_version_no :: int
  pv_system_prompt :: string
  pv_tools :: string
  pv_authority_matrix :: string
  pv_knowledge_sources :: string
  pv_personality :: string
  pv_language :: string
  pv_model :: string
  pv_autonomy :: string
  pv_notebook_top_k :: int
  pv_notebook_threshold :: real

definition zero_put_version :: put_version_request where
  "zero_put_version = \<lparr>pv_version_no = 0, pv_system_prompt = [], pv_tools = [], pv_authority_matrix = [],
     pv_knowledge_sources = [], pv_personality = [], pv_language = [], pv_model = [], pv_autonomy = [],
     pv_notebook_top_k = 0, pv_notebook_threshold = 0\<rparr>"

definition manifest_personality_max_runes :: nat where "manifest_personality_max_runes = 1024"

definition manifest_model_max_runes :: nat where "manifest_model_max_runes = 100"

definition manifest_autonomy_allowed :: "string list" where
  "manifest_autonomy_allowed = [''supervised'', ''autonomous'']"

definition validate_notebook_recall_fields :: "put_version_request \<Rightarrow> string option" where
  "validate_notebook_recall_fields body =
     (if pv_notebook_top_k body < 0 \<or> pv_notebook_top_k body > 100 then Some ''invalid_notebook_top_k''
      else if pv_notebook_threshold body < 0 \<or> pv_notebook_threshold body > 1
      then Some ''invalid_notebook_relevance_threshold''
      else None)"

definition put_version_error :: "put_version_request \<Rightarrow> string option" where
  "put_version_error body =
     (if pv_version_no body \<le> 0 then Some ''invalid_version_no''
      else if pv_system_prompt body = [] then Some ''missing_system_prompt''
      else if pv_language body \<noteq> [] \<and> \<not> language_pattern (pv_language body) then Some ''invalid_language''
      else if rune_count (pv_personality body) > manifest_personality_max_runes then Some ''personality_too_long''
      else if rune_count (pv_model body) > manifest_model_max_runes then Some ''model_too_long''
      else if pv_autonomy body \<noteq> [] \<and> pv_autonomy body \<notin> set manifest_autonomy_allowed
      then Some ''invalid_autonomy''
      else validate_notebook_recall_fields body)"

definition parse_put_version_request ::
  "keep_cfg \<Rightarrow> put_version_request keep_request \<Rightarrow> 'r http_response + put_version_request" where
  "parse_put_version_request cfg rq =
     (case decode_body cfg zero_put_version rq of
        Inl r \<Rightarrow> Inl r
      | Inr body \<Rightarrow>
          (case put_version_error body of Some code \<Rightarrow> Inl (write_error 400 code) | None \<Rightarrow> Inr body))"

text \<open>\<open>intOrNil\<close>, \<open>floatOrNil\<close>; \<open>jsonbOrNil\<close> and \<open>stringOrNil\<close> are \<open>null_if_empty\<close>.\<close>

definition null_if_zero :: "'a :: zero \<Rightarrow> 'a option" where
  "null_if_zero n = (if n = 0 then None else Some n)"

definition put_version_values :: "put_version_request \<Rightarrow> version_values" where
  "put_version_values b =
     \<lparr>vv_version_no = pv_version_no b, vv_system_prompt = pv_system_prompt b,
      vv_tools = null_if_empty (pv_tools b), vv_authority_matrix = null_if_empty (pv_authority_matrix b),
      vv_knowledge_sources = null_if_empty (pv_knowledge_sources b),
      vv_personality = null_if_empty (pv_personality b), vv_language = null_if_empty (pv_language b),
      vv_model = null_if_empty (pv_model b), vv_autonomy = null_if_empty (pv_autonomy b),
      vv_notebook_top_k = null_if_zero (pv_notebook_top_k b),
      vv_notebook_threshold = null_if_zero (pv_notebook_threshold b)\<rparr>"

definition put_version_failure :: "db_error \<Rightarrow> 'r http_response" where
  "put_version_failure e =
     (case e of
        NoRows \<Rightarrow> write_error 404 ''not_found''
      | PgError code _ \<Rightarrow>
          if code = ''23505'' then write_error 409 ''version_conflict''
          else write_error 500 ''put_manifest_version_failed''
      | DbError _ \<Rightarrow> write_error 500 ''put_manifest_version_failed'')"

definition handle_put_manifest_version :: "(put_version_request, string) handler" where
  "handle_put_manifest_version cfg rq db =
     (case rq_claim rq of
        None \<Rightarrow> (write_error 401 ''unauthorized'', db)
      | Some claim \<Rightarrow>
          if rq_path rq = [] then (write_error 400 ''missing_manifest_id'', db)
          else if \<not> uuid_pattern (rq_path rq) then (write_error 400 ''invalid_manifest_id'', db)
          else (case parse_put_version_request cfg rq of
             Inl r \<Rightarrow> (r, db)
           | Inr body \<Rightarrow>
               if kc_organization_id claim = [] then (write_error 403 ''organization_required'', db)
               else (case with_scope (rq_faults rq) claim (stmt_at (rq_faults rq) 0
                       (insert_version cfg (rq_path rq) (put_version_values body) (kc_organization_id claim))) db of
                  (Inl e, db') \<Rightarrow> (put_version_failure e, db')
                | (Inr i, db') \<Rightarrow> (RespJSON 201 i, db'))))"

section \<open>\<open>POST /v1/watchkeepers\<close>\<close>

record insert_watchkeeper_request =
  iw_manifest_id :: string
  iw_lead_human_id :: string
  iw_active_version_id :: string

definition parse_insert_watchkeeper_request ::
  "keep_cfg \<Rightarrow> insert_watchkeeper_request keep_request \<Rightarrow> 'r http_response + insert_watchkeeper_request" where
  "parse_insert_watchkeeper_request cfg rq =
     (case decode_body cfg \<lparr>iw_manifest_id = [], iw_lead_human_id = [], iw_active_version_id = []\<rparr> rq of
        Inl r \<Rightarrow> Inl r
      | Inr body \<Rightarrow>
          if \<not> uuid_pattern (iw_manifest_id body) then Inl (write_error 400 ''invalid_request'')
          else if \<not> uuid_pattern (iw_lead_human_id body) then Inl (write_error 400 ''invalid_request'')
          else if iw_active_version_id body \<noteq> [] \<and> \<not> uuid_pattern (iw_active_version_id body)
          then Inl (write_error 400 ''invalid_request'')
          else Inr body)"

definition handle_insert_watchkeeper :: "(insert_watchkeeper_request, string) handler" where
  "handle_insert_watchkeeper cfg rq db =
     (case rq_claim rq of
        None \<Rightarrow> (write_error 401 ''unauthorized'', db)
      | Some claim \<Rightarrow>
          (case parse_insert_watchkeeper_request cfg rq of
             Inl r \<Rightarrow> (r, db)
           | Inr body \<Rightarrow>
               if kc_organization_id claim = [] then (write_error 403 ''organization_required'', db)
               else (case with_scope (rq_faults rq) claim (stmt_at (rq_faults rq) 0
                       (insert_watchkeeper cfg (iw_manifest_id body) (iw_lead_human_id body)
                          (null_if_empty (iw_active_version_id body)) (kc_organization_id claim))) db of
                  (Inl NoRows, db') \<Rightarrow> (write_error 404 ''not_found'', db')
                | (Inl e, db') \<Rightarrow> (write_error 500 ''insert_watchkeeper_failed'', db')
                | (Inr i, db') \<Rightarrow> (RespJSON 201 i, db'))))"

section \<open>\<open>PATCH /v1/watchkeepers/{id}/status\<close>\<close>

text \<open>\<open>archive_uri\<close> is absent, an explicit null, or a string.\<close>

datatype optional_archive_uri = ArchiveAbsent | ArchiveNull | ArchiveValue string

record update_status_request =
  us_status :: string
  us_archive_uri :: optional_archive_uri

text \<open>\<open>url.Parse\<close> and \<open>IsAbs\<close>: there is a scheme and it is not empty.\<close>

definition is_absolute_url :: "keep_cfg \<Rightarrow> string \<Rightarrow> bool" where
  "is_absolute_url cfg u \<longleftrightarrow> (case dc_url_scheme cfg u of None \<Rightarrow> False | Some scheme \<Rightarrow> scheme \<noteq> [])"

definition parse_update_status_request ::
  "keep_cfg \<Rightarrow> update_status_request keep_request \<Rightarrow> 'r http_response + update_status_request" where
  "parse_update_status_request cfg rq =
     (case decode_body cfg \<lparr>us_status = [], us_archive_uri = ArchiveAbsent\<rparr> rq of
        Inl r \<Rightarrow> Inl r
      | Inr body \<Rightarrow>
          if us_status body \<noteq> ''active'' \<and> us_status body \<noteq> ''retired''
          then Inl (write_error 400 ''invalid_request'')
          else (case us_archive_uri body of
             ArchiveAbsent \<Rightarrow> Inr body
           | ArchiveNull \<Rightarrow> Inl (write_error 400 ''invalid_request'')
           | ArchiveValue uri \<Rightarrow>
               if us_status body \<noteq> ''retired'' \<or> blank uri \<or> \<not> is_absolute_url cfg uri
               then Inl (write_error 400 ''invalid_request'')
               else Inr body))"

definition exec_retire_update :: "keep_cfg \<Rightarrow> string \<Rightarrow> optional_archive_uri \<Rightarrow> unit db_stmt" where
  "exec_retire_update cfg i archive =
     update_watchkeeper cfg i (\<lambda>now w. w\<lparr>wk_status := ''retired'', wk_retired_at := Some now,
       wk_archive_uri := (case archive of ArchiveAbsent \<Rightarrow> None | ArchiveNull \<Rightarrow> Some [] | ArchiveValue u \<Rightarrow> Some u)\<rparr>)"

datatype transition_result = TransitionDone | TransitionNotFound | TransitionInvalid

definition status_transition ::
  "keep_cfg \<Rightarrow> faults \<Rightarrow> string \<Rightarrow> string \<Rightarrow> update_status_request \<Rightarrow> transition_result db_stmt" where
  "status_transition cfg faults i org body s db =
     (case stmt_at faults 0 (select_status_for_update cfg i org) s db of
        (Inl NoRows, db1) \<Rightarrow> (Inr TransitionNotFound, db1)
      | (Inl e, db1) \<Rightarrow> (Inl e, db1)
      | (Inr current, db1) \<Rightarrow>
          if current = ''pending'' \<and> us_status body = ''active'' then
            (case stmt_at faults 1 (update_watchkeeper cfg i
                 (\<lambda>now w. w\<lparr>wk_status := ''active'', wk_spawned_at := Some now\<rparr>)) s db1 of
               (Inl e, db2) \<Rightarrow> (Inl e, db2)
             | (Inr _, db2) \<Rightarrow> (Inr TransitionDone, db2))
          else if current = ''active'' \<and> us_status body = ''retired'' then
            (case stmt_at faults 1 (exec_retire_update cfg i (us_archive_uri body)) s db1 of
               (Inl e, db2) \<Rightarrow> (Inl e, db2)
             | (Inr _, db2) \<Rightarrow> (Inr TransitionDone, db2))
          else (Inr TransitionInvalid, db1))"

definition handle_update_watchkeeper_status :: "(update_status_request, string) handler" where
  "handle_update_watchkeeper_status cfg rq db =
     (case rq_claim rq of
        None \<Rightarrow> (write_error 401 ''unauthorized'', db)
      | Some claim \<Rightarrow>
          if rq_path rq = [] \<or> \<not> uuid_pattern (rq_path rq) then (write_error 400 ''invalid_request'', db)
          else (case parse_update_status_request cfg rq of
             Inl r \<Rightarrow> (r, db)
           | Inr body \<Rightarrow>
               if kc_organization_id claim = [] then (write_error 403 ''organization_required'', db)
               else (case with_scope (rq_faults rq) claim
                       (status_transition cfg (rq_faults rq) (rq_path rq) (kc_organization_id claim) body) db of
                  (Inl e, db') \<Rightarrow> (write_error 500 ''update_watchkeeper_status_failed'', db')
                | (Inr TransitionNotFound, db') \<Rightarrow> (write_error 404 ''not_found'', db')
                | (Inr TransitionInvalid, db') \<Rightarrow> (write_error 400 ''invalid_status_transition'', db')
                | (Inr TransitionDone, db') \<Rightarrow> (RespNoContent, db'))))"

section \<open>\<open>POST /v1/humans\<close>\<close>

definition slack_user_id_max_bytes :: nat where "slack_user_id_max_bytes = 64"

record insert_human_request =
  ih_organization_id :: string
  ih_display_name :: string
  ih_email :: string
  ih_slack_user_id :: string

definition parse_insert_human_request ::
  "keep_cfg \<Rightarrow> insert_human_request keep_request \<Rightarrow> 'r http_response + insert_human_request" where
  "parse_insert_human_request cfg rq =
     (case decode_body cfg \<lparr>ih_organization_id = [], ih_display_name = [], ih_email = [], ih_slack_user_id = []\<rparr> rq of
        Inl r \<Rightarrow> Inl r
      | Inr body \<Rightarrow>
          if \<not> uuid_pattern (ih_organization_id body) then Inl (write_error 400 ''invalid_request'')
          else if ih_display_name body = [] then Inl (write_error 400 ''missing_display_name'')
          else if length (ih_slack_user_id body) > slack_user_id_max_bytes
          then Inl (write_error 400 ''invalid_slack_user_id'')
          else Inr body)"

definition insert_human_failure :: "db_error \<Rightarrow> 'r http_response" where
  "insert_human_failure e =
     (case e of
        PgError code constraint \<Rightarrow>
          if code = ''23505'' then
            if constraint = ''human_slack_user_id_key'' then write_error 409 ''slack_user_id_conflict''
            else write_error 409 ''conflict''
          else write_error 500 ''insert_human_failed''
      | _ \<Rightarrow> write_error 500 ''insert_human_failed'')"

definition handle_insert_human :: "(insert_human_request, string) handler" where
  "handle_insert_human cfg rq db =
     (case rq_claim rq of
        None \<Rightarrow> (write_error 401 ''unauthorized'', db)
      | Some claim \<Rightarrow>
          (case parse_insert_human_request cfg rq of
             Inl r \<Rightarrow> (r, db)
           | Inr body \<Rightarrow>
               if kc_organization_id claim = [] then (write_error 403 ''organization_required'', db)
               else if ih_organization_id body \<noteq> kc_organization_id claim
               then (write_error 403 ''organization_mismatch'', db)
               else (case with_scope (rq_faults rq) claim (stmt_at (rq_faults rq) 0
                       (insert_human cfg (kc_organization_id claim) (ih_display_name body)
                          (null_if_empty (ih_email body)) (null_if_empty (ih_slack_user_id body)))) db of
                  (Inl e, db') \<Rightarrow> (insert_human_failure e, db')
                | (Inr i, db') \<Rightarrow> (RespJSON 201 i, db'))))"

section \<open>\<open>PATCH /v1/watchkeepers/{id}/lead\<close>\<close>

definition parse_update_lead_request :: "keep_cfg \<Rightarrow> string keep_request \<Rightarrow> 'r http_response + string" where
  "parse_update_lead_request cfg rq =
     (case decode_body cfg [] rq of
        Inl r \<Rightarrow> Inl r
      | Inr lead \<Rightarrow> if \<not> uuid_pattern lead then Inl (write_error 400 ''invalid_request'') else Inr lead)"

definition handle_set_watchkeeper_lead :: "(string, string) handler" where
  "handle_set_watchkeeper_lead cfg rq db =
     (case rq_claim rq of
        None \<Rightarrow> (write_error 401 ''unauthorized'', db)
      | Some claim \<Rightarrow>
          if rq_path rq = [] \<or> \<not> uuid_pattern (rq_path rq) then (write_error 400 ''invalid_request'', db)
          else (case parse_update_lead_request cfg rq of
             Inl r \<Rightarrow> (r, db)
           | Inr lead \<Rightarrow>
               if kc_organization_id claim = [] then (write_error 403 ''organization_required'', db)
               else (case with_scope (rq_faults rq) claim (stmt_at (rq_faults rq) 0
                       (update_lead cfg (rq_path rq) lead (kc_organization_id claim))) db of
                  (Inl e, db') \<Rightarrow>
                    (if e = PgError ''23503'' ''watchkeeper_lead_human_id_fkey''
                     then write_error 400 ''invalid_lead_human_id''
                     else write_error 500 ''set_watchkeeper_lead_failed'', db')
                | (Inr n, db') \<Rightarrow> (if n = 0 then write_error 404 ''not_found'' else RespNoContent, db'))))"

section \<open>Reads\<close>

record search_request =
  sq_embedding :: "real list"
  sq_top_k :: int

definition max_search_top_k :: nat where "max_search_top_k = 50"

definition max_embedding_dim :: nat where "max_embedding_dim = 4096"

definition parse_search_request :: "keep_cfg \<Rightarrow> search_request keep_request \<Rightarrow> 'r http_response + real list \<times> nat" where
  "parse_search_request cfg rq =
     (case decode_body cfg \<lparr>sq_embedding = [], sq_top_k = 0\<rparr> rq of
        Inl r \<Rightarrow> Inl r
      | Inr body \<Rightarrow>
          if sq_embedding body = [] then Inl (write_error 400 ''missing_embedding'')
          else if length (sq_embedding body) > max_embedding_dim then Inl (write_error 400 ''invalid_embedding'')
          else if sq_top_k body \<le> 0 then Inl (write_error 400 ''invalid_top_k'')
          else Inr (sq_embedding body, min (nat (sq_top_k body)) max_search_top_k))"

text \<open>A distance that is no number comes out as the largest cosine distance.\<close>

definition search_result :: "chunk_row \<times> real option \<Rightarrow> chunk_row \<times> real" where
  "search_result r = (fst r, case snd r of Some d \<Rightarrow> d | None \<Rightarrow> 2)"

definition handle_search :: "(search_request, (chunk_row \<times> real) list) handler" where
  "handle_search cfg rq db =
     (case rq_claim rq of
        None \<Rightarrow> (write_error 401 ''unauthorized'', db)
      | Some claim \<Rightarrow>
          (case parse_search_request cfg rq of
             Inl r \<Rightarrow> (r, db)
           | Inr (vec, k) \<Rightarrow>
               (case with_scope (rq_faults rq) claim (stmt_at (rq_faults rq) 0 (select_nearest cfg vec k)) db of
                  (Inl e, db') \<Rightarrow> (write_error 500 ''search_failed'', db')
                | (Inr rows, db') \<Rightarrow> (RespJSON 200 (map search_result rows), db'))))"

text \<open>A version as JSON, with \<open>coalesce\<close> for its NULL columns.\<close>

record manifest_version =
  vj_id :: string
  vj_manifest_id :: string
  vj_version_no :: int
  vj_system_prompt :: string
  vj_tools :: string
  vj_authority_matrix :: string
  vj_knowledge_sources :: string
  vj_personality :: string
  vj_language :: string
  vj_model :: string
  vj_autonomy :: string
  vj_notebook_top_k :: int
  vj_notebook_threshold :: real
  vj_created_at :: int

definition coalesce :: "'a option \<Rightarrow> 'a \<Rightarrow> 'a" where
  "coalesce x d = (case x of None \<Rightarrow> d | Some y \<Rightarrow> y)"

definition manifest_version_response :: "keep_cfg \<Rightarrow> version_row \<Rightarrow> manifest_version" where
  "manifest_version_response cfg v =
     \<lparr>vj_id = dc_uuid_text cfg (mv_id v), vj_manifest_id = dc_uuid_text cfg (mv_manifest_id v),
      vj_version_no = mv_version_no v, vj_system_prompt = mv_system_prompt v, vj_tools = mv_tools v,
      vj_authority_matrix = mv_authority_matrix v, vj_knowledge_sources = mv_knowledge_sources v,
      vj_personality = coalesce (mv_personality v) [], vj_language = coalesce (mv_language v) [],
      vj_model = coalesce (mv_model v) [], vj_autonomy = coalesce (mv_autonomy v) [],
      vj_notebook_top_k = coalesce (mv_notebook_top_k v) 0,
      vj_notebook_threshold = coalesce (mv_notebook_threshold v) 0, vj_created_at = mv_created_at v\<rparr>"

definition handle_get_manifest :: "(unit, manifest_version) handler" where
  "handle_get_manifest cfg rq db =
     (case rq_claim rq of
        None \<Rightarrow> (write_error 401 ''unauthorized'', db)
      | Some claim \<Rightarrow>
          if rq_path rq = [] then (write_error 400 ''missing_manifest_id'', db)
          else (case with_scope (rq_faults rq) claim (stmt_at (rq_faults rq) 0
                  (select_latest_version cfg (rq_path rq))) db of
             (Inl NoRows, db') \<Rightarrow> (write_error 404 ''not_found'', db')
           | (Inl e, db') \<Rightarrow> (write_error 500 ''get_manifest_failed'', db')
           | (Inr v, db') \<Rightarrow> (RespJSON 200 (manifest_version_response cfg v), db')))"

definition default_log_limit :: nat where "default_log_limit = 50"

definition max_log_limit :: nat where "max_log_limit = 200"

definition log_limit :: "string \<Rightarrow> nat option" where
  "log_limit raw =
     (if raw = [] then Some default_log_limit
      else case parse_int64 raw of
          None \<Rightarrow> None
        | Some n \<Rightarrow> if n \<le> 0 then None else Some (min (nat n) max_log_limit))"

definition handle_log_tail :: "(unit, log_row list) handler" where
  "handle_log_tail cfg rq db =
     (case rq_claim rq of
        None \<Rightarrow> (write_error 401 ''unauthorized'', db)
      | Some claim \<Rightarrow>
          (case log_limit (rq_query rq ''limit'') of
             None \<Rightarrow> (write_error 400 ''invalid_limit'', db)
           | Some n \<Rightarrow>
               (case with_scope (rq_faults rq) claim (stmt_at (rq_faults rq) 0 (select_log n)) db of
                  (Inl e, db') \<Rightarrow> (write_error 500 ''log_tail_failed'', db')
                | (Inr rows, db') \<Rightarrow> (RespJSON 200 rows, db'))))"

definition handle_get_watchkeeper :: "(unit, watchkeeper_row) handler" where
  "handle_get_watchkeeper cfg rq db =
     (case rq_claim rq of
        None \<Rightarrow> (write_error 401 ''unauthorized'', db)
      | Some claim \<Rightarrow>
          if rq_path rq = [] \<or> \<not> uuid_pattern (rq_path rq) then (write_error 400 ''invalid_request'', db)
          else (case with_scope (rq_faults rq) claim (stmt_at (rq_faults rq) 0
                  (select_watchkeeper cfg (rq_path rq))) db of
             (Inl NoRows, db') \<Rightarrow> (write_error 404 ''not_found'', db')
           | (Inl e, db') \<Rightarrow> (write_error 500 ''get_watchkeeper_failed'', db')
           | (Inr w, db') \<Rightarrow> (RespJSON 200 w, db')))"

definition default_watchkeeper_list_limit :: nat where "default_watchkeeper_list_limit = 50"

definition max_watchkeeper_list_limit :: nat where "max_watchkeeper_list_limit = 200"

definition watchkeeper_list_limit :: "string \<Rightarrow> nat option" where
  "watchkeeper_list_limit raw =
     (if raw = [] then Some default_watchkeeper_list_limit
      else case parse_int64 raw of
          None \<Rightarrow> None
        | Some n \<Rightarrow> if n \<le> 0 \<or> n > int max_watchkeeper_list_limit then None else Some (nat n))"

definition handle_list_watchkeepers :: "(unit, watchkeeper_row list) handler" where
  "handle_list_watchkeepers cfg rq db =
     (case rq_claim rq of
        None \<Rightarrow> (write_error 401 ''unauthorized'', db)
      | Some claim \<Rightarrow>
          (let status = rq_query rq ''status'' in
           if status \<notin> {[], ''pending'', ''active'', ''retired''} then (write_error 400 ''invalid_request'', db)
           else (case watchkeeper_list_limit (rq_query rq ''limit'') of
              None \<Rightarrow> (write_error 400 ''invalid_request'', db)
            | Some n \<Rightarrow>
                (case with_scope (rq_faults rq) claim (stmt_at (rq_faults rq) 0 (select_watchkeepers status n)) db of
                   (Inl e, db') \<Rightarrow> (write_error 500 ''list_watchkeepers_failed'', db')
                 | (Inr rows, db') \<Rightarrow> (RespJSON 200 rows, db')))))"

definition handle_lookup_human_by_slack_id :: "(unit, human_row) handler" where
  "handle_lookup_human_by_slack_id cfg rq db =
     (case rq_claim rq of
        None \<Rightarrow> (write_error 401 ''unauthorized'', db)
      | Some claim \<Rightarrow>
          if rq_path rq = [] then (write_error 400 ''invalid_request'', db)
          else if length (rq_path rq) > slack_user_id_max_bytes then (write_error 400 ''invalid_slack_user_id'', db)
          else (case with_scope (rq_faults rq) claim (stmt_at (rq_faults rq) 0
                  (select_human_by_slack (rq_path rq))) db of
             (Inl NoRows, db') \<Rightarrow> (write_error 404 ''not_found'', db')
           | (Inl e, db') \<Rightarrow> (write_error 500 ''lookup_human_failed'', db')
           | (Inr h, db') \<Rightarrow> (RespJSON 200 h, db')))"

end
