(* ===== verification/KeepTenancy.thy ===== *)
theory KeepTenancy
  imports KeepServer
begin

text \<open>
  What the handlers of the Keep server do to the tables, as one relation of abstract writes each of
  which belongs to the claim of its request, and what follows for any sequence of requests: the
  tables stay consistent, the log only grows, a watchkeeper only moves forward, and what a tenant can
  and cannot reach of another's rows.
\<close>

section \<open>One request\<close>

datatype keep_op =
    OpStore "store_request keep_request"
  | OpLogAppend "log_append_request keep_request"
  | OpPutVersion "put_version_request keep_request"
  | OpInsertWatchkeeper "insert_watchkeeper_request keep_request"
  | OpUpdateStatus "update_status_request keep_request"
  | OpInsertHuman "insert_human_request keep_request"
  | OpSetLead "string keep_request"
  | OpSearch "search_request keep_request"
  | OpGetManifest "unit keep_request"
  | OpLogTail "unit keep_request"
  | OpGetWatchkeeper "unit keep_request"
  | OpListWatchkeepers "unit keep_request"
  | OpLookupHuman "unit keep_request"

text \<open>The tables after a request; every route of the router is one operation.\<close>

definition keep_serve :: "keep_cfg \<Rightarrow> keep_op \<Rightarrow> keep_db \<Rightarrow> keep_db" where
  "keep_serve cfg op db =
     (case op of
        OpStore rq \<Rightarrow> snd (handle_store cfg rq db)
      | OpLogAppend rq \<Rightarrow> snd (handle_log_append cfg rq db)
      | OpPutVersion rq \<Rightarrow> snd (handle_put_manifest_version cfg rq db)
      | OpInsertWatchkeeper rq \<Rightarrow> snd (handle_insert_watchkeeper cfg rq db)
      | OpUpdateStatus rq \<Rightarrow> snd (handle_update_watchkeeper_status cfg rq db)
      | OpInsertHuman rq \<Rightarrow> snd (handle_insert_human cfg rq db)
      | OpSetLead rq \<Rightarrow> snd (handle_set_watchkeeper_lead cfg rq db)
      | OpSearch rq \<Rightarrow> snd (handle_search cfg rq db)
      | OpGetManifest rq \<Rightarrow> snd (handle_get_manifest cfg rq db)
      | OpLogTail rq \<Rightarrow> snd (handle_log_tail cfg rq db)
      | OpGetWatchkeeper rq \<Rightarrow> snd (handle_get_watchkeeper cfg rq db)
      | OpListWatchkeepers rq \<Rightarrow> snd (handle_list_watchkeepers cfg rq db)
      | OpLookupHuman rq \<Rightarrow> snd (handle_lookup_human_by_slack_id cfg rq db))"

definition op_claim :: "keep_op \<Rightarrow> keep_claim option" where
  "op_claim op =
     (case op of
        OpStore rq \<Rightarrow> rq_claim rq | OpLogAppend rq \<Rightarrow> rq_claim rq | OpPutVersion rq \<Rightarrow> rq_claim rq
      | OpInsertWatchkeeper rq \<Rightarrow> rq_claim rq | OpUpdateStatus rq \<Rightarrow> rq_claim rq
      | OpInsertHuman rq \<Rightarrow> rq_claim rq | OpSetLead rq \<Rightarrow> rq_claim rq | OpSearch rq \<Rightarrow> rq_claim rq
      | OpGetManifest rq \<Rightarrow> rq_claim rq | OpLogTail rq \<Rightarrow> rq_claim rq
      | OpGetWatchkeeper rq \<Rightarrow> rq_claim rq | OpListWatchkeepers rq \<Rightarrow> rq_claim rq
      | OpLookupHuman rq \<Rightarrow> rq_claim rq)"

section \<open>Abstract writes\<close>

text \<open>The tenant a watchkeeper is in: that of its lead human.\<close>

definition in_tenant :: "keep_db \<Rightarrow> uuid \<Rightarrow> watchkeeper_row \<Rightarrow> bool" where
  "in_tenant db org w \<longleftrightarrow>
     list_ex (\<lambda>h. hu_id h = wk_lead_human_id w \<and> hu_organization_id h = org) (kd_humans db)"

definition claim_org :: "keep_cfg \<Rightarrow> keep_claim \<Rightarrow> uuid option" where
  "claim_org cfg c = (if kc_organization_id c = [] then None else dc_uuid cfg (kc_organization_id c))"

text \<open>The actor columns a claim stands for.\<close>

definition actor_of :: "keep_cfg \<Rightarrow> keep_claim \<Rightarrow> uuid option \<Rightarrow> uuid option \<Rightarrow> bool" where
  "actor_of cfg c wk hu \<longleftrightarrow>
     (\<exists>u. kc_scope c = ''agent:'' @ u \<and> wk = dc_uuid cfg u \<and> wk \<noteq> None \<and> hu = None)
     \<or> (\<exists>u. kc_scope c = ''user:'' @ u \<and> hu = dc_uuid cfg u \<and> hu \<noteq> None \<and> wk = None)
     \<or> (kc_scope c = ''org'' \<and> wk = None \<and> hu = None)"

inductive keep_write :: "keep_cfg \<Rightarrow> keep_claim \<Rightarrow> keep_db \<Rightarrow> keep_db \<Rightarrow> bool" for cfg c db where
  chunk: "ch_scope r = kc_scope c \<Longrightarrow> ch_id r \<notin> ch_id ` set (kd_chunks db) \<Longrightarrow>
    keep_write cfg c db (db\<lparr>kd_chunks := kd_chunks db @ [r], kd_writes := Suc (kd_writes db)\<rparr>)"
| log: "actor_of cfg c (kl_actor_watchkeeper_id r) (kl_actor_human_id r) \<Longrightarrow> kl_id r \<notin> kl_id ` set (kd_log db) \<Longrightarrow>
    set_option (kl_actor_watchkeeper_id r) \<subseteq> wk_id ` set (kd_watchkeepers db) \<Longrightarrow>
    set_option (kl_actor_human_id r) \<subseteq> hu_id ` set (kd_humans db) \<Longrightarrow>
    keep_write cfg c db (db\<lparr>kd_log := kd_log db @ [r], kd_writes := Suc (kd_writes db)\<rparr>)"
| version: "claim_org cfg c = Some org \<Longrightarrow> m \<in> set (kd_manifests db) \<Longrightarrow>
    mf_id m = mv_manifest_id r \<Longrightarrow> mf_organization_id m = org \<Longrightarrow>
    version_checks r \<Longrightarrow> mv_id r \<notin> mv_id ` set (kd_versions db) \<Longrightarrow>
    \<forall>v \<in> set (kd_versions db). \<not> (mv_manifest_id v = mv_manifest_id r \<and> mv_version_no v = mv_version_no r) \<Longrightarrow>
    keep_write cfg c db (db\<lparr>kd_versions := kd_versions db @ [r], kd_writes := Suc (kd_writes db)\<rparr>)"
| watchkeeper: "claim_org cfg c = Some org \<Longrightarrow> in_tenant db org r \<Longrightarrow> wk_id r \<notin> wk_id ` set (kd_watchkeepers db) \<Longrightarrow>
    wk_manifest_id r \<in> mf_id ` set (kd_manifests db) \<Longrightarrow>
    set_option (wk_active_version_id r) \<subseteq> mv_id ` set (kd_versions db) \<Longrightarrow>
    wk_status r = ''pending'' \<Longrightarrow> wk_spawned_at r = None \<Longrightarrow> wk_retired_at r = None \<Longrightarrow> wk_archive_uri r = None \<Longrightarrow>
    keep_write cfg c db (db\<lparr>kd_watchkeepers := kd_watchkeepers db @ [r], kd_writes := Suc (kd_writes db)\<rparr>)"
| activate: "claim_org cfg c = Some org \<Longrightarrow> w \<in> set (kd_watchkeepers db) \<Longrightarrow> wk_id w = i \<Longrightarrow> in_tenant db org w \<Longrightarrow>
    wk_status w = ''pending'' \<Longrightarrow>
    keep_write cfg c db (db\<lparr>kd_watchkeepers := map (\<lambda>w. if wk_id w = i
       then w\<lparr>wk_status := ''active'', wk_spawned_at := Some now\<rparr> else w) (kd_watchkeepers db),
       kd_writes := Suc (kd_writes db)\<rparr>)"
| retire: "claim_org cfg c = Some org \<Longrightarrow> w \<in> set (kd_watchkeepers db) \<Longrightarrow> wk_id w = i \<Longrightarrow> in_tenant db org w \<Longrightarrow>
    wk_status w = ''active'' \<Longrightarrow>
    keep_write cfg c db (db\<lparr>kd_watchkeepers := map (\<lambda>w. if wk_id w = i
       then w\<lparr>wk_status := ''retired'', wk_retired_at := Some now, wk_archive_uri := archive\<rparr> else w) (kd_watchkeepers db),
       kd_writes := Suc (kd_writes db)\<rparr>)"
| lead: "claim_org cfg c = Some org \<Longrightarrow> lead \<in> hu_id ` set (kd_humans db) \<Longrightarrow>
    keep_write cfg c db (db\<lparr>kd_watchkeepers := map (\<lambda>w. if wk_id w = i \<and> in_tenant db org w
       then w\<lparr>wk_lead_human_id := lead\<rparr> else w) (kd_watchkeepers db),
       kd_writes := Suc (kd_writes db)\<rparr>)"
| human: "claim_org cfg c = Some (hu_organization_id r) \<Longrightarrow> hu_organization_id r \<in> set (kd_organizations db) \<Longrightarrow>
    hu_id r \<notin> hu_id ` set (kd_humans db) \<Longrightarrow>
    hu_slack_user_id r = None \<or> hu_slack_user_id r \<notin> hu_slack_user_id ` set (kd_humans db) \<Longrightarrow>
    keep_write cfg c db (db\<lparr>kd_humans := kd_humans db @ [r], kd_writes := Suc (kd_writes db)\<rparr>)"

section \<open>The handlers only make abstract writes\<close>

lemma scoped_stmt:
  assumes "with_scope f c (stmt_at f n st) db = (Inr a, db')"
  obtains role where "st \<lparr>ss_role = role, ss_scope = kc_scope c, ss_org = kc_organization_id c\<rparr> db = (Inr a, db')"
  using assms by (elim with_scope_outcome) (auto dest: stmt_at_ok)

lemma scoped_error: "with_scope f c st db = (Inl e, db') \<Longrightarrow> db' = db"
  by (elim with_scope_outcome) auto

lemma scoped_valid: "with_scope f c st db = (Inr a, db') \<Longrightarrow> valid_scope (kc_scope c)"
  by (auto simp: with_scope_def simp flip: role_for_scope_valid split: sum.splits)

lemma actor_from_scope_of:
  assumes "actor_from_scope (kc_scope c) = Some (wkt, hut)" "valid_scope (kc_scope c)"
    and "uuid_param_opt cfg wkt = Inr wk" "uuid_param_opt cfg hut = Inr hu"
  shows "actor_of cfg c wk hu"
proof -
  consider (agent) u where "kc_scope c = ''agent:'' @ u" "wkt = Some u" "hut = None"
    | (user) u where "kc_scope c = ''user:'' @ u" "wkt = None" "hut = Some u"
    | (org) "cut_prefix (kc_scope c) ''agent:'' = None" "cut_prefix (kc_scope c) ''user:'' = None" "wkt = None" "hut = None"
    using assms(1) by (auto simp: actor_from_scope_def cut_prefix_take split: option.splits if_splits)
  then show ?thesis
  proof cases
    case agent
    then obtain y where "dc_uuid cfg u = Some y" "wk = Some y" "hu = None"
      using assms(3,4) by (auto simp: uuid_param_opt_def uuid_param_def split: option.splits)
    with agent show ?thesis
      by (simp add: actor_of_def)
  next
    case user
    then obtain y where "dc_uuid cfg u = Some y" "hu = Some y" "wk = None"
      using assms(3,4) by (auto simp: uuid_param_opt_def uuid_param_def split: option.splits)
    with user show ?thesis
      by (simp add: actor_of_def)
  next
    case org
    with assms(2) have "kc_scope c = ''org''"
      by (simp add: valid_scope_def)
    with org assms(3,4) show ?thesis
      by (simp add: actor_of_def uuid_param_opt_def)
  qed
qed

lemma claim_org_param: "uuid_param cfg (kc_organization_id c) = Inr org \<Longrightarrow> kc_organization_id c \<noteq> []
    \<Longrightarrow> claim_org cfg c = Some org"
  by (auto simp: uuid_param_def claim_org_def split: option.splits)

lemma insert_chunk_write:
  "insert_chunk cfg (kc_scope c) sub con vec \<lparr>ss_role = role, ss_scope = kc_scope c, ss_org = org\<rparr> db = (Inr i, db')
    \<Longrightarrow> keep_write cfg c db db'"
  by (auto simp: insert_chunk_def Let_def split: if_splits intro!: keep_write.chunk)

lemma insert_log_write:
  assumes "insert_log cfg ev corr wkt hut p s db = (Inr i, db')"
    and "actor_from_scope (kc_scope c) = Some (wkt, hut)" "valid_scope (kc_scope c)"
  shows "keep_write cfg c db db'"
proof -
  obtain wk hu where "uuid_param_opt cfg wkt = Inr wk" "uuid_param_opt cfg hut = Inr hu"
    using assms(1) by (auto simp: insert_log_def Let_def split: sum.splits)
  with actor_from_scope_of [OF assms(2,3)] assms(1) show ?thesis
    by (auto simp: insert_log_def Let_def split: sum.splits option.splits if_splits intro!: keep_write.log)
qed

lemma version_of_values_ids:
  "version_of_values cfg i now m vals = Some r \<Longrightarrow> mv_id r = i \<and> mv_manifest_id r = m \<and> mv_version_no r = vv_version_no vals"
  by (auto simp: version_of_values_def split: option.splits if_splits)

lemma insert_version_write:
  assumes "insert_version cfg mt vals (kc_organization_id c) s db = (Inr i, db')" "kc_organization_id c \<noteq> []"
  shows "keep_write cfg c db db'"
proof -
  obtain m org where p: "uuid_param cfg mt = Inr m" "uuid_param cfg (kc_organization_id c) = Inr org"
    using assms(1) by (auto simp: insert_version_def split: sum.splits)
  with assms(1) obtain r gorg where r: "version_of_values cfg (dc_gen cfg (kd_writes db)) (dc_now cfg (kd_writes db)) m vals = Some r"
    "db' = db\<lparr>kd_versions := kd_versions db @ [r], kd_writes := Suc (kd_writes db)\<rparr>" "version_checks r"
    "dc_gen cfg (kd_writes db) \<notin> mv_id ` set (kd_versions db)"
    "\<not> list_ex (\<lambda>v. mv_manifest_id v = m \<and> mv_version_no v = vv_version_no vals) (kd_versions db)"
    "list_ex (\<lambda>x. mf_id x = m \<and> mf_organization_id x = org \<and> manifest_visible gorg x) (kd_manifests db)"
    by (auto simp: insert_version_def Let_def split: sum.splits option.splits if_splits)
  then obtain x where x: "x \<in> set (kd_manifests db)" "mf_id x = m" "mf_organization_id x = org"
    by (auto simp: list_ex_iff)
  show ?thesis
    unfolding r(2) using r(3-5) version_of_values_ids [OF r(1)] x
    by (intro keep_write.version [OF claim_org_param [OF p(2) assms(2)] x(1)]) (auto simp: list_ex_iff)
qed

lemma insert_watchkeeper_write:
  assumes "insert_watchkeeper cfg mt lt vt (kc_organization_id c) s db = (Inr i, db')" "kc_organization_id c \<noteq> []"
  shows "keep_write cfg c db db'"
  using assms claim_org_param [OF _ assms(2), of cfg]
  by (auto simp: insert_watchkeeper_def Let_def in_tenant_def split: sum.splits if_splits
      intro!: keep_write.watchkeeper)

lemma update_lead_write:
  assumes "update_lead cfg it lt (kc_organization_id c) s db = (Inr n, db')" "kc_organization_id c \<noteq> []" "n \<noteq> 0"
  shows "keep_write cfg c db db'"
proof -
  obtain i lead org where p: "uuid_param cfg it = Inr i" "uuid_param cfg lt = Inr lead"
    "uuid_param cfg (kc_organization_id c) = Inr org"
    using assms(1) by (auto simp: update_lead_def split: sum.splits)
  with assms have "lead \<in> hu_id ` set (kd_humans db)"
    "db' = db\<lparr>kd_watchkeepers := map (\<lambda>w. if wk_id w = i \<and> in_tenant db org w
       then w\<lparr>wk_lead_human_id := lead\<rparr> else w) (kd_watchkeepers db), kd_writes := Suc (kd_writes db)\<rparr>"
    by (auto simp: update_lead_def Let_def in_tenant_def split: if_splits)
  then show ?thesis
    using keep_write.lead [OF claim_org_param [OF p(3) assms(2)]] by simp
qed

lemma insert_human_write:
  assumes "insert_human cfg (kc_organization_id c) name email slack s db = (Inr i, db')" "kc_organization_id c \<noteq> []"
  shows "keep_write cfg c db db'"
proof -
  obtain org where p: "uuid_param cfg (kc_organization_id c) = Inr org"
    using assms(1) by (auto simp: insert_human_def split: sum.splits)
  then show ?thesis
    using assms claim_org_param [OF p assms(2)]
    by (auto simp: insert_human_def Let_def split: if_splits intro!: keep_write.human) (metis image_eqI)
qed

lemma select_status_row:
  assumes "select_status_for_update cfg it (kc_organization_id c) s db = (Inr st, db1)"
  obtains i org w where "db1 = db" "uuid_param cfg it = Inr i" "uuid_param cfg (kc_organization_id c) = Inr org"
    "w \<in> set (kd_watchkeepers db)" "wk_id w = i" "in_tenant db org w" "wk_status w = st"
  using assms
  by (auto simp: select_status_for_update_def in_tenant_def find_Some_iff split: sum.splits option.splits
      intro: nth_mem)

lemma update_watchkeeper_ok:
  "update_watchkeeper cfg it f s db = (Inr u, db') \<Longrightarrow> uuid_param cfg it = Inr i \<Longrightarrow>
    db' = db\<lparr>kd_watchkeepers := map (\<lambda>w. if wk_id w = i then f (dc_now cfg (kd_writes db)) w else w)
      (kd_watchkeepers db), kd_writes := Suc (kd_writes db)\<rparr>"
  by (auto simp: update_watchkeeper_def)

lemma status_transition_write:
  assumes "status_transition cfg f it (kc_organization_id c) body s db = (Inr r, db')" "kc_organization_id c \<noteq> []"
  shows "(r \<noteq> TransitionDone \<and> db' = db) \<or> (r = TransitionDone \<and> keep_write cfg c db db')"
proof -
  obtain r1 db1 where sel: "stmt_at f 0 (select_status_for_update cfg it (kc_organization_id c)) s db = (r1, db1)"
    by fastforce
  show ?thesis
  proof (cases r1)
    case (Inl e)
    have "db1 = db"
      using sel Inl by (auto simp: stmt_at_def select_status_for_update_def split: option.splits sum.splits)
    with assms(1) sel Inl show ?thesis
      by (auto simp: status_transition_def split: db_error.splits)
  next
    case (Inr st)
    from stmt_at_ok [OF sel [unfolded Inr]] obtain i org w where w: "db1 = db" "uuid_param cfg it = Inr i"
      "uuid_param cfg (kc_organization_id c) = Inr org" "w \<in> set (kd_watchkeepers db)" "wk_id w = i"
      "in_tenant db org w" "wk_status w = st"
      by (rule select_status_row)
    note org = claim_org_param [OF w(3) assms(2)]
    have act: "keep_write cfg c db db2" if "st = ''pending''"
      "update_watchkeeper cfg it (\<lambda>now w. w\<lparr>wk_status := ''active'', wk_spawned_at := Some now\<rparr>) s db = (Inr u, db2)" for u db2
      unfolding update_watchkeeper_ok [OF that(2) w(2)]
      using w(5-7) that(1) by (intro keep_write.activate [OF org w(4)]) simp_all
    have ret: "keep_write cfg c db db2" if "st = ''active''" "exec_retire_update cfg it a s db = (Inr u, db2)" for u db2 a
      unfolding update_watchkeeper_ok [OF that(2) [unfolded exec_retire_update_def] w(2)]
      using w(5-7) that(1) by (intro keep_write.retire [OF org w(4)]) simp_all
    show ?thesis
      using assms(1) sel Inr w(1)
      by (auto simp: status_transition_def split: if_splits prod.splits sum.splits dest!: stmt_at_ok intro: act ret)
  qed
qed

lemmas handler_defs =
  handle_store_def handle_log_append_def handle_put_manifest_version_def handle_insert_watchkeeper_def
  handle_insert_human_def

lemma handle_store_write:
  "handle_store cfg rq db = (r, db') \<Longrightarrow> db' = db \<or> (\<exists>c. rq_claim rq = Some c \<and> keep_write cfg c db db')"
  by (auto simp: handle_store_def split: option.splits sum.splits prod.splits
      dest: scoped_error elim!: scoped_stmt intro: insert_chunk_write)

lemma handle_log_append_write:
  "handle_log_append cfg rq db = (r, db') \<Longrightarrow> db' = db \<or> (\<exists>c. rq_claim rq = Some c \<and> keep_write cfg c db db')"
  by (auto simp: handle_log_append_def Let_def split: option.splits sum.splits prod.splits if_splits
      dest: scoped_error) (meson scoped_stmt scoped_valid insert_log_write)+

lemma handle_put_version_write:
  "handle_put_manifest_version cfg rq db = (r, db') \<Longrightarrow> db' = db \<or> (\<exists>c. rq_claim rq = Some c \<and> keep_write cfg c db db')"
  by (auto simp: handle_put_manifest_version_def split: option.splits sum.splits prod.splits if_splits
      dest: scoped_error elim!: scoped_stmt intro: insert_version_write)

lemma handle_insert_watchkeeper_write:
  "handle_insert_watchkeeper cfg rq db = (r, db') \<Longrightarrow> db' = db \<or> (\<exists>c. rq_claim rq = Some c \<and> keep_write cfg c db db')"
  by (auto simp: handle_insert_watchkeeper_def split: option.splits sum.splits prod.splits if_splits db_error.splits
      dest: scoped_error elim!: scoped_stmt intro: insert_watchkeeper_write)

lemma handle_insert_human_write:
  "handle_insert_human cfg rq db = (r, db') \<Longrightarrow> db' = db \<or> (\<exists>c. rq_claim rq = Some c \<and> keep_write cfg c db db')"
  by (auto simp: handle_insert_human_def split: option.splits sum.splits prod.splits if_splits
      dest: scoped_error elim!: scoped_stmt intro: insert_human_write)

lemma update_lead_none:
  "update_lead cfg it lt org s db = (Inr 0, db') \<Longrightarrow> db' = db"
  by (auto simp: update_lead_def Let_def split: sum.splits if_splits)

lemma handle_set_lead_write:
  "handle_set_watchkeeper_lead cfg rq db = (r, db') \<Longrightarrow> db' = db \<or> (\<exists>c. rq_claim rq = Some c \<and> keep_write cfg c db db')"
  by (auto simp: handle_set_watchkeeper_lead_def split: option.splits sum.splits prod.splits if_splits
      dest: scoped_error elim!: scoped_stmt intro: update_lead_write update_lead_none)

lemma handle_update_status_write:
  assumes "handle_update_watchkeeper_status cfg rq db = (r, db')"
  shows "db' = db \<or> (\<exists>c. rq_claim rq = Some c \<and> keep_write cfg c db db')"
proof (cases "\<exists>c body t. rq_claim rq = Some c \<and> parse_update_status_request cfg rq = (Inr body :: string http_response + _)
    \<and> kc_organization_id c \<noteq> []
    \<and> with_scope (rq_faults rq) c (status_transition cfg (rq_faults rq) (rq_path rq) (kc_organization_id c) body) db
        = (Inr t, db')")
  case True
  then obtain c body t where ok: "rq_claim rq = Some c" "kc_organization_id c \<noteq> []"
    "with_scope (rq_faults rq) c (status_transition cfg (rq_faults rq) (rq_path rq) (kc_organization_id c) body) db = (Inr t, db')"
    by blast
  from ok(3) obtain role where
    "status_transition cfg (rq_faults rq) (rq_path rq) (kc_organization_id c) body
       \<lparr>ss_role = role, ss_scope = kc_scope c, ss_org = kc_organization_id c\<rparr> db = (Inr t, db')"
    by (elim with_scope_outcome) auto
  from status_transition_write [OF this ok(2)] ok(1) show ?thesis
    by blast
next
  case False
  with assms show ?thesis
    by (fastforce simp: handle_update_watchkeeper_status_def dest: scoped_error
        split: option.splits sum.splits prod.splits if_splits transition_result.splits)
qed

lemma read_stmts_keep [simp]:
  "snd (select_latest_version cfg m s db) = db" "snd (select_nearest cfg vec k s db) = db"
  "snd (select_log n s db) = db" "snd (select_watchkeeper cfg it s db) = db"
  "snd (select_watchkeepers st n s db) = db" "snd (select_human_by_slack slack s db) = db"
  by (simp_all add: select_latest_version_def select_nearest_def select_log_def select_watchkeeper_def
      select_watchkeepers_def select_human_by_slack_def split: sum.split option.split)

lemma scoped_read:
  assumes "\<And>s. snd (st s db) = db" "with_scope f c (stmt_at f n st) db = (r, db')"
  shows "db' = db"
  using assms(2)
proof (rule with_scope_outcome)
  fix a role
  assume "stmt_at f n st \<lparr>ss_role = role, ss_scope = kc_scope c, ss_org = kc_organization_id c\<rparr> db = (Inr a, db')"
  from stmt_at_ok [OF this] assms(1) [of "\<lparr>ss_role = role, ss_scope = kc_scope c, ss_org = kc_organization_id c\<rparr>"]
  show ?thesis by simp
qed

lemma scoped_read_case:
  assumes "\<And>s. snd (st s db) = db"
  shows "snd (case with_scope f c (stmt_at f n st) db of (r, d) \<Rightarrow> (g r, d)) = db"
proof -
  obtain r d where "with_scope f c (stmt_at f n st) db = (r, d)"
    by fastforce
  with scoped_read [OF assms this] show ?thesis
    by simp
qed

lemma sum_pair_case:
  "(case p of (Inl e, d) \<Rightarrow> (a e, d) | (Inr x, d) \<Rightarrow> (b x, d))
     = (case p of (r, d) \<Rightarrow> (case r of Inl e \<Rightarrow> a e | Inr x \<Rightarrow> b x, d))"
  "(case p of (Inl NoRows, d) \<Rightarrow> (a0, d) | (Inl e, d) \<Rightarrow> (a1, d) | (Inr x, d) \<Rightarrow> (b x, d))
     = (case p of (r, d) \<Rightarrow> (case r of Inl NoRows \<Rightarrow> a0 | Inl e \<Rightarrow> a1 | Inr x \<Rightarrow> b x, d))"
  by (auto split: prod.split sum.split db_error.split)

lemma handle_search_keeps: "snd (handle_search cfg rq db) = db"
  unfolding handle_search_def sum_pair_case
  by (simp add: scoped_read_case split: option.split sum.split prod.split del: split_paired_All)

lemma handle_get_manifest_keeps: "snd (handle_get_manifest cfg rq db) = db"
  unfolding handle_get_manifest_def sum_pair_case by (simp add: scoped_read_case split: option.split)

lemma handle_log_tail_keeps: "snd (handle_log_tail cfg rq db) = db"
  unfolding handle_log_tail_def sum_pair_case by (simp add: scoped_read_case split: option.split)

lemma handle_get_watchkeeper_keeps: "snd (handle_get_watchkeeper cfg rq db) = db"
  unfolding handle_get_watchkeeper_def sum_pair_case by (simp add: scoped_read_case split: option.split)

lemma handle_list_watchkeepers_keeps: "snd (handle_list_watchkeepers cfg rq db) = db"
  unfolding handle_list_watchkeepers_def sum_pair_case Let_def by (simp add: scoped_read_case split: option.split)

lemma handle_lookup_human_keeps: "snd (handle_lookup_human_by_slack_id cfg rq db) = db"
  unfolding handle_lookup_human_by_slack_id_def sum_pair_case by (simp add: scoped_read_case split: option.split)

lemmas reads_keep =
  handle_search_keeps handle_get_manifest_keeps handle_log_tail_keeps handle_get_watchkeeper_keeps
  handle_list_watchkeepers_keeps handle_lookup_human_keeps

text \<open>A request is at most one write of its own tenant.\<close>

lemma request_is_one_write:
  "keep_serve cfg op db = db
     \<or> (\<exists>c. op_claim op = Some c \<and> keep_write cfg c db (keep_serve cfg op db))"
proof (cases op)
  case (OpStore rq)
  then show ?thesis
    using handle_store_write [of cfg rq db] by (simp add: keep_serve_def op_claim_def prod_eq_iff)
next
  case (OpLogAppend rq)
  then show ?thesis
    using handle_log_append_write [of cfg rq db] by (simp add: keep_serve_def op_claim_def prod_eq_iff)
next
  case (OpPutVersion rq)
  then show ?thesis
    using handle_put_version_write [of cfg rq db] by (simp add: keep_serve_def op_claim_def prod_eq_iff)
next
  case (OpInsertWatchkeeper rq)
  then show ?thesis
    using handle_insert_watchkeeper_write [of cfg rq db] by (simp add: keep_serve_def op_claim_def prod_eq_iff)
next
  case (OpUpdateStatus rq)
  then show ?thesis
    using handle_update_status_write [of cfg rq db] by (simp add: keep_serve_def op_claim_def prod_eq_iff)
next
  case (OpInsertHuman rq)
  then show ?thesis
    using handle_insert_human_write [of cfg rq db] by (simp add: keep_serve_def op_claim_def prod_eq_iff)
next
  case (OpSetLead rq)
  then show ?thesis
    using handle_set_lead_write [of cfg rq db] by (simp add: keep_serve_def op_claim_def prod_eq_iff)
qed (simp_all add: keep_serve_def reads_keep)

section \<open>Any sequence of requests\<close>

definition keep_serve_all :: "keep_cfg \<Rightarrow> keep_op list \<Rightarrow> keep_db \<Rightarrow> keep_db" where
  "keep_serve_all cfg ops db = foldl (\<lambda>d op. keep_serve cfg op d) db ops"

lemma keep_serve_all_simps [simp]:
  "keep_serve_all cfg [] db = db"
  "keep_serve_all cfg (op # ops) db = keep_serve_all cfg ops (keep_serve cfg op db)"
  by (simp_all add: keep_serve_all_def)

lemma keep_serve_all_induct:
  assumes "P db" "\<And>op d. op \<in> set ops \<Longrightarrow> P d \<Longrightarrow> P (keep_serve cfg op d)"
  shows "P (keep_serve_all cfg ops db)"
  using assms by (induction ops arbitrary: db) auto

text \<open>
  C6: requests refine writes. Whatever the requests are and however their transactions fare, each
  leaves the tables as they are or makes one of eight abstract writes under its own verified claim: a
  chunk of the claim's scope, a log row whose actor is the claim's, a version of a manifest of the
  claim's organization, a pending watchkeeper led by a human of it, one step of a watchkeeper of it, a
  change of the lead of one, or a human of it; and so a whole run of the server is a run of such writes.
\<close>

theorem requests_refine_writes:
  "(keep_serve cfg op db = db \<or> (\<exists>c. op_claim op = Some c \<and> keep_write cfg c db (keep_serve cfg op db)))
    \<and> (\<lambda>d d'. \<exists>o' c. o' \<in> set ops \<and> op_claim o' = Some c \<and> keep_write cfg c d d')\<^sup>*\<^sup>* db (keep_serve_all cfg ops db)"
proof (intro conjI request_is_one_write)
  let ?R = "\<lambda>d d'. \<exists>o' c. o' \<in> set ops \<and> op_claim o' = Some c \<and> keep_write cfg c d d'"
  show "?R\<^sup>*\<^sup>* db (keep_serve_all cfg ops db)"
  proof (rule keep_serve_all_induct [where P = "?R\<^sup>*\<^sup>* db"])
    fix op and d :: keep_db
    assume "op \<in> set ops" and run: "?R\<^sup>*\<^sup>* db d"
    from request_is_one_write [of cfg op d] show "?R\<^sup>*\<^sup>* db (keep_serve cfg op d)"
    proof
      assume "\<exists>c. op_claim op = Some c \<and> keep_write cfg c d (keep_serve cfg op d)"
      with \<open>op \<in> set ops\<close> have "?R d (keep_serve cfg op d)"
        by blast
      with run show ?thesis
        by (rule rtranclp.rtrancl_into_rtrancl)
    qed (use run in simp)
  qed simp
qed

text \<open>A watchkeeper row by its stage.\<close>

definition stage_ok :: "watchkeeper_row \<Rightarrow> bool" where
  "stage_ok w \<longleftrightarrow>
     (wk_status w = ''pending'' \<and> wk_spawned_at w = None \<and> wk_retired_at w = None \<and> wk_archive_uri w = None)
     \<or> (wk_status w = ''active'' \<and> wk_spawned_at w \<noteq> None \<and> wk_retired_at w = None \<and> wk_archive_uri w = None)
     \<or> (wk_status w = ''retired'' \<and> wk_spawned_at w \<noteq> None \<and> wk_retired_at w \<noteq> None)"

definition kd_ok :: "keep_db \<Rightarrow> bool" where
  "kd_ok db \<longleftrightarrow>
     distinct (map wk_id (kd_watchkeepers db)) \<and> distinct (map hu_id (kd_humans db))
     \<and> distinct (map mv_id (kd_versions db)) \<and> distinct (map kl_id (kd_log db))
     \<and> distinct (map ch_id (kd_chunks db)) \<and> distinct (map mf_id (kd_manifests db))
     \<and> distinct (map (\<lambda>v. (mv_manifest_id v, mv_version_no v)) (kd_versions db))
     \<and> distinct (filter (\<lambda>x. x \<noteq> None) (map hu_slack_user_id (kd_humans db)))
     \<and> (\<forall>v \<in> set (kd_versions db). version_checks v \<and> mv_manifest_id v \<in> mf_id ` set (kd_manifests db))
     \<and> (\<forall>w \<in> set (kd_watchkeepers db). stage_ok w \<and> wk_lead_human_id w \<in> hu_id ` set (kd_humans db)
          \<and> wk_manifest_id w \<in> mf_id ` set (kd_manifests db)
          \<and> set_option (wk_active_version_id w) \<subseteq> mv_id ` set (kd_versions db))
     \<and> (\<forall>h \<in> set (kd_humans db). hu_organization_id h \<in> set (kd_organizations db))
     \<and> (\<forall>l \<in> set (kd_log db). set_option (kl_actor_watchkeeper_id l) \<subseteq> wk_id ` set (kd_watchkeepers db)
          \<and> set_option (kl_actor_human_id l) \<subseteq> hu_id ` set (kd_humans db))"

lemma map_wk_id_update [simp]:
  "(\<And>w. wk_id (f w) = wk_id w) \<Longrightarrow> map wk_id (map (\<lambda>w. if P w then f w else w) ws) = map wk_id ws"
  by (induction ws) auto

lemma set_wk_update:
  "(\<And>w. wk_id (f w) = wk_id w) \<Longrightarrow> wk_id ` set (map (\<lambda>w. if P w then f w else w) ws) = wk_id ` set ws"
  by (induction ws) auto

lemma same_id_row:
  "kd_ok db \<Longrightarrow> v \<in> set (kd_watchkeepers db) \<Longrightarrow> w \<in> set (kd_watchkeepers db) \<Longrightarrow> wk_id v = wk_id w \<Longrightarrow> v = w"
  by (auto simp: kd_ok_def distinct_map dest: inj_onD)

lemma kd_ok_watchkeepers:
  assumes "kd_ok db" "\<And>w. wk_id (f w) = wk_id w" "\<And>w. wk_manifest_id (f w) = wk_manifest_id w"
    "\<And>w. wk_active_version_id (f w) = wk_active_version_id w"
    "\<And>w. w \<in> set (kd_watchkeepers db) \<Longrightarrow> P w \<Longrightarrow> stage_ok (f w) \<and> wk_lead_human_id (f w) \<in> hu_id ` set (kd_humans db)"
  shows "kd_ok (db\<lparr>kd_watchkeepers := map (\<lambda>w. if P w then f w else w) (kd_watchkeepers db), kd_writes := n\<rparr>)"
proof -
  define ws where "ws = map (\<lambda>w. if P w then f w else w) (kd_watchkeepers db)"
  have "map wk_id ws = map wk_id (kd_watchkeepers db)"
    unfolding ws_def by (rule map_wk_id_update) (rule assms(2))
  moreover have "wk_id ` set ws = wk_id ` set (kd_watchkeepers db)"
    unfolding ws_def by (rule set_wk_update) (rule assms(2))
  moreover have "stage_ok w \<and> wk_lead_human_id w \<in> hu_id ` set (kd_humans db)
      \<and> wk_manifest_id w \<in> mf_id ` set (kd_manifests db)
      \<and> set_option (wk_active_version_id w) \<subseteq> mv_id ` set (kd_versions db)" if w: "w \<in> set ws" for w
  proof -
    obtain v where v: "v \<in> set (kd_watchkeepers db)" "w = (if P v then f v else v)"
      using w unfolding ws_def set_map by blast
    with assms(1) have "stage_ok v \<and> wk_lead_human_id v \<in> hu_id ` set (kd_humans db)
        \<and> wk_manifest_id v \<in> mf_id ` set (kd_manifests db)
        \<and> set_option (wk_active_version_id v) \<subseteq> mv_id ` set (kd_versions db)"
      by (simp add: kd_ok_def)
    then show ?thesis
      using v assms(3-5) by simp
  qed
  ultimately show ?thesis
    using assms(1) unfolding kd_ok_def ws_def [symmetric] by simp
qed

lemma keep_write_ok: "keep_write cfg c db db' \<Longrightarrow> kd_ok db \<Longrightarrow> kd_ok db'"
proof (induction rule: keep_write.induct)
  case (chunk r)
  then show ?case by (auto simp: kd_ok_def)
next
  case (log r)
  then show ?case by (auto simp: kd_ok_def)
next
  case (version org m r)
  then show ?case by (auto simp: kd_ok_def) (metis image_eqI)
next
  case (watchkeeper org r)
  then have "wk_lead_human_id r \<in> hu_id ` set (kd_humans db)" "stage_ok r"
    by (auto simp: in_tenant_def list_ex_iff stage_ok_def intro: rev_image_eqI)
  with watchkeeper show ?case by (auto simp: kd_ok_def)
next
  case (activate org w i now)
  show ?case
  proof (rule kd_ok_watchkeepers [OF activate.prems])
    fix v assume v: "v \<in> set (kd_watchkeepers db)" "wk_id v = i"
    then have "v = w"
      using same_id_row [OF activate.prems] activate.hyps by blast
    with v activate.prems activate.hyps show "stage_ok (v\<lparr>wk_status := ''active'', wk_spawned_at := Some now\<rparr>)
        \<and> wk_lead_human_id (v\<lparr>wk_status := ''active'', wk_spawned_at := Some now\<rparr>) \<in> hu_id ` set (kd_humans db)"
      by (auto simp: kd_ok_def stage_ok_def)
  qed simp_all
next
  case (retire org w i archive now)
  show ?case
  proof (rule kd_ok_watchkeepers [OF retire.prems])
    fix v assume v: "v \<in> set (kd_watchkeepers db)" "wk_id v = i"
    then have "v = w"
      using same_id_row [OF retire.prems] retire.hyps by blast
    with v retire.prems retire.hyps show
      "stage_ok (v\<lparr>wk_status := ''retired'', wk_retired_at := Some now, wk_archive_uri := archive\<rparr>)
        \<and> wk_lead_human_id (v\<lparr>wk_status := ''retired'', wk_retired_at := Some now, wk_archive_uri := archive\<rparr>)
            \<in> hu_id ` set (kd_humans db)"
      by (auto simp: kd_ok_def stage_ok_def)
  qed simp_all
next
  case (lead org l i)
  show ?case
    using lead by (intro kd_ok_watchkeepers) (auto simp: kd_ok_def stage_ok_def)
next
  case (human r)
  then show ?case by (auto simp: kd_ok_def)
qed

text \<open>
  C14: the tables stay consistent. From tables whose keys are unique, whose references resolve, whose
  version rows pass their checks and whose watchkeepers have the timestamps and the archive address of
  their stage, every sequence of requests leads to such tables, whatever transactions fail.
\<close>

theorem tables_stay_consistent: "kd_ok db \<Longrightarrow> kd_ok (keep_serve_all cfg ops db)"
proof (rule keep_serve_all_induct [of kd_ok])
  fix op and d :: keep_db
  assume "kd_ok d"
  then show "kd_ok (keep_serve cfg op d)"
    using request_is_one_write [of cfg op d] keep_write_ok by metis
qed

section \<open>The life of a watchkeeper\<close>

text \<open>The stage of a row, with what was recorded on the way to it.\<close>

datatype life = Pending | Active int | Retired int int "string option"

definition life_of :: "watchkeeper_row \<Rightarrow> life" where
  "life_of w =
     (if wk_status w = ''pending'' then Pending
      else if wk_status w = ''active'' then Active (the (wk_spawned_at w))
      else Retired (the (wk_spawned_at w)) (the (wk_retired_at w)) (wk_archive_uri w))"

inductive life_step :: "life \<Rightarrow> life \<Rightarrow> bool" where
  spawn: "life_step Pending (Active t)"
| retire: "life_step (Active t) (Retired t u archive)"

inductive_simps life_step_simps [simp]: "life_step Pending l" "life_step (Active t) l" "life_step (Retired t u a) l"

lemma retired_final: "life_step\<^sup>*\<^sup>* (Retired t u a) l \<Longrightarrow> l = Retired t u a"
  by (induction rule: rtranclp_induct) auto

text \<open>The same row later: the columns that never change, and its life.\<close>

definition row_later :: "watchkeeper_row \<Rightarrow> watchkeeper_row \<Rightarrow> bool" where
  "row_later w w' \<longleftrightarrow> wk_id w' = wk_id w \<and> wk_manifest_id w' = wk_manifest_id w
     \<and> wk_active_version_id w' = wk_active_version_id w \<and> wk_created_at w' = wk_created_at w
     \<and> life_step\<^sup>*\<^sup>* (life_of w) (life_of w')"

lemma row_later_refl [simp]: "row_later w w"
  by (simp add: row_later_def)

lemma row_later_trans: "row_later u v \<Longrightarrow> row_later v w \<Longrightarrow> row_later u w"
  unfolding row_later_def by (auto intro: rtranclp_trans)

definition rows_later :: "watchkeeper_row list \<Rightarrow> watchkeeper_row list \<Rightarrow> bool" where
  "rows_later ws ws' \<longleftrightarrow> length ws \<le> length ws' \<and> (\<forall>k < length ws. row_later (ws ! k) (ws' ! k))"

lemma rows_later_trans: "rows_later us vs \<Longrightarrow> rows_later vs ws \<Longrightarrow> rows_later us ws"
  unfolding rows_later_def by (meson order.strict_trans2 order.trans row_later_trans)

lemma rows_later_map:
  "(\<And>w. w \<in> set ws \<Longrightarrow> row_later w (f w)) \<Longrightarrow> rows_later ws (map f ws)"
  by (simp add: rows_later_def)

lemma keep_write_later:
  assumes "keep_write cfg c db db'" "kd_ok db"
  shows "rows_later (kd_watchkeepers db) (kd_watchkeepers db')"
  using assms
proof (induction rule: keep_write.induct)
  case (watchkeeper org r)
  then show ?case by (simp add: rows_later_def nth_append)
next
  case (activate org w i now)
  have "row_later v (if wk_id v = i then v\<lparr>wk_status := ''active'', wk_spawned_at := Some now\<rparr> else v)"
    if "v \<in> set (kd_watchkeepers db)" for v
    using same_id_row [OF activate.prems that activate.hyps(2)] activate.hyps
    by (auto simp: row_later_def life_of_def)
  then show ?case by (auto intro: rows_later_map)
next
  case (retire org w i archive now)
  have "row_later v (if wk_id v = i
      then v\<lparr>wk_status := ''retired'', wk_retired_at := Some now, wk_archive_uri := archive\<rparr> else v)"
    if "v \<in> set (kd_watchkeepers db)" for v
    using same_id_row [OF retire.prems that retire.hyps(2)] retire.hyps
    by (auto simp: row_later_def life_of_def)
  then show ?case by (auto intro: rows_later_map)
next
  case (lead org l i)
  show ?case by (auto simp: row_later_def life_of_def intro!: rows_later_map)
qed (simp_all add: rows_later_def)

text \<open>
  C22: a watchkeeper only moves forward. Over every sequence of requests its row stays, keeps its id,
  its manifest, its pinned version and its creation time, and goes from pending to active to retired;
  a retired one keeps its dates and its archive address for good.
\<close>

theorem watchkeeper_lifecycle:
  assumes "kd_ok db" "k < length (kd_watchkeepers db)"
  shows "let w = kd_watchkeepers db ! k; w' = kd_watchkeepers (keep_serve_all cfg ops db) ! k in
    k < length (kd_watchkeepers (keep_serve_all cfg ops db)) \<and> row_later w w'
    \<and> (wk_status w = ''retired'' \<longrightarrow> life_of w' = life_of w)"
proof -
  have "kd_ok (keep_serve_all cfg ops db) \<and> rows_later (kd_watchkeepers db) (kd_watchkeepers (keep_serve_all cfg ops db))"
  proof (rule keep_serve_all_induct [where P = "\<lambda>d. kd_ok d \<and> rows_later (kd_watchkeepers db) (kd_watchkeepers d)"])
    show "kd_ok db \<and> rows_later (kd_watchkeepers db) (kd_watchkeepers db)"
      using assms(1) by (simp add: rows_later_def)
  next
    fix op and d :: keep_db
    assume "kd_ok d \<and> rows_later (kd_watchkeepers db) (kd_watchkeepers d)"
    then show "kd_ok (keep_serve cfg op d) \<and> rows_later (kd_watchkeepers db) (kd_watchkeepers (keep_serve cfg op d))"
      using request_is_one_write [of cfg op d] keep_write_ok keep_write_later rows_later_trans by metis
  qed
  then have later: "row_later (kd_watchkeepers db ! k) (kd_watchkeepers (keep_serve_all cfg ops db) ! k)"
    "k < length (kd_watchkeepers (keep_serve_all cfg ops db))"
    using assms(2) by (auto simp: rows_later_def)
  then have "life_of (kd_watchkeepers (keep_serve_all cfg ops db) ! k) = life_of (kd_watchkeepers db ! k)"
    if "wk_status (kd_watchkeepers db ! k) = ''retired''"
    using that retired_final by (auto simp: row_later_def life_of_def)
  with later show ?thesis by (simp add: Let_def)
qed

section \<open>The log\<close>

lemma keep_write_log:
  "keep_write cfg c db db' \<Longrightarrow>
    kd_log db' = kd_log db \<or> (\<exists>r. kd_log db' = kd_log db @ [r]
      \<and> actor_of cfg c (kl_actor_watchkeeper_id r) (kl_actor_human_id r))"
  by (induction rule: keep_write.induct) auto

text \<open>
  C23: the log is append-only and names the true actor. Over every sequence of requests the rows that
  were there stay the first rows, unchanged, and every row that was added has the actor columns of the
  verified claim of one of the requests, which no body can set.
\<close>

theorem log_append_only_attributed:
  "\<exists>rows. kd_log (keep_serve_all cfg ops db) = kd_log db @ rows
    \<and> (\<forall>r \<in> set rows. \<exists>op \<in> set ops. \<exists>c. op_claim op = Some c
        \<and> actor_of cfg c (kl_actor_watchkeeper_id r) (kl_actor_human_id r))"
proof (rule keep_serve_all_induct [where P = "\<lambda>d. \<exists>rows. kd_log d = kd_log db @ rows
    \<and> (\<forall>r \<in> set rows. \<exists>op \<in> set ops. \<exists>c. op_claim op = Some c
        \<and> actor_of cfg c (kl_actor_watchkeeper_id r) (kl_actor_human_id r))"])
  fix op and d :: keep_db
  assume op: "op \<in> set ops" and "\<exists>rows. kd_log d = kd_log db @ rows
    \<and> (\<forall>r \<in> set rows. \<exists>op \<in> set ops. \<exists>c. op_claim op = Some c
        \<and> actor_of cfg c (kl_actor_watchkeeper_id r) (kl_actor_human_id r))"
  then obtain rows where rows: "kd_log d = kd_log db @ rows"
    "\<forall>r \<in> set rows. \<exists>op \<in> set ops. \<exists>c. op_claim op = Some c
        \<and> actor_of cfg c (kl_actor_watchkeeper_id r) (kl_actor_human_id r)"
    by blast
  consider "kd_log (keep_serve cfg op d) = kd_log d"
    | c r where "op_claim op = Some c" "kd_log (keep_serve cfg op d) = kd_log d @ [r]"
        "actor_of cfg c (kl_actor_watchkeeper_id r) (kl_actor_human_id r)"
    using request_is_one_write [of cfg op d] keep_write_log by metis
  then show "\<exists>rows. kd_log (keep_serve cfg op d) = kd_log db @ rows
    \<and> (\<forall>r \<in> set rows. \<exists>op \<in> set ops. \<exists>c. op_claim op = Some c
        \<and> actor_of cfg c (kl_actor_watchkeeper_id r) (kl_actor_human_id r))"
  proof cases
    case 1
    with rows show ?thesis by auto
  next
    case (2 c r)
    with rows op show ?thesis
      by (intro exI [of _ "rows @ [r]"]) auto
  qed
qed simp

section \<open>Tenants\<close>

definition tenant_humans :: "uuid \<Rightarrow> keep_db \<Rightarrow> human_row list" where
  "tenant_humans org db = filter (\<lambda>h. hu_organization_id h = org) (kd_humans db)"

definition tenant_versions :: "uuid \<Rightarrow> keep_db \<Rightarrow> version_row list" where
  "tenant_versions org db = filter (version_visible (Some org) db) (kd_versions db)"

definition tenant_watchkeepers :: "uuid \<Rightarrow> keep_db \<Rightarrow> watchkeeper_row list" where
  "tenant_watchkeepers org db = filter (in_tenant db org) (kd_watchkeepers db)"

lemma kd_ok_inj:
  assumes "kd_ok db"
  shows "inj_on mf_id (set (kd_manifests db))" "inj_on hu_id (set (kd_humans db))"
  using assms by (simp_all add: kd_ok_def distinct_map)

lemma in_tenant_unique:
  assumes "kd_ok db" "in_tenant db a w" "in_tenant db b w"
  shows "a = b"
  using assms(2,3) inj_onD [OF kd_ok_inj(2) [OF assms(1)]] unfolding in_tenant_def list_ex_iff by metis

lemmas tenant_defs = tenant_humans_def tenant_versions_def tenant_watchkeepers_def
  version_visible_def [abs_def] in_tenant_def [abs_def]

lemma keep_write_foreign:
  assumes "keep_write cfg c db db'" "kd_ok db" "claim_org cfg c \<noteq> Some org"
  shows "tenant_humans org db' = tenant_humans org db \<and> tenant_versions org db' = tenant_versions org db
    \<and> set (tenant_watchkeepers org db) \<subseteq> set (tenant_watchkeepers org db')"
  using assms
proof (induction rule: keep_write.induct)
  case (version org' m r)
  have "\<not> version_visible (Some org) db r"
  proof
    assume "version_visible (Some org) db r"
    then obtain m' where m': "m' \<in> set (kd_manifests db)" "mf_id m' = mv_manifest_id r" "org = mf_organization_id m'"
      unfolding version_visible_def manifest_visible_def list_ex_iff by blast
    have "m' = m"
      using inj_onD [OF kd_ok_inj(1) [OF version.prems(1)] _ m'(1) version.hyps(2)] m'(2) version.hyps(3) by simp
    with m'(3) version.hyps(1,4) version.prems(2) show False by simp
  qed
  then show ?case
    by (simp add: tenant_defs)
next
  case (watchkeeper org' r)
  then show ?case
    by (auto simp: tenant_defs)
next
  case (activate org' w i now)
  have "v \<noteq> w" if "in_tenant db org v" for v
    using in_tenant_unique [OF activate.prems(1)] that activate.hyps activate.prems(2) by metis
  then have "wk_id v \<noteq> i" if "in_tenant db org v" "v \<in> set (kd_watchkeepers db)" for v
    using that same_id_row [OF activate.prems(1) that(2) activate.hyps(2)] activate.hyps by auto
  then show ?case
    by (force simp: tenant_defs)
next
  case (retire org' w i archive now)
  have "v \<noteq> w" if "in_tenant db org v" for v
    using in_tenant_unique [OF retire.prems(1)] that retire.hyps retire.prems(2) by metis
  then have "wk_id v \<noteq> i" if "in_tenant db org v" "v \<in> set (kd_watchkeepers db)" for v
    using that same_id_row [OF retire.prems(1) that(2) retire.hyps(2)] retire.hyps by auto
  then show ?case
    by (force simp: tenant_defs)
next
  case (lead org' l i)
  have "\<not> in_tenant db org' v" if "in_tenant db org v" for v
    using in_tenant_unique [OF lead.prems(1) that] lead.prems(2) lead.hyps(1) by metis
  then show ?case
    by (force simp: tenant_defs)
next
  case (human r)
  then show ?case
    by (auto simp: tenant_defs)
qed (simp_all add: tenant_defs)

text \<open>
  C2: no request touches what another tenant has. Over every sequence of requests none of which
  carries a claim of an organization, that organization's humans and manifest versions are exactly
  what they were, and its watchkeepers are all still there, unchanged.
\<close>

theorem foreign_requests_change_nothing:
  assumes "kd_ok db" "\<forall>op \<in> set ops. \<forall>c. op_claim op = Some c \<longrightarrow> claim_org cfg c \<noteq> Some org"
  shows "tenant_humans org (keep_serve_all cfg ops db) = tenant_humans org db
    \<and> tenant_versions org (keep_serve_all cfg ops db) = tenant_versions org db
    \<and> set (tenant_watchkeepers org db) \<subseteq> set (tenant_watchkeepers org (keep_serve_all cfg ops db))"
proof -
  let ?P = "\<lambda>d. kd_ok d \<and> tenant_humans org d = tenant_humans org db
    \<and> tenant_versions org d = tenant_versions org db
    \<and> set (tenant_watchkeepers org db) \<subseteq> set (tenant_watchkeepers org d)"
  have "?P (keep_serve_all cfg ops db)"
  proof (rule keep_serve_all_induct [where P = ?P])
    fix op and d :: keep_db
    assume op: "op \<in> set ops" and d: "?P d"
    then consider "keep_serve cfg op d = d"
      | c where "op_claim op = Some c" "keep_write cfg c d (keep_serve cfg op d)"
      using request_is_one_write by metis
    then show "?P (keep_serve cfg op d)"
    proof cases
      case 2
      with assms(2) op have "claim_org cfg c \<noteq> Some org" by blast
      from keep_write_foreign [OF 2(2) _ this] keep_write_ok [OF 2(2)] d show ?thesis by auto
    qed (use d in simp)
  qed (use assms(1) in simp)
  then show ?thesis by blast
qed

text \<open>
  But a tenant can push a watchkeeper onto another. The change of a lead checks that the
  watchkeeper is the caller's and only that the new lead exists: with a human of another organization
  the request is answered 204, the watchkeeper is that organization's, and the caller's own
  organization has lost it.
\<close>

theorem lead_change_crosses_tenants:
  assumes "kd_ok db" "rq_claim rq = Some c" "valid_scope (kc_scope c)" "\<forall>n. rq_faults rq n = None"
    and "rq_path rq \<noteq> []" "uuid_pattern (rq_path rq)" "dc_uuid cfg (rq_path rq) = Some (wk_id w)"
    and "is_json_content_type cfg (rq_content_type rq)" "rq_body rq = DecodeOk lead" "uuid_pattern lead"
    and "claim_org cfg c = Some org" "w \<in> set (kd_watchkeepers db)" "in_tenant db org w"
    and "h \<in> set (kd_humans db)" "dc_uuid cfg lead = Some (hu_id h)" "hu_organization_id h \<noteq> org"
  shows "\<exists>db' w'. handle_set_watchkeeper_lead cfg rq db = (RespNoContent, db')
    \<and> w' \<in> set (kd_watchkeepers db') \<and> wk_id w' = wk_id w
    \<and> in_tenant db' (hu_organization_id h) w' \<and> \<not> in_tenant db' org w'"
proof -
  let ?w = "w\<lparr>wk_lead_human_id := hu_id h\<rparr>"
  let ?db = "db\<lparr>kd_watchkeepers := map (\<lambda>v. if wk_id v = wk_id w \<and> in_tenant db org v
       then v\<lparr>wk_lead_human_id := hu_id h\<rparr> else v) (kd_watchkeepers db), kd_writes := Suc (kd_writes db)\<rparr>"
  have "kc_organization_id c \<noteq> []" and org: "uuid_param cfg (kc_organization_id c) = Inr org"
    using assms(11) by (auto simp: claim_org_def uuid_param_def split: if_splits)
  have "filter (\<lambda>v. wk_id v = wk_id w \<and> in_tenant db org v) (kd_watchkeepers db) \<noteq> []"
    using assms(12,13) by (auto simp: filter_empty_conv)
  then have "\<exists>n. length (filter (\<lambda>v. wk_id v = wk_id w \<and> in_tenant db org v) (kd_watchkeepers db)) = Suc n"
    by (metis length_0_conv not0_implies_Suc)
  then have upd: "\<exists>n. update_lead cfg (rq_path rq) lead (kc_organization_id c) s db = (Inr (Suc n), ?db)" for s
    using org assms(7,14,15)
    by (auto simp: update_lead_def uuid_param_def Let_def in_tenant_def
        split: option.split intro: rev_image_eqI)
  obtain role where "with_scope (rq_faults rq) c (stmt_at (rq_faults rq) 0
      (update_lead cfg (rq_path rq) lead (kc_organization_id c))) db
    = (let s = \<lparr>ss_role = role, ss_scope = kc_scope c, ss_org = kc_organization_id c\<rparr>
       in case stmt_at (rq_faults rq) 0 (update_lead cfg (rq_path rq) lead (kc_organization_id c)) s db of
         (Inl e, _) \<Rightarrow> (Inl e, db) | (Inr a, db') \<Rightarrow> (Inr a, db'))"
    using with_scope_clean [OF assms(3,4)] by blast
  with upd [of "\<lparr>ss_role = role, ss_scope = kc_scope c, ss_org = kc_organization_id c\<rparr>"]
  have "handle_set_watchkeeper_lead cfg rq db = (RespNoContent, ?db)"
    using assms(2,4-6,8-10) \<open>kc_organization_id c \<noteq> []\<close>
    by (auto simp: handle_set_watchkeeper_lead_def parse_update_lead_request_def decode_body_def Let_def)
  moreover have "?w \<in> set (kd_watchkeepers ?db)"
    using assms(12,13) by (auto simp: image_iff)
  moreover have "in_tenant ?db (hu_organization_id h) ?w" "\<not> in_tenant ?db org ?w"
    using assms(14,16) inj_onD [OF kd_ok_inj(2) [OF assms(1)]] by (auto simp: in_tenant_def list_ex_iff)
  ultimately show ?thesis
    by (intro exI [of _ ?db] exI [of _ ?w]) simp
qed

end
