(* ===== verification/KeepClient.thy ===== *)
theory KeepClient
  imports KeepTenancy
begin

text \<open>
  The Go client of the Keep server (\<^verbatim>\<open>core/pkg/keepclient\<close>: \<^verbatim>\<open>do.go\<close>, \<^verbatim>\<open>errors.go\<close>, the
  \<^verbatim>\<open>write_*.go\<close>, \<^verbatim>\<open>read_*.go\<close> and \<^verbatim>\<open>human.go\<close> calls): the checks a call makes before it goes
  out, the request it becomes, and the error it turns an answer into. The network is an argument.
\<close>

section \<open>Errors\<close>

abbreviation ErrKeepUnauthorized :: string where "ErrKeepUnauthorized \<equiv> ''keepclient: unauthorized''"
abbreviation ErrKeepForbidden :: string where "ErrKeepForbidden \<equiv> ''keepclient: forbidden''"
abbreviation ErrKeepNotFound :: string where "ErrKeepNotFound \<equiv> ''keepclient: not found''"
abbreviation ErrKeepConflict :: string where "ErrKeepConflict \<equiv> ''keepclient: conflict''"
abbreviation ErrKeepInvalidRequest :: string where "ErrKeepInvalidRequest \<equiv> ''keepclient: invalid request''"
abbreviation ErrKeepInternal :: string where "ErrKeepInternal \<equiv> ''keepclient: internal server error''"
abbreviation ErrNoTokenSource :: string where "ErrNoTokenSource \<equiv> ''keepclient: no token source configured''"
abbreviation ErrInvalidStatusTransition :: string where
  "ErrInvalidStatusTransition \<equiv> ''keepclient: invalid status transition''"

text \<open>\<open>ServerError.Unwrap\<close>: the sentinels a status and an error code stand for.\<close>

definition server_error_unwrap :: "nat \<Rightarrow> string \<Rightarrow> string list" where
  "server_error_unwrap status code =
     (if status = 400 then
        (if code = ''invalid_status_transition'' then [ErrKeepInvalidRequest, ErrInvalidStatusTransition]
         else [ErrKeepInvalidRequest])
      else if status = 401 then [ErrKeepUnauthorized]
      else if status = 403 then [ErrKeepForbidden]
      else if status = 404 then [ErrKeepNotFound]
      else if status = 409 then [ErrKeepConflict]
      else if 500 \<le> status \<and> status < 600 then [ErrKeepInternal]
      else [])"

definition server_error :: "nat \<Rightarrow> string \<Rightarrow> goerr" where
  "server_error status code = Text ''keepclient: server error'' # map Sentinel (server_error_unwrap status code)"

section \<open>One call\<close>

text \<open>
  An answer: its status, the \<open>error\<close> field of its body where that is an envelope, and what the
  decoder makes of the body. \<open>tp_marshal\<close> is the error of encoding a body; \<open>tp_send\<close> the exchange,
  with method, path, body and bearer token.
\<close>

record 'o http_answer =
  ha_status :: nat
  ha_code :: string
  ha_out :: "goerr + 'o"

record ('b, 'o, 'w) transport =
  tp_marshal :: "'b \<Rightarrow> goerr option"
  tp_send :: "string \<Rightarrow> string \<Rightarrow> 'b option \<Rightarrow> string option \<Rightarrow> 'w \<Rightarrow> (goerr + 'o http_answer) \<times> 'w"

record keep_client =
  kcl_token_source :: "(goerr + string) option"
  kcl_join_url :: "string \<Rightarrow> goerr option"
  kcl_new_request :: "string \<Rightarrow> goerr option"
  kcl_path_escape :: "string \<Rightarrow> string"
  kcl_encode_query :: "(string \<times> string) list \<Rightarrow> string"
  kcl_itoa :: "int \<Rightarrow> string"

definition requires_auth :: "string \<Rightarrow> bool" where
  "requires_auth path \<longleftrightarrow> prefix ''/v1/'' path"

definition client_send ::
  "('b, 'o, 'w) transport \<Rightarrow> string \<Rightarrow> string \<Rightarrow> 'b option \<Rightarrow> string option \<Rightarrow> 'w \<Rightarrow> (goerr + 'o http_answer) \<times> 'w" where
  "client_send tp method path body token w =
     (case tp_send tp method path body token w of
        (Inl e, w') \<Rightarrow> (Inl (errorf (''keepclient: '' @ method @ '' '' @ path) e), w')
      | (Inr a, w') \<Rightarrow>
          (if 200 \<le> ha_status a \<and> ha_status a < 300 then Inr a
           else Inl (server_error (ha_status a) (ha_code a)), w'))"

definition client_exchange ::
  "keep_client \<Rightarrow> ('b, 'o, 'w) transport \<Rightarrow> string \<Rightarrow> string \<Rightarrow> 'b option \<Rightarrow> 'w \<Rightarrow> (goerr + 'o http_answer) \<times> 'w" where
  "client_exchange cl tp method path body w =
     (if requires_auth path \<and> kcl_token_source cl = None then (Inl [Sentinel ErrNoTokenSource], w)
      else case kcl_join_url cl path of
          Some e \<Rightarrow> (Inl (errorf ''keepclient: join url'' e), w)
        | None \<Rightarrow>
            (case (case body of None \<Rightarrow> None | Some b \<Rightarrow> tp_marshal tp b) of
               Some e \<Rightarrow> (Inl (errorf ''keepclient: marshal body'' e), w)
             | None \<Rightarrow>
                 (case kcl_new_request cl path of
                    Some e \<Rightarrow> (Inl (errorf ''keepclient: build request'' e), w)
                  | None \<Rightarrow>
                      if requires_auth path then
                        (case the (kcl_token_source cl) of
                           Inl e \<Rightarrow> (Inl (errorf ''keepclient: token'' e), w)
                         | Inr token \<Rightarrow> client_send tp method path body (Some token) w)
                      else client_send tp method path body None w)))"

text \<open>\<open>do\<close> with a value to decode into, and without.\<close>

definition client_do ::
  "keep_client \<Rightarrow> ('b, 'o, 'w) transport \<Rightarrow> string \<Rightarrow> string \<Rightarrow> 'b option \<Rightarrow> 'w \<Rightarrow> (goerr + 'o) \<times> 'w" where
  "client_do cl tp method path body w =
     (case client_exchange cl tp method path body w of
        (Inl e, w') \<Rightarrow> (Inl e, w')
      | (Inr a, w') \<Rightarrow>
          (case ha_out a of
             Inl e \<Rightarrow> (Inl (errorf ''keepclient: decode response'' e), w')
           | Inr x \<Rightarrow> (Inr x, w')))"

definition client_do_discard ::
  "keep_client \<Rightarrow> ('b, 'o, 'w) transport \<Rightarrow> string \<Rightarrow> string \<Rightarrow> 'b option \<Rightarrow> 'w \<Rightarrow> goerr option \<times> 'w" where
  "client_do_discard cl tp method path body w =
     (case client_exchange cl tp method path body w of
        (Inl e, w') \<Rightarrow> (Some e, w')
      | (Inr _, w') \<Rightarrow> (None, w'))"

abbreviation invalid_request :: goerr where "invalid_request \<equiv> [Sentinel ErrKeepInvalidRequest]"

section \<open>Manifests\<close>

definition client_manifest_autonomy_allowed :: "string list" where
  "client_manifest_autonomy_allowed = [[], ''supervised'', ''autonomous'']"

definition client_put_version_ok :: "string \<Rightarrow> put_version_request \<Rightarrow> bool" where
  "client_put_version_ok manifest req \<longleftrightarrow>
     \<not> (manifest = [] \<or> \<not> uuid_pattern manifest)
     \<and> \<not> (pv_version_no req \<le> 0 \<or> pv_system_prompt req = [])
     \<and> \<not> (pv_language req \<noteq> [] \<and> \<not> language_pattern (pv_language req))
     \<and> \<not> rune_count (pv_personality req) > 1024
     \<and> \<not> rune_count (pv_model req) > 100
     \<and> pv_autonomy req \<in> set client_manifest_autonomy_allowed
     \<and> \<not> (pv_notebook_top_k req < 0 \<or> pv_notebook_top_k req > 100)
     \<and> \<not> (pv_notebook_threshold req < 0 \<or> pv_notebook_threshold req > 1)"

definition client_put_manifest_version ::
  "keep_client \<Rightarrow> (put_version_request, string, 'w) transport \<Rightarrow> string \<Rightarrow> put_version_request \<Rightarrow> 'w \<Rightarrow> (goerr + string) \<times> 'w" where
  "client_put_manifest_version cl tp manifest req w =
     (if \<not> client_put_version_ok manifest req then (Inl invalid_request, w)
      else client_do cl tp ''PUT'' (''/v1/manifests/'' @ kcl_path_escape cl manifest @ ''/versions'') (Some req) w)"

definition client_get_manifest ::
  "keep_client \<Rightarrow> (unit, manifest_version, 'w) transport \<Rightarrow> string \<Rightarrow> 'w \<Rightarrow> (goerr + manifest_version) \<times> 'w" where
  "client_get_manifest cl tp manifest w =
     (if manifest = [] then (Inl invalid_request, w)
      else client_do cl tp ''GET'' (''/v1/manifests/'' @ kcl_path_escape cl manifest) None w)"

section \<open>Watchkeepers\<close>

definition client_insert_watchkeeper ::
  "keep_client \<Rightarrow> (insert_watchkeeper_request, string, 'w) transport \<Rightarrow> insert_watchkeeper_request \<Rightarrow> 'w \<Rightarrow> (goerr + string) \<times> 'w" where
  "client_insert_watchkeeper cl tp req w =
     (if iw_manifest_id req = [] \<or> iw_lead_human_id req = [] then (Inl invalid_request, w)
      else client_do cl tp ''POST'' ''/v1/watchkeepers'' (Some req) w)"

definition client_update_status ::
  "keep_client \<Rightarrow> (update_status_request, string, 'w) transport \<Rightarrow> string \<Rightarrow> string \<Rightarrow> 'w \<Rightarrow> goerr option \<times> 'w" where
  "client_update_status cl tp i status w =
     (if i = [] \<or> status \<notin> {''active'', ''retired''} then (Some invalid_request, w)
      else client_do_discard cl tp ''PATCH'' (''/v1/watchkeepers/'' @ kcl_path_escape cl i @ ''/status'')
             (Some \<lparr>us_status = status, us_archive_uri = ArchiveAbsent\<rparr>) w)"

definition client_update_retired ::
  "keep_cfg \<Rightarrow> keep_client \<Rightarrow> (update_status_request, string, 'w) transport \<Rightarrow> string \<Rightarrow> string \<Rightarrow> 'w \<Rightarrow> goerr option \<times> 'w" where
  "client_update_retired cfg cl tp i uri w =
     (if i = [] \<or> blank uri \<or> \<not> is_absolute_url cfg uri then (Some invalid_request, w)
      else client_do_discard cl tp ''PATCH'' (''/v1/watchkeepers/'' @ kcl_path_escape cl i @ ''/status'')
             (Some \<lparr>us_status = ''retired'', us_archive_uri = ArchiveValue uri\<rparr>) w)"

definition client_get_watchkeeper ::
  "keep_client \<Rightarrow> (unit, watchkeeper_row, 'w) transport \<Rightarrow> string \<Rightarrow> 'w \<Rightarrow> (goerr + watchkeeper_row) \<times> 'w" where
  "client_get_watchkeeper cl tp i w =
     (if i = [] then (Inl invalid_request, w)
      else client_do cl tp ''GET'' (''/v1/watchkeepers/'' @ kcl_path_escape cl i) None w)"

text \<open>The query of a list call: its status and its limit, where they are set.\<close>

definition client_list_watchkeepers ::
  "keep_client \<Rightarrow> (unit, watchkeeper_row list, 'w) transport
     \<Rightarrow> string \<Rightarrow> int \<Rightarrow> 'w \<Rightarrow> (goerr + watchkeeper_row list) \<times> 'w" where
  "client_list_watchkeepers cl tp status limit w =
     (if status \<notin> {[], ''pending'', ''active'', ''retired''} then (Inl invalid_request, w)
      else if limit < 0 \<or> limit > 200 then (Inl invalid_request, w)
      else (let q = kcl_encode_query cl ((if status \<noteq> [] then [(''status'', status)] else [])
                    @ (if limit > 0 then [(''limit'', kcl_itoa cl limit)] else []))
            in client_do cl tp ''GET'' (if q = [] then ''/v1/watchkeepers'' else ''/v1/watchkeepers?'' @ q) None w))"

section \<open>Humans\<close>

definition client_insert_human ::
  "keep_client \<Rightarrow> (insert_human_request, string, 'w) transport \<Rightarrow> insert_human_request \<Rightarrow> 'w \<Rightarrow> (goerr + string) \<times> 'w" where
  "client_insert_human cl tp req w =
     (if ih_organization_id req = [] \<or> ih_display_name req = [] then (Inl invalid_request, w)
      else client_do cl tp ''POST'' ''/v1/humans'' (Some req) w)"

definition client_lookup_human ::
  "keep_client \<Rightarrow> (unit, human_row, 'w) transport \<Rightarrow> string \<Rightarrow> 'w \<Rightarrow> (goerr + human_row) \<times> 'w" where
  "client_lookup_human cl tp slack w =
     (if blank slack then (Inl invalid_request, w)
      else client_do cl tp ''GET'' (''/v1/humans/by-slack/'' @ kcl_path_escape cl slack) None w)"

definition client_set_lead ::
  "keep_client \<Rightarrow> (string, string, 'w) transport \<Rightarrow> string \<Rightarrow> string \<Rightarrow> 'w \<Rightarrow> goerr option \<times> 'w" where
  "client_set_lead cl tp i lead w =
     (if i = [] \<or> lead = [] then (Some invalid_request, w)
      else client_do_discard cl tp ''PATCH'' (''/v1/watchkeepers/'' @ kcl_path_escape cl i @ ''/lead'') (Some lead) w)"

section \<open>Knowledge and log\<close>

definition client_store ::
  "keep_client \<Rightarrow> (store_request, string, 'w) transport \<Rightarrow> store_request \<Rightarrow> 'w \<Rightarrow> (goerr + string) \<times> 'w" where
  "client_store cl tp req w =
     (if sr_content req = [] \<or> sr_embedding req = [] then (Inl invalid_request, w)
      else client_do cl tp ''POST'' ''/v1/knowledge-chunks'' (Some req) w)"

definition client_search ::
  "keep_client \<Rightarrow> (search_request, (chunk_row \<times> real) list, 'w) transport \<Rightarrow> search_request \<Rightarrow> 'w
     \<Rightarrow> (goerr + (chunk_row \<times> real) list) \<times> 'w" where
  "client_search cl tp req w =
     (if sq_embedding req = [] \<or> sq_top_k req \<le> 0 then (Inl invalid_request, w)
      else client_do cl tp ''POST'' ''/v1/search'' (Some req) w)"

definition client_log_append ::
  "keep_client \<Rightarrow> (log_append_request, string, 'w) transport \<Rightarrow> log_append_request \<Rightarrow> 'w \<Rightarrow> (goerr + string) \<times> 'w" where
  "client_log_append cl tp req w =
     (if la_event_type req = [] then (Inl invalid_request, w)
      else client_do cl tp ''POST'' ''/v1/keepers-log'' (Some req) w)"

definition client_log_tail ::
  "keep_client \<Rightarrow> (unit, log_row list, 'w) transport \<Rightarrow> int \<Rightarrow> 'w \<Rightarrow> (goerr + log_row list) \<times> 'w" where
  "client_log_tail cl tp limit w =
     (if limit < 0 then (Inl invalid_request, w)
      else client_do cl tp ''GET''
             (if limit > 0 then ''/v1/keepers-log?limit='' @ kcl_itoa cl limit else ''/v1/keepers-log'') None w)"

section \<open>Three validators\<close>

lemma if_Some_None: "(if P then Some x else y) = None \<longleftrightarrow> \<not> P \<and> y = None"
  by simp

lemma put_version_error_None:
  "put_version_error b = None \<longleftrightarrow>
     pv_version_no b > 0 \<and> pv_system_prompt b \<noteq> []
     \<and> (pv_language b \<noteq> [] \<longrightarrow> language_pattern (pv_language b))
     \<and> rune_count (pv_personality b) \<le> 1024 \<and> rune_count (pv_model b) \<le> 100
     \<and> (pv_autonomy b \<noteq> [] \<longrightarrow> pv_autonomy b \<in> set manifest_autonomy_allowed)
     \<and> 0 \<le> pv_notebook_top_k b \<and> pv_notebook_top_k b \<le> 100
     \<and> 0 \<le> pv_notebook_threshold b \<and> pv_notebook_threshold b \<le> 1"
  unfolding put_version_error_def validate_notebook_recall_fields_def if_Some_None
    manifest_personality_max_runes_def manifest_model_max_runes_def
  by (simp only: not_less not_le de_Morgan_disj de_Morgan_conj not_not simp_thms imp_conv_disj conj_assoc)

lemma client_put_version_iff: "client_put_version_ok manifest b \<longleftrightarrow> uuid_pattern manifest \<and> put_version_error b = None"
proof -
  have "uuid_pattern manifest \<Longrightarrow> manifest \<noteq> []"
    by (auto simp: uuid_pattern_def Let_def)
  moreover have "pv_autonomy b \<in> set client_manifest_autonomy_allowed
      \<longleftrightarrow> (pv_autonomy b \<noteq> [] \<longrightarrow> pv_autonomy b \<in> set manifest_autonomy_allowed)"
    by (auto simp: client_manifest_autonomy_allowed_def manifest_autonomy_allowed_def)
  ultimately show ?thesis
    unfolding client_put_version_ok_def put_version_error_None not_less not_le de_Morgan_disj by blast
qed

text \<open>
  The three places that check a manifest version agree. The client sends a version exactly when
  the server would accept its body and its manifest id; and what the server accepts passes every
  CHECK constraint of the table, so that none of them can surface as an internal error. (The database
  keeps the threshold with less precision; its rounding must stay between 0 and 1.)
\<close>

theorem version_validators_agree:
  assumes "\<forall>t r. dc_float4 cfg t = Some r \<and> 0 \<le> t \<and> t \<le> 1 \<longrightarrow> 0 \<le> r \<and> r \<le> 1"
  shows "(client_put_version_ok manifest b \<longleftrightarrow> uuid_pattern manifest \<and> put_version_error b = None)
    \<and> (put_version_error b = None \<and> version_of_values cfg i now m (put_version_values b) = Some r
        \<longrightarrow> version_checks r)"
proof (intro conjI impI client_put_version_iff)
  assume a: "put_version_error b = None \<and> version_of_values cfg i now m (put_version_values b) = Some r"
  then have row: "mv_version_no r = pv_version_no b" "mv_language r = null_if_empty (pv_language b)"
    "mv_personality r = null_if_empty (pv_personality b)" "mv_model r = null_if_empty (pv_model b)"
    "mv_autonomy r = null_if_empty (pv_autonomy b)" "mv_notebook_top_k r = null_if_zero (pv_notebook_top_k b)"
    and thr: "float4_opt cfg (null_if_zero (pv_notebook_threshold b)) = Some (mv_notebook_threshold r)"
    by (auto simp: version_of_values_def put_version_values_def split: option.splits if_splits)
  have ok: "pv_version_no b > 0" "pv_language b \<noteq> [] \<longrightarrow> language_pattern (pv_language b)"
    "rune_count (pv_personality b) \<le> 1024" "rune_count (pv_model b) \<le> 100"
    "pv_autonomy b \<noteq> [] \<longrightarrow> pv_autonomy b \<in> set manifest_autonomy_allowed"
    "0 \<le> pv_notebook_top_k b" "pv_notebook_top_k b \<le> 100"
    "0 \<le> pv_notebook_threshold b" "pv_notebook_threshold b \<le> 1"
    using a by (simp_all add: put_version_error_None)
  have "case mv_notebook_threshold r of None \<Rightarrow> True | Some t \<Rightarrow> 0 \<le> t \<and> t \<le> 1"
  proof (cases "mv_notebook_threshold r")
    case (Some t)
    with thr have "dc_float4 cfg (pv_notebook_threshold b) = Some t"
      by (auto simp: float4_opt_def null_if_zero_def split: if_splits)
    then have "0 \<le> t \<and> t \<le> 1"
      using assms ok(8,9) by blast
    with Some show ?thesis by simp
  qed simp
  then show "version_checks r"
    using ok unfolding version_checks_def row
    by (auto simp: null_if_empty_def null_if_zero_def manifest_autonomy_allowed_def)
qed

end
