(* ===== verification/KeepRoundtrip.thy ===== *)
theory KeepRoundtrip
  imports KeepClient
begin

text \<open>
  What the reads of the Keep server give back of what was written: the version that was put, and what
  callers see of other tenants' rows.
\<close>

section \<open>A version put is the version read\<close>

text \<open>
  A version as it is read back, against the request that put it: empty tools, authority and sources
  have their defaults, other JSON is what \<open>jsonb\<close> keeps of it, and the threshold is what \<open>real\<close> keeps.
\<close>

definition version_matches :: "keep_cfg \<Rightarrow> string \<Rightarrow> put_version_request \<Rightarrow> manifest_version \<Rightarrow> bool" where
  "version_matches cfg i b v \<longleftrightarrow>
     vj_id v = i \<and> vj_version_no v = pv_version_no b \<and> vj_system_prompt v = pv_system_prompt b
     \<and> jsonb_or_default cfg ''[]'' (null_if_empty (pv_tools b)) = Some (vj_tools v)
     \<and> jsonb_or_default cfg ''{}'' (null_if_empty (pv_authority_matrix b)) = Some (vj_authority_matrix v)
     \<and> jsonb_or_default cfg ''[]'' (null_if_empty (pv_knowledge_sources b)) = Some (vj_knowledge_sources v)
     \<and> vj_personality v = pv_personality b \<and> vj_language v = pv_language b \<and> vj_model v = pv_model b
     \<and> vj_autonomy v = pv_autonomy b \<and> vj_notebook_top_k v = pv_notebook_top_k b
     \<and> (if pv_notebook_threshold b = 0 then vj_notebook_threshold v = 0
        else dc_float4 cfg (pv_notebook_threshold b) = Some (vj_notebook_threshold v))"

lemma coalesce_null [simp]: "coalesce (null_if_empty s) [] = s" "coalesce (null_if_zero n) 0 = n"
  by (simp_all add: coalesce_def null_if_empty_def null_if_zero_def)

lemma version_of_values_matches:
  assumes "version_of_values cfg i now m (put_version_values b) = Some r"
  shows "version_matches cfg (dc_uuid_text cfg i) b (manifest_version_response cfg r)"
proof -
  obtain ts au ks th where parts: "jsonb_or_default cfg ''[]'' (null_if_empty (pv_tools b)) = Some ts"
    "jsonb_or_default cfg ''{}'' (null_if_empty (pv_authority_matrix b)) = Some au"
    "jsonb_or_default cfg ''[]'' (null_if_empty (pv_knowledge_sources b)) = Some ks"
    "float4_opt cfg (null_if_zero (pv_notebook_threshold b)) = Some th"
    using assms by (auto simp: version_of_values_def put_version_values_def split: option.splits)
  with assms have r: "r = \<lparr>mv_id = i, mv_manifest_id = m, mv_version_no = pv_version_no b,
      mv_system_prompt = pv_system_prompt b, mv_tools = ts, mv_authority_matrix = au,
      mv_knowledge_sources = ks, mv_personality = null_if_empty (pv_personality b),
      mv_language = null_if_empty (pv_language b), mv_model = null_if_empty (pv_model b),
      mv_autonomy = null_if_empty (pv_autonomy b), mv_notebook_top_k = null_if_zero (pv_notebook_top_k b),
      mv_notebook_threshold = th, mv_created_at = now\<rparr>"
    by (simp add: version_of_values_def put_version_values_def split: if_splits)
  from parts(4) have "if pv_notebook_threshold b = 0 then coalesce th 0 = 0
      else dc_float4 cfg (pv_notebook_threshold b) = Some (coalesce th 0)"
    by (auto simp: float4_opt_def null_if_zero_def coalesce_def split: if_splits)
  with parts show ?thesis
    by (simp add: r version_matches_def manifest_version_response_def)
qed

lemma foldl_newer_in: "foldl newer best vs = Some v \<Longrightarrow> best = Some v \<or> v \<in> set vs"
  by (induction vs arbitrary: best) (auto simp: newer_def split: option.splits if_splits)

lemma foldl_newer_last:
  assumes "\<forall>v \<in> set vs. mv_version_no v < mv_version_no r"
  shows "foldl newer None (vs @ [r]) = Some r"
  using assms foldl_newer_in [of None vs] by (auto simp: newer_def split: option.split)

lemma foldl_newer_max:
  "foldl newer best vs = Some b \<Longrightarrow>
     (\<forall>v \<in> set vs. mv_version_no v \<le> mv_version_no b) \<and> (\<forall>v. best = Some v \<longrightarrow> mv_version_no v \<le> mv_version_no b)"
  by (induction vs arbitrary: best) (fastforce simp: newer_def split: option.splits if_splits)+

lemma foldl_newer_kept:
  assumes "w \<in> set vs" "mv_version_no r \<le> mv_version_no w"
  obtains b where "foldl newer None vs = Some b" "foldl newer None (vs @ [r]) = Some b"
proof (cases "foldl newer None vs")
  case None
  have "foldl newer (Some b) us \<noteq> None" for b us
    by (induction us arbitrary: b) (auto simp: newer_def)
  with None assms(1) show thesis
    by (cases vs) (auto simp: newer_def)
next
  case (Some b)
  then have "mv_version_no r \<le> mv_version_no b"
    using foldl_newer_max [OF Some] assms by force
  with Some that show thesis
    by (simp add: newer_def)
qed

lemma insert_version_row:
  assumes "insert_version cfg mt vals org_text s db = (Inr i, db')"
  obtains m org x r where "uuid_param cfg mt = Inr m" "uuid_param cfg org_text = Inr org"
    "x \<in> set (kd_manifests db)" "mf_id x = m" "mf_organization_id x = org"
    "version_of_values cfg (dc_gen cfg (kd_writes db)) (dc_now cfg (kd_writes db)) m vals = Some r"
    "i = dc_uuid_text cfg (dc_gen cfg (kd_writes db))"
    "db' = db\<lparr>kd_versions := kd_versions db @ [r], kd_writes := Suc (kd_writes db)\<rparr>"
  using assms
  by (auto simp: insert_version_def Let_def list_ex_iff split: sum.splits option.splits if_splits)

lemma select_latest_new:
  assumes "uuid_param cfg mt = Inr m" "mv_manifest_id r = m" "dc_uuid cfg (ss_org s) = Some org" "ss_org s \<noteq> []"
    and "x \<in> set (kd_manifests db)" "mf_id x = m" "mf_organization_id x = org"
    and "\<forall>v \<in> set (kd_versions db). mv_manifest_id v = m \<longrightarrow> mv_version_no v < mv_version_no r"
    and "db' = db\<lparr>kd_versions := kd_versions db @ [r], kd_writes := n\<rparr>"
  shows "select_latest_version cfg mt s db' = (Inr r, db')"
proof -
  have "version_visible (Some org) db' r"
    using assms by (auto simp: version_visible_def manifest_visible_def list_ex_iff)
  then have "filter (\<lambda>v. mv_manifest_id v = m \<and> version_visible (Some org) db' v) (kd_versions db')
    = filter (\<lambda>v. mv_manifest_id v = m \<and> version_visible (Some org) db' v) (kd_versions db) @ [r]"
    by (simp add: assms(2,9))
  moreover have "foldl newer None (filter (\<lambda>v. mv_manifest_id v = m \<and> version_visible (Some org) db' v) (kd_versions db) @ [r])
      = Some r"
    using assms(8) by (intro foldl_newer_last) simp
  ultimately show ?thesis
    using assms(1,3,4) by (simp add: select_latest_version_def session_org_def del: foldl_append)
qed

lemma select_latest_kept:
  assumes "uuid_param cfg mt = Inr m" "mv_manifest_id r = m" "dc_uuid cfg (ss_org s) = Some org" "ss_org s \<noteq> []"
    and "x \<in> set (kd_manifests db)" "mf_id x = m" "mf_organization_id x = org"
    and "w \<in> set (kd_versions db)" "mv_manifest_id w = m" "mv_version_no r \<le> mv_version_no w"
    and "db' = db\<lparr>kd_versions := kd_versions db @ [r], kd_writes := n\<rparr>"
  obtains b where "select_latest_version cfg mt s db' = (Inr b, db')" "select_latest_version cfg mt s db = (Inr b, db)"
proof -
  let ?vs = "\<lambda>d. filter (\<lambda>v. mv_manifest_id v = m \<and> version_visible (Some org) d v) (kd_versions d)"
  have vis: "version_visible (Some org) d v" if "mv_manifest_id v = m" "d = db \<or> d = db'" for v d
    using assms that by (auto simp: version_visible_def manifest_visible_def list_ex_iff)
  have "?vs d = filter (\<lambda>v. mv_manifest_id v = m) (kd_versions d)" if "d = db \<or> d = db'" for d
    using vis that by (intro filter_cong) auto
  from this [of db] this [of db'] have "?vs db' = ?vs db @ [r]"
    by (simp only: assms(11) refl simp_thms) (simp add: assms(2))
  moreover have "w \<in> set (?vs db)"
    using vis assms(8,9) by simp
  then obtain b where "foldl newer None (?vs db) = Some b" "foldl newer None (?vs db @ [r]) = Some b"
    using assms(10) by (rule foldl_newer_kept)
  ultimately show thesis
    using that [of b] assms(1,3,4) by (simp add: select_latest_version_def session_org_def del: foldl_append)
qed

lemma put_version_scoped:
  assumes "handle_put_manifest_version cfg rq db = (RespJSON st i, db')" "rq_claim rq = Some c" "rq_body rq = DecodeOk b"
  obtains s where "st = 201" "kc_organization_id c \<noteq> []" "put_version_error b = None" "rq_path rq \<noteq> []"
    "insert_version cfg (rq_path rq) (put_version_values b) (kc_organization_id c) s db = (Inr i, db')"
  using assms
  by (auto simp: handle_put_manifest_version_def parse_put_version_request_def decode_body_def put_version_failure_def
      write_error_def split: option.splits sum.splits prod.splits if_splits db_error.splits
      elim!: scoped_stmt)

lemma put_version_row:
  assumes "handle_put_manifest_version cfg rq db = (RespJSON st i, db')"
    and "rq_claim rq = Some c" "rq_body rq = DecodeOk b" "dc_uuid cfg (rq_path rq) = Some m"
  obtains org x r where "st = 201" "kc_organization_id c \<noteq> []" "rq_path rq \<noteq> []"
    "dc_uuid cfg (kc_organization_id c) = Some org" "x \<in> set (kd_manifests db)" "mf_id x = m"
    "mf_organization_id x = org" "mv_manifest_id r = m" "mv_version_no r = pv_version_no b"
    "version_matches cfg i b (manifest_version_response cfg r)"
    "db' = db\<lparr>kd_versions := kd_versions db @ [r], kd_writes := Suc (kd_writes db)\<rparr>"
proof -
  obtain s where s: "st = 201" "kc_organization_id c \<noteq> []" "rq_path rq \<noteq> []"
    "insert_version cfg (rq_path rq) (put_version_values b) (kc_organization_id c) s db = (Inr i, db')"
    using assms(1-3) by (rule put_version_scoped)
  from s(4) obtain org x r where ins: "uuid_param cfg (rq_path rq) = Inr m" "uuid_param cfg (kc_organization_id c) = Inr org"
    "x \<in> set (kd_manifests db)" "mf_id x = m" "mf_organization_id x = org"
    "version_of_values cfg (dc_gen cfg (kd_writes db)) (dc_now cfg (kd_writes db)) m (put_version_values b) = Some r"
    "i = dc_uuid_text cfg (dc_gen cfg (kd_writes db))"
    "db' = db\<lparr>kd_versions := kd_versions db @ [r], kd_writes := Suc (kd_writes db)\<rparr>"
    using assms(4) by (rule_tac insert_version_row) (auto simp: uuid_param_def)
  show thesis
    using that [of org x r] s ins version_of_values_ids [OF ins(6)] version_of_values_matches [OF ins(6)]
    by (auto simp: uuid_param_def put_version_values_def split: option.splits)
qed

lemma get_manifest_selected:
  assumes "rq_claim rq = Some c" "valid_scope (kc_scope c)" "\<forall>n. rq_faults rq n = None" "rq_path rq \<noteq> []"
    and "\<And>role. select_latest_version cfg (rq_path rq)
          \<lparr>ss_role = role, ss_scope = kc_scope c, ss_org = kc_organization_id c\<rparr> db = (Inr r, db)"
  shows "handle_get_manifest cfg rq db = (RespJSON 200 (manifest_version_response cfg r), db)"
proof -
  obtain role where "with_scope (rq_faults rq) c (stmt_at (rq_faults rq) 0 (select_latest_version cfg (rq_path rq))) db
    = (let s = \<lparr>ss_role = role, ss_scope = kc_scope c, ss_org = kc_organization_id c\<rparr>
       in case stmt_at (rq_faults rq) 0 (select_latest_version cfg (rq_path rq)) s db of
         (Inl e, _) \<Rightarrow> (Inl e, db) | (Inr a, d) \<Rightarrow> (Inr a, d))"
    using with_scope_clean [OF assms(2,3)] by blast
  then show ?thesis
    using assms(1,3-5) by (simp add: handle_get_manifest_def)
qed

text \<open>
  After a version with the highest number of its manifest was accepted, a read of the manifest by any
  caller of the organization is answered with that version. After one with a lower number, which is
  accepted too, it is answered as before.
\<close>

lemma put_then_get:
  assumes "handle_put_manifest_version cfg rq db = (RespJSON st i, db')"
    and "rq_claim rq = Some c" "rq_body rq = DecodeOk b" "dc_uuid cfg (rq_path rq) = Some m"
    and "\<forall>v \<in> set (kd_versions db). mv_manifest_id v = m \<longrightarrow> mv_version_no v < pv_version_no b"
    and "rq_claim rq' = Some c'" "kc_organization_id c' = kc_organization_id c" "valid_scope (kc_scope c')"
    and "\<forall>n. rq_faults rq' n = None" "rq_path rq' = rq_path rq"
  shows "st = 201 \<and> (\<exists>v. handle_get_manifest cfg rq' db' = (RespJSON 200 v, db') \<and> version_matches cfg i b v)"
proof -
  obtain org x r where ins: "st = 201" "kc_organization_id c \<noteq> []" "rq_path rq \<noteq> []"
    "dc_uuid cfg (kc_organization_id c) = Some org" "x \<in> set (kd_manifests db)" "mf_id x = m"
    "mf_organization_id x = org" "mv_manifest_id r = m" "mv_version_no r = pv_version_no b"
    "version_matches cfg i b (manifest_version_response cfg r)"
    "db' = db\<lparr>kd_versions := kd_versions db @ [r], kd_writes := Suc (kd_writes db)\<rparr>"
    using assms(1-4) by (rule put_version_row)
  have "handle_get_manifest cfg rq' db' = (RespJSON 200 (manifest_version_response cfg r), db')"
    using ins assms(4-10)
    by (intro get_manifest_selected [where c = c'] select_latest_new [where m = m and org = org and x = x and db = db])
      (auto simp: uuid_param_def)
  with ins(1,10) show ?thesis
    by blast
qed

lemma put_older_then_get:
  assumes "handle_put_manifest_version cfg rq db = (RespJSON st i, db')"
    and "rq_claim rq = Some c" "rq_body rq = DecodeOk b" "dc_uuid cfg (rq_path rq) = Some m"
    and "w \<in> set (kd_versions db)" "mv_manifest_id w = m" "pv_version_no b \<le> mv_version_no w"
    and "rq_claim rq' = Some c'" "kc_organization_id c' = kc_organization_id c" "valid_scope (kc_scope c')"
    and "\<forall>n. rq_faults rq' n = None" "rq_path rq' = rq_path rq"
  shows "\<exists>v. handle_get_manifest cfg rq' db' = (RespJSON 200 v, db') \<and> handle_get_manifest cfg rq' db = (RespJSON 200 v, db)"
proof -
  obtain org x r where ins: "st = 201" "kc_organization_id c \<noteq> []" "rq_path rq \<noteq> []"
    "dc_uuid cfg (kc_organization_id c) = Some org" "x \<in> set (kd_manifests db)" "mf_id x = m"
    "mf_organization_id x = org" "mv_manifest_id r = m" "mv_version_no r = pv_version_no b"
    "version_matches cfg i b (manifest_version_response cfg r)"
    "db' = db\<lparr>kd_versions := kd_versions db @ [r], kd_writes := Suc (kd_writes db)\<rparr>"
    using assms(1-4) by (rule put_version_row)
  have same: "select_latest_version cfg (rq_path rq') \<lparr>ss_role = r1, ss_scope = k, ss_org = o1\<rparr> d
      = select_latest_version cfg (rq_path rq') \<lparr>ss_role = r2, ss_scope = k, ss_org = o1\<rparr> d" for r1 r2 k o1 d
    by (simp add: select_latest_version_def session_org_def split: sum.split)
  obtain v where "\<And>role. select_latest_version cfg (rq_path rq')
      \<lparr>ss_role = role, ss_scope = kc_scope c', ss_org = kc_organization_id c'\<rparr> db' = (Inr v, db')"
    "\<And>role. select_latest_version cfg (rq_path rq')
      \<lparr>ss_role = role, ss_scope = kc_scope c', ss_org = kc_organization_id c'\<rparr> db = (Inr v, db)"
    using select_latest_kept [of cfg "rq_path rq'" m r "\<lparr>ss_role = RoleOrg, ss_scope = kc_scope c', ss_org = kc_organization_id c'\<rparr>"
        org x db w db' "Suc (kd_writes db)"] ins assms(4-7,9,12) same
    by (auto simp: uuid_param_def) metis
  then show ?thesis
    using get_manifest_selected [of rq' c' cfg _ v] assms(8,10-12) ins(3) by metis
qed

section \<open>No request makes a manifest\<close>

lemma keep_serve_all_manifests: "kd_manifests (keep_serve_all cfg ops db) = kd_manifests db"
proof (rule keep_serve_all_induct [where P = "\<lambda>d. kd_manifests d = kd_manifests db"])
  have same: "kd_manifests d' = kd_manifests d" if "keep_write cfg c d d'" for c d d'
    using that by (induction rule: keep_write.induct) simp_all
  fix op and d :: keep_db
  assume "kd_manifests d = kd_manifests db"
  then show "kd_manifests (keep_serve cfg op d) = kd_manifests db"
    using request_is_one_write [of cfg op d] same by metis
qed simp

lemma parse_put_version_error:
  "parse_put_version_request cfg rq = Inl r \<Longrightarrow> \<exists>status code reason. r = RespError status code reason"
  by (auto simp: parse_put_version_request_def decode_body_def write_error_def
      split: sum.splits decoded.splits option.splits if_splits)

lemma put_version_failure_error: "\<exists>status code reason. put_version_failure e = RespError status code reason"
  by (simp add: put_version_failure_def write_error_def split: db_error.split)

text \<open>
  The first version of a new manifest cannot be put. No sequence of requests creates a manifest,
  and a version whose manifest is not there is refused: a freshly allocated id, which is what the
  Watchmaster's spawn proposal is documented to be called with, never gets its first version.
\<close>

lemma fresh_manifest_is_refused:
  assumes "dc_uuid cfg (rq_path rq) = Some m" "m \<notin> mf_id ` set (kd_manifests db)"
  shows "\<exists>status code reason. handle_put_manifest_version cfg rq (keep_serve_all cfg ops db)
    = (RespError status code reason, keep_serve_all cfg ops db)"
proof -
  define d where "d = keep_serve_all cfg ops db"
  have "insert_version cfg (rq_path rq) vals org s d \<noteq> (Inr i, d')" for vals org s i d'
    using assms by (auto simp: uuid_param_def d_def keep_serve_all_manifests elim!: insert_version_row)
  then have "with_scope (rq_faults rq) c (stmt_at (rq_faults rq) 0 (insert_version cfg (rq_path rq) vals org)) d
      \<noteq> (Inr i, d')" for c vals org i d'
    by (auto elim: scoped_stmt)
  then have refused: "\<exists>e. with_scope (rq_faults rq) c
      (stmt_at (rq_faults rq) 0 (insert_version cfg (rq_path rq) vals org)) d = (Inl e, d)" for c vals org
    by (metis obj_sumE prod.collapse scoped_error)
  show ?thesis
  proof (cases "rq_claim rq")
    case None
    then show ?thesis
      by (simp add: handle_put_manifest_version_def write_error_def)
  next
    case (Some c)
    show ?thesis
    proof (cases "parse_put_version_request cfg rq :: string http_response + put_version_request")
      case (Inl r)
      with parse_put_version_error [OF Inl] Some show ?thesis
        by (auto simp: handle_put_manifest_version_def write_error_def)
    next
      case (Inr b)
      obtain e where "with_scope (rq_faults rq) c (stmt_at (rq_faults rq) 0
          (insert_version cfg (rq_path rq) (put_version_values b) (kc_organization_id c))) d = (Inl e, d)"
        using refused by blast
      with Some Inr show ?thesis
        by (auto simp: handle_put_manifest_version_def write_error_def put_version_failure_error d_def)
    qed
  qed
qed

section \<open>What every caller reads\<close>

text \<open>A statement that does not look at its session answers every valid claim alike.\<close>

lemma scoped_read_any:
  assumes "role_for_scope (kc_scope c) = Inr r1" "role_for_scope (kc_scope c') = Inr r2"
    and "\<And>s s'. st s db = st s' db" "snd (st s0 db) = db"
  shows "with_scope f c (stmt_at f 0 st) db = with_scope f c' (stmt_at f 0 st) db"
  using assms(1,2) assms(3) [of "\<lparr>ss_role = r1, ss_scope = kc_scope c, ss_org = kc_organization_id c\<rparr>"
     "\<lparr>ss_role = r2, ss_scope = kc_scope c', ss_org = kc_organization_id c'\<rparr>"]
  by (simp add: with_scope_def stmt_at_def split: option.split)

text \<open>
  Four reads know no tenant. The log, one watchkeeper, the list of them and the lookup of a human
  by its Slack id are answered alike for every two valid claims, of whatever organization: the tables
  behind them have no row security and the statements no condition on the organization.
\<close>

theorem reads_ignore_tenant:
  assumes "valid_scope (kc_scope c)" "valid_scope (kc_scope c')"
  shows "handle_log_tail cfg (rq\<lparr>rq_claim := Some c\<rparr>) db = handle_log_tail cfg (rq\<lparr>rq_claim := Some c'\<rparr>) db
    \<and> handle_get_watchkeeper cfg (rq\<lparr>rq_claim := Some c\<rparr>) db = handle_get_watchkeeper cfg (rq\<lparr>rq_claim := Some c'\<rparr>) db
    \<and> handle_list_watchkeepers cfg (rq\<lparr>rq_claim := Some c\<rparr>) db = handle_list_watchkeepers cfg (rq\<lparr>rq_claim := Some c'\<rparr>) db
    \<and> handle_lookup_human_by_slack_id cfg (rq\<lparr>rq_claim := Some c\<rparr>) db
        = handle_lookup_human_by_slack_id cfg (rq\<lparr>rq_claim := Some c'\<rparr>) db"
proof -
  obtain r1 r2 where roles: "role_for_scope (kc_scope c) = Inr r1" "role_for_scope (kc_scope c') = Inr r2"
    using assms by (auto simp flip: role_for_scope_valid)
  note same = scoped_read_any [OF roles, of _ db]
  have log: "with_scope f c (stmt_at f 0 (select_log n)) db = with_scope f c' (stmt_at f 0 (select_log n)) db" for f n
    by (rule same) (auto simp: select_log_def)
  have get: "with_scope f c (stmt_at f 0 (select_watchkeeper cfg i)) db
      = with_scope f c' (stmt_at f 0 (select_watchkeeper cfg i)) db" for f i
    by (rule same) (auto simp: select_watchkeeper_def split: sum.splits option.splits)
  have list: "with_scope f c (stmt_at f 0 (select_watchkeepers st n)) db
      = with_scope f c' (stmt_at f 0 (select_watchkeepers st n)) db" for f st n
    by (rule same) (auto simp: select_watchkeepers_def)
  have human: "with_scope f c (stmt_at f 0 (select_human_by_slack i)) db
      = with_scope f c' (stmt_at f 0 (select_human_by_slack i)) db" for f i
    by (rule same) (auto simp: select_human_by_slack_def split: option.splits)
  show ?thesis
    unfolding handle_log_tail_def handle_get_watchkeeper_def handle_list_watchkeepers_def
      handle_lookup_human_by_slack_id_def Let_def
    by (simp add: log get list human cong: if_cong option.case_cong)
qed

end
