(* ===== verification/KeepWorld.thy ===== *)
theory KeepWorld
  imports KeepRoundtrip
begin

text \<open>
  A small world on which the theorems about the Keep server and its client are evaluated.
\<close>

section \<open>A world\<close>

text \<open>Two organizations, 100 and 200, a human and a manifest of each, and a watchkeeper of the first.\<close>

definition demo_text :: "uuid \<Rightarrow> string" where
  "demo_text u = ''00000000-0000-0000-0000-000000000'' @ map ((!) ''0123456789'')
     (let n = unat u in [n div 100, n div 10 mod 10, n mod 10])"

definition demo_uuid_of :: "string \<Rightarrow> uuid option" where
  "demo_uuid_of s = List.find (\<lambda>n. demo_text n = s) [100, 200, 101, 201, 102, 202, 110, 111, 112]"

definition demo_cfg :: keep_cfg where
  "demo_cfg = \<lparr>dc_uuid = demo_uuid_of, dc_uuid_text = demo_text, dc_gen = (\<lambda>n. 110 + of_nat n), dc_now = int,
     dc_jsonb = Some, dc_float4 = Some, dc_nearest = (\<lambda>rows vec k. map (\<lambda>r. (r, Some 0)) (take k rows)),
     dc_media_type = Some, dc_url_scheme = (\<lambda>_. Some ''s3'')\<rparr>"

definition demo_human :: "uuid \<Rightarrow> uuid \<Rightarrow> human_row" where
  "demo_human i org = \<lparr>hu_id = i, hu_organization_id = org, hu_display_name = ''h'', hu_email = None,
     hu_slack_user_id = None, hu_created_at = 0\<rparr>"

definition demo_watchkeeper :: watchkeeper_row where
  "demo_watchkeeper = \<lparr>wk_id = 110, wk_manifest_id = 102, wk_lead_human_id = 101, wk_active_version_id = None,
     wk_status = ''pending'', wk_spawned_at = None, wk_retired_at = None, wk_archive_uri = None,
     wk_created_at = 0\<rparr>"

definition demo_db :: keep_db where
  "demo_db = \<lparr>kd_organizations = [100, 200], kd_humans = [demo_human 101 100, demo_human 201 200],
     kd_manifests = [\<lparr>mf_id = 102, mf_organization_id = 100\<rparr>, \<lparr>mf_id = 202, mf_organization_id = 200\<rparr>],
     kd_versions = [], kd_watchkeepers = [demo_watchkeeper], kd_log = [], kd_chunks = [], kd_writes = 1\<rparr>"

definition demo_claim_of :: "uuid \<Rightarrow> keep_claim" where
  "demo_claim_of org = demo_claim_keep\<lparr>kc_organization_id := demo_text org\<rparr>"

definition demo_request :: "uuid \<Rightarrow> string \<Rightarrow> 'b \<Rightarrow> 'b keep_request" where
  "demo_request org path b = \<lparr>rq_claim = Some (demo_claim_of org), rq_content_type = ''application/json'',
     rq_body = DecodeOk b, rq_path = path, rq_query = (\<lambda>_. []), rq_faults = (\<lambda>_. None)\<rparr>"

lemmas demo_defs = demo_db_def demo_watchkeeper_def demo_human_def demo_cfg_def demo_request_def
  demo_claim_of_def demo_claim_keep_def

lemma demo_db_ok: "kd_ok demo_db"
  by (simp add: kd_ok_def demo_defs stage_ok_def)

definition demo_ops :: "uuid \<Rightarrow> keep_op list" where
  "demo_ops org = [OpUpdateStatus (demo_request org (demo_text 110) \<lparr>us_status = ''active'', us_archive_uri = ArchiveAbsent\<rparr>),
     OpLogAppend (demo_request org [] \<lparr>la_event_type = ''e'', la_correlation_id = [], la_payload = []\<rparr>)]"

lemma demo_patterns [simp]:
  "uuid_pattern (demo_text 102)" "uuid_pattern (demo_text 110)" "uuid_pattern (demo_text 201)"
  "uuid_pattern (demo_text 112)"
  by (simp_all add: demo_text_def) (code_simp, code_simp, code_simp, code_simp)

lemma demo_texts [simp]:
  "demo_uuid_of (demo_text 100) = Some 100" "demo_uuid_of (demo_text 200) = Some 200"
  "demo_uuid_of (demo_text 102) = Some 102" "demo_uuid_of (demo_text 110) = Some 110"
  "demo_uuid_of (demo_text 112) = Some 112" "demo_uuid_of (demo_text 201) = Some 201"
  "demo_text u \<noteq> []"
  by (simp_all add: demo_uuid_of_def demo_text_def)

section \<open>The theorems on it\<close>

lemmas demo_run = keep_serve_def handle_update_watchkeeper_status_def handle_log_append_def demo_defs
  parse_update_status_request_def parse_log_append_request_def decode_body_def is_json_content_type_def
  with_scope_def stmt_at_def status_transition_def select_status_for_update_def update_watchkeeper_def
  uuid_param_def uuid_param_opt_def role_for_scope_def insert_log_def actor_from_scope_def cut_prefix_def null_if_empty_def
  Let_def

definition demo_active :: watchkeeper_row where
  "demo_active = demo_watchkeeper\<lparr>wk_status := ''active'', wk_spawned_at := Some 1\<rparr>"

definition demo_log_row :: log_row where
  "demo_log_row = \<lparr>kl_id = 112, kl_event_type = ''e'', kl_correlation_id = None, kl_actor_watchkeeper_id = None,
     kl_actor_human_id = None, kl_payload = ''{}'', kl_created_at = 2\<rparr>"

lemma demo_serve:
  "keep_serve_all demo_cfg (demo_ops 100) demo_db
     = demo_db\<lparr>kd_watchkeepers := [demo_active], kd_log := [demo_log_row], kd_writes := 3\<rparr>"
  by (simp add: demo_ops_def demo_run demo_active_def demo_log_row_def)

theorem tables_stay_consistent_witness:
  "kd_ok (demo_db\<lparr>kd_watchkeepers := [demo_active], kd_log := [demo_log_row], kd_writes := 3\<rparr>)"
  using tables_stay_consistent [OF demo_db_ok, of demo_cfg "demo_ops 100"] by (simp only: demo_serve)

theorem watchkeeper_lifecycle_witness:
  "row_later demo_watchkeeper demo_active"
  using watchkeeper_lifecycle [OF demo_db_ok, of 0 demo_cfg "demo_ops 100"] unfolding demo_serve
  by (simp add: demo_db_def Let_def)

theorem log_append_only_attributed_witness:
  "actor_of demo_cfg (demo_claim_of 100) (kl_actor_watchkeeper_id demo_log_row) (kl_actor_human_id demo_log_row)"
  using log_append_only_attributed [of demo_cfg "demo_ops 100" demo_db] unfolding demo_serve
  by (auto simp: demo_db_def demo_ops_def op_claim_def demo_request_def)

lemma demo_claim_org: "claim_org demo_cfg (demo_claim_of 200) = Some 200" "claim_org demo_cfg (demo_claim_of 100) = Some 100"
  by (simp_all add: claim_org_def demo_cfg_def demo_claim_of_def)

theorem foreign_requests_change_nothing_witness:
  "tenant_watchkeepers 100 demo_db = [demo_watchkeeper]
   \<and> demo_watchkeeper \<in> set (tenant_watchkeepers 100 (keep_serve_all demo_cfg (demo_ops 200) demo_db))"
proof -
  have "\<forall>op \<in> set (demo_ops 200). \<forall>c. op_claim op = Some c \<longrightarrow> claim_org demo_cfg c \<noteq> Some 100"
    by (simp add: demo_ops_def op_claim_def demo_request_def demo_claim_org)
  from foreign_requests_change_nothing [OF demo_db_ok this] show ?thesis
    by (simp add: tenant_watchkeepers_def in_tenant_def demo_defs)
qed

theorem lead_change_crosses_tenants_witness:
  "\<exists>db' w'. handle_set_watchkeeper_lead demo_cfg (demo_request 100 (demo_text 110) (demo_text 201)) demo_db
      = (RespNoContent, db')
    \<and> w' \<in> set (kd_watchkeepers db') \<and> wk_id w' = 110 \<and> in_tenant db' 200 w' \<and> \<not> in_tenant db' 100 w'"
  using lead_change_crosses_tenants [of demo_db "demo_request 100 (demo_text 110) (demo_text 201)" "demo_claim_of 100"
      demo_cfg demo_watchkeeper "demo_text 201" 100 "demo_human 201 200"] demo_db_ok demo_claim_org
  by (simp add: demo_request_def demo_claim_of_def demo_claim_keep_def valid_scope_def demo_cfg_def
      is_json_content_type_def in_tenant_def demo_db_def demo_watchkeeper_def demo_human_def)

definition demo_version :: put_version_request where
  "demo_version = zero_put_version\<lparr>pv_version_no := 1, pv_system_prompt := ''p'', pv_autonomy := ''autonomous'',
     pv_notebook_threshold := 1 / 2\<rparr>"

theorem version_validators_agree_witness:
  "client_put_version_ok (demo_text 110) demo_version
   \<and> version_checks (the (version_of_values demo_cfg 111 0 102 (put_version_values demo_version)))"
proof -
  have ok: "put_version_error demo_version = None"
    by (simp add: put_version_error_None demo_version_def zero_put_version_def rune_count_def manifest_autonomy_allowed_def go_runes.simps)
  have "\<exists>r. version_of_values demo_cfg 111 0 102 (put_version_values demo_version) = Some r"
    by (simp add: version_of_values_def put_version_values_def demo_version_def zero_put_version_def demo_cfg_def
        jsonb_or_default_def null_if_empty_def null_if_zero_def float4_opt_def is_int4_def)
  moreover have "\<forall>t r. dc_float4 demo_cfg t = Some r \<and> 0 \<le> t \<and> t \<le> 1 \<longrightarrow> 0 \<le> r \<and> r \<le> 1"
    by (simp add: demo_cfg_def)
  note version_validators_agree [OF this, of "demo_text 110" demo_version 111 0 102]
  ultimately show ?thesis
    using ok by (auto simp: demo_texts)
qed

definition demo_put :: "put_version_request keep_request" where
  "demo_put = demo_request 100 (demo_text 102) demo_version"

lemma demo_put_done:
  "handle_put_manifest_version demo_cfg demo_put demo_db
     = (RespJSON 201 (demo_text 111), snd (handle_put_manifest_version demo_cfg demo_put demo_db))"
proof -
  have ok: "put_version_error demo_version = None"
    by (simp add: put_version_error_None demo_version_def zero_put_version_def rune_count_def manifest_autonomy_allowed_def)
  obtain r where r: "version_of_values demo_cfg 111 1 102 (put_version_values demo_version) = Some r"
    by (simp add: version_of_values_def put_version_values_def demo_version_def zero_put_version_def demo_cfg_def
        jsonb_or_default_def null_if_empty_def null_if_zero_def float4_opt_def is_int4_def)
  have checks: "version_checks r"
    using r unfolding version_checks_def
    by (auto simp: version_of_values_def put_version_values_def demo_version_def zero_put_version_def demo_cfg_def
        jsonb_or_default_def null_if_empty_def null_if_zero_def float4_opt_def is_int4_def)
  have ids: "mv_manifest_id r = 102"
    using version_of_values_ids [OF r] by simp
  have ins: "insert_version demo_cfg (demo_text 102) (put_version_values demo_version) (demo_text 100)
      \<lparr>ss_role = RoleOrg, ss_scope = ''org'', ss_org = demo_text 100\<rparr> demo_db
    = (Inr (demo_text 111), demo_db\<lparr>kd_versions := [r], kd_writes := 2\<rparr>)"
    using r checks ids
    by (simp add: insert_version_def uuid_param_def session_org_def version_visible_def manifest_visible_def
        demo_cfg_def demo_db_def)
  then show ?thesis
    by (simp add: handle_put_manifest_version_def demo_put_def parse_put_version_request_def ok demo_request_def
        decode_body_def is_json_content_type_def with_scope_def stmt_at_def role_for_scope_def demo_claim_of_def
        demo_claim_keep_def) (simp add: demo_cfg_def)
qed

theorem reads_ignore_tenant_witness:
  "handle_get_watchkeeper demo_cfg (demo_request 200 (demo_text 110) ()) demo_db = (RespJSON 200 demo_watchkeeper, demo_db)"
proof -
  have "handle_get_watchkeeper demo_cfg (demo_request 100 (demo_text 110) ()) demo_db = (RespJSON 200 demo_watchkeeper, demo_db)"
    by (simp add: handle_get_watchkeeper_def with_scope_def stmt_at_def role_for_scope_def select_watchkeeper_def
        uuid_param_def demo_defs)
  moreover have "valid_scope (kc_scope (demo_claim_of 100))" "valid_scope (kc_scope (demo_claim_of 200))"
    by (simp_all add: demo_claim_of_def demo_claim_keep_def valid_scope_def)
  note reads_ignore_tenant [OF this, of demo_cfg "demo_request 100 (demo_text 110) ()" demo_db]
  ultimately show ?thesis
    by (simp add: demo_request_def)
qed

end
