(* ===== verification/Watchmaster.thy ===== *)
theory Watchmaster
  imports KeepRoundtrip SpawnSteps PendingApproval
begin

text \<open>
  The Watchmaster's privileged tools (\<^verbatim>\<open>core/pkg/spawn\<close>: \<^verbatim>\<open>watchmaster_writes.go\<close>,
  \<^verbatim>\<open>retire_watchkeeper.go\<close>, \<^verbatim>\<open>promote_to_keep.go\<close>, \<^verbatim>\<open>slack_app.go\<close>): the gates in front of each,
  its audit rows, and its one privileged call. The Keep client, the log, the notebook, the secret
  store and the Slack adapter are arguments that work on a world; a run keeps the calls made on them.
\<close>

section \<open>Calls on the outside\<close>

datatype wm_action =
    ActAppend log_event
  | ActGetManifest string
  | ActPutVersion string put_version_request
  | ActRetire string string
  | ActStore store_request
  | ActPromote string
  | ActSecret string
  | ActCreateApp string string "string list"

text \<open>The world, and the calls so far, each with whether it succeeded.\<close>

record 'w wm_run =
  wr_world :: 'w
  wr_calls :: "(wm_action \<times> bool) list"

definition wm_call :: "wm_action \<Rightarrow> ('w \<Rightarrow> (goerr + 'a) \<times> 'w) \<Rightarrow> 'w wm_run \<Rightarrow> (goerr + 'a) \<times> 'w wm_run" where
  "wm_call act f st =
     (case f (wr_world st) of
        (r, w) \<Rightarrow> (r, \<lparr>wr_world = w, wr_calls = wr_calls st @ [(act, \<not> isl r)]\<rparr>))"

type_synonym 'w wm_append = "log_event \<Rightarrow> 'w \<Rightarrow> (goerr + unit) \<times> 'w"

definition wm_append :: "'w wm_append \<Rightarrow> log_event \<Rightarrow> 'w wm_run \<Rightarrow> (goerr + unit) \<times> 'w wm_run" where
  "wm_append app ev = wm_call (ActAppend ev) (app ev)"

text \<open>\<open>_, _ = logger.Append(...)\<close>.\<close>

definition wm_append_ignore :: "'w wm_append \<Rightarrow> log_event \<Rightarrow> 'w wm_run \<Rightarrow> 'w wm_run" where
  "wm_append_ignore app ev st = snd (wm_append app ev st)"

record 'w wm_client =
  wc_get_manifest :: "string \<Rightarrow> 'w \<Rightarrow> (goerr + manifest_version) \<times> 'w"
  wc_put_version :: "string \<Rightarrow> put_version_request \<Rightarrow> 'w \<Rightarrow> (goerr + string) \<times> 'w"
  wc_update_status :: "string \<Rightarrow> string \<Rightarrow> 'w \<Rightarrow> (goerr + unit) \<times> 'w"
  wc_store :: "store_request \<Rightarrow> 'w \<Rightarrow> (goerr + string) \<times> 'w"

record notebook_proposal =
  np_subject :: string
  np_content :: string
  np_embedding :: "real list"
  np_proposal_id :: string
  np_category :: string
  np_scope :: string
  np_source_created_at :: int
  np_proposed_at :: int

text \<open>\<open>we_ctx\<close> is \<open>ctx.Err()\<close>; a client, a log or a notebook may be nil.\<close>

record 'w wm_env =
  we_ctx :: "goerr option"
  we_client :: "'w wm_client option"
  we_append :: "'w wm_append option"
  we_notebook :: "(string \<Rightarrow> 'w \<Rightarrow> (goerr + notebook_proposal) \<times> 'w) option"
  we_type_name :: "err_link \<Rightarrow> string"
  we_now_ms :: "'w \<Rightarrow> int"

section \<open>Gates\<close>

abbreviation ErrUnauthorized :: string where
  "ErrUnauthorized \<equiv> ''spawn: unauthorized: claim lacks slack_app_create=lead_approval''"
abbreviation ErrApprovalRequired :: string where
  "ErrApprovalRequired \<equiv> ''spawn: approval required: empty approval_token''"
abbreviation ErrInvalidClaim :: string where "ErrInvalidClaim \<equiv> ''spawn: invalid claim''"
abbreviation ErrInvalidRequest :: string where "ErrInvalidRequest \<equiv> ''spawn: invalid request''"

definition has_authority :: "spawn_claim \<Rightarrow> string \<Rightarrow> bool" where
  "has_authority claim act \<longleftrightarrow> sc_authority_matrix claim act = Some ''lead_approval''"

definition validate_claim_and_deps :: "'w wm_env \<Rightarrow> spawn_claim \<Rightarrow> goerr option" where
  "validate_claim_and_deps env claim =
     (if we_client env = None then Some (errorf_is ErrInvalidRequest [])
      else if we_append env = None then Some (errorf_is ErrInvalidRequest [])
      else if sc_organization_id claim = [] then Some (errorf_is ErrInvalidClaim [])
      else None)"

definition pick_agent_for_bump :: "string \<Rightarrow> spawn_claim \<Rightarrow> string" where
  "pick_agent_for_bump agent claim = (if agent \<noteq> [] then agent else sc_agent_id claim)"

section \<open>Manifest versions\<close>

definition manifest_bump_requested_event :: "string \<Rightarrow> string \<Rightarrow> string \<Rightarrow> spawn_claim \<Rightarrow> log_event" where
  "manifest_bump_requested_event t tool agent claim =
     mk_event t [(''agent_id'', PStr (pick_agent_for_bump agent claim)), (''tool_name'', PStr tool),
       (''event_class'', PStr ''requested''), (''approval_token_present'', PBool True)]"

definition manifest_bump_succeeded_event ::
  "string \<Rightarrow> string \<Rightarrow> string \<Rightarrow> spawn_claim \<Rightarrow> string \<Rightarrow> int \<Rightarrow> log_event" where
  "manifest_bump_succeeded_event t tool agent claim version_id version_no =
     mk_event t [(''agent_id'', PStr (pick_agent_for_bump agent claim)), (''tool_name'', PStr tool),
       (''event_class'', PStr ''succeeded''), (''manifest_version_id'', PStr version_id),
       (''version_no'', PInt version_no)]"

definition manifest_bump_failed_event ::
  "(err_link \<Rightarrow> string) \<Rightarrow> string \<Rightarrow> string \<Rightarrow> string \<Rightarrow> spawn_claim \<Rightarrow> goerr \<Rightarrow> log_event" where
  "manifest_bump_failed_event ty t tool agent claim err =
     mk_event t [(''agent_id'', PStr (pick_agent_for_bump agent claim)), (''tool_name'', PStr tool),
       (''event_class'', PStr ''failed''), (''error_class'', PStr (classify_error ty err))]"

record propose_spawn_request =
  ps_agent_id :: string
  ps_system_prompt :: string
  ps_personality :: string
  ps_language :: string
  ps_approval_token :: string

record manifest_bump_result =
  mb_version_id :: string
  mb_version_no :: int

definition propose_spawn ::
  "'w wm_env \<Rightarrow> propose_spawn_request \<Rightarrow> spawn_claim \<Rightarrow> 'w wm_run \<Rightarrow> (goerr + manifest_bump_result) \<times> 'w wm_run" where
  "propose_spawn env req claim st =
     (case we_ctx env of
        Some e \<Rightarrow> (Inl e, st)
      | None \<Rightarrow>
          (case validate_claim_and_deps env claim of
             Some e \<Rightarrow> (Inl e, st)
           | None \<Rightarrow>
               if \<not> has_authority claim ''propose_spawn'' then (Inl [Sentinel ErrUnauthorized], st)
               else if ps_agent_id req = [] then (Inl (errorf_is ErrInvalidRequest []), st)
               else if ps_system_prompt req = [] then (Inl (errorf_is ErrInvalidRequest []), st)
               else if ps_approval_token req = [] then (Inl [Sentinel ErrApprovalRequired], st)
               else
                 (case wm_append (the (we_append env))
                     (manifest_bump_requested_event ''watchmaster_propose_spawn_requested'' ''propose_spawn''
                        (ps_agent_id req) claim) st of
                    (Inl e, st1) \<Rightarrow> (Inl (errorf ''spawn: keepers_log requested'' e), st1)
                  | (Inr _, st1) \<Rightarrow>
                      (let v = zero_put_version\<lparr>pv_version_no := 1, pv_system_prompt := ps_system_prompt req,
                                 pv_personality := ps_personality req, pv_language := ps_language req\<rparr>
                       in case wm_call (ActPutVersion (ps_agent_id req) v)
                              (wc_put_version (the (we_client env)) (ps_agent_id req) v) st1 of
                            (Inl e, st2) \<Rightarrow>
                              (Inl (errorf ''spawn: propose_spawn put_manifest_version'' e),
                               wm_append_ignore (the (we_append env))
                                 (manifest_bump_failed_event (we_type_name env) ''watchmaster_propose_spawn_failed''
                                    ''propose_spawn'' (ps_agent_id req) claim e) st2)
                          | (Inr i, st2) \<Rightarrow>
                              (Inr \<lparr>mb_version_id = i, mb_version_no = 1\<rparr>,
                               wm_append_ignore (the (we_append env))
                                 (manifest_bump_succeeded_event ''watchmaster_propose_spawn_succeeded''
                                    ''propose_spawn'' (ps_agent_id req) claim i 1) st2)))))"

definition copy_manifest_for_bump :: "manifest_version \<Rightarrow> put_version_request" where
  "copy_manifest_for_bump v =
     \<lparr>pv_version_no = 0, pv_system_prompt = vj_system_prompt v, pv_tools = vj_tools v,
      pv_authority_matrix = vj_authority_matrix v, pv_knowledge_sources = vj_knowledge_sources v,
      pv_personality = vj_personality v, pv_language = vj_language v, pv_model = vj_model v,
      pv_autonomy = vj_autonomy v, pv_notebook_top_k = vj_notebook_top_k v,
      pv_notebook_threshold = vj_notebook_threshold v\<rparr>"

record bump_event_types =
  be_requested :: string
  be_succeeded :: string
  be_failed :: string
  be_tool_name :: string

text \<open>Go's \<open>int\<close> is 64 bits.\<close>

definition run_manifest_bump ::
  "'w wm_env \<Rightarrow> spawn_claim \<Rightarrow> bump_event_types \<Rightarrow> string \<Rightarrow> (manifest_version \<Rightarrow> put_version_request)
     \<Rightarrow> 'w wm_run \<Rightarrow> (goerr + manifest_bump_result) \<times> 'w wm_run" where
  "run_manifest_bump env claim types agent mutate st =
     (case wm_call (ActGetManifest agent) (wc_get_manifest (the (we_client env)) agent) st of
        (Inl e, st1) \<Rightarrow> (Inl (errorf (''spawn: '' @ be_tool_name types @ '' get_manifest'') e), st1)
      | (Inr latest, st1) \<Rightarrow>
          (case wm_append (the (we_append env))
              (manifest_bump_requested_event (be_requested types) (be_tool_name types) agent claim) st1 of
             (Inl e, st2) \<Rightarrow> (Inl (errorf ''spawn: keepers_log requested'' e), st2)
           | (Inr _, st2) \<Rightarrow>
               (let n1 = (mutate latest)\<lparr>pv_version_no := wrap64 (vj_version_no latest + 1)\<rparr>;
                    v = (if pv_system_prompt n1 = [] then n1\<lparr>pv_system_prompt := vj_system_prompt latest\<rparr> else n1)
                in case wm_call (ActPutVersion agent v) (wc_put_version (the (we_client env)) agent v) st2 of
                     (Inl e, st3) \<Rightarrow>
                       (Inl (errorf (''spawn: '' @ be_tool_name types @ '' put_manifest_version'') e),
                        wm_append_ignore (the (we_append env))
                          (manifest_bump_failed_event (we_type_name env) (be_failed types) (be_tool_name types)
                             agent claim e) st3)
                   | (Inr i, st3) \<Rightarrow>
                       (Inr \<lparr>mb_version_id = i, mb_version_no = pv_version_no v\<rparr>,
                        wm_append_ignore (the (we_append env))
                          (manifest_bump_succeeded_event (be_succeeded types) (be_tool_name types) agent claim i
                             (pv_version_no v)) st3))))"

text \<open>The agent, the new value and the approval token.\<close>

record adjust_request =
  aj_agent_id :: string
  aj_new_value :: string
  aj_approval_token :: string

definition adjust_personality ::
  "'w wm_env \<Rightarrow> adjust_request \<Rightarrow> spawn_claim \<Rightarrow> 'w wm_run \<Rightarrow> (goerr + manifest_bump_result) \<times> 'w wm_run" where
  "adjust_personality env req claim st =
     (case we_ctx env of
        Some e \<Rightarrow> (Inl e, st)
      | None \<Rightarrow>
          (case validate_claim_and_deps env claim of
             Some e \<Rightarrow> (Inl e, st)
           | None \<Rightarrow>
               if \<not> has_authority claim ''adjust_personality'' then (Inl [Sentinel ErrUnauthorized], st)
               else if aj_agent_id req = [] then (Inl (errorf_is ErrInvalidRequest []), st)
               else if aj_approval_token req = [] then (Inl [Sentinel ErrApprovalRequired], st)
               else run_manifest_bump env claim
                      \<lparr>be_requested = ''watchmaster_adjust_personality_requested'',
                       be_succeeded = ''watchmaster_adjust_personality_succeeded'',
                       be_failed = ''watchmaster_adjust_personality_failed'',
                       be_tool_name = ''adjust_personality''\<rparr> (aj_agent_id req)
                      (\<lambda>latest. (copy_manifest_for_bump latest)\<lparr>pv_personality := aj_new_value req\<rparr>) st))"

definition adjust_language ::
  "'w wm_env \<Rightarrow> adjust_request \<Rightarrow> spawn_claim \<Rightarrow> 'w wm_run \<Rightarrow> (goerr + manifest_bump_result) \<times> 'w wm_run" where
  "adjust_language env req claim st =
     (case we_ctx env of
        Some e \<Rightarrow> (Inl e, st)
      | None \<Rightarrow>
          (case validate_claim_and_deps env claim of
             Some e \<Rightarrow> (Inl e, st)
           | None \<Rightarrow>
               if \<not> has_authority claim ''adjust_language'' then (Inl [Sentinel ErrUnauthorized], st)
               else if aj_agent_id req = [] then (Inl (errorf_is ErrInvalidRequest []), st)
               else if aj_approval_token req = [] then (Inl [Sentinel ErrApprovalRequired], st)
               else run_manifest_bump env claim
                      \<lparr>be_requested = ''watchmaster_adjust_language_requested'',
                       be_succeeded = ''watchmaster_adjust_language_succeeded'',
                       be_failed = ''watchmaster_adjust_language_failed'',
                       be_tool_name = ''adjust_language''\<rparr> (aj_agent_id req)
                      (\<lambda>latest. (copy_manifest_for_bump latest)\<lparr>pv_language := aj_new_value req\<rparr>) st))"

section \<open>Retirement\<close>

record retire_request =
  rr_agent_id :: string
  rr_approval_token :: string

definition retire_requested_event :: "string \<Rightarrow> spawn_claim \<Rightarrow> log_event" where
  "retire_requested_event agent claim =
     mk_event ''watchmaster_retire_watchkeeper_requested''
       [(''agent_id'', PStr (pick_agent_for_bump agent claim)), (''tool_name'', PStr ''retire_watchkeeper''),
        (''event_class'', PStr ''requested''), (''approval_token_present'', PBool True)]"

definition retire_succeeded_event :: "string \<Rightarrow> spawn_claim \<Rightarrow> log_event" where
  "retire_succeeded_event agent claim =
     mk_event ''watchmaster_retire_watchkeeper_succeeded''
       [(''agent_id'', PStr (pick_agent_for_bump agent claim)), (''tool_name'', PStr ''retire_watchkeeper''),
        (''event_class'', PStr ''succeeded'')]"

definition retire_failed_event :: "(err_link \<Rightarrow> string) \<Rightarrow> string \<Rightarrow> spawn_claim \<Rightarrow> goerr \<Rightarrow> log_event" where
  "retire_failed_event ty agent claim err =
     mk_event ''watchmaster_retire_watchkeeper_failed''
       [(''agent_id'', PStr (pick_agent_for_bump agent claim)), (''tool_name'', PStr ''retire_watchkeeper''),
        (''event_class'', PStr ''failed''), (''error_class'', PStr (classify_error ty err))]"

definition retire_watchkeeper ::
  "'w wm_env \<Rightarrow> retire_request \<Rightarrow> spawn_claim \<Rightarrow> 'w wm_run \<Rightarrow> (goerr + unit) \<times> 'w wm_run" where
  "retire_watchkeeper env req claim st =
     (case we_ctx env of
        Some e \<Rightarrow> (Inl e, st)
      | None \<Rightarrow>
          (case validate_claim_and_deps env claim of
             Some e \<Rightarrow> (Inl e, st)
           | None \<Rightarrow>
               if \<not> has_authority claim ''retire_watchkeeper'' then (Inl [Sentinel ErrUnauthorized], st)
               else if rr_agent_id req = [] then (Inl (errorf_is ErrInvalidRequest []), st)
               else if rr_approval_token req = [] then (Inl [Sentinel ErrApprovalRequired], st)
               else
                 (case wm_append (the (we_append env)) (retire_requested_event (rr_agent_id req) claim) st of
                    (Inl e, st1) \<Rightarrow> (Inl (errorf ''spawn: keepers_log requested'' e), st1)
                  | (Inr _, st1) \<Rightarrow>
                      (case wm_call (ActRetire (rr_agent_id req) ''retired'')
                          (wc_update_status (the (we_client env)) (rr_agent_id req) ''retired'') st1 of
                         (Inl e, st2) \<Rightarrow>
                           (Inl (errorf ''spawn: retire_watchkeeper update_status'' e),
                            wm_append_ignore (the (we_append env))
                              (retire_failed_event (we_type_name env) (rr_agent_id req) claim e) st2)
                       | (Inr _, st2) \<Rightarrow>
                           (Inr (), wm_append_ignore (the (we_append env))
                              (retire_succeeded_event (rr_agent_id req) claim) st2)))))"

section \<open>Promotion of a notebook entry\<close>

record promote_request =
  pr_agent_id :: string
  pr_entry_id :: string
  pr_approval_token :: string

record promote_result =
  po_chunk_id :: string
  po_proposal_id :: string
  po_entry_id :: string

definition promote_requested_event :: "string \<Rightarrow> string \<Rightarrow> string \<Rightarrow> log_event" where
  "promote_requested_event agent entry proposal =
     mk_event ''watchmaster_promote_to_keep_requested''
       [(''agent_id'', PStr agent), (''tool_name'', PStr ''promote_to_keep''),
        (''event_class'', PStr ''requested''), (''approval_token_present'', PBool True),
        (''notebook_entry_id'', PStr entry), (''proposal_id'', PStr proposal)]"

definition promote_succeeded_event :: "string \<Rightarrow> string \<Rightarrow> string \<Rightarrow> string \<Rightarrow> log_event" where
  "promote_succeeded_event agent entry chunk proposal =
     mk_event ''watchmaster_promote_to_keep_succeeded''
       [(''agent_id'', PStr agent), (''tool_name'', PStr ''promote_to_keep''),
        (''event_class'', PStr ''succeeded''), (''notebook_entry_id'', PStr entry),
        (''proposal_id'', PStr proposal), (''chunk_id'', PStr chunk)]"

definition promote_failed_event ::
  "(err_link \<Rightarrow> string) \<Rightarrow> string \<Rightarrow> string \<Rightarrow> string \<Rightarrow> goerr \<Rightarrow> log_event" where
  "promote_failed_event ty agent entry proposal err =
     mk_event ''watchmaster_promote_to_keep_failed''
       [(''agent_id'', PStr agent), (''tool_name'', PStr ''promote_to_keep''),
        (''event_class'', PStr ''failed''), (''error_class'', PStr (classify_error ty err)),
        (''notebook_entry_id'', PStr entry), (''proposal_id'', PStr proposal)]"

definition notebook_promoted_event ::
  "string \<Rightarrow> string \<Rightarrow> string \<Rightarrow> notebook_proposal \<Rightarrow> int \<Rightarrow> log_event" where
  "notebook_promoted_event agent entry chunk p now =
     mk_event ''notebook_promoted_to_keep''
       [(''agent_id'', PStr agent), (''tool_name'', PStr ''promote_to_keep''),
        (''notebook_entry_id'', PStr entry), (''proposal_id'', PStr (np_proposal_id p)),
        (''chunk_id'', PStr chunk), (''subject'', PStr (np_subject p)), (''category'', PStr (np_category p)),
        (''scope'', PStr (np_scope p)), (''source_created_at'', PInt (np_source_created_at p)),
        (''proposed_at'', PInt (np_proposed_at p)), (''promoted_at'', PInt now)]"

definition promote_to_keep ::
  "'w wm_env \<Rightarrow> promote_request \<Rightarrow> spawn_claim \<Rightarrow> 'w wm_run \<Rightarrow> (goerr + promote_result) \<times> 'w wm_run" where
  "promote_to_keep env req claim st =
     (case we_ctx env of
        Some e \<Rightarrow> (Inl e, st)
      | None \<Rightarrow>
          (case validate_claim_and_deps env claim of
             Some e \<Rightarrow> (Inl e, st)
           | None \<Rightarrow>
               if we_notebook env = None then (Inl (errorf_is ErrInvalidRequest []), st)
               else if \<not> has_authority claim ''promote_to_keep'' then (Inl [Sentinel ErrUnauthorized], st)
               else if pr_entry_id req = [] then (Inl (errorf_is ErrInvalidRequest []), st)
               else if pr_approval_token req = [] then (Inl [Sentinel ErrApprovalRequired], st)
               else
                 (case wm_call (ActPromote (pr_entry_id req)) (the (we_notebook env) (pr_entry_id req)) st of
                    (Inl e, st1) \<Rightarrow> (Inl (errorf ''spawn: promote_to_keep load_proposal'' e), st1)
                  | (Inr p, st1) \<Rightarrow>
                      (let agent = pick_agent_for_bump (pr_agent_id req) claim in
                       case wm_append (the (we_append env))
                           (promote_requested_event agent (pr_entry_id req) (np_proposal_id p)) st1 of
                         (Inl e, st2) \<Rightarrow> (Inl (errorf ''spawn: keepers_log requested'' e), st2)
                       | (Inr _, st2) \<Rightarrow>
                           (let chunk = \<lparr>sr_subject = np_subject p, sr_content = np_content p,
                                  sr_embedding = np_embedding p\<rparr>
                            in case wm_call (ActStore chunk) (wc_store (the (we_client env)) chunk) st2 of
                                 (Inl e, st3) \<Rightarrow>
                                   (Inl (errorf ''spawn: promote_to_keep store'' e),
                                    wm_append_ignore (the (we_append env))
                                      (promote_failed_event (we_type_name env) agent (pr_entry_id req)
                                         (np_proposal_id p) e) st3)
                               | (Inr i, st3) \<Rightarrow>
                                   (Inr \<lparr>po_chunk_id = i, po_proposal_id = np_proposal_id p,
                                        po_entry_id = pr_entry_id req\<rparr>,
                                    wm_append_ignore (the (we_append env))
                                      (promote_succeeded_event agent (pr_entry_id req) i (np_proposal_id p))
                                      (wm_append_ignore (the (we_append env))
                                         (notebook_promoted_event agent (pr_entry_id req) i p
                                            (we_now_ms env (wr_world st3))) st3)))))))"

section \<open>Creation of a Slack app\<close>

record 'w slack_app_rpc =
  sa_ctx :: "goerr option"
  sa_secret :: "string \<Rightarrow> 'w \<Rightarrow> (goerr + unit) \<times> 'w"
  sa_create :: "string \<Rightarrow> string \<Rightarrow> string list \<Rightarrow> 'w \<Rightarrow> (goerr + string) \<times> 'w"
  sa_append :: "'w wm_append"
  sa_config_key :: string
  sa_type_name :: "err_link \<Rightarrow> string"

definition pick_agent_id :: "create_app_request \<Rightarrow> spawn_claim \<Rightarrow> string" where
  "pick_agent_id req claim = (if cr_agent_id req \<noteq> [] then cr_agent_id req else sc_agent_id claim)"

definition app_requested_event :: "create_app_request \<Rightarrow> spawn_claim \<Rightarrow> log_event" where
  "app_requested_event req claim =
     mk_event ''watchmaster_slack_app_create_requested''
       [(''agent_id'', PStr (pick_agent_id req claim)), (''app_name'', PStr (cr_app_name req)),
        (''tool_name'', PStr ''slack_app_create''), (''event_class'', PStr ''requested'')]"

definition app_succeeded_event :: "create_app_request \<Rightarrow> spawn_claim \<Rightarrow> string \<Rightarrow> log_event" where
  "app_succeeded_event req claim app =
     mk_event ''watchmaster_slack_app_create_succeeded''
       [(''agent_id'', PStr (pick_agent_id req claim)), (''app_name'', PStr (cr_app_name req)),
        (''tool_name'', PStr ''slack_app_create''), (''event_class'', PStr ''succeeded''), (''app_id'', PStr app)]"

definition app_failed_event :: "(err_link \<Rightarrow> string) \<Rightarrow> create_app_request \<Rightarrow> spawn_claim \<Rightarrow> goerr \<Rightarrow> log_event" where
  "app_failed_event ty req claim err =
     mk_event ''watchmaster_slack_app_create_failed''
       [(''agent_id'', PStr (pick_agent_id req claim)), (''app_name'', PStr (cr_app_name req)),
        (''tool_name'', PStr ''slack_app_create''), (''event_class'', PStr ''failed''),
        (''error_class'', PStr (classify_error ty err))]"

definition slack_create_app ::
  "'w slack_app_rpc \<Rightarrow> create_app_request \<Rightarrow> spawn_claim \<Rightarrow> 'w wm_run \<Rightarrow> (goerr + string) \<times> 'w wm_run" where
  "slack_create_app r req claim st =
     (case sa_ctx r of
        Some e \<Rightarrow> (Inl e, st)
      | None \<Rightarrow>
          if sc_organization_id claim = [] then (Inl (errorf_is ErrInvalidClaim []), st)
          else if \<not> has_authority claim ''slack_app_create'' then (Inl [Sentinel ErrUnauthorized], st)
          else if cr_agent_id req = [] then (Inl (errorf_is ErrInvalidRequest []), st)
          else if cr_app_name req = [] then (Inl (errorf_is ErrInvalidRequest []), st)
          else if cr_approval_token req = [] then (Inl [Sentinel ErrApprovalRequired], st)
          else
            (case wm_call (ActSecret (sa_config_key r)) (sa_secret r (sa_config_key r)) st of
               (Inl e, st1) \<Rightarrow> (Inl (errorf ''spawn: secrets'' e), st1)
             | (Inr _, st1) \<Rightarrow>
                 (case wm_append (sa_append r) (app_requested_event req claim) st1 of
                    (Inl e, st2) \<Rightarrow> (Inl (errorf ''spawn: keepers_log requested'' e), st2)
                  | (Inr _, st2) \<Rightarrow>
                      (case wm_call (ActCreateApp (cr_app_name req) (cr_app_description req) (cr_scopes req))
                          (sa_create r (cr_app_name req) (cr_app_description req) (cr_scopes req)) st2 of
                         (Inl e, st3) \<Rightarrow>
                           (Inl (errorf ''spawn: adapter create_app'' e),
                            wm_append_ignore (sa_append r) (app_failed_event (sa_type_name r) req claim e) st3)
                       | (Inr app, st3) \<Rightarrow>
                           (Inr app, wm_append_ignore (sa_append r) (app_succeeded_event req claim app) st3)))))"


section \<open>Every privileged call is granted and audited\<close>

datatype wm_op =
    OpPropose propose_spawn_request
  | OpPersonality adjust_request
  | OpLanguage adjust_request
  | OpRetire retire_request
  | OpPromote promote_request
  | OpCreateApp create_app_request

definition wm_error :: "(goerr + 'a) \<times> 's \<Rightarrow> goerr option \<times> 's" where
  "wm_error p = (case p of (Inl e, s) \<Rightarrow> (Some e, s) | (Inr _, s) \<Rightarrow> (None, s))"

definition wm_serve ::
  "'w wm_env \<Rightarrow> 'w slack_app_rpc \<Rightarrow> wm_op \<Rightarrow> spawn_claim \<Rightarrow> 'w wm_run \<Rightarrow> goerr option \<times> 'w wm_run" where
  "wm_serve env rpc op claim st =
     (case op of
        OpPropose r \<Rightarrow> wm_error (propose_spawn env r claim st)
      | OpPersonality r \<Rightarrow> wm_error (adjust_personality env r claim st)
      | OpLanguage r \<Rightarrow> wm_error (adjust_language env r claim st)
      | OpRetire r \<Rightarrow> wm_error (retire_watchkeeper env r claim st)
      | OpPromote r \<Rightarrow> wm_error (promote_to_keep env r claim st)
      | OpCreateApp r \<Rightarrow> wm_error (slack_create_app rpc r claim st))"

definition op_tool :: "wm_op \<Rightarrow> string" where
  "op_tool op =
     (case op of
        OpPropose _ \<Rightarrow> ''propose_spawn'' | OpPersonality _ \<Rightarrow> ''adjust_personality''
      | OpLanguage _ \<Rightarrow> ''adjust_language'' | OpRetire _ \<Rightarrow> ''retire_watchkeeper''
      | OpPromote _ \<Rightarrow> ''promote_to_keep'' | OpCreateApp _ \<Rightarrow> ''slack_app_create'')"

definition op_token :: "wm_op \<Rightarrow> string" where
  "op_token op =
     (case op of
        OpPropose r \<Rightarrow> ps_approval_token r | OpPersonality r \<Rightarrow> aj_approval_token r
      | OpLanguage r \<Rightarrow> aj_approval_token r | OpRetire r \<Rightarrow> rr_approval_token r
      | OpPromote r \<Rightarrow> pr_approval_token r | OpCreateApp r \<Rightarrow> cr_approval_token r)"

text \<open>The one privileged call an operation may make.\<close>

definition op_effect :: "wm_op \<Rightarrow> wm_action \<Rightarrow> bool" where
  "op_effect op act \<longleftrightarrow>
     (case op of
        OpPropose r \<Rightarrow> act = ActPutVersion (ps_agent_id r) (zero_put_version\<lparr>pv_version_no := 1,
            pv_system_prompt := ps_system_prompt r, pv_personality := ps_personality r, pv_language := ps_language r\<rparr>)
      | OpPersonality r \<Rightarrow> (\<exists>v. act = ActPutVersion (aj_agent_id r) v \<and> pv_personality v = aj_new_value r)
      | OpLanguage r \<Rightarrow> (\<exists>v. act = ActPutVersion (aj_agent_id r) v \<and> pv_language v = aj_new_value r)
      | OpRetire r \<Rightarrow> act = ActRetire (rr_agent_id r) ''retired''
      | OpPromote r \<Rightarrow> (\<exists>c. act = ActStore c)
      | OpCreateApp r \<Rightarrow> act = ActCreateApp (cr_app_name r) (cr_app_description r) (cr_scopes r))"

definition granted :: "wm_op \<Rightarrow> spawn_claim \<Rightarrow> bool" where
  "granted op claim \<longleftrightarrow>
     sc_organization_id claim \<noteq> [] \<and> sc_authority_matrix claim (op_tool op) = Some ''lead_approval'' \<and> op_token op \<noteq> []"

text \<open>A row of an operation's audit chain.\<close>

definition audit_row :: "wm_op \<Rightarrow> string \<Rightarrow> log_event \<Rightarrow> bool" where
  "audit_row op cls ev \<longleftrightarrow>
     ev_type ev = ''watchmaster_'' @ op_tool op @ ''_'' @ cls
     \<and> map_of (ev_payload ev) ''tool_name'' = Some (PStr (op_tool op))
     \<and> map_of (ev_payload ev) ''event_class'' = Some (PStr cls)"

definition is_read :: "wm_action \<Rightarrow> bool" where
  "is_read act \<longleftrightarrow> (case act of ActGetManifest _ \<Rightarrow> True | ActPromote _ \<Rightarrow> True | ActSecret _ \<Rightarrow> True | _ \<Rightarrow> False)"

definition is_append :: "wm_action \<Rightarrow> bool" where
  "is_append act \<longleftrightarrow> (case act of ActAppend _ \<Rightarrow> True | _ \<Rightarrow> False)"

text \<open>
  The calls of an operation: at most one read; the requested row; where that was accepted, the
  privileged call; and after it the rows of its outcome.
\<close>

definition audited :: "wm_op \<Rightarrow> bool \<Rightarrow> (wm_action \<times> bool) list \<Rightarrow> bool" where
  "audited op ok cs \<longleftrightarrow>
     (\<exists>reads. length reads \<le> 1 \<and> list_all (is_read \<circ> fst) reads
       \<and> (cs = reads \<and> \<not> ok
          \<or> (\<exists>ev. audit_row op ''requested'' ev
               \<and> (cs = reads @ [(ActAppend ev, False)] \<and> \<not> ok
                  \<or> (\<exists>act extra out b. op_effect op act \<and> list_all (is_append \<circ> fst) extra
                       \<and> audit_row op (if ok then ''succeeded'' else ''failed'') out
                       \<and> cs = reads @ [(ActAppend ev, True), (act, ok)] @ extra @ [(ActAppend out, b)])))))"

lemma wm_call_calls:
  "wr_calls (snd (wm_call act f st)) = wr_calls st @ [(act, \<not> isl (fst (wm_call act f st)))]"
  by (simp add: wm_call_def split: prod.split)

lemma wm_call_eq:
  "wm_call act f st = (r, st') \<Longrightarrow> wr_calls st' = wr_calls st @ [(act, \<not> isl r)]"
  using wm_call_calls [of act f st] by simp

lemma wm_append_eq: "wm_append app ev st = (r, st') \<Longrightarrow> wr_calls st' = wr_calls st @ [(ActAppend ev, \<not> isl r)]"
  unfolding wm_append_def by (rule wm_call_eq)

lemma wm_append_ignore_calls:
  "\<exists>b. wr_calls (wm_append_ignore app ev st) = wr_calls st @ [(ActAppend ev, b)]"
  unfolding wm_append_ignore_def wm_append_def using wm_call_calls by metis

lemma audited_read: "is_read act \<Longrightarrow> audited op False [(act, b)]"
  unfolding audited_def by (intro exI [of _ "[(act, b)]"]) simp

lemma audited_refused:
  "audit_row op ''requested'' ev \<Longrightarrow> list_all (is_read \<circ> fst) reads \<Longrightarrow> length reads \<le> 1
    \<Longrightarrow> audited op False (reads @ [(ActAppend ev, False)])"
  unfolding audited_def by blast

lemma audited_done:
  "audit_row op ''requested'' ev \<Longrightarrow> list_all (is_read \<circ> fst) reads \<Longrightarrow> length reads \<le> 1 \<Longrightarrow> op_effect op act
    \<Longrightarrow> list_all (is_append \<circ> fst) extra \<Longrightarrow> audit_row op (if ok then ''succeeded'' else ''failed'') out
    \<Longrightarrow> audited op ok (reads @ [(ActAppend ev, True), (act, ok)] @ extra @ [(ActAppend out, b)])"
  unfolding audited_def by blast

definition bracketed :: "wm_op \<Rightarrow> spawn_claim \<Rightarrow> 'w wm_run \<Rightarrow> goerr option \<times> 'w wm_run \<Rightarrow> bool" where
  "bracketed op claim st p \<longleftrightarrow>
     (\<exists>cs. wr_calls (snd p) = wr_calls st @ cs
       \<and> ((cs = [] \<and> fst p \<noteq> None) \<or> (granted op claim \<and> audited op (fst p = None) cs)))"

lemma bracketed_none: "bracketed op claim st (wm_error (Inl e, st))"
  by (simp add: bracketed_def wm_error_def)

text \<open>The shape all the operations have once their gates and their read are passed.\<close>

lemma bracketed_tail:
  assumes "granted op claim" "wr_calls st1 = wr_calls st @ reads" "list_all (is_read \<circ> fst) reads" "length reads \<le> 1"
    and "audit_row op ''requested'' ev" "op_effect op act"
    and "\<And>e. audit_row op ''failed'' (failed e)" "\<And>i. audit_row op ''succeeded'' (succeeded i)"
    and "\<And>i s. \<exists>extra. list_all (is_append \<circ> fst) extra \<and> wr_calls (before i s) = wr_calls s @ extra"
  shows "bracketed op claim st (wm_error
    (case wm_append app ev st1 of
       (Inl e, st2) \<Rightarrow> (Inl (wrap1 e), st2)
     | (Inr u, st2) \<Rightarrow>
         (case wm_call act f st2 of
            (Inl e, st3) \<Rightarrow> (Inl (wrap2 e), wm_append_ignore app (failed e) st3)
          | (Inr i, st3) \<Rightarrow> (Inr (res i), wm_append_ignore app (succeeded i) (before i st3)))))"
proof -
  obtain r1 st2 where app: "wm_append app ev st1 = (r1, st2)" by fastforce
  note calls2 = wm_append_eq [OF app]
  show ?thesis
  proof (cases r1)
    case (Inl e)
    with app calls2 assms(1-5) show ?thesis
      by (auto simp: bracketed_def wm_error_def intro: audited_refused)
  next
    case (Inr u)
    obtain r2 st3 where call: "wm_call act f st2 = (r2, st3)" by fastforce
    note calls3 = wm_call_eq [OF call]
    show ?thesis
    proof (cases r2)
      case (Inl e)
      obtain b where "wr_calls (wm_append_ignore app (failed e) st3) = wr_calls st3 @ [(ActAppend (failed e), b)]"
        using wm_append_ignore_calls by blast
      with audited_done [OF assms(5,3,4,6), of "[]" False "failed e" b] assms(1,2,7) app Inr call Inl calls2 calls3
      show ?thesis
        by (simp add: bracketed_def wm_error_def)
    next
      case i: (Inr i)
      obtain extra where extra: "list_all (is_append \<circ> fst) extra" "wr_calls (before i st3) = wr_calls st3 @ extra"
        using assms(9) by blast
      obtain b where "wr_calls (wm_append_ignore app (succeeded i) (before i st3))
          = wr_calls (before i st3) @ [(ActAppend (succeeded i), b)]"
        using wm_append_ignore_calls by blast
      with audited_done [OF assms(5,3,4,6) extra(1), of True "succeeded i" b] extra(2) assms(1,2,8) app Inr call i calls2 calls3
      show ?thesis
        by (simp add: bracketed_def wm_error_def)
    qed
  qed
qed

lemma bracketed_read:
  assumes "granted op claim" "wm_call act f st = (Inl e, st1)" "is_read act"
  shows "bracketed op claim st (wm_error (Inl e', st1))"
  using assms wm_call_eq [OF assms(2)] audited_read [OF assms(3)]
  by (simp add: bracketed_def wm_error_def)

lemma audit_rows:
  "audit_row (OpPropose r) ''requested'' (manifest_bump_requested_event ''watchmaster_propose_spawn_requested'' ''propose_spawn'' a c)"
  "audit_row (OpPropose r) ''succeeded'' (manifest_bump_succeeded_event ''watchmaster_propose_spawn_succeeded'' ''propose_spawn'' a c i n)"
  "audit_row (OpPropose r) ''failed'' (manifest_bump_failed_event ty ''watchmaster_propose_spawn_failed'' ''propose_spawn'' a c e)"
  "audit_row (OpPersonality q) ''requested'' (manifest_bump_requested_event ''watchmaster_adjust_personality_requested'' ''adjust_personality'' a c)"
  "audit_row (OpPersonality q) ''succeeded'' (manifest_bump_succeeded_event ''watchmaster_adjust_personality_succeeded'' ''adjust_personality'' a c i n)"
  "audit_row (OpPersonality q) ''failed'' (manifest_bump_failed_event ty ''watchmaster_adjust_personality_failed'' ''adjust_personality'' a c e)"
  "audit_row (OpLanguage q) ''requested'' (manifest_bump_requested_event ''watchmaster_adjust_language_requested'' ''adjust_language'' a c)"
  "audit_row (OpLanguage q) ''succeeded'' (manifest_bump_succeeded_event ''watchmaster_adjust_language_succeeded'' ''adjust_language'' a c i n)"
  "audit_row (OpLanguage q) ''failed'' (manifest_bump_failed_event ty ''watchmaster_adjust_language_failed'' ''adjust_language'' a c e)"
  "audit_row (OpRetire t) ''requested'' (retire_requested_event a c)"
  "audit_row (OpRetire t) ''succeeded'' (retire_succeeded_event a c)"
  "audit_row (OpRetire t) ''failed'' (retire_failed_event ty a c e)"
  "audit_row (OpPromote p) ''requested'' (promote_requested_event a en pid)"
  "audit_row (OpPromote p) ''succeeded'' (promote_succeeded_event a en ch pid)"
  "audit_row (OpPromote p) ''failed'' (promote_failed_event ty a en pid e)"
  "audit_row (OpCreateApp k) ''requested'' (app_requested_event k c)"
  "audit_row (OpCreateApp k) ''succeeded'' (app_succeeded_event k c i)"
  "audit_row (OpCreateApp k) ''failed'' (app_failed_event ty k c e)"
  by (simp_all add: audit_row_def op_tool_def manifest_bump_requested_event_def manifest_bump_succeeded_event_def
      manifest_bump_failed_event_def retire_requested_event_def retire_succeeded_event_def retire_failed_event_def
      promote_requested_event_def promote_succeeded_event_def promote_failed_event_def app_requested_event_def
      app_succeeded_event_def app_failed_event_def)

lemma validated_org: "validate_claim_and_deps env claim = None \<Longrightarrow> sc_organization_id claim \<noteq> []"
  by (simp add: validate_claim_and_deps_def split: if_splits)

lemmas granted_defs = granted_def op_tool_def op_token_def has_authority_def

lemma no_extra: "\<exists>extra. list_all (is_append \<circ> fst) extra \<and> wr_calls s = wr_calls s @ extra"
  by (intro exI [of _ "[]"]) simp

lemma one_extra: "\<exists>extra. list_all (is_append \<circ> fst) extra \<and> wr_calls (wm_append_ignore app ev s) = wr_calls s @ extra"
proof -
  obtain b where "wr_calls (wm_append_ignore app ev s) = wr_calls s @ [(ActAppend ev, b)]"
    using wm_append_ignore_calls by blast
  then show ?thesis
    by (intro exI [of _ "[(ActAppend ev, b)]"]) (simp add: is_append_def)
qed

lemma propose_bracketed: "bracketed (OpPropose r) claim st (wm_error (propose_spawn env r claim st))"
  unfolding propose_spawn_def Let_def
  by (auto simp: bracketed_none split: option.split
      intro!: bracketed_tail [where reads = "[]"] audit_rows no_extra
      simp: granted_defs validated_org op_effect_def)

lemma retire_bracketed: "bracketed (OpRetire r) claim st (wm_error (retire_watchkeeper env r claim st))"
  unfolding retire_watchkeeper_def
  by (auto simp: bracketed_none split: option.split
      intro!: bracketed_tail [where reads = "[]"] audit_rows no_extra
      simp: granted_defs validated_org op_effect_def)

lemma bump_bracketed:
  assumes "granted op claim"
    and "\<And>c. audit_row op ''requested'' (manifest_bump_requested_event (be_requested ty) (be_tool_name ty) a c)"
    and "\<And>c i n. audit_row op ''succeeded'' (manifest_bump_succeeded_event (be_succeeded ty) (be_tool_name ty) a c i n)"
    and "\<And>c t e. audit_row op ''failed'' (manifest_bump_failed_event t (be_failed ty) (be_tool_name ty) a c e)"
    and "\<And>v n s. op_effect op (ActPutVersion a ((mutate v)\<lparr>pv_version_no := n\<rparr>))
      \<and> op_effect op (ActPutVersion a ((mutate v)\<lparr>pv_version_no := n, pv_system_prompt := s\<rparr>))"
  shows "bracketed op claim st (wm_error (run_manifest_bump env claim ty a mutate st))"
proof -
  obtain r1 st1 where get: "wm_call (ActGetManifest a) (wc_get_manifest (the (we_client env)) a) st = (r1, st1)"
    by fastforce
  note calls = wm_call_eq [OF get]
  have rd: "is_read (ActGetManifest a)" by (simp add: is_read_def)
  show ?thesis
  proof (cases r1)
    case (Inl e)
    with get show ?thesis
      using bracketed_read [OF assms(1) _ rd] by (simp add: run_manifest_bump_def)
  next
    case (Inr v)
    have "list_all (is_read \<circ> fst) [(ActGetManifest a, True)]" "length [(ActGetManifest a, True)] \<le> 1"
      using rd by simp_all
    note tail = bracketed_tail [OF assms(1) _ this assms(2) _ assms(4) assms(3) no_extra]
    have calls1: "wr_calls st1 = wr_calls st @ [(ActGetManifest a, True)]"
      using calls Inr by simp
    have eff: "op_effect op (ActPutVersion a (if pv_system_prompt ((mutate v)\<lparr>pv_version_no := n\<rparr>) = []
        then (mutate v)\<lparr>pv_version_no := n, pv_system_prompt := s\<rparr> else (mutate v)\<lparr>pv_version_no := n\<rparr>))" for n s
      using assms(5) by simp
    show ?thesis
      unfolding run_manifest_bump_def Let_def get Inr prod.case sum.case by (rule tail [OF calls1 eff])
  qed
qed

lemma personality_bracketed: "bracketed (OpPersonality r) claim st (wm_error (adjust_personality env r claim st))"
  unfolding adjust_personality_def
  by (auto simp: bracketed_none split: option.split intro!: bump_bracketed audit_rows
      simp: granted_defs validated_org op_effect_def)

lemma language_bracketed: "bracketed (OpLanguage r) claim st (wm_error (adjust_language env r claim st))"
  unfolding adjust_language_def
  by (auto simp: bracketed_none split: option.split intro!: bump_bracketed audit_rows
      simp: granted_defs validated_org op_effect_def)

lemma promote_bracketed: "bracketed (OpPromote r) claim st (wm_error (promote_to_keep env r claim st))"
proof (cases "we_ctx env = None \<and> validate_claim_and_deps env claim = None \<and> we_notebook env \<noteq> None
    \<and> has_authority claim ''promote_to_keep'' \<and> pr_entry_id r \<noteq> [] \<and> pr_approval_token r \<noteq> []")
  case False
  then show ?thesis
    by (auto simp: promote_to_keep_def bracketed_none split: option.split)
next
  case True
  then have granted: "granted (OpPromote r) claim"
    by (auto simp: granted_defs dest: validated_org)
  have rd: "is_read (ActPromote (pr_entry_id r))" by (simp add: is_read_def)
  obtain nb where nb: "we_notebook env = Some nb"
    using True by blast
  obtain r1 st1 where get: "wm_call (ActPromote (pr_entry_id r)) (nb (pr_entry_id r)) st = (r1, st1)"
    by fastforce
  show ?thesis
  proof (cases r1)
    case (Inl e)
    with get True nb show ?thesis
      using bracketed_read [OF granted _ rd] by (simp add: promote_to_keep_def)
  next
    case (Inr p)
    have calls: "wr_calls st1 = wr_calls st @ [(ActPromote (pr_entry_id r), True)]"
      using wm_call_eq [OF get] Inr by simp
    have eff: "op_effect (OpPromote r) (ActStore c)" for c
      by (simp add: op_effect_def)
    have reads: "list_all (is_read \<circ> fst) [(ActPromote (pr_entry_id r), True)]"
        "length [(ActPromote (pr_entry_id r), True)] \<le> 1"
      using rd by simp_all
    show ?thesis
      unfolding promote_to_keep_def Let_def using True get Inr nb
      by simp
        (rule bracketed_tail [OF granted calls reads _ eff _ _ one_extra], (rule audit_rows)+)
  qed
qed

lemma create_app_bracketed: "bracketed (OpCreateApp r) claim st (wm_error (slack_create_app rpc r claim st))"
proof (cases "sa_ctx rpc = None \<and> sc_organization_id claim \<noteq> [] \<and> has_authority claim ''slack_app_create''
    \<and> cr_agent_id r \<noteq> [] \<and> cr_app_name r \<noteq> [] \<and> cr_approval_token r \<noteq> []")
  case False
  then show ?thesis
    by (auto simp: slack_create_app_def bracketed_none split: option.split)
next
  case True
  then have granted: "granted (OpCreateApp r) claim"
    by (simp add: granted_defs)
  let ?rd = "ActSecret (sa_config_key rpc)"
  have rd: "is_read ?rd" by (simp add: is_read_def)
  obtain r1 st1 where get: "wm_call ?rd (sa_secret rpc (sa_config_key rpc)) st = (r1, st1)"
    by fastforce
  show ?thesis
  proof (cases r1)
    case (Inl e)
    with get True show ?thesis
      using bracketed_read [OF granted _ rd] by (simp add: slack_create_app_def)
  next
    case (Inr p)
    have calls: "wr_calls st1 = wr_calls st @ [(?rd, True)]"
      using wm_call_eq [OF get] Inr by simp
    have eff: "op_effect (OpCreateApp r) (ActCreateApp (cr_app_name r) (cr_app_description r) (cr_scopes r))"
      by (simp add: op_effect_def)
    have reads: "list_all (is_read \<circ> fst) [(?rd, True)]" "length [(?rd, True)] \<le> 1"
      using rd by simp_all
    show ?thesis
      using True get Inr
      by (simp add: slack_create_app_def)
        (rule bracketed_tail [OF granted calls reads _ eff _ _ no_extra], (rule audit_rows)+)
  qed
qed

text \<open>
  C3: nothing privileged happens without a grant and a trace. Whatever the outside answers, a tool
  makes no call at all and fails, or the claim has an organization, the tool's authority is
  \<open>lead_approval\<close> and the request has an approval token, and the calls are: at most one read, the
  requested row, and only where that row was accepted the one privileged call, of what was asked for,
  followed by a row that says whether it succeeded; and the tool succeeds exactly when that call did.
\<close>

theorem privileged_calls_granted_and_audited:
  "\<exists>cs. wr_calls (snd (wm_serve env rpc op claim st)) = wr_calls st @ cs
    \<and> ((cs = [] \<and> fst (wm_serve env rpc op claim st) \<noteq> None)
       \<or> (granted op claim \<and> audited op (fst (wm_serve env rpc op claim st) = None) cs))"
  unfolding bracketed_def [symmetric]
  by (cases op) (simp_all add: wm_serve_def propose_bracketed personality_bracketed language_bracketed
      retire_bracketed promote_bracketed create_app_bracketed)

end
