(* ===== verification/KeepServed.thy ===== *)
theory KeepServed
  imports KeepRoundtrip KeepersLog
begin

text \<open>
  The client in front of the server: a transport that hands each call to its handler, as a caller
  whose token stands for one claim, without faults; and the log writer
  (\<^verbatim>\<open>core/pkg/keeperslog/writer.go\<close>, \<^verbatim>\<open>context.go\<close>) that the components append through.
\<close>

section \<open>A call that reaches its handler\<close>

text \<open>The body of an error is an envelope, and an empty body does not decode.\<close>

definition keep_answer :: "'o http_response \<Rightarrow> 'o http_answer" where
  "keep_answer r =
     (case r of
        RespError status code _ \<Rightarrow> \<lparr>ha_status = status, ha_code = code, ha_out = Inl [Text ''envelope'']\<rparr>
      | RespJSON status x \<Rightarrow> \<lparr>ha_status = status, ha_code = [], ha_out = Inr x\<rparr>
      | RespNoContent \<Rightarrow> \<lparr>ha_status = 204, ha_code = [], ha_out = Inl [Text ''EOF'']\<rparr>)"

definition served_request :: "keep_claim \<Rightarrow> string \<Rightarrow> 'b option \<Rightarrow> 'b keep_request" where
  "served_request c path body =
     \<lparr>rq_claim = Some c, rq_content_type = ''application/json'',
      rq_body = (case body of None \<Rightarrow> DecodeEOF | Some b \<Rightarrow> DecodeOk b), rq_path = path,
      rq_query = (\<lambda>_. []), rq_faults = (\<lambda>_. None)\<rparr>"

definition keep_transport ::
  "keep_cfg \<Rightarrow> keep_claim \<Rightarrow> string \<Rightarrow> ('b, 'o) handler \<Rightarrow> ('b, 'o, keep_db) transport" where
  "keep_transport cfg c path h =
     \<lparr>tp_marshal = (\<lambda>_. None),
      tp_send = (\<lambda>verb url body token db.
        case h cfg (served_request c path body) db of (r, db') \<Rightarrow> (Inr (keep_answer r), db'))\<rparr>"

text \<open>A call over it either stops before the exchange, whatever the tables are, or is the handler's.\<close>

definition call_result :: "'o http_response \<Rightarrow> goerr + 'o" where
  "call_result r =
     (let a = keep_answer r in
      if 200 \<le> ha_status a \<and> ha_status a < 300 then
        (case ha_out a of Inl e \<Rightarrow> Inl (errorf ''keepclient: decode response'' e) | Inr x \<Rightarrow> Inr x)
      else Inl (server_error (ha_status a) (ha_code a)))"

lemma client_send_served:
  "client_send (keep_transport cfg c path h) verb url body token db
     = (case h cfg (served_request c path body) db of (r, d) \<Rightarrow>
          (let a = keep_answer r in if 200 \<le> ha_status a \<and> ha_status a < 300 then Inr a
           else Inl (server_error (ha_status a) (ha_code a)), d))"
  by (simp add: client_send_def keep_transport_def Let_def split: prod.split)

lemma served_marshal [simp]: "tp_marshal (keep_transport cfg c path h) b = None"
  by (simp add: keep_transport_def)

lemma client_do_served:
  obtains (stopped) e where "\<And>db. client_do cl (keep_transport cfg c path h) verb url body db = (Inl e, db)"
  | (sent) "\<And>db. client_do cl (keep_transport cfg c path h) verb url body db
      = (case h cfg (served_request c path body) db of (r, d) \<Rightarrow> (call_result r, d))"
proof (cases "requires_auth url \<and> (kcl_token_source cl = None \<or> (\<exists>e. kcl_token_source cl = Some (Inl e)))
    \<or> kcl_join_url cl url \<noteq> None \<or> kcl_new_request cl url \<noteq> None")
  case True
  have "\<exists>e. \<forall>db. client_exchange cl (keep_transport cfg c path h) verb url body db = (Inl e, db)"
    using True
    by (cases "kcl_token_source cl"; cases "kcl_join_url cl url"; cases "kcl_new_request cl url"; cases "requires_auth url";
        cases body) (auto simp: client_exchange_def keep_transport_def)
  then obtain e where "\<And>db. client_exchange cl (keep_transport cfg c path h) verb url body db = (Inl e, db)"
    by blast
  then show thesis
    by (intro stopped [of e]) (simp add: client_do_def)
next
  case False
  have "\<exists>token. \<forall>db. client_exchange cl (keep_transport cfg c path h) verb url body db
      = client_send (keep_transport cfg c path h) verb url body token db"
  proof (cases "requires_auth url")
    case True
    with False obtain a where a: "kcl_token_source cl = Some a" "\<forall>e. a \<noteq> Inl e"
      by (cases "kcl_token_source cl") auto
    then obtain t where "kcl_token_source cl = Some (Inr t)"
      by (cases a) auto
    with True False show ?thesis
      by (intro exI [of _ "Some t"]) (cases body; simp add: client_exchange_def)
  next
    case False': False
    with False show ?thesis
      by (intro exI [of _ None]) (cases body; simp add: client_exchange_def)
  qed
  then obtain token where "\<And>db. client_exchange cl (keep_transport cfg c path h) verb url body db
      = client_send (keep_transport cfg c path h) verb url body token db"
    by blast
  then show thesis
    by (intro sent) (simp add: client_do_def client_send_served call_result_def Let_def split: prod.split sum.split)
qed

lemma call_result_ok: "call_result r = Inr x \<longleftrightarrow> (\<exists>status. r = RespJSON status x \<and> 200 \<le> status \<and> status < 300)"
  by (cases r) (auto simp: call_result_def keep_answer_def Let_def split: sum.splits)

lemma client_do_ok:
  assumes "client_do cl (keep_transport cfg c path h) verb url body db = (Inr x, db')"
  obtains status where "h cfg (served_request c path body) db = (RespJSON status x, db')"
  using assms
  by (cases rule: client_do_served [of cl cfg c path h verb url body])
    (auto simp: call_result_ok split: prod.splits)

lemma client_do_world:
  "snd (client_do cl (keep_transport cfg c path h) verb url body db)
     \<in> {db, snd (h cfg (served_request c path body) db)}"
  by (cases rule: client_do_served [of cl cfg c path h verb url body]) (auto split: prod.splits)

text \<open>Tables in which the handler gives the same answer give the caller the same result.\<close>

lemma client_do_same:
  assumes "fst (h cfg (served_request c path body) db) = fst (h cfg (served_request c path body) db2)"
  shows "fst (client_do cl (keep_transport cfg c path h) verb url body db)
       = fst (client_do cl (keep_transport cfg c path h) verb url body db2)"
  using assms
  by (cases rule: client_do_served [of cl cfg c path h verb url body]) (auto split: prod.splits)

text \<open>An answer 200 comes back as its value, wherever a call of the same path came back before.\<close>

lemma client_do_again:
  assumes "client_do cl (keep_transport cfg c path h) verb url body db = (Inr x, d)"
    and "h cfg (served_request c path body) db2 = (RespJSON 200 y, d2)"
  shows "client_do cl (keep_transport cfg c path h) verb url body db2 = (Inr y, d2)"
  using assms
  by (cases rule: client_do_served [of cl cfg c path h verb url body])
    (auto simp: call_result_ok split: prod.splits)

definition served_get_manifest ::
  "keep_cfg \<Rightarrow> keep_client \<Rightarrow> keep_claim \<Rightarrow> string \<Rightarrow> keep_db \<Rightarrow> (goerr + manifest_version) \<times> keep_db" where
  "served_get_manifest cfg cl c m = client_get_manifest cl (keep_transport cfg c m handle_get_manifest) m"

definition served_put_version ::
  "keep_cfg \<Rightarrow> keep_client \<Rightarrow> keep_claim \<Rightarrow> string \<Rightarrow> put_version_request \<Rightarrow> keep_db \<Rightarrow> (goerr + string) \<times> keep_db" where
  "served_put_version cfg cl c m = client_put_manifest_version cl (keep_transport cfg c m handle_put_manifest_version) m"

definition served_log_append ::
  "keep_cfg \<Rightarrow> keep_client \<Rightarrow> keep_claim \<Rightarrow> log_append_request \<Rightarrow> keep_db \<Rightarrow> (goerr + string) \<times> keep_db" where
  "served_log_append cfg cl c = client_log_append cl (keep_transport cfg c [] handle_log_append)"

definition served_log_tail ::
  "keep_cfg \<Rightarrow> keep_client \<Rightarrow> keep_claim \<Rightarrow> string \<Rightarrow> int \<Rightarrow> keep_db \<Rightarrow> (goerr + log_row list) \<times> keep_db" where
  "served_log_tail cfg cl c limit_text =
     client_log_tail cl (keep_transport cfg c []
       (\<lambda>cfg rq. handle_log_tail cfg (rq\<lparr>rq_query := (\<lambda>k. if k = ''limit'' then limit_text else [])\<rparr>)))"

definition served_list_watchkeepers ::
  "keep_cfg \<Rightarrow> keep_client \<Rightarrow> keep_claim \<Rightarrow> string \<Rightarrow> int \<Rightarrow> keep_db \<Rightarrow> (goerr + watchkeeper_row list) \<times> keep_db" where
  "served_list_watchkeepers cfg cl c status limit =
     client_list_watchkeepers cl (keep_transport cfg c []
       (\<lambda>cfg rq. handle_list_watchkeepers cfg (rq\<lparr>rq_query := (\<lambda>k. if k = ''status'' then status
          else if k = ''limit'' then (if limit > 0 then kcl_itoa cl limit else []) else [])\<rparr>))) status limit"

text \<open>
  C17: what is put is what is read. After a client has put a version, a client of any caller of the
  same organization, its token source in place, reads exactly that version when its number is above
  those the manifest had: its id, its number and each of its fields as the request had it, empty ones
  included. The server also accepts a number below the highest; then the read goes on giving the version
  that it gave before.
\<close>

theorem put_then_get_roundtrip:
  assumes "served_put_version cfg cl c m req db = (Inr i, db')" "dc_uuid cfg m = Some mm"
    and "kc_organization_id c' = kc_organization_id c" "valid_scope (kc_scope c')"
    and "kcl_token_source cl = Some (Inr token)"
    and "kcl_join_url cl (''/v1/manifests/'' @ kcl_path_escape cl m) = None"
    and "kcl_new_request cl (''/v1/manifests/'' @ kcl_path_escape cl m) = None"
  shows "\<exists>v. served_get_manifest cfg cl c' m db' = (Inr v, db')
    \<and> (if \<forall>w \<in> set (kd_versions db). mv_manifest_id w = mm \<longrightarrow> mv_version_no w < pv_version_no req
       then version_matches cfg i req v
       else served_get_manifest cfg cl c' m db = (Inr v, db))"
proof -
  let ?rq = "served_request c' m None :: unit keep_request"
  have "m \<noteq> []" and "\<exists>st. handle_put_manifest_version cfg (served_request c m (Some req)) db = (RespJSON st i, db')"
    using assms(1)
    by (auto simp: served_put_version_def client_put_manifest_version_def client_put_version_ok_def
        split: if_splits elim: client_do_ok)
  then obtain st where put: "handle_put_manifest_version cfg (served_request c m (Some req)) db = (RespJSON st i, db')"
    by blast
  have served: "served_get_manifest cfg cl c' m d = (Inr v, d)" if "handle_get_manifest cfg ?rq d = (RespJSON 200 v, d)" for d v
    using that assms(5-7) \<open>m \<noteq> []\<close>
    by (simp add: served_get_manifest_def client_get_manifest_def client_do_def client_exchange_def client_send_served
        keep_answer_def)
  show ?thesis
  proof (cases "\<forall>w \<in> set (kd_versions db). mv_manifest_id w = mm \<longrightarrow> mv_version_no w < pv_version_no req")
    case True
    then obtain v where "handle_get_manifest cfg ?rq db' = (RespJSON 200 v, db')" "version_matches cfg i req v"
      using put_then_get [OF put, of c req mm ?rq c'] assms(2-4) by (auto simp: served_request_def)
    with True served show ?thesis
      by auto
  next
    case False
    then obtain w where "w \<in> set (kd_versions db)" "mv_manifest_id w = mm" "pv_version_no req \<le> mv_version_no w"
      by auto
    then obtain v where "handle_get_manifest cfg ?rq db' = (RespJSON 200 v, db')"
      "handle_get_manifest cfg ?rq db = (RespJSON 200 v, db)"
      using put_older_then_get [OF put, of c req mm w ?rq c'] assms(2-4) by (auto simp: served_request_def)
    with False served show ?thesis
      by auto
  qed
qed

section \<open>The log writer\<close>

text \<open>
  The envelope of a row: its id, its time, what caused it, the span of the context, and the payload
  under \<open>data\<close>. \<open>lw_marshal\<close> is its JSON; identifiers and clock are drawn from the world.
\<close>

record log_envelope =
  en_event_id :: string
  en_timestamp :: string
  en_causation_id :: "string option"
  en_span :: "(string \<times> string) option"
  en_data :: "(string \<times> pval) list option"

record writer_event =
  le_event_type :: string
  le_causation_id :: string
  le_payload :: "(string \<times> pval) list option"

record log_context =
  lc_correlation_id :: "string option"
  lc_span :: "(string \<times> string) option"

record 'w log_writer =
  lw_log_append :: "log_append_request \<Rightarrow> 'w \<Rightarrow> (goerr + string) \<times> 'w"
  lw_correlation_gen :: "'w \<Rightarrow> goerr + string"
  lw_event_id_gen :: "'w \<Rightarrow> goerr + string"
  lw_clock :: "'w \<Rightarrow> string"
  lw_marshal :: "log_envelope \<Rightarrow> goerr + string"

abbreviation ErrInvalidEvent :: string where "ErrInvalidEvent \<equiv> ''keeperslog: invalid event''"

definition context_with_correlation_id :: "log_context \<Rightarrow> string \<Rightarrow> log_context" where
  "context_with_correlation_id ctx i = (if i = [] then ctx else ctx\<lparr>lc_correlation_id := Some i\<rparr>)"

definition correlation_id_from_context :: "log_context \<Rightarrow> string option" where
  "correlation_id_from_context ctx =
     (case lc_correlation_id ctx of None \<Rightarrow> None | Some i \<Rightarrow> if i = [] then None else Some i)"

definition build_payload :: "'w log_writer \<Rightarrow> log_context \<Rightarrow> string \<Rightarrow> writer_event \<Rightarrow> 'w \<Rightarrow> goerr + string" where
  "build_payload W ctx i ev w =
     (case lw_marshal W \<lparr>en_event_id = i, en_timestamp = lw_clock W w,
          en_causation_id = (if le_causation_id ev = [] then None else Some (le_causation_id ev)),
          en_span = lc_span ctx, en_data = le_payload ev\<rparr> of
        Inl e \<Rightarrow> Inl (errorf ''keeperslog: marshal payload'' e)
      | Inr p \<Rightarrow> Inr p)"

definition writer_append :: "'w log_writer \<Rightarrow> log_context \<Rightarrow> writer_event \<Rightarrow> 'w \<Rightarrow> (goerr + string) \<times> 'w" where
  "writer_append W ctx ev w =
     (if le_event_type ev = [] then (Inl [Sentinel ErrInvalidEvent], w)
      else case (case correlation_id_from_context ctx of
                   Some i \<Rightarrow> Inr i
                 | None \<Rightarrow> (case lw_correlation_gen W w of
                             Inl e \<Rightarrow> Inl (errorf ''keeperslog: generate correlation id'' e) | Inr i \<Rightarrow> Inr i)) of
          Inl e \<Rightarrow> (Inl e, w)
        | Inr correlation \<Rightarrow>
            (case lw_event_id_gen W w of
               Inl e \<Rightarrow> (Inl (errorf ''keeperslog: generate event id'' e), w)
             | Inr i \<Rightarrow>
                 (case build_payload W ctx i ev w of
                    Inl e \<Rightarrow> (Inl e, w)
                  | Inr p \<Rightarrow>
                      (case lw_log_append W \<lparr>la_event_type = le_event_type ev, la_correlation_id = correlation,
                           la_payload = p\<rparr> w of
                         (Inl e, w') \<Rightarrow> (Inl (errorf ''keeperslog: append'' e), w')
                       | (Inr row, w') \<Rightarrow> (Inr row, w')))))"

end
