(* ===== verification/WatchmasterKeep.thy ===== *)
theory WatchmasterKeep
  imports Watchmaster KeepServed
begin

text \<open>
  The Watchmaster's manifest tools on the Keep: what they rely on is the interface of a manifest store,
  and the client in front of the server, with the log writer on the same tables, provides it.
\<close>

section \<open>The interface\<close>

text \<open>
  Reading changes nothing, appending to the log changes no manifest, and after a version above the
  latest one was put, the latest one is what was put.
\<close>

locale manifest_store =
  fixes get_version :: "string \<Rightarrow> 'w \<Rightarrow> (goerr + manifest_version) \<times> 'w"
    and put_version :: "string \<Rightarrow> put_version_request \<Rightarrow> 'w \<Rightarrow> (goerr + string) \<times> 'w"
    and append_row :: "log_event \<Rightarrow> 'w \<Rightarrow> (goerr + unit) \<times> 'w"
    and stored :: "string \<Rightarrow> put_version_request \<Rightarrow> manifest_version \<Rightarrow> bool"
  assumes get_keeps: "snd (get_version m w) = w"
    and append_keeps: "fst (get_version m (snd (append_row ev w))) = fst (get_version m w)"
    and put_get: "fst (get_version m w) = Inr v \<Longrightarrow> vj_version_no v < pv_version_no req
      \<Longrightarrow> put_version m req w = (Inr i, w')
      \<Longrightarrow> \<exists>v'. fst (get_version m w') = Inr v' \<and> stored i req v' \<and> vj_manifest_id v' = vj_manifest_id v"
begin

definition store_env :: "'w wm_env \<Rightarrow> bool" where
  "store_env env \<longleftrightarrow>
     (\<exists>cl. we_client env = Some cl \<and> wc_get_manifest cl = get_version \<and> wc_put_version cl = put_version
       \<and> we_append env = Some append_row)"

lemma append_world:
  "wm_append append_row ev st = (r, st') \<Longrightarrow> fst (get_version m (wr_world st')) = fst (get_version m (wr_world st))"
  using append_keeps [of m ev "wr_world st"] by (auto simp: wm_append_def wm_call_def split: prod.splits)

lemma append_ignore_world:
  "fst (get_version m (wr_world (wm_append_ignore append_row ev st))) = fst (get_version m (wr_world st))"
  unfolding wm_append_ignore_def by (cases "wm_append append_row ev st") (simp add: append_world)

lemma bump_stores:
  assumes "store_env env" "run_manifest_bump env claim types m mutate st = (Inr res, st')"
    and "fst (get_version m (wr_world st)) = Inr v" "is_int64 (vj_version_no v + 1)"
    and "pv_system_prompt (mutate v) = vj_system_prompt v"
  shows "mb_version_no res = vj_version_no v + 1
    \<and> (\<exists>v'. fst (get_version m (wr_world st')) = Inr v' \<and> vj_manifest_id v' = vj_manifest_id v
        \<and> stored (mb_version_id res) ((mutate v)\<lparr>pv_version_no := vj_version_no v + 1\<rparr>) v')"
proof -
  let ?req = "(mutate v)\<lparr>pv_version_no := vj_version_no v + 1\<rparr>"
  obtain cl where cl: "we_client env = Some cl" "wc_get_manifest cl = get_version" "wc_put_version cl = put_version"
    "we_append env = Some append_row"
    using assms(1) by (auto simp: store_env_def)
  have get: "wm_call (ActGetManifest m) (get_version m) st = (Inr v, \<lparr>wr_world = wr_world st,
      wr_calls = wr_calls st @ [(ActGetManifest m, True)]\<rparr>)"
    using assms(3) get_keeps [of m "wr_world st"]
    by (cases "get_version m (wr_world st)") (simp add: wm_call_def)
  have same: "(if pv_system_prompt ?req = [] then ?req\<lparr>pv_system_prompt := vj_system_prompt v\<rparr> else ?req) = ?req"
    using assms(5) by (cases "mutate v") simp
  obtain ev st2 where app: "wm_append append_row ev \<lparr>wr_world = wr_world st,
      wr_calls = wr_calls st @ [(ActGetManifest m, True)]\<rparr> = (Inr (), st2)"
    and rest: "(case wm_call (ActPutVersion m ?req) (put_version m ?req) st2 of
        (Inl e, st3) \<Rightarrow> (Inl (errorf (''spawn: '' @ be_tool_name types @ '' put_manifest_version'') e),
           wm_append_ignore append_row (manifest_bump_failed_event (we_type_name env) (be_failed types)
             (be_tool_name types) m claim e) st3)
      | (Inr i, st3) \<Rightarrow> (Inr \<lparr>mb_version_id = i, mb_version_no = pv_version_no ?req\<rparr>,
           wm_append_ignore append_row (manifest_bump_succeeded_event (be_succeeded types) (be_tool_name types) m claim i
             (pv_version_no ?req)) st3)) = (Inr res, st')"
    using assms(2,4) unfolding run_manifest_bump_def cl option.sel get Let_def prod.case sum.case
      wrap64_id [OF assms(4)] same
    by (auto split: prod.splits sum.splits)
  have before: "fst (get_version m (wr_world st2)) = Inr v"
    using append_world [OF app, of m] assms(3) by simp
  obtain i st3 ev2 where put: "wm_call (ActPutVersion m ?req) (put_version m ?req) st2 = (Inr i, st3)"
    and fin: "res = \<lparr>mb_version_id = i, mb_version_no = pv_version_no ?req\<rparr>" "st' = wm_append_ignore append_row ev2 st3"
    using rest by (auto split: prod.splits sum.splits)
  from put have "put_version m ?req (wr_world st2) = (Inr i, wr_world st3)"
    by (auto simp: wm_call_def split: prod.splits)
  from put_get [OF before _ this] append_ignore_world fin show ?thesis
    by auto
qed

end

section \<open>The Keep provides it\<close>

definition served_writer :: "keep_cfg \<Rightarrow> keep_client \<Rightarrow> keep_claim \<Rightarrow> keep_db log_writer \<Rightarrow> keep_db log_writer" where
  "served_writer cfg cl c W = W\<lparr>lw_log_append := served_log_append cfg cl c\<rparr>"

definition writer_row :: "'w log_writer \<Rightarrow> log_context \<Rightarrow> 'w wm_append" where
  "writer_row W ctx ev w =
     (case writer_append W ctx \<lparr>le_event_type = ev_type ev, le_causation_id = [], le_payload = Some (ev_payload ev)\<rparr> w of
        (Inl e, w') \<Rightarrow> (Inl e, w')
      | (Inr _, w') \<Rightarrow> (Inr (), w'))"

lemma get_manifest_same:
  assumes "kd_manifests d = kd_manifests db" "kd_versions d = kd_versions db"
  shows "fst (handle_get_manifest cfg rq d) = fst (handle_get_manifest cfg rq db)"
proof -
  define sel where "sel m t = fst (select_latest_version cfg m t db)" for m t
  have "fst (select_latest_version cfg m t d) = sel m t" for m t
    using assms by (auto simp: sel_def select_latest_version_def version_visible_def [abs_def]
        split: sum.split option.split)
  then have eqs: "select_latest_version cfg m t d = (sel m t, d)" "select_latest_version cfg m t db = (sel m t, db)" for m t
    by (simp_all add: prod_eq_iff sel_def)
  have "\<exists>r. with_scope f c (stmt_at f 0 (select_latest_version cfg m)) d = (r, d)
      \<and> with_scope f c (stmt_at f 0 (select_latest_version cfg m)) db = (r, db)" for f c m
  proof (cases "role_for_scope (kc_scope c)")
    case (Inr role)
    obtain r where "sel m \<lparr>ss_role = role, ss_scope = kc_scope c, ss_org = kc_organization_id c\<rparr> = r" by blast
    with Inr show ?thesis
      by (cases r; cases "f 5"; cases "f 4"; cases "List.find (\<lambda>n. f n \<noteq> None) [0, 1, 2, 3]")
        (simp_all add: with_scope_def stmt_at_def eqs)
  qed (simp add: with_scope_def)
  then obtain g where g: "with_scope f c (stmt_at f 0 (select_latest_version cfg m)) d = (g f c m, d)"
    "with_scope f c (stmt_at f 0 (select_latest_version cfg m)) db = (g f c m, db)" for f c m
    by metis
  show ?thesis
    unfolding handle_get_manifest_def sum_pair_case g by (simp split: option.split)
qed

lemma get_manifest_latest:
  assumes "handle_get_manifest cfg (served_request c path None) db = (RespJSON st v, d)"
  obtains m r where "st = 200" "d = db" "valid_scope (kc_scope c)" "dc_uuid cfg path = Some m"
    "v = manifest_version_response cfg r" "mv_manifest_id r = m"
    "\<forall>x \<in> set (kd_versions db). mv_manifest_id x = m \<longrightarrow> mv_version_no x \<le> mv_version_no r"
proof -
  obtain r where r: "with_scope (\<lambda>_. None) c (stmt_at (\<lambda>_. None) 0 (select_latest_version cfg path)) db = (Inr r, d)"
    "st = 200" "v = manifest_version_response cfg r"
    using assms by (auto simp: handle_get_manifest_def served_request_def write_error_def
        split: if_splits sum.splits db_error.splits prod.splits)
  obtain s where sel: "select_latest_version cfg path s db = (Inr r, d)"
    using r(1) by (rule scoped_stmt) (rule that)
  then obtain m gorg where p: "uuid_param cfg path = Inr m" "session_org cfg s = Inr gorg"
    by (cases "uuid_param cfg path"; cases "session_org cfg s") (simp_all add: select_latest_version_def)
  let ?vs = "filter (\<lambda>v. mv_manifest_id v = m \<and> version_visible gorg db v) (kd_versions db)"
  have m: "uuid_param cfg path = Inr m" "foldl newer None ?vs = Some r" "d = db"
    using sel p by (cases "foldl newer None ?vs"; simp add: select_latest_version_def)+
  have "mv_manifest_id r = m" "version_visible gorg db r"
    using foldl_newer_in [OF m(2)] by auto
  moreover from this have "version_visible gorg db x" if "mv_manifest_id x = m" for x
    using that by (simp add: version_visible_def)
  ultimately show ?thesis
    using that [of m r] r(2,3) m scoped_valid [OF r(1)] foldl_newer_max [OF m(2)]
    by (auto simp: uuid_param_def split: option.splits)
qed

lemma insert_log_row:
  assumes "insert_log cfg ev corr wk hu p s db = (Inr i, db')"
  obtains row where "db' = db\<lparr>kd_log := kd_log db @ [row], kd_writes := Suc (kd_writes db)\<rparr>"
    "kl_event_type row = ev" "dc_jsonb cfg p = Some (kl_payload row)"
    "uuid_param_opt cfg corr = Inr (kl_correlation_id row)"
    "uuid_param_opt cfg wk = Inr (kl_actor_watchkeeper_id row)" "uuid_param_opt cfg hu = Inr (kl_actor_human_id row)"
    "kl_created_at row = dc_now cfg (kd_writes db)"
proof -
  obtain c w h t where parts: "uuid_param_opt cfg corr = Inr c" "uuid_param_opt cfg wk = Inr w"
    "uuid_param_opt cfg hu = Inr h" "dc_jsonb cfg p = Some t"
    using assms by (auto simp: insert_log_def Let_def split: sum.splits option.splits)
  let ?row = "\<lparr>kl_id = dc_gen cfg (kd_writes db), kl_event_type = ev, kl_correlation_id = c,
    kl_actor_watchkeeper_id = w, kl_actor_human_id = h, kl_payload = t, kl_created_at = dc_now cfg (kd_writes db)\<rparr>"
  have "db' = db\<lparr>kd_log := kd_log db @ [?row], kd_writes := Suc (kd_writes db)\<rparr>"
    using assms parts by (simp add: insert_log_def Let_def split: if_splits)
  with parts show thesis
    by (intro that [of ?row]) simp_all
qed

lemma handle_log_append_row:
  "handle_log_append cfg rq db = (r, db') \<Longrightarrow>
    db' = db \<or> (\<exists>row. db' = db\<lparr>kd_log := kd_log db @ [row], kd_writes := Suc (kd_writes db)\<rparr>)"
  by (auto simp: handle_log_append_def Let_def split: option.splits sum.splits prod.splits if_splits
      dest: scoped_error elim!: scoped_stmt insert_log_row)

lemma log_append_keeps_manifests:
  "kd_manifests (snd (served_log_append cfg cl c rq db)) = kd_manifests db
    \<and> kd_versions (snd (served_log_append cfg cl c rq db)) = kd_versions db"
proof -
  have "kd_manifests (snd (handle_log_append cfg q db)) = kd_manifests db
      \<and> kd_versions (snd (handle_log_append cfg q db)) = kd_versions db" for q
    by (cases "handle_log_append cfg q db") (auto dest: handle_log_append_row)
  then show ?thesis
    using client_do_world [of cl cfg c "[]" handle_log_append "''POST''" "''/v1/keepers-log''" "Some rq" db]
    by (auto simp: served_log_append_def client_log_append_def)
qed

lemma writer_row_keeps:
  "kd_manifests (snd (writer_row (served_writer cfg cl c W) ctx ev db)) = kd_manifests db
    \<and> kd_versions (snd (writer_row (served_writer cfg cl c W) ctx ev db)) = kd_versions db"
proof -
  have "snd (writer_append (served_writer cfg cl c W) ctx e db) = db
      \<or> (\<exists>rq. snd (writer_append (served_writer cfg cl c W) ctx e db) = snd (served_log_append cfg cl c rq db))" for e
    by (auto simp: writer_append_def served_writer_def split: sum.split option.split prod.split)
      (metis snd_conv)+
  then have "snd (writer_row (served_writer cfg cl c W) ctx ev db) = db
      \<or> (\<exists>rq. snd (writer_row (served_writer cfg cl c W) ctx ev db) = snd (served_log_append cfg cl c rq db))"
    unfolding writer_row_def by (auto split: sum.split prod.split) (metis snd_conv)+
  then show ?thesis
    using log_append_keeps_manifests by metis
qed

interpretation keep: manifest_store "served_get_manifest cfg cl c" "served_put_version cfg cl c"
  "writer_row (served_writer cfg cl c W) ctx" "version_matches cfg"
proof
  fix m w
  show "snd (served_get_manifest cfg cl c m w) = w"
    using client_do_world [of cl cfg c m handle_get_manifest "''GET''" "''/v1/manifests/'' @ kcl_path_escape cl m" None w]
    by (auto simp: served_get_manifest_def client_get_manifest_def handle_get_manifest_keeps)
next
  fix m ev w
  have "fst (handle_get_manifest cfg (served_request c m None) (snd (writer_row (served_writer cfg cl c W) ctx ev w)))
      = fst (handle_get_manifest cfg (served_request c m None) w)"
    using writer_row_keeps by (intro get_manifest_same) blast+
  then show "fst (served_get_manifest cfg cl c m (snd (writer_row (served_writer cfg cl c W) ctx ev w)))
      = fst (served_get_manifest cfg cl c m w)"
    by (auto simp: served_get_manifest_def client_get_manifest_def intro!: client_do_same)
next
  fix m w v req i w'
  assume get: "fst (served_get_manifest cfg cl c m w) = Inr v" and v: "vj_version_no v < pv_version_no req"
    and put: "served_put_version cfg cl c m req w = (Inr i, w')"
  let ?url = "''/v1/manifests/'' @ kcl_path_escape cl m"
  obtain d where call: "client_do cl (keep_transport cfg c m handle_get_manifest) ''GET'' ?url None w = (Inr v, d)"
    using get by (auto simp: served_get_manifest_def client_get_manifest_def prod_eq_iff split: if_splits)
  then obtain st where "handle_get_manifest cfg (served_request c m None) w = (RespJSON st v, d)"
    by (rule client_do_ok)
  then obtain mm r where r: "valid_scope (kc_scope c)" "dc_uuid cfg m = Some mm"
    "v = manifest_version_response cfg r" "mv_manifest_id r = mm"
    "\<forall>x \<in> set (kd_versions w). mv_manifest_id x = mm \<longrightarrow> mv_version_no x \<le> mv_version_no r"
    by (rule get_manifest_latest)
  obtain st2 where handled: "handle_put_manifest_version cfg (served_request c m (Some req)) w = (RespJSON st2 i, w')"
    using put by (auto simp: served_put_version_def client_put_manifest_version_def split: if_splits elim: client_do_ok)
  have "\<forall>x \<in> set (kd_versions w). mv_manifest_id x = mm \<longrightarrow> mv_version_no x < pv_version_no req"
    using r(3,5) v by (auto simp: manifest_version_response_def)
  from put_then_get [OF handled, of c req mm "served_request c m None" c] this r(1,2)
  obtain v' where v': "handle_get_manifest cfg (served_request c m None) w' = (RespJSON 200 v', w')" "version_matches cfg i req v'"
    by (auto simp: served_request_def)
  obtain mm' r' where r': "dc_uuid cfg m = Some mm'" "v' = manifest_version_response cfg r'" "mv_manifest_id r' = mm'"
    using v'(1) by (rule get_manifest_latest)
  have "vj_manifest_id v' = vj_manifest_id v"
    using r r' by (simp add: manifest_version_response_def)
  moreover have "fst (served_get_manifest cfg cl c m w') = Inr v'"
    using client_do_again [OF call v'(1)] get
    by (auto simp: served_get_manifest_def client_get_manifest_def split: if_splits)
  ultimately show "\<exists>v'. fst (served_get_manifest cfg cl c m w') = Inr v' \<and> version_matches cfg i req v'
      \<and> vj_manifest_id v' = vj_manifest_id v"
    using v'(2) by blast
qed

section \<open>The tools on the Keep\<close>

text \<open>An environment whose client and log are the Keep's, for one caller.\<close>

definition keep_env ::
  "keep_cfg \<Rightarrow> keep_client \<Rightarrow> keep_claim \<Rightarrow> keep_db log_writer \<Rightarrow> log_context \<Rightarrow> keep_db wm_env \<Rightarrow> bool" where
  "keep_env cfg cl c W ctx env \<longleftrightarrow>
     (\<exists>k. we_client env = Some k \<and> wc_get_manifest k = served_get_manifest cfg cl c
       \<and> wc_put_version k = served_put_version cfg cl c
       \<and> we_append env = Some (writer_row (served_writer cfg cl c W) ctx))"

text \<open>A version whose columns are as the database keeps them.\<close>

definition canonical_version :: "keep_cfg \<Rightarrow> manifest_version \<Rightarrow> bool" where
  "canonical_version cfg v \<longleftrightarrow>
     list_all (\<lambda>t. t \<noteq> [] \<and> dc_jsonb cfg t = Some t) [vj_tools v, vj_authority_matrix v, vj_knowledge_sources v]
     \<and> dc_float4 cfg (vj_notebook_threshold v) = Some (vj_notebook_threshold v)"

lemma matches_copy:
  assumes "version_matches cfg i b v'" "canonical_version cfg v" "vj_manifest_id v' = vj_manifest_id v"
    and "b = (copy_manifest_for_bump v)\<lparr>pv_personality := p, pv_language := l, pv_version_no := n\<rparr>"
  shows "v' = v\<lparr>vj_id := i, vj_version_no := n, vj_personality := p, vj_language := l, vj_created_at := vj_created_at v'\<rparr>"
  using assms
  by (cases v; cases v') (auto simp: version_matches_def canonical_version_def copy_manifest_for_bump_def
      jsonb_or_default_def null_if_empty_def split: if_splits)

lemma adjust_runs:
  "adjust_personality env req claim st = (Inr res, st') \<Longrightarrow>
    \<exists>types. run_manifest_bump env claim types (aj_agent_id req)
      (\<lambda>latest. (copy_manifest_for_bump latest)\<lparr>pv_personality := aj_new_value req\<rparr>) st = (Inr res, st')"
  "adjust_language env req claim st = (Inr res, st') \<Longrightarrow>
    \<exists>types. run_manifest_bump env claim types (aj_agent_id req)
      (\<lambda>latest. (copy_manifest_for_bump latest)\<lparr>pv_language := aj_new_value req\<rparr>) st = (Inr res, st')"
  by (auto simp: adjust_personality_def adjust_language_def split: option.splits if_splits)

text \<open>
  C20: an adjustment on the Keep changes one field. When the Watchmaster has adjusted the personality or
  the language of an agent, its manifest's latest version is the one it was with the new id and creation
  time, the next number, and the new value in that field; every other field has come through the read,
  the copy, the client's and the server's checks, and the columns of the table unchanged.
\<close>

theorem adjustments_change_one_field:
  assumes "keep_env cfg cl c W ctx env" "is_int64 (vj_version_no v + 1)" "canonical_version cfg v"
    and "fst (served_get_manifest cfg cl c (aj_agent_id req) (wr_world st)) = Inr v"
  shows "(adjust_personality env req claim st = (Inr res, st') \<longrightarrow>
      (\<exists>now. fst (served_get_manifest cfg cl c (aj_agent_id req) (wr_world st'))
        = Inr (v\<lparr>vj_id := mb_version_id res, vj_version_no := vj_version_no v + 1,
                 vj_personality := aj_new_value req, vj_created_at := now\<rparr>)))
    \<and> (adjust_language env req claim st = (Inr res, st') \<longrightarrow>
      (\<exists>now. fst (served_get_manifest cfg cl c (aj_agent_id req) (wr_world st'))
        = Inr (v\<lparr>vj_id := mb_version_id res, vj_version_no := vj_version_no v + 1,
                 vj_language := aj_new_value req, vj_created_at := now\<rparr>)))"
proof -
  have env: "keep.store_env cfg cl c W ctx env"
    using assms(1) by (auto simp: keep.store_env_def keep_env_def)
  note stores = keep.bump_stores [OF env _ assms(4,2)]
  have copy: "pv_personality (copy_manifest_for_bump v) = vj_personality v"
    "pv_language (copy_manifest_for_bump v) = vj_language v"
    by (simp_all add: copy_manifest_for_bump_def)
  show ?thesis
  proof (intro conjI impI)
    assume "adjust_personality env req claim st = (Inr res, st')"
    then obtain types where "run_manifest_bump env claim types (aj_agent_id req)
        (\<lambda>latest. (copy_manifest_for_bump latest)\<lparr>pv_personality := aj_new_value req\<rparr>) st = (Inr res, st')"
      using adjust_runs(1) by blast
    from stores [OF this] obtain v' where v': "fst (served_get_manifest cfg cl c (aj_agent_id req) (wr_world st')) = Inr v'"
      "vj_manifest_id v' = vj_manifest_id v"
      "version_matches cfg (mb_version_id res) ((copy_manifest_for_bump v)\<lparr>pv_personality := aj_new_value req,
          pv_version_no := vj_version_no v + 1\<rparr>) v'"
      by (auto simp: copy_manifest_for_bump_def)
    from matches_copy [OF v'(3) assms(3) v'(2), where p = "aj_new_value req" and l = "vj_language v" and n = "vj_version_no v + 1"] v'(1) copy
    show "\<exists>now. fst (served_get_manifest cfg cl c (aj_agent_id req) (wr_world st'))
        = Inr (v\<lparr>vj_id := mb_version_id res, vj_version_no := vj_version_no v + 1,
                 vj_personality := aj_new_value req, vj_created_at := now\<rparr>)"
      by (cases v) (auto simp: copy_manifest_for_bump_def)
  next
    assume "adjust_language env req claim st = (Inr res, st')"
    then obtain types where "run_manifest_bump env claim types (aj_agent_id req)
        (\<lambda>latest. (copy_manifest_for_bump latest)\<lparr>pv_language := aj_new_value req\<rparr>) st = (Inr res, st')"
      using adjust_runs(2) by blast
    from stores [OF this] obtain v' where v': "fst (served_get_manifest cfg cl c (aj_agent_id req) (wr_world st')) = Inr v'"
      "vj_manifest_id v' = vj_manifest_id v"
      "version_matches cfg (mb_version_id res) ((copy_manifest_for_bump v)\<lparr>pv_language := aj_new_value req,
          pv_version_no := vj_version_no v + 1\<rparr>) v'"
      by (auto simp: copy_manifest_for_bump_def)
    from matches_copy [OF v'(3) assms(3) v'(2), where p = "vj_personality v" and l = "aj_new_value req" and n = "vj_version_no v + 1"] v'(1) copy
    show "\<exists>now. fst (served_get_manifest cfg cl c (aj_agent_id req) (wr_world st'))
        = Inr (v\<lparr>vj_id := mb_version_id res, vj_version_no := vj_version_no v + 1,
                 vj_language := aj_new_value req, vj_created_at := now\<rparr>)"
      by (cases v) (auto simp: copy_manifest_for_bump_def)
  qed
qed

text \<open>
  A spawn cannot be proposed for a fresh agent. The tool is documented to draft the first version
  for a freshly allocated manifest id; but no request creates a manifest and the Keep refuses a version
  without one, so that on the Keep, after any requests, the proposal of such an id fails.
\<close>

theorem fresh_spawn_proposal_fails:
  assumes "keep_env cfg cl c W ctx env" "wr_world st = keep_serve_all cfg ops db"
    and "dc_uuid cfg (ps_agent_id req) = Some m" "m \<notin> mf_id ` set (kd_manifests db)"
  shows "\<exists>e. fst (propose_spawn env req claim st) = Inl e"
proof -
  obtain k where k: "we_client env = Some k" "wc_put_version k = served_put_version cfg cl c"
    "we_append env = Some (writer_row (served_writer cfg cl c W) ctx)"
    using assms(1) by (auto simp: keep_env_def)
  have refused: "\<exists>e. put = Inl e" if "served_put_version cfg cl c (ps_agent_id req) v d = (put, d')"
      "kd_manifests d = kd_manifests db" for v d d' put
  proof (cases put)
    case (Inr i)
    from fresh_manifest_is_refused [of cfg "served_request c (ps_agent_id req) (Some v)" m d "[]"] assms(3,4) that
    have "\<exists>s co re. handle_put_manifest_version cfg (served_request c (ps_agent_id req) (Some v)) d = (RespError s co re, d)"
      by (simp add: served_request_def)
    with that(1) Inr show ?thesis
      by (auto simp: served_put_version_def client_put_manifest_version_def split: if_splits elim: client_do_ok)
  qed simp
  obtain r st1 where app: "wm_append (writer_row (served_writer cfg cl c W) ctx) (manifest_bump_requested_event
      ''watchmaster_propose_spawn_requested'' ''propose_spawn'' (ps_agent_id req) claim) st = (r, st1)"
    by fastforce
  then have "kd_manifests (wr_world st1) = kd_manifests db"
    using writer_row_keeps assms(2) keep_serve_all_manifests
    by (auto simp: wm_append_def wm_call_def split: prod.splits) (metis snd_conv)
  then have "\<exists>e s. wm_call act (served_put_version cfg cl c (ps_agent_id req) v) st1 = (Inl e, s)" for act v
    using refused unfolding wm_call_def by (auto split: prod.splits)
  then have "wm_call act (served_put_version cfg cl c (ps_agent_id req) v) st1 \<noteq> (Inr i, s)" for act v i s
    by (metis Inr_not_Inl fst_conv)
  then show ?thesis
    unfolding propose_spawn_def Let_def k option.sel app
    by (auto split: option.split sum.split prod.split)
qed

end
