(* ===== verification/WatchmasterWorld.thy ===== *)
theory WatchmasterWorld
  imports KeepWorld WatchmasterKeep
begin

text \<open>
  A small world on which the theorems about the Watchmaster's tools are evaluated: the tools run on the
  Keep, with a manifest that has one version.
\<close>


definition demo_spawn_claim :: spawn_claim where
  "demo_spawn_claim = \<lparr>sc_organization_id = demo_text 100, sc_agent_id = demo_text 110,
     sc_authority_matrix = (\<lambda>_. Some ''lead_approval'')\<rparr>"

definition demo_keep_client :: keep_client where
  "demo_keep_client = \<lparr>kcl_token_source = Some (Inr ''t''), kcl_join_url = (\<lambda>_. None), kcl_new_request = (\<lambda>_. None),
     kcl_path_escape = (\<lambda>s. s), kcl_encode_query = (\<lambda>_. []), kcl_itoa = (\<lambda>n. if n = 200 then ''200'' else ''50'')\<rparr>"

definition demo_writer :: "keep_db log_writer" where
  "demo_writer = \<lparr>lw_log_append = (\<lambda>_ db. (Inr [], db)), lw_correlation_gen = (\<lambda>_. Inr (demo_text 112)),
     lw_event_id_gen = (\<lambda>_. Inr ''e''), lw_clock = (\<lambda>_. ''now''), lw_marshal = (\<lambda>_. Inr ''{}'')\<rparr>"

definition demo_log_ctx :: log_context where
  "demo_log_ctx = \<lparr>lc_correlation_id = None, lc_span = None\<rparr>"

definition demo_wm_client :: "keep_db wm_client" where
  "demo_wm_client = \<lparr>wc_get_manifest = served_get_manifest demo_cfg demo_keep_client (demo_claim_of 100),
     wc_put_version = served_put_version demo_cfg demo_keep_client (demo_claim_of 100),
     wc_update_status = (\<lambda>_ _ db. (Inr (), db)), wc_store = (\<lambda>_ db. (Inr [], db))\<rparr>"

definition demo_wm_env :: "keep_db wm_env" where
  "demo_wm_env = \<lparr>we_ctx = None, we_client = Some demo_wm_client,
     we_append = Some (writer_row (served_writer demo_cfg demo_keep_client (demo_claim_of 100) demo_writer) demo_log_ctx),
     we_notebook = None, we_type_name = (\<lambda>_. []), we_now_ms = (\<lambda>_. 0)\<rparr>"

lemma demo_keep_env:
  "keep_env demo_cfg demo_keep_client (demo_claim_of 100) demo_writer demo_log_ctx demo_wm_env"
  by (simp add: keep_env_def demo_wm_env_def demo_wm_client_def)

definition demo_row :: version_row where
  "demo_row = \<lparr>mv_id = 111, mv_manifest_id = 102, mv_version_no = 1, mv_system_prompt = ''p'', mv_tools = ''[]'',
     mv_authority_matrix = ''{}'', mv_knowledge_sources = ''[]'', mv_personality = None, mv_language = None,
     mv_model = None, mv_autonomy = None, mv_notebook_top_k = None, mv_notebook_threshold = None, mv_created_at = 1\<rparr>"

definition demo_kept :: keep_db where
  "demo_kept = demo_db\<lparr>kd_versions := [demo_row], kd_writes := 2\<rparr>"

lemma demo_get:
  "kd_manifests d = kd_manifests demo_db \<Longrightarrow> kd_versions d = [demo_row] \<Longrightarrow>
    served_get_manifest demo_cfg demo_keep_client (demo_claim_of 100) (demo_text 102) d
      = (Inr (manifest_version_response demo_cfg demo_row), d)"
  by (simp add: served_get_manifest_def client_get_manifest_def client_do_def client_exchange_def
      demo_keep_client_def requires_auth_def client_send_served handle_get_manifest_def served_request_def
      with_scope_def stmt_at_def role_for_scope_def select_latest_version_def session_org_def uuid_param_def
      version_visible_def manifest_visible_def newer_def keep_answer_def)
    (simp add: demo_cfg_def demo_claim_of_def demo_claim_keep_def demo_db_def demo_row_def newer_def
      version_visible_def manifest_visible_def)

lemma demo_append:
  "ev_type ev \<noteq> [] \<Longrightarrow> \<exists>d. writer_row (served_writer demo_cfg demo_keep_client (demo_claim_of 100) demo_writer) demo_log_ctx ev demo_kept
     = (Inr (), d) \<and> kd_manifests d = kd_manifests demo_db \<and> kd_versions d = [demo_row] \<and> kd_writes d = 3"
  by (simp add: writer_row_def writer_append_def served_writer_def demo_writer_def demo_log_ctx_def
      correlation_id_from_context_def build_payload_def served_log_append_def client_log_append_def client_do_def
      client_exchange_def demo_keep_client_def requires_auth_def client_send_served handle_log_append_def
      parse_log_append_request_def decode_body_def is_json_content_type_def served_request_def
      with_scope_def stmt_at_def role_for_scope_def actor_from_scope_def cut_prefix_def insert_log_def
      uuid_param_opt_def uuid_param_def null_if_empty_def keep_answer_def)
    (simp add: demo_cfg_def demo_claim_of_def demo_claim_keep_def demo_kept_def demo_db_def)


definition demo_row2 :: version_row where
  "demo_row2 = demo_row\<lparr>mv_id := 113, mv_version_no := 2, mv_personality := Some ''calm'', mv_created_at := 3\<rparr>"

definition demo_bump :: put_version_request where
  "demo_bump = (copy_manifest_for_bump (manifest_version_response demo_cfg demo_row))
     \<lparr>pv_personality := ''calm'', pv_version_no := 2\<rparr>"

lemma demo_put_bump:
  assumes "kd_manifests d = kd_manifests demo_db" "kd_versions d = [demo_row]" "kd_writes d = 3"
  shows "served_put_version demo_cfg demo_keep_client (demo_claim_of 100) (demo_text 102) demo_bump d
    = (Inr (demo_text 113), d\<lparr>kd_versions := [demo_row, demo_row2], kd_writes := 4\<rparr>)"
proof -
  have b: "demo_bump = zero_put_version\<lparr>pv_version_no := 2, pv_system_prompt := ''p'', pv_tools := ''[]'',
      pv_authority_matrix := ''{}'', pv_knowledge_sources := ''[]'', pv_personality := ''calm''\<rparr>"
    by (simp add: demo_bump_def copy_manifest_for_bump_def manifest_version_response_def demo_row_def
        zero_put_version_def coalesce_def)
  have ok: "put_version_error demo_bump = None"
    by (simp add: put_version_error_None b zero_put_version_def rune_count_def) (code_simp)
  then have client_ok: "client_put_version_ok (demo_text 102) demo_bump"
    by (simp add: client_put_version_iff)
  have vals: "version_of_values demo_cfg 113 3 102 (put_version_values demo_bump) = Some demo_row2"
    by (simp add: version_of_values_def put_version_values_def b zero_put_version_def demo_cfg_def
        jsonb_or_default_def null_if_empty_def null_if_zero_def float4_opt_def is_int4_def demo_row2_def demo_row_def)
  have checks: "version_checks demo_row2"
    by (simp add: version_checks_def demo_row2_def demo_row_def rune_count_def) code_simp
  have ids: "mv_manifest_id demo_row2 = 102" "mv_id demo_row = 111" "mv_manifest_id demo_row = 102" "mv_version_no demo_row = 1"
    "vv_version_no (put_version_values demo_bump) = 2"
    by (simp_all add: demo_row2_def demo_row_def put_version_values_def b zero_put_version_def)
  have ins: "insert_version demo_cfg (demo_text 102) (put_version_values demo_bump) (demo_text 100)
      \<lparr>ss_role = RoleOrg, ss_scope = ''org'', ss_org = demo_text 100\<rparr> d
    = (Inr (demo_text 113), d\<lparr>kd_versions := [demo_row, demo_row2], kd_writes := 4\<rparr>)"
    using vals checks ids assms
    by (simp add: insert_version_def uuid_param_def session_org_def version_visible_def manifest_visible_def
        demo_cfg_def demo_db_def)
  then have "handle_put_manifest_version demo_cfg (served_request (demo_claim_of 100) (demo_text 102) (Some demo_bump)) d
    = (RespJSON 201 (demo_text 113), d\<lparr>kd_versions := [demo_row, demo_row2], kd_writes := 4\<rparr>)"
    using ok
    by (simp add: handle_put_manifest_version_def parse_put_version_request_def served_request_def
        decode_body_def is_json_content_type_def with_scope_def stmt_at_def role_for_scope_def demo_claim_of_def
        demo_claim_keep_def) (simp add: demo_cfg_def)
  then show ?thesis
    using client_ok
    by (simp add: served_put_version_def client_put_manifest_version_def client_do_def client_exchange_def
        demo_keep_client_def requires_auth_def client_send_served keep_answer_def)
qed

theorem put_then_get_roundtrip_witness:
  "\<exists>d v. served_put_version demo_cfg demo_keep_client (demo_claim_of 100) (demo_text 102) demo_bump (demo_kept\<lparr>kd_writes := 3\<rparr>)
      = (Inr (demo_text 113), d)
    \<and> served_get_manifest demo_cfg demo_keep_client (demo_claim_of 100) (demo_text 102) d = (Inr v, d)
    \<and> version_matches demo_cfg (demo_text 113) demo_bump v"
proof -
  let ?db = "demo_kept\<lparr>kd_writes := 3\<rparr>"
  have put: "served_put_version demo_cfg demo_keep_client (demo_claim_of 100) (demo_text 102) demo_bump ?db
      = (Inr (demo_text 113), ?db\<lparr>kd_versions := [demo_row, demo_row2], kd_writes := 4\<rparr>)"
    by (rule demo_put_bump) (simp_all add: demo_kept_def)
  have "dc_uuid demo_cfg (demo_text 102) = Some 102" "valid_scope (kc_scope (demo_claim_of 100))"
    "\<forall>v \<in> set (kd_versions ?db). mv_manifest_id v = 102 \<longrightarrow> mv_version_no v < pv_version_no demo_bump"
    "kcl_token_source demo_keep_client = Some (Inr ''t'')" "\<And>u. kcl_join_url demo_keep_client u = None"
    "\<And>u. kcl_new_request demo_keep_client u = None"
    by (simp_all add: demo_cfg_def demo_claim_of_def demo_claim_keep_def valid_scope_def demo_kept_def demo_row_def
        demo_bump_def demo_keep_client_def)
  from put_then_get_roundtrip [OF put this(1) refl this(2,4,5,6)] this(3) put show ?thesis
    by auto
qed

definition demo_adjust :: adjust_request where
  "demo_adjust = \<lparr>aj_agent_id = demo_text 102, aj_new_value = ''calm'', aj_approval_token = ''t''\<rparr>"

lemma demo_adjust_runs:
  "\<exists>st'. adjust_personality demo_wm_env demo_adjust demo_spawn_claim \<lparr>wr_world = demo_kept, wr_calls = []\<rparr>
     = (Inr \<lparr>mb_version_id = demo_text 113, mb_version_no = 2\<rparr>, st')"
proof -
  let ?ev = "manifest_bump_requested_event ''watchmaster_adjust_personality_requested'' ''adjust_personality''
    (demo_text 102) demo_spawn_claim"
  obtain d where d: "writer_row (served_writer demo_cfg demo_keep_client (demo_claim_of 100) demo_writer) demo_log_ctx
      ?ev demo_kept = (Inr (), d)" "kd_manifests d = kd_manifests demo_db" "kd_versions d = [demo_row]" "kd_writes d = 3"
    using demo_append [of ?ev] by (auto simp: manifest_bump_requested_event_def)
  have get: "served_get_manifest demo_cfg demo_keep_client (demo_claim_of 100) (demo_text 102) demo_kept
      = (Inr (manifest_version_response demo_cfg demo_row), demo_kept)"
    by (rule demo_get) (simp_all add: demo_kept_def)
  have bump: "(copy_manifest_for_bump (manifest_version_response demo_cfg demo_row))
      \<lparr>pv_personality := ''calm'', pv_version_no := wrap64 (vj_version_no (manifest_version_response demo_cfg demo_row) + 1)\<rparr>
      = demo_bump" "pv_system_prompt demo_bump = ''p''" "pv_version_no demo_bump = 2"
    by (simp_all add: demo_bump_def manifest_version_response_def demo_row_def copy_manifest_for_bump_def wrap64_def)
  show ?thesis
    by (simp add: adjust_personality_def demo_wm_env_def validate_claim_and_deps_def demo_spawn_claim_def demo_adjust_def
        has_authority_def, simp add: run_manifest_bump_def demo_wm_client_def wm_call_def wm_append_def get bump
        d(1) flip: demo_spawn_claim_def, simp add: Let_def bump wm_call_def demo_put_bump [OF d(2-4)])
qed

theorem adjustments_change_one_field_witness:
  "\<exists>st' v now. adjust_personality demo_wm_env demo_adjust demo_spawn_claim \<lparr>wr_world = demo_kept, wr_calls = []\<rparr>
       = (Inr \<lparr>mb_version_id = demo_text 113, mb_version_no = 2\<rparr>, st')
    \<and> fst (served_get_manifest demo_cfg demo_keep_client (demo_claim_of 100) (demo_text 102) (wr_world st'))
        = Inr (v\<lparr>vj_id := demo_text 113, vj_version_no := 2, vj_personality := ''calm'', vj_created_at := now\<rparr>)"
proof -
  let ?v = "manifest_version_response demo_cfg demo_row"
  obtain st' where st': "adjust_personality demo_wm_env demo_adjust demo_spawn_claim \<lparr>wr_world = demo_kept, wr_calls = []\<rparr>
     = (Inr \<lparr>mb_version_id = demo_text 113, mb_version_no = 2\<rparr>, st')"
    using demo_adjust_runs by blast
  have "is_int64 (vj_version_no ?v + 1)" "canonical_version demo_cfg ?v" "vj_version_no ?v + 1 = 2"
    by (simp_all add: manifest_version_response_def demo_row_def is_int64_def int64_min_def int64_max_def
        canonical_version_def demo_cfg_def coalesce_def)
  moreover have "fst (served_get_manifest demo_cfg demo_keep_client (demo_claim_of 100) (aj_agent_id demo_adjust)
      (wr_world \<lparr>wr_world = demo_kept, wr_calls = []\<rparr>)) = Inr ?v"
    using demo_get [of demo_kept] by (simp add: demo_kept_def demo_adjust_def)
  ultimately have "\<exists>now. fst (served_get_manifest demo_cfg demo_keep_client (demo_claim_of 100) (aj_agent_id demo_adjust)
      (wr_world st')) = Inr (?v\<lparr>vj_id := demo_text 113, vj_version_no := vj_version_no ?v + 1,
        vj_personality := ''calm'', vj_created_at := now\<rparr>)"
    using adjustments_change_one_field [OF demo_keep_env, of ?v demo_adjust "\<lparr>wr_world = demo_kept, wr_calls = []\<rparr>"
        demo_spawn_claim _ st'] st' by (fastforce simp: demo_adjust_def)
  then show ?thesis
    using st' \<open>vj_version_no ?v + 1 = 2\<close> by (fastforce simp: demo_adjust_def)
qed

theorem fresh_spawn_proposal_fails_witness:
  "\<exists>e. fst (propose_spawn demo_wm_env \<lparr>ps_agent_id = demo_text 112, ps_system_prompt = ''p'', ps_personality = [],
     ps_language = [], ps_approval_token = ''t''\<rparr> demo_spawn_claim \<lparr>wr_world = demo_db, wr_calls = []\<rparr>) = Inl e"
  using fresh_spawn_proposal_fails [OF demo_keep_env, of "\<lparr>wr_world = demo_db, wr_calls = []\<rparr>" "[]" demo_db
      "\<lparr>ps_agent_id = demo_text 112, ps_system_prompt = ''p'', ps_personality = [],
        ps_language = [], ps_approval_token = ''t''\<rparr>" 112 demo_spawn_claim]
  by (simp add: demo_cfg_def demo_db_def)

theorem privileged_calls_granted_and_audited_witness:
  "fst (wm_serve demo_wm_env undefined (OpRetire \<lparr>rr_agent_id = ''a'', rr_approval_token = []\<rparr>) demo_spawn_claim
     \<lparr>wr_world = demo_db, wr_calls = []\<rparr>) \<noteq> None"
  using privileged_calls_granted_and_audited [of demo_wm_env undefined
      "OpRetire \<lparr>rr_agent_id = ''a'', rr_approval_token = []\<rparr>" demo_spawn_claim "\<lparr>wr_world = demo_db, wr_calls = []\<rparr>"]
  by (auto simp: granted_def op_token_def)

end
