(* ===== verification/CostReport.thy ===== *)
theory CostReport
  imports WatchmasterKeep "HOL-Library.Multiset"
begin

text \<open>
  What a turn costs, from the call to the report: the provider that logs each completed call
  (\<^verbatim>\<open>core/pkg/llm/cost/cost.go\<close>), the Watchmaster's read tools
  (\<^verbatim>\<open>core/pkg/spawn/watchmaster_tools.go\<close>), and the server's roll-ups
  (\<^verbatim>\<open>core/internal/keep/server/handlers_cost_rollup.go\<close>).
\<close>

section \<open>The logging provider\<close>

record usage =
  us_input_tokens :: int
  us_output_tokens :: int

record completion =
  cp_content :: string
  cp_finish_reason :: string
  cp_usage :: usage

datatype stream_event =
    StreamMessageStop string usage
  | StreamOther string

type_synonym 'w stream_handler = "stream_event \<Rightarrow> 'w \<Rightarrow> goerr option \<times> 'w"

text \<open>The wrapped provider: a completion, and a stream that feeds a handler (\<open>None\<close> is nil).\<close>

record 'w llm_provider =
  lp_complete :: "string \<Rightarrow> 'w \<Rightarrow> (goerr + completion) \<times> 'w"
  lp_stream :: "string \<Rightarrow> 'w stream_handler option \<Rightarrow> 'w \<Rightarrow> goerr option \<times> 'w"
  lp_count_tokens :: "string \<Rightarrow> 'w \<Rightarrow> (goerr + int) \<times> 'w"
  lp_report_cost :: "string \<Rightarrow> usage \<Rightarrow> 'w \<Rightarrow> goerr option \<times> 'w"

record 'w logging_provider =
  lg_inner :: "'w llm_provider"
  lg_agent_id :: string
  lg_append :: "'w wm_append"

definition cost_payload :: "string \<Rightarrow> string \<Rightarrow> string \<Rightarrow> usage \<Rightarrow> (string \<times> pval) list" where
  "cost_payload agent model finish u =
     [(''agent_id'', PStr agent), (''model'', PStr model), (''input_tokens'', PInt (us_input_tokens u)),
      (''output_tokens'', PInt (us_output_tokens u)), (''prompt_tokens'', PInt (us_input_tokens u)),
      (''completion_tokens'', PInt (us_output_tokens u)), (''finish_reason'', PStr finish)]"

definition cost_emit :: "'w logging_provider \<Rightarrow> string \<Rightarrow> string \<Rightarrow> usage \<Rightarrow> 'w \<Rightarrow> 'w" where
  "cost_emit p model finish u w =
     snd (lg_append p (mk_event ''llm_turn_cost_completed'' (cost_payload (lg_agent_id p) model finish u)) w)"


definition logged_handler :: "'w logging_provider \<Rightarrow> string \<Rightarrow> 'w stream_handler \<Rightarrow> 'w stream_handler" where
  "logged_handler p model h ev w =
     (case ev of
        StreamMessageStop finish u \<Rightarrow> h ev (cost_emit p model finish u w)
      | StreamOther _ \<Rightarrow> h ev w)"

definition logged_stream ::
  "'w logging_provider \<Rightarrow> string \<Rightarrow> 'w stream_handler option \<Rightarrow> 'w \<Rightarrow> goerr option \<times> 'w" where
  "logged_stream p model handler w =
     (case handler of
        None \<Rightarrow> lp_stream (lg_inner p) model None w
      | Some h \<Rightarrow> lp_stream (lg_inner p) model (Some (logged_handler p model h)) w)"

definition logged_count_tokens :: "'w logging_provider \<Rightarrow> string \<Rightarrow> 'w \<Rightarrow> (goerr + int) \<times> 'w" where
  "logged_count_tokens p = lp_count_tokens (lg_inner p)"

definition logged_report_cost :: "'w logging_provider \<Rightarrow> string \<Rightarrow> usage \<Rightarrow> 'w \<Rightarrow> goerr option \<times> 'w" where
  "logged_report_cost p = lp_report_cost (lg_inner p)"

section \<open>The Watchmaster's read tools\<close>

record 'w wm_read_client =
  rc_list :: "string \<Rightarrow> int \<Rightarrow> 'w \<Rightarrow> (goerr + watchkeeper_row list) \<times> 'w"
  rc_log_tail :: "int \<Rightarrow> 'w \<Rightarrow> (goerr + log_row list) \<times> 'w"

text \<open>
  The text of a UUID and of a time, and the \<open>data\<close> object of a log row's JSON (\<open>None\<close> when the payload
  does not decode or has none). A number is what Go's conversion makes of it and what Postgres's
  cast to \<open>bigint\<close> makes of it, if it takes it.
\<close>

datatype cost_value =
    CvNumber int "int option"
  | CvString string
  | CvNull
  | CvOther string

record cost_cfg =
  ck_uuid_text :: "uuid \<Rightarrow> string"
  ck_time_text :: "int \<Rightarrow> string"
  ck_data :: "string \<Rightarrow> (string \<rightharpoonup> cost_value) option"

record 'w read_env =
  re_ctx :: "goerr option"
  re_client :: "'w wm_read_client option"

definition read_gate :: "'w read_env \<Rightarrow> spawn_claim \<Rightarrow> goerr option" where
  "read_gate env claim =
     (case re_ctx env of
        Some e \<Rightarrow> Some e
      | None \<Rightarrow>
          if sc_organization_id claim = [] then Some (errorf_is ErrInvalidClaim [])
          else if re_client env = None then Some (errorf_is ErrInvalidRequest [])
          else None)"

record projected_row =
  pj_id :: string
  pj_manifest_id :: string
  pj_lead_human_id :: string
  pj_active_version_id :: string
  pj_status :: string
  pj_spawned_at :: string
  pj_retired_at :: string
  pj_created_at :: string

definition project_watchkeeper_row :: "cost_cfg \<Rightarrow> watchkeeper_row \<Rightarrow> projected_row" where
  "project_watchkeeper_row k w =
     \<lparr>pj_id = ck_uuid_text k (wk_id w), pj_manifest_id = ck_uuid_text k (wk_manifest_id w),
      pj_lead_human_id = ck_uuid_text k (wk_lead_human_id w),
      pj_active_version_id = (case wk_active_version_id w of None \<Rightarrow> [] | Some i \<Rightarrow> ck_uuid_text k i),
      pj_status = wk_status w,
      pj_spawned_at = (case wk_spawned_at w of None \<Rightarrow> [] | Some t \<Rightarrow> ck_time_text k t),
      pj_retired_at = (case wk_retired_at w of None \<Rightarrow> [] | Some t \<Rightarrow> ck_time_text k t),
      pj_created_at = ck_time_text k (wk_created_at w)\<rparr>"

definition tool_list_watchkeepers ::
  "cost_cfg \<Rightarrow> 'w read_env \<Rightarrow> string \<Rightarrow> int \<Rightarrow> spawn_claim \<Rightarrow> 'w \<Rightarrow> (goerr + projected_row list) \<times> 'w" where
  "tool_list_watchkeepers k env status limit claim w =
     (case read_gate env claim of
        Some e \<Rightarrow> (Inl e, w)
      | None \<Rightarrow>
          (case rc_list (the (re_client env)) status limit w of
             (Inl e, w') \<Rightarrow> (Inl (errorf ''spawn: list_watchkeepers'' e), w')
           | (Inr rows, w') \<Rightarrow> (Inr (map (project_watchkeeper_row k) rows), w')))"

record cost_request =
  cq_agent_id :: string
  cq_event_type_prefix :: string
  cq_limit :: int

record cost_report =
  co_agent_id :: string
  co_event_type_prefix :: string
  co_prompt_tokens :: int
  co_completion_tokens :: int
  co_event_count :: int
  co_scanned_rows :: int

definition read_int64 :: "(string \<rightharpoonup> cost_value) \<Rightarrow> string \<Rightarrow> int" where
  "read_int64 m key = (case m key of Some (CvNumber n _) \<Rightarrow> n | _ \<Rightarrow> 0)"

definition decode_cost_payload :: "cost_cfg \<Rightarrow> string \<Rightarrow> (int \<times> int \<times> string) option" where
  "decode_cost_payload k payload =
     (if payload = [] then None
      else case ck_data k payload of
          None \<Rightarrow> None
        | Some m \<Rightarrow> Some (read_int64 m ''prompt_tokens'', read_int64 m ''completion_tokens'',
            case m ''agent_id'' of Some (CvString s) \<Rightarrow> s | _ \<Rightarrow> []))"

definition cost_step :: "cost_cfg \<Rightarrow> string \<Rightarrow> string \<Rightarrow> cost_report \<Rightarrow> log_row \<Rightarrow> cost_report" where
  "cost_step k prefix_text agent acc row =
     (if \<not> prefix prefix_text (kl_event_type row) then acc
      else case decode_cost_payload k (kl_payload row) of
          None \<Rightarrow> acc
        | Some (p, c, a) \<Rightarrow>
            if agent \<noteq> [] \<and> a \<noteq> agent then acc
            else acc\<lparr>co_prompt_tokens := wrap64 (co_prompt_tokens acc + p),
                     co_completion_tokens := wrap64 (co_completion_tokens acc + c),
                     co_event_count := co_event_count acc + 1\<rparr>)"

definition default_report_limit :: int where "default_report_limit = 50"

definition max_report_limit :: int where "max_report_limit = 500"

definition report_limit :: "int \<Rightarrow> int" where
  "report_limit n = (let m = (if n = 0 then default_report_limit else n) in if m > max_report_limit then max_report_limit else m)"

definition tool_report_cost ::
  "cost_cfg \<Rightarrow> 'w read_env \<Rightarrow> cost_request \<Rightarrow> spawn_claim \<Rightarrow> 'w \<Rightarrow> (goerr + cost_report) \<times> 'w" where
  "tool_report_cost k env req claim w =
     (case read_gate env claim of
        Some e \<Rightarrow> (Inl e, w)
      | None \<Rightarrow>
          if cq_limit req < 0 then (Inl (errorf_is ErrInvalidRequest []), w)
          else
            (let pre = (if cq_event_type_prefix req = [] then ''llm_turn_cost'' else cq_event_type_prefix req) in
             case rc_log_tail (the (re_client env)) (report_limit (cq_limit req)) w of
               (Inl e, w') \<Rightarrow> (Inl (errorf ''spawn: report_cost'' e), w')
             | (Inr rows, w') \<Rightarrow>
                 (Inr (foldl (cost_step k pre (cq_agent_id req))
                    \<lparr>co_agent_id = cq_agent_id req, co_event_type_prefix = pre, co_prompt_tokens = 0,
                     co_completion_tokens = 0, co_event_count = 0, co_scanned_rows = int (length rows)\<rparr> rows), w')))"

record health_item =
  hi_id :: string
  hi_status :: string
  hi_spawned_at :: string
  hi_retired_at :: string

record health_report =
  hr_item :: "health_item option"
  hr_pending :: int
  hr_active :: int
  hr_retired :: int
  hr_total :: int

definition health_snapshot :: "cost_cfg \<Rightarrow> watchkeeper_row \<Rightarrow> health_item" where
  "health_snapshot k w =
     \<lparr>hi_id = ck_uuid_text k (wk_id w), hi_status = wk_status w,
      hi_spawned_at = (case wk_spawned_at w of None \<Rightarrow> [] | Some t \<Rightarrow> ck_time_text k t),
      hi_retired_at = (case wk_retired_at w of None \<Rightarrow> [] | Some t \<Rightarrow> ck_time_text k t)\<rparr>"

definition health_step :: "health_report \<Rightarrow> watchkeeper_row \<Rightarrow> health_report" where
  "health_step acc w =
     (if wk_status w = ''pending'' then acc\<lparr>hr_pending := hr_pending acc + 1\<rparr>
      else if wk_status w = ''active'' then acc\<lparr>hr_active := hr_active acc + 1\<rparr>
      else if wk_status w = ''retired'' then acc\<lparr>hr_retired := hr_retired acc + 1\<rparr>
      else acc)"

definition zero_health :: health_report where
  "zero_health = \<lparr>hr_item = None, hr_pending = 0, hr_active = 0, hr_retired = 0, hr_total = 0\<rparr>"

definition tool_report_health ::
  "cost_cfg \<Rightarrow> 'w read_env \<Rightarrow> string \<Rightarrow> spawn_claim \<Rightarrow> 'w \<Rightarrow> (goerr + health_report) \<times> 'w" where
  "tool_report_health k env agent claim w =
     (case read_gate env claim of
        Some e \<Rightarrow> (Inl e, w)
      | None \<Rightarrow>
          (case rc_list (the (re_client env)) [] 200 w of
             (Inl e, w') \<Rightarrow> (Inl (errorf ''spawn: report_health'' e), w')
           | (Inr rows, w') \<Rightarrow>
               (Inr (if agent \<noteq> [] then
                       zero_health\<lparr>hr_item := map_option (health_snapshot k)
                         (List.find (\<lambda>r. ck_uuid_text k (wk_id r) = agent) rows)\<rparr>
                     else
                       (let out = foldl health_step zero_health rows
                        in out\<lparr>hr_total := hr_pending out + hr_active out + hr_retired out\<rparr>)), w')))"

section \<open>The roll-ups of the server\<close>

record cost_params =
  cr_agent :: string
  cr_from :: int
  cr_to :: int
  cr_grain :: string

record rollup_cfg =
  rl_cost :: cost_cfg
  rl_time :: "string \<Rightarrow> int option"
  rl_bucket :: "string \<Rightarrow> int \<Rightarrow> string"
  rl_text :: "cost_value \<Rightarrow> string"
  rl_rank :: "string \<times> string \<Rightarrow> int"

definition parse_cost_rollup_params ::
  "rollup_cfg \<Rightarrow> (string \<Rightarrow> string) \<Rightarrow> 'r http_response + cost_params" where
  "parse_cost_rollup_params R q =
     (if q ''agent_id'' = [] then Inl (write_error 400 ''missing_agent_id'')
      else if \<not> uuid_pattern (q ''agent_id'') then Inl (write_error 400 ''invalid_agent_id'')
      else if q ''from'' = [] then Inl (write_error 400 ''missing_from'')
      else case rl_time R (q ''from'') of
          None \<Rightarrow> Inl (write_error 400 ''invalid_from'')
        | Some from \<Rightarrow>
            if q ''to'' = [] then Inl (write_error 400 ''missing_to'')
            else (case rl_time R (q ''to'') of
                None \<Rightarrow> Inl (write_error 400 ''invalid_to'')
              | Some to \<Rightarrow>
                  if to < from then Inl (write_error 400 ''invalid_range'')
                  else if q ''grain'' = ''daily'' \<or> q ''grain'' = ''weekly''
                  then Inr \<lparr>cr_agent = q ''agent_id'', cr_from = from, cr_to = to, cr_grain = q ''grain''\<rparr>
                  else if q ''grain'' = [] then Inl (write_error 400 ''missing_grain'')
                  else Inl (write_error 400 ''invalid_grain'')))"

definition postgres_grain_literal :: "string \<Rightarrow> goerr + string" where
  "postgres_grain_literal grain =
     (if grain = ''daily'' then Inr ''day''
      else if grain = ''weekly'' then Inr ''week''
      else Inl [Text ''server: cost rollup: unknown grain''])"

text \<open>\<open>LIKE 'llm_turn_cost%'\<close>: an underscore stands for any one character.\<close>

definition like_prefix :: "string \<Rightarrow> string \<Rightarrow> bool" where
  "like_prefix pat s \<longleftrightarrow>
     length pat \<le> length s \<and> list_all2 (\<lambda>p c. p = CHR ''_'' \<or> p = c) pat (take (length pat) s)"

record rollup_bucket =
  rb_bucket :: string
  rb_agent_id :: string
  rb_model :: string
  rb_input_tokens :: int
  rb_output_tokens :: int
  rb_n_calls :: int

definition rollup_row :: "rollup_cfg \<Rightarrow> cost_params \<Rightarrow> log_row \<Rightarrow> bool" where
  "rollup_row R p r \<longleftrightarrow>
     like_prefix ''llm_turn_cost'' (kl_event_type r)
     \<and> (case ck_data (rl_cost R) (kl_payload r) of
          None \<Rightarrow> False
        | Some m \<Rightarrow> (case m ''agent_id'' of
                      None \<Rightarrow> False | Some CvNull \<Rightarrow> False | Some v \<Rightarrow> rl_text R v = cr_agent p))
     \<and> cr_from p \<le> kl_created_at r \<and> kl_created_at r < cr_to p"

definition rollup_data :: "rollup_cfg \<Rightarrow> log_row \<Rightarrow> (string \<rightharpoonup> cost_value)" where
  "rollup_data R r = (case ck_data (rl_cost R) (kl_payload r) of None \<Rightarrow> Map.empty | Some m \<Rightarrow> m)"

definition rollup_model :: "rollup_cfg \<Rightarrow> log_row \<Rightarrow> string" where
  "rollup_model R r =
     (case rollup_data R r ''model'' of None \<Rightarrow> [] | Some CvNull \<Rightarrow> [] | Some v \<Rightarrow> rl_text R v)"

text \<open>A summand: absent or null (\<open>Some None\<close>), a number, or an error of the cast (\<open>None\<close>).\<close>

definition rollup_summand :: "rollup_cfg \<Rightarrow> string \<Rightarrow> log_row \<Rightarrow> int option option" where
  "rollup_summand R key r =
     (case rollup_data R r key of
        None \<Rightarrow> Some None
      | Some CvNull \<Rightarrow> Some None
      | Some (CvNumber _ (Some n)) \<Rightarrow> Some (Some n)
      | Some _ \<Rightarrow> None)"

definition rollup_sum :: "rollup_cfg \<Rightarrow> string \<Rightarrow> log_row list \<Rightarrow> int" where
  "rollup_sum R key rows =
     sum_list (map (\<lambda>r. case rollup_summand R key r of Some (Some n) \<Rightarrow> n | _ \<Rightarrow> 0) rows)"

definition rollup_key :: "rollup_cfg \<Rightarrow> string \<Rightarrow> log_row \<Rightarrow> string \<times> string" where
  "rollup_key R lit r = (rl_bucket R lit (kl_created_at r), rollup_model R r)"

definition rollup_of :: "rollup_cfg \<Rightarrow> string \<Rightarrow> cost_params \<Rightarrow> log_row list \<Rightarrow> string \<times> string \<Rightarrow> rollup_bucket" where
  "rollup_of R lit p rows key =
     (let g = filter (\<lambda>r. rollup_key R lit r = key) rows
      in \<lparr>rb_bucket = fst key, rb_agent_id = cr_agent p, rb_model = snd key,
          rb_input_tokens = rollup_sum R ''input_tokens'' g,
          rb_output_tokens = rollup_sum R ''output_tokens'' g, rb_n_calls = int (length g)\<rparr>)"

text \<open>The query, and the scan of its rows into \<open>int64\<close>.\<close>

definition select_cost_rollups :: "rollup_cfg \<Rightarrow> string \<Rightarrow> cost_params \<Rightarrow> rollup_bucket list db_stmt" where
  "select_cost_rollups R lit p s db =
     (let rows = filter (rollup_row R p) (kd_log db);
          keys = sort_key (rl_rank R) (remdups (map (rollup_key R lit) rows));
          out = map (rollup_of R lit p rows) keys
      in if \<not> list_all (\<lambda>r. rollup_summand R ''input_tokens'' r \<noteq> None \<and> rollup_summand R ''output_tokens'' r \<noteq> None) rows
         then (Inl (PgError ''22P02'' []), db)
         else if \<not> list_all (\<lambda>b. is_int64 (rb_input_tokens b) \<and> is_int64 (rb_output_tokens b)) out
         then (Inl (DbError [Text ''cost_rollups scan'']), db)
         else (Inr out, db))"

definition handle_cost_rollups :: "rollup_cfg \<Rightarrow> (unit, rollup_bucket list) handler" where
  "handle_cost_rollups R cfg rq db =
     (case rq_claim rq of
        None \<Rightarrow> (write_error 401 ''unauthorized'', db)
      | Some claim \<Rightarrow>
          (case parse_cost_rollup_params R (rq_query rq) of
             Inl r \<Rightarrow> (r, db)
           | Inr p \<Rightarrow>
               (case postgres_grain_literal (cr_grain p) of
                  Inl e \<Rightarrow> (write_error 500 ''cost_rollups_failed'', db)
                | Inr lit \<Rightarrow>
                    (case with_scope (rq_faults rq) claim (stmt_at (rq_faults rq) 0 (select_cost_rollups R lit p)) db of
                       (Inl e, db') \<Rightarrow> (write_error 500 ''cost_rollups_failed'', db')
                     | (Inr out, db') \<Rightarrow> (RespJSON 200 out, db')))))"

section \<open>What is reported is what was logged\<close>

definition counted :: "cost_cfg \<Rightarrow> string \<Rightarrow> string \<Rightarrow> log_row \<Rightarrow> (int \<times> int) option" where
  "counted k pre agent r =
     (if prefix pre (kl_event_type r) then
        (case decode_cost_payload k (kl_payload r) of
           None \<Rightarrow> None
         | Some (p, c, a) \<Rightarrow> if agent = [] \<or> a = agent then Some (p, c) else None)
      else None)"

definition counted_rows :: "cost_cfg \<Rightarrow> string \<Rightarrow> string \<Rightarrow> log_row list \<Rightarrow> (int \<times> int) list" where
  "counted_rows k pre agent rows = List.map_filter (counted k pre agent) rows"

lemma wrap64_add [simp]: "wrap64 (wrap64 x + y) = wrap64 (x + y)"
proof -
  have "((x + 2 ^ 63) mod 2 ^ 64 - 2 ^ 63 + y + 2 ^ 63) mod 2 ^ 64 = ((x + 2 ^ 63) mod 2 ^ 64 + y) mod (2 ^ 64 :: int)"
    by (rule arg_cong [where f = "\<lambda>t. t mod 2 ^ 64"]) simp
  also have "\<dots> = (x + 2 ^ 63 + y) mod 2 ^ 64"
    by (rule mod_add_left_eq)
  also have "\<dots> = (x + y + 2 ^ 63) mod 2 ^ 64"
    by (rule arg_cong [where f = "\<lambda>t. t mod 2 ^ 64"]) simp
  finally show ?thesis
    by (simp only: wrap64_def)
qed

lemma cost_fold:
  "foldl (cost_step k pre agent) acc rows
     = (let cs = counted_rows k pre agent rows in
        if cs = [] then acc
        else acc\<lparr>co_prompt_tokens := wrap64 (co_prompt_tokens acc + sum_list (map fst cs)),
                 co_completion_tokens := wrap64 (co_completion_tokens acc + sum_list (map snd cs)),
                 co_event_count := co_event_count acc + int (length cs)\<rparr>)"
proof (induction rows arbitrary: acc)
  case (Cons r rows)
  then show ?case
    by (auto simp: cost_step_def counted_rows_def counted_def map_filter_simps Let_def algebra_simps
        split: option.split prod.split)
qed (simp add: counted_rows_def map_filter_simps)

lemma sum_list_perm: "mset xs = mset ys \<Longrightarrow> sum_list (map f xs) = sum_list (map f (ys :: 'a list))" for f :: "'a \<Rightarrow> int"
  by (metis mset_map sum_mset_sum_list)

lemma counted_rows_perm:
  assumes "mset xs = mset ys"
  shows "mset (counted_rows k pre agent xs) = mset (counted_rows k pre agent ys)"
  using arg_cong [OF assms, of "\<lambda>m. image_mset (the \<circ> counted k pre agent) (filter_mset (\<lambda>r. counted k pre agent r \<noteq> None) m)"]
  by (simp only: counted_rows_def List.map_filter_def mset_map mset_filter)

lemma newest_first_perm: "length rows \<le> n \<Longrightarrow> mset (newest_first key n rows) = mset rows"
  by (simp add: newest_first_def)

text \<open>The JSON of a payload, as it is read back out of the table.\<close>

definition json_data :: "cost_cfg \<Rightarrow> (string \<times> pval) list \<Rightarrow> (string \<rightharpoonup> cost_value)" where
  "json_data k d key =
     (case map_of d key of
        None \<Rightarrow> None
      | Some (PStr s) \<Rightarrow> Some (CvString s)
      | Some (PUuid u) \<Rightarrow> Some (CvString (ck_uuid_text k u))
      | Some (PInt n) \<Rightarrow> Some (CvNumber n (Some n))
      | Some (PBool b) \<Rightarrow> Some (CvOther (if b then ''true'' else ''false'')))"



lemma with_scope_pure:
  assumes "with_scope f c (stmt_at f 0 st) db = (Inr x, d)" "\<And>s y. st s y = (Inr (g y), y)"
  shows "with_scope f c (stmt_at f 0 st) db2 = (Inr (g db2), db2) \<and> d = db \<and> x = g db"
proof -
  obtain role where role: "role_for_scope (kc_scope c) = Inr role"
    using scoped_valid [OF assms(1)] by (auto simp flip: role_for_scope_valid)
  have find: "List.find (\<lambda>n. f n \<noteq> None) [0, 1, 2, 3] = None" and f: "f 5 = None" "f 4 = None"
    using assms role
    by (cases "List.find (\<lambda>n. f n \<noteq> None) [0, 1, 2, 3]"; cases "f 5"; cases "f 4"; simp add: with_scope_def stmt_at_def)+
  show ?thesis
    using assms role find f by (auto simp: with_scope_def stmt_at_def simp del: find.simps)
qed

lemma handle_log_tail_rows:
  assumes "handle_log_tail cfg rq db = (RespJSON st rows, d)"
  obtains m where "log_limit (rq_query rq ''limit'') = Some m" "rows = newest_first kl_created_at m (kd_log db)" "d = db"
    "st = 200" "\<And>db2. handle_log_tail cfg rq db2 = (RespJSON 200 (newest_first kl_created_at m (kd_log db2)), db2)"
proof -
  obtain c m where c: "rq_claim rq = Some c" "log_limit (rq_query rq ''limit'') = Some m"
    "with_scope (rq_faults rq) c (stmt_at (rq_faults rq) 0 (select_log m)) db = (Inr rows, d)" "st = 200"
    using assms by (auto simp: handle_log_tail_def write_error_def split: option.splits sum.splits prod.splits)
  then have "\<And>db2. with_scope (rq_faults rq) c (stmt_at (rq_faults rq) 0 (select_log m)) db2
      = (Inr (newest_first kl_created_at m (kd_log db2)), db2)" "d = db" "rows = newest_first kl_created_at m (kd_log db)"
    using with_scope_pure [where st = "select_log m" and g = "\<lambda>x. newest_first kl_created_at m (kd_log x)"]
    by (simp_all add: select_log_def)
  with c that [of m] show thesis
    by (simp add: handle_log_tail_def)
qed

lemma served_log_tail_again:
  assumes "served_log_tail cfg cl c txt n db = (Inr rows, d)"
  obtains m where "log_limit txt = Some m" "rows = newest_first kl_created_at m (kd_log db)"
    "\<And>db2. served_log_tail cfg cl c txt n db2 = (Inr (newest_first kl_created_at m (kd_log db2)), db2)"
proof -
  define h :: "(unit, log_row list) handler" where
    "h = (\<lambda>cfg rq. handle_log_tail cfg (rq\<lparr>rq_query := (\<lambda>k. if k = ''limit'' then txt else [])\<rparr>))"
  define url where "url = (if n > 0 then ''/v1/keepers-log?limit='' @ kcl_itoa cl n else ''/v1/keepers-log'')"
  have call: "client_do cl (keep_transport cfg c [] h) ''GET'' url None db = (Inr rows, d)" and pos: "\<not> n < 0"
    using assms by (auto simp: served_log_tail_def client_log_tail_def h_def url_def split: if_splits)
  obtain st where "h cfg (served_request c [] None) db = (RespJSON st rows, d)"
    using call by (rule client_do_ok)
  then obtain m where m: "log_limit txt = Some m" "rows = newest_first kl_created_at m (kd_log db)"
    "\<And>db2. h cfg (served_request c [] None) db2 = (RespJSON 200 (newest_first kl_created_at m (kd_log db2)), db2)"
    unfolding h_def by (rule handle_log_tail_rows) simp
  have "served_log_tail cfg cl c txt n db2 = (Inr (newest_first kl_created_at m (kd_log db2)), db2)" for db2
    using client_do_again [OF call m(3)] pos
    by (auto simp: served_log_tail_def client_log_tail_def h_def url_def split: if_splits)
  with m that show thesis by blast
qed


definition report_of :: "cost_cfg \<Rightarrow> string \<Rightarrow> string \<Rightarrow> log_row list \<Rightarrow> cost_report" where
  "report_of k pre agent rows =
     (let cs = counted_rows k pre agent rows in
      \<lparr>co_agent_id = agent, co_event_type_prefix = pre, co_prompt_tokens = wrap64 (sum_list (map fst cs)),
       co_completion_tokens = wrap64 (sum_list (map snd cs)), co_event_count = int (length cs),
       co_scanned_rows = int (length rows)\<rparr>)"

lemma wrap64_add_right [simp]: "wrap64 (y + wrap64 x) = wrap64 (y + x)"
  using wrap64_add [of x y] by (simp add: add.commute)

lemma wrap64_0 [simp]: "wrap64 0 = 0"
  by (simp add: wrap64_def)

lemma fold_report_of:
  "foldl (cost_step k pre agent) \<lparr>co_agent_id = agent, co_event_type_prefix = pre, co_prompt_tokens = 0,
     co_completion_tokens = 0, co_event_count = 0, co_scanned_rows = int (length rows)\<rparr> rows = report_of k pre agent rows"
  by (simp add: cost_fold report_of_def Let_def)

lemma report_of_perm:
  assumes "mset xs = mset ys"
  shows "report_of k pre agent xs = report_of k pre agent ys"
proof -
  note m = counted_rows_perm [OF assms, of k pre agent]
  show ?thesis
    using sum_list_perm [OF m, of fst] sum_list_perm [OF m, of snd] mset_eq_length [OF m] mset_eq_length [OF assms]
    by (simp add: report_of_def Let_def)
qed

lemma cost_row_counted:
  assumes "kl_event_type r = ''llm_turn_cost_completed''" "kl_payload r \<noteq> []"
    and "ck_data k (kl_payload r) = Some (json_data k (cost_payload a model fin u))"
  shows "counted k ''llm_turn_cost'' ag r = (if ag = [] \<or> ag = a then Some (us_input_tokens u, us_output_tokens u) else None)"
  using assms by (auto simp: counted_def decode_cost_payload_def read_int64_def json_data_def cost_payload_def)

text \<open>A read environment whose client is the Keep's, for one caller.\<close>

definition keep_read_env :: "keep_cfg \<Rightarrow> keep_client \<Rightarrow> keep_claim \<Rightarrow> keep_db read_env \<Rightarrow> bool" where
  "keep_read_env cfg cl c env \<longleftrightarrow>
     (\<exists>rc. re_client env = Some rc \<and> rc_log_tail rc = (\<lambda>n. served_log_tail cfg cl c (kcl_itoa cl n) n)
       \<and> rc_list rc = served_list_watchkeepers cfg cl c)"

text \<open>A report on the Keep is that of the newest rows of the log, at most the server's cap of them.\<close>

lemma served_report:
  fixes cl :: keep_client and req :: cost_request
  assumes "keep_read_env cfg cl c env" "cq_event_type_prefix req = []"
    and "parse_int64 (kcl_itoa cl (report_limit (cq_limit req))) = Some (report_limit (cq_limit req))"
    and "tool_report_cost k env req claim db = (Inr rep, d)" "m = min (nat (report_limit (cq_limit req))) 200"
  shows "rep = report_of k ''llm_turn_cost'' (cq_agent_id req) (newest_first kl_created_at m (kd_log db))"
    and "tool_report_cost k env req claim db2
      = (Inr (report_of k ''llm_turn_cost'' (cq_agent_id req) (newest_first kl_created_at m (kd_log db2))), db2)"
proof -
  define n where "n = report_limit (cq_limit req)"
  obtain rc where rc: "re_client env = Some rc" "rc_log_tail rc = (\<lambda>n. served_log_tail cfg cl c (kcl_itoa cl n) n)"
    using assms(1) by (auto simp: keep_read_env_def)
  obtain rows d where call: "served_log_tail cfg cl c (kcl_itoa cl n) n db = (Inr rows, d)"
    and gate: "read_gate env claim = None" "\<not> cq_limit req < 0"
    and rep: "rep = report_of k ''llm_turn_cost'' (cq_agent_id req) rows"
    using assms(2,4) rc unfolding n_def tool_report_cost_def Let_def fold_report_of
    by (auto split: option.splits if_splits prod.splits sum.splits)
  obtain m' where m': "log_limit (kcl_itoa cl n) = Some m'" "rows = newest_first kl_created_at m' (kd_log db)"
    "\<And>db2. served_log_tail cfg cl c (kcl_itoa cl n) n db2 = (Inr (newest_first kl_created_at m' (kd_log db2)), db2)"
    using call by (rule served_log_tail_again) (rule that)
  have "kcl_itoa cl n \<noteq> []"
    using assms(3) by (auto simp: n_def parse_int64_def parse_unsigned_def)
  then have m: "m' = m"
    using m'(1) assms(3,5) by (auto simp: n_def log_limit_def max_log_limit_def split: if_splits)
  show "rep = report_of k ''llm_turn_cost'' (cq_agent_id req) (newest_first kl_created_at m (kd_log db))"
    using rep m'(2) m by simp
  show "tool_report_cost k env req claim db2
      = (Inr (report_of k ''llm_turn_cost'' (cq_agent_id req) (newest_first kl_created_at m (kd_log db2))), db2)"
    unfolding tool_report_cost_def Let_def using gate rc m'(3) [of db2] assms(2) m
    by (simp add: fold_report_of flip: n_def)
qed

lemma report_of_newest:
  "length rows \<le> m \<Longrightarrow> report_of k pre agent (newest_first key m rows) = report_of k pre agent rows"
  by (rule report_of_perm) (simp add: newest_first_perm)







section \<open>The two aggregations agree\<close>

lemma sum_groups:
  fixes f :: "'a \<Rightarrow> int"
  assumes "distinct ks" "key ` set rows \<subseteq> set ks"
  shows "sum_list (map (\<lambda>x. sum_list (map f (filter (\<lambda>r. key r = x) rows))) ks) = sum_list (map f rows)"
  using assms(2)
proof (induction rows)
  case (Cons r rows)
  have "sum_list (map (\<lambda>x. sum_list (map f (filter (\<lambda>s. key s = x) (r # rows)))) ks)
      = sum_list (map (\<lambda>x. (if key r = x then f r else 0) + sum_list (map f (filter (\<lambda>s. key s = x) rows))) ks)"
    by (intro arg_cong [where f = sum_list] map_cong) auto
  also have "\<dots> = sum_list (map (\<lambda>x. if key r = x then f r else 0) ks) + sum_list (map f rows)"
    using Cons by (simp add: sum_list_addf)
  also have "sum_list (map (\<lambda>x. if key r = x then f r else 0) ks) = f r"
    using assms(1) Cons.prems by (simp add: sum_list_distinct_conv_sum_set)
  finally show ?case by simp
qed simp

lemma prefix_like: "prefix p s \<Longrightarrow> like_prefix p s"
  by (auto simp: prefix_def like_prefix_def list_all2_refl)

text \<open>\<open>LIKE\<close> takes more than the prefix that the code checks elsewhere, since \<open>_\<close> is a wildcard.\<close>

lemma like_prefix_is_wider:
  "like_prefix ''llm_turn_cost'' ''llm-turn-cost'' \<and> \<not> prefix ''llm_turn_cost'' ''llm-turn-cost''"
  by (simp add: like_prefix_def)

text \<open>Every row of the cost family is one that a logging provider wrote.\<close>

definition provider_rows :: "cost_cfg \<Rightarrow> log_row list \<Rightarrow> bool" where
  "provider_rows k rows \<longleftrightarrow>
     (\<forall>r \<in> set rows. like_prefix ''llm_turn_cost'' (kl_event_type r) \<longrightarrow>
        kl_event_type r = ''llm_turn_cost_completed'' \<and> kl_payload r \<noteq> []
        \<and> (\<exists>a m f u. ck_data k (kl_payload r) = Some (json_data k (cost_payload a m f u))))"

definition int_summand :: "rollup_cfg \<Rightarrow> string \<Rightarrow> log_row \<Rightarrow> int" where
  "int_summand R key r = (case rollup_summand R key r of Some (Some n) \<Rightarrow> n | _ \<Rightarrow> 0)"

lemma counted_rows_rollup:
  assumes "provider_rows k rows" "k = rl_cost R" "\<And>s. rl_text R (CvString s) = s" "cr_agent p \<noteq> []"
    and "\<forall>r \<in> set rows. cr_from p \<le> kl_created_at r \<and> kl_created_at r < cr_to p"
  shows "counted_rows k ''llm_turn_cost'' (cr_agent p) rows
    = map (\<lambda>r. (int_summand R ''input_tokens'' r, int_summand R ''output_tokens'' r)) (filter (rollup_row R p) rows)"
  using assms(1,5)
proof (induction rows)
  case (Cons r rows)
  have IH: "counted_rows k ''llm_turn_cost'' (cr_agent p) rows
    = map (\<lambda>r. (int_summand R ''input_tokens'' r, int_summand R ''output_tokens'' r)) (filter (rollup_row R p) rows)"
    using Cons by (simp add: provider_rows_def)
  show ?case
  proof (cases "like_prefix ''llm_turn_cost'' (kl_event_type r)")
    case False
    then have "counted k ''llm_turn_cost'' (cr_agent p) r = None" "\<not> rollup_row R p r"
      using prefix_like by (auto simp: counted_def rollup_row_def)
    with IH show ?thesis
      by (simp add: counted_rows_def map_filter_simps)
  next
    case True
    with Cons.prems(1) obtain a m f u where r: "kl_event_type r = ''llm_turn_cost_completed''" "kl_payload r \<noteq> []"
      "ck_data k (kl_payload r) = Some (json_data k (cost_payload a m f u))"
      unfolding provider_rows_def by auto
    have "rollup_row R p r \<longleftrightarrow> a = cr_agent p"
      using r True Cons.prems(2) assms(2,3) by (simp add: rollup_row_def json_data_def cost_payload_def)
    moreover have "int_summand R ''input_tokens'' r = us_input_tokens u" "int_summand R ''output_tokens'' r = us_output_tokens u"
      using r assms(2) by (simp_all add: int_summand_def rollup_summand_def rollup_data_def json_data_def cost_payload_def)
    ultimately show ?thesis
      using IH cost_row_counted [OF r, of "cr_agent p"] assms(4)
      by (auto simp: counted_rows_def map_filter_simps)
  qed
qed (simp add: counted_rows_def map_filter_simps)

lemma select_cost_rollups_sums:
  assumes "select_cost_rollups R lit p s db = (Inr out, d)"
  shows "sum_list (map rb_input_tokens out) = sum_list (map (int_summand R ''input_tokens'') (filter (rollup_row R p) (kd_log db)))
    \<and> sum_list (map rb_output_tokens out) = sum_list (map (int_summand R ''output_tokens'') (filter (rollup_row R p) (kd_log db)))
    \<and> sum_list (map rb_n_calls out) = int (length (filter (rollup_row R p) (kd_log db)))"
proof -
  define rows where "rows = filter (rollup_row R p) (kd_log db)"
  define ks where "ks = sort_key (rl_rank R) (remdups (map (rollup_key R lit) rows))"
  have out: "out = map (rollup_of R lit p rows) ks"
    using assms by (auto simp: select_cost_rollups_def Let_def rows_def ks_def split: if_splits)
  have ks: "distinct ks" "rollup_key R lit ` set rows \<subseteq> set ks"
    by (simp_all add: ks_def)
  have len: "int (length xs) = sum_list (map (\<lambda>_. 1) xs)" for xs :: "log_row list"
    by (induction xs) simp_all
  have "map rb_input_tokens out = map (\<lambda>x. sum_list (map (int_summand R ''input_tokens'')
      (filter (\<lambda>r. rollup_key R lit r = x) rows))) ks"
    "map rb_output_tokens out = map (\<lambda>x. sum_list (map (int_summand R ''output_tokens'')
      (filter (\<lambda>r. rollup_key R lit r = x) rows))) ks"
    "map rb_n_calls out = map (\<lambda>x. sum_list (map (\<lambda>_. 1) (filter (\<lambda>r. rollup_key R lit r = x) rows))) ks"
    by (simp_all add: out rollup_of_def Let_def rollup_sum_def int_summand_def [abs_def] len)
  then show ?thesis
    using sum_groups [OF ks, of "int_summand R ''input_tokens''"] sum_groups [OF ks, of "int_summand R ''output_tokens''"]
      sum_groups [OF ks, of "\<lambda>_. 1"] by (simp only: rows_def len simp_thms)
qed

text \<open>
  C24: the report and the roll-ups agree on the same rows. When the range of a roll-up holds just the
  rows that a cost report looks at (the newest of the log, as many as were asked for and at most 200;
  the whole log when it is shorter and the range covers it), and the rows of the cost family among them are
  ones a logging provider wrote, then the buckets the server answers for an agent add up to what the
  Watchmaster's cost report says of it, in input tokens, output tokens and calls, though one reads other
  fields of the payload than the other; what makes them agree is that the provider writes each count
  under two names.
\<close>

theorem rollups_agree_with_report:
  assumes "window = newest_first kl_created_at (min (nat (report_limit (cq_limit req))) 200) (kd_log db)"
    and "provider_rows k window" "k = rl_cost R" "\<And>s. rl_text R (CvString s) = s"
    and "handle_cost_rollups R cfg rq db = (RespJSON 200 out, d)" "parse_cost_rollup_params R (rq_query rq) = (Inr p :: rollup_bucket list http_response + cost_params)"
    and "mset (filter (\<lambda>r. cr_from p \<le> kl_created_at r \<and> kl_created_at r < cr_to p) (kd_log db)) = mset window"
    and "keep_read_env cfg' cl c env" "cq_agent_id req = cr_agent p" "cq_event_type_prefix req = []"
    and "parse_int64 (kcl_itoa cl (report_limit (cq_limit req))) = Some (report_limit (cq_limit req))"
    and "tool_report_cost k env req claim db = (Inr rep, d')"
  shows "co_prompt_tokens rep = wrap64 (sum_list (map rb_input_tokens out))
    \<and> co_completion_tokens rep = wrap64 (sum_list (map rb_output_tokens out))
    \<and> co_event_count rep = sum_list (map rb_n_calls out)"
proof -
  have agent: "cr_agent p \<noteq> []"
    using assms(6) by (auto simp: parse_cost_rollup_params_def split: if_splits option.splits)
  obtain lit c s where "select_cost_rollups R lit p s db = (Inr out, d)"
    using assms(5,6) by (auto simp: handle_cost_rollups_def write_error_def
        split: option.splits sum.splits prod.splits elim!: scoped_stmt)
  note sums = select_cost_rollups_sums [OF this]
  have rep: "rep = report_of k ''llm_turn_cost'' (cr_agent p) window"
    using served_report(1) [OF assms(8,10,11,12) refl] assms(1,9) by simp
  have "filter (rollup_row R p) (filter (\<lambda>r. cr_from p \<le> kl_created_at r \<and> kl_created_at r < cr_to p) (kd_log db))
      = filter (rollup_row R p) (kd_log db)"
    by (auto simp: rollup_row_def intro!: filter_cong)
  then have "mset (filter (rollup_row R p) (kd_log db)) = mset (filter (rollup_row R p) window)"
    by (metis assms(7) mset_filter)
  note perm = sum_list_perm [OF this] mset_eq_length [OF this]
  have "set window = set (filter (\<lambda>r. cr_from p \<le> kl_created_at r \<and> kl_created_at r < cr_to p) (kd_log db))"
    using mset_eq_setD [OF assms(7)] by simp
  then have "\<forall>r \<in> set window. cr_from p \<le> kl_created_at r \<and> kl_created_at r < cr_to p"
    by simp
  then show ?thesis
    using counted_rows_rollup [OF assms(2-4) agent] sums perm
    by (simp add: rep report_of_def Let_def comp_def)
qed

section \<open>Costs of other tenants\<close>

lemma cost_rollups_ignore_tenant:
  assumes "valid_scope (kc_scope c)" "valid_scope (kc_scope c')"
  shows "handle_cost_rollups R cfg (rq\<lparr>rq_claim := Some c\<rparr>) db = handle_cost_rollups R cfg (rq\<lparr>rq_claim := Some c'\<rparr>) db"
proof -
  obtain r1 r2 where roles: "role_for_scope (kc_scope c) = Inr r1" "role_for_scope (kc_scope c') = Inr r2"
    using assms by (auto simp flip: role_for_scope_valid)
  have "with_scope f c (stmt_at f 0 (select_cost_rollups R lit p)) db
      = with_scope f c' (stmt_at f 0 (select_cost_rollups R lit p)) db" for f lit p
    by (rule scoped_read_any [OF roles]) (simp_all add: select_cost_rollups_def Let_def)
  then show ?thesis
    by (simp add: handle_cost_rollups_def cong: sum.case_cong)
qed

section \<open>The health of the watchkeepers\<close>

lemma health_fold:
  "hr_pending (foldl health_step acc rows) = hr_pending acc + int (length (filter (\<lambda>w. wk_status w = ''pending'') rows))"
  "hr_active (foldl health_step acc rows) = hr_active acc + int (length (filter (\<lambda>w. wk_status w = ''active'') rows))"
  "hr_retired (foldl health_step acc rows) = hr_retired acc + int (length (filter (\<lambda>w. wk_status w = ''retired'') rows))"
  by (induction rows arbitrary: acc) (auto simp: health_step_def)

lemma stage_count:
  assumes "\<forall>w \<in> set rows. stage_ok w"
  shows "length (filter (\<lambda>w. wk_status w = ''pending'') rows) + length (filter (\<lambda>w. wk_status w = ''active'') rows)
    + length (filter (\<lambda>w. wk_status w = ''retired'') rows) = length rows"
  using assms by (induction rows) (auto simp: stage_ok_def)

lemma set_newest_first: "set (newest_first key n rows) \<subseteq> set rows"
  by (auto simp: newest_first_def dest: in_set_takeD)

lemma length_newest_first [simp]: "length (newest_first key n rows) = min (length rows) n"
  by (simp add: newest_first_def min.commute)

lemma filter_perm: "mset xs = mset ys \<Longrightarrow> length (filter P xs) = length (filter P ys)"
  by (metis mset_filter size_mset)

lemma served_list_rows:
  assumes "served_list_watchkeepers cfg cl c [] 200 db = (Inr rows, d)" "parse_int64 (kcl_itoa cl 200) = Some 200"
  shows "rows = newest_first wk_created_at 200 (kd_watchkeepers db)"
proof -
  have "kcl_itoa cl 200 \<noteq> []"
    using assms(2) by (auto simp: parse_int64_def parse_unsigned_def)
  then have lim: "watchkeeper_list_limit (kcl_itoa cl 200) = Some 200"
    using assms(2) by (simp add: watchkeeper_list_limit_def max_watchkeeper_list_limit_def)
  let ?h = "\<lambda>cfg rq. handle_list_watchkeepers cfg (rq\<lparr>rq_query := (\<lambda>k. if k = ''status'' then []
    else if k = ''limit'' then (if (200 :: int) > 0 then kcl_itoa cl 200 else []) else [])\<rparr>)"
  obtain url where "client_do cl (keep_transport cfg c [] ?h) ''GET'' url None db = (Inr rows, d)"
    using assms(1) by (simp add: served_list_watchkeepers_def client_list_watchkeepers_def Let_def)
  then obtain st where "?h cfg (served_request c [] None) db = (RespJSON st rows, d)"
    by (rule client_do_ok)
  then have "with_scope (\<lambda>_. None) c (stmt_at (\<lambda>_. None) 0 (select_watchkeepers [] 200)) db = (Inr rows, d)"
    by (auto simp: handle_list_watchkeepers_def served_request_def write_error_def Let_def lim
        split: if_splits option.splits sum.splits prod.splits)
  from with_scope_pure [OF this, where g = "\<lambda>x. newest_first wk_created_at 200 (kd_watchkeepers x)"]
  show ?thesis
    by (simp add: select_watchkeepers_def)
qed

text \<open>
  The health report counts what it sees, and it sees at most 200 watchkeepers. On consistent tables
  of the Keep its total is the number of watchkeepers, capped at 200; up to 200 of them the counts of
  pending, active and retired ones are exact.
\<close>

theorem health_report_counts:
  assumes "kd_ok db" "keep_read_env cfg cl c env" "parse_int64 (kcl_itoa cl 200) = Some 200"
    and "tool_report_health k env [] claim db = (Inr h, d)"
  shows "hr_total h = int (min (length (kd_watchkeepers db)) 200)
    \<and> (length (kd_watchkeepers db) \<le> 200 \<longrightarrow>
        hr_pending h = int (length (filter (\<lambda>w. wk_status w = ''pending'') (kd_watchkeepers db)))
        \<and> hr_active h = int (length (filter (\<lambda>w. wk_status w = ''active'') (kd_watchkeepers db)))
        \<and> hr_retired h = int (length (filter (\<lambda>w. wk_status w = ''retired'') (kd_watchkeepers db))))"
proof -
  define rows where "rows = newest_first wk_created_at 200 (kd_watchkeepers db)"
  obtain rows' where "served_list_watchkeepers cfg cl c [] 200 db = (Inr rows', d)"
    and h': "h = (let out = foldl health_step zero_health rows'
      in out\<lparr>hr_total := hr_pending out + hr_active out + hr_retired out\<rparr>)"
    using assms(2,4) by (auto simp: tool_report_health_def keep_read_env_def split: option.splits sum.splits prod.splits)
  then have h: "hr_pending h = int (length (filter (\<lambda>w. wk_status w = ''pending'') rows))"
    "hr_active h = int (length (filter (\<lambda>w. wk_status w = ''active'') rows))"
    "hr_retired h = int (length (filter (\<lambda>w. wk_status w = ''retired'') rows))"
    "hr_total h = hr_pending h + hr_active h + hr_retired h"
    using served_list_rows [OF _ assms(3)] by (simp_all add: rows_def health_fold zero_health_def Let_def)
  have "\<forall>w \<in> set (kd_watchkeepers db). stage_ok w"
    using assms(1) by (simp add: kd_ok_def)
  then have "\<forall>w \<in> set rows. stage_ok w"
    using set_newest_first [of wk_created_at 200 "kd_watchkeepers db"] unfolding rows_def by blast
  from stage_count [OF this] h have "hr_total h = int (length rows)"
    by linarith
  moreover have "length (filter P rows) = length (filter P (kd_watchkeepers db))" if "length (kd_watchkeepers db) \<le> 200" for P
    using that unfolding rows_def by (intro filter_perm newest_first_perm)
  ultimately show ?thesis
    using h by (simp add: rows_def)
qed

end
