(* ===== verification/CostWorld.thy ===== *)
theory CostWorld
  imports WatchmasterWorld CostReport
begin

text \<open>
  A small world on which the theorems about costs and reports are evaluated: a provider that logs one
  turn on the Keep, and the reports that read it back.
\<close>

definition demo_usage :: usage where
  "demo_usage = \<lparr>us_input_tokens = 7, us_output_tokens = 3\<rparr>"

definition demo_cost_payload :: "(string \<times> pval) list" where
  "demo_cost_payload = cost_payload (demo_text 110) ''m'' ''stop'' demo_usage"

definition demo_cost_base :: cost_cfg where
  "demo_cost_base = \<lparr>ck_uuid_text = demo_text, ck_time_text = (\<lambda>_. ''t''), ck_data = (\<lambda>_. None)\<rparr>"

definition demo_cost_cfg :: cost_cfg where
  "demo_cost_cfg = demo_cost_base\<lparr>ck_data := (\<lambda>p. if p = ''x'' then Some (json_data demo_cost_base demo_cost_payload) else None)\<rparr>"



definition demo_read_env :: "keep_db read_env" where
  "demo_read_env = \<lparr>re_ctx = None, re_client = Some \<lparr>rc_list = served_list_watchkeepers demo_cfg demo_keep_client (demo_claim_of 100),
     rc_log_tail = (\<lambda>n. served_log_tail demo_cfg demo_keep_client (demo_claim_of 100) (kcl_itoa demo_keep_client n) n)\<rparr>\<rparr>"

definition demo_cost_request :: cost_request where
  "demo_cost_request = \<lparr>cq_agent_id = demo_text 110, cq_event_type_prefix = [], cq_limit = 0\<rparr>"

definition demo_cost_row :: log_row where
  "demo_cost_row = \<lparr>kl_id = 111, kl_event_type = ''llm_turn_cost_completed'', kl_correlation_id = Some 112,
     kl_actor_watchkeeper_id = None, kl_actor_human_id = None, kl_payload = ''x'', kl_created_at = 1\<rparr>"

definition demo_costs :: keep_db where
  "demo_costs = demo_db\<lparr>kd_log := [demo_cost_row], kd_writes := 2\<rparr>"

lemma json_data_uuid: "ck_uuid_text k = ck_uuid_text k' \<Longrightarrow> json_data k d = json_data k' d"
  by (simp add: json_data_def fun_eq_iff split: option.split pval.split)

lemma demo_json: "json_data demo_cost_base d = json_data demo_cost_cfg d"
  by (rule json_data_uuid) (simp add: demo_cost_cfg_def)

lemma demo_data: "ck_data demo_cost_cfg ''x'' = Some (json_data demo_cost_cfg demo_cost_payload)"
  unfolding demo_json [symmetric] by (simp add: demo_cost_cfg_def)



lemma demo_log_tail:
  "served_log_tail demo_cfg demo_keep_client (demo_claim_of 100) ''50'' 50 db
     = (Inr (newest_first kl_created_at 50 (kd_log db)), db)"
proof -
  have "log_limit ''50'' = Some 50"
    by code_simp
  then show ?thesis
    by (simp add: served_log_tail_def client_log_tail_def client_do_def client_exchange_def demo_keep_client_def
        requires_auth_def client_send_served handle_log_tail_def served_request_def with_scope_def stmt_at_def
        role_for_scope_def select_log_def keep_answer_def demo_claim_of_def demo_claim_keep_def)
qed

lemma demo_limits: "report_limit (cq_limit demo_cost_request) = 50" "kcl_itoa demo_keep_client 50 = ''50''"
  "kcl_itoa demo_keep_client 200 = ''200''" "parse_int64 ''50'' = Some 50" "parse_int64 ''200'' = Some 200"
  by (simp_all add: report_limit_def demo_cost_request_def default_report_limit_def max_report_limit_def demo_keep_client_def)
    (code_simp, code_simp)

lemma demo_read: "keep_read_env demo_cfg demo_keep_client (demo_claim_of 100) demo_read_env"
  by (simp add: keep_read_env_def demo_read_env_def)

lemma demo_report:
  "tool_report_cost demo_cost_cfg demo_read_env demo_cost_request demo_spawn_claim db
     = (Inr (report_of demo_cost_cfg ''llm_turn_cost'' (demo_text 110) (newest_first kl_created_at 50 (kd_log db))), db)"
  unfolding tool_report_cost_def Let_def
  by (simp add: read_gate_def demo_read_env_def demo_spawn_claim_def demo_limits demo_log_tail del: length_newest_first)
    (simp add: demo_cost_request_def fold_report_of del: length_newest_first)


theorem health_report_counts_witness:
  "\<exists>h. tool_report_health demo_cost_cfg demo_read_env [] demo_spawn_claim demo_db = (Inr h, demo_db)
    \<and> hr_total h = 1 \<and> hr_pending h = 1"
proof -
  have "watchkeeper_list_limit ''200'' = Some 200"
    by code_simp
  then have "\<exists>h. tool_report_health demo_cost_cfg demo_read_env [] demo_spawn_claim demo_db = (Inr h, demo_db)"
    by (simp add: tool_report_health_def read_gate_def demo_read_env_def demo_spawn_claim_def served_list_watchkeepers_def
        client_list_watchkeepers_def client_do_def client_exchange_def demo_keep_client_def requires_auth_def
        client_send_served handle_list_watchkeepers_def served_request_def with_scope_def stmt_at_def role_for_scope_def
        select_watchkeepers_def keep_answer_def demo_claim_of_def demo_claim_keep_def Let_def)
  then obtain h where h: "tool_report_health demo_cost_cfg demo_read_env [] demo_spawn_claim demo_db = (Inr h, demo_db)"
    by blast
  with health_report_counts [OF demo_db_ok demo_read _ h] demo_limits show ?thesis
    by (simp add: demo_db_def demo_watchkeeper_def)
qed

definition demo_rollup_cfg :: rollup_cfg where
  "demo_rollup_cfg = \<lparr>rl_cost = demo_cost_cfg, rl_time = (\<lambda>s. if s = ''a'' then Some 0 else Some 100),
     rl_bucket = (\<lambda>_ _. ''2026-05-08''), rl_text = (\<lambda>v. case v of CvString s \<Rightarrow> s | _ \<Rightarrow> []), rl_rank = (\<lambda>_. 0)\<rparr>"

definition demo_rollup_query :: "string \<Rightarrow> string" where
  "demo_rollup_query k = (if k = ''agent_id'' then demo_text 110 else if k = ''from'' then ''a''
     else if k = ''to'' then ''b'' else ''daily'')"

definition demo_rollup_request :: "unit keep_request" where
  "demo_rollup_request = (demo_request 100 [] ())\<lparr>rq_query := demo_rollup_query\<rparr>"

theorem rollups_agree_with_report_witness:
  "\<exists>out rep. handle_cost_rollups demo_rollup_cfg demo_cfg demo_rollup_request demo_costs = (RespJSON 200 out, demo_costs)
    \<and> tool_report_cost demo_cost_cfg demo_read_env demo_cost_request demo_spawn_claim demo_costs = (Inr rep, demo_costs)
    \<and> co_event_count rep = sum_list (map rb_n_calls out)"
proof -
  let ?p = "\<lparr>cr_agent = demo_text 110, cr_from = 0, cr_to = 100, cr_grain = ''daily''\<rparr>"
  have parse: "parse_cost_rollup_params demo_rollup_cfg demo_rollup_query = Inr ?p"
    by (simp add: parse_cost_rollup_params_def demo_rollup_query_def demo_rollup_cfg_def)
  have rows: "provider_rows demo_cost_cfg [demo_cost_row]"
    using demo_data by (auto simp: provider_rows_def demo_cost_row_def demo_cost_payload_def)
  have window: "[demo_cost_row] = newest_first kl_created_at
      (min (nat (report_limit (cq_limit demo_cost_request))) 200) (kd_log demo_costs)"
    by (simp add: demo_limits demo_costs_def newest_first_def)
  have "\<exists>out. handle_cost_rollups demo_rollup_cfg demo_cfg demo_rollup_request demo_costs = (RespJSON 200 out, demo_costs)"
    using demo_data
    by (simp add: handle_cost_rollups_def demo_rollup_request_def demo_request_def parse postgres_grain_literal_def with_scope_def
        stmt_at_def role_for_scope_def demo_claim_of_def demo_claim_keep_def)
      (simp add: select_cost_rollups_def Let_def demo_costs_def demo_cost_row_def rollup_row_def like_prefix_def
        demo_rollup_cfg_def json_data_def demo_cost_payload_def cost_payload_def rollup_summand_def rollup_data_def
        rollup_of_def rollup_sum_def rollup_key_def demo_usage_def is_int64_def int64_min_def int64_max_def)
  then obtain out where out: "handle_cost_rollups demo_rollup_cfg demo_cfg demo_rollup_request demo_costs = (RespJSON 200 out, demo_costs)"
    by blast
  let ?rep = "report_of demo_cost_cfg ''llm_turn_cost'' (demo_text 110) (newest_first kl_created_at 50 (kd_log demo_costs))"
  have "co_event_count ?rep = sum_list (map rb_n_calls out)"
    using rollups_agree_with_report [OF window rows _ _ out, where p = ?p and cfg' = demo_cfg and cl = demo_keep_client
        and c = "demo_claim_of 100" and env = demo_read_env and claim = demo_spawn_claim
        and rep = ?rep and d' = demo_costs] demo_report [of demo_costs] demo_read
    by (simp add: demo_rollup_request_def parse demo_limits demo_costs_def demo_cost_row_def)
      (simp add: demo_rollup_cfg_def demo_cost_request_def)
  with out demo_report show ?thesis
    by blast
qed

end
