(* ===== verification/EventFrame.thy ===== *)
theory EventFrame
  imports KeepAuth
begin

text \<open>
  The frames of the event stream: what the Keep server writes for an event and between events
  (\<open>writeSSEEvent\<close> and the heartbeat of \<^verbatim>\<open>core/internal/keep/server/handlers_subscribe.go\<close>), and the
  client's reader (\<open>scanEvent\<close> of \<^verbatim>\<open>core/pkg/keepclient/subscribe.go\<close>).
\<close>

section \<open>Writing\<close>

record pub_event =
  pe_id :: uuid
  pe_scope :: string
  pe_aggregate_type :: string
  pe_aggregate_id :: uuid
  pe_event_type :: string
  pe_payload :: string
  pe_created_at :: int

abbreviation LF :: char where "LF \<equiv> CHR 0x0A"
abbreviation CR :: char where "CR \<equiv> CHR 0x0D"

text \<open>\<open>uuid_text\<close> is the \<open>String\<close> method of a UUID.\<close>

definition write_sse_event :: "(uuid \<Rightarrow> string) \<Rightarrow> pub_event \<Rightarrow> string" where
  "write_sse_event uuid_text ev =
     ''id: '' @ uuid_text (pe_id ev) @ [LF] @ ''event: '' @ pe_event_type ev @ [LF]
       @ ''data: '' @ pe_payload ev @ [LF, LF]"

definition heartbeat_frame :: string where
  "heartbeat_frame = [CHR '':'', LF, LF]"

section \<open>Reading\<close>

record sse_event =
  se_id :: string
  se_event_type :: string
  se_payload :: "string option"

text \<open>\<open>ReadString\<close> up to a line feed; \<open>None\<close> where the body ends first.\<close>

fun cut_line :: "string \<Rightarrow> (string \<times> string) option" where
  "cut_line [] = None"
| "cut_line (c # s) =
     (if c = LF then Some ([], s)
      else (case cut_line s of None \<Rightarrow> None | Some (l, r) \<Rightarrow> Some (c # l, r)))"

lemma cut_line_length: "cut_line s = Some (l, r) \<Longrightarrow> length r < length s"
  by (induction s arbitrary: l) (fastforce split: if_splits option.splits)+

lemma cut_line_app [simp]: "LF \<notin> set l \<Longrightarrow> cut_line (l @ LF # r) = Some (l, r)"
  by (induction l) auto

definition trim_cr :: "string \<Rightarrow> string" where
  "trim_cr s = (if s \<noteq> [] \<and> last s = CR then butlast s else s)"

text \<open>The frame read so far: \<open>ev\<close>, \<open>dataParts\<close>, \<open>hasField\<close>, \<open>hasData\<close>.\<close>

record sse_scan =
  sc_event :: sse_event
  sc_parts :: "string list"
  sc_has_field :: bool
  sc_has_data :: bool

definition zero_scan :: sse_scan where
  "zero_scan = \<lparr>sc_event = \<lparr>se_id = [], se_event_type = [], se_payload = None\<rparr>, sc_parts = [],
     sc_has_field = False, sc_has_data = False\<rparr>"

text \<open>A field line: its name before the first colon, its value after it and after one space.\<close>

definition field_of :: "string \<Rightarrow> string \<times> string" where
  "field_of line =
     (let name = takeWhile (\<lambda>c. c \<noteq> CHR '':'') line in
      if name = line then (line, [])
      else (name, (let v = drop (Suc (length name)) line in if prefix '' '' v then tl v else v)))"

definition scan_field :: "string \<Rightarrow> sse_scan \<Rightarrow> sse_scan" where
  "scan_field line st =
     (let (name, v) = field_of line; st1 = st\<lparr>sc_has_field := True\<rparr> in
      if name = ''id'' then st1\<lparr>sc_event := (sc_event st1)\<lparr>se_id := v\<rparr>\<rparr>
      else if name = ''event'' then st1\<lparr>sc_event := (sc_event st1)\<lparr>se_event_type := v\<rparr>\<rparr>
      else if name = ''data'' then st1\<lparr>sc_has_data := True, sc_parts := sc_parts st1 @ [v]\<rparr>
      else st1)"

fun join_lines :: "string list \<Rightarrow> string" where
  "join_lines [] = []"
| "join_lines [p] = p"
| "join_lines (p # ps) = p @ LF # join_lines ps"

definition scan_dispatch :: "sse_scan \<Rightarrow> sse_event" where
  "scan_dispatch st =
     (if sc_has_data st then (sc_event st)\<lparr>se_payload := Some (join_lines (sc_parts st))\<rparr> else sc_event st)"

text \<open>
  The next event and what the body yields after it; \<open>None\<close> where the body ends before the frame does,
  in which case the reader is at the end and what it had read of the frame is gone.
\<close>

function scan_event :: "sse_scan \<Rightarrow> string \<Rightarrow> sse_event option \<times> string" where
  "scan_event st input =
     (case cut_line input of
        None \<Rightarrow> (None, [])
      | Some (raw, rest) \<Rightarrow>
          (let line = trim_cr raw in
           if line = [] then
             (if \<not> sc_has_field st then scan_event zero_scan rest else (Some (scan_dispatch st), rest))
           else if prefix '':'' line then scan_event st rest
           else scan_event (scan_field line st) rest))"
  by auto
termination by (relation "measure (length \<circ> snd)") (auto dest: cut_line_length)

declare scan_event.simps [simp del]

lemma scan_event_rest: "scan_event st input = (Some e, rest) \<Longrightarrow> length rest < length input"
proof (induction st input rule: scan_event.induct)
  case (1 st input)
  show ?case
  proof (cases "cut_line input")
    case None
    with "1.prems" show ?thesis by (simp add: scan_event.simps [of st])
  next
    case (Some p)
    obtain raw r where p: "p = (raw, r)"
      by (cases p)
    note len = cut_line_length [OF Some [unfolded p]]
    consider "trim_cr raw = []" "sc_has_field st" | "trim_cr raw = []" "\<not> sc_has_field st"
      | "trim_cr raw \<noteq> []" "prefix '':'' (trim_cr raw)" | "trim_cr raw \<noteq> []" "\<not> prefix '':'' (trim_cr raw)"
      by blast
    then show ?thesis
      using "1.IH" [OF Some p [symmetric] refl] "1.prems" len Some p
      by cases (fastforce simp: scan_event.simps [of st] Let_def)+
  qed
qed

section \<open>What was written is what is read\<close>

definition line_safe :: "string \<Rightarrow> bool" where
  "line_safe s \<longleftrightarrow> LF \<notin> set s \<and> (s = [] \<or> last s \<noteq> CR)"

text \<open>The event as the client sees it.\<close>

definition sse_view :: "(uuid \<Rightarrow> string) \<Rightarrow> pub_event \<Rightarrow> sse_event" where
  "sse_view uuid_text ev = \<lparr>se_id = uuid_text (pe_id ev), se_event_type = pe_event_type ev,
     se_payload = Some (pe_payload ev)\<rparr>"

lemma field_line:
  "CHR '':'' \<notin> set name \<Longrightarrow> field_of (name @ CHR '':'' # CHR '' '' # v) = (name, v)"
  by (simp add: field_of_def takeWhile_append prefix_def)

lemma trim_cr_safe: "line_safe v \<Longrightarrow> trim_cr (n @ CHR '':'' # CHR '' '' # v) = n @ CHR '':'' # CHR '' '' # v"
  by (auto simp: trim_cr_def line_safe_def)

lemma scan_line:
  assumes "line_safe v" "CHR '':'' \<notin> set n" "n \<noteq> []" "LF \<notin> set n"
  shows "scan_event st (n @ CHR '':'' # CHR '' '' # v @ LF # rest)
    = scan_event (scan_field (n @ CHR '':'' # CHR '' '' # v) st) rest"
proof -
  have "cut_line ((n @ CHR '':'' # CHR '' '' # v) @ LF # rest) = Some (n @ CHR '':'' # CHR '' '' # v, rest)"
    using assms by (intro cut_line_app) (auto simp: line_safe_def)
  moreover have "\<not> prefix '':'' (n @ CHR '':'' # CHR '' '' # v)"
    using assms(2,3) by (cases n) auto
  ultimately show ?thesis
    using assms(3) by (simp add: scan_event.simps [of st] trim_cr_safe [OF assms(1)])
qed

lemma scan_heartbeat: "\<not> sc_has_field st \<Longrightarrow> scan_event st (heartbeat_frame @ rest) = scan_event zero_scan rest"
  by (simp add: heartbeat_frame_def scan_event.simps [of st] trim_cr_def scan_event.simps [of _ "LF # rest"])

lemma scan_frame:
  assumes "line_safe (uuid_text (pe_id ev))" "line_safe (pe_event_type ev)" "line_safe (pe_payload ev)"
  shows "scan_event zero_scan (write_sse_event uuid_text ev @ rest) = (Some (sse_view uuid_text ev), rest)"
  using assms scan_line [of "uuid_text (pe_id ev)" "''id''"] scan_line [of "pe_event_type ev" "''event''"]
    scan_line [of "pe_payload ev" "''data''"] field_line [of "''id''"] field_line [of "''event''"] field_line [of "''data''"]
  by (simp add: write_sse_event_def scan_field_def scan_event.simps [of _ "LF # rest"] trim_cr_def
      scan_dispatch_def sse_view_def zero_scan_def)

text \<open>The events a body carries, one after the other.\<close>

function scan_all :: "string \<Rightarrow> sse_event list" where
  "scan_all input =
     (case scan_event zero_scan input of
        (None, _) \<Rightarrow> []
      | (Some e, rest) \<Rightarrow> e # scan_all rest)"
  by auto
termination by (relation "measure length") (auto dest: scan_event_rest [OF sym])

declare scan_all.simps [simp del]

lemma scan_all_Nil [simp]: "scan_all [] = []"
  by (simp add: scan_all.simps scan_event.simps)

datatype sse_frame = FrameEvent pub_event | FrameHeartbeat

definition frame_bytes :: "(uuid \<Rightarrow> string) \<Rightarrow> sse_frame \<Rightarrow> string" where
  "frame_bytes uuid_text f = (case f of FrameEvent ev \<Rightarrow> write_sse_event uuid_text ev | FrameHeartbeat \<Rightarrow> heartbeat_frame)"

definition frame_safe :: "(uuid \<Rightarrow> string) \<Rightarrow> sse_frame \<Rightarrow> bool" where
  "frame_safe uuid_text f =
     (case f of
        FrameEvent ev \<Rightarrow> line_safe (uuid_text (pe_id ev)) \<and> line_safe (pe_event_type ev) \<and> line_safe (pe_payload ev)
      | FrameHeartbeat \<Rightarrow> True)"

fun frame_events :: "sse_frame list \<Rightarrow> pub_event list" where
  "frame_events [] = []"
| "frame_events (FrameEvent ev # fs) = ev # frame_events fs"
| "frame_events (FrameHeartbeat # fs) = frame_events fs"

lemma frame_events_append [simp]: "frame_events (fs @ gs) = frame_events fs @ frame_events gs"
  by (induction fs rule: frame_events.induct) simp_all

lemma frame_simps [simp]:
  "frame_bytes u (FrameEvent ev) = write_sse_event u ev" "frame_bytes u FrameHeartbeat = heartbeat_frame"
  "frame_safe u (FrameEvent ev) \<longleftrightarrow>
     line_safe (u (pe_id ev)) \<and> line_safe (pe_event_type ev) \<and> line_safe (pe_payload ev)"
  "frame_safe u FrameHeartbeat"
  by (simp_all add: frame_bytes_def frame_safe_def)

lemma scan_frames:
  assumes "list_all (frame_safe uuid_text) fs"
  shows "scan_all (concat (map (frame_bytes uuid_text) fs) @ rest)
    = map (sse_view uuid_text) (frame_events fs) @ scan_all rest"
  using assms
proof (induction fs rule: frame_events.induct)
  case (2 ev fs)
  then show ?case
    by (simp add: scan_all.simps [of "write_sse_event uuid_text ev @ s" for s] scan_frame)
next
  case (3 fs)
  have "scan_all (heartbeat_frame @ s) = scan_all s" for s
    by (simp add: scan_all.simps [of s] scan_all.simps [of "heartbeat_frame @ s"] scan_heartbeat zero_scan_def)
  with 3 show ?case
    by simp
qed simp

section \<open>A frame cut short\<close>

lemma cut_line_more: "cut_line p = Some (l, r) \<Longrightarrow> cut_line (p @ s) = Some (l, r @ s)"
  by (induction p arbitrary: l) (auto split: if_splits option.splits)

lemma scan_event_more: "scan_event st p = (Some e, r) \<Longrightarrow> scan_event st (p @ s) = (Some e, r @ s)"
proof (induction st p rule: scan_event.induct)
  case (1 st p)
  show ?case
  proof (cases "cut_line p")
    case None
    with "1.prems" show ?thesis by (simp add: scan_event.simps [of st p])
  next
    case (Some q)
    obtain raw rest where q: "q = (raw, rest)"
      by (cases q)
    note more = cut_line_more [OF Some [unfolded q], of s]
    show ?thesis
      using "1.IH" [OF Some q [symmetric] refl] "1.prems" Some q more
      by (simp add: scan_event.simps [of st p] scan_event.simps [of st "p @ s"] Let_def split: if_splits)
  qed
qed

lemma scan_all_cut:
  assumes "scan_event zero_scan w = (Some e, [])" "k < length w"
  shows "scan_all (take k w) = []"
proof (cases "scan_event zero_scan (take k w)")
  case (Pair x r)
  have "x = None"
  proof (cases x)
    case (Some y)
    then have "scan_event zero_scan (take k w @ drop k w) = (Some y, r @ drop k w)"
      using Pair by (intro scan_event_more) simp
    with assms show ?thesis
      by simp
  qed
  with Pair show ?thesis
    by (simp add: scan_all.simps [of "take k w"])
qed

lemma scan_all_heartbeat [simp]: "scan_all (heartbeat_frame @ rest) = scan_all rest"
  using scan_frames [of undefined "[FrameHeartbeat]" rest] by simp

lemma scan_all_frame:
  "frame_safe u (FrameEvent ev) \<Longrightarrow> scan_all (write_sse_event u ev @ rest) = sse_view u ev # scan_all rest"
  using scan_frames [of u "[FrameEvent ev]" rest] by simp

lemma scan_all_frame_cut:
  assumes "frame_safe u (FrameEvent ev)"
  shows "scan_all (take k (write_sse_event u ev)) = (if k < length (write_sse_event u ev) then [] else [sse_view u ev])"
  using assms scan_all_cut [of "write_sse_event u ev" "sse_view u ev" k] scan_frame [of u ev "[]"] scan_all_frame [of u ev "[]"]
  by simp

lemma scan_all_heartbeat_cut: "scan_all (take k heartbeat_frame) = []"
proof -
  have "k = 0 \<or> k = 1 \<or> k = 2 \<or> take k heartbeat_frame = heartbeat_frame @ []"
    by (auto simp: heartbeat_frame_def take_Cons' numeral_2_eq_2)
  moreover have "scan_all (take 1 heartbeat_frame) = []" "scan_all (take 2 heartbeat_frame) = []"
    by (simp_all add: heartbeat_frame_def scan_all.simps scan_event.simps trim_cr_def numeral_2_eq_2)
  ultimately show ?thesis
    by (metis scan_all_Nil scan_all_heartbeat take_0)
qed

text \<open>
  The type of an event is written as it is: one that holds a line feed ends its own line, and what
  follows is read as fields, so that a single row can speak as several events.
\<close>

lemma event_type_can_forge:
  "\<exists>ev. scan_all (write_sse_event (\<lambda>_. ''1'') ev) =
     [\<lparr>se_id = ''1'', se_event_type = ''a'', se_payload = None\<rparr>,
      \<lparr>se_id = ''2'', se_event_type = ''b'', se_payload = Some ''x''\<rparr>]"
proof -
  let ?ev = "\<lparr>pe_id = 1, pe_scope = ''org'', pe_aggregate_type = [], pe_aggregate_id = 1,
     pe_event_type = ''a'' @ [LF, LF] @ ''id:2'' @ [LF] @ ''event:b'', pe_payload = ''x'', pe_created_at = 0\<rparr>"
  have "scan_all (write_sse_event (\<lambda>_. ''1'') ?ev) =
     [\<lparr>se_id = ''1'', se_event_type = ''a'', se_payload = None\<rparr>,
      \<lparr>se_id = ''2'', se_event_type = ''b'', se_payload = Some ''x''\<rparr>]"
    by (simp add: write_sse_event_def scan_all.simps scan_event.simps trim_cr_def zero_scan_def
        scan_field_def field_of_def prefix_def scan_dispatch_def)
  then show ?thesis
    by blast
qed

end
