(* ===== verification/PublishRegistry.thy ===== *)
theory PublishRegistry
  imports EventFrame
begin

text \<open>
  The Keep's side of the event stream: the fan-out registry (\<^verbatim>\<open>keep/publish/registry.go\<close>), the outbox
  worker that feeds it (\<^verbatim>\<open>keep/publish/outbox.go\<close>), the subscription handler
  (\<^verbatim>\<open>keep/server/handlers_subscribe.go\<close>) and the order of the server's shutdown
  (\<^verbatim>\<open>keep/server/server.go\<close>).
\<close>

section \<open>The registry\<close>

text \<open>
  \<open>pr_chans\<close> holds the channel of every subscription ever made: its receiver still reads it when the
  registry has forgotten the subscription. \<open>pr_panicked\<close> records a send on or a close of a closed
  channel.
\<close>

record pub_subscription =
  ps_claim :: keep_claim
  ps_done :: bool

record pub_channel =
  pc_buffer :: "pub_event list"
  pc_closed :: bool

record pub_registry =
  pr_buf_size :: nat
  pr_next_id :: nat
  pr_subs :: "(nat \<times> pub_subscription) list"
  pr_closed :: bool
  pr_chans :: "nat \<Rightarrow> pub_channel"
  pr_watchdogs :: "nat list"
  pr_panicked :: bool

definition default_buffer_size :: nat where "default_buffer_size = 64"

definition new_pub_registry :: "int \<Rightarrow> pub_registry" where
  "new_pub_registry buf_size =
     \<lparr>pr_buf_size = (if buf_size \<le> 0 then default_buffer_size else nat buf_size), pr_next_id = 0, pr_subs = [],
      pr_closed = False, pr_chans = (\<lambda>_. \<lparr>pc_buffer = [], pc_closed = False\<rparr>), pr_watchdogs = [],
      pr_panicked = False\<rparr>"

definition close_chan :: "nat \<Rightarrow> pub_registry \<Rightarrow> pub_registry" where
  "close_chan i r =
     (if pc_closed (pr_chans r i) then r\<lparr>pr_panicked := True\<rparr>
      else r\<lparr>pr_chans := (pr_chans r)(i := (pr_chans r i)\<lparr>pc_closed := True\<rparr>)\<rparr>)"

definition close_locked :: "nat \<Rightarrow> pub_registry \<Rightarrow> pub_registry" where
  "close_locked i r =
     (case map_of (pr_subs r) i of
        None \<Rightarrow> r
      | Some s \<Rightarrow>
          (let r1 = (if \<not> ps_done s then close_chan i r else r)
           in r1\<lparr>pr_subs := filter (\<lambda>p. fst p \<noteq> i) (pr_subs r1)\<rparr>))"

text \<open>\<open>removeAndClose\<close>, which \<open>unsub\<close> runs once; a second run finds no subscription.\<close>

definition remove_and_close :: "nat \<Rightarrow> pub_registry \<Rightarrow> pub_registry" where
  "remove_and_close i r = close_locked i r"

text \<open>The id of the new subscription, or \<open>None\<close> for the closed channel of a closed registry.\<close>

definition pub_subscribe :: "keep_claim \<Rightarrow> pub_registry \<Rightarrow> nat option \<times> pub_registry" where
  "pub_subscribe claim r =
     (if pr_closed r then (None, r)
      else (Some (pr_next_id r),
            r\<lparr>pr_next_id := Suc (pr_next_id r),
              pr_subs := pr_subs r @ [(pr_next_id r, \<lparr>ps_claim = claim, ps_done = False\<rparr>)],
              pr_chans := (pr_chans r)(pr_next_id r := \<lparr>pc_buffer = [], pc_closed = False\<rparr>),
              pr_watchdogs := pr_watchdogs r @ [pr_next_id r]\<rparr>))"

text \<open>The watchdog of a subscription, when its context or the registry's \<open>done\<close> fires.\<close>

definition watchdog_fire :: "nat \<Rightarrow> pub_registry \<Rightarrow> pub_registry" where
  "watchdog_fire i r =
     (if i \<in> set (pr_watchdogs r)
      then (remove_and_close i r)\<lparr>pr_watchdogs := filter (\<lambda>j. j \<noteq> i) (pr_watchdogs r)\<rparr> else r)"

text \<open>One round of the loop of \<open>Publish\<close>: the send that does not block, or a victim.\<close>

definition publish_to :: "pub_event \<Rightarrow> pub_registry \<times> nat list \<Rightarrow> nat \<times> pub_subscription \<Rightarrow> pub_registry \<times> nat list" where
  "publish_to ev acc p =
     (case (acc, p) of
        ((r, victims), (i, s)) \<Rightarrow>
          (if kc_scope (ps_claim s) \<noteq> pe_scope ev then (r, victims)
           else if pc_closed (pr_chans r i) then (r\<lparr>pr_panicked := True\<rparr>, victims)
           else if length (pc_buffer (pr_chans r i)) < pr_buf_size r
           then (r\<lparr>pr_chans := (pr_chans r)(i := (pr_chans r i)\<lparr>pc_buffer := pc_buffer (pr_chans r i) @ [ev]\<rparr>)\<rparr>, victims)
           else (r, victims @ [i])))"

definition pub_publish :: "goerr option \<Rightarrow> pub_event \<Rightarrow> pub_registry \<Rightarrow> goerr option \<times> pub_registry" where
  "pub_publish cancelled ev r =
     (case cancelled of
        Some e \<Rightarrow> (Some e, r)
      | None \<Rightarrow>
          if pr_closed r then (None, r)
          else (let (r1, victims) = foldl (publish_to ev) (r, []) (pr_subs r)
                in (None, fold close_locked victims r1)))"

definition pub_close :: "pub_registry \<Rightarrow> pub_registry" where
  "pub_close r =
     (if pr_closed r then r
      else fold close_locked (map fst (pr_subs r)) (r\<lparr>pr_closed := True\<rparr>))"

text \<open>A receiver's receive: an event, or \<open>None\<close> from a channel that is closed and empty.\<close>

definition chan_receive :: "nat \<Rightarrow> pub_registry \<Rightarrow> (pub_event option \<times> pub_registry) option" where
  "chan_receive i r =
     (case pc_buffer (pr_chans r i) of
        ev # rest \<Rightarrow>
          Some (Some ev, r\<lparr>pr_chans := (pr_chans r)(i := (pr_chans r i)\<lparr>pc_buffer := rest\<rparr>)\<rparr>)
      | [] \<Rightarrow> if pc_closed (pr_chans r i) then Some (None, r) else None)"

section \<open>The outbox worker\<close>

record outbox_row =
  ob_id :: uuid
  ob_aggregate_type :: string
  ob_aggregate_id :: uuid
  ob_event_type :: string
  ob_payload :: string
  ob_scope :: string
  ob_created_at :: int
  ob_published_at :: "int option"

definition row_to_event :: "outbox_row \<Rightarrow> pub_event" where
  "row_to_event row = \<lparr>pe_id = ob_id row, pe_scope = ob_scope row, pe_aggregate_type = ob_aggregate_type row,
     pe_aggregate_id = ob_aggregate_id row, pe_event_type = ob_event_type row, pe_payload = ob_payload row,
     pe_created_at = ob_created_at row\<rparr>"

text \<open>
  What a poll meets: the faults of its round trips (\<open>ot_select\<close> stands for the query, a scan or the end
  of the rows), \<open>ctx.Err()\<close> at each publication, the fault of each stamp, the database's clock.
\<close>

record tick_env =
  ot_begin :: "goerr option"
  ot_select :: "goerr option"
  ot_ctx_err :: "nat \<Rightarrow> goerr option"
  ot_stamp :: "nat \<Rightarrow> goerr option"
  ot_commit :: "goerr option"
  ot_now :: int

text \<open>The registry beside what it was handed while open: the events \<open>Publish\<close> fanned out, in order.\<close>

record pub_world =
  pw_reg :: pub_registry
  pw_log :: "pub_event list"

definition world_publish :: "goerr option \<Rightarrow> pub_event \<Rightarrow> pub_world \<Rightarrow> goerr option \<times> pub_world" where
  "world_publish cancelled ev w =
     (case pub_publish cancelled ev (pw_reg w) of
        (e, r) \<Rightarrow> (e, w\<lparr>pw_reg := r,
          pw_log := (if cancelled = None \<and> \<not> pr_closed (pw_reg w) then pw_log w @ [ev] else pw_log w)\<rparr>))"

record outbox_state =
  ox_rows :: "outbox_row list"
  ox_world :: pub_world
  ox_errors :: nat
  ox_successes :: nat

definition pending_batch :: "outbox_row list \<Rightarrow> outbox_row list" where
  "pending_batch rows = sort_key ob_created_at (filter (\<lambda>row. ob_published_at row = None) rows)"

definition stamp_rows :: "int \<Rightarrow> uuid list \<Rightarrow> outbox_row list \<Rightarrow> outbox_row list" where
  "stamp_rows now ids rows =
     map (\<lambda>row. if ob_id row \<in> set ids then row\<lparr>ob_published_at := Some now\<rparr> else row) rows"

text \<open>
  A poll under way: its environment, the number of rows it has been through, the rows left, the ids
  stamped inside the transaction. The rows are locked; the registry is not, so that a poll is cut at
  each publication.
\<close>

record poll =
  po_env :: tick_env
  po_done :: nat
  po_left :: "outbox_row list"
  po_stamped :: "uuid list"

definition tick_begin :: "tick_env \<Rightarrow> outbox_state \<Rightarrow> goerr + poll" where
  "tick_begin E s =
     (case ot_begin E of
        Some e \<Rightarrow> Inl e
      | None \<Rightarrow>
          (case ot_select E of
             Some e \<Rightarrow> Inl e
           | None \<Rightarrow> Inr \<lparr>po_env = E, po_done = 0, po_left = pending_batch (ox_rows s), po_stamped = []\<rparr>))"

text \<open>One round of the loop; a stamp that fails ends the poll and rolls it back.\<close>

definition tick_row :: "poll \<Rightarrow> outbox_row \<Rightarrow> outbox_row list \<Rightarrow> outbox_state \<Rightarrow> (goerr + poll) \<times> outbox_state" where
  "tick_row p row rows s =
     (case world_publish (ot_ctx_err (po_env p) (po_done p)) (row_to_event row) (ox_world s) of
        (Some e, w) \<Rightarrow> (Inr (p\<lparr>po_done := Suc (po_done p), po_left := rows\<rparr>),
                         s\<lparr>ox_world := w, ox_errors := Suc (ox_errors s)\<rparr>)
      | (None, w) \<Rightarrow>
          (case ot_stamp (po_env p) (po_done p) of
             Some e \<Rightarrow> (Inl e, s\<lparr>ox_world := w\<rparr>)
           | None \<Rightarrow> (Inr (p\<lparr>po_done := Suc (po_done p), po_left := rows, po_stamped := po_stamped p @ [ob_id row]\<rparr>),
                      s\<lparr>ox_world := w\<rparr>)))"

definition tick_commit :: "poll \<Rightarrow> outbox_state \<Rightarrow> goerr option \<times> outbox_state" where
  "tick_commit p s =
     (case ot_commit (po_env p) of
        Some e \<Rightarrow> (Some e, s\<lparr>ox_errors := Suc (ox_errors s)\<rparr>)
      | None \<Rightarrow> (None, s\<lparr>ox_rows := stamp_rows (ot_now (po_env p)) (po_stamped p) (ox_rows s),
                        ox_successes := ox_successes s + length (po_stamped p)\<rparr>))"

text \<open>The next step of a poll: the poll that goes on, or \<open>None\<close> when it is over.\<close>

definition tick_step :: "poll \<Rightarrow> outbox_state \<Rightarrow> poll option \<times> outbox_state" where
  "tick_step p s =
     (case po_left p of
        [] \<Rightarrow> (None, snd (tick_commit p s))
      | row # rows \<Rightarrow> (case tick_row p row rows s of (Inl e, s1) \<Rightarrow> (None, s1) | (Inr p1, s1) \<Rightarrow> (Some p1, s1)))"

section \<open>The subscription handler\<close>

text \<open>
  What wakes the loop of the handler: the request's context, an event or the end of the channel, the
  ticker. \<open>write n\<close> is, for a write that fails, how much of it was written before.
\<close>

datatype stream_signal = SigDone | SigEvent pub_event | SigChanClosed | SigTick

text \<open>The bytes written, and whether the handler returned.\<close>

fun subscribe_loop :: "(uuid \<Rightarrow> string) \<Rightarrow> (nat \<Rightarrow> nat option) \<Rightarrow> nat \<Rightarrow> stream_signal list \<Rightarrow> string \<times> bool" where
  "subscribe_loop u fault n [] = ([], False)"
| "subscribe_loop u fault n (SigDone # sigs) = ([], True)"
| "subscribe_loop u fault n (SigChanClosed # sigs) = ([], True)"
| "subscribe_loop u fault n (SigEvent ev # sigs) =
     (case fault n of
        Some k \<Rightarrow> (take k (write_sse_event u ev), True)
      | None \<Rightarrow> (case subscribe_loop u fault (Suc n) sigs of (out, ended) \<Rightarrow> (write_sse_event u ev @ out, ended)))"
| "subscribe_loop u fault n (SigTick # sigs) =
     (case fault n of
        Some k \<Rightarrow> (take k heartbeat_frame, True)
      | None \<Rightarrow> (case subscribe_loop u fault (Suc n) sigs of (out, ended) \<Rightarrow> (heartbeat_frame @ out, ended)))"

datatype subscribe_answer = SubscribeError nat string | SubscribeHeadersOnly | SubscribeStream

definition handle_subscribe :: "keep_claim option \<Rightarrow> bool \<Rightarrow> subscribe_answer" where
  "handle_subscribe claim flusher =
     (case claim of
        None \<Rightarrow> SubscribeError 401 ''unauthorized''
      | Some c \<Rightarrow>
          (case role_for_scope (kc_scope c) of
             Inl _ \<Rightarrow> SubscribeError 400 ''bad_scope''
           | Inr _ \<Rightarrow> if flusher then SubscribeStream else SubscribeHeadersOnly))"

section \<open>The server\<close>

text \<open>
  The parts together. \<open>kx_taken i\<close> is what the receiver of subscription \<open>i\<close> has taken, \<open>kx_claim i\<close> its
  claim and \<open>kx_since i\<close> the length of the log when it was made.
\<close>

record keep_stream =
  kx_outbox :: outbox_state
  kx_worker :: bool
  kx_poll :: "poll option"
  kx_taken :: "nat \<Rightarrow> pub_event list"
  kx_claim :: "nat \<Rightarrow> keep_claim"
  kx_since :: "nat \<Rightarrow> nat"

abbreviation kx_reg :: "keep_stream \<Rightarrow> pub_registry" where "kx_reg s \<equiv> pw_reg (ox_world (kx_outbox s))"
abbreviation kx_log :: "keep_stream \<Rightarrow> pub_event list" where "kx_log s \<equiv> pw_log (ox_world (kx_outbox s))"

definition with_reg :: "(pub_registry \<Rightarrow> pub_registry) \<Rightarrow> keep_stream \<Rightarrow> keep_stream" where
  "with_reg f s = s\<lparr>kx_outbox := (kx_outbox s)\<lparr>ox_world := (ox_world (kx_outbox s))\<lparr>pw_reg := f (kx_reg s)\<rparr>\<rparr>\<rparr>"

text \<open>
  The steps: a row is committed to the outbox by whoever writes it, the worker polls while it runs, a
  request subscribes, its handler receives or leaves, a watchdog fires; and \<open>Run\<close> stops the worker,
  waits for it, and only then closes the registry.
\<close>

datatype stream_step =
    StepRow outbox_row
  | StepTick tick_env
  | StepPoll
  | StepSubscribe keep_claim
  | StepReceive nat
  | StepUnsubscribe nat
  | StepWatchdog nat
  | StepStopWorker
  | StepCloseRegistry

definition stream_step :: "stream_step \<Rightarrow> keep_stream \<Rightarrow> keep_stream" where
  "stream_step st s =
     (case st of
        StepRow row \<Rightarrow>
          (if ob_published_at row = None \<and> ob_id row \<notin> ob_id ` set (ox_rows (kx_outbox s))
           then s\<lparr>kx_outbox := (kx_outbox s)\<lparr>ox_rows := ox_rows (kx_outbox s) @ [row]\<rparr>\<rparr> else s)
      | StepTick E \<Rightarrow>
          (if kx_worker s \<and> kx_poll s = None
           then (case tick_begin E (kx_outbox s) of Inl _ \<Rightarrow> s | Inr p \<Rightarrow> s\<lparr>kx_poll := Some p\<rparr>) else s)
      | StepPoll \<Rightarrow>
          (case kx_poll s of
             None \<Rightarrow> s
           | Some p \<Rightarrow> (case tick_step p (kx_outbox s) of (q, o') \<Rightarrow> s\<lparr>kx_poll := q, kx_outbox := o'\<rparr>))
      | StepSubscribe c \<Rightarrow>
          (if handle_subscribe (Some c) True \<noteq> SubscribeStream then s
           else (case pub_subscribe c (kx_reg s) of
              (None, _) \<Rightarrow> s
            | (Some i, r) \<Rightarrow> (with_reg (\<lambda>_. r) s)\<lparr>kx_claim := (kx_claim s)(i := c),
                                kx_since := (kx_since s)(i := length (kx_log s)),
                                kx_taken := (kx_taken s)(i := [])\<rparr>))
      | StepReceive i \<Rightarrow>
          (case chan_receive i (kx_reg s) of
             Some (Some ev, r) \<Rightarrow> (with_reg (\<lambda>_. r) s)\<lparr>kx_taken := (kx_taken s)(i := kx_taken s i @ [ev])\<rparr>
           | _ \<Rightarrow> s)
      | StepUnsubscribe i \<Rightarrow> with_reg (remove_and_close i) s
      | StepWatchdog i \<Rightarrow> with_reg (watchdog_fire i) s
      | StepStopWorker \<Rightarrow> if kx_poll s = None then s\<lparr>kx_worker := False\<rparr> else s
      | StepCloseRegistry \<Rightarrow> if kx_worker s then s else with_reg pub_close s)"

definition stream_run :: "stream_step list \<Rightarrow> keep_stream \<Rightarrow> keep_stream" where
  "stream_run steps s = foldl (\<lambda>s st. stream_step st s) s steps"

definition new_stream :: "int \<Rightarrow> keep_stream" where
  "new_stream buf_size =
     \<lparr>kx_outbox = \<lparr>ox_rows = [], ox_world = \<lparr>pw_reg = new_pub_registry buf_size, pw_log = []\<rparr>, ox_errors = 0,
        ox_successes = 0\<rparr>,
      kx_worker = True, kx_poll = None, kx_taken = (\<lambda>_. []), kx_claim = undefined, kx_since = (\<lambda>_. 0)\<rparr>"

end
