(* ===== verification/PublishStream.thy ===== *)
theory PublishStream
  imports PublishRegistry
begin

text \<open>
  What the server's side of the event stream guarantees under every interleaving of writers, polls,
  subscriptions, receivers and the shutdown: no channel is misused, a subscriber gets the events of its
  scope without a gap until it is cut off, a row is marked published only when it was fanned out; and
  what a client reads from the bytes of a handler.
\<close>

section \<open>Closing\<close>

text \<open>The registry still holds the subscription.\<close>

definition live :: "pub_registry \<Rightarrow> nat \<Rightarrow> bool" where
  "live r i \<longleftrightarrow> i \<in> fst ` set (pr_subs r)"

definition open_subs :: "pub_registry \<Rightarrow> bool" where
  "open_subs r \<longleftrightarrow> distinct (map fst (pr_subs r))
     \<and> (\<forall>p \<in> set (pr_subs r). \<not> ps_done (snd p) \<and> \<not> pc_closed (pr_chans r (fst p)))"

definition closed_chans :: "nat list \<Rightarrow> pub_registry \<Rightarrow> pub_registry" where
  "closed_chans is r =
     r\<lparr>pr_chans := (\<lambda>i. if i \<in> set is then (pr_chans r i)\<lparr>pc_closed := True\<rparr> else pr_chans r i),
       pr_subs := filter (\<lambda>p. fst p \<notin> set is) (pr_subs r)\<rparr>"

lemma close_locked_open:
  assumes "open_subs r" "i \<in> fst ` set (pr_subs r)"
  shows "close_locked i r = closed_chans [i] r"
proof -
  obtain s where s: "map_of (pr_subs r) i = Some s" "(i, s) \<in> set (pr_subs r)"
    using assms by (metis map_of_eq_None_iff map_of_SomeD not_None_eq)
  then have "\<not> ps_done s" "\<not> pc_closed (pr_chans r i)"
    using assms(1) by (auto simp: open_subs_def)
  then show ?thesis
    using s(1) by (simp add: close_locked_def close_chan_def closed_chans_def fun_eq_iff)
qed

lemma close_locked_absent: "i \<notin> fst ` set (pr_subs r) \<Longrightarrow> close_locked i r = r"
proof -
  assume "i \<notin> fst ` set (pr_subs r)"
  then have "map_of (pr_subs r) i = None"
    by (simp add: map_of_eq_None_iff)
  then show ?thesis
    by (simp add: close_locked_def)
qed

lemma open_closed_chans: "open_subs r \<Longrightarrow> open_subs (closed_chans is r)"
  by (auto simp: open_subs_def closed_chans_def distinct_map_filter)

lemma closed_chans_twice: "closed_chans js (closed_chans is r) = closed_chans (is @ js) r"
  by (auto simp: closed_chans_def fun_eq_iff intro: filter_cong)

lemma fold_close_open:
  assumes "open_subs r" "distinct is" "set is \<subseteq> fst ` set (pr_subs r)"
  shows "fold close_locked is r = closed_chans is r"
  using assms
proof (induction "is" arbitrary: r)
  case (Cons i "is")
  have "close_locked i r = closed_chans [i] r"
    using Cons.prems by (intro close_locked_open) auto
  moreover have "fold close_locked is (closed_chans [i] r) = closed_chans is (closed_chans [i] r)"
    using Cons.prems by (intro Cons.IH open_closed_chans) (fastforce simp: closed_chans_def image_iff)+
  ultimately show ?case
    by (simp add: closed_chans_twice)
qed (simp add: closed_chans_def)

section \<open>Publishing\<close>

definition wants :: "pub_event \<Rightarrow> pub_subscription \<Rightarrow> bool" where
  "wants ev s \<longleftrightarrow> kc_scope (ps_claim s) = pe_scope ev"

definition has_room :: "pub_registry \<Rightarrow> nat \<Rightarrow> bool" where
  "has_room r i \<longleftrightarrow> length (pc_buffer (pr_chans r i)) < pr_buf_size r"

definition sent_to :: "pub_event \<Rightarrow> (nat \<times> pub_subscription) list \<Rightarrow> pub_registry \<Rightarrow> pub_registry" where
  "sent_to ev subs r =
     r\<lparr>pr_chans := (\<lambda>i. if (\<exists>s. (i, s) \<in> set subs \<and> wants ev s) \<and> has_room r i
        then (pr_chans r i)\<lparr>pc_buffer := pc_buffer (pr_chans r i) @ [ev]\<rparr> else pr_chans r i)\<rparr>"

definition victims_of :: "pub_event \<Rightarrow> (nat \<times> pub_subscription) list \<Rightarrow> pub_registry \<Rightarrow> nat list" where
  "victims_of ev subs r = map fst (filter (\<lambda>p. wants ev (snd p) \<and> \<not> has_room r (fst p)) subs)"

lemma foldl_publish_to:
  assumes "distinct (map fst subs)" "\<forall>p \<in> set subs. \<not> pc_closed (pr_chans r (fst p))"
  shows "foldl (publish_to ev) (r, vs) subs = (sent_to ev subs r, vs @ victims_of ev subs r)"
  using assms
proof (induction subs arbitrary: r vs)
  case Nil
  then show ?case
    by (simp add: sent_to_def victims_of_def)
next
  case (Cons p subs)
  obtain i s where p: "p = (i, s)"
    by (cases p)
  have i: "i \<notin> fst ` set subs" "\<not> pc_closed (pr_chans r i)"
    using Cons.prems p by auto
  let ?r = "fst (publish_to ev (r, vs) p)"
  have r: "publish_to ev (r, vs) p
      = (if wants ev s \<and> has_room r i
         then r\<lparr>pr_chans := (pr_chans r)(i := (pr_chans r i)\<lparr>pc_buffer := pc_buffer (pr_chans r i) @ [ev]\<rparr>)\<rparr> else r,
         if wants ev s \<and> \<not> has_room r i then vs @ [i] else vs)"
    using i(2) by (simp add: publish_to_def p wants_def has_room_def)
  have same: "pr_chans ?r j = pr_chans r j" if "j \<noteq> i" for j
    using that by (simp add: r)
  have room: "has_room ?r j = has_room r j" if "j \<noteq> i" for j
    using that by (simp add: has_room_def r)
  have "fst q \<noteq> i" if "q \<in> set subs" for q
    using i(1) that by auto
  then have "victims_of ev subs ?r = victims_of ev subs r"
    unfolding victims_of_def using room by (metis (no_types, lifting) filter_cong)
  moreover have "foldl (publish_to ev) (?r, snd (publish_to ev (r, vs) p)) subs
      = (sent_to ev subs ?r, snd (publish_to ev (r, vs) p) @ victims_of ev subs ?r)"
    using Cons.prems i(1) same by (intro Cons.IH) (fastforce simp: p)+
  moreover have "pr_chans (sent_to ev subs ?r) j = pr_chans (sent_to ev (p # subs) r) j" for j
  proof (cases "j = i")
    case True
    have "(i, s') \<notin> set subs" for s'
      using i(1) by force
    with True show ?thesis
      by (auto simp: sent_to_def r [unfolded p] p has_room_def)
  next
    case False
    with same [OF False] room [OF False] show ?thesis
      by (simp add: sent_to_def p)
  qed
  then have "sent_to ev subs ?r = sent_to ev (p # subs) r"
    by (simp add: sent_to_def r fun_eq_iff)
  ultimately show ?case
    by (simp add: r [unfolded p] p victims_of_def)
qed

lemma pub_publish_open:
  assumes "open_subs r" "\<not> pr_closed r"
  shows "pub_publish None ev r = (None, closed_chans (victims_of ev (pr_subs r) r) (sent_to ev (pr_subs r) r))"
proof -
  have "open_subs (sent_to ev (pr_subs r) r)"
    using assms(1) by (auto simp: open_subs_def sent_to_def)
  moreover have "distinct (victims_of ev (pr_subs r) r)"
    using assms(1) by (auto simp: victims_of_def open_subs_def distinct_map_filter)
  ultimately have "fold close_locked (victims_of ev (pr_subs r) r) (sent_to ev (pr_subs r) r)
      = closed_chans (victims_of ev (pr_subs r) r) (sent_to ev (pr_subs r) r)"
    by (intro fold_close_open) (auto simp: victims_of_def sent_to_def)
  then show ?thesis
    using assms foldl_publish_to [of "pr_subs r" r ev "[]"] by (simp add: pub_publish_def open_subs_def)
qed

section \<open>The invariant\<close>

text \<open>
  What a subscription is due: the events of its scope fanned out since it was made. What its receiver
  has taken and what waits in its channel is a prefix of that, and all of it while it is live.
\<close>

definition due :: "keep_claim \<Rightarrow> nat \<Rightarrow> pub_event list \<Rightarrow> pub_event list" where
  "due c n log = filter (\<lambda>ev. pe_scope ev = kc_scope c) (drop n log)"

definition sub_ok ::
  "keep_claim \<Rightarrow> nat \<Rightarrow> pub_event list \<Rightarrow> pub_event list \<Rightarrow> nat \<Rightarrow> bool \<Rightarrow> pub_channel \<Rightarrow> bool" where
  "sub_ok c n log taken cap alive ch \<longleftrightarrow>
     n \<le> length log \<and> prefix (taken @ pc_buffer ch) (due c n log) \<and> length (pc_buffer ch) \<le> cap
     \<and> (if alive then taken @ pc_buffer ch = due c n log else pc_closed ch)"

lemma due_snoc:
  "n \<le> length log \<Longrightarrow> due c n (log @ [ev]) = due c n log @ (if pe_scope ev = kc_scope c then [ev] else [])"
  by (simp add: due_def)

lemma sub_ok_cut: "sub_ok c n log taken cap alive ch \<Longrightarrow> sub_ok c n log taken cap False (ch\<lparr>pc_closed := True\<rparr>)"
  by (simp add: sub_ok_def)

lemma sub_ok_sent:
  "sub_ok c n log taken cap True ch \<Longrightarrow> pe_scope ev = kc_scope c \<Longrightarrow> length (pc_buffer ch) < cap
    \<Longrightarrow> sub_ok c n (log @ [ev]) taken cap True (ch\<lparr>pc_buffer := pc_buffer ch @ [ev]\<rparr>)"
  by (auto simp: sub_ok_def due_snoc)

lemma sub_ok_later:
  "sub_ok c n log taken cap alive ch \<Longrightarrow> \<not> alive \<or> pe_scope ev \<noteq> kc_scope c
    \<Longrightarrow> sub_ok c n (log @ [ev]) taken cap alive ch"
  by (auto simp: sub_ok_def due_snoc prefix_def)

lemma sub_ok_dropped:
  "sub_ok c n log taken cap alive ch \<Longrightarrow> sub_ok c n (log @ [ev]) taken cap False (ch\<lparr>pc_closed := True\<rparr>)"
  using sub_ok_later [OF sub_ok_cut] by blast

lemma sub_ok_taken:
  "sub_ok c n log taken cap alive ch \<Longrightarrow> pc_buffer ch = ev # rest
    \<Longrightarrow> sub_ok c n log (taken @ [ev]) cap alive (ch\<lparr>pc_buffer := rest\<rparr>)"
  by (auto simp: sub_ok_def)

definition stream_ok :: "keep_stream \<Rightarrow> bool" where
  "stream_ok s \<longleftrightarrow>
     open_subs (kx_reg s) \<and> \<not> pr_panicked (kx_reg s) \<and> 0 < pr_buf_size (kx_reg s)
     \<and> (pr_closed (kx_reg s) \<longrightarrow> pr_subs (kx_reg s) = [])
     \<and> (\<forall>p \<in> set (pr_subs (kx_reg s)). fst p < pr_next_id (kx_reg s) \<and> ps_claim (snd p) = kx_claim s (fst p))
     \<and> (\<forall>i < pr_next_id (kx_reg s). sub_ok (kx_claim s i) (kx_since s i) (kx_log s) (kx_taken s i)
          (pr_buf_size (kx_reg s)) (live (kx_reg s) i) (pr_chans (kx_reg s) i))"

lemma stream_okI:
  assumes "open_subs (kx_reg s)" "\<not> pr_panicked (kx_reg s)" "0 < pr_buf_size (kx_reg s)"
    "pr_closed (kx_reg s) \<Longrightarrow> pr_subs (kx_reg s) = []"
    "\<And>i sub. (i, sub) \<in> set (pr_subs (kx_reg s)) \<Longrightarrow> i < pr_next_id (kx_reg s) \<and> ps_claim sub = kx_claim s i"
    "\<And>i. i < pr_next_id (kx_reg s) \<Longrightarrow> sub_ok (kx_claim s i) (kx_since s i) (kx_log s) (kx_taken s i)
          (pr_buf_size (kx_reg s)) (live (kx_reg s) i) (pr_chans (kx_reg s) i)"
  shows "stream_ok s"
  unfolding stream_ok_def using assms by fastforce

lemma stream_okD:
  assumes "stream_ok s"
  shows "open_subs (kx_reg s)" "\<not> pr_panicked (kx_reg s)" "0 < pr_buf_size (kx_reg s)"
    "pr_closed (kx_reg s) \<Longrightarrow> pr_subs (kx_reg s) = []"
    "\<And>i sub. (i, sub) \<in> set (pr_subs (kx_reg s)) \<Longrightarrow> i < pr_next_id (kx_reg s) \<and> ps_claim sub = kx_claim s i"
    "\<And>i. i < pr_next_id (kx_reg s) \<Longrightarrow> sub_ok (kx_claim s i) (kx_since s i) (kx_log s) (kx_taken s i)
          (pr_buf_size (kx_reg s)) (live (kx_reg s) i) (pr_chans (kx_reg s) i)"
  using assms unfolding stream_ok_def by fastforce+

lemma closed_chans_simps [simp]:
  "pr_panicked (closed_chans is r) = pr_panicked r" "pr_buf_size (closed_chans is r) = pr_buf_size r"
  "pr_closed (closed_chans is r) = pr_closed r" "pr_next_id (closed_chans is r) = pr_next_id r"
  "pr_subs (closed_chans is r) = filter (\<lambda>p. fst p \<notin> set is) (pr_subs r)"
  "pr_chans (closed_chans is r) i = (if i \<in> set is then (pr_chans r i)\<lparr>pc_closed := True\<rparr> else pr_chans r i)"
  "live (closed_chans is r) i \<longleftrightarrow> live r i \<and> i \<notin> set is"
  by (auto simp: closed_chans_def live_def)

lemma sent_to_simps [simp]:
  "pr_panicked (sent_to ev subs r) = pr_panicked r" "pr_buf_size (sent_to ev subs r) = pr_buf_size r"
  "pr_closed (sent_to ev subs r) = pr_closed r" "pr_next_id (sent_to ev subs r) = pr_next_id r"
  "pr_subs (sent_to ev subs r) = pr_subs r"
  "pc_closed (pr_chans (sent_to ev subs r) i) = pc_closed (pr_chans r i)" "live (sent_to ev subs r) i = live r i"
  by (simp_all add: sent_to_def live_def)

lemma with_reg_simps [simp]:
  "kx_reg (with_reg f s) = f (kx_reg s)" "kx_log (with_reg f s) = kx_log s" "kx_taken (with_reg f s) = kx_taken s"
  "kx_claim (with_reg f s) = kx_claim s" "kx_since (with_reg f s) = kx_since s" "kx_worker (with_reg f s) = kx_worker s"
  "kx_poll (with_reg f s) = kx_poll s" "ox_rows (kx_outbox (with_reg f s)) = ox_rows (kx_outbox s)"
  by (simp_all add: with_reg_def)

text \<open>The parts of the state the invariant is about.\<close>

definition same_history :: "keep_stream \<Rightarrow> keep_stream \<Rightarrow> bool" where
  "same_history s s' \<longleftrightarrow> kx_log s' = kx_log s \<and> kx_taken s' = kx_taken s \<and> kx_claim s' = kx_claim s
     \<and> kx_since s' = kx_since s"

lemma stream_ok_cut:
  assumes ok: "stream_ok s" and "kx_reg s' = closed_chans is (kx_reg s)" "same_history s s'"
  shows "stream_ok s'"
proof -
  have "sub_ok (kx_claim s i) (kx_since s i) (kx_log s) (kx_taken s i) (pr_buf_size (kx_reg s))
      (live (kx_reg s) i \<and> i \<notin> set is)
      (if i \<in> set is then (pr_chans (kx_reg s) i)\<lparr>pc_closed := True\<rparr> else pr_chans (kx_reg s) i)"
    if "i < pr_next_id (kx_reg s)" for i
    using ok that sub_ok_cut by (auto simp: stream_ok_def)
  moreover have "open_subs (closed_chans is (kx_reg s))"
    using ok open_closed_chans by (simp add: stream_ok_def)
  ultimately show ?thesis
    using assms by (auto simp: stream_ok_def same_history_def)
qed

text \<open>An event fanned out.\<close>

lemma live_sub:
  assumes "stream_ok s" "(i, sub) \<in> set (pr_subs (kx_reg s))"
  shows "i < pr_next_id (kx_reg s)" "ps_claim sub = kx_claim s i" "live (kx_reg s) i"
proof -
  have "\<forall>p \<in> set (pr_subs (kx_reg s)). fst p < pr_next_id (kx_reg s) \<and> ps_claim (snd p) = kx_claim s (fst p)"
    using assms(1) by (simp add: stream_ok_def)
  with assms(2) show "i < pr_next_id (kx_reg s)" "ps_claim sub = kx_claim s i"
    by auto
  from assms(2) show "live (kx_reg s) i"
    unfolding live_def by force
qed

lemma stream_ok_publish:
  assumes ok: "stream_ok s" and "\<not> pr_closed (kx_reg s)"
    and reg: "kx_reg s' = snd (pub_publish None ev (kx_reg s))" and log: "kx_log s' = kx_log s @ [ev]"
    and same: "kx_taken s' = kx_taken s" "kx_claim s' = kx_claim s" "kx_since s' = kx_since s"
  shows "stream_ok s'"
proof -
  let ?r = "kx_reg s" and ?subs = "pr_subs (kx_reg s)"
  let ?vs = "victims_of ev ?subs ?r"
  have subs: "open_subs ?r"
    using ok by (simp add: stream_ok_def)
  have r: "kx_reg s' = closed_chans ?vs (sent_to ev ?subs ?r)"
    using pub_publish_open [OF subs assms(2)] reg by simp
  have "sub_ok (kx_claim s i) (kx_since s i) (kx_log s @ [ev]) (kx_taken s i) (pr_buf_size ?r)
      (live ?r i \<and> i \<notin> set ?vs) (pr_chans (closed_chans ?vs (sent_to ev ?subs ?r)) i)" if i: "i < pr_next_id ?r" for i
  proof -
    have old: "sub_ok (kx_claim s i) (kx_since s i) (kx_log s) (kx_taken s i) (pr_buf_size ?r) (live ?r i) (pr_chans ?r i)"
      using ok i by (simp add: stream_ok_def)
    consider (victim) "i \<in> set ?vs"
      | (sent) "i \<notin> set ?vs" "\<exists>sub. (i, sub) \<in> set ?subs \<and> wants ev sub"
      | (other) "i \<notin> set ?vs" "\<nexists>sub. (i, sub) \<in> set ?subs \<and> wants ev sub"
      by blast
    then show ?thesis
    proof cases
      case victim
      then have "\<not> has_room ?r i"
        by (auto simp: victims_of_def)
      with victim show ?thesis
        using sub_ok_dropped [OF old] by (simp add: sent_to_def)
    next
      case sent
      then obtain sub where sub: "(i, sub) \<in> set ?subs" "wants ev sub"
        by blast
      with sent(1) have room: "has_room ?r i"
        by (force simp: victims_of_def)
      have "live ?r i" "pe_scope ev = kc_scope (kx_claim s i)"
        using live_sub [OF ok sub(1)] sub(2) by (simp_all add: wants_def)
      then show ?thesis
        using sent room sub_ok_sent [of "kx_claim s i" "kx_since s i" "kx_log s" "kx_taken s i" "pr_buf_size ?r" "pr_chans ?r i" ev] old
        by (auto simp: sent_to_def has_room_def)
    next
      case other
      then have "\<not> live ?r i \<or> pe_scope ev \<noteq> kc_scope (kx_claim s i)"
        using live_sub(2) [OF ok] by (force simp: live_def wants_def)
      then show ?thesis
        using other sub_ok_later [OF old] by (auto simp: sent_to_def)
    qed
  qed
  moreover have "open_subs (closed_chans ?vs (sent_to ev ?subs ?r))"
    using subs by (intro open_closed_chans) (simp add: open_subs_def)
  ultimately show ?thesis
    using ok assms(2) by (auto simp: stream_ok_def r log same)
qed

lemma stream_ok_frame:
  assumes "stream_ok s" "kx_reg s' = kx_reg s" "same_history s s'"
  shows "stream_ok s'"
  using assms by (simp add: stream_ok_def same_history_def)

lemma stream_ok_remove: "stream_ok s \<Longrightarrow> kx_reg s' = remove_and_close i (kx_reg s) \<Longrightarrow> same_history s s' \<Longrightarrow> stream_ok s'"
proof (cases "i \<in> fst ` set (pr_subs (kx_reg s))")
  case True
  assume "stream_ok s" "kx_reg s' = remove_and_close i (kx_reg s)" "same_history s s'"
  with True show ?thesis
    using stream_ok_cut [of s s' "[i]"] close_locked_open [of "kx_reg s" i]
    by (simp add: stream_ok_def remove_and_close_def)
qed (simp add: remove_and_close_def close_locked_absent stream_ok_frame)

lemma stream_ok_watchdog:
  assumes "stream_ok s" "kx_reg s' = watchdog_fire i (kx_reg s)" "same_history s s'"
  shows "stream_ok s'"
proof (cases "i \<in> set (pr_watchdogs (kx_reg s))")
  case True
  have "stream_ok (with_reg (remove_and_close i) s)"
    using assms(1) by (rule stream_ok_remove) (simp_all add: same_history_def)
  with True assms(2,3) show ?thesis
    by (simp add: stream_ok_def same_history_def watchdog_fire_def open_subs_def live_def)
next
  case False
  show ?thesis
    by (rule stream_ok_frame [OF assms(1)]) (use False assms in \<open>simp_all add: watchdog_fire_def\<close>)
qed

lemma stream_ok_close:
  assumes ok: "stream_ok s" and "kx_reg s' = pub_close (kx_reg s)" "same_history s s'"
  shows "stream_ok s'"
proof (cases "pr_closed (kx_reg s)")
  case True
  show ?thesis
    by (rule stream_ok_frame [OF assms(1)]) (use True assms in \<open>simp_all add: pub_close_def\<close>)
next
  case False
  let ?r = "kx_reg s" and ?ids = "map fst (pr_subs (kx_reg s))"
  have "open_subs (?r\<lparr>pr_closed := True\<rparr>)" "distinct ?ids"
    using ok by (simp_all add: stream_ok_def open_subs_def)
  then have r: "pub_close ?r = closed_chans ?ids (?r\<lparr>pr_closed := True\<rparr>)"
    using False by (simp add: pub_close_def fold_close_open)
  have cut: "stream_ok (with_reg (closed_chans ?ids) s)"
    using ok by (rule stream_ok_cut) (simp_all add: same_history_def)
  have "filter (\<lambda>p. fst p \<notin> fst ` set (pr_subs ?r)) (pr_subs ?r) = []"
    by (auto simp: filter_empty_conv)
  with cut assms(2,3) show ?thesis
    by (simp add: stream_ok_def same_history_def r open_subs_def live_def split: if_split_asm) metis
qed

lemma stream_ok_subscribe:
  assumes ok: "stream_ok s" and sub: "pub_subscribe c (kx_reg s) = (Some i, r)"
    and "kx_reg s' = r" "kx_log s' = kx_log s" "kx_claim s' = (kx_claim s)(i := c)"
    "kx_since s' = (kx_since s)(i := length (kx_log s))" "kx_taken s' = (kx_taken s)(i := [])"
  shows "stream_ok s'"
proof -
  have i: "i = pr_next_id (kx_reg s)" "\<not> pr_closed (kx_reg s)"
    using sub by (auto simp: pub_subscribe_def split: if_splits)
  have r: "r = (kx_reg s)\<lparr>pr_next_id := Suc i, pr_subs := pr_subs (kx_reg s) @ [(i, \<lparr>ps_claim = c, ps_done = False\<rparr>)],
      pr_chans := (pr_chans (kx_reg s))(i := \<lparr>pc_buffer = [], pc_closed = False\<rparr>),
      pr_watchdogs := pr_watchdogs (kx_reg s) @ [i]\<rparr>"
    using sub i by (auto simp: pub_subscribe_def)
  have old: "j < i" if "(j, x) \<in> set (pr_subs (kx_reg s))" for j x
    using stream_okD(5) [OF ok that] i(1) by simp
  then have fresh: "i \<notin> fst ` set (pr_subs (kx_reg s))"
    by force
  show ?thesis
  proof (rule stream_okI)
    show "open_subs (kx_reg s')"
      using stream_okD(1) [OF ok] fresh old by (auto simp: assms(3) r open_subs_def)
    show "j < pr_next_id (kx_reg s') \<and> ps_claim x = kx_claim s' j" if "(j, x) \<in> set (pr_subs (kx_reg s'))" for j x
      using that stream_okD(5) [OF ok, of j x] i(1) by (auto simp: assms(3,5) r)
    show "sub_ok (kx_claim s' j) (kx_since s' j) (kx_log s') (kx_taken s' j) (pr_buf_size (kx_reg s'))
        (live (kx_reg s') j) (pr_chans (kx_reg s') j)" if "j < pr_next_id (kx_reg s')" for j
    proof (cases "j = i")
      case True
      then show ?thesis
        by (simp add: assms(3-) r live_def sub_ok_def due_def)
    next
      case False
      then have "j < pr_next_id (kx_reg s)" "live (kx_reg s') j = live (kx_reg s) j"
        using that i(1) by (auto simp: assms(3) r live_def)
      with False stream_okD(6) [OF ok] show ?thesis
        by (simp add: assms(3-) r)
    qed
  qed (use stream_okD(2,3) [OF ok] i(2) in \<open>simp_all add: assms(3) r\<close>)
qed

lemma stream_ok_receive:
  assumes ok: "stream_ok s" and rec: "chan_receive i (kx_reg s) = Some (Some ev, r)"
    and "kx_reg s' = r" "kx_log s' = kx_log s" "kx_claim s' = kx_claim s" "kx_since s' = kx_since s"
    "kx_taken s' = (kx_taken s)(i := kx_taken s i @ [ev])"
  shows "stream_ok s'"
proof -
  obtain rest where buf: "pc_buffer (pr_chans (kx_reg s) i) = ev # rest"
    and r: "r = (kx_reg s)\<lparr>pr_chans := (pr_chans (kx_reg s))(i := (pr_chans (kx_reg s) i)\<lparr>pc_buffer := rest\<rparr>)\<rparr>"
    using rec by (auto simp: chan_receive_def split: list.splits if_splits)
  have "sub_ok (kx_claim s i) (kx_since s i) (kx_log s) (kx_taken s i @ [ev]) (pr_buf_size (kx_reg s)) (live (kx_reg s) i)
      ((pr_chans (kx_reg s) i)\<lparr>pc_buffer := rest\<rparr>)" if "i < pr_next_id (kx_reg s)"
    using ok that sub_ok_taken [OF _ buf] by (simp add: stream_ok_def)
  moreover have "open_subs r"
    using ok by (auto simp: stream_ok_def r open_subs_def)
  ultimately show ?thesis
    using ok assms(3-) by (auto simp: stream_ok_def r live_def)
qed

section \<open>The outbox\<close>

definition outbox_ok :: "keep_stream \<Rightarrow> bool" where
  "outbox_ok s \<longleftrightarrow>
     distinct (map ob_id (ox_rows (kx_outbox s)))
     \<and> (\<forall>row \<in> set (ox_rows (kx_outbox s)). ob_published_at row \<noteq> None \<longrightarrow> row_to_event row \<in> set (kx_log s))
     \<and> (pr_closed (kx_reg s) \<longrightarrow> \<not> kx_worker s)
     \<and> (\<forall>p. kx_poll s = Some p \<longrightarrow> kx_worker s \<and> set (po_left p) \<subseteq> set (ox_rows (kx_outbox s))
            \<and> set (po_stamped p) \<subseteq> ob_id ` set (ox_rows (kx_outbox s))
            \<and> (\<forall>row \<in> set (ox_rows (kx_outbox s)). ob_id row \<in> set (po_stamped p) \<longrightarrow> row_to_event row \<in> set (kx_log s)))"

lemma pr_closed_close [simp]: "pr_closed (close_locked i r) = pr_closed r"
  by (simp add: close_locked_def close_chan_def Let_def split: option.split)

lemma pr_closed_fold [simp]: "pr_closed (fold close_locked is r) = pr_closed r"
  by (induction "is" arbitrary: r) simp_all

lemma pr_closed_publish: "pr_closed (snd (pub_publish e ev r)) = pr_closed r"
proof -
  have "pr_closed (fst (foldl (publish_to ev) acc subs)) = pr_closed (fst acc)" for acc subs
    by (induction subs arbitrary: acc) (auto simp: publish_to_def split: prod.splits)
  then show ?thesis
    by (auto simp: pub_publish_def split: option.split prod.splits) (metis fst_conv)
qed

lemma world_publish_open:
  assumes "\<not> pr_closed (pw_reg w)"
  shows "world_publish None ev w = (None, w\<lparr>pw_reg := snd (pub_publish None ev (pw_reg w)), pw_log := pw_log w @ [ev]\<rparr>)"
    "world_publish (Some e) ev w = (Some e, w)"
proof -
  have "fst (pub_publish None ev (pw_reg w)) = None"
    by (simp add: pub_publish_def split: prod.split)
  with assms show "world_publish None ev w
      = (None, w\<lparr>pw_reg := snd (pub_publish None ev (pw_reg w)), pw_log := pw_log w @ [ev]\<rparr>)"
    by (cases "pub_publish None ev (pw_reg w)") (simp add: world_publish_def)
qed (simp add: world_publish_def pub_publish_def)

section \<open>Every step\<close>

lemma stream_ok_poll:
  assumes ok: "stream_ok s" and out: "outbox_ok s" and p: "kx_poll s = Some p" and st: "tick_step p (kx_outbox s) = (q, o')"
  shows "stream_ok (s\<lparr>kx_poll := q, kx_outbox := o'\<rparr>)"
proof -
  have opened: "\<not> pr_closed (kx_reg s)"
    using out p by (auto simp: outbox_ok_def)
  note world = world_publish_open [OF opened]
  have frame: "stream_ok (s\<lparr>kx_poll := q, kx_outbox := o'\<rparr>)" if "ox_world o' = ox_world (kx_outbox s)"
    by (rule stream_ok_frame [OF ok]) (use that in \<open>simp_all add: same_history_def\<close>)
  have sent: "stream_ok (s\<lparr>kx_poll := q, kx_outbox := o'\<rparr>)" if "ox_world o' = snd (world_publish None ev (ox_world (kx_outbox s)))" for ev
    by (rule stream_ok_publish [OF ok opened, of _ ev]) (use that in \<open>simp_all add: world\<close>)
  show ?thesis
  proof (cases "po_left p")
    case Nil
    then have "ox_world o' = ox_world (kx_outbox s)"
      using st by (auto simp: tick_step_def tick_commit_def split: option.splits)
    then show ?thesis
      by (rule frame)
  next
    case (Cons row rows)
    show ?thesis
    proof (cases "ot_ctx_err (po_env p) (po_done p)")
      case None
      then have "ox_world o' = snd (world_publish None (row_to_event row) (ox_world (kx_outbox s)))"
        using st Cons by (auto simp: tick_step_def tick_row_def world split: option.splits)
      then show ?thesis
        by (rule sent)
    next
      case (Some e)
      then have "ox_world o' = ox_world (kx_outbox s)"
        using st Cons by (auto simp: tick_step_def tick_row_def world)
      then show ?thesis
        by (rule frame)
    qed
  qed
qed

lemma stream_ok_step:
  assumes ok: "stream_ok s" and out: "outbox_ok s"
  shows "stream_ok (stream_step st s)"
proof (cases st)
  case (StepSubscribe c)
  show ?thesis
  proof (cases "pub_subscribe c (kx_reg s)")
    case (Pair i r)
    show ?thesis
    proof (cases i)
      case None
      with ok Pair StepSubscribe show ?thesis
        by (simp add: stream_step_def)
    next
      case (Some j)
      have "stream_ok ((with_reg (\<lambda>_. r) s)\<lparr>kx_claim := (kx_claim s)(j := c),
          kx_since := (kx_since s)(j := length (kx_log s)), kx_taken := (kx_taken s)(j := [])\<rparr>)"
        by (rule stream_ok_subscribe [OF ok Pair [unfolded Some]]) (simp_all add: with_reg_def)
      with ok Pair Some StepSubscribe show ?thesis
        by (simp add: stream_step_def)
    qed
  qed
next
  case (StepReceive i)
  show ?thesis
  proof (cases "\<exists>ev r. chan_receive i (kx_reg s) = Some (Some ev, r)")
    case True
    then obtain ev r where r: "chan_receive i (kx_reg s) = Some (Some ev, r)"
      by blast
    have "stream_ok ((with_reg (\<lambda>_. r) s)\<lparr>kx_taken := (kx_taken s)(i := kx_taken s i @ [ev])\<rparr>)"
      by (rule stream_ok_receive [OF ok r]) (simp_all add: with_reg_def)
    with r StepReceive show ?thesis
      by (simp add: stream_step_def)
  next
    case False
    then have "stream_step st s = s"
      using StepReceive by (auto simp: stream_step_def split: option.split)
    with ok show ?thesis
      by simp
  qed
next
  case StepPoll
  show ?thesis
  proof (cases "kx_poll s")
    case None
    with ok StepPoll show ?thesis
      by (simp add: stream_step_def)
  next
    case (Some p)
    with stream_ok_poll [OF ok out Some] StepPoll show ?thesis
      by (simp add: stream_step_def split: prod.split)
  qed
next
  case (StepUnsubscribe i)
  have "stream_ok (with_reg (remove_and_close i) s)"
    by (rule stream_ok_remove [OF ok]) (simp_all add: same_history_def)
  with StepUnsubscribe show ?thesis
    by (simp add: stream_step_def)
next
  case (StepWatchdog i)
  have "stream_ok (with_reg (watchdog_fire i) s)"
    by (rule stream_ok_watchdog [OF ok]) (simp_all add: same_history_def)
  with StepWatchdog show ?thesis
    by (simp add: stream_step_def)
next
  case StepCloseRegistry
  have "stream_ok (with_reg pub_close s)"
    by (rule stream_ok_close [OF ok]) (simp_all add: same_history_def)
  with StepCloseRegistry ok show ?thesis
    by (simp add: stream_step_def)
qed (rule stream_ok_frame [OF ok];
     simp add: stream_step_def same_history_def tick_begin_def split: option.split sum.split)+

lemma outbox_ok_frame:
  assumes "outbox_ok s" "ox_rows (kx_outbox s') = ox_rows (kx_outbox s)" "kx_log s' = kx_log s"
    "kx_poll s' = kx_poll s" "kx_worker s' = kx_worker s" "pr_closed (kx_reg s') \<Longrightarrow> pr_closed (kx_reg s)"
  shows "outbox_ok s'"
  using assms by (auto simp: outbox_ok_def)

lemma set_pending_batch: "set (pending_batch rows) = {row \<in> set rows. ob_published_at row = None}"
  by (auto simp: pending_batch_def)

lemma row_to_event_published [simp]: "row_to_event (row\<lparr>ob_published_at := t\<rparr>) = row_to_event row"
  by (simp add: row_to_event_def)

lemma outbox_ok_poll:
  assumes out: "outbox_ok s" and p: "kx_poll s = Some p" and st: "tick_step p (kx_outbox s) = (q, o')"
  shows "outbox_ok (s\<lparr>kx_poll := q, kx_outbox := o'\<rparr>)"
proof -
  let ?rows = "ox_rows (kx_outbox s)"
  have ids: "distinct (map ob_id ?rows)" and opened: "\<not> pr_closed (kx_reg s)"
    and old: "\<And>row. row \<in> set ?rows \<Longrightarrow> ob_published_at row \<noteq> None \<Longrightarrow> row_to_event row \<in> set (kx_log s)"
    and worker: "kx_worker s" and left: "set (po_left p) \<subseteq> set ?rows"
    and known: "set (po_stamped p) \<subseteq> ob_id ` set ?rows"
    and stamped: "\<And>row. row \<in> set ?rows \<Longrightarrow> ob_id row \<in> set (po_stamped p) \<Longrightarrow> row_to_event row \<in> set (kx_log s)"
    using out p by (auto simp: outbox_ok_def)
  note world = world_publish_open [OF opened]
  show ?thesis
  proof (cases "po_left p")
    case Nil
    then show ?thesis
      using st ids opened old stamped
      by (auto simp: outbox_ok_def tick_step_def tick_commit_def stamp_rows_def o_def if_distrib [of ob_id]
          split: option.splits cong: if_cong)
  next
    case (Cons row rows)
    have same: "row' = row" if "row' \<in> set ?rows" "ob_id row' = ob_id row" for row'
      using ids left that Cons by (auto simp: distinct_map dest: inj_onD)
    show ?thesis
    proof (cases "ot_ctx_err (po_env p) (po_done p)")
      case None
      then show ?thesis
        using st Cons ids opened old stamped worker left known
        by (auto simp: outbox_ok_def tick_step_def tick_row_def world pr_closed_publish split: option.splits dest: same)
    next
      case (Some e)
      then show ?thesis
        using st Cons ids opened old stamped worker left known
        by (auto simp: outbox_ok_def tick_step_def tick_row_def world)
    qed
  qed
qed

lemma pr_closed_steps [simp]:
  "pr_closed (remove_and_close i r) = pr_closed r" "pr_closed (watchdog_fire i r) = pr_closed r"
  by (simp_all add: remove_and_close_def watchdog_fire_def)

lemma outbox_ok_step:
  assumes out: "outbox_ok s"
  shows "outbox_ok (stream_step st s)"
proof (cases st)
  case StepPoll
  with out outbox_ok_poll [OF out] show ?thesis
    by (auto simp: stream_step_def split: option.split prod.split)
next
  case (StepRow row)
  with out show ?thesis
    by (auto simp: stream_step_def outbox_ok_def split: option.splits)
next
  case (StepTick E)
  have "outbox_ok (s\<lparr>kx_poll := Some q\<rparr>)" if "kx_worker s" "tick_begin E (kx_outbox s) = Inr q" for q
    using out that
    by (auto simp: outbox_ok_def tick_begin_def set_pending_batch split: option.splits)
  with out StepTick show ?thesis
    by (auto simp: stream_step_def split: sum.split)
next
  case (StepSubscribe c)
  have "outbox_ok ((with_reg (\<lambda>_. r) s)\<lparr>kx_claim := a, kx_since := b, kx_taken := d\<rparr>)"
    if "pub_subscribe c (kx_reg s) = (Some i, r)" for i r a b d
    by (rule outbox_ok_frame [OF out]) (use that in \<open>auto simp: pub_subscribe_def with_reg_def split: if_splits\<close>)
  with out StepSubscribe show ?thesis
    by (auto simp: stream_step_def split: prod.split option.split)
next
  case (StepReceive i)
  have "outbox_ok ((with_reg (\<lambda>_. r) s)\<lparr>kx_taken := a\<rparr>)"
    if "chan_receive i (kx_reg s) = Some (Some ev, r)" for ev r a
    by (rule outbox_ok_frame [OF out])
      (use that in \<open>auto simp: chan_receive_def with_reg_def split: list.splits if_splits\<close>)
  with out StepReceive show ?thesis
    by (auto simp: stream_step_def split: prod.split option.split)
next
  case (StepUnsubscribe i)
  have "outbox_ok (with_reg (remove_and_close i) s)"
    by (rule outbox_ok_frame [OF out]) simp_all
  with StepUnsubscribe show ?thesis
    by (simp add: stream_step_def)
next
  case (StepWatchdog i)
  have "outbox_ok (with_reg (watchdog_fire i) s)"
    by (rule outbox_ok_frame [OF out]) simp_all
  with StepWatchdog show ?thesis
    by (simp add: stream_step_def)
next
  case StepStopWorker
  with out show ?thesis
    by (auto simp: stream_step_def outbox_ok_def)
next
  case StepCloseRegistry
  have "outbox_ok (with_reg pub_close s)" if "\<not> kx_worker s"
    using out that by (auto simp: outbox_ok_def split: option.splits)
  with out StepCloseRegistry show ?thesis
    by (simp add: stream_step_def)
qed

lemma stream_run_induct:
  assumes "P s" "\<And>st t. P t \<Longrightarrow> P (stream_step st t)"
  shows "P (stream_run steps s)"
  unfolding stream_run_def using assms by (induction steps arbitrary: s) auto

lemma stream_run_ok:
  "stream_ok (stream_run steps (new_stream n)) \<and> outbox_ok (stream_run steps (new_stream n))"
proof (rule stream_run_induct [where P = "\<lambda>s. stream_ok s \<and> outbox_ok s"])
  show "stream_ok (new_stream n) \<and> outbox_ok (new_stream n)"
    by (simp add: stream_ok_def outbox_ok_def new_stream_def new_pub_registry_def default_buffer_size_def open_subs_def)
qed (simp add: stream_ok_step outbox_ok_step)

section \<open>What holds of every run\<close>

text \<open>
  C9: a subscriber sees no gap. Under every interleaving of rows, polls, subscriptions, receivers,
  watchdogs and the shutdown no channel is sent to or closed once it is closed, and what a subscription's
  receiver has taken and what waits for it are the first events of its scope fanned out since it was
  made, in order: all of them while the registry holds it, and a closed channel after them when not. A
  slow receiver is cut off, it is never skipped.
\<close>

theorem subscriber_sees_no_gap:
  assumes "s = stream_run steps (new_stream n)" "i < pr_next_id (kx_reg s)"
  shows "\<not> pr_panicked (kx_reg s)
    \<and> (\<exists>missed. due (kx_claim s i) (kx_since s i) (kx_log s) = kx_taken s i @ pc_buffer (pr_chans (kx_reg s) i) @ missed
         \<and> (if live (kx_reg s) i then missed = [] else pc_closed (pr_chans (kx_reg s) i)))
    \<and> length (pc_buffer (pr_chans (kx_reg s) i)) \<le> pr_buf_size (kx_reg s)"
proof -
  have ok: "stream_ok s"
    using assms(1) stream_run_ok by blast
  from stream_okD(6) [OF this assms(2)] stream_okD(2) [OF ok] show ?thesis
    by (auto simp: sub_ok_def prefix_def)
qed

text \<open>
  C13: a row is marked published only when its event was fanned out, whatever rows, subscriptions and
  failing transactions the polls meet, and up to the end of the shutdown, which closes the registry only
  when no poll is under way. The other way round an event may be fanned out again after a rollback.
\<close>

theorem published_rows_were_fanned_out:
  assumes "s = stream_run steps (new_stream n)" "row \<in> set (ox_rows (kx_outbox s))" "ob_published_at row \<noteq> None"
  shows "row_to_event row \<in> set (kx_log s)"
proof -
  have "outbox_ok s"
    using assms(1) stream_run_ok by blast
  with assms(2,3) show ?thesis
    by (simp add: outbox_ok_def)
qed

text \<open>A poll without faults, alone on the server from its begin to its commit.\<close>

lemma clean_poll_loop:
  assumes "\<not> pr_closed (kx_reg s)" "\<forall>k. ot_ctx_err E k = None \<and> ot_stamp E k = None"
    and "kx_poll s = Some \<lparr>po_env = E, po_done = k, po_left = rows, po_stamped = ids\<rparr>"
  shows "\<exists>s'. stream_run (replicate (length rows) StepPoll) s = s'
    \<and> kx_poll s' = Some \<lparr>po_env = E, po_done = k + length rows, po_left = [], po_stamped = ids @ map ob_id rows\<rparr>
    \<and> kx_log s' = kx_log s @ map row_to_event rows \<and> ox_rows (kx_outbox s') = ox_rows (kx_outbox s)"
  using assms
proof (induction rows arbitrary: s k ids)
  case (Cons row rows)
  let ?s = "stream_step StepPoll s"
  have step: "?s = s\<lparr>kx_poll := Some \<lparr>po_env = E, po_done = Suc k, po_left = rows, po_stamped = ids @ [ob_id row]\<rparr>,
      kx_outbox := (kx_outbox s)\<lparr>ox_world := (ox_world (kx_outbox s))\<lparr>pw_reg := snd (pub_publish None (row_to_event row) (kx_reg s)),
        pw_log := kx_log s @ [row_to_event row]\<rparr>\<rparr>\<rparr>"
    using Cons.prems by (simp add: stream_step_def tick_step_def tick_row_def world_publish_open)
  have "\<exists>s'. stream_run (replicate (length rows) StepPoll) ?s = s'
    \<and> kx_poll s' = Some \<lparr>po_env = E, po_done = Suc k + length rows, po_left = [], po_stamped = (ids @ [ob_id row]) @ map ob_id rows\<rparr>
    \<and> kx_log s' = kx_log ?s @ map row_to_event rows \<and> ox_rows (kx_outbox s') = ox_rows (kx_outbox ?s)"
    using Cons.prems by (intro Cons.IH) (simp_all add: step pr_closed_publish)
  then show ?case
    by (simp add: step stream_run_def)
qed (simp add: stream_run_def)

text \<open>
  A poll drains the outbox. From any state the server can be in, with the worker running and between
  polls, a poll whose transaction does not fail fans out exactly the rows that were pending, oldest
  first, and leaves no row pending.
\<close>

theorem poll_drains_outbox:
  assumes "s = stream_run steps (new_stream n)" "kx_worker s" "kx_poll s = None"
    and "ot_begin E = None" "ot_select E = None" "ot_commit E = None" "\<forall>k. ot_ctx_err E k = None \<and> ot_stamp E k = None"
    and "rows = pending_batch (ox_rows (kx_outbox s))"
    and "s' = stream_run (StepTick E # replicate (Suc (length rows)) StepPoll) s"
  shows "kx_poll s' = None \<and> kx_log s' = kx_log s @ map row_to_event rows
    \<and> (\<forall>row \<in> set (ox_rows (kx_outbox s')). ob_published_at row \<noteq> None)
    \<and> sorted (map pe_created_at (drop (length (kx_log s)) (kx_log s')))"
proof -
  have out: "outbox_ok s"
    using assms(1) stream_run_ok by blast
  then have opened: "\<not> pr_closed (kx_reg s)"
    using assms(2) by (auto simp: outbox_ok_def)
  let ?s1 = "stream_step (StepTick E) s"
  have s1: "?s1 = s\<lparr>kx_poll := Some \<lparr>po_env = E, po_done = 0, po_left = rows, po_stamped = []\<rparr>\<rparr>"
    using assms(2-5,8) by (simp add: stream_step_def tick_begin_def)
  obtain s2 where s2: "stream_run (replicate (length rows) StepPoll) ?s1 = s2"
    "kx_poll s2 = Some \<lparr>po_env = E, po_done = length rows, po_left = [], po_stamped = map ob_id rows\<rparr>"
    "kx_log s2 = kx_log s @ map row_to_event rows" "ox_rows (kx_outbox s2) = ox_rows (kx_outbox s)"
    using clean_poll_loop [of ?s1 E 0 rows "[]"] opened assms(7) by (auto simp: s1)
  have "replicate (Suc (length rows)) StepPoll = replicate (length rows) StepPoll @ [StepPoll]"
    by (simp add: replicate_append_same)
  then have "s' = stream_step StepPoll s2"
    unfolding assms(9) using s2(1) by (simp only: stream_run_def foldl_append foldl_Cons foldl_Nil)
  then have s': "s' = s2\<lparr>kx_poll := None, kx_outbox := (kx_outbox s2)\<lparr>
      ox_rows := stamp_rows (ot_now E) (map ob_id rows) (ox_rows (kx_outbox s)),
      ox_successes := ox_successes (kx_outbox s2) + length rows\<rparr>\<rparr>"
    using s2(2,4) assms(6) by (simp add: stream_step_def tick_step_def tick_commit_def)
  have "\<forall>row \<in> set (ox_rows (kx_outbox s')). ob_published_at row \<noteq> None"
    by (auto simp: s' stamp_rows_def assms(8) set_pending_batch)
  moreover have "sorted (map pe_created_at (map row_to_event rows))"
    by (simp add: assms(8) pending_batch_def o_def row_to_event_def)
  ultimately show ?thesis
    by (simp add: s' s2(3))
qed

section \<open>What a client reads\<close>

fun signal_events :: "stream_signal list \<Rightarrow> pub_event list" where
  "signal_events [] = []"
| "signal_events (SigEvent ev # sigs) = ev # signal_events sigs"
| "signal_events (SigDone # sigs) = signal_events sigs"
| "signal_events (SigChanClosed # sigs) = signal_events sigs"
| "signal_events (SigTick # sigs) = signal_events sigs"

text \<open>
  The types of the events are free text, so a frame is only known to be read as one event when the
  type keeps to its line. The events up to the first whose type does not:
\<close>

definition plain_events :: "pub_event list \<Rightarrow> pub_event list" where
  "plain_events evs = takeWhile (\<lambda>ev. line_safe (pe_event_type ev)) evs"

lemma plain_events_prefix:
  "prefix evs evs' \<Longrightarrow> plain_events evs \<noteq> evs \<Longrightarrow> plain_events evs' = plain_events evs \<and> plain_events evs' \<noteq> evs'"
  by (auto simp: plain_events_def prefix_def takeWhile_append)

lemma plain_events_simps [simp]:
  "plain_events [] = []"
  "plain_events (ev # evs) = (if line_safe (pe_event_type ev) then ev # plain_events evs else [])"
  by (simp_all add: plain_events_def)

lemma plain_events_all: "prefix evs evs' \<Longrightarrow> plain_events evs = evs \<Longrightarrow> prefix evs (plain_events evs')"
  by (auto simp: plain_events_def prefix_def takeWhile_append takeWhile_eq_all_conv)

lemma handler_frames:
  "\<exists>fs. prefix (fst (subscribe_loop u fault n sigs)) (concat (map (frame_bytes u) fs))
    \<and> prefix (frame_events fs) (signal_events sigs)
    \<and> (\<not> snd (subscribe_loop u fault n sigs) \<longrightarrow> frame_events fs = signal_events sigs
        \<and> fst (subscribe_loop u fault n sigs) = concat (map (frame_bytes u) fs))"
proof (induction u fault n sigs rule: subscribe_loop.induct)
  case (4 u fault n ev sigs)
  show ?case
  proof (cases "fault n")
    case None
    with 4 obtain fs where "prefix (fst (subscribe_loop u fault (Suc n) sigs)) (concat (map (frame_bytes u) fs))"
      "prefix (frame_events fs) (signal_events sigs)"
      "\<not> snd (subscribe_loop u fault (Suc n) sigs) \<longrightarrow> frame_events fs = signal_events sigs
        \<and> fst (subscribe_loop u fault (Suc n) sigs) = concat (map (frame_bytes u) fs)"
      by blast
    then show ?thesis
      using None by (intro exI [of _ "FrameEvent ev # fs"]) (auto split: prod.split)
  next
    case (Some k)
    then show ?thesis
      by (intro exI [of _ "[FrameEvent ev]"]) (simp add: take_is_prefix)
  qed
next
  case (5 u fault n sigs)
  show ?case
  proof (cases "fault n")
    case None
    with 5 obtain fs where "prefix (fst (subscribe_loop u fault (Suc n) sigs)) (concat (map (frame_bytes u) fs))"
      "prefix (frame_events fs) (signal_events sigs)"
      "\<not> snd (subscribe_loop u fault (Suc n) sigs) \<longrightarrow> frame_events fs = signal_events sigs
        \<and> fst (subscribe_loop u fault (Suc n) sigs) = concat (map (frame_bytes u) fs)"
      by blast
    then show ?thesis
      using None by (intro exI [of _ "FrameHeartbeat # fs"]) (auto split: prod.split)
  next
    case (Some k)
    then show ?thesis
      by (intro exI [of _ "[FrameHeartbeat]"]) (simp add: take_is_prefix)
  qed
qed (auto intro: exI [of _ "[]"])

lemma handler_reads:
  assumes "\<forall>ev \<in> set (signal_events sigs). line_safe (u (pe_id ev)) \<and> line_safe (pe_payload ev)"
  shows "(prefix (scan_all (fst (subscribe_loop u fault n sigs))) (map (sse_view u) (plain_events (signal_events sigs)))
      \<or> prefix (map (sse_view u) (plain_events (signal_events sigs))) (scan_all (fst (subscribe_loop u fault n sigs)))
        \<and> plain_events (signal_events sigs) \<noteq> signal_events sigs)
    \<and> (\<not> snd (subscribe_loop u fault n sigs)
        \<longrightarrow> prefix (map (sse_view u) (plain_events (signal_events sigs))) (scan_all (fst (subscribe_loop u fault n sigs))))"
  using assms
proof (induction u fault n sigs rule: subscribe_loop.induct)
  case (4 u fault n ev sigs)
  show ?case
  proof (cases "line_safe (pe_event_type ev)")
    case True
    with "4.prems" have "frame_safe u (FrameEvent ev)"
      by simp
    with 4 True show ?thesis
      by (auto simp: scan_all_frame scan_all_frame_cut [of u ev] split: option.split prod.split)
  qed simp
next
  case (5 u fault n sigs)
  then show ?case
    by (auto simp: scan_all_heartbeat_cut split: option.split prod.split)
qed simp_all

text \<open>
  C5: the stream from end to end, for every interleaving and wherever the connection is cut. The bytes
  the handler of a subscription has written are the frames of the first events of its scope fanned out
  since it subscribed, in order, heartbeats in between and the last frame perhaps cut short; and a
  client reads from them exactly those events, with their id, type and payload: all of them when the
  handler still runs, has caught up, and the registry still holds the subscription. What is read is
  vouched for only up to the first event whose type breaks its line: the type is free text that the
  code writes as it is, and after such a one a client may read other events than were published
  (\<open>event_type_can_forge\<close>). That the text of a UUID and a \<open>jsonb\<close> as Postgres prints it keep to their
  lines is assumed.
\<close>

theorem client_reads_what_was_published:
  assumes "s = stream_run steps (new_stream n)" "i < pr_next_id (kx_reg s)"
    and "signal_events sigs = kx_taken s i"
    and "\<forall>ev \<in> set (kx_log s). line_safe (u (pe_id ev)) \<and> line_safe (pe_payload ev)"
    and "subscribe_loop u fault 0 sigs = (bytes, ended)"
    and "evs = due (kx_claim s i) (kx_since s i) (kx_log s)"
    and "all_sent \<longleftrightarrow> \<not> ended \<and> live (kx_reg s) i \<and> pc_buffer (pr_chans (kx_reg s) i) = []"
  shows "(\<exists>fs. prefix bytes (concat (map (frame_bytes u) fs)) \<and> prefix (frame_events fs) evs
        \<and> (all_sent \<longrightarrow> bytes = concat (map (frame_bytes u) fs) \<and> frame_events fs = evs))
    \<and> (prefix (scan_all bytes) (map (sse_view u) (plain_events evs))
        \<or> prefix (map (sse_view u) (plain_events evs)) (scan_all bytes) \<and> plain_events evs \<noteq> evs)
    \<and> (all_sent \<longrightarrow> prefix (map (sse_view u) (plain_events evs)) (scan_all bytes))
    \<and> (all_sent \<and> plain_events evs = evs \<longrightarrow> scan_all bytes = map (sse_view u) evs)"
proof -
  have "stream_ok s"
    using assms(1) stream_run_ok by blast
  from stream_okD(6) [OF this assms(2)]
  have got: "prefix (kx_taken s i @ pc_buffer (pr_chans (kx_reg s) i)) evs"
    "live (kx_reg s) i \<Longrightarrow> kx_taken s i @ pc_buffer (pr_chans (kx_reg s) i) = evs"
    by (auto simp: sub_ok_def assms(6))
  then have taken: "prefix (kx_taken s i) evs"
    by (rule_tac append_prefixD)
  have all: "all_sent \<Longrightarrow> \<not> ended \<and> kx_taken s i = evs"
    using got(2) assms(7) by auto
  have "set evs \<subseteq> set (kx_log s)"
    unfolding assms(6) due_def by (auto dest: in_set_dropD)
  with taken have "set (kx_taken s i) \<subseteq> set (kx_log s)"
    using set_mono_prefix by blast
  then have reads: "prefix (scan_all bytes) (map (sse_view u) (plain_events (kx_taken s i)))
      \<or> prefix (map (sse_view u) (plain_events (kx_taken s i))) (scan_all bytes) \<and> plain_events (kx_taken s i) \<noteq> kx_taken s i"
    "\<not> ended \<Longrightarrow> prefix (map (sse_view u) (plain_events (kx_taken s i))) (scan_all bytes)"
    using handler_reads [of sigs u fault 0] assms(3-5) by auto
  have "prefix (scan_all bytes) (map (sse_view u) (plain_events evs))
      \<or> prefix (map (sse_view u) (plain_events evs)) (scan_all bytes) \<and> plain_events evs \<noteq> evs"
  proof (cases "plain_events (kx_taken s i) = kx_taken s i")
    case True
    have "prefix (scan_all bytes) (map (sse_view u) (kx_taken s i))"
      using reads(1) unfolding True by blast
    from prefix_order.trans [OF this map_mono_prefix [OF plain_events_all [OF taken True]]]
    show ?thesis ..
  qed (use reads(1) plain_events_prefix [OF taken] in auto)
  moreover obtain fs where "prefix bytes (concat (map (frame_bytes u) fs))" "prefix (frame_events fs) (kx_taken s i)"
    "\<not> ended \<longrightarrow> frame_events fs = kx_taken s i \<and> bytes = concat (map (frame_bytes u) fs)"
    using handler_frames [of u fault 0 sigs] assms(3,5) by auto
  ultimately show ?thesis
    using all reads taken by (auto dest: prefix_order.trans prefix_order.antisym)
qed

text \<open>A stamp that fails ends the poll, and no counter of the metrics moves.\<close>

lemma stamp_failure_is_not_counted:
  assumes "tick_row p row rows s = (Inl e, s')"
  shows "ox_errors s' = ox_errors s \<and> ox_successes s' = ox_successes s"
  using assms by (auto simp: tick_row_def split: prod.splits option.splits)

end
