(* ===== verification/KeepSubscribe.thy ===== *)
theory KeepSubscribe
  imports KeepClient EventFrame Outbox
begin

text \<open>
  The client's side of the event stream: one connection (\<^verbatim>\<open>core/pkg/keepclient/subscribe.go\<close>) and the
  stream that reconnects, resumes and deduplicates on top of it
  (\<^verbatim>\<open>core/pkg/keepclient/subscribe_resilient.go\<close>).
\<close>

section \<open>One connection\<close>

text \<open>What the body still yields, and the error it ends with.\<close>

record client_stream =
  cs_input :: string
  cs_end :: goerr

text \<open>
  \<open>subscribeWithLastEventID\<close>: \<open>send\<close> is the exchange with the \<open>Last-Event-ID\<close> and the bearer token,
  answered by an error or by a status, the code of its envelope and the body.
\<close>

definition client_subscribe ::
  "keep_client \<Rightarrow> (string \<Rightarrow> string \<Rightarrow> goerr + nat \<times> string \<times> client_stream) \<Rightarrow> string \<Rightarrow> goerr + client_stream" where
  "client_subscribe cl send last_id =
     (case kcl_token_source cl of
        None \<Rightarrow> Inl [Sentinel ErrNoTokenSource]
      | Some source \<Rightarrow>
          (case kcl_join_url cl ''/v1/subscribe'' of
             Some e \<Rightarrow> Inl (errorf ''keepclient: join url'' e)
           | None \<Rightarrow>
               (case kcl_new_request cl ''/v1/subscribe'' of
                  Some e \<Rightarrow> Inl (errorf ''keepclient: build request'' e)
                | None \<Rightarrow>
                    (case source of
                       Inl e \<Rightarrow> Inl (errorf ''keepclient: token'' e)
                     | Inr token \<Rightarrow>
                         (case send last_id token of
                            Inl e \<Rightarrow> Inl (errorf ''keepclient: GET /v1/subscribe'' e)
                          | Inr (status, code, body) \<Rightarrow>
                              if status < 200 \<or> status \<ge> 300 then Inl (server_error status code) else Inr body)))))"

text \<open>
  What a call of \<open>Next\<close> meets: \<open>ctx.Err()\<close> and the closed flag before it reads, and both again when the
  read has failed.
\<close>

record next_obs =
  no_ctx :: "goerr option"
  no_closed :: bool
  no_ctx_after :: "goerr option"
  no_closed_after :: bool

definition stream_next :: "next_obs \<Rightarrow> client_stream \<Rightarrow> (goerr + sse_event) \<times> client_stream" where
  "stream_next ob s =
     (case no_ctx ob of
        Some e \<Rightarrow> (Inl (errorf ''keepclient: subscribe'' e), s)
      | None \<Rightarrow>
          if no_closed ob then (Inl [Sentinel ErrStreamClosed], s)
          else (case scan_event zero_scan (cs_input s) of
             (Some ev, rest) \<Rightarrow> (Inr ev, s\<lparr>cs_input := rest\<rparr>)
           | (None, rest) \<Rightarrow>
               (case no_ctx_after ob of
                  Some e \<Rightarrow> Inl (errorf ''keepclient: subscribe'' e)
                | None \<Rightarrow> if no_closed_after ob then Inl [Sentinel ErrStreamClosed] else Inl (cs_end s),
                s\<lparr>cs_input := rest\<rparr>)))"

text \<open>\<open>errors.As\<close> with a \<open>*ServerError\<close>: the link \<open>server_error\<close> puts in front.\<close>

definition is_server_error :: "goerr \<Rightarrow> bool" where
  "is_server_error e \<longleftrightarrow> Text ''keepclient: server error'' \<in> set e"

section \<open>Deduplication\<close>

text \<open>No hook, a predicate of the caller, or the built-in cache of the last ids.\<close>

datatype dedup = NoDedup | DedupPredicate "string \<Rightarrow> bool" | DedupLRU lru_dedup

definition seen_and_record :: "lru_dedup \<Rightarrow> string \<Rightarrow> bool \<times> lru_dedup" where
  "seen_and_record l i =
     (if i = [] then (False, l)
      else if i \<in> ld_set l then (True, l)
      else (let l1 = (if length (ld_order l) = ld_size l
                      then l\<lparr>ld_order := tl (ld_order l), ld_set := ld_set l - {hd (ld_order l)}\<rparr> else l)
            in (False, l1\<lparr>ld_order := ld_order l1 @ [i], ld_set := insert i (ld_set l1)\<rparr>)))"

definition dedup_skip :: "dedup \<Rightarrow> string \<Rightarrow> bool \<times> dedup" where
  "dedup_skip d i =
     (case d of
        NoDedup \<Rightarrow> (False, d)
      | DedupPredicate p \<Rightarrow> (p i, d)
      | DedupLRU l \<Rightarrow> (case seen_and_record l i of (b, l') \<Rightarrow> (b, DedupLRU l')))"

section \<open>The configuration\<close>

record resilient_config =
  rc_initial_delay :: int
  rc_max_delay :: int
  rc_max_attempts :: nat
  rc_dedup :: dedup

definition default_resilient_config :: resilient_config where
  "default_resilient_config =
     \<lparr>rc_initial_delay = 100 * 10 ^ 6, rc_max_delay = 30 * 10 ^ 9, rc_max_attempts = 5, rc_dedup = NoDedup\<rparr>"

datatype resilient_option =
    WithReconnectInitialDelay int
  | WithReconnectMaxDelay int
  | WithMaxReconnectAttempts int
  | WithDedup "string \<Rightarrow> bool"
  | WithDedupLRU int

definition apply_option :: "resilient_option \<Rightarrow> resilient_config \<Rightarrow> resilient_config" where
  "apply_option opt c =
     (case opt of
        WithReconnectInitialDelay d \<Rightarrow> if d > 0 then c\<lparr>rc_initial_delay := d\<rparr> else c
      | WithReconnectMaxDelay d \<Rightarrow> if d > 0 then c\<lparr>rc_max_delay := d\<rparr> else c
      | WithMaxReconnectAttempts n \<Rightarrow> if n > 0 then c\<lparr>rc_max_attempts := nat n\<rparr> else c
      | WithDedup p \<Rightarrow> c\<lparr>rc_dedup := DedupPredicate p\<rparr>
      | WithDedupLRU n \<Rightarrow> if n \<le> 0 then c\<lparr>rc_dedup := NoDedup\<rparr>
                         else c\<lparr>rc_dedup := DedupLRU (new_lru_dedup (nat n))\<rparr>)"

definition resilient_config_of :: "resilient_option list \<Rightarrow> resilient_config" where
  "resilient_config_of opts = fold apply_option opts default_resilient_config"

section \<open>The stream that reconnects\<close>

text \<open>
  The surroundings, by the number of looks or calls so far: the caller's context, the closed flag (which
  \<open>Close\<close> may set from any goroutine), the sleep before the n-th attempt, what the jitter makes of a
  delay, and the n-th attempt to open with the id it sends.
\<close>

record resilient_env =
  re_ctx_err :: "nat \<Rightarrow> goerr option"
  re_closed :: "nat \<Rightarrow> bool"
  re_sleep :: "nat \<Rightarrow> goerr option"
  re_jitter :: "nat \<Rightarrow> int \<Rightarrow> int"
  re_open :: "nat \<Rightarrow> string \<Rightarrow> goerr + client_stream"

text \<open>
  The inner stream (nil while it reconnects), the last id, the cache; the looks taken; the delays slept,
  the ids sent with the attempts, and the bodies of the connections used, the first one included.
\<close>

record resilient =
  rs_stream :: "client_stream option"
  rs_last_id :: string
  rs_dedup :: dedup
  rs_clock :: nat
  rs_slept :: "int list"
  rs_sent :: "string list"
  rs_bodies :: "string list"

definition subscribe_resilient ::
  "keep_client \<Rightarrow> (string \<Rightarrow> string \<Rightarrow> goerr + nat \<times> string \<times> client_stream) \<Rightarrow> resilient_option list \<Rightarrow> goerr + resilient" where
  "subscribe_resilient cl send opts =
     (if kcl_token_source cl = None then Inl [Sentinel ErrNoTokenSource]
      else case client_subscribe cl send [] of
          Inl e \<Rightarrow> Inl e
        | Inr st \<Rightarrow> Inr \<lparr>rs_stream = Some st, rs_last_id = [], rs_dedup = rc_dedup (resilient_config_of opts),
                        rs_clock = 0, rs_slept = [], rs_sent = [], rs_bodies = [cs_input st]\<rparr>)"

definition look :: "nat \<Rightarrow> resilient \<Rightarrow> resilient" where
  "look n s = s\<lparr>rs_clock := rs_clock s + n\<rparr>"

abbreviation ErrReconnectExhausted :: string where
  "ErrReconnectExhausted \<equiv> ''keepclient: reconnect attempts exhausted''"

definition resilient_delay :: "resilient_env \<Rightarrow> resilient_config \<Rightarrow> nat \<Rightarrow> nat \<Rightarrow> int" where
  "resilient_delay E cfg n attempt =
     (let d = re_jitter E n (backoff_base (int attempt) (rc_initial_delay cfg) (rc_max_delay cfg))
      in if d < 0 then 0 else d)"

text \<open>The bounded loop of \<open>reconnect\<close>: attempts left, attempts made, the last error.\<close>

fun reconnect_loop ::
  "resilient_env \<Rightarrow> resilient_config \<Rightarrow> nat \<Rightarrow> nat \<Rightarrow> goerr \<Rightarrow> resilient \<Rightarrow> goerr option \<times> resilient" where
  "reconnect_loop E cfg 0 attempt last_err s = (Some (errorf_is ErrReconnectExhausted last_err), s)"
| "reconnect_loop E cfg (Suc left) attempt last_err s =
     (let s1 = s\<lparr>rs_slept := rs_slept s @ [resilient_delay E cfg (length (rs_slept s)) attempt]\<rparr> in
      case re_sleep E (length (rs_slept s)) of
        Some e \<Rightarrow>
          (Some (if re_closed E (rs_clock s) then [Sentinel ErrStreamClosed]
                 else errorf ''keepclient: subscribe resilient'' e), look 1 s1)
      | None \<Rightarrow>
          (let s2 = s1\<lparr>rs_sent := rs_sent s1 @ [rs_last_id s1]\<rparr> in
           case re_open E (length (rs_sent s1)) (rs_last_id s1) of
             Inr st \<Rightarrow>
               (if re_closed E (rs_clock s) then (Some [Sentinel ErrStreamClosed], look 1 s2)
                else (None, look 1 (s2\<lparr>rs_stream := Some st, rs_bodies := rs_bodies s2 @ [cs_input st]\<rparr>)))
           | Inl e \<Rightarrow>
               if is_server_error e then (Some e, s2)
               else reconnect_loop E cfg left (Suc attempt) e s2))"

definition reconnect :: "resilient_env \<Rightarrow> resilient_config \<Rightarrow> goerr \<Rightarrow> resilient \<Rightarrow> goerr option \<times> resilient" where
  "reconnect E cfg last_err s =
     (let s1 = look 1 (s\<lparr>rs_stream := None\<rparr>) in
      if re_closed E (rs_clock s) then (Some [Sentinel ErrStreamClosed], s1)
      else reconnect_loop E cfg (rc_max_attempts cfg) 0 last_err s1)"

definition obs_at :: "resilient_env \<Rightarrow> nat \<Rightarrow> next_obs" where
  "obs_at E n = \<lparr>no_ctx = re_ctx_err E n, no_closed = re_closed E (n + 1), no_ctx_after = re_ctx_err E (n + 2),
     no_closed_after = re_closed E (n + 3)\<rparr>"

text \<open>One round of the loop of \<open>Next\<close>: the result it returns, or \<open>None\<close> to go on.\<close>

definition next_round ::
  "resilient_env \<Rightarrow> resilient_config \<Rightarrow> resilient \<Rightarrow> (goerr + sse_event) option \<times> resilient" where
  "next_round E cfg s =
     (let n = rs_clock s in
      case re_ctx_err E n of
        Some e \<Rightarrow> (Some (Inl (errorf ''keepclient: subscribe resilient'' e)), look 1 s)
      | None \<Rightarrow>
          if re_closed E (n + 1) then (Some (Inl [Sentinel ErrStreamClosed]), look 2 s)
          else (case rs_stream s of
             None \<Rightarrow> (Some (Inl [Text ''keepclient: resilient stream has no inner stream'']), look 2 s)
           | Some st \<Rightarrow>
               (case stream_next (obs_at E (n + 2)) st of
                  (Inr ev, st1) \<Rightarrow>
                    (let s1 = look 6 (s\<lparr>rs_stream := Some st1,
                           rs_last_id := (if se_id ev \<noteq> [] then se_id ev else rs_last_id s)\<rparr>)
                     in case dedup_skip (rs_dedup s1) (se_id ev) of
                          (True, d) \<Rightarrow> (None, s1\<lparr>rs_dedup := d\<rparr>)
                        | (False, d) \<Rightarrow> (Some (Inr ev), s1\<lparr>rs_dedup := d\<rparr>))
                | (Inl err, st1) \<Rightarrow>
                    (let s1 = look 8 (s\<lparr>rs_stream := Some st1\<rparr>) in
                     if re_closed E (n + 6) then (Some (Inl [Sentinel ErrStreamClosed]), s1)
                     else if re_ctx_err E (n + 7) \<noteq> None then (Some (Inl err), s1)
                     else if is_server_error err then (Some (Inl err), s1)
                     else (case reconnect E cfg err s1 of
                        (Some e, s2) \<Rightarrow> (Some (Inl e), s2)
                      | (None, s2) \<Rightarrow> (None, s2))))))"

partial_function (option) resilient_next ::
  "resilient_env \<Rightarrow> resilient_config \<Rightarrow> resilient \<Rightarrow> ((goerr + sse_event) \<times> resilient) option" where
  "resilient_next E cfg s =
     (case next_round E cfg s of
        (Some r, s') \<Rightarrow> Some (r, s')
      | (None, s') \<Rightarrow> resilient_next E cfg s')"

section \<open>Rounds\<close>

text \<open>The state after \<open>k\<close> rounds that go on.\<close>

fun rounds :: "resilient_env \<Rightarrow> resilient_config \<Rightarrow> nat \<Rightarrow> resilient \<Rightarrow> resilient option" where
  "rounds E cfg 0 s = Some s"
| "rounds E cfg (Suc k) s = (case next_round E cfg s of (None, s') \<Rightarrow> rounds E cfg k s' | (Some _, _) \<Rightarrow> None)"

lemma rounds_next:
  assumes "rounds E cfg k s = Some s'"
  shows "resilient_next E cfg s = resilient_next E cfg s'"
  using assms
proof (induction k arbitrary: s)
  case (Suc k)
  then show ?case
    by (subst resilient_next.simps) (auto split: prod.splits option.splits)
qed simp

lemma next_rounds:
  assumes "resilient_next E cfg s = Some y"
  shows "\<exists>k t. rounds E cfg k s = Some t \<and> next_round E cfg t = (Some (fst y), snd y)"
    (is "?P E cfg s y")
proof (rule resilient_next.raw_induct [where P = ?P, OF _ assms])
  fix f E cfg s y
  assume IH: "\<And>E cfg s y. f E cfg s = Some y \<Longrightarrow> ?P E cfg s y"
    and body: "(case next_round E cfg s of (None, s') \<Rightarrow> f E cfg s' | (Some r, s') \<Rightarrow> Some (r, s')) = Some y"
  obtain o' s1 where round: "next_round E cfg s = (o', s1)"
    by (cases "next_round E cfg s")
  show "?P E cfg s y"
  proof (cases o')
    case None
    then obtain k t where "rounds E cfg k s1 = Some t" "next_round E cfg t = (Some (fst y), snd y)"
      using IH body round by fastforce
    then show ?thesis
      using round None by (intro exI [of _ "Suc k"] exI [of _ t]) simp
  next
    case (Some r')
    with body round show ?thesis
      by (intro exI [of _ 0] exI [of _ s]) auto
  qed
qed

end
