(* ===== verification/ResilientStream.thy ===== *)
theory ResilientStream
  imports KeepSubscribe
begin

text \<open>
  What the caller of \<open>ResilientStream.Next\<close> gets: the events of the connections in order, each id once
  within the window of the cache, and a bounded number of attempts between two connections.
\<close>

section \<open>Attempts\<close>

lemma reconnect_loop_opened:
  "reconnect_loop E cfg left attempt e s = (None, s') \<Longrightarrow>
     rs_dedup s' = rs_dedup s \<and> rs_last_id s' = rs_last_id s
     \<and> (\<exists>st. rs_stream s' = Some st \<and> rs_bodies s' = rs_bodies s @ [cs_input st])"
  by (induction E cfg left attempt e s rule: reconnect_loop.induct)
    (auto simp: Let_def look_def split: option.splits sum.splits if_splits)

text \<open>The state after \<open>n\<close> attempts that failed by transport, from attempt \<open>a\<close> on.\<close>

definition attempted :: "resilient_env \<Rightarrow> resilient_config \<Rightarrow> nat \<Rightarrow> nat \<Rightarrow> resilient \<Rightarrow> resilient" where
  "attempted E cfg a n s =
     s\<lparr>rs_slept := rs_slept s @ map (\<lambda>j. resilient_delay E cfg (length (rs_slept s) + j) (a + j)) [0..<n],
       rs_sent := rs_sent s @ replicate n (rs_last_id s)\<rparr>"

definition transport_failure :: "resilient_env \<Rightarrow> resilient \<Rightarrow> nat \<Rightarrow> bool" where
  "transport_failure E s j \<longleftrightarrow> re_sleep E (length (rs_slept s) + j) = None
     \<and> (case re_open E (length (rs_sent s) + j) (rs_last_id s) of Inl x \<Rightarrow> \<not> is_server_error x | Inr _ \<Rightarrow> False)"

definition failure_of :: "resilient_env \<Rightarrow> resilient \<Rightarrow> goerr \<Rightarrow> nat \<Rightarrow> goerr" where
  "failure_of E s e n = (case n of 0 \<Rightarrow> e
     | Suc j \<Rightarrow> (case re_open E (length (rs_sent s) + j) (rs_last_id s) of Inl x \<Rightarrow> x | Inr _ \<Rightarrow> e))"

lemma reconnect_loop_failures:
  "\<forall>j < n. transport_failure E s j \<Longrightarrow> n \<le> left \<Longrightarrow>
     reconnect_loop E cfg left a e s
       = reconnect_loop E cfg (left - n) (a + n) (failure_of E s e n) (attempted E cfg a n s)"
proof (induction n)
  case 0
  then show ?case by (simp add: attempted_def failure_of_def)
next
  case (Suc n)
  then have "transport_failure E s n" by simp
  then obtain x where x: "re_sleep E (length (rs_slept s) + n) = None"
    "re_open E (length (rs_sent s) + n) (rs_last_id s) = Inl x" "\<not> is_server_error x"
    by (auto simp: transport_failure_def split: sum.splits)
  have left: "left - n = Suc (left - Suc n)"
    using Suc.prems by simp
  show ?case
    using Suc x unfolding left
    by (simp add: Let_def attempted_def failure_of_def replicate_append_same)
qed

lemma first_non_failure:
  fixes left :: nat
  shows "\<exists>n \<le> left. (\<forall>j < n. P j) \<and> (n < left \<longrightarrow> \<not> P n)"
proof (induction left)
  case (Suc left)
  then obtain n where "n \<le> left" "\<forall>j < n. P j" "n < left \<longrightarrow> \<not> P n" by blast
  then show ?case
    by (intro exI [of _ "if n < left \<or> \<not> P n then n else Suc n"]) (auto simp: less_Suc_eq)
qed simp

text \<open>
  C30: an outage costs a bounded number of attempts. \<open>reconnect\<close> makes at most \<open>maxAttempts\<close> of them, each
  after its own back-off and each with the last id received; it goes on only after a failure of
  transport. When all fail it answers \<open>ErrReconnectExhausted\<close> around the last failure; otherwise the
  first attempt that is none settles it: a sleep that is cancelled, a server error, which is returned
  as it is, or a connection, which becomes the stream unless \<open>Close\<close> came first.
\<close>

theorem reconnect_is_bounded:
  assumes "\<not> re_closed E (rs_clock s)" "t = look 1 (s\<lparr>rs_stream := None\<rparr>)"
  shows "\<exists>n \<le> rc_max_attempts cfg. (\<forall>j < n. transport_failure E s j)
    \<and> (if n = rc_max_attempts cfg
       then reconnect E cfg e s = (Some (errorf_is ErrReconnectExhausted (failure_of E s e n)), attempted E cfg 0 n t)
       else (\<exists>s'. case re_sleep E (length (rs_slept s) + n) of
           Some x \<Rightarrow> reconnect E cfg e s = (Some (if re_closed E (Suc (rs_clock s)) then [Sentinel ErrStreamClosed]
                         else errorf ''keepclient: subscribe resilient'' x), s')
               \<and> rs_stream s' = None \<and> rs_sent s' = rs_sent s @ replicate n (rs_last_id s)
         | None \<Rightarrow> rs_sent s' = rs_sent s @ replicate (Suc n) (rs_last_id s)
               \<and> rs_slept s' = rs_slept (attempted E cfg 0 (Suc n) t)
               \<and> (case re_open E (length (rs_sent s) + n) (rs_last_id s) of
                    Inl x \<Rightarrow> is_server_error x \<and> reconnect E cfg e s = (Some x, s') \<and> rs_stream s' = None
                  | Inr st \<Rightarrow>
                      if re_closed E (Suc (rs_clock s))
                      then reconnect E cfg e s = (Some [Sentinel ErrStreamClosed], s') \<and> rs_stream s' = None
                      else reconnect E cfg e s = (None, s') \<and> rs_stream s' = Some st)))"
proof -
  have same: "transport_failure E t = transport_failure E s" "failure_of E t e = failure_of E s e"
    "rs_sent t = rs_sent s" "rs_slept t = rs_slept s" "rs_last_id t = rs_last_id s" "rs_clock t = Suc (rs_clock s)"
    "rs_stream t = None"
    by (simp_all add: assms(2) transport_failure_def failure_of_def look_def fun_eq_iff split: nat.split)
  obtain n where n: "n \<le> rc_max_attempts cfg" "\<forall>j < n. transport_failure E t j"
    "n < rc_max_attempts cfg \<longrightarrow> \<not> transport_failure E t n"
    using first_non_failure by blast
  have run: "reconnect E cfg e s
      = reconnect_loop E cfg (rc_max_attempts cfg - n) n (failure_of E t e n) (attempted E cfg 0 n t)"
    using reconnect_loop_failures [OF n(2,1), of cfg 0 e] assms by (simp add: reconnect_def)
  show ?thesis
  proof (cases "n = rc_max_attempts cfg")
    case True
    then show ?thesis
      using n run by (intro exI [of _ n]) (simp add: same)
  next
    case False
    then have left: "rc_max_attempts cfg - n = Suc (rc_max_attempts cfg - Suc n)" and stop: "\<not> transport_failure E t n"
      using n by auto
    obtain r s' where rs: "reconnect_loop E cfg (Suc (rc_max_attempts cfg - Suc n)) n (failure_of E t e n)
        (attempted E cfg 0 n t) = (r, s')"
      by (cases "reconnect_loop E cfg (Suc (rc_max_attempts cfg - Suc n)) n (failure_of E t e n) (attempted E cfg 0 n t)")
    have ends: "case re_sleep E (length (rs_slept s) + n) of
           Some x \<Rightarrow> r = Some (if re_closed E (Suc (rs_clock s)) then [Sentinel ErrStreamClosed]
                         else errorf ''keepclient: subscribe resilient'' x)
               \<and> rs_stream s' = None \<and> rs_sent s' = rs_sent s @ replicate n (rs_last_id s)
         | None \<Rightarrow> rs_sent s' = rs_sent s @ replicate (Suc n) (rs_last_id s)
               \<and> rs_slept s' = rs_slept (attempted E cfg 0 (Suc n) t)
               \<and> (case re_open E (length (rs_sent s) + n) (rs_last_id s) of
                    Inl x \<Rightarrow> is_server_error x \<and> r = Some x \<and> rs_stream s' = None
                  | Inr st \<Rightarrow>
                      if re_closed E (Suc (rs_clock s))
                      then r = Some [Sentinel ErrStreamClosed] \<and> rs_stream s' = None
                      else r = None \<and> rs_stream s' = Some st)"
      using rs stop
      by (auto simp: same Let_def attempted_def look_def transport_failure_def replicate_append_same
          split: option.splits sum.splits if_splits)
    with n rs show ?thesis
      unfolding run left
      by (intro exI [of _ n] conjI) (auto simp: same False split: option.splits sum.splits)
  qed
qed

section \<open>Events\<close>

text \<open>
  A context stays done and a closed stream stays closed, which is what the environment's looks are
  read with.
\<close>

definition steady :: "resilient_env \<Rightarrow> bool" where
  "steady E \<longleftrightarrow> (\<forall>m n. m \<le> n \<longrightarrow> (re_ctx_err E m \<noteq> None \<longrightarrow> re_ctx_err E n \<noteq> None)
     \<and> (re_closed E m \<longrightarrow> re_closed E n))"

lemma steadyD:
  assumes "steady E" "m \<le> n"
  shows "re_ctx_err E n = None \<Longrightarrow> re_ctx_err E m = None" "\<not> re_closed E n \<Longrightarrow> \<not> re_closed E m"
  using assms unfolding steady_def by blast+

text \<open>The events that pass the hook, and the id the next attempt sends.\<close>

fun dedup_run :: "dedup \<Rightarrow> sse_event list \<Rightarrow> sse_event list \<times> dedup" where
  "dedup_run d [] = ([], d)"
| "dedup_run d (ev # evs) =
     (case dedup_skip d (se_id ev) of
        (skip, d') \<Rightarrow> (case dedup_run d' evs of (out, d'') \<Rightarrow> (if skip then out else ev # out, d'')))"

lemma dedup_run_snoc:
  "dedup_run d (evs @ [ev]) =
     (case dedup_run d evs of
        (out, d') \<Rightarrow> (case dedup_skip d' (se_id ev) of (skip, d'') \<Rightarrow> (if skip then out else out @ [ev], d'')))"
  by (induction evs arbitrary: d) (auto split: prod.splits)

definition last_id :: "sse_event list \<Rightarrow> string" where
  "last_id evs = foldl (\<lambda>i ev. if se_id ev \<noteq> [] then se_id ev else i) [] evs"

definition unread :: "resilient \<Rightarrow> sse_event list" where
  "unread s = (case rs_stream s of None \<Rightarrow> [] | Some st \<Rightarrow> scan_all (cs_input st))"

definition received :: "dedup \<Rightarrow> sse_event list \<Rightarrow> sse_event list \<Rightarrow> resilient \<Rightarrow> bool" where
  "received d seen out s \<longleftrightarrow>
     concat (map scan_all (rs_bodies s)) = seen @ unread s \<and> dedup_run d seen = (out, rs_dedup s)
     \<and> rs_last_id s = last_id seen"

lemma stream_next_scan:
  "stream_next ob st = (Inr ev, st') \<Longrightarrow> scan_all (cs_input st) = ev # scan_all (cs_input st')"
  by (auto simp: stream_next_def scan_all.simps [of "cs_input st"] split: option.splits if_splits prod.splits)

lemma stream_next_failed:
  assumes "stream_next ob st = (Inl err, st')" "no_ctx ob = None" "\<not> no_closed ob"
  shows "scan_all (cs_input st) = []"
  using assms by (auto simp: stream_next_def scan_all.simps [of "cs_input st"] split: option.splits if_splits prod.splits)

lemma round_receives:
  assumes "steady E" "received d seen out s" "next_round E cfg s = (o', s')" "\<forall>e. o' \<noteq> Some (Inl e)"
  shows "\<exists>more. received d (seen @ more) (case o' of Some (Inr ev) \<Rightarrow> out @ [ev] | _ \<Rightarrow> out) s'"
proof -
  let ?n = "rs_clock s"
  have open': "re_ctx_err E ?n = None" "\<not> re_closed E (?n + 1)" "rs_stream s \<noteq> None"
    using assms(3,4) by (auto simp: next_round_def Let_def split: option.splits if_splits)
  then obtain st where st: "rs_stream s = Some st" by blast
  have ur: "unread s = scan_all (cs_input st)" by (simp add: unread_def st)
  obtain res st1 where res: "stream_next (obs_at E (?n + 2)) st = (res, st1)"
    by (cases "stream_next (obs_at E (?n + 2)) st")
  show ?thesis
  proof (cases res)
    case (Inr ev)
    note scan = stream_next_scan [OF res [unfolded Inr]]
    let ?s1 = "look 6 (s\<lparr>rs_stream := Some st1, rs_last_id := (if se_id ev \<noteq> [] then se_id ev else rs_last_id s)\<rparr>)"
    obtain skip d' where sk: "dedup_skip (rs_dedup s) (se_id ev) = (skip, d')"
      by (cases "dedup_skip (rs_dedup s) (se_id ev)")
    have s': "o' = (if skip then None else Some (Inr ev))" "s' = ?s1\<lparr>rs_dedup := d'\<rparr>"
      using assms(3) open' st res Inr sk by (auto simp: next_round_def Let_def look_def split: if_splits bool.splits)
    show ?thesis
      using assms(2) sk scan ur unfolding received_def s'
      by (intro exI [of _ "[ev]"])
        (simp add: dedup_run_snoc last_id_def unread_def look_def)
  next
    case (Inl err)
    have off: "re_ctx_err E (?n + 7) = None" "\<not> re_closed E (?n + 6)"
      using assms(3,4) open' st res Inl by (auto simp: next_round_def Let_def split: if_splits option.splits)
    with assms(1) have "no_ctx (obs_at E (?n + 2)) = None" "\<not> no_closed (obs_at E (?n + 2))"
      using steadyD(1) [of E "?n + 2" "?n + 7"] steadyD(2) [of E "?n + 3" "?n + 6"] by (auto simp: obs_at_def numeral_3_eq_3)
    then have empty: "scan_all (cs_input st) = []"
      using stream_next_failed [OF res [unfolded Inl]] by blast
    let ?s1 = "look 8 (s\<lparr>rs_stream := Some st1\<rparr>)"
    have rc: "reconnect E cfg err ?s1 = (None, s')" and none: "o' = None"
      using assms(3,4) open' st res Inl off
      by (auto simp: next_round_def Let_def split: if_splits option.splits prod.splits)
    then have "reconnect_loop E cfg (rc_max_attempts cfg) 0 err (look 1 (?s1\<lparr>rs_stream := None\<rparr>)) = (None, s')"
      by (auto simp: reconnect_def Let_def split: if_splits)
    from reconnect_loop_opened [OF this] show ?thesis
      using assms(2) empty ur none unfolding received_def
      by (intro exI [of _ "[]"]) (auto simp: look_def unread_def)
  qed
qed

lemma rounds_receive:
  assumes "steady E" "received d seen out s" "rounds E cfg k s = Some s'"
  shows "\<exists>more. received d (seen @ more) out s'"
  using assms(2,3)
proof (induction k arbitrary: s seen)
  case 0
  then show ?case by (auto intro: exI [of _ "[]"])
next
  case (Suc k)
  obtain s1 where s1: "next_round E cfg s = (None, s1)" "rounds E cfg k s1 = Some s'"
    using Suc.prems(2) by (auto split: prod.splits option.splits)
  obtain more where "received d (seen @ more) out s1"
    using round_receives [OF assms(1) Suc.prems(1) s1(1)] by auto
  from Suc.IH [OF this s1(2)] show ?case
    by (metis append_assoc)
qed

lemma next_receives:
  assumes "steady E" "received d seen out s" "resilient_next E cfg s = Some (Inr ev, s')"
  shows "\<exists>more. received d (seen @ more) (out @ [ev]) s'"
proof -
  obtain k t where kt: "rounds E cfg k s = Some t" "next_round E cfg t = (Some (Inr ev), s')"
    using next_rounds [OF assms(3)] by auto
  obtain more where more: "received d (seen @ more) out t"
    using rounds_receive [OF assms(1,2) kt(1)] by blast
  from round_receives [OF assms(1) this kt(2)] show ?thesis
    by (auto simp: append_assoc)
qed

text \<open>Successive calls of \<open>Next\<close> that each return an event.\<close>

fun take_events :: "resilient_env \<Rightarrow> resilient_config \<Rightarrow> nat \<Rightarrow> resilient \<Rightarrow> (sse_event list \<times> resilient) option" where
  "take_events E cfg 0 s = Some ([], s)"
| "take_events E cfg (Suc k) s =
     (case resilient_next E cfg s of
        Some (Inr ev, s') \<Rightarrow> (case take_events E cfg k s' of None \<Rightarrow> None | Some (evs, s'') \<Rightarrow> Some (ev # evs, s''))
      | _ \<Rightarrow> None)"

lemma take_receives:
  assumes "steady E" "received d seen out s" "take_events E cfg k s = Some (evs, s')"
  shows "\<exists>more. received d (seen @ more) (out @ evs) s'"
  using assms(2,3)
proof (induction k arbitrary: s seen out evs)
  case 0
  then show ?case by (auto intro: exI [of _ "[]"])
next
  case (Suc k)
  obtain ev s1 evs1 where step: "resilient_next E cfg s = Some (Inr ev, s1)" "take_events E cfg k s1 = Some (evs1, s')"
    "evs = ev # evs1"
    using Suc.prems(2) by (auto split: option.splits sum.splits)
  obtain more where "received d (seen @ more) (out @ [ev]) s1"
    using next_receives [OF assms(1) Suc.prems(1) step(1)] by blast
  from Suc.IH [OF this step(2)] show ?case
    by (auto simp: step(3))
qed

lemma received_start:
  "subscribe_resilient cl send opts = Inr s \<Longrightarrow> received (rc_dedup (resilient_config_of opts)) [] [] s"
  by (auto simp: subscribe_resilient_def received_def unread_def last_id_def split: if_splits sum.splits)

text \<open>
  C21: a reconnecting stream loses nothing it was sent. What the calls of \<open>Next\<close> have returned since
  \<open>SubscribeResilient\<close>, through however many connections, is exactly the deduplicated sequence of a
  prefix of the events the connections carried, one body after the other; what follows the prefix is
  what the present connection still holds; and the id a reconnection would send is the last one of the
  prefix, delivered or skipped.
\<close>

theorem next_delivers_what_was_sent:
  assumes "steady E" "subscribe_resilient cl send opts = Inr s" "cfg = resilient_config_of opts"
    and "take_events E cfg k s = Some (evs, s')"
  shows "\<exists>seen. concat (map scan_all (rs_bodies s')) = seen @ unread s'
    \<and> evs = fst (dedup_run (rc_dedup cfg) seen) \<and> length evs = k \<and> rs_last_id s' = last_id seen"
proof -
  have "length evs = k"
    using assms(4) by (induction k arbitrary: s evs) (auto split: option.splits sum.splits)
  with take_receives [OF assms(1) received_start [OF assms(2)] assms(4)] show ?thesis
    by (auto simp: received_def assms(3))
qed

section \<open>The cache\<close>

lemma seen_and_record_is: "seen_and_record l i = (ld_seen l i, ld_record l i)"
  by (simp add: seen_and_record_def ld_seen_def ld_record_def drop_Suc Let_def)

lemma dedup_skip_LRU [simp]: "dedup_skip (DedupLRU l) i = (ld_seen l i, DedupLRU (ld_record l i))"
  by (simp add: dedup_skip_def seen_and_record_is)

lemma ld_record_seen: "ld_seen l i \<Longrightarrow> ld_record l i = l"
  by (auto simp: ld_seen_def ld_record_def split: if_splits)

text \<open>An id the cache holds stays away until enough others have been delivered.\<close>

lemma dedup_run_window:
  assumes "ld_inv l" "held k i l" "i \<noteq> []"
    and "fst (dedup_run (DedupLRU l) evs) = out" "b < length out" "se_id (out ! b) = i"
  shows "ld_size l \<le> k + b"
  using assms
proof (induction evs arbitrary: l k out b)
  case (Cons ev evs)
  show ?case
  proof (cases "ld_seen l (se_id ev)")
    case True
    then show ?thesis
      using Cons.IH [OF Cons.prems(1-3), of out b] Cons.prems(4-6)
      by (simp add: ld_record_seen split: prod.splits)
  next
    case False
    let ?l = "ld_record l (se_id ev)"
    obtain out1 where out: "fst (dedup_run (DedupLRU ?l) evs) = out1" "out = ev # out1"
      using Cons.prems(4) False by (auto split: prod.splits)
    have ne: "se_id ev \<noteq> i"
      using False held_seen [OF Cons.prems(1,2)] by blast
    then obtain b' where b: "b = Suc b'"
      using Cons.prems(6) out by (cases b) auto
    show ?thesis
    proof (cases "Suc k < ld_size l")
      case True
      from Cons.IH [OF ld_inv_record [OF Cons.prems(1)] held_record [OF Cons.prems(1,2) True] Cons.prems(3) out(1), of b']
      show ?thesis
        using Cons.prems(5,6) out b by simp
    qed (simp add: b)
  qed
qed simp

lemma dedup_run_distinct:
  assumes "ld_inv l" "fst (dedup_run (DedupLRU l) evs) = out"
    and "a < b" "b < length out" "se_id (out ! a) = se_id (out ! b)" "se_id (out ! a) \<noteq> []"
  shows "a + ld_size l < b"
  using assms
proof (induction evs arbitrary: l out a b)
  case (Cons ev evs)
  let ?l = "ld_record l (se_id ev)"
  show ?case
  proof (cases "ld_seen l (se_id ev)")
    case True
    then show ?thesis
      using Cons.IH [OF Cons.prems(1) _ Cons.prems(3-6)] Cons.prems(2)
      by (simp add: ld_record_seen split: prod.splits)
  next
    case False
    obtain out1 where out: "fst (dedup_run (DedupLRU ?l) evs) = out1" "out = ev # out1"
      using Cons.prems(2) False by (auto split: prod.splits)
    obtain b' where b: "b = Suc b'"
      using Cons.prems(3) by (cases b) auto
    show ?thesis
    proof (cases a)
      case 0
      then have ids: "se_id ev \<noteq> []" "se_id (out1 ! b') = se_id ev"
        using Cons.prems(5,6) out b by auto
      from dedup_run_window [OF ld_inv_record [OF Cons.prems(1)] held_recorded [OF Cons.prems(1) ids(1) False] ids(1) out(1) _ ids(2)]
      show ?thesis
        using Cons.prems(4) out b 0 by simp
    next
      case (Suc a')
      then show ?thesis
        using Cons.IH [OF ld_inv_record [OF Cons.prems(1)] out(1), of a' b'] Cons.prems(3-6) out b by simp
    qed
  qed
qed simp

text \<open>
  With \<open>WithDedupLRU n\<close> as the last of the dedup options, an id that \<open>Next\<close> has returned is not
  returned again until \<open>n\<close> other events have been, whatever the connections in between replayed.
\<close>

theorem no_duplicate_in_window:
  assumes "steady E" "subscribe_resilient cl send opts = Inr s" "cfg = resilient_config_of opts"
    and "rc_dedup cfg = DedupLRU (new_lru_dedup n)" "0 < n" "take_events E cfg k s = Some (evs, s')"
    and "a < b" "b < length evs" "se_id (evs ! a) = se_id (evs ! b)" "se_id (evs ! a) \<noteq> []"
  shows "a + n < b"
proof -
  obtain seen where "dedup_run (DedupLRU (new_lru_dedup n)) seen = (evs, rs_dedup s')"
    using take_receives [OF assms(1) received_start [OF assms(2)] assms(6)] assms(3,4)
    by (auto simp: received_def)
  then have "fst (dedup_run (DedupLRU (new_lru_dedup n)) seen) = evs"
    by simp
  from dedup_run_distinct [OF ld_inv_new [OF assms(5)] this assms(7-10)] show ?thesis
    by (simp add: new_lru_dedup_def)
qed

section \<open>When Next returns\<close>

text \<open>
  \<open>Next\<close> returns the first event the present connection holds that the hook lets through, without
  a reconnection, when neither the context nor \<open>Close\<close> interferes.
\<close>

theorem next_returns_what_is_there:
  assumes "\<And>n. re_ctx_err E n = None" "\<And>n. \<not> re_closed E n"
    and "fst (dedup_run (rs_dedup s) (unread s)) = ev # evs"
  shows "\<exists>s'. resilient_next E cfg s = Some (Inr ev, s') \<and> rs_sent s' = rs_sent s
    \<and> fst (dedup_run (rs_dedup s') (unread s')) = evs"
  using assms(3)
proof (induction "unread s" arbitrary: s)
  case Nil
  then show ?case by simp
next
  case (Cons x xs)
  then obtain st where st: "rs_stream s = Some st"
    by (auto simp: unread_def split: option.splits)
  have "scan_all (cs_input st) = x # xs"
    using Cons.hyps(2) st by (simp add: unread_def)
  then obtain rest where scan: "scan_event zero_scan (cs_input st) = (Some x, rest)" "scan_all rest = xs"
    by (auto simp: scan_all.simps [of "cs_input st"] split: prod.splits option.splits)
  let ?s1 = "look 6 (s\<lparr>rs_stream := Some (st\<lparr>cs_input := rest\<rparr>),
      rs_last_id := (if se_id x \<noteq> [] then se_id x else rs_last_id s)\<rparr>)"
  obtain skip d' where sk: "dedup_skip (rs_dedup s) (se_id x) = (skip, d')"
    by (cases "dedup_skip (rs_dedup s) (se_id x)")
  let ?s2 = "?s1\<lparr>rs_dedup := d'\<rparr>"
  have round: "next_round E cfg s = (if skip then None else Some (Inr x), ?s2)"
    using assms(1,2) st scan sk
    by (simp add: next_round_def Let_def stream_next_def obs_at_def look_def split: bool.splits)
  have left: "unread ?s2 = xs" "rs_dedup ?s2 = d'" "rs_sent ?s2 = rs_sent s"
    using scan by (simp_all add: unread_def look_def)
  show ?case
  proof (cases skip)
    case True
    then have "fst (dedup_run (rs_dedup ?s2) (unread ?s2)) = ev # evs"
      using Cons.prems Cons.hyps(2) [symmetric] sk left by (simp split: prod.splits)
    from Cons.hyps(1) [OF left(1) [symmetric] this] show ?thesis
      using round True left by (simp add: resilient_next.simps [of E cfg s])
  next
    case False
    then have "ev = x" "fst (dedup_run (rs_dedup ?s2) (unread ?s2)) = evs"
      using Cons.prems Cons.hyps(2) [symmetric] sk left by (auto split: prod.splits)
    with round False left show ?thesis
      by (simp add: resilient_next.simps [of E cfg s])
  qed
qed

text \<open>
  The budget of attempts is for one outage: a server that accepts every connection and ends it at once
  is met by one attempt after the other, with the shortest back-off, and \<open>Next\<close> does not return.
\<close>

lemma accept_and_close_never_returns:
  assumes "\<And>n. re_ctx_err E n = None" "\<And>n. \<not> re_closed E n" "\<And>n. re_sleep E n = None"
    and "\<And>n i. re_open E n i = Inr \<lparr>cs_input = [], cs_end = [Sentinel ''EOF'']\<rparr>" "0 < rc_max_attempts cfg"
    and "rs_stream s = Some \<lparr>cs_input = [], cs_end = [Sentinel ''EOF'']\<rparr>"
  shows "resilient_next E cfg s = None"
proof -
  let ?eof = "\<lparr>cs_input = [], cs_end = [Sentinel ''EOF'']\<rparr>"
  have scan: "scan_event zero_scan [] = (None, [])"
    by (simp add: scan_event.simps)
  obtain m where m: "rc_max_attempts cfg = Suc m"
    using assms(5) by (cases "rc_max_attempts cfg") auto
  have step: "\<exists>t'. next_round E cfg t = (None, t') \<and> rs_stream t' = Some ?eof" if "rs_stream t = Some ?eof" for t
    using that assms(1-4) scan m
    by (simp add: next_round_def Let_def stream_next_def obs_at_def look_def reconnect_def is_server_error_def)
  have all: "rounds E cfg k s = Some t \<Longrightarrow> rs_stream t = Some ?eof" for k t
    using assms(6)
  proof (induction k arbitrary: s)
    case (Suc k)
    from step [OF Suc.prems(2)] Suc show ?case by auto
  qed simp
  show ?thesis
  proof (rule ccontr)
    assume "resilient_next E cfg s \<noteq> None"
    then obtain y where "resilient_next E cfg s = Some y" by blast
    from next_rounds [OF this] obtain k t where "rounds E cfg k s = Some t" "next_round E cfg t = (Some (fst y), snd y)"
      by blast
    with all [of k t] step [of t] show False
      by auto
  qed
qed

end
