(* ===== verification/StreamWorld.thy ===== *)
theory StreamWorld
  imports PublishStream ResilientStream
begin

text \<open>
  A small server and a small client, on which the properties of the event stream are applied: two rows
  of which the organisation's subscriber sees both, and a client whose first connection ends.
\<close>

section \<open>The server\<close>

definition demo_row :: "nat \<Rightarrow> outbox_row" where
  "demo_row n = \<lparr>ob_id = of_nat n, ob_aggregate_type = ''a'', ob_aggregate_id = 9, ob_event_type = ''e'',
     ob_payload = ''{}'', ob_scope = ''org'', ob_created_at = - int n, ob_published_at = None\<rparr>"

definition demo_tick :: tick_env where
  "demo_tick = \<lparr>ot_begin = None, ot_select = None, ot_ctx_err = (\<lambda>_. None), ot_stamp = (\<lambda>_. None),
     ot_commit = None, ot_now = 5\<rparr>"

definition demo_stream_steps :: "stream_step list" where
  "demo_stream_steps = [StepSubscribe demo_claim_keep,
     StepRow (demo_row 1), StepRow (demo_row 2), StepTick demo_tick, StepPoll, StepPoll, StepPoll, StepReceive 0]"

abbreviation demo_stream :: keep_stream where
  "demo_stream \<equiv> stream_run demo_stream_steps (new_stream 2)"

lemmas demo_stream_defs = demo_stream_steps_def demo_row_def demo_tick_def demo_claim_keep_def stream_run_def
  stream_step_def new_stream_def new_pub_registry_def handle_subscribe_def role_for_scope_def pub_subscribe_def
  with_reg_def tick_begin_def pending_batch_def tick_step_def tick_row_def tick_commit_def world_publish_def
  pub_publish_def publish_to_def row_to_event_def stamp_rows_def chan_receive_def

lemma demo_stream_state:
  "pr_next_id (kx_reg demo_stream) = 1" "kx_taken demo_stream 0 = [row_to_event (demo_row 2)]"
  "kx_log demo_stream = [row_to_event (demo_row 2), row_to_event (demo_row 1)]"
  "kx_poll demo_stream = None" "kx_worker demo_stream" "kx_claim demo_stream 0 = demo_claim_keep"
  "kx_since demo_stream 0 = 0"
  "ox_rows (kx_outbox demo_stream) = map (\<lambda>n. demo_row n\<lparr>ob_published_at := Some 5\<rparr>) [1, 2]"
  "pc_buffer (pr_chans (kx_reg demo_stream) 0) = [row_to_event (demo_row 1)]" "live (kx_reg demo_stream) 0"
  by (simp_all add: demo_stream_defs live_def)

lemma subscriber_sees_no_gap_witness:
  "\<not> pr_panicked (kx_reg demo_stream)
    \<and> (\<exists>missed. [row_to_event (demo_row 2), row_to_event (demo_row 1)]
           = kx_taken demo_stream 0 @ pc_buffer (pr_chans (kx_reg demo_stream) 0) @ missed \<and> missed = [])"
  using subscriber_sees_no_gap [OF refl, of 0 demo_stream_steps 2]
  by (simp add: demo_stream_state due_def row_to_event_def demo_row_def demo_claim_keep_def)

lemma published_rows_were_fanned_out_witness:
  "demo_row 1\<lparr>ob_published_at := Some 5\<rparr> \<in> set (ox_rows (kx_outbox demo_stream))
    \<and> row_to_event (demo_row 1\<lparr>ob_published_at := Some 5\<rparr>) \<in> set (kx_log demo_stream)"
proof
  show row: "demo_row 1\<lparr>ob_published_at := Some 5\<rparr> \<in> set (ox_rows (kx_outbox demo_stream))"
    by (simp add: demo_stream_state)
  show "row_to_event (demo_row 1\<lparr>ob_published_at := Some 5\<rparr>) \<in> set (kx_log demo_stream)"
    by (rule published_rows_were_fanned_out [OF refl row]) simp
qed

lemma poll_drains_outbox_witness:
  "kx_log (stream_run [StepTick demo_tick, StepPoll, StepPoll, StepPoll]
      (stream_run [StepRow (demo_row 1), StepRow (demo_row 2)] (new_stream 2)))
    = [row_to_event (demo_row 2), row_to_event (demo_row 1)]"
proof -
  let ?s = "stream_run [StepRow (demo_row 1), StepRow (demo_row 2)] (new_stream 2)"
  have rows: "pending_batch (ox_rows (kx_outbox ?s)) = [demo_row 2, demo_row 1]" "kx_log ?s = []" "kx_worker ?s" "kx_poll ?s = None"
    by (simp_all add: demo_stream_defs)
  have steps: "[StepTick demo_tick, StepPoll, StepPoll, StepPoll]
      = StepTick demo_tick # replicate (Suc (length [demo_row 2, demo_row 1])) StepPoll"
    by simp
  show ?thesis
    using poll_drains_outbox [OF refl rows(3,4) _ _ _ _ rows(1) [symmetric] refl, of demo_tick] rows(2)
    unfolding steps by (simp add: demo_tick_def)
qed

definition demo_signals :: "stream_signal list" where
  "demo_signals = [SigTick, SigEvent (row_to_event (demo_row 2)), SigTick]"

lemma client_reads_what_was_published_witness:
  "prefix (scan_all (fst (subscribe_loop (\<lambda>_. ''1'') (\<lambda>_. None) 0 demo_signals)))
     (map (sse_view (\<lambda>_. ''1'')) [row_to_event (demo_row 2), row_to_event (demo_row 1)])"
proof -
  have pre: "0 < pr_next_id (kx_reg demo_stream)" "signal_events demo_signals = kx_taken demo_stream 0"
    "\<forall>ev \<in> set (kx_log demo_stream). line_safe ((\<lambda>_. ''1'') (pe_id ev)) \<and> line_safe (pe_payload ev)"
    by (simp_all add: demo_stream_state demo_signals_def row_to_event_def demo_row_def line_safe_def)
  have evs: "due (kx_claim demo_stream 0) (kx_since demo_stream 0) (kx_log demo_stream)
      = [row_to_event (demo_row 2), row_to_event (demo_row 1)]"
    by (simp add: demo_stream_state due_def) (simp add: row_to_event_def demo_row_def demo_claim_keep_def)
  have "plain_events [row_to_event (demo_row 2), row_to_event (demo_row 1)]
      = [row_to_event (demo_row 2), row_to_event (demo_row 1)]"
    by (simp add: row_to_event_def demo_row_def line_safe_def)
  then show ?thesis
    using client_reads_what_was_published [OF refl pre prod.collapse [symmetric] evs [symmetric] refl, of "\<lambda>_. None"]
    by simp
qed

section \<open>The client\<close>

definition demo_frame :: "string \<Rightarrow> string" where
  "demo_frame i = ''id: '' @ i @ [LF] @ ''event: e'' @ [LF, LF]"

definition demo_body :: "string list \<Rightarrow> client_stream" where
  "demo_body ids = \<lparr>cs_input = concat (map demo_frame ids), cs_end = [Sentinel ''EOF'']\<rparr>"

text \<open>The first attempt fails, the second opens a connection that replays.\<close>

definition demo_resilient_env :: resilient_env where
  "demo_resilient_env = \<lparr>re_ctx_err = (\<lambda>_. None), re_closed = (\<lambda>_. False), re_sleep = (\<lambda>_. None),
     re_jitter = (\<lambda>_ d. d),
     re_open = (\<lambda>n i. if n = 1 then Inr (demo_body [''1'', ''2'', ''1'']) else Inl [Text ''refused''])\<rparr>"

definition demo_stream_client :: keep_client where
  "demo_stream_client = \<lparr>kcl_token_source = Some (Inr ''t''), kcl_join_url = (\<lambda>_. None), kcl_new_request = (\<lambda>_. None),
     kcl_path_escape = id, kcl_encode_query = (\<lambda>_. []), kcl_itoa = (\<lambda>_. [])\<rparr>"

definition demo_resilient :: resilient where
  "demo_resilient = \<lparr>rs_stream = Some (demo_body [''1'']), rs_last_id = [], rs_dedup = DedupLRU (new_lru_dedup 1),
     rs_clock = 0, rs_slept = [], rs_sent = [], rs_bodies = [cs_input (demo_body [''1''])]\<rparr>"

abbreviation demo_options :: "resilient_option list" where
  "demo_options \<equiv> [WithDedupLRU 1, WithMaxReconnectAttempts 2]"

lemma demo_subscribed:
  "subscribe_resilient demo_stream_client (\<lambda>_ _. Inr (200, [], demo_body [''1''])) demo_options = Inr demo_resilient"
  by (simp add: subscribe_resilient_def client_subscribe_def demo_stream_client_def demo_resilient_def
      resilient_config_of_def apply_option_def default_resilient_config_def)

lemma demo_steady: "steady demo_resilient_env"
  by (simp add: steady_def demo_resilient_env_def)

lemma demo_scan:
  assumes "i = ''1'' \<or> i = ''2''"
  shows "scan_event zero_scan (demo_frame i @ rest)
      = (Some \<lparr>se_id = i, se_event_type = ''e'', se_payload = None\<rparr>, rest)"
    "scan_event zero_scan (demo_frame i) = (Some \<lparr>se_id = i, se_event_type = ''e'', se_payload = None\<rparr>, [])"
  using assms
  by (auto simp: demo_frame_def scan_event.simps trim_cr_def zero_scan_def scan_field_def field_of_def prefix_def
      scan_dispatch_def)

lemma demo_scan_end: "scan_event zero_scan [] = (None, [])"
  by (simp add: scan_event.simps)

lemma demo_step:
  "next_round E cfg s = (Some r, s') \<Longrightarrow> resilient_next E cfg s = Some (r, s')"
  "next_round E cfg s = (None, s') \<Longrightarrow> resilient_next E cfg s = resilient_next E cfg s'"
  by (simp_all add: resilient_next.simps [of E cfg s])

abbreviation demo_taken :: "nat \<Rightarrow> (sse_event list \<times> resilient) option" where
  "demo_taken k \<equiv> take_events demo_resilient_env (resilient_config_of demo_options) k demo_resilient"

lemmas demo_round_defs = next_round_def stream_next_def obs_at_def look_def reconnect_def
  is_server_error_def seen_and_record_is new_lru_dedup_def ld_seen_def ld_record_def Let_def
  resilient_config_of_def apply_option_def default_resilient_config_def

lemma demo_takes:
  "map_option (map se_id \<circ> fst) (demo_taken (Suc (Suc (Suc 0)))) = Some [''1'', ''2'', ''1'']"
  by (simp add: numeral_2_eq_2 demo_resilient_def demo_body_def demo_resilient_env_def demo_step demo_round_defs
      demo_scan demo_scan_end)

lemma demo_config: "rc_dedup (resilient_config_of demo_options) = DedupLRU (new_lru_dedup 1)"
  "rc_max_attempts (resilient_config_of demo_options) = 2"
  by (simp_all add: resilient_config_of_def apply_option_def default_resilient_config_def)

lemma next_delivers_what_was_sent_witness:
  "\<exists>evs s' seen. demo_taken (Suc (Suc (Suc 0))) = Some (evs, s') \<and> map se_id evs = [''1'', ''2'', ''1'']
     \<and> concat (map scan_all (rs_bodies s')) = seen @ unread s'
     \<and> evs = fst (dedup_run (DedupLRU (new_lru_dedup 1)) seen)"
proof -
  obtain evs s' where taken: "demo_taken (Suc (Suc (Suc 0))) = Some (evs, s')" "map se_id evs = [''1'', ''2'', ''1'']"
    using demo_takes by (auto simp del: take_events.simps)
  from next_delivers_what_was_sent [OF demo_steady demo_subscribed refl taken(1)] taken show ?thesis
    by (auto simp: demo_config simp del: take_events.simps)
qed

lemma no_duplicate_in_window_witness:
  "\<exists>evs s'. demo_taken (Suc (Suc (Suc 0))) = Some (evs, s') \<and> se_id (evs ! 0) = se_id (evs ! 2) \<and> 0 + 1 < (2 :: nat)"
proof -
  obtain evs s' where taken: "demo_taken (Suc (Suc (Suc 0))) = Some (evs, s')" "map se_id evs = [''1'', ''2'', ''1'']"
    using demo_takes by (auto simp del: take_events.simps)
  then have ids: "se_id (evs ! 0) = se_id (evs ! 2)" "se_id (evs ! 0) \<noteq> []" "2 < length evs" "length evs = 3"
    by (auto simp: map_eq_Cons_conv)
  have "0 + 1 < (2 :: nat)"
    by (rule no_duplicate_in_window [OF demo_steady demo_subscribed refl demo_config(1) _ taken(1) _ ids(3,1,2)]) simp_all
  with taken ids show ?thesis
    by blast
qed

lemma next_returns_what_is_there_witness:
  "\<exists>s'. resilient_next demo_resilient_env (resilient_config_of demo_options) demo_resilient
     = Some (Inr \<lparr>se_id = ''1'', se_event_type = ''e'', se_payload = None\<rparr>, s') \<and> rs_sent s' = []"
proof -
  have held: "fst (dedup_run (rs_dedup demo_resilient) (unread demo_resilient))
      = [\<lparr>se_id = ''1'', se_event_type = ''e'', se_payload = None\<rparr>]"
    by (simp add: demo_resilient_def unread_def demo_body_def scan_all.simps demo_scan demo_scan_end new_lru_dedup_def
        ld_seen_def)
  have "re_ctx_err demo_resilient_env n = None" "\<not> re_closed demo_resilient_env n" for n
    by (simp_all add: demo_resilient_env_def)
  from next_returns_what_is_there [OF this held, of "resilient_config_of demo_options"] show ?thesis
    by (auto simp: demo_resilient_def)
qed

lemma reconnect_is_bounded_witness:
  "fst (reconnect (demo_resilient_env\<lparr>re_open := \<lambda>_ _. Inl [Text ''refused'']\<rparr>) (resilient_config_of demo_options)
      [Sentinel ''EOF''] demo_resilient) = Some (errorf_is ErrReconnectExhausted [Text ''refused''])"
proof -
  let ?E = "demo_resilient_env\<lparr>re_open := \<lambda>_ _. Inl [Text ''refused'']\<rparr>"
  have env: "\<not> re_closed ?E (rs_clock demo_resilient)"
    by (simp add: demo_resilient_env_def)
  have last: "failure_of E demo_resilient e 2 = [Text ''refused'']"
    if "E = \<lparr>re_ctx_err = (\<lambda>_. None), re_closed = (\<lambda>_. False), re_sleep = (\<lambda>_. None),
      re_jitter = (\<lambda>_ d. d), re_open = (\<lambda>_ _. Inl [Text ''refused''])\<rparr>" for e E
    using that by (simp add: failure_of_def numeral_2_eq_2)
  show ?thesis
    using reconnect_is_bounded [OF env refl, of "resilient_config_of demo_options" "[Sentinel ''EOF'']"]
    by (auto simp: demo_config last demo_resilient_env_def is_server_error_def split: if_splits)
qed

end
