(* ===== verification/FileTree.thy ===== *)
theory FileTree
  imports ToolManifest "HOL-Library.List_Lexorder" "HOL-Library.Char_ord"
begin

text \<open>
  A tree of files and the calls of Go's \<open>os\<close> package on it that the program makes: \<open>Stat\<close>,
  \<open>ReadFile\<close>, \<open>MkdirAll\<close>, \<open>WriteFile\<close>, \<open>RemoveAll\<close> and the listing of a directory, any of which may
  fail. A tree is looked at through \<open>kind_at\<close>, what is at a path; the laws of the calls are stated
  for it, and a walk is determined by it.
\<close>

section \<open>Trees\<close>

text \<open>
  A regular file has its content and whether a bit of \<open>0o111\<close> is set. \<open>Special\<close> is what a walk skips
  (a device, a socket, a link out of the tree); nothing is read or written through it.
\<close>

datatype fsnode = File string bool | Special | Dir "(string \<times> fsnode) list"

fun node_at :: "fsnode \<Rightarrow> string list \<Rightarrow> fsnode option" where
  "node_at n [] = Some n"
| "node_at (Dir es) (w # ws) = (case map_of es w of None \<Rightarrow> None | Some n \<Rightarrow> node_at n ws)"
| "node_at n (w # ws) = None"

datatype entry = EFile string bool | ESpecial | EDir

definition kind_of :: "fsnode \<Rightarrow> entry" where
  "kind_of n = (case n of File c x \<Rightarrow> EFile c x | Special \<Rightarrow> ESpecial | Dir _ \<Rightarrow> EDir)"

definition kind_at :: "fsnode \<Rightarrow> string list \<Rightarrow> entry option" where
  "kind_at t p = map_option kind_of (node_at t p)"

text \<open>Whether the path runs into something that is no directory, where the system says \<open>ENOTDIR\<close>.\<close>

fun blocked :: "fsnode \<Rightarrow> string list \<Rightarrow> bool" where
  "blocked n [] = False"
| "blocked (Dir es) (w # ws) = (case map_of es w of None \<Rightarrow> False | Some n \<Rightarrow> blocked n ws)"
| "blocked n (w # ws) = True"

text \<open>A directory is kept in the order of its names.\<close>

fun put_entry :: "string \<Rightarrow> fsnode \<Rightarrow> (string \<times> fsnode) list \<Rightarrow> (string \<times> fsnode) list" where
  "put_entry w n [] = [(w, n)]"
| "put_entry w n ((v, m) # es) =
     (if w = v then (w, n) # es else if w < v then (w, n) # (v, m) # es else (v, m) # put_entry w n es)"

fun mkdir_at :: "fsnode \<Rightarrow> string list \<Rightarrow> fsnode option" where
  "mkdir_at (Dir es) [] = Some (Dir es)"
| "mkdir_at (Dir es) (w # ws) =
     (case mkdir_at (case map_of es w of None \<Rightarrow> Dir [] | Some n \<Rightarrow> n) ws of
        None \<Rightarrow> None
      | Some n \<Rightarrow> Some (Dir (put_entry w n es)))"
| "mkdir_at n ws = None"

text \<open>Writing truncates what is there and leaves its mode.\<close>

fun write_at :: "fsnode \<Rightarrow> string list \<Rightarrow> string \<Rightarrow> bool \<Rightarrow> fsnode option" where
  "write_at (Dir es) [w] c x =
     (case map_of es w of
        None \<Rightarrow> Some (Dir (put_entry w (File c x) es))
      | Some (File _ x0) \<Rightarrow> Some (Dir (put_entry w (File c x0) es))
      | Some _ \<Rightarrow> None)"
| "write_at (Dir es) (w # v # ws) c x =
     (case map_of es w of
        None \<Rightarrow> None
      | Some n \<Rightarrow> (case write_at n (v # ws) c x of None \<Rightarrow> None | Some n' \<Rightarrow> Some (Dir (put_entry w n' es))))"
| "write_at n ws c x = None"

fun remove_at :: "fsnode \<Rightarrow> string list \<Rightarrow> fsnode" where
  "remove_at (Dir es) [w] = Dir (filter (\<lambda>e. fst e \<noteq> w) es)"
| "remove_at (Dir es) (w # v # ws) =
     (case map_of es w of None \<Rightarrow> Dir es | Some n \<Rightarrow> Dir (put_entry w (remove_at n (v # ws)) es))"
| "remove_at n ws = n"

lemma map_of_put_entry [simp]: "map_of (put_entry w n es) = (map_of es)(w \<mapsto> n)"
  by (induction es rule: put_entry.induct) (auto simp: fun_eq_iff)

lemma map_of_drop_entry: "map_of (filter (\<lambda>e. fst e \<noteq> w) es) = (map_of es)(w := None)"
  by (induction es) (auto simp: fun_eq_iff)

lemma kind_of_simps [simp]: "kind_of (File c x) = EFile c x" "kind_of Special = ESpecial" "kind_of (Dir es) = EDir"
  by (simp_all add: kind_of_def)

lemma kind_of_EDir: "kind_of n = EDir \<longleftrightarrow> (\<exists>es. n = Dir es)"
  by (cases n) simp_all

lemma kind_at_Nil [simp]: "kind_at t [] = Some (kind_of t)"
  by (simp add: kind_at_def)

lemma kind_at_Dir [simp]: "kind_at (Dir es) (w # ws) = (case map_of es w of None \<Rightarrow> None | Some n \<Rightarrow> kind_at n ws)"
  by (simp add: kind_at_def split: option.split)

lemma kind_at_leaf [simp]:
  "kind_at (File c x) q = (if q = [] then Some (EFile c x) else None)"
  "kind_at Special q = (if q = [] then Some ESpecial else None)"
  "kind_at (Dir []) q = (if q = [] then Some EDir else None)"
  by (cases q; simp add: kind_at_def)+

text \<open>What lies above something is a directory.\<close>

lemma kind_at_above: "kind_at t (p @ q) \<noteq> None \<Longrightarrow> q \<noteq> [] \<Longrightarrow> kind_at t p = Some EDir"
proof (induction t p rule: node_at.induct)
  case (1 n)
  then show ?case by (cases n; cases q) auto
qed (auto split: option.splits)

lemma node_at_append: "node_at t (p @ q) = (case node_at t p of None \<Rightarrow> None | Some n \<Rightarrow> node_at n q)"
  by (induction t p rule: node_at.induct) (auto split: option.split)

lemma kind_at_append: "node_at t p = Some n \<Longrightarrow> kind_at t (p @ q) = kind_at n q"
  by (simp add: kind_at_def node_at_append)

section \<open>The laws of the calls\<close>

lemma mkdir_at_kind:
  "mkdir_at t p = Some t' \<Longrightarrow> kind_at t' q = (if prefix q p then Some EDir else kind_at t q)"
proof (induction t p arbitrary: t' q rule: mkdir_at.induct)
  case (1 es)
  then show ?case by (cases q) auto
next
  case (2 es w ws)
  then show ?case
    by (cases q) (auto split: option.splits)
qed simp_all

lemma mkdir_at_succeeds:
  assumes "\<forall>q. prefix q p \<longrightarrow> kind_at t q \<in> {None, Some EDir}"
  shows "mkdir_at t p \<noteq> None"
  using assms
proof (induction t p rule: mkdir_at.induct)
  case (2 es w ws)
  let ?n = "case map_of es w of None \<Rightarrow> Dir [] | Some n \<Rightarrow> n"
  have "\<forall>q. prefix q ws \<longrightarrow> kind_at ?n q \<in> {None, Some EDir}"
  proof (intro allI impI)
    fix q
    assume "prefix q ws"
    with 2(2) [THEN spec, of "w # q"] show "kind_at ?n q \<in> {None, Some EDir}"
      by (cases "map_of es w"; cases q) auto
  qed
  with 2(1) show ?case
    by (auto split: option.split)
qed (auto dest: spec [of _ "[]"])

lemma write_at_kind:
  "write_at t p c x = Some t' \<Longrightarrow>
     kind_at t' q = (if q = p then Some (EFile c (case kind_at t p of Some (EFile _ x0) \<Rightarrow> x0 | _ \<Rightarrow> x)) else kind_at t q)"
proof (induction t p c x arbitrary: t' q rule: write_at.induct)
  case (1 es w c x)
  show ?case
  proof (cases "map_of es w")
    case None
    with 1 show ?thesis by (cases q; cases "tl q") auto
  next
    case (Some n)
    with 1 show ?thesis by (cases n; cases q; cases "tl q") auto
  qed
next
  case (2 es w v ws c x)
  obtain n n' where n: "map_of es w = Some n" "write_at n (v # ws) c x = Some n'" "t' = Dir (put_entry w n' es)"
    using "2.prems" by (auto split: option.splits)
  note below = "2.IH" [OF n(1,2)]
  show ?case
    using n(1,3) below by (cases q) auto
qed simp_all

lemma write_at_succeeds:
  assumes "p \<noteq> []" "kind_at t (butlast p) = Some EDir" "kind_at t p \<notin> {Some EDir, Some ESpecial}"
  shows "write_at t p c x \<noteq> None"
  using assms
proof (induction t p c x rule: write_at.induct)
  case (1 es w c x)
  then show ?case by (auto split: option.splits fsnode.splits)
next
  case (2 es w v ws c x)
  then show ?case by (auto split: option.splits if_splits)
qed (auto split: if_splits)

lemma remove_at_kind:
  "p \<noteq> [] \<Longrightarrow> kind_at (remove_at t p) q = (if prefix p q then None else kind_at t q)"
proof (induction t p arbitrary: q rule: remove_at.induct)
  case (1 es w)
  then show ?case by (cases q) (auto simp: map_of_drop_entry)
next
  case (2 es w v ws)
  then show ?case by (cases q) (auto split: option.splits)
qed auto

section \<open>Walks\<close>

text \<open>
  The names of a directory are in order and differ, in every directory of the tree, and none is empty, a
  dot, two dots or holds a slash.
\<close>

definition name_ok :: "string \<Rightarrow> bool" where
  "name_ok w \<longleftrightarrow> word_ok w \<and> w \<noteq> ''.'' \<and> w \<noteq> dotdot"

inductive wf_node :: "fsnode \<Rightarrow> bool" where
  "wf_node (File c x)"
| "wf_node Special"
| "sorted_wrt (<) (map fst es) \<Longrightarrow> \<forall>e \<in> set es. name_ok (fst e) \<and> wf_node (snd e) \<Longrightarrow> wf_node (Dir es)"

inductive_simps wf_node_simps [simp]: "wf_node (File c x)" "wf_node Special" "wf_node (Dir es)"

type_synonym walk_entry = "string list \<times> string \<times> bool"

fun walk_list :: "(string \<times> fsnode) list \<Rightarrow> walk_entry list" where
  "walk_list [] = []"
| "walk_list ((w, File c x) # es) = ([w], c, x) # walk_list es"
| "walk_list ((w, Special) # es) = walk_list es"
| "walk_list ((w, Dir sub) # es) = map (\<lambda>(r, d). (w # r, d)) (walk_list sub) @ walk_list es"

lemma wf_tail:
  assumes "wf_node (Dir ((w, n) # es))"
  shows "wf_node n" "wf_node (Dir es)" "map_of es w = None" "\<forall>v \<in> fst ` set es. w < v"
  using assms by (auto simp: map_of_eq_None_iff)

lemma walk_list_kind:
  "wf_node (Dir es) \<Longrightarrow> (r, c, x) \<in> set (walk_list es) \<longleftrightarrow> r \<noteq> [] \<and> kind_at (Dir es) r = Some (EFile c x)"
proof (induction es arbitrary: r rule: walk_list.induct)
  case (2 w c' x' es)
  note IH = "2.IH" [OF wf_tail(2) [OF "2.prems"]]
  show ?case
    using wf_tail(3) [OF "2.prems"] by (cases r) (auto simp: IH simp del: wf_node_simps)
next
  case (3 w es)
  note IH = "3.IH" [OF wf_tail(2) [OF "3.prems"]]
  show ?case
    using wf_tail(3) [OF "3.prems"] by (cases r) (auto simp: IH simp del: wf_node_simps)
next
  case (4 w sub es)
  note IH = "4.IH"(1) [OF wf_tail(1) [OF "4.prems"]] "4.IH"(2) [OF wf_tail(2) [OF "4.prems"]]
  have img: "(q, c, x) \<in> (\<lambda>(r, d). (w # r, d)) ` S \<longleftrightarrow> (\<exists>r. q = w # r \<and> (r, c, x) \<in> S)" for q S
    by force
  show ?case
    using wf_tail(3) [OF "4.prems"] by (cases r) (auto simp: IH img simp del: wf_node_simps)
qed simp

text \<open>The entries come in the order of their paths, word by word, and no path comes twice.\<close>

lemma walk_list_names: "a \<in> set (walk_list es) \<Longrightarrow> fst a \<noteq> [] \<and> hd (fst a) \<in> fst ` set es"
  by (induction es arbitrary: a rule: walk_list.induct) auto

lemma less_by_head: "r \<noteq> [] \<Longrightarrow> w < hd r \<Longrightarrow> w # r' < r"
  for r :: "string list"
  by (cases r) auto

lemma walk_list_sorted: "wf_node (Dir es) \<Longrightarrow> sorted_wrt (<) (map fst (walk_list es))"
proof (induction es rule: walk_list.induct)
  case (2 w c x es)
  have "\<forall>a \<in> set (walk_list es). [w] < fst a"
    using wf_tail(4) [OF "2.prems"] walk_list_names [of _ es] by (blast intro: less_by_head)
  with "2.IH" [OF wf_tail(2) [OF "2.prems"]] show ?case
    by simp
next
  case (4 w sub es)
  have sub: "sorted_wrt (<) (map fst (map (\<lambda>(r, d). (w # r, d)) (walk_list sub)))"
    using "4.IH"(1) [OF wf_tail(1) [OF "4.prems"]] by (simp add: sorted_wrt_map case_prod_unfold)
  have rest: "sorted_wrt (<) (map fst (walk_list es))"
    using "4.IH"(2) [OF wf_tail(2) [OF "4.prems"]] .
  have "\<forall>a \<in> set (walk_list es). \<forall>r. w # r < fst a"
    using wf_tail(4) [OF "4.prems"] walk_list_names [of _ es] by (blast intro: less_by_head)
  with sub rest show ?case
    by (auto simp: sorted_wrt_append)
qed (auto dest: wf_tail(2) simp del: wf_node_simps)

lemma walk_list_distinct: "wf_node (Dir es) \<Longrightarrow> distinct (map fst (walk_list es))"
  using walk_list_sorted [of es] by (auto simp: strict_sorted_iff)

lemma walk_list_names_ok:
  "wf_node (Dir es) \<Longrightarrow> (r, d) \<in> set (walk_list es) \<Longrightarrow> r \<noteq> [] \<and> list_all name_ok r"
proof (induction es arbitrary: r d rule: walk_list.induct)
  case (4 w sub es)
  have w: "name_ok w"
    using "4.prems"(1) by simp
  consider r' where "r = w # r'" "(r', d) \<in> set (walk_list sub)" | "(r, d) \<in> set (walk_list es)"
    using "4.prems"(2) by (auto simp del: wf_node_simps)
  then show ?case
    using "4.IH" wf_tail [OF "4.prems"(1)] w by cases (auto simp del: wf_node_simps)
qed auto

lemma map_of_keys: "distinct (map fst xs) \<Longrightarrow> map (\<lambda>k. (k, the (map_of xs k))) (map fst xs) = xs"
  by (auto intro: map_idI)

lemma assoc_eqI:
  assumes "map fst xs = map fst ys" "distinct (map fst xs)" "set xs = set ys"
  shows "xs = ys"
proof -
  have "map_of xs = map_of ys"
    using assms by (intro map_of_inject_set [THEN iffD2]) simp_all
  with map_of_keys [of xs] map_of_keys [of ys] assms show ?thesis
    by simp
qed

text \<open>So two trees with the same regular files have the same walk.\<close>

lemma walk_list_cong:
  assumes "wf_node (Dir es)" "wf_node (Dir es')"
    and "\<And>r c x. r \<noteq> [] \<Longrightarrow> kind_at (Dir es) r = Some (EFile c x) \<longleftrightarrow> kind_at (Dir es') r = Some (EFile c x)"
  shows "walk_list es = walk_list es'"
proof -
  have set: "set (walk_list es) = set (walk_list es')"
    using walk_list_kind [OF assms(1)] walk_list_kind [OF assms(2)] assms(3) by auto
  then have "map fst (walk_list es) = map fst (walk_list es')"
    using walk_list_sorted [OF assms(1)] walk_list_sorted [OF assms(2)]
    by (intro strict_sorted_equal) auto
  with walk_list_distinct [OF assms(1)] set show ?thesis
    by (rule assoc_eqI [rotated])
qed

text \<open>The calls keep a tree well formed.\<close>

lemma put_entry_fst: "fst ` set (put_entry w n es) = insert w (fst ` set es)"
  by (induction es rule: put_entry.induct) auto

lemma put_entry_sub: "set (put_entry w n es) \<subseteq> insert (w, n) (set es)"
  by (induction es rule: put_entry.induct) auto

lemma put_entry_sorted: "sorted_wrt (<) (map fst es) \<Longrightarrow> sorted_wrt (<) (map fst (put_entry w n es))"
proof (induction es rule: put_entry.induct)
  case (2 w n v m es)
  have "\<forall>u \<in> fst ` set (put_entry w n es). v < u" if "v < w"
    using that 2(2) by (auto simp: put_entry_fst)
  with 2 show ?case
    by (auto simp: neq_iff)
qed simp

lemma wf_put_entry: "wf_node (Dir es) \<Longrightarrow> name_ok w \<Longrightarrow> wf_node n \<Longrightarrow> wf_node (Dir (put_entry w n es))"
  using put_entry_sorted [of es w n] put_entry_sub [of w n es] by auto

lemma wf_child: "wf_node (Dir es) \<Longrightarrow> map_of es w = Some n \<Longrightarrow> name_ok w \<and> wf_node n"
  by (fastforce dest: map_of_SomeD)

lemma wf_node_at: "node_at t p = Some n \<Longrightarrow> wf_node t \<Longrightarrow> wf_node n"
  by (induction t p rule: node_at.induct) (auto split: option.splits dest: wf_child simp del: wf_node_simps)

lemma wf_mkdir_at: "mkdir_at t p = Some t' \<Longrightarrow> wf_node t \<Longrightarrow> list_all name_ok p \<Longrightarrow> wf_node t'"
proof (induction t p arbitrary: t' rule: mkdir_at.induct)
  case (2 es w ws)
  let ?n = "case map_of es w of None \<Rightarrow> Dir [] | Some n \<Rightarrow> n"
  have "wf_node ?n"
    using "2.prems"(2) by (auto split: option.split dest: wf_child simp del: wf_node_simps(3)) simp
  with 2 show ?case
    by (auto split: option.splits intro: wf_put_entry simp del: wf_node_simps)
qed simp_all

lemma wf_write_at: "write_at t p c x = Some t' \<Longrightarrow> wf_node t \<Longrightarrow> name_ok (last p) \<Longrightarrow> wf_node t'"
proof (induction t p c x arbitrary: t' rule: write_at.induct)
  case (1 es w c x)
  then show ?case
    by (auto split: option.splits fsnode.splits intro!: wf_put_entry simp del: wf_node_simps(3))
next
  case (2 es w v ws c x)
  then show ?case
    by (auto split: option.splits dest: wf_child intro!: wf_put_entry simp del: wf_node_simps)
qed simp_all

lemma wf_remove_at: "wf_node t \<Longrightarrow> wf_node (remove_at t p)"
proof (induction t p rule: remove_at.induct)
  case (1 es w)
  then show ?case
    by (auto simp: sorted_wrt_map intro: sorted_wrt_filter)
next
  case (2 es w v ws)
  then show ?case
    by (auto split: option.split dest: wf_child intro!: wf_put_entry simp del: wf_node_simps)
qed simp_all

section \<open>Calls that may fail\<close>

text \<open>
  The n-th call may fail. \<open>ff_torn\<close> is how much it did before: the directories \<open>MkdirAll\<close> had made,
  the bytes \<open>WriteFile\<close> had written; \<open>ff_gone\<close> what \<open>RemoveAll\<close> had removed.
\<close>

record fs_fault =
  ff_err :: err_tree
  ff_torn :: "nat option"
  ff_gone :: "string list list"

record fs_env =
  fe_cwd :: "string list"
  fe_fault :: "nat \<Rightarrow> fs_fault option"

record fs_world =
  fw_root :: fsnode
  fw_calls :: nat

definition resolve :: "fs_env \<Rightarrow> string \<Rightarrow> string list" where
  "resolve E p = clean_words True (if is_rooted p then [] else rev (fe_cwd E)) (path_words p)"

definition fs_call :: "fs_env \<Rightarrow> fs_world \<Rightarrow> fs_fault option \<times> fs_world" where
  "fs_call E w = (fe_fault E (fw_calls w), w\<lparr>fw_calls := Suc (fw_calls w)\<rparr>)"

definition no_node :: "fsnode \<Rightarrow> string list \<Rightarrow> err_tree" where
  "no_node t p = (if blocked t p then errors_new ''not a directory'' else sentinel ''fs.ErrNotExist'')"

definition fs_stat :: "fs_env \<Rightarrow> string \<Rightarrow> fs_world \<Rightarrow> (err_tree + entry) \<times> fs_world" where
  "fs_stat E p w =
     (case fs_call E w of
        (Some f, w1) \<Rightarrow> (Inl (ff_err f), w1)
      | (None, w1) \<Rightarrow>
          (case kind_at (fw_root w) (resolve E p) of
             None \<Rightarrow> (Inl (no_node (fw_root w) (resolve E p)), w1)
           | Some k \<Rightarrow> (Inr k, w1)))"

definition fs_read_file :: "fs_env \<Rightarrow> string \<Rightarrow> fs_world \<Rightarrow> (err_tree + string) \<times> fs_world" where
  "fs_read_file E p w =
     (case fs_call E w of
        (Some f, w1) \<Rightarrow> (Inl (ff_err f), w1)
      | (None, w1) \<Rightarrow>
          (case kind_at (fw_root w) (resolve E p) of
             None \<Rightarrow> (Inl (no_node (fw_root w) (resolve E p)), w1)
           | Some (EFile c x) \<Rightarrow> (Inr c, w1)
           | Some EDir \<Rightarrow> (Inl (errors_new ''is a directory''), w1)
           | Some ESpecial \<Rightarrow> (Inl (errors_new ''no regular file''), w1)))"

definition fs_read_dir :: "fs_env \<Rightarrow> string \<Rightarrow> fs_world \<Rightarrow> (err_tree + (string \<times> fsnode) list) \<times> fs_world" where
  "fs_read_dir E p w =
     (case fs_call E w of
        (Some f, w1) \<Rightarrow> (Inl (ff_err f), w1)
      | (None, w1) \<Rightarrow>
          (case node_at (fw_root w) (resolve E p) of
             None \<Rightarrow> (Inl (no_node (fw_root w) (resolve E p)), w1)
           | Some (Dir es) \<Rightarrow> (Inr es, w1)
           | Some _ \<Rightarrow> (Inl (errors_new ''not a directory''), w1)))"

definition or_same :: "fsnode option \<Rightarrow> fs_world \<Rightarrow> fs_world" where
  "or_same t w = (case t of None \<Rightarrow> w | Some t' \<Rightarrow> w\<lparr>fw_root := t'\<rparr>)"

definition fs_mkdir_all :: "fs_env \<Rightarrow> string \<Rightarrow> fs_world \<Rightarrow> err_tree option \<times> fs_world" where
  "fs_mkdir_all E p w =
     (case fs_call E w of
        (Some f, w1) \<Rightarrow>
          (Some (ff_err f),
           case ff_torn f of None \<Rightarrow> w1 | Some k \<Rightarrow> or_same (mkdir_at (fw_root w) (take k (resolve E p))) w1)
      | (None, w1) \<Rightarrow>
          (case mkdir_at (fw_root w) (resolve E p) of
             None \<Rightarrow> (Some (errors_new ''not a directory''), w1)
           | Some t \<Rightarrow> (None, w1\<lparr>fw_root := t\<rparr>)))"

definition fs_write_file :: "fs_env \<Rightarrow> string \<Rightarrow> string \<Rightarrow> bool \<Rightarrow> fs_world \<Rightarrow> err_tree option \<times> fs_world" where
  "fs_write_file E p c x w =
     (case fs_call E w of
        (Some f, w1) \<Rightarrow>
          (Some (ff_err f),
           case ff_torn f of None \<Rightarrow> w1 | Some k \<Rightarrow> or_same (write_at (fw_root w) (resolve E p) (take k c) x) w1)
      | (None, w1) \<Rightarrow>
          (case write_at (fw_root w) (resolve E p) c x of
             None \<Rightarrow> (Some (no_node (fw_root w) (resolve E p)), w1)
           | Some t \<Rightarrow> (None, w1\<lparr>fw_root := t\<rparr>)))"

definition fs_remove_all :: "fs_env \<Rightarrow> string \<Rightarrow> fs_world \<Rightarrow> err_tree option \<times> fs_world" where
  "fs_remove_all E p w =
     (case fs_call E w of
        (Some f, w1) \<Rightarrow>
          (Some (ff_err f), w1\<lparr>fw_root := fold (\<lambda>g t. remove_at t (resolve E p @ g)) (ff_gone f) (fw_root w)\<rparr>)
      | (None, w1) \<Rightarrow> (None, w1\<lparr>fw_root := remove_at (fw_root w) (resolve E p)\<rparr>))"

end
