(* ===== verification/LocalPatch.thy ===== *)
theory LocalPatch
  imports FileTree ToolSync
begin

text \<open>
  Local patches (\<^verbatim>\<open>core/pkg/localpatch\<close>): an operator installs a tool's folder into a local source or
  rolls it back to a snapshot. \<^verbatim>\<open>digest.go\<close> walks and digests a folder, \<^verbatim>\<open>snapshot.go\<close> composes the
  paths and copies trees, \<^verbatim>\<open>installer.go\<close> and \<^verbatim>\<open>rollback.go\<close> are the two operations and
  \<^verbatim>\<open>events.go\<close> what they publish. Each file system call may fail and leave part of its effect.
\<close>

section \<open>Sentinels, bounds and alphabets\<close>

abbreviation LpErrInvalidInstallRequest :: string where
  "LpErrInvalidInstallRequest \<equiv> ''localpatch: invalid install request''"
abbreviation LpErrInvalidRollbackRequest :: string where
  "LpErrInvalidRollbackRequest \<equiv> ''localpatch: invalid rollback request''"
abbreviation LpErrInvalidSourceKind :: string where "LpErrInvalidSourceKind \<equiv> ''localpatch: source not kind=local''"
abbreviation LpErrUnknownSource :: string where "LpErrUnknownSource \<equiv> ''localpatch: unknown source''"
abbreviation LpErrSourceLookupMismatch :: string where
  "LpErrSourceLookupMismatch \<equiv> ''localpatch: source lookup contract violated''"
abbreviation LpErrFolderRead :: string where "LpErrFolderRead \<equiv> ''localpatch: folder read failed''"
abbreviation LpErrManifestRead :: string where "LpErrManifestRead \<equiv> ''localpatch: manifest read failed''"
abbreviation LpErrSnapshotWrite :: string where "LpErrSnapshotWrite \<equiv> ''localpatch: snapshot write failed''"
abbreviation LpErrLiveWrite :: string where "LpErrLiveWrite \<equiv> ''localpatch: live tools write failed''"
abbreviation LpErrSnapshotMissing :: string where "LpErrSnapshotMissing \<equiv> ''localpatch: snapshot missing''"
abbreviation LpErrUnsafePath :: string where "LpErrUnsafePath \<equiv> ''localpatch: unsafe path''"
abbreviation LpErrIdentityResolution :: string where
  "LpErrIdentityResolution \<equiv> ''localpatch: operator identity resolution failed''"
abbreviation LpErrEmptyResolvedIdentity :: string where
  "LpErrEmptyResolvedIdentity \<equiv> ''localpatch: resolver returned empty operator identity''"
abbreviation LpErrInvalidOperatorID :: string where "LpErrInvalidOperatorID \<equiv> ''localpatch: invalid operator id''"
abbreviation LpErrPublish :: string where "LpErrPublish \<equiv> ''localpatch: publish local_patch_applied failed''"

definition max_patch_name_length :: nat where "max_patch_name_length = 64"
definition max_patch_reason_length :: nat where "max_patch_reason_length = 1024"

definition valid_identifier :: "string \<Rightarrow> bool" where
  "valid_identifier s \<longleftrightarrow> s \<noteq> [] \<and> list_all source_name_char s"

definition version_start :: "char \<Rightarrow> bool" where
  "version_start c \<longleftrightarrow> source_name_char c \<or> c = CHR ''~'' \<or> c = CHR ''+''"

definition valid_version :: "string \<Rightarrow> bool" where
  "valid_version s \<longleftrightarrow> s \<noteq> [] \<and> version_start (hd s) \<and> list_all (\<lambda>c. version_start c \<or> c = CHR ''.'') (tl s)"

definition valid_operator_id :: "string \<Rightarrow> bool" where
  "valid_operator_id s \<longleftrightarrow> s \<noteq> [] \<and> list_all (\<lambda>c. source_name_char c \<or> c \<in> {CHR ''.'', CHR ''@'', CHR '':''}) s"

definition refuse :: "string \<Rightarrow> string \<Rightarrow> err_tree option" where
  "refuse err msg = Some (wrap1 msg (sentinel err))"

definition validate_operator_id :: "string \<Rightarrow> err_tree option" where
  "validate_operator_id i =
     (if i = [] then refuse LpErrInvalidOperatorID ''empty''
      else if length i > max_patch_name_length then refuse LpErrInvalidOperatorID ''too long''
      else if \<not> valid_operator_id i then refuse LpErrInvalidOperatorID ''disallowed characters''
      else None)"

section \<open>Requests\<close>

record patch_request =
  lq_source :: string
  lq_folder :: string
  lq_reason :: string
  lq_hint :: string

definition install_validate :: "patch_request \<Rightarrow> err_tree option" where
  "install_validate r =
     (if blank (lq_source r) then refuse LpErrInvalidInstallRequest ''empty source_name''
      else if length (lq_source r) > max_patch_name_length then refuse LpErrInvalidInstallRequest ''source_name''
      else if \<not> valid_identifier (lq_source r) then refuse LpErrInvalidInstallRequest ''source_name''
      else if blank (lq_folder r) then refuse LpErrInvalidInstallRequest ''empty folder_path''
      else if blank (lq_reason r) then refuse LpErrInvalidInstallRequest ''empty reason''
      else if length (lq_reason r) > max_patch_reason_length then refuse LpErrInvalidInstallRequest ''reason''
      else if length (lq_hint r) > max_patch_name_length then refuse LpErrInvalidInstallRequest ''operator_id_hint''
      else None)"

record undo_request =
  lr_source :: string
  lr_tool :: string
  lr_version :: string
  lr_reason :: string
  lr_hint :: string

definition rollback_validate :: "undo_request \<Rightarrow> err_tree option" where
  "rollback_validate r =
     (if blank (lr_source r) then refuse LpErrInvalidRollbackRequest ''empty source_name''
      else if length (lr_source r) > max_patch_name_length then refuse LpErrInvalidRollbackRequest ''source_name''
      else if \<not> valid_identifier (lr_source r) then refuse LpErrInvalidRollbackRequest ''source_name''
      else if blank (lr_tool r) then refuse LpErrInvalidRollbackRequest ''empty tool_name''
      else if length (lr_tool r) > max_patch_name_length then refuse LpErrInvalidRollbackRequest ''tool_name''
      else if \<not> valid_identifier (lr_tool r) then refuse LpErrInvalidRollbackRequest ''tool_name''
      else if blank (lr_version r) then refuse LpErrInvalidRollbackRequest ''empty target_version''
      else if length (lr_version r) > max_patch_name_length then refuse LpErrInvalidRollbackRequest ''target_version''
      else if \<not> valid_version (lr_version r) then refuse LpErrInvalidRollbackRequest ''target_version''
      else if blank (lr_reason r) then refuse LpErrInvalidRollbackRequest ''empty reason''
      else if length (lr_reason r) > max_patch_reason_length then refuse LpErrInvalidRollbackRequest ''reason''
      else if length (lr_hint r) > max_patch_name_length then refuse LpErrInvalidRollbackRequest ''operator_id_hint''
      else None)"

section \<open>Sequencing\<close>

text \<open>The next call when the last one returned no error; the early return otherwise.\<close>

definition andthen :: "('e + 'a) \<times> 'w \<Rightarrow> ('a \<Rightarrow> 'w \<Rightarrow> ('e + 'b) \<times> 'w) \<Rightarrow> ('e + 'b) \<times> 'w" where
  "andthen m f = (case m of (Inl e, w) \<Rightarrow> (Inl e, w) | (Inr x, w) \<Rightarrow> f x w)"

lemma andthen_simps [simp]: "andthen (Inl e, w) f = (Inl e, w)" "andthen (Inr x, w) f = f x w"
  by (simp_all add: andthen_def)

lemma andthen_Inr: "andthen m f = (Inr y, w') \<longleftrightarrow> (\<exists>x w. m = (Inr x, w) \<and> f x w = (Inr y, w'))"
  by (cases m; cases "fst m") (auto simp: andthen_def split: sum.split)

section \<open>Walking and digesting a folder\<close>

definition folder_read :: "err_tree \<Rightarrow> err_tree" where
  "folder_read e = wraps [sentinel LpErrFolderRead, e]"

text \<open>
  \<open>walkInto\<close> on the listing of a directory. The names come in order from the system, as \<open>sort.Slice\<close>
  puts them; the relative path is the names from the root joined by slashes. A directory is listed, a
  regular file is looked at and read, anything else is passed over.
\<close>

function walk_into :: "fs_env \<Rightarrow> (string \<times> fsnode) list \<Rightarrow> fs_world \<Rightarrow> (err_tree + walk_entry list) \<times> fs_world" where
  "walk_into E [] w = (Inr [], w)"
| "walk_into E ((n, Dir sub) # es) w =
     (case fs_call E w of
        (Some f, w1) \<Rightarrow> (Inl (folder_read (ff_err f)), w1)
      | (None, w1) \<Rightarrow>
          (case walk_into E sub w1 of
             (Inl e, w2) \<Rightarrow> (Inl e, w2)
           | (Inr xs, w2) \<Rightarrow>
               (case walk_into E es w2 of
                  (Inl e, w3) \<Rightarrow> (Inl e, w3)
                | (Inr ys, w3) \<Rightarrow> (Inr (map (\<lambda>(r, d). (n # r, d)) xs @ ys), w3))))"
| "walk_into E ((n, Special) # es) w = walk_into E es w"
| "walk_into E ((n, File c x) # es) w =
     (case fs_call E w of
        (Some f, w1) \<Rightarrow> (Inl (folder_read (ff_err f)), w1)
      | (None, w1) \<Rightarrow>
          (case fs_call E w1 of
             (Some f, w2) \<Rightarrow> (Inl (folder_read (ff_err f)), w2)
           | (None, w2) \<Rightarrow>
               (case walk_into E es w2 of
                  (Inl e, w3) \<Rightarrow> (Inl e, w3)
                | (Inr ys, w3) \<Rightarrow> (Inr (([n], c, x) # ys), w3))))"
  by pat_completeness auto
termination
  by (relation "measure (\<lambda>(E, es, w). size_list (size_prod (\<lambda>_. 0) size) es)") simp_all

definition walk_regular_files :: "fs_env \<Rightarrow> string \<Rightarrow> fs_world \<Rightarrow> (err_tree + walk_entry list) \<times> fs_world" where
  "walk_regular_files E p w =
     (case fs_read_dir E p w of
        (Inl e, w1) \<Rightarrow> (Inl (folder_read e), w1)
      | (Inr es, w1) \<Rightarrow> walk_into E es w1)"

text \<open>The length in eight bytes, big end first, in front of the data.\<close>

definition big_endian64 :: "nat \<Rightarrow> string" where
  "big_endian64 n = map (\<lambda>i. char_of (n div 256 ^ i)) [7, 6, 5, 4, 3, 2, 1, 0]"

definition length_prefixed :: "string \<Rightarrow> string" where
  "length_prefixed data = big_endian64 (length data) @ data"

definition digest_record :: "walk_entry \<Rightarrow> string" where
  "digest_record e =
     (case e of (r, c, x) \<Rightarrow> length_prefixed (join_slash r) @ [char_of (if x then 1 else 0 :: nat)] @ length_prefixed c)"

definition digest_input :: "walk_entry list \<Rightarrow> string" where
  "digest_input es = concat (map digest_record (sort_key (\<lambda>e. join_slash (fst e)) es))"

text \<open>\<open>hash\<close> is SHA-256 in lower-case hexadecimal digits.\<close>

definition content_digest :: "fs_env \<Rightarrow> (string \<Rightarrow> string) \<Rightarrow> string \<Rightarrow> fs_world \<Rightarrow> (err_tree + string) \<times> fs_world" where
  "content_digest E hash root w =
     (if blank root then (Inl (wrap1 ''empty root'' (sentinel LpErrFolderRead)), w)
      else andthen (walk_regular_files E (path_clean root) w) (\<lambda>es w1. (Inr (hash (digest_input es)), w1)))"

section \<open>Paths and copies\<close>

definition below_parent :: "string \<Rightarrow> string \<Rightarrow> err_tree + string" where
  "below_parent parent cand =
     (case path_rel parent cand of
        None \<Rightarrow> Inl (sentinel LpErrUnsafePath)
      | Some rel \<Rightarrow> if climbs rel \<or> is_rooted rel then Inl (sentinel LpErrUnsafePath) else Inr cand)"

definition snapshot_path :: "string \<Rightarrow> string \<Rightarrow> string \<Rightarrow> string \<Rightarrow> err_tree + string" where
  "snapshot_path data_dir source tool version =
     (if blank data_dir then Inl (wrap1 ''empty data dir'' (sentinel LpErrUnsafePath))
      else if \<not> valid_identifier source then Inl (wrap1 ''source'' (sentinel LpErrUnsafePath))
      else if \<not> valid_identifier tool then Inl (wrap1 ''tool'' (sentinel LpErrUnsafePath))
      else if \<not> valid_version version then Inl (wrap1 ''version'' (sentinel LpErrUnsafePath))
      else let parent = path_clean (path_join [data_dir, ''_history'']);
               cand = path_clean (path_join [parent, source, tool, version])
           in below_parent parent cand)"

definition live_tool_path :: "string \<Rightarrow> string \<Rightarrow> string \<Rightarrow> err_tree + string" where
  "live_tool_path data_dir source tool =
     (if blank data_dir then Inl (wrap1 ''empty data dir'' (sentinel LpErrUnsafePath))
      else if \<not> valid_identifier source then Inl (wrap1 ''source'' (sentinel LpErrUnsafePath))
      else if \<not> valid_identifier tool then Inl (wrap1 ''tool'' (sentinel LpErrUnsafePath))
      else let parent = path_clean (path_join [data_dir, ''tools'', source]);
               cand = path_clean (path_join [parent, tool])
           in below_parent parent cand)"

text \<open>\<open>filepath.Dir\<close>: what is in front of the last slash, cleaned.\<close>

definition path_dir :: "string \<Rightarrow> string" where
  "path_dir p = path_clean (rev (dropWhile (\<lambda>c. c \<noteq> sep) (rev p)))"

fun copy_entries :: "fs_env \<Rightarrow> string \<Rightarrow> string \<Rightarrow> walk_entry list \<Rightarrow> fs_world \<Rightarrow> (err_tree + unit) \<times> fs_world" where
  "copy_entries E dst wrap [] w = (Inr (), w)"
| "copy_entries E dst wrap ((r, c, x) # es) w =
     (let dst_path = path_join [dst, join_slash r] in
      case fs_mkdir_all E (path_dir dst_path) w of
        (Some e, w1) \<Rightarrow> (Inl (wraps [sentinel wrap, e]), w1)
      | (None, w1) \<Rightarrow>
          (case fs_write_file E dst_path c x w1 of
             (Some e, w2) \<Rightarrow> (Inl (wraps [sentinel wrap, e]), w2)
           | (None, w2) \<Rightarrow> copy_entries E dst wrap es w2))"

definition copy_tree :: "fs_env \<Rightarrow> string \<Rightarrow> string \<Rightarrow> string \<Rightarrow> fs_world \<Rightarrow> (err_tree + unit) \<times> fs_world" where
  "copy_tree E src dst wrap w =
     andthen (walk_regular_files E src w) (\<lambda>es w1.
       case fs_mkdir_all E dst w1 of
         (Some e, w2) \<Rightarrow> (Inl (wraps [sentinel wrap, e]), w2)
       | (None, w2) \<Rightarrow> copy_entries E dst wrap es w2)"

text \<open>Whether a snapshot of the live tree is there now; \<open>False\<close> where there is no live tree.\<close>

definition snapshot_if_present ::
  "fs_env \<Rightarrow> string \<Rightarrow> string \<Rightarrow> string \<Rightarrow> string \<Rightarrow> fs_world \<Rightarrow> (err_tree + bool) \<times> fs_world" where
  "snapshot_if_present E data_dir source tool prior w =
     (case live_tool_path data_dir source tool of
        Inl e \<Rightarrow> (Inl e, w)
      | Inr live \<Rightarrow>
          (case fs_stat E live w of
             (Inl e, w1) \<Rightarrow> (if tree_is e FsErrNotExist then Inr False else Inl (folder_read e), w1)
           | (Inr k, w1) \<Rightarrow>
               if k \<noteq> EDir then (Inl (wrap1 ''live tool path is not a directory'' (sentinel LpErrFolderRead)), w1)
               else (case snapshot_path data_dir source tool prior of
                  Inl e \<Rightarrow> (Inl e, w1)
                | Inr snap \<Rightarrow>
                    (case fs_stat E snap w1 of
                       (Inr _, w2) \<Rightarrow> (Inr True, w2)
                     | (Inl e, w2) \<Rightarrow>
                         if \<not> tree_is e FsErrNotExist then (Inl (wraps [sentinel LpErrSnapshotWrite, e]), w2)
                         else andthen (copy_tree E live snap LpErrSnapshotWrite w2) (\<lambda>_ w3. (Inr True, w3))))))"

definition replace_live ::
  "fs_env \<Rightarrow> string \<Rightarrow> string \<Rightarrow> string \<Rightarrow> string \<Rightarrow> fs_world \<Rightarrow> (err_tree + unit) \<times> fs_world" where
  "replace_live E data_dir source tool src w =
     (case live_tool_path data_dir source tool of
        Inl e \<Rightarrow> (Inl e, w)
      | Inr live \<Rightarrow>
          (case fs_remove_all E live w of
             (Some e, w1) \<Rightarrow> (Inl (wraps [sentinel LpErrLiveWrite, e]), w1)
           | (None, w1) \<Rightarrow> copy_tree E src live LpErrLiveWrite w1))"

definition list_snapshots ::
  "fs_env \<Rightarrow> string \<Rightarrow> string \<Rightarrow> string \<Rightarrow> fs_world \<Rightarrow> (err_tree + string list) \<times> fs_world" where
  "list_snapshots E data_dir source tool w =
     (if \<not> valid_identifier source then (Inl (wrap1 ''source'' (sentinel LpErrUnsafePath)), w)
      else if \<not> valid_identifier tool then (Inl (wrap1 ''tool'' (sentinel LpErrUnsafePath)), w)
      else (case fs_read_dir E (path_clean (path_join [data_dir, ''_history'', source, tool])) w of
         (Inl e, w1) \<Rightarrow> (if tree_is e FsErrNotExist then Inr [] else Inl (folder_read e), w1)
       | (Inr es, w1) \<Rightarrow> (Inr (sort (map fst (filter (\<lambda>e. kind_of (snd e) = EDir) es))), w1)))"

section \<open>Install and rollback\<close>

datatype patch_operation = OperationInstall | OperationRollback

text \<open>\<open>LocalPatchApplied\<close>. The correlation id is the nanoseconds and the number the code joins by a dash.\<close>

record patch_event =
  va_source :: string
  va_tool :: string
  va_version :: string
  va_operator :: string
  va_reason :: string
  va_diff_hash :: string
  va_operation :: patch_operation
  va_applied_at :: gotime
  va_correlation :: "int \<times> nat"

text \<open>The dependencies of \<open>Installer\<close> and \<open>Rollbacker\<close>, and \<open>ctx.Err()\<close> at the start of the call.\<close>

record patch_env =
  le_fs :: fs_env
  le_data_dir :: string
  le_lookup :: "string \<Rightarrow> err_tree + source_config"
  le_operator :: "string \<Rightarrow> err_tree + string"
  le_json :: json_decoder
  le_hash :: "string \<Rightarrow> string"
  le_now :: "nat \<Rightarrow> gotime"
  le_publish :: "nat \<Rightarrow> err_tree option"
  le_ctx_err :: "err_tree option"

record patch_world =
  lp_fs :: fs_world
  lp_published :: "patch_event list"
  lp_clock :: nat
  lp_seq :: nat

definition resolve_local_source :: "patch_env \<Rightarrow> string \<Rightarrow> err_tree option" where
  "resolve_local_source E name =
     (case le_lookup E name of
        Inl e \<Rightarrow> Some (wraps [sentinel LpErrUnknownSource, e])
      | Inr src \<Rightarrow>
          if sc_kind src \<noteq> SourceKindLocal then refuse LpErrInvalidSourceKind (sc_name src)
          else if sc_name src \<noteq> name then refuse LpErrSourceLookupMismatch (sc_name src)
          else None)"

definition resolve_operator :: "patch_env \<Rightarrow> string \<Rightarrow> err_tree + string" where
  "resolve_operator E hint =
     (case le_operator E hint of
        Inl e \<Rightarrow> Inl (wraps [sentinel LpErrIdentityResolution, e])
      | Inr i \<Rightarrow>
          if i = [] then Inl (sentinel LpErrEmptyResolvedIdentity)
          else if length i > max_patch_name_length then Inl (wrap1 ''too long'' (sentinel LpErrInvalidOperatorID))
          else if \<not> valid_operator_id i then Inl (wrap1 ''disallowed characters'' (sentinel LpErrInvalidOperatorID))
          else Inr i)"

text \<open>\<open>LoadManifestFromFile\<close> with its one read.\<close>

definition load_manifest_from :: "patch_env \<Rightarrow> string \<Rightarrow> string \<Rightarrow> fs_world \<Rightarrow> (err_tree + manifest) \<times> fs_world" where
  "load_manifest_from E dir source w =
     (if blank source then (Inl (sentinel ErrInvalidSourceName), w)
      else (case fs_read_file (le_fs E) (path_join [dir, ''manifest.json'']) w of
         (raw, w1) \<Rightarrow> (load_manifest (le_json E) (\<lambda>_. raw) dir source, w1)))"

definition manifest_read :: "string \<Rightarrow> err_tree" where
  "manifest_read msg = wrap1 msg (sentinel LpErrManifestRead)"

definition load_and_validate_folder_manifest ::
  "patch_env \<Rightarrow> string \<Rightarrow> string \<Rightarrow> fs_world \<Rightarrow> (err_tree + manifest) \<times> fs_world" where
  "load_and_validate_folder_manifest E folder source w =
     (case load_manifest_from E folder source w of
        (Inl e, w1) \<Rightarrow> (Inl (wraps [sentinel LpErrManifestRead, e]), w1)
      | (Inr m, w1) \<Rightarrow>
          (if \<not> valid_identifier (mf_name m) then Inl (manifest_read ''tool name'')
           else if length (mf_name m) > max_patch_name_length then Inl (manifest_read ''tool name'')
           else if \<not> valid_version (mf_version m) then Inl (manifest_read ''version'')
           else if length (mf_version m) > max_patch_name_length then Inl (manifest_read ''version'')
           else Inr m, w1))"

text \<open>\<open>readLiveVersion\<close>: the version of the live tree, \<open>None\<close> when \<open>Stat\<close> fails.\<close>

definition read_live_version ::
  "patch_env \<Rightarrow> string \<Rightarrow> string \<Rightarrow> fs_world \<Rightarrow> (err_tree + string option) \<times> fs_world" where
  "read_live_version E live source w =
     (case fs_stat (le_fs E) live w of
        (Inl _, w1) \<Rightarrow> (Inr None, w1)
      | (Inr _, w1) \<Rightarrow>
          (case load_manifest_from E live source w1 of
             (Inl e, w2) \<Rightarrow> (Inl (wraps [sentinel LpErrManifestRead, e]), w2)
           | (Inr m, w2) \<Rightarrow>
               (if \<not> valid_version (mf_version m) then Inl (manifest_read ''prior manifest version'')
                else Inr (Some (mf_version m)), w2)))"

text \<open>What \<open>Install\<close> does to the files: the folder's manifest and digest, the snapshot, the new tree.\<close>

definition install_files :: "patch_env \<Rightarrow> patch_request \<Rightarrow> fs_world \<Rightarrow> (err_tree + manifest \<times> string) \<times> fs_world" where
  "install_files E req w =
     andthen (load_and_validate_folder_manifest E (lq_folder req) (lq_source req) w) (\<lambda>m w1.
     andthen (content_digest (le_fs E) (le_hash E) (lq_folder req) w1) (\<lambda>digest w2.
     case live_tool_path (le_data_dir E) (lq_source req) (mf_name m) of
       Inl e \<Rightarrow> (Inl e, w2)
     | Inr live \<Rightarrow>
         andthen (read_live_version E live (lq_source req) w2) (\<lambda>prior w3.
         andthen (case prior of
             None \<Rightarrow> (Inr False, w3)
           | Some v \<Rightarrow> snapshot_if_present (le_fs E) (le_data_dir E) (lq_source req) (mf_name m) v w3) (\<lambda>_ w4.
         andthen (replace_live (le_fs E) (le_data_dir E) (lq_source req) (mf_name m) (lq_folder req) w4) (\<lambda>_ w5.
         (Inr (m, digest), w5))))))"

text \<open>The event and its publication, with a context that is not cancelled.\<close>

definition announce_patch :: "patch_env \<Rightarrow> (int \<times> nat \<Rightarrow> gotime \<Rightarrow> patch_event) \<Rightarrow> patch_world \<Rightarrow>
    (patch_event option \<times> err_tree option) \<times> patch_world" where
  "announce_patch E mk w =
     (let now = le_now E (lp_clock w);
          ev = mk (unix_nanos now, Suc (lp_seq w)) now;
          w1 = w\<lparr>lp_published := lp_published w @ [ev], lp_clock := Suc (lp_clock w), lp_seq := Suc (lp_seq w)\<rparr>
      in ((Some ev, case le_publish E (length (lp_published w)) of
             None \<Rightarrow> None | Some e \<Rightarrow> Some (wraps [sentinel LpErrPublish, e])), w1))"

definition install :: "patch_env \<Rightarrow> patch_request \<Rightarrow> patch_world \<Rightarrow> (patch_event option \<times> err_tree option) \<times> patch_world" where
  "install E req w =
     (case install_validate req of
        Some e \<Rightarrow> ((None, Some e), w)
      | None \<Rightarrow>
     case le_ctx_err E of
        Some e \<Rightarrow> ((None, Some e), w)
      | None \<Rightarrow>
     case resolve_local_source E (lq_source req) of
        Some e \<Rightarrow> ((None, Some e), w)
      | None \<Rightarrow>
     case resolve_operator E (lq_hint req) of
        Inl e \<Rightarrow> ((None, Some e), w)
      | Inr operator \<Rightarrow>
     case install_files E req (lp_fs w) of
        (Inl e, fs) \<Rightarrow> ((None, Some e), w\<lparr>lp_fs := fs\<rparr>)
      | (Inr (m, digest), fs) \<Rightarrow>
          announce_patch E (\<lambda>corr now. \<lparr>va_source = lq_source req, va_tool = mf_name m, va_version = mf_version m,
            va_operator = operator, va_reason = lq_reason req, va_diff_hash = digest, va_operation = OperationInstall,
            va_applied_at = now, va_correlation = corr\<rparr>) (w\<lparr>lp_fs := fs\<rparr>))"

definition locate_snapshot ::
  "patch_env \<Rightarrow> string \<Rightarrow> string \<Rightarrow> string \<Rightarrow> fs_world \<Rightarrow> (err_tree + string) \<times> fs_world" where
  "locate_snapshot E source tool version w =
     (case snapshot_path (le_data_dir E) source tool version of
        Inl e \<Rightarrow> (Inl e, w)
      | Inr snap \<Rightarrow>
          (case fs_stat (le_fs E) snap w of
             (Inr _, w1) \<Rightarrow> (Inr snap, w1)
           | (Inl e, w1) \<Rightarrow>
               (case list_snapshots (le_fs E) (le_data_dir E) source tool w1 of
                  (_, w2) \<Rightarrow> (Inl (wraps [sentinel LpErrSnapshotMissing, e]), w2))))"

definition verify_snapshot_manifest ::
  "patch_env \<Rightarrow> string \<Rightarrow> undo_request \<Rightarrow> fs_world \<Rightarrow> (err_tree + unit) \<times> fs_world" where
  "verify_snapshot_manifest E snap req w =
     (case load_manifest_from E snap (lr_source req) w of
        (Inl e, w1) \<Rightarrow> (Inl (wraps [sentinel LpErrManifestRead, e]), w1)
      | (Inr m, w1) \<Rightarrow>
          (if mf_name m \<noteq> lr_tool req then Inl (manifest_read ''snapshot manifest tool name'')
           else if mf_version m \<noteq> lr_version req then Inl (manifest_read ''snapshot manifest version'')
           else Inr (), w1))"

definition rollback_files :: "patch_env \<Rightarrow> undo_request \<Rightarrow> fs_world \<Rightarrow> (err_tree + string) \<times> fs_world" where
  "rollback_files E req w =
     andthen (locate_snapshot E (lr_source req) (lr_tool req) (lr_version req) w) (\<lambda>snap w1.
     andthen (verify_snapshot_manifest E snap req w1) (\<lambda>_ w2.
     andthen (content_digest (le_fs E) (le_hash E) snap w2) (\<lambda>digest w3.
     case live_tool_path (le_data_dir E) (lr_source req) (lr_tool req) of
       Inl e \<Rightarrow> (Inl e, w3)
     | Inr live \<Rightarrow>
         andthen (read_live_version E live (lr_source req) w3) (\<lambda>current w4.
         andthen (case current of
             None \<Rightarrow> (Inr False, w4)
           | Some v \<Rightarrow> if v = lr_version req then (Inr False, w4)
                       else snapshot_if_present (le_fs E) (le_data_dir E) (lr_source req) (lr_tool req) v w4) (\<lambda>_ w5.
         andthen (replace_live (le_fs E) (le_data_dir E) (lr_source req) (lr_tool req) snap w5) (\<lambda>_ w6.
         (Inr digest, w6)))))))"

definition rollback :: "patch_env \<Rightarrow> undo_request \<Rightarrow> patch_world \<Rightarrow> (patch_event option \<times> err_tree option) \<times> patch_world" where
  "rollback E req w =
     (case rollback_validate req of
        Some e \<Rightarrow> ((None, Some e), w)
      | None \<Rightarrow>
     case le_ctx_err E of
        Some e \<Rightarrow> ((None, Some e), w)
      | None \<Rightarrow>
     case resolve_local_source E (lr_source req) of
        Some e \<Rightarrow> ((None, Some e), w)
      | None \<Rightarrow>
     case resolve_operator E (lr_hint req) of
        Inl e \<Rightarrow> ((None, Some e), w)
      | Inr operator \<Rightarrow>
     case rollback_files E req (lp_fs w) of
        (Inl e, fs) \<Rightarrow> ((None, Some e), w\<lparr>lp_fs := fs\<rparr>)
      | (Inr digest, fs) \<Rightarrow>
          announce_patch E (\<lambda>corr now. \<lparr>va_source = lr_source req, va_tool = lr_tool req, va_version = lr_version req,
            va_operator = operator, va_reason = lr_reason req, va_diff_hash = digest, va_operation = OperationRollback,
            va_applied_at = now, va_correlation = corr\<rparr>) (w\<lparr>lp_fs := fs\<rparr>))"

end
