(* ===== verification/LocalPatchTree.thy ===== *)
theory LocalPatchTree
  imports LocalPatch
begin

text \<open>
  What the pieces of a local patch do to the tree: the words of its paths, a walk, a copy and the
  replacement of a live tree, for calls that succeed and for calls that fail half-way.
\<close>

section \<open>Paths\<close>

lemma clean_words_ok: "list_all name_ok ws \<Longrightarrow> clean_words r st ws = rev st @ ws"
  by (induction ws arbitrary: st) (auto simp: name_ok_def word_ok_def)

lemma split_slash_words: "ws \<noteq> [] \<Longrightarrow> list_all name_ok ws \<Longrightarrow> split_slash (join_slash ws) = ws"
  by (intro split_join_slash) (auto simp: list_all_iff name_ok_def word_ok_def)

lemma path_join_words:
  assumes "p \<noteq> []" "ws \<noteq> []" "list_all name_ok ws"
  shows "path_join (p # ws) = path_clean (p @ sep # join_slash ws)"
    "path_words (path_join (p # ws)) = path_words p @ ws" "is_rooted (path_join (p # ws)) = is_rooted p"
proof -
  show j: "path_join (p # ws) = path_clean (p @ sep # join_slash ws)"
    using assms by (simp add: path_join_def join_slash_Cons)
  have "path_words (p @ sep # join_slash ws) = path_words p @ ws"
    using assms clean_words_ok [OF assms(3), of "is_rooted p"]
    by (simp add: path_words_def is_rooted_append split_slash_append split_slash_words clean_words_append)
  then show "path_words (path_join (p # ws)) = path_words p @ ws" "is_rooted (path_join (p # ws)) = is_rooted p"
    using assms(1) by (simp_all add: j is_rooted_append)
qed

lemma path_join_one_word:
  assumes "p \<noteq> []" "r \<noteq> []" "list_all name_ok r"
  shows "path_join [p, join_slash r] = path_join (p # r)"
proof -
  have "join_slash r \<noteq> []"
    using assms by (simp add: join_slash_eq_Nil list_all_iff name_ok_def)
  with assms show ?thesis
    by (simp add: path_join_def join_slash_Cons)
qed

lemma resolve_join:
  assumes "p \<noteq> []" "ws \<noteq> []" "list_all name_ok ws"
  shows "resolve E (path_join (p # ws)) = resolve E p @ ws"
  using path_join_words [OF assms] clean_words_ok [OF assms(3)]
  by (simp add: resolve_def clean_words_append)

lemma resolve_clean [simp]: "resolve E (path_clean p) = resolve E p"
  by (simp add: resolve_def)

lemma valid_identifier_name: "valid_identifier s \<Longrightarrow> name_ok s"
  using valid_source_name_word [of s]
  by (auto simp: valid_identifier_def valid_source_name_def name_ok_def)

lemma valid_version_name:
  assumes "valid_version s"
  shows "name_ok s"
proof -
  have "version_start (hd s)" "s \<noteq> []" "\<forall>c \<in> set s. version_start c \<or> c = CHR ''.''"
    using assms by (cases s; auto simp: valid_version_def list_all_iff)+
  moreover have "\<not> version_start CHR ''.''" "\<not> version_start sep"
    by (simp_all add: version_start_def source_name_char_def sep_def)
  ultimately show ?thesis
    by (auto simp: name_ok_def word_ok_def dotdot_def sep_def)
qed

lemma fixed_names [simp]: "name_ok ''tools''" "name_ok ''_history''" "name_ok ''manifest.json''"
  by (simp_all add: name_ok_def word_ok_def sep_def dotdot_def)

lemma valid_names: "valid_identifier s \<Longrightarrow> valid_identifier t \<Longrightarrow> list_all name_ok [s, t]"
  "valid_identifier s \<Longrightarrow> valid_identifier t \<Longrightarrow> valid_version v \<Longrightarrow> list_all name_ok [s, t, v]"
  by (simp_all add: valid_identifier_name valid_version_name)

text \<open>A path that adds words to its parent is not refused.\<close>

lemma drop_common_prefix: "drop_common ws (ws @ us) = ([], us)"
  by (induction ws) (cases us; simp)+

lemma below_parent_ok:
  assumes "path_clean b = b" "path_clean c = c" "path_words c = path_words b @ us" "us \<noteq> []" "list_all name_ok us"
    and "is_rooted c = is_rooted b" "path_words b \<noteq> []"
  shows "below_parent b c = Inr c"
proof -
  have ne: "c \<noteq> b"
    using assms(3,4) by (metis append_self_conv)
  have dots: "b \<noteq> ''.''" "c \<noteq> ''.''"
    using path_clean_dot_words [of b] path_clean_dot_words [of c] assms(1,2,3,7) by (metis append_is_Nil_conv)+
  have "rel_words b = path_words b" "rel_words c = path_words c"
    using rel_words_clean [of b] rel_words_clean [of c] dots assms(1,2) by simp_all
  then have "path_rel b c = Some (join_slash us)"
    using ne dots assms by (simp add: path_rel_def Let_def drop_common_prefix)
  moreover have "\<not> is_rooted (join_slash us)"
    using hd_join_slash [of us] assms(4,5) by (cases us) (auto simp: is_rooted_def name_ok_def)
  moreover have "\<not> climbs (join_slash us)"
  proof
    assume "climbs (join_slash us)"
    then have "hd (split_slash (join_slash us)) = dotdot"
      by (auto simp: climbs_def prefix_def split_slash_append split_slash_word)
    with split_slash_words [OF assms(4,5)] assms(4,5) show False
      by (cases us) (auto simp: name_ok_def)
  qed
  ultimately show ?thesis
    by (simp add: below_parent_def)
qed

lemma live_tool_path_ok:
  assumes "\<not> blank d" "valid_identifier s" "valid_identifier t"
  shows "\<exists>p. live_tool_path d s t = Inr p \<and> p \<noteq> [] \<and> (\<forall>E. resolve E p = resolve E d @ [''tools'', s, t])"
proof -
  let ?b = "path_clean (path_join [d, ''tools'', s])" and ?c = "path_clean (path_join [path_clean (path_join [d, ''tools'', s]), t])"
  have d: "d \<noteq> []" using assms(1) by (rule not_blank_not_Nil)
  have s: "list_all name_ok [''tools'', s]" "list_all name_ok [t]"
    using assms(2,3) by (simp_all add: valid_identifier_name)
  note b = path_join_words [OF d _ s(1)]
  have bne: "?b \<noteq> []"
    by (rule path_clean_not_Nil)
  note c = path_join_words [OF bne _ s(2)]
  have "below_parent ?b ?c = Inr ?c"
    using b c s by (intro below_parent_ok [of _ _ "[t]"]) simp_all
  moreover have "resolve E ?c = resolve E d @ [''tools'', s, t]" for E
    using resolve_join [OF d _ s(1)] resolve_join [OF bne _ s(2)] by simp
  ultimately show ?thesis
    using assms path_clean_not_Nil by (simp add: live_tool_path_def Let_def)
qed

lemma snapshot_path_ok:
  assumes "\<not> blank d" "valid_identifier s" "valid_identifier t" "valid_version v"
  shows "\<exists>p. snapshot_path d s t v = Inr p \<and> p \<noteq> [] \<and> (\<forall>E. resolve E p = resolve E d @ [''_history'', s, t, v])"
proof -
  let ?b = "path_clean (path_join [d, ''_history''])"
  let ?c = "path_clean (path_join [?b, s, t, v])"
  have d: "d \<noteq> []" using assms(1) by (rule not_blank_not_Nil)
  have s: "list_all name_ok [''_history'']" "list_all name_ok [s, t, v]"
    using assms(2-4) by (simp_all add: valid_identifier_name valid_version_name)
  note b = path_join_words [OF d _ s(1)]
  have bne: "?b \<noteq> []"
    by (rule path_clean_not_Nil)
  note c = path_join_words [OF bne _ s(2)]
  have "below_parent ?b ?c = Inr ?c"
    using b c s by (intro below_parent_ok [of _ _ "[s, t, v]"]) simp_all
  moreover have "resolve E ?c = resolve E d @ [''_history'', s, t, v]" for E
    using resolve_join [OF d _ s(1)] resolve_join [OF bne _ s(2)] by simp
  ultimately show ?thesis
    using assms path_clean_not_Nil by (simp add: snapshot_path_def Let_def)
qed

lemma live_tool_path_Inr:
  assumes "live_tool_path d s t = Inr p"
  shows "\<not> blank d \<and> valid_identifier s \<and> valid_identifier t \<and> p \<noteq> [] \<and> (\<forall>E. resolve E p = resolve E d @ [''tools'', s, t])"
proof -
  have "\<not> blank d" "valid_identifier s" "valid_identifier t"
    using assms by (auto simp: live_tool_path_def split: if_splits)
  with live_tool_path_ok [OF this] assms show ?thesis by auto
qed

lemma snapshot_path_Inr:
  assumes "snapshot_path d s t v = Inr p"
  shows "\<not> blank d \<and> valid_identifier s \<and> valid_identifier t \<and> valid_version v \<and> p \<noteq> []
    \<and> (\<forall>E. resolve E p = resolve E d @ [''_history'', s, t, v])"
proof -
  have "\<not> blank d" "valid_identifier s" "valid_identifier t" "valid_version v"
    using assms by (auto simp: snapshot_path_def split: if_splits)
  with snapshot_path_ok [OF this] assms show ?thesis by auto
qed

text \<open>The directory of a file that lies below \<open>p\<close>.\<close>

lemma resolve_path_dir:
  assumes "p \<noteq> []" "r \<noteq> []" "list_all name_ok r"
  shows "resolve E (path_dir (path_join [p, join_slash r])) = resolve E p @ butlast r"
proof -
  let ?q = "path_join (p # r)"
  have q: "path_words ?q = path_words p @ r" "is_rooted ?q = is_rooted p" "path_clean ?q = ?q"
    using path_join_words [OF assms] by simp_all
  obtain us v where r: "r = us @ [v]"
    using assms(2) by (cases r rule: rev_cases) auto
  let ?ws = "path_words p @ us"
  have v: "sep \<notin> set v" "name_ok v"
    using assms(3) r by (auto simp: name_ok_def word_ok_def)
  have str: "?q = path_string (is_rooted p) (?ws @ [v])"
    using q path_clean_words [of ?q] r by simp
  have form: "clean_form (is_rooted p) (?ws @ [v])"
    using path_words_form [of ?q] q r by simp
  have form': "clean_form (is_rooted p) ?ws"
    using form dots_first_butlast [of _ ?ws v] by (auto simp: clean_form_def)
  have cut: "rev (dropWhile (\<lambda>c. c \<noteq> sep) (rev (y @ sep # v))) = y @ [sep]"
    "rev (dropWhile (\<lambda>c. c \<noteq> sep) (rev v)) = []" for y
    using v(1) by (auto simp: dropWhile_append dropWhile_eq_Nil_conv)
  have dir: "path_words (path_dir ?q) = ?ws \<and> is_rooted (path_dir ?q) = is_rooted p"
  proof (cases "?ws = []")
    case True
    show ?thesis
    proof (cases "is_rooted p")
      case rooted: True
      have "path_dir ?q = path_clean [sep]"
        unfolding path_dir_def str using True rooted cut(1) [of "[]"] by (simp add: path_string_def)
      moreover have "path_words [sep] = []" "is_rooted [sep]"
        by (simp_all add: path_words_def is_rooted_def)
      ultimately show ?thesis
        using True rooted by simp
    next
      case rel: False
      have "path_string (is_rooted p) (?ws @ [v]) = v"
        using True rel by (simp add: path_string_def)
      then have "path_dir ?q = path_clean []"
        unfolding path_dir_def str by (simp only: cut(2))
      moreover have "path_words [] = []" "\<not> is_rooted []"
        by (simp_all add: path_words_def is_rooted_def)
      ultimately show ?thesis
        using True rel by simp
    qed
  next
    case False
    let ?y = "path_string (is_rooted p) ?ws"
    have "?q = ?y @ sep # v"
      unfolding str using False join_slash_append [of ?ws "[v]"] by (auto simp: path_string_def)
    then have "path_dir ?q = path_clean (?y @ [sep])"
      unfolding path_dir_def using cut(1) by simp
    moreover have "?y \<noteq> []"
      using False form' join_slash_eq_Nil [of ?ws] by (auto simp: path_string_def clean_form_def)
    moreover have "path_words ?y = ?ws" "is_rooted ?y = is_rooted p"
      using form' by (simp_all add: path_words_string is_rooted_path_string)
    moreover have "path_words (?y @ [sep]) = path_words ?y" if "?y \<noteq> []"
      using that split_slash_append [of ?y "[]"]
      by (simp add: path_words_def is_rooted_append clean_words_append)
    ultimately show ?thesis
      by (simp add: is_rooted_append)
  qed
  have "list_all name_ok us"
    using assms(3) r by simp
  then show ?thesis
    using dir path_join_one_word [OF assms] r
    by (simp add: resolve_def clean_words_append clean_words_ok)
qed

section \<open>Walks\<close>

lemma walk_into_root [simp]: "fw_root (snd (walk_into E es w)) = fw_root w"
  by (induction E es w rule: walk_into.induct) (auto simp: fs_call_def split: option.splits sum.splits prod.splits)

lemma walk_into_Inr: "walk_into E es w = (Inr xs, w') \<Longrightarrow> xs = walk_list es"
  by (induction E es w arbitrary: xs w' rule: walk_into.induct)
    (auto simp: fs_call_def split: option.splits sum.splits prod.splits)

lemma walk_into_fst: "\<forall>n. fe_fault E n = None \<Longrightarrow> fst (walk_into E es w) = Inr (walk_list es)"
  by (induction E es w rule: walk_into.induct) (auto simp: fs_call_def split: prod.split sum.split, blast+)

lemma walk_into_ok: "\<forall>n. fe_fault E n = None \<Longrightarrow> \<exists>w'. walk_into E es w = (Inr (walk_list es), w')"
  using walk_into_fst by (metis prod.collapse)

text \<open>The regular files of the directory at a path.\<close>

definition tree_files :: "fsnode \<Rightarrow> string list \<Rightarrow> walk_entry list option" where
  "tree_files t p = (case node_at t p of Some (Dir es) \<Rightarrow> Some (walk_list es) | _ \<Rightarrow> None)"

lemma tree_files_Some: "tree_files t p = Some L \<longleftrightarrow> (\<exists>es. node_at t p = Some (Dir es) \<and> L = walk_list es)"
  by (auto simp: tree_files_def split: option.splits fsnode.splits)

lemma fs_read_dir_root [simp]: "fw_root (snd (fs_read_dir E p w)) = fw_root w"
  by (auto simp: fs_read_dir_def fs_call_def split: option.split fsnode.split)

lemma walk_regular_files_root [simp]: "fw_root (snd (walk_regular_files E p w)) = fw_root w"
  using fs_read_dir_root [of E p w]
  by (auto simp: walk_regular_files_def simp del: fs_read_dir_root split: prod.split sum.split)

lemma walk_regular_files_Inr:
  assumes "walk_regular_files E p w = (Inr L, w')"
  shows "tree_files (fw_root w) (resolve E p) = Some L"
proof -
  obtain es w1 where "fs_read_dir E p w = (Inr es, w1)" "walk_into E es w1 = (Inr L, w')"
    using assms by (auto simp: walk_regular_files_def split: prod.splits sum.splits)
  then show ?thesis
    using walk_into_Inr
    by (auto simp: fs_read_dir_def fs_call_def tree_files_def split: option.splits fsnode.splits)
qed

lemma walk_regular_files_ok:
  assumes "\<forall>n. fe_fault E n = None" "tree_files (fw_root w) (resolve E p) = Some L"
  shows "\<exists>w'. walk_regular_files E p w = (Inr L, w')"
  using assms walk_into_ok [OF assms(1)]
  by (auto simp: walk_regular_files_def fs_read_dir_def fs_call_def tree_files_Some)

section \<open>What a call leaves\<close>

text \<open>
  Outside of what lies at or below \<open>p\<close> a tree is changed at most by directories that had to be made
  on the way to \<open>p\<close>.
\<close>

definition only_below :: "string list \<Rightarrow> fsnode \<Rightarrow> fsnode \<Rightarrow> bool" where
  "only_below p t t' \<longleftrightarrow> (\<forall>q. \<not> prefix p q \<longrightarrow>
     kind_at t' q = kind_at t q \<or> strict_prefix q p \<and> kind_at t q = None \<and> kind_at t' q = Some EDir)"

lemma only_below_refl [simp]: "only_below p t t"
  by (simp add: only_below_def)

lemma only_below_trans: "only_below p t t' \<Longrightarrow> only_below p t' t'' \<Longrightarrow> only_below p t t''"
  unfolding only_below_def by (metis option.distinct(1))

lemma mkdir_at_needs: "mkdir_at t p = Some t' \<Longrightarrow> prefix q p \<Longrightarrow> kind_at t q = None \<or> kind_at t q = Some EDir"
proof (induction t p arbitrary: t' q rule: mkdir_at.induct)
  case (2 es w ws)
  then show ?case
    by (cases q) (auto split: option.splits)
qed auto

lemma mkdir_at_only_below:
  assumes "mkdir_at t p = Some t'" "prefix D p \<or> prefix p D"
  shows "only_below D t t'"
  unfolding only_below_def
proof (intro allI impI)
  fix q
  assume q: "\<not> prefix D q"
  show "kind_at t' q = kind_at t q \<or> strict_prefix q D \<and> kind_at t q = None \<and> kind_at t' q = Some EDir"
  proof (cases "prefix q p")
    case True
    then have "prefix q D"
      using assms(2) q prefix_same_cases prefix_order.trans by metis
    with q have "strict_prefix q D" by (auto simp: strict_prefix_def)
    then show ?thesis
      using mkdir_at_kind [OF assms(1), of q] mkdir_at_needs [OF assms(1) True] True by auto
  next
    case False
    then show ?thesis
      using mkdir_at_kind [OF assms(1), of q] by simp
  qed
qed

lemma write_at_only_below: "write_at t p c x = Some t' \<Longrightarrow> prefix D p \<Longrightarrow> only_below D t t'"
  using write_at_kind [of t p c x t'] by (auto simp: only_below_def)

lemma remove_at_only_below: "p \<noteq> [] \<Longrightarrow> prefix D p \<Longrightarrow> only_below D t (remove_at t p)"
  using remove_at_kind [of p t] prefix_order.trans by (auto simp: only_below_def)

lemma removes_only_below:
  "p \<noteq> [] \<Longrightarrow> only_below p t (fold (\<lambda>g t. remove_at t (p @ g)) gs t)"
proof (induction gs arbitrary: t)
  case (Cons g gs)
  have "only_below p t (remove_at t (p @ g))"
    using Cons.prems by (intro remove_at_only_below) auto
  from only_below_trans [OF this Cons.IH [OF Cons.prems]] show ?case
    by simp
qed simp

lemma fs_mkdir_all_only_below:
  assumes "prefix D (resolve E p)"
  shows "only_below D (fw_root w) (fw_root (snd (fs_mkdir_all E p w)))"
proof -
  have part: "prefix D (take k (resolve E p)) \<or> prefix (take k (resolve E p)) D" for k
    using assms take_is_prefix prefix_same_cases by metis
  show ?thesis
    using mkdir_at_only_below [OF _ part] mkdir_at_only_below [of _ "resolve E p" _ D] assms
    by (auto simp: fs_mkdir_all_def fs_call_def or_same_def split: option.splits)
qed

lemma fs_write_file_only_below:
  "prefix D (resolve E p) \<Longrightarrow> only_below D (fw_root w) (fw_root (snd (fs_write_file E p c x w)))"
  by (auto simp: fs_write_file_def fs_call_def or_same_def split: option.splits intro: write_at_only_below)

lemma fs_remove_all_only_below:
  "resolve E p \<noteq> [] \<Longrightarrow> only_below (resolve E p) (fw_root w) (fw_root (snd (fs_remove_all E p w)))"
  by (auto simp: fs_remove_all_def fs_call_def split: option.splits
      intro: removes_only_below remove_at_only_below)

lemma copy_entries_only_below:
  assumes "dst \<noteq> []" "\<forall>e \<in> set L. fst e \<noteq> [] \<and> list_all name_ok (fst e)"
  shows "only_below (resolve E dst) (fw_root w) (fw_root (snd (copy_entries E dst wrap L w)))"
  using assms(2)
proof (induction L arbitrary: w)
  case (Cons e L)
  obtain r c x where e: "e = (r, c, x)" by (cases e)
  have r: "r \<noteq> []" "list_all name_ok r"
    using Cons.prems e by auto
  let ?p = "path_join [dst, join_slash r]"
  have p: "resolve E (path_dir ?p) = resolve E dst @ butlast r" "resolve E ?p = resolve E dst @ r"
    using resolve_path_dir [OF assms(1) r] resolve_join [OF assms(1) r] path_join_one_word [OF assms(1) r]
    by simp_all
  obtain e1 w1 where m: "fs_mkdir_all E (path_dir ?p) w = (e1, w1)"
    by (cases "fs_mkdir_all E (path_dir ?p) w")
  obtain e2 w2 where wr: "fs_write_file E ?p c x w1 = (e2, w2)"
    by (cases "fs_write_file E ?p c x w1")
  have 1: "only_below (resolve E dst) (fw_root w) (fw_root w1)"
    using fs_mkdir_all_only_below [of "resolve E dst" E "path_dir ?p" w] m p by simp
  have 2: "only_below (resolve E dst) (fw_root w1) (fw_root w2)"
    using fs_write_file_only_below [of "resolve E dst" E ?p w1 c x] wr p by simp
  show ?case
    using 1 only_below_trans [OF 1 2] only_below_trans [OF only_below_trans [OF 1 2] Cons.IH [of w2]] Cons.prems m wr
    by (auto simp: e Let_def split: option.split)
qed simp

text \<open>The calls keep the tree well formed, also when they fail.\<close>

lemma clean_form_True: "clean_form True ws \<longleftrightarrow> list_all name_ok ws"
  by (auto simp: clean_form_def dots_first_def name_ok_def list_all_iff)

lemma resolve_names:
  assumes "list_all name_ok (fe_cwd E)"
  shows "list_all name_ok (resolve E p)"
proof -
  have "\<forall>w \<in> set (path_words p). sep \<notin> set w"
    using path_words_form [of p] by (auto simp: clean_form_def word_ok_def)
  then show ?thesis
    using clean_words_form [of True "if is_rooted p then [] else rev (fe_cwd E)" "path_words p"] assms
    by (simp add: resolve_def clean_form_True)
qed

lemma list_all_take: "list_all P xs \<Longrightarrow> list_all P (take k xs)"
  by (auto simp: list_all_iff dest: in_set_takeD)

lemma wf_mkdir_all:
  "list_all name_ok (fe_cwd E) \<Longrightarrow> wf_node (fw_root w) \<Longrightarrow> wf_node (fw_root (snd (fs_mkdir_all E p w)))"
  using resolve_names [of E p]
  by (auto simp: fs_mkdir_all_def fs_call_def or_same_def split: option.splits intro: wf_mkdir_at list_all_take
      simp del: wf_node_simps)

lemma wf_write_file:
  assumes "list_all name_ok (fe_cwd E)" "wf_node (fw_root w)"
  shows "wf_node (fw_root (snd (fs_write_file E p c x w)))"
proof -
  have "name_ok (last (resolve E p))" if "write_at t (resolve E p) d x = Some t'" for t d t'
    using that resolve_names [OF assms(1), of p] by (cases "resolve E p = []") (auto simp: list_all_iff)
  with assms(2) show ?thesis
    by (auto simp: fs_write_file_def fs_call_def or_same_def split: option.splits intro: wf_write_at simp del: wf_node_simps)
qed

lemma wf_remove_all:
  assumes "wf_node (fw_root w)"
  shows "wf_node (fw_root (snd (fs_remove_all E p w)))"
proof -
  have "wf_node (fold (\<lambda>g t. remove_at t (q @ g)) gs t)" if "wf_node t" for q gs t
    using that by (induction gs arbitrary: t) (auto intro: wf_remove_at simp del: wf_node_simps)
  with assms show ?thesis
    by (auto simp: fs_remove_all_def fs_call_def split: option.splits intro: wf_remove_at simp del: wf_node_simps)
qed

lemma wf_copy_entries:
  assumes "list_all name_ok (fe_cwd E)" "wf_node (fw_root w)"
  shows "wf_node (fw_root (snd (copy_entries E dst wrap L w)))"
  using assms(2)
proof (induction L arbitrary: w)
  case (Cons e L)
  obtain r c x where e: "e = (r, c, x)" by (cases e)
  let ?p = "path_join [dst, join_slash r]"
  obtain e1 w1 where m: "fs_mkdir_all E (path_dir ?p) w = (e1, w1)"
    by (cases "fs_mkdir_all E (path_dir ?p) w")
  obtain e2 w2 where wr: "fs_write_file E ?p c x w1 = (e2, w2)"
    by (cases "fs_write_file E ?p c x w1")
  have "wf_node (fw_root w1)" "wf_node (fw_root w2)"
    using wf_mkdir_all [OF assms(1) Cons.prems, of "path_dir ?p"] wf_write_file [OF assms(1), of w1 ?p c x] m wr
    by simp_all
  with Cons.IH [of w2] m wr show ?case
    by (auto simp: e Let_def split: option.split simp del: wf_node_simps)
qed simp

section \<open>A copy\<close>

text \<open>What is below \<open>D\<close> is there in the directory \<open>es\<close> as well.\<close>

definition partial_copy :: "string list \<Rightarrow> (string \<times> fsnode) list \<Rightarrow> fsnode \<Rightarrow> bool" where
  "partial_copy D es t \<longleftrightarrow> (\<forall>r. kind_at t (D @ r) = None \<or> kind_at t (D @ r) = kind_at (Dir es) r)"

definition keeps_below :: "string list \<Rightarrow> fsnode \<Rightarrow> fsnode \<Rightarrow> bool" where
  "keeps_below D t t' \<longleftrightarrow> (\<forall>r k. kind_at t (D @ r) = Some k \<longrightarrow> kind_at t' (D @ r) = Some k)"

lemma keeps_below_refl [simp]: "keeps_below D t t"
  by (simp add: keeps_below_def)

lemma keeps_below_trans: "keeps_below D t t' \<Longrightarrow> keeps_below D t' t'' \<Longrightarrow> keeps_below D t t''"
  by (simp add: keeps_below_def)

lemma kind_at_prefix: "kind_at t q = Some EDir \<Longrightarrow> prefix r q \<Longrightarrow> kind_at t r = Some EDir"
  using kind_at_above [of t r] by (cases "r = q") (auto simp: prefix_def)

lemma mkdir_partial:
  assumes "mkdir_at t (D @ q) = Some t'" "partial_copy D es t" "kind_at (Dir es) q = Some EDir"
  shows "partial_copy D es t'" "keeps_below D t t'" "kind_at t' (D @ q) = Some EDir"
proof -
  have above: "kind_at (Dir es) r = Some EDir" if "prefix r q" for r
    using that assms(3) by (rule kind_at_prefix [rotated])
  note k = mkdir_at_kind [OF assms(1)]
  show "partial_copy D es t'"
    using assms(2) above by (auto simp: partial_copy_def k)
  show "keeps_below D t t'"
    unfolding keeps_below_def
  proof (intro allI impI)
    fix r x
    assume "kind_at t (D @ r) = Some x"
    then show "kind_at t' (D @ r) = Some x"
      using mkdir_at_needs [OF assms(1), of "D @ r"] k [of "D @ r"] by (cases "prefix r q") auto
  qed
  show "kind_at t' (D @ q) = Some EDir"
    by (simp add: k)
qed

lemma write_partial:
  assumes "write_at t (D @ r) c x = Some t'" "partial_copy D es t" "kind_at (Dir es) r = Some (EFile c x)"
  shows "partial_copy D es t'" "keeps_below D t t'" "kind_at t' (D @ r) = Some (EFile c x)"
proof -
  note k = write_at_kind [OF assms(1)]
  have old: "kind_at t (D @ r) = None \<or> kind_at t (D @ r) = Some (EFile c x)"
    using assms(2,3) by (metis partial_copy_def)
  then show "partial_copy D es t'" "keeps_below D t t'" "kind_at t' (D @ r) = Some (EFile c x)"
    using assms(2,3) by (auto simp: partial_copy_def keeps_below_def k)
qed

lemma copy_step:
  assumes "dst \<noteq> []" "r \<noteq> []" "list_all name_ok r"
    and "fs_mkdir_all E (path_dir (path_join [dst, join_slash r])) w = (None, w1)"
    and "fs_write_file E (path_join [dst, join_slash r]) c x w1 = (None, w2)"
  shows "mkdir_at (fw_root w) (resolve E dst @ butlast r) = Some (fw_root w1)"
    and "write_at (fw_root w1) (resolve E dst @ r) c x = Some (fw_root w2)"
  using assms(4,5) resolve_path_dir [OF assms(1-3)] resolve_join [OF assms(1-3)] path_join_one_word [OF assms(1-3)]
  by (auto simp: fs_mkdir_all_def fs_write_file_def fs_call_def split: option.splits)

lemma walk_entry_kind:
  assumes "wf_node (Dir es)" "(r, c, x) \<in> set (walk_list es)"
  shows "r \<noteq> []" "list_all name_ok r" "kind_at (Dir es) r = Some (EFile c x)" "kind_at (Dir es) (butlast r) = Some EDir"
proof -
  show r: "r \<noteq> []" "list_all name_ok r" and f: "kind_at (Dir es) r = Some (EFile c x)"
    using walk_list_names_ok [OF assms] walk_list_kind [OF assms(1)] assms(2) by auto
  have "kind_at (Dir es) (butlast r @ [last r]) \<noteq> None"
    using r f by simp
  then show "kind_at (Dir es) (butlast r) = Some EDir"
    by (rule kind_at_above) simp
qed

lemma copy_entries_spec:
  assumes "dst \<noteq> []" "wf_node (Dir es)" "set L \<subseteq> set (walk_list es)" "partial_copy (resolve E dst) es (fw_root w)"
    and "copy_entries E dst wrap L w = (Inr (), w')"
  shows "partial_copy (resolve E dst) es (fw_root w') \<and> keeps_below (resolve E dst) (fw_root w) (fw_root w')
    \<and> (\<forall>(r, c, x) \<in> set L. kind_at (fw_root w') (resolve E dst @ r) = Some (EFile c x))"
  using assms(3-5)
proof (induction L arbitrary: w)
  case (Cons e L)
  obtain r c x where e: "e = (r, c, x)" by (cases e)
  let ?p = "path_join [dst, join_slash r]"
  obtain w1 w2 where steps: "fs_mkdir_all E (path_dir ?p) w = (None, w1)" "fs_write_file E ?p c x w1 = (None, w2)"
    "copy_entries E dst wrap L w2 = (Inr (), w')"
    using Cons.prems(3) by (auto simp: e Let_def split: prod.splits option.splits)
  have in_es: "(r, c, x) \<in> set (walk_list es)"
    using Cons.prems(1) by (simp add: e)
  note r = walk_entry_kind [OF assms(2) in_es]
  note tree = copy_step [OF assms(1) r(1,2) steps(1,2)]
  note m = mkdir_partial [OF tree(1) Cons.prems(2) r(4)]
  note wr = write_partial [OF tree(2) m(1) r(3)]
  have "set L \<subseteq> set (walk_list es)"
    using Cons.prems(1) by simp
  note rest = Cons.IH [OF this wr(1) steps(3)]
  have "kind_at (fw_root w') (resolve E dst @ r) = Some (EFile c x)"
    using rest wr(3) by (simp add: keeps_below_def)
  with rest m(2) wr(2) show ?case
    by (auto simp: e intro: keeps_below_trans)
qed auto

lemma copy_entries_ok:
  assumes "\<forall>n. fe_fault E n = None" "dst \<noteq> []" "wf_node (Dir es)" "set L \<subseteq> set (walk_list es)"
    and "partial_copy (resolve E dst) es (fw_root w)"
    and "\<forall>q. prefix q (resolve E dst) \<longrightarrow> kind_at (fw_root w) q \<in> {None, Some EDir}"
  shows "\<exists>w'. copy_entries E dst wrap L w = (Inr (), w')"
  using assms(4-6)
proof (induction L arbitrary: w)
  case (Cons e L)
  let ?D = "resolve E dst"
  obtain r c x where e: "e = (r, c, x)" by (cases e)
  have in_es: "(r, c, x) \<in> set (walk_list es)" and L: "set L \<subseteq> set (walk_list es)"
    using Cons.prems(1) by (auto simp: e)
  note r = walk_entry_kind [OF assms(3) in_es]
  let ?p = "path_join [dst, join_slash r]"
  have p: "resolve E (path_dir ?p) = ?D @ butlast r" "resolve E ?p = ?D @ r"
    using resolve_path_dir [OF assms(2) r(1,2)] resolve_join [OF assms(2) r(1,2)] path_join_one_word [OF assms(2) r(1,2)]
    by simp_all
  have "\<forall>q. prefix q (?D @ butlast r) \<longrightarrow> kind_at (fw_root w) q \<in> {None, Some EDir}"
  proof (intro allI impI)
    fix q
    assume "prefix q (?D @ butlast r)"
    then consider "prefix q ?D" | r' where "q = ?D @ r'" "prefix r' (butlast r)"
      by (auto simp: prefix_append)
    then show "kind_at (fw_root w) q \<in> {None, Some EDir}"
    proof cases
      case 2
      then have "kind_at (Dir es) r' = Some EDir"
        using r(4) kind_at_prefix by blast
      with 2 Cons.prems(2) show ?thesis
        by (metis insertCI partial_copy_def)
    qed (use Cons.prems(3) in blast)
  qed
  then obtain t1 where t1: "mkdir_at (fw_root w) (?D @ butlast r) = Some t1"
    using mkdir_at_succeeds by blast
  note m = mkdir_partial [OF t1 Cons.prems(2) r(4)]
  have "kind_at t1 (?D @ r) = None \<or> kind_at t1 (?D @ r) = Some (EFile c x)"
    using m(1) r(3) by (metis partial_copy_def)
  then obtain t2 where t2: "write_at t1 (?D @ r) c x = Some t2"
    using write_at_succeeds [of "?D @ r" t1 c x] m(3) r(1) by (auto simp: butlast_append)
  note wr = write_partial [OF t2 m(1) r(3)]
  let ?w2 = "w\<lparr>fw_calls := Suc (Suc (fw_calls w)), fw_root := t2\<rparr>"
  have "only_below ?D (fw_root w) t2"
    using mkdir_at_only_below [OF t1, of ?D] write_at_only_below [OF t2, of ?D] by (auto intro: only_below_trans)
  then have "\<forall>q. prefix q ?D \<longrightarrow> kind_at t2 q \<in> {None, Some EDir}"
    using Cons.prems(3) m(3) keeps_below_trans [OF m(2) wr(2)] kind_at_above [of t2 ?D "butlast r"] wr(2)
    by (auto simp: only_below_def keeps_below_def) (metis append_Nil2 option.distinct(1) prefix_order.eq_iff)+
  then obtain w' where "copy_entries E dst wrap L ?w2 = (Inr (), w')"
    using Cons.IH [of ?w2] L wr(1) by auto
  then show ?case
    using t1 t2 assms(1) p by (simp add: e Let_def fs_mkdir_all_def fs_write_file_def fs_call_def)
qed auto

text \<open>
  A copy that succeeds, into a place with nothing below it, holds the regular files of its source; a copy
  whose calls do not fail succeeds, where no file is in the way.
\<close>

lemma fs_mkdir_all_None:
  "fs_mkdir_all E p w = (None, w') \<Longrightarrow> mkdir_at (fw_root w) (resolve E p) = Some (fw_root w')"
  by (auto simp: fs_mkdir_all_def fs_call_def split: option.splits)

lemma tree_files_same:
  assumes "wf_node t" "kind_at t D = Some EDir" "wf_node (Dir es)"
    and "\<And>r c x. r \<noteq> [] \<Longrightarrow> kind_at t (D @ r) = Some (EFile c x) \<longleftrightarrow> kind_at (Dir es) r = Some (EFile c x)"
  shows "tree_files t D = Some (walk_list es)"
proof -
  obtain es' where es': "node_at t D = Some (Dir es')"
    using assms(2) by (auto simp: kind_at_def kind_of_EDir)
  have "walk_list es' = walk_list es"
    using assms(3,4) wf_node_at [OF es' assms(1)] kind_at_append [OF es']
    by (intro walk_list_cong) auto
  with es' show ?thesis
    by (simp add: tree_files_def)
qed

lemma copy_tree_spec:
  assumes "list_all name_ok (fe_cwd E)" "wf_node (fw_root w)" "dst \<noteq> []" "copy_tree E src dst wrap w = (Inr (), w')"
    and "\<forall>r. r \<noteq> [] \<longrightarrow> kind_at (fw_root w) (resolve E dst @ r) = None"
  shows "tree_files (fw_root w) (resolve E src) \<noteq> None
    \<and> tree_files (fw_root w') (resolve E dst) = tree_files (fw_root w) (resolve E src)"
proof -
  let ?D = "resolve E dst"
  obtain L w1 where walk: "walk_regular_files E src w = (Inr L, w1)"
    and "(case fs_mkdir_all E dst w1 of (Some e, w2) \<Rightarrow> (Inl (wraps [sentinel wrap, e]), w2)
       | (None, w2) \<Rightarrow> copy_entries E dst wrap L w2) = (Inr (), w')"
    using assms(4) by (auto simp: copy_tree_def andthen_Inr)
  then obtain w2 where "fs_mkdir_all E dst w1 = (None, w2)" "copy_entries E dst wrap L w2 = (Inr (), w')"
    by (cases "fs_mkdir_all E dst w1") (auto split: option.splits)
  note steps = walk this
  have w1: "fw_root w1 = fw_root w"
    using walk_regular_files_root [of E src w] steps(1) by simp
  obtain es where es: "node_at (fw_root w) (resolve E src) = Some (Dir es)" "L = walk_list es"
    "tree_files (fw_root w) (resolve E src) = Some L"
    using walk_regular_files_Inr [OF steps(1)] by (auto simp: tree_files_Some)
  have wfes: "wf_node (Dir es)"
    using es(1) assms(2) by (rule wf_node_at)
  have mk: "mkdir_at (fw_root w) ?D = Some (fw_root w2)"
    using fs_mkdir_all_None [OF steps(2)] w1 by simp
  have "kind_at (fw_root w2) (?D @ r) = (if r = [] then Some EDir else None)" for r
    using mkdir_at_kind [OF mk, of "?D @ r"] assms(5) by (cases "r = []") simp_all
  then have part: "partial_copy ?D es (fw_root w2)" and dir: "kind_at (fw_root w2) ?D = Some EDir"
    by (auto simp: partial_copy_def) (metis append_Nil2)
  note spec = copy_entries_spec [OF assms(3) wfes _ part steps(3)]
  have "kind_at (fw_root w') (?D @ r) = Some (EFile c x) \<longleftrightarrow> kind_at (Dir es) r = Some (EFile c x)" if "r \<noteq> []" for r c x
    using spec es(2) that walk_list_kind [OF wfes, of r c x]
    by (auto simp: partial_copy_def) (metis option.distinct(1))
  moreover have "kind_at (fw_root w') ?D = Some EDir"
    using spec es(2) dir by (simp add: keeps_below_def) (metis append_Nil2)
  moreover have "wf_node (fw_root w')"
    using wf_copy_entries [OF assms(1), of w2 dst wrap L] wf_mkdir_all [OF assms(1), of w1 dst] steps w1 assms(2) by simp
  ultimately have "tree_files (fw_root w') ?D = Some L"
    using tree_files_same [OF _ _ wfes] es(2) by blast
  with es(3) show ?thesis
    by simp
qed

lemma copy_tree_ok:
  assumes "\<forall>n. fe_fault E n = None" "list_all name_ok (fe_cwd E)" "wf_node (fw_root w)" "dst \<noteq> []"
    and "tree_files (fw_root w) (resolve E src) = Some L"
    and "\<forall>r. r \<noteq> [] \<longrightarrow> kind_at (fw_root w) (resolve E dst @ r) = None"
    and "\<forall>q. prefix q (resolve E dst) \<longrightarrow> kind_at (fw_root w) q \<in> {None, Some EDir}"
  shows "\<exists>w'. copy_tree E src dst wrap w = (Inr (), w')"
proof -
  let ?D = "resolve E dst"
  obtain es where es: "node_at (fw_root w) (resolve E src) = Some (Dir es)" "L = walk_list es"
    using assms(5) by (auto simp: tree_files_Some)
  have wfes: "wf_node (Dir es)"
    using es(1) assms(3) by (rule wf_node_at)
  obtain w1 where w1: "walk_regular_files E src w = (Inr L, w1)"
    using walk_regular_files_ok [OF assms(1,5)] by blast
  have root: "fw_root w1 = fw_root w"
    using walk_regular_files_root [of E src w] w1 by simp
  obtain t where t: "mkdir_at (fw_root w) ?D = Some t"
    using mkdir_at_succeeds [OF assms(7)] by blast
  let ?w2 = "w1\<lparr>fw_calls := Suc (fw_calls w1), fw_root := t\<rparr>"
  have mk: "fs_mkdir_all E dst w1 = (None, ?w2)"
    using assms(1) t root by (simp add: fs_mkdir_all_def fs_call_def)
  have kinds: "kind_at t (?D @ r) = (if r = [] then Some EDir else None)" for r
    using mkdir_at_kind [OF t, of "?D @ r"] assms(6) by (cases "r = []") simp_all
  then have "partial_copy ?D es (fw_root ?w2)"
    by (auto simp: partial_copy_def)
  moreover have "\<forall>q. prefix q ?D \<longrightarrow> kind_at (fw_root ?w2) q \<in> {None, Some EDir}"
    using mkdir_at_kind [OF t] by simp
  ultimately obtain w' where "copy_entries E dst wrap L ?w2 = (Inr (), w')"
    using copy_entries_ok [OF assms(1,4) wfes, of L ?w2] es(2) by blast
  with w1 mk show ?thesis
    by (simp add: copy_tree_def)
qed

text \<open>Whatever fails, a copy changes nothing outside its destination.\<close>

lemma copy_tree_only_below:
  assumes "wf_node (fw_root w)" "dst \<noteq> []"
  shows "only_below (resolve E dst) (fw_root w) (fw_root (snd (copy_tree E src dst wrap w)))"
proof (cases "walk_regular_files E src w")
  case (Pair res w1)
  have root: "fw_root w1 = fw_root w"
    using walk_regular_files_root [of E src w] Pair by simp
  show ?thesis
  proof (cases res)
    case (Inl e)
    with Pair root show ?thesis by (simp add: copy_tree_def)
  next
    case (Inr L)
    obtain es where es: "node_at (fw_root w) (resolve E src) = Some (Dir es)" "L = walk_list es"
      using walk_regular_files_Inr [OF Pair [unfolded Inr]] by (auto simp: tree_files_Some)
    have names: "\<forall>e \<in> set L. fst e \<noteq> [] \<and> list_all name_ok (fst e)"
      using walk_list_names_ok [OF wf_node_at [OF es(1) assms(1)]] es(2) by auto
    obtain e2 w2 where m: "fs_mkdir_all E dst w1 = (e2, w2)"
      by (cases "fs_mkdir_all E dst w1")
    have 1: "only_below (resolve E dst) (fw_root w) (fw_root w2)"
      using fs_mkdir_all_only_below [of "resolve E dst" E dst w1] m root by simp
    show ?thesis
      using 1 only_below_trans [OF 1 copy_entries_only_below [OF assms(2) names, of E w2 wrap]] Pair Inr m
      by (simp add: copy_tree_def split: option.split)
  qed
qed

lemma wf_copy_tree:
  assumes "list_all name_ok (fe_cwd E)" "wf_node (fw_root w)"
  shows "wf_node (fw_root (snd (copy_tree E src dst wrap w)))"
proof (cases "walk_regular_files E src w")
  case (Pair res w1)
  have "wf_node (fw_root w1)"
    using walk_regular_files_root [of E src w] Pair assms(2) by simp
  then show ?thesis
    using wf_copy_entries [OF assms(1)] wf_mkdir_all [OF assms(1), of w1 dst] Pair
    by (cases res; cases "fs_mkdir_all E dst w1") (simp_all add: copy_tree_def split: option.split)
qed

end
