(* ===== verification/LocalPatchSafe.thy ===== *)
theory LocalPatchSafe
  imports LocalPatchTree
begin

text \<open>
  What an install and a rollback promise, whatever calls fail: they touch their tool's live tree and
  history only, what they publish describes the tree they left, and the tree that was live is kept.
\<close>

section \<open>Calls that read\<close>

lemma reads_root [simp]:
  "fw_root (snd (fs_stat F p w)) = fw_root w" "fw_root (snd (fs_read_file F p w)) = fw_root w"
  by (auto simp: fs_stat_def fs_read_file_def fs_call_def split: option.split entry.split)

lemma load_manifest_from_root [simp]: "fw_root (snd (load_manifest_from E dir source w)) = fw_root w"
  using reads_root(2) [of "le_fs E" "path_join [dir, ''manifest.json'']" w]
  by (auto simp: load_manifest_from_def simp del: reads_root split: prod.split)

lemma folder_manifest_root [simp]: "fw_root (snd (load_and_validate_folder_manifest E folder source w)) = fw_root w"
  using load_manifest_from_root [of E folder source w]
  by (auto simp: load_and_validate_folder_manifest_def simp del: load_manifest_from_root split: prod.split sum.split)

lemma read_live_version_root [simp]: "fw_root (snd (read_live_version E live source w)) = fw_root w"
proof (cases "fs_stat (le_fs E) live w")
  case (Pair k w1)
  have "fw_root w1 = fw_root w"
    using reads_root(1) [of "le_fs E" live w] Pair by simp
  with Pair load_manifest_from_root [of E live source w1] show ?thesis
    by (auto simp: read_live_version_def simp del: load_manifest_from_root split: sum.split prod.split)
qed

lemma content_digest_root [simp]: "fw_root (snd (content_digest F h root w)) = fw_root w"
  using walk_regular_files_root [of F "path_clean root" w]
  by (auto simp: content_digest_def andthen_def simp del: walk_regular_files_root split: prod.split sum.split)

lemma content_digest_Inr:
  assumes "content_digest F h root w = (Inr d, w')"
  shows "\<exists>L. tree_files (fw_root w) (resolve F root) = Some L \<and> d = h (digest_input L)"
  using assms walk_regular_files_Inr [of F "path_clean root" w]
  by (auto simp: content_digest_def andthen_Inr split: if_splits)

lemma list_snapshots_root [simp]: "fw_root (snd (list_snapshots F d s t w)) = fw_root w"
  using fs_read_dir_root [of F "path_clean (path_join [d, ''_history'', s, t])" w]
  by (auto simp: list_snapshots_def simp del: fs_read_dir_root split: prod.split sum.split)

lemma locate_snapshot_root [simp]: "fw_root (snd (locate_snapshot E s t v w)) = fw_root w"
proof (cases "snapshot_path (le_data_dir E) s t v")
  case (Inr snap)
  obtain k w1 where k: "fs_stat (le_fs E) snap w = (k, w1)"
    by (cases "fs_stat (le_fs E) snap w")
  have "fw_root w1 = fw_root w"
    using reads_root(1) [of "le_fs E" snap w] k by simp
  with Inr k list_snapshots_root [of "le_fs E" "le_data_dir E" s t w1] show ?thesis
    by (auto simp: locate_snapshot_def simp del: list_snapshots_root split: sum.split prod.split)
qed (simp add: locate_snapshot_def)

lemma verify_snapshot_manifest_root [simp]: "fw_root (snd (verify_snapshot_manifest E snap req w)) = fw_root w"
  using load_manifest_from_root [of E snap "lr_source req" w]
  by (auto simp: verify_snapshot_manifest_def simp del: load_manifest_from_root split: prod.split sum.split)

section \<open>Where a patch may write\<close>

definition live_at :: "patch_env \<Rightarrow> string \<Rightarrow> string \<Rightarrow> string list" where
  "live_at E s t = resolve (le_fs E) (le_data_dir E) @ [''tools'', s, t]"

definition history_at :: "patch_env \<Rightarrow> string \<Rightarrow> string \<Rightarrow> string list" where
  "history_at E s t = resolve (le_fs E) (le_data_dir E) @ [''_history'', s, t]"

definition touches :: "patch_env \<Rightarrow> string \<Rightarrow> string \<Rightarrow> fsnode \<Rightarrow> fsnode \<Rightarrow> bool" where
  "touches E s t r r' \<longleftrightarrow> (\<forall>q. kind_at r' q = kind_at r q \<or> prefix (live_at E s t) q \<or> prefix (history_at E s t) q
     \<or> kind_at r q = None \<and> kind_at r' q = Some EDir
       \<and> (strict_prefix q (live_at E s t) \<or> strict_prefix q (history_at E s t)))"

lemma touches_refl [simp]: "touches E s t r r"
  by (simp add: touches_def)

lemma touches_trans: "touches E s t r r' \<Longrightarrow> touches E s t r' r'' \<Longrightarrow> touches E s t r r''"
  unfolding touches_def by (metis option.distinct(1))

lemma touches_live: "only_below (live_at E s t) r r' \<Longrightarrow> touches E s t r r'"
  by (auto simp: only_below_def touches_def)

lemma touches_snapshot: "only_below (history_at E s t @ [v]) r r' \<Longrightarrow> touches E s t r r'"
  unfolding only_below_def touches_def strict_prefix_def
  by (metis append_prefixD prefix_order.order_refl prefix_snoc)

text \<open>The live tree and the snapshots are apart, and so are two snapshots.\<close>

definition apart :: "string list \<Rightarrow> string list \<Rightarrow> bool" where
  "apart p q \<longleftrightarrow> \<not> prefix p q \<and> \<not> prefix q p"

lemma apart_simps [simp]:
  "apart (live_at E s t) (history_at E s t @ q)" "apart (history_at E s t @ q) (live_at E s t)"
  "apart (history_at E s t @ [v]) (history_at E s t @ [v']) \<longleftrightarrow> v \<noteq> v'"
  by (auto simp: apart_def live_at_def history_at_def)

lemma nothing_below: "kind_at t p = None \<Longrightarrow> kind_at t (p @ r) = None"
  using kind_at_above [of t p r] by (cases "r = []"; cases "kind_at t (p @ r)") auto

lemma only_below_apart:
  assumes "only_below p r r'" "apart p q"
  shows "kind_at r' (q @ x) = kind_at r (q @ x)"
proof -
  have "\<not> prefix p (q @ x)" "\<not> strict_prefix (q @ x) p"
    using assms(2) by (auto simp: apart_def prefix_append strict_prefix_def dest: append_prefixD)
  with assms(1) show ?thesis
    by (auto simp: only_below_def)
qed

lemma tree_files_cong:
  assumes "wf_node r" "wf_node r'" "\<And>x. kind_at r' (q @ x) = kind_at r (q @ x)"
  shows "tree_files r' q = tree_files r q"
proof (cases "kind_at r q = Some EDir")
  case True
  then obtain es where es: "node_at r q = Some (Dir es)"
    by (auto simp: kind_at_def kind_of_EDir)
  have "tree_files r' q = Some (walk_list es)"
    using assms(3) [of "[]"] assms(3) kind_at_append [OF es] True wf_node_at [OF es assms(1)]
    by (intro tree_files_same assms(2)) auto
  with es show ?thesis
    by (simp add: tree_files_def)
next
  case False
  then have "kind_at r' q \<noteq> Some EDir"
    using assms(3) [of "[]"] by simp
  with False show ?thesis
    by (auto simp: tree_files_def kind_at_def split: option.split fsnode.split)
qed

lemma tree_files_apart:
  "wf_node r \<Longrightarrow> wf_node r' \<Longrightarrow> only_below p r r' \<Longrightarrow> apart p q \<Longrightarrow> tree_files r' q = tree_files r q"
  by (rule tree_files_cong) (auto intro: only_below_apart)

section \<open>A snapshot and a replacement\<close>

text \<open>
  The tree is well formed, the working directory is a path, and no call that fails answers that a path
  does not exist when it does.
\<close>

definition fs_ok :: "patch_env \<Rightarrow> fs_world \<Rightarrow> bool" where
  "fs_ok E w \<longleftrightarrow> list_all name_ok (fe_cwd (le_fs E)) \<and> wf_node (fw_root w)
     \<and> (\<forall>n f. fe_fault (le_fs E) n = Some f \<longrightarrow> \<not> tree_is (ff_err f) FsErrNotExist)"

lemma fs_ok_same: "fw_root w' = fw_root w \<Longrightarrow> fs_ok E w' = fs_ok E w"
  by (simp add: fs_ok_def)

abbreviation snapshot_of :: "patch_env \<Rightarrow> string \<Rightarrow> string \<Rightarrow> string \<Rightarrow> fs_world \<Rightarrow> (err_tree + bool) \<times> fs_world" where
  "snapshot_of E s t v \<equiv> snapshot_if_present (le_fs E) (le_data_dir E) s t v"

abbreviation replacement :: "patch_env \<Rightarrow> string \<Rightarrow> string \<Rightarrow> string \<Rightarrow> fs_world \<Rightarrow> (err_tree + unit) \<times> fs_world" where
  "replacement E s t src \<equiv> replace_live (le_fs E) (le_data_dir E) s t src"

lemma fs_stat_cases:
  assumes "fs_ok E w" "fs_stat (le_fs E) p w = (k, w')"
  shows "fw_root w' = fw_root w"
    "(\<exists>e. k = Inl e \<and> tree_is e FsErrNotExist) \<Longrightarrow> kind_at (fw_root w) (resolve (le_fs E) p) = None"
    "k = Inr x \<Longrightarrow> kind_at (fw_root w) (resolve (le_fs E) p) = Some x"
  using assms by (auto simp: fs_stat_def fs_call_def fs_ok_def no_node_def split: option.splits if_splits)

text \<open>
  Either nothing is written, and a snapshot that is reported was there; or nothing was at its place and the
  live tree is copied there, completely when no error is returned.
\<close>

lemma snapshot_cases:
  assumes "fs_ok E w" "snapshot_of E s t v w = (res, w')"
  shows "fw_root w' = fw_root w
      \<and> (res = Inr True \<longrightarrow> kind_at (fw_root w) (history_at E s t @ [v]) \<noteq> None)
      \<and> (res = Inr False \<longrightarrow> kind_at (fw_root w) (live_at E s t) = None)
    \<or> (\<exists>live snap w2 r. live_tool_path (le_data_dir E) s t = Inr live \<and> snapshot_path (le_data_dir E) s t v = Inr snap
        \<and> fw_root w2 = fw_root w \<and> copy_tree (le_fs E) live snap LpErrSnapshotWrite w2 = (r, w')
        \<and> kind_at (fw_root w) (history_at E s t @ [v]) = None
        \<and> res = (case r of Inl e \<Rightarrow> Inl e | Inr _ \<Rightarrow> Inr True))"
proof (cases "live_tool_path (le_data_dir E) s t")
  case (Inr live)
  have live: "resolve (le_fs E) live = live_at E s t"
    using live_tool_path_Inr [OF Inr] by (simp add: live_at_def)
  obtain k w1 where k: "fs_stat (le_fs E) live w = (k, w1)"
    by (cases "fs_stat (le_fs E) live w")
  note stat1 = fs_stat_cases [OF assms(1) k]
  have ok1: "fs_ok E w1"
    using assms(1) fs_ok_same [OF stat1(1)] by simp
  show ?thesis
  proof (cases "k = Inr EDir")
    case False
    with assms(2) Inr k stat1 live show ?thesis
      by (cases k) (auto simp: snapshot_if_present_def split: if_splits)
  next
    case dir: True
    show ?thesis
    proof (cases "snapshot_path (le_data_dir E) s t v")
      case (Inl e)
      with assms(2) \<open>live_tool_path _ _ _ = _\<close> k dir stat1(1) show ?thesis
        by (auto simp: snapshot_if_present_def)
    next
      case snap: (Inr snap)
      have at: "resolve (le_fs E) snap = history_at E s t @ [v]"
        using snapshot_path_Inr [OF snap] by (simp add: history_at_def)
      obtain k2 w2 where k2: "fs_stat (le_fs E) snap w1 = (k2, w2)"
        by (cases "fs_stat (le_fs E) snap w1")
      note stat2 = fs_stat_cases [OF ok1 k2]
      show ?thesis
      proof (cases "\<exists>e. k2 = Inl e \<and> tree_is e FsErrNotExist")
        case False
        with assms(2) Inr k dir snap k2 stat1(1) stat2(1,3) at show ?thesis
          by (cases k2) (auto simp: snapshot_if_present_def)
      next
        case True
        then have none: "kind_at (fw_root w) (history_at E s t @ [v]) = None"
          using stat2(2) stat1(1) at by simp
        obtain r w3 where r: "copy_tree (le_fs E) live snap LpErrSnapshotWrite w2 = (r, w3)"
          by (cases "copy_tree (le_fs E) live snap LpErrSnapshotWrite w2")
        have "res = (case r of Inl e \<Rightarrow> Inl e | Inr _ \<Rightarrow> Inr True)" "w3 = w'"
          using assms(2) Inr k dir snap k2 True r
          by (auto simp: snapshot_if_present_def andthen_def split: sum.splits)
        with Inr snap none r stat1(1) stat2(1) show ?thesis
          by (intro disjI2 exI [of _ live] exI [of _ snap] exI [of _ w2] exI [of _ r]) simp
      qed
    qed
  qed
qed (use assms(2) in \<open>auto simp: snapshot_if_present_def\<close>)

lemma snapshot_writes:
  assumes "fs_ok E w" "snapshot_of E s t v w = (res, w')"
  shows "only_below (history_at E s t @ [v]) (fw_root w) (fw_root w') \<and> fs_ok E w'"
  using snapshot_cases [OF assms]
proof
  assume "fw_root w' = fw_root w \<and> (res = Inr True \<longrightarrow> kind_at (fw_root w) (history_at E s t @ [v]) \<noteq> None)
      \<and> (res = Inr False \<longrightarrow> kind_at (fw_root w) (live_at E s t) = None)"
  with assms(1) show ?thesis
    by (simp add: fs_ok_def)
next
  assume "\<exists>live snap w2 r. live_tool_path (le_data_dir E) s t = Inr live \<and> snapshot_path (le_data_dir E) s t v = Inr snap
        \<and> fw_root w2 = fw_root w \<and> copy_tree (le_fs E) live snap LpErrSnapshotWrite w2 = (r, w')
        \<and> kind_at (fw_root w) (history_at E s t @ [v]) = None \<and> res = (case r of Inl e \<Rightarrow> Inl e | Inr _ \<Rightarrow> Inr True)"
  then obtain live snap w2 r where c: "snapshot_path (le_data_dir E) s t v = Inr snap" "fw_root w2 = fw_root w"
    "copy_tree (le_fs E) live snap LpErrSnapshotWrite w2 = (r, w')" by blast
  show ?thesis
    using snapshot_path_Inr [OF c(1)] assms(1) c(2,3) copy_tree_only_below [of w2 snap "le_fs E" live LpErrSnapshotWrite]
      wf_copy_tree [of "le_fs E" w2 live snap LpErrSnapshotWrite]
    by (simp add: fs_ok_def history_at_def)
qed

lemma snapshot_keeps:
  assumes "fs_ok E w" "snapshot_of E s t v w = (Inr b, w')" "tree_files (fw_root w) (live_at E s t) = Some L"
  shows "kind_at (fw_root w) (history_at E s t @ [v]) \<noteq> None \<and> fw_root w' = fw_root w
    \<or> kind_at (fw_root w) (history_at E s t @ [v]) = None \<and> tree_files (fw_root w') (history_at E s t @ [v]) = Some L"
  using snapshot_cases [OF assms(1,2)]
proof
  assume a: "fw_root w' = fw_root w \<and> (Inr b = Inr True \<longrightarrow> kind_at (fw_root w) (history_at E s t @ [v]) \<noteq> None)
      \<and> (Inr b = Inr False \<longrightarrow> kind_at (fw_root w) (live_at E s t) = None)"
  have "kind_at (fw_root w) (live_at E s t) \<noteq> None"
    using assms(3) by (auto simp: tree_files_Some kind_at_def)
  with a show ?thesis
    by (cases b) simp_all
next
  assume "\<exists>live snap w2 r. live_tool_path (le_data_dir E) s t = Inr live \<and> snapshot_path (le_data_dir E) s t v = Inr snap
        \<and> fw_root w2 = fw_root w \<and> copy_tree (le_fs E) live snap LpErrSnapshotWrite w2 = (r, w')
        \<and> kind_at (fw_root w) (history_at E s t @ [v]) = None \<and> Inr b = (case r of Inl e \<Rightarrow> Inl e | Inr _ \<Rightarrow> Inr True)"
  then obtain live snap w2 r where c: "live_tool_path (le_data_dir E) s t = Inr live"
    "snapshot_path (le_data_dir E) s t v = Inr snap" "fw_root w2 = fw_root w"
    "copy_tree (le_fs E) live snap LpErrSnapshotWrite w2 = (r, w')"
    "kind_at (fw_root w) (history_at E s t @ [v]) = None" "Inr b = (case r of Inl e \<Rightarrow> Inl e | Inr _ \<Rightarrow> Inr True)"
    by blast
  then have "r = Inr ()"
    by (cases r) auto
  note c = c(1-3) c(4) [unfolded this] c(5)
  have at: "resolve (le_fs E) snap = history_at E s t @ [v]" "resolve (le_fs E) live = live_at E s t" "snap \<noteq> []"
    using snapshot_path_Inr [OF c(2)] live_tool_path_Inr [OF c(1)] by (simp_all add: history_at_def live_at_def)
  have "\<forall>r. r \<noteq> [] \<longrightarrow> kind_at (fw_root w2) (resolve (le_fs E) snap @ r) = None"
    using nothing_below [OF c(5)] c(3) at(1) by simp
  with copy_tree_spec [OF _ _ at(3) c(4)] assms(1,3) c(3,5) at show ?thesis
    by (simp add: fs_ok_def)
qed

lemma live_at_not_Nil [simp]: "live_at E s t \<noteq> []"
  by (simp add: live_at_def)

lemma replacement_writes:
  assumes "fs_ok E w" "replacement E s t src w = (res, w')"
  shows "only_below (live_at E s t) (fw_root w) (fw_root w') \<and> fs_ok E w'"
proof (cases "live_tool_path (le_data_dir E) s t")
  case (Inl e)
  with assms show ?thesis by (auto simp: replace_live_def)
next
  case (Inr live)
  have live: "resolve (le_fs E) live = live_at E s t" "live \<noteq> []"
    using live_tool_path_Inr [OF Inr] by (simp_all add: live_at_def)
  obtain e w1 where rm: "fs_remove_all (le_fs E) live w = (e, w1)"
    by (cases "fs_remove_all (le_fs E) live w")
  have 1: "only_below (live_at E s t) (fw_root w) (fw_root w1)" "fs_ok E w1"
    using fs_remove_all_only_below [of "le_fs E" live w] wf_remove_all [of w "le_fs E" live] assms(1) rm live
    by (simp_all add: fs_ok_def)
  show ?thesis
  proof (cases e)
    case (Some x)
    with assms(2) Inr rm 1 show ?thesis by (auto simp: replace_live_def)
  next
    case None
    then have "copy_tree (le_fs E) src live LpErrLiveWrite w1 = (res, w')"
      using assms(2) Inr rm by (simp add: replace_live_def)
    then show ?thesis
      using copy_tree_only_below [of w1 live "le_fs E" src LpErrLiveWrite] 1 live
        wf_copy_tree [of "le_fs E" w1 src live LpErrLiveWrite] only_below_trans [OF 1(1)]
      by (simp add: fs_ok_def)
  qed
qed

lemma replacement_spec:
  assumes "fs_ok E w" "replacement E s t src w = (Inr (), w')" "apart (live_at E s t) (resolve (le_fs E) src)"
  shows "tree_files (fw_root w') (live_at E s t) = tree_files (fw_root w) (resolve (le_fs E) src)
    \<and> tree_files (fw_root w) (resolve (le_fs E) src) \<noteq> None"
proof -
  obtain live where live: "live_tool_path (le_data_dir E) s t = Inr live"
    using assms(2) by (cases "live_tool_path (le_data_dir E) s t") (auto simp: replace_live_def)
  have at: "resolve (le_fs E) live = live_at E s t" "live \<noteq> []"
    using live_tool_path_Inr [OF live] by (simp_all add: live_at_def)
  obtain w1 where rm: "fs_remove_all (le_fs E) live w = (None, w1)"
    and copy: "copy_tree (le_fs E) src live LpErrLiveWrite w1 = (Inr (), w')"
    using assms(2) live by (auto simp: replace_live_def split: prod.splits option.splits)
  have root1: "fw_root w1 = remove_at (fw_root w) (live_at E s t)"
    using rm at by (auto simp: fs_remove_all_def fs_call_def split: option.splits)
  have wf: "wf_node (fw_root w)" "wf_node (fw_root w1)"
    using assms(1) wf_remove_at root1 by (simp_all add: fs_ok_def)
  have "kind_at (fw_root w1) (live_at E s t @ r) = None" for r
    by (simp add: root1 remove_at_kind)
  moreover have "tree_files (fw_root w1) (resolve (le_fs E) src) = tree_files (fw_root w) (resolve (le_fs E) src)"
    using remove_at_only_below [of "live_at E s t" "live_at E s t"] root1 wf assms(3)
    by (intro tree_files_apart [of _ _ "live_at E s t"]) simp_all
  ultimately show ?thesis
    using copy_tree_spec [OF _ wf(2) at(2) copy] assms(1) at(1) by (simp add: fs_ok_def)
qed

lemma replacement_ok:
  assumes "fs_ok E w" "\<forall>n. fe_fault (le_fs E) n = None" "\<not> blank (le_data_dir E)" "valid_identifier s" "valid_identifier t"
    and "apart (live_at E s t) (resolve (le_fs E) src)" "tree_files (fw_root w) (resolve (le_fs E) src) = Some L"
    and "\<forall>q. strict_prefix q (live_at E s t) \<longrightarrow> kind_at (fw_root w) q \<in> {None, Some EDir}"
  shows "\<exists>w'. replacement E s t src w = (Inr (), w')"
proof -
  obtain live where live: "live_tool_path (le_data_dir E) s t = Inr live"
    using live_tool_path_ok [OF assms(3-5)] by blast
  have at: "resolve (le_fs E) live = live_at E s t" "live \<noteq> []"
    using live_tool_path_Inr [OF live] by (simp_all add: live_at_def)
  let ?r1 = "remove_at (fw_root w) (live_at E s t)"
  let ?w1 = "w\<lparr>fw_calls := Suc (fw_calls w), fw_root := ?r1\<rparr>"
  have rm: "fs_remove_all (le_fs E) live w = (None, ?w1)"
    using assms(2) at by (simp add: fs_remove_all_def fs_call_def)
  have wf: "wf_node (fw_root w)" "wf_node ?r1"
    using assms(1) wf_remove_at by (simp_all add: fs_ok_def)
  have "tree_files ?r1 (resolve (le_fs E) src) = Some L"
    using tree_files_apart [OF wf remove_at_only_below [of "live_at E s t" "live_at E s t"] assms(6)] assms(7) by simp
  moreover have "kind_at ?r1 q \<in> {None, Some EDir}" if "prefix q (live_at E s t)" for q
    using that assms(8) by (auto simp: remove_at_kind strict_prefix_def)
  ultimately obtain w' where "copy_tree (le_fs E) src live LpErrLiveWrite ?w1 = (Inr (), w')"
    using copy_tree_ok [OF assms(2), of ?w1 live src L LpErrLiveWrite] assms(1) wf at
    by (auto simp: fs_ok_def remove_at_kind)
  with live rm show ?thesis
    by (simp add: replace_live_def)
qed

section \<open>The common part of both operations\<close>

definition swap_live ::
  "patch_env \<Rightarrow> string \<Rightarrow> string \<Rightarrow> (string \<Rightarrow> bool) \<Rightarrow> string \<Rightarrow> 'a \<Rightarrow> fs_world \<Rightarrow> (err_tree + 'a) \<times> fs_world" where
  "swap_live E s t skip src x w =
     (case live_tool_path (le_data_dir E) s t of
        Inl e \<Rightarrow> (Inl e, w)
      | Inr live \<Rightarrow>
          andthen (read_live_version E live s w) (\<lambda>p w1.
          andthen (case p of
              None \<Rightarrow> (Inr False, w1)
            | Some v \<Rightarrow> if skip v then (Inr False, w1) else snapshot_of E s t v w1) (\<lambda>_ w2.
          andthen (replacement E s t src w2) (\<lambda>_ w3. (Inr x, w3)))))"

lemma install_files_swap:
  "install_files E req w =
     andthen (load_and_validate_folder_manifest E (lq_folder req) (lq_source req) w) (\<lambda>m w1.
     andthen (content_digest (le_fs E) (le_hash E) (lq_folder req) w1) (\<lambda>d w2.
     swap_live E (lq_source req) (mf_name m) (\<lambda>_. False) (lq_folder req) (m, d) w2))"
  by (simp only: install_files_def swap_live_def if_False)

lemma swap_result: "swap_live E s t skip src x w = (Inr y, w') \<Longrightarrow> y = x"
  unfolding swap_live_def andthen_Inr by (cases "live_tool_path (le_data_dir E) s t") (auto simp: andthen_Inr)

lemma install_files_Inr:
  assumes "install_files E req w = (Inr (m, d), w')"
  obtains w1 w2 where "load_and_validate_folder_manifest E (lq_folder req) (lq_source req) w = (Inr m, w1)"
    "content_digest (le_fs E) (le_hash E) (lq_folder req) w1 = (Inr d, w2)"
    "swap_live E (lq_source req) (mf_name m) (\<lambda>_. False) (lq_folder req) (m, d) w2 = (Inr (m, d), w')"
proof -
  obtain m1 w1 d1 w2 where "load_and_validate_folder_manifest E (lq_folder req) (lq_source req) w = (Inr m1, w1)"
    "content_digest (le_fs E) (le_hash E) (lq_folder req) w1 = (Inr d1, w2)"
    "swap_live E (lq_source req) (mf_name m1) (\<lambda>_. False) (lq_folder req) (m1, d1) w2 = (Inr (m, d), w')"
    using assms unfolding install_files_swap andthen_Inr by blast
  moreover from swap_result [OF this(3)] have "m = m1" "d = d1"
    by simp_all
  ultimately show thesis
    using that by blast
qed

lemma rollback_files_swap:
  "rollback_files E req w =
     andthen (locate_snapshot E (lr_source req) (lr_tool req) (lr_version req) w) (\<lambda>snap w1.
     andthen (verify_snapshot_manifest E snap req w1) (\<lambda>_ w2.
     andthen (content_digest (le_fs E) (le_hash E) snap w2) (\<lambda>d w3.
     swap_live E (lr_source req) (lr_tool req) (\<lambda>v. v = lr_version req) snap d w3)))"
  by (simp add: rollback_files_def swap_live_def)

text \<open>How far the common part came: to an error before anything is written, or to the replacement.\<close>

lemma swap_cases:
  assumes "fs_ok E w" "swap_live E s t skip src x w = (res, w')"
  obtains (early) e where "res = Inl e" "fw_root w' = fw_root w"
  | (snap) live v w1 e where "live_tool_path (le_data_dir E) s t = Inr live"
      "read_live_version E live s w = (Inr (Some v), w1)" "\<not> skip v" "snapshot_of E s t v w1 = (Inl e, w')" "res = Inl e"
  | (none) live w1 r where "live_tool_path (le_data_dir E) s t = Inr live"
      "read_live_version E live s w = (Inr None, w1)" "replacement E s t src w1 = (r, w')"
      "res = (case r of Inl e \<Rightarrow> Inl e | Inr _ \<Rightarrow> Inr x)"
  | (skipped) live v w1 r where "live_tool_path (le_data_dir E) s t = Inr live"
      "read_live_version E live s w = (Inr (Some v), w1)" "skip v" "replacement E s t src w1 = (r, w')"
      "res = (case r of Inl e \<Rightarrow> Inl e | Inr _ \<Rightarrow> Inr x)"
  | (saved) live v w1 b w2 r where "live_tool_path (le_data_dir E) s t = Inr live"
      "read_live_version E live s w = (Inr (Some v), w1)" "\<not> skip v" "snapshot_of E s t v w1 = (Inr b, w2)"
      "replacement E s t src w2 = (r, w')" "res = (case r of Inl e \<Rightarrow> Inl e | Inr _ \<Rightarrow> Inr x)"
proof (cases "live_tool_path (le_data_dir E) s t")
  case (Inl e)
  with assms(2) show ?thesis by (intro early) (auto simp: swap_live_def)
next
  case (Inr live)
  obtain p w1 where p: "read_live_version E live s w = (p, w1)"
    by (cases "read_live_version E live s w")
  have root: "fw_root w1 = fw_root w"
    using read_live_version_root [of E live s w] p by simp
  have last: "res = (case r of Inl e \<Rightarrow> Inl e | Inr _ \<Rightarrow> Inr x)" "w3 = w'"
    if "andthen (r, w3) (\<lambda>_ w3. (Inr x, w3)) = (res, w')" for r :: "err_tree + unit" and w3
    using that by (auto simp: andthen_def split: sum.splits)
  show ?thesis
  proof (cases p)
    case (Inl e)
    with assms(2) Inr p root show ?thesis by (intro early) (auto simp: swap_live_def)
  next
    case ok: (Inr o')
    show ?thesis
    proof (cases o')
      case None
      obtain r w3 where r: "replacement E s t src w1 = (r, w3)"
        by (cases "replacement E s t src w1")
      have "andthen (r, w3) (\<lambda>_ w3. (Inr x, w3)) = (res, w')"
        using assms(2) Inr p ok None r by (simp add: swap_live_def)
      from last [OF this] r show ?thesis
        using none [OF Inr] p ok None by simp
    next
      case (Some v)
      show ?thesis
      proof (cases "skip v")
        case True
        obtain r w3 where r: "replacement E s t src w1 = (r, w3)"
          by (cases "replacement E s t src w1")
        have "andthen (r, w3) (\<lambda>_ w3. (Inr x, w3)) = (res, w')"
          using assms(2) Inr p ok Some True r by (simp add: swap_live_def)
        from last [OF this] r show ?thesis
          using skipped [OF Inr _ True] p ok Some by simp
      next
        case False
        obtain b w2 where b: "snapshot_of E s t v w1 = (b, w2)"
          by (cases "snapshot_of E s t v w1")
        show ?thesis
        proof (cases b)
          case (Inl e)
          with assms(2) \<open>live_tool_path _ _ _ = _\<close> p ok Some False b show ?thesis
            by (intro snap [of live v w1 e]) (auto simp: swap_live_def)
        next
          case kept: (Inr b')
          obtain r w3 where r: "replacement E s t src w2 = (r, w3)"
            by (cases "replacement E s t src w2")
          have "andthen (r, w3) (\<lambda>_ w3. (Inr x, w3)) = (res, w')"
            using assms(2) Inr p ok Some False b kept r by (simp add: swap_live_def)
          from last [OF this] r show ?thesis
            using saved [OF Inr _ False] p ok Some b kept by simp
        qed
      qed
    qed
  qed
qed

lemma swap_touches:
  assumes "fs_ok E w" "swap_live E s t skip src x w = (res, w')"
  shows "touches E s t (fw_root w) (fw_root w') \<and> fs_ok E w' \<and> (valid_identifier t \<or> fw_root w' = fw_root w)"
proof -
  have read: "fs_ok E w1 \<and> fw_root w1 = fw_root w" if "read_live_version E live s w = (p, w1)" for live p w1
    using read_live_version_root [of E live s w] that fs_ok_same [of w1 w E] assms(1) by simp
  have valid: "valid_identifier t" if "live_tool_path (le_data_dir E) s t = Inr live" for live
    using live_tool_path_Inr [OF that] by blast
  from assms show ?thesis
  proof (cases rule: swap_cases)
    case (early e)
    with assms(1) show ?thesis by (simp add: fs_ok_def)
  next
    case (snap live v w1 e)
    with read [OF snap(2)] snapshot_writes [of E w1 s t v] valid touches_snapshot show ?thesis by metis
  next
    case (none live w1 r)
    with read [OF none(2)] replacement_writes [of E w1 s t src] valid touches_live show ?thesis by metis
  next
    case (skipped live v w1 r)
    with read [OF skipped(2)] replacement_writes [of E w1 s t src] valid touches_live show ?thesis by metis
  next
    case (saved live v w1 b w2 r)
    note 1 = snapshot_writes [OF _ saved(4)] and 2 = replacement_writes [OF _ saved(5)]
    from 1 2 read [OF saved(2)] valid [OF saved(1)] touches_snapshot touches_live touches_trans show ?thesis by metis
  qed
qed

lemma swap_done:
  assumes "fs_ok E w" "swap_live E s t skip src x w = (Inr y, w')"
    and "apart (live_at E s t) (resolve (le_fs E) src)" "\<And>v. \<not> skip v \<Longrightarrow> apart (history_at E s t @ [v]) (resolve (le_fs E) src)"
  shows "y = x \<and> tree_files (fw_root w') (live_at E s t) = tree_files (fw_root w) (resolve (le_fs E) src)
    \<and> tree_files (fw_root w) (resolve (le_fs E) src) \<noteq> None"
proof -
  have read: "fs_ok E w1 \<and> fw_root w1 = fw_root w" if "read_live_version E live s w = (p, w1)" for live p w1
    using read_live_version_root [of E live s w] that fs_ok_same [of w1 w E] assms(1) by simp
  have unit: "r = Inr () \<and> y = x" if "Inr y = (case r of Inl e \<Rightarrow> Inl e | Inr _ \<Rightarrow> Inr x)" for r :: "err_tree + unit"
    using that by (cases r) auto
  from assms(1,2) show ?thesis
  proof (cases rule: swap_cases)
    case (none live w1 r)
    with read [OF none(2)] unit [OF none(4)] replacement_spec [of E w1 s t src w'] assms(3) show ?thesis by simp
  next
    case (skipped live v w1 r)
    with read [OF skipped(2)] unit [OF skipped(5)] replacement_spec [of E w1 s t src w'] assms(3) show ?thesis by simp
  next
    case (saved live v w1 b w2 r)
    have 1: "only_below (history_at E s t @ [v]) (fw_root w) (fw_root w2)" "fs_ok E w2"
      using snapshot_writes [OF _ saved(4)] read [OF saved(2)] by simp_all
    have "tree_files (fw_root w2) (resolve (le_fs E) src) = tree_files (fw_root w) (resolve (le_fs E) src)"
      using tree_files_apart [OF _ _ 1(1) assms(4) [OF saved(3)]] assms(1) 1(2) by (simp add: fs_ok_def)
    with replacement_spec [OF 1(2), of s t src w'] saved(5) unit [OF saved(6)] assms(3) show ?thesis
      by simp
  qed auto
qed

section \<open>Nothing else is touched\<close>

lemma install_files_touches:
  assumes "fs_ok E w" "install_files E req w = (res, w')"
  shows "\<exists>t. valid_identifier t \<and> touches E (lq_source req) t (fw_root w) (fw_root w')"
proof -
  have same: "\<exists>t. valid_identifier t \<and> touches E (lq_source req) t (fw_root w) (fw_root w')" if "fw_root w' = fw_root w"
    using that by (intro exI [of _ "''x''"]) (simp add: valid_identifier_def source_name_char_def)
  obtain m w1 where m: "load_and_validate_folder_manifest E (lq_folder req) (lq_source req) w = (m, w1)"
    by (cases "load_and_validate_folder_manifest E (lq_folder req) (lq_source req) w")
  have root1: "fw_root w1 = fw_root w"
    using folder_manifest_root [of E "lq_folder req" "lq_source req" w] m by simp
  show ?thesis
  proof (cases m)
    case (Inl e)
    with assms(2) m root1 show ?thesis by (intro same) (simp add: install_files_swap)
  next
    case (Inr m')
    obtain d w2 where d: "content_digest (le_fs E) (le_hash E) (lq_folder req) w1 = (d, w2)"
      by (cases "content_digest (le_fs E) (le_hash E) (lq_folder req) w1")
    have root2: "fw_root w2 = fw_root w"
      using content_digest_root [of "le_fs E" "le_hash E" "lq_folder req" w1] d root1 by simp
    show ?thesis
    proof (cases d)
      case (Inl e)
      with assms(2) m Inr d root2 show ?thesis by (intro same) (simp add: install_files_swap)
    next
      case ok: (Inr d')
      have "swap_live E (lq_source req) (mf_name m') (\<lambda>_. False) (lq_folder req) (m', d') w2 = (res, w')"
        using assms(2) m Inr d ok by (simp add: install_files_swap)
      from swap_touches [OF _ this] assms(1) root2 same show ?thesis
        by (auto simp: fs_ok_def)
    qed
  qed
qed

lemma rollback_files_cases:
  assumes "fs_ok E w" "rollback_files E req w = (res, w')"
  obtains (early) e where "res = Inl e" "fw_root w' = fw_root w"
  | (swap) snap d w3 where "snapshot_path (le_data_dir E) (lr_source req) (lr_tool req) (lr_version req) = Inr snap"
      "fw_root w3 = fw_root w" "\<exists>L. tree_files (fw_root w) (resolve (le_fs E) snap) = Some L \<and> d = le_hash E (digest_input L)"
      "swap_live E (lr_source req) (lr_tool req) (\<lambda>v. v = lr_version req) snap d w3 = (res, w')"
proof -
  obtain l w1 where l: "locate_snapshot E (lr_source req) (lr_tool req) (lr_version req) w = (l, w1)"
    by (cases "locate_snapshot E (lr_source req) (lr_tool req) (lr_version req) w")
  have root1: "fw_root w1 = fw_root w"
    using locate_snapshot_root [of E "lr_source req" "lr_tool req" "lr_version req" w] l by simp
  show thesis
  proof (cases l)
    case (Inl e)
    with assms(2) l root1 show thesis by (intro early) (auto simp: rollback_files_swap)
  next
    case (Inr snap)
    have path: "snapshot_path (le_data_dir E) (lr_source req) (lr_tool req) (lr_version req) = Inr snap"
      using l Inr by (auto simp: locate_snapshot_def split: sum.splits prod.splits)
    obtain v w2 where v: "verify_snapshot_manifest E snap req w1 = (v, w2)"
      by (cases "verify_snapshot_manifest E snap req w1")
    have root2: "fw_root w2 = fw_root w"
      using verify_snapshot_manifest_root [of E snap req w1] v root1 by simp
    obtain d w3 where d: "content_digest (le_fs E) (le_hash E) snap w2 = (d, w3)"
      by (cases "content_digest (le_fs E) (le_hash E) snap w2")
    have root3: "fw_root w3 = fw_root w"
      using content_digest_root [of "le_fs E" "le_hash E" snap w2] d root2 by simp
    show thesis
    proof (cases "\<exists>e. v = Inl e \<or> d = Inl e")
      case True
      with assms(2) l Inr v d root2 root3 show thesis
        by (cases v) (auto simp: rollback_files_swap intro: early)
    next
      case False
      then obtain d' where vd: "v = Inr ()" "d = Inr d'"
        by (cases v; cases d) auto
      have "swap_live E (lr_source req) (lr_tool req) (\<lambda>v. v = lr_version req) snap d' w3 = (res, w')"
        using assms(2) l Inr v d vd by (simp add: rollback_files_swap)
      moreover have "\<exists>L. tree_files (fw_root w) (resolve (le_fs E) snap) = Some L \<and> d' = le_hash E (digest_input L)"
        using content_digest_Inr [OF d [unfolded vd]] root2 by simp
      ultimately show thesis
        using path root3 by (intro swap)
    qed
  qed
qed

lemma announce_fs [simp]: "lp_fs (snd (announce_patch E mk w)) = lp_fs w"
  by (simp add: announce_patch_def Let_def)

lemma install_fs:
  "lp_fs (snd (install E req w)) = lp_fs w \<or> (\<exists>res. install_files E req (lp_fs w) = (res, lp_fs (snd (install E req w))))"
  by (cases "install_files E req (lp_fs w)")
    (auto simp: install_def split: option.split sum.split prod.split)

lemma rollback_fs:
  "lp_fs (snd (rollback E req w)) = lp_fs w \<or> (\<exists>res. rollback_files E req (lp_fs w) = (res, lp_fs (snd (rollback E req w))))"
  by (cases "rollback_files E req (lp_fs w)")
    (auto simp: rollback_def split: option.split sum.split prod.split)

text \<open>
  C27: a local patch writes to the live tree and the history of one tool of its source and nowhere else,
  whatever calls fail half-way: at any other path there is afterwards what was there before, but for
  directories made on the way.
\<close>

theorem patch_touches_only_its_tool:
  assumes "fs_ok E (lp_fs w)"
  shows "(\<exists>t. valid_identifier t
      \<and> touches E (lq_source req) t (fw_root (lp_fs w)) (fw_root (lp_fs (snd (install E req w)))))
    \<and> touches E (lr_source u) (lr_tool u) (fw_root (lp_fs w)) (fw_root (lp_fs (snd (rollback E u w))))"
proof
  have "\<exists>t. valid_identifier t \<and> touches E (lq_source req) t r r" for r
    by (intro exI [of _ "''x''"]) (simp add: valid_identifier_def source_name_char_def)
  then show "\<exists>t. valid_identifier t
      \<and> touches E (lq_source req) t (fw_root (lp_fs w)) (fw_root (lp_fs (snd (install E req w))))"
    using install_fs [of E req w] install_files_touches [OF assms] by metis
  show "touches E (lr_source u) (lr_tool u) (fw_root (lp_fs w)) (fw_root (lp_fs (snd (rollback E u w))))"
    using rollback_fs [of E u w]
  proof
    assume "\<exists>res. rollback_files E u (lp_fs w) = (res, lp_fs (snd (rollback E u w)))"
    then obtain res where "rollback_files E u (lp_fs w) = (res, lp_fs (snd (rollback E u w)))" by blast
    from assms this show ?thesis
    proof (cases rule: rollback_files_cases)
      case (swap snap d w3)
      with swap_touches [OF _ swap(4)] assms show ?thesis by (simp add: fs_ok_def)
    qed simp
  qed simp
qed

section \<open>What is published\<close>

text \<open>The manifest among the regular files of a tree.\<close>

definition files_manifest :: "patch_env \<Rightarrow> string \<Rightarrow> walk_entry list \<Rightarrow> manifest option" where
  "files_manifest E s L =
     (case map_of L [''manifest.json''] of
        None \<Rightarrow> None
      | Some (raw, x) \<Rightarrow> (case load_manifest (le_json E) (\<lambda>_. Inr raw) [] s of Inl _ \<Rightarrow> None | Inr m \<Rightarrow> Some m))"

lemma load_manifest_dir: "load_manifest J (\<lambda>_. raw) d s = load_manifest J (\<lambda>_. raw) [] s"
  by (simp add: load_manifest_def)

lemma tree_files_lookup:
  assumes "wf_node r" "tree_files r p = Some L" "n \<noteq> []"
  shows "map_of L n = Some (c, x) \<longleftrightarrow> kind_at r (p @ n) = Some (EFile c x)"
proof -
  obtain es where es: "node_at r p = Some (Dir es)" "L = walk_list es"
    using assms(2) by (auto simp: tree_files_Some)
  have wf: "wf_node (Dir es)"
    using es(1) assms(1) by (rule wf_node_at)
  show ?thesis
    using walk_list_kind [OF wf] walk_list_distinct [OF wf] assms(3) kind_at_append [OF es(1)] by (simp add: es(2))
qed

lemma load_manifest_from_Inr:
  assumes "fs_ok E w" "load_manifest_from E dir s w = (Inr m, w')" "dir \<noteq> []"
    "tree_files (fw_root w) (resolve (le_fs E) dir) = Some L"
  shows "files_manifest E s L = Some m"
proof -
  let ?p = "path_join [dir, ''manifest.json'']"
  obtain raw w1 where raw: "fs_read_file (le_fs E) ?p w = (raw, w1)"
    by (cases "fs_read_file (le_fs E) ?p w")
  have m: "load_manifest (le_json E) (\<lambda>_. raw) dir s = Inr m"
    using assms(2) raw by (auto simp: load_manifest_from_def split: if_splits)
  then obtain c where c: "raw = Inr c"
    by (auto simp: load_manifest_def split: if_splits sum.splits)
  have "resolve (le_fs E) ?p = resolve (le_fs E) dir @ [''manifest.json'']"
    using assms(3) by (intro resolve_join) simp_all
  then obtain x where "kind_at (fw_root w) (resolve (le_fs E) dir @ [''manifest.json'']) = Some (EFile c x)"
    using raw c by (auto simp: fs_read_file_def fs_call_def split: option.splits entry.splits)
  then have "map_of L [''manifest.json''] = Some (c, x)"
    using assms(1) tree_files_lookup [OF _ assms(4), of "[''manifest.json'']" c x] by (simp add: fs_ok_def)
  with m c load_manifest_dir [of "le_json E" "Inr c" dir s] show ?thesis
    by (simp add: files_manifest_def)
qed

lemma folder_manifest_Inr:
  assumes "load_and_validate_folder_manifest E dir s w = (Inr m, w')"
  shows "load_manifest_from E dir s w = (Inr m, w') \<and> valid_identifier (mf_name m) \<and> valid_version (mf_version m)"
  using assms by (auto simp: load_and_validate_folder_manifest_def split: prod.splits sum.splits if_splits)

text \<open>What an install that returns an event has done, when its folder lies apart from the tool it replaces.\<close>

definition install_apart :: "patch_env \<Rightarrow> patch_request \<Rightarrow> string \<Rightarrow> bool" where
  "install_apart E req t \<longleftrightarrow>
     (\<forall>p \<in> {live_at E (lq_source req) t} \<union> range (\<lambda>v. history_at E (lq_source req) t @ [v]).
        apart p (resolve (le_fs E) (lq_folder req)))"

lemma install_event:
  assumes "fst (fst (install E req w)) = Some ev"
  obtains m w1 w2 operator where "install_validate req = None" "le_ctx_err E = None"
    "resolve_local_source E (lq_source req) = None" "resolve_operator E (lq_hint req) = Inr operator"
    "load_and_validate_folder_manifest E (lq_folder req) (lq_source req) (lp_fs w) = (Inr m, w1)"
    "content_digest (le_fs E) (le_hash E) (lq_folder req) w1 = (Inr (va_diff_hash ev), w2)"
    "swap_live E (lq_source req) (mf_name m) (\<lambda>_. False) (lq_folder req) (m, va_diff_hash ev) w2
       = (Inr (m, va_diff_hash ev), lp_fs (snd (install E req w)))"
    "va_source ev = lq_source req" "va_tool ev = mf_name m" "va_version ev = mf_version m"
    "lp_published (snd (install E req w)) = lp_published w @ [ev]" "fw_root w2 = fw_root (lp_fs w)"
proof -
  obtain res fs where files: "install_files E req (lp_fs w) = (res, fs)"
    by (cases "install_files E req (lp_fs w)")
  obtain m d where md: "res = Inr (m, d)"
    using assms files by (cases res) (auto simp: install_def split: option.splits sum.splits)
  have ev: "va_source ev = lq_source req" "va_tool ev = mf_name m" "va_version ev = mf_version m" "va_diff_hash ev = d"
    and out: "lp_fs (snd (install E req w)) = fs" "lp_published (snd (install E req w)) = lp_published w @ [ev]"
    using assms files md by (auto simp: install_def announce_patch_def Let_def split: option.splits sum.splits)
  obtain operator where pre: "install_validate req = None" "le_ctx_err E = None"
    "resolve_local_source E (lq_source req) = None" "resolve_operator E (lq_hint req) = Inr operator"
    using assms by (auto simp: install_def split: option.splits sum.splits)
  from files [unfolded md] show thesis
  proof (rule install_files_Inr)
    fix w1 w2
    assume steps: "load_and_validate_folder_manifest E (lq_folder req) (lq_source req) (lp_fs w) = (Inr m, w1)"
      "content_digest (le_fs E) (le_hash E) (lq_folder req) w1 = (Inr d, w2)"
      "swap_live E (lq_source req) (mf_name m) (\<lambda>_. False) (lq_folder req) (m, d) w2 = (Inr (m, d), fs)"
    have "fw_root w2 = fw_root (lp_fs w)"
      using folder_manifest_root [of E "lq_folder req" "lq_source req" "lp_fs w"] steps(1)
        content_digest_root [of "le_fs E" "le_hash E" "lq_folder req" w1] steps(2) by simp
    with that [OF pre steps(1)] steps(2,3) ev out show thesis
      by simp
  qed
qed

lemma install_leaves:
  assumes "fs_ok E (lp_fs w)" "fst (fst (install E req w)) = Some ev" "install_apart E req (va_tool ev)"
  obtains m L where "tree_files (fw_root (lp_fs (snd (install E req w)))) (live_at E (lq_source req) (va_tool ev)) = Some L"
    "files_manifest E (lq_source req) L = Some m" "mf_name m = va_tool ev" "mf_version m = va_version ev"
    "va_diff_hash ev = le_hash E (digest_input L)" "fs_ok E (lp_fs (snd (install E req w)))"
    "valid_version (va_version ev)"
  using assms(2)
proof (rule install_event)
  fix m w1 w2 operator
  assume steps: "load_and_validate_folder_manifest E (lq_folder req) (lq_source req) (lp_fs w) = (Inr m, w1)"
    "content_digest (le_fs E) (le_hash E) (lq_folder req) w1 = (Inr (va_diff_hash ev), w2)"
    "swap_live E (lq_source req) (mf_name m) (\<lambda>_. False) (lq_folder req) (m, va_diff_hash ev) w2
       = (Inr (m, va_diff_hash ev), lp_fs (snd (install E req w)))"
    and ev: "va_tool ev = mf_name m" "va_version ev = mf_version m" and root: "fw_root w2 = fw_root (lp_fs w)"
    and valid: "install_validate req = None"
  have root1: "fw_root w1 = fw_root (lp_fs w)"
    using folder_manifest_root [of E "lq_folder req" "lq_source req" "lp_fs w"] steps(1) by simp
  have ok: "fs_ok E w2"
    using assms(1) root by (simp add: fs_ok_def)
  have "lq_folder req \<noteq> []"
    using valid by (auto simp: install_validate_def refuse_def not_blank_not_Nil split: if_splits)
  obtain L where L: "tree_files (fw_root (lp_fs w)) (resolve (le_fs E) (lq_folder req)) = Some L"
      "va_diff_hash ev = le_hash E (digest_input L)"
    using content_digest_Inr [OF steps(2)] root1 by auto
  have far: "apart (live_at E (lq_source req) (mf_name m)) (resolve (le_fs E) (lq_folder req))"
    "\<And>v. apart (history_at E (lq_source req) (mf_name m) @ [v]) (resolve (le_fs E) (lq_folder req))"
    using assms(3) ev by (auto simp: install_apart_def)
  show thesis
    using swap_done [OF ok steps(3) far] swap_touches [OF ok steps(3)] L root ev folder_manifest_Inr [OF steps(1)]
      load_manifest_from_Inr [OF assms(1) _ \<open>lq_folder req \<noteq> []\<close> L(1)]
    by (intro that [of L m]) simp_all
qed

definition describes :: "patch_env \<Rightarrow> patch_event \<Rightarrow> patch_world \<Rightarrow> bool" where
  "describes E ev w \<longleftrightarrow> (\<exists>L. tree_files (fw_root (lp_fs w)) (live_at E (va_source ev) (va_tool ev)) = Some L
     \<and> va_diff_hash ev = le_hash E (digest_input L))"

lemma rollback_event:
  assumes "rollback_validate u = None" "le_ctx_err E = None" "resolve_local_source E (lr_source u) = None"
    "resolve_operator E (lr_hint u) = Inr operator" "rollback_files E u (lp_fs w) = (Inr d, fs)"
  shows "\<exists>ev. fst (fst (rollback E u w)) = Some ev \<and> va_diff_hash ev = d \<and> lp_fs (snd (rollback E u w)) = fs"
  using assms by (simp add: rollback_def announce_patch_def Let_def)

text \<open>
  C26: the event of a patch tells the truth. When an install or a rollback returns an event, the bus saw that
  event and no other, and its digest is the digest of the tree that is live. For an install that is so when
  the folder lies apart from the tool's live tree and its history, which \<open>Install\<close> does not check: the
  digest is taken before the old tree is removed, so a folder above it is announced with another tree's
  digest (\<open>folder_above_the_live_tree\<close>).
\<close>

theorem event_describes_live_tree:
  assumes "fs_ok E (lp_fs w)"
  shows "(fst (fst (install E req w)) = Some ev \<and> install_apart E req (va_tool ev)
        \<longrightarrow> describes E ev (snd (install E req w)) \<and> lp_published (snd (install E req w)) = lp_published w @ [ev])
    \<and> (fst (fst (rollback E u w)) = Some ev
        \<longrightarrow> describes E ev (snd (rollback E u w)) \<and> lp_published (snd (rollback E u w)) = lp_published w @ [ev])"
proof (intro conjI impI)
  assume a: "fst (fst (install E req w)) = Some ev \<and> install_apart E req (va_tool ev)"
  have src: "va_source ev = lq_source req" and "lp_published (snd (install E req w)) = lp_published w @ [ev]"
    using conjunct1 [OF a] by (rule install_event, blast)+
  then show "lp_published (snd (install E req w)) = lp_published w @ [ev]"
    by simp
  show "describes E ev (snd (install E req w))"
    using assms conjunct1 [OF a] conjunct2 [OF a] by (rule install_leaves) (auto simp: describes_def src)
next
  assume a: "fst (fst (rollback E u w)) = Some ev"
  obtain res fs where files: "rollback_files E u (lp_fs w) = (res, fs)"
    by (cases "rollback_files E u (lp_fs w)")
  obtain d where d: "res = Inr d"
    using a files by (cases res) (auto simp: rollback_def split: option.splits sum.splits)
  have ev: "va_source ev = lr_source u" "va_tool ev = lr_tool u" "va_diff_hash ev = d"
    and out: "lp_fs (snd (rollback E u w)) = fs" "lp_published (snd (rollback E u w)) = lp_published w @ [ev]"
    using a files d by (auto simp: rollback_def announce_patch_def Let_def split: option.splits sum.splits)
  from assms files show "describes E ev (snd (rollback E u w))"
  proof (cases rule: rollback_files_cases)
    case (swap snap d' w3)
    have at: "resolve (le_fs E) snap = history_at E (lr_source u) (lr_tool u) @ [lr_version u]"
      using snapshot_path_Inr [OF swap(1)] by (simp add: history_at_def)
    have ok: "fs_ok E w3"
      using assms swap(2) by (simp add: fs_ok_def)
    have "d = d' \<and> tree_files (fw_root fs) (live_at E (lr_source u) (lr_tool u)) = tree_files (fw_root w3) (resolve (le_fs E) snap)"
      using swap_done [OF ok swap(4) [unfolded d]] by (simp add: at)
    with swap(2,3) ev out show ?thesis
      by (auto simp: describes_def)
  qed (simp add: d)
  show "lp_published (snd (rollback E u w)) = lp_published w @ [ev]"
    by (rule out)
qed

section \<open>No tree is lost\<close>

definition stat_failed :: "patch_env \<Rightarrow> patch_request \<Rightarrow> fs_world \<Rightarrow> bool" where
  "stat_failed E req w =
     (case load_and_validate_folder_manifest E (lq_folder req) (lq_source req) w of
        (Inl _, _) \<Rightarrow> False
      | (Inr m, w1) \<Rightarrow>
          (case content_digest (le_fs E) (le_hash E) (lq_folder req) w1 of
             (Inl _, _) \<Rightarrow> False
           | (Inr _, w2) \<Rightarrow>
               (case live_tool_path (le_data_dir E) (lq_source req) (mf_name m) of
                  Inl _ \<Rightarrow> False
                | Inr live \<Rightarrow> (case fst (fs_stat (le_fs E) live w2) of Inl _ \<Rightarrow> True | Inr _ \<Rightarrow> False))))"

lemma swap_keeps:
  assumes "fs_ok E w" "swap_live E s t (\<lambda>_. False) src x w = (res, w')" "tree_files (fw_root w) (live_at E s t) = Some L"
    and "\<And>live w1. live_tool_path (le_data_dir E) s t = Inr live \<Longrightarrow> read_live_version E live s w \<noteq> (Inr None, w1)"
  shows "tree_files (fw_root w') (live_at E s t) = Some L
    \<or> (\<exists>live v w1. read_live_version E live s w = (Inr (Some v), w1) \<and> live_tool_path (le_data_dir E) s t = Inr live
        \<and> (kind_at (fw_root w) (history_at E s t @ [v]) = None \<and> tree_files (fw_root w') (history_at E s t @ [v]) = Some L
         \<or> kind_at (fw_root w) (history_at E s t @ [v]) \<noteq> None
             \<and> tree_files (fw_root w') (history_at E s t @ [v]) = tree_files (fw_root w) (history_at E s t @ [v])))"
proof -
  have read: "fs_ok E w1 \<and> fw_root w1 = fw_root w" if "read_live_version E live s w = (p, w1)" for live p w1
    using read_live_version_root [of E live s w] that fs_ok_same [of w1 w E] assms(1) by simp
  from assms(1,2) show ?thesis
  proof (cases rule: swap_cases)
    case (early e)
    with assms(3) show ?thesis by simp
  next
    case (snap live v w1 e)
    note 1 = snapshot_writes [OF _ snap(4)] and r = read [OF snap(2)]
    have "tree_files (fw_root w') (live_at E s t) = tree_files (fw_root w) (live_at E s t)"
      using 1 r assms(1) by (intro tree_files_apart [of _ _ "history_at E s t @ [v]"]) (auto simp: fs_ok_def)
    with assms(3) show ?thesis by simp
  next
    case (none live w1 r)
    with assms(4) show ?thesis by blast
  next
    case (skipped live v w1 r)
    then show ?thesis by simp
  next
    case (saved live v w1 b w2 r)
    note r = read [OF saved(2)]
    have 1: "fs_ok E w2"
      using snapshot_writes [OF _ saved(4)] r by simp
    have 2: "only_below (live_at E s t) (fw_root w2) (fw_root w')" "fs_ok E w'"
      using replacement_writes [OF 1 saved(5)] by simp_all
    have "tree_files (fw_root w') (history_at E s t @ [v]) = tree_files (fw_root w2) (history_at E s t @ [v])"
      using 1 2 by (intro tree_files_apart [of _ _ "live_at E s t"]) (auto simp: fs_ok_def)
    with snapshot_keeps [of E w1 s t v b w2 L] saved(1,2,4) r assms(3) show ?thesis
      by auto
  qed
qed

text \<open>What an install does to the files: nothing, or the common part for the tool its folder names.\<close>

lemma install_swaps:
  obtains "fw_root (lp_fs (snd (install E req w))) = fw_root (lp_fs w)"
  | m w1 d w2 res where "load_and_validate_folder_manifest E (lq_folder req) (lq_source req) (lp_fs w) = (Inr m, w1)"
      "content_digest (le_fs E) (le_hash E) (lq_folder req) w1 = (Inr d, w2)" "fw_root w2 = fw_root (lp_fs w)"
      "swap_live E (lq_source req) (mf_name m) (\<lambda>_. False) (lq_folder req) (m, d) w2 = (res, lp_fs (snd (install E req w)))"
proof -
  let ?s = "lq_source req"
  obtain m w1 where m: "load_and_validate_folder_manifest E (lq_folder req) ?s (lp_fs w) = (m, w1)"
    by (cases "load_and_validate_folder_manifest E (lq_folder req) ?s (lp_fs w)")
  obtain d w2 where d: "content_digest (le_fs E) (le_hash E) (lq_folder req) w1 = (d, w2)"
    by (cases "content_digest (le_fs E) (le_hash E) (lq_folder req) w1")
  have root: "fw_root w1 = fw_root (lp_fs w)" "fw_root w2 = fw_root (lp_fs w)"
    using folder_manifest_root [of E "lq_folder req" ?s "lp_fs w"] m
      content_digest_root [of "le_fs E" "le_hash E" "lq_folder req" w1] d by simp_all
  show thesis
  proof (cases "lp_fs (snd (install E req w)) = lp_fs w")
    case False
    then obtain res where "install_files E req (lp_fs w) = (res, lp_fs (snd (install E req w)))"
      using install_fs by blast
    with m d root that show thesis
      by (cases m; cases d) (auto simp: install_files_swap)
  qed (use that in simp)
qed

lemma touches_other_tool:
  assumes "touches E s t' r r'" "t' \<noteq> t" "wf_node r" "wf_node r'"
  shows "tree_files r' (live_at E s t) = tree_files r (live_at E s t)"
proof -
  have far: "apart (live_at E s t') (live_at E s t)" "apart (history_at E s t') (live_at E s t)"
    using assms(2) by (auto simp: apart_def live_at_def history_at_def)
  have "\<not> prefix p (live_at E s t @ x) \<and> \<not> strict_prefix (live_at E s t @ x) p" if "apart p (live_at E s t)" for p x
    using that by (auto simp: apart_def prefix_append strict_prefix_def dest: append_prefixD)
  with far assms(1) have "kind_at r' (live_at E s t @ x) = kind_at r (live_at E s t @ x)" for x
    by (auto simp: touches_def)
  with assms(3,4) show ?thesis
    by (rule tree_files_cong)
qed

lemma keeps_after_swap:
  assumes "fs_ok E (lp_fs w)" "tree_files (fw_root (lp_fs w)) (live_at E s t) = Some L" "s = lq_source req"
    and "\<not> stat_failed E req (lp_fs w)" "mf_name m = t"
    and "load_and_validate_folder_manifest E (lq_folder req) s (lp_fs w) = (Inr m, w1)"
    and "content_digest (le_fs E) (le_hash E) (lq_folder req) w1 = (Inr d, w2)" "fw_root w2 = fw_root (lp_fs w)"
    and "swap_live E s t (\<lambda>_. False) (lq_folder req) (m, d) w2 = (res, w')"
  shows "tree_files (fw_root w') (live_at E s t) = Some L
    \<or> (\<exists>live v w3. read_live_version E live s w2 = (Inr (Some v), w3) \<and> live_tool_path (le_data_dir E) s t = Inr live
        \<and> (kind_at (fw_root w2) (history_at E s t @ [v]) = None \<and> tree_files (fw_root w') (history_at E s t @ [v]) = Some L
         \<or> kind_at (fw_root w2) (history_at E s t @ [v]) \<noteq> None
             \<and> tree_files (fw_root w') (history_at E s t @ [v]) = tree_files (fw_root w2) (history_at E s t @ [v])))"
proof -
  have "read_live_version E live s w2 \<noteq> (Inr None, w3)" if "live_tool_path (le_data_dir E) s t = Inr live" for live w3
    using assms(3-7) that
    by (auto simp: stat_failed_def read_live_version_def split: prod.splits sum.splits if_splits)
  from swap_keeps [OF _ assms(9) _ this] assms(1,2,8) show ?thesis
    by (simp add: fs_ok_def)
qed

text \<open>
  C18: no install loses the tool it replaces. Whatever calls fail half-way, the tree that was live is
  afterwards live still, or it is complete in the snapshot of its version, or that version has an older
  snapshot, which is as it was. One failure is the exception: a \<open>Stat\<close> of the live tree that
  fails is taken for its absence.
\<close>

theorem install_keeps_prior_tree:
  assumes "fs_ok E (lp_fs w)" "tree_files (fw_root (lp_fs w)) (live_at E (lq_source req) t) = Some L"
    and "\<not> stat_failed E req (lp_fs w)" "root = fw_root (lp_fs w)" "root' = fw_root (lp_fs (snd (install E req w)))"
  shows "tree_files root' (live_at E (lq_source req) t) = Some L
    \<or> (\<exists>v live fs fs'. read_live_version E live (lq_source req) fs = (Inr (Some v), fs') \<and> fw_root fs = root
        \<and> resolve (le_fs E) live = live_at E (lq_source req) t
        \<and> tree_files root' (history_at E (lq_source req) t @ [v])
            = (if kind_at root (history_at E (lq_source req) t @ [v]) = None then Some L
               else tree_files root (history_at E (lq_source req) t @ [v])))"
proof -
  let ?s = "lq_source req"
  show ?thesis
  proof (rule install_swaps [of E req w])
    assume "fw_root (lp_fs (snd (install E req w))) = fw_root (lp_fs w)"
    with assms(2,4,5) show ?thesis by simp
  next
    fix m :: manifest and w1 d w2 and res :: "err_tree + manifest \<times> string"
    assume steps: "load_and_validate_folder_manifest E (lq_folder req) ?s (lp_fs w) = (Inr m, w1)"
      "content_digest (le_fs E) (le_hash E) (lq_folder req) w1 = (Inr d, w2)" "fw_root w2 = fw_root (lp_fs w)"
      "swap_live E ?s (mf_name m) (\<lambda>_. False) (lq_folder req) (m, d) w2 = (res, lp_fs (snd (install E req w)))"
    have ok: "fs_ok E w2"
      using assms(1) steps(3) by (simp add: fs_ok_def)
    show ?thesis
    proof (cases "mf_name m = t")
      case True
      from keeps_after_swap [OF assms(1,2) refl assms(3) True steps(1-3) steps(4) [unfolded True]] show ?thesis
      proof
        assume "tree_files (fw_root (lp_fs (snd (install E req w)))) (live_at E ?s t) = Some L"
        then show ?thesis by (simp add: assms(5))
      next
        assume "\<exists>live v w3. read_live_version E live ?s w2 = (Inr (Some v), w3) \<and> live_tool_path (le_data_dir E) ?s t = Inr live
          \<and> (kind_at (fw_root w2) (history_at E ?s t @ [v]) = None
               \<and> tree_files (fw_root (lp_fs (snd (install E req w)))) (history_at E ?s t @ [v]) = Some L
             \<or> kind_at (fw_root w2) (history_at E ?s t @ [v]) \<noteq> None
               \<and> tree_files (fw_root (lp_fs (snd (install E req w)))) (history_at E ?s t @ [v])
                   = tree_files (fw_root w2) (history_at E ?s t @ [v]))"
        then obtain live v w3 where v: "read_live_version E live ?s w2 = (Inr (Some v), w3)"
          "live_tool_path (le_data_dir E) ?s t = Inr live"
          "tree_files root' (history_at E ?s t @ [v])
            = (if kind_at root (history_at E ?s t @ [v]) = None then Some L else tree_files root (history_at E ?s t @ [v]))"
          using steps(3) by (auto simp: assms(4,5))
        with live_tool_path_Inr [OF v(2)] steps(3) show ?thesis
          by - (rule disjI2, rule exI [of _ v], rule exI [of _ live], rule exI [of _ w2], rule exI [of _ w3],
              simp add: live_at_def assms(4))
      qed
    next
      case False
      have "wf_node (fw_root w2)" "wf_node root'" "touches E ?s (mf_name m) (fw_root w2) root'"
        using swap_touches [OF ok steps(4)] ok assms(5) by (simp_all add: fs_ok_def)
      with touches_other_tool [OF _ False] steps(3) assms(2) have "tree_files root' (live_at E ?s t) = Some L"
        by simp
      then show ?thesis ..
    qed
  qed
qed

end
