(* ===== verification/LocalPatchRestore.thy ===== *)
theory LocalPatchRestore
  imports LocalPatchSafe
begin

text \<open>
  A rollback after two installs, with a file system on which no call fails: the steps that cannot then
  fail, and the round trip.
\<close>

section \<open>Without failing calls\<close>

definition no_faults :: "patch_env \<Rightarrow> bool" where
  "no_faults E \<longleftrightarrow> (\<forall>n. fe_fault (le_fs E) n = None)"

lemma fs_call_ok: "no_faults E \<Longrightarrow> fs_call (le_fs E) w = (None, w\<lparr>fw_calls := Suc (fw_calls w)\<rparr>)"
  by (simp add: fs_call_def no_faults_def)

lemma fs_stat_ok:
  assumes "no_faults E" "kind_at (fw_root w) (resolve (le_fs E) p) = Some k"
  shows "\<exists>w'. fs_stat (le_fs E) p w = (Inr k, w')"
  using assms by (simp add: fs_stat_def fs_call_ok)

lemma load_manifest_from_ok:
  assumes "no_faults E" "fs_ok E w" "tree_files (fw_root w) (resolve (le_fs E) dir) = Some L" "dir \<noteq> []"
    and "files_manifest E s L = Some m"
  shows "\<exists>w'. load_manifest_from E dir s w = (Inr m, w')"
proof -
  obtain c x where c: "map_of L [''manifest.json''] = Some (c, x)" "load_manifest (le_json E) (\<lambda>_. Inr c) [] s = Inr m"
    using assms(5) by (auto simp: files_manifest_def split: option.splits sum.splits)
  have "kind_at (fw_root w) (resolve (le_fs E) dir @ [''manifest.json'']) = Some (EFile c x)"
    using assms(2) tree_files_lookup [OF _ assms(3), of "[''manifest.json'']" c x] c(1) by (simp add: fs_ok_def)
  moreover have "resolve (le_fs E) (path_join [dir, ''manifest.json'']) = resolve (le_fs E) dir @ [''manifest.json'']"
    using assms(4) by (intro resolve_join) simp_all
  ultimately have "fs_read_file (le_fs E) (path_join [dir, ''manifest.json'']) w
      = (Inr c, w\<lparr>fw_calls := Suc (fw_calls w)\<rparr>)"
    using assms(1) by (simp add: fs_read_file_def fs_call_ok)
  moreover have "\<not> blank s"
    using c(2) by (auto simp: load_manifest_def)
  ultimately show ?thesis
    using c(2) load_manifest_dir [of "le_json E" "Inr c" dir s] by (simp add: load_manifest_from_def)
qed

lemma tree_files_dir: "tree_files r p = Some L \<Longrightarrow> kind_at r p = Some EDir"
  by (auto simp: tree_files_Some kind_at_def)

lemma read_live_version_ok:
  assumes "no_faults E" "fs_ok E w" "live_tool_path (le_data_dir E) s t = Inr live"
    and "tree_files (fw_root w) (live_at E s t) = Some L" "files_manifest E s L = Some m" "valid_version (mf_version m)"
  shows "\<exists>w'. read_live_version E live s w = (Inr (Some (mf_version m)), w')"
proof -
  have at: "resolve (le_fs E) live = live_at E s t" "live \<noteq> []"
    using live_tool_path_Inr [OF assms(3)] by (simp_all add: live_at_def)
  obtain w1 where w1: "fs_stat (le_fs E) live w = (Inr EDir, w1)"
    using fs_stat_ok [OF assms(1), of w live] tree_files_dir [OF assms(4)] at by auto
  have root: "fw_root w1 = fw_root w"
    using reads_root(1) [of "le_fs E" live w] w1 by simp
  obtain w2 where "load_manifest_from E live s w1 = (Inr m, w2)"
    using load_manifest_from_ok [OF assms(1), of w1 live L s m] assms(2,4,5) at root by (auto simp: fs_ok_def)
  with w1 assms(6) show ?thesis
    by (simp add: read_live_version_def)
qed

lemma not_blocked: "\<forall>q. prefix q p \<longrightarrow> kind_at t q \<in> {None, Some EDir} \<Longrightarrow> \<not> blocked t (p @ [v])"
proof (induction p arbitrary: t)
  case Nil
  then show ?case by (cases t) (auto split: option.split)
next
  case (Cons w p)
  obtain es where t: "t = Dir es"
    using Cons.prems [rule_format, of "[]"] by (cases t) simp_all
  show ?case
  proof (cases "map_of es w")
    case (Some n)
    have "\<forall>q. prefix q p \<longrightarrow> kind_at n q \<in> {None, Some EDir}"
    proof (intro allI impI)
      fix q assume "prefix q p"
      with Cons.prems [rule_format, of "w # q"] t Some show "kind_at n q \<in> {None, Some EDir}" by simp
    qed
    with Cons.IH t Some show ?thesis by simp
  qed (simp add: t)
qed

lemma snapshot_ok:
  assumes "no_faults E" "fs_ok E w" "\<not> blank (le_data_dir E)" "valid_identifier s" "valid_identifier t" "valid_version v"
    and "tree_files (fw_root w) (live_at E s t) = Some L"
    and "\<forall>q. prefix q (history_at E s t) \<longrightarrow> kind_at (fw_root w) q \<in> {None, Some EDir}"
  shows "\<exists>b w'. snapshot_of E s t v w = (Inr b, w')"
proof -
  obtain live where live: "live_tool_path (le_data_dir E) s t = Inr live"
    using live_tool_path_ok [OF assms(3-5)] by blast
  obtain snap where snap: "snapshot_path (le_data_dir E) s t v = Inr snap"
    using snapshot_path_ok [OF assms(3-6)] by blast
  have at: "resolve (le_fs E) live = live_at E s t" "resolve (le_fs E) snap = history_at E s t @ [v]" "snap \<noteq> []"
    using live_tool_path_Inr [OF live] snapshot_path_Inr [OF snap] by (simp_all add: live_at_def history_at_def)
  obtain w1 where w1: "fs_stat (le_fs E) live w = (Inr EDir, w1)"
    using fs_stat_ok [OF assms(1), of w live] tree_files_dir [OF assms(7)] at by auto
  have root1: "fw_root w1 = fw_root w"
    using reads_root(1) [of "le_fs E" live w] w1 by simp
  obtain k w2 where w2: "fs_stat (le_fs E) snap w1 = (k, w2)"
    by (cases "fs_stat (le_fs E) snap w1")
  have root2: "fw_root w2 = fw_root w"
    using reads_root(1) [of "le_fs E" snap w1] w2 root1 by simp
  show ?thesis
  proof (cases "kind_at (fw_root w) (history_at E s t @ [v])")
    case (Some x)
    then have "k = Inr x"
      using w2 root1 at assms(1) by (auto simp: fs_stat_def fs_call_ok)
    with live snap w1 w2 show ?thesis
      by (auto simp: snapshot_if_present_def)
  next
    case None
    have "\<not> blocked (fw_root w) (history_at E s t @ [v])"
      using not_blocked [of "history_at E s t" "fw_root w" v] assms(8) by simp
    with None have k: "k = Inl (sentinel ''fs.ErrNotExist'')"
      using w2 root1 at assms(1) by (auto simp: fs_stat_def fs_call_ok no_node_def)
    have "kind_at (fw_root w2) (resolve (le_fs E) snap @ r) = None" for r
      using nothing_below [OF None] root2 at(2) by simp
    moreover have "kind_at (fw_root w2) q \<in> {None, Some EDir}" if "prefix q (resolve (le_fs E) snap)" for q
      using that assms(8) None root2 at(2) by (auto simp: prefix_snoc)
    ultimately obtain w3 where "copy_tree (le_fs E) live snap LpErrSnapshotWrite w2 = (Inr (), w3)"
      using copy_tree_ok [of "le_fs E" w2 snap live L LpErrSnapshotWrite] assms(1,2,7) root2 at
      by (auto simp: fs_ok_def no_faults_def)
    with live snap w1 w2 k show ?thesis
      by (auto simp: snapshot_if_present_def)
  qed
qed

text \<open>
  The common part then runs to its end: the tree that was live is in the snapshot of its version, unless
  one was there.
\<close>

lemma swap_saves:
  assumes "no_faults E" "fs_ok E w" "swap_live E s t skip src x w = (Inr y, w')"
    and "tree_files (fw_root w) (live_at E s t) = Some L" "files_manifest E s L = Some m" "valid_version (mf_version m)"
    and "\<not> skip (mf_version m)" "h = history_at E s t @ [mf_version m]"
  shows "tree_files (fw_root w') h = (if kind_at (fw_root w) h = None then Some L else tree_files (fw_root w) h)"
proof -
  have version: "p = Some (mf_version m)"
    if "live_tool_path (le_data_dir E) s t = Inr live" "read_live_version E live s w = (Inr p, w1)" for live p w1
    using read_live_version_ok [OF assms(1,2) that(1) assms(4-6)] that(2) by auto
  from assms(2,3) show ?thesis
  proof (cases rule: swap_cases)
    case (saved live v w1 b w2 r)
    have v: "v = mf_version m"
      using version [OF saved(1,2)] by simp
    have 1: "fs_ok E w1" "fw_root w1 = fw_root w"
      using read_live_version_root [of E live s w] saved(2) assms(2) by (simp_all add: fs_ok_def)
    have 2: "fs_ok E w2"
      using snapshot_writes [OF 1(1) saved(4)] by simp
    have 3: "only_below (live_at E s t) (fw_root w2) (fw_root w')" "fs_ok E w'"
      using replacement_writes [OF 2 saved(5)] by simp_all
    have "tree_files (fw_root w') h = tree_files (fw_root w2) h"
      using 2 3 by (intro tree_files_apart [of _ _ "live_at E s t"]) (auto simp: fs_ok_def assms(8))
    then show ?thesis
      using snapshot_keeps [OF 1(1) saved(4), of L] assms(4) by (auto simp: 1(2) v assms(8))
  qed (use version assms(7) in blast)+
qed

lemma swap_runs:
  assumes "no_faults E" "fs_ok E w" "\<not> blank (le_data_dir E)" "valid_identifier s" "valid_identifier t"
    and "tree_files (fw_root w) (live_at E s t) = Some L" "files_manifest E s L = Some m" "valid_version (mf_version m)"
    and "\<not> skip (mf_version m)" "apart (live_at E s t) (resolve (le_fs E) src)"
    and "apart (history_at E s t @ [mf_version m]) (resolve (le_fs E) src)"
    and "tree_files (fw_root w) (resolve (le_fs E) src) = Some K"
    and "\<forall>q. prefix q (history_at E s t) \<longrightarrow> kind_at (fw_root w) q \<in> {None, Some EDir}"
  shows "\<exists>w'. swap_live E s t skip src x w = (Inr x, w')"
proof -
  obtain live where live: "live_tool_path (le_data_dir E) s t = Inr live"
    using live_tool_path_ok [OF assms(3-5)] by blast
  obtain w1 where w1: "read_live_version E live s w = (Inr (Some (mf_version m)), w1)"
    using read_live_version_ok [OF assms(1,2) live assms(6-8)] by blast
  have 1: "fs_ok E w1" "fw_root w1 = fw_root w"
    using read_live_version_root [of E live s w] w1 assms(2) by (simp_all add: fs_ok_def)
  obtain b w2 where w2: "snapshot_of E s t (mf_version m) w1 = (Inr b, w2)"
    using snapshot_ok [OF assms(1) 1(1) assms(3-5,8), of L] assms(6,13) 1(2) by auto
  have 2: "only_below (history_at E s t @ [mf_version m]) (fw_root w) (fw_root w2)" "fs_ok E w2"
    using snapshot_writes [OF 1(1) w2] 1(2) by simp_all
  have src: "tree_files (fw_root w2) (resolve (le_fs E) src) = Some K"
    using tree_files_apart [OF _ _ 2(1) assms(11)] assms(2,12) 2(2) by (simp add: fs_ok_def)
  have "kind_at (fw_root w2) (live_at E s t) = Some EDir"
    using tree_files_dir [OF assms(6)] only_below_apart [OF 2(1), of "live_at E s t" "[]"] by simp
  then have "\<forall>q. strict_prefix q (live_at E s t) \<longrightarrow> kind_at (fw_root w2) q \<in> {None, Some EDir}"
    using kind_at_prefix [of "fw_root w2" "live_at E s t"] by (simp add: strict_prefix_def)
  then obtain w3 where "replacement E s t src w2 = (Inr (), w3)"
    using replacement_ok [OF 2(2) _ assms(3-5,10) src] assms(1) by (auto simp: no_faults_def)
  with live w1 w2 assms(9) show ?thesis
    by (simp add: swap_live_def)
qed

section \<open>Rolling back\<close>

text \<open>The path of a snapshot has a character that is no space, so its digest is not refused.\<close>

lemma trim_by_chars: "set s \<subseteq> set (trim_by ps s) \<union> \<Union> (set ` set ps)"
proof (induction ps s rule: trim_by.induct)
  case (1 ps s)
  show ?case
  proof (cases "find (\<lambda>p. p \<noteq> [] \<and> prefix p s) ps")
    case (Some p)
    then have "p \<in> set ps" "s = p @ drop (length p) s"
      by (auto simp: find_Some_iff prefix_def)
    then have "set s \<subseteq> set (drop (length p) s) \<union> \<Union> (set ` set ps)"
      by (metis UN_upper Un_mono Un_commute order_refl set_append)
    with 1 [OF Some] Some show ?thesis
      by (subst trim_by.simps) auto
  qed (simp add: trim_by.simps [of ps s])
qed

lemma blank_chars: "blank s \<Longrightarrow> set s \<subseteq> \<Union> (set ` set space_encodings)"
  using trim_by_chars [of s space_encodings]
    trim_by_chars [of "rev (trim_by space_encodings s)" "map rev space_encodings"]
  by (auto simp: blank_def trim_space_def)

lemma version_start_no_space: "version_start c \<Longrightarrow> c \<notin> \<Union> (set ` set space_encodings)"
  by (auto simp: space_encodings_def version_start_def source_name_char_def)

lemma join_slash_chars: "w \<in> set ws \<Longrightarrow> set w \<subseteq> set (join_slash ws)"
  by (induction ws rule: join_slash.induct) auto

lemma snapshot_path_not_blank:
  assumes "snapshot_path d s t v = Inr p"
  shows "\<not> blank p"
proof
  assume "blank p"
  note valid = snapshot_path_Inr [OF assms]
  let ?b = "path_clean (path_join [d, ''_history''])"
  have p: "p = path_clean (path_join [?b, s, t, v])"
    using assms by (auto simp: snapshot_path_def below_parent_def Let_def split: if_splits option.splits)
  obtain q where q: "q = path_join [?b, s, t, v]" by blast
  have "path_words q = path_words ?b @ [s, t, v]"
    using path_join_words(2) [of ?b "[s, t, v]"] valid_names(2) [of s t v] valid path_clean_not_Nil by (simp add: q)
  then have "v \<in> set (path_words q)"
    by simp
  moreover have "p = path_string (is_rooted q) (path_words q)"
    by (simp add: p q path_clean_words)
  ultimately have "set v \<subseteq> set p"
    using join_slash_chars [of v "path_words q"] by (auto simp: path_string_def split: if_splits)
  moreover have "hd v \<in> set v" "version_start (hd v)"
    using valid by (auto simp: valid_version_def)
  ultimately show False
    using blank_chars [OF \<open>blank p\<close>] version_start_no_space [of "hd v"] by blast
qed

lemma verify_snapshot_manifest_ok:
  assumes "no_faults E" "fs_ok E w" "tree_files (fw_root w) (resolve (le_fs E) snap) = Some L" "snap \<noteq> []"
    and "files_manifest E (lr_source u) L = Some m" "mf_name m = lr_tool u" "mf_version m = lr_version u"
  shows "\<exists>w'. verify_snapshot_manifest E snap u w = (Inr (), w')"
  using load_manifest_from_ok [OF assms(1-5)] assms(6,7) by (auto simp: verify_snapshot_manifest_def)

lemma content_digest_ok:
  assumes "no_faults E" "\<not> blank p" "tree_files (fw_root w) (resolve (le_fs E) p) = Some L"
  shows "\<exists>w'. content_digest (le_fs E) h p w = (Inr (h (digest_input L)), w')"
  using walk_regular_files_ok [of "le_fs E" w "path_clean p" L] assms by (auto simp: content_digest_def no_faults_def)

lemma rollback_runs:
  assumes "no_faults E" "fs_ok E w" "\<not> blank (le_data_dir E)" "s = lr_source u" "t = lr_tool u" "v = lr_version u"
    and "valid_identifier s" "valid_identifier t" "valid_version v"
    and "tree_files (fw_root w) (history_at E s t @ [v]) = Some K" "files_manifest E s K = Some k"
    and "mf_name k = t" "mf_version k = v"
    and "tree_files (fw_root w) (live_at E s t) = Some L" "files_manifest E s L = Some m" "valid_version (mf_version m)"
    and "mf_version m \<noteq> v" "h = history_at E s t @ [mf_version m]"
  shows "\<exists>w'. rollback_files E u w = (Inr (le_hash E (digest_input K)), w')
    \<and> tree_files (fw_root w') (live_at E s t) = Some K
    \<and> tree_files (fw_root w') h = (if kind_at (fw_root w) h = None then Some L else tree_files (fw_root w) h)"
proof -
  obtain snap where snap: "snapshot_path (le_data_dir E) s t v = Inr snap"
    using snapshot_path_ok [OF assms(3,7-9)] by blast
  have at: "resolve (le_fs E) snap = history_at E s t @ [v]" "snap \<noteq> []" "\<not> blank snap"
    using snapshot_path_Inr [OF snap] snapshot_path_not_blank [OF snap] by (simp_all add: history_at_def)
  have dir: "kind_at (fw_root w) (history_at E s t @ [v]) = Some EDir"
    using assms(10) by (rule tree_files_dir)
  obtain w1 where w1: "fs_stat (le_fs E) snap w = (Inr EDir, w1)"
    using fs_stat_ok [OF assms(1), of w snap] dir at by auto
  have 1: "fw_root w1 = fw_root w" "fs_ok E w1"
    using reads_root(1) [of "le_fs E" snap w] w1 assms(2) by (simp_all add: fs_ok_def)
  obtain w2 where w2: "verify_snapshot_manifest E snap u w1 = (Inr (), w2)"
    using verify_snapshot_manifest_ok [OF assms(1) 1(2), of snap K u k] assms(4-6,10-13) at 1(1) by auto
  have 2: "fw_root w2 = fw_root w"
    using verify_snapshot_manifest_root [of E snap u w1] w2 1(1) by simp
  obtain w3 where w3: "content_digest (le_fs E) (le_hash E) snap w2 = (Inr (le_hash E (digest_input K)), w3)"
    using content_digest_ok [OF assms(1) at(3), of w2 K "le_hash E"] assms(10) at(1) 2 by auto
  have 3: "fw_root w3 = fw_root w" "fs_ok E w3"
    using content_digest_root [of "le_fs E" "le_hash E" snap w2] w3 2 assms(2) by (simp_all add: fs_ok_def)
  have "kind_at (fw_root w) q \<in> {None, Some EDir}" if "prefix q (history_at E s t)" for q
    using kind_at_prefix [OF dir, of q] that by (simp add: prefix_snoc)
  then obtain w4 where w4: "swap_live E s t (\<lambda>x. x = v) snap (le_hash E (digest_input K)) w3
      = (Inr (le_hash E (digest_input K)), w4)"
    using swap_runs [OF assms(1) 3(2) assms(3,7,8), of L m "\<lambda>x. x = v" snap K "le_hash E (digest_input K)"]
      assms(10,14-17) at(1) 3(1) by auto
  have "rollback_files E u w = (Inr (le_hash E (digest_input K)), w4)"
    using snap w1 w2 w3 w4 assms(4-6) by (simp add: rollback_files_swap locate_snapshot_def)
  moreover have "tree_files (fw_root w4) (live_at E s t) = Some K"
    using swap_done [OF 3(2) w4] assms(10) at(1) 3(1) by simp
  moreover have "tree_files (fw_root w4) h = (if kind_at (fw_root w) h = None then Some L else tree_files (fw_root w) h)"
    using swap_saves [OF assms(1) 3(2) w4, of L m h] assms(14-18) 3(1) by simp
  ultimately show ?thesis
    by blast
qed

text \<open>A rollback that returns an event has put the snapshot in the place of the live tree.\<close>

lemma rollback_brings_snapshot:
  assumes "fs_ok E (lp_fs w)" "fst (fst (rollback E u w)) = Some ev"
  shows "tree_files (fw_root (lp_fs (snd (rollback E u w)))) (live_at E (lr_source u) (lr_tool u))
    = tree_files (fw_root (lp_fs w)) (history_at E (lr_source u) (lr_tool u) @ [lr_version u])"
proof -
  obtain res fs where files: "rollback_files E u (lp_fs w) = (res, fs)"
    by (cases "rollback_files E u (lp_fs w)")
  obtain d where d: "res = Inr d"
    using assms(2) files by (cases res) (auto simp: rollback_def split: option.splits sum.splits)
  have out: "lp_fs (snd (rollback E u w)) = fs"
    using assms(2) files d by (auto simp: rollback_def announce_patch_def Let_def split: option.splits sum.splits)
  from assms(1) files show ?thesis
  proof (cases rule: rollback_files_cases)
    case (swap snap d' w3)
    have at: "resolve (le_fs E) snap = history_at E (lr_source u) (lr_tool u) @ [lr_version u]"
      using snapshot_path_Inr [OF swap(1)] by (simp add: history_at_def)
    have "fs_ok E w3"
      using assms(1) swap(2) by (simp add: fs_ok_def)
    from swap_done [OF this swap(4) [unfolded d]] swap(2) out show ?thesis
      by (simp add: at)
  qed (simp add: d)
qed

text \<open>
  C19: a rollback brings back what an install replaced. Take a file system on which no call fails, and two
  installs, the second of another version of the same tool, each from a folder that lies apart from the
  tool's live tree and its history. When version one had no snapshot before, a valid request to roll back to
  it succeeds: it returns the digest that the first install published, the live tree is file for file the
  one the first install left, and version two is in the history, complete, unless an older snapshot of it
  was. When version one had a snapshot already, the second install keeps that one, and it is its tree that a
  rollback brings back.
\<close>

theorem install_then_rollback_restores:
  assumes "no_faults E" "fs_ok E (lp_fs w)"
    and "fst (fst (install E a w)) = Some ev1" "install_apart E a (va_tool ev1)" "w1 = snd (install E a w)"
    and "fst (fst (install E b w1)) = Some ev2" "install_apart E b (va_tool ev2)" "w2 = snd (install E b w1)"
    and "lq_source b = lq_source a" "va_tool ev2 = va_tool ev1" "va_version ev2 \<noteq> va_version ev1"
    and "rollback_validate u = None" "lr_source u = lq_source a" "lr_tool u = va_tool ev1"
    and "lr_version u = va_version ev1" "lr_hint u = lq_hint a" "w3 = snd (rollback E u w2)"
    and "live = live_at E (lq_source a) (va_tool ev1)" "h1 = history_at E (lq_source a) (va_tool ev1) @ [va_version ev1]"
    and "h2 = history_at E (lq_source a) (va_tool ev1) @ [va_version ev2]"
  shows "if kind_at (fw_root (lp_fs w1)) h1 = None
    then \<exists>ev3 L L2. fst (fst (rollback E u w2)) = Some ev3 \<and> va_diff_hash ev3 = va_diff_hash ev1
      \<and> tree_files (fw_root (lp_fs w1)) live = Some L \<and> tree_files (fw_root (lp_fs w3)) live = Some L
      \<and> tree_files (fw_root (lp_fs w2)) live = Some L2
      \<and> tree_files (fw_root (lp_fs w3)) h2
          = (if kind_at (fw_root (lp_fs w2)) h2 = None then Some L2 else tree_files (fw_root (lp_fs w2)) h2)
    else tree_files (fw_root (lp_fs w2)) h1 = tree_files (fw_root (lp_fs w1)) h1
      \<and> (fst (fst (rollback E u w2)) \<noteq> None
          \<longrightarrow> tree_files (fw_root (lp_fs w3)) live = tree_files (fw_root (lp_fs w1)) h1)"
proof -
  let ?s = "lq_source a" and ?t = "va_tool ev1"
  obtain m1 L1 where 1: "tree_files (fw_root (lp_fs w1)) live = Some L1" "files_manifest E ?s L1 = Some m1"
    "mf_name m1 = ?t" "mf_version m1 = va_version ev1" "va_diff_hash ev1 = le_hash E (digest_input L1)"
    "fs_ok E (lp_fs w1)" "valid_version (va_version ev1)"
    unfolding assms(18) using install_leaves [OF assms(2-4)] assms(5) by metis
  obtain m2 L2 where 2: "tree_files (fw_root (lp_fs w2)) live = Some L2" "files_manifest E ?s L2 = Some m2"
    "mf_version m2 = va_version ev2" "fs_ok E (lp_fs w2)" "valid_version (va_version ev2)"
    unfolding assms(18) using install_leaves [OF 1(6) assms(6,7)] assms(8-10) by metis
  obtain operator where pre: "le_ctx_err E = None" "resolve_local_source E ?s = None"
    "resolve_operator E (lq_hint a) = Inr operator"
    using assms(3) by (rule install_event)
  obtain m :: manifest and d :: string and wb where swap: "swap_live E ?s ?t (\<lambda>_. False) (lq_folder b) (m, d) wb = (Inr (m, d), lp_fs w2)"
    and root: "fw_root wb = fw_root (lp_fs w1)"
    using assms(6)
  proof (rule install_event)
    fix m :: manifest and wb
    assume "swap_live E (lq_source b) (mf_name m) (\<lambda>_. False) (lq_folder b) (m, va_diff_hash ev2) wb
        = (Inr (m, va_diff_hash ev2), lp_fs (snd (install E b w1)))"
      "va_tool ev2 = mf_name m" "fw_root wb = fw_root (lp_fs w1)"
    with assms(8-10) show thesis by (intro that [of m "va_diff_hash ev2" wb]) simp_all
  qed
  have ok: "fs_ok E wb"
    using 1(6) root by (simp add: fs_ok_def)
  have saved: "tree_files (fw_root (lp_fs w2)) h1
      = (if kind_at (fw_root (lp_fs w1)) h1 = None then Some L1 else tree_files (fw_root (lp_fs w1)) h1)"
    using swap_saves [OF assms(1) ok swap, of L1 m1 h1] 1 root assms(18,19) by simp
  show ?thesis
  proof (cases "kind_at (fw_root (lp_fs w1)) h1 = None")
    case True
    obtain p where "live_tool_path (le_data_dir E) ?s ?t = Inr p"
      using swap by (cases "live_tool_path (le_data_dir E) ?s ?t") (simp_all add: swap_live_def)
    note valid = live_tool_path_Inr [OF this]
    obtain fs where fs: "rollback_files E u (lp_fs w2) = (Inr (le_hash E (digest_input L1)), fs)"
      "tree_files (fw_root fs) live = Some L1"
      "tree_files (fw_root fs) h2 = (if kind_at (fw_root (lp_fs w2)) h2 = None then Some L2 else tree_files (fw_root (lp_fs w2)) h2)"
      using rollback_runs [OF assms(1) 2(4), of ?s u ?t "va_version ev1" L1 m1 L2 m2 h2] valid saved 1 2 True assms(11,13-20)
      by auto
    from rollback_event [OF assms(12) pre(1) _ _ fs(1)] pre(2,3) assms(13,16,17) 1 2(1) fs True show ?thesis
      by auto
  next
    case False
    then show ?thesis
      using saved rollback_brings_snapshot [OF 2(4), of u] assms(13-15,17-19) by auto
  qed
qed

section \<open>A live tree without a manifest\<close>

lemma read_live_version_refuses:
  assumes "no_faults E" "live_tool_path (le_data_dir E) s t = Inr live"
    and "kind_at (fw_root w) (live_at E s t) \<noteq> None" "kind_at (fw_root w) (live_at E s t @ [''manifest.json'']) = None"
  shows "\<exists>e w'. read_live_version E live s w = (Inl e, w')"
proof -
  have at: "resolve (le_fs E) live = live_at E s t" "live \<noteq> []"
    using live_tool_path_Inr [OF assms(2)] by (simp_all add: live_at_def)
  obtain k w1 where w1: "fs_stat (le_fs E) live w = (Inr k, w1)"
    using fs_stat_ok [OF assms(1), of w live] assms(3) at by auto
  have root: "fw_root w1 = fw_root w"
    using reads_root(1) [of "le_fs E" live w] w1 by simp
  have "resolve (le_fs E) (path_join [live, ''manifest.json'']) = live_at E s t @ [''manifest.json'']"
    using at resolve_join [of live "[''manifest.json'']"] by simp
  then obtain e w2 where "fs_read_file (le_fs E) (path_join [live, ''manifest.json'']) w1 = (Inl e, w2)"
    using assms(1,4) root by (auto simp: fs_read_file_def fs_call_ok)
  with w1 show ?thesis
    by (auto simp: read_live_version_def load_manifest_from_def load_manifest_def)
qed

lemma swap_refuses:
  assumes "no_faults E" "fs_ok E w" "swap_live E s t skip src x w = (res, w')"
    and "kind_at (fw_root w) (live_at E s t) \<noteq> None" "kind_at (fw_root w) (live_at E s t @ [''manifest.json'']) = None"
  shows "(\<exists>e. res = Inl e) \<and> fw_root w' = fw_root w"
proof -
  have "read_live_version E live s w \<noteq> (Inr p, w1)" if "live_tool_path (le_data_dir E) s t = Inr live" for live p w1
    using read_live_version_refuses [OF assms(1) that assms(4,5)] by auto
  with assms(2,3) show ?thesis
    by (cases rule: swap_cases) blast+
qed

text \<open>
  A live tree that has no manifest is left alone. Where the directory of a tool is there without a
  \<open>manifest.json\<close>, no install of that tool succeeds, and a rollback of the tool is refused and changes no
  file: not even a snapshot that is complete is put back.
\<close>

theorem live_tree_without_manifest_refused:
  assumes "no_faults E" "fs_ok E (lp_fs w)" "kind_at (fw_root (lp_fs w)) (live_at E s t) \<noteq> None"
    and "kind_at (fw_root (lp_fs w)) (live_at E s t @ [''manifest.json'']) = None"
  shows "(fst (fst (install E req w)) = Some ev \<and> lq_source req = s \<longrightarrow> va_tool ev \<noteq> t)
    \<and> (lr_source u = s \<and> lr_tool u = t \<longrightarrow> fst (fst (rollback E u w)) = None
         \<and> fw_root (lp_fs (snd (rollback E u w))) = fw_root (lp_fs w))"
proof (intro conjI impI notI)
  assume a: "fst (fst (install E req w)) = Some ev \<and> lq_source req = s" and t: "va_tool ev = t"
  show False
    using conjunct1 [OF a]
  proof (rule install_event)
    fix m :: manifest and w2
    assume swap: "swap_live E (lq_source req) (mf_name m) (\<lambda>_. False) (lq_folder req) (m, va_diff_hash ev) w2
        = (Inr (m, va_diff_hash ev), lp_fs (snd (install E req w)))"
      and tool: "va_tool ev = mf_name m" and root: "fw_root w2 = fw_root (lp_fs w)"
    have "fs_ok E w2"
      using assms(2) root by (simp add: fs_ok_def)
    with swap_refuses [OF assms(1) _ swap] assms(3,4) a t tool root show False
      by simp
  qed
next
  assume u: "lr_source u = s \<and> lr_tool u = t"
  obtain res fs where files: "rollback_files E u (lp_fs w) = (res, fs)"
    by (cases "rollback_files E u (lp_fs w)")
  have "(\<exists>e. res = Inl e) \<and> fw_root fs = fw_root (lp_fs w)"
    using assms(2) files
  proof (cases rule: rollback_files_cases)
    case (swap snap d w3)
    then have "fs_ok E w3"
      using assms(2) by (simp add: fs_ok_def)
    with swap_refuses [OF assms(1) _ swap(4)] swap(2) assms(3,4) u show ?thesis
      by simp
  qed simp
  with files show "fst (fst (rollback E u w)) = None" "fw_root (lp_fs (snd (rollback E u w))) = fw_root (lp_fs w)"
    by (auto simp: rollback_def split: option.split sum.split)
qed

end
