(* ===== verification/LocalPatchDigest.thy ===== *)
theory LocalPatchDigest
  imports LocalPatchTree
begin

text \<open>
  What the digest of a folder covers: from the bytes that are hashed, the files can be read back, so two
  folders with different files are hashed as different bytes.
\<close>

lemma big_endian64_length [simp]: "length (big_endian64 n) = 8"
  by (simp add: big_endian64_def)

lemma big_endian64_byte:
  assumes "big_endian64 n = big_endian64 m" "i < 8"
  shows "n div 256 ^ i mod 256 = m div 256 ^ i mod 256"
proof -
  have "\<forall>j \<in> set [7, 6, 5, 4, 3, 2, 1, 0]. char_of (n div 256 ^ j) = (char_of (m div 256 ^ j) :: char)"
    using assms(1) unfolding big_endian64_def map_eq_conv .
  moreover have "i \<in> set [7, 6, 5, 4, 3, 2, 1, 0]"
    using assms(2) by (simp; linarith)
  ultimately have "of_char (char_of (n div 256 ^ i) :: char) = (of_char (char_of (m div 256 ^ i) :: char) :: nat)"
    by metis
  then show ?thesis
    by (simp only: of_char_of)
qed

lemma big_endian64_inj:
  assumes "n < 2 ^ 64" "m < 2 ^ 64" "big_endian64 n = big_endian64 m"
  shows "n = m"
proof -
  have "n div 256 ^ (8 - k) = m div 256 ^ (8 - k)" if "k \<le> 8" for k
    using that
  proof (induction k)
    case 0
    have "n div 256 ^ 8 = 0" "m div 256 ^ 8 = 0"
      using assms(1,2) by (simp_all add: div_eq_0_iff)
    then show ?case by simp
  next
    case (Suc k)
    let ?i = "8 - Suc k"
    have i: "8 - k = Suc ?i" "?i < 8"
      using Suc.prems by simp_all
    have split: "x div 256 ^ ?i = 256 * (x div 256 ^ (8 - k)) + x div 256 ^ ?i mod 256" for x :: nat
      unfolding i(1) power_Suc2 div_mult2_eq by simp
    show ?case
      using Suc big_endian64_byte [OF assms(3) i(2)] split [of n] split [of m] by simp
  qed
  from this [of 8] show ?thesis by simp
qed

lemma length_prefixed_inj:
  assumes "length a < 2 ^ 64" "length b < 2 ^ 64" "length_prefixed a @ x = length_prefixed b @ y"
  shows "a = b \<and> x = y"
proof -
  have "big_endian64 (length a) = big_endian64 (length b)" and rest: "a @ x = b @ y"
    using assms(3) by (simp_all add: length_prefixed_def append_eq_append_conv)
  then have "length a = length b"
    using big_endian64_inj assms(1,2) by blast
  with rest show ?thesis by simp
qed

text \<open>Paths and contents whose lengths fit into the eight bytes, with the paths that a walk reports.\<close>

definition walk_entry_fits :: "walk_entry \<Rightarrow> bool" where
  "walk_entry_fits e \<longleftrightarrow> fst e \<noteq> [] \<and> list_all name_ok (fst e)
     \<and> length (join_slash (fst e)) < 2 ^ 64 \<and> length (fst (snd e)) < 2 ^ 64"

lemma digest_record_inj:
  assumes "walk_entry_fits e" "walk_entry_fits e'" "digest_record e @ u = digest_record e' @ u'"
  shows "e = e' \<and> u = u'"
proof -
  obtain r c x r' c' x' where e: "e = (r, c, x)" "e' = (r', c', x')"
    by (cases e; cases e')
  have fits: "length (join_slash r) < 2 ^ 64" "length (join_slash r') < 2 ^ 64" "length c < 2 ^ 64" "length c' < 2 ^ 64"
    "split_slash (join_slash r) = r" "split_slash (join_slash r') = r'"
    using assms(1,2) split_slash_words by (simp_all add: e walk_entry_fits_def)
  have "join_slash r = join_slash r' \<and> [char_of (if x then 1 else 0 :: nat)] @ length_prefixed c @ u
      = [char_of (if x' then 1 else 0 :: nat)] @ length_prefixed c' @ u'"
    using assms(3) by (intro length_prefixed_inj fits) (simp add: e digest_record_def)
  moreover from this have "c = c' \<and> u = u'"
    using length_prefixed_inj [OF fits(3,4), of u u'] by simp
  moreover have "x = x'"
    using calculation(1) by (cases x; cases x') simp_all
  ultimately show ?thesis
    using fits(5,6) e by metis
qed

lemma digest_records_inj:
  assumes "\<forall>e \<in> set es. walk_entry_fits e" "\<forall>e \<in> set es'. walk_entry_fits e"
    "concat (map digest_record es) = concat (map digest_record es')"
  shows "es = es'"
  using assms
proof (induction es arbitrary: es')
  case Nil
  then show ?case
    by (cases es') (auto simp: digest_record_def length_prefixed_def split: prod.splits)
next
  case (Cons e es)
  show ?case
  proof (cases es')
    case Nil
    with Cons.prems show ?thesis
      by (auto simp: digest_record_def length_prefixed_def split: prod.splits)
  next
    case (Cons e' rest)
    with Cons.prems Cons.IH [of rest]
      digest_record_inj [of e e' "concat (map digest_record es)" "concat (map digest_record rest)"]
    show ?thesis by simp
  qed
qed

text \<open>
  C29: the digest covers every file. When the bytes that are hashed for two directories are the same, the
  directories have the same regular files: the same paths, each with the same content and the same
  executable bit; paths and contents are shorter than two to the sixty-fourth bytes.
\<close>

theorem digest_covers_every_file:
  assumes "wf_node r" "wf_node r'" "tree_files r p = Some L" "tree_files r' p' = Some L'"
    and "\<forall>e \<in> set L \<union> set L'. length (join_slash (fst e)) < 2 ^ 64 \<and> length (fst (snd e)) < 2 ^ 64"
  shows "digest_input L = digest_input L' \<longleftrightarrow> (\<forall>q c x. q \<noteq> [] \<longrightarrow>
    (kind_at r (p @ q) = Some (EFile c x) \<longleftrightarrow> kind_at r' (p' @ q) = Some (EFile c x)))"
proof -
  obtain es es' where es: "node_at r p = Some (Dir es)" "L = walk_list es"
    and es': "node_at r' p' = Some (Dir es')" "L' = walk_list es'"
    using assms(3,4) by (auto simp: tree_files_Some)
  have wf: "wf_node (Dir es)" "wf_node (Dir es')"
    using wf_node_at [OF es(1)] wf_node_at [OF es'(1)] assms(1,2) by blast+
  have same: "set L = set L' \<longleftrightarrow> (\<forall>q c x. q \<noteq> [] \<longrightarrow>
      (kind_at r (p @ q) = Some (EFile c x) \<longleftrightarrow> kind_at r' (p' @ q) = Some (EFile c x)))"
    by (simp add: set_eq_iff es(2) es'(2) walk_list_kind [OF wf(1)] walk_list_kind [OF wf(2)]
        kind_at_append [OF es(1)] kind_at_append [OF es'(1)]) blast
  have fits: "\<forall>e \<in> set L. walk_entry_fits e" "\<forall>e \<in> set L'. walk_entry_fits e"
    unfolding walk_entry_fits_def
    using assms(5) walk_list_names_ok [OF wf(1)] walk_list_names_ok [OF wf(2)] es(2) es'(2)
    by (metis UnI1 UnI2 prod.collapse)+
  have "L = L'" if "set L = set L'"
    unfolding es(2) es'(2)
  proof (rule walk_list_cong [OF wf])
    fix q :: "string list" and c x
    assume "q \<noteq> []"
    then show "kind_at (Dir es) q = Some (EFile c x) \<longleftrightarrow> kind_at (Dir es') q = Some (EFile c x)"
      using that walk_list_kind [OF wf(1), of q c x] walk_list_kind [OF wf(2), of q c x] by (simp add: es(2) es'(2))
  qed
  moreover have "set L = set L'" if "digest_input L = digest_input L'"
  proof -
    have "sort_key (\<lambda>e. join_slash (fst e)) L = sort_key (\<lambda>e. join_slash (fst e)) L'"
      using that fits by (intro digest_records_inj) (simp_all add: digest_input_def)
    then show ?thesis by (metis set_sort)
  qed
  ultimately show ?thesis
    using same by auto
qed

end
