(* ===== verification/LocalPatchWorld.thy ===== *)
theory LocalPatchWorld
  imports LocalPatchRestore LocalPatchDigest EffectiveToolset
begin

text \<open>
  Local patches on a small tree: two folders that hold two versions of a tool, installed one after the
  other and rolled back, and what a failing call leads to.
\<close>

section \<open>Two installs and a rollback\<close>

definition patch_root :: fsnode where
  "patch_root = Dir [(''data'', Dir []),
     (''one'', Dir [(''manifest.json'', File ''a1'' False), (''run.sh'', File ''old'' True)]),
     (''two'', Dir [(''lib'', Dir [(''x'', File ''y'' False)]), (''manifest.json'', File ''a2'' False)])]"

definition patch_fs :: "(nat \<Rightarrow> fs_fault option) \<Rightarrow> fs_env" where
  "patch_fs faults = \<lparr>fe_cwd = [], fe_fault = faults\<rparr>"

definition patch_demo_env :: "(nat \<Rightarrow> fs_fault option) \<Rightarrow> patch_env" where
  "patch_demo_env faults =
     \<lparr>le_fs = patch_fs faults, le_data_dir = ''/data'', le_lookup = (\<lambda>n. Inr (demo_source n)),
      le_operator = Inr, le_json = demo_json, le_hash = id, le_now = (\<lambda>n. time_unix (int n)),
      le_publish = (\<lambda>_. None), le_ctx_err = None\<rparr>"

definition patch_demo_world :: patch_world where
  "patch_demo_world = \<lparr>lp_fs = \<lparr>fw_root = patch_root, fw_calls = 0\<rparr>, lp_published = [], lp_clock = 0, lp_seq = 0\<rparr>"

definition patch_of :: "string \<Rightarrow> patch_request" where
  "patch_of folder = \<lparr>lq_source = ''s'', lq_folder = folder, lq_reason = ''fix'', lq_hint = ''op''\<rparr>"

definition undo_demo :: undo_request where
  "undo_demo = \<lparr>lr_source = ''s'', lr_tool = ''a'', lr_version = ''a1'', lr_reason = ''undo'', lr_hint = ''op''\<rparr>"

abbreviation calm :: patch_env where "calm \<equiv> patch_demo_env (\<lambda>_. None)"

definition patch_once :: patch_world where "patch_once = snd (install calm (patch_of ''/one'') patch_demo_world)"
definition patch_twice :: patch_world where "patch_twice = snd (install calm (patch_of ''/two'') patch_once)"

lemma patch_demo_live_path [simp]: "live_tool_path ''/data'' ''s'' ''a'' = Inr ''/data/tools/s/a''"
  by code_simp

lemma patch_demo_snapshot_path [simp]: "snapshot_path ''/data'' ''s'' ''a'' ''a1'' = Inr ''/data/_history/s/a/a1''"
  by code_simp

lemma patch_demo_snapshot_path2 [simp]: "snapshot_path ''/data'' ''s'' ''a'' ''a2'' = Inr ''/data/_history/s/a/a2''"
  by code_simp

lemma patch_demo_words [simp]:
  "path_words ''/one'' = [''one'']" "path_words ''/two'' = [''two'']"
  "path_words ''/data'' = [''data'']"
  "path_words ''/data/tools/s/a'' = [''data'', ''tools'', ''s'', ''a'']"
  "path_words ''/data/_history/s/a/a1'' = [''data'', ''_history'', ''s'', ''a'', ''a1'']"
  "path_words ''/data/_history/s/a/a2'' = [''data'', ''_history'', ''s'', ''a'', ''a2'']"
  by code_simp+

lemma patch_demo_names [simp]: "name_ok ''one''" "name_ok ''two''" "name_ok ''data''" "name_ok ''s''" "name_ok ''a''"
  "name_ok ''a1''" "name_ok ''a2''" "name_ok ''run.sh''" "name_ok ''lib''" "name_ok ''x''"
  by code_simp+

lemma patch_demo_resolve [simp]: "list_all name_ok (path_words p) \<Longrightarrow> resolve (patch_fs f) p = path_words p"
  by (simp add: resolve_def patch_fs_def clean_words_ok)

lemma patch_demo_valid [simp]: "install_validate (patch_of ''/one'') = None" "install_validate (patch_of ''/two'') = None"
  "rollback_validate undo_demo = None"
  by code_simp+

lemma patch_demo_preamble [simp]:
  "resolve_operator (patch_demo_env f) ''op'' = Inr ''op''" "resolve_local_source (patch_demo_env f) ''s'' = None"
  by (simp_all add: resolve_operator_def resolve_local_source_def patch_demo_env_def demo_source_def
      max_patch_name_length_def valid_operator_id_def source_name_char_def)

lemma patch_demo_env [simp]: "le_fs (patch_demo_env f) = patch_fs f" "le_data_dir (patch_demo_env f) = ''/data''"
  "le_ctx_err (patch_demo_env f) = None" "le_json (patch_demo_env f) = demo_json" "le_hash (patch_demo_env f) = id"
  "le_publish (patch_demo_env f) = (\<lambda>_. None)" "le_now (patch_demo_env f) = (\<lambda>n. time_unix (int n))"
  "fe_fault (patch_fs f) = f"
  by (simp_all add: patch_demo_env_def patch_fs_def)

lemma patch_demo_request [simp]: "lq_source (patch_of p) = ''s''" "lq_folder (patch_of p) = p" "lq_reason (patch_of p) = ''fix''"
  "lq_hint (patch_of p) = ''op''"
  by (simp_all add: patch_of_def)

lemma patch_demo_undo [simp]: "lr_source undo_demo = ''s''" "lr_tool undo_demo = ''a''" "lr_version undo_demo = ''a1''"
  "lr_hint undo_demo = ''op''"
  by (simp_all add: undo_demo_def)

lemma patch_demo_manifests [simp]:
  "load_manifest demo_json (\<lambda>_. Inr ''a1'') d ''s'' = Inr ((demo_manifest ''a'' ''a1'')\<lparr>mf_source := ''s''\<rparr>)"
  "load_manifest demo_json (\<lambda>_. Inr ''a2'') d ''s'' = Inr ((demo_manifest ''a'' ''a2'')\<lparr>mf_source := ''s''\<rparr>)"
  by (simp_all add: load_manifest_dir [of _ _ d]) code_simp+

lemma patch_demo_manifest_fields [simp]: "mf_name (demo_manifest n v) = n" "mf_version (demo_manifest n v) = v"
  by (simp_all add: demo_manifest_def)

lemma patch_demo_not_blank [simp]: "\<not> blank ''s''" "\<not> blank ''/one''" "\<not> blank ''/two''" "\<not> blank ''/data''"
  by code_simp+

lemma patch_demo_identifiers [simp]: "valid_identifier ''a''" "valid_identifier ''s''" "valid_version ''a1''" "valid_version ''a2''"
  by code_simp+

lemma patch_demo_one_name [simp]:
  assumes "p \<noteq> []" "name_ok n"
  shows "resolve E (path_dir (path_join [p, n])) = resolve E p" "resolve E (path_join [p, n]) = resolve E p @ [n]"
  using assms resolve_path_dir [of p "[n]"] resolve_join [of p "[n]"] by simp_all

lemma patch_demo_two_names [simp]:
  assumes "p \<noteq> []"
  shows "resolve E (path_dir (path_join [p, join_slash [''lib'', ''x'']])) = resolve E p @ [''lib'']"
    "resolve E (path_join [p, join_slash [''lib'', ''x'']]) = resolve E p @ [''lib'', ''x'']"
  using assms resolve_path_dir [of p "[''lib'', ''x'']"] resolve_join [of p "[''lib'', ''x'']"]
    path_join_one_word [of p "[''lib'', ''x'']"] by (simp_all del: join_slash.simps)

lemmas run_patch = install_def install_files_def load_and_validate_folder_manifest_def load_manifest_from_def
  fs_read_file_def fs_call_def content_digest_def walk_regular_files_def fs_read_dir_def read_live_version_def
  fs_stat_def snapshot_if_present_def copy_tree_def fs_mkdir_all_def fs_write_file_def replace_live_def
  fs_remove_all_def announce_patch_def max_patch_name_length_def no_node_def

definition one_files :: "walk_entry list" where
  "one_files = [([''manifest.json''], ''a1'', False), ([''run.sh''], ''old'', True)]"

definition two_files :: "walk_entry list" where
  "two_files = [([''lib'', ''x''], ''y'', False), ([''manifest.json''], ''a2'', False)]"

definition demo_patch_event :: "string \<Rightarrow> nat \<Rightarrow> walk_entry list \<Rightarrow> patch_event" where
  "demo_patch_event v n L = \<lparr>va_source = ''s'', va_tool = ''a'', va_version = v, va_operator = ''op'', va_reason = ''fix'',
     va_diff_hash = digest_input L, va_operation = OperationInstall, va_applied_at = time_unix (int n),
     va_correlation = (unix_nanos (time_unix (int n)), Suc n)\<rparr>"

lemma patch_demo_event_fields [simp]: "va_source (demo_patch_event v n L) = ''s''" "va_tool (demo_patch_event v n L) = ''a''"
  "va_version (demo_patch_event v n L) = v" "va_diff_hash (demo_patch_event v n L) = digest_input L"
  by (simp_all add: demo_patch_event_def)

lemma patch_demo_first: "fst (install calm (patch_of ''/one'') patch_demo_world) = (Some (demo_patch_event ''a1'' 0 one_files), None)"
  by (simp add: run_patch patch_demo_world_def patch_root_def Let_def demo_patch_event_def one_files_def
      del: join_slash.simps(3))

lemma patch_demo_second: "fst (install calm (patch_of ''/two'') patch_once) = (Some (demo_patch_event ''a2'' 1 two_files), None)"
  by (simp add: run_patch patch_once_def patch_demo_world_def patch_root_def Let_def demo_patch_event_def two_files_def
      del: join_slash.simps(3))

abbreviation with_data :: "(string \<times> fsnode) list \<Rightarrow> fsnode" where
  "with_data es \<equiv> Dir [(''data'', Dir es),
     (''one'', Dir [(''manifest.json'', File ''a1'' False), (''run.sh'', File ''old'' True)]),
     (''two'', Dir [(''lib'', Dir [(''x'', File ''y'' False)]), (''manifest.json'', File ''a2'' False)])]"

lemma patch_demo_once: "fw_root (lp_fs patch_once) = with_data [(''tools'', Dir [(''s'', Dir [(''a'',
    Dir [(''manifest.json'', File ''a1'' False), (''run.sh'', File ''old'' True)])])])]"
  by (simp add: run_patch patch_once_def patch_demo_world_def patch_root_def Let_def del: join_slash.simps(3))

lemma patch_demo_twice: "fw_root (lp_fs patch_twice) = with_data
    [(''_history'', Dir [(''s'', Dir [(''a'', Dir [(''a1'',
        Dir [(''manifest.json'', File ''a1'' False), (''run.sh'', File ''old'' True)])])])]),
     (''tools'', Dir [(''s'', Dir [(''a'', Dir [(''lib'', Dir [(''x'', File ''y'' False)]), (''manifest.json'', File ''a2'' False)])])])]"
  by (simp add: run_patch patch_twice_def patch_once_def patch_demo_world_def patch_root_def Let_def
      del: join_slash.simps(3))

lemma wf_demo: "wf_node (fw_root (lp_fs patch_once))" "wf_node (fw_root (lp_fs patch_demo_world))"
  by (simp_all add: patch_demo_once patch_demo_world_def patch_root_def)

lemma patch_demo_at [simp]: "live_at (patch_demo_env f) ''s'' ''a'' = [''data'', ''tools'', ''s'', ''a'']"
  "history_at (patch_demo_env f) ''s'' ''a'' = [''data'', ''_history'', ''s'', ''a'']"
  by (simp_all add: live_at_def history_at_def)

text \<open>A call that fails: the disk is full.\<close>

definition disk_full :: "nat \<Rightarrow> nat \<Rightarrow> fs_fault option" where
  "disk_full k n = (if n = k then Some \<lparr>ff_err = errors_new ''no space'', ff_torn = None, ff_gone = []\<rparr> else None)"

definition patch_fresh :: patch_world where
  "patch_fresh = patch_once\<lparr>lp_fs := (lp_fs patch_once)\<lparr>fw_calls := 0\<rparr>\<rparr>"

lemma patch_demo_fs_ok: "fs_ok (patch_demo_env (disk_full k)) (lp_fs patch_fresh)" "fs_ok calm (lp_fs patch_demo_world)"
  "fs_ok calm (lp_fs patch_once)" "no_faults calm"
  using wf_demo by (simp_all add: fs_ok_def patch_fresh_def disk_full_def no_faults_def) (simp_all add: patch_fs_def)

lemma patch_demo_apart: "install_apart (patch_demo_env f) (patch_of ''/one'') ''a''" "install_apart (patch_demo_env f) (patch_of ''/two'') ''a''"
  by (auto simp: install_apart_def apart_def)

lemma patch_touches_only_its_tool_witness:
  "(\<exists>t. valid_identifier t \<and> touches calm ''s'' t (fw_root (lp_fs patch_once)) (fw_root (lp_fs patch_twice)))
    \<and> fw_root (lp_fs patch_twice) \<noteq> fw_root (lp_fs patch_once)"
  using patch_touches_only_its_tool [OF patch_demo_fs_ok(3), of "patch_of ''/two''" undo_demo]
  by (simp add: patch_twice_def [symmetric]) (simp add: patch_demo_once patch_demo_twice)

lemma event_describes_live_tree_witness:
  "describes calm (demo_patch_event ''a2'' 1 two_files) patch_twice
    \<and> lp_published patch_twice = lp_published patch_once @ [demo_patch_event ''a2'' 1 two_files]"
  using event_describes_live_tree [OF patch_demo_fs_ok(3), of "patch_of ''/two''" "demo_patch_event ''a2'' 1 two_files" undo_demo]
    patch_demo_second patch_demo_apart(2) by (simp add: patch_twice_def)

lemma install_then_rollback_restores_witness:
  "\<exists>ev. fst (fst (rollback calm undo_demo patch_twice)) = Some ev \<and> va_diff_hash ev = digest_input one_files
    \<and> tree_files (fw_root (lp_fs (snd (rollback calm undo_demo patch_twice)))) [''data'', ''tools'', ''s'', ''a''] = Some one_files
    \<and> tree_files (fw_root (lp_fs (snd (rollback calm undo_demo patch_twice)))) [''data'', ''_history'', ''s'', ''a'', ''a2'']
        = Some two_files"
  using install_then_rollback_restores [OF patch_demo_fs_ok(4,2), of "patch_of ''/one''" "demo_patch_event ''a1'' 0 one_files"
      patch_once "patch_of ''/two''" "demo_patch_event ''a2'' 1 two_files" patch_twice undo_demo
      "snd (rollback calm undo_demo patch_twice)" "[''data'', ''tools'', ''s'', ''a'']"
      "[''data'', ''_history'', ''s'', ''a'', ''a1'']" "[''data'', ''_history'', ''s'', ''a'', ''a2'']"]
    patch_demo_first patch_demo_second patch_demo_apart [of "\<lambda>_. None"] patch_demo_once patch_demo_twice
  by (simp add: patch_once_def [symmetric] patch_twice_def [symmetric] tree_files_def one_files_def two_files_def)

lemma patch_demo_calls: "fw_root (lp_fs patch_fresh) = fw_root (lp_fs patch_once)" "fw_calls (lp_fs patch_fresh) = 0"
  by (simp_all add: patch_fresh_def)

text \<open>The disk runs full while the new tree is copied; the old one is in the history.\<close>

definition patch_torn :: patch_world where
  "patch_torn = snd (install (patch_demo_env (disk_full 32)) (patch_of ''/two'') patch_fresh)"

lemma patch_demo_torn: "fw_root (lp_fs patch_torn) = with_data
    [(''_history'', Dir [(''s'', Dir [(''a'', Dir [(''a1'',
        Dir [(''manifest.json'', File ''a1'' False), (''run.sh'', File ''old'' True)])])])]),
     (''tools'', Dir [(''s'', Dir [(''a'', Dir [(''lib'', Dir [(''x'', File ''y'' False)])])])])]"
  by (simp add: run_patch patch_torn_def disk_full_def patch_demo_calls patch_demo_once Let_def or_same_def
      del: join_slash.simps(3))

lemma install_keeps_prior_tree_witness:
  "tree_files (fw_root (lp_fs patch_torn)) [''data'', ''tools'', ''s'', ''a''] \<noteq> Some one_files
    \<and> (\<exists>v live fs fs'. read_live_version (patch_demo_env (disk_full 32)) live ''s'' fs = (Inr (Some v), fs')
        \<and> fw_root fs = fw_root (lp_fs patch_once)
        \<and> tree_files (fw_root (lp_fs patch_torn)) [''data'', ''_history'', ''s'', ''a'', v]
            = (if kind_at (fw_root (lp_fs patch_once)) [''data'', ''_history'', ''s'', ''a'', v] = None then Some one_files
               else tree_files (fw_root (lp_fs patch_once)) [''data'', ''_history'', ''s'', ''a'', v]))"
proof -
  let ?E = "patch_demo_env (disk_full 32)"
  have "tree_files (fw_root (lp_fs patch_fresh)) (live_at ?E (lq_source (patch_of ''/two'')) ''a'') = Some one_files"
    by (simp add: patch_demo_calls patch_demo_once tree_files_def one_files_def)
  moreover have "\<not> stat_failed ?E (patch_of ''/two'') (lp_fs patch_fresh)"
    by (simp add: stat_failed_def run_patch disk_full_def patch_demo_calls patch_demo_once)
  moreover have torn: "tree_files (fw_root (lp_fs patch_torn)) [''data'', ''tools'', ''s'', ''a''] \<noteq> Some one_files"
    by (simp add: patch_demo_torn tree_files_def one_files_def)
  ultimately show ?thesis
    using install_keeps_prior_tree [OF patch_demo_fs_ok(1) _ _ refl refl, of 32 "patch_of ''/two''" "''a''" one_files]
    by (simp only: patch_torn_def [symmetric] patch_demo_at patch_demo_request patch_demo_calls append.simps not_False_eq_True if_cancel simp_thms) blast
qed

text \<open>No later patch touches what the failed one left, not even the rollback to the snapshot.\<close>

lemma live_tree_without_manifest_refused_witness:
  "fst (fst (rollback calm undo_demo patch_torn)) = None
    \<and> fw_root (lp_fs (snd (rollback calm undo_demo patch_torn))) = fw_root (lp_fs patch_torn)
    \<and> tree_files (fw_root (lp_fs patch_torn)) [''data'', ''_history'', ''s'', ''a'', ''a1''] = Some one_files"
proof -
  have "fs_ok calm (lp_fs patch_torn)"
    by (simp add: fs_ok_def patch_demo_torn patch_demo_env_def patch_fs_def)
  from live_tree_without_manifest_refused [OF patch_demo_fs_ok(4) this, of "''s''" "''a''" "patch_of ''/two''" _ undo_demo]
  show ?thesis
    by (simp add: patch_demo_torn tree_files_def one_files_def)
qed

lemma digest_covers_every_file_witness:
  "digest_input one_files = digest_input one_files \<longleftrightarrow> (\<forall>q c x. q \<noteq> [] \<longrightarrow>
    (kind_at (fw_root (lp_fs patch_once)) ([''one''] @ q) = Some (EFile c x)
      \<longleftrightarrow> kind_at (fw_root (lp_fs patch_twice)) ([''data'', ''_history'', ''s'', ''a'', ''a1''] @ q) = Some (EFile c x)))"
proof -
  have "wf_node (fw_root (lp_fs patch_twice))"
    by (simp add: patch_demo_twice)
  then show ?thesis
    by (rule digest_covers_every_file [OF wf_demo(1)]) (simp_all add: patch_demo_once patch_demo_twice tree_files_def one_files_def)
qed

section \<open>What a failure can cost\<close>

text \<open>
  The disk runs full while the snapshot is copied. The install reports it, but what was copied stays, and
  the next install takes it for the snapshot: it removes the only complete copy of the tree.
\<close>

definition patch_half_saved :: patch_world where
  "patch_half_saved = snd (install (patch_demo_env (disk_full 20)) (patch_of ''/two'') patch_fresh)"

lemma partial_snapshot_is_taken_for_complete:
  "fst (fst (install (patch_demo_env (disk_full 20)) (patch_of ''/two'') patch_fresh)) = None
    \<and> tree_files (fw_root (lp_fs patch_half_saved)) [''data'', ''tools'', ''s'', ''a''] = Some one_files
    \<and> fst (fst (install calm (patch_of ''/two'') patch_half_saved)) \<noteq> None
    \<and> tree_files (fw_root (lp_fs (snd (install calm (patch_of ''/two'') patch_half_saved))))
        [''data'', ''_history'', ''s'', ''a'', ''a1''] = Some [([''manifest.json''], ''a1'', False)]
    \<and> tree_files (fw_root (lp_fs (snd (install calm (patch_of ''/two'') patch_half_saved))))
        [''data'', ''tools'', ''s'', ''a''] = Some two_files"
  by (simp add: run_patch patch_half_saved_def disk_full_def patch_demo_calls patch_demo_once Let_def or_same_def
      tree_files_def one_files_def two_files_def del: join_slash.simps(3))

text \<open>
  \<open>Install\<close> does not check that the folder lies apart from the tool it installs. For the directory
  above the live tree, with a manifest of the tool in it, the digest is taken while the old tree is still in the
  folder; then the tree is removed, and what is copied is the rest: the event describes no tree that is live.
\<close>

definition patch_above :: patch_world where
  "patch_above = patch_fresh\<lparr>lp_fs := (lp_fs patch_fresh)\<lparr>fw_root := Dir [(''data'', Dir [(''tools'',
     Dir [(''s'', Dir [(''a'', Dir [(''manifest.json'', File ''a1'' False)]), (''manifest.json'', File ''a2'' False)])])])]\<rparr>\<rparr>"

lemma patch_above_request [simp]: "install_validate (patch_of ''/data/tools/s'') = None" "\<not> blank ''/data/tools/s''"
  "path_words ''/data/tools/s'' = [''data'', ''tools'', ''s'']" "name_ok ''tools''"
  by code_simp+

lemma folder_above_the_live_tree:
  "\<exists>ev. fst (install calm (patch_of ''/data/tools/s'') patch_above) = (Some ev, None)
     \<and> va_diff_hash ev = digest_input [([''a'', ''manifest.json''], ''a1'', False), ([''manifest.json''], ''a2'', False)]
     \<and> tree_files (fw_root (lp_fs (snd (install calm (patch_of ''/data/tools/s'') patch_above))))
         (live_at calm ''s'' ''a'') = Some [([''manifest.json''], ''a2'', False)]"
  by (simp add: run_patch patch_above_def patch_demo_calls Let_def tree_files_def del: join_slash.simps(3))

text \<open>
  A \<open>Stat\<close> of the live tree that fails is taken for its absence: the tree is replaced, and no snapshot
  of it is made.
\<close>

lemma unseen_tree_is_overwritten:
  "tree_files (fw_root (lp_fs patch_fresh)) [''data'', ''tools'', ''s'', ''a''] = Some one_files
    \<and> fst (fst (install (patch_demo_env (disk_full 7)) (patch_of ''/two'') patch_fresh)) \<noteq> None
    \<and> tree_files (fw_root (lp_fs (snd (install (patch_demo_env (disk_full 7)) (patch_of ''/two'') patch_fresh))))
        [''data'', ''tools'', ''s'', ''a''] = Some two_files
    \<and> kind_at (fw_root (lp_fs (snd (install (patch_demo_env (disk_full 7)) (patch_of ''/two'') patch_fresh))))
        [''data'', ''_history''] = None"
  by (simp add: run_patch disk_full_def patch_demo_calls patch_demo_once Let_def or_same_def
      tree_files_def one_files_def two_files_def del: join_slash.simps(3))

end
