(* ===== verification/Spec2Isabelle.thy ===== *)
theory Spec2Isabelle
  imports PendingApproval Capability EventBusShutdown Outbox ToolDecision ToolSync DryRun SpawnSteps CostWorld StreamWorld LocalPatchWorld
begin

text \<open>
  Verification library of the Watchkeeper core (\<^verbatim>\<open>core/pkg\<close> and \<^verbatim>\<open>core/internal/keep\<close>, Go).

  \<^bold>\<open>The program.\<close> Watchkeeper runs agents for a tenant. An operator approves the creation or the
  retirement of an agent, or a tool an agent proposes, by a button on a Slack card or by a webhook; an
  approval starts a saga of provisioning steps that are compensated when one fails. Parts talk through
  an in-process event bus, fed from the server's outbox, and act under short-lived capability tokens;
  every decision is a row of an audit log. A tool is served from the directories of the configured
  sources, which a scheduler keeps in sync; before it is approved it can be tried in a dry run. Agents,
  their manifests, the humans who lead them, the audit log and the shared knowledge are tables of the
  Keep, a REST server over Postgres; an agent of its own, the Watchmaster, manages the others through
  privileged tools that call the Keep.

  \<^bold>\<open>Theories and sources.\<close>
    \<^item> \<open>Prelude\<close>: Go errors with their wrap chains (\<open>errors.Is\<close>, \<open>errors.As\<close>), contexts, byte strings
      with \<open>strings.TrimSpace\<close> and runes, \<open>int64\<close> with wrap-around, wall-clock time.
    \<^item> \<open>KeepersLog\<close>: audit rows and the appender the components write to
      (\<^verbatim>\<open>core/pkg/keeperslog\<close>, seen from outside).
    \<^item> \<open>Saga\<close>: \<^verbatim>\<open>core/pkg/spawn/saga\<close>. The row store of \<^verbatim>\<open>dao_memory.go\<close> (two maps, one write per
      step), and \<open>Runner.Run\<close> with its rollback over any store that satisfies \<open>spawn_saga_dao\<close>.
    \<^item> \<open>SpawnKickoff\<close>: \<^verbatim>\<open>spawnkickoff.go\<close>, \<^verbatim>\<open>retirekickoff.go\<close>. \<open>Kickoff\<close> as two halves around the
      idempotent insertion, so that two calls for one token can be interleaved.
    \<^item> \<open>SpawnSteps\<close>: the step bodies \<^verbatim>\<open>createapp_step.go\<close>, \<^verbatim>\<open>oauthinstall_step.go\<close>,
      \<^verbatim>\<open>botprofile_step.go\<close>, \<^verbatim>\<open>notebookprovision_step.go\<close>, \<^verbatim>\<open>runtimelaunch_step.go\<close>,
      \<^verbatim>\<open>notebookarchive_step.go\<close>, \<^verbatim>\<open>markretired_step.go\<close>, and the credential store
      \<^verbatim>\<open>watchkeeper_creds_memory.go\<close>; every call of a platform seam is recorded.
    \<^item> \<open>PendingApproval\<close>: \<^verbatim>\<open>pending_approval_memory.go\<close>, the action ids of \<^verbatim>\<open>cards/card.go\<close>, and
      \<open>DispatchInteraction\<close> of \<^verbatim>\<open>messenger/slack/inbound/approval/dispatcher.go\<close>.
    \<^item> \<open>Capability\<close>: \<^verbatim>\<open>capability/broker.go\<close>. \<open>Issue\<close>, \<open>IssueForOrg\<close>, \<open>Validate\<close>, \<open>ValidateForOrg\<close>,
      \<open>Revoke\<close>, the reaper and \<open>Close\<close>, with each lock-protected section an operation.
    \<^item> \<open>EventBus\<close>: \<^verbatim>\<open>eventbus/bus.go\<close>. A transition system whose steps are the critical sections and
      channel operations of \<open>Subscribe\<close>, \<open>Publish\<close>, the topic workers and \<open>Close\<close>.
    \<^item> \<open>EventBusShutdown\<close>: the same system once \<open>Close\<close> has begun, with a measure of what is left to do.
    \<^item> \<open>Outbox\<close>: \<^verbatim>\<open>outbox/consumer.go\<close>. Deduplication, retries with capped exponential delays, the
      receive loop, and the \<open>Start\<close>/\<open>Stop\<close> state machine.
    \<^item> \<open>Signatures\<close>: \<open>verifyWebhookSignature\<close> of \<^verbatim>\<open>approval/webhook.go\<close> and \<open>verifySignature\<close> of
      \<^verbatim>\<open>messenger/slack/inbound/verify.go\<close>.
    \<^item> \<open>ToolProposal\<close>: \<^verbatim>\<open>approval/proposal.go\<close>, \<^verbatim>\<open>proposer.go\<close>, \<^verbatim>\<open>proposalstore.go\<close>, \<^verbatim>\<open>events.go\<close>,
      \<^verbatim>\<open>target_source.go\<close>, \<^verbatim>\<open>approval_mode.go\<close>.
    \<^item> \<open>ToolDecision\<close>: \<^verbatim>\<open>approval/webhook.go\<close>, \<^verbatim>\<open>callbacks.go\<close> and the action ids of \<^verbatim>\<open>card.go\<close>: both
      ways to decide a proposal, their claim on the decision, and their interleaving.
    \<^item> \<open>DryRun\<close>: \<^verbatim>\<open>approval/dryrun.go\<close>. The request's bounds, the rewrite that confines a broker call to
      the test channel and project, and \<open>Execute\<close> with everything it asks of the outside, in order.
    \<^item> \<open>FilePath\<close>: \<open>Clean\<close>, \<open>Join\<close> and \<open>Rel\<close> of Go's \<^verbatim>\<open>path/filepath\<close>, over the words of a path.
    \<^item> \<open>ToolManifest\<close>: \<^verbatim>\<open>toolregistry/manifest.go\<close>, \<^verbatim>\<open>config.go\<close>, \<^verbatim>\<open>yaml.go\<close>; error values with their
      dynamic types, for \<open>leafErrType\<close>.
    \<^item> \<open>EffectiveToolset\<close>: \<^verbatim>\<open>toolregistry/scanner.go\<close>, \<^verbatim>\<open>effective.go\<close>. The scan of the sources and the
      flattening by precedence, beside a reference that picks the first contribution of a name.
    \<^item> \<open>ToolRegistry\<close>: \<^verbatim>\<open>toolregistry/registry.go\<close>, \<^verbatim>\<open>events.go\<close>. A transition system of the atomic
      actions of \<open>Acquire\<close>, its release and \<open>Recompute\<close>, for any number of goroutines.
    \<^item> \<open>ToolSync\<close>: \<^verbatim>\<open>toolregistry/scheduler.go\<close>. \<open>SyncOnce\<close> over an abstract disk.
    \<^item> \<open>FileTree\<close>: a tree of files and the calls of Go's \<^verbatim>\<open>os\<close> package that \<^verbatim>\<open>localpatch/osfs.go\<close> forwards
      to, each of which may fail and leave part of its effect.
    \<^item> \<open>LocalPatch\<close>: \<^verbatim>\<open>localpatch/digest.go\<close>, \<^verbatim>\<open>snapshot.go\<close>, \<^verbatim>\<open>installer.go\<close>, \<^verbatim>\<open>rollback.go\<close>,
      \<^verbatim>\<open>events.go\<close>: install and rollback of a tool's folder. \<open>LocalPatchTree\<close>: paths and copies;
      \<open>LocalPatchDigest\<close>: the digest; \<open>LocalPatchSafe\<close>, \<open>LocalPatchRestore\<close>: the two operations.
    \<^item> \<open>KeepAuth\<close>: \<^verbatim>\<open>keep/auth/auth.go\<close>, \<^verbatim>\<open>keep/server/middleware.go\<close>. The token verifier, the scopes and
      the middleware in front of every route.
    \<^item> \<open>KeepDB\<close>: \<open>WithScope\<close> of \<^verbatim>\<open>keep/db/scope.go\<close>, the tables of \<^verbatim>\<open>deploy/migrations\<close> with row
      security, checks and keys, and the SQL statements of the handlers as operations on them.
    \<^item> \<open>KeepServer\<close>: \<^verbatim>\<open>handlers_write.go\<close>, \<^verbatim>\<open>handlers_human.go\<close>, \<^verbatim>\<open>handlers_read.go\<close>: parser and handler
      of each route, every answer included.
    \<^item> \<open>KeepTenancy\<close>: the router as one step on the tables, the abstract writes it refines, and what
      holds of every sequence of requests.
    \<^item> \<open>KeepClient\<close>: \<^verbatim>\<open>keepclient\<close>: \<open>do\<close> with its error mapping and the typed calls.
    \<^item> \<open>KeepRoundtrip\<close>, \<open>KeepServed\<close>: handlers one after the other, and the client on a transport that
      is the server; the log writer of \<^verbatim>\<open>keeperslog/writer.go\<close>.
    \<^item> \<open>Watchmaster\<close>: \<^verbatim>\<open>watchmaster_writes.go\<close>, \<^verbatim>\<open>retire_watchkeeper.go\<close>, \<^verbatim>\<open>promote_to_keep.go\<close>,
      \<^verbatim>\<open>slack_app.go\<close>; every call to the outside is recorded with its outcome.
    \<^item> \<open>WatchmasterKeep\<close>: the manifest tools on the served Keep.
    \<^item> \<open>CostReport\<close>: \<^verbatim>\<open>llm/cost/cost.go\<close>, \<^verbatim>\<open>watchmaster_tools.go\<close>, \<^verbatim>\<open>handlers_cost_rollup.go\<close>.
    \<^item> \<open>EventFrame\<close>: the frames of the event stream, written by \<^verbatim>\<open>keep/server/handlers_subscribe.go\<close> and
      read by \<open>scanEvent\<close> of \<^verbatim>\<open>keepclient/subscribe.go\<close>.
    \<^item> \<open>PublishRegistry\<close>, \<open>PublishStream\<close>: \<^verbatim>\<open>keep/publish/registry.go\<close> and \<^verbatim>\<open>outbox.go\<close>, the subscription
      handler and the shutdown order of \<open>Server.Run\<close> as one transition system, a poll cut at each
      publication; its invariants and what a client reads at the end.
    \<^item> \<open>KeepSubscribe\<close>, \<open>ResilientStream\<close>: \<^verbatim>\<open>keepclient/subscribe.go\<close> and \<^verbatim>\<open>subscribe_resilient.go\<close>: one
      connection, and \<open>Next\<close> with reconnection, back-off and deduplication.
    \<^item> \<open>KeepWorld\<close>, \<open>WatchmasterWorld\<close>, \<open>CostWorld\<close>, \<open>StreamWorld\<close>, \<open>LocalPatchWorld\<close>: concrete tables,
      requests, clients, streams and file trees on which the hypotheses of these theories hold.
    \<^item> \<open>Spec2Isabelle\<close> (this theory): what spans components.

  \<^bold>\<open>How state and operations are rendered.\<close> A struct is a record, a mutex-protected method a function
  from the state to the new state and the results, an error a value of \<open>goerr option\<close> or the left of a
  sum. Where the code releases its lock in the middle of an operation, the operation is cut there and
  the parts are interleaved: the event bus, the broker's \<open>Issue\<close>, the kickoffs, and the decision
  handlers. What the code gets from elsewhere (audit writer, publisher, clock, UUID generator and parser, HMAC,
  JSON decoding, the platform seams of a saga step) is a parameter: a function of what it was asked so far, or for a
  single request the answers it gives that request. For the Keep these are what Postgres does with a
  value (the cast of a text to \<open>uuid\<close>, \<open>jsonb\<close> or \<open>real\<close>, \<open>gen_random_uuid\<close>, \<open>now\<close>, the vector index),
  the JSON decoder's outcome on a body, and the fault, if any, of every round trip of a transaction;
  a transaction is one step, which its isolation and the row lock of the status change allow.

  \<^bold>\<open>Interfaces.\<close> \<open>spawn_saga_dao\<close>, \<open>slack_app_creds\<close>, \<open>pending_approval_dao\<close> and \<open>decision_recorder\<close> are locales: the
  operations a client calls and the laws the Go interface documents. The clients are proved inside them,
  and each is interpreted by the in-memory store of the code (\<open>mem\<close>, \<open>mcr\<close>, \<open>pam\<close>, \<open>mdr\<close>). \<open>manifest_store\<close>
  is the contract under which the Watchmaster adjusts a manifest; \<open>keep\<close> interprets it by the client, the
  server and the tables behind it.

  \<^bold>\<open>What is shown.\<close> The saga runner refines an abstract saga; a failing step rolls back the earlier ones
  in reverse order, independently of the caller's context. One approval runs a saga at most once, in
  sequence and for concurrent duplicates; a rejected audit row makes a saga unreachable by further
  clicks. A failed spawn makes exactly the undoing calls of the steps that had succeeded, a step that
  fails after the platform acted undoes that itself, and an agent is retired only after it was archived;
  but a kickoff passes no OAuth code, so no spawn gets past the install step. A pending approval is resolved once, and no token reaches
  the kickoff or the replayer twice, however clicks interleave. A token validates for its scope and tenant only, until
  it expires, is revoked or the broker closes; no token text reaches the log. The bus never sends on
  a closed channel, keeps the order of each topic, and has dispatched everything it accepted when
  \<open>Close\<close> returns, which it does after a bounded number of steps of the bus's own goroutines, on every run
  that is weakly fair to them. The outbox does not publish a recorded id again within its window, and retries a
  bounded number of times. A signed request is accepted exactly when its signature and time are right,
  up to an underflow in the far future. A tool decision is published at most once under every
  interleaving, a failed publication gives its claim back, no unauthenticated request has an effect,
  and no private text of a proposal leaves the handlers. A dry run reaches no broker but in the test
  channel and project, and leaves a record of every forward. The effective toolset is the reference
  flattening, independent of corrupt sources; every snapshot ever current is well formed and stays what
  it was for those who acquired it, reference counts count them, and the events of two recomputes do not
  mix, though they may come out of order. A sync touches only paths below the tools directory and
  announces its outcome; it cannot take back a source its verifier refuses. A local patch touches one
  tool only, an install loses no tree whatever call fails half-way, but for a live tree it cannot
  \<open>Stat\<close> and for a snapshot an earlier failure left incomplete; what it publishes describes the tree that
  is live, unless the folder overlaps the tool's own directories, and a rollback restores what an install
  replaced, or the older snapshot of that version. No handler of the Keep runs
  without a claim that was signed, and every request refines at most one abstract write of its own
  tenant; so the tables stay consistent, a watchkeeper only moves from pending to active to retired, the
  log only grows and names the true actor, and no tenant changes what another has, but that a
  watchkeeper can be pushed onto another tenant's human, and that four reads know no tenant. Client,
  server and table agree on what a valid manifest version is, and a version put is the version read when
  its number is the highest. The
  Watchmaster does nothing privileged without a grant, a token and an audit row before and after; an
  adjustment changes one field; a spawn cannot be proposed for a fresh agent, since no route creates its
  manifest. A completed turn is in the next cost report, and over the same rows report and roll-ups
  agree. A
  row of the Keep's outbox is marked published only when its event was fanned out, a poll without faults
  leaves none behind, and a subscriber reads, from the bytes on the wire, its events in order and without
  a gap until it is cut off, up to an event whose type breaks its line; the reconnecting client loses nothing it was sent, and an outage costs it a
  bounded number of attempts, though a server that ends each connection at once holds \<open>Next\<close> for ever.

  \<^bold>\<open>Bounds.\<close> Every definition but one is total without fuel: the loops are over lists, over the attempts
  left, or over the shrinking string. \<open>resilient_next\<close> may reconnect for ever and is an option whose
  \<open>None\<close> is not to return. Durations and timestamps are \<open>int64\<close> and wrap; counters and lengths
  that the code keeps far below \<open>2 ^ 63\<close> are natural numbers. The clock of \<open>Signatures\<close> is assumed to
  read between 1970 and 2242. The registry's reference counts are 32-bit words, its revisions \<open>int64\<close>;
  \<open>close_work\<close> is the measure of the bus's shutdown.

  \<^bold>\<open>What is not modelled.\<close> Panics and their recovery (except in a compensation, where the code recovers),
  goroutine scheduling inside an atomic section, the constructors' nil checks, floating-point jitter
  (a parameter), and everything that is I/O: the Slack, GitHub and Jira clients, the notebook files, the
  harness processes. In a file tree a link is what a walk
  skips. The per-tool mutex of a local patch makes one operation the unit, and the per-source mutex of the
  scheduler makes one sync the unit, so syncs of two sources are not interleaved. Not yet modelled are
  the tool registry's subscription and the text of its messages, the reviewer, the rate limiter and the
  runtime's authority checks.
\<close>

text \<open>
  The kickoffer's catch-up branch is out of the dispatcher's reach. When the writer refuses the
  approval row of a \<open>propose_spawn\<close> kickoff, the saga row stays \<open>pending\<close> with no step run, and no
  further click on the token ever reaches the kickoff: its pending approval is already resolved.
\<close>

theorem catch_up_unreachable_by_clicks:
  assumes "dp_dao d = mem_pa_ops" "dp_kickoff d = spawn_kickoff k" "kk_dao k = mem_ops"
    and "mp_rows (di_dao st) t = Some r" "\<not> terminal r" "pa_tool_name r = ''propose_spawn''"
    and "click_of d p = Some (tool, t, ''approved'')"
    and "manifest_version_id_from_params d (pa_params_json r) = Inr mv"
    and "resolve_spawn_claim d c mv = Inr claim"
    and "sid = dp_uuid_new d (di_uuids st)" "wk = dp_uuid_new d (Suc (di_uuids st))"
    and "kickoff_args_ok sid mv wk t" "mem_inv (run_dao (di_world st))"
    and "md_rows (run_dao (di_world st)) sid = None"
    and "\<forall>j r. md_rows (run_dao (di_world st)) j = Some r \<longrightarrow> sg_idempotency_key r \<noteq> t"
    and "kk_logger k (run_log (di_world st)) (ev_spawn_approved k t (ids_row sid mv wk t)) = Some e"
    and "\<forall>p \<in> set ps. \<exists>tool x. click_of d p = Some (tool, t, x)"
  shows "let st' = dispatch_all d c ps (fst (dispatch_interaction d c p st))
         in run_world (di_world st') = run_world (di_world st)
          \<and> (\<exists>row. md_rows (run_dao (di_world st')) sid = Some row \<and> row_of sid mv wk t row
               \<and> sg_status row = SagaStatePending)"
proof -
  have valid: "valid_decision ''approved''" by (simp add: valid_decision_def)
  from pam.click_resolves [OF assms(1,4,5) valid, of c tool] obtain s' r' where
    s': "mp_rows s' = (mp_rows (di_dao st))(t \<mapsto> r')" "resolved_to ''approved'' r r'"
      "dispatch_click d c tool t ''approved'' st = dispatch_approved d c tool t
         (append_resolved d tool t ''approved'' []
            ((append_action_received d tool t ''approved'' [] st)\<lparr>di_dao := s'\<rparr>))"
    by (auto simp: Let_def)
  have get: "pa_get mem_pa_ops s' t = Inr r'" and r': "terminal r'"
    using pam.get_law [of s' t] s'(1,2) by (simp_all add: terminal_def resolved_to_def)
  from mem.kickoff_refused [OF assms(3,13,12,14-16), of c claim] obtain w' row where
    kick: "spawn_kickoff k c sid mv wk claim t (di_world st)
        = (w', Some (errorf ''spawn: kickoff: append manifest_approved_for_spawn'' e))"
      "run_world w' = run_world (di_world st)"
      "md_rows (run_dao w') = (md_rows (run_dao (di_world st)))(sid \<mapsto> row)"
      "row_of sid mv wk t row" "sg_status row = SagaStatePending" by blast
  let ?st1 = "fst (dispatch_interaction d c p st)"
  have st1: "di_world ?st1 = w'" "mp_rows (di_dao ?st1) t = Some r'"
    using s' get assms(1,2,6-11) dispatch_interaction_click [OF assms(7), of c st] valid kick(1)
    by (auto simp: dispatch_approved_def append_rows resolved_to_def)
  then show ?thesis
    using pam.dead_token_clicks_inert [OF assms(1) st1(2) r' assms(17), of c] kick(2-)
    by (simp add: Let_def)
qed

text \<open>A writer that refuses every row.\<close>

definition demo_down :: "(mem_pa, spawn_ctx, (mem_dao, uuid list) saga_run) dispatcher" where
  "demo_down =
     \<lparr>dp_dao = mem_pa_ops, dp_replay = (\<lambda>_ _ _ _ w. (w, None)),
      dp_kickoff = spawn_kickoff (demo_kick (\<lambda>_ _. Some [Text ''down''])),
      dp_audit = True, dp_claim_resolver = Some (\<lambda>_ _. Inr demo_claim), dp_uuid_new = (\<lambda>n. of_nat (n + 1)),
      dp_uuid_parse = (\<lambda>_. Inr 9), dp_json_actions = (\<lambda>s. Inr [(s, ''approved'')]),
      dp_json_manifest_version_id = (\<lambda>s. Inr s), dp_type_name = (\<lambda>_. ''*errors.errorString'')\<rparr>"

definition demo_down_state :: "(mem_pa, (mem_dao, uuid list) saga_run) dispatch_state" where
  "demo_down_state = \<lparr>di_dao = di_dao (demo_dispatch_state ''pending''), di_log = [], di_world = demo_start,
     di_uuids = 0\<rparr>"

theorem catch_up_unreachable_by_clicks_witness:
  "run_world (di_world (dispatch_all demo_down demo_ctx [demo_click, demo_click]
     (fst (dispatch_interaction demo_down demo_ctx demo_click demo_down_state)))) = []"
proof -
  let ?k = "demo_kick (\<lambda>_ _. Some [Text ''down''])"
  have 1: "dp_dao demo_down = mem_pa_ops" "dp_kickoff demo_down = spawn_kickoff ?k" "kk_dao ?k = mem_ops"
    "mp_rows (di_dao demo_down_state) ''a:b'' = Some (demo_pending ''pending'')"
    "\<not> terminal (demo_pending ''pending'')" "pa_tool_name (demo_pending ''pending'') = ''propose_spawn''"
    by (simp_all add: demo_down_def demo_down_state_def demo_dispatch_simps)
  have click: "click_of demo_down demo_click = Some (''propose_spawn'', ''a:b'', ''approved'')"
    by (simp add: click_of_def demo_down_def demo_click_def decode_action_id_def is_known_tool_def
        numeral_3_eq_3)
  have 2: "manifest_version_id_from_params demo_down (pa_params_json (demo_pending ''pending'')) = Inr 9"
    "resolve_spawn_claim demo_down demo_ctx 9 = Inr demo_claim"
    by (simp_all add: manifest_version_id_from_params_def demo_down_def demo_pending_def resolve_spawn_claim_def)
  have 3: "1 = dp_uuid_new demo_down (di_uuids demo_down_state)"
    "2 = dp_uuid_new demo_down (Suc (di_uuids demo_down_state))"
    by (simp_all add: demo_down_def demo_down_state_def)
  have "\<not> blank ''a:b''" by code_simp
  then have 4: "kickoff_args_ok 1 9 2 ''a:b''" by (simp add: kickoff_args_ok_def)
  have w: "di_world demo_down_state = demo_start" by (simp add: demo_down_state_def)
  have 5: "mem_inv (run_dao (di_world demo_down_state))"
    "md_rows (run_dao (di_world demo_down_state)) 1 = None"
    "\<forall>j r. md_rows (run_dao (di_world demo_down_state)) j = Some r \<longrightarrow> sg_idempotency_key r \<noteq> ''a:b''"
    "kk_logger ?k (run_log (di_world demo_down_state)) (ev_spawn_approved ?k ''a:b'' (ids_row 1 9 2 ''a:b''))
       = Some [Text ''down'']"
    by (simp_all add: w)
  have 6: "\<forall>p \<in> set [demo_click, demo_click]. \<exists>tool x. click_of demo_down p = Some (tool, ''a:b'', x)"
    using click by simp
  from catch_up_unreachable_by_clicks [OF 1 click 2 3 4 5 6] show ?thesis
    by (simp add: Let_def w)
qed

end
